(* ===== verification/Prelude.thy ===== *)
theory Prelude
  imports Main "HOL-Library.Word" "HOL-Library.Sublist"
begin

unbundle bit_operations_syntax

text \<open>
  The shared vocabulary of the development.

  \<^item> The machine types of the C code: \<open>byte\<close> (u8, BYTE, char), \<open>u32\<close> (u32, UINT,
    unsigned int).  A C \<open>int\<close> is an \<open>int\<close> where the code only counts with it, and a
    word read with \<open>sint\<close> where its width matters.
  \<^item> Errors as values: \<open>'e + 'a\<close> with \<open>Inl\<close> the fault, sequenced with \<open>bindE\<close>.
  \<^item> The part of the kernel's C library the modules use: NUL-terminated strings as
    \<open>string\<close> without the NUL, \<open>strsep\<close>, \<open>strstr\<close>, \<open>memchr\<close>,
    \<open>simple_strtoul\<close> with base 0, \<open>sprintf\<close> of decimal numbers, \<open>list_add\<close> (which inserts
    at the head of a list) and the byte queue \<open>kfifo\<close>.
  The generic lemmas about them are collected in \<open>cstr\<close>, \<open>fifo\<close> and \<open>err\<close>.
\<close>

named_theorems cstr \<open>facts about C strings and tokens\<close>
named_theorems fifo \<open>facts about the kernel byte queue\<close>
named_theorems err \<open>facts about sequencing with errors\<close>

section \<open>Machine types and errors\<close>

type_synonym byte = "8 word"
type_synonym u32 = "32 word"

text \<open>
  The faults of the kernel code: a dereference of a null pointer, an access outside an array,
  a shift by at least the width of the operand, a format directive without an argument, a division by zero.
\<close>

datatype fault = NullDeref | BufOverrun | BadShift | BadFormat | DivByZero

definition bindE :: "'e + 'a \<Rightarrow> ('a \<Rightarrow> 'e + 'b) \<Rightarrow> 'e + 'b" where
  "bindE r f = (case r of Inl e \<Rightarrow> Inl e | Inr a \<Rightarrow> f a)"

lemma bindE_simps [simp, err]:
  "bindE (Inl e) f = Inl e" "bindE (Inr a) f = f a"
  by (simp_all add: bindE_def)

lemma bindE_assoc [err]: "bindE (bindE r f) g = bindE r (\<lambda>a. bindE (f a) g)"
  by (cases r) simp_all

lemma bindE_eq_Inr_iff [err]: "bindE r f = Inr b \<longleftrightarrow> (\<exists>a. r = Inr a \<and> f a = Inr b)"
  by (cases r) auto

text \<open>A loop over a list that stops at the first fault.\<close>

fun foldE :: "('a \<Rightarrow> 's \<Rightarrow> 'e + 's) \<Rightarrow> 'a list \<Rightarrow> 's \<Rightarrow> 'e + 's" where
  "foldE f [] s = Inr s"
| "foldE f (x # xs) s = bindE (f x s) (foldE f xs)"

lemma foldE_append [err]: "foldE f (xs @ ys) s = bindE (foldE f xs s) (foldE f ys)"
proof (induction xs arbitrary: s)
  case (Cons x xs)
  then show ?case by (cases "f x s") simp_all
qed simp

lemma foldE_invariant:
  assumes "\<And>x s s'. x \<in> set xs \<Longrightarrow> P s \<Longrightarrow> f x s = Inr s' \<Longrightarrow> P s'"
    and "P s" and "foldE f xs s = Inr s'"
  shows "P s'"
  using assms
proof (induction xs arbitrary: s)
  case Nil
  then show ?case by simp
next
  case (Cons x xs)
  from Cons.prems(3) obtain t where t: "f x s = Inr t" and rest: "foldE f xs t = Inr s'"
    by (auto simp: bindE_eq_Inr_iff)
  from Cons.prems(1,2) t have "P t" by (meson list.set_intros(1))
  moreover have "\<And>x s s'. x \<in> set xs \<Longrightarrow> P s \<Longrightarrow> f x s = Inr s' \<Longrightarrow> P s'"
    using Cons.prems(1) by (meson list.set_intros(2))
  ultimately show ?case using Cons.IH rest by blast
qed

text \<open>The same for an operation that may not return: \<open>None\<close>.\<close>

definition bindO :: "fault + 'a option \<Rightarrow> ('a \<Rightarrow> fault + 'b option) \<Rightarrow> fault + 'b option" where
  "bindO r f = bindE r (\<lambda>x. case x of None \<Rightarrow> Inr None | Some a \<Rightarrow> f a)"

lemma bindO_simps [simp, err]:
  "bindO (Inl e) f = Inl e" "bindO (Inr None) f = Inr None" "bindO (Inr (Some a)) f = f a"
  by (simp_all add: bindO_def)

lemma bindO_eq_Some_iff [err]: "bindO r f = Inr (Some b) \<longleftrightarrow> (\<exists>a. r = Inr (Some a) \<and> f a = Inr (Some b))"
  by (auto simp: bindO_def bindE_eq_Inr_iff split: option.splits)

section \<open>Words\<close>

lemma unat_Suc_small:
  fixes w :: "'a::len word"
  assumes "unat w < n" and "n < 2 ^ LENGTH('a)"
  shows "unat (w + 1) = Suc (unat w)"
proof -
  have "unat w + 1 < 2 ^ LENGTH('a)" using assms by linarith
  then show ?thesis by (simp add: unat_word_ariths)
qed

lemma ucast_byte_u32 [simp]: "ucast (ucast (b :: byte) :: u32) = b"
  by (rule bit_word_eqI) (auto simp: bit_simps)

lemma unat_ucast_byte [simp]: "unat (ucast (b :: byte) :: u32) = unat b"
proof -
  have "unat b < 2 ^ 32" using unsigned_less [of b, where ?'a = nat] by simp
  then show ?thesis by (simp add: unsigned_ucast_eq take_bit_nat_eq_self)
qed

text \<open>An int in memory (little endian).\<close>

definition int_bytes :: "u32 \<Rightarrow> byte list" where
  "int_bytes w = [ucast w, ucast (drop_bit 8 w), ucast (drop_bit 16 w), ucast (drop_bit 24 w)]"

definition bytes_int :: "byte list \<Rightarrow> u32" where
  "bytes_int bs =
     ucast (bs ! 0) OR push_bit 8 (ucast (bs ! 1)) OR push_bit 16 (ucast (bs ! 2))
       OR push_bit 24 (ucast (bs ! 3))"

lemma bytes_int_bytes [simp]: "bytes_int (int_bytes w @ r) = w"
proof (rule bit_word_eqI)
  fix n
  assume "n < LENGTH(32)"
  then have "n < 8 \<or> 8 \<le> n \<and> n < 16 \<or> 16 \<le> n \<and> n < 24 \<or> 24 \<le> n \<and> n < 32" by auto
  then show "bit (bytes_int (int_bytes w @ r)) n = bit w n"
    by (elim disjE) (auto simp: bytes_int_def int_bytes_def bit_simps)
qed

lemma bytes_int_bytes_Nil [simp]: "bytes_int (int_bytes w) = w"
  using bytes_int_bytes [of w "[]"] by simp

lemma length_int_bytes [simp]: "length (int_bytes w) = 4"
  by (simp add: int_bytes_def)

text \<open>A signed 32-bit result.\<close>

definition wrap32 :: "int \<Rightarrow> int" where
  "wrap32 i = (i + 2 ^ 31) mod 2 ^ 32 - 2 ^ 31"

lemma wrap32_add: "wrap32 (wrap32 a + b) = wrap32 (a + b)"
proof -
  have "((a + 2 ^ 31) mod 2 ^ 32 + b) mod 2 ^ 32 = (a + 2 ^ 31 + b) mod (2 ^ 32 :: int)" by (rule mod_add_left_eq)
  then show ?thesis by (simp add: wrap32_def algebra_simps)
qed

lemma wrap32_id: "- (2 ^ 31) \<le> i \<Longrightarrow> i < 2 ^ 31 \<Longrightarrow> wrap32 i = i"
  by (simp add: wrap32_def)

section \<open>C strings\<close>

text \<open>
  \<open>strsep(&p, seps)\<close> returns the text before the first separator and moves \<open>p\<close> behind it, or
  to NULL when there is none; the usual loop around it runs until \<open>p\<close> is NULL.
\<close>

definition strsep :: "char list \<Rightarrow> string \<Rightarrow> string \<times> string option" where
  "strsep seps s =
     (takeWhile (\<lambda>c. c \<notin> set seps) s,
      case dropWhile (\<lambda>c. c \<notin> set seps) s of [] \<Rightarrow> None | _ # r \<Rightarrow> Some r)"

lemma strsep_shorter: "strsep seps s = (t, Some r) \<Longrightarrow> length r < length s"
  using length_dropWhile_le [of "\<lambda>c. c \<notin> set seps" s]
  by (auto simp: strsep_def split: list.splits)

lemma strsep_split: "strsep seps s = (t, Some r) \<Longrightarrow> \<exists>c. c \<in> set seps \<and> s = t @ c # r"
proof -
  assume st: "strsep seps s = (t, Some r)"
  then obtain c where c: "dropWhile (\<lambda>c. c \<notin> set seps) s = c # r" "t = takeWhile (\<lambda>c. c \<notin> set seps) s"
    by (auto simp: strsep_def split: list.splits)
  then have "c \<in> set seps" by (metis hd_dropWhile list.distinct(1) list.sel(1))
  with c show ?thesis by (metis takeWhile_dropWhile_id)
qed

lemma strsep_last: "strsep seps s = (t, None) \<Longrightarrow> t = s"
  by (auto simp: strsep_def split: list.splits)

lemma strsep_kv: "c \<notin> set k \<Longrightarrow> strsep [c] (k @ c # v) = (k, Some v)"
proof -
  assume "c \<notin> set k"
  then have "takeWhile (\<lambda>d. d \<noteq> c) (k @ c # v) = k" "dropWhile (\<lambda>d. d \<noteq> c) (k @ c # v) = c # v"
    by (induction k) auto
  then show ?thesis by (simp add: strsep_def)
qed

lemma strsep_none: "c \<notin> set t \<Longrightarrow> strsep [c] t = (t, None)"
  by (induction t) (auto simp: strsep_def)

function strsep_all :: "char list \<Rightarrow> string \<Rightarrow> string list" where
  "strsep_all seps s =
     (case strsep seps s of
        (t, None) \<Rightarrow> [t]
      | (t, Some r) \<Rightarrow> t # strsep_all seps r)"
  by pat_completeness auto
termination
  by (relation "measure (\<lambda>(seps, s). length s)") (auto dest: strsep_shorter [OF sym])

declare strsep_all.simps [simp del]

lemma strsep_all_Cons:
  "strsep_all seps (c # s) =
     (if c \<in> set seps then [] # strsep_all seps s
      else (c # hd (strsep_all seps s)) # tl (strsep_all seps s))"
proof (cases "c \<in> set seps")
  case True
  then show ?thesis
    by (subst strsep_all.simps) (simp add: strsep_def)
next
  case False
  obtain t r where tr: "strsep seps s = (t, r)" by (cases "strsep seps s")
  with False have c: "strsep seps (c # s) = (c # t, r)" by (simp add: strsep_def)
  show ?thesis
    unfolding strsep_all.simps [of seps "c # s"] strsep_all.simps [of seps s] tr c
    using False by (cases r) simp_all
qed

lemma strsep_all_Nil [simp]: "strsep_all seps [] = [[]]"
  by (subst strsep_all.simps) (simp add: strsep_def)

lemma strsep_all_nonempty [simp]: "strsep_all seps s \<noteq> []"
  by (cases s) (simp_all add: strsep_all_Cons)

text \<open>Joining the tokens with the separator gives the string back.\<close>

fun join :: "char \<Rightarrow> string list \<Rightarrow> string" where
  "join c [] = []"
| "join c [t] = t"
| "join c (t # u # ts) = t @ c # join c (u # ts)"

lemma join_Cons_tok: "ts \<noteq> [] \<Longrightarrow> join c ((d # hd ts) # tl ts) = d # join c ts"
  by (cases ts; cases "tl ts") auto

lemma join_strsep_all [cstr]: "join c (strsep_all [c] s) = s"
proof (induction s)
  case (Cons d s)
  have "join c ([] # ts) = c # join c ts" if "ts \<noteq> []" for ts
    using that by (cases ts) auto
  with Cons show ?case by (auto simp: strsep_all_Cons join_Cons_tok)
qed simp

lemma set_join: "set (join c ts) \<subseteq> insert c (\<Union> (set ` set ts))"
  by (induction c ts rule: join.induct) auto

lemma strsep_all_no_sep [cstr]: "t \<in> set (strsep_all seps s) \<Longrightarrow> set t \<inter> set seps = {}"
proof (induction s arbitrary: t)
  case (Cons d s)
  obtain u us where u: "strsep_all seps s = u # us"
    by (meson list.exhaust strsep_all_nonempty)
  with Cons.IH have "set v \<inter> set seps = {}" if "v = u \<or> v \<in> set us" for v
    using that by auto
  with Cons.prems u show ?case by (fastforce simp: strsep_all_Cons split: if_splits)
qed simp

lemma strsep_all_append_sep:
  "c \<in> set seps \<Longrightarrow> strsep_all seps (s @ c # r) = strsep_all seps s @ strsep_all seps r"
  by (induction s) (simp_all add: strsep_all_Cons)

lemma strsep_all_plain [cstr]: "set s \<inter> set seps = {} \<Longrightarrow> strsep_all seps s = [s]"
  by (induction s) (auto simp: strsep_all_Cons)

lemma strsep_all_join [cstr]:
  "ts \<noteq> [] \<Longrightarrow> \<forall>t \<in> set ts. c \<notin> set t \<Longrightarrow> strsep_all [c] (join c ts) = ts"
proof (induction c ts rule: join.induct)
  case (3 c t u ts)
  then show ?case by (simp add: strsep_all_append_sep strsep_all_plain)
qed (simp_all add: strsep_all_plain)

text \<open>\<open>strstr(s, t) != NULL\<close>.\<close>

definition strstr :: "string \<Rightarrow> string \<Rightarrow> bool" where
  "strstr s t = sublist t s"

text \<open>
  An argument vector whose unused slots are NULL: reading a string argument that was not given
  dereferences NULL.
\<close>

definition arg :: "string list \<Rightarrow> nat \<Rightarrow> fault + string" where
  "arg argv i = (if i < length argv then Inr (argv ! i) else Inl NullDeref)"

section \<open>Numbers as text\<close>

text \<open>\<open>simple_strtoul(s, 0, 0)\<close>: the base is guessed from the prefix, reading stops at the first
  character that is no digit of the base, the value wraps at 32 bit.\<close>

definition digit_of :: "char \<Rightarrow> nat" where
  "digit_of c =
     (let n = of_char c in
      if 48 \<le> n \<and> n \<le> 57 then n - 48
      else if 97 \<le> n \<and> n \<le> 102 then n - 87
      else if 65 \<le> n \<and> n \<le> 70 then n - 55
      else 99)"

fun strtoul_digits :: "nat \<Rightarrow> nat \<Rightarrow> string \<Rightarrow> nat" where
  "strtoul_digits base acc [] = acc"
| "strtoul_digits base acc (c # s) =
     (if digit_of c < base then strtoul_digits base (acc * base + digit_of c) s else acc)"

definition strtoul_nat :: "string \<Rightarrow> nat" where
  "strtoul_nat s =
     (if take 1 s = ''0'' then
        (if 3 \<le> length s \<and> (s ! 1 = CHR ''x'' \<or> s ! 1 = CHR ''X'') \<and> digit_of (s ! 2) < 16
         then strtoul_digits 16 0 (drop 2 s)
         else strtoul_digits 8 0 s)
      else strtoul_digits 10 0 s)"

definition simple_strtoul :: "string \<Rightarrow> u32" where
  "simple_strtoul s = of_nat (strtoul_nat s)"

text \<open>\<open>%d\<close> of \<open>sprintf\<close>.\<close>

fun show_nat :: "nat \<Rightarrow> string" where
  "show_nat n =
     (if n < 10 then [char_of (48 + n)] else show_nat (n div 10) @ [char_of (48 + n mod 10)])"

declare show_nat.simps [simp del]

definition show_int :: "int \<Rightarrow> string" where
  "show_int i = (if i < 0 then CHR ''-'' # show_nat (nat (- i)) else show_nat (nat i))"

lemma digit_of_decimal [simp]: "d < 10 \<Longrightarrow> digit_of (char_of (48 + d)) = d"
  by (simp add: digit_of_def Let_def)

lemma strtoul_digits_append:
  "\<forall>c \<in> set s. digit_of c < base \<Longrightarrow>
     strtoul_digits base acc (s @ t) = strtoul_digits base (strtoul_digits base acc s) t"
  by (induction s arbitrary: acc) auto

lemma show_nat_digits: "c \<in> set (show_nat n) \<Longrightarrow> digit_of c < 10"
proof (induction n rule: show_nat.induct)
  case (1 n)
  then show ?case by (subst (asm) show_nat.simps) (auto split: if_splits)
qed

lemma show_nat_nonempty [simp]: "show_nat n \<noteq> []"
  by (subst show_nat.simps) simp

lemma length_show_nat: "n < 10 ^ k \<Longrightarrow> 0 < k \<Longrightarrow> length (show_nat n) \<le> k"
proof (induction k arbitrary: n)
  case (Suc k)
  show ?case
  proof (cases "n < 10")
    case True
    then show ?thesis by (subst show_nat.simps) simp
  next
    case False
    then have "0 < k" using Suc.prems(1) by (cases k) auto
    moreover have "n div 10 < 10 ^ k" using Suc.prems(1) by (simp add: div_less_iff_less_mult mult.commute)
    ultimately
    show ?thesis using Suc.IH [of "n div 10"] False by (subst show_nat.simps) simp
  qed
qed simp

lemma length_show_int: "\<bar>i\<bar> < 10 ^ k \<Longrightarrow> 0 < k \<Longrightarrow> length (show_int i) \<le> k + 1"
proof -
  assume i: "\<bar>i\<bar> < 10 ^ k" and k: "0 < k"
  have "nat \<bar>i\<bar> < 10 ^ k" using i by (simp add: nat_less_iff)
  with length_show_nat [OF this k] show ?thesis by (auto simp: show_int_def abs_if split: if_splits)
qed

lemma strtoul_digits_show_nat: "strtoul_digits 10 0 (show_nat n) = n"
proof (induction n rule: show_nat.induct)
  case (1 n)
  show ?case
  proof (cases "n < 10")
    case True
    then show ?thesis by (simp add: show_nat.simps)
  next
    case False
    then have "strtoul_digits 10 0 (show_nat n)
        = strtoul_digits 10 (strtoul_digits 10 0 (show_nat (n div 10))) [char_of (48 + n mod 10)]"
      by (subst show_nat.simps) (simp add: strtoul_digits_append show_nat_digits)
    also have "\<dots> = n div 10 * 10 + n mod 10" using 1 False by simp
    finally show ?thesis by simp
  qed
qed

lemma show_nat_lead: "take 1 (show_nat n) = ''0'' \<longleftrightarrow> n = 0"
proof (induction n rule: show_nat.induct)
  case (1 n)
  show ?case
  proof (cases "n < 10")
    case True
    have tb: "take_bit 8 (48 + n) = 48 + n" using True by (simp add: take_bit_nat_eq_self)
    have "char_of (48 + n) = CHR ''0'' \<longleftrightarrow> n = 0"
      using char_of_eq_iff [of "48 + n" "CHR ''0''"] by (simp add: tb)
    with True show ?thesis by (simp add: show_nat.simps)
  next
    case False
    then have "take 1 (show_nat n) = take 1 (show_nat (n div 10))"
      by (subst show_nat.simps) (simp add: Suc_le_eq)
    with 1 False show ?thesis by simp
  qed
qed

lemma strtoul_show_nat: "strtoul_nat (show_nat n) = n"
proof (cases "n = 0")
  case True
  then show ?thesis by (simp add: strtoul_nat_def show_nat.simps digit_of_def)
next
  case False
  then show ?thesis using show_nat_lead [of n] strtoul_digits_show_nat [of n] by (simp add: strtoul_nat_def)
qed

lemma strtoul_show_int: "simple_strtoul (show_int i) = (if 0 \<le> i then of_int i else 0)"
proof (cases "0 \<le> i")
  case True
  then show ?thesis by (simp add: simple_strtoul_def show_int_def strtoul_show_nat)
next
  case False
  then show ?thesis by (simp add: simple_strtoul_def show_int_def strtoul_nat_def digit_of_def)
qed

section \<open>C arrays and files\<close>

text \<open>Storing bytes at the start of a C array.\<close>

definition store_front :: "char list \<Rightarrow> char list \<Rightarrow> fault + char list" where
  "store_front xs buf =
     (if length xs \<le> length buf then Inr (xs @ drop (length xs) buf) else Inl BufOverrun)"

text \<open>\<open>sprintf\<close> stores the text and its NUL.\<close>

definition sprintf_to :: "string \<Rightarrow> char list \<Rightarrow> fault + char list" where
  "sprintf_to s buf = store_front (s @ [CHR 0x00]) buf"

definition store_at :: "nat \<Rightarrow> char \<Rightarrow> char list \<Rightarrow> fault + char list" where
  "store_at i c buf = (if i < length buf then Inr (buf[i := c]) else Inl BufOverrun)"

definition c_string :: "char list \<Rightarrow> string" where
  "c_string buf = takeWhile (\<lambda>c. c \<noteq> CHR 0x00) buf"

lemma c_string_plain: "CHR 0x00 \<notin> set s \<Longrightarrow> c_string (s @ CHR 0x00 # r) = s"
  by (simp add: c_string_def takeWhile_append2 takeWhile_append)

lemma c_string_id: "CHR 0x00 \<notin> set s \<Longrightarrow> c_string s = s"
  by (auto simp: c_string_def takeWhile_eq_all_conv)

text \<open>Files as a map from paths to contents.\<close>

type_synonym files = "string \<Rightarrow> string option"

end
