(* ===== verification/Lpc.thy ===== *)
theory Lpc
  imports Prelude
begin

text \<open>
  The I2C link to the LPC micro-controller, \<^verbatim>\<open>drivers/lpc/lidbg_lpc.c\<close>.

  The host frames a command as \<open>FF 55 (len+1) payload checksum\<close> (\<open>LPCCombinDataStream\<close>);
  the bytes read back from the controller go one by one through the receiver state machine of
  \<open>readFromMCUProcessor\<close>, which hands a complete frame to \<open>LPCdealReadFromMCUAll\<close>.
  The frames given to that handler are recorded in \<open>deals\<close>, the branch it takes in
  \<open>handled\<close> (it is passed the whole array, so a short frame is judged on bytes of an earlier
  one), the printed checksum complaints are
  counted in \<open>crc_errors\<close>.  The receiver stores the payload in an array of 128 bytes without
  comparing the announced length with the array, so a store past its end is the fault
  \<open>BufOverrun\<close>; the dereference of a failed \<open>kmalloc\<close> is the fault \<open>NullDeref\<close>.
  The bytes the I2C controller returns, the level of the request line and the outcome of
  \<open>kmalloc\<close> are arguments.
\<close>

section \<open>State\<close>

definition DATA_BUFF_LENGTH_FROM_MCU :: nat where
  "DATA_BUFF_LENGTH_FROM_MCU = 128"

text \<open>The branches of \<open>LPCdealReadFromMCUAll\<close>: its outer and inner \<open>switch\<close>.\<close>

datatype deal = DealSystem | DealPing | DealIgnored

record fly_hardware_info =
  buffFromMCU :: "byte list"
  buffFromMCUProcessorStatus :: byte
  buffFromMCUFrameLength :: u32
  buffFromMCUFrameLengthMax :: u32
  buffFromMCUCRC :: byte
  deals :: "byte list list"
  handled :: "deal list"
  crc_errors :: nat

text \<open>The device structure is a global, hence zero at start.\<close>

definition GlobalHardwareInfo :: fly_hardware_info where
  "GlobalHardwareInfo =
     \<lparr>buffFromMCU = replicate DATA_BUFF_LENGTH_FROM_MCU 0, buffFromMCUProcessorStatus = 0,
      buffFromMCUFrameLength = 0, buffFromMCUFrameLengthMax = 0, buffFromMCUCRC = 0,
      deals = [], handled = [], crc_errors = 0\<rparr>"

section \<open>Sending\<close>

text \<open>
  \<open>p\<close> stands for the \<open>len\<close> bytes at the caller's pointer.  \<open>None\<close> is the early return while
  the link is disabled, \<open>Some\<close> the buffer given to \<open>SOC_I2C_Send\<close>.  A frame longer than the
  16 byte stack buffer needs \<open>kmalloc\<close>, whose failure is only logged.
\<close>

definition LPCCombinDataStream :: "bool \<Rightarrow> bool \<Rightarrow> byte list \<Rightarrow> fault + byte list option" where
  "LPCCombinDataStream lpc_work_en kmalloc_ok p =
     (if \<not> lpc_work_en then Inr None
      else if 3 + length p + 1 > 16 \<and> \<not> kmalloc_ok then Inl NullDeref
      else
        let n = of_nat (length p) + 1 :: byte;
            checksum = foldl (+) n p
        in Inr (Some ([0xFF, 0x55, n] @ p @ [checksum])))"

section \<open>Receiving\<close>

text \<open>The handler only looks at the mode byte and, for mode 96 hex, at the third byte.\<close>

definition LPCdealReadFromMCUAll :: "byte list \<Rightarrow> deal" where
  "LPCdealReadFromMCUAll p =
     (if p ! 0 = 0x00 then DealSystem
      else if p ! 0 = 0x96 \<and> p ! 2 = 0x7f then DealPing
      else DealIgnored)"

text \<open>One round of the loop of \<open>readFromMCUProcessor\<close>.\<close>

definition mcu_byte :: "byte \<Rightarrow> fly_hardware_info \<Rightarrow> fault + fly_hardware_info" where
  "mcu_byte b h =
     (let st = buffFromMCUProcessorStatus h; n = buffFromMCUFrameLength h;
          mx = buffFromMCUFrameLengthMax h
      in if st = 0 then
           Inr (if b = 0xFF then h\<lparr>buffFromMCUProcessorStatus := 1\<rparr> else h)
         else if st = 1 then
           Inr (h\<lparr>buffFromMCUProcessorStatus :=
                    (if b = 0xFF then 1 else if b = 0x55 then 2 else 0)\<rparr>)
         else if st = 2 then
           Inr (h\<lparr>buffFromMCUProcessorStatus := 3, buffFromMCUFrameLength := 0,
                  buffFromMCUFrameLengthMax := ucast b, buffFromMCUCRC := b\<rparr>)
         else if st = 3 then
           (if n < mx - 1 then
              (if unat n < DATA_BUFF_LENGTH_FROM_MCU then
                 Inr (h\<lparr>buffFromMCU := (buffFromMCU h)[unat n := b],
                        buffFromMCUCRC := buffFromMCUCRC h + b,
                        buffFromMCUFrameLength := n + 1\<rparr>)
               else Inl BufOverrun)
            else if buffFromMCUCRC h = b then
              Inr (h\<lparr>buffFromMCUProcessorStatus := 0,
                     deals := deals h @ [take (unat (mx - 1)) (buffFromMCU h)],
                     handled := handled h @ [LPCdealReadFromMCUAll (buffFromMCU h)]\<rparr>)
            else
              Inr (h\<lparr>buffFromMCUProcessorStatus := 0, crc_errors := crc_errors h + 1\<rparr>))
         else Inr (h\<lparr>buffFromMCUProcessorStatus := 0\<rparr>))"

abbreviation mcu_bytes :: "byte list \<Rightarrow> fly_hardware_info \<Rightarrow> fault + fly_hardware_info" where
  "mcu_bytes \<equiv> foldE mcu_byte"

text \<open>The result says whether the machine is inside a frame, that is, wants more bytes.\<close>

definition readFromMCUProcessor ::
  "byte list \<Rightarrow> fly_hardware_info \<Rightarrow> fault + (bool \<times> fly_hardware_info)" where
  "readFromMCUProcessor p h =
     bindE (mcu_bytes p h) (\<lambda>h'. Inr (buffFromMCUProcessorStatus h' > 1, h'))"

text \<open>\<open>rec\<close> is what \<open>SOC_I2C_Rec_Simple\<close> stores in the buffer of the given length.\<close>

definition actualReadFromMCU ::
  "bool \<Rightarrow> (nat \<Rightarrow> byte list) \<Rightarrow> nat \<Rightarrow> fly_hardware_info \<Rightarrow> fault + (bool \<times> fly_hardware_info)" where
  "actualReadFromMCU lpc_work_en rec n h =
     (if \<not> lpc_work_en then Inr (False, h) else readFromMCUProcessor (rec n) h)"

text \<open>
  The drain loops of the interrupt work and of \<open>LPCResume\<close>: the first read has 12 bytes, the
  following ones 16.  \<open>low\<close> is how often the request line is found low, \<open>rec k\<close> the \<open>k\<close>-th read.
\<close>

fun drain ::
  "bool \<Rightarrow> (nat \<Rightarrow> nat \<Rightarrow> byte list) \<Rightarrow> nat \<Rightarrow> nat \<Rightarrow> nat \<Rightarrow> fly_hardware_info
     \<Rightarrow> fault + fly_hardware_info" where
  "drain en rec k 0 iReadLen h = Inr h"
| "drain en rec k (Suc low) iReadLen h =
     bindE (actualReadFromMCU en (rec k) iReadLen h) (\<lambda>(_, h'). drain en rec (Suc k) low 16 h')"

definition workFlyMCUIIC ::
  "bool \<Rightarrow> (nat \<Rightarrow> nat \<Rightarrow> byte list) \<Rightarrow> nat \<Rightarrow> fly_hardware_info \<Rightarrow> fault + fly_hardware_info" where
  "workFlyMCUIIC en rec low h = drain en rec 0 low 12 h"

text \<open>
  \<open>mcuFirstInit\<close> empties the controller before the interrupt is installed, giving up when the
  line is still low after its 101st read of 32 bytes.  The number of reads is returned with the
  device state.
\<close>

fun first_init_loop ::
  "bool \<Rightarrow> (nat \<Rightarrow> nat \<Rightarrow> byte list) \<Rightarrow> nat \<Rightarrow> nat \<Rightarrow> fly_hardware_info
     \<Rightarrow> fault + (nat \<times> fly_hardware_info)" where
  "first_init_loop en rec 0 count h = Inr (count, h)"
| "first_init_loop en rec (Suc low) count h =
     bindE (actualReadFromMCU en (rec count) 32 h)
       (\<lambda>(_, h'). if count + 1 > 100 then Inr (count + 1, h')
                   else first_init_loop en rec low (count + 1) h')"

definition mcuFirstInit ::
  "bool \<Rightarrow> (nat \<Rightarrow> nat \<Rightarrow> byte list) \<Rightarrow> nat \<Rightarrow> fault + (nat \<times> fly_hardware_info)" where
  "mcuFirstInit en rec low = first_init_loop en rec low 0 GlobalHardwareInfo"

section \<open>Invariant\<close>

text \<open>
  The array keeps its size, and inside a frame the running checksum is the length byte plus the
  stored payload.
\<close>

definition lpc_inv :: "fly_hardware_info \<Rightarrow> bool" where
  "lpc_inv h \<longleftrightarrow>
     length (buffFromMCU h) = DATA_BUFF_LENGTH_FROM_MCU \<and>
     (buffFromMCUProcessorStatus h = 3 \<longrightarrow>
        unat (buffFromMCUFrameLength h) \<le> DATA_BUFF_LENGTH_FROM_MCU \<and>
        buffFromMCUCRC h =
          ucast (buffFromMCUFrameLengthMax h)
            + sum_list (take (unat (buffFromMCUFrameLength h)) (buffFromMCU h)))"

definition lpc_idle :: "fly_hardware_info \<Rightarrow> bool" where
  "lpc_idle h \<longleftrightarrow> lpc_inv h \<and> buffFromMCUProcessorStatus h \<in> {0, 1}"

section \<open>Frames and the receiver\<close>

lemma foldl_plus_byte: "foldl (+) (a :: byte) p = a + sum_list p"
  by (induction p arbitrary: a) (simp_all add: add.assoc)

lemma LPCCombinDataStream_frame:
  "LPCCombinDataStream True True p =
     Inr (Some ([0xFF, 0x55, of_nat (length p) + 1] @ p @ [of_nat (length p) + 1 + sum_list p]))"
  by (simp add: LPCCombinDataStream_def Let_def foldl_plus_byte)

lemma mcu_byte_idle:
  assumes "buffFromMCUProcessorStatus h \<in> {0, 1}"
  shows "mcu_byte 0xFF h = Inr (h\<lparr>buffFromMCUProcessorStatus := 1\<rparr>)"
  using assms by (auto simp: mcu_byte_def Let_def)

lemma mcu_bytes_header:
  assumes "buffFromMCUProcessorStatus h \<in> {0, 1}"
  shows "mcu_bytes [0xFF, 0x55, n] h =
     Inr (h\<lparr>buffFromMCUProcessorStatus := 3, buffFromMCUFrameLength := 0,
            buffFromMCUFrameLengthMax := ucast n, buffFromMCUCRC := n\<rparr>)"
  by (simp add: mcu_byte_idle [OF assms]) (simp add: mcu_byte_def Let_def)

lemma unat_less_word: "unat (a :: u32) < unat b \<Longrightarrow> a < b"
  by (simp add: word_less_nat_alt)

text \<open>Storing one payload byte.\<close>

lemma mcu_byte_store:
  assumes "buffFromMCUProcessorStatus h = 3"
    and "unat (buffFromMCUFrameLength h) < unat (buffFromMCUFrameLengthMax h - 1)"
    and "unat (buffFromMCUFrameLength h) < DATA_BUFF_LENGTH_FROM_MCU"
  shows "mcu_byte b h =
     Inr (h\<lparr>buffFromMCU := (buffFromMCU h)[unat (buffFromMCUFrameLength h) := b],
            buffFromMCUCRC := buffFromMCUCRC h + b,
            buffFromMCUFrameLength := buffFromMCUFrameLength h + 1\<rparr>)"
  using assms by (simp add: mcu_byte_def Let_def unat_less_word)

text \<open>A run of payload bytes is appended to what the frame holds already.\<close>

lemma mcu_bytes_payload:
  assumes "buffFromMCUProcessorStatus h = 3"
    and "unat (buffFromMCUFrameLength h) = k"
    and "k + length ps \<le> unat (buffFromMCUFrameLengthMax h - 1)"
    and "k + length ps \<le> DATA_BUFF_LENGTH_FROM_MCU"
    and "length (buffFromMCU h) = DATA_BUFF_LENGTH_FROM_MCU"
  shows "\<exists>h'. mcu_bytes ps h = Inr h' \<and>
     buffFromMCUProcessorStatus h' = 3 \<and> unat (buffFromMCUFrameLength h') = k + length ps \<and>
     buffFromMCUFrameLengthMax h' = buffFromMCUFrameLengthMax h \<and>
     length (buffFromMCU h') = DATA_BUFF_LENGTH_FROM_MCU \<and>
     take (k + length ps) (buffFromMCU h') = take k (buffFromMCU h) @ ps \<and>
     buffFromMCUCRC h' = buffFromMCUCRC h + sum_list ps \<and>
     deals h' = deals h \<and> handled h' = handled h \<and> crc_errors h' = crc_errors h"
  using assms
proof (induction ps arbitrary: h k)
  case Nil
  then show ?case by simp
next
  case (Cons b ps)
  let ?h = "h\<lparr>buffFromMCU := (buffFromMCU h)[k := b], buffFromMCUCRC := buffFromMCUCRC h + b,
              buffFromMCUFrameLength := buffFromMCUFrameLength h + 1\<rparr>"
  have step: "mcu_byte b h = Inr ?h"
    using Cons.prems by (subst mcu_byte_store) auto
  have k: "k < 128" using Cons.prems by (simp add: DATA_BUFF_LENGTH_FROM_MCU_def)
  then have len: "unat (buffFromMCUFrameLength ?h) = Suc k"
    using unat_Suc_small [of "buffFromMCUFrameLength h" 128] Cons.prems(2) by simp
  from Cons.IH [of ?h "Suc k"] Cons.prems len
  obtain h' where h': "mcu_bytes ps ?h = Inr h'" "buffFromMCUProcessorStatus h' = 3"
    "unat (buffFromMCUFrameLength h') = Suc k + length ps"
    "buffFromMCUFrameLengthMax h' = buffFromMCUFrameLengthMax h"
    "length (buffFromMCU h') = DATA_BUFF_LENGTH_FROM_MCU"
    "take (Suc k + length ps) (buffFromMCU h') = take (Suc k) ((buffFromMCU h)[k := b]) @ ps"
    "buffFromMCUCRC h' = buffFromMCUCRC h + b + sum_list ps"
    "deals h' = deals h" "handled h' = handled h" "crc_errors h' = crc_errors h"
    by auto
  moreover have "take (Suc k) ((buffFromMCU h)[k := b]) = take k (buffFromMCU h) @ [b]"
    using k Cons.prems(5) by (simp add: take_Suc_conv_app_nth DATA_BUFF_LENGTH_FROM_MCU_def)
  ultimately show ?case using step by (auto simp: add.assoc)
qed

text \<open>
  A header followed by a payload of the announced length leaves the machine at the checksum byte
  of a frame that holds exactly this payload.
\<close>

lemma mcu_bytes_frame_body:
  assumes "lpc_idle h" and "length p \<le> DATA_BUFF_LENGTH_FROM_MCU"
  shows "\<exists>h'. mcu_bytes ([0xFF, 0x55, of_nat (length p) + 1] @ p) h = Inr h' \<and>
     buffFromMCUProcessorStatus h' = 3 \<and>
     \<not> buffFromMCUFrameLength h' < buffFromMCUFrameLengthMax h' - 1 \<and>
     unat (buffFromMCUFrameLengthMax h' - 1) = length p \<and>
     length (buffFromMCU h') = DATA_BUFF_LENGTH_FROM_MCU \<and>
     take (length p) (buffFromMCU h') = p \<and>
     buffFromMCUCRC h' = of_nat (length p) + 1 + sum_list p \<and>
     deals h' = deals h \<and> handled h' = handled h \<and> crc_errors h' = crc_errors h"
proof -
  let ?n = "of_nat (length p) + 1 :: byte"
  let ?h = "h\<lparr>buffFromMCUProcessorStatus := 3, buffFromMCUFrameLength := 0,
              buffFromMCUFrameLengthMax := ucast ?n, buffFromMCUCRC := ?n\<rparr>"
  have "unat ?n = Suc (length p)"
    using assms(2) by (simp add: DATA_BUFF_LENGTH_FROM_MCU_def unat_word_ariths unat_of_nat)
  then have "ucast ?n = (of_nat (Suc (length p)) :: u32)"
    by (metis of_nat_unat)
  then have "ucast ?n - 1 = (of_nat (length p) :: u32)" by simp
  then have mx: "unat (ucast ?n - 1 :: u32) = length p"
    using assms(2) by (simp add: DATA_BUFF_LENGTH_FROM_MCU_def unat_of_nat)
  have "mcu_bytes [0xFF, 0x55, ?n] h = Inr ?h"
    using assms(1) by (intro mcu_bytes_header) (auto simp: lpc_idle_def)
  then have hd: "mcu_bytes ([0xFF, 0x55, ?n] @ p) h = mcu_bytes p ?h"
    by (simp only: foldE_append bindE_simps)
  have "length (buffFromMCU ?h) = DATA_BUFF_LENGTH_FROM_MCU"
    using assms(1) by (simp add: lpc_idle_def lpc_inv_def)
  then show ?thesis
    using mcu_bytes_payload [of ?h 0 p] mx assms(2) unfolding hd
    by (auto simp: word_less_nat_alt)
qed

text \<open>The checksum byte closes the frame: a match delivers the payload, a mismatch drops it.\<close>

lemma mcu_byte_close:
  assumes "buffFromMCUProcessorStatus h = 3"
    and "\<not> buffFromMCUFrameLength h < buffFromMCUFrameLengthMax h - 1"
  shows "mcu_byte b h =
     (if buffFromMCUCRC h = b then
        Inr (h\<lparr>buffFromMCUProcessorStatus := 0,
               deals := deals h @ [take (unat (buffFromMCUFrameLengthMax h - 1)) (buffFromMCU h)],
               handled := handled h @ [LPCdealReadFromMCUAll (buffFromMCU h)]\<rparr>)
      else Inr (h\<lparr>buffFromMCUProcessorStatus := 0, crc_errors := crc_errors h + 1\<rparr>))"
  using assms by (simp add: mcu_byte_def Let_def)

lemma mcu_bytes_closed_frame:
  assumes "lpc_idle h" and "length p \<le> DATA_BUFF_LENGTH_FROM_MCU"
  shows "\<exists>h'. mcu_bytes ([0xFF, 0x55, of_nat (length p) + 1] @ p @ [c]) h = Inr h' \<and> lpc_idle h' \<and>
     buffFromMCUProcessorStatus h' = 0 \<and>
     (if c = of_nat (length p) + 1 + sum_list p
      then deals h' = deals h @ [p] \<and> crc_errors h' = crc_errors h
      else deals h' = deals h \<and> crc_errors h' = crc_errors h + 1)"
proof -
  from mcu_bytes_frame_body [OF assms] obtain g where g:
    "mcu_bytes ([0xFF, 0x55, of_nat (length p) + 1] @ p) h = Inr g"
    "buffFromMCUProcessorStatus g = 3"
    "\<not> buffFromMCUFrameLength g < buffFromMCUFrameLengthMax g - 1"
    "unat (buffFromMCUFrameLengthMax g - 1) = length p"
    "length (buffFromMCU g) = DATA_BUFF_LENGTH_FROM_MCU"
    "take (length p) (buffFromMCU g) = p"
    "buffFromMCUCRC g = of_nat (length p) + 1 + sum_list p"
    "deals g = deals h" "crc_errors g = crc_errors h"
    by auto
  have "mcu_bytes ([0xFF, 0x55, of_nat (length p) + 1] @ p @ [c]) h = mcu_byte c g"
    using foldE_append [of mcu_byte "[0xFF, 0x55, of_nat (length p) + 1] @ p" "[c]" h] g(1)
    by (cases "mcu_byte c g") auto
  then show ?thesis
    using mcu_byte_close [OF g(2,3), of c] g by (auto simp: lpc_idle_def lpc_inv_def)
qed

subsection \<open>A reliable link\<close>

text \<open>
  What a framed link promises its users: from a state between frames, the encoding of an
  admissible message is consumed without a fault and without a complaint, leads to a state between frames again and
  delivers exactly that message.  Any sequence of messages then arrives unchanged and in order.
\<close>

locale frame_link =
  fixes enc :: "'p \<Rightarrow> 'b list"
    and feed :: "'b list \<Rightarrow> 's \<Rightarrow> 'e + 's"
    and idle :: "'s \<Rightarrow> bool"
    and got :: "'s \<Rightarrow> 'p list"
    and fits :: "'p \<Rightarrow> bool"
    and complaints :: "'s \<Rightarrow> nat"
  assumes feed_Nil: "feed [] s = Inr s"
    and feed_append: "feed (xs @ ys) s = bindE (feed xs s) (feed ys)"
    and feed_enc: "fits p \<Longrightarrow> idle s \<Longrightarrow> \<exists>s'. feed (enc p) s = Inr s' \<and> idle s' \<and> got s' = got s @ [p] \<and>
    complaints s' = complaints s"
begin

lemma feed_stream:
  "list_all fits ps \<Longrightarrow> idle s \<Longrightarrow>
     \<exists>s'. feed (concat (map enc ps)) s = Inr s' \<and> idle s' \<and> got s' = got s @ ps \<and> complaints s' = complaints s"
proof (induction ps arbitrary: s)
  case Nil
  then show ?case by (simp add: feed_Nil)
next
  case (Cons p ps)
  then obtain t where t: "feed (enc p) s = Inr t" "idle t" "got t = got s @ [p]" "complaints t = complaints s"
    using feed_enc by fastforce
  with Cons obtain s' where "feed (concat (map enc ps)) t = Inr s'" "idle s'" "got s' = got t @ ps"
      "complaints s' = complaints t"
    by fastforce
  with t show ?case by (auto simp: feed_append)
qed

text \<open>How the stream is cut into reads does not matter.\<close>

lemma feed_chunks: "foldE feed cs s = feed (concat cs) s"
proof (induction cs arbitrary: s)
  case Nil
  show ?case by (simp add: feed_Nil)
next
  case (Cons c cs)
  show ?case by (cases "feed c s") (simp_all add: feed_append Cons.IH)
qed

end

definition lpc_frame :: "byte list \<Rightarrow> byte list" where
  "lpc_frame p = (case LPCCombinDataStream True True p of Inr (Some f) \<Rightarrow> f | _ \<Rightarrow> [])"

definition lpc_fits :: "byte list \<Rightarrow> bool" where
  "lpc_fits p \<longleftrightarrow> length p \<le> DATA_BUFF_LENGTH_FROM_MCU"

interpretation lpc: frame_link lpc_frame mcu_bytes lpc_idle deals lpc_fits crc_errors
proof
  show "mcu_bytes [] s = Inr s" for s by simp
  show "mcu_bytes (xs @ ys) s = bindE (mcu_bytes xs s) (mcu_bytes ys)" for xs ys s
    by (rule foldE_append)
  show "\<exists>s'. mcu_bytes (lpc_frame p) s = Inr s' \<and> lpc_idle s' \<and> deals s' = deals s @ [p] \<and>
      crc_errors s' = crc_errors s"
    if "lpc_fits p" "lpc_idle s" for p s
    using mcu_bytes_closed_frame [OF that(2), of p "of_nat (length p) + 1 + sum_list p"] that(1)
    by (auto simp: lpc_frame_def LPCCombinDataStream_frame lpc_fits_def)
qed

lemma drain_eq:
  "drain True rec k low n h =
     mcu_bytes (concat (map (\<lambda>i. rec i (if i = k then n else 16)) [k..<k + low])) h"
proof (induction low arbitrary: k n h)
  case 0
  show ?case by simp
next
  case (Suc low)
  let ?reads = "\<lambda>j m. concat (map (\<lambda>i. rec i (if i = j then m else 16)) [Suc k..<Suc k + low])"
  have same: "?reads (Suc k) 16 = ?reads k n"
    by (intro arg_cong [where f = concat] map_cong) auto
  have split: "concat (map (\<lambda>i. rec i (if i = k then n else 16)) [k..<k + Suc low])
      = rec k n @ ?reads k n"
    by (simp add: upt_conv_Cons del: upt_Suc)
  have "drain True rec k (Suc low) n h =
      bindE (mcu_bytes (rec k n) h) (mcu_bytes (?reads (Suc k) 16))"
    by (cases "mcu_bytes (rec k n) h")
       (simp_all only: drain.simps actualReadFromMCU_def readFromMCUProcessor_def bindE_simps
         Suc.IH split_conv not_True_eq_False if_False)
  then show ?case unfolding split same foldE_append .
qed

section \<open>Invariant of the receiver\<close>

lemma mcu_byte_inv: "lpc_inv h \<Longrightarrow> mcu_byte b h = Inr h' \<Longrightarrow> lpc_inv h'"
proof -
  assume inv: "lpc_inv h" and step: "mcu_byte b h = Inr h'"
  let ?n = "buffFromMCUFrameLength h"
  show "lpc_inv h'"
  proof (cases "buffFromMCUProcessorStatus h = 3 \<and> ?n < buffFromMCUFrameLengthMax h - 1")
    case True
    then have n: "unat ?n < 128" using step
      by (auto simp: mcu_byte_def Let_def DATA_BUFF_LENGTH_FROM_MCU_def split: if_splits)
    have "unat (?n + 1) = Suc (unat ?n)" using n by (rule unat_Suc_small) simp
    with True n inv step show ?thesis
      by (auto simp: mcu_byte_def Let_def lpc_inv_def DATA_BUFF_LENGTH_FROM_MCU_def
          take_Suc_conv_app_nth add.assoc)
  next
    case False
    with inv step show ?thesis
      by (auto simp: mcu_byte_def Let_def lpc_inv_def split: if_splits)
  qed
qed

lemma sum_list_update_byte:
  "i < length p \<Longrightarrow> sum_list (p[i := b]) + p ! i = sum_list p + (b :: byte)"
proof (induction p arbitrary: i)
  case (Cons x p)
  then show ?case by (cases i) (auto simp: algebra_simps)
qed simp

lemma announced_length:
  fixes n :: byte
  assumes "n = 0 \<or> 129 < n"
  shows "DATA_BUFF_LENGTH_FROM_MCU < unat (ucast n - 1 :: u32)"
proof (cases "n = 0")
  case True
  have "128 < unat (- 1 :: u32)" by (simp add: unsigned_minus_1_eq_mask mask_eq_exp_minus_1)
  with True show ?thesis by (simp add: DATA_BUFF_LENGTH_FROM_MCU_def)
next
  case False
  with assms have "129 < unat n" by (simp add: word_less_nat_alt)
  then show ?thesis
    by (simp add: DATA_BUFF_LENGTH_FROM_MCU_def unat_sub_if_size word_size)
qed

lemma lpc_inv_start: "lpc_idle GlobalHardwareInfo"
  by (simp add: lpc_idle_def lpc_inv_def GlobalHardwareInfo_def)

lemma first_init_reads:
  "first_init_loop en rec low count h = Inr (n, h') \<Longrightarrow> count \<le> 100 \<Longrightarrow> n \<le> 101"
  by (induction en rec low count h rule: first_init_loop.induct)
     (auto simp: bindE_eq_Inr_iff split: if_splits)

section \<open>Properties\<close>

text \<open>(C1) End to end over the link: however the controller's answer bytes are cut into the 12 and
  16 byte reads of the interrupt work, if they are the encodings of messages of at most 128 bytes,
  then the work completes without a fault, hands exactly these messages to the handler in order, makes no
  checksum complaint and leaves the receiver between frames, where it has to be before.\<close>

theorem workFlyMCUIIC_delivers:
  assumes "lpc_idle h" and "list_all lpc_fits ps"
    and "concat (map (\<lambda>i. rec i (if i = 0 then 12 else 16)) [0..<low]) = concat (map lpc_frame ps)"
  shows "\<exists>h'. workFlyMCUIIC True rec low h = Inr h' \<and> lpc_idle h' \<and> deals h' = deals h @ ps \<and> crc_errors h' = crc_errors h"
proof -
  have "workFlyMCUIIC True rec low h = mcu_bytes (concat (map lpc_frame ps)) h"
    using drain_eq [of rec 0 low 12 h] assms(3) by (simp add: workFlyMCUIIC_def)
  then show ?thesis using lpc.feed_stream [OF assms(2,1)] by simp
qed

theorem workFlyMCUIIC_delivers_witness:
  "\<exists>h'. workFlyMCUIIC True (\<lambda>i n. if i = 0 then [0xFF, 0x55, 3, 7, 9, 19] else []) 2 GlobalHardwareInfo
        = Inr h' \<and> lpc_idle h' \<and> deals h' = [[7, 9]] \<and> crc_errors h' = 0"
proof -
  have "list_all lpc_fits [[7, 9]]"
    by (simp add: lpc_fits_def DATA_BUFF_LENGTH_FROM_MCU_def)
  moreover have "concat (map (\<lambda>i. (\<lambda>i n. if i = 0 then [0xFF, 0x55, 3, 7, 9, 19] else []) i
      (if i = 0 then 12 else 16 :: nat)) [0..<2 :: nat]) = concat (map lpc_frame [[7, 9]])"
    by (simp add: upt_conv_Cons lpc_frame_def LPCCombinDataStream_frame)
  ultimately show ?thesis
    using workFlyMCUIIC_delivers [OF lpc_inv_start, of "[[7, 9]]"
      "\<lambda>i n. if i = 0 then [0xFF, 0x55, 3, 7, 9, 19] else []" 2]
    by (simp add: GlobalHardwareInfo_def)
qed

text \<open>(C2) A frame in which one payload byte was changed in transit is never delivered: the receiver
  counts one checksum complaint, drops the frame and is ready for the next one.\<close>

theorem corrupted_frame_dropped:
  assumes "lpc_idle h" and "lpc_fits p" and "i < length p" and "b \<noteq> p ! i"
  shows "\<exists>h'. mcu_bytes ((lpc_frame p)[3 + i := b]) h = Inr h' \<and> lpc_idle h' \<and>
     deals h' = deals h \<and> crc_errors h' = crc_errors h + 1"
proof -
  let ?c = "of_nat (length p) + 1 + sum_list p"
  have "(lpc_frame p)[3 + i := b]
      = [0xFF, 0x55, of_nat (length (p[i := b])) + 1] @ p[i := b] @ [?c]"
    using assms(3)
    by (simp add: lpc_frame_def LPCCombinDataStream_frame list_update_append eval_nat_numeral)
  moreover have "sum_list (p[i := b]) + p ! i = sum_list p + b"
    using assms(3) by (rule sum_list_update_byte)
  then have "?c \<noteq> of_nat (length (p[i := b])) + 1 + sum_list (p[i := b])"
    using assms(4) by (metis add_left_cancel length_list_update)
  ultimately show ?thesis
    using mcu_bytes_closed_frame [OF assms(1), of "p[i := b]" ?c] assms(2)
    by (auto simp: lpc_fits_def)
qed

theorem corrupted_frame_dropped_witness:
  "\<exists>h'. mcu_bytes ((lpc_frame [7, 9])[3 + 1 := 8]) GlobalHardwareInfo = Inr h' \<and> lpc_idle h' \<and>
     deals h' = deals GlobalHardwareInfo \<and> crc_errors h' = crc_errors GlobalHardwareInfo + 1"
proof -
  have "lpc_fits [7, 9]" and "(1::nat) < length [7, 9 :: byte]" and "(8 :: byte) \<noteq> [7, 9] ! 1"
    by (simp_all add: lpc_fits_def DATA_BUFF_LENGTH_FROM_MCU_def)
  from corrupted_frame_dropped [OF lpc_inv_start this] show ?thesis .
qed

text \<open>The receiver invariant (array size, frame fill level, running checksum) is kept by every
  byte stream that does not overrun the array.\<close>

theorem receiver_invariant:
  assumes "lpc_inv h" and "readFromMCUProcessor bs h = Inr (wants, h')"
  shows "lpc_inv h'"
proof -
  from assms(2) have "mcu_bytes bs h = Inr h'"
    by (auto simp: readFromMCUProcessor_def bindE_eq_Inr_iff)
  with assms(1) show ?thesis by (auto intro: foldE_invariant [where P = lpc_inv] mcu_byte_inv)
qed

theorem receiver_invariant_witness:
  "readFromMCUProcessor [0xFF, 0x55] GlobalHardwareInfo
     = Inr (True, GlobalHardwareInfo\<lparr>buffFromMCUProcessorStatus := 2\<rparr>) \<and>
   lpc_inv (GlobalHardwareInfo\<lparr>buffFromMCUProcessorStatus := 2\<rparr>)"
proof -
  have r: "readFromMCUProcessor [0xFF, 0x55] GlobalHardwareInfo
     = Inr (True, GlobalHardwareInfo\<lparr>buffFromMCUProcessorStatus := 2\<rparr>)"
    by (simp add: readFromMCUProcessor_def mcu_byte_def GlobalHardwareInfo_def)
  have "lpc_inv GlobalHardwareInfo" using lpc_inv_start by (simp add: lpc_idle_def)
  from receiver_invariant [OF this r] r show ?thesis by simp
qed

text \<open>The receive array is not protected: after a header that announces a frame of more than 129
  bytes (or of length 0, which wraps around), the 129th byte that follows is stored past the end of
  the array.\<close>

theorem long_frame_overruns:
  assumes "lpc_idle h" and "n = 0 \<or> 129 < n" and "length ps = DATA_BUFF_LENGTH_FROM_MCU"
  shows "mcu_bytes ([0xFF, 0x55, n] @ ps @ [b]) h = Inl BufOverrun"
proof -
  let ?h = "h\<lparr>buffFromMCUProcessorStatus := 3, buffFromMCUFrameLength := 0,
              buffFromMCUFrameLengthMax := ucast n, buffFromMCUCRC := n\<rparr>"
  have hd: "mcu_bytes [0xFF, 0x55, n] h = Inr ?h"
    using assms(1) by (intro mcu_bytes_header) (auto simp: lpc_idle_def)
  have mx: "DATA_BUFF_LENGTH_FROM_MCU < unat (ucast n - 1 :: u32)"
    using announced_length [OF assms(2)] .
  have "length (buffFromMCU ?h) = DATA_BUFF_LENGTH_FROM_MCU"
    using assms(1) by (simp add: lpc_idle_def lpc_inv_def)
  then obtain g where g: "mcu_bytes ps ?h = Inr g" "buffFromMCUProcessorStatus g = 3"
    "unat (buffFromMCUFrameLength g) = DATA_BUFF_LENGTH_FROM_MCU"
    "buffFromMCUFrameLengthMax g = ucast n"
    using mcu_bytes_payload [of ?h 0 ps] mx assms(3) by auto
  have "mcu_byte b g = Inl BufOverrun"
    using g(2-4) mx by (simp add: mcu_byte_def Let_def word_less_nat_alt)
  then have "mcu_bytes (ps @ [b]) ?h = Inl BufOverrun"
    using g(1) by (simp add: foldE_append)
  then show ?thesis unfolding foldE_append [of _ "[0xFF, 0x55, n]"] hd by simp
qed

theorem long_frame_overruns_witness:
  "mcu_bytes ([0xFF, 0x55, 200] @ replicate DATA_BUFF_LENGTH_FROM_MCU 1 @ [1]) GlobalHardwareInfo
     = Inl BufOverrun"
  using long_frame_overruns [OF lpc_inv_start, of 200 "replicate DATA_BUFF_LENGTH_FROM_MCU 1" 1]
  by simp

text \<open>The drain before the interrupt is installed gives up after at most 101 reads, however long
  the controller holds the request line.\<close>

theorem mcuFirstInit_bounded:
  assumes "mcuFirstInit en rec low = Inr (n, h)"
  shows "n \<le> 101"
  using assms first_init_reads unfolding mcuFirstInit_def by blast

theorem mcuFirstInit_bounded_witness:
  "mcuFirstInit False (\<lambda>_ _. []) 2 = Inr (2, GlobalHardwareInfo) \<and> (2::nat) \<le> 101"
proof -
  have "mcuFirstInit False (\<lambda>_ _. []) 2 = Inr (2, GlobalHardwareInfo)"
    by (simp add: mcuFirstInit_def actualReadFromMCU_def eval_nat_numeral)
  with mcuFirstInit_bounded [OF this] show ?thesis by simp
qed

end
