(* ===== verification/Kfifo.thy ===== *)
theory Kfifo
  imports Prelude
begin

text \<open>
  The kernel's byte queue, the library the log, trace, command and GPS modules are built on.
  \<open>kfifo_in\<close> stores as much of its input as there is room for and drops the rest, \<open>kfifo_out\<close>
  removes at most the given number of elements from the front, \<open>kfifo_reset\<close> empties the
  queue.  All queues of the program have a size that is a power of two, so no rounding occurs.

  The locale \<open>bounded_queue\<close> states what the clients rely on; the client idiom \<open>make room, then put\<close>
  (\<open>fifo_is_enough\<close> of \<^verbatim>\<open>lidbg_mem_log.c\<close>, \<open>lidbg_trace_msg_is_enough\<close> of
  \<^verbatim>\<open>lidbg_trace_msg.c\<close>) is proved once inside it.
\<close>

record 'a kfifo =
  kf_size :: nat
  kf_data :: "'a list"

definition kfifo_alloc :: "nat \<Rightarrow> 'a kfifo" where
  "kfifo_alloc n = \<lparr>kf_size = n, kf_data = []\<rparr>"

definition kfifo_len :: "'a kfifo \<Rightarrow> nat" where
  "kfifo_len q = length (kf_data q)"

definition kfifo_avail :: "'a kfifo \<Rightarrow> nat" where
  "kfifo_avail q = kf_size q - kfifo_len q"

definition kfifo_is_empty :: "'a kfifo \<Rightarrow> bool" where
  "kfifo_is_empty q \<longleftrightarrow> kf_data q = []"

definition kfifo_is_full :: "'a kfifo \<Rightarrow> bool" where
  "kfifo_is_full q \<longleftrightarrow> kf_size q \<le> kfifo_len q"

definition kfifo_in :: "'a list \<Rightarrow> 'a kfifo \<Rightarrow> 'a kfifo" where
  "kfifo_in xs q = q\<lparr>kf_data := kf_data q @ take (kfifo_avail q) xs\<rparr>"

definition kfifo_peek :: "nat \<Rightarrow> 'a kfifo \<Rightarrow> 'a list" where
  "kfifo_peek n q = take n (kf_data q)"

definition kfifo_skip :: "nat \<Rightarrow> 'a kfifo \<Rightarrow> 'a kfifo" where
  "kfifo_skip n q = q\<lparr>kf_data := drop n (kf_data q)\<rparr>"

definition kfifo_out :: "nat \<Rightarrow> 'a kfifo \<Rightarrow> 'a list \<times> 'a kfifo" where
  "kfifo_out n q = (kfifo_peek n q, kfifo_skip n q)"

definition kfifo_reset :: "'a kfifo \<Rightarrow> 'a kfifo" where
  "kfifo_reset q = q\<lparr>kf_data := []\<rparr>"

definition kf_ok :: "'a kfifo \<Rightarrow> bool" where
  "kf_ok q \<longleftrightarrow> length (kf_data q) \<le> kf_size q"

lemma kf_size_simps [simp, fifo]:
  "kf_size (kfifo_in xs q) = kf_size q" "kf_size (kfifo_skip n q) = kf_size q"
  "kf_size (kfifo_reset q) = kf_size q" "kf_size (kfifo_alloc n) = n"
  by (simp_all add: kfifo_in_def kfifo_skip_def kfifo_reset_def kfifo_alloc_def)

lemma kf_data_simps [simp, fifo]:
  "kf_data (kfifo_in xs q) = kf_data q @ take (kf_size q - length (kf_data q)) xs"
  "kf_data (kfifo_skip n q) = drop n (kf_data q)"
  "kf_data (kfifo_reset q) = []" "kf_data (kfifo_alloc n) = []"
  by (simp_all add: kfifo_in_def kfifo_skip_def kfifo_reset_def kfifo_alloc_def
      kfifo_avail_def kfifo_len_def)

lemma kf_ok_simps [simp, intro, fifo]:
  "kf_ok q \<Longrightarrow> kf_ok (kfifo_in xs q)" "kf_ok q \<Longrightarrow> kf_ok (kfifo_skip n q)"
  "kf_ok (kfifo_reset q)" "kf_ok (kfifo_alloc n)"
  by (auto simp: kf_ok_def)

section \<open>The contract of a bounded queue\<close>

locale bounded_queue =
  fixes cap :: "'q \<Rightarrow> nat"
    and items :: "'q \<Rightarrow> 'a list"
    and put :: "'a list \<Rightarrow> 'q \<Rightarrow> 'q"
    and skip :: "nat \<Rightarrow> 'q \<Rightarrow> 'q"
    and ok :: "'q \<Rightarrow> bool"
  assumes items_put: "items (put xs q) = items q @ take (cap q - length (items q)) xs"
    and items_skip: "items (skip n q) = drop n (items q)"
    and cap_skip: "cap (skip n q) = cap q"
    and ok_iff: "ok q \<longleftrightarrow> length (items q) \<le> cap q"
begin

text \<open>
  Dropping as many elements as are to come, when they do not fit, makes room for them: the new
  elements are stored completely behind a tail of the old content.
\<close>

lemma make_room_put:
  assumes "ok q" and "length xs \<le> cap q"
    and "q' = (if cap q - length (items q) < length xs then skip (length xs) q else q)"
  shows "\<exists>k. items (put xs q') = drop k (items q) @ xs"
proof (cases "cap q - length (items q) < length xs")
  case True
  then have "length xs \<le> cap q' - length (items q')"
    using assms by (auto simp: items_skip cap_skip ok_iff)
  then show ?thesis using True assms(3) by (auto simp: items_put items_skip)
next
  case False
  then have "items (put xs q') = drop 0 (items q) @ xs" using assms(3) by (simp add: items_put)
  then show ?thesis by blast
qed

lemma fits_put: "length (items q) + length xs \<le> cap q \<Longrightarrow> items (put xs q) = items q @ xs"
  by (simp add: items_put)

end

interpretation kf: bounded_queue kf_size kf_data kfifo_in kfifo_skip kf_ok
  by unfold_locales (simp_all add: kf_ok_def)

text \<open>The idiom itself, as both log modules spell it.\<close>

definition fifo_make_room :: "nat \<Rightarrow> 'a kfifo \<Rightarrow> 'a kfifo" where
  "fifo_make_room n q =
     (if kfifo_is_full q \<or> kfifo_avail q < n then snd (kfifo_out n q) else q)"

definition fifo_put_room :: "'a list \<Rightarrow> 'a kfifo \<Rightarrow> 'a kfifo" where
  "fifo_put_room xs q = kfifo_in xs (fifo_make_room (length xs) q)"

lemma fifo_make_room_eq:
  "kf_ok q \<Longrightarrow> fifo_make_room (length xs) q =
     (if kf_size q - length (kf_data q) < length xs then kfifo_skip (length xs) q else q)"
  by (cases xs) (auto simp: fifo_make_room_def kfifo_is_full_def kfifo_avail_def kfifo_len_def
      kfifo_out_def kf_ok_def kfifo_skip_def)

lemma fifo_put_room_data:
  "kf_ok q \<Longrightarrow> length xs \<le> kf_size q \<Longrightarrow> \<exists>k. kf_data (fifo_put_room xs q) = drop k (kf_data q) @ xs"
  unfolding fifo_put_room_def
  using kf.make_room_put [of q xs "fifo_make_room (length xs) q"] fifo_make_room_eq [of q xs]
  by blast

lemma fifo_put_room_ok [simp, intro]: "kf_ok q \<Longrightarrow> kf_ok (fifo_put_room xs q)"
  by (auto simp: fifo_put_room_def fifo_make_room_def kfifo_out_def)

lemma fifo_put_room_size [simp]: "kf_size (fifo_put_room xs q) = kf_size q"
  by (simp add: fifo_put_room_def fifo_make_room_def kfifo_out_def)

lemma fifo_put_room_fits:
  "length (kf_data q) + length xs \<le> kf_size q \<Longrightarrow> kf_data (fifo_put_room xs q) = kf_data q @ xs"
  by (cases xs) (auto simp: fifo_put_room_def fifo_make_room_def kfifo_out_def kfifo_is_full_def
      kfifo_avail_def kfifo_len_def)

end
