(* ===== verification/Mem_Log.thy ===== *)
theory Mem_Log
  imports Kfifo
begin

text \<open>
  The in-memory message log, \<^verbatim>\<open>core/lidbg_mem_log.c\<close>.

  A \<open>lidbg_fifo_device\<close> is a byte queue with a scratch buffer \<open>msg_in_buff\<close>, guarded by a
  semaphore: every operation below is one critical section (\<open>lidbg_fifo_get\<close> has two, between
  which only the length may go stale).  The scratch buffer is a C array, kept with its NUL bytes
  and with what earlier messages left behind; a store past its end is \<open>BufOverrun\<close>.  Arguments
  stand for what the module cannot control: the time stamp text, the formatted message, the
  outcome of \<open>kmalloc\<close>, whether a file can be opened, the bytes that follow a heap block.
  The file system is a map from paths to contents.
\<close>

definition BUFF_SIZE :: nat where "BUFF_SIZE = 4 * 1024"
definition LIDBG_FIFO_SIZE :: nat where "LIDBG_FIFO_SIZE = 4 * 1024 * 1024"

text \<open>The sizes the file server asks for (\<^verbatim>\<open>core/lidbg_fileserver_main.c\<close>).\<close>

definition FS_BUFF_SIZE :: nat where "FS_BUFF_SIZE = 1 * 1024"
definition FS_FIFO_SIZE :: nat where "FS_FIFO_SIZE = 64 * 1024"

record lidbg_fifo_device =
  fd_fifo :: "char kfifo"
  fd_owner :: "string option"
  msg_in_buff :: "char list"
  is_inited :: bool

section \<open>Operations\<close>

text \<open>Both log entry points queue the string in the scratch buffer after making room for it.\<close>

definition fifo_log_string :: "lidbg_fifo_device \<Rightarrow> lidbg_fifo_device" where
  "fifo_log_string d = d\<lparr>fd_fifo := fifo_put_room (c_string (msg_in_buff d)) (fd_fifo d)\<rparr>"

definition lidbg_fifo_put ::
  "string \<Rightarrow> string \<Rightarrow> lidbg_fifo_device option \<Rightarrow> fault + (int \<times> lidbg_fifo_device option)" where
  "lidbg_fifo_put now msg dev =
     (case dev of
        None \<Rightarrow> Inr (0, None)
      | Some d \<Rightarrow>
          if \<not> is_inited d then Inr (0, Some d)
          else
            bindE (sprintf_to now (msg_in_buff d)) (\<lambda>b1.
            let d1 = fifo_log_string (d\<lparr>msg_in_buff := b1\<rparr>) in
            bindE (sprintf_to msg b1) (\<lambda>b2.
            bindE (store_at (BUFF_SIZE - 1) (CHR 0x00) b2) (\<lambda>b3.
            Inr (1, Some (fifo_log_string (d1\<lparr>msg_in_buff := b3\<rparr>)))))))"

text \<open>The write handler of the character device; \<open>data\<close> are the \<open>count\<close> bytes of the caller.\<close>

definition lidbg_msg_write ::
  "string \<Rightarrow> char list \<Rightarrow> lidbg_fifo_device \<Rightarrow> fault + (int \<times> lidbg_fifo_device)" where
  "lidbg_msg_write now data d =
     (if 0 < length data \<and> is_inited d then
        bindE (sprintf_to now (msg_in_buff d)) (\<lambda>b1.
        let d1 = fifo_log_string (d\<lparr>msg_in_buff := b1\<rparr>) in
        bindE (store_front data b1) (\<lambda>b2.
        bindE (store_at (BUFF_SIZE - 1) (CHR 0x00) b2) (\<lambda>b3.
        Inr (1, fifo_log_string (d1\<lparr>msg_in_buff := b3\<rparr>)))))
      else Inr (0, d))"

text \<open>Appending to a file that is created when missing.\<close>

definition fifo_to_file :: "(string \<Rightarrow> bool) \<Rightarrow> string \<Rightarrow> string \<Rightarrow> files \<Rightarrow> int \<times> files" where
  "fifo_to_file can_open path s fs =
     (if \<not> can_open path then (-1, fs)
      else (1, fs(path \<mapsto> (case fs path of None \<Rightarrow> s | Some t \<Rightarrow> t @ s))))"

text \<open>
  Draining the log into a file.  The heap block has exactly the length of the queue; \<open>sizeof\<close> of
  the pointer clears 4 bytes of it, and \<open>strlen\<close> runs over its end into the bytes \<open>beyond\<close> up to
  the next NUL.
\<close>

definition lidbg_fifo_get ::
  "bool \<Rightarrow> char list \<Rightarrow> (string \<Rightarrow> bool) \<Rightarrow> string \<Rightarrow> lidbg_fifo_device option \<Rightarrow> files
     \<Rightarrow> fault + (int \<times> lidbg_fifo_device option \<times> files)" where
  "lidbg_fifo_get kmalloc_ok beyond can_open path dev fs =
     (case dev of
        None \<Rightarrow> Inr (1, None, fs)
      | Some d \<Rightarrow>
          if \<not> is_inited d then Inr (1, Some d, fs)
          else if \<not> kmalloc_ok then Inr (-1, Some d, fs)
          else if kfifo_len (fd_fifo d) < 4 then Inl BufOverrun
          else
            let (out, q) = kfifo_out (kfifo_len (fd_fifo d)) (fd_fifo d);
                (ret, fs') = fifo_to_file can_open path (c_string (out @ beyond @ [CHR 0x00])) fs
            in Inr (if ret = 1 then 1 else -1, Some (d\<lparr>fd_fifo := q\<rparr>), fs'))"

text \<open>Allocation; the scratch buffer is not cleared, so its content is an argument.\<close>

definition lidbg_fifo_alloc ::
  "string option \<Rightarrow> nat \<Rightarrow> nat \<Rightarrow> bool \<Rightarrow> bool \<Rightarrow> char list option \<Rightarrow> lidbg_fifo_device option" where
  "lidbg_fifo_alloc owner fifo_size buff_size dev_ok fifo_ok heap =
     (case owner of
        None \<Rightarrow> None
      | Some ow \<Rightarrow>
          if \<not> dev_ok then None
          else if \<not> fifo_ok then None
          else (case heap of
              None \<Rightarrow> None
            | Some junk \<Rightarrow>
                Some \<lparr>fd_fifo = kfifo_alloc fifo_size, fd_owner = Some ow,
                      msg_in_buff = replicate (min 4 buff_size) (CHR 0x00)
                        @ drop (min 4 buff_size) (take buff_size (junk @ replicate buff_size (CHR 0x00))),
                      is_inited = True\<rparr>))"

definition mem_log_main ::
  "bool \<Rightarrow> char list \<Rightarrow> (string \<Rightarrow> bool) \<Rightarrow> string list \<Rightarrow> lidbg_fifo_device option \<Rightarrow> files
     \<Rightarrow> fault + (lidbg_fifo_device option \<times> files)" where
  "mem_log_main kmalloc_ok beyond can_open argv dev fs =
     bindE (arg argv 0) (\<lambda>a.
       if a = ''dump'' then
         bindE (lidbg_fifo_get kmalloc_ok beyond can_open ''/data/lidbg/lidbg_mem_log.txt'' dev fs)
           (\<lambda>(_, dev', fs'). Inr (dev', fs'))
       else Inr (dev, fs))"

section \<open>Lemmas\<close>

definition fd_ok :: "lidbg_fifo_device \<Rightarrow> bool" where
  "fd_ok d \<longleftrightarrow> kf_ok (fd_fifo d)"

lemma sprintf_to_Inr:
  "length s < length buf \<Longrightarrow>
     sprintf_to s buf = Inr (s @ CHR 0x00 # drop (Suc (length s)) buf)"
  by (simp add: sprintf_to_def store_front_def)

lemma sprintf_to_length: "sprintf_to s buf = Inr b \<Longrightarrow> length b = length buf"
  by (auto simp: sprintf_to_def store_front_def split: if_splits)

lemma store_last_after_text:
  assumes "CHR 0x00 \<notin> set s" and "length s < BUFF_SIZE"
  shows "c_string ((s @ CHR 0x00 # r)[BUFF_SIZE - 1 := CHR 0x00]) = s"
proof (cases "BUFF_SIZE - 1 = length s")
  case True
  then show ?thesis using assms by (simp add: list_update_append c_string_plain)
next
  case False
  with assms(2) have "BUFF_SIZE - 1 = length s + Suc (BUFF_SIZE - 2 - length s)" by linarith
  then obtain k where "BUFF_SIZE - 1 = length s + Suc k" by blast
  then show ?thesis using assms by (simp add: list_update_append c_string_plain)
qed

lemma fifo_log_string_simps [simp]:
  "is_inited (fifo_log_string d) = is_inited d" "msg_in_buff (fifo_log_string d) = msg_in_buff d"
  "fd_owner (fifo_log_string d) = fd_owner d"
  "kf_size (fd_fifo (fifo_log_string d)) = kf_size (fd_fifo d)"
  "fd_fifo (fifo_log_string d) = fifo_put_room (c_string (msg_in_buff d)) (fd_fifo d)"
  by (simp_all add: fifo_log_string_def)


text \<open>Queueing two strings one after the other leaves a tail of the history.\<close>

lemma fifo_put_room_twice:
  assumes "kf_ok q" and "length xs \<le> kf_size q" and "length ys \<le> kf_size q"
  shows "\<exists>k. kf_data (fifo_put_room ys (fifo_put_room xs q)) = drop k (kf_data q @ xs) @ ys"
proof -
  from fifo_put_room_data [OF assms(1,2)] obtain i
    where i: "kf_data (fifo_put_room xs q) = drop i (kf_data q) @ xs" by blast
  from fifo_put_room_data [of "fifo_put_room xs q" ys] assms obtain j
    where "kf_data (fifo_put_room ys (fifo_put_room xs q)) = drop j (drop i (kf_data q) @ xs) @ ys"
    using i by auto
  moreover have "drop j (drop i (kf_data q) @ xs) = drop (j + min i (length (kf_data q))) (kf_data q @ xs)"
    by (cases "i \<le> length (kf_data q)") (simp_all add: add.commute)
  ultimately show ?thesis by metis
qed

section \<open>Properties\<close>

text \<open>A message put into a device with the full-size scratch buffer is logged completely: the
  call returns 1 and the queue then ends with the whole message, preceded by a tail of the earlier
  content and the time stamp; the oldest bytes are the ones given up, the queue stays within its
  size and the device stays usable.\<close>

theorem lidbg_fifo_put_logs:
  assumes "is_inited d" and "fd_ok d" and "length (msg_in_buff d) = BUFF_SIZE"
    and "length now < BUFF_SIZE" and "length msg < BUFF_SIZE"
    and "BUFF_SIZE \<le> kf_size (fd_fifo d)"
    and "CHR 0x00 \<notin> set now" and "CHR 0x00 \<notin> set msg"
  shows "\<exists>d' k. lidbg_fifo_put now msg (Some d) = Inr (1, Some d') \<and>
     kf_data (fd_fifo d') = drop k (kf_data (fd_fifo d) @ now) @ msg \<and>
     fd_ok d' \<and> is_inited d' \<and> length (msg_in_buff d') = BUFF_SIZE"
proof -
  let ?b1 = "now @ CHR 0x00 # drop (Suc (length now)) (msg_in_buff d)"
  let ?b2 = "msg @ CHR 0x00 # drop (Suc (length msg)) ?b1"
  let ?b3 = "?b2[BUFF_SIZE - 1 := CHR 0x00]"
  have l1: "length ?b1 = BUFF_SIZE" and l2: "length ?b2 = BUFF_SIZE"
    using assms(3-5) by auto
  have "sprintf_to now (msg_in_buff d) = Inr ?b1"
    using assms(3,4) by (simp add: sprintf_to_Inr)
  moreover have "sprintf_to msg ?b1 = Inr ?b2"
    using l1 assms(5) by (simp only: sprintf_to_Inr)
  moreover have "store_at (BUFF_SIZE - 1) (CHR 0x00) ?b2 = Inr ?b3"
    using l2 by (simp only: store_at_def) (simp add: BUFF_SIZE_def)
  moreover have "c_string ?b1 = now" "c_string ?b3 = msg"
    using assms(5,7,8) by (simp_all add: c_string_plain store_last_after_text del: One_nat_def)
  ultimately have put: "lidbg_fifo_put now msg (Some d) =
      Inr (1, Some (d\<lparr>msg_in_buff := ?b3,
                       fd_fifo := fifo_put_room msg (fifo_put_room now (fd_fifo d))\<rparr>))"
    using assms(1) by (simp add: lidbg_fifo_put_def fifo_log_string_def)
  obtain k where "kf_data (fifo_put_room msg (fifo_put_room now (fd_fifo d)))
      = drop k (kf_data (fd_fifo d) @ now) @ msg"
    using fifo_put_room_twice [of "fd_fifo d" now msg] assms(2,4-6) by (auto simp: fd_ok_def)
  with put l2 assms(1,2) show ?thesis by (auto simp: fd_ok_def)
qed

definition example_device :: lidbg_fifo_device where
  "example_device = \<lparr>fd_fifo = kfifo_alloc LIDBG_FIFO_SIZE, fd_owner = None,
     msg_in_buff = replicate BUFF_SIZE (CHR 0x00), is_inited = True\<rparr>"

theorem lidbg_fifo_put_logs_witness:
  "\<exists>d' k. lidbg_fifo_put ''now '' ''hello'' (Some example_device) = Inr (1, Some d') \<and>
     kf_data (fd_fifo d') = drop k ''now '' @ ''hello'' \<and>
     fd_ok d' \<and> is_inited d' \<and> length (msg_in_buff d') = BUFF_SIZE"
proof -
  have "is_inited example_device" "fd_ok example_device"
    "length (msg_in_buff example_device) = BUFF_SIZE" "length ''now '' < BUFF_SIZE"
    "length ''hello'' < BUFF_SIZE" "BUFF_SIZE \<le> kf_size (fd_fifo example_device)"
    "CHR 0x00 \<notin> set ''now ''" "CHR 0x00 \<notin> set ''hello''"
    by (simp_all add: example_device_def fd_ok_def BUFF_SIZE_def LIDBG_FIFO_SIZE_def)
  from lidbg_fifo_put_logs [OF this] show ?thesis by (simp add: example_device_def)
qed

text \<open>The file server allocates its log device with a scratch buffer of 1 KB, but every put stores
  a NUL at offset 4095 of the scratch buffer: each message logged by the file server writes outside
  its heap block.\<close>

theorem fileserver_log_overruns:
  assumes "lidbg_fifo_alloc (Some ''fileserver'') FS_FIFO_SIZE FS_BUFF_SIZE True True (Some junk) = Some d"
  shows "lidbg_fifo_put now msg (Some d) = Inl BufOverrun"
proof -
  have d: "is_inited d" "length (msg_in_buff d) = 1024"
    using assms by (auto simp: lidbg_fifo_alloc_def FS_BUFF_SIZE_def)
  have st: "store_at (BUFF_SIZE - 1) (CHR 0x00) b = Inl BufOverrun" if "length b = 1024" for b
    using that by (simp add: store_at_def BUFF_SIZE_def)
  have sp: "sprintf_to t b = Inl BufOverrun \<or> (\<exists>b'. sprintf_to t b = Inr b' \<and> length b' = 1024)"
    if "length b = 1024" for t b
    using that by (simp add: sprintf_to_def store_front_def)
  from sp [OF d(2), of now] show ?thesis
  proof
    assume "\<exists>b'. sprintf_to now (msg_in_buff d) = Inr b' \<and> length b' = 1024"
    then obtain b where b: "sprintf_to now (msg_in_buff d) = Inr b" "length b = 1024" by blast
    from sp [OF b(2), of msg] b(1) d(1) st show ?thesis
      by (auto simp: lidbg_fifo_put_def Let_def)
  qed (use d(1) in \<open>simp add: lidbg_fifo_put_def\<close>)
qed

theorem fileserver_log_overruns_witness:
  "\<exists>d. lidbg_fifo_alloc (Some ''fileserver'') FS_FIFO_SIZE FS_BUFF_SIZE True True (Some []) = Some d \<and>
     lidbg_fifo_put ''t '' ''m'' (Some d) = Inl BufOverrun"
proof -
  obtain d where "lidbg_fifo_alloc (Some ''fileserver'') FS_FIFO_SIZE FS_BUFF_SIZE True True (Some []) = Some d"
    by (simp add: lidbg_fifo_alloc_def)
  with fileserver_log_overruns [OF this] show ?thesis by blast
qed

text \<open>Dumping the log empties the queue and appends to the file the drained text followed by
  whatever non-NUL bytes lie behind the heap block: the file gets exactly the log only if the next
  byte in memory happens to be NUL.\<close>

theorem lidbg_fifo_get_dumps:
  assumes "is_inited d" and "4 \<le> kfifo_len (fd_fifo d)" and "can_open path" and "fs path = Some old"
    and "CHR 0x00 \<notin> set (kf_data (fd_fifo d))" and "CHR 0x00 \<notin> set beyond"
  shows "\<exists>d' fs'. lidbg_fifo_get True beyond can_open path (Some d) fs = Inr (1, Some d', fs') \<and>
     kf_data (fd_fifo d') = [] \<and> fs' path = Some (old @ kf_data (fd_fifo d) @ beyond)"
  using assms c_string_plain [of "kf_data (fd_fifo d) @ beyond" "[]"]
  by (auto simp: lidbg_fifo_get_def kfifo_out_def kfifo_peek_def kfifo_len_def fifo_to_file_def Let_def)

theorem lidbg_fifo_get_dumps_witness:
  "\<exists>d' fs'. lidbg_fifo_get True ''junk'' (\<lambda>_. True) ''f''
       (Some (example_device\<lparr>fd_fifo := \<lparr>kf_size = 8, kf_data = ''12345''\<rparr>\<rparr>)) [''f'' \<mapsto> ''old'']
     = Inr (1, Some d', fs') \<and> kf_data (fd_fifo d') = [] \<and> fs' ''f'' = Some ''old12345junk''"
proof -
  let ?d = "example_device\<lparr>fd_fifo := \<lparr>kf_size = 8, kf_data = ''12345''\<rparr>\<rparr>"
  have "is_inited ?d" "4 \<le> kfifo_len (fd_fifo ?d)" "(\<lambda>_. True) ''f''" "[''f'' \<mapsto> ''old''] ''f'' = Some ''old''"
    "CHR 0x00 \<notin> set (kf_data (fd_fifo ?d))" "CHR 0x00 \<notin> set ''junk''"
    by (simp_all add: example_device_def kfifo_len_def)
  from lidbg_fifo_get_dumps [of ?d "\<lambda>_. True" "''f''" "[''f'' \<mapsto> ''old'']", OF this]
  show ?thesis by simp
qed

end
