(* ===== verification/Trace_Msg.thy ===== *)
theory Trace_Msg
  imports Mem_Log
begin

text \<open>
  The keyword tracer, \<^verbatim>\<open>core/lidbg_trace_msg.c\<close>: an input thread copies kernel messages into a
  32 KB byte queue, an output thread takes them out byte by byte, cuts them into lines in a 512 byte
  stack buffer and searches each line for the configured keywords and for the keywords of the
  registered callbacks.

  The two threads meet only in the queue, under the semaphore; \<open>thread_trace_msg_in_step\<close> and
  \<open>thread_trace_msg_out_step\<close> are one round of their loops.  A callback is identified by a
  number, its invocation by the pair of keyword and number; the lines appended to the trace file
  and the invocations are collected in \<open>tr_file\<close> and \<open>tr_calls\<close>, the lines that were searched in
  \<open>tr_lines\<close>.
\<close>

definition LIDBG_TRACE_MSG_FIFO_SIZE :: nat where
  "LIDBG_TRACE_MSG_FIFO_SIZE = 32 * 1024"

record trace_cb =
  key_word :: string
  cb_func :: nat

record trace_state =
  disable_flag :: int
  tr_fifo :: "char kfifo"
  tr_i :: nat
  tr_buff :: "char list"
  tr_keys :: "string list"
  tr_cbs :: "trace_cb list"
  tr_lines :: "string list"
  tr_file :: "string list"
  tr_calls :: "(string \<times> nat) list"

definition trace_start :: "string list \<Rightarrow> trace_state" where
  "trace_start keys =
     \<lparr>disable_flag = 1, tr_fifo = kfifo_alloc LIDBG_TRACE_MSG_FIFO_SIZE, tr_i = 0,
      tr_buff = replicate 512 (CHR 0x00), tr_keys = keys, tr_cbs = [], tr_lines = [], tr_file = [],
      tr_calls = []\<rparr>"

section \<open>Operations\<close>

definition lidbg_trace_msg_disable :: "int \<Rightarrow> trace_state \<Rightarrow> trace_state" where
  "lidbg_trace_msg_disable flag s = s\<lparr>disable_flag := flag\<rparr>"

text \<open>The test after \<open>kzalloc\<close> is inverted, so a failed allocation is dereferenced.\<close>

definition lidbg_trace_msg_cb_register ::
  "bool \<Rightarrow> string option \<Rightarrow> nat option \<Rightarrow> trace_state \<Rightarrow> fault + (bool \<times> trace_state)" where
  "lidbg_trace_msg_cb_register kzalloc_ok key cb s =
     (case (key, cb) of
        (Some k, Some f) \<Rightarrow>
          if kzalloc_ok then Inr (True, s\<lparr>tr_cbs := \<lparr>key_word = k, cb_func = f\<rparr> # tr_cbs s\<rparr>)
          else Inl NullDeref
      | _ \<Rightarrow> Inr (False, s))"

definition lidbg_trace_key_word :: "string \<Rightarrow> trace_state \<Rightarrow> trace_state" where
  "lidbg_trace_key_word line s =
     s\<lparr>tr_lines := tr_lines s @ [line],
       tr_file := tr_file s @ map (\<lambda>_. line) (filter (\<lambda>k. k \<noteq> [] \<and> strstr line k) (tr_keys s)),
       tr_calls := tr_calls s @
         map (\<lambda>c. (key_word c, cb_func c))
           (filter (\<lambda>c. key_word c \<noteq> [] \<and> strstr line (key_word c)) (tr_cbs s))\<rparr>"

definition lidbg_trace_msg_is_enough :: "nat \<Rightarrow> trace_state \<Rightarrow> trace_state" where
  "lidbg_trace_msg_is_enough len s = s\<lparr>tr_fifo := fifo_make_room len (tr_fifo s)\<rparr>"

definition trace_enqueue :: "char list \<Rightarrow> trace_state \<Rightarrow> trace_state" where
  "trace_enqueue data s =
     (let s1 = lidbg_trace_msg_is_enough (length data) s
      in s1\<lparr>tr_fifo := kfifo_in data (tr_fifo s1)\<rparr>)"

text \<open>\<open>data\<close> is what the read of at most 512 bytes from the kernel log returned.\<close>

definition thread_trace_msg_in_step :: "char list \<Rightarrow> trace_state \<Rightarrow> trace_state" where
  "thread_trace_msg_in_step data s =
     (if disable_flag s = 0 then trace_enqueue data s else s)"

text \<open>The device node: the caller's bytes go through a 256 byte stack buffer; the result is 0.\<close>

definition lidbg_trace_msg_write :: "char list \<Rightarrow> trace_state \<Rightarrow> fault + (int \<times> trace_state)" where
  "lidbg_trace_msg_write data s =
     (if 256 < length data then Inl BufOverrun else Inr (0, trace_enqueue data s))"

definition thread_trace_msg_out_step :: "trace_state \<Rightarrow> fault + trace_state" where
  "thread_trace_msg_out_step s =
     (if disable_flag s \<noteq> 0 \<or> kfifo_is_empty (tr_fifo s) then Inr s
      else
        let (out, q) = kfifo_out 1 (tr_fifo s); c = hd out; i = tr_i s in
        bindE (store_at i c (tr_buff s)) (\<lambda>b.
          if c = CHR 0x0A \<or> 510 \<le> i then
            bindE (store_at (i + 1) (CHR 0x00) b) (\<lambda>b'.
              Inr (lidbg_trace_key_word (c_string b') (s\<lparr>tr_fifo := q, tr_buff := b', tr_i := 0\<rparr>)))
          else Inr (s\<lparr>tr_fifo := q, tr_buff := b, tr_i := i + 1\<rparr>)))"

fun thread_trace_msg_out :: "nat \<Rightarrow> trace_state \<Rightarrow> fault + trace_state" where
  "thread_trace_msg_out 0 s = Inr s"
| "thread_trace_msg_out (Suc n) s = bindE (thread_trace_msg_out_step s) (thread_trace_msg_out n)"

definition trace_msg_main :: "string list \<Rightarrow> trace_state \<Rightarrow> fault + trace_state" where
  "trace_msg_main argv s =
     bindE (arg argv 0) (\<lambda>a.
       Inr (if a = ''disable'' then lidbg_trace_msg_disable 1 s else s))"

section \<open>Invariant\<close>

text \<open>The buffer and the index of the thread, and the unfinished line in the buffer.\<close>

definition trace_ready :: "trace_state \<Rightarrow> bool" where
  "trace_ready s \<longleftrightarrow> length (tr_buff s) = 512 \<and> tr_i s \<le> 510"

definition tr_pending :: "trace_state \<Rightarrow> string" where
  "tr_pending s = take (tr_i s) (tr_buff s)"

text \<open>The specification: a text is cut behind each newline and behind 511 characters; the rest is the unfinished line.\<close>

fun cut_lines :: "string \<Rightarrow> string \<Rightarrow> string list \<times> string" where
  "cut_lines line [] = ([], line)"
| "cut_lines line (c # cs) =
     (if c = CHR 0x0A \<or> length line = 510 then let (ls, rest) = cut_lines [] cs in ((line @ [c]) # ls, rest)
      else cut_lines (line @ [c]) cs)"

lemma cut_lines_text: "cut_lines line cs = (ls, rest) \<Longrightarrow> concat ls @ rest = line @ cs"
  by (induction line cs arbitrary: ls rest rule: cut_lines.induct) (auto split: if_splits prod.splits)

lemma cut_lines_length: "cut_lines line cs = (ls, rest) \<Longrightarrow> length line \<le> 510 \<Longrightarrow> \<forall>l\<in>set ls. l \<noteq> [] \<and> length l \<le> 511"
  by (induction line cs arbitrary: ls rest rule: cut_lines.induct) (auto split: if_splits prod.splits)

lemma take_Suc_update: "i < length b \<Longrightarrow> take (Suc i) (b[i := c]) = take i b @ [c]"
  by (simp add: take_Suc_conv_app_nth)

lemma c_string_cut:
  assumes "n < length b"
  shows "c_string (b[n := CHR 0x00]) = takeWhile (\<lambda>c. c \<noteq> CHR 0x00) (take n b)"
proof -
  have "b[n := CHR 0x00] = take n b @ CHR 0x00 # drop (Suc n) b"
    using assms by (simp add: upd_conv_take_nth_drop)
  then show ?thesis by (simp add: c_string_def takeWhile_tail)
qed

text \<open>One round of an enabled thread takes a character and ends the line behind it, if it ends there.\<close>

lemma out_step_char:
  assumes "trace_ready s" "disable_flag s = 0" "kf_data (tr_fifo s) = c # r"
  shows "\<exists>s'. thread_trace_msg_out_step s = Inr s' \<and> trace_ready s' \<and> disable_flag s' = 0 \<and> kf_data (tr_fifo s') = r \<and>
    (if c = CHR 0x0A \<or> length (tr_pending s) = 510
     then tr_lines s' = tr_lines s @ [takeWhile (\<lambda>c. c \<noteq> CHR 0x00) (tr_pending s @ [c])] \<and> tr_pending s' = []
     else tr_lines s' = tr_lines s \<and> tr_pending s' = tr_pending s @ [c])"
proof -
  let ?i = "tr_i s" and ?q = "kfifo_skip 1 (tr_fifo s)"
  let ?b = "(tr_buff s)[?i := c]"
  have len: "length (tr_buff s) = 512" "?i \<le> 510" using assms by (auto simp: trace_ready_def)
  have pend: "take (Suc ?i) ?b = tr_pending s @ [c]" "length (tr_pending s) = ?i"
    using len by (simp_all add: take_Suc_update tr_pending_def)
  have step: "thread_trace_msg_out_step s =
      (if c = CHR 0x0A \<or> 510 \<le> ?i
       then Inr (lidbg_trace_key_word (c_string (?b[Suc ?i := CHR 0x00]))
              (s\<lparr>tr_fifo := ?q, tr_buff := ?b[Suc ?i := CHR 0x00], tr_i := 0\<rparr>))
       else Inr (s\<lparr>tr_fifo := ?q, tr_buff := ?b, tr_i := Suc ?i\<rparr>))"
    using assms len
    by (simp add: thread_trace_msg_out_step_def kfifo_is_empty_def kfifo_out_def kfifo_peek_def
        store_at_def Let_def)
  show ?thesis
  proof (cases "c = CHR 0x0A \<or> 510 \<le> ?i")
    case True
    have "c_string (?b[Suc ?i := CHR 0x00]) = takeWhile (\<lambda>c. c \<noteq> CHR 0x00) (tr_pending s @ [c])"
      using len c_string_cut [of "Suc ?i" ?b] pend(1) by simp
    with True step assms len pend(2) show ?thesis
      by (auto simp: lidbg_trace_key_word_def trace_ready_def tr_pending_def)
  next
    case False
    with step assms pend len show ?thesis
      by (auto simp: trace_ready_def tr_pending_def)
  qed
qed

lemma out_steps_idle:
  assumes "disable_flag s \<noteq> 0 \<or> kf_data (tr_fifo s) = []"
  shows "thread_trace_msg_out n s = Inr s"
proof (induction n)
  case (Suc n)
  then show ?case using assms by (simp add: thread_trace_msg_out_step_def kfifo_is_empty_def)
qed simp

lemma out_steps:
  "trace_ready s \<Longrightarrow> disable_flag s = 0 \<Longrightarrow> cut_lines (tr_pending s) (take n (kf_data (tr_fifo s))) = (ls, rest) \<Longrightarrow>
    \<exists>s'. thread_trace_msg_out n s = Inr s' \<and> trace_ready s' \<and> kf_data (tr_fifo s') = drop n (kf_data (tr_fifo s)) \<and>
      tr_lines s' = tr_lines s @ map (takeWhile (\<lambda>c. c \<noteq> CHR 0x00)) ls \<and> tr_pending s' = rest"
proof (induction n arbitrary: s ls rest)
  case 0
  then show ?case by simp
next
  case (Suc n)
  show ?case
  proof (cases "kf_data (tr_fifo s)")
    case Nil
    then show ?thesis using Suc.prems out_steps_idle [of s "Suc n"] by (simp del: thread_trace_msg_out.simps)
  next
    case (Cons c r)
    obtain t where t: "thread_trace_msg_out_step s = Inr t" "trace_ready t" "disable_flag t = 0" "kf_data (tr_fifo t) = r"
        "if c = CHR 0x0A \<or> length (tr_pending s) = 510
         then tr_lines t = tr_lines s @ [takeWhile (\<lambda>c. c \<noteq> CHR 0x00) (tr_pending s @ [c])] \<and> tr_pending t = []
         else tr_lines t = tr_lines s \<and> tr_pending t = tr_pending s @ [c]"
      using out_step_char [OF Suc.prems(1,2) Cons] by blast
    obtain ls' rest' where cut: "cut_lines (tr_pending t) (take n r) = (ls', rest')" by fastforce
    obtain u where u: "thread_trace_msg_out n t = Inr u" "trace_ready u" "kf_data (tr_fifo u) = drop n r"
        "tr_lines u = tr_lines t @ map (takeWhile (\<lambda>c. c \<noteq> CHR 0x00)) ls'" "tr_pending u = rest'"
      using Suc.IH [OF t(2,3)] cut unfolding t(4) by blast
    have "tr_lines u = tr_lines s @ map (takeWhile (\<lambda>c. c \<noteq> CHR 0x00)) ls \<and> rest' = rest"
      using Suc.prems(3) Cons t(5) cut u(4) by (auto split: if_splits)
    then show ?thesis using t(1) u Cons by simp
  qed
qed

section \<open>Properties\<close>

text \<open>(C7) The output thread is memory safe and loses nothing: from a buffer of 512 bytes filled up to index 510 at most, as at the
  start, and for every number of rounds, it stays inside the buffer; an enabled one has taken one character from the front of the queue in each
  round, while there were any, a disabled one none.  What it took, behind the unfinished line, is cut into lines behind each newline and
  behind 511 characters, with no character left out, and each line was searched in this order, up to its first NUL.\<close>

theorem trace_out_lossless:
  assumes "trace_ready s"
  shows "\<exists>s' ls rest. thread_trace_msg_out n s = Inr s' \<and> trace_ready s' \<and>
    (let k = (if disable_flag s = 0 then n else 0); q = kf_data (tr_fifo s) in
       cut_lines (tr_pending s) (take k q) = (ls, rest) \<and> concat ls @ rest = tr_pending s @ take k q \<and>
       tr_lines s' = tr_lines s @ map (takeWhile (\<lambda>c. c \<noteq> CHR 0x00)) ls \<and> tr_pending s' = rest \<and>
       kf_data (tr_fifo s') = drop k q)"
proof (cases "disable_flag s = 0")
  case True
  obtain ls rest where cut: "cut_lines (tr_pending s) (take n (kf_data (tr_fifo s))) = (ls, rest)" by fastforce
  from out_steps [OF assms True cut] obtain s' where "thread_trace_msg_out n s = Inr s'" "trace_ready s'"
      "kf_data (tr_fifo s') = drop n (kf_data (tr_fifo s))" "tr_pending s' = rest"
      "tr_lines s' = tr_lines s @ map (takeWhile (\<lambda>c. c \<noteq> CHR 0x00)) ls" by blast
  then show ?thesis using True cut cut_lines_text [OF cut]
    by (intro exI [of _ s'] exI [of _ ls] exI [of _ rest]) simp
next
  case False
  then show ?thesis using assms out_steps_idle [of s n] by simp
qed

theorem trace_out_lossless_witness:
  "\<exists>s'. thread_trace_msg_out 5 ((trace_start [])\<lparr>disable_flag := 0,
       tr_fifo := \<lparr>kf_size = 8, kf_data = [CHR ''a'', CHR 0x00, CHR ''b'', CHR 0x0A, CHR ''c'', CHR ''d'']\<rparr>\<rparr>) = Inr s' \<and>
     tr_lines s' = [''a''] \<and> tr_pending s' = ''c'' \<and> kf_data (tr_fifo s') = ''d''"
proof -
  let ?s = "(trace_start [])\<lparr>disable_flag := 0,
      tr_fifo := \<lparr>kf_size = 8, kf_data = [CHR ''a'', CHR 0x00, CHR ''b'', CHR 0x0A, CHR ''c'', CHR ''d'']\<rparr>\<rparr>"
  have "trace_ready ?s" by (simp add: trace_ready_def trace_start_def)
  from trace_out_lossless [OF this, of 5] show ?thesis
    by (auto simp: tr_pending_def trace_start_def)
qed

text \<open>Input overwrites the oldest traced text: a chunk read while tracing is enabled is queued
  completely behind a tail of what was queued before, and the queue never exceeds its size.\<close>

theorem trace_in_keeps_newest:
  assumes "disable_flag s = 0" and "kf_ok (tr_fifo s)" and "length data \<le> kf_size (tr_fifo s)"
  shows "\<exists>k. kf_data (tr_fifo (thread_trace_msg_in_step data s)) = drop k (kf_data (tr_fifo s)) @ data \<and>
     kf_ok (tr_fifo (thread_trace_msg_in_step data s))"
proof -
  have "tr_fifo (thread_trace_msg_in_step data s) = fifo_put_room data (tr_fifo s)"
    using assms(1) by (simp add: thread_trace_msg_in_step_def trace_enqueue_def Let_def
        lidbg_trace_msg_is_enough_def fifo_put_room_def)
  then show ?thesis using fifo_put_room_data [OF assms(2,3)] assms(2) by auto
qed

theorem trace_in_keeps_newest_witness:
  "\<exists>k. kf_data (tr_fifo (thread_trace_msg_in_step ''xyz'' ((trace_start [])\<lparr>disable_flag := 0,
        tr_fifo := \<lparr>kf_size = 4, kf_data = ''abc''\<rparr>\<rparr>))) = drop k ''abc'' @ ''xyz'' \<and>
     kf_ok (tr_fifo (thread_trace_msg_in_step ''xyz'' ((trace_start [])\<lparr>disable_flag := 0,
        tr_fifo := \<lparr>kf_size = 4, kf_data = ''abc''\<rparr>\<rparr>)))"
  using trace_in_keeps_newest [of "(trace_start [])\<lparr>disable_flag := 0,
      tr_fifo := \<lparr>kf_size = 4, kf_data = ''abc''\<rparr>\<rparr>" "''xyz''"]
  by (simp add: kf_ok_def)

end
