(* ===== verification/Servicer.thy ===== *)
theory Servicer
  imports Mem_Log
begin

text \<open>
  The two mailboxes between the kernel and the user-space helper programs.

  \<^item> \<^verbatim>\<open>core/lidbg_servicer.c\<close>: commands (ints) travel through two byte queues of 64 bytes, so at
    most 16 commands are pending; \<open>SERVICER_DONOTHING\<close> doubles as the answer of an empty queue.
    The queues are kept at the byte level of the code, and shown to implement a bounded channel.
  \<^item> \<^verbatim>\<open>core/lidbg_msg.c\<close>: text messages travel through a ring of 50 rows of 256 bytes, the completion
    \<open>msg_ready\<close> counts the rows not yet printed.

  Every access is inside a spin lock or a semaphore, so each operation is atomic.  Arguments named
  \<open>junk\<close> stand for the value of an uninitialised variable.
\<close>

section \<open>Commands\<close>

definition SERVICER_DONOTHING :: u32 where "SERVICER_DONOTHING = 0"
definition FIFO_SIZE :: nat where "FIFO_SIZE = 64"

record servicer =
  k2u_fifo :: "byte kfifo"
  u2k_fifo :: "byte kfifo"
  k2u_wakeups :: nat
  u2k_com :: nat

definition servicer_start :: servicer where
  "servicer_start = \<lparr>k2u_fifo = kfifo_alloc FIFO_SIZE, u2k_fifo = kfifo_alloc FIFO_SIZE,
     k2u_wakeups = 0, u2k_com = 0\<rparr>"

definition k2u_write :: "u32 \<Rightarrow> servicer \<Rightarrow> servicer" where
  "k2u_write cmd s =
     (if cmd \<noteq> SERVICER_DONOTHING
      then s\<lparr>k2u_fifo := kfifo_in (int_bytes cmd) (k2u_fifo s), k2u_wakeups := k2u_wakeups s + 1\<rparr>
      else s)"

text \<open>Reading into an int variable overwrites as many of its bytes as were taken out.\<close>

definition fifo_out_int :: "u32 \<Rightarrow> byte kfifo \<Rightarrow> u32 \<times> byte kfifo" where
  "fifo_out_int junk q =
     (let (out, q') = kfifo_out 4 q in (bytes_int (out @ drop (length out) (int_bytes junk)), q'))"

definition k2u_read :: "u32 \<Rightarrow> servicer \<Rightarrow> u32 \<times> servicer" where
  "k2u_read junk s =
     (if kfifo_is_empty (k2u_fifo s) then (SERVICER_DONOTHING, s)
      else let (cmd, q) = fifo_out_int junk (k2u_fifo s) in (cmd, s\<lparr>k2u_fifo := q\<rparr>))"

definition u2k_read :: "u32 \<Rightarrow> servicer \<Rightarrow> u32 \<times> servicer" where
  "u2k_read junk s =
     (let (cmd, q) = fifo_out_int junk (u2k_fifo s) in (cmd, s\<lparr>u2k_fifo := q\<rparr>))"

text \<open>The device node: four bytes are moved whatever size the caller passed.\<close>

definition servicer_read :: "u32 \<Rightarrow> nat \<Rightarrow> servicer \<Rightarrow> nat \<times> byte list \<times> servicer" where
  "servicer_read junk sz s =
     (let (cmd, s') = k2u_read junk s in (sz, int_bytes cmd, s'))"

definition servicer_write :: "byte list \<Rightarrow> nat \<Rightarrow> servicer \<Rightarrow> nat \<times> servicer" where
  "servicer_write buffer sz s =
     (sz, s\<lparr>u2k_fifo := kfifo_in (int_bytes (bytes_int buffer)) (u2k_fifo s),
              u2k_com := u2k_com s + 1\<rparr>)"

text \<open>Both named commands have their assignment commented out.\<close>

definition lidbg_servicer_main :: "string list \<Rightarrow> servicer \<Rightarrow> fault + servicer" where
  "lidbg_servicer_main argv s = bindE (arg argv 0) (\<lambda>_. Inr (k2u_write 0 s))"

section \<open>Messages\<close>

definition TOTAL_LOGS :: nat where "TOTAL_LOGS = 50"
definition LOG_BYTES :: nat where "LOG_BYTES = 256"

record lidbg_msg =
  w_pos :: nat
  r_pos :: nat
  log_rows :: "char list list"
  msg_ready :: nat

definition lidbg_msg_start :: lidbg_msg where
  "lidbg_msg_start = \<lparr>w_pos = 0, r_pos = 0,
     log_rows = replicate TOTAL_LOGS (replicate LOG_BYTES (CHR 0x00)), msg_ready = 0\<rparr>"

text \<open>
  \<open>data\<close> are the \<open>size\<close> bytes of the caller; the ring does not exist before the thread has
  started, and a write of no bytes stores the NUL before the row.
\<close>

definition msg_write :: "char list \<Rightarrow> lidbg_msg option \<Rightarrow> fault + (nat \<times> lidbg_msg option)" where
  "msg_write data p =
     (case p of
        None \<Rightarrow> Inl NullDeref
      | Some m \<Rightarrow>
          let n = min (length data) LOG_BYTES;
              row = take n data @ drop n (log_rows m ! w_pos m)
          in if n = 0 then Inl BufOverrun
             else Inr (length data, Some (m\<lparr>
               log_rows := (log_rows m)[w_pos m := row[n - 1 := CHR 0x00]],
               w_pos := (w_pos m + 1) mod TOTAL_LOGS,
               msg_ready := msg_ready m + 1\<rparr>)))"

text \<open>One round of the printing thread: \<open>None\<close> while it waits for a completion.\<close>

definition thread_msg :: "lidbg_msg \<Rightarrow> (string \<times> lidbg_msg) option" where
  "thread_msg m =
     (if msg_ready m = 0 then None
      else Some (c_string (log_rows m ! r_pos m),
        m\<lparr>r_pos := (r_pos m + 1) mod TOTAL_LOGS, msg_ready := msg_ready m - 1\<rparr>))"

section \<open>A bounded channel\<close>

text \<open>
  The contract of a command mailbox, over the list of pending commands: a send appends, or is
  lost when the mailbox is full; a receive takes the oldest, or answers \<open>nil\<close>.
\<close>

primrec recv_all :: "('s \<Rightarrow> 'c \<times> 's) \<Rightarrow> nat \<Rightarrow> 's \<Rightarrow> 'c list" where
  "recv_all recv 0 s = []"
| "recv_all recv (Suc n) s = fst (recv s) # recv_all recv n (snd (recv s))"

locale bounded_channel =
  fixes send :: "'c \<Rightarrow> 's \<Rightarrow> 's"
    and recv :: "'s \<Rightarrow> 'c \<times> 's"
    and rel :: "'s \<Rightarrow> 'c list \<Rightarrow> bool"
    and nil :: 'c
    and cap :: nat
  assumes send_rel: "rel s cs \<Longrightarrow> c \<noteq> nil \<Longrightarrow> rel (send c s) (if length cs < cap then cs @ [c] else cs)"
    and recv_rel: "rel s (c # cs) \<Longrightarrow> fst (recv s) = c \<and> rel (snd (recv s)) cs"
    and recv_nil: "rel s [] \<Longrightarrow> fst (recv s) = nil \<and> rel (snd (recv s)) []"
begin

lemma send_all_rel:
  "rel s cs \<Longrightarrow> \<forall>c \<in> set ws. c \<noteq> nil \<Longrightarrow> rel (fold send ws s) (cs @ take (cap - length cs) ws)"
proof (induction ws arbitrary: s cs)
  case (Cons w ws)
  from Cons.prems have w: "rel (send w s) (if length cs < cap then cs @ [w] else cs)"
    using send_rel by simp
  show ?case
  proof (cases "length cs < cap")
    case True
    then have "cap - length cs = Suc (cap - Suc (length cs))" by simp
    with True w Cons.IH [of "send w s" "cs @ [w]"] Cons.prems show ?thesis by simp
  next
    case False
    with w Cons.IH [of "send w s" cs] Cons.prems show ?thesis by simp
  qed
qed simp

lemma recv_all_rel:
  "rel s cs \<Longrightarrow> recv_all recv n s = take n cs @ replicate (n - length cs) nil"
proof (induction n arbitrary: s cs)
  case (Suc n)
  show ?case
  proof (cases cs)
    case Nil
    with Suc recv_nil [of s] show ?thesis by auto
  next
    case (Cons c cs')
    with Suc recv_rel [of s c cs'] show ?thesis by auto
  qed
qed simp

lemma mailbox:
  "rel s [] \<Longrightarrow> \<forall>c \<in> set ws. c \<noteq> nil \<Longrightarrow>
     recv_all recv n (fold send ws s) = take (min n cap) ws @ replicate (n - min cap (length ws)) nil"
  using send_all_rel [of s "[]" ws] recv_all_rel [of "fold send ws s" "take cap ws" n]
  by (simp add: min.commute)

end

section \<open>The command queue implements the channel\<close>

lemma length_concat_int_bytes [simp]: "length (concat (map int_bytes cs)) = 4 * length cs"
  by (induction cs) simp_all

text \<open>A byte queue that holds whole ints only.\<close>

definition int_fifo :: "byte kfifo \<Rightarrow> u32 list \<Rightarrow> bool" where
  "int_fifo q cs \<longleftrightarrow> kf_size q = FIFO_SIZE \<and> kf_data q = concat (map int_bytes cs) \<and> length cs \<le> 16"

lemma int_fifo_in:
  "int_fifo q cs \<Longrightarrow> int_fifo (kfifo_in (int_bytes c) q) (if length cs < 16 then cs @ [c] else cs)"
  by (auto simp: int_fifo_def FIFO_SIZE_def)

lemma int_fifo_out:
  "int_fifo q (c # cs) \<Longrightarrow> fst (fifo_out_int junk q) = c \<and> int_fifo (snd (fifo_out_int junk q)) cs"
  by (auto simp: int_fifo_def fifo_out_int_def kfifo_out_def kfifo_peek_def)

definition k2u_rel :: "servicer \<Rightarrow> u32 list \<Rightarrow> bool" where
  "k2u_rel s cs \<longleftrightarrow> int_fifo (k2u_fifo s) cs"

interpretation k2u: bounded_channel k2u_write "k2u_read junk" k2u_rel SERVICER_DONOTHING 16
  for junk
proof
  show "k2u_rel (k2u_write c s) (if length cs < 16 then cs @ [c] else cs)"
    if "k2u_rel s cs" "c \<noteq> SERVICER_DONOTHING" for s cs c
    using that int_fifo_in [of "k2u_fifo s" cs c] by (simp add: k2u_rel_def k2u_write_def)
  show "fst (k2u_read junk s) = c \<and> k2u_rel (snd (k2u_read junk s)) cs"
    if "k2u_rel s (c # cs)" for s c cs
    using that int_fifo_out [of "k2u_fifo s" c cs junk]
    by (auto simp: k2u_rel_def k2u_read_def kfifo_is_empty_def int_fifo_def int_bytes_def
        split: prod.splits)
  show "fst (k2u_read junk s) = SERVICER_DONOTHING \<and> k2u_rel (snd (k2u_read junk s)) []"
    if "k2u_rel s []" for s
    using that by (simp add: k2u_rel_def k2u_read_def kfifo_is_empty_def int_fifo_def)
qed

lemma k2u_rel_start: "k2u_rel servicer_start []"
  by (simp add: k2u_rel_def servicer_start_def int_fifo_def)

section \<open>The ring of messages\<close>

text \<open>\<open>ring_rel m qs\<close>: the texts \<open>qs\<close> are waiting in the ring, oldest first.\<close>

definition ring_rel :: "lidbg_msg \<Rightarrow> string list \<Rightarrow> bool" where
  "ring_rel m qs \<longleftrightarrow>
     length (log_rows m) = TOTAL_LOGS \<and> list_all (\<lambda>r. length r = LOG_BYTES) (log_rows m) \<and>
     r_pos m < TOTAL_LOGS \<and> msg_ready m = length qs \<and> length qs \<le> TOTAL_LOGS \<and>
     w_pos m = (r_pos m + length qs) mod TOTAL_LOGS \<and>
     (\<forall>j < length qs. c_string (log_rows m ! ((r_pos m + j) mod TOTAL_LOGS)) = qs ! j)"

definition msg_text :: "char list \<Rightarrow> string" where
  "msg_text data = c_string (take (min (length data) LOG_BYTES - 1) data)"

lemma c_string_row:
  assumes "0 < n" and "n \<le> length data"
  shows "c_string ((take n data @ r)[n - 1 := CHR 0x00]) = c_string (take (n - 1) data)"
proof -
  have "(take n data @ r)[n - 1 := CHR 0x00] = take (n - 1) data @ CHR 0x00 # r"
    using assms by (simp add: list_update_append upd_conv_take_nth_drop min_def)
  then show ?thesis by (simp add: c_string_def takeWhile_tail)
qed

lemma ring_other_row:
  "r < TOTAL_LOGS \<Longrightarrow> j < k \<Longrightarrow> k < TOTAL_LOGS \<Longrightarrow> (r + j) mod TOTAL_LOGS \<noteq> (r + k) mod TOTAL_LOGS"
proof
  assume "r < TOTAL_LOGS" "j < k" "k < TOTAL_LOGS" "(r + j) mod TOTAL_LOGS = (r + k) mod TOTAL_LOGS"
  then have "TOTAL_LOGS dvd r + k - (r + j)" by (metis add_le_cancel_left less_imp_le_nat mod_eq_dvd_iff_nat)
  then have "TOTAL_LOGS dvd k - j" by simp
  moreover have "0 < k - j" "k - j < TOTAL_LOGS" using \<open>j < k\<close> \<open>k < TOTAL_LOGS\<close> by auto
  ultimately show False using nat_dvd_not_less by blast
qed

lemma ring_write:
  assumes "ring_rel m qs" and "length qs < TOTAL_LOGS" and "data \<noteq> []"
  shows "\<exists>m'. msg_write data (Some m) = Inr (length data, Some m') \<and> ring_rel m' (qs @ [msg_text data])"
proof -
  let ?n = "min (length data) LOG_BYTES" and ?w = "(r_pos m + length qs) mod TOTAL_LOGS"
  let ?row = "(take ?n data @ drop ?n (log_rows m ! ?w))[?n - 1 := CHR 0x00]"
  let ?m = "m\<lparr>log_rows := (log_rows m)[?w := ?row], w_pos := (?w + 1) mod TOTAL_LOGS,
              msg_ready := msg_ready m + 1\<rparr>"
  have w: "w_pos m = ?w" "?w < TOTAL_LOGS" using assms(1) by (auto simp: ring_rel_def TOTAL_LOGS_def)
  have n: "0 < ?n" using assms(3) by (simp add: LOG_BYTES_def)
  have "msg_write data (Some m) = Inr (length data, Some ?m)"
    using n w(1) by (simp add: msg_write_def Let_def)
  moreover have "length ?row = LOG_BYTES"
    using assms(1) w(2) by (auto simp: ring_rel_def list_all_length)
  then have "list_all (\<lambda>r. length r = LOG_BYTES) (log_rows ?m)"
    using assms(1) by (auto simp: ring_rel_def list_all_length nth_list_update)
  moreover have "c_string (log_rows ?m ! ((r_pos m + j) mod TOTAL_LOGS)) = (qs @ [msg_text data]) ! j"
    if "j < Suc (length qs)" for j
  proof (cases "j = length qs")
    case True
    then show ?thesis
      using w(2) c_string_row [OF n, of data] assms(1) by (simp add: ring_rel_def msg_text_def)
  next
    case False
    with that have "j < length qs" by simp
    then show ?thesis
      using ring_other_row [of "r_pos m" j "length qs"] assms(1,2)
      by (auto simp: ring_rel_def nth_append)
  qed
  moreover have "(?w + 1) mod TOTAL_LOGS = (r_pos m + Suc (length qs)) mod TOTAL_LOGS"
    by (simp add: mod_simps)
  ultimately show ?thesis using assms by (auto simp: ring_rel_def)
qed

lemma ring_print:
  assumes "ring_rel m (q # qs)"
  shows "\<exists>m'. thread_msg m = Some (q, m') \<and> ring_rel m' qs"
proof -
  let ?m = "m\<lparr>r_pos := (r_pos m + 1) mod TOTAL_LOGS, msg_ready := msg_ready m - 1\<rparr>"
  from assms have all: "\<forall>j < Suc (length qs).
      c_string (log_rows m ! ((r_pos m + j) mod TOTAL_LOGS)) = (q # qs) ! j"
    by (simp add: ring_rel_def)
  from all [rule_format, of 0] assms have "c_string (log_rows m ! r_pos m) = q"
    by (simp add: ring_rel_def)
  then have "thread_msg m = Some (q, ?m)" using assms by (simp add: thread_msg_def ring_rel_def)
  moreover have "c_string (log_rows m ! (((r_pos m + 1) mod TOTAL_LOGS + j) mod TOTAL_LOGS)) = qs ! j"
    if "j < length qs" for j
    using all [rule_format, of "Suc j"] that by (simp add: mod_simps)
  ultimately show ?thesis using assms by (auto simp: ring_rel_def mod_simps TOTAL_LOGS_def)
qed

lemma ring_rel_start: "ring_rel lidbg_msg_start []"
  by (simp add: ring_rel_def lidbg_msg_start_def TOTAL_LOGS_def LOG_BYTES_def list_all_length)

text \<open>A burst of writes, and a burst of rounds of the printing thread.\<close>

definition write_burst :: "char list list \<Rightarrow> lidbg_msg \<Rightarrow> fault + lidbg_msg option" where
  "write_burst ds m = foldE (\<lambda>d p. bindE (msg_write d p) (\<lambda>(_, p'). Inr p')) ds (Some m)"

primrec print_burst :: "nat \<Rightarrow> lidbg_msg \<Rightarrow> string list" where
  "print_burst 0 m = []"
| "print_burst (Suc n) m =
     (case thread_msg m of None \<Rightarrow> [] | Some (t, m') \<Rightarrow> t # print_burst n m')"

lemma write_burst_rel:
  "ring_rel m qs \<Longrightarrow> length qs + length ds \<le> TOTAL_LOGS \<Longrightarrow> \<forall>d \<in> set ds. d \<noteq> [] \<Longrightarrow>
     \<exists>m'. write_burst ds m = Inr (Some m') \<and> ring_rel m' (qs @ map msg_text ds)"
proof (induction ds arbitrary: m qs)
  case Nil
  then show ?case by (simp add: write_burst_def)
next
  case (Cons d ds)
  then obtain m1 where m1: "msg_write d (Some m) = Inr (length d, Some m1)"
    and r1: "ring_rel m1 (qs @ [msg_text d])"
    using ring_write [of m qs d] by auto
  with Cons.IH [OF r1] Cons.prems show ?case by (simp add: write_burst_def)
qed

lemma print_burst_rel: "ring_rel m qs \<Longrightarrow> print_burst n m = take n qs"
proof (induction n arbitrary: m qs)
  case (Suc n)
  show ?case
  proof (cases qs)
    case Nil
    with Suc.prems show ?thesis by (simp add: ring_rel_def thread_msg_def)
  next
    case (Cons q qs')
    with Suc.prems ring_print obtain m' where "thread_msg m = Some (q, m')" "ring_rel m' qs'"
      by blast
    with Suc.IH Cons show ?thesis by simp
  qed
qed simp

section \<open>Properties\<close>

text \<open>Commands the kernel posts to user space are read back in the order they were posted.  The
  64-byte queue keeps the first 16 of a burst and silently loses the others; a reader that asks
  again is told \<open>SERVICER_DONOTHING\<close>.\<close>

theorem k2u_mailbox:
  assumes "\<forall>c \<in> set cmds. c \<noteq> SERVICER_DONOTHING"
  shows "recv_all (k2u_read junk) n (fold k2u_write cmds servicer_start) =
    take (min n 16) cmds @ replicate (n - min 16 (length cmds)) SERVICER_DONOTHING"
  using k2u.mailbox [OF k2u_rel_start assms] .

theorem k2u_mailbox_witness:
  "recv_all (k2u_read 77) 3 (fold k2u_write [5, 9] servicer_start) = [5, 9, 0]"
  using k2u_mailbox [of "[5, 9]" 77 3] by (simp add: SERVICER_DONOTHING_def)

text \<open>A burst of at most 50 non-empty messages written while the printing thread sleeps is
  printed completely and in order, each message without its last byte, which the terminating NUL
  overwrites.\<close>

theorem msg_ring_prints:
  assumes "length ds \<le> TOTAL_LOGS" and "\<forall>d \<in> set ds. d \<noteq> []"
  shows "\<exists>m. write_burst ds lidbg_msg_start = Inr (Some m) \<and>
    print_burst n m = take n (map msg_text ds)"
  using write_burst_rel [OF ring_rel_start, of ds] print_burst_rel assms by fastforce

theorem msg_ring_prints_witness:
  "\<exists>m. write_burst [''hello'', ''w''] lidbg_msg_start = Inr (Some m) \<and>
     print_burst 3 m = [''hell'', '''']"
  using msg_ring_prints [of "[''hello'', ''w'']" 3]
  by (simp add: TOTAL_LOGS_def LOG_BYTES_def msg_text_def c_string_def)

end
