(* ===== verification/Mem.thy ===== *)
theory Mem
  imports Prelude
begin

text \<open>
  Register access, \<^verbatim>\<open>core/lidbg_mem.c\<close>: 32-bit reads and writes of a physical address (through
  \<open>ioremap\<close>) or a virtual one, access to a bit field of such a word, and the console
  command \<open>mem\<close>.

  Memory is a byte store, as unaligned words overlap; a word access touches four consecutive
  addresses and wraps with the 32-bit address.  The sets of addresses that \<open>ioremap\<close> can map and
  that are valid virtual ones belong to the platform: they are fields of the state no operation
  changes.  The two families of functions are the same code over the two spaces, so their laws are
  proved once, in the locale \<open>word_space\<close>.
\<close>

section \<open>State and word access\<close>

record memory =
  ioremap_ok :: "u32 \<Rightarrow> bool"
  phy_mem :: "u32 \<Rightarrow> byte"
  virt_ok :: "u32 \<Rightarrow> bool"
  virt_mem :: "u32 \<Rightarrow> byte"

definition load_word :: "(u32 \<Rightarrow> byte) \<Rightarrow> u32 \<Rightarrow> u32" where
  "load_word f a = bytes_int [f a, f (a + 1), f (a + 2), f (a + 3)]"

definition store_word :: "u32 \<Rightarrow> u32 \<Rightarrow> (u32 \<Rightarrow> byte) \<Rightarrow> u32 \<Rightarrow> byte" where
  "store_word a w f =
     f(a := int_bytes w ! 0, a + 1 := int_bytes w ! 1, a + 2 := int_bytes w ! 2, a + 3 := int_bytes w ! 3)"

definition read_phy_addr :: "u32 \<Rightarrow> memory \<Rightarrow> fault + u32" where
  "read_phy_addr phy_addr m =
     (if ioremap_ok m phy_addr then Inr (load_word (phy_mem m) phy_addr) else Inl NullDeref)"

definition write_phy_addr :: "u32 \<Rightarrow> u32 \<Rightarrow> memory \<Rightarrow> fault + memory" where
  "write_phy_addr phy_addr val m =
     (if ioremap_ok m phy_addr
      then Inr (m\<lparr>phy_mem := store_word phy_addr val (phy_mem m)\<rparr>) else Inl NullDeref)"

definition read_virt_addr :: "u32 \<Rightarrow> memory \<Rightarrow> fault + u32" where
  "read_virt_addr phy_addr m =
     (if virt_ok m phy_addr then Inr (load_word (virt_mem m) phy_addr) else Inl NullDeref)"

definition write_virt_addr :: "u32 \<Rightarrow> u32 \<Rightarrow> memory \<Rightarrow> fault + memory" where
  "write_virt_addr phy_addr val m =
     (if virt_ok m phy_addr
      then Inr (m\<lparr>virt_mem := store_word phy_addr val (virt_mem m)\<rparr>) else Inl NullDeref)"

section \<open>Bit fields\<close>

text \<open>The loop \<open>for(i = 0; i < num - 1; i++) Mark = (Mark << 1) | 0x1\<close>; \<open>num - 1\<close> wraps.\<close>

primrec mark_loop :: "nat \<Rightarrow> u32" where
  "mark_loop 0 = 1"
| "mark_loop (Suc i) = push_bit 1 (mark_loop i) OR 1"

definition Mark :: "u32 \<Rightarrow> u32" where
  "Mark num = mark_loop (unat (num - 1))"

definition shl :: "u32 \<Rightarrow> u32 \<Rightarrow> fault + u32" where
  "shl x k = (if k < 32 then Inr (push_bit (unat k) x) else Inl BadShift)"

definition shr :: "u32 \<Rightarrow> u32 \<Rightarrow> fault + u32" where
  "shr x k = (if k < 32 then Inr (drop_bit (unat k) x) else Inl BadShift)"

definition write_phy_addr_bit :: "u32 \<Rightarrow> u32 \<Rightarrow> u32 \<Rightarrow> u32 \<Rightarrow> memory \<Rightarrow> fault + memory" where
  "write_phy_addr_bit offset num phy_addr val m =
     bindE (read_phy_addr phy_addr m) (\<lambda>Temp.
     bindE (shl (Mark num) offset) (\<lambda>field.
     bindE (shl (val AND Mark num) offset) (\<lambda>bits.
     write_phy_addr phy_addr ((Temp AND NOT field) OR bits) m)))"

definition write_virt_addr_bit :: "u32 \<Rightarrow> u32 \<Rightarrow> u32 \<Rightarrow> u32 \<Rightarrow> memory \<Rightarrow> fault + memory" where
  "write_virt_addr_bit offset num phy_addr val m =
     bindE (read_virt_addr phy_addr m) (\<lambda>Temp.
     bindE (shl (Mark num) offset) (\<lambda>field.
     bindE (shl (val AND Mark num) offset) (\<lambda>bits.
     write_virt_addr phy_addr ((Temp AND NOT field) OR bits) m)))"

definition read_phy_addr_bit :: "u32 \<Rightarrow> u32 \<Rightarrow> u32 \<Rightarrow> memory \<Rightarrow> fault + u32" where
  "read_phy_addr_bit offset num phy_addr m =
     bindE (read_phy_addr phy_addr m) (\<lambda>Value.
     bindE (shl (Mark num) offset) (\<lambda>field.
     shr (Value AND field) offset))"

definition read_virt_addr_bit :: "u32 \<Rightarrow> u32 \<Rightarrow> u32 \<Rightarrow> memory \<Rightarrow> fault + u32" where
  "read_virt_addr_bit offset num phy_addr m =
     bindE (read_virt_addr phy_addr m) (\<lambda>Value.
     bindE (shl (Mark num) offset) (\<lambda>field.
     shr (Value AND field) offset))"

section \<open>The console command\<close>

datatype mem_print = MemUsage | MemLine string u32 u32

text \<open>The loop of \<open>r\<close>: a space that is neither \<open>phy\<close> nor \<open>virt\<close> prints the last value, 0.\<close>

primrec mem_read_loop :: "nat \<Rightarrow> string \<Rightarrow> u32 \<Rightarrow> u32 \<Rightarrow> memory \<Rightarrow> fault + mem_print list" where
  "mem_read_loop 0 space addr val m = Inr []"
| "mem_read_loop (Suc mun) space addr val m =
     bindE (if space = ''phy'' then read_phy_addr addr m
            else if space = ''virt'' then read_virt_addr addr m else Inr val) (\<lambda>v.
     bindE (mem_read_loop mun space (addr + 4) v m) (\<lambda>ls.
     Inr (MemLine space addr v # ls)))"

definition strtoul_arg :: "string list \<Rightarrow> nat \<Rightarrow> fault + u32" where
  "strtoul_arg argv i = bindE (arg argv i) (\<lambda>s. Inr (simple_strtoul s))"

definition mem_r :: "string list \<Rightarrow> memory \<Rightarrow> fault + (mem_print list \<times> memory)" where
  "mem_r argv m =
     bindE (strtoul_arg argv 2) (\<lambda>addr. bindE (strtoul_arg argv 3) (\<lambda>mun. bindE (arg argv 1) (\<lambda>space.
     bindE (mem_read_loop (unat mun) space addr 0 m) (\<lambda>ls. Inr (ls, m)))))"

definition mem_w :: "string list \<Rightarrow> memory \<Rightarrow> fault + (mem_print list \<times> memory)" where
  "mem_w argv m =
     bindE (strtoul_arg argv 2) (\<lambda>addr. bindE (strtoul_arg argv 3) (\<lambda>val. bindE (arg argv 1) (\<lambda>space.
     if space = ''phy'' then
       bindE (write_phy_addr addr val m) (\<lambda>m'. bindE (read_phy_addr addr m') (\<lambda>v.
       Inr ([MemLine ''w_phy'' addr v], m')))
     else if space = ''virt'' then
       bindE (write_virt_addr addr val m) (\<lambda>m'. bindE (read_virt_addr addr m') (\<lambda>v.
       Inr ([MemLine ''w_virt'' addr v], m')))
     else Inr ([], m))))"

definition mem_wb :: "string list \<Rightarrow> memory \<Rightarrow> fault + (mem_print list \<times> memory)" where
  "mem_wb argv m =
     bindE (strtoul_arg argv 2) (\<lambda>addr. bindE (strtoul_arg argv 3) (\<lambda>offset.
     bindE (strtoul_arg argv 4) (\<lambda>bitmun. bindE (strtoul_arg argv 5) (\<lambda>val. bindE (arg argv 1) (\<lambda>space.
     if space = ''phy'' then
       bindE (write_phy_addr_bit offset bitmun addr val m) (\<lambda>m'.
       bindE (read_phy_addr_bit offset bitmun addr m') (\<lambda>v. Inr ([MemLine ''wb_phy'' addr v], m')))
     else if space = ''virt'' then
       bindE (write_virt_addr_bit offset bitmun addr val m) (\<lambda>m'.
       bindE (read_virt_addr_bit offset bitmun addr m') (\<lambda>v. Inr ([MemLine ''wb_virt'' addr v], m')))
     else Inr ([], m))))))"

definition mem_rb :: "string list \<Rightarrow> memory \<Rightarrow> fault + (mem_print list \<times> memory)" where
  "mem_rb argv m =
     bindE (strtoul_arg argv 2) (\<lambda>addr. bindE (strtoul_arg argv 3) (\<lambda>offset.
     bindE (strtoul_arg argv 4) (\<lambda>bitmun. bindE (arg argv 1) (\<lambda>space.
     bindE (if space = ''phy'' then read_phy_addr_bit offset bitmun addr m
            else if space = ''virt'' then read_virt_addr_bit offset bitmun addr m else Inr 0) (\<lambda>v.
     Inr ([MemLine space addr v], m))))))"

definition lidbg_mem_main :: "string list \<Rightarrow> memory \<Rightarrow> fault + (mem_print list \<times> memory)" where
  "lidbg_mem_main argv m =
     (if length argv < 3 then Inr ([MemUsage], m)
      else if argv ! 0 = ''r'' then mem_r argv m
      else if argv ! 0 = ''w'' then mem_w argv m
      else if argv ! 0 = ''wb'' then mem_wb argv m
      else if argv ! 0 = ''rb'' then mem_rb argv m
      else Inr ([], m))"

section \<open>The mask\<close>

lemma mark_loop_bit: "bit (mark_loop n) i \<longleftrightarrow> i \<le> n \<and> i < 32"
proof (induction n arbitrary: i)
  case (Suc n)
  have "bit (mark_loop (Suc n)) i \<longleftrightarrow> (1 \<le> i \<and> i < 32 \<and> bit (mark_loop n) (i - 1)) \<or> i = 0"
    by (simp only: mark_loop.simps bit_or_iff bit_push_bit_iff bit_1_iff possible_bit_word) simp
  then show ?case unfolding Suc.IH by auto
qed (auto simp: bit_1_iff)

lemma Mark_bit: "bit (Mark num) i \<longleftrightarrow> i \<le> unat (num - 1) \<and> i < 32"
  by (simp add: Mark_def mark_loop_bit)

lemma Mark_bit_pos: "num \<noteq> 0 \<Longrightarrow> bit (Mark num) i \<longleftrightarrow> i < unat num \<and> i < 32"
proof -
  assume "num \<noteq> 0"
  then have "unat (num - 1) = unat num - 1" "0 < unat num"
    by (auto simp: unat_minus_one unat_gt_0)
  then show ?thesis by (auto simp: Mark_bit)
qed

lemma Mark_zero: "Mark 0 = - 1"
  by (rule bit_word_eqI) (simp add: Mark_bit unsigned_minus_1_eq_mask mask_eq_exp_minus_1)

lemma Mark_eq: "num \<noteq> 0 \<Longrightarrow> Mark num = mask (unat num)"
  by (rule bit_word_eqI) (auto simp: Mark_bit_pos bit_simps)

lemma unat_shift: "offset < (32 :: u32) \<Longrightarrow> unat offset < 32"
  by (simp add: word_less_nat_alt)

lemma field_bits:
  fixes t :: u32
  assumes "offset < (32 :: u32)"
  shows "bit (t AND NOT (push_bit (unat offset) mk) OR push_bit (unat offset) (v AND mk)) i \<longleftrightarrow>
    (if unat offset \<le> i \<and> bit mk (i - unat offset) \<and> i < 32 then bit v (i - unat offset) else bit t i)"
proof (cases "i < 32")
  case True
  then show ?thesis by (auto simp: bit_simps)
next
  case False
  then show ?thesis using bit_imp_le_length [of t i] by (auto simp: bit_simps)
qed

lemma field_read_back:
  fixes t :: u32
  assumes "offset < (32 :: u32)" and "\<forall>i. bit mk i \<longrightarrow> i + unat offset < 32"
  shows "drop_bit (unat offset) ((t AND NOT (push_bit (unat offset) mk) OR push_bit (unat offset) (v AND mk))
    AND push_bit (unat offset) mk) = v AND mk"
  by (rule bit_word_eqI) (use assms in \<open>auto simp: bit_simps\<close>)

lemma load_store_word [simp]: "load_word (store_word a w f) a = w"
proof -
  have "a + 1 \<noteq> a" "a + 2 \<noteq> a" "a + 3 \<noteq> a" "a + 2 \<noteq> a + 1" "a + 3 \<noteq> a + 1" "a + 3 \<noteq> a + 2" for a :: u32
    by simp_all
  then have "load_word (store_word a w f) a = bytes_int (int_bytes w)"
    by (simp add: load_word_def store_word_def int_bytes_def)
  then show ?thesis by simp
qed

section \<open>A word-addressed space\<close>

text \<open>The contract of a space: a word written is read back there.\<close>

locale word_space =
  fixes rd :: "u32 \<Rightarrow> 'm \<Rightarrow> fault + u32"
    and wr :: "u32 \<Rightarrow> u32 \<Rightarrow> 'm \<Rightarrow> fault + 'm"
  assumes read_ok: "rd a m = Inr t \<Longrightarrow> \<exists>m'. wr a v m = Inr m' \<and> rd a m' = Inr v"
begin

lemma write_field:
  assumes "rd a m = Inr t" and "offset < 32"
  shows "\<exists>m' w. bindE (rd a m) (\<lambda>Temp. bindE (shl (Mark num) offset) (\<lambda>field.
      bindE (shl (val AND Mark num) offset) (\<lambda>bits. wr a ((Temp AND NOT field) OR bits) m))) = Inr m' \<and>
    rd a m' = Inr w \<and>
    (\<forall>i. bit w i \<longleftrightarrow> (if unat offset \<le> i \<and> bit (Mark num) (i - unat offset) \<and> i < 32
      then bit val (i - unat offset) else bit t i))"
proof -
  let ?w = "t AND NOT (push_bit (unat offset) (Mark num)) OR push_bit (unat offset) (val AND Mark num)"
  obtain m' where m': "wr a ?w m = Inr m'" "rd a m' = Inr ?w" using read_ok [OF assms(1)] by blast
  then have "bindE (rd a m) (\<lambda>Temp. bindE (shl (Mark num) offset) (\<lambda>field.
      bindE (shl (val AND Mark num) offset) (\<lambda>bits. wr a ((Temp AND NOT field) OR bits) m))) = Inr m'"
    using assms by (simp add: shl_def)
  with m'(2) field_bits [OF assms(2)] show ?thesis by blast
qed

lemma read_back:
  assumes "rd a m = Inr t" and "offset < 32" and "num \<noteq> 0" and "unat offset + unat num \<le> 32"
  shows "\<exists>m'. bindE (rd a m) (\<lambda>Temp. bindE (shl (Mark num) offset) (\<lambda>field.
      bindE (shl (val AND Mark num) offset) (\<lambda>bits. wr a ((Temp AND NOT field) OR bits) m))) = Inr m' \<and>
    bindE (rd a m') (\<lambda>Value. bindE (shl (Mark num) offset) (\<lambda>field. shr (Value AND field) offset))
      = Inr (val AND Mark num)"
proof -
  let ?w = "t AND NOT (push_bit (unat offset) (Mark num)) OR push_bit (unat offset) (val AND Mark num)"
  obtain m' where m': "wr a ?w m = Inr m'" "rd a m' = Inr ?w" using read_ok [OF assms(1)] by blast
  have "\<forall>i. bit (Mark num) i \<longrightarrow> i + unat offset < 32" using assms(3,4) by (auto simp: Mark_bit_pos)
  from field_read_back [OF assms(2) this, of t val] m' assms(1,2) show ?thesis
    by (auto simp: shl_def shr_def)
qed

end

interpretation phy: word_space read_phy_addr write_phy_addr
  by unfold_locales (auto simp: read_phy_addr_def write_phy_addr_def split: if_splits)

interpretation virt: word_space read_virt_addr write_virt_addr
  by unfold_locales (auto simp: read_virt_addr_def write_virt_addr_def split: if_splits)

section \<open>Properties\<close>

text \<open>Writing a bit field of a register changes exactly the bits of the field: bit \<open>i\<close> of the word
  afterwards is bit \<open>i - offset\<close> of the value inside the field, and unchanged outside; bits of the field
  beyond bit 31 are dropped.\<close>

theorem write_phy_addr_bit_field:
  assumes "read_phy_addr a m = Inr t" and "offset < 32" and "num \<noteq> 0"
  shows "\<exists>m' w. write_phy_addr_bit offset num a val m = Inr m' \<and> read_phy_addr a m' = Inr w \<and>
    (\<forall>i. bit w i \<longleftrightarrow> (if unat offset \<le> i \<and> i < unat offset + unat num \<and> i < 32
      then bit val (i - unat offset) else bit t i))"
proof -
  from phy.write_field [OF assms(1,2), of num val] obtain m' w
    where m': "write_phy_addr_bit offset num a val m = Inr m'" "read_phy_addr a m' = Inr w"
      and w: "\<forall>i. bit w i \<longleftrightarrow> (if unat offset \<le> i \<and> bit (Mark num) (i - unat offset) \<and> i < 32
        then bit val (i - unat offset) else bit t i)"
    unfolding write_phy_addr_bit_def by blast
  have "unat offset \<le> i \<and> bit (Mark num) (i - unat offset) \<and> i < 32 \<longleftrightarrow>
      unat offset \<le> i \<and> i < unat offset + unat num \<and> i < 32" for i
    using assms(3) by (auto simp: Mark_bit_pos)
  with w m' show ?thesis by auto
qed

definition example_memory :: memory where
  "example_memory = \<lparr>ioremap_ok = (\<lambda>a. a < 64), phy_mem = (\<lambda>_. 0xFF), virt_ok = (\<lambda>_. False), virt_mem = (\<lambda>_. 0)\<rparr>"

lemma example_memory_read: "read_phy_addr 16 example_memory = Inr 0xFFFFFFFF"
  by (simp add: read_phy_addr_def example_memory_def load_word_def bytes_int_def)

theorem write_phy_addr_bit_field_witness:
  "\<exists>m' w. write_phy_addr_bit 4 3 16 2 example_memory = Inr m' \<and> read_phy_addr 16 m' = Inr w \<and>
    \<not> bit w 4 \<and> bit w 5 \<and> \<not> bit w 6 \<and> bit w 7"
proof -
  obtain m' w where "write_phy_addr_bit 4 3 16 2 example_memory = Inr m'" "read_phy_addr 16 m' = Inr w"
    and w: "\<forall>i. bit w i \<longleftrightarrow> (if unat (4 :: u32) \<le> i \<and> i < unat (4 :: u32) + unat (3 :: u32) \<and> i < 32
      then bit (2 :: u32) (i - unat (4 :: u32)) else bit (0xFFFFFFFF :: u32) i)"
    using write_phy_addr_bit_field [OF example_memory_read, of 4 3 2] by (auto simp del: unat_numeral)
  then show ?thesis using w [rule_format, of 4] w [rule_format, of 5] w [rule_format, of 6] w [rule_format, of 7]
    by (auto simp: bit_simps)
qed

text \<open>A bit field inside the word, of a physical or of a virtual address, is read back with the
  value written to it, cut to the width of the field.\<close>

theorem addr_bit_roundtrip:
  assumes "num \<noteq> 0" and "unat offset + unat num \<le> 32"
    and "read_phy_addr a m = Inr t" and "read_virt_addr b m = Inr u"
  shows "(\<exists>m'. write_phy_addr_bit offset num a val m = Inr m' \<and>
      read_phy_addr_bit offset num a m' = Inr (val AND Mark num)) \<and>
    (\<exists>m'. write_virt_addr_bit offset num b val m = Inr m' \<and>
      read_virt_addr_bit offset num b m' = Inr (val AND Mark num))"
proof -
  have "0 < unat num" using assms(1) by (simp add: unat_gt_0)
  with assms(2) have "offset < 32" by (simp add: word_less_nat_alt)
  then show ?thesis
    using phy.read_back [OF assms(3) _ assms(1,2)] virt.read_back [OF assms(4) _ assms(1,2)]
    by (simp add: write_phy_addr_bit_def read_phy_addr_bit_def write_virt_addr_bit_def read_virt_addr_bit_def)
qed

theorem addr_bit_roundtrip_witness:
  "\<exists>m'. write_virt_addr_bit 8 4 0 0x7B (example_memory\<lparr>virt_ok := \<lambda>_. True\<rparr>) = Inr m' \<and>
     read_virt_addr_bit 8 4 0 m' = Inr 0xB"
proof -
  let ?m = "example_memory\<lparr>virt_ok := \<lambda>_. True\<rparr>"
  have "read_phy_addr 16 ?m = Inr 0xFFFFFFFF" "read_virt_addr 0 ?m = Inr 0"
    by (simp_all add: read_phy_addr_def read_virt_addr_def example_memory_def load_word_def bytes_int_def)
  moreover have "0x7B AND Mark 4 = (0xB :: u32)" by (simp add: Mark_eq mask_eq_exp_minus_1)
  ultimately show ?thesis using addr_bit_roundtrip [of 4 8 16 ?m "0xFFFFFFFF" 0 0 "0x7B"] by simp
qed

text \<open>A field of width 0 is not empty: the counter \<open>num - 1\<close> wraps, the mask is all ones, and the
  write replaces every bit from \<open>offset\<close> upwards.\<close>

theorem zero_width_field:
  assumes "read_phy_addr a m = Inr t" and "offset < 32"
  shows "\<exists>m' w. write_phy_addr_bit offset 0 a val m = Inr m' \<and> read_phy_addr a m' = Inr w \<and>
    (\<forall>i < 32. bit w i \<longleftrightarrow> (if unat offset \<le> i then bit val (i - unat offset) else bit t i))"
  using phy.write_field [OF assms, of 0 val]
  by (auto simp: write_phy_addr_bit_def Mark_zero)

theorem zero_width_field_witness:
  "\<exists>m' w. write_phy_addr_bit 0 0 16 5 example_memory = Inr m' \<and> read_phy_addr 16 m' = Inr w \<and> \<not> bit w 31"
proof -
  obtain m' w where "write_phy_addr_bit 0 0 16 5 example_memory = Inr m'" "read_phy_addr 16 m' = Inr w"
    and w: "\<forall>i < 32. bit w i \<longleftrightarrow> (if unat (0 :: u32) \<le> i then bit (5 :: u32) (i - unat (0 :: u32))
      else bit (0xFFFFFFFF :: u32) i)"
    using zero_width_field [OF example_memory_read, of 0 5] by auto
  then show ?thesis using w [rule_format, of 31] by (auto simp: bit_simps)
qed

end
