(* ===== verification/Uart.thy ===== *)
theory Uart
  imports Mem
begin

text \<open>
  The bit-banged serial port, \<^verbatim>\<open>core/lidbg_uart.c\<close>.  The state is the enable flag, the bit time
  \<open>delay\<close> and the wave form driven so far: the sequence of level changes and waits of the pin.
  \<open>uart_rx\<close> is the specification, an ideal receiver of frames of one start bit, eight data
  bits (least significant first) and a stop bit of two bit times.
\<close>

section \<open>The transmitter\<close>

datatype tx = TX_CFG | TX_H | TX_L | Delay u32

record io_uart =
  io_uart_en :: u32
  delay :: u32
  wave :: "tx list"

definition drive :: "tx list \<Rightarrow> io_uart \<Rightarrow> io_uart" where
  "drive ev u = u\<lparr>wave := wave u @ ev\<rparr>"

definition soc_io_uart_cfg :: "u32 \<Rightarrow> io_uart \<Rightarrow> io_uart" where
  "soc_io_uart_cfg baud u = (drive [TX_CFG, TX_H] u)\<lparr>delay := baud\<rparr>"

primrec send_bits :: "nat \<Rightarrow> byte \<Rightarrow> io_uart \<Rightarrow> io_uart" where
  "send_bits 0 b u = u"
| "send_bits (Suc i) b u =
     send_bits i (drop_bit 1 b) (drive [if b AND 0x01 \<noteq> 0 then TX_H else TX_L, Delay (delay u)] u)"

definition soc_io_uart_send_byte :: "byte \<Rightarrow> io_uart \<Rightarrow> io_uart" where
  "soc_io_uart_send_byte b u =
     (let u1 = drive [TX_L, Delay (delay u)] u;
          u2 = send_bits 8 b u1
      in drive [TX_H, Delay (delay u * 2)] u2)"

text \<open>\<open>len\<close> is a \<open>u8\<close>: the length of the string modulo 256.\<close>

definition soc_io_uart_send :: "u32 \<Rightarrow> byte list \<Rightarrow> io_uart \<Rightarrow> io_uart" where
  "soc_io_uart_send baud printChar u =
     (if io_uart_en u \<noteq> 0 then
        let len = unat (of_nat (length printChar) :: byte);
            u1 = fold soc_io_uart_send_byte (take len printChar) (soc_io_uart_cfg baud u)
        in soc_io_uart_send_byte 10 (soc_io_uart_send_byte 13 u1)
      else u)"

text \<open>\<open>txt\<close> is the formatted text, printed into \<open>printbuffer[256]\<close> before the flag is looked at.\<close>

definition soc_io_uart_send1 :: "u32 \<Rightarrow> byte list \<Rightarrow> io_uart \<Rightarrow> fault + io_uart" where
  "soc_io_uart_send1 baud txt u =
     (if length txt < 256 then Inr (soc_io_uart_send baud txt u) else Inl BufOverrun)"

definition to_bytes :: "string \<Rightarrow> byte list" where
  "to_bytes s = map of_char s"

text \<open>\<open>argv[2]\<close> is only passed on to \<open>%s\<close>, which prints \<open>(null)\<close> for NULL.\<close>

definition lidbg_uart_main :: "string list \<Rightarrow> io_uart \<Rightarrow> fault + io_uart" where
  "lidbg_uart_main argv u =
     bindE (arg argv 0) (\<lambda>cmd.
     if cmd = ''io_w'' then
       bindE (strtoul_arg argv 1) (\<lambda>d.
       soc_io_uart_send1 d (to_bytes (if 2 < length argv then argv ! 2 else ''(null)'')) u)
     else Inr u)"

section \<open>An ideal receiver\<close>

fun timeline :: "bool \<Rightarrow> tx list \<Rightarrow> (bool \<times> u32) list" where
  "timeline l [] = []"
| "timeline l (TX_CFG # ev) = timeline l ev"
| "timeline l (TX_H # ev) = timeline True ev"
| "timeline l (TX_L # ev) = timeline False ev"
| "timeline l (Delay d # ev) = (l, d) # timeline l ev"

fun byte_of_bits :: "bool list \<Rightarrow> byte" where
  "byte_of_bits [] = 0"
| "byte_of_bits (b # bs) = (if b then 1 else 0) OR push_bit 1 (byte_of_bits bs)"

fun uart_rx :: "u32 \<Rightarrow> (bool \<times> u32) list \<Rightarrow> byte list option" where
  "uart_rx d [] = Some []"
| "uart_rx d ((s, t) # xs) =
     (let bits = take 8 xs in
      if \<not> s \<and> t = d \<and> length bits = 8 \<and> list_all (\<lambda>x. snd x = d) bits \<and>
         take 1 (drop 8 xs) = [(True, 2 * d)]
      then map_option (Cons (byte_of_bits (map fst bits))) (uart_rx d (drop 9 xs))
      else None)"

section \<open>The wave form of a byte\<close>

definition level :: "bool \<Rightarrow> tx" where
  "level b = (if b then TX_H else TX_L)"

definition frame_events :: "u32 \<Rightarrow> byte \<Rightarrow> tx list" where
  "frame_events d b =
     [TX_L, Delay d] @ concat (map (\<lambda>i. [level (bit b i), Delay d]) [0..<8]) @ [TX_H, Delay (2 * d)]"

lemma drive_simps [simp]:
  "delay (drive ev u) = delay u" "io_uart_en (drive ev u) = io_uart_en u"
  "wave (drive ev u) = wave u @ ev" "drive fv (drive ev u) = drive (ev @ fv) u"
  by (simp_all add: drive_def)

lemma low_bit: "(b :: byte) AND 1 \<noteq> 0 \<longleftrightarrow> bit b 0"
  by (simp add: and_one_eq odd_iff_mod_2_eq_one bit_0)

lemma send_bits_drive:
  "send_bits n b u = drive (concat (map (\<lambda>i. [level (bit b i), Delay (delay u)]) [0..<n])) u"
proof (induction n arbitrary: b u)
  case 0
  show ?case by (simp add: drive_def)
next
  case (Suc n)
  have "[0..<Suc n] = 0 # map Suc [0..<n]" by (simp add: upt_conv_Cons map_Suc_upt del: upt_Suc)
  then show ?case
    by (simp add: Suc.IH low_bit level_def bit_drop_bit_eq comp_def del: upt_Suc)
qed

lemma send_byte_frame: "soc_io_uart_send_byte b u = drive (frame_events (delay u) b) u"
  by (simp add: soc_io_uart_send_byte_def send_bits_drive frame_events_def mult.commute del: upt_Suc)

lemma send_bytes_frames:
  "fold soc_io_uart_send_byte bs u = drive (concat (map (frame_events (delay u)) bs)) u"
proof (induction bs arbitrary: u)
  case Nil
  show ?case by (simp add: drive_def)
qed (simp add: send_byte_frame)

lemma timeline_frame:
  "timeline l (frame_events d b @ ev) = (False, d) # map (\<lambda>i. (bit b i, d)) [0..<8] @ (True, 2 * d) # timeline True ev"
  by (simp add: frame_events_def level_def upt_rec numeral_eq_Suc)

lemma byte_of_bits_bit:
  "bit (byte_of_bits bs) i \<longleftrightarrow> i < 8 \<and> i < length bs \<and> bs ! i"
proof (induction bs arbitrary: i)
  case (Cons b bs)
  have "bit (byte_of_bits (b # bs)) i \<longleftrightarrow> (if b then i = 0 else False) \<or> (1 \<le> i \<and> i < 8 \<and> bit (byte_of_bits bs) (i - 1))"
    by (cases b) (simp_all only: byte_of_bits.simps bit_or_iff bit_push_bit_iff bit_1_iff possible_bit_word, simp_all add: bit_1_iff)
  then show ?case unfolding Cons.IH by (cases i) auto
qed simp

lemma byte_of_its_bits: "byte_of_bits (map (bit b) [0..<8]) = b"
  by (rule bit_word_eqI) (simp add: byte_of_bits_bit del: upt_Suc)

lemma uart_rx_frame:
  "uart_rx d (timeline l (frame_events d b @ ev)) = map_option (Cons b) (uart_rx d (timeline True ev))"
proof -
  have "map fst (map (\<lambda>i. (bit b i, d)) [0..<8]) = map (bit b) [0..<8]" by simp
  then show ?thesis
    by (simp add: timeline_frame list_all_length byte_of_its_bits comp_def del: upt_Suc)
qed

lemma uart_rx_frames:
  "uart_rx d (timeline l (concat (map (frame_events d) bs))) = Some bs"
  by (induction bs arbitrary: l) (simp_all add: uart_rx_frame)

section \<open>Properties\<close>

text \<open>What the port drives onto the pin is the text it was given: a receiver with the same bit
  time, listening from the moment the port is configured, decodes a string of fewer than 256 bytes
  followed by CR LF.\<close>

theorem uart_roundtrip:
  assumes "io_uart_en u \<noteq> 0" and "length txt < 256"
  shows "\<exists>ev. wave (soc_io_uart_send baud txt u) = wave u @ ev \<and>
    uart_rx baud (timeline True ev) = Some (txt @ [13, 10])"
proof -
  let ?ev = "[TX_CFG, TX_H] @ concat (map (frame_events baud) (txt @ [13, 10]))"
  have "unat (of_nat (length txt) :: byte) = length txt" using assms(2) by (simp add: unat_of_nat)
  then have "wave (soc_io_uart_send baud txt u) = wave u @ ?ev"
    using assms(1)
    by (simp add: soc_io_uart_send_def soc_io_uart_cfg_def send_bytes_frames send_byte_frame drive_def)
  moreover have "uart_rx baud (timeline True ?ev) = Some (txt @ [13, 10])"
    using uart_rx_frames [of baud True "txt @ [13, 10]"] by simp
  ultimately show ?thesis by blast
qed

theorem uart_roundtrip_witness:
  "\<exists>ev. wave (soc_io_uart_send 52 [72, 105] \<lparr>io_uart_en = 1, delay = 0, wave = []\<rparr>) = ev \<and>
     uart_rx 52 (timeline True ev) = Some [72, 105, 13, 10]"
  using uart_roundtrip [of "\<lparr>io_uart_en = 1, delay = 0, wave = []\<rparr>" "[72, 105]" 52] by simp

text \<open>The length counter is eight bits wide: a longer text is cut to its length modulo 256, so a text
  of exactly 256 bytes is sent as an empty line.\<close>

theorem uart_send_truncates:
  assumes "io_uart_en u \<noteq> 0"
  shows "soc_io_uart_send baud txt u = soc_io_uart_send baud (take (length txt mod 256) txt) u"
proof -
  have "unat (of_nat (length txt) :: byte) = length txt mod 256" by (simp add: unat_of_nat)
  then show ?thesis by (simp add: soc_io_uart_send_def min_def Let_def unat_of_nat)
qed

theorem uart_send_truncates_witness:
  "soc_io_uart_send 9 (replicate 256 65) \<lparr>io_uart_en = 1, delay = 0, wave = []\<rparr> =
     soc_io_uart_send 9 [] \<lparr>io_uart_en = 1, delay = 0, wave = []\<rparr>"
  using uart_send_truncates [of "\<lparr>io_uart_en = 1, delay = 0, wave = []\<rparr>" 9 "replicate 256 65"] by simp

end
