(* ===== verification/I2c.thy ===== *)
theory I2c
  imports Mem
begin

text \<open>
  The I2C access layer, \<^verbatim>\<open>core/lidbg_i2c.c\<close>: the list of adapters seen so far (\<open>i2c_api_list\<close>), the
  transfer modes of \<open>i2c_api_do_xfer\<close> with the messages each of them puts on the bus, the wrappers the
  drivers call, and the console command \<open>i2c\<close>.

  The kernel's I2C core is not part of the sources: \<open>i2c_transfer\<close> and \<open>i2c_master_send\<close> are fields of
  the parameter \<open>'b i2c_core\<close>, functions of the adapter, the messages and the state \<open>'b\<close> of the
  bus, which return the C result, the messages with the buffers they filled, and the new bus state.
  \<open>kmalloc\<close> may fail: the argument \<open>alloc\<close> says for which sizes it succeeds.
\<close>

section \<open>State\<close>

type_synonym u16 = "16 word"

record i2c_msg =
  addr :: u16
  flags :: u16
  len :: u16
  buf :: "byte list"

record i2c_client =
  nr :: int
  client_addr :: u16

record 'b i2c_state =
  i2c_api_list :: "i2c_client list"
  lidbg_i2c_running :: int
  bus :: 'b

record 'b i2c_core =
  i2c_transfer :: "int \<Rightarrow> i2c_msg list \<Rightarrow> 'b \<Rightarrow> int \<times> i2c_msg list \<times> 'b"
  i2c_master_send :: "i2c_client \<Rightarrow> byte list \<Rightarrow> u32 \<Rightarrow> 'b \<Rightarrow> int \<times> 'b"

definition I2C_M_RD :: u16 where "I2C_M_RD = 1"
definition I2C_MINORS :: int where "I2C_MINORS = 256"
definition I2C_API_FAKE_ADDR :: u16 where "I2C_API_FAKE_ADDR = 0x7f"
definition ENODEV :: int where "ENODEV = 19"
definition EINVAL :: int where "EINVAL = 22"

section \<open>The list of adapters\<close>

definition get_i2c_api :: "int \<Rightarrow> 'b i2c_state \<Rightarrow> i2c_client option" where
  "get_i2c_api bus_id s = List.find (\<lambda>c. nr c = bus_id) (i2c_api_list s)"

definition add_i2c_api :: "bool \<Rightarrow> i2c_client \<Rightarrow> 'b i2c_state \<Rightarrow> 'b i2c_state" where
  "add_i2c_api alloc client s =
     (if nr client \<ge> I2C_MINORS then s
      else if \<not> alloc then s
      else s\<lparr>i2c_api_list := i2c_api_list s @ [client]\<rparr>)"

fun remove_first :: "('a \<Rightarrow> bool) \<Rightarrow> 'a list \<Rightarrow> 'a list" where
  "remove_first P [] = []"
| "remove_first P (x # xs) = (if P x then xs else x # remove_first P xs)"

text \<open>\<open>list_del\<close> of the entry that \<open>get_i2c_api\<close> found.\<close>

definition del_i2c_api :: "int \<Rightarrow> 'b i2c_state \<Rightarrow> 'b i2c_state" where
  "del_i2c_api bus_id s = s\<lparr>i2c_api_list := remove_first (\<lambda>c. nr c = bus_id) (i2c_api_list s)\<rparr>"

text \<open>\<open>new_device\<close>: whether \<open>i2c_new_device\<close> made a client for the adapter.\<close>

definition i2c_api_attach :: "bool \<Rightarrow> bool \<Rightarrow> int \<Rightarrow> 'b i2c_state \<Rightarrow> int \<times> 'b i2c_state" where
  "i2c_api_attach new_device alloc adap_nr s =
     (0, if new_device
         then add_i2c_api alloc \<lparr>nr = adap_nr, client_addr = I2C_API_FAKE_ADDR\<rparr> s else s)"

definition i2c_api_detach :: "int \<Rightarrow> 'b i2c_state \<Rightarrow> int \<times> 'b i2c_state" where
  "i2c_api_detach adap_nr s =
     (0, case get_i2c_api adap_nr s of None \<Rightarrow> s | Some _ \<Rightarrow> del_i2c_api adap_nr s)"

text \<open>The adapter data is read through \<open>i2c_api\<close> before it is looked up, while it is still NULL;
  \<open>algo_data\<close> gives the bit-banging data of an adapter, if it has one.\<close>

definition i2c_api_set_rate ::
  "(i2c_client \<Rightarrow> 'd option) \<Rightarrow> ('d \<Rightarrow> int \<Rightarrow> 'b \<Rightarrow> 'b) \<Rightarrow> int \<Rightarrow> int \<Rightarrow> 'b i2c_state \<Rightarrow> fault + (int \<times> 'b i2c_state)" where
  "i2c_api_set_rate algo_data set_udelay bus_id rate s =
     (let i2c_api = None :: i2c_client option in
      bindE (case i2c_api of None \<Rightarrow> Inl NullDeref | Some client \<Rightarrow> Inr (algo_data client)) (\<lambda>adap1.
      let s1 = s\<lparr>lidbg_i2c_running := 1\<rparr> in
      case get_i2c_api bus_id s1 of
        None \<Rightarrow> Inr (- ENODEV, s1)
      | Some _ \<Rightarrow>
          (case adap1 of
             Some d \<Rightarrow> Inr (0, s1\<lparr>bus := set_udelay d rate (bus s1)\<rparr>)
           | None \<Rightarrow> Inr (0, s1\<lparr>lidbg_i2c_running := 0\<rparr>))))"

section \<open>Transfers\<close>

definition I2C_API_XFER_MODE_SEND :: int where "I2C_API_XFER_MODE_SEND = 0"
definition I2C_API_XFER_MODE_RECV :: int where "I2C_API_XFER_MODE_RECV = 1"
definition I2C_API_XFER_MODE_SEND_NO_SUBADDR :: int where "I2C_API_XFER_MODE_SEND_NO_SUBADDR = 2"
definition I2C_API_XFER_MODE_RECV_NO_SUBADDR :: int where "I2C_API_XFER_MODE_RECV_NO_SUBADDR = 3"
definition I2C_API_XFER_MODE_RECV_SAF7741 :: int where "I2C_API_XFER_MODE_RECV_SAF7741 = 4"
definition I2C_API_XFER_MODE_SEND_TEF7000 :: int where "I2C_API_XFER_MODE_SEND_TEF7000 = 5"
definition I2C_API_XFER_MODE_RECV_TEF7000 :: int where "I2C_API_XFER_MODE_RECV_TEF7000 = 6"
definition I2C_API_XFER_MODE_RECV_SUBADDR_2BYTES :: int where "I2C_API_XFER_MODE_RECV_SUBADDR_2BYTES = 7"
definition I2C_API_XFER_MODE_RECV_SUBADDR_3BYTES :: int where "I2C_API_XFER_MODE_RECV_SUBADDR_3BYTES = 8"
definition SAF7741_I2C_ADDR_FOR_TEF7000 :: u16 where "SAF7741_I2C_ADDR_FOR_TEF7000 = 0x38"

lemmas xfer_modes =
  I2C_API_XFER_MODE_SEND_def I2C_API_XFER_MODE_RECV_def I2C_API_XFER_MODE_SEND_NO_SUBADDR_def
  I2C_API_XFER_MODE_RECV_NO_SUBADDR_def I2C_API_XFER_MODE_RECV_SAF7741_def
  I2C_API_XFER_MODE_SEND_TEF7000_def I2C_API_XFER_MODE_RECV_TEF7000_def
  I2C_API_XFER_MODE_RECV_SUBADDR_2BYTES_def I2C_API_XFER_MODE_RECV_SUBADDR_3BYTES_def

text \<open>The length field of a message has 16 bits; a write message of its own bytes.\<close>

definition wr_msg :: "u16 \<Rightarrow> byte list \<Rightarrow> i2c_msg" where
  "wr_msg a bs = \<lparr>addr = a, flags = 0, len = of_nat (length bs), buf = bs\<rparr>"

definition sub_byte :: "nat \<Rightarrow> u32 \<Rightarrow> byte" where
  "sub_byte k sub_addr = ucast (drop_bit k sub_addr AND 0xff)"

datatype xfer = Transfer "i2c_msg list" | MasterSend | Invalid

definition xfer_msgs :: "int \<Rightarrow> u16 \<Rightarrow> u32 \<Rightarrow> byte list \<Rightarrow> u32 \<Rightarrow> xfer" where
  "xfer_msgs mode a sub_addr data sz =
     (let rd = \<lparr>addr = a, flags = I2C_M_RD, len = ucast sz, buf = data\<rparr>;
          wr = \<lparr>addr = a, flags = 0, len = ucast sz, buf = data\<rparr>;
          tef = wr_msg (drop_bit 1 SAF7741_I2C_ADDR_FOR_TEF7000) [0x00, 0xff, 0xff]
      in if mode = I2C_API_XFER_MODE_SEND then Transfer [wr]
         else if mode = I2C_API_XFER_MODE_RECV then Transfer [wr_msg a [sub_byte 0 sub_addr], rd]
         else if mode = I2C_API_XFER_MODE_SEND_NO_SUBADDR then MasterSend
         else if mode = I2C_API_XFER_MODE_RECV_SUBADDR_2BYTES then
           Transfer [wr_msg a [sub_byte 8 sub_addr, sub_byte 0 sub_addr], rd]
         else if mode = I2C_API_XFER_MODE_RECV_NO_SUBADDR then Transfer [rd]
         else if mode = I2C_API_XFER_MODE_RECV_SAF7741 \<or> mode = I2C_API_XFER_MODE_RECV_SUBADDR_3BYTES then
           Transfer [wr_msg a [sub_byte 16 sub_addr, sub_byte 8 sub_addr, sub_byte 0 sub_addr], rd]
         else if mode = I2C_API_XFER_MODE_SEND_TEF7000 then Transfer [tef, wr]
         else if mode = I2C_API_XFER_MODE_RECV_TEF7000 then Transfer [tef, rd]
         else Invalid)"

fun set_client_addr :: "int \<Rightarrow> u16 \<Rightarrow> i2c_client list \<Rightarrow> i2c_client list" where
  "set_client_addr bus_id a [] = []"
| "set_client_addr bus_id a (c # cs) =
     (if nr c = bus_id then c\<lparr>client_addr := a\<rparr> # cs else c # set_client_addr bus_id a cs)"

text \<open>The result, the caller's buffer afterwards, and the state.\<close>

definition i2c_api_do_xfer ::
  "'b i2c_core \<Rightarrow> int \<Rightarrow> byte \<Rightarrow> u32 \<Rightarrow> int \<Rightarrow> byte list \<Rightarrow> u32 \<Rightarrow> 'b i2c_state \<Rightarrow>
     int \<times> byte list \<times> 'b i2c_state" where
  "i2c_api_do_xfer core bus_id chip_addr sub_addr mode data sz s0 =
     (let s = s0\<lparr>lidbg_i2c_running := 1\<rparr> in
      case get_i2c_api bus_id s of
        None \<Rightarrow> (- ENODEV, data, s)
      | Some client \<Rightarrow>
          let a = ucast chip_addr;
              s1 = s\<lparr>i2c_api_list := set_client_addr bus_id a (i2c_api_list s)\<rparr>
          in case xfer_msgs mode a sub_addr data sz of
               Invalid \<Rightarrow> (- EINVAL, data, s1)
             | MasterSend \<Rightarrow>
                 let (ret, b) = i2c_master_send core (client\<lparr>client_addr := a\<rparr>) data sz (bus s1)
                 in (ret, data, s1\<lparr>bus := b, lidbg_i2c_running := 0\<rparr>)
             | Transfer msgs \<Rightarrow>
                 let (ret, msgs', b) = i2c_transfer core (nr client) msgs (bus s1)
                 in (ret, buf (last msgs'), s1\<lparr>bus := b, lidbg_i2c_running := 0\<rparr>))"

definition i2c_api_do_send where
  "i2c_api_do_send core bus_id chip_addr sub_addr data sz =
     i2c_api_do_xfer core bus_id chip_addr sub_addr I2C_API_XFER_MODE_SEND data sz"

definition i2c_api_do_recv where
  "i2c_api_do_recv core bus_id chip_addr sub_addr data sz =
     i2c_api_do_xfer core bus_id chip_addr sub_addr I2C_API_XFER_MODE_RECV data sz"

definition i2c_api_do_recv_no_sub_addr where
  "i2c_api_do_recv_no_sub_addr core bus_id chip_addr sub_addr data sz =
     i2c_api_do_xfer core bus_id chip_addr sub_addr I2C_API_XFER_MODE_RECV_NO_SUBADDR data sz"

definition i2c_api_do_recv_sub_addr_2bytes where
  "i2c_api_do_recv_sub_addr_2bytes core bus_id chip_addr sub_addr data sz =
     i2c_api_do_xfer core bus_id chip_addr sub_addr I2C_API_XFER_MODE_RECV_SUBADDR_2BYTES data sz"

definition i2c_api_do_recv_sub_addr_3bytes where
  "i2c_api_do_recv_sub_addr_3bytes core bus_id chip_addr sub_addr data sz =
     i2c_api_do_xfer core bus_id chip_addr sub_addr I2C_API_XFER_MODE_RECV_SUBADDR_3BYTES data sz"

definition i2c_api_do_recv_SAF7741 where
  "i2c_api_do_recv_SAF7741 core bus_id chip_addr sub_addr data sz =
     i2c_api_do_xfer core bus_id chip_addr sub_addr I2C_API_XFER_MODE_RECV_SAF7741 data sz"

definition i2c_api_do_send_TEF7000 where
  "i2c_api_do_send_TEF7000 core bus_id chip_addr sub_addr data sz =
     i2c_api_do_xfer core bus_id chip_addr sub_addr I2C_API_XFER_MODE_SEND_TEF7000 data sz"

definition i2c_api_do_recv_TEF7000 where
  "i2c_api_do_recv_TEF7000 core bus_id chip_addr sub_addr data sz =
     i2c_api_do_xfer core bus_id chip_addr sub_addr I2C_API_XFER_MODE_RECV_TEF7000 data sz"

section \<open>The console command\<close>

datatype i2c_print = I2cUsage | NumErr | RegLine u32 byte | Sent "byte list" | Found "byte list"

text \<open>\<open>kzalloc\<close> of no bytes gives a pointer that must not be dereferenced.\<close>

definition kzalloc_at :: "(nat \<Rightarrow> bool) \<Rightarrow> u32 \<Rightarrow> fault + byte list" where
  "kzalloc_at alloc num =
     (if num \<noteq> 0 \<and> alloc (unat num) then Inr (replicate (unat num) 0) else Inl NullDeref)"

definition i2c_w where
  "i2c_w core alloc argv s =
     bindE (strtoul_arg argv 1) (\<lambda>bus_id. bindE (strtoul_arg argv 2) (\<lambda>dev_addr.
     bindE (strtoul_arg argv 3) (\<lambda>num.
     if of_nat (length argv) - 4 < num then Inr ([NumErr], s)
     else bindE (kzalloc_at alloc num) (\<lambda>_.
       let psend_data = map (\<lambda>i. ucast (simple_strtoul (argv ! (i + 4)))) [0..<unat num];
           (ret, data, s') = i2c_api_do_send core (sint bus_id) (ucast dev_addr) 0 psend_data num s
       in Inr ([Sent psend_data], s')))))"

definition reg_lines :: "u32 \<Rightarrow> u32 \<Rightarrow> byte list \<Rightarrow> i2c_print list" where
  "reg_lines start_reg num data = map (\<lambda>i. RegLine (start_reg + of_nat i) (data ! i)) [0..<unat num]"

definition i2c_r where
  "i2c_r core alloc argv s =
     bindE (strtoul_arg argv 1) (\<lambda>bus_id. bindE (strtoul_arg argv 2) (\<lambda>dev_addr.
     bindE (strtoul_arg argv 3) (\<lambda>start_reg. bindE (strtoul_arg argv 4) (\<lambda>num.
     if num \<noteq> 0 \<and> \<not> alloc (unat num) then Inl NullDeref
     else let (ret, data, s') = i2c_api_do_recv core (sint bus_id) (ucast dev_addr) start_reg
                (replicate (unat num) 0) num s
          in Inr (reg_lines start_reg num data, s')))))"

text \<open>One register at a time, each into its own byte; the registers read are \<open>0, 1, \<dots>\<close> whatever
  \<open>start_reg\<close> is.\<close>

primrec i2c_r_all_loop where
  "i2c_r_all_loop core bus_id dev_addr start_reg i 0 s = ([], s)"
| "i2c_r_all_loop core bus_id dev_addr start_reg i (Suc n) s =
     (let (ret, data, s1) = i2c_api_do_recv core bus_id dev_addr i [0] 1 s;
          (ls, s2) = i2c_r_all_loop core bus_id dev_addr start_reg (i + 1) n s1
      in (RegLine (start_reg + i) (data ! 0) # ls, s2))"

definition i2c_r_all where
  "i2c_r_all core alloc argv s =
     bindE (strtoul_arg argv 1) (\<lambda>bus_id. bindE (strtoul_arg argv 2) (\<lambda>dev_addr.
     bindE (strtoul_arg argv 3) (\<lambda>start_reg. bindE (strtoul_arg argv 4) (\<lambda>num.
     if num \<noteq> 0 \<and> \<not> alloc (unat num) then Inl NullDeref
     else Inr (i2c_r_all_loop core (sint bus_id) (ucast dev_addr) start_reg 0 (unat num) s)))))"

definition i2c_r_mult where
  "i2c_r_mult core alloc argv s =
     bindE (strtoul_arg argv 1) (\<lambda>bus_id. bindE (strtoul_arg argv 2) (\<lambda>dev_addr.
     bindE (strtoul_arg argv 3) (\<lambda>sub_addr_bytes. bindE (strtoul_arg argv 4) (\<lambda>start_reg.
     bindE (strtoul_arg argv 5) (\<lambda>num.
     if num \<noteq> 0 \<and> \<not> alloc (unat num) then Inl NullDeref
     else
       let zeros = replicate (unat num) 0;
           (data, s') =
             (if sub_addr_bytes = 2 then
                snd (i2c_api_do_recv_sub_addr_2bytes core (sint bus_id) (ucast dev_addr) start_reg zeros num s)
              else if sub_addr_bytes = 3 then
                snd (i2c_api_do_recv_sub_addr_3bytes core (sint bus_id) (ucast dev_addr) start_reg zeros num s)
              else (zeros, s))
       in Inr (reg_lines start_reg num data, s'))))))"

definition I2C_DEVICES_MAX :: nat where "I2C_DEVICES_MAX = 32"

text \<open>The probe: \<open>j\<close> counts the answers, which are stored in an array of 32 without a bound check.\<close>

fun i2c_probe_loop ::
  "'b i2c_core \<Rightarrow> byte list \<Rightarrow> byte list \<Rightarrow> 'b i2c_state \<Rightarrow> fault + (byte list \<times> 'b i2c_state)" where
  "i2c_probe_loop core [] found s = Inr (found, s)"
| "i2c_probe_loop core (i # is) found s =
     (let (rc, _, s1) = i2c_api_do_recv core 1 i 0 [0] 1 s in
      if rc \<ge> 0 then
        (if length found < I2C_DEVICES_MAX then i2c_probe_loop core is (found @ [i]) s1 else Inl BufOverrun)
      else i2c_probe_loop core is found s1)"

definition probe_addrs :: "byte list" where
  "probe_addrs = map of_nat [1..<127]"

definition i2c_probe where
  "i2c_probe core alloc s =
     (if \<not> alloc I2C_DEVICES_MAX then Inl NullDeref
      else bindE (i2c_probe_loop core probe_addrs [] s) (\<lambda>(found, s').
        Inr ([Found found], s')))"

definition mod_i2c_main where
  "mod_i2c_main core alloc argv s =
     (if length argv < 1 then Inr ([I2cUsage], s)
      else if argv ! 0 = ''w'' then i2c_w core alloc argv s
      else if argv ! 0 = ''r'' then i2c_r core alloc argv s
      else if argv ! 0 = ''r_all'' then i2c_r_all core alloc argv s
      else if argv ! 0 = ''r_mult_sub_addr'' then i2c_r_mult core alloc argv s
      else if argv ! 0 = ''probe'' then i2c_probe core alloc s
      else Inr ([], s))"

section \<open>The registry of buses\<close>

lemma set_client_addr_nr [simp]: "map nr (set_client_addr b a cs) = map nr cs"
  by (induction cs) auto

lemma find_bus_iff: "(List.find (\<lambda>c. nr c = b) cs \<noteq> None) \<longleftrightarrow> b \<in> nr ` set cs"
  by (induction cs) auto

lemma get_i2c_api_iff: "get_i2c_api b s \<noteq> None \<longleftrightarrow> b \<in> set (map nr (i2c_api_list s))"
  using find_bus_iff [of b "i2c_api_list s"] by (simp add: get_i2c_api_def)

lemma get_i2c_api_nr: "get_i2c_api b s = Some c \<Longrightarrow> nr c = b"
  by (auto simp: get_i2c_api_def find_Some_iff)

lemma get_i2c_api_running [simp]:
  "get_i2c_api b (s\<lparr>lidbg_i2c_running := r\<rparr>) = get_i2c_api b s"
  "get_i2c_api b (s\<lparr>bus := q\<rparr>) = get_i2c_api b s"
  by (simp_all add: get_i2c_api_def)

lemma do_xfer_buses:
  "map nr (i2c_api_list (snd (snd (i2c_api_do_xfer core b a sub mode data sz s)))) = map nr (i2c_api_list s)"
  by (simp add: i2c_api_do_xfer_def Let_def split: option.split xfer.split prod.split)

lemma do_xfer_known:
  "i2c_api_do_xfer core b a sub mode data sz s = (ret, d, s') \<Longrightarrow>
     get_i2c_api b' s' = None \<longleftrightarrow> get_i2c_api b' s = None"
  using get_i2c_api_iff [of b' s'] get_i2c_api_iff [of b' s]
    do_xfer_buses [of core b a sub mode data sz s] by (metis snd_conv)

lemma remove_first_nr:
  "map nr (remove_first (\<lambda>c. nr c = b) cs) = remove1 b (map nr cs)"
  by (induction cs) auto

text \<open>An adapter comes, with the outcomes of \<open>i2c_new_device\<close> and of the allocation of its entry; or goes; or carries a transfer.\<close>

datatype i2c_event =
  Attach int bool bool | Detach int | Xfer int byte u32 int "byte list" u32

definition i2c_step :: "'b i2c_core \<Rightarrow> i2c_event \<Rightarrow> 'b i2c_state \<Rightarrow> 'b i2c_state" where
  "i2c_step core e s =
     (case e of
        Attach n new_device alloc \<Rightarrow> snd (i2c_api_attach new_device alloc n s)
      | Detach n \<Rightarrow> snd (i2c_api_detach n s)
      | Xfer b a sub mode data sz \<Rightarrow> snd (snd (i2c_api_do_xfer core b a sub mode data sz s)))"

text \<open>The specification: the adapters present whose client and entry could be made; the driver core announces no adapter that is among them.\<close>

definition present :: "i2c_event \<Rightarrow> int set \<Rightarrow> int set" where
  "present e B =
     (case e of Attach n new_device alloc \<Rightarrow> if n < I2C_MINORS \<and> new_device \<and> alloc then insert n B else B | Detach n \<Rightarrow> B - {n} | _ \<Rightarrow> B)"

fun announced_once :: "int set \<Rightarrow> i2c_event list \<Rightarrow> bool" where
  "announced_once B [] = True"
| "announced_once B (e # es) =
     ((case e of Attach n _ _ \<Rightarrow> n \<notin> B | _ \<Rightarrow> True) \<and> announced_once (present e B) es)"

definition registry :: "'b i2c_state \<Rightarrow> int set \<Rightarrow> bool" where
  "registry s B \<longleftrightarrow> distinct (map nr (i2c_api_list s)) \<and> set (map nr (i2c_api_list s)) = B"

lemma registry_step:
  assumes "registry s B" and "case e of Attach n _ _ \<Rightarrow> n \<notin> B | _ \<Rightarrow> True"
  shows "registry (i2c_step core e s) (present e B)"
proof (cases e)
  case (Attach n new_device alloc)
  with assms show ?thesis
    by (auto simp: registry_def i2c_step_def present_def i2c_api_attach_def add_i2c_api_def)
next
  case (Detach n)
  have d: "distinct (map nr (i2c_api_list s))" and B: "nr ` set (i2c_api_list s) = B"
    using assms(1) by (auto simp: registry_def)
  have "registry (del_i2c_api n s) (B - {n})"
    unfolding registry_def del_i2c_api_def using d B by (simp add: remove_first_nr)
  moreover have "registry s (B - {n})" if "get_i2c_api n s = None"
    using assms(1) that get_i2c_api_iff [of n s] by (auto simp: registry_def)
  ultimately show ?thesis
    using Detach by (auto simp: i2c_step_def present_def i2c_api_detach_def split: option.split)
next
  case (Xfer b a sub mode data sz)
  with assms show ?thesis by (simp only: registry_def i2c_step_def present_def i2c_event.case do_xfer_buses)
qed

lemma registry_run:
  "registry s B \<Longrightarrow> announced_once B es \<Longrightarrow> registry (fold (i2c_step core) es s) (fold present es B)"
  by (induction es arbitrary: s B) (auto simp: registry_step)

section \<open>Chips with registers\<close>

text \<open>
  What a chip with one-byte register addresses does on the bus: a write message of a register number
  followed by at most 256 bytes of data fills consecutive registers; a write of a register number followed by a read
  message reads consecutive registers.  \<open>regs\<close> reads the chip's registers off the state of the bus.
\<close>

definition register_chip :: "'b i2c_core \<Rightarrow> int \<Rightarrow> u16 \<Rightarrow> ('b \<Rightarrow> byte \<Rightarrow> byte) \<Rightarrow> bool" where
  "register_chip core b a regs \<longleftrightarrow>
     (\<forall>q r ds. length ds \<le> 256 \<longrightarrow> (\<exists>msgs' q'.
        i2c_transfer core b [wr_msg a (r # ds)] q = (1, msgs', q') \<and>
        (\<forall>i < length ds. regs q' (r + of_nat i) = ds ! i))) \<and>
     (\<forall>q r zs. \<exists>msg0 q'.
        i2c_transfer core b [wr_msg a [r], \<lparr>addr = a, flags = I2C_M_RD, len = of_nat (length zs), buf = zs\<rparr>] q =
          (2, [msg0, \<lparr>addr = a, flags = I2C_M_RD, len = of_nat (length zs),
             buf = map (\<lambda>i. regs q (r + of_nat i)) [0..<length zs]\<rparr>], q'))"

text \<open>Registers after a sequence of writes.\<close>

definition write_regs :: "(byte \<times> byte) list \<Rightarrow> (byte \<Rightarrow> byte) \<Rightarrow> byte \<Rightarrow> byte" where
  "write_regs ws m = fold (\<lambda>(r, v) m. m(r := v)) ws m"

lemma write_regs_simps [simp]:
  "write_regs [] m = m" "write_regs ((r, v) # ws) m = write_regs ws (m(r := v))"
  by (simp_all add: write_regs_def)

lemma ucast_len: "ucast (of_nat n :: u32) = (of_nat n :: u16)"
  by transfer (simp add: take_bit_take_bit)

lemma sub_byte_0 [simp]: "sub_byte 0 (ucast (r :: byte)) = r"
proof -
  have m: "(0xff :: u32) = mask 8" by (simp add: mask_eq_exp_minus_1)
  show ?thesis unfolding sub_byte_def m
    by (rule bit_word_eqI) (auto simp only: bit_ucast_iff bit_and_iff bit_mask_iff bit_drop_bit_eq o_def
        possible_bit_word add_0, auto)
qed

lemma do_send_msgs:
  assumes "get_i2c_api b s = Some c" and "i2c_transfer core b [wr_msg (ucast a) data] (bus s) = (ret, msgs', q')"
    and "sz = of_nat (length data)"
  shows "\<exists>s'. i2c_api_do_send core b a sub data sz s = (ret, buf (last msgs'), s') \<and> bus s' = q' \<and>
    get_i2c_api b s' \<noteq> None"
proof -
  obtain s' where s': "i2c_api_do_send core b a sub data sz s = (ret, buf (last msgs'), s')" "bus s' = q'"
    using assms get_i2c_api_nr [OF assms(1)] ucast_len [of "length data"]
    by (simp add: i2c_api_do_send_def i2c_api_do_xfer_def xfer_msgs_def xfer_modes Let_def wr_msg_def)
  then have "get_i2c_api b s' \<noteq> None"
    using do_xfer_known assms(1) unfolding i2c_api_do_send_def by (metis option.distinct(1))
  with s' show ?thesis by blast
qed

lemma do_recv_msgs:
  assumes "get_i2c_api b s \<noteq> None" and "sz = of_nat (length data)"
    and "i2c_transfer core b [wr_msg (ucast a) [sub_byte 0 sub],
      \<lparr>addr = ucast a, flags = I2C_M_RD, len = of_nat (length data), buf = data\<rparr>] (bus s) = (ret, msgs', q')"
  shows "\<exists>s'. i2c_api_do_recv core b a sub data sz s = (ret, buf (last msgs'), s') \<and> bus s' = q'"
proof -
  obtain c where "get_i2c_api b s = Some c" "nr c = b" using assms(1) get_i2c_api_nr by blast
  with assms ucast_len [of "length data"] show ?thesis
    by (simp add: i2c_api_do_recv_def i2c_api_do_xfer_def xfer_msgs_def xfer_modes Let_def)
qed

section \<open>The probe\<close>

text \<open>A bus whose answer to the one-byte read of the probe depends on the chip address only.\<close>

definition probe_answer :: "'b i2c_core \<Rightarrow> (byte \<Rightarrow> int) \<Rightarrow> bool" where
  "probe_answer core rsp \<longleftrightarrow>
     (\<forall>a q. fst (i2c_transfer core 1 [wr_msg (ucast a) [0],
        \<lparr>addr = ucast a, flags = I2C_M_RD, len = 1, buf = [0]\<rparr>] q) = rsp a)"

lemma probe_recv:
  assumes "probe_answer core rsp" and "get_i2c_api 1 s \<noteq> None"
  obtains d s' where "i2c_api_do_recv core 1 a 0 [0] 1 s = (rsp a, d, s')" and "get_i2c_api 1 s' \<noteq> None"
proof -
  obtain msgs' q' where "i2c_transfer core 1 [wr_msg (ucast a) [0],
      \<lparr>addr = ucast a, flags = I2C_M_RD, len = 1, buf = [0]\<rparr>] (bus s) = (rsp a, msgs', q')"
    using assms(1) unfolding probe_answer_def by (metis prod.collapse)
  with do_recv_msgs [OF assms(2), of 1 "[0]" core a 0] obtain s'
    where s': "i2c_api_do_recv core 1 a 0 [0] 1 s = (rsp a, buf (last msgs'), s')"
    using sub_byte_0 [of 0] by auto
  moreover have "get_i2c_api 1 s' \<noteq> None"
    using do_xfer_known s' assms(2) unfolding i2c_api_do_recv_def by metis
  ultimately show ?thesis using that by blast
qed

lemma i2c_probe_loop_found:
  assumes "probe_answer core rsp"
  shows "get_i2c_api 1 s \<noteq> None \<Longrightarrow>
    (if length found + length (filter (\<lambda>a. rsp a \<ge> 0) as) \<le> I2C_DEVICES_MAX
     then \<exists>s'. i2c_probe_loop core as found s = Inr (found @ filter (\<lambda>a. rsp a \<ge> 0) as, s')
     else length found \<le> I2C_DEVICES_MAX \<longrightarrow> i2c_probe_loop core as found s = Inl BufOverrun)"
proof (induction as arbitrary: found s)
  case (Cons a as)
  obtain d s' where r: "i2c_api_do_recv core 1 a 0 [0] 1 s = (rsp a, d, s')" and g: "get_i2c_api 1 s' \<noteq> None"
    using probe_recv [OF assms Cons.prems, of a] .
  show ?case
  proof (cases "rsp a \<ge> 0")
    case True
    with Cons.IH [OF g, of "found @ [a]"] r show ?thesis by (auto split: if_splits)
  next
    case False
    with Cons.IH [OF g, of found] r show ?thesis by (auto split: if_splits)
  qed
qed auto

text \<open>The flag \<open>lidbg_i2c_running\<close>, which tells interrupt handlers that a transfer is under way, is
  cleared by a transfer on a known bus in one of the nine modes, and left set for ever by every other
  call: the early returns do not reset it.\<close>

theorem i2c_running_flag:
  "lidbg_i2c_running (snd (snd (i2c_api_do_xfer core b a sub mode data sz s))) =
     (if get_i2c_api b s \<noteq> None \<and> 0 \<le> mode \<and> mode \<le> 8 then 0 else 1)"
proof -
  have "xfer_msgs mode (ucast a) sub data sz = Invalid \<longleftrightarrow> \<not> (0 \<le> mode \<and> mode \<le> 8)"
    unfolding xfer_msgs_def xfer_modes Let_def by simp
  then show ?thesis
    by (cases "xfer_msgs mode (ucast a) sub data sz"; cases "get_i2c_api b s")
      (auto simp: i2c_api_do_xfer_def Let_def split: prod.split)
qed

section \<open>Properties\<close>

text \<open>(C6) Over any sequence of adapters coming and going, with transfers in between and whatever their clients and entries could be
  allocated, where no adapter is announced again while it is known: a bus is known to the layer exactly when its adapter is present, its
  number below 256 and its client and entry were made; and no bus is listed twice.\<close>

theorem i2c_registry:
  assumes "announced_once {} es"
    and "s = fold (i2c_step core) es \<lparr>i2c_api_list = [], lidbg_i2c_running = 0, bus = q\<rparr>"
  shows "(\<forall>b. get_i2c_api b s \<noteq> None \<longleftrightarrow> b \<in> fold present es {}) \<and> distinct (map nr (i2c_api_list s))"
proof -
  have "registry \<lparr>i2c_api_list = [], lidbg_i2c_running = 0, bus = q\<rparr> {}" by (simp add: registry_def)
  from registry_run [OF this assms(1), of core] show ?thesis
    unfolding get_i2c_api_iff registry_def assms(2) by simp
qed

definition silent_core :: "(byte \<Rightarrow> byte) i2c_core" where
  "silent_core = \<lparr>i2c_transfer = (\<lambda>n msgs q. (-6, msgs, q)), i2c_master_send = (\<lambda>c d n q. (-6, q))\<rparr>"

theorem i2c_registry_witness:
  "let s = fold (i2c_step silent_core) [Attach 1 True True, Attach 3 True True, Detach 1, Attach 300 True True, Attach 2 True False]
       \<lparr>i2c_api_list = [], lidbg_i2c_running = 0, bus = (\<lambda>_. 0)\<rparr>
   in (\<forall>b. get_i2c_api b s \<noteq> None \<longleftrightarrow> b = 3) \<and> distinct (map nr (i2c_api_list s))"
  using i2c_registry [of "[Attach 1 True True, Attach 3 True True, Detach 1, Attach 300 True True, Attach 2 True False]" _ silent_core
    "\<lambda>_. 0", OF _ refl]
  by (auto simp: present_def I2C_MINORS_def Let_def)

text \<open>(C5) Writing a register and the ones after it through \<open>i2c_api_do_send\<close>, and reading them through
  \<open>i2c_api_do_recv\<close> with the register as sub address, gives the data back (up to 256 bytes), on every bus that
  is registered and every chip that behaves like a register file; the busy flag is clear after each of the two calls.\<close>

theorem i2c_register_roundtrip:
  assumes "register_chip core b (ucast a) regs" and "get_i2c_api b s \<noteq> None" and "length ds \<le> 256"
    and "i2c_api_do_send core b a 0 (r # ds) (of_nat (length (r # ds))) s = (ret1, d1, s1)"
    and "i2c_api_do_recv core b a (ucast r) (replicate (length ds) 0) (of_nat (length ds)) s1 = (ret2, d2, s2)"
  shows "ret1 = 1 \<and> ret2 = 2 \<and> d2 = ds \<and> lidbg_i2c_running s1 = 0 \<and> lidbg_i2c_running s2 = 0"
proof -
  obtain c where c: "get_i2c_api b s = Some c" using assms(2) by blast
  obtain m1 q1 where w: "i2c_transfer core b [wr_msg (ucast a) (r # ds)] (bus s) = (1, m1, q1)"
    and q1: "\<forall>i < length ds. regs q1 (r + of_nat i) = ds ! i"
    using assms(1,3) unfolding register_chip_def by blast
  from do_send_msgs [OF c w refl, of 0] assms(4) have s1: "ret1 = 1" "bus s1 = q1" "get_i2c_api b s1 \<noteq> None"
    by auto
  let ?zs = "replicate (length ds) (0 :: byte)"
  obtain m0 q2 where rd: "i2c_transfer core b [wr_msg (ucast a) [r],
      \<lparr>addr = ucast a, flags = I2C_M_RD, len = of_nat (length ?zs), buf = ?zs\<rparr>] (bus s1) =
      (2, [m0, \<lparr>addr = ucast a, flags = I2C_M_RD, len = of_nat (length ?zs),
         buf = map (\<lambda>i. regs q1 (r + of_nat i)) [0..<length ?zs]\<rparr>], q2)"
    using assms(1) s1(2) unfolding register_chip_def by metis
  from do_recv_msgs [OF s1(3), of "of_nat (length ds)" ?zs core a "ucast r"] rd assms(5)
  have "ret2 = 2" "d2 = map (\<lambda>i. regs q1 (r + of_nat i)) [0..<length ds]" by auto
  moreover have "map (\<lambda>i. regs q1 (r + of_nat i)) [0..<length ds] = ds"
    by (rule nth_equalityI) (use q1 in auto)
  moreover have "lidbg_i2c_running s1 = 0"
    using i2c_running_flag [of core b a 0 I2C_API_XFER_MODE_SEND "r # ds" "of_nat (length (r # ds))" s] assms(2,4)
    by (simp add: i2c_api_do_send_def I2C_API_XFER_MODE_SEND_def)
  moreover have "lidbg_i2c_running s2 = 0"
    using i2c_running_flag [of core b a "ucast r" I2C_API_XFER_MODE_RECV ?zs "of_nat (length ds)" s1] s1(3) assms(5)
    by (simp add: i2c_api_do_recv_def I2C_API_XFER_MODE_RECV_def)
  ultimately show ?thesis using s1(1) by simp
qed

text \<open>A register file with an auto-incremented pointer.\<close>

definition regfile_core :: "(byte \<Rightarrow> byte) i2c_core" where
  "regfile_core =
     \<lparr>i2c_transfer = (\<lambda>n msgs q.
        case msgs of
          [w] \<Rightarrow> (1, msgs, \<lambda>x. let k = unat (x - hd (buf w)) in if Suc k < length (buf w) then buf w ! Suc k else q x)
        | w # r # ms \<Rightarrow>
            (2, [w, r\<lparr>buf := map (\<lambda>i. q (hd (buf w) + of_nat i)) [0..<length (buf r)]\<rparr>], q)
        | _ \<Rightarrow> (0, msgs, q)),
      i2c_master_send = (\<lambda>c d n q. (-6, q))\<rparr>"

lemma regfile_chip: "register_chip regfile_core b a id"
  by (auto simp: register_chip_def regfile_core_def wr_msg_def unat_of_nat)

definition one_bus :: "'b \<Rightarrow> 'b i2c_state" where
  "one_bus q = \<lparr>i2c_api_list = [\<lparr>nr = 1, client_addr = 0x7f\<rparr>], lidbg_i2c_running = 0, bus = q\<rparr>"

theorem i2c_register_roundtrip_witness:
  "\<exists>ret1 d1 s1 ret2 d2 s2.
     i2c_api_do_send regfile_core 1 0x42 0 [0x10, 7, 8] 3 (one_bus (\<lambda>_. 0)) = (ret1, d1, s1) \<and>
     i2c_api_do_recv regfile_core 1 0x42 0x10 [0, 0] 2 s1 = (ret2, d2, s2) \<and> d2 = [7, 8] \<and>
     lidbg_i2c_running s2 = 0"
proof -
  obtain ret1 d1 s1 where 1:
    "i2c_api_do_send regfile_core 1 0x42 0 [0x10, 7, 8] 3 (one_bus (\<lambda>_. 0)) = (ret1, d1, s1)"
    by (cases "i2c_api_do_send regfile_core 1 0x42 0 [0x10, 7, 8] 3 (one_bus (\<lambda>_. 0))") auto
  obtain ret2 d2 s2 where 2: "i2c_api_do_recv regfile_core 1 0x42 0x10 [0, 0] 2 s1 = (ret2, d2, s2)"
    by (cases "i2c_api_do_recv regfile_core 1 0x42 0x10 [0, 0] 2 s1") auto
  have "d2 = [7, 8]" "lidbg_i2c_running s2 = 0"
    using i2c_register_roundtrip [OF regfile_chip, of 1 "one_bus (\<lambda>_. 0)" "[7, 8]" "0x42" "0x10" ret1 d1 s1 ret2 d2 s2] 1 2
    by (simp_all add: one_bus_def get_i2c_api_def)
  with 1 2 show ?thesis by blast
qed

text \<open>The console command \<open>i2c probe\<close> reports exactly the chip addresses 1 to 126 that answer on bus 1,
  in ascending order, as long as there are at most 32 of them; with more it writes behind its array.\<close>

theorem i2c_probe_reports:
  assumes "probe_answer core rsp" and "get_i2c_api 1 s \<noteq> None" and "alloc I2C_DEVICES_MAX"
  defines "chips \<equiv> filter (\<lambda>a. rsp a \<ge> 0) probe_addrs"
  shows "if length chips \<le> I2C_DEVICES_MAX
    then \<exists>s'. mod_i2c_main core alloc [''probe''] s = Inr ([Found chips], s')
    else mod_i2c_main core alloc [''probe''] s = Inl BufOverrun"
  using i2c_probe_loop_found [OF assms(1,2), of "[]" probe_addrs] assms(3)
  by (auto simp: mod_i2c_main_def i2c_probe_def chips_def split: if_splits)

lemma ucast_u16: "(ucast (a :: byte) :: u16) = 0x42 \<longleftrightarrow> a = 0x42"
proof
  assume "(ucast a :: u16) = 0x42"
  then have "(ucast (ucast a :: u16) :: byte) = ucast (0x42 :: u16)" by simp
  moreover have "(ucast (ucast a :: u16) :: byte) = a" by (rule bit_word_eqI) (auto simp: bit_simps)
  ultimately show "a = 0x42" by simp
qed simp

definition one_chip_core :: "(byte \<Rightarrow> byte) i2c_core" where
  "one_chip_core = \<lparr>i2c_transfer = (\<lambda>n msgs q. (if addr (hd msgs) = 0x42 then 2 else -6, msgs, q)),
     i2c_master_send = (\<lambda>c d n q. (-6, q))\<rparr>"

theorem i2c_probe_reports_witness:
  "\<exists>s'. mod_i2c_main one_chip_core (\<lambda>_. True) [''probe''] (one_bus (\<lambda>_. 0)) = Inr ([Found [0x42]], s')"
proof -
  let ?rsp = "\<lambda>a :: byte. if a = 0x42 then 2 else (-6 :: int)"
  have "probe_answer one_chip_core ?rsp"
    by (auto simp: probe_answer_def one_chip_core_def wr_msg_def ucast_u16)
  moreover have "get_i2c_api 1 (one_bus (\<lambda>_. 0)) \<noteq> None" by (simp add: one_bus_def get_i2c_api_def)
  moreover have "(\<lambda>_. True) I2C_DEVICES_MAX" by simp
  moreover have "filter (\<lambda>a. ?rsp a \<ge> 0) probe_addrs = [0x42]"
    unfolding probe_addrs_def by code_simp
  ultimately show ?thesis
    using i2c_probe_reports [of one_chip_core ?rsp "one_bus (\<lambda>_. 0)" "\<lambda>_. True"]
    by (simp add: I2C_DEVICES_MAX_def)
qed

end
