(* ===== verification/Cmn.thy ===== *)
theory Cmn
  imports Mem
begin

text \<open>
  The helpers of \<^verbatim>\<open>core/lidbg_cmn.c\<close> and the uevent channel \<^verbatim>\<open>core/lidbg_uevent.c\<close> they use to run
  programs: splitting of strings, the table of mounted volumes, reading a directory, starting a
  user-space command.

  Two preprocessor variants exist; modelled is the one without \<open>USE_CALL_USERHELPER\<close> (that of
  \<^verbatim>\<open>soc/msm8x26\<close> and \<^verbatim>\<open>soc/msm8x60\<close>), where a command is sent to user space as a uevent.
  The token array of a caller has a size the tokenizer is not told: it is the argument \<open>cap\<close>.
  Pointers into the static buffer \<open>buf_mount\<close> are offsets, since every scan overwrites the buffer
  under the pointers of the one before.
\<close>

section \<open>Tokens\<close>

definition lidbg_token_string :: "nat \<Rightarrow> string option \<Rightarrow> string option \<Rightarrow> fault + (nat \<times> string list)" where
  "lidbg_token_string cap buf separator =
     (case (buf, separator) of
        (Some s, Some seps) \<Rightarrow>
          let token = strsep_all seps s in
          if length token \<le> cap then Inr (length token, token) else Inl BufOverrun
      | _ \<Rightarrow> Inr (0, []))"

section \<open>Mounted volumes\<close>

definition ITEM_MAX :: nat where "ITEM_MAX = 35"
definition MOUNT_BUF_MAX :: nat where "MOUNT_BUF_MAX = 3 * 1024"

record mounted_volume =
  device :: "nat option"
  mount_point :: "nat option"
  filesystem :: "nat option"
  others :: "nat option"

record mount_state =
  invaled_mount_point :: nat
  buf_mount :: "char list"
  g_mounts_state :: "mounted_volume list"

definition mounts_start :: mount_state where
  "mounts_start = \<lparr>invaled_mount_point = 0, buf_mount = replicate MOUNT_BUF_MAX (CHR 0x00),
     g_mounts_state = replicate ITEM_MAX \<lparr>device = None, mount_point = None, filesystem = None, others = None\<rparr>\<rparr>"

text \<open>Where the tokens of a split string start.\<close>

fun offsets :: "nat \<Rightarrow> string list \<Rightarrow> nat list" where
  "offsets k [] = []"
| "offsets k (t # ts) = k # offsets (k + length t + 1) ts"

text \<open>One round of the loop over the lines; the separators become NUL.\<close>

definition scan_line :: "nat \<times> string \<times> nat \<Rightarrow> bool \<times> mount_state \<Rightarrow> fault + (bool \<times> mount_state)" where
  "scan_line = (\<lambda>(loop, item, start) (ret, st).
     bindE (lidbg_token_string 12 (Some item) (Some '' '')) (\<lambda>(item_token_len, item_token).
     let ptr = offsets start item_token;
         st1 = st\<lparr>buf_mount := take start (buf_mount st) @
                 map (\<lambda>c. if c = CHR '' '' then CHR 0x00 else c) item @ drop (start + length item) (buf_mount st)\<rparr>
     in if item_token_len \<ge> 4
        then Inr (True, st1\<lparr>g_mounts_state := (g_mounts_state st1)[loop :=
               \<lparr>device = Some (ptr ! 0), mount_point = Some (ptr ! 1), filesystem = Some (ptr ! 2), others = Some (ptr ! 3)\<rparr>]\<rparr>)
        else Inr (ret, st1)))"

text \<open>\<open>content\<close> is what \<open>read_file\<close> finds behind \<open>info_path\<close>, \<open>None\<close> when it cannot be opened.\<close>

definition scan_mounted_volumes :: "string option \<Rightarrow> mount_state \<Rightarrow> fault + (bool \<times> mount_state)" where
  "scan_mounted_volumes content st =
     (let st0 = st\<lparr>buf_mount := replicate MOUNT_BUF_MAX (CHR 0x00)\<rparr> in
      case content of
        None \<Rightarrow> Inr (False, st0)
      | Some file \<Rightarrow>
          let data = take (MOUNT_BUF_MAX - 1) file;
              txt = c_string data
          in bindE (lidbg_token_string ITEM_MAX (Some txt) (Some [CHR 0x0A])) (\<lambda>(mount_item_max, mount_item).
             let st1 = st0\<lparr>invaled_mount_point := mount_item_max,
                   buf_mount := map (\<lambda>c. if c = CHR 0x0A then CHR 0x00 else c) txt @ drop (length txt) (data @ drop (length data) (buf_mount st0))\<rparr>
             in foldE scan_line (zip [0..<mount_item_max] (zip mount_item (offsets 0 mount_item))) (False, st1)))"

definition str_at :: "mount_state \<Rightarrow> nat \<Rightarrow> string" where
  "str_at st p = c_string (drop p (buf_mount st))"

definition find_mounted_volume_by_mount_point ::
  "string option \<Rightarrow> string \<Rightarrow> mount_state \<Rightarrow> fault + (nat option \<times> mount_state)" where
  "find_mounted_volume_by_mount_point content mp st =
     bindE (scan_mounted_volumes content st) (\<lambda>(_, st1).
     if invaled_mount_point st1 = 0 then Inr (None, st1)
     else Inr (List.find (\<lambda>i. case mount_point (g_mounts_state st1 ! i) of
              None \<Rightarrow> False | Some p \<Rightarrow> str_at st1 p = mp) [0..<invaled_mount_point st1], st1))"

section \<open>Directories\<close>

text \<open>\<open>readdir_build_namelist\<close>: \<open>name[33]\<close> takes \<open>namlen\<close> bytes and a NUL; \<open>list_add\<close> inserts in front.\<close>

definition readdir_build_namelist :: "bool \<Rightarrow> string \<Rightarrow> string list \<Rightarrow> fault + (int \<times> string list)" where
  "readdir_build_namelist alloc name names =
     (if \<not> alloc then Inr (-12, names)
      else if length name < 33 then Inr (0, name # names) else Inl BufOverrun)"

text \<open>
  The loop over the collected names; it removes an entry only when \<open>status\<close> is 0, so it may run for
  ever.  \<open>calls\<close> records the files handed to the callback.
\<close>

partial_function (option) deal_names :: "int \<Rightarrow> string list \<Rightarrow> string list \<Rightarrow> string list option" where
  "deal_names status names calls =
     (case names of
        [] \<Rightarrow> Some calls
      | entry # rest \<Rightarrow>
          if status = 0
          then deal_names status rest (if entry \<noteq> [] \<and> hd entry = CHR ''.'' then calls else calls @ [entry])
          else deal_names status names calls)"

text \<open>\<open>dir\<close>: the entries \<open>vfs_readdir\<close> reports and its result, \<open>None\<close> if the directory cannot be opened.
  The outer option of the result is \<open>None\<close> when the call does not return.\<close>

definition lidbg_readdir_and_dealfile ::
  "(string list \<times> int) option \<Rightarrow> fault + (bool \<times> string list) option" where
  "lidbg_readdir_and_dealfile dir =
     (case dir of
        None \<Rightarrow> Inr (Some (False, []))
      | Some (entries, status) \<Rightarrow>
          bindE (foldE (\<lambda>n ns. bindE (readdir_build_namelist True n ns) (\<lambda>(_, ns'). Inr ns')) entries [])
            (\<lambda>names. Inr (map_option (Pair True) (deal_names status names []))))"

section \<open>The uevent channel\<close>

record uevent_state =
  uevent_list :: "(string \<times> nat) list"
  uevent_dbg :: bool
  uevents_sent :: "(string list) list"
  callbacks_run :: "(nat \<times> string \<times> string) list"

text \<open>A callback is a number naming the function, \<open>None\<close> a null pointer.\<close>

definition uevent_focus :: "bool \<Rightarrow> string option \<Rightarrow> nat option \<Rightarrow> uevent_state \<Rightarrow> bool \<times> uevent_state" where
  "uevent_focus alloc focus callback u =
     (case (focus, callback) of
        (Some f, Some cb) \<Rightarrow> if alloc then (True, u\<lparr>uevent_list := (f, cb) # uevent_list u\<rparr>) else (False, u)
      | _ \<Rightarrow> (False, u))"

definition uevent_send :: "string list \<Rightarrow> uevent_state \<Rightarrow> uevent_state" where
  "uevent_send envp_ext u = u\<lparr>uevents_sent := uevents_sent u @ [envp_ext]\<rparr>"

definition uevent_shell :: "string \<Rightarrow> uevent_state \<Rightarrow> uevent_state" where
  "uevent_shell shell_cmd u =
     uevent_send [''LIDBG_ACTION=shell'', take 255 (''LIDBG_PARAMETER='' @ shell_cmd)] u"

definition lidbg_uevent_write :: "char list \<Rightarrow> uevent_state \<Rightarrow> int \<times> uevent_state" where
  "lidbg_uevent_write data u =
     (let tmp = c_string data in
      (int (length data),
       u\<lparr>callbacks_run := callbacks_run u @
           map (\<lambda>(f, cb). (cb, f, tmp)) (filter (\<lambda>(f, cb). strstr tmp f) (uevent_list u))\<rparr>))"

definition lidbg_uevent_main :: "string list \<Rightarrow> uevent_state \<Rightarrow> fault + uevent_state" where
  "lidbg_uevent_main argv u =
     bindE (arg argv 0) (\<lambda>cmd.
     if cmd = ''dbg'' then Inr (u\<lparr>uevent_dbg := \<not> uevent_dbg u\<rparr>)
     else if cmd = ''uevent'' then Inr (uevent_shell (if 1 < length argv then argv ! 1 else ''(null)'') u)
     else Inr u)"

section \<open>Starting programs\<close>

definition opt_arg :: "string option \<Rightarrow> string" where
  "opt_arg a = (case a of None \<Rightarrow> '''' | Some s \<Rightarrow> s)"

text \<open>\<open>sprintf(shell_cmd, "%s %s %s %s %s %s %s ", \<dots>)\<close> into 512 bytes.\<close>

definition lidbg_launch_user :: "string \<Rightarrow> string option list \<Rightarrow> uevent_state \<Rightarrow> fault + (int \<times> uevent_state)" where
  "lidbg_launch_user bin_path argvs u =
     (let cmd = concat (map (\<lambda>w. w @ '' '') (bin_path # map opt_arg argvs)) in
      if length cmd < 512 then Inr (1, uevent_shell cmd u) else Inl BufOverrun)"

definition get_bin_path :: "string \<Rightarrow> string" where
  "get_bin_path buf = buf"

definition lidbg_exe where
  "lidbg_exe path a1 a2 a3 a4 a5 a6 = lidbg_launch_user (get_bin_path path) [a1, a2, a3, a4, a5, a6]"
definition lidbg_mount where
  "lidbg_mount path =
     lidbg_launch_user (get_bin_path ''mount'') [Some ''-o'', Some ''remount'', Some path, None, None, None]"
definition lidbg_chmod where
  "lidbg_chmod path = lidbg_launch_user (get_bin_path ''chmod'') [Some ''777'', Some path, None, None, None, None]"
definition lidbg_mv where
  "lidbg_mv src dst = lidbg_launch_user (get_bin_path ''mv'') [Some src, Some dst, None, None, None, None]"
definition lidbg_rm where
  "lidbg_rm path = lidbg_launch_user (get_bin_path ''rm'') [Some path, None, None, None, None, None]"
definition lidbg_rmdir where
  "lidbg_rmdir path = lidbg_launch_user (get_bin_path ''rm'') [Some ''-r'', Some path, None, None, None, None]"
definition lidbg_mkdir where
  "lidbg_mkdir path = lidbg_launch_user (get_bin_path ''mkdir'') [Some path, None, None, None, None, None]"
definition lidbg_touch where
  "lidbg_touch path = lidbg_launch_user (get_bin_path ''touch'') [Some path, None, None, None, None, None]"
definition lidbg_reboot where
  "lidbg_reboot = lidbg_launch_user (get_bin_path ''reboot'') [None, None, None, None, None, None]"
definition lidbg_setprop where
  "lidbg_setprop key val = lidbg_launch_user (get_bin_path ''setprop'') [Some key, Some val, None, None, None, None]"
definition lidbg_start where
  "lidbg_start server = lidbg_launch_user (get_bin_path ''start'') [Some server, None, None, None, None, None]"
definition lidbg_stop where
  "lidbg_stop server = lidbg_launch_user (get_bin_path ''stop'') [Some server, None, None, None, None, None]"
definition lidbg_force_stop_apk where
  "lidbg_force_stop_apk packagename =
     lidbg_launch_user (get_bin_path ''am'') [Some ''force-stop'', Some packagename, Some ''&'', None, None, None]"

definition lidbg_toast_show :: "string option \<Rightarrow> int \<Rightarrow> uevent_state \<Rightarrow> fault + (int \<times> uevent_state)" where
  "lidbg_toast_show str int_value u =
     bindE (sprintf_to (''--es action '' @ (case str of None \<Rightarrow> ''null'' | Some s \<Rightarrow> s) @ '' --ei int '' @ show_int int_value @ '' &'')
              (replicate 128 (CHR 0x00))) (\<lambda>para.
     lidbg_launch_user (get_bin_path ''am'')
       [Some ''broadcast'', Some ''-a'', Some ''com.lidbg.broadcast'', Some (c_string para), None, None] u)"

definition pm_install_apk where
  "pm_install_apk apkpath =
     lidbg_launch_user (get_bin_path ''pm'') [Some ''install'', Some ''-r'', Some apkpath, Some ''&'', None, None]"

definition callback_pm_install :: "string \<Rightarrow> string \<Rightarrow> uevent_state \<Rightarrow> fault + uevent_state" where
  "callback_pm_install dirname filename u =
     (if \<not> strstr filename ''apk'' then Inr u
      else bindE (sprintf_to ([CHR 0x27] @ dirname @ ''/'' @ filename @ [CHR 0x27]) (replicate 256 (CHR 0x00))) (\<lambda>apkpath.
        bindE (pm_install_apk (c_string apkpath) u) (\<lambda>(_, u'). Inr u')))"

text \<open>\<open>dir\<close> as for \<open>lidbg_readdir_and_dealfile\<close>, which runs the callback on each file it hands out.\<close>

definition lidbg_pm_install_dir ::
  "(string list \<times> int) option \<Rightarrow> string \<Rightarrow> uevent_state \<Rightarrow> fault + (int \<times> uevent_state) option" where
  "lidbg_pm_install_dir dir path u =
     (if \<not> strstr path ''apk'' then
        bindE (lidbg_readdir_and_dealfile dir) (\<lambda>r.
        case r of
          None \<Rightarrow> Inr None
        | Some (_, files) \<Rightarrow> bindE (foldE (callback_pm_install path) files u) (\<lambda>u'. Inr (Some (1, u'))))
      else bindE (pm_install_apk path u) (\<lambda>(_, u'). Inr (Some (1, u'))))"

section \<open>Tokens and their offsets\<close>

lemma length_offsets [simp]: "length (offsets k ts) = length ts"
  by (induction ts arbitrary: k) auto

lemma offsets_shift: "i < length ts \<Longrightarrow> offsets k ts ! i = k + offsets 0 ts ! i"
proof (induction ts arbitrary: k i)
  case (Cons t ts)
  show ?case
  proof (cases i)
    case (Suc j)
    with Cons.prems Cons.IH [of j "k + length t + 1"] Cons.IH [of j "length t + 1"] show ?thesis by simp
  qed simp
qed simp

text \<open>The text from the offset of a token on is the token, followed by a separator or by nothing.\<close>

lemma token_at_offset:
  "i < length (strsep_all seps s) \<Longrightarrow>
     \<exists>r. drop (offsets 0 (strsep_all seps s) ! i) s = strsep_all seps s ! i @ r \<and> (r = [] \<or> hd r \<in> set seps)"
proof (induction seps s arbitrary: i rule: strsep_all.induct)
  case (1 seps s)
  obtain t p where tp: "strsep seps s = (t, p)" by (cases "strsep seps s")
  show ?case
  proof (cases p)
    case None
    with tp have "strsep_all seps s = [s]" using strsep_last [of seps s t] by (subst strsep_all.simps) simp
    with 1(2) show ?thesis by simp
  next
    case (Some r)
    with tp obtain c where c: "c \<in> set seps" "s = t @ c # r" using strsep_split [of seps s t r] by blast
    have ts: "strsep_all seps s = t # strsep_all seps r" using tp Some by (subst strsep_all.simps) simp
    show ?thesis
    proof (cases i)
      case 0
      with ts c show ?thesis by (auto intro: exI [of _ "c # r"])
    next
      case (Suc j)
      with 1(2) ts have j: "j < length (strsep_all seps r)" by simp
      then have "offsets 0 (strsep_all seps s) ! i = length t + 1 + offsets 0 (strsep_all seps r) ! j"
        using offsets_shift [OF j, of "length t + 1"] Suc by (simp add: ts)
      moreover have "strsep_all seps s ! i = strsep_all seps r ! j" using Suc by (simp add: ts)
      moreover have "drop (length t + 1 + k) s = drop k r" for k using c(2) by simp
      ultimately show ?thesis using 1(1) [OF tp [symmetric] Some j] by (simp only: )
    qed
  qed
qed

lemma offset_bound: "i < length (strsep_all seps s) \<Longrightarrow> offsets 0 (strsep_all seps s) ! i \<le> length s"
proof (induction seps s arbitrary: i rule: strsep_all.induct)
  case (1 seps s)
  obtain t p where tp: "strsep seps s = (t, p)" by (cases "strsep seps s")
  show ?case
  proof (cases p)
    case None
    with tp have "strsep_all seps s = [s]" using strsep_last [of seps s t] by (subst strsep_all.simps) simp
    with 1(2) show ?thesis by simp
  next
    case (Some r)
    with tp obtain c where c: "s = t @ c # r" using strsep_split [of seps s t r] by blast
    have ts: "strsep_all seps s = t # strsep_all seps r" using tp Some by (subst strsep_all.simps) simp
    show ?thesis
    proof (cases i)
      case (Suc j)
      with 1(2) ts have j: "j < length (strsep_all seps r)" by simp
      have "offsets 0 (strsep_all seps s) ! i = length t + 1 + offsets 0 (strsep_all seps r) ! j"
        using offsets_shift [OF j, of "length t + 1"] Suc by (simp add: ts)
      with 1(1) [OF tp [symmetric] Some j] c show ?thesis by simp
    qed (simp add: ts)
  qed
qed

section \<open>The mount table\<close>

definition zap :: "char \<Rightarrow> char" where
  "zap c = (if c = CHR 0x0A \<or> c = CHR '' '' then CHR 0x00 else c)"

definition zap_nl :: "char \<Rightarrow> char" where
  "zap_nl c = (if c = CHR 0x0A then CHR 0x00 else c)"

definition mount_tokens :: "string \<Rightarrow> string list" where
  "mount_tokens item = strsep_all '' '' item"

definition mount_entry :: "nat \<Rightarrow> string \<Rightarrow> mounted_volume" where
  "mount_entry start item =
     (let ptr = offsets start (mount_tokens item) in
      \<lparr>device = Some (ptr ! 0), mount_point = Some (ptr ! 1), filesystem = Some (ptr ! 2), others = Some (ptr ! 3)\<rparr>)"

lemma scan_line_eq:
  assumes "length (mount_tokens item) \<le> 12" and "buf_mount st = pre @ item @ post" and "length pre = start"
    and "CHR 0x0A \<notin> set item"
  shows "\<exists>r. scan_line (loop, item, start) (ret, st) = Inr (r, st\<lparr>buf_mount := pre @ map zap item @ post,
    g_mounts_state := if 4 \<le> length (mount_tokens item)
      then (g_mounts_state st)[loop := mount_entry start item] else g_mounts_state st\<rparr>)"
proof -
  have "map (\<lambda>c. if c = CHR '' '' then CHR 0x00 else c) item = map zap item"
    using assms(4) by (auto simp: zap_def)
  with assms(1-3) show ?thesis
    by (auto simp: scan_line_def lidbg_token_string_def mount_tokens_def mount_entry_def Let_def)
qed

lemma map_zap_nl_plain: "CHR 0x0A \<notin> set s \<Longrightarrow> map zap_nl s = s"
  by (induction s) (auto simp: zap_nl_def)

lemma scan_lines:
  assumes "\<forall>it \<in> set items. length (mount_tokens it) \<le> 12 \<and> CHR 0x0A \<notin> set it"
    and "buf_mount st = pre @ map zap_nl (join (CHR 0x0A) items) @ pad"
    and "length pre = start" and "n + length items \<le> length (g_mounts_state st)"
  shows "\<exists>r st'. foldE scan_line (zip [n..<n + length items] (zip items (offsets start items))) (ret, st) = Inr (r, st') \<and>
    buf_mount st' = pre @ map zap (join (CHR 0x0A) items) @ pad \<and>
    invaled_mount_point st' = invaled_mount_point st \<and>
    length (g_mounts_state st') = length (g_mounts_state st) \<and>
    (\<forall>i < length (g_mounts_state st). g_mounts_state st' ! i =
       (if n \<le> i \<and> i < n + length items \<and> 4 \<le> length (mount_tokens (items ! (i - n)))
        then mount_entry (offsets start items ! (i - n)) (items ! (i - n)) else g_mounts_state st ! i))"
  using assms
proof (induction items arbitrary: st pre start n ret)
  case Nil
  then show ?case by auto
next
  case (Cons it items)
  note IH = Cons.IH and prems = Cons.prems
  let ?post = "map zap_nl (if items = [] then [] else CHR 0x0A # join (CHR 0x0A) items) @ pad"
  let ?g = "if 4 \<le> length (mount_tokens it) then (g_mounts_state st)[n := mount_entry start it] else g_mounts_state st"
  let ?st = "st\<lparr>buf_mount := pre @ map zap it @ ?post, g_mounts_state := ?g\<rparr>"
  have b: "buf_mount st = pre @ it @ ?post"
    using Cons.prems(1,2) by (cases items) (auto simp: map_zap_nl_plain)
  obtain r where r: "scan_line (n, it, start) (ret, st) = Inr (r, ?st)"
    using scan_line_eq [OF _ b Cons.prems(3), of n ret] Cons.prems(1) by auto
  have z: "zip [n..<n + length (it # items)] (zip (it # items) (offsets start (it # items))) =
      (n, it, start) # zip [Suc n..<Suc n + length items] (zip items (offsets (start + length it + 1) items))"
    by (simp add: upt_conv_Cons del: upt_Suc)
  show ?case
  proof (cases items)
    case Nil
    with Cons.prems(4) show ?thesis unfolding z by (auto simp: r nth_list_update)
  next
    case (Cons it' items')
    let ?pre = "pre @ map zap it @ [CHR 0x00]" and ?s = "start + length it + 1"
    define st1 where "st1 = ?st"
    have g: "g_mounts_state st1 = ?g" and l: "length (g_mounts_state st1) = length (g_mounts_state st)"
      and v: "invaled_mount_point st1 = invaled_mount_point st"
      by (simp_all add: st1_def)
    have p1: "\<forall>it \<in> set items. length (mount_tokens it) \<le> 12 \<and> CHR 0x0A \<notin> set it"
      and p2: "buf_mount st1 = ?pre @ map zap_nl (join (CHR 0x0A) items) @ pad"
      and p3: "length ?pre = ?s" and p4: "Suc n + length items \<le> length (g_mounts_state st1)"
      using prems l by (simp_all add: Cons zap_nl_def st1_def)
    obtain r' st' where st': "foldE scan_line (zip [Suc n..<Suc n + length items] (zip items (offsets ?s items))) (r, st1) = Inr (r', st')"
      "buf_mount st' = ?pre @ map zap (join (CHR 0x0A) items) @ pad"
      "invaled_mount_point st' = invaled_mount_point st1" "length (g_mounts_state st') = length (g_mounts_state st1)"
      "\<forall>i < length (g_mounts_state st1). g_mounts_state st' ! i =
       (if Suc n \<le> i \<and> i < Suc n + length items \<and> 4 \<le> length (mount_tokens (items ! (i - Suc n)))
        then mount_entry (offsets ?s items ! (i - Suc n)) (items ! (i - Suc n)) else g_mounts_state st1 ! i)"
      using IH [OF p1 p2 p3 p4] by blast
    have "g_mounts_state st' ! i =
       (if n \<le> i \<and> i < n + length (it # items) \<and> 4 \<le> length (mount_tokens ((it # items) ! (i - n)))
        then mount_entry (offsets start (it # items) ! (i - n)) ((it # items) ! (i - n)) else g_mounts_state st ! i)"
      if "i < length (g_mounts_state st)" for i
    proof (cases "i = n")
      case True
      with st'(5) that l show ?thesis by (auto simp: nth_list_update g)
    next
      case False
      then have "n < i \<Longrightarrow> i - n = Suc (i - Suc n)" by simp
      with False st'(5) that l show ?thesis by (cases "n < i") (auto simp: nth_list_update g)
    qed
    moreover have "foldE scan_line (zip [n..<n + length (it # items)] (zip (it # items) (offsets start (it # items)))) (ret, st) = Inr (r', st')"
      unfolding z using st'(1) by (simp add: r st1_def del: upt_Suc)
    moreover have "buf_mount st' = pre @ map zap (join (CHR 0x0A) (it # items)) @ pad"
      using st'(2) by (simp add: Cons zap_def)
    ultimately show ?thesis using st'(3,4) l v by auto
  qed
qed

text \<open>What the table says about line \<open>i\<close> of the file, with the pointers read as strings.\<close>

lemma c_string_zap:
  assumes "set tok \<inter> {CHR 0x0A, CHR '' '', CHR 0x00} = {}"
    and "r = [] \<or> hd r = CHR 0x0A \<or> hd r = CHR '' ''"
  shows "c_string (map zap (tok @ r) @ CHR 0x00 # pad) = tok"
proof -
  have tok: "map zap tok = tok" using assms(1) by (induction tok) (auto simp: zap_def)
  have "takeWhile (\<lambda>c. c \<noteq> CHR 0x00) (tok @ CHR 0x00 # xs) = tok" for xs
    using assms(1) by (subst takeWhile_append2) auto
  moreover obtain xs where "map zap r @ CHR 0x00 # pad = CHR 0x00 # xs"
    using assms(2) by (cases r) (auto simp: zap_def)
  ultimately show ?thesis unfolding c_string_def by (simp add: tok)
qed

lemma str_at_token:
  assumes "buf_mount st = map zap body @ CHR 0x00 # pad" and "CHR 0x00 \<notin> set body"
    and items: "items = strsep_all [CHR 0x0A] body" and i: "i < length items" and j: "j < length (mount_tokens (items ! i))"
  shows "str_at st (offsets (offsets 0 items ! i) (mount_tokens (items ! i)) ! j) = mount_tokens (items ! i) ! j"
proof -
  let ?o = "offsets 0 items ! i" and ?ts = "mount_tokens (items ! i)"
  obtain r where r: "drop ?o body = items ! i @ r" "r = [] \<or> hd r = CHR 0x0A"
    using token_at_offset [of i "[CHR 0x0A]" body] i items by auto
  obtain r' where r': "drop (offsets 0 ?ts ! j) (items ! i) = ?ts ! j @ r'" "r' = [] \<or> hd r' = CHR '' ''"
    using token_at_offset [of j "'' ''" "items ! i"] j by (auto simp: mount_tokens_def)
  have nl: "CHR 0x0A \<notin> set (items ! i)"
    using strsep_all_no_sep [of "items ! i" "[CHR 0x0A]" body] i items by auto
  have sp: "CHR '' '' \<notin> set (?ts ! j)"
    using strsep_all_no_sep [of "?ts ! j" "'' ''" "items ! i"] j by (auto simp: mount_tokens_def)
  have sub: "set (?ts ! j) \<subseteq> set (items ! i)" using r'(1) by (metis set_append set_drop_subset le_sup_iff)
  have sub2: "set (items ! i) \<subseteq> set body" using r(1) by (metis set_append set_drop_subset le_sup_iff)
  have tok: "set (?ts ! j) \<inter> {CHR 0x0A, CHR '' '', CHR 0x00} = {}"
    using nl sp sub sub2 assms(2) by auto
  have le: "offsets 0 ?ts ! j \<le> length (items ! i)"
  proof (rule ccontr)
    assume "\<not> ?thesis"
    then have "?ts ! j @ r' = []" "length (items ! i) < offsets 0 ?ts ! j" using r'(1) by auto
    then show False using offset_bound [of j "'' ''" "items ! i"] j by (simp add: mount_tokens_def)
  qed
  have "drop (?o + offsets 0 ?ts ! j) body = drop (offsets 0 ?ts ! j) (drop ?o body)" by (simp add: add.commute)
  also have "\<dots> = ?ts ! j @ r' @ r" using r(1) r'(1) le by simp
  finally have d: "drop (?o + offsets 0 ?ts ! j) body = ?ts ! j @ r' @ r" .
  have "?o + offsets 0 ?ts ! j \<le> length body"
    using offset_bound [of i "[CHR 0x0A]" body] i items arg_cong [OF r(1), of length] le by simp
  then have "drop (?o + offsets 0 ?ts ! j) (buf_mount st) = map zap (?ts ! j @ r' @ r) @ CHR 0x00 # pad"
    using assms(1) d by (simp add: drop_map)
  then show ?thesis
    unfolding str_at_def offsets_shift [OF j, of "offsets 0 items ! i"] using c_string_zap [OF tok, of "r' @ r" pad] r(2) r'(2)
    by (cases r') auto
qed

lemma scan_fresh:
  assumes "CHR 0x00 \<notin> set file" and "length file < MOUNT_BUF_MAX"
    and items: "items = strsep_all [CHR 0x0A] file" and "length items \<le> ITEM_MAX"
    and "\<forall>it \<in> set items. length (mount_tokens it) \<le> 12"
  obtains r st where "scan_mounted_volumes (Some file) mounts_start = Inr (r, st)"
    and "\<exists>pad. buf_mount st = map zap file @ CHR 0x00 # pad" and "invaled_mount_point st = length items"
    and "\<forall>i < length items. g_mounts_state st ! i =
      (if 4 \<le> length (mount_tokens (items ! i)) then mount_entry (offsets 0 items ! i) (items ! i)
       else \<lparr>device = None, mount_point = None, filesystem = None, others = None\<rparr>)"
proof -
  define pad where "pad = replicate (MOUNT_BUF_MAX - length file) (CHR 0x00)"
  define st1 where "st1 = mounts_start\<lparr>invaled_mount_point := length items, buf_mount := map zap_nl file @ pad\<rparr>"
  have take: "take (MOUNT_BUF_MAX - 1) file = file" using assms(2) by simp
  have cs: "c_string file = file" using assms(1) by (auto simp: c_string_def takeWhile_eq_all_conv)
  have scan: "scan_mounted_volumes (Some file) mounts_start =
      foldE scan_line (zip [0..<length items] (zip items (offsets 0 items))) (False, st1)"
    using assms(4) take cs
    by (simp add: scan_mounted_volumes_def lidbg_token_string_def Let_def items [symmetric] st1_def pad_def
        mounts_start_def zap_nl_def [abs_def] del: upt_Suc)
  have buf: "buf_mount st1 = [] @ map zap_nl (join (CHR 0x0A) items) @ pad"
    by (simp add: st1_def items join_strsep_all)
  have it: "\<forall>it \<in> set items. length (mount_tokens it) \<le> 12 \<and> CHR 0x0A \<notin> set it"
    using assms(5) strsep_all_no_sep items by fastforce
  have len: "0 + length items \<le> length (g_mounts_state st1)"
    using assms(4) by (simp add: st1_def mounts_start_def)
  obtain r st where st: "foldE scan_line (zip [0..<0 + length items] (zip items (offsets 0 items))) (False, st1) = Inr (r, st)"
    "buf_mount st = [] @ map zap (join (CHR 0x0A) items) @ pad" "invaled_mount_point st = invaled_mount_point st1"
    "\<forall>i < length (g_mounts_state st1). g_mounts_state st ! i =
       (if 0 \<le> i \<and> i < 0 + length items \<and> 4 \<le> length (mount_tokens (items ! (i - 0)))
        then mount_entry (offsets 0 items ! (i - 0)) (items ! (i - 0)) else g_mounts_state st1 ! i)"
    using scan_lines [OF it buf list.size(3) len] by blast
  obtain k where "MOUNT_BUF_MAX - length file = Suc k" using assms(2) by (metis Suc_diff_Suc)
  then have "\<exists>pad. buf_mount st = map zap file @ CHR 0x00 # pad"
    using st(2) by (simp add: items join_strsep_all pad_def)
  moreover have "g_mounts_state st1 ! i = \<lparr>device = None, mount_point = None, filesystem = None, others = None\<rparr>"
    if "i < length items" for i using that assms(4) by (simp add: st1_def mounts_start_def)
  ultimately show ?thesis using that [of r st] scan st(1,3,4) len by (simp add: st1_def)
qed

section \<open>The directory loop\<close>

lemma deal_names_ok: "deal_names 0 names calls = Some (calls @ filter (\<lambda>n. \<not> (n \<noteq> [] \<and> hd n = CHR ''.'')) names)"
proof (induction names arbitrary: calls)
  case Nil
  show ?case by (subst deal_names.simps) simp
next
  case (Cons n names)
  then show ?case by (subst deal_names.simps) simp
qed

lemma deal_names_returns: "deal_names status names calls = Some y \<Longrightarrow> status = 0 \<or> names = []"
  by (rule deal_names.raw_induct [where P = "\<lambda>status names calls y. status = 0 \<or> names = []"])
    (auto split: list.splits if_splits)

lemma build_namelist:
  "\<forall>n \<in> set entries. length n < 33 \<Longrightarrow>
     foldE (\<lambda>n ns. bindE (readdir_build_namelist True n ns) (\<lambda>(_, ns'). Inr ns')) entries names = Inr (rev entries @ names)"
  by (induction entries arbitrary: names) (auto simp: readdir_build_namelist_def)

section \<open>Properties\<close>

text \<open>On the first scan, looking up a mount point finds the first line of the file of mounts that has at
  least four fields and whose second field is the mount point; the pointers of every such line are
  its first four fields.  The file has to fit the static buffers: fewer than 3072 bytes, at most 35
  lines, at most 12 fields per line.\<close>

theorem find_mounted_volume_finds:
  assumes "CHR 0x00 \<notin> set file" and "length file < MOUNT_BUF_MAX"
    and "length (strsep_all [CHR 0x0A] file) \<le> ITEM_MAX"
    and "\<forall>it \<in> set (strsep_all [CHR 0x0A] file). length (mount_tokens it) \<le> 12"
  defines "items \<equiv> strsep_all [CHR 0x0A] file"
  shows "\<exists>st. find_mounted_volume_by_mount_point (Some file) mp mounts_start =
      Inr (List.find (\<lambda>i. 4 \<le> length (mount_tokens (items ! i)) \<and> mount_tokens (items ! i) ! 1 = mp) [0..<length items], st) \<and>
    (\<forall>i < length items. 4 \<le> length (mount_tokens (items ! i)) \<longrightarrow>
      map (map_option (str_at st)) [device (g_mounts_state st ! i), mount_point (g_mounts_state st ! i),
        filesystem (g_mounts_state st ! i), others (g_mounts_state st ! i)] =
      map Some (take 4 (mount_tokens (items ! i))))"
proof -
  obtain r st where scan: "scan_mounted_volumes (Some file) mounts_start = Inr (r, st)"
    and "\<exists>pad. buf_mount st = map zap file @ CHR 0x00 # pad" and inv: "invaled_mount_point st = length items"
    and tab: "\<forall>i < length items. g_mounts_state st ! i =
      (if 4 \<le> length (mount_tokens (items ! i)) then mount_entry (offsets 0 items ! i) (items ! i)
       else \<lparr>device = None, mount_point = None, filesystem = None, others = None\<rparr>)"
    by (rule scan_fresh [OF assms(1,2) refl assms(3,4), folded items_def])
  then obtain pad where buf: "buf_mount st = map zap file @ CHR 0x00 # pad" by blast
  note tok = str_at_token [OF buf assms(1) meta_eq_to_obj_eq [OF items_def]]
  let ?P = "\<lambda>i. case mount_point (g_mounts_state st ! i) of None \<Rightarrow> False | Some p \<Rightarrow> str_at st p = mp"
  let ?Q = "\<lambda>i. 4 \<le> length (mount_tokens (items ! i)) \<and> mount_tokens (items ! i) ! 1 = mp"
  have PQ: "?P i = ?Q i" if "i < length items" for i
  proof (cases "4 \<le> length (mount_tokens (items ! i))")
    case True
    then have "mount_point (g_mounts_state st ! i) = Some (offsets (offsets 0 items ! i) (mount_tokens (items ! i)) ! 1)"
      using tab [rule_format, OF that] by (simp add: mount_entry_def Let_def)
    with True tok [OF that, of 1] show ?thesis by simp
  next
    case False
    then show ?thesis using tab [rule_format, OF that] by simp
  qed
  have ne: "length items \<noteq> 0" by (simp add: items_def)
  have "find_mounted_volume_by_mount_point (Some file) mp mounts_start = Inr (List.find ?P [0..<length items], st)"
    using scan inv ne by (simp add: find_mounted_volume_by_mount_point_def)
  also have "List.find ?P [0..<length items] = List.find ?Q [0..<length items]"
    using PQ by (intro find_cong) auto
  finally have "find_mounted_volume_by_mount_point (Some file) mp mounts_start =
      Inr (List.find ?Q [0..<length items], st)" .
  moreover have "map (map_option (str_at st)) [device (g_mounts_state st ! i), mount_point (g_mounts_state st ! i),
        filesystem (g_mounts_state st ! i), others (g_mounts_state st ! i)] = map Some (take 4 (mount_tokens (items ! i)))"
    if i: "i < length items" and 4: "4 \<le> length (mount_tokens (items ! i))" for i
  proof -
    have "take 4 ts = [ts ! 0, ts ! 1, ts ! 2, ts ! 3]" if "4 \<le> length ts" for ts :: "string list"
      by (rule nth_equalityI) (use that in \<open>auto simp: nth_Cons' less_Suc_eq numeral_eq_Suc\<close>)
    note take4 = this [OF 4]
    have ne: "mount_tokens (items ! i) \<noteq> []" using 4 by auto
    have "g_mounts_state st ! i = mount_entry (offsets 0 items ! i) (items ! i)"
      using tab [rule_format, OF i] 4 by simp
    then show ?thesis
      using 4 ne tok [OF i, of 0] tok [OF i, of 1] tok [OF i, of 2] tok [OF i, of 3] unfolding take4
      by (simp add: mount_entry_def Let_def)
  qed
  ultimately show ?thesis by blast
qed

theorem find_mounted_volume_finds_witness:
  "\<exists>st. find_mounted_volume_by_mount_point
     (Some (join (CHR 0x0A) [''/dev/a /system ext4 ro'', ''/dev/b /sdcard vfat rw'', ''''])) ''/sdcard'' mounts_start = Inr (Some 1, st)"
proof -
  let ?l = "[''/dev/a /system ext4 ro'', ''/dev/b /sdcard vfat rw'', '''']"
  have items: "strsep_all [CHR 0x0A] (join (CHR 0x0A) ?l) = ?l"
    by (rule strsep_all_join) simp_all
  have toks: "mount_tokens ''/dev/a /system ext4 ro'' = [''/dev/a'', ''/system'', ''ext4'', ''ro'']"
    "mount_tokens ''/dev/b /sdcard vfat rw'' = [''/dev/b'', ''/sdcard'', ''vfat'', ''rw'']" "mount_tokens '''' = ['''']"
    using strsep_all_join [of "[''/dev/a'', ''/system'', ''ext4'', ''ro'']" "CHR '' ''"]
      strsep_all_join [of "[''/dev/b'', ''/sdcard'', ''vfat'', ''rw'']" "CHR '' ''"]
    by (simp_all add: mount_tokens_def)
  have "CHR 0x00 \<notin> set (join (CHR 0x0A) ?l)" "length (join (CHR 0x0A) ?l) < MOUNT_BUF_MAX"
    "length ?l \<le> ITEM_MAX" "\<forall>it \<in> set ?l. length (mount_tokens it) \<le> 12"
    by (simp_all add: toks MOUNT_BUF_MAX_def ITEM_MAX_def)
  then have "\<exists>st. find_mounted_volume_by_mount_point (Some (join (CHR 0x0A) ?l)) ''/sdcard'' mounts_start =
      Inr (List.find (\<lambda>i. 4 \<le> length (mount_tokens (?l ! i)) \<and> mount_tokens (?l ! i) ! 1 = ''/sdcard'') [0..<length ?l], st)"
    using find_mounted_volume_finds [of "join (CHR 0x0A) ?l" "''/sdcard''"] unfolding items by blast
  moreover have "List.find (\<lambda>i. 4 \<le> length (mount_tokens (?l ! i)) \<and> mount_tokens (?l ! i) ! 1 = ''/sdcard'') [0..<length ?l] = Some 1"
    by (simp add: toks upt_conv_Cons)
  ultimately show ?thesis by (simp only: )
qed

text \<open>Reading a directory hands every name that does not start with a dot to the callback, in
  reverse order of the directory, when \<open>vfs_readdir\<close> reports success; when it reports an error after
  some entries, the loop never removes them and the call does not return.  Names of 33 characters
  or more do not fit the list entry.\<close>

theorem readdir_hands_out:
  assumes "\<forall>n \<in> set entries. length n < 33" and "entries \<noteq> []"
  shows "lidbg_readdir_and_dealfile (Some (entries, status)) =
    Inr (if status = 0 then Some (True, rev (filter (\<lambda>n. \<not> (n \<noteq> [] \<and> hd n = CHR ''.'')) entries)) else None)"
proof -
  have "deal_names status (rev entries) [] = None" if "status \<noteq> 0"
    using deal_names_returns [of status "rev entries" "[]"] that assms(2) by (cases "deal_names status (rev entries) []") auto
  then show ?thesis
    using build_namelist [OF assms(1), of "[]"]
    by (auto simp: lidbg_readdir_and_dealfile_def deal_names_ok rev_filter)
qed

theorem readdir_hands_out_witness:
  "lidbg_readdir_and_dealfile (Some ([''.'', ''..'', ''a.apk'', ''b.apk''], 0)) = Inr (Some (True, [''b.apk'', ''a.apk'']))"
  using readdir_hands_out [of "[''.'', ''..'', ''a.apk'', ''b.apk'']" 0] by simp

text \<open>A shell command built by \<open>lidbg_launch_user\<close> may have up to 511 characters, but only its first
  239 reach user space: the uevent string is cut at 256 bytes, without an error.\<close>

theorem launch_user_cut:
  assumes "concat (map (\<lambda>w. w @ '' '') (bin_path # map opt_arg argvs)) = cmd" and "length cmd < 512"
  shows "\<exists>u'. lidbg_launch_user bin_path argvs u = Inr (1, u') \<and>
    uevents_sent u' = uevents_sent u @ [[''LIDBG_ACTION=shell'', ''LIDBG_PARAMETER='' @ take 239 cmd]]"
  using assms by (simp add: lidbg_launch_user_def uevent_shell_def uevent_send_def)

theorem launch_user_cut_witness:
  "\<exists>u'. lidbg_rm ''/data/x'' \<lparr>uevent_list = [], uevent_dbg = False, uevents_sent = [], callbacks_run = []\<rparr> = Inr (1, u') \<and>
     uevents_sent u' = [[''LIDBG_ACTION=shell'', ''LIDBG_PARAMETER=rm /data/x      '']]"
  using launch_user_cut [OF refl, of "''rm''" "[Some ''/data/x'', None, None, None, None, None]"
      "\<lparr>uevent_list = [], uevent_dbg = False, uevents_sent = [], callbacks_run = []\<rparr>"]
  by (simp add: lidbg_rm_def get_bin_path_def opt_arg_def)

end
