(* ===== verification/KeyValue.thy ===== *)
theory KeyValue
  imports Prelude
begin

text \<open>
  The key-value store of the file server, \<^verbatim>\<open>core/lidbg_fs_keyvalue.c\<close>: a configuration file becomes a
  list of \<open>string_dev\<close>; a module registers an \<open>int\<close> variable or a callback under a key;
  the values are written back to a file and read again when that file changes.

  A registered \<open>int *\<close> is an address of the store \<open>cells\<close>, as several list entries and the modules
  share the variables; a C int is a \<open>u32\<close>, printed through \<open>sint\<close>.  A callback is a number that
  names the function, and the calls made are returned as a list.  \<open>None\<close> is a null pointer.  Files
  hold C strings; \<open>can_open\<close>, \<open>alloc\<close> stand for the outcomes of \<open>filp_open\<close> and \<open>kmalloc\<close>.
\<close>

section \<open>State\<close>

datatype string_dev_cmd =
  FS_CMD_FILE_CONFIGMODE | FS_CMD_FILE_LISTMODE | FS_CMD_LIST_SPLITKV | FS_CMD_LIST_SHOW
| FS_CMD_LIST_IS_STRINFILE | FS_CMD_LIST_GETVALUE | FS_CMD_LIST_SETVALUE | FS_CMD_LIST_SETVALUE2
| FS_CMD_LIST_SAVEINFO | FS_CMD_LIST_SAVE2FILE | FS_CMD_COUNT

record string_dev =
  yourkey :: string
  yourvalue :: "string option"
  int_value :: "nat option"
  callback :: "nat option"

type_synonym cells = "nat \<Rightarrow> u32"
type_synonym kv_list = "string_dev list"

definition new_dev :: "string \<Rightarrow> string_dev" where
  "new_dev token = \<lparr>yourkey = token, yourvalue = None, int_value = None, callback = None\<rparr>"

section \<open>Operations on a list\<close>

text \<open>\<open>list_for_each_entry\<close> up to the first entry with the key.\<close>

fun get_int_loop ::
  "string \<Rightarrow> nat option \<Rightarrow> nat option \<Rightarrow> kv_list \<Rightarrow> cells \<Rightarrow> fault + (int \<times> kv_list \<times> cells)" where
  "get_int_loop key ip cb [] c = Inr (-1, [], c)"
| "get_int_loop key ip cb (pos # rest) c =
     (if yourkey pos = key then
        (case int_value pos of
           Some q \<Rightarrow> (case ip of None \<Rightarrow> Inl NullDeref | Some a \<Rightarrow> Inr (1, pos # rest, c(a := c q)))
         | None \<Rightarrow>
             let (pos1, c1) =
                   (case (ip, yourvalue pos) of
                      (Some a, Some v) \<Rightarrow> (pos\<lparr>int_value := Some a, yourvalue := None\<rparr>, c(a := simple_strtoul v))
                    | _ \<Rightarrow> (pos, c));
                 pos2 = (case cb of None \<Rightarrow> pos1 | Some _ \<Rightarrow> pos1\<lparr>callback := cb\<rparr>)
             in Inr (1, pos2 # rest, c1))
      else bindE (get_int_loop key ip cb rest c) (\<lambda>(ret, rest', c'). Inr (ret, pos # rest', c')))"

definition get_int_value ::
  "kv_list \<Rightarrow> string \<Rightarrow> nat option \<Rightarrow> nat option \<Rightarrow> cells \<Rightarrow> fault + (int \<times> kv_list \<times> cells)" where
  "get_int_value client_list key ip cb c =
     (if client_list = [] then Inr (-2, client_list, c) else get_int_loop key ip cb client_list c)"

definition split_kv :: "string_dev \<Rightarrow> string_dev" where
  "split_kv pos =
     (case strsep ''='' (yourkey pos) of
        (k, Some v) \<Rightarrow> pos\<lparr>yourkey := k, yourvalue := Some v\<rparr>
      | (_, None) \<Rightarrow> pos)"

definition save_info :: "string \<Rightarrow> nat option \<Rightarrow> nat option \<Rightarrow> string_dev \<Rightarrow> string_dev" where
  "save_info key ip cb pos =
     (if yourkey pos = key then
        let pos1 = (case ip of None \<Rightarrow> pos | Some _ \<Rightarrow> pos\<lparr>int_value := ip\<rparr>)
        in (case cb of None \<Rightarrow> pos1 | Some _ \<Rightarrow> pos1\<lparr>callback := cb\<rparr>)
      else pos)"

fun set_value_loop :: "string \<Rightarrow> string \<Rightarrow> kv_list \<Rightarrow> int \<times> kv_list" where
  "set_value_loop key str [] = (-1, [])"
| "set_value_loop key str (pos # rest) =
     (case yourvalue pos of
        Some v \<Rightarrow>
          if yourkey pos = key \<and> v \<noteq> str then (1, pos\<lparr>yourvalue := Some str\<rparr> # rest)
          else let (ret, rest') = set_value_loop key str rest in (ret, pos # rest')
      | None \<Rightarrow> let (ret, rest') = set_value_loop key str rest in (ret, pos # rest'))"

text \<open>
  The comparison loop of \<open>IS_STRINFILE\<close>, from the end of \<open>lookfor\<close> down to its start, against the text at
  the first occurrence of its first character (bytes behind that text never decide the result, as
  its NUL differs from every character of \<open>lookfor\<close>).
\<close>

fun match_back :: "string \<Rightarrow> string \<Rightarrow> nat \<Rightarrow> bool" where
  "match_back p lookfor 0 = False"
| "match_back p lookfor (Suc len) =
     (if len < length p \<and> p ! len = lookfor ! len then (if len = 0 then True else match_back p lookfor len) else False)"

definition str_in_key :: "string \<Rightarrow> string_dev \<Rightarrow> bool" where
  "str_in_key lookfor pos =
     (case lookfor of
        [] \<Rightarrow> False
      | c # _ \<Rightarrow>
          (case dropWhile (\<lambda>d. d \<noteq> c) (yourkey pos) of
             [] \<Rightarrow> False
           | p \<Rightarrow> match_back p lookfor (length lookfor)))"

text \<open>The result: return value, list, and the string stored through \<open>*string\<close>.\<close>

definition fileserver_deal_cmd ::
  "kv_list \<Rightarrow> string_dev_cmd \<Rightarrow> string \<Rightarrow> string \<Rightarrow> string \<Rightarrow> nat option \<Rightarrow> nat option \<Rightarrow>
     int \<times> kv_list \<times> string option" where
  "fileserver_deal_cmd client_list cmd lookfor key str ip cb =
     (if client_list = [] then (-2, client_list, Some str)
      else case cmd of
        FS_CMD_LIST_SPLITKV \<Rightarrow> (1, map split_kv client_list, Some str)
      | FS_CMD_LIST_SHOW \<Rightarrow> (1, client_list, Some str)
      | FS_CMD_LIST_SAVEINFO \<Rightarrow> (1, map (save_info key ip cb) client_list, Some str)
      | FS_CMD_LIST_GETVALUE \<Rightarrow>
          (case List.find (\<lambda>pos. yourkey pos = key) client_list of
             Some pos \<Rightarrow> (1, client_list, yourvalue pos)
           | None \<Rightarrow> (-1, client_list, Some str))
      | FS_CMD_LIST_SETVALUE \<Rightarrow> (let (ret, l) = set_value_loop key str client_list in (ret, l, Some str))
      | FS_CMD_LIST_IS_STRINFILE \<Rightarrow>
          (if list_ex (str_in_key lookfor) client_list then 1 else -1, client_list, Some str)
      | _ \<Rightarrow> (-1, client_list, Some str))"

section \<open>Files\<close>

definition config_line :: "string \<Rightarrow> bool" where
  "config_line token \<longleftrightarrow>
     token \<noteq> [] \<and> hd token \<notin> {CHR ''#'', CHR 0x0A, CHR 0x12, CHR 0x0D}"

text \<open>\<open>list_add\<close> inserts in front, so the list is in reverse order of the file.\<close>

definition bfs_fill_list :: "bool \<Rightarrow> string option \<Rightarrow> string_dev_cmd \<Rightarrow> kv_list \<Rightarrow> int \<times> kv_list" where
  "bfs_fill_list alloc file cmd client_list =
     (case file of
        None \<Rightarrow> (-1, client_list)
      | Some body \<Rightarrow>
          if \<not> alloc then (-1, client_list)
          else if body = [] then (-1, client_list)
          else
            let l = fold (\<lambda>token l. if config_line token then new_dev token # l else l)
                      (strsep_all [CHR 0x0A] (c_string body)) client_list
            in if cmd = FS_CMD_FILE_CONFIGMODE
               then (1, fst (snd (fileserver_deal_cmd l FS_CMD_LIST_SPLITKV [] [] [] None None)))
               else (1, l))"

definition entry_line :: "cells \<Rightarrow> string_dev \<Rightarrow> string" where
  "entry_line c pos =
     (case int_value pos of
        Some a \<Rightarrow> yourkey pos @ ''='' @ show_int (sint (c a)) @ [CHR 0x0A]
      | None \<Rightarrow> (case yourvalue pos of Some v \<Rightarrow> yourkey pos @ ''='' @ v @ [CHR 0x0A] | None \<Rightarrow> []))"

text \<open>Each line goes through \<open>buff[100]\<close>.\<close>

definition save_entry :: "cells \<Rightarrow> string \<Rightarrow> string_dev \<Rightarrow> files \<Rightarrow> fault + files" where
  "save_entry c filename pos fs =
     bindE (sprintf_to (entry_line c pos) (replicate 100 (CHR 0x00))) (\<lambda>buff.
     Inr (fs(filename \<mapsto> the (fs filename) @ c_string buff)))"

definition save_list_to_file :: "bool \<Rightarrow> cells \<Rightarrow> kv_list \<Rightarrow> string \<Rightarrow> files \<Rightarrow> fault + files" where
  "save_list_to_file can_open c client_list filename fs =
     (if \<not> can_open then Inr fs
      else foldE (save_entry c filename) client_list (fs(filename \<mapsto> [])))"

text \<open>One \<open>key=value\<close> of the file against one entry: the new cells, and the callback to run.\<close>

definition update_entry :: "string \<Rightarrow> string \<Rightarrow> string_dev \<Rightarrow> cells \<times> (nat \<times> string \<times> string) list \<Rightarrow>
    cells \<times> (nat \<times> string \<times> string) list" where
  "update_entry key val pos = (\<lambda>(c, calls).
     let call = (case callback pos of None \<Rightarrow> [] | Some f \<Rightarrow> [(f, key, val)]) in
     if yourkey pos = key then
       (case int_value pos of
          Some a \<Rightarrow>
            if c a \<noteq> simple_strtoul val then (c(a := simple_strtoul val), calls @ call) else (c, calls)
        | None \<Rightarrow>
            (case yourvalue pos of
               Some v \<Rightarrow> if v \<noteq> val then (c, calls @ call) else (c, calls)
             | None \<Rightarrow> (c, calls)))
     else (c, calls))"

definition update_line :: "kv_list \<Rightarrow> string \<Rightarrow> cells \<times> (nat \<times> string \<times> string) list \<Rightarrow>
    cells \<times> (nat \<times> string \<times> string) list" where
  "update_line client_list token st =
     (if take 1 token \<noteq> ''#'' \<and> 2 < length token then
        (case strsep ''='' token of
           (key, Some val) \<Rightarrow> fold (update_entry key val) client_list st
         | (_, None) \<Rightarrow> st)
      else st)"

text \<open>The result, the cells, the callbacks run, and whether the update was acknowledged.\<close>

definition update_list ::
  "bool \<Rightarrow> string option \<Rightarrow> kv_list \<Rightarrow> cells \<Rightarrow> int \<times> cells \<times> (nat \<times> string \<times> string) list \<times> bool" where
  "update_list alloc file client_list c =
     (case file of
        None \<Rightarrow> (-1, c, [], False)
      | Some body \<Rightarrow>
          if \<not> alloc \<or> body = [] then (-1, c, [], False)
          else let (c', calls) = fold (update_line client_list) (strsep_all [CHR 0x0A] (c_string body)) (c, [])
               in (1, c', calls, True))"

section \<open>The interface\<close>

definition fs_regist_state where
  "fs_regist_state fs_state_list key a = fileserver_deal_cmd fs_state_list FS_CMD_LIST_SAVEINFO [] key [] (Some a) None"
definition fs_get_intvalue where
  "fs_get_intvalue client_list key ip cb c = get_int_value client_list key ip cb c"
definition fs_get_value where
  "fs_get_value client_list key str = fileserver_deal_cmd client_list FS_CMD_LIST_GETVALUE [] key str None None"
definition fs_set_value where
  "fs_set_value client_list key str = fileserver_deal_cmd client_list FS_CMD_LIST_SETVALUE [] key str None None"
definition fs_find_string where
  "fs_find_string client_list str = fileserver_deal_cmd client_list FS_CMD_LIST_IS_STRINFILE str [] [] None None"
definition fs_show_list where
  "fs_show_list client_list = fileserver_deal_cmd client_list FS_CMD_LIST_SHOW [] [] [] None None"
definition fs_fill_list where
  "fs_fill_list alloc file cmd client_list =
     (if client_list = [] then bfs_fill_list alloc file cmd client_list else (-1, client_list))"

text \<open>
  The macro with which a module registers one of its variables: the default, and then the value of the first of the two
  lists (drivers, core) that has the key.
\<close>

definition FS_REGISTER_INT ::
  "nat \<Rightarrow> string \<Rightarrow> u32 \<Rightarrow> nat option \<Rightarrow> kv_list \<times> kv_list \<times> cells \<Rightarrow> fault + (kv_list \<times> kv_list \<times> cells)" where
  "FS_REGISTER_INT ip key def_value cb = (\<lambda>(drivers, core, c).
     bindE (fs_get_intvalue drivers key (Some ip) cb (c(ip := def_value))) (\<lambda>(ret, drivers', c1).
       if ret < 0 then bindE (fs_get_intvalue core key (Some ip) cb c1) (\<lambda>(_, core', c2). Inr (drivers', core', c2))
       else Inr (drivers', core, c1)))"

section \<open>Reading a configuration\<close>

lemma fill_fold:
  "fold (\<lambda>token l. if config_line token then new_dev token # l else l) ts l = rev (map new_dev (filter config_line ts)) @ l"
  by (induction ts arbitrary: l) auto

lemma fill_config:
  assumes "body \<noteq> []" and "CHR 0x00 \<notin> set body"
  shows "fs_fill_list True (Some body) FS_CMD_FILE_CONFIGMODE [] =
    (1, rev (map (split_kv \<circ> new_dev) (filter config_line (strsep_all [CHR 0x0A] body))))"
  using assms
  by (simp add: fs_fill_list_def bfs_fill_list_def fill_fold c_string_id fileserver_deal_cmd_def rev_map Let_def)

lemma yourkey_split: "yourkey (split_kv (new_dev t)) = fst (strsep ''='' t)"
  using strsep_last [of "''=''" t "fst (strsep ''='' t)"]
  by (cases "strsep ''='' t"; cases "snd (strsep ''='' t)") (simp_all add: split_kv_def new_dev_def)

lemma find_append: "List.find P (xs @ ys) = (case List.find P xs of None \<Rightarrow> List.find P ys | Some x \<Rightarrow> Some x)"
  by (induction xs) auto

section \<open>Searching\<close>

lemma match_back_prefix:
  "n \<le> length lookfor \<Longrightarrow> 0 < n \<Longrightarrow> match_back p lookfor n \<longleftrightarrow> n \<le> length p \<and> take n p = take n lookfor"
proof (induction n)
  case (Suc n)
  show ?case
  proof (cases "n = 0")
    case True
    then show ?thesis using Suc.prems by (cases p; cases lookfor) auto
  next
    case False
    with Suc show ?thesis by (auto simp: take_Suc_conv_app_nth)
  qed
qed simp

lemma match_whole: "lookfor \<noteq> [] \<Longrightarrow> match_back p lookfor (length lookfor) \<longleftrightarrow> (\<exists>v. p = lookfor @ v)"
  by (subst match_back_prefix) (auto, metis append_take_drop_id)

lemma str_in_key_iff:
  "str_in_key lookfor pos \<longleftrightarrow> lookfor \<noteq> [] \<and> (\<exists>u v. yourkey pos = u @ lookfor @ v \<and> hd lookfor \<notin> set u)"
proof (cases lookfor)
  case (Cons c cs)
  let ?d = "dropWhile (\<lambda>d. d \<noteq> c) (yourkey pos)"
  have "(case d of [] \<Rightarrow> False | x # y \<Rightarrow> match_back (x # y) lookfor (length lookfor)) \<longleftrightarrow> (\<exists>v. d = lookfor @ v)" for d
    using Cons match_whole [of lookfor d] by (cases d) (simp_all del: match_back.simps)
  from this [of ?d] have "str_in_key lookfor pos \<longleftrightarrow> (\<exists>v. ?d = lookfor @ v)"
    unfolding str_in_key_def Cons list.case .
  also have "\<dots> \<longleftrightarrow> (\<exists>u v. yourkey pos = u @ lookfor @ v \<and> c \<notin> set u)"
  proof
    assume "\<exists>v. ?d = lookfor @ v"
    then obtain v where "?d = lookfor @ v" by blast
    then have "yourkey pos = takeWhile (\<lambda>d. d \<noteq> c) (yourkey pos) @ lookfor @ v"
      by (metis takeWhile_dropWhile_id)
    moreover have "c \<notin> set (takeWhile (\<lambda>d. d \<noteq> c) (yourkey pos))" using set_takeWhileD by fastforce
    ultimately show "\<exists>u v. yourkey pos = u @ lookfor @ v \<and> c \<notin> set u" by blast
  next
    assume "\<exists>u v. yourkey pos = u @ lookfor @ v \<and> c \<notin> set u"
    then obtain u v where "yourkey pos = u @ lookfor @ v" "c \<notin> set u" by blast
    then have "?d = lookfor @ v" using Cons by (auto simp: dropWhile_append)
    then show "\<exists>v. ?d = lookfor @ v" by blast
  qed
  finally show ?thesis using Cons by simp
qed (simp add: str_in_key_def)

section \<open>Writing and reading back\<close>

lemma update_entries_cells:
  "fst (fold (update_entry key val) l (d, calls)) x =
     (if \<exists>p \<in> set l. yourkey p = key \<and> int_value p = Some x then simple_strtoul val else d x)"
proof (induction l arbitrary: d calls)
  case (Cons p l)
  obtain d' calls' where u: "update_entry key val p (d, calls) = (d', calls')" by fastforce
  then have "d' x = (if yourkey p = key \<and> int_value p = Some x then simple_strtoul val else d x)"
    by (auto simp: update_entry_def Let_def split: if_splits option.splits)
  with Cons.IH [of d' calls'] u show ?case by auto
qed simp

definition value_text :: "cells \<Rightarrow> string_dev \<Rightarrow> string" where
  "value_text c p = (case int_value p of Some a \<Rightarrow> show_int (sint (c a)) | None \<Rightarrow> the (yourvalue p))"

text \<open>An entry whose line can be parsed again.\<close>

definition storable :: "cells \<Rightarrow> string_dev \<Rightarrow> bool" where
  "storable c p \<longleftrightarrow>
     (int_value p \<noteq> None \<or> yourvalue p \<noteq> None) \<and> yourkey p \<noteq> [] \<and> hd (yourkey p) \<noteq> CHR ''#'' \<and>
     set (yourkey p) \<inter> {CHR ''='', CHR 0x0A, CHR 0x00} = {} \<and>
     set (value_text c p) \<inter> {CHR 0x0A, CHR 0x00} = {} \<and>
     length (yourkey p) + length (value_text c p) + 2 < 100"

definition body_line :: "cells \<Rightarrow> string_dev \<Rightarrow> string" where
  "body_line c p = yourkey p @ CHR ''='' # value_text c p"

lemma entry_line_body: "storable c p \<Longrightarrow> entry_line c p = body_line c p @ [CHR 0x0A]"
  by (auto simp: storable_def entry_line_def body_line_def value_text_def split: option.splits)

lemma save_step:
  assumes "storable c p"
  shows "save_entry c f p (fs(f \<mapsto> s)) = Inr (fs(f \<mapsto> s @ entry_line c p))"
proof -
  have "CHR 0x00 \<notin> set (entry_line c p)"
    using assms by (auto simp: entry_line_body body_line_def storable_def)
  then have "c_string (entry_line c p @ CHR 0x00 # r) = entry_line c p" for r
    by (auto simp: c_string_def takeWhile_tail)
  moreover have "length (entry_line c p) < 100"
    using assms by (auto simp: entry_line_body body_line_def storable_def)
  ultimately show ?thesis by (simp add: save_entry_def sprintf_to_def store_front_def)
qed

lemma save_entries:
  "\<forall>p \<in> set l. storable c p \<Longrightarrow>
     foldE (save_entry c f) l (fs(f \<mapsto> s)) = Inr (fs(f \<mapsto> s @ concat (map (entry_line c) l)))"
proof (induction l arbitrary: s)
  case (Cons p l)
  then show ?case by (simp add: save_step del: fun_upd_apply)
qed simp

lemma save_file:
  "\<forall>p \<in> set l. storable c p \<Longrightarrow> save_list_to_file True c l f fs = Inr (fs(f \<mapsto> concat (map (entry_line c) l)))"
  using save_entries [of l c f fs "[]"] by (simp add: save_list_to_file_def)

lemma tokens_of_lines:
  "\<forall>t \<in> set ts. CHR 0x0A \<notin> set t \<Longrightarrow> strsep_all [CHR 0x0A] (concat (map (\<lambda>t. t @ [CHR 0x0A]) ts)) = ts @ [[]]"
  by (induction ts) (simp_all add: strsep_all_append_sep strsep_all_plain)

lemma update_line_body:
  assumes "storable c q" and "distinct (map yourkey l)" and "q \<in> set l"
    and "\<forall>p \<in> set l. \<forall>p' \<in> set l. int_value p = int_value p' \<and> int_value p \<noteq> None \<longrightarrow> p = p'"
    and "p \<in> set l" and "int_value p = Some x"
  shows "fst (update_line l (body_line c q) st) x = (if p = q then simple_strtoul (value_text c q) else fst st x)"
proof -
  have sep: "strsep ''='' (body_line c q) = (yourkey q, Some (value_text c q))"
    using assms(1) by (simp add: body_line_def storable_def strsep_kv)
  have "show_int i \<noteq> []" for i by (simp add: show_int_def)
  moreover have "yourkey q \<noteq> []" "take 1 (body_line c q) \<noteq> ''#''"
    using assms(1) by (cases "yourkey q"; simp add: body_line_def storable_def)+
  ultimately have proc: "update_line l (body_line c q) st = fold (update_entry (yourkey q) (value_text c q)) l st"
    if "int_value q \<noteq> None"
    using that sep by (auto simp: update_line_def body_line_def value_text_def neq_Nil_conv)
  have uniq: "p' = q" if "p' \<in> set l" "yourkey p' = yourkey q" for p'
    using that assms(2,3) by (meson distinct_map inj_onD)
  have ex: "(\<exists>p' \<in> set l. yourkey p' = yourkey q \<and> int_value p' = Some x) \<longleftrightarrow> p = q"
    using uniq assms(3-6) by (metis option.distinct(1))
  show ?thesis
  proof (cases "int_value q")
    case None
    then have "p \<noteq> q" using assms(6) by auto
    moreover have "update_line l (body_line c q) st = st \<or> update_line l (body_line c q) st = fold (update_entry (yourkey q) (value_text c q)) l st"
      using sep by (simp add: update_line_def)
    ultimately show ?thesis
      using ex update_entries_cells [of "yourkey q" "value_text c q" l "fst st" "snd st" x] by auto
  next
    case (Some a)
    then show ?thesis
      using proc ex update_entries_cells [of "yourkey q" "value_text c q" l "fst st" "snd st" x] by auto
  qed
qed

lemma update_lines_body:
  assumes "distinct (map yourkey l)"
    and "\<forall>p \<in> set l. \<forall>p' \<in> set l. int_value p = int_value p' \<and> int_value p \<noteq> None \<longrightarrow> p = p'"
    and "p \<in> set l" and "int_value p = Some x"
  shows "set qs \<subseteq> set l \<Longrightarrow> \<forall>q \<in> set qs. storable c q \<Longrightarrow>
    fst (fold (update_line l) (map (body_line c) qs) st) x =
      (if p \<in> set qs then simple_strtoul (value_text c p) else fst st x)"
proof (induction qs arbitrary: st)
  case (Cons q qs)
  then show ?case
    using update_line_body [OF _ assms(1) _ assms(2-4), of c q st] by auto
qed simp

section \<open>Properties\<close>

text \<open>(C4) A configuration file is a map from keys to values in which the last line of a key wins: after
  the file is read, asking for a key returns the text behind the first \<open>=\<close> of the last line with this
  key; lines that start with \<open>#\<close> and empty lines do not count.\<close>

theorem config_last_line_wins:
  assumes "body = join (CHR 0x0A) (pre @ (k @ CHR ''='' # v) # post)"
    and "\<forall>t \<in> set (pre @ (k @ CHR ''='' # v) # post). set t \<inter> {CHR 0x0A, CHR 0x00} = {}"
    and "k \<noteq> []" and "config_line k" and "CHR ''='' \<notin> set k"
    and "\<forall>t \<in> set post. config_line t \<longrightarrow> fst (strsep ''='' t) \<noteq> k"
    and "fs_fill_list True (Some body) FS_CMD_FILE_CONFIGMODE [] = (ret, l)"
  shows "ret = 1 \<and> fs_get_value l k str = (1, l, Some v)"
proof -
  let ?t = "k @ CHR ''='' # v" and ?f = "split_kv \<circ> new_dev"
  have body: "strsep_all [CHR 0x0A] body = pre @ ?t # post"
    unfolding assms(1) using assms(2) by (intro strsep_all_join) auto
  have nul: "CHR 0x00 \<notin> set body"
    using assms(2) set_join [of "CHR 0x0A" "pre @ ?t # post"] unfolding assms(1) by fastforce
  have ne: "body \<noteq> []" using body assms(3) by (metis append_is_Nil_conv list.distinct(1) list.inject append_Nil append_eq_Cons_conv strsep_all_Nil)
  have ct: "config_line ?t" using assms(3,4) by (cases k) (auto simp: config_line_def)
  have l: "ret = 1" "l = rev (map ?f (filter config_line (pre @ ?t # post)))"
    using fill_config [OF ne nul] assms(7) body by auto
  have ft: "?f ?t = \<lparr>yourkey = k, yourvalue = Some v, int_value = None, callback = None\<rparr>"
    using assms(5) by (simp add: split_kv_def new_dev_def strsep_kv)
  have "List.find (\<lambda>pos. yourkey pos = k) (rev (map ?f (filter config_line post))) = None"
    using assms(6) by (auto simp: find_None_iff yourkey_split)
  then have "List.find (\<lambda>pos. yourkey pos = k) l = Some (?f ?t)"
    using ct ft by (simp add: l(2) find_append)
  moreover have "l \<noteq> []" using ct by (simp add: l(2))
  ultimately show ?thesis using l(1) ft by (simp add: fs_get_value_def fileserver_deal_cmd_def)
qed

theorem config_last_line_wins_witness:
  "fs_get_value (snd (fs_fill_list True (Some (join (CHR 0x0A) [''a=1'', ''#a=2'', ''a=3'', ''b=4'']))
     FS_CMD_FILE_CONFIGMODE [])) ''a'' '''' =
     (1, snd (fs_fill_list True (Some (join (CHR 0x0A) [''a=1'', ''#a=2'', ''a=3'', ''b=4'']))
       FS_CMD_FILE_CONFIGMODE []), Some ''3'')"
  using config_last_line_wins [of "join (CHR 0x0A) [''a=1'', ''#a=2'', ''a=3'', ''b=4'']" "[''a=1'', ''#a=2'']" "''a''" "''3''"
      "[''b=4'']" _ _ "''''", OF _ _ _ _ _ _ prod.collapse [symmetric]]
  by (simp add: config_line_def strsep_def)

text \<open>(C3) Saving a list and reading the file back restores every registered integer that is not negative;
  a negative one is read as 0, since the minus sign is no digit for \<open>simple_strtoul\<close>.  The keys and
  the variables of the entries have to be distinct and every line shorter than the 100-byte buffer.\<close>

theorem save_update_roundtrip:
  assumes "l \<noteq> []" and "\<forall>p \<in> set l. storable c p" and "distinct (map yourkey l)"
    and "\<forall>p \<in> set l. \<forall>p' \<in> set l. int_value p = int_value p' \<and> int_value p \<noteq> None \<longrightarrow> p = p'"
    and "p \<in> set l" and "int_value p = Some a"
  shows "\<exists>fs' c' calls. save_list_to_file True c l f fs = Inr fs' \<and>
    update_list True (fs' f) l d = (1, c', calls, True) \<and> c' a = (if 0 \<le> sint (c a) then c a else 0)"
proof -
  let ?file = "concat (map (entry_line c) l)"
  have eq: "map (entry_line c) l = map (\<lambda>t. t @ [CHR 0x0A]) (map (body_line c) l)"
    using assms(2) by (simp add: entry_line_body)
  have ok: "set (body_line c q) \<inter> {CHR 0x0A, CHR 0x00} = {}" if "q \<in> set l" for q
    using assms(2) that by (auto simp: storable_def body_line_def)
  then have nul: "CHR 0x00 \<notin> set ?file" unfolding eq by auto
  have ne: "?file \<noteq> []" unfolding eq using assms(1) by (cases l) auto
  have toks: "strsep_all [CHR 0x0A] ?file = map (body_line c) l @ [[]]"
    unfolding eq using ok by (intro tokens_of_lines) auto
  obtain c' calls where c': "fold (update_line l) (map (body_line c) l @ [[]]) (d, []) = (c', calls)" by fastforce
  then have "fold (update_line l) (map (body_line c) l) (d, []) = (c', calls)" by (simp add: update_line_def)
  then have "c' a = simple_strtoul (value_text c p)"
    using update_lines_body [OF assms(3-6) subset_refl assms(2), of "(d, [])"] assms(5) by simp
  also have "\<dots> = (if 0 \<le> sint (c a) then c a else 0)"
    using assms(6) by (simp add: value_text_def strtoul_show_int)
  finally show ?thesis
    using save_file [OF assms(2), of f fs] c' nul ne toks by (auto simp: update_list_def c_string_id)
qed

definition kv_example :: "kv_list" where
  "kv_example = [\<lparr>yourkey = ''vol'', yourvalue = None, int_value = Some 0, callback = None\<rparr>,
     \<lparr>yourkey = ''dbg'', yourvalue = None, int_value = Some 1, callback = Some 7\<rparr>]"

theorem save_update_roundtrip_witness:
  "\<exists>fs' c' calls. save_list_to_file True (\<lambda>a. if a = 0 then 5 else - 3) kv_example ''f'' (\<lambda>_. None) = Inr fs' \<and>
     update_list True (fs' ''f'') kv_example (\<lambda>_. 9) = (1, c', calls, True) \<and> c' 0 = 5"
proof -
  let ?c = "\<lambda>a :: nat. if a = 0 then 5 else - 3 :: u32"
  have "show_nat 5 = ''5''" "show_nat 3 = ''3''" by (simp_all add: show_nat.simps [of 5] show_nat.simps [of 3] char_of_def bit_0)
  then have "show_int 5 = ''5''" "show_int (- 3) = ''-3''" by (simp_all add: show_int_def)
  then have "\<forall>p \<in> set kv_example. storable ?c p"
    by (simp add: kv_example_def storable_def value_text_def)
  moreover have "kv_example \<noteq> []" "distinct (map yourkey kv_example)" "hd kv_example \<in> set kv_example"
    "int_value (hd kv_example) = Some 0"
    "\<forall>p \<in> set kv_example. \<forall>p' \<in> set kv_example. int_value p = int_value p' \<and> int_value p \<noteq> None \<longrightarrow> p = p'"
    by (simp_all add: kv_example_def)
  ultimately show ?thesis
    using save_update_roundtrip [of kv_example ?c "hd kv_example" 0 "''f''" "\<lambda>_. None" "\<lambda>_. 9"] by auto
qed

text \<open>\<open>fs_find_string\<close> reports a string only when some entry of the list contains it; it tries only
  the first place of an entry where the first character of the string occurs, so an entry such as
  \<open>aab\<close> does not count as containing \<open>ab\<close>.\<close>

theorem fs_find_string_iff:
  "fst (fs_find_string l s) = 1 \<longleftrightarrow>
     s \<noteq> [] \<and> (\<exists>pos \<in> set l. \<exists>u v. yourkey pos = u @ s @ v \<and> hd s \<notin> set u)"
  by (auto simp: fs_find_string_def fileserver_deal_cmd_def list_ex_iff str_in_key_iff)

end
