(* ===== verification/Fs.thy ===== *)
theory Fs
  imports KeyValue
begin

text \<open>
  The file server: file operations (\<^verbatim>\<open>core/lidbg_fs_cmn.c\<close>), log files (\<^verbatim>\<open>core/lidbg_fs_log.c\<close>), copy lists
  (\<^verbatim>\<open>core/lidbg_fs_update.c\<close>), configuration polling (\<^verbatim>\<open>core/lidbg_fs_conf.c\<close>), the configuration check at
  boot (\<^verbatim>\<open>core/lidbg_fileserver_main.c\<close>), and the decoder that runs on the developer's PC
  (\<^verbatim>\<open>host/lidbg_decode/lidbg_decode.c\<close>).

  The state \<open>fsys\<close> holds the contents and modification times of the files, the clock that stamps a
  write, which paths can be opened for writing, and the shell commands started so far (they run later,
  in user space).  A failing \<open>kmalloc\<close> is the argument \<open>alloc\<close>, \<open>None\<close> as result of a loop means
  that it does not end.
\<close>

section \<open>Files\<close>

record rtc_time =
  tm_sec :: int
  tm_min :: int
  tm_hour :: int
  tm_mday :: int
  tm_mon :: int
  tm_year :: int

datatype shell = Chmod string | Mount string | Rm string | Mkdir string | Rmdir string | Exe string

record fsys =
  content :: files
  mtime :: "string \<Rightarrow> rtc_time"
  clock :: rtc_time
  wr_ok :: "string \<Rightarrow> bool"
  shell_cmds :: "shell list"

definition put_file :: "string \<Rightarrow> string \<Rightarrow> fsys \<Rightarrow> fsys" where
  "put_file f s fs = fs\<lparr>content := (content fs)(f \<mapsto> s), mtime := (mtime fs)(f := clock fs)\<rparr>"

definition run_shell :: "shell \<Rightarrow> fsys \<Rightarrow> fsys" where
  "run_shell c fs = fs\<lparr>shell_cmds := shell_cmds fs @ [c]\<rparr>"

definition is_file_exist :: "string \<Rightarrow> fsys \<Rightarrow> bool" where
  "is_file_exist file fs \<longleftrightarrow> content fs file \<noteq> None"

definition fs_get_file_size :: "string \<Rightarrow> fsys \<Rightarrow> int" where
  "fs_get_file_size file fs = (case content fs file of None \<Rightarrow> -1 | Some s \<Rightarrow> int (length s))"

text \<open>Without \<open>O_CREAT\<close> or \<open>O_TRUNC\<close>: the text overwrites the beginning of an existing file.\<close>

definition fs_file_write :: "string \<Rightarrow> string option \<Rightarrow> fsys \<Rightarrow> int \<times> fsys" where
  "fs_file_write filename wbuff fs =
     (case content fs filename of
        None \<Rightarrow> (-1, fs)
      | Some old \<Rightarrow>
          if \<not> wr_ok fs filename then (-1, fs)
          else (1, case wbuff of None \<Rightarrow> fs | Some w \<Rightarrow> put_file filename (w @ drop (length w) old) fs))"

text \<open>The bytes read; \<open>None\<close> when the file cannot be opened.\<close>

definition fs_file_read :: "string \<Rightarrow> nat \<Rightarrow> fsys \<Rightarrow> string option" where
  "fs_file_read filename readlen fs = map_option (take readlen) (content fs filename)"

definition clear_file :: "string \<Rightarrow> fsys \<Rightarrow> bool \<times> fsys" where
  "clear_file filename fs = (if wr_ok fs filename then (True, put_file filename [] fs) else (False, fs))"

definition get_file_mftime :: "string \<Rightarrow> fsys \<Rightarrow> rtc_time option" where
  "get_file_mftime filename fs = (if is_file_exist filename fs then Some (mtime fs filename) else None)"

definition is_tm_updated :: "rtc_time \<Rightarrow> rtc_time \<Rightarrow> bool" where
  "is_tm_updated pretm newtm =
     (\<not> (tm_sec pretm = tm_sec newtm \<and> tm_min pretm = tm_min newtm \<and> tm_hour pretm = tm_hour newtm \<and>
         tm_mday pretm = tm_mday newtm \<and> tm_mon pretm = tm_mon newtm \<and> tm_year pretm = tm_year newtm))"

definition is_file_tm_updated :: "string \<Rightarrow> rtc_time \<Rightarrow> fsys \<Rightarrow> bool \<times> rtc_time" where
  "is_file_tm_updated filename pretm fs =
     (case get_file_mftime filename fs of
        Some tm \<Rightarrow> if is_tm_updated pretm tm then (True, tm) else (False, pretm)
      | None \<Rightarrow> (False, pretm))"

section \<open>Copying, encoding, decoding\<close>

text \<open>On the device a \<open>char\<close> is unsigned, on the PC that decodes it is signed.\<close>

definition enc_char :: "int \<Rightarrow> char \<Rightarrow> char" where
  "enc_char step_size c =
     (let temp = (int (of_char c) + step_size) mod 256 in
      if temp > 0 \<and> temp < 127 then char_of (nat temp) else c)"

definition mem_encode :: "int \<Rightarrow> string \<Rightarrow> string" where
  "mem_encode step_size s = map (enc_char step_size) s"

definition schar :: "int \<Rightarrow> int" where
  "schar i = (i + 128) mod 256 - 128"

definition dec_char :: "int \<Rightarrow> char \<Rightarrow> char" where
  "dec_char step_size c =
     (let temp = schar (schar (int (of_char c)) + step_size) in
      if temp > 0 \<and> temp < 127 then char_of (nat temp) else c)"

definition mem_decode :: "int \<Rightarrow> string \<Rightarrow> string" where
  "mem_decode step_size s = map (dec_char step_size) s"

text \<open>The output is opened in append mode.\<close>

definition decode_one_file :: "string \<Rightarrow> string \<Rightarrow> fsys \<Rightarrow> bool \<times> fsys" where
  "decode_one_file inputfile outputfile fs =
     (case content fs inputfile of
        None \<Rightarrow> (False, fs)
      | Some s \<Rightarrow>
          if s = [] then (False, fs)
          else (True,
            if wr_ok fs outputfile
            then put_file outputfile ((case content fs outputfile of None \<Rightarrow> [] | Some t \<Rightarrow> t) @ mem_decode (-1) s) fs
            else fs))"

text \<open>
  The target is opened, and emptied, before the source is read.  When that fails, the target is
  removed through the shell and opened again; \<open>retry\<close> says whether that succeeds.
\<close>

definition copy_file :: "bool \<Rightarrow> (nat \<Rightarrow> bool) \<Rightarrow> string \<Rightarrow> string \<Rightarrow> bool \<Rightarrow> fsys \<Rightarrow> bool \<times> fsys" where
  "copy_file retry alloc src dst encode fs =
     (if \<not> is_file_exist src fs then (False, fs)
      else
        let fs1 = (if wr_ok fs dst then fs else run_shell (Rm dst) fs) in
        if \<not> wr_ok fs dst \<and> \<not> retry then (False, fs1)
        else
          let fs2 = put_file dst [] fs1;
              str = the (content fs2 src)
          in if \<not> alloc (length str) then (False, fs2)
             else (True, put_file dst (if encode then mem_encode 1 str else str) fs2))"

definition fs_copy_file where
  "fs_copy_file retry alloc src dst = copy_file retry alloc src dst False"
definition fs_copy_file_encode where
  "fs_copy_file_encode retry alloc src dst = copy_file retry alloc src dst True"

section \<open>Log files\<close>

definition MEM_SIZE_1_MB :: u32 where "MEM_SIZE_1_MB = 0x00100000"

definition str_warn :: string where
  "str_warn = ''============have_cleard============='' @ [CHR 0x0A, CHR 0x0A]"

text \<open>The part after the label \<open>again\<close>: \<open>trunc\<close> and \<open>cleard\<close> are set by the jump back.\<close>

partial_function (option) amend_again ::
  "string \<Rightarrow> string \<Rightarrow> int \<Rightarrow> bool \<Rightarrow> fsys \<Rightarrow> (int \<times> fsys) option" where
  "amend_again file2amend str_append file_limit cleard fs =
     (if \<not> wr_ok fs file2amend then Some (-1, fs)
      else
        let old = (if cleard then [] else case content fs file2amend of None \<Rightarrow> [] | Some t \<Rightarrow> t);
            fs1 = (if cleard \<or> content fs file2amend = None then put_file file2amend [] fs else fs);
            file_len = (of_nat (length old) + 1 :: u32)
        in if file_len > of_int file_limit * MEM_SIZE_1_MB
           then amend_again file2amend str_append file_limit True fs1
           else Some (1, put_file file2amend (old @ (if cleard then str_warn else []) @ str_append) fs1))"

definition bfs_file_amend ::
  "int \<Rightarrow> string \<Rightarrow> string option \<Rightarrow> int \<Rightarrow> fsys \<Rightarrow> (int \<times> fsys) option" where
  "bfs_file_amend max_file_len file2amend str_append file_limit_M fs =
     (case str_append of
        None \<Rightarrow> Some (-1, fs)
      | Some s \<Rightarrow>
          amend_again file2amend s (if file_limit_M > max_file_len then file_limit_M else max_file_len) False fs)"

text \<open>\<open>msg\<close>: the formatted text, put into \<open>str_append[768]\<close> or \<open>[256]\<close> on the stack.\<close>

definition fs_string2file where
  "fs_string2file max_file_len file_limit_M filename msg fs =
     (if length msg < 768 then Inr (bfs_file_amend max_file_len filename (Some msg) file_limit_M fs)
      else Inl BufOverrun)"

definition LIDBG_MEM_LOG_FILE :: string where "LIDBG_MEM_LOG_FILE = ''/dev/log/lidbg_log.txt''"
definition LIDBG_KMSG_FILE_PATH :: string where "LIDBG_KMSG_FILE_PATH = ''/data/lidbg/lidbg_kmsg.txt''"

definition fs_mem_log where
  "fs_mem_log max_file_len msg fs =
     (if length msg < 256
      then Inr (map_option (\<lambda>(_, fs'). (1 :: int, fs')) (bfs_file_amend max_file_len LIDBG_MEM_LOG_FILE (Some msg) 0 fs))
      else Inl BufOverrun)"

text \<open>\<open>remountd\<close> is the static flag of \<open>remount_system\<close>.\<close>

definition remount_system :: "bool \<Rightarrow> fsys \<Rightarrow> bool \<times> fsys" where
  "remount_system remountd fs =
     (if remountd then (True, fs)
      else (True, fold run_shell
        [Chmod ''/system/bin/mount'', Mount ''/system'', Mount ''/flysystem'', Chmod ''/system'', Chmod ''/flysystem'',
         Chmod ''/system/bin'', Chmod ''/flysystem/bin'', Chmod ''/system/lib/hw'', Chmod ''/flysystem/lib/hw'',
         Chmod ''/flysystem/lib/out''] fs))"

definition chmod_for_apk :: "bool \<Rightarrow> fsys \<Rightarrow> bool \<times> fsys" where
  "chmod_for_apk remountd fs =
     (let (r, fs1) = remount_system remountd fs in
      (r, fold run_shell [Chmod ''/system/bin/mount'', Mount ''/system'', Chmod ''/data'', Chmod ''/system/app''] fs1))"

definition fs_remove_apk :: "fsys \<Rightarrow> fsys" where
  "fs_remove_apk fs = fold run_shell [Rm ''/system/app/fileserver.apk'', Rm ''/system/app/aw_dbg.apk''] fs"

definition clean_all :: "fsys \<Rightarrow> fsys" where
  "clean_all fs = run_shell (Rmdir ''/data/lidbg/'') (fs_remove_apk fs)"

section \<open>Copy lists\<close>

definition analysis_copylist :: "bool \<Rightarrow> (nat \<Rightarrow> bool) \<Rightarrow> string \<Rightarrow> bool \<Rightarrow> fsys \<Rightarrow> int \<times> bool \<times> fsys" where
  "analysis_copylist retry alloc copy_list remountd fs =
     (case content fs copy_list of
        None \<Rightarrow> (-1, remountd, fs)
      | Some body \<Rightarrow>
          let (r, fs1) = remount_system remountd fs in
          if \<not> alloc (length body + 1) \<or> body = [] then (-1, r, fs1)
          else (1, r, fold (\<lambda>token f.
                 if take 1 token \<noteq> ''#'' then
                   (case strsep ''='' token of
                      (src, Some dst) \<Rightarrow> snd (fs_copy_file retry alloc src dst f)
                    | _ \<Rightarrow> f)
                 else f) (strsep_all [CHR 0x0A] (c_string body)) fs1))"

definition update_ko ::
  "bool \<Rightarrow> (nat \<Rightarrow> bool) \<Rightarrow> string \<Rightarrow> string \<Rightarrow> string \<Rightarrow> bool \<Rightarrow> fsys \<Rightarrow> fault + (int \<times> bool \<times> fsys)" where
  "update_ko retry alloc ko_list fromdir todir remountd fs =
     (case content fs ko_list of
        None \<Rightarrow> Inr (-1, remountd, fs)
      | Some body \<Rightarrow>
          let (r, fs1) = remount_system remountd fs in
          if \<not> alloc (length body + 1) \<or> body = [] then Inr (-1, r, fs1)
          else bindE (foldE (\<lambda>token f.
                 if take 1 token \<noteq> ''#'' \<and> 2 < length token then
                   bindE (sprintf_to (fromdir @ ''/'' @ token) (replicate 256 (CHR 0x00))) (\<lambda>file_from.
                   bindE (sprintf_to (todir @ ''/'' @ token) (replicate 256 (CHR 0x00))) (\<lambda>file_to.
                   Inr (snd (fs_copy_file retry alloc (c_string file_from) (c_string file_to) f))))
                 else Inr f) (strsep_all [CHR 0x0A] (c_string body)) fs1) (\<lambda>fs2. Inr (1, r, fs2)))"

section \<open>Watching files\<close>

record filedetec_dev =
  filedetec :: string
  cb_filedetec :: nat
  is_warned :: bool

definition is_file_registerd :: "string \<Rightarrow> filedetec_dev list \<Rightarrow> bool" where
  "is_file_registerd filename l = list_ex (\<lambda>pos. filedetec pos = filename) l"

definition regist_filedetec :: "string \<Rightarrow> nat \<Rightarrow> filedetec_dev list \<Rightarrow> filedetec_dev list" where
  "regist_filedetec filename cb l =
     (if \<not> is_file_registerd filename l
      then \<lparr>filedetec = filename, cb_filedetec = cb, is_warned = False\<rparr> # l else l)"

definition filedetec_entry :: "fsys \<Rightarrow> filedetec_dev \<Rightarrow> (nat \<times> string) list \<times> filedetec_dev" where
  "filedetec_entry fs pos =
     (if is_file_exist (filedetec pos) fs
      then (if \<not> is_warned pos then [(cb_filedetec pos, filedetec pos)] else [], pos\<lparr>is_warned := True\<rparr>)
      else ([], pos\<lparr>is_warned := False\<rparr>))"

text \<open>One round of the thread: the callbacks run, and the list.\<close>

definition call_filedetec_cb :: "fsys \<Rightarrow> filedetec_dev list \<Rightarrow> (nat \<times> string) list \<times> filedetec_dev list" where
  "call_filedetec_cb fs l = (concat (map (fst \<circ> filedetec_entry fs) l), map (snd \<circ> filedetec_entry fs) l)"

definition pad2 :: "int \<Rightarrow> string" where
  "pad2 i = (if 0 \<le> i \<and> i < 10 then ''0'' @ show_int i else show_int i)"

definition get_file_tmstring :: "string \<Rightarrow> fsys \<Rightarrow> string option" where
  "get_file_tmstring filename fs =
     map_option (\<lambda>tm. show_int (tm_year tm + 1900) @ ''-'' @ pad2 (tm_mon tm + 1) @ ''-'' @ pad2 (tm_mday tm) @ '' '' @
       pad2 (tm_hour tm + 8) @ '':'' @ pad2 (tm_min tm) @ '':'' @ pad2 (tm_sec tm)) (get_file_mftime filename fs)"

definition fs_is_file_updated :: "int \<Rightarrow> string \<Rightarrow> string \<Rightarrow> fsys \<Rightarrow> (bool \<times> fsys) option" where
  "fs_is_file_updated max_file_len filename infofile fs =
     (let news = (case get_file_tmstring filename fs of None \<Rightarrow> [] | Some s \<Rightarrow> s);
          pres = (case fs_file_read infofile 64 fs of None \<Rightarrow> [] | Some s \<Rightarrow> s)
      in if fs_get_file_size infofile fs > 0 \<and> pres \<noteq> [] \<and> news = c_string pres then Some (False, fs)
         else map_option (\<lambda>(_, fs'). (True, fs'))
           (bfs_file_amend max_file_len infofile (Some news) 0 (snd (clear_file infofile fs))))"

section \<open>The list of files to copy\<close>

record fs_filename_item =
  filename :: string
  remove_after_copy :: bool

definition register_filename_list ::
  "bool \<Rightarrow> string \<Rightarrow> bool \<Rightarrow> fs_filename_item list \<Rightarrow> bool \<times> fs_filename_item list" where
  "register_filename_list alloc name rm l =
     (if list_ex (\<lambda>pos. filename pos = name) l then (False, l)
      else if \<not> alloc then (False, l)
      else (True, \<lparr>filename = name, remove_after_copy = rm\<rparr> # l))"

text \<open>\<open>strrchr(s, '/') + 1\<close>\<close>

definition base_name :: "string \<Rightarrow> string option" where
  "base_name s = (if CHR ''/'' \<in> set s then Some (rev (takeWhile (\<lambda>c. c \<noteq> CHR ''/'') (rev s))) else None)"

definition cp_one :: "bool \<Rightarrow> (nat \<Rightarrow> bool) \<Rightarrow> bool \<Rightarrow> string \<Rightarrow> fs_filename_item \<Rightarrow> fsys \<Rightarrow> fault + fsys" where
  "cp_one retry alloc encode dir pos fs =
     bindE (case base_name (filename pos) of
              None \<Rightarrow> Inr fs
            | Some file \<Rightarrow>
                bindE (sprintf_to (dir @ ''/'' @ file) (replicate 128 (CHR 0x00))) (\<lambda>tbuff.
                Inr (snd (copy_file retry alloc (filename pos) (c_string tbuff) encode fs)))) (\<lambda>fs1.
     Inr (if remove_after_copy pos then run_shell (Rm (filename pos)) fs1 else fs1))"

definition cp_data_to_udisk ::
  "bool \<Rightarrow> (nat \<Rightarrow> bool) \<Rightarrow> string \<Rightarrow> int \<Rightarrow> bool \<Rightarrow> fs_filename_item list \<Rightarrow> fsys \<Rightarrow> fault + fsys" where
  "cp_data_to_udisk retry alloc now machine_id encode l fs =
     (if l = [] then Inr fs
      else bindE (sprintf_to (''/mnt/usbdisk/ID'' @ show_int machine_id @ ''-'' @ now) (replicate 128 (CHR 0x00))) (\<lambda>dir.
        foldE (cp_one retry alloc encode (c_string dir)) l (run_shell (Mkdir (c_string dir)) fs)))"

section \<open>Configuration at boot and at run time\<close>

definition build_time_fly_path :: string where "build_time_fly_path = ''/flysystem/lib/out/build_time.conf''"
definition build_time_lidbg_path :: string where "build_time_lidbg_path = ''/system/lib/modules/out/build_time.conf''"
definition build_time_sd_path :: string where "build_time_sd_path = ''/data/lidbg/build_time.txt''"
definition PRE_CONF_INFO_FILE :: string where "PRE_CONF_INFO_FILE = ''/data/lidbg/conf_info.txt''"
definition MACHINE_ID_FILE :: string where "MACHINE_ID_FILE = ''/data/lidbg/MIF.txt''"
definition sd_path :: "string \<Rightarrow> string" where "sd_path n = ''/data/lidbg/'' @ n @ ''.txt''"
definition fly_path :: "string \<Rightarrow> string" where "fly_path n = ''/flysystem/lib/out/'' @ n @ ''.conf''"
definition lidbg_path :: "string \<Rightarrow> string" where "lidbg_path n = ''/system/lib/modules/out/'' @ n @ ''.conf''"

definition is_fly_system :: "fsys \<Rightarrow> bool" where
  "is_fly_system fs = is_file_exist build_time_fly_path fs"

definition copy_all_conf_file :: "bool \<Rightarrow> (nat \<Rightarrow> bool) \<Rightarrow> fsys \<Rightarrow> fsys" where
  "copy_all_conf_file retry alloc fs =
     (let cp = (\<lambda>(src, dst) f. snd (fs_copy_file retry alloc src dst f)) in
      if is_fly_system fs
      then fold cp ((build_time_fly_path, build_time_sd_path) #
             map (\<lambda>n. (fly_path n, sd_path n)) [''core'', ''drivers'', ''state'', ''cmd'']) fs
      else fold cp ((build_time_lidbg_path, build_time_sd_path) #
             map (\<lambda>n. (lidbg_path n, sd_path n)) [''core'', ''drivers'', ''state'', ''cmd'']) fs)"

text \<open>The result says whether the configuration was overwritten (\<open>is_out_updated\<close>).\<close>

definition check_conf_file ::
  "bool \<Rightarrow> (nat \<Rightarrow> bool) \<Rightarrow> int \<Rightarrow> bool \<Rightarrow> fsys \<Rightarrow> fault + (bool \<times> fsys) option" where
  "check_conf_file retry alloc max_file_len remountd fs =
     bindO (Inr (fs_is_file_updated max_file_len build_time_fly_path PRE_CONF_INFO_FILE fs)) (\<lambda>(updated, fs1).
     let sizes = map (\<lambda>f. fs_get_file_size f fs1)
           [sd_path ''drivers'', sd_path ''core'', sd_path ''state'', PRE_CONF_INFO_FILE];
         msg = ''<check_conf_file:'' @
           join (CHR '','') (map show_int ((if updated then 1 else 0) # sizes)) @ ''>'' @ [CHR 0x0A]
     in bindO (fs_mem_log max_file_len msg fs1) (\<lambda>(_, fs2).
     if updated \<or> list_ex (\<lambda>n. n < 1) sizes then
       bindO (fs_mem_log max_file_len (''<overwrite:push,update?>'' @ [CHR 0x0A]) fs2) (\<lambda>(_, fs3).
       let (r, fs4) = remount_system remountd fs3;
           (_, r', fs5) = analysis_copylist retry alloc ''/flysystem/lib/out/copylist.conf'' r fs4;
           fs6 = copy_all_conf_file retry alloc fs5
       in Inr (Some (True, fold run_shell
            [Rm ''/data/kmsg.txt'', Rm LIDBG_KMSG_FILE_PATH, Rm ''/data/lidbg/lidbg_mem_log.txt'',
             Rm ''/data/lidbg/fs_msg_fifo.txt'', Rm ''/data/lidbg/lidbg_trace_msg.txt''] fs6)))
     else Inr (Some (False, fs2))))"

text \<open>\<open>launch_file_cmd\<close>: a line \<open><digit>c \<dots>\<close> is written that many times to the console node; the
  commands written are returned.\<close>

definition cmd_of_line :: "string \<Rightarrow> string list" where
  "cmd_of_line token =
     (case token of
        c0 # CHR ''c'' # rest \<Rightarrow>
          if c0 \<noteq> CHR ''#'' \<and> c0 \<noteq> CHR ''0'' then replicate (unat (simple_strtoul [c0])) (CHR ''c'' # rest) else []
      | _ \<Rightarrow> [])"

definition launch_file_cmd :: "bool \<Rightarrow> string option \<Rightarrow> int \<times> string list" where
  "launch_file_cmd alloc file =
     (case file of
        None \<Rightarrow> (-1, [])
      | Some body \<Rightarrow>
          if \<not> alloc \<or> body = [] then (-1, [])
          else (1, concat (map cmd_of_line (strsep_all [CHR 0x0A] (c_string body)))))"

text \<open>\<open>junk\<close>: the uninitialised \<open>string[64]\<close>, which is written to an existing id file instead of being
  read from it; \<open>rnd\<close>: the random bytes for a new one.\<close>

definition set_machine_id :: "int \<Rightarrow> string \<Rightarrow> u32 \<Rightarrow> fsys \<Rightarrow> (u32 \<times> fsys) option" where
  "set_machine_id max_file_len junk rnd fs =
     (if is_file_exist MACHINE_ID_FILE fs
      then Some (simple_strtoul junk, snd (fs_file_write MACHINE_ID_FILE (Some junk) fs))
      else
        let machine_id = (if 0 \<le> sint rnd then rnd else - rnd) in
        map_option (\<lambda>(_, fs'). (machine_id, fs'))
          (bfs_file_amend max_file_len MACHINE_ID_FILE (Some (show_int (sint machine_id))) 0 fs))"

section \<open>Encoding\<close>

lemma put_file_simps [simp]:
  "content (put_file f s fs) = (content fs)(f \<mapsto> s)" "mtime (put_file f s fs) = (mtime fs)(f := clock fs)"
  "clock (put_file f s fs) = clock fs" "wr_ok (put_file f s fs) = wr_ok fs"
  "shell_cmds (put_file f s fs) = shell_cmds fs"
  by (simp_all add: put_file_def)

lemma run_shell_simps [simp]:
  "content (run_shell c fs) = content fs" "mtime (run_shell c fs) = mtime fs"
  "wr_ok (run_shell c fs) = wr_ok fs" "shell_cmds (run_shell c fs) = shell_cmds fs @ [c]"
  by (simp_all add: run_shell_def)

definition kept :: "char \<Rightarrow> bool" where
  "kept c \<longleftrightarrow> of_char c \<notin> {0 :: nat, 126, 127}"

lemma code_char_of: "n < 256 \<Longrightarrow> of_char (char_of n :: char) = (n :: nat)"
  by (simp add: take_bit_eq_mod)

lemma code_eq: "c = d \<longleftrightarrow> of_char c = (of_char d :: nat)"
  by simp

lemma schar_simps:
  "- 128 \<le> i \<Longrightarrow> i < 128 \<Longrightarrow> schar i = i" "128 \<le> i \<Longrightarrow> i < 256 \<Longrightarrow> schar i = i - 256" "schar (- 129) = 127"
proof -
  show "schar i = i" if "- 128 \<le> i" "i < 128" using that by (simp add: schar_def)
  show "schar i = i - 256" if "128 \<le> i" "i < 256"
  proof -
    have "(i + 128) mod 256 = (i - 128 + 256) mod 256" by (simp add: add.commute)
    also have "\<dots> = i - 128" using that by (simp only: mod_add_self2) simp
    finally show ?thesis by (simp add: schar_def)
  qed
  show "schar (- 129) = 127" by (simp add: schar_def)
qed

lemma enc_code: "of_char (enc_char 1 c) = (if of_char c < (126 :: nat) then of_char c + 1 else of_char c :: nat)"
proof -
  define n where "n = (of_char c :: nat)"
  have n: "n < 256" unfolding n_def by (rule nat_of_char_less_256)
  then have "(int n + 1) mod 256 = (if n = 255 then 0 else int n + 1)" by (cases "n = 255") auto
  then have "enc_char 1 c = (if n < 126 then char_of (n + 1) else c)"
    using n by (auto simp: enc_char_def nat_add_distrib simp flip: n_def)
  then show ?thesis using n by (simp add: code_char_of del: of_char_of flip: n_def)
qed

lemma dec_code: "of_char (dec_char (-1) c) = (if (2 :: nat) \<le> of_char c \<and> of_char c \<le> (127 :: nat) then of_char c - 1 else of_char c :: nat)"
proof -
  define n where "n = (of_char c :: nat)"
  have n: "n < 256" unfolding n_def by (rule nat_of_char_less_256)
  then consider "n < 128" | "n = 128" | "128 < n" by linarith
  then have "schar (schar (int n) + -1) = (if n < 128 then int n - 1 else if n = 128 then 127 else int n - 257)"
    using n by cases (simp_all add: schar_simps)
  then have "dec_char (-1) c = (if 2 \<le> n \<and> n \<le> 127 then char_of (n - 1) else c)"
    using n by (auto simp: dec_char_def nat_diff_distrib simp flip: n_def)
  then show ?thesis using n by (simp add: code_char_of del: of_char_of flip: n_def)
qed

lemma dec_enc_char: "dec_char (-1) (enc_char 1 c) = c \<longleftrightarrow> kept c"
  unfolding code_eq [of _ c] dec_code enc_code kept_def by auto

lemma decode_encode: "mem_decode (-1) (mem_encode 1 s) = s \<longleftrightarrow> list_all kept s"
  by (induction s) (simp_all add: mem_decode_def mem_encode_def dec_enc_char)

section \<open>Appending\<close>

lemma limit_bytes: "0 < L \<Longrightarrow> L < 2048 \<Longrightarrow> unat (of_int L * MEM_SIZE_1_MB) = nat L * 1048576"
proof -
  assume L: "0 < L" "L < 2048"
  then have "of_int L * MEM_SIZE_1_MB = (of_nat (nat L * 1048576) :: u32)" by (simp add: MEM_SIZE_1_MB_def)
  moreover have "unat (of_nat k :: u32) = k" if "k < 2 ^ 32" for k using that by (simp add: unat_of_nat)
  moreover have "nat L * 1048576 < 2 ^ 32" using L by simp
  ultimately show ?thesis by metis
qed

lemma amend_again_once:
  assumes "wr_ok fs f" and "0 < L" and "L < 2048"
  shows "amend_again f s L True fs = Some (1, put_file f (str_warn @ s) (put_file f [] fs))"
proof -
  have "\<not> (1 :: u32) > of_int L * MEM_SIZE_1_MB" using assms(2) limit_bytes [OF assms(2,3)] by (simp add: word_less_nat_alt)
  then show ?thesis using assms(1) by (subst amend_again.simps) (simp add: Let_def)
qed

definition old_text :: "string \<Rightarrow> fsys \<Rightarrow> string" where
  "old_text f fs = (case content fs f of None \<Rightarrow> [] | Some t \<Rightarrow> t)"

lemma unat_len: "n < 2 ^ 32 - 1 \<Longrightarrow> unat (of_nat n + 1 :: u32) = n + 1"
proof -
  assume n: "n < 2 ^ 32 - 1"
  have "of_nat n + 1 = (of_nat (n + 1) :: u32)" by simp
  moreover have "unat (of_nat (n + 1) :: u32) = n + 1" using n by (simp only: unat_of_nat) simp
  ultimately show ?thesis by metis
qed

lemma amend_zero_returns:
  "amend_again f s L c fs = Some y \<Longrightarrow> L = 0 \<longrightarrow> (c \<or> length (old_text f fs) < 2 ^ 32 - 1) \<longrightarrow> \<not> wr_ok fs f"
proof (rule amend_again.raw_induct [where P = "\<lambda>f s L c fs y. L = 0 \<longrightarrow> (c \<or> length (old_text f fs) < 2 ^ 32 - 1) \<longrightarrow> \<not> wr_ok fs f"])
  fix g f s L c fs y
  assume IH: "\<And>f s L c fs y. g f s L c fs = Some y \<Longrightarrow> L = 0 \<longrightarrow> (c \<or> length (old_text f fs) < 2 ^ 32 - 1) \<longrightarrow> \<not> wr_ok fs f"
    and body: "(if \<not> wr_ok fs f then Some (-1, fs)
      else
        let old = (if c then [] else case content fs f of None \<Rightarrow> [] | Some t \<Rightarrow> t);
            fs1 = (if c \<or> content fs f = None then put_file f [] fs else fs);
            file_len = (of_nat (length old) + 1 :: u32)
        in if file_len > of_int L * MEM_SIZE_1_MB then g f s L True fs1
           else Some (1, put_file f (old @ (if c then str_warn else []) @ s) fs1)) = Some y"
  show "L = 0 \<longrightarrow> (c \<or> length (old_text f fs) < 2 ^ 32 - 1) \<longrightarrow> \<not> wr_ok fs f"
  proof (intro impI notI)
    assume L: "L = 0" and len: "c \<or> length (old_text f fs) < 2 ^ 32 - 1" and wr: "wr_ok fs f"
    let ?old = "if c then [] else old_text f fs" and ?fs1 = "if c \<or> content fs f = None then put_file f [] fs else fs"
    have "unat (of_nat (length ?old) + 1 :: u32) = length ?old + 1" using len by (intro unat_len) auto
    then have pos: "(of_nat (length ?old) + 1 :: u32) > of_int L * MEM_SIZE_1_MB"
      unfolding L word_less_nat_alt by simp
    have "g f s L True ?fs1 = Some y"
      using body wr pos unfolding Let_def old_text_def [symmetric] by simp
    from IH [OF this] L wr show False by (simp split: if_splits)
  qed
qed

lemma amend_again_first:
  assumes "wr_ok fs f" and "0 < L" and "L < 2048" and "length (old_text f fs) < 2 ^ 32 - 1"
  shows "\<exists>fs'. amend_again f s L False fs = Some (1, fs') \<and> wr_ok fs' = wr_ok fs \<and>
    content fs' = (content fs)(f \<mapsto> (if length (old_text f fs) < nat L * 1048576 then old_text f fs @ s else str_warn @ s))"
proof -
  let ?fs1 = "if content fs f = None then put_file f [] fs else fs"
  have big: "(of_nat (length (old_text f fs)) + 1 :: u32) > of_int L * MEM_SIZE_1_MB \<longleftrightarrow>
      \<not> length (old_text f fs) < nat L * 1048576"
    unfolding word_less_nat_alt unat_len [OF assms(4)] limit_bytes [OF assms(2,3)] by auto
  have "amend_again f s L False fs =
      (if length (old_text f fs) < nat L * 1048576 then Some (1, put_file f (old_text f fs @ s) ?fs1)
       else amend_again f s L True ?fs1)"
    using assms(1) big by (subst amend_again.simps) (simp add: Let_def old_text_def [symmetric])
  also have "\<dots> = (if length (old_text f fs) < nat L * 1048576 then Some (1, put_file f (old_text f fs @ s) ?fs1)
       else Some (1, put_file f (str_warn @ s) (put_file f [] ?fs1)))"
    using amend_again_once [of ?fs1 f L s] assms(1-3) by simp
  finally show ?thesis by (auto simp: fun_eq_iff)
qed

lemma amend_again_clean:
  assumes "wr_ok fs f" and "content fs f = Some []" and "0 < L" and "L < 2048"
  shows "amend_again f s L False fs = Some (1, put_file f s fs)"
proof -
  have "\<not> (1 :: u32) > of_int L * MEM_SIZE_1_MB"
    using limit_bytes [OF assms(3,4)] assms(3) by (simp add: word_less_nat_alt)
  with assms(1,2) show ?thesis by (subst amend_again.simps) (simp add: Let_def)
qed

lemma amend_returns:
  assumes "0 < L" and "L < 2048"
  shows "\<exists>x fs'. amend_again f s L c fs = Some (x, fs')"
proof -
  have cleared: "\<exists>x fs'. amend_again f s L True fs = Some (x, fs')" for fs
  proof (cases "wr_ok fs f")
    case True
    then show ?thesis using amend_again_once [OF _ assms, of fs f s] by simp
  next
    case False
    then show ?thesis by (subst amend_again.simps) simp
  qed
  show ?thesis
    using cleared [of "if c \<or> content fs f = None then put_file f [] fs else fs"]
    by (subst amend_again.simps) (simp add: Let_def)
qed

text \<open>With a positive limit the functions that write a line of a log return.\<close>

lemma fs_string2file_returns:
  "length msg < 768 \<Longrightarrow> 0 < L \<Longrightarrow> L < 2048 \<Longrightarrow> l < 2048 \<Longrightarrow> \<exists>x fs'. fs_string2file L l f msg fs = Inr (Some (x, fs'))"
  using amend_returns [of "if l > L then l else L" f msg False fs] by (auto simp: fs_string2file_def bfs_file_amend_def)

lemma fs_mem_log_returns:
  "length msg < 256 \<Longrightarrow> 0 < L \<Longrightarrow> L < 2048 \<Longrightarrow> \<exists>x fs'. fs_mem_log L msg fs = Inr (Some (x, fs'))"
  using amend_returns [of L LIDBG_MEM_LOG_FILE msg False fs] by (auto simp: fs_mem_log_def bfs_file_amend_def)

section \<open>Polling\<close>

primrec polls :: "fsys list \<Rightarrow> filedetec_dev list \<Rightarrow> (nat \<times> string) list list" where
  "polls [] l = []"
| "polls (fs # fss) l = fst (call_filedetec_cb fs l) # polls fss (snd (call_filedetec_cb fs l))"

fun rising :: "bool \<Rightarrow> bool list \<Rightarrow> bool list" where
  "rising before [] = []"
| "rising before (b # bs) = (b \<and> \<not> before) # rising b bs"

lemma polls_entry:
  "polls fss [pos] = map (\<lambda>r. if r then [(cb_filedetec pos, filedetec pos)] else [])
     (rising (is_warned pos) (map (is_file_exist (filedetec pos)) fss))"
proof (induction fss arbitrary: pos)
  case (Cons fs fss)
  then show ?case by (auto simp: call_filedetec_cb_def filedetec_entry_def)
qed simp

lemma polls_append:
  "polls fss (l1 @ l2) = map2 (@) (polls fss l1) (polls fss l2)"
  by (induction fss arbitrary: l1 l2) (simp_all add: call_filedetec_cb_def)

lemma length_polls [simp]: "length (polls fss l) = length fss"
  by (induction fss arbitrary: l) simp_all

section \<open>Properties\<close>

text \<open>Appending to a log file that can be opened always ends when the size limit is between 1 and
  2047 MB: the text is appended while the file is smaller than the limit, else the file starts
  again with the notice and the text.  With the limit configured as 0 the call never returns.\<close>

theorem bfs_file_amend_appends:
  assumes "wr_ok fs f" and "length (old_text f fs) < 2 ^ 32 - 1" and "0 \<le> max_file_len"
    and "max file_limit_M max_file_len < 2048"
  shows "if max file_limit_M max_file_len = 0
    then bfs_file_amend max_file_len f (Some s) file_limit_M fs = None
    else \<exists>fs'. bfs_file_amend max_file_len f (Some s) file_limit_M fs = Some (1, fs') \<and>
      content fs' = (content fs)(f \<mapsto>
        (if length (old_text f fs) < nat (max file_limit_M max_file_len) * 1048576
         then old_text f fs @ s else str_warn @ s))"
proof -
  let ?L = "max file_limit_M max_file_len"
  have b: "bfs_file_amend max_file_len f (Some s) file_limit_M fs = amend_again f s ?L False fs"
    by (simp add: bfs_file_amend_def max_def)
  show ?thesis
  proof (cases "?L = 0")
    case True
    then have "amend_again f s ?L False fs = None"
      using amend_zero_returns [of f s ?L False fs] assms(1,2) by (cases "amend_again f s ?L False fs") auto
    with True b show ?thesis by simp
  next
    case False
    then have "0 < ?L" using assms(3) by linarith
    from amend_again_first [OF assms(1) this assms(4,2), of s] False b show ?thesis by auto
  qed
qed

definition example_fs :: fsys where
  "example_fs = \<lparr>content = [''a'' \<mapsto> ''xy''], mtime = (\<lambda>_. \<lparr>tm_sec = 1, tm_min = 2, tm_hour = 3, tm_mday = 4, tm_mon = 5, tm_year = 114\<rparr>),
     clock = \<lparr>tm_sec = 9, tm_min = 2, tm_hour = 3, tm_mday = 4, tm_mon = 5, tm_year = 114\<rparr>, wr_ok = (\<lambda>_. True), shell_cmds = []\<rparr>"

theorem bfs_file_amend_appends_witness:
  "\<exists>fs'. bfs_file_amend 1 ''a'' (Some ''z'') 0 example_fs = Some (1, fs') \<and> content fs' = [''a'' \<mapsto> ''xyz'']"
  using bfs_file_amend_appends [of example_fs "''a''" 1 0 "''z''"] by (simp add: example_fs_def old_text_def)

text \<open>A successful copy makes the target the source, byte for byte, and touches no other file.  A copy
  of a file onto itself loses it: the target is emptied before the source is read.\<close>

theorem copy_file_copies:
  assumes "is_file_exist src fs" and "wr_ok fs dst" and "\<forall>n. alloc n"
  shows "\<exists>fs'. fs_copy_file retry alloc src dst fs = (True, fs') \<and>
    content fs' = (content fs)(dst \<mapsto> (if src = dst then [] else the (content fs src)))"
  using assms by (auto simp: fs_copy_file_def copy_file_def Let_def)

theorem copy_file_copies_witness:
  "\<exists>fs'. fs_copy_file True (\<lambda>_. True) ''a'' ''b'' example_fs = (True, fs') \<and> content fs' ''b'' = Some ''xy''"
  using copy_file_copies [of "''a''" example_fs "''b''" "\<lambda>_. True" True] by (auto simp: example_fs_def is_file_exist_def)

text \<open>Files are encoded for the USB disk on the device and decoded on a PC.  Decoding restores a
  file exactly when it has no byte 0, 126 (tilde) or 127: these three are not inverted.\<close>

theorem encode_decode_file:
  assumes "content fs src = Some s" and "s \<noteq> []" and "distinct [src, mid, out]" and "content fs out = None"
    and "wr_ok fs mid" and "wr_ok fs out" and "\<forall>n. alloc n"
    and "fs_copy_file_encode retry alloc src mid fs = (ok, fs1)"
    and "decode_one_file mid out fs1 = (ok', fs2)"
  shows "content fs2 out = Some s \<longleftrightarrow> list_all kept s"
proof -
  have fs1: "content fs1 mid = Some (mem_encode 1 s)" "content fs1 out = None" "wr_ok fs1 = wr_ok fs"
    using assms(1,3-5,7,8) by (auto simp: fs_copy_file_encode_def copy_file_def is_file_exist_def Let_def)
  have "mem_encode 1 s \<noteq> []" using assms(2) by (simp add: mem_encode_def)
  then have "content fs2 out = Some (mem_decode (-1) (mem_encode 1 s))"
    using fs1 assms(6,9) by (auto simp: decode_one_file_def)
  then show ?thesis using decode_encode [of s] by simp
qed

theorem encode_decode_file_witness:
  "content (snd (decode_one_file ''b'' ''c'' (snd (fs_copy_file_encode True (\<lambda>_. True) ''a'' ''b'' example_fs)))) ''c'' = Some ''xy''"
  using encode_decode_file [of example_fs "''a''" "''xy''" "''b''" "''c''" "\<lambda>_. True" True,
      OF _ _ _ _ _ _ _ prod.collapse [symmetric] prod.collapse [symmetric]]
  by (simp add: example_fs_def kept_def)

text \<open>A watched file triggers its callback once each time it appears: over any sequence of polls, the
  callback of a registered file runs exactly at the polls where the file exists and did not exist
  at the poll before.\<close>

theorem filedetec_edge_triggered:
  assumes "\<not> is_file_registerd f l"
  shows "polls fss (regist_filedetec f cb l) =
    map2 (@) (map (\<lambda>r. if r then [(cb, f)] else []) (rising False (map (is_file_exist f) fss))) (polls fss l)"
  using assms polls_append [of fss "[\<lparr>filedetec = f, cb_filedetec = cb, is_warned = False\<rparr>]" l]
  by (simp add: regist_filedetec_def polls_entry cong: if_cong)

theorem filedetec_edge_triggered_witness:
  "polls [example_fs, example_fs, put_file ''n'' [] example_fs, put_file ''n'' [] example_fs, example_fs, put_file ''n'' [] example_fs]
     (regist_filedetec ''n'' 7 []) = [[], [], [(7, ''n'')], [], [], [(7, ''n'')]]"
  using filedetec_edge_triggered [of "''n''" "[]"
      "[example_fs, example_fs, put_file ''n'' [] example_fs, put_file ''n'' [] example_fs, example_fs, put_file ''n'' [] example_fs]" 7]
  by (simp add: is_file_registerd_def is_file_exist_def example_fs_def call_filedetec_cb_def)

text \<open>The check whether a file changed is settled by one call: after \<open>fs_is_file_updated\<close> has
  recorded the time stamp of an existing file, asking again answers no and changes nothing, as long
  as the stamp of the file stays the same.\<close>

theorem fs_is_file_updated_settles:
  assumes "get_file_tmstring f fs = Some news" and "f \<noteq> info" and "wr_ok fs info"
    and "0 < max_file_len" and "max_file_len < 2048" and "length news < 64" and "CHR 0x00 \<notin> set news"
    and "fs_is_file_updated max_file_len f info fs = Some (upd, fs')"
  shows "fs_is_file_updated max_file_len f info fs' = Some (False, fs')"
proof -
  have ne: "news \<noteq> []" using assms(1) by (auto simp: get_file_tmstring_def)
  let ?fs1 = "put_file info [] fs"
  show ?thesis
  proof (cases "upd")
    case False
    then have "fs' = fs" using assms(8) by (auto simp: fs_is_file_updated_def Let_def split: if_splits)
    with assms(8) False show ?thesis by simp
  next
    case True
    then have "map_option (\<lambda>(_, fs'). (True, fs')) (bfs_file_amend max_file_len info (Some news) 0 ?fs1) = Some (upd, fs')"
      using assms(1,3,8) by (auto simp: fs_is_file_updated_def clear_file_def Let_def split: if_splits)
    then obtain r where "amend_again info news max_file_len False ?fs1 = Some (r, fs')"
      using assms(4) by (auto simp: bfs_file_amend_def)
    then have fs': "fs' = put_file info news ?fs1"
      using amend_again_clean [of ?fs1 info max_file_len news] assms(3-5) by simp
    have "get_file_mftime f fs' = get_file_mftime f fs"
      using assms(2) by (simp add: fs' get_file_mftime_def is_file_exist_def)
    then have "get_file_tmstring f fs' = Some news" using assms(1) by (simp add: get_file_tmstring_def)
    moreover have "fs_file_read info 64 fs' = Some news" using assms(6) by (simp add: fs' fs_file_read_def)
    moreover have "fs_get_file_size info fs' > 0" using ne by (simp add: fs' fs_get_file_size_def)
    ultimately show ?thesis using ne assms(7) by (simp add: fs_is_file_updated_def c_string_id)
  qed
qed

theorem fs_is_file_updated_settles_witness:
  "\<exists>fs' upd. fs_is_file_updated 1 ''a'' ''i'' example_fs = Some (upd, fs') \<and>
     fs_is_file_updated 1 ''a'' ''i'' fs' = Some (False, fs')"
proof -
  let ?n = "''2014-06-04 11:02:01''"
  have d: "show_nat 2014 = ''2014''" "show_nat 6 = ''6''" "show_nat 4 = ''4''" "show_nat 11 = ''11''" "show_nat 2 = ''2''" "show_nat 1 = ''1''"
    by (simp_all add: show_nat.simps [of 2014] show_nat.simps [of 201] show_nat.simps [of 20] show_nat.simps [of 6]
        show_nat.simps [of 4] show_nat.simps [of 11] show_nat.simps [of 2] show_nat.simps [of "Suc 0"] char_of_def bit_0)
  have n: "get_file_tmstring ''a'' example_fs = Some ?n"
    by (simp add: get_file_tmstring_def get_file_mftime_def is_file_exist_def example_fs_def pad2_def show_int_def d d(6) [unfolded One_nat_def])
  have wr: "wr_ok example_fs ''i''" by (simp add: example_fs_def)
  have "\<exists>fs'. fs_is_file_updated 1 ''a'' ''i'' example_fs = Some (True, fs')"
    using amend_again_clean [of "put_file ''i'' [] example_fs" "''i''" 1 ?n] n wr
    by (simp add: fs_is_file_updated_def clear_file_def fs_get_file_size_def example_fs_def bfs_file_amend_def)
  then show ?thesis using fs_is_file_updated_settles [OF n _ wr, of 1] by auto
qed

end
