(* ===== verification/Gps_Nmea.thy ===== *)
theory Gps_Nmea
  imports Prelude
begin

text \<open>
  The GPS library that Android loads, \<^verbatim>\<open>hal/gpslib/gps_ublox.c\<close>: the NMEA tokenizer, the sentence
  parser with its line buffer, and the thread that feeds it.

  The pointers \<open>p\<close>, \<open>end\<close> of a \<open>Token\<close> become its text and the byte at \<open>p\<close>, which the parser reads
  even when the token is empty.  Floating point numbers, the calendar functions of the C library and the
  size of the satellite table in Android's headers are fields of the parameter \<open>'d gps_env\<close>: the
  parser only passes such values on.  The bits of \<open>fix.flags\<close> are a set of \<open>loc_flag\<close>.  What the
  library reports through its callbacks is collected in \<open>fixes_sent\<close>, \<open>sv_sent\<close>, \<open>status_sent\<close>.
  Every \<open>int\<close> that can overflow is cut to 32 bits with \<open>wrap32\<close>.
\<close>

section \<open>Tokenizer\<close>

record token =
  tok_text :: string
  tok_p0 :: char

definition MAX_NMEA_TOKENS :: nat where "MAX_NMEA_TOKENS = 32"
definition NMEA_MAX_SIZE :: nat where "NMEA_MAX_SIZE = 83"

text \<open>The part of the sentence between the optional dollar sign and the checksum.\<close>

definition nmea_payload :: "string \<Rightarrow> string" where
  "nmea_payload s =
     (let s1 = (if s \<noteq> [] \<and> hd s = CHR ''$'' then tl s else s);
          s2 = (if s1 \<noteq> [] \<and> last s1 = CHR 0x0A
                then (let b = butlast s1 in if b \<noteq> [] \<and> last b = CHR 0x0D then butlast b else b)
                else s1)
      in if 3 \<le> length s2 \<and> s2 ! (length s2 - 3) = CHR ''*'' then take (length s2 - 3) s2 else s2)"

function tok_loop :: "string \<Rightarrow> token list" where
  "tok_loop s =
     (if s = [] then []
      else case strsep '','' s of
        (t, None) \<Rightarrow> [\<lparr>tok_text = t, tok_p0 = hd s\<rparr>]
      | (t, Some r) \<Rightarrow> \<lparr>tok_text = t, tok_p0 = hd s\<rparr> # tok_loop r)"
  by pat_completeness auto
termination
  by (relation "measure length") (auto dest: strsep_shorter [OF sym])

declare tok_loop.simps [simp del]

definition nmea_tokenizer_init :: "string \<Rightarrow> token list" where
  "nmea_tokenizer_init s = take MAX_NMEA_TOKENS (tok_loop (nmea_payload s))"

definition nmea_tokenizer_get :: "token list \<Rightarrow> nat \<Rightarrow> token" where
  "nmea_tokenizer_get t index =
     (if index \<ge> length t then \<lparr>tok_text = [], tok_p0 = CHR 0x00\<rparr> else t ! index)"

section \<open>Numbers\<close>

fun str2int_loop :: "int \<Rightarrow> string \<Rightarrow> int" where
  "str2int_loop result [] = result"
| "str2int_loop result (c # s) =
     (let d = int (of_char c) - 48 in
      if 0 \<le> d \<and> d < 10 then str2int_loop (wrap32 (result * 10 + d)) s else -1)"

definition str2int :: "string \<Rightarrow> int" where
  "str2int s = str2int_loop 0 s"

record calendar =
  c_year :: int
  c_mon :: int
  c_day :: int
  c_hour :: int
  c_min :: int
  c_sec :: int

record 'd gps_env =
  strtod :: "string \<Rightarrow> 'd"
  fp_zero :: 'd
  fp_neg :: "'d \<Rightarrow> 'd"
  fp_knots :: "'d \<Rightarrow> 'd"
  fp_hundreds :: "'d \<Rightarrow> int"
  fp_minutes :: "'d \<Rightarrow> int \<Rightarrow> 'd"
  fp_to_int :: "'d \<Rightarrow> int"
  gmtime_now :: calendar
  utc_diff_now :: int
  mktime :: "calendar \<Rightarrow> int"
  gps_max_svs :: nat

text \<open>
  \<open>fp_hundreds v\<close> is \<open>(int)(floor(v) / 100)\<close>, \<open>fp_minutes v d\<close> is \<open>d + (v - d * 100.) / 60.0\<close>, \<open>fp_knots v\<close>
  is \<open>v * 0.5144\<close>.
\<close>

definition str2float :: "'d gps_env \<Rightarrow> string \<Rightarrow> 'd" where
  "str2float env s = (if length s \<ge> 16 then fp_zero env else strtod env s)"

definition convert_from_hhmm :: "'d gps_env \<Rightarrow> string \<Rightarrow> 'd" where
  "convert_from_hhmm env s =
     (let val = str2float env s; degrees = fp_hundreds env val in fp_minutes env val degrees)"

section \<open>The reader\<close>

datatype loc_flag = HAS_LAT_LONG | HAS_ALTITUDE | HAS_SPEED | HAS_BEARING | HAS_ACCURACY

record 'd location =
  flags :: "loc_flag set"
  latitude :: 'd
  longitude :: 'd
  altitude :: 'd
  speed :: 'd
  bearing :: 'd
  accuracy :: 'd
  timestamp :: int

record 'd sv_info =
  prn :: int
  snr :: 'd
  elevation :: 'd
  azimuth :: 'd

record 'd sv_status =
  num_svs :: nat
  sv_list :: "'d sv_info list"
  ephemeris_mask :: u32
  almanac_mask :: u32
  used_in_fix_mask :: u32

datatype gps_status = SESSION_BEGIN | ENGINE_OFF

record 'd nmea_reader =
  overflow :: bool
  utc_year :: int
  utc_mon :: int
  utc_day :: int
  utc_diff :: int
  fix_loc :: "'d location"
  sv :: "'d sv_status"
  fix_mask :: u32
  location_cb :: bool
  callbacks_set :: bool
  in_buf :: string
  cur_sv :: nat
  fixes_sent :: "'d location list"
  sv_sent :: "'d sv_status list"
  status_sent :: "gps_status list"

definition nmea_reader_update_utc_diff :: "'d gps_env \<Rightarrow> 'd nmea_reader \<Rightarrow> 'd nmea_reader" where
  "nmea_reader_update_utc_diff env r = r\<lparr>utc_diff := utc_diff_now env\<rparr>"

text \<open>All fields of the cleared structure, the satellite table included.\<close>

definition nmea_reader_init :: "'d gps_env \<Rightarrow> 'd nmea_reader" where
  "nmea_reader_init env =
     (let z = fp_zero env in
      nmea_reader_update_utc_diff env
        \<lparr>overflow = False, utc_year = -1, utc_mon = -1, utc_day = -1, utc_diff = 0,
         fix_loc = \<lparr>flags = {}, latitude = z, longitude = z, altitude = z, speed = z, bearing = z, accuracy = z, timestamp = 0\<rparr>,
         sv = \<lparr>num_svs = 0, sv_list = replicate (gps_max_svs env) \<lparr>prn = 0, snr = z, elevation = z, azimuth = z\<rparr>,
               ephemeris_mask = 0, almanac_mask = 0, used_in_fix_mask = 0\<rparr>,
         fix_mask = 0, location_cb = False, callbacks_set = False, in_buf = [], cur_sv = 0,
         fixes_sent = [], sv_sent = [], status_sent = []\<rparr>)"

definition nmea_reader_set_callback :: "bool \<Rightarrow> 'd nmea_reader \<Rightarrow> 'd nmea_reader" where
  "nmea_reader_set_callback cb r =
     (let r1 = r\<lparr>location_cb := cb\<rparr> in
      if cb \<and> flags (fix_loc r1) \<noteq> {}
      then r1\<lparr>fixes_sent := fixes_sent r1 @ [fix_loc r1], fix_loc := (fix_loc r1)\<lparr>flags := {}\<rparr>\<rparr>
      else r1)"

definition nmea_reader_update_time :: "'d gps_env \<Rightarrow> string \<Rightarrow> 'd nmea_reader \<Rightarrow> int \<times> 'd nmea_reader" where
  "nmea_reader_update_time env tok r =
     (if length tok < 6 then (-1, r)
      else
        let r1 = (if utc_year r < 0
                  then r\<lparr>utc_year := c_year (gmtime_now env) + 1900, utc_mon := c_mon (gmtime_now env) + 1,
                         utc_day := c_day (gmtime_now env)\<rparr>
                  else r);
            hour = str2int (take 2 tok);
            minute = str2int (take 2 (drop 2 tok));
            seconds = str2float env (drop 4 tok);
            tm = \<lparr>c_year = utc_year r1 - 1900, c_mon = utc_mon r1 - 1, c_day = utc_day r1,
                  c_hour = hour, c_min = minute, c_sec = fp_to_int env seconds\<rparr>;
            fix_time = wrap32 (mktime env tm + utc_diff r1)
        in (0, r1\<lparr>fix_loc := (fix_loc r1)\<lparr>timestamp := fix_time * 1000\<rparr>\<rparr>))"

definition nmea_reader_update_date :: "'d gps_env \<Rightarrow> string \<Rightarrow> string \<Rightarrow> 'd nmea_reader \<Rightarrow> int \<times> 'd nmea_reader" where
  "nmea_reader_update_date env tok time r =
     (if length tok \<noteq> 6 then (-1, r)
      else
        let day = str2int (take 2 tok);
            mon = str2int (take 2 (drop 2 tok));
            year = str2int (drop 4 tok) + 2000
        in if day < 0 \<or> mon < 0 \<or> year < 0 then (-1, r)
           else nmea_reader_update_time env time (r\<lparr>utc_year := year, utc_mon := mon, utc_day := day\<rparr>))"

definition nmea_reader_update_latlong ::
  "'d gps_env \<Rightarrow> string \<Rightarrow> char \<Rightarrow> string \<Rightarrow> char \<Rightarrow> 'd nmea_reader \<Rightarrow> int \<times> 'd nmea_reader" where
  "nmea_reader_update_latlong env lat latHemi lon lonHemi r =
     (if length lat < 6 then (-1, r)
      else
        let la = convert_from_hhmm env lat;
            la' = (if latHemi = CHR ''S'' then fp_neg env la else la)
        in if length lon < 6 then (-1, r)
           else
             let lo = convert_from_hhmm env lon;
                 lo' = (if lonHemi = CHR ''W'' then fp_neg env lo else lo)
             in (0, r\<lparr>fix_loc := (fix_loc r)\<lparr>flags := insert HAS_LAT_LONG (flags (fix_loc r)),
                   latitude := la', longitude := lo'\<rparr>\<rparr>))"

definition nmea_reader_update_altitude :: "'d gps_env \<Rightarrow> string \<Rightarrow> 'd nmea_reader \<Rightarrow> int \<times> 'd nmea_reader" where
  "nmea_reader_update_altitude env tok r =
     (if tok = [] then (-1, r)
      else (0, r\<lparr>fix_loc := (fix_loc r)\<lparr>flags := insert HAS_ALTITUDE (flags (fix_loc r)), altitude := str2float env tok\<rparr>\<rparr>))"

definition nmea_reader_update_accuracy :: "'d gps_env \<Rightarrow> string \<Rightarrow> 'd nmea_reader \<Rightarrow> int \<times> 'd nmea_reader" where
  "nmea_reader_update_accuracy env tok r =
     (if tok = [] then (-1, r)
      else (0, r\<lparr>fix_loc := (fix_loc r)\<lparr>flags := insert HAS_ACCURACY (flags (fix_loc r)), accuracy := str2float env tok\<rparr>\<rparr>))"

text \<open>These two test \<open>p > end\<close>, which never holds: an empty token is taken as well.\<close>

definition nmea_reader_update_bearing :: "'d gps_env \<Rightarrow> string \<Rightarrow> 'd nmea_reader \<Rightarrow> int \<times> 'd nmea_reader" where
  "nmea_reader_update_bearing env tok r =
     (0, r\<lparr>fix_loc := (fix_loc r)\<lparr>flags := insert HAS_BEARING (flags (fix_loc r)), bearing := str2float env tok\<rparr>\<rparr>)"

definition nmea_reader_update_speed :: "'d gps_env \<Rightarrow> string \<Rightarrow> 'd nmea_reader \<Rightarrow> int \<times> 'd nmea_reader" where
  "nmea_reader_update_speed env tok r =
     (0, r\<lparr>fix_loc := (fix_loc r)\<lparr>flags := insert HAS_SPEED (flags (fix_loc r)), speed := fp_knots env (str2float env tok)\<rparr>\<rparr>)"

section \<open>Sentences\<close>

text \<open>\<open>1 << n\<close> on a 32-bit int.\<close>

definition shl_one :: "int \<Rightarrow> fault + u32" where
  "shl_one n = (if 0 \<le> n \<and> n < 32 then Inr (push_bit (nat n) 1) else Inl BadShift)"

definition gsa_prn :: "token \<Rightarrow> 'd nmea_reader \<Rightarrow> 'd nmea_reader" where
  "gsa_prn tok r =
     (let p = str2int (tok_text tok) in
      if p \<le> 0 \<or> p > 32 then r else r\<lparr>fix_mask := fix_mask r OR push_bit (nat (p - 1)) 1\<rparr>)"

definition nmea_reader_parse_gsa :: "'d gps_env \<Rightarrow> token list \<Rightarrow> 'd nmea_reader \<Rightarrow> 'd nmea_reader" where
  "nmea_reader_parse_gsa env t r =
     (let r1 = (if length t > 15
                then snd (nmea_reader_update_accuracy env (tok_text (nmea_tokenizer_get t 15)) r) else r)
      in fold gsa_prn (drop 3 t) r1)"

text \<open>One round of the loop over the satellites of a sentence; \<open>cur_sv\<close> is a static counter.\<close>

definition gsv_sv :: "'d gps_env \<Rightarrow> token list \<Rightarrow> nat \<Rightarrow> 'd nmea_reader \<Rightarrow> fault + 'd nmea_reader" where
  "gsv_sv env t i r =
     (let get = (\<lambda>k. tok_text (nmea_tokenizer_get t k));
          info = \<lparr>prn = str2int (get i), snr = str2float env (get (i + 3)),
                  elevation = str2float env (get (i + 1)), azimuth = str2float env (get (i + 2))\<rparr>
      in if cur_sv r \<ge> length (sv_list (sv r)) then Inl BufOverrun
         else bindE (shl_one (prn info - 1)) (\<lambda>m.
           Inr (r\<lparr>sv := (sv r)\<lparr>sv_list := (sv_list (sv r))[cur_sv r := info],
                   ephemeris_mask := ephemeris_mask (sv r) OR m, almanac_mask := almanac_mask (sv r) OR m\<rparr>,
                 cur_sv := cur_sv r + 1\<rparr>)))"

definition gsv_indices :: "nat \<Rightarrow> nat list" where
  "gsv_indices count = map (\<lambda>k. 4 + 4 * k) [0..<(count - 4 + 3) div 4]"

definition nmea_reader_parse_gsv :: "'d gps_env \<Rightarrow> token list \<Rightarrow> 'd nmea_reader \<Rightarrow> fault + 'd nmea_reader" where
  "nmea_reader_parse_gsv env t r =
     (let num = str2int (tok_text (nmea_tokenizer_get t 1));
          which = str2int (tok_text (nmea_tokenizer_get t 2));
          r1 = (if which = 1
                then r\<lparr>cur_sv := 0, sv := (sv r)\<lparr>ephemeris_mask := 0, almanac_mask := 0\<rparr>\<rparr> else r)
      in bindE (foldE (gsv_sv env t) (gsv_indices (length t)) r1) (\<lambda>r2.
         if num = which then
           let s = (sv r2)\<lparr>num_svs := cur_sv r2, used_in_fix_mask := fix_mask r2\<rparr> in
           Inr (r2\<lparr>sv := s, fix_mask := 0, sv_sent := (if callbacks_set r2 then sv_sent r2 @ [s] else sv_sent r2)\<rparr>)
         else Inr r2))"

definition parse_gga :: "'d gps_env \<Rightarrow> token list \<Rightarrow> 'd nmea_reader \<Rightarrow> 'd nmea_reader" where
  "parse_gga env t r =
     (let get = (\<lambda>k. nmea_tokenizer_get t k);
          r1 = snd (nmea_reader_update_time env (tok_text (get 1)) r);
          r2 = snd (nmea_reader_update_latlong env (tok_text (get 2)) (tok_p0 (get 3)) (tok_text (get 4)) (tok_p0 (get 5)) r1)
      in snd (nmea_reader_update_altitude env (tok_text (get 9)) r2))"

definition parse_rmc :: "'d gps_env \<Rightarrow> token list \<Rightarrow> 'd nmea_reader \<Rightarrow> 'd nmea_reader" where
  "parse_rmc env t r =
     (let get = (\<lambda>k. nmea_tokenizer_get t k) in
      if tok_p0 (get 2) = CHR ''A'' then
        let r1 = snd (nmea_reader_update_date env (tok_text (get 9)) (tok_text (get 1)) r);
            r2 = snd (nmea_reader_update_latlong env (tok_text (get 3)) (tok_p0 (get 4)) (tok_text (get 5)) (tok_p0 (get 6)) r1);
            r3 = snd (nmea_reader_update_bearing env (tok_text (get 8)) r2)
        in snd (nmea_reader_update_speed env (tok_text (get 7)) r3)
      else r)"

definition commit_fix :: "'d nmea_reader \<Rightarrow> 'd nmea_reader" where
  "commit_fix r =
     (if {HAS_LAT_LONG, HAS_ALTITUDE, HAS_BEARING, HAS_SPEED, HAS_ACCURACY} \<subseteq> flags (fix_loc r) \<and> location_cb r
      then r\<lparr>fixes_sent := fixes_sent r @ [fix_loc r], fix_loc := (fix_loc r)\<lparr>flags := {}\<rparr>\<rparr>
      else r)"

definition parse_sentence :: "'d gps_env \<Rightarrow> string \<Rightarrow> token list \<Rightarrow> 'd nmea_reader \<Rightarrow> fault + 'd nmea_reader" where
  "parse_sentence env name t r =
     (if name = ''GGA'' then Inr (parse_gga env t r)
      else if name = ''GSA'' then Inr (nmea_reader_parse_gsa env t r)
      else if name = ''GSV'' then nmea_reader_parse_gsv env t r
      else if name = ''RMC'' then Inr (parse_rmc env t r)
      else Inr r)"

definition nmea_reader_parse :: "'d gps_env \<Rightarrow> 'd nmea_reader \<Rightarrow> fault + 'd nmea_reader" where
  "nmea_reader_parse env r =
     (if length (in_buf r) < 9 then Inr r
      else
        let t = nmea_tokenizer_init (in_buf r);
            tok = tok_text (nmea_tokenizer_get t 0)
        in if length tok < 5 then Inr r
           else bindE (parse_sentence env (take 3 (drop 2 tok)) t r) (\<lambda>r1. Inr (commit_fix r1)))"

definition nmea_reader_addc :: "'d gps_env \<Rightarrow> char \<Rightarrow> 'd nmea_reader \<Rightarrow> fault + 'd nmea_reader" where
  "nmea_reader_addc env c r =
     (if overflow r then Inr (r\<lparr>overflow := (c \<noteq> CHR 0x0A)\<rparr>)
      else if length (in_buf r) \<ge> NMEA_MAX_SIZE then Inr (r\<lparr>overflow := True, in_buf := []\<rparr>)
      else
        let r1 = r\<lparr>in_buf := in_buf r @ [c]\<rparr> in
        if c = CHR 0x0A then bindE (nmea_reader_parse env r1) (\<lambda>r2. Inr (r2\<lparr>in_buf := []\<rparr>))
        else Inr r1)"

section \<open>The thread\<close>

datatype gps_cmd = CMD_QUIT | CMD_START | CMD_STOP

text \<open>
  One event of the loop: \<open>None\<close> as result state means that the thread has returned.  \<open>has_cb\<close>: whether
  the callbacks of the library's user are set when the thread reads them.
\<close>

definition gps_control :: "bool \<Rightarrow> gps_cmd \<Rightarrow> 'd nmea_reader \<Rightarrow> fault + 'd nmea_reader option" where
  "gps_control has_cb cmd r =
     (case cmd of
        CMD_QUIT \<Rightarrow> Inr None
      | CMD_START \<Rightarrow>
          let r1 = (nmea_reader_set_callback has_cb r)\<lparr>callbacks_set := has_cb\<rparr> in
          if has_cb then Inr (Some (r1\<lparr>status_sent := status_sent r1 @ [SESSION_BEGIN]\<rparr>)) else Inl NullDeref
      | CMD_STOP \<Rightarrow>
          if \<not> callbacks_set r then Inl NullDeref
          else
            let s = (sv r)\<lparr>num_svs := 0, ephemeris_mask := 0, almanac_mask := 0, used_in_fix_mask := 0\<rparr>
            in Inr (Some (nmea_reader_set_callback False
                 (r\<lparr>status_sent := status_sent r @ [ENGINE_OFF], sv := s, fix_mask := 0, sv_sent := sv_sent r @ [s]\<rparr>))))"

text \<open>
  The loop for the receiver's descriptor, over the results of its reads: the bytes one brings into \<open>buff[512]\<close>, an interrupted read, which is
  tried again, and a failed one, which ends the loop.  At the end of the list the loop waits in its next read.
\<close>

datatype gps_io = Got string | Interrupted | Failed

fun gps_data_event :: "'d gps_env \<Rightarrow> gps_io list \<Rightarrow> 'd nmea_reader \<Rightarrow> fault + 'd nmea_reader" where
  "gps_data_event env [] r = Inr r"
| "gps_data_event env (Got bs # rs) r =
     (if 512 < length bs then Inl BufOverrun
      else bindE (foldE (nmea_reader_addc env) bs r) (gps_data_event env rs))"
| "gps_data_event env (Interrupted # rs) r = gps_data_event env rs r"
| "gps_data_event env (Failed # rs) r = Inr r"

section \<open>Lines\<close>

lemma data_event_eq:
  "\<forall>s\<in>set ss. length s \<le> 512 \<Longrightarrow> gps_data_event env (map Got ss) r = foldE (nmea_reader_addc env) (concat ss) r"
proof (induction ss arbitrary: r)
  case (Cons s ss)
  then have "gps_data_event env (map Got ss) = foldE (nmea_reader_addc env) (concat ss)" by (intro ext) simp
  then show ?case using Cons.prems by (simp add: foldE_append)
qed simp

text \<open>What a sentence does to a reader between two lines.\<close>

definition parse_line :: "'d gps_env \<Rightarrow> string \<Rightarrow> 'd nmea_reader \<Rightarrow> fault + 'd nmea_reader" where
  "parse_line env l r = bindE (nmea_reader_parse env (r\<lparr>in_buf := l @ [CHR 0x0A]\<rparr>)) (\<lambda>r2. Inr (r2\<lparr>in_buf := []\<rparr>))"

lemma addc_plain:
  "\<not> overflow r \<Longrightarrow> c \<noteq> CHR 0x0A \<Longrightarrow> length (in_buf r) < NMEA_MAX_SIZE \<Longrightarrow>
     nmea_reader_addc env c r = Inr (r\<lparr>in_buf := in_buf r @ [c]\<rparr>)"
  by (simp add: nmea_reader_addc_def Let_def)

lemma addc_overflow: "overflow r \<Longrightarrow> c \<noteq> CHR 0x0A \<Longrightarrow> nmea_reader_addc env c r = Inr r"
  by (cases r) (simp add: nmea_reader_addc_def)

lemma feed_plain:
  "\<not> overflow r \<Longrightarrow> CHR 0x0A \<notin> set l \<Longrightarrow> length (in_buf r) + length l \<le> NMEA_MAX_SIZE \<Longrightarrow>
     foldE (nmea_reader_addc env) l r = Inr (r\<lparr>in_buf := in_buf r @ l\<rparr>)"
proof (induction l arbitrary: r)
  case (Cons c l)
  then have "nmea_reader_addc env c r = Inr (r\<lparr>in_buf := in_buf r @ [c]\<rparr>)" by (intro addc_plain) auto
  with Cons.IH [of "r\<lparr>in_buf := in_buf r @ [c]\<rparr>"] Cons.prems show ?case by simp
qed simp

lemma feed_overflow:
  "overflow r \<Longrightarrow> CHR 0x0A \<notin> set l \<Longrightarrow> foldE (nmea_reader_addc env) l r = Inr r"
proof (induction l arbitrary: r)
  case (Cons c l)
  then have "nmea_reader_addc env c r = Inr r" by (intro addc_overflow) auto
  with Cons show ?case by simp
qed simp

section \<open>Tokens\<close>

lemma tok_loop_join:
  "ts \<noteq> [] \<Longrightarrow> \<forall>t \<in> set ts. CHR '','' \<notin> set t \<Longrightarrow> last ts \<noteq> [] \<Longrightarrow>
     map tok_text (tok_loop (join (CHR '','') ts)) = ts"
proof (induction "CHR '',''" ts rule: join.induct)
  case (2 t)
  then have "strsep '','' t = (t, None)" by (simp add: strsep_none)
  with 2 show ?case by (subst tok_loop.simps) simp
next
  case (3 t u ts)
  then have "strsep '','' (t @ CHR '','' # join (CHR '','') (u # ts)) = (t, Some (join (CHR '','') (u # ts)))"
    by (intro strsep_kv) simp
  with 3 show ?case by (subst tok_loop.simps) simp
qed simp

section \<open>Fixes\<close>

definition sent_ok :: "'d nmea_reader \<Rightarrow> 'd nmea_reader \<Rightarrow> bool" where
  "sent_ok r r' \<longleftrightarrow> location_cb r' = location_cb r \<and>
     (\<exists>xs. fixes_sent r' = fixes_sent r @ xs \<and> (\<forall>x \<in> set xs. flags x = UNIV) \<and> (\<not> location_cb r \<longrightarrow> xs = []))"

lemma sent_ok_refl: "sent_ok r r" by (simp add: sent_ok_def)

lemma sent_ok_trans: "sent_ok r s \<Longrightarrow> sent_ok s t \<Longrightarrow> sent_ok r t"
proof -
  assume rs: "sent_ok r s" and st: "sent_ok s t"
  from rs obtain xs where xs: "fixes_sent s = fixes_sent r @ xs" "\<forall>x \<in> set xs. flags x = UNIV"
    "\<not> location_cb r \<longrightarrow> xs = []" by (auto simp: sent_ok_def)
  from st obtain ys where ys: "fixes_sent t = fixes_sent s @ ys" "\<forall>x \<in> set ys. flags x = UNIV"
    "\<not> location_cb s \<longrightarrow> ys = []" by (auto simp: sent_ok_def)
  have "fixes_sent t = fixes_sent r @ (xs @ ys)" using xs ys by simp
  moreover have "\<forall>x \<in> set (xs @ ys). flags x = UNIV" using xs ys by auto
  moreover have "\<not> location_cb r \<longrightarrow> xs @ ys = []" using xs ys rs by (auto simp: sent_ok_def)
  ultimately show ?thesis using rs st unfolding sent_ok_def by metis
qed

lemma all_flags: "{HAS_LAT_LONG, HAS_ALTITUDE, HAS_BEARING, HAS_SPEED, HAS_ACCURACY} \<subseteq> F \<Longrightarrow> F = UNIV"
proof -
  have "(UNIV :: loc_flag set) = {HAS_LAT_LONG, HAS_ALTITUDE, HAS_BEARING, HAS_SPEED, HAS_ACCURACY}"
    using loc_flag.exhaust by auto
  then show "{HAS_LAT_LONG, HAS_ALTITUDE, HAS_BEARING, HAS_SPEED, HAS_ACCURACY} \<subseteq> F \<Longrightarrow> F = UNIV" by auto
qed

lemma sent_ok_commit: "sent_ok r (commit_fix r)"
  unfolding sent_ok_def commit_fix_def using all_flags [of "flags (fix_loc r)"] by auto

definition same_sent :: "'d nmea_reader \<Rightarrow> 'd nmea_reader \<Rightarrow> bool" where
  "same_sent r r' \<longleftrightarrow> location_cb r' = location_cb r \<and> fixes_sent r' = fixes_sent r \<and> overflow r' = overflow r"

lemma same_sent_updates [simp]:
  "same_sent r (snd (nmea_reader_update_time env a r))" "same_sent r (snd (nmea_reader_update_date env a b r))"
  "same_sent r (snd (nmea_reader_update_latlong env a c b d r))" "same_sent r (snd (nmea_reader_update_altitude env a r))"
  "same_sent r (snd (nmea_reader_update_accuracy env a r))" "same_sent r (snd (nmea_reader_update_bearing env a r))"
  "same_sent r (snd (nmea_reader_update_speed env a r))" "same_sent r (gsa_prn tok r)"
  by (simp_all add: same_sent_def nmea_reader_update_time_def nmea_reader_update_date_def nmea_reader_update_latlong_def
      nmea_reader_update_altitude_def nmea_reader_update_accuracy_def nmea_reader_update_bearing_def
      nmea_reader_update_speed_def gsa_prn_def Let_def)

lemma same_sent_trans: "same_sent r s \<Longrightarrow> same_sent s t \<Longrightarrow> same_sent r t"
  by (simp add: same_sent_def)

lemma same_sent_refl [simp]: "same_sent r r" by (simp add: same_sent_def)

lemma same_sent_gga: "same_sent r (parse_gga env t r)"
  unfolding parse_gga_def Let_def by (meson same_sent_trans same_sent_updates)

lemma same_sent_rmc: "same_sent r (parse_rmc env t r)"
  unfolding parse_rmc_def Let_def by (simp, meson same_sent_trans same_sent_updates)

lemma same_sent_gsa: "same_sent r (nmea_reader_parse_gsa env t r)"
proof -
  have "same_sent r (fold gsa_prn ts r)" for ts r
    by (induction ts arbitrary: r) (simp, metis fold_simps(2) same_sent_trans same_sent_updates(8))
  then show ?thesis
    unfolding nmea_reader_parse_gsa_def Let_def using same_sent_trans same_sent_updates(5) by (metis (full_types))
qed

lemma same_sent_gsv: "nmea_reader_parse_gsv env t r = Inr r' \<Longrightarrow> same_sent r r'"
proof -
  have step: "same_sent r r'" if "gsv_sv env t i r = Inr r'" for i r r'
    using that by (auto simp: gsv_sv_def Let_def same_sent_def bindE_eq_Inr_iff split: if_splits)
  have loop: "same_sent r r'" if "foldE (gsv_sv env t) is r = Inr r'" for "is" r r'
    using foldE_invariant [where P = "same_sent r", OF _ same_sent_refl that] step same_sent_trans by blast
  assume p: "nmea_reader_parse_gsv env t r = Inr r'"
  define r1 where "r1 = (if str2int (tok_text (nmea_tokenizer_get t 2)) = 1
    then r\<lparr>cur_sv := 0, sv := (sv r)\<lparr>ephemeris_mask := 0, almanac_mask := 0\<rparr>\<rparr> else r)"
  from p obtain r2 where r2: "foldE (gsv_sv env t) (gsv_indices (length t)) r1 = Inr r2" and "same_sent r2 r'"
    unfolding nmea_reader_parse_gsv_def Let_def bindE_eq_Inr_iff r1_def [symmetric]
    by (auto simp: same_sent_def split: if_splits)
  moreover have "same_sent r r1" by (simp add: r1_def same_sent_def)
  ultimately show ?thesis using loop [OF r2] same_sent_trans by blast
qed

lemma same_sent_sentence: "parse_sentence env name t r = Inr r1 \<Longrightarrow> same_sent r r1"
  using same_sent_gga [of r env t] same_sent_rmc [of r env t] same_sent_gsa [of r env t] same_sent_gsv [of env t r r1]
  unfolding parse_sentence_def by (simp split: if_split_asm)

lemma sent_ok_parse: "nmea_reader_parse env r = Inr r' \<Longrightarrow> sent_ok r r'"
proof (cases "r' = r")
  case False
  assume "nmea_reader_parse env r = Inr r'"
  with False obtain r1 where "same_sent r r1" "r' = commit_fix r1"
    by (auto simp: nmea_reader_parse_def Let_def bindE_eq_Inr_iff split: if_split_asm dest!: same_sent_sentence)
  then show ?thesis using sent_ok_commit [of r1] by (simp add: sent_ok_def same_sent_def)
qed (simp add: sent_ok_refl)

lemma sent_ok_addc: "nmea_reader_addc env c r = Inr r' \<Longrightarrow> sent_ok r r'"
  using sent_ok_parse [of env "r\<lparr>in_buf := in_buf r @ [c]\<rparr>"]
  by (auto simp: nmea_reader_addc_def Let_def bindE_eq_Inr_iff sent_ok_def split: if_splits)

lemma addc_newline:
  "\<not> overflow r \<Longrightarrow> length (in_buf r) < NMEA_MAX_SIZE \<Longrightarrow>
     nmea_reader_addc env (CHR 0x0A) r =
       bindE (nmea_reader_parse env (r\<lparr>in_buf := in_buf r @ [CHR 0x0A]\<rparr>)) (\<lambda>r2. Inr (r2\<lparr>in_buf := []\<rparr>))"
  by (simp add: nmea_reader_addc_def Let_def)

lemma addc_full:
  "\<not> overflow r \<Longrightarrow> length (in_buf r) = NMEA_MAX_SIZE \<Longrightarrow>
     nmea_reader_addc env c r = Inr (r\<lparr>overflow := True, in_buf := []\<rparr>)"
  by (simp add: nmea_reader_addc_def)

text \<open>
  Framing of the byte stream: starting between two lines, a line of less than 83 characters is parsed
  as a whole; a longer one is discarded and the reader is back where it started.  A line of exactly 83
  characters is discarded by its own line feed, and so leaves the reader discarding: the next line is lost.
\<close>

theorem nmea_line_framing:
  assumes "\<not> overflow r" "in_buf r = []" "CHR 0x0A \<notin> set l"
  shows "foldE (nmea_reader_addc env) (l @ [CHR 0x0A]) r =
     (if length l < NMEA_MAX_SIZE then parse_line env l r
      else if length l = NMEA_MAX_SIZE then Inr (r\<lparr>overflow := True, in_buf := []\<rparr>)
      else Inr r)"
proof (cases "length l \<le> NMEA_MAX_SIZE")
  case True
  then have "foldE (nmea_reader_addc env) l r = Inr (r\<lparr>in_buf := l\<rparr>)" using feed_plain [of r l env] assms by simp
  then show ?thesis using True assms addc_newline [of "r\<lparr>in_buf := l\<rparr>" env] addc_full [of "r\<lparr>in_buf := l\<rparr>" env]
    by (auto simp: parse_line_def foldE_append bindE_assoc)
next
  case False
  define h c s where "h = take NMEA_MAX_SIZE l" and "c = l ! NMEA_MAX_SIZE" and "s = drop (Suc NMEA_MAX_SIZE) l"
  have l: "l = h @ c # s" using False by (simp add: h_def c_def s_def id_take_nth_drop [symmetric])
  have "set l = insert c (set h \<union> set s)" unfolding l by auto
  then have n: "CHR 0x0A \<notin> set h" "CHR 0x0A \<notin> set s" using assms(3) by auto
  moreover have "length h = NMEA_MAX_SIZE" using False by (simp add: h_def)
  ultimately have "foldE (nmea_reader_addc env) l r = Inr (r\<lparr>overflow := True, in_buf := []\<rparr>)"
    unfolding l using feed_plain [of r h env] addc_full [of "r\<lparr>in_buf := h\<rparr>" env c]
      feed_overflow [of "r\<lparr>overflow := True, in_buf := []\<rparr>" s env] assms(1,2)
    by (simp add: foldE_append)
  moreover have "nmea_reader_addc env (CHR 0x0A) (r\<lparr>overflow := True, in_buf := []\<rparr>) = Inr r"
    using assms by (cases r) (simp add: nmea_reader_addc_def)
  ultimately show ?thesis using False assms by (simp add: foldE_append)
qed

lemma payload_of_sentence:
  "nmea_payload (CHR ''$'' # p @ [CHR ''*'', h1, h2, CHR 0x0D, CHR 0x0A]) = p"
  by (simp add: nmea_payload_def Let_def nth_append butlast_append)

text \<open>
  The tokenizer undoes the wire format: of a sentence with its dollar sign, checksum and line end it
  returns the fields, at most the first 32; \<open>nmea_tokenizer_get\<close> reads the empty field beyond them.
\<close>

theorem nmea_tokenizer_roundtrip:
  assumes "ts \<noteq> []" "last ts \<noteq> []" "\<forall>t \<in> set ts. CHR '','' \<notin> set t"
  shows "map (\<lambda>k. tok_text (nmea_tokenizer_get
            (nmea_tokenizer_init (CHR ''$'' # join (CHR '','') ts @ [CHR ''*'', h1, h2, CHR 0x0D, CHR 0x0A])) k)) [0..<n] =
         take n (take MAX_NMEA_TOKENS ts) @ replicate (n - min MAX_NMEA_TOKENS (length ts)) []"
proof -
  define t where "t = nmea_tokenizer_init (CHR ''$'' # join (CHR '','') ts @ [CHR ''*'', h1, h2, CHR 0x0D, CHR 0x0A])"
  have t: "map tok_text t = take MAX_NMEA_TOKENS ts"
    using tok_loop_join [of ts] assms by (simp add: t_def nmea_tokenizer_init_def payload_of_sentence take_map [symmetric])
  then have len: "length t = min MAX_NMEA_TOKENS (length ts)" by (metis length_map length_take min.commute)
  have "tok_text (nmea_tokenizer_get t k) = (if k < length t then take MAX_NMEA_TOKENS ts ! k else [])" for k
    by (simp add: nmea_tokenizer_get_def t [symmetric])
  then show ?thesis unfolding t_def [symmetric] using len
    by (intro nth_equalityI) (auto simp: nth_append min_def)
qed

section \<open>Satellites\<close>

definition gsv_info :: "'d gps_env \<Rightarrow> token list \<Rightarrow> nat \<Rightarrow> 'd sv_info" where
  "gsv_info env t i =
     (let get = (\<lambda>k. tok_text (nmea_tokenizer_get t k)) in
      \<lparr>prn = str2int (get i), snr = str2float env (get (i + 3)),
       elevation = str2float env (get (i + 1)), azimuth = str2float env (get (i + 2))\<rparr>)"

lemma gsv_sv_ok:
  "gsv_sv env t i r =
     (if cur_sv r \<ge> length (sv_list (sv r)) then Inl BufOverrun
      else if prn (gsv_info env t i) < 1 \<or> 32 < prn (gsv_info env t i) then Inl BadShift
      else let m = push_bit (nat (prn (gsv_info env t i) - 1)) 1 in
        Inr (r\<lparr>sv := (sv r)\<lparr>sv_list := (sv_list (sv r))[cur_sv r := gsv_info env t i],
             ephemeris_mask := ephemeris_mask (sv r) OR m, almanac_mask := almanac_mask (sv r) OR m\<rparr>,
           cur_sv := cur_sv r + 1\<rparr>))"
  by (auto simp: gsv_sv_def gsv_info_def Let_def shl_one_def)

lemma gsv_loop:
  "cur_sv r \<le> length (sv_list (sv r)) \<Longrightarrow>
   (case foldE (gsv_sv env t) ks r of
      Inl _ \<Rightarrow> \<not> (cur_sv r + length ks \<le> length (sv_list (sv r)) \<and> (\<forall>i \<in> set ks. prn (gsv_info env t i) \<in> {1..32}))
    | Inr r' \<Rightarrow> cur_sv r + length ks \<le> length (sv_list (sv r)) \<and> (\<forall>i \<in> set ks. prn (gsv_info env t i) \<in> {1..32}) \<and>
        cur_sv r' = cur_sv r + length ks \<and>
        sv_list (sv r') = take (cur_sv r) (sv_list (sv r)) @ map (gsv_info env t) ks @ drop (cur_sv r + length ks) (sv_list (sv r)))"
proof (induction ks arbitrary: r)
  case (Cons i ks)
  show ?case
  proof (cases "gsv_sv env t i r")
    case (Inl e)
    then show ?thesis by (auto simp: gsv_sv_ok Let_def split: if_splits)
  next
    case (Inr r1)
    then have c: "cur_sv r < length (sv_list (sv r))" "prn (gsv_info env t i) \<in> {1..32}"
      and r1: "cur_sv r1 = cur_sv r + 1" "sv_list (sv r1) = (sv_list (sv r))[cur_sv r := gsv_info env t i]"
      by (auto simp: gsv_sv_ok Let_def split: if_splits)
    then show ?thesis using Inr Cons.IH [of r1]
      by (auto simp: take_Suc_conv_app_nth split: sum.splits)
  qed
qed simp
definition gsv_start :: "token list \<Rightarrow> 'd nmea_reader \<Rightarrow> nat" where
  "gsv_start t r = (if str2int (tok_text (nmea_tokenizer_get t 2)) = 1 then 0 else cur_sv r)"

lemma gsv_parse_cases:
  assumes "cur_sv r \<le> length (sv_list (sv r))"
  shows "case nmea_reader_parse_gsv env t r of
      Inl _ \<Rightarrow> \<not> (gsv_start t r + length (gsv_indices (length t)) \<le> length (sv_list (sv r)) \<and>
                 (\<forall>i \<in> set (gsv_indices (length t)). prn (gsv_info env t i) \<in> {1..32}))
    | Inr r' \<Rightarrow> gsv_start t r + length (gsv_indices (length t)) \<le> length (sv_list (sv r)) \<and>
        (\<forall>i \<in> set (gsv_indices (length t)). prn (gsv_info env t i) \<in> {1..32}) \<and>
        cur_sv r' = gsv_start t r + length (gsv_indices (length t)) \<and>
        sv_list (sv r') = take (gsv_start t r) (sv_list (sv r)) @ map (gsv_info env t) (gsv_indices (length t)) @
          drop (cur_sv r') (sv_list (sv r))"
proof -
  define r1 where "r1 = (if str2int (tok_text (nmea_tokenizer_get t 2)) = 1
    then r\<lparr>cur_sv := 0, sv := (sv r)\<lparr>ephemeris_mask := 0, almanac_mask := 0\<rparr>\<rparr> else r)"
  have r1: "cur_sv r1 = gsv_start t r" "sv_list (sv r1) = sv_list (sv r)" by (auto simp: r1_def gsv_start_def)
  then have "cur_sv r1 \<le> length (sv_list (sv r1))" using assms by (simp add: gsv_start_def)
  from gsv_loop [OF this, where env = env and t = t and ks = "gsv_indices (length t)"] show ?thesis
    unfolding nmea_reader_parse_gsv_def Let_def r1_def [symmetric] r1
    by (cases "foldE (gsv_sv env t) (gsv_indices (length t)) r1") auto
qed

text \<open>
  A satellite sentence: it is handled without a fault exactly when the satellites collected so far and
  the ones it carries fit the table of Android's structure and every satellite number is between 1 and 32
  (the check that skipped others is commented out in the code).  Then each satellite is stored, in order, at
  the position the sequence of sentences has reached, and the others are untouched.
\<close>

theorem gsv_sentence_stored:
  assumes "cur_sv r \<le> length (sv_list (sv r))"
  shows "((\<exists>r'. nmea_reader_parse_gsv env t r = Inr r') \<longleftrightarrow>
           gsv_start t r + length (gsv_indices (length t)) \<le> length (sv_list (sv r)) \<and>
           (\<forall>i \<in> set (gsv_indices (length t)). prn (gsv_info env t i) \<in> {1..32})) \<and>
         (\<forall>r'. nmea_reader_parse_gsv env t r = Inr r' \<longrightarrow>
           cur_sv r' = gsv_start t r + length (gsv_indices (length t)) \<and>
           sv_list (sv r') = take (gsv_start t r) (sv_list (sv r)) @ map (gsv_info env t) (gsv_indices (length t)) @
             drop (cur_sv r') (sv_list (sv r)))"
  using gsv_parse_cases [OF assms, where env = env and t = t] by (auto split: sum.splits)

section \<open>Concrete runs\<close>

text \<open>An environment for the examples below: numbers are the texts themselves.\<close>

definition sample_env :: "string gps_env" where
  "sample_env = \<lparr>strtod = (\<lambda>s. s), fp_zero = ''0'', fp_neg = (\<lambda>v. CHR ''-'' # v), fp_knots = (\<lambda>v. v),
     fp_hundreds = (\<lambda>_. 0), fp_minutes = (\<lambda>v _. v), fp_to_int = (\<lambda>_. 0),
     gmtime_now = \<lparr>c_year = 114, c_mon = 0, c_day = 1, c_hour = 0, c_min = 0, c_sec = 0\<rparr>,
     utc_diff_now = 0, mktime = c_hour, gps_max_svs = 2\<rparr>"

lemmas sample_defs = sample_env_def nmea_reader_init_def nmea_reader_update_utc_diff_def

text \<open>A line of 83 characters and its line feed: the reader is left discarding.\<close>

theorem nmea_line_framing_witness:
  "foldE (nmea_reader_addc sample_env) (replicate 83 (CHR ''x'') @ [CHR 0x0A]) (nmea_reader_init sample_env) =
     Inr ((nmea_reader_init sample_env)\<lparr>overflow := True\<rparr>)"
  using nmea_line_framing [of "nmea_reader_init sample_env" "replicate 83 (CHR ''x'')"
      sample_env]
  by (simp add: sample_defs NMEA_MAX_SIZE_def Let_def)

theorem nmea_tokenizer_roundtrip_witness:
  "map (\<lambda>k. tok_text (nmea_tokenizer_get (nmea_tokenizer_init (''$GPGSA,A,,12*76'' @ [CHR 0x0D, CHR 0x0A])) k)) [0..<5] =
     [''GPGSA'', ''A'', [], ''12'', []]"
  using nmea_tokenizer_roundtrip [of "[''GPGSA'', ''A'', [], ''12'']" "CHR ''7''" "CHR ''6''" 5]
  by (simp add: MAX_NMEA_TOKENS_def)

text \<open>Two satellites fill the table of the sample environment; the sentence that would add a third faults.\<close>

definition gsv_tokens :: "string list \<Rightarrow> token list" where
  "gsv_tokens ts = map (\<lambda>s. \<lparr>tok_text = s, tok_p0 = CHR '' ''\<rparr>) ts"

theorem gsv_sentence_stored_witness:
  "(\<exists>r'. nmea_reader_parse_gsv sample_env
       (gsv_tokens [''GPGSV'', ''2'', ''1'', ''03'', ''02'', ''16'', ''138'', ''06'', ''05'', ''29'', ''067'', ''11''])
       (nmea_reader_init sample_env) = Inr r') \<and>
   \<not> (\<exists>r'. nmea_reader_parse_gsv sample_env
       (gsv_tokens [''GPGSV'', ''2'', ''2'', ''03'', ''09'', ''48'', ''088'', ''19''])
       ((nmea_reader_init sample_env)\<lparr>cur_sv := 2\<rparr>) = Inr r')"
  using gsv_sentence_stored [where r = "nmea_reader_init sample_env" and env = sample_env and t =
      "gsv_tokens [''GPGSV'', ''2'', ''1'', ''03'', ''02'', ''16'', ''138'', ''06'', ''05'', ''29'', ''067'', ''11'']"]
    gsv_sentence_stored [where r = "(nmea_reader_init sample_env)\<lparr>cur_sv := 2\<rparr>" and env = sample_env and t =
      "gsv_tokens [''GPGSV'', ''2'', ''2'', ''03'', ''09'', ''48'', ''088'', ''19'']"]
  by (simp add: sample_defs Let_def gsv_start_def gsv_indices_def gsv_info_def gsv_tokens_def nmea_tokenizer_get_def
      str2int_def wrap32_def upt_rec)

lemma parse_keeps_overflow:
  assumes "nmea_reader_parse env r = Inr r'"
  shows "overflow r' = overflow r"
proof (cases "r' = r")
  case False
  then obtain r1 where "same_sent r r1" "r' = commit_fix r1"
    using assms by (auto simp: nmea_reader_parse_def Let_def bindE_eq_Inr_iff split: if_split_asm dest!: same_sent_sentence)
  then show ?thesis by (simp add: same_sent_def commit_fix_def)
qed simp

lemma parse_line_idle:
  assumes "parse_line env l r = Inr r'" "\<not> overflow r"
  shows "\<not> overflow r'" "in_buf r' = []"
proof -
  obtain r2 where "nmea_reader_parse env (r\<lparr>in_buf := l @ [CHR 0x0A]\<rparr>) = Inr r2" "r' = r2\<lparr>in_buf := []\<rparr>"
    using assms(1) unfolding parse_line_def bindE_eq_Inr_iff by blast
  then show "\<not> overflow r'" "in_buf r' = []" using parse_keeps_overflow assms(2) by fastforce+
qed

text \<open>A stream of lines is the sequence of its sentences.\<close>

lemma feed_lines:
  "\<not> overflow r \<Longrightarrow> in_buf r = [] \<Longrightarrow> \<forall>l\<in>set ls. CHR 0x0A \<notin> set l \<and> length l < NMEA_MAX_SIZE \<Longrightarrow>
     foldE (nmea_reader_addc env) (concat (map (\<lambda>l. l @ [CHR 0x0A]) ls)) r = foldE (parse_line env) ls r"
proof (induction ls arbitrary: r)
  case (Cons l ls)
  have l: "foldE (nmea_reader_addc env) (l @ [CHR 0x0A]) r = parse_line env l r"
    using nmea_line_framing [OF Cons.prems(1,2), of l env] Cons.prems(3) by simp
  have "foldE (nmea_reader_addc env) (concat (map (\<lambda>l. l @ [CHR 0x0A]) (l # ls))) r =
      bindE (parse_line env l r) (foldE (nmea_reader_addc env) (concat (map (\<lambda>l. l @ [CHR 0x0A]) ls)))"
    unfolding list.map concat.simps foldE_append [of _ "l @ [CHR 0x0A]"] l ..
  also have "\<dots> = bindE (parse_line env l r) (foldE (parse_line env) ls)"
  proof (cases "parse_line env l r")
    case (Inr r')
    then show ?thesis using Cons parse_line_idle [OF Inr Cons.prems(1)] by simp
  qed simp
  finally show ?case by simp
qed simp

lemma fixes_sent_addc_loop: "foldE (nmea_reader_addc env) cs r = Inr r' \<Longrightarrow> sent_ok r r'"
proof (induction cs arbitrary: r)
  case (Cons c cs)
  then show ?case by (auto simp: bindE_eq_Inr_iff intro: sent_ok_trans [OF sent_ok_addc])
qed (simp add: sent_ok_refl)

lemma fixes_sent_event: "gps_data_event env rs r = Inr r' \<Longrightarrow> sent_ok r r'"
proof (induction env rs r rule: gps_data_event.induct)
  case (2 env bs rs r)
  then show ?case by (auto simp: bindE_eq_Inr_iff split: if_splits intro: sent_ok_trans [OF fixes_sent_addc_loop])
qed (simp_all add: sent_ok_refl)

text \<open>
  (C26) Data from the receiver makes the library report complete fixes only: whatever its reads bring, and whether they are interrupted or
  fail, each location that the loop for the receiver's descriptor hands to the callback carries latitude and longitude, altitude, bearing,
  speed and accuracy, earlier reports are kept, and nothing is reported while no callback is registered.  (The registration of a callback is
  another path, by which the fix in hand is reported as it is.)
\<close>

theorem only_complete_fixes:
  "gps_data_event env reads r = Inr r' \<Longrightarrow>
     \<exists>xs. fixes_sent r' = fixes_sent r @ xs \<and>
          (\<forall>x \<in> set xs. flags x = {HAS_LAT_LONG, HAS_ALTITUDE, HAS_SPEED, HAS_BEARING, HAS_ACCURACY}) \<and>
          (\<not> location_cb r \<longrightarrow> xs = [])"
proof -
  have U: "{HAS_LAT_LONG, HAS_ALTITUDE, HAS_SPEED, HAS_BEARING, HAS_ACCURACY} = UNIV" by (rule all_flags) auto
  assume "gps_data_event env reads r = Inr r'"
  then show ?thesis unfolding U using fixes_sent_event [of env reads r r'] by (auto simp: sent_ok_def)
qed

text \<open>A position, an accuracy and a course make one fix.\<close>

definition sample_fix :: "gps_io list" where
  "sample_fix =
     [Got ''$GPGGA,120000,3200.00,N,11800.00,W,1,08,1.0,52.1*00'', Got [CHR 0x0D, CHR 0x0A], Interrupted,
      Got ''$GPGSA,A,3,,,,,,,,,,,,,1.5*00'', Got [CHR 0x0D, CHR 0x0A],
      Got ''$GPRMC,120000,A,3200.00,N,11800.00,W,9.0,84.0,010114*00'', Got [CHR 0x0D, CHR 0x0A]]"

lemma sample_fix_run:
  "case gps_data_event sample_env sample_fix (nmea_reader_set_callback True (nmea_reader_init sample_env)) of
     Inl _ \<Rightarrow> False
   | Inr r \<Rightarrow> map longitude (fixes_sent r) = [''-11800.00'']"
  by code_simp

theorem only_complete_fixes_witness:
  "\<exists>r' x. gps_data_event sample_env sample_fix (nmea_reader_set_callback True (nmea_reader_init sample_env)) = Inr r' \<and>
     fixes_sent r' = [x] \<and> longitude x = ''-11800.00'' \<and>
     flags x = {HAS_LAT_LONG, HAS_ALTITUDE, HAS_SPEED, HAS_BEARING, HAS_ACCURACY}"
proof -
  have start: "fixes_sent (nmea_reader_set_callback True (nmea_reader_init sample_env)) = []"
    by (simp add: nmea_reader_set_callback_def sample_defs Let_def)
  obtain r' where r: "gps_data_event sample_env sample_fix (nmea_reader_set_callback True (nmea_reader_init sample_env)) = Inr r'"
    and l: "map longitude (fixes_sent r') = [''-11800.00'']"
    using sample_fix_run by (auto split: sum.splits)
  from l obtain x where x: "fixes_sent r' = [x]" "longitude x = ''-11800.00''" by auto
  from only_complete_fixes [OF r] x r show ?thesis by (auto simp: start)
qed

end
