(* ===== verification/Gps_Driver.thy ===== *)
theory Gps_Driver
  imports Kfifo Gps_Nmea
begin

text \<open>
  The kernel side of the GPS receiver, \<^verbatim>\<open>drivers/gps/lidbg_gps.c\<close>: the thread that polls the receiver over
  I2C, the byte queue of 4 KB between it and the device node, and the entry points of the node.

  The receiver is outside: \<open>num\<close> is its answer to the read of the two length registers, \<open>answer\<close> its
  answer to the read of the data, \<open>None\<close> a transfer error.  \<open>num_avi_gps_data\<close> has type \<open>char\<close>, which is
  unsigned on this processor.  Every access to the queue is inside the semaphore, so the events of
  \<open>gps_step\<close> are atomic and interleave freely; the reader is split where it sleeps in
  \<open>wait_event_interruptible\<close>, which looks at the queue only.  \<open>wakeups\<close> counts the calls of
  \<open>wake_up_interruptible\<close>.
\<close>

definition GPS_BUF_SIZE :: nat where "GPS_BUF_SIZE = 4096"
definition HAL_BUF_SIZE :: nat where "HAL_BUF_SIZE = 512"
definition GPS_FIFO_SIZE :: nat where "GPS_FIFO_SIZE = 4096"

datatype system_status = FLY_ACC_ON | FLY_ACC_OFF | FLY_READY_TO_SUSPEND | FLY_SUSPEND
datatype gps_ioctl_cmd = GPS_START | GPS_STOP | OtherCmd
datatype reader_state = Outside | Waiting

record gps_dev =
  started :: bool
  work_en :: bool
  gps_debug_en :: bool
  gps_data :: "char list"
  gps_data_for_hal :: "char list"
  gps_data_fifo :: "char kfifo"
  num_avi_gps_data :: "char \<times> char"
  avi_gps_data_hl :: nat
  wakeups :: nat
  gps_reader :: reader_state

definition gps_dev_start :: gps_dev where
  "gps_dev_start =
     \<lparr>started = False, work_en = True, gps_debug_en = False, gps_data = replicate GPS_BUF_SIZE (CHR 0x00),
      gps_data_for_hal = replicate HAL_BUF_SIZE (CHR 0x00), gps_data_fifo = kfifo_alloc GPS_FIFO_SIZE,
      num_avi_gps_data = (CHR 0x00, CHR 0x00), avi_gps_data_hl = 0, wakeups = 0, gps_reader = Outside\<rparr>"

definition gps_event_handle :: "system_status \<Rightarrow> gps_dev \<Rightarrow> gps_dev" where
  "gps_event_handle event d =
     (case event of FLY_ACC_ON \<Rightarrow> d\<lparr>work_en := True\<rparr> | FLY_ACC_OFF \<Rightarrow> d\<lparr>work_en := False\<rparr> | _ \<Rightarrow> d)"

section \<open>The device node\<close>

text \<open>
  \<open>gps_read_locked\<close> is \<open>gps_read\<close> from \<open>down(&dev->sem)\<close> on: the bytes copied to the caller, whatever size
  the caller asked for.
\<close>

definition gps_read_locked :: "gps_dev \<Rightarrow> string \<times> gps_dev" where
  "gps_read_locked d =
     (let fifo_len = kfifo_len (gps_data_fifo d);
          read_len = (if fifo_len > HAL_BUF_SIZE then HAL_BUF_SIZE else fifo_len);
          (out, q) = kfifo_out read_len (gps_data_fifo d);
          hal = out @ drop (length out) (gps_data_for_hal d)
      in (take read_len hal,
          d\<lparr>gps_data_fifo := q, gps_data_for_hal := hal, gps_reader := Outside,
            wakeups := wakeups d + (if fifo_len > HAL_BUF_SIZE then 1 else 0)\<rparr>))"

datatype read_result = ReadError | Sleeps | Data string

definition gps_read :: "gps_dev \<Rightarrow> read_result \<times> gps_dev" where
  "gps_read d =
     (if \<not> started d then (ReadError, d)
      else if kfifo_is_empty (gps_data_fifo d) then (Sleeps, d\<lparr>gps_reader := Waiting\<rparr>)
      else let (s, d') = gps_read_locked d in (Data s, d'))"

definition gps_poll :: "gps_dev \<Rightarrow> bool" where
  "gps_poll d = (if \<not> started d then False else \<not> kfifo_is_empty (gps_data_fifo d))"

definition gps_ioctl :: "gps_ioctl_cmd \<Rightarrow> gps_dev \<Rightarrow> int \<times> gps_dev" where
  "gps_ioctl cmd d =
     (case cmd of GPS_START \<Rightarrow> (0, d\<lparr>started := True\<rparr>) | GPS_STOP \<Rightarrow> (0, d\<lparr>started := False\<rparr>) | OtherCmd \<Rightarrow> (-25, d))"

definition read_proc :: "gps_dev \<Rightarrow> int \<times> gps_dev" where
  "read_proc d = (1, d\<lparr>gps_debug_en := True\<rparr>)"

section \<open>The receiver\<close>

definition hl :: "char \<times> char \<Rightarrow> nat" where
  "hl num = of_char (fst num) * 256 + of_char (snd num)"

text \<open>A transfer of \<open>n\<close> bytes into \<open>gps_data\<close>, of which \<open>bs\<close> is the content.\<close>

definition rec_simple :: "nat \<Rightarrow> string \<Rightarrow> gps_dev \<Rightarrow> fault + gps_dev" where
  "rec_simple n bs d =
     (if n > length (gps_data d) then Inl BufOverrun
      else Inr (d\<lparr>gps_data := take n bs @ drop (length (take n bs)) (gps_data d)\<rparr>))"

definition clean_ublox_buf :: "(char \<times> char) option \<Rightarrow> string option \<Rightarrow> gps_dev \<Rightarrow> fault + gps_dev" where
  "clean_ublox_buf num answer d =
     (case num of
        None \<Rightarrow> Inr d
      | Some n \<Rightarrow>
          let d1 = d\<lparr>num_avi_gps_data := n, avi_gps_data_hl := hl n\<rparr> in
          if hl n > 0
          then (if hl n > GPS_BUF_SIZE then Inl BufOverrun
                else case answer of None \<Rightarrow> Inr d1 | Some bs \<Rightarrow> rec_simple (hl n) bs d1)
          else Inr d1)"

text \<open>One round of \<open>thread_gps_server\<close>.\<close>

definition gps_server_round :: "(char \<times> char) option \<Rightarrow> string option \<Rightarrow> gps_dev \<Rightarrow> fault + gps_dev" where
  "gps_server_round num answer d =
     (if \<not> work_en d \<or> \<not> started d then Inr d
      else
        let d1 = (case num of
                    None \<Rightarrow> d\<lparr>avi_gps_data_hl := 0\<rparr>
                  | Some n \<Rightarrow> d\<lparr>num_avi_gps_data := n, avi_gps_data_hl := hl n\<rparr>);
            len = avi_gps_data_hl d1
        in if len = 0 \<or> len > GPS_BUF_SIZE then Inr d1
           else case answer of
             None \<Rightarrow> Inr d1
           | Some bs \<Rightarrow>
               bindE (rec_simple len bs d1) (\<lambda>d2.
                 let q = gps_data_fifo d2;
                     q1 = (if kfifo_is_full q then kfifo_reset q else q);
                     d3 = d2\<lparr>gps_data_fifo := kfifo_in (take len (gps_data d2)) q1, wakeups := wakeups d2 + 1\<rparr>
                 in if gps_debug_en d3
                    then bindE (store_at len (CHR 0x00) (gps_data d3)) (\<lambda>b. Inr (d3\<lparr>gps_data := b\<rparr>))
                    else Inr d3))"

definition gps_early_suspend :: "gps_dev \<Rightarrow> gps_dev" where
  "gps_early_suspend d = d\<lparr>work_en := False, gps_data_fifo := kfifo_reset (gps_data_fifo d)\<rparr>"

definition gps_late_resume :: "(char \<times> char) option \<Rightarrow> string option \<Rightarrow> gps_dev \<Rightarrow> fault + gps_dev" where
  "gps_late_resume num answer d =
     bindE (clean_ublox_buf num answer d) (\<lambda>d1.
       Inr (d1\<lparr>gps_data_fifo := kfifo_reset (gps_data_fifo d1), work_en := True\<rparr>))"

text \<open>The answers of the receiver to the attempts, one after the other.\<close>

fun ublox_tries :: "nat \<Rightarrow> string option list \<Rightarrow> gps_dev \<Rightarrow> int \<times> gps_dev" where
  "ublox_tries 0 answers d = (-1, d)"
| "ublox_tries (Suc n) answers d =
     (case answers of
        Some bs # _ \<Rightarrow> (1, d\<lparr>gps_data := take 1 bs @ drop (length (take 1 bs)) (gps_data d)\<rparr>)
      | _ # r \<Rightarrow> ublox_tries n r d
      | [] \<Rightarrow> (-1, d))"

definition is_ublox_exist :: "string option list \<Rightarrow> gps_dev \<Rightarrow> int \<times> gps_dev" where
  "is_ublox_exist answers d = ublox_tries 10 answers d"

section \<open>Interleaving\<close>

datatype gps_action =
    Server "(char \<times> char) option" "string option"
  | Read
  | Wake
  | Ioctl gps_ioctl_cmd
  | Acc system_status
  | EarlySuspend
  | LateResume "(char \<times> char) option" "string option"
  | Proc

text \<open>
  One event, with the bytes it hands to the reader.  A sleeping reader continues when the queue is not
  empty; a reader inside the call starts no second one.
\<close>

inductive gps_step :: "gps_dev \<Rightarrow> gps_action \<Rightarrow> string \<Rightarrow> gps_dev \<Rightarrow> bool" where
  server: "gps_server_round num answer d = Inr d' \<Longrightarrow> gps_step d (Server num answer) [] d'"
| read_data: "gps_reader d = Outside \<Longrightarrow> gps_read d = (Data s, d') \<Longrightarrow> gps_step d Read s d'"
| read_other: "gps_reader d = Outside \<Longrightarrow> gps_read d = (res, d') \<Longrightarrow> res = ReadError \<or> res = Sleeps \<Longrightarrow> gps_step d Read [] d'"
| wake: "gps_reader d = Waiting \<Longrightarrow> \<not> kfifo_is_empty (gps_data_fifo d) \<Longrightarrow> gps_read_locked d = (s, d') \<Longrightarrow> gps_step d Wake s d'"
| ioctl: "gps_step d (Ioctl cmd) [] (snd (gps_ioctl cmd d))"
| acc: "gps_step d (Acc ev) [] (gps_event_handle ev d)"
| early_suspend: "gps_step d EarlySuspend [] (gps_early_suspend d)"
| late_resume: "gps_late_resume num answer d = Inr d' \<Longrightarrow> gps_step d (LateResume num answer) [] d'"
| proc: "gps_step d Proc [] (snd (read_proc d))"

inductive_cases gps_stepE: "gps_step d a s d'"

inductive gps_run :: "gps_dev \<Rightarrow> gps_action list \<Rightarrow> string list \<Rightarrow> gps_dev \<Rightarrow> bool" where
  none: "gps_run d [] [] d"
| step: "gps_step d a s d' \<Longrightarrow> gps_run d' as ss d'' \<Longrightarrow> gps_run d (a # as) (s # ss) d''"

text \<open>The bytes a round of the server takes from the receiver.\<close>

fun chunk :: "gps_dev \<Rightarrow> gps_action \<Rightarrow> string" where
  "chunk d (Server (Some n) (Some bs)) =
     (if work_en d \<and> started d \<and> hl n \<le> GPS_BUF_SIZE
      then take (hl n) (take (hl n) bs @ drop (length (take (hl n) bs)) (gps_data d)) else [])"
| "chunk d _ = []"

text \<open>Runs in which the system is not suspended and what comes from the receiver fits the queue.\<close>

definition undisturbed :: "gps_dev \<Rightarrow> gps_action \<Rightarrow> bool" where
  "undisturbed d a \<longleftrightarrow> (case a of EarlySuspend \<Rightarrow> False | LateResume _ _ \<Rightarrow> False | _ \<Rightarrow> True) \<and>
     kfifo_len (gps_data_fifo d) + length (chunk d a) \<le> kf_size (gps_data_fifo d)"

inductive gps_fed :: "gps_dev \<Rightarrow> gps_action list \<Rightarrow> string \<Rightarrow> string list \<Rightarrow> gps_dev \<Rightarrow> bool" where
  none: "gps_fed d [] [] [] d"
| step: "gps_step d a s d' \<Longrightarrow> undisturbed d a \<Longrightarrow> gps_fed d' as sent ss d'' \<Longrightarrow>
           gps_fed d (a # as) (chunk d a @ sent) (s # ss) d''"

definition gps_ok :: "gps_dev \<Rightarrow> bool" where
  "gps_ok d \<longleftrightarrow> kf_ok (gps_data_fifo d) \<and> kf_size (gps_data_fifo d) = GPS_FIFO_SIZE \<and>
     length (gps_data d) = GPS_BUF_SIZE \<and> length (gps_data_for_hal d) = HAL_BUF_SIZE"

lemma gps_ok_start [simp]: "gps_ok gps_dev_start"
  by (simp add: gps_ok_def gps_dev_start_def)

lemma gps_read_locked_eq:
  "gps_ok d \<Longrightarrow> gps_read_locked d = (s, d') \<Longrightarrow>
     gps_ok d' \<and> s @ kf_data (gps_data_fifo d') = kf_data (gps_data_fifo d) \<and> length s \<le> HAL_BUF_SIZE \<and>
     started d' = started d"
  by (auto simp: gps_read_locked_def gps_ok_def kfifo_out_def kfifo_peek_def kfifo_len_def Let_def)

definition round_idle :: "(char \<times> char) option \<Rightarrow> string option \<Rightarrow> gps_dev \<Rightarrow> bool" where
  "round_idle num answer d \<longleftrightarrow> \<not> work_en d \<or> \<not> started d \<or> num = None \<or> answer = None \<or>
     hl (the num) = 0 \<or> hl (the num) > GPS_BUF_SIZE"

lemma round_idle_eq:
  assumes "round_idle num answer d"
  shows "\<exists>d'. gps_server_round num answer d = Inr d' \<and> gps_data d' = gps_data d \<and> gps_data_for_hal d' = gps_data_for_hal d \<and>
     gps_data_fifo d' = gps_data_fifo d \<and> started d' = started d \<and> gps_reader d' = gps_reader d"
    and "chunk d (Server num answer) = []"
  using assms by (cases num; cases answer; auto simp: gps_server_round_def round_idle_def Let_def)+

lemma round_active_eq:
  assumes "\<not> round_idle (Some n) (Some bs) d" "length (gps_data d) = GPS_BUF_SIZE"
  defines "b \<equiv> take (hl n) bs @ drop (length (take (hl n) bs)) (gps_data d)"
  shows "gps_server_round (Some n) (Some bs) d =
     bindE (if gps_debug_en d then store_at (hl n) (CHR 0x00) b else Inr b) (\<lambda>b'.
       Inr (d\<lparr>num_avi_gps_data := n, avi_gps_data_hl := hl n, gps_data := b', wakeups := wakeups d + 1,
          gps_data_fifo := kfifo_in (take (hl n) b)
            (if kfifo_is_full (gps_data_fifo d) then kfifo_reset (gps_data_fifo d) else gps_data_fifo d)\<rparr>))"
    and "chunk d (Server (Some n) (Some bs)) = take (hl n) b" "length b = GPS_BUF_SIZE" "take (hl n) b \<noteq> []"
proof -
  have c: "work_en d" "started d" "hl n \<noteq> 0" "hl n \<le> GPS_BUF_SIZE" using assms(1) by (simp_all add: round_idle_def)
  then show "gps_server_round (Some n) (Some bs) d =
     bindE (if gps_debug_en d then store_at (hl n) (CHR 0x00) b else Inr b) (\<lambda>b'.
       Inr (d\<lparr>num_avi_gps_data := n, avi_gps_data_hl := hl n, gps_data := b', wakeups := wakeups d + 1,
          gps_data_fifo := kfifo_in (take (hl n) b)
            (if kfifo_is_full (gps_data_fifo d) then kfifo_reset (gps_data_fifo d) else gps_data_fifo d)\<rparr>))"
    using assms(2) by (cases d) (simp add: gps_server_round_def rec_simple_def Let_def b_def)
  show "chunk d (Server (Some n) (Some bs)) = take (hl n) b" using c by (simp add: b_def)
  show "length b = GPS_BUF_SIZE" using c assms(2) by (simp add: b_def)
  then show "take (hl n) b \<noteq> []" using c by auto
qed

lemma gps_server_round_eq:
  assumes "gps_ok d" "gps_server_round num answer d = Inr d'"
  shows "gps_ok d' \<and> started d' = started d \<and> gps_reader d' = gps_reader d \<and>
     kf_data (gps_data_fifo d') =
       (if chunk d (Server num answer) = [] then kf_data (gps_data_fifo d)
        else kf_data (kfifo_in (chunk d (Server num answer))
               (if kfifo_is_full (gps_data_fifo d) then kfifo_reset (gps_data_fifo d) else gps_data_fifo d)))"
proof (cases "round_idle num answer d")
  case True
  then show ?thesis using round_idle_eq [OF True] assms by (auto simp: gps_ok_def)
next
  case False
  then obtain n bs where nb: "num = Some n" "answer = Some bs" by (auto simp: round_idle_def)
  note act = round_active_eq [OF False [unfolded nb]]
  from assms(2) show ?thesis unfolding nb using act assms(1)
    by (auto simp: bindE_eq_Inr_iff gps_ok_def store_at_def split: if_splits)
qed

lemma gps_late_resume_eq:
  "gps_ok d \<Longrightarrow> gps_late_resume num answer d = Inr d' \<Longrightarrow>
     gps_ok d' \<and> started d' = started d \<and> gps_reader d' = gps_reader d \<and> kf_data (gps_data_fifo d') = []"
  by (auto simp: gps_late_resume_def clean_ublox_buf_def gps_ok_def rec_simple_def bindE_eq_Inr_iff Let_def
      split: if_splits option.splits)

lemma gps_ok_flags: "gps_ok d \<Longrightarrow> gps_ok (gps_early_suspend d)" "gps_ok d \<Longrightarrow> gps_ok (snd (read_proc d))"
  by (auto simp: gps_ok_def gps_early_suspend_def read_proc_def)

lemma gps_step_ok: "gps_step d a s d' \<Longrightarrow> gps_ok d \<Longrightarrow> gps_ok d'"
proof (induction rule: gps_step.induct)
  case (read_data d s d')
  then show ?case using gps_read_locked_eq [of d s d'] by (auto simp: gps_read_def split: if_splits prod.splits)
next
  case (read_other d res d')
  then show ?case by (auto simp: gps_read_def gps_ok_def split: if_splits prod.splits)
next
  case (ioctl d cmd)
  then show ?case by (cases cmd) (auto simp: gps_ioctl_def gps_ok_def)
next
  case (acc d ev)
  then show ?case by (cases ev) (auto simp: gps_event_handle_def gps_ok_def)
qed (auto simp: gps_ok_flags dest: gps_server_round_eq gps_read_locked_eq gps_late_resume_eq)

lemma gps_step_stream:
  assumes "gps_step d a s d'" "gps_ok d" "undisturbed d a"
  shows "kf_data (gps_data_fifo d) @ chunk d a = s @ kf_data (gps_data_fifo d')"
  using assms
proof (induction rule: gps_step.induct)
  case (server num answer d d')
  then have "kfifo_is_full (gps_data_fifo d) \<longrightarrow> length (chunk d (Server num answer)) = 0"
    unfolding undisturbed_def kfifo_is_full_def kfifo_len_def by linarith
  then show ?case using server gps_server_round_eq [of d num answer d']
    by (auto simp: undisturbed_def kfifo_len_def)
next
  case (read_data d s d')
  then show ?case using gps_read_locked_eq [of d s d'] by (auto simp: gps_read_def split: if_splits prod.splits)
next
  case (read_other d res d')
  then show ?case by (auto simp: gps_read_def split: if_splits prod.splits)
next
  case (ioctl d cmd)
  then show ?case by (cases cmd) (auto simp: gps_ioctl_def)
next
  case (acc d ev)
  then show ?case by (cases ev) (auto simp: gps_event_handle_def)
qed (auto simp: undisturbed_def read_proc_def dest: gps_read_locked_eq)

lemma gps_fed_stream:
  "gps_fed d as sent ss d' \<Longrightarrow> gps_ok d \<Longrightarrow>
     kf_data (gps_data_fifo d) @ sent = concat ss @ kf_data (gps_data_fifo d')"
proof (induction rule: gps_fed.induct)
  case (step d a s d' as sent ss d'')
  have "kf_data (gps_data_fifo d) @ chunk d a @ sent = s @ kf_data (gps_data_fifo d') @ sent"
    using gps_step_stream [OF step.hyps(1) step.prems step.hyps(2)] by simp
  then show ?case using step.IH gps_step_ok [OF step.hyps(1) step.prems] by simp
qed simp

text \<open>No read brings more than the library's buffer holds.\<close>

lemma gps_fed_short: "gps_fed d as sent ss d' \<Longrightarrow> gps_ok d \<Longrightarrow> \<forall>s\<in>set ss. length s \<le> HAL_BUF_SIZE"
proof (induction rule: gps_fed.induct)
  case (step d a s d' as sent ss d'')
  have "length s \<le> HAL_BUF_SIZE"
    using step.hyps(1) step.prems
    by (cases rule: gps_step.cases) (auto simp: gps_read_def split: if_splits prod.splits dest: gps_read_locked_eq)
  then show ?case using step.IH gps_step_ok [OF step.hyps(1) step.prems] by simp
qed simp

text \<open>
  (C8) The path from the receiver to the reader is a stream: in any interleaving of server rounds, reads,
  wake-ups, ioctls and ignition events in which the system is not suspended and the queue has room, what the
  reads return, followed by what is left in the queue, is what was in the queue followed by what the
  receiver sent, byte for byte and in order.
\<close>

theorem gps_stream_lossless:
  "gps_fed d as sent ss d' \<Longrightarrow> gps_ok d \<Longrightarrow>
     kf_data (gps_data_fifo d) @ sent = concat ss @ kf_data (gps_data_fifo d')"
  by (rule gps_fed_stream)

section \<open>Buffers\<close>

text \<open>
  The buffer \<open>gps_data\<close>: a round of the server leaves it only in debug mode, when the receiver has
  exactly 4096 bytes, where the terminating NUL is stored behind it; cleaning the receiver after a suspend
  leaves it whenever the receiver announces more than 4096 bytes, for the length is not checked there.
\<close>

theorem gps_data_bounds:
  assumes "gps_ok d"
  shows "(gps_server_round num answer d = Inl e \<longleftrightarrow>
            e = BufOverrun \<and> work_en d \<and> started d \<and> gps_debug_en d \<and> answer \<noteq> None \<and>
            (\<exists>n. num = Some n \<and> hl n = GPS_BUF_SIZE)) \<and>
         (gps_late_resume num answer d = Inl e \<longleftrightarrow> e = BufOverrun \<and> (\<exists>n. num = Some n \<and> hl n > GPS_BUF_SIZE))"
proof -
  have l: "length (gps_data d) = GPS_BUF_SIZE" "0 < GPS_BUF_SIZE" using assms by (auto simp: gps_ok_def GPS_BUF_SIZE_def)
  then have "gps_server_round num answer d = Inl e \<longleftrightarrow>
            e = BufOverrun \<and> work_en d \<and> started d \<and> gps_debug_en d \<and> answer \<noteq> None \<and>
            (\<exists>n. num = Some n \<and> hl n = GPS_BUF_SIZE)"
    by (cases num; cases answer) (auto simp: gps_server_round_def rec_simple_def store_at_def Let_def)
  moreover have "gps_late_resume num answer d = Inl e \<longleftrightarrow> e = BufOverrun \<and> (\<exists>n. num = Some n \<and> hl n > GPS_BUF_SIZE)"
    using l by (cases num; cases answer) (auto simp: gps_late_resume_def clean_ublox_buf_def rec_simple_def Let_def)
  ultimately show ?thesis by blast
qed

section \<open>Stopping\<close>

lemma stuck_step:
  assumes "gps_step d a s d'" "gps_ok d" "gps_reader d = Waiting" "\<not> started d" "kf_data (gps_data_fifo d) = []" "a \<noteq> Ioctl GPS_START"
  shows "s = [] \<and> gps_reader d' = Waiting \<and> \<not> started d' \<and> kf_data (gps_data_fifo d') = []"
  using assms
proof (induction rule: gps_step.induct)
  case (server num answer d d')
  then have "chunk d (Server num answer) = []" by (cases num; cases answer) auto
  then show ?case using server gps_server_round_eq [of d num answer d'] by simp
next
  case (ioctl d cmd)
  then show ?case by (cases cmd) (auto simp: gps_ioctl_def)
next
  case (acc d ev)
  then show ?case by (cases ev) (auto simp: gps_event_handle_def)
next
  case (late_resume num answer d d')
  then show ?case using gps_late_resume_eq [of d num answer d'] by simp
qed (auto simp: gps_early_suspend_def read_proc_def kfifo_is_empty_def)

text \<open>
  Stopping strands the reader: a reader asleep on the empty queue when \<open>GPS_STOP\<close> arrives stays asleep,
  and gets nothing, until somebody starts the receiver again, whatever else happens.  The library's thread,
  which asked for a non-blocking descriptor, meanwhile handles no control command.
\<close>

theorem gps_stop_strands_reader:
  "gps_run d as ss d' \<Longrightarrow> gps_ok d \<Longrightarrow> gps_reader d = Waiting \<Longrightarrow> \<not> started d \<Longrightarrow> kf_data (gps_data_fifo d) = [] \<Longrightarrow>
     Ioctl GPS_START \<notin> set as \<Longrightarrow> concat ss = [] \<and> gps_reader d' = Waiting"
proof (induction rule: gps_run.induct)
  case (step d a s d' as ss d'')
  then have "a \<noteq> Ioctl GPS_START" by auto
  with step.hyps(1) step.prems have "s = [] \<and> gps_reader d' = Waiting \<and> \<not> started d' \<and> kf_data (gps_data_fifo d') = []"
    by (intro stuck_step) auto
  then show ?case using step gps_step_ok [OF step.hyps(1)] by auto
qed simp

section \<open>Concrete runs\<close>

text \<open>The receiver is started, sends a line of two bytes in one round, and a read fetches them.\<close>

definition gps_dev_run :: gps_dev where
  "gps_dev_run = gps_dev_start\<lparr>started := True\<rparr>"

definition two_bytes :: gps_action where
  "two_bytes = Server (Some (CHR 0x00, CHR 0x02)) (Some [CHR ''a'', CHR 0x0A])"

definition gps_dev_two :: gps_dev where
  "gps_dev_two = gps_dev_run\<lparr>num_avi_gps_data := (CHR 0x00, CHR 0x02), avi_gps_data_hl := 2,
     gps_data := [CHR ''a'', CHR 0x0A] @ replicate 4094 (CHR 0x00), gps_data_fifo := kfifo_in [CHR ''a'', CHR 0x0A] (kfifo_alloc GPS_FIFO_SIZE), wakeups := 1\<rparr>"

lemma hl_two: "hl (CHR 0x00, CHR 0x02) = 2" by (simp add: hl_def)

lemma two_bytes_step: "gps_step gps_dev_run two_bytes [] gps_dev_two"
  unfolding two_bytes_def
  by (intro gps_step.server) (simp add: gps_server_round_def rec_simple_def hl_two gps_dev_run_def gps_dev_start_def
      gps_dev_two_def Let_def GPS_BUF_SIZE_def kfifo_is_full_def kfifo_len_def GPS_FIFO_SIZE_def)

lemma two_bytes_read: "gps_step gps_dev_two Read [CHR ''a'', CHR 0x0A] (snd (gps_read gps_dev_two))"
  by (intro gps_step.read_data) (simp_all add: gps_read_def gps_read_locked_def gps_dev_two_def gps_dev_run_def gps_dev_start_def
      kfifo_is_empty_def kfifo_out_def kfifo_peek_def kfifo_len_def HAL_BUF_SIZE_def GPS_FIFO_SIZE_def Let_def)

lemma two_bytes_fed: "gps_fed gps_dev_run [two_bytes, Read] [CHR ''a'', CHR 0x0A] [[], [CHR ''a'', CHR 0x0A]] (snd (gps_read gps_dev_two))"
proof -
  have c: "chunk gps_dev_run two_bytes = [CHR ''a'', CHR 0x0A]"
    by (simp add: two_bytes_def hl_two gps_dev_run_def gps_dev_start_def GPS_BUF_SIZE_def)
  have u: "undisturbed gps_dev_run two_bytes"
    unfolding undisturbed_def c by (simp add: two_bytes_def gps_dev_run_def gps_dev_start_def kfifo_len_def GPS_FIFO_SIZE_def)
  have "gps_fed gps_dev_two [Read] (chunk gps_dev_two Read @ []) [[CHR ''a'', CHR 0x0A]] (snd (gps_read gps_dev_two))"
    by (rule gps_fed.step [OF two_bytes_read _ gps_fed.none])
       (simp add: undisturbed_def gps_dev_two_def kfifo_len_def GPS_FIFO_SIZE_def)
  from gps_fed.step [OF two_bytes_step u this] show ?thesis by (simp add: c)
qed

theorem gps_stream_lossless_witness:
  "gps_fed gps_dev_run [two_bytes, Read] [CHR ''a'', CHR 0x0A] [[], [CHR ''a'', CHR 0x0A]] (snd (gps_read gps_dev_two)) \<and>
   kf_data (gps_data_fifo (snd (gps_read gps_dev_two))) = []"
proof -
  have "gps_ok gps_dev_run" using gps_ok_start by (simp add: gps_ok_def gps_dev_run_def)
  from gps_stream_lossless [OF two_bytes_fed this] two_bytes_fed show ?thesis
    by (simp add: gps_dev_run_def gps_dev_start_def)
qed

theorem gps_data_bounds_witness:
  "gps_late_resume (Some (CHR 0x10, CHR 0x01)) None gps_dev_start = Inl BufOverrun"
  using gps_data_bounds [OF gps_ok_start, of None None BufOverrun]
    gps_data_bounds [OF gps_ok_start, of "Some (CHR 0x10, CHR 0x01)" None BufOverrun]
  by (simp add: hl_def GPS_BUF_SIZE_def)

text \<open>A reader that sleeps when the receiver is stopped, a round of the server, and another stop.\<close>

definition gps_dev_asleep :: gps_dev where
  "gps_dev_asleep = gps_dev_start\<lparr>gps_reader := Waiting\<rparr>"

theorem gps_stop_strands_reader_witness:
  "gps_run gps_dev_asleep [two_bytes, Ioctl GPS_STOP] [[], []] gps_dev_asleep \<and> gps_reader gps_dev_asleep = Waiting"
proof -
  have "gps_step gps_dev_asleep two_bytes [] gps_dev_asleep"
    unfolding two_bytes_def by (intro gps_step.server) (simp add: gps_server_round_def gps_dev_asleep_def gps_dev_start_def)
  moreover have "gps_step gps_dev_asleep (Ioctl GPS_STOP) [] gps_dev_asleep"
    using gps_step.ioctl [of gps_dev_asleep GPS_STOP] by (simp add: gps_ioctl_def gps_dev_asleep_def gps_dev_start_def)
  ultimately have run: "gps_run gps_dev_asleep [two_bytes, Ioctl GPS_STOP] [[], []] gps_dev_asleep"
    by (rule gps_run.step [OF _ gps_run.step [OF _ gps_run.none]])
  have "gps_ok gps_dev_asleep" using gps_ok_start by (simp add: gps_ok_def gps_dev_asleep_def)
  from gps_stop_strands_reader [OF run this] run show ?thesis
    by (simp add: gps_dev_asleep_def gps_dev_start_def two_bytes_def)
qed

end
