(* ===== verification/Wakelock.thy ===== *)
theory Wakelock
  imports Prelude
begin

text \<open>
  Wake lock statistics, \<^verbatim>\<open>core/lidbg_wakelock_stat.c\<close>: a list of the wake locks seen so far with their
  counters, fed by the console command \<open>wakelock\<close> and by \<open>lidbg_wakelock_register\<close>, and shown when the
  system does not go to sleep.

  The list of names to be traced in detail is filled by the key-value store, whose entries are read through
  \<open>struct wakelock_item\<close>; the member \<open>name\<close> and the key of such an entry are at the same offset, so
  \<open>wl_detail\<close> is the list of these keys.  \<open>wl_log\<close> collects what is printed.  \<open>kmalloc_ok k\<close> tells whether the
  \<open>k\<close>-th allocation of a call succeeds.
\<close>

record wakelock_item =
  wl_name :: string
  package_name :: string
  cunt :: int
  cunt_max :: int
  is_count_wakelock :: bool
  wl_pid :: u32
  wl_uid :: u32

datatype wl_print =
    WlNew bool string string
  | WlAdd bool int int string string
  | WlDel bool int int string
  | WlLost string
  | WlShow int int nat u32 u32 string string
  | WlNobody
  | WlUsage
  | WlFile nat string string

record wakelock_state =
  lidbg_wakelock_list :: "wakelock_item list"
  wl_detail :: "string list"
  wakelock_dbg :: bool
  wakelock_dbg_item :: u32
  wl_threads :: nat
  wl_log :: "wl_print list"

definition wakelock_start :: "string list \<Rightarrow> wakelock_state" where
  "wakelock_start detail =
     \<lparr>lidbg_wakelock_list = [], wl_detail = detail, wakelock_dbg = False, wakelock_dbg_item = 0, wl_threads = 0, wl_log = []\<rparr>"

definition wl_say :: "wl_print \<Rightarrow> wakelock_state \<Rightarrow> wakelock_state" where
  "wl_say p s = s\<lparr>wl_log := wl_log s @ [p]\<rparr>"

definition get_wakelock_item :: "wakelock_item list \<Rightarrow> string \<Rightarrow> wakelock_item option" where
  "get_wakelock_item l nm = find (\<lambda>pos. wl_name pos = nm) l"

text \<open>The element found is changed in place.\<close>

fun update_wakelock :: "string \<Rightarrow> (wakelock_item \<Rightarrow> wakelock_item) \<Rightarrow> wakelock_item list \<Rightarrow> wakelock_item list" where
  "update_wakelock nm f [] = []"
| "update_wakelock nm f (x # xs) = (if wl_name x = nm then f x # xs else x # update_wakelock nm f xs)"

definition new_wakelock_item ::
  "(nat \<Rightarrow> bool) \<Rightarrow> bool \<Rightarrow> string \<Rightarrow> string option \<Rightarrow> u32 \<Rightarrow> u32 \<Rightarrow> wakelock_state \<Rightarrow> bool \<times> wakelock_state" where
  "new_wakelock_item kmalloc_ok cnt nm pkg pid uid s =
     (if \<not> kmalloc_ok 0 then (False, s)
      else if \<not> kmalloc_ok 1 then (False, s)
      else if pkg \<noteq> None \<and> \<not> kmalloc_ok 2 then (False, s)
      else
        let item = \<lparr>wl_name = nm, package_name = (case pkg of None \<Rightarrow> ''null'' | Some p \<Rightarrow> p), cunt = 1, cunt_max = 1,
                    is_count_wakelock = cnt, wl_pid = pid, wl_uid = uid\<rparr>
        in (True, wl_say (WlNew cnt nm (package_name item))
              (s\<lparr>lidbg_wakelock_list := item # lidbg_wakelock_list s\<rparr>)))"

definition register_wakelock ::
  "(nat \<Rightarrow> bool) \<Rightarrow> bool \<Rightarrow> string \<Rightarrow> string option \<Rightarrow> u32 \<Rightarrow> u32 \<Rightarrow> wakelock_state \<Rightarrow> bool \<times> wakelock_state" where
  "register_wakelock kmalloc_ok cnt nm pkg pid uid s =
     (case get_wakelock_item (lidbg_wakelock_list s) nm of
        Some pos \<Rightarrow>
          let pos' = pos\<lparr>cunt := wrap32 (cunt pos + 1), cunt_max := wrap32 (cunt_max pos + 1)\<rparr>;
              s1 = s\<lparr>lidbg_wakelock_list := update_wakelock nm (\<lambda>_. pos') (lidbg_wakelock_list s)\<rparr>
          in (True, if wakelock_dbg s \<or> nm \<in> set (wl_detail s)
                then wl_say (WlAdd (is_count_wakelock pos') (cunt pos') (cunt_max pos') nm (package_name pos')) s1 else s1)
      | None \<Rightarrow> new_wakelock_item kmalloc_ok cnt nm pkg pid uid s)"

text \<open>\<open>kill\<close> = 2 appends a line to \<^verbatim>\<open>can_t_sleep.txt\<close>; for \<open>kill\<close> = 1 the calls are commented out.\<close>

definition show_item :: "int \<Rightarrow> wakelock_item \<Rightarrow> nat \<times> wl_print list \<Rightarrow> nat \<times> wl_print list" where
  "show_item kill pos = (\<lambda>(index, out).
     if cunt pos \<noteq> 0 \<and> is_count_wakelock pos
     then (index + 1, out @ [WlShow (cunt pos) (cunt_max pos) (index + 1) (wl_pid pos) (wl_uid pos) (wl_name pos) (package_name pos)] @
             (if kill = 2 then [WlFile (index + 1) (wl_name pos) (package_name pos)] else []))
     else (index, out))"

definition lidbg_show_wakelock :: "int \<Rightarrow> wakelock_state \<Rightarrow> wakelock_state" where
  "lidbg_show_wakelock kill s =
     (if lidbg_wakelock_list s \<noteq> []
      then s\<lparr>wl_log := wl_log s @ snd (fold (show_item kill) (lidbg_wakelock_list s) (0, []))\<rparr>
      else wl_say WlNobody s)"

definition unregister_wakelock :: "string \<Rightarrow> wakelock_state \<Rightarrow> bool \<times> wakelock_state" where
  "unregister_wakelock nm s =
     (case get_wakelock_item (lidbg_wakelock_list s) nm of
        Some pos \<Rightarrow>
          let pos' = (if is_count_wakelock pos
                      then (if cunt pos > 0 then pos\<lparr>cunt := cunt pos - 1\<rparr> else pos)
                      else pos\<lparr>cunt := 0\<rparr>);
              s1 = s\<lparr>lidbg_wakelock_list := update_wakelock nm (\<lambda>_. pos') (lidbg_wakelock_list s)\<rparr>
          in (True, if wakelock_dbg s \<or> nm \<in> set (wl_detail s)
                then wl_say (WlDel (is_count_wakelock pos') (cunt pos') (cunt_max pos') nm) s1 else s1)
      | None \<Rightarrow>
          let s1 = wl_say (WlLost nm) s
          in (False, if wakelock_dbg s \<and> lidbg_wakelock_list s \<noteq> [] then lidbg_show_wakelock 0 s1 else s1))"

definition start_wl_dbg_thread :: "string \<Rightarrow> wakelock_state \<Rightarrow> wakelock_state" where
  "start_wl_dbg_thread dbg_ms s = s\<lparr>wakelock_dbg_item := simple_strtoul dbg_ms, wl_threads := wl_threads s + 1\<rparr>"

definition wl_dbg_command :: "nat \<Rightarrow> string" where
  "wl_dbg_command count = ''c wakelock lock count 0 0 f'' @ show_nat count"

definition lidbg_wakelock_stat :: "(nat \<Rightarrow> bool) \<Rightarrow> string list \<Rightarrow> wakelock_state \<Rightarrow> wakelock_state" where
  "lidbg_wakelock_stat kmalloc_ok argv s =
     (if length argv < 5 then wl_say WlUsage s
      else
        let action = argv ! 0; typ = argv ! 1; pid = simple_strtoul (argv ! 2); uid = simple_strtoul (argv ! 3);
            nm = argv ! 4; pkg = (if length argv > 5 then Some (argv ! 5) else None); cnt = (typ = ''count'')
        in if action = ''lock'' then snd (register_wakelock kmalloc_ok cnt nm pkg pid uid s)
           else if action = ''unlock'' then snd (unregister_wakelock nm s)
           else if action = ''show'' then lidbg_show_wakelock 0 s
           else if action = ''dbg'' then start_wl_dbg_thread typ s
           else s)"

text \<open>Compiled only for the older platform: elsewhere the function returns at once.\<close>

definition lidbg_wakelock_register :: "bool \<Rightarrow> (nat \<Rightarrow> bool) \<Rightarrow> bool \<Rightarrow> string \<Rightarrow> wakelock_state \<Rightarrow> wakelock_state" where
  "lidbg_wakelock_register msm8x25 kmalloc_ok to_lock nm s =
     (if \<not> msm8x25 then s
      else if to_lock then snd (register_wakelock kmalloc_ok False nm None 0 0 s)
      else snd (unregister_wakelock nm s))"

section \<open>Specification\<close>

text \<open>What is known of one lock: its kind, and the number of times it is held.\<close>

type_synonym wl_spec = "string \<rightharpoonup> bool \<times> int"

definition wl_abs :: "wakelock_state \<Rightarrow> wl_spec" where
  "wl_abs s = (\<lambda>nm. map_option (\<lambda>i. (is_count_wakelock i, cunt i)) (get_wakelock_item (lidbg_wakelock_list s) nm))"

definition spec_lock :: "bool \<Rightarrow> string \<Rightarrow> wl_spec \<Rightarrow> wl_spec" where
  "spec_lock cnt nm m = m(nm \<mapsto> (case m nm of None \<Rightarrow> (cnt, 1) | Some (k, c) \<Rightarrow> (k, c + 1)))"

definition spec_unlock :: "string \<Rightarrow> wl_spec \<Rightarrow> wl_spec" where
  "spec_unlock nm m = (case m nm of None \<Rightarrow> m | Some (k, c) \<Rightarrow> m(nm \<mapsto> (k, if k then max 0 (c - 1) else 0)))"

definition wl_ok :: "wakelock_state \<Rightarrow> bool" where
  "wl_ok s \<longleftrightarrow> distinct (map wl_name (lidbg_wakelock_list s)) \<and>
     (\<forall>i \<in> set (lidbg_wakelock_list s). 0 \<le> cunt i \<and> cunt i \<le> cunt_max i \<and> cunt_max i < 2 ^ 31)"

lemma get_update:
  "get_wakelock_item (update_wakelock nm f l) n =
     (if n = nm then map_option f (get_wakelock_item l nm) else get_wakelock_item l n)"
  if "\<And>i. wl_name i = nm \<Longrightarrow> wl_name (f i) = nm"
  using that by (induction l) (auto simp: get_wakelock_item_def)

lemma get_wakelock_name: "get_wakelock_item l nm = Some i \<Longrightarrow> wl_name i = nm \<and> i \<in> set l"
  by (auto simp: get_wakelock_item_def find_Some_iff)

lemma get_wakelock_none: "get_wakelock_item l nm = None \<longleftrightarrow> nm \<notin> wl_name ` set l"
  by (auto simp: get_wakelock_item_def find_None_iff)

lemma update_names: "(\<And>i. wl_name i = nm \<Longrightarrow> wl_name (f i) = nm) \<Longrightarrow> map wl_name (update_wakelock nm f l) = map wl_name l"
  by (induction l) auto

lemma update_set: "set (update_wakelock nm (\<lambda>_. p) l) \<subseteq> insert p (set l)"
  by (induction l) auto

definition wl_bounded :: "nat \<Rightarrow> wakelock_state \<Rightarrow> bool" where
  "wl_bounded n s \<longleftrightarrow> distinct (map wl_name (lidbg_wakelock_list s)) \<and>
     (\<forall>i \<in> set (lidbg_wakelock_list s). 0 \<le> cunt i \<and> cunt i \<le> cunt_max i \<and> cunt_max i \<le> int n)"

lemma wl_say_simps [simp]:
  "lidbg_wakelock_list (wl_say p s) = lidbg_wakelock_list s" "wl_abs (wl_say p s) = wl_abs s"
  "wl_bounded n (wl_say p s) = wl_bounded n s"
  by (simp_all add: wl_say_def wl_abs_def wl_bounded_def)

lemma wl_show_simps [simp]:
  "lidbg_wakelock_list (lidbg_show_wakelock k s) = lidbg_wakelock_list s" "wl_abs (lidbg_show_wakelock k s) = wl_abs s"
  "wl_bounded n (lidbg_show_wakelock k s) = wl_bounded n s"
  by (simp_all add: lidbg_show_wakelock_def wl_abs_def wl_bounded_def)

lemma wl_bounded_mono: "wl_bounded n s \<Longrightarrow> n \<le> m \<Longrightarrow> wl_bounded m s"
  by (fastforce simp: wl_bounded_def)

lemma set_item_abs:
  assumes "get_wakelock_item (lidbg_wakelock_list s) nm = Some pos" "wl_name p = nm" "wl_bounded n s"
    and "0 \<le> cunt p" "cunt p \<le> cunt_max p" "cunt_max p \<le> int m" "n \<le> m"
  defines "s' \<equiv> s\<lparr>lidbg_wakelock_list := update_wakelock nm (\<lambda>_. p) (lidbg_wakelock_list s)\<rparr>"
  shows "wl_abs s' = (wl_abs s)(nm \<mapsto> (is_count_wakelock p, cunt p))" "wl_bounded m s'"
proof -
  show "wl_abs s' = (wl_abs s)(nm \<mapsto> (is_count_wakelock p, cunt p))"
    using assms(1,2) by (auto simp: wl_abs_def s'_def get_update)
  have "distinct (map wl_name (update_wakelock nm (\<lambda>_. p) (lidbg_wakelock_list s)))"
    using assms(2,3) by (simp add: update_names wl_bounded_def)
  moreover have "\<forall>i \<in> insert p (set (lidbg_wakelock_list s)). 0 \<le> cunt i \<and> cunt i \<le> cunt_max i \<and> cunt_max i \<le> int m"
    using assms(3-7) by (fastforce simp: wl_bounded_def)
  ultimately show "wl_bounded m s'"
    using update_set [of nm p "lidbg_wakelock_list s"] by (auto simp: wl_bounded_def s'_def)
qed

lemma get_Cons: "get_wakelock_item (x # l) nm = (if wl_name x = nm then Some x else get_wakelock_item l nm)"
  by (simp add: get_wakelock_item_def)

lemma new_item_refines:
  assumes "get_wakelock_item (lidbg_wakelock_list s) nm = None" "wl_bounded n s" "\<forall>k. kmalloc_ok k"
  shows "wl_abs (snd (new_wakelock_item kmalloc_ok cnt nm pkg pid uid s)) = (wl_abs s)(nm \<mapsto> (cnt, 1))"
    and "wl_bounded (Suc n) (snd (new_wakelock_item kmalloc_ok cnt nm pkg pid uid s))"
proof -
  show "wl_abs (snd (new_wakelock_item kmalloc_ok cnt nm pkg pid uid s)) = (wl_abs s)(nm \<mapsto> (cnt, 1))"
    using assms(3) by (auto simp: new_wakelock_item_def Let_def) (auto simp: wl_abs_def get_Cons)
  have "nm \<notin> wl_name ` set (lidbg_wakelock_list s)" using assms(1) by (simp add: get_wakelock_none)
  then show "wl_bounded (Suc n) (snd (new_wakelock_item kmalloc_ok cnt nm pkg pid uid s))"
    using assms(2,3) by (auto simp: new_wakelock_item_def Let_def) (auto simp: wl_bounded_def)
qed

lemma register_refines:
  fixes cnt :: bool and nm :: string and pkg :: "string option" and pid uid :: u32
  assumes "wl_bounded n s" "int n < 2 ^ 31 - 1" "\<forall>k. kmalloc_ok k"
  defines "s' \<equiv> snd (register_wakelock kmalloc_ok cnt nm pkg pid uid s)"
  shows "wl_abs s' = spec_lock cnt nm (wl_abs s) \<and> wl_bounded (Suc n) s'"
proof (cases "get_wakelock_item (lidbg_wakelock_list s) nm")
  case None
  then show ?thesis using new_item_refines [OF None assms(1,3)]
    by (simp add: s'_def register_wakelock_def spec_lock_def) (simp add: wl_abs_def)
next
  case (Some pos)
  then have p: "wl_name pos = nm" "0 \<le> cunt pos" "cunt pos \<le> cunt_max pos" "cunt_max pos \<le> int n"
    using get_wakelock_name [OF Some] assms(1) by (auto simp: wl_bounded_def)
  then have w: "wrap32 (cunt pos + 1) = cunt pos + 1" "wrap32 (cunt_max pos + 1) = cunt_max pos + 1"
    using assms(2) by (auto intro!: wrap32_id)
  have a: "wl_abs s nm = Some (is_count_wakelock pos, cunt pos)" by (simp add: wl_abs_def Some)
  from set_item_abs [OF Some _ assms(1), of "pos\<lparr>cunt := cunt pos + 1, cunt_max := cunt_max pos + 1\<rparr>" "Suc n"] p
  show ?thesis by (simp add: s'_def register_wakelock_def Some w Let_def spec_lock_def a)
qed

lemma unregister_refines:
  fixes nm :: string
  assumes "wl_bounded n s"
  defines "s' \<equiv> snd (unregister_wakelock nm s)"
  shows "wl_abs s' = spec_unlock nm (wl_abs s) \<and> wl_bounded n s'"
proof (cases "get_wakelock_item (lidbg_wakelock_list s) nm")
  case None
  then have "wl_abs s nm = None" by (simp add: wl_abs_def)
  then show ?thesis using assms(1) by (simp add: s'_def unregister_wakelock_def None Let_def spec_unlock_def)
next
  case (Some pos)
  then have p: "wl_name pos = nm" "0 \<le> cunt pos" "cunt pos \<le> cunt_max pos" "cunt_max pos \<le> int n"
    using get_wakelock_name [OF Some] assms(1) by (auto simp: wl_bounded_def)
  have a: "wl_abs s nm = Some (is_count_wakelock pos, cunt pos)" by (simp add: wl_abs_def Some)
  define q where "q = (if is_count_wakelock pos then (if cunt pos > 0 then pos\<lparr>cunt := cunt pos - 1\<rparr> else pos)
    else pos\<lparr>cunt := 0\<rparr>)"
  have q: "wl_name q = nm" "is_count_wakelock q = is_count_wakelock pos" "cunt_max q = cunt_max pos"
    "cunt q = (if is_count_wakelock pos then max 0 (cunt pos - 1) else 0)"
    using p by (auto simp: q_def)
  from set_item_abs [OF Some q(1) assms(1), of n] p q
  show ?thesis by (simp add: s'_def unregister_wakelock_def Some Let_def q_def [symmetric] spec_unlock_def a)
qed

text \<open>The list shown: the counted locks that are held, numbered from 1.\<close>

lemma show_fold:
  "snd (fold (show_item 0) l (k, out)) =
     out @ map (\<lambda>(n, i). WlShow (cunt i) (cunt_max i) n (wl_pid i) (wl_uid i) (wl_name i) (package_name i))
       (enumerate (Suc k) (filter (\<lambda>i. cunt i \<noteq> 0 \<and> is_count_wakelock i) l))"
  by (induction l arbitrary: k out) (auto simp: show_item_def)

datatype wl_op = WlLock bool string | WlUnlock string

definition wl_argv :: "wl_op \<Rightarrow> string list" where
  "wl_argv oper = (case oper of
      WlLock k nm \<Rightarrow> [''lock'', if k then ''count'' else ''uncount'', ''0'', ''0'', nm]
    | WlUnlock nm \<Rightarrow> [''unlock'', ''count'', ''0'', ''0'', nm])"

definition wl_spec_op :: "wl_op \<Rightarrow> wl_spec \<Rightarrow> wl_spec" where
  "wl_spec_op oper = (case oper of WlLock k nm \<Rightarrow> spec_lock k nm | WlUnlock nm \<Rightarrow> spec_unlock nm)"

lemma wl_ops_refine:
  "wl_bounded n s \<Longrightarrow> int (n + length ops) < 2 ^ 31 \<Longrightarrow>
     wl_abs (fold (\<lambda>oper. lidbg_wakelock_stat (\<lambda>_. True) (wl_argv oper)) ops s) = fold wl_spec_op ops (wl_abs s) \<and>
     wl_bounded (n + length ops) (fold (\<lambda>oper. lidbg_wakelock_stat (\<lambda>_. True) (wl_argv oper)) ops s)"
proof (induction ops arbitrary: n s)
  case (Cons oper ops)
  define s1 where "s1 = lidbg_wakelock_stat (\<lambda>_. True) (wl_argv oper) s"
  have "wl_abs s1 = wl_spec_op oper (wl_abs s) \<and> wl_bounded (Suc n) s1"
  proof (cases oper)
    case (WlLock k nm)
    then show ?thesis using register_refines [of n s "\<lambda>_. True" k nm None 0 0] Cons.prems
      by (cases k) (simp_all add: s1_def lidbg_wakelock_stat_def wl_argv_def wl_spec_op_def simple_strtoul_def strtoul_nat_def digit_of_def)
  next
    case (WlUnlock nm)
    then show ?thesis using unregister_refines [of n s nm] Cons.prems wl_bounded_mono [of n _ "Suc n"]
      by (simp add: s1_def lidbg_wakelock_stat_def wl_argv_def wl_spec_op_def)
  qed
  then show ?case using Cons.IH [of "Suc n" s1] Cons.prems by (simp add: s1_def)
qed simp

text \<open>
  (C27) The wake lock list implements its specification: after any sequence of lock and unlock commands on the
  console, fewer than \<open>2\<^sup>3\<^sup>1\<close> of them and with memory for the new entries, the list holds exactly the names that were locked, each with the kind of
  its first lock and with the number of times it is held, where unlocking a counted lock takes off one, never
  below zero, and unlocking another lock releases it completely.
\<close>

theorem wakelock_counts:
  assumes "int (length ops) < 2 ^ 31"
  shows "wl_abs (fold (\<lambda>oper. lidbg_wakelock_stat (\<lambda>_. True) (wl_argv oper)) ops (wakelock_start detail)) =
           fold wl_spec_op ops Map.empty"
proof -
  have "wl_bounded 0 (wakelock_start detail)" "wl_abs (wakelock_start detail) = Map.empty"
    by (auto simp: wl_bounded_def wakelock_start_def wl_abs_def get_wakelock_item_def)
  then show ?thesis using wl_ops_refine [of 0 "wakelock_start detail" ops] assms by simp
qed

theorem wakelock_counts_witness:
  "wl_abs (fold (\<lambda>oper. lidbg_wakelock_stat (\<lambda>_. True) (wl_argv oper))
      [WlLock True ''radio'', WlLock True ''radio'', WlUnlock ''radio'', WlUnlock ''gps''] (wakelock_start [])) =
     [''radio'' \<mapsto> (True, 1)]"
  using wakelock_counts [of "[WlLock True ''radio'', WlLock True ''radio'', WlUnlock ''radio'', WlUnlock ''gps'']" "[]"]
  by (simp add: wl_spec_op_def spec_lock_def spec_unlock_def)

end
