(* ===== verification/Ts_Event.thy ===== *)
theory Ts_Event
  imports Prelude
begin

text \<open>
  Hidden commands entered on the touch screen, \<^verbatim>\<open>core/lidbg_ts_event.c\<close>: a tap in one of the four corners
  is a digit, six digits are a password, the corner with digit 3 clears the input.  Modules register
  passwords with a callback; \<^verbatim>\<open>core/lidbg_misc.c\<close> registers nine of them.

  A callback is a value of \<open>te_cb\<close>; the calls are collected in \<open>te_called\<close>, and the one callback of this
  module, \<open>cb_password_te_enable\<close>, has its effect.  The six characters of \<open>prepare_cmd\<close> are not terminated,
  so the string comparison reads on into the memory behind the array: \<open>beyond\<close>.  The thread samples the
  global \<open>g_curr_tspara\<close>, which the touch driver writes; a call of \<open>getnum_andanalysis\<close> that sees a
  press is given the sampled position, and returns after the release.
\<close>

definition SCEEN_X :: int where "SCEEN_X = 1024"
definition SCEEN_Y :: int where "SCEEN_Y = 600"
definition RECT_WIDE :: int where "RECT_WIDE = 100"
definition RECT_HIGH :: int where "RECT_HIGH = RECT_WIDE"
definition CMD_MAX :: nat where "CMD_MAX = 6"
definition PASSWORD_TE_ON :: string where "PASSWORD_TE_ON = ''001122''"

datatype te_cb =
    cb_password_te_enable
  | cb_password_remove_apk
  | cb_password_upload
  | cb_password_call_apk
  | cb_password_clean_all
  | cb_password_chmod
  | cb_password_update
  | cb_password_gui_kmsg
  | cb_password_gui_state
  | cb_password_mem_log

record dev_password =
  password :: string
  pw_callback :: te_cb

record devrect =
  rect_name :: char
  rect_id :: int
  wide :: int
  high :: int
  x0 :: int
  y0 :: int

definition devrect_list :: "devrect list" where
  "devrect_list =
     [\<lparr>rect_name = CHR ''0'', rect_id = 0, wide = RECT_WIDE, high = RECT_HIGH, x0 = 0, y0 = 0\<rparr>,
      \<lparr>rect_name = CHR ''1'', rect_id = 1, wide = RECT_WIDE, high = RECT_HIGH, x0 = SCEEN_X - RECT_WIDE, y0 = 0\<rparr>,
      \<lparr>rect_name = CHR ''2'', rect_id = 2, wide = RECT_WIDE, high = RECT_HIGH, x0 = 0, y0 = SCEEN_Y - RECT_HIGH\<rparr>,
      \<lparr>rect_name = CHR ''3'', rect_id = 3, wide = RECT_WIDE, high = RECT_HIGH, x0 = SCEEN_X - RECT_WIDE, y0 = SCEEN_Y - RECT_HIGH\<rparr>]"

record te_state =
  te_password_list :: "dev_password list"
  prepare_cmd :: string
  prepare_cmdpos :: nat
  g_is_te_enable :: bool
  fs_work_enable :: bool
  te_called :: "te_cb list"
  te_acks :: nat

definition te_start :: te_state where
  "te_start = \<lparr>te_password_list = [], prepare_cmd = replicate CMD_MAX (CHR 0x00), prepare_cmdpos = 0,
     g_is_te_enable = False, fs_work_enable = False, te_called = [], te_acks = 0\<rparr>"

section \<open>Passwords\<close>

definition new_password_dev :: "string \<Rightarrow> te_cb \<Rightarrow> te_state \<Rightarrow> te_state" where
  "new_password_dev pw cb s = s\<lparr>te_password_list := \<lparr>password = pw, pw_callback = cb\<rparr> # te_password_list s\<rparr>"

definition is_password_exist :: "string \<Rightarrow> te_state \<Rightarrow> bool" where
  "is_password_exist pw s = list_ex (\<lambda>pos. password pos = pw) (te_password_list s)"

definition regist_password :: "string \<Rightarrow> te_cb \<Rightarrow> te_state \<Rightarrow> bool \<times> te_state" where
  "regist_password pw cb s =
     (if \<not> is_password_exist pw s then (True, new_password_dev pw cb s) else (False, s))"

definition te_regist_password :: "string option \<Rightarrow> te_cb option \<Rightarrow> te_state \<Rightarrow> bool \<times> te_state" where
  "te_regist_password pw cb s =
     (case (pw, cb) of (Some p, Some c) \<Rightarrow> regist_password p c s | _ \<Rightarrow> (False, s))"

definition run_cb :: "te_cb \<Rightarrow> te_state \<Rightarrow> te_state" where
  "run_cb cb s =
     (let s1 = s\<lparr>te_called := te_called s @ [cb], te_acks := te_acks s + 1\<rparr> in
      if cb = cb_password_te_enable then s1\<lparr>g_is_te_enable := True, fs_work_enable := True\<rparr> else s1)"

definition call_password_cb :: "string \<Rightarrow> te_state \<Rightarrow> bool \<times> te_state" where
  "call_password_cb pw s =
     (if te_password_list s = [] then (False, s)
      else (True, fold (\<lambda>pos s. if password pos = pw then run_cb (pw_callback pos) s else s) (te_password_list s) s))"

section \<open>Input\<close>

definition get_num :: "int \<Rightarrow> int \<Rightarrow> int" where
  "get_num x y =
     (case find (\<lambda>r. x > x0 r \<and> y > y0 r \<and> x < x0 r + wide r \<and> y < y0 r + high r) devrect_list of
        None \<Rightarrow> -1 | Some r \<Rightarrow> rect_id r)"

definition reset_cmd :: "te_state \<Rightarrow> te_state" where
  "reset_cmd s = s\<lparr>prepare_cmdpos := 0, prepare_cmd := replicate CMD_MAX (CHR 0x00)\<rparr>"

definition launch_cmd :: "string \<Rightarrow> te_state \<Rightarrow> te_state" where
  "launch_cmd beyond s =
     (let pw = c_string (prepare_cmd s @ beyond) in
      reset_cmd (if g_is_te_enable s \<or> pw = PASSWORD_TE_ON then snd (call_password_cb pw s) else s))"

definition getnum_andanalysis :: "string \<Rightarrow> bool \<Rightarrow> int \<Rightarrow> int \<Rightarrow> te_state \<Rightarrow> fault + te_state" where
  "getnum_andanalysis beyond press x y s =
     (if press then
        let num = get_num x y in
        if num \<ge> 0 then
          (if rect_id (devrect_list ! 3) = num then Inr (reset_cmd s)
           else bindE (store_at (prepare_cmdpos s) (rect_name (devrect_list ! nat num)) (prepare_cmd s)) (\<lambda>b.
             let s1 = s\<lparr>prepare_cmd := b, prepare_cmdpos := prepare_cmdpos s + 1\<rparr>
             in Inr (if prepare_cmdpos s1 \<ge> CMD_MAX then launch_cmd beyond s1 else s1)))
        else Inr s
      else Inr s)"

definition thread_te_analysis :: "string \<Rightarrow> (bool \<times> int \<times> int) list \<Rightarrow> te_state \<Rightarrow> fault + te_state" where
  "thread_te_analysis beyond samples s = foldE (\<lambda>(press, x, y). getnum_andanalysis beyond press x y) samples s"

definition touch_event_init :: "te_state \<Rightarrow> te_state" where
  "touch_event_init s = snd (te_regist_password (Some PASSWORD_TE_ON) (Some cb_password_te_enable) s)"

text \<open>The passwords of \<open>misc_init\<close>, in the order of the code.\<close>

definition misc_passwords :: "(string \<times> te_cb) list" where
  "misc_passwords =
     [(''001100'', cb_password_remove_apk), (''001101'', cb_password_upload), (''001102'', cb_password_call_apk),
      (''001110'', cb_password_clean_all), (''001111'', cb_password_chmod), (''001112'', cb_password_update),
      (''001120'', cb_password_gui_kmsg), (''001121'', cb_password_gui_state), (''011200'', cb_password_mem_log)]"

definition misc_regist :: "te_state \<Rightarrow> te_state" where
  "misc_regist s = fold (\<lambda>(pw, cb) s. snd (te_regist_password (Some pw) (Some cb) s)) misc_passwords s"

section \<open>Digits\<close>

text \<open>A tap on a corner that is not the clearing one, and the digit it enters.\<close>

definition is_digit_tap :: "int \<times> int \<Rightarrow> bool" where
  "is_digit_tap p \<longleftrightarrow> get_num (fst p) (snd p) \<in> {0, 1, 2}"

definition tap_digit :: "int \<times> int \<Rightarrow> char" where
  "tap_digit p = rect_name (devrect_list ! nat (get_num (fst p) (snd p)))"

definition te_ok :: "te_state \<Rightarrow> bool" where
  "te_ok s \<longleftrightarrow> length (prepare_cmd s) = CMD_MAX \<and> prepare_cmdpos s < CMD_MAX"

lemma reset_ok [simp]: "te_ok (reset_cmd s)"
  by (simp add: te_ok_def reset_cmd_def CMD_MAX_def)

lemma clear_id: "rect_id (devrect_list ! 3) = 3" by (simp add: devrect_list_def)

lemma analysis_ok: "te_ok s \<Longrightarrow> \<exists>s'. getnum_andanalysis beyond press x y s = Inr s' \<and> te_ok s'"
  by (auto simp: getnum_andanalysis_def Let_def store_at_def launch_cmd_def) (auto simp: te_ok_def)

lemma digit_tap:
  assumes "is_digit_tap p" "te_ok s"
  shows "getnum_andanalysis beyond True (fst p) (snd p) s =
    (let s1 = s\<lparr>prepare_cmd := (prepare_cmd s)[prepare_cmdpos s := tap_digit p], prepare_cmdpos := prepare_cmdpos s + 1\<rparr>
     in Inr (if prepare_cmdpos s + 1 \<ge> CMD_MAX then launch_cmd beyond s1 else s1))"
  using assms by (auto simp: getnum_andanalysis_def is_digit_tap_def te_ok_def clear_id store_at_def tap_digit_def Let_def)

definition tapped :: "(int \<times> int) list \<Rightarrow> (bool \<times> int \<times> int) list" where
  "tapped ps = map (\<lambda>p. (True, fst p, snd p)) ps"

lemma digits_entered:
  "te_ok s \<Longrightarrow> \<forall>p \<in> set ps. is_digit_tap p \<Longrightarrow> prepare_cmdpos s + length ps < CMD_MAX \<Longrightarrow>
     thread_te_analysis beyond (tapped ps) s =
       Inr (s\<lparr>prepare_cmd := take (prepare_cmdpos s) (prepare_cmd s) @ map tap_digit ps @
                drop (prepare_cmdpos s + length ps) (prepare_cmd s),
              prepare_cmdpos := prepare_cmdpos s + length ps\<rparr>)"
proof (induction ps arbitrary: s)
  case Nil
  then show ?case by (simp add: thread_te_analysis_def tapped_def)
next
  case (Cons p ps)
  define s1 where "s1 = s\<lparr>prepare_cmd := (prepare_cmd s)[prepare_cmdpos s := tap_digit p], prepare_cmdpos := prepare_cmdpos s + 1\<rparr>"
  have "getnum_andanalysis beyond True (fst p) (snd p) s = Inr s1"
    using digit_tap [of p s beyond] Cons.prems by (simp add: s1_def Let_def)
  moreover have "te_ok s1" using Cons.prems by (auto simp: te_ok_def s1_def)
  ultimately show ?case using Cons.IH [of s1] Cons.prems
    by (simp add: thread_te_analysis_def tapped_def s1_def te_ok_def take_Suc_conv_app_nth drop_update_cancel case_prod_beta)
qed

definition call_one :: "string \<Rightarrow> dev_password \<Rightarrow> te_state \<Rightarrow> te_state" where
  "call_one pw pos s = (if password pos = pw then run_cb (pw_callback pos) s else s)"

lemma call_one_frame:
  "call_one pw pos (s\<lparr>prepare_cmd := b, prepare_cmdpos := n\<rparr>) = (call_one pw pos s)\<lparr>prepare_cmd := b, prepare_cmdpos := n\<rparr>"
  by (cases s) (simp add: call_one_def run_cb_def Let_def)

lemma call_password_one:
  "snd (call_password_cb pw s) = fold (call_one pw) (te_password_list s) s"
  by (simp add: call_password_cb_def call_one_def [abs_def])

lemma call_password_frame:
  "snd (call_password_cb pw (s\<lparr>prepare_cmd := b, prepare_cmdpos := n\<rparr>)) =
     (snd (call_password_cb pw s))\<lparr>prepare_cmd := b, prepare_cmdpos := n\<rparr>"
proof -
  have "fold (call_one pw) l (s\<lparr>prepare_cmd := b, prepare_cmdpos := n\<rparr>) =
      (fold (call_one pw) l s)\<lparr>prepare_cmd := b, prepare_cmdpos := n\<rparr>" for l
    by (induction l arbitrary: s) (simp_all add: call_one_frame)
  then show ?thesis by (simp add: call_password_one)
qed

text \<open>The callbacks registered for a password, and what their run leaves.\<close>

definition registered :: "string \<Rightarrow> te_state \<Rightarrow> te_cb list" where
  "registered pw s = map pw_callback (filter (\<lambda>d. password d = pw) (te_password_list s))"

definition callbacks_done :: "te_cb list \<Rightarrow> te_state \<Rightarrow> te_state" where
  "callbacks_done cbs s =
     s\<lparr>te_called := te_called s @ cbs, te_acks := te_acks s + length cbs,
       g_is_te_enable := g_is_te_enable s \<or> cb_password_te_enable \<in> set cbs,
       fs_work_enable := fs_work_enable s \<or> cb_password_te_enable \<in> set cbs\<rparr>"

lemma call_password_done: "snd (call_password_cb pw s) = callbacks_done (registered pw s) s"
proof -
  have "fold (call_one pw) l s = callbacks_done (map pw_callback (filter (\<lambda>d. password d = pw) l)) s" for l
  proof (induction l arbitrary: s)
    case (Cons d l)
    then show ?case by (cases s) (simp add: call_one_def run_cb_def callbacks_done_def Let_def)
  qed (simp add: callbacks_done_def)
  then show ?thesis by (simp add: call_password_one registered_def)
qed

text \<open>
  (C28) Six taps on the digit corners, starting with no input, are taken as one password.  When the input is enabled or the password is the
  one that enables it, exactly the callbacks registered for this password run, in the order of the list, each is acknowledged,
  and the callback that enables the input does so; else none runs.  The registered passwords stay, and the input is empty again.
  This needs a NUL in the byte behind \<open>prepare_cmd\<close>, for the six characters leave no room for one.
\<close>

theorem password_entered:
  assumes "te_ok s" "prepare_cmdpos s = 0" "length ps = 6" "\<forall>p \<in> set ps. is_digit_tap p" "beyond = CHR 0x00 # rest"
  defines "pw \<equiv> map tap_digit ps"
  defines "cbs \<equiv> (if g_is_te_enable s \<or> pw = ''001122''
                    then map pw_callback (filter (\<lambda>d. password d = pw) (te_password_list s)) else [])"
  shows "\<exists>s'. thread_te_analysis beyond (tapped ps) s = Inr s' \<and>
    te_called s' = te_called s @ cbs \<and> te_acks s' = te_acks s + length cbs \<and>
    g_is_te_enable s' = (g_is_te_enable s \<or> cb_password_te_enable \<in> set cbs) \<and>
    te_password_list s' = te_password_list s \<and> prepare_cmdpos s' = 0 \<and> prepare_cmd s' = replicate 6 (CHR 0x00)"
proof -
  define qs p where "qs = butlast ps" and "p = last ps"
  have ps: "ps = qs @ [p]" "length qs = 5" using assms(3) by (auto simp: qs_def p_def intro: append_butlast_last_id [symmetric])
  define s1 where "s1 = s\<lparr>prepare_cmd := map tap_digit qs @ drop 5 (prepare_cmd s), prepare_cmdpos := 5\<rparr>"
  have t: "thread_te_analysis beyond (tapped qs) s = Inr s1"
    using digits_entered [of s qs beyond] assms ps by (simp add: s1_def CMD_MAX_def)
  have l: "length (prepare_cmd s) = 6" using assms(1) by (simp add: te_ok_def CMD_MAX_def)
  have ok: "te_ok s1" using l ps by (simp add: s1_def te_ok_def CMD_MAX_def)
  have cmd: "(prepare_cmd s1)[5 := tap_digit p] = pw"
    using ps l by (auto simp: s1_def pw_def list_update_append drop_eq_Nil2 Cons_nth_drop_Suc [symmetric])
  have nz: "CHR 0x00 \<notin> set pw"
    using assms(4) by (auto simp: pw_def is_digit_tap_def tap_digit_def devrect_list_def)
  then have cs: "c_string (pw @ beyond) = pw" by (simp add: c_string_def assms(5) takeWhile_append)
  have last_tap: "getnum_andanalysis beyond True (fst p) (snd p) s1 =
      Inr (launch_cmd beyond (s1\<lparr>prepare_cmd := pw, prepare_cmdpos := 6\<rparr>))"
    using digit_tap [of p s1 beyond] ok ps assms(4) cmd by (simp add: s1_def CMD_MAX_def Let_def)
  have r: "reset_cmd (t\<lparr>prepare_cmd := b, prepare_cmdpos := n\<rparr>) = reset_cmd t" for t b n by (cases t) (simp add: reset_cmd_def)
  have "launch_cmd beyond (s1\<lparr>prepare_cmd := pw, prepare_cmdpos := 6\<rparr>) =
      reset_cmd (if g_is_te_enable s \<or> pw = PASSWORD_TE_ON then snd (call_password_cb pw s) else s)"
    by (simp add: launch_cmd_def cs Let_def s1_def call_password_frame r cong: if_cong)
  with t last_tap have "thread_te_analysis beyond (tapped ps) s =
      Inr (reset_cmd (if g_is_te_enable s \<or> pw = PASSWORD_TE_ON then snd (call_password_cb pw s) else s))"
    by (simp add: ps thread_te_analysis_def tapped_def foldE_append case_prod_beta)
  moreover have "cbs = (if g_is_te_enable s \<or> pw = PASSWORD_TE_ON then registered pw s else [])"
    by (simp add: cbs_def registered_def PASSWORD_TE_ON_def)
  ultimately show ?thesis
    by (simp only: call_password_done) (simp add: callbacks_done_def reset_cmd_def CMD_MAX_def)
qed

section \<open>The registered passwords\<close>

text \<open>The middle of the corner that enters a digit.\<close>

definition corner :: "char \<Rightarrow> int \<times> int" where
  "corner c = (if c = CHR ''0'' then (50, 50) else if c = CHR ''1'' then (974, 50) else (50, 550))"

definition te_booted :: te_state where
  "te_booted = misc_regist (touch_event_init te_start)"

theorem password_entered_witness:
  "case thread_te_analysis [CHR 0x00] (tapped (map corner PASSWORD_TE_ON)) te_booted of
     Inl _ \<Rightarrow> False | Inr s \<Rightarrow> te_called s = [cb_password_te_enable] \<and> prepare_cmdpos s = 0"
proof -
  let ?ps = "map corner PASSWORD_TE_ON"
  have "te_ok te_booted \<and> prepare_cmdpos te_booted = 0 \<and> length ?ps = 6 \<and> list_all is_digit_tap ?ps"
    by code_simp
  then obtain s' where s': "thread_te_analysis [CHR 0x00] (tapped ?ps) te_booted = Inr s'"
    "te_called s' = te_called te_booted @ (if g_is_te_enable te_booted \<or> map tap_digit ?ps = ''001122''
       then map pw_callback (filter (\<lambda>d. password d = map tap_digit ?ps) (te_password_list te_booted)) else [])"
    "prepare_cmdpos s' = 0"
    using password_entered [of te_booted ?ps "[CHR 0x00]" "[]"] by (auto simp: list_all_iff)
  have "map tap_digit ?ps = ''001122'' \<and> te_called te_booted = [] \<and>
      map pw_callback (filter (\<lambda>d. password d = ''001122'') (te_password_list te_booted)) = [cb_password_te_enable]"
    by code_simp
  with s' show ?thesis by simp
qed

text \<open>
  Every password that \<^verbatim>\<open>core/lidbg_misc.c\<close> registers can be entered: after the enabling password, the six
  taps for it run its callback and no other, so no two of them collide and none needs the clearing corner.
\<close>

theorem misc_passwords_reachable:
  "list_all (\<lambda>(pw, cb).
     case thread_te_analysis [CHR 0x00] (tapped (map corner (PASSWORD_TE_ON @ pw))) te_booted of
       Inl _ \<Rightarrow> False
     | Inr s \<Rightarrow> te_called s = [cb_password_te_enable, cb] \<and> prepare_cmdpos s = 0) misc_passwords"
  by code_simp

end
