(* ===== verification/Pm_Common.thy ===== *)
theory Pm_Common
  imports Wakelock
begin

text \<open>
  Helpers that the two power drivers share, \<^verbatim>\<open>drivers/fastboot/lidbg_fastboot.c\<close> and
  \<^verbatim>\<open>drivers/acc/lidbg_acc.c\<close>: the search for clocks that keep the chip awake, the listing of the wake locks that
  are held, and the killing of processes before a suspend.

  The clock controller is outside: \<open>enabled i\<close> tells whether \<open>pc_clk_is_enabled(i)\<close> is non-zero, \<open>nr\<close> is
  \<open>P_NR_CLKS\<close>.  The loops over \<open>safe_clk\<close> run to \<open>sizeof(safe_clk)\<close>, the size in bytes: \<open>beyond\<close> are the
  integers stored behind the table.  \<open>procs\<close> is the process list.
\<close>

datatype pm_status =
    PM_STATUS_EARLY_SUSPEND_PENDING
  | PM_STATUS_SUSPEND_PENDING
  | PM_STATUS_RESUME_OK
  | PM_STATUS_LATE_RESUME_OK
  | PM_STATUS_READY_TO_PWROFF
  | PM_STATUS_READY_TO_FAKE_PWROFF

record task =
  comm :: string
  pid :: u32

section \<open>Clocks\<close>

definition check_all_clk_disable :: "(nat \<Rightarrow> bool) \<Rightarrow> nat \<Rightarrow> nat" where
  "check_all_clk_disable enabled nr = length (filter enabled (rev [0..<nr]))"

definition fb_safe_clk :: "nat list" where
  "fb_safe_clk = [113, 105, 103, 102, 95, 51, 31, 20, 16, 15, 12, 10, 8, 4, 3, 1]"

definition acc_safe_clk :: "nat list" where
  "acc_safe_clk = [113, 109, 106, 105, 104, 103, 102, 97, 95, 53, 51, 37, 32, 31, 24, 23, 22, 21, 20, 16, 15, 12, 10, 8, 4, 3, 1]"

definition is_safe_clk :: "nat list \<Rightarrow> nat list \<Rightarrow> nat \<Rightarrow> bool" where
  "is_safe_clk table beyond i = list_ex (\<lambda>c. i = c) (take (4 * length table) (table @ beyond))"

text \<open>The fastboot version: the result, and the clocks written to the log.\<close>

definition find_unsafe_clk :: "nat list \<Rightarrow> (nat \<Rightarrow> bool) \<Rightarrow> nat \<Rightarrow> bool \<times> nat list" where
  "find_unsafe_clk beyond enabled nr =
     fold (\<lambda>i (ret, log). if enabled i \<and> \<not> is_safe_clk fb_safe_clk beyond i then (True, log @ [i]) else (ret, log))
       (rev [0..<nr]) (False, [])"

text \<open>
  The version of the acc driver: only the clocks 14, 33 and 34 count.  For clock 14 the display pipe is
  switched off (\<open>mdp_flag\<close>), and the result becomes zero when the clock then is off (\<open>still\<close>).
\<close>

definition acc_unsafe_step :: "nat list \<Rightarrow> (nat \<Rightarrow> bool) \<Rightarrow> bool \<Rightarrow> nat \<Rightarrow> bool \<times> bool \<times> nat list \<Rightarrow> bool \<times> bool \<times> nat list" where
  "acc_unsafe_step beyond enabled still i = (\<lambda>(ret, mdp_flag, log).
     if enabled i \<and> \<not> is_safe_clk acc_safe_clk beyond i then
       if i = 14 \<or> i = 33 \<or> i = 34 then
         if i = 14 then (still, True, log @ [i]) else (True, mdp_flag, log @ [i])
       else (ret, mdp_flag, log)
     else (ret, mdp_flag, log))"

definition acc_find_unsafe_clk :: "nat list \<Rightarrow> (nat \<Rightarrow> bool) \<Rightarrow> bool \<Rightarrow> nat \<Rightarrow> bool \<Rightarrow> bool \<times> bool \<times> nat list" where
  "acc_find_unsafe_clk beyond enabled still nr mdp_flag =
     fold (acc_unsafe_step beyond enabled still) (rev [0..<nr]) (False, mdp_flag, [])"

section \<open>Wake locks that are held\<close>

definition ignored_locks :: "string list" where
  "ignored_locks = [''mmc0_detect'', ''mmc1_detect'', ''mmc2_detect'', ''msm_serial_hs_rx'', ''msm_serial_hs_dma'']"

definition task_find_by_pid :: "task list \<Rightarrow> u32 \<Rightarrow> string" where
  "task_find_by_pid procs p = (case find (\<lambda>t. pid t = p) procs of None \<Rightarrow> [] | Some t \<Rightarrow> comm t)"

datatype lock_line =
    HeldLock nat u32 u32 bool string int int
  | BlockWakelock string
  | FindByPid bool string u32
  | NobodyRegister

text \<open>The variants differ in one point: in the fastboot driver the process is only looked up for the log file.\<close>

definition lock_lines :: "bool \<Rightarrow> task list \<Rightarrow> bool \<Rightarrow> wakelock_item \<Rightarrow> nat \<times> lock_line list \<Rightarrow> nat \<times> lock_line list" where
  "lock_lines always procs file_log pos = (\<lambda>(index, out).
     if cunt pos > 0 \<and> wl_name pos \<notin> set ignored_locks
     then (index + 1, out @ [HeldLock (index + 1) (wl_pid pos) (wl_uid pos) (is_count_wakelock pos) (wl_name pos) (cunt pos) (cunt_max pos)] @
             (if file_log then [BlockWakelock (wl_name pos)] else []) @
             (if (file_log \<or> always) \<and> wl_pid pos \<noteq> 0
              then [FindByPid file_log (task_find_by_pid procs (wl_pid pos)) (wl_pid pos)] else []))
     else (index, out))"

definition show_wakelock :: "bool \<Rightarrow> task list \<Rightarrow> bool \<Rightarrow> wakelock_item list \<Rightarrow> lock_line list" where
  "show_wakelock always procs file_log l =
     (if l = [] then [NobodyRegister] else []) @ snd (fold (lock_lines always procs file_log) l (0, []))"

section \<open>Killing\<close>

definition kill_prefixes :: "string list" where
  "kill_prefixes = [''flush'', ''mtdblock'', ''kworker'', ''yaffs'', ''irq'', ''migration'', ''mmcqd'', ''Fly'', ''fly'', ''flyaudio'',
     ''ksdioirqd'', ''jbd2'', ''ext4'', ''scsi'', ''loop'', ''ServiceHandler'', ''system'', ''ksoftirqd'', ''ftf'', ''lidbg_'']"

definition kill_exempt :: "string list \<Rightarrow> string list \<Rightarrow> task \<Rightarrow> bool" where
  "kill_exempt pfx not_kill p \<longleftrightarrow>
     list_ex (\<lambda>s. take (length s) (comm p) = s) pfx \<or> list_ex (\<lambda>s. comm p = s) not_kill"

text \<open>
  The names are collected in \<open>kill_process[32][25]\<close>, with the name as the format of \<open>sprintf\<close>; a name of
  the kernel has at most 15 characters.  \<open>force\<close>: the acc driver only lists the processes.
\<close>

definition kill_one :: "bool \<Rightarrow> string list \<Rightarrow> string list \<Rightarrow> task \<Rightarrow> u32 list \<times> string list \<Rightarrow> fault + (u32 list \<times> string list)" where
  "kill_one force pfx not_kill p = (\<lambda>(killed, rows).
     if kill_exempt pfx not_kill p then Inr (killed, rows)
     else if length rows \<ge> 32 then Inl BufOverrun
     else if CHR ''%'' \<in> set (comm p) then Inl BadFormat
     else Inr (if force then killed @ [pid p] else killed, rows @ [comm p]))"

definition fastboot_task_kill_exclude :: "bool \<Rightarrow> string list \<Rightarrow> string list \<Rightarrow> task list \<Rightarrow> fault + (u32 list \<times> string list)" where
  "fastboot_task_kill_exclude force pfx not_kill procs = foldE (kill_one force pfx not_kill) procs ([], [])"

definition task_kill_select :: "string \<Rightarrow> task list \<Rightarrow> u32 list" where
  "task_kill_select task_name procs = (case find (\<lambda>p. comm p = task_name) procs of None \<Rightarrow> [] | Some p \<Rightarrow> [pid p])"

section \<open>Lemmas\<close>

lemma find_unsafe_fold:
  "fold (\<lambda>i (ret, log). if P i then (True, log @ [i]) else (ret, log)) xs (r, l) = (r \<or> list_ex P xs, l @ filter P xs)"
  by (induction xs arbitrary: r l) auto

lemma find_unsafe_clk_eq:
  "find_unsafe_clk beyond enabled nr =
     (\<exists>i < nr. enabled i \<and> \<not> is_safe_clk fb_safe_clk beyond i, filter (\<lambda>i. enabled i \<and> \<not> is_safe_clk fb_safe_clk beyond i) (rev [0..<nr]))"
  unfolding find_unsafe_clk_def find_unsafe_fold by (auto simp: list_ex_iff)

lemma acc_unsafe_skip:
  "\<forall>i \<in> set xs. i \<noteq> 14 \<and> i \<noteq> 33 \<and> i \<noteq> 34 \<Longrightarrow> fold (acc_unsafe_step beyond enabled still) xs s = s"
  by (induction xs arbitrary: s) (auto simp: acc_unsafe_step_def)

lemma safe_none: "\<forall>i \<in> {14, 33, 34}. i \<notin> set beyond \<Longrightarrow> i \<in> {14, 33, 34} \<Longrightarrow> \<not> is_safe_clk acc_safe_clk beyond i"
  by (auto simp: is_safe_clk_def list_ex_iff acc_safe_clk_def dest: in_set_takeD)

lemma upt_split: "i \<le> j \<Longrightarrow> j \<le> k \<Longrightarrow> [i..<k] = [i..<j] @ [j..<k]"
  using upt_add_eq_append [of i j "k - j"] by simp

lemma down_35: "35 \<le> nr \<Longrightarrow> rev [0..<nr] = rev [35..<nr] @ [34, 33] @ rev [15..<33] @ [14] @ rev [0..<14]"
proof -
  assume nr: "35 \<le> nr"
  have "[14..<15] = [14]" "[33..<35] = [33, 34]" by (simp_all add: upt_rec)
  then have "[0..<nr] = [0..<14] @ [14] @ [15..<33] @ [33, 34] @ [35..<nr]"
    using upt_split [of 0 14 nr] upt_split [of 14 15 nr] upt_split [of 15 33 nr] upt_split [of 33 35 nr] nr by simp
  then show ?thesis by simp
qed

text \<open>
  What the acc driver reports about unsafe clocks, provided the memory behind the table does not happen to
  hold one of the three clock numbers: when clock 14 is on, the report depends on that clock alone, that is, on
  whether it is still on after the display pipe was switched off.  The clocks 33 and 34, found before it, only
  count when clock 14 is off.
\<close>

theorem acc_unsafe_clk_report:
  assumes "35 \<le> nr" "\<forall>i \<in> {14, 33, 34}. i \<notin> set beyond"
  shows "acc_find_unsafe_clk beyond enabled still nr mdp_flag =
    (if enabled 14 then still else enabled 33 \<or> enabled 34, mdp_flag \<or> enabled 14, filter enabled [34, 33, 14])"
proof -
  have u: "\<not> is_safe_clk acc_safe_clk beyond 14" "\<not> is_safe_clk acc_safe_clk beyond 33" "\<not> is_safe_clk acc_safe_clk beyond 34"
    using safe_none [OF assms(2)] by auto
  let ?f = "acc_unsafe_step beyond enabled still"
  have skip: "fold ?f (rev [a..<b]) s = s" if "14 \<notin> {a..<b}" "33 \<notin> {a..<b}" "34 \<notin> {a..<b}" for a b s
    using that by (intro acc_unsafe_skip) auto
  have "fold ?f (rev [35..<nr]) s = s" "fold ?f (rev [15..<33]) s = s" "fold ?f (rev [0..<14]) s = s" for s
    by (rule skip; simp only: atLeastLessThan_iff; simp)+
  then have "acc_find_unsafe_clk beyond enabled still nr mdp_flag = ?f 14 (?f 33 (?f 34 (False, mdp_flag, [])))"
    unfolding acc_find_unsafe_clk_def down_35 [OF assms(1)] fold_append comp_apply by (simp only: fold_simps)
  then show ?thesis by (simp add: acc_unsafe_step_def u)
qed

theorem acc_unsafe_clk_report_witness:
  "acc_find_unsafe_clk [] (\<lambda>i. i = 33 \<or> i = 14) False 120 False = (False, True, [33, 14])"
  using acc_unsafe_clk_report [of 120 "[]" "\<lambda>i. i = 33 \<or> i = 14" False False] by simp

lemma kill_loop:
  "\<forall>p \<in> set procs. CHR ''%'' \<notin> set (comm p) \<Longrightarrow> length rows \<le> 32 \<Longrightarrow>
     foldE (kill_one force pfx not_kill) procs (killed, rows) =
       (let victims = filter (\<lambda>p. \<not> kill_exempt pfx not_kill p) procs in
        if length rows + length victims \<le> 32
        then Inr (if force then killed @ map pid victims else killed, rows @ map comm victims) else Inl BufOverrun)"
proof (induction procs arbitrary: killed rows)
  case (Cons p procs)
  then show ?case by (cases "length rows = 32") (auto simp: kill_one_def Let_def)
qed simp

text \<open>
  The killing of processes before a suspend: the processes killed and listed are exactly those that neither
  start with one of the protected prefixes nor are named in the configuration, as long as there are no more than
  32 of them; with one more the table of names is overrun.
\<close>

theorem kill_exclude_victims:
  assumes "\<forall>p \<in> set procs. CHR ''%'' \<notin> set (comm p)"
  shows "fastboot_task_kill_exclude force pfx not_kill procs =
    (let victims = filter (\<lambda>p. \<not> kill_exempt pfx not_kill p) procs in
     if length victims \<le> 32 then Inr (if force then map pid victims else [], map comm victims) else Inl BufOverrun)"
  using kill_loop [OF assms, of "[]"] by (simp add: fastboot_task_kill_exclude_def Let_def)

theorem kill_exclude_victims_witness:
  "fastboot_task_kill_exclude True kill_prefixes [''zygote'']
     [\<lparr>comm = ''kworker/0:1'', pid = 4\<rparr>, \<lparr>comm = ''zygote'', pid = 90\<rparr>, \<lparr>comm = ''qqmusic'', pid = 700\<rparr>] =
   Inr ([700], [''qqmusic''])"
  using kill_exclude_victims [of "[\<lparr>comm = ''kworker/0:1'', pid = 4\<rparr>, \<lparr>comm = ''zygote'', pid = 90\<rparr>, \<lparr>comm = ''qqmusic'', pid = 700\<rparr>]"
      True kill_prefixes "[''zygote'']"]
  by (simp add: kill_exempt_def kill_prefixes_def)

end
