(* ===== verification/Acc.thy ===== *)
theory Acc
  imports Pm_Common Servicer
begin

text \<open>
  The ignition driver, \<^verbatim>\<open>drivers/acc/lidbg_acc.c\<close>: the device node on which the user-space side reports
  \<open>acc_on\<close>, \<open>acc_off\<close> and \<open>power\<close>, the power management callbacks, and three threads: one that watches a power-off
  that does not reach the suspend, one that corrects the screen state after an ignition event, one that
  resumes quickly when a clock keeps the chip awake.

  A completion is a counter.  The threads appear as one function per wake-up, because they sleep between
  them; \<open>time_count\<close> is a parameter of the round of \<open>thread_acc_suspend\<close>.  Commands for the user-space helper go into
  the queue of \<open>Servicer\<close>.  Key reports, notifications, writes to \<^verbatim>\<open>/sys/power/state\<close> and the lines of the log are
  collected.
\<close>

definition CMD_FLY_POWER_OFF :: u32 where "CMD_FLY_POWER_OFF = 101"
definition CMD_ACC_OFF :: u32 where "CMD_ACC_OFF = 93"
definition CMD_ACC_ON :: u32 where "CMD_ACC_ON = 94"
definition CMD_IGNORE_WAKELOCK :: u32 where "CMD_IGNORE_WAKELOCK = 95"
definition CMD_FAST_POWER_OFF :: u32 where "CMD_FAST_POWER_OFF = 70"
definition LOG_LOGCAT :: u32 where "LOG_LOGCAT = 2"

datatype acc_notice = NOTIFIER_MINOR_ACC_ON | NOTIFIER_MINOR_ACC_OFF | NOTIFIER_MINOR_POWER_OFF
datatype system_notice = NOTIFIER_MINOR_SYSTEM_OFF | NOTIFIER_MINOR_SYSTEM_ON | OtherNotice

datatype acc_line =
    LockLines "lock_line list"
  | KillNames "string list"
  | QuickResume byte
  | Corrected bool pm_status u32
  | UnsafeClk nat
  | CountMismatch

record acc_state =
  suspend_state :: pm_status
  acc_flag :: bool
  fake_suspend :: bool
  ignore_wakelock :: bool
  mdp_flag :: bool
  acc_triger_time :: u32
  quick_resume_times :: byte
  acc_resume_count :: u32
  poweroff_count :: u32
  accoff_count :: u32
  acc_suspend_start :: nat
  acc_status_correct :: nat
  completion_quick_resume :: nat
  acc_servicer :: servicer
  acc_notices :: "acc_notice list"
  power_keys :: nat
  power_writes :: "nat list"
  acc_log :: "acc_line list"

definition acc_start :: acc_state where
  "acc_start = \<lparr>suspend_state = PM_STATUS_LATE_RESUME_OK, acc_flag = True, fake_suspend = True, ignore_wakelock = False,
     mdp_flag = False, acc_triger_time = 0, quick_resume_times = 0, acc_resume_count = 0, poweroff_count = 0, accoff_count = 0,
     acc_suspend_start = 0, acc_status_correct = 0, completion_quick_resume = 0, acc_servicer = servicer_start, acc_notices = [],
     power_keys = 0, power_writes = [], acc_log = []\<rparr>"

definition acc_say :: "acc_line \<Rightarrow> acc_state \<Rightarrow> acc_state" where
  "acc_say l s = s\<lparr>acc_log := acc_log s @ [l]\<rparr>"

definition SOC_Write_Servicer :: "u32 \<Rightarrow> acc_state \<Rightarrow> acc_state" where
  "SOC_Write_Servicer cmd s = s\<lparr>acc_servicer := k2u_write cmd (acc_servicer s)\<rparr>"

definition lidbg_acc_state :: "system_notice \<Rightarrow> acc_state \<Rightarrow> acc_state" where
  "lidbg_acc_state event s =
     (case event of
        NOTIFIER_MINOR_SYSTEM_OFF \<Rightarrow> s\<lparr>suspend_state := PM_STATUS_EARLY_SUSPEND_PENDING\<rparr>
      | NOTIFIER_MINOR_SYSTEM_ON \<Rightarrow> s\<lparr>suspend_state := PM_STATUS_LATE_RESUME_OK\<rparr>
      | OtherNotice \<Rightarrow> s)"

section \<open>The device node\<close>

text \<open>The text the driver compares: \<open>data_rec[32]\<close> is filled with \<open>count\<close> bytes and terminated at a newline or behind them.\<close>

definition acc_data :: "string \<Rightarrow> fault + string" where
  "acc_data buf =
     (if length buf > 32 then Inl BufOverrun
      else if CHR 0x0A \<in> set buf then Inr (c_string (takeWhile (\<lambda>c. c \<noteq> CHR 0x0A) buf))
      else if length buf = 32 then Inl BufOverrun
      else Inr (c_string buf))"

definition acc_on :: "u32 \<Rightarrow> acc_state \<Rightarrow> acc_state" where
  "acc_on now s =
     (let s1 = SOC_Write_Servicer CMD_ACC_ON (s\<lparr>ignore_wakelock := False, acc_triger_time := now, acc_flag := True,
                  acc_status_correct := acc_status_correct s + 1, fake_suspend := True\<rparr>)
      in s1\<lparr>acc_notices := acc_notices s1 @ [NOTIFIER_MINOR_ACC_ON]\<rparr>)"

definition acc_off :: "u32 \<Rightarrow> acc_state \<Rightarrow> acc_state" where
  "acc_off now s =
     (let s1 = SOC_Write_Servicer CMD_ACC_OFF (s\<lparr>acc_triger_time := now, acc_flag := False,
                  acc_status_correct := acc_status_correct s + 1, fake_suspend := True, accoff_count := accoff_count s + 1\<rparr>)
      in s1\<lparr>acc_notices := acc_notices s1 @ [NOTIFIER_MINOR_ACC_OFF]\<rparr>)"

definition acc_power :: "bool \<Rightarrow> acc_state \<Rightarrow> acc_state" where
  "acc_power is_fly s =
     (let s1 = s\<lparr>fake_suspend := False, acc_notices := acc_notices s @ [NOTIFIER_MINOR_POWER_OFF]\<rparr>;
          s2 = SOC_Write_Servicer CMD_FLY_POWER_OFF s1;
          s3 = s2\<lparr>poweroff_count := poweroff_count s2 + 1\<rparr>;
          s4 = (if \<not> is_fly then SOC_Write_Servicer LOG_LOGCAT s3 else s3)
      in s4\<lparr>acc_suspend_start := acc_suspend_start s4 + 1\<rparr>)"

definition acc_write :: "bool \<Rightarrow> u32 \<Rightarrow> string \<Rightarrow> acc_state \<Rightarrow> fault + (nat \<times> acc_state)" where
  "acc_write is_fly now buf s =
     bindE (acc_data buf) (\<lambda>data_rec.
       Inr (length buf,
         if data_rec = ''acc_on'' then acc_on now s
         else if data_rec = ''acc_off'' then acc_off now s
         else if data_rec = ''power'' then acc_power is_fly s
         else s))"

section \<open>Power management callbacks\<close>

text \<open>\<open>beyond\<close>, \<open>enabled\<close>, \<open>still\<close>, \<open>nr\<close>: see \<open>acc_find_unsafe_clk\<close>.\<close>

definition acc_kill_list :: "string list \<Rightarrow> task list \<Rightarrow> acc_state \<Rightarrow> fault + acc_state" where
  "acc_kill_list not_kill procs s =
     bindE (fastboot_task_kill_exclude False (kill_prefixes @ [''thread'']) not_kill procs) (\<lambda>(_, names).
       Inr (acc_say (KillNames names) s))"

definition acc_early_suspend ::
  "nat list \<Rightarrow> (nat \<Rightarrow> bool) \<Rightarrow> bool \<Rightarrow> nat \<Rightarrow> string list \<Rightarrow> task list \<Rightarrow> acc_state \<Rightarrow> fault + acc_state" where
  "acc_early_suspend beyond enabled still nr not_kill procs s =
     (let s1 = s\<lparr>suspend_state := PM_STATUS_EARLY_SUSPEND_PENDING\<rparr> in
      if \<not> fake_suspend s1 \<and> \<not> acc_flag s1 then
        let (ret, mdp, log) = acc_find_unsafe_clk beyond enabled still nr (mdp_flag s1);
            s2 = s1\<lparr>mdp_flag := mdp, acc_log := acc_log s1 @ map UnsafeClk log\<rparr>;
            s3 = (if ret then s2\<lparr>completion_quick_resume := completion_quick_resume s2 + 1\<rparr> else s2)
        in acc_kill_list not_kill procs s3
      else Inr s1)"

definition acc_late_resume :: "acc_state \<Rightarrow> acc_state" where
  "acc_late_resume s = s\<lparr>mdp_flag := False, suspend_state := PM_STATUS_LATE_RESUME_OK\<rparr>"

definition acc_resume :: "acc_state \<Rightarrow> acc_state" where
  "acc_resume s =
     (let s1 = s\<lparr>ignore_wakelock := False, suspend_state := PM_STATUS_RESUME_OK, acc_resume_count := acc_resume_count s + 1\<rparr>
      in if poweroff_count s1 \<noteq> acc_resume_count s1 then acc_say CountMismatch s1 else s1)"

definition acc_suspend :: "acc_state \<Rightarrow> acc_state" where
  "acc_suspend s = s\<lparr>suspend_state := PM_STATUS_SUSPEND_PENDING\<rparr>"

section \<open>Threads\<close>

definition acc_quick_resume :: "acc_state \<Rightarrow> acc_state option" where
  "acc_quick_resume s =
     (if completion_quick_resume s = 0 then None
      else let s1 = s\<lparr>completion_quick_resume := completion_quick_resume s - 1, quick_resume_times := quick_resume_times s + 1\<rparr>;
               s2 = acc_say (QuickResume (quick_resume_times s1)) s1
           in Some (s2\<lparr>power_writes := power_writes s2 @ [1]\<rparr>))"

text \<open>One second of the watch over a power-off; the first component says whether the loop goes on.\<close>

definition acc_suspend_round ::
  "string list \<Rightarrow> task list \<Rightarrow> wakelock_item list \<Rightarrow> nat \<Rightarrow> acc_state \<Rightarrow> fault + (bool \<times> acc_state)" where
  "acc_suspend_round not_kill procs locks time_count s =
     (if suspend_state s = PM_STATUS_EARLY_SUSPEND_PENDING then
        if time_count \<ge> 10 then
          let s1 = (if time_count mod 5 = 0 then acc_say (LockLines (show_wakelock True procs False locks)) s else s) in
          bindE (if time_count mod 10 = 0 then acc_kill_list not_kill procs s1 else Inr s1) (\<lambda>s2.
            let s3 = (if time_count = 115 then SOC_Write_Servicer CMD_IGNORE_WAKELOCK s2 else s2);
                s4 = (if time_count \<ge> 120 then acc_say (LockLines (show_wakelock True procs True locks)) s3 else s3)
            in Inr (True, if time_count \<ge> 120 \<and> suspend_state s4 = PM_STATUS_EARLY_SUSPEND_PENDING
                          then s4\<lparr>ignore_wakelock := True\<rparr> else s4))
        else Inr (True, s)
      else Inr (False, s))"

text \<open>
  The first \<open>n\<close> rounds of a watch, with the processes \<open>procs i\<close> running and the wake locks \<open>locks i\<close> known in round \<open>i\<close>, while no
  other thread changes the driver's state.
\<close>

fun acc_suspend_rounds ::
  "string list \<Rightarrow> (nat \<Rightarrow> task list) \<Rightarrow> (nat \<Rightarrow> wakelock_item list) \<Rightarrow> nat \<Rightarrow> acc_state \<Rightarrow> fault + (bool \<times> acc_state)" where
  "acc_suspend_rounds not_kill procs locks 0 s = Inr (True, s)"
| "acc_suspend_rounds not_kill procs locks (Suc n) s =
     bindE (acc_suspend_rounds not_kill procs locks n s) (\<lambda>(go, s1).
       if go then acc_suspend_round not_kill (procs (Suc n)) (locks (Suc n)) (Suc n) s1 else Inr (False, s1))"

text \<open>
  \<open>acc_correct\<close> after its sleep of three seconds.
\<close>

definition acc_correct :: "u32 \<Rightarrow> acc_state \<Rightarrow> acc_state" where
  "acc_correct now s =
     (let tick = now - acc_triger_time s in
      if tick < 3000 then s
      else if (acc_flag s \<and> suspend_state s \<noteq> PM_STATUS_LATE_RESUME_OK \<and> suspend_state s \<noteq> PM_STATUS_RESUME_OK) \<or>
              (\<not> acc_flag s \<and> suspend_state s \<noteq> PM_STATUS_EARLY_SUSPEND_PENDING)
      then acc_say (Corrected (acc_flag s) (suspend_state s) tick) (s\<lparr>power_keys := power_keys s + 1\<rparr>)
      else s)"

definition cb_password_poweroff :: "acc_state \<Rightarrow> acc_state" where
  "cb_password_poweroff s = SOC_Write_Servicer CMD_FAST_POWER_OFF s"

section \<open>The watch over a power-off\<close>

lemma acc_say_simps [simp]:
  "suspend_state (acc_say l s) = suspend_state s" "ignore_wakelock (acc_say l s) = ignore_wakelock s"
  "acc_servicer (acc_say l s) = acc_servicer s" "power_keys (acc_say l s) = power_keys s"
  by (simp_all add: acc_say_def)

lemma soc_write_simps [simp]:
  "suspend_state (SOC_Write_Servicer c s) = suspend_state s" "ignore_wakelock (SOC_Write_Servicer c s) = ignore_wakelock s"
  "acc_servicer (SOC_Write_Servicer c s) = k2u_write c (acc_servicer s)"
  by (simp_all add: SOC_Write_Servicer_def)

text \<open>
  No process has a format directive in its name, and no more than 32 are to be listed: processes whose name neither starts
  with one of the protected prefixes or \<^verbatim>\<open>thread\<close> nor is in the file of those not to be killed.
\<close>

definition few_victims :: "string list \<Rightarrow> task list \<Rightarrow> bool" where
  "few_victims not_kill procs \<longleftrightarrow>
     (\<forall>p \<in> set procs. CHR ''%'' \<notin> set (comm p)) \<and>
     length (filter (\<lambda>p. \<not> (\<exists>x \<in> set (kill_prefixes @ [''thread'']). prefix x (comm p)) \<and> comm p \<notin> set not_kill) procs) \<le> 32"

lemma prefix_iff_take: "prefix xs ys \<longleftrightarrow> take (length xs) ys = xs"
  by (metis append_eq_conv_conj append_take_drop_id prefix_def)

lemma exempt_iff: "kill_exempt pfx not_kill p \<longleftrightarrow> (\<exists>x \<in> set pfx. prefix x (comm p)) \<or> comm p \<in> set not_kill"
  by (auto simp: kill_exempt_def list_ex_iff prefix_iff_take)

lemma acc_kill_list_ok: "few_victims not_kill procs \<Longrightarrow> \<exists>l. acc_kill_list not_kill procs s = Inr (acc_say l s)"
  using kill_loop [of procs "[]" False "kill_prefixes @ [''thread'']" not_kill "[]"]
  by (auto simp: few_victims_def acc_kill_list_def fastboot_task_kill_exclude_def exempt_iff Let_def)

lemma suspend_round_eq:
  assumes "few_victims not_kill procs" "suspend_state s = PM_STATUS_EARLY_SUSPEND_PENDING"
  shows "\<exists>s'. acc_suspend_round not_kill procs locks n s = Inr (True, s') \<and> suspend_state s' = PM_STATUS_EARLY_SUSPEND_PENDING \<and>
    ignore_wakelock s' = (ignore_wakelock s \<or> n \<ge> 120) \<and>
    acc_servicer s' = (if n = 115 then k2u_write CMD_IGNORE_WAKELOCK (acc_servicer s) else acc_servicer s)"
proof -
  define s1 where "s1 = (if n mod 5 = 0 then acc_say (LockLines (show_wakelock True procs False locks)) s else s)"
  have s1: "suspend_state s1 = PM_STATUS_EARLY_SUSPEND_PENDING" "ignore_wakelock s1 = ignore_wakelock s" "acc_servicer s1 = acc_servicer s"
    by (simp_all add: s1_def assms(2))
  obtain l where l: "acc_kill_list not_kill procs s1 = Inr (acc_say l s1)" using acc_kill_list_ok [OF assms(1)] by blast
  then obtain s2 where s2: "(if n mod 10 = 0 then acc_kill_list not_kill procs s1 else Inr s1) = Inr s2"
    "suspend_state s2 = PM_STATUS_EARLY_SUSPEND_PENDING" "ignore_wakelock s2 = ignore_wakelock s" "acc_servicer s2 = acc_servicer s"
    using s1 by (cases "n mod 10 = 0") auto
  show ?thesis
    unfolding acc_suspend_round_def Let_def s1_def [symmetric] s2(1) bindE_simps using assms(2) s2(2-4) by auto
qed

text \<open>
  (C24) A power-off that does not reach the suspend is escalated: while the state stays at early suspend, the
  watch never ends, in its 115th second it sends \<open>CMD_IGNORE_WAKELOCK\<close> to the helper program, once, and from second 120 on the
  wake locks are ignored, whatever wake locks are held and whatever processes run, which may change from second to second.
  It does not fault as long as never more than 32 processes are to be listed and none has a format directive in its
  name (\<open>few_victims\<close>: the table of names has 32 rows, and a name is the format of the \<open>sprintf\<close> that fills a row).
\<close>

theorem acc_suspend_escalates:
  assumes "\<And>i. few_victims not_kill (procs i)" "suspend_state s = PM_STATUS_EARLY_SUSPEND_PENDING"
  shows "\<exists>s'. acc_suspend_rounds not_kill procs locks n s = Inr (True, s') \<and>
    suspend_state s' = PM_STATUS_EARLY_SUSPEND_PENDING \<and> ignore_wakelock s' = (ignore_wakelock s \<or> n \<ge> 120) \<and>
    acc_servicer s' = (if n \<ge> 115 then k2u_write CMD_IGNORE_WAKELOCK (acc_servicer s) else acc_servicer s)"
proof (induction n)
  case (Suc n)
  then obtain s1 where s1: "acc_suspend_rounds not_kill procs locks n s = Inr (True, s1)"
    "suspend_state s1 = PM_STATUS_EARLY_SUSPEND_PENDING" "ignore_wakelock s1 = (ignore_wakelock s \<or> n \<ge> 120)"
    "acc_servicer s1 = (if n \<ge> 115 then k2u_write CMD_IGNORE_WAKELOCK (acc_servicer s) else acc_servicer s)" by blast
  then show ?case using suspend_round_eq [OF assms(1) s1(2), of "Suc n" "locks (Suc n)" "Suc n"] by auto
qed (use assms in simp)

theorem acc_suspend_escalates_witness:
  "\<exists>s'. acc_suspend_rounds [] (\<lambda>_. [\<lparr>comm = ''zygote'', pid = 90\<rparr>]) (\<lambda>_. []) 120 (acc_start\<lparr>suspend_state := PM_STATUS_EARLY_SUSPEND_PENDING\<rparr>) =
     Inr (True, s') \<and> ignore_wakelock s'"
proof -
  have "few_victims [] [\<lparr>comm = ''zygote'', pid = 90\<rparr>]"
    by (simp add: few_victims_def)
  from acc_suspend_escalates [OF this, of "acc_start\<lparr>suspend_state := PM_STATUS_EARLY_SUSPEND_PENDING\<rparr>" "\<lambda>_. []" 120]
  show ?thesis by auto
qed

section \<open>Ignition events\<close>

text \<open>
  The device node: a write overruns the buffer of 32 bytes exactly when it is longer than that, or fills it
  without a newline; otherwise the text up to the newline is the command, and what follows the newline is ignored.
\<close>

theorem acc_write_commands:
  assumes "CHR 0x0A \<notin> set t" "CHR 0x00 \<notin> set t"
  shows "acc_write is_fly now (t @ CHR 0x0A # rest) s =
      (if length t + length rest \<ge> 32 then Inl BufOverrun
       else Inr (length t + length rest + 1,
         if t = ''acc_on'' then acc_on now s else if t = ''acc_off'' then acc_off now s
         else if t = ''power'' then acc_power is_fly s else s)) \<and>
    acc_write is_fly now t s =
      (if length t \<ge> 32 then Inl BufOverrun
       else Inr (length t,
         if t = ''acc_on'' then acc_on now s else if t = ''acc_off'' then acc_off now s
         else if t = ''power'' then acc_power is_fly s else s))"
proof -
  have nl: "takeWhile (\<lambda>c. c \<noteq> CHR 0x0A) (t @ CHR 0x0A # rest) = t" using assms(1) by (induction t) auto
  have z: "c_string t = t" using assms(2) by (auto simp: c_string_def takeWhile_eq_all_conv)
  show ?thesis using assms(1) by (auto simp: acc_write_def acc_data_def nl z)
qed

theorem acc_write_commands_witness:
  "acc_write False 5 (''acc_off'' @ CHR 0x0A # ''x'') acc_start = Inr (9, acc_off 5 acc_start)"
  using acc_write_commands [of "''acc_off''" False 5 "''x''" acc_start] by simp

text \<open>
  The correction of the screen state measures time across the wrap of the 32-bit millisecond counter:
  \<open>d\<close> milliseconds after the last ignition event, \<open>d < 2\<^sup>3\<^sup>2\<close>, it presses the power key exactly when \<open>d\<close> is at least 3000
  and the screen state does not fit the ignition.
\<close>

theorem acc_correct_across_wrap:
  assumes "acc_triger_time s = of_nat t" "d < 2 ^ 32"
  shows "power_keys (acc_correct (of_nat (t + d)) s) = power_keys s +
    (if 3000 \<le> d \<and> (if acc_flag s then suspend_state s \<notin> {PM_STATUS_LATE_RESUME_OK, PM_STATUS_RESUME_OK}
                    else suspend_state s \<noteq> PM_STATUS_EARLY_SUSPEND_PENDING) then 1 else 0)"
proof -
  have "(of_nat (t + d) :: u32) - acc_triger_time s = of_nat d" by (simp add: assms(1))
  moreover have "(of_nat d :: u32) < 3000 \<longleftrightarrow> d < 3000"
    using assms(2) by (simp add: word_less_nat_alt unat_of_nat)
  ultimately show ?thesis by (auto simp: acc_correct_def Let_def)
qed

theorem acc_correct_across_wrap_witness:
  "power_keys (acc_correct 2000 (acc_off (of_nat (2 ^ 32 - 1000)) acc_start)) = 1"
proof -
  have w: "(of_nat (2 ^ 32 - 1000 + 3000) :: u32) = 2000" by simp
  have "acc_triger_time (acc_off (of_nat (2 ^ 32 - 1000)) acc_start) = of_nat (2 ^ 32 - 1000)"
    by (simp add: acc_off_def SOC_Write_Servicer_def Let_def)
  from acc_correct_across_wrap [OF this, of 3000, unfolded w] show ?thesis
    by (simp add: acc_off_def SOC_Write_Servicer_def Let_def acc_start_def)
qed

end
