(* ===== verification/Fastboot.thy ===== *)
theory Fastboot
  imports Pm_Common
begin

text \<open>
  The fast power-off driver, \<^verbatim>\<open>drivers/fastboot/lidbg_fastboot.c\<close> with \<^verbatim>\<open>fake_suspend.c\<close>: a status shared by the power
  management callbacks and five threads that watch over a suspend which does not happen, force it or resume.

  A completion is a counter; every thread appears as one function per wake-up, with its \<open>time_count\<close> as an
  argument.  \<open>flywakelock\<close> tells whether the driver holds its own wake lock.  The writes to
  \<^verbatim>\<open>/sys/power/state\<close> are collected in \<open>fb_power\<close> (1 is \<open>on\<close>, 0 is \<open>mem\<close>), the log lines in \<open>fb_log\<close>.  \<open>board\<close>: compiled
  for \<open>BOARD_V1\<close> or \<open>BOARD_V2\<close>; \<open>active\<close>: the active wake locks of the kernel, \<open>None\<close> when the list was not handed over.
  The status \<open>PM_STATUS_EARLY_SUSPEND_PENDING\<close> is set from outside through the function table.
\<close>

datatype fb_line =
    FbLocks "lock_line list"
  | FbQuickResume
  | FbForceSuspend
  | FbDumpKmsg
  | FbCount u32
  | FbUnsafeClk nat
  | FbNotResumed pm_status
  | FbForcePwroff
  | FbKilled "u32 list"

record fb_state =
  suspend_pending :: pm_status
  resume_count :: u32
  kill_task_en :: bool
  haslock_resume_times :: int
  max_wait_unlock_time :: int
  clk_block_suspend :: bool
  has_wakelock_can_not_ignore :: bool
  is_quick_resume :: bool
  flywakelock :: bool
  fb_ignore_wakelock :: bool
  wakelock_occur_count :: int
  lock_resume_last_time :: u32
  suspend_start :: nat
  early_suspend_start :: nat
  resume_ok :: nat
  pwroff_start :: nat
  late_suspend_start :: nat
  is_fake_suspend :: bool
  fake_suspend_handler :: "nat option list"
  fake_calls :: "(bool \<times> nat) list"
  suspend_prepared :: nat
  fb_commands :: "nat list"
  fb_power :: "nat list"
  fb_log :: "fb_line list"

definition fastboot_probe :: fb_state where
  "fastboot_probe =
     \<lparr>suspend_pending = PM_STATUS_LATE_RESUME_OK, resume_count = 0, kill_task_en = True, haslock_resume_times = 0,
      max_wait_unlock_time = 5, clk_block_suspend = False, has_wakelock_can_not_ignore = False, is_quick_resume = False,
      flywakelock = True, fb_ignore_wakelock = False, wakelock_occur_count = 0, lock_resume_last_time = 0,
      suspend_start = 0, early_suspend_start = 0, resume_ok = 0, pwroff_start = 0, late_suspend_start = 0,
      is_fake_suspend = False, fake_suspend_handler = replicate 10 None, fake_calls = [], suspend_prepared = 0,
      fb_commands = [], fb_power = [], fb_log = []\<rparr>"

definition fb_say :: "fb_line list \<Rightarrow> fb_state \<Rightarrow> fb_state" where
  "fb_say ls s = s\<lparr>fb_log := fb_log s @ ls\<rparr>"

definition set_power_state :: "nat \<Rightarrow> fb_state \<Rightarrow> fb_state" where
  "set_power_state v s = s\<lparr>fb_power := fb_power s @ [v]\<rparr>"

definition fastboot_set_status :: "pm_status \<Rightarrow> fb_state \<Rightarrow> fb_state" where
  "fastboot_set_status st s = s\<lparr>suspend_pending := st\<rparr>"

definition list_active_locks :: "string list option \<Rightarrow> fb_state \<Rightarrow> fb_state" where
  "list_active_locks active s =
     (case active of None \<Rightarrow> s
      | Some l \<Rightarrow> if list_ex (\<lambda>n. n = ''adsp'') l then s\<lparr>has_wakelock_can_not_ignore := True\<rparr> else s)"

definition fb_kill :: "string list \<Rightarrow> task list \<Rightarrow> fb_state \<Rightarrow> fault + fb_state" where
  "fb_kill not_kill procs s =
     bindE (fastboot_task_kill_exclude True kill_prefixes not_kill procs) (\<lambda>(killed, _). Inr (fb_say [FbKilled killed] s))"

section \<open>Power-off\<close>

text \<open>
  The loop of \<open>fastboot_pwroff\<close>: other threads set the status meanwhile, so every call of \<open>fastboot_get_status\<close> is a
  look of its own; \<open>status i\<close> is what the \<open>i\<close>-th one returns.  A round of the loop looks for the first condition, for the
  second only when the first one lets it, and a third time for the message.  \<open>k\<close> counts the looks; the result is the
  number of sleeps, the number of looks and the messages.
\<close>

function pwroff_wait :: "(nat \<Rightarrow> pm_status) \<Rightarrow> nat \<Rightarrow> nat \<Rightarrow> fb_line list \<Rightarrow> nat \<times> nat \<times> fb_line list" where
  "pwroff_wait status k err_count log =
     (if status k = PM_STATUS_LATE_RESUME_OK then (err_count, k + 1, log)
      else if status (k + 1) = PM_STATUS_READY_TO_FAKE_PWROFF then (err_count, k + 2, log)
      else let log1 = log @ [FbNotResumed (status (k + 2))] in
           if err_count + 1 > 50 then (err_count, k + 3, log1 @ [FbForcePwroff])
           else pwroff_wait status (k + 3) (err_count + 1) log1)"
  by pat_completeness auto
termination
  by (relation "measure (\<lambda>(_, _, n, _). 50 - n)") auto

declare pwroff_wait.simps [simp del]

text \<open>
  The whole function, with the number of sleeps of its wait: \<open>s\<close> is the state as the other threads have left it at the end of the
  wait, \<open>meanwhile\<close> what they do to it during the second the function sleeps when \<open>is_fly\<close> is not set.
\<close>

definition fastboot_pwroff ::
  "bool \<Rightarrow> bool \<Rightarrow> (nat \<Rightarrow> pm_status) \<Rightarrow> (fb_state \<Rightarrow> fb_state) \<Rightarrow> fb_state \<Rightarrow> nat \<times> fb_state" where
  "fastboot_pwroff board is_fly status meanwhile s =
     (let (n, _, log) = pwroff_wait status 0 0 [];
          s1 = fastboot_set_status PM_STATUS_READY_TO_PWROFF (fb_say log s);
          s2 = s1\<lparr>suspend_prepared := suspend_prepared s1 + 1\<rparr>;
          s3 = (if \<not> is_fly
                then (let m = meanwhile s2 in if board then m\<lparr>fb_commands := fb_commands m @ [70]\<rparr> else m)
                else s2)
      in (n, s3\<lparr>early_suspend_start := early_suspend_start s3 + 1\<rparr>))"

definition fastboot_go_pwroff :: "fb_state \<Rightarrow> fb_state" where
  "fastboot_go_pwroff s = s\<lparr>pwroff_start := pwroff_start s + 1\<rparr>"

section \<open>Callbacks\<close>

definition fastboot_early_suspend ::
  "nat list \<Rightarrow> (nat \<Rightarrow> bool) \<Rightarrow> nat \<Rightarrow> string list \<Rightarrow> task list \<Rightarrow> fb_state \<Rightarrow> fault + fb_state" where
  "fastboot_early_suspend beyond enabled nr not_kill procs s =
     bindE (if kill_task_en s then fb_kill not_kill procs s else Inr s) (\<lambda>s1.
       let s2 = fb_say (map FbUnsafeClk (snd (find_unsafe_clk beyond enabled nr))) s1
       in Inr (s2\<lparr>clk_block_suspend := False, flywakelock := False, suspend_start := suspend_start s2 + 1\<rparr>))"

definition fastboot_late_resume :: "fb_state \<Rightarrow> fb_state" where
  "fastboot_late_resume s =
     (let s1 = (if is_quick_resume s
                then s\<lparr>flywakelock := (if clk_block_suspend s then flywakelock s else True),
                       has_wakelock_can_not_ignore := False, clk_block_suspend := False, is_quick_resume := False\<rparr>
                else s)
      in fastboot_set_status PM_STATUS_LATE_RESUME_OK s1)"

definition fastboot_resume :: "fb_state \<Rightarrow> fb_state" where
  "fastboot_resume s =
     (let s1 = fastboot_set_status PM_STATUS_RESUME_OK (s\<lparr>resume_count := resume_count s + 1\<rparr>)
      in s1\<lparr>flywakelock := True, resume_ok := resume_ok s1 + 1, fb_ignore_wakelock := False, wakelock_occur_count := 0\<rparr>)"

section \<open>Threads\<close>

text \<open>One second of \<open>thread_pwroff\<close>.\<close>

definition pwroff_round :: "nat \<Rightarrow> fb_state \<Rightarrow> bool \<times> fb_state" where
  "pwroff_round time_count s =
     (if suspend_pending s = PM_STATUS_READY_TO_PWROFF
      then (if time_count \<ge> 10 then (False, set_power_state 0 s) else (True, s))
      else (False, s))"

definition quick_resume :: "fb_state \<Rightarrow> fb_state" where
  "quick_resume s = set_power_state 1 (s\<lparr>wakelock_occur_count := wakelock_occur_count s + 1, is_quick_resume := True\<rparr>)"

text \<open>The timeout branch of \<open>thread_fastboot_suspend\<close>; the tick counter is read twice.\<close>

definition suspend_timeout :: "task list \<Rightarrow> wakelock_item list \<Rightarrow> u32 \<Rightarrow> u32 \<Rightarrow> fb_state \<Rightarrow> fb_state" where
  "suspend_timeout procs locks now now' s =
     (let interval = now - lock_resume_last_time s;
          s1 = s\<lparr>lock_resume_last_time := now'\<rparr>;
          s2 = (if interval > 600 * 1000 then s1\<lparr>wakelock_occur_count := 0\<rparr> else s1);
          s3 = s2\<lparr>wakelock_occur_count := wakelock_occur_count s2 + 1\<rparr>;
          s4 = fb_say [FbLocks (show_wakelock False procs True locks)] s3
      in if wakelock_occur_count s4 \<le> haslock_resume_times s4
         then fb_say [FbQuickResume] (set_power_state 1 (s4\<lparr>is_quick_resume := True\<rparr>))
         else
           let s5 = (fb_say [FbDumpKmsg, FbForceSuspend] s4)\<lparr>wakelock_occur_count := 0\<rparr>
           in if suspend_pending s5 = PM_STATUS_EARLY_SUSPEND_PENDING
              then s5\<lparr>fb_ignore_wakelock := True, flywakelock := False\<rparr>
              else s5\<lparr>late_suspend_start := late_suspend_start s5 + 1\<rparr>)"

text \<open>One second of \<open>thread_fastboot_suspend\<close>; the first component says whether the loop goes on.\<close>

definition suspend_round ::
  "bool \<Rightarrow> string list \<Rightarrow> task list \<Rightarrow> string list option \<Rightarrow> wakelock_item list \<Rightarrow> u32 \<Rightarrow> u32 \<Rightarrow> nat \<Rightarrow> fb_state
     \<Rightarrow> fault + (bool \<times> fb_state)" where
  "suspend_round board not_kill procs active locks now now' time_count s =
     (if suspend_pending s = PM_STATUS_EARLY_SUSPEND_PENDING then
        bindE (if kill_task_en s then fb_kill not_kill procs s else Inr s) (\<lambda>s1.
          if clk_block_suspend s1 \<and> wakelock_occur_count s1 < 5 then Inr (False, quick_resume s1)
          else
            let s2 = (if board then s1 else list_active_locks active s1) in
            if \<not> board \<and> has_wakelock_can_not_ignore s2 \<and> wakelock_occur_count s2 < 5 then Inr (False, quick_resume s2)
            else if int time_count \<ge> max_wait_unlock_time s2
            then Inr (False, suspend_timeout procs locks now now' s2)
            else Inr (True, s2))
      else Inr (False, s\<lparr>late_suspend_start := late_suspend_start s + 1, wakelock_occur_count := 0\<rparr>))"

definition late_suspend_round :: "nat \<Rightarrow> fb_state \<Rightarrow> bool \<times> fb_state" where
  "late_suspend_round time_count s =
     (if suspend_pending s = PM_STATUS_SUSPEND_PENDING
      then (if time_count \<ge> 10 then (False, set_power_state 1 (fastboot_set_status PM_STATUS_RESUME_OK s)) else (True, s))
      else (False, s))"

definition resume_thread :: "fb_state \<Rightarrow> fb_state" where
  "resume_thread s =
     (let s1 = fastboot_set_status PM_STATUS_LATE_RESUME_OK (set_power_state 1 s)
      in if unat (resume_count s1) mod 5 = 0 then fb_say [FbCount (resume_count s1)] s1 else s1)"

section \<open>Fake suspend\<close>

fun first_free :: "nat \<Rightarrow> nat option list \<Rightarrow> nat option list" where
  "first_free h [] = []"
| "first_free h (None # l) = Some h # l"
| "first_free h (Some x # l) = Some x # first_free h l"

definition fake_register_early_suspend :: "nat \<Rightarrow> fb_state \<Rightarrow> fb_state" where
  "fake_register_early_suspend h s = s\<lparr>fake_suspend_handler := first_free h (fake_suspend_handler s)\<rparr>"

definition call_handlers :: "bool \<Rightarrow> fb_state \<Rightarrow> fb_state" where
  "call_handlers suspend s =
     s\<lparr>fake_calls := fake_calls s @ map (\<lambda>h. (suspend, the h)) (filter (\<lambda>h. h \<noteq> None) (fake_suspend_handler s))\<rparr>"

definition fake_suspend_proc :: "fb_state \<Rightarrow> fb_state" where
  "fake_suspend_proc s =
     (if \<not> is_fake_suspend s
      then call_handlers True (fastboot_set_status PM_STATUS_READY_TO_FAKE_PWROFF (s\<lparr>is_fake_suspend := True\<rparr>))
      else s)"

definition fake_wakeup_proc :: "fb_state \<Rightarrow> fb_state" where
  "fake_wakeup_proc s = (if is_fake_suspend s then call_handlers False (s\<lparr>is_fake_suspend := False\<rparr>) else s)"

section \<open>The power-off loop\<close>

text \<open>Where the loop may stop, in terms of the looks alone: round \<open>n\<close> makes the looks \<open>3 * n\<close> to \<open>3 * n + 2\<close>.\<close>

definition passed_over :: "(nat \<Rightarrow> pm_status) \<Rightarrow> nat \<Rightarrow> bool" where
  "passed_over status n \<longleftrightarrow>
     status (3 * n) \<noteq> PM_STATUS_LATE_RESUME_OK \<and> status (3 * n + 1) \<noteq> PM_STATUS_READY_TO_FAKE_PWROFF"

definition complaints_of :: "(nat \<Rightarrow> pm_status) \<Rightarrow> nat \<Rightarrow> fb_line list" where
  "complaints_of status n = map (\<lambda>i. FbNotResumed (status (3 * i + 2))) [0..<n]"

lemma complaints_of_Suc [simp]: "complaints_of status (Suc n) = complaints_of status n @ [FbNotResumed (status (3 * n + 2))]"
  by (simp add: complaints_of_def)

lemma pwroff_wait_next:
  "n < 50 \<Longrightarrow> passed_over status n \<Longrightarrow>
     pwroff_wait status (3 * n) n log = pwroff_wait status (3 * Suc n) (Suc n) (log @ [FbNotResumed (status (3 * n + 2))])"
  by (subst pwroff_wait.simps) (simp add: passed_over_def Let_def eval_nat_numeral)

lemma pwroff_wait_from:
  "n \<le> m \<Longrightarrow> m \<le> 50 \<Longrightarrow> \<forall>i. n \<le> i \<and> i < m \<longrightarrow> passed_over status i \<Longrightarrow>
     pwroff_wait status (3 * n) n (complaints_of status n) = pwroff_wait status (3 * m) m (complaints_of status m)"
proof (induction "m - n" arbitrary: n)
  case 0
  then show ?case by simp
next
  case (Suc d)
  then have "n < m" by simp
  have "pwroff_wait status (3 * n) n (complaints_of status n) = pwroff_wait status (3 * Suc n) (Suc n) (complaints_of status (Suc n))"
    unfolding complaints_of_Suc using \<open>n < m\<close> Suc by (intro pwroff_wait_next) auto
  also have "\<dots> = pwroff_wait status (3 * m) m (complaints_of status m)"
    using \<open>n < m\<close> Suc by (intro Suc(1)) auto
  finally show ?case .
qed

lemma first_round:
  fixes P :: "nat \<Rightarrow> bool"
  obtains n where "n \<le> 50" "\<forall>i < n. P i" "n = 50 \<or> \<not> P n"
proof (cases "\<exists>n \<le> 50. \<not> P n")
  case True
  then obtain n where "n \<le> 50" "\<not> P n" "\<forall>i < n. P i"
    using exists_least_iff [of "\<lambda>n. n \<le> 50 \<and> \<not> P n"] by auto
  then show ?thesis using that by blast
next
  case False
  then show ?thesis using that [of 50] by simp
qed

lemma pwroff_wait_cases:
  obtains n where "n \<le> 50" "\<forall>i < n. passed_over status i" "n = 50 \<or> \<not> passed_over status n"
    "pwroff_wait status 0 0 [] =
       (if status (3 * n) = PM_STATUS_LATE_RESUME_OK then (n, 3 * n + 1, complaints_of status n)
        else if status (3 * n + 1) = PM_STATUS_READY_TO_FAKE_PWROFF then (n, 3 * n + 2, complaints_of status n)
        else (50, 153, complaints_of status 51 @ [FbForcePwroff]))"
proof -
  obtain n where n: "n \<le> 50" "\<forall>i < n. passed_over status i" "n = 50 \<or> \<not> passed_over status n"
    by (rule first_round)
  have "pwroff_wait status 0 0 [] = pwroff_wait status (3 * n) n (complaints_of status n)"
    using pwroff_wait_from [of 0 n status] n by (simp add: complaints_of_def)
  also have "\<dots> = (if status (3 * n) = PM_STATUS_LATE_RESUME_OK then (n, 3 * n + 1, complaints_of status n)
        else if status (3 * n + 1) = PM_STATUS_READY_TO_FAKE_PWROFF then (n, 3 * n + 2, complaints_of status n)
        else (50, 153, complaints_of status 51 @ [FbForcePwroff]))"
    using n complaints_of_Suc [of status 50]
    by (subst pwroff_wait.simps) (auto simp: passed_over_def Let_def)
  finally show ?thesis using that n by blast
qed

text \<open>
  (C25) The power-off ends, whatever the other threads do to the status while it waits.  Number the calls of
  \<open>fastboot_get_status\<close> from 0.  The wait is over in the first round \<open>n\<close> in which the call \<open>3 * n\<close> finds the system resumed or the
  call \<open>3 * n + 1\<close> finds it ready for a fake power-off, after \<open>n\<close> sleeps; when no round up to the 50th does, it sleeps 50
  times (ten seconds) and forces the power-off.  Every round passed over leaves one message, with what its third
  call found, and only the forced power-off leaves the message that says so.  With \<open>is_fly\<close> the status is then
  \<open>PM_STATUS_READY_TO_PWROFF\<close>, no servicer command is sent, and the watching thread is released once.
\<close>

theorem fastboot_pwroff_ends:
  "\<exists>n \<le> 50. (\<forall>i < n. passed_over status i) \<and>
     (let (sleeps, s') = fastboot_pwroff board True status meanwhile s;
          forced = passed_over status n
      in sleeps = n \<and> (forced \<longrightarrow> n = 50) \<and>
         fb_log s' = fb_log s @ complaints_of status (if forced then 51 else n) @ (if forced then [FbForcePwroff] else []) \<and>
         suspend_pending s' = PM_STATUS_READY_TO_PWROFF \<and> fb_commands s' = fb_commands s \<and>
         early_suspend_start s' = early_suspend_start s + 1)"
proof -
  obtain n where n: "n \<le> 50" "\<forall>i < n. passed_over status i" "n = 50 \<or> \<not> passed_over status n"
    and w: "pwroff_wait status 0 0 [] =
       (if status (3 * n) = PM_STATUS_LATE_RESUME_OK then (n, 3 * n + 1, complaints_of status n)
        else if status (3 * n + 1) = PM_STATUS_READY_TO_FAKE_PWROFF then (n, 3 * n + 2, complaints_of status n)
        else (50, 153, complaints_of status 51 @ [FbForcePwroff]))"
    by (rule pwroff_wait_cases)
  show ?thesis
    using n by (intro exI [of _ n])
      (auto simp: fastboot_pwroff_def w fb_say_def fastboot_set_status_def passed_over_def Let_def)
qed

theorem fastboot_pwroff_ends_witness:
  "let (sleeps, s') = fastboot_pwroff True True (\<lambda>_. PM_STATUS_SUSPEND_PENDING) id fastboot_probe
   in sleeps = 50 \<and> suspend_pending s' = PM_STATUS_READY_TO_PWROFF"
  using fastboot_pwroff_ends [of "\<lambda>_. PM_STATUS_SUSPEND_PENDING" True id fastboot_probe]
  by (auto simp: passed_over_def Let_def)

section \<open>A suspend that does not happen\<close>

text \<open>The rounds of \<open>thread_fastboot_suspend\<close> after one completion, with unchanged surroundings.\<close>

fun suspend_rounds ::
  "bool \<Rightarrow> string list \<Rightarrow> task list \<Rightarrow> string list option \<Rightarrow> wakelock_item list \<Rightarrow> u32 \<Rightarrow> nat \<Rightarrow> fb_state \<Rightarrow> fault + (bool \<times> fb_state)" where
  "suspend_rounds board not_kill procs active locks now 0 s = Inr (True, s)"
| "suspend_rounds board not_kill procs active locks now (Suc n) s =
     bindE (suspend_rounds board not_kill procs active locks now n s) (\<lambda>(go, s1).
       if go then suspend_round board not_kill procs active locks now now (Suc n) s1 else Inr (False, s1))"

text \<open>Only wake locks block the suspend, and the processes to be killed fit their table.\<close>

definition fb_blocked :: "bool \<Rightarrow> string list \<Rightarrow> task list \<Rightarrow> string list option \<Rightarrow> fb_state \<Rightarrow> bool" where
  "fb_blocked board not_kill procs active s \<longleftrightarrow>
     suspend_pending s = PM_STATUS_EARLY_SUSPEND_PENDING \<and> \<not> clk_block_suspend s \<and> \<not> has_wakelock_can_not_ignore s \<and>
     (case active of None \<Rightarrow> True | Some l \<Rightarrow> board \<or> ''adsp'' \<notin> set l) \<and>
     (\<exists>r. fastboot_task_kill_exclude True kill_prefixes not_kill procs = Inr r)"

lemma fb_say_simps [simp]:
  "suspend_pending (fb_say l s) = suspend_pending s" "clk_block_suspend (fb_say l s) = clk_block_suspend s"
  "has_wakelock_can_not_ignore (fb_say l s) = has_wakelock_can_not_ignore s" "fb_power (fb_say l s) = fb_power s"
  "wakelock_occur_count (fb_say l s) = wakelock_occur_count s" "max_wait_unlock_time (fb_say l s) = max_wait_unlock_time s"
  "haslock_resume_times (fb_say l s) = haslock_resume_times s" "lock_resume_last_time (fb_say l s) = lock_resume_last_time s"
  "fb_ignore_wakelock (fb_say l s) = fb_ignore_wakelock s" "fb_say [] s = s" "fb_say l (fb_say k s) = fb_say (k @ l) s"
  "kill_task_en (fb_say l s) = kill_task_en s"
  by (simp_all add: fb_say_def)

lemma fb_blocked_say [simp]: "fb_blocked board not_kill procs active (fb_say l s) = fb_blocked board not_kill procs active s"
  by (simp add: fb_blocked_def)

lemma suspend_round_blocked:
  assumes "fb_blocked board not_kill procs active s"
  shows "\<exists>l. suspend_round board not_kill procs active locks now now n s =
    Inr (if int n \<ge> max_wait_unlock_time s then (False, suspend_timeout procs locks now now (fb_say l s)) else (True, fb_say l s))"
proof -
  obtain killed names where k: "fastboot_task_kill_exclude True kill_prefixes not_kill procs = Inr (killed, names)"
    using assms by (auto simp: fb_blocked_def)
  define l where "l = (if kill_task_en s then [FbKilled killed] else [])"
  have kill: "(if kill_task_en s then fb_kill not_kill procs s else Inr s) = Inr (fb_say l s)"
    by (simp add: l_def fb_kill_def k)
  have act: "(if board then fb_say l s else list_active_locks active (fb_say l s)) = fb_say l s"
    using assms by (auto simp: fb_blocked_def list_active_locks_def list_ex_iff split: option.splits)
  show ?thesis
    unfolding suspend_round_def kill bindE_simps act Let_def using assms by (auto simp: fb_blocked_def)
qed

lemma suspend_rounds_blocked:
  assumes "fb_blocked board not_kill procs active s" "int n < max_wait_unlock_time s"
  shows "\<exists>l. suspend_rounds board not_kill procs active locks now n s = Inr (True, fb_say l s)"
  using assms(2)
proof (induction n)
  case 0
  have "suspend_rounds board not_kill procs active locks now 0 s = Inr (True, fb_say [] s)" by simp
  then show ?case by blast
next
  case (Suc n)
  then obtain l where "suspend_rounds board not_kill procs active locks now n s = Inr (True, fb_say l s)" by auto
  then show ?case using suspend_round_blocked [of board not_kill procs active "fb_say l s" locks now "Suc n"] assms(1) Suc.prems
    by auto
qed

lemma suspend_attempt:
  assumes "fb_blocked board not_kill procs active s" "1 \<le> max_wait_unlock_time s"
  shows "\<exists>l. suspend_rounds board not_kill procs active locks now (nat (max_wait_unlock_time s)) s =
    Inr (False, suspend_timeout procs locks now now (fb_say l s))"
proof -
  define n where "n = nat (max_wait_unlock_time s) - 1"
  have n: "nat (max_wait_unlock_time s) = Suc n" "int (Suc n) = max_wait_unlock_time s" using assms(2) by (auto simp: n_def)
  then obtain l where "suspend_rounds board not_kill procs active locks now n s = Inr (True, fb_say l s)"
    using suspend_rounds_blocked [OF assms(1), of n locks now] by auto
  then show ?thesis using suspend_round_blocked [of board not_kill procs active "fb_say l s" locks now "Suc n"] assms(1) n
    by auto
qed

text \<open>The number of timeouts this one makes, counted afresh after ten minutes.\<close>

definition occurrence :: "u32 \<Rightarrow> fb_state \<Rightarrow> int" where
  "occurrence now s = (if now - lock_resume_last_time s > 600 * 1000 then 1 else wakelock_occur_count s + 1)"

lemma suspend_timeout_eq:
  assumes "suspend_pending s = PM_STATUS_EARLY_SUSPEND_PENDING"
  shows "if occurrence now s \<le> haslock_resume_times s
    then is_quick_resume (suspend_timeout procs locks now now s) \<and> fb_power (suspend_timeout procs locks now now s) = fb_power s @ [1] \<and>
      fb_ignore_wakelock (suspend_timeout procs locks now now s) = fb_ignore_wakelock s \<and>
      wakelock_occur_count (suspend_timeout procs locks now now s) = occurrence now s
    else fb_ignore_wakelock (suspend_timeout procs locks now now s) \<and> \<not> flywakelock (suspend_timeout procs locks now now s) \<and>
      fb_power (suspend_timeout procs locks now now s) = fb_power s \<and> wakelock_occur_count (suspend_timeout procs locks now now s) = 0"
  using assms by (simp add: suspend_timeout_def occurrence_def Let_def set_power_state_def fb_say_def)
text \<open>
  A suspend that wake locks block is decided after exactly \<open>max_wait_unlock_time\<close> seconds: the machine is
  woken up again (quick resume) while the number of such timeouts, counted afresh after ten minutes, is within
  \<open>haslock_resume_times\<close>, and otherwise the suspend is forced by ignoring the wake locks.
\<close>

theorem suspend_decided:
  assumes "fb_blocked board not_kill procs active s" "1 \<le> max_wait_unlock_time s"
  shows "(\<forall>n. int n < max_wait_unlock_time s \<longrightarrow> (\<exists>s'. suspend_rounds board not_kill procs active locks now n s = Inr (True, s'))) \<and>
    (\<exists>s'. suspend_rounds board not_kill procs active locks now (nat (max_wait_unlock_time s)) s = Inr (False, s') \<and>
       (if occurrence now s \<le> haslock_resume_times s
        then is_quick_resume s' \<and> fb_power s' = fb_power s @ [1] \<and> fb_ignore_wakelock s' = fb_ignore_wakelock s \<and>
          wakelock_occur_count s' = occurrence now s
        else fb_ignore_wakelock s' \<and> \<not> flywakelock s' \<and> fb_power s' = fb_power s \<and> wakelock_occur_count s' = 0))"
proof (rule conjI)
  show "\<forall>n. int n < max_wait_unlock_time s \<longrightarrow> (\<exists>s'. suspend_rounds board not_kill procs active locks now n s = Inr (True, s'))"
    using suspend_rounds_blocked [OF assms(1)] by blast
  obtain l where l: "suspend_rounds board not_kill procs active locks now (nat (max_wait_unlock_time s)) s =
      Inr (False, suspend_timeout procs locks now now (fb_say l s))" using suspend_attempt [OF assms] by blast
  have "occurrence now (fb_say l s) = occurrence now s" by (simp add: occurrence_def)
  then show "\<exists>s'. suspend_rounds board not_kill procs active locks now (nat (max_wait_unlock_time s)) s = Inr (False, s') \<and>
       (if occurrence now s \<le> haslock_resume_times s
        then is_quick_resume s' \<and> fb_power s' = fb_power s @ [1] \<and> fb_ignore_wakelock s' = fb_ignore_wakelock s \<and>
          wakelock_occur_count s' = occurrence now s
        else fb_ignore_wakelock s' \<and> \<not> flywakelock s' \<and> fb_power s' = fb_power s \<and> wakelock_occur_count s' = 0)"
    using l suspend_timeout_eq [of "fb_say l s" now procs locks] assms(1) by (simp add: fb_blocked_def)
qed

definition fb_pending :: fb_state where
  "fb_pending = fastboot_probe\<lparr>suspend_pending := PM_STATUS_EARLY_SUSPEND_PENDING, flywakelock := False\<rparr>"

lemma fb_pending_blocked: "fb_blocked True [] [] None (fb_pending\<lparr>haslock_resume_times := h\<rparr>)"
  by (simp add: fb_blocked_def fb_pending_def fastboot_probe_def fastboot_task_kill_exclude_def)

theorem suspend_decided_witness:
  "\<exists>s'. suspend_rounds True [] [] None [] 9000 5 (fb_pending\<lparr>haslock_resume_times := 0\<rparr>) = Inr (False, s') \<and> fb_ignore_wakelock s'"
  using suspend_decided [OF fb_pending_blocked [of 0], of "[]" 9000]
  by (auto simp: fb_pending_def fastboot_probe_def occurrence_def)

section \<open>Repeated attempts\<close>

text \<open>
  One attempt to suspend that ends with a quick resume, and the next early suspend.
\<close>

definition fb_retry :: "bool \<Rightarrow> string list \<Rightarrow> task list \<Rightarrow> string list option \<Rightarrow> wakelock_item list \<Rightarrow> u32 \<Rightarrow> fb_state \<Rightarrow> fault + fb_state" where
  "fb_retry board not_kill procs active locks now s =
     bindE (suspend_rounds board not_kill procs active locks now (nat (max_wait_unlock_time s)) s) (\<lambda>(_, s').
       Inr (fastboot_set_status PM_STATUS_EARLY_SUSPEND_PENDING (fastboot_late_resume s')))"

text \<open>Timeouts that follow each other within ten minutes.\<close>

fun spaced :: "u32 \<Rightarrow> u32 list \<Rightarrow> bool" where
  "spaced prev [] = True"
| "spaced prev (now # nows) \<longleftrightarrow> now - prev \<le> 600 * 1000 \<and> spaced now nows"

lemma fb_retry_quick:
  assumes "fb_blocked board not_kill procs active s" "1 \<le> max_wait_unlock_time s"
    and "now - lock_resume_last_time s \<le> 600 * 1000" "wakelock_occur_count s + 1 \<le> haslock_resume_times s"
  shows "\<exists>s'. fb_retry board not_kill procs active locks now s = Inr s' \<and> fb_blocked board not_kill procs active s' \<and>
    max_wait_unlock_time s' = max_wait_unlock_time s \<and> haslock_resume_times s' = haslock_resume_times s \<and>
    lock_resume_last_time s' = now \<and> wakelock_occur_count s' = wakelock_occur_count s + 1 \<and>
    fb_ignore_wakelock s' = fb_ignore_wakelock s \<and> fb_power s' = fb_power s @ [1]"
proof -
  obtain l where l: "suspend_rounds board not_kill procs active locks now (nat (max_wait_unlock_time s)) s =
      Inr (False, suspend_timeout procs locks now now (fb_say l s))" using suspend_attempt [OF assms(1,2)] by blast
  have "\<not> 600000 < now - lock_resume_last_time s" using assms(3) by (simp add: not_less)
  then have "suspend_timeout procs locks now now (fb_say l s) =
      s\<lparr>fb_log := fb_log s @ l @ [FbLocks (show_wakelock False procs True locks), FbQuickResume], lock_resume_last_time := now,
        wakelock_occur_count := wakelock_occur_count s + 1, is_quick_resume := True, fb_power := fb_power s @ [1]\<rparr>"
    using assms(4) by (cases s) (simp add: suspend_timeout_def Let_def set_power_state_def fb_say_def)
  then show ?thesis using l assms(1)
    by (simp add: fb_retry_def fastboot_late_resume_def fastboot_set_status_def fb_blocked_def)
qed

lemma fb_retries:
  "fb_blocked board not_kill procs active s \<Longrightarrow> 1 \<le> max_wait_unlock_time s \<Longrightarrow> spaced (lock_resume_last_time s) nows \<Longrightarrow>
   wakelock_occur_count s + int (length nows) \<le> haslock_resume_times s \<Longrightarrow>
   \<exists>s'. foldE (fb_retry board not_kill procs active locks) nows s = Inr s' \<and> fb_blocked board not_kill procs active s' \<and>
     max_wait_unlock_time s' = max_wait_unlock_time s \<and> haslock_resume_times s' = haslock_resume_times s \<and>
     lock_resume_last_time s' = last (lock_resume_last_time s # nows) \<and> wakelock_occur_count s' = wakelock_occur_count s + int (length nows) \<and>
     fb_ignore_wakelock s' = fb_ignore_wakelock s \<and> fb_power s' = fb_power s @ replicate (length nows) 1"
proof (induction nows arbitrary: s)
  case (Cons now nows)
  obtain s1 where s1: "fb_retry board not_kill procs active locks now s = Inr s1" "fb_blocked board not_kill procs active s1"
    "max_wait_unlock_time s1 = max_wait_unlock_time s" "haslock_resume_times s1 = haslock_resume_times s"
    "lock_resume_last_time s1 = now" "wakelock_occur_count s1 = wakelock_occur_count s + 1"
    "fb_ignore_wakelock s1 = fb_ignore_wakelock s" "fb_power s1 = fb_power s @ [1]"
    using fb_retry_quick [of board not_kill procs active s now locks] Cons.prems by auto
  show ?case using Cons.IH [of s1] Cons.prems s1 by auto
qed simp

text \<open>
  A blocked suspend is not retried for ever: of attempts that follow each other within ten minutes, the first
  \<open>haslock_resume_times\<close> end in a quick resume with the wake locks respected, and the next one forces the suspend.
\<close>

theorem suspend_retries_bounded:
  assumes "fb_blocked board not_kill procs active s" "1 \<le> max_wait_unlock_time s" "0 \<le> haslock_resume_times s"
    and "wakelock_occur_count s = 0" "length nows = nat (haslock_resume_times s)" "spaced (lock_resume_last_time s) (nows @ [now])"
  shows "\<exists>s' s''. foldE (fb_retry board not_kill procs active locks) nows s = Inr s' \<and>
    fb_ignore_wakelock s' = fb_ignore_wakelock s \<and> fb_power s' = fb_power s @ replicate (length nows) 1 \<and>
    suspend_rounds board not_kill procs active locks now (nat (max_wait_unlock_time s')) s' = Inr (False, s'') \<and> fb_ignore_wakelock s''"
proof -
  have sp: "spaced l (xs @ [now]) \<longleftrightarrow> spaced l xs \<and> now - last (l # xs) \<le> 600 * 1000" for l xs
    by (induction xs arbitrary: l) auto
  obtain s' where s': "foldE (fb_retry board not_kill procs active locks) nows s = Inr s'" "fb_blocked board not_kill procs active s'"
     "max_wait_unlock_time s' = max_wait_unlock_time s" "haslock_resume_times s' = haslock_resume_times s"
     "lock_resume_last_time s' = last (lock_resume_last_time s # nows)" "wakelock_occur_count s' = haslock_resume_times s"
     "fb_ignore_wakelock s' = fb_ignore_wakelock s" "fb_power s' = fb_power s @ replicate (length nows) 1"
    using fb_retries [of board not_kill procs active s nows locks] assms sp by auto
  have "occurrence now s' = haslock_resume_times s + 1"
  proof -
    have "now - lock_resume_last_time s' \<le> 600 * 1000" using assms(6) s'(5) sp by metis
    then show ?thesis unfolding occurrence_def s'(6) by (simp only: not_less [symmetric] if_False)
  qed
  moreover obtain l where l: "suspend_rounds board not_kill procs active locks now (nat (max_wait_unlock_time s')) s' =
      Inr (False, suspend_timeout procs locks now now (fb_say l s'))"
    using suspend_attempt [OF s'(2)] assms(2) s'(3) by auto
  ultimately have "fb_ignore_wakelock (suspend_timeout procs locks now now (fb_say l s'))"
    using suspend_timeout_eq [of "fb_say l s'" now procs locks] s'(2,4) by (simp add: occurrence_def fb_blocked_def split: if_splits)
  with s' l show ?thesis by blast
qed

theorem suspend_retries_bounded_witness:
  "\<exists>s' s''. foldE (fb_retry True [] [] None []) [9000, 20000] (fb_pending\<lparr>haslock_resume_times := 2\<rparr>) = Inr s' \<and>
    fb_power s' = [1, 1] \<and> suspend_rounds True [] [] None [] 31000 (nat (max_wait_unlock_time s')) s' = Inr (False, s'') \<and> fb_ignore_wakelock s''"
proof -
  let ?s = "fb_pending\<lparr>haslock_resume_times := 2\<rparr>"
  have h: "1 \<le> max_wait_unlock_time ?s" "0 \<le> haslock_resume_times ?s" "wakelock_occur_count ?s = 0"
    "length [9000, 20000 :: u32] = nat (haslock_resume_times ?s)" and p: "fb_power ?s = []" "lock_resume_last_time ?s = 0"
    by (simp_all add: fb_pending_def fastboot_probe_def)
  have "spaced (lock_resume_last_time ?s) ([9000, 20000] @ [31000])"
    unfolding p(2) by (simp only: append.simps spaced.simps) simp
  from suspend_retries_bounded [OF fb_pending_blocked h this, of "[]"] obtain s' s'' where
    "foldE (fb_retry True [] [] None []) [9000, 20000] ?s = Inr s'" "fb_power s' = fb_power ?s @ replicate (length [9000, 20000 :: u32]) 1"
    "suspend_rounds True [] [] None [] 31000 (nat (max_wait_unlock_time s')) s' = Inr (False, s'')" "fb_ignore_wakelock s''" by blast
  moreover have "replicate (length [9000, 20000 :: u32]) (1 :: nat) = [1, 1]" by simp
  ultimately show ?thesis unfolding p(1) by (metis append_Nil)
qed

end
