(* ===== verification/Input.thy ===== *)
theory Input
  imports Mem
begin

text \<open>
  Keys, pins and touches: \<^verbatim>\<open>core/lidbg_key.c\<close>, \<^verbatim>\<open>core/lidbg_io.c\<close> and \<^verbatim>\<open>core/lidbg_ts.c\<close>.

  The input layer and the pin controller of the kernel are outside: what is handed to them is collected in
  order.  The numbers of the key codes are in the kernel's headers, the parameter \<open>kc\<close> of type \<open>key \<Rightarrow> u32\<close>.
\<close>

section \<open>Keys\<close>

datatype key =
    KEY_MENU | KEY_HOME | KEY_BACK | KEY_DOWN | KEY_UP | KEY_RIGHT | KEY_LEFT | KEY_VOLUMEDOWN | KEY_VOLUMEUP | KEY_PAUSE
  | KEY_MUTE | KEY_POWER | KEY_SLEEP | KEY_WAKEUP | KEY_ENTER | KEY_END | KEY_HOMEPAGE

datatype input_event = ReportKey u32 u32 | Sync

definition KEY_RELEASED :: u32 where "KEY_RELEASED = 0"
definition KEY_PRESSED :: u32 where "KEY_PRESSED = 1"

definition lidbg_keycode :: "key list" where
  "lidbg_keycode = [KEY_MENU, KEY_HOME, KEY_BACK, KEY_DOWN, KEY_UP, KEY_RIGHT, KEY_LEFT, KEY_VOLUMEDOWN, KEY_VOLUMEUP,
     KEY_PAUSE, KEY_MUTE, KEY_POWER, KEY_SLEEP, KEY_WAKEUP, KEY_ENTER, KEY_END, KEY_HOMEPAGE]"

text \<open>The table has the element type \<open>unsigned char\<close>; \<open>key_max\<close> is the mask \<open>KEY_MAX\<close>.\<close>

definition lidbg_key_init :: "(key \<Rightarrow> u32) \<Rightarrow> u32 \<Rightarrow> u32 list" where
  "lidbg_key_init kc key_max = map (\<lambda>k. ucast (ucast (kc k) :: byte) AND key_max) lidbg_keycode"

definition lidbg_key_report :: "(key \<Rightarrow> u32) \<Rightarrow> bool \<Rightarrow> u32 \<Rightarrow> u32 \<Rightarrow> input_event list" where
  "lidbg_key_report kc msm8x25 key_value typ =
     (let v = (if \<not> msm8x25 \<and> key_value = kc KEY_HOME then kc KEY_HOMEPAGE else key_value) in
      if typ = KEY_PRESSED \<or> typ = KEY_RELEASED then [ReportKey v typ, Sync]
      else [ReportKey v KEY_PRESSED, Sync, ReportKey v KEY_RELEASED, Sync])"

definition key_names :: "(string \<times> key) list" where
  "key_names = [(''home'', KEY_HOME), (''back'', KEY_BACK), (''up'', KEY_UP), (''down'', KEY_DOWN), (''menu'', KEY_MENU),
     (''right'', KEY_RIGHT), (''left'', KEY_LEFT), (''voldown'', KEY_VOLUMEDOWN), (''volup'', KEY_VOLUMEUP), (''pause'', KEY_PAUSE),
     (''mute'', KEY_MUTE), (''sleep'', KEY_SLEEP), (''power'', KEY_POWER), (''enter'', KEY_ENTER), (''end'', KEY_END)]"

definition lidbg_key_main :: "(key \<Rightarrow> u32) \<Rightarrow> bool \<Rightarrow> string list \<Rightarrow> input_event list" where
  "lidbg_key_main kc msm8x25 argv =
     (if length argv < 2 then []
      else let typ = simple_strtoul (argv ! 1);
               key_value = (case map_of key_names (argv ! 0) of Some k \<Rightarrow> kc k | None \<Rightarrow> simple_strtoul (argv ! 0))
           in lidbg_key_report kc msm8x25 key_value typ)"

section \<open>Pins\<close>

datatype io_action =
    IO_CONFIG_INPUT u32
  | soc_io_input u32
  | IO_CONFIG_OUTPUT u32
  | soc_io_output u32 bool
  | soc_io_irq u32
  | soc_irq_enable u32
  | soc_irq_disable u32
  | IoUsage

text \<open>\<open>gpio_to_int\<close> is the macro \<open>GPIO_TO_INT\<close>; an allocation that fails is reported and then dereferenced.\<close>

definition mod_io_main :: "(u32 \<Rightarrow> u32) \<Rightarrow> bool \<Rightarrow> string list \<Rightarrow> fault + io_action list" where
  "mod_io_main gpio_to_int kmalloc_ok argv =
     (if length argv < 2 then Inr [IoUsage]
      else if argv ! 0 = ''r'' then
        let index = simple_strtoul (argv ! 1) in Inr [IO_CONFIG_INPUT index, soc_io_input index]
      else if argv ! 0 = ''w'' then
        if length argv < 3 then Inr [IoUsage]
        else let index = simple_strtoul (argv ! 1); status = (simple_strtoul (argv ! 2) \<noteq> 0)
             in Inr [IO_CONFIG_OUTPUT index, soc_io_output index status]
      else if argv ! 0 = ''i'' then
        if argv ! 1 = ''request'' then
          if \<not> kmalloc_ok then Inl NullDeref
          else bindE (strtoul_arg argv 2) (\<lambda>n. Inr [soc_io_irq (gpio_to_int n)])
        else if argv ! 1 = ''enable'' then bindE (strtoul_arg argv 2) (\<lambda>n. Inr [soc_irq_enable (gpio_to_int n)])
        else if argv ! 1 = ''disable'' then bindE (strtoul_arg argv 2) (\<lambda>n. Inr [soc_irq_disable (gpio_to_int n)])
        else Inr []
      else Inr [])"

section \<open>Touches\<close>

type_synonym u16 = "16 word"

definition GTP_MAX_TOUCH :: nat where "GTP_MAX_TOUCH = 5"

record lidbg_ts_data =
  ts_x :: "int list"
  ts_y :: "int list"
  ts_w :: "int list"
  ts_id :: "int list"
  touch_num :: byte
  touch_index :: u16
  pre_touch :: u16

datatype mt_event =
    MtSlot int
  | MtFinger bool
  | MtAbs string int
  | MtSync

text \<open>\<open>0x01 << n\<close>, stored into 16 bits.\<close>

definition bit_at :: "int \<Rightarrow> fault + u16" where
  "bit_at n = (if 0 \<le> n \<and> n < 32 then Inr (push_bit (nat n) 1) else Inl BadShift)"

definition touch_slot :: "nat \<Rightarrow> mt_event list \<times> lidbg_ts_data \<Rightarrow> fault + (mt_event list \<times> lidbg_ts_data)" where
  "touch_slot i = (\<lambda>(ev, p).
     let ev0 = ev @ [MtSlot (ts_id p ! i)] in
     if bit (touch_index p) i then
       bindE (bit_at (ts_id p ! (i + 1))) (\<lambda>b.
         Inr (ev0 @ [MtSlot (ts_id p ! i), MtFinger True, MtAbs ''POSITION_X'' (ts_x p ! i), MtAbs ''POSITION_Y'' (ts_y p ! i),
                MtAbs ''TOUCH_MAJOR'' (ts_w p ! i), MtAbs ''WIDTH_MAJOR'' (ts_w p ! i)],
              p\<lparr>pre_touch := pre_touch p OR push_bit i 1, touch_index := touch_index p OR b\<rparr>))
     else
       Inr (ev0 @ [MtSlot (int i), MtFinger False], p\<lparr>pre_touch := pre_touch p AND NOT (push_bit i 1)\<rparr>))"

definition lidbg_touch_report :: "lidbg_ts_data \<Rightarrow> fault + (mt_event list \<times> lidbg_ts_data)" where
  "lidbg_touch_report p =
     bindE (foldE touch_slot [0..<GTP_MAX_TOUCH] ([], p)) (\<lambda>(ev, p'). Inr (ev @ [MtSync], p'))"

text \<open>The report itself is commented out; what is left reads the arguments.\<close>

definition lidbg_touch_main :: "string list \<Rightarrow> fault + unit" where
  "lidbg_touch_main argv = (if length argv < 2 then Inr () else bindE (strtoul_arg argv 2) (\<lambda>_. Inr ()))"

section \<open>Correctness\<close>

lemma low_byte_id: "unat (w :: u32) < 256 \<Longrightarrow> ucast (ucast w :: byte) = w"
  by (simp add: word_unat_eq_iff unsigned_ucast_eq unsigned_take_bit_eq take_bit_nat_eq_self)

lemma report_codes:
  "ReportKey v t \<in> set (lidbg_key_report kc soc k typ) \<Longrightarrow> v = (if \<not> soc \<and> k = kc KEY_HOME then kc KEY_HOMEPAGE else k)"
  by (auto simp: lidbg_key_report_def Let_def split: if_splits)

text \<open>
  No named key is lost in the input layer, which drops codes a device has not declared: with key codes below
  256, as the kernel has them for these keys, every code that the console command reports for a name was declared
  when the device was registered, on both platforms.
\<close>

theorem named_keys_declared:
  assumes "\<forall>k. unat (kc k) < 256 \<and> kc k AND key_max = kc k" "(name, k) \<in> set key_names"
    and "ReportKey v t \<in> set (lidbg_key_main kc soc [name, typ])"
  shows "v \<in> set (lidbg_key_init kc key_max)"
proof -
  have decl: "kc k \<in> set (lidbg_key_init kc key_max)" for k
  proof -
    have "k \<in> set lidbg_keycode" by (cases k) (simp_all add: lidbg_keycode_def)
    moreover have "ucast (ucast (kc k) :: byte) AND key_max = kc k" using assms(1) by (simp add: low_byte_id)
    ultimately show ?thesis by (force simp: lidbg_key_init_def)
  qed
  have "distinct (map fst key_names)" by (simp add: key_names_def)
  then have "map_of key_names name = Some k" using assms(2) by (rule map_of_is_SomeI)
  then have "v = (if \<not> soc \<and> kc k = kc KEY_HOME then kc KEY_HOMEPAGE else kc k)"
    using assms(3) report_codes by (simp add: lidbg_key_main_def Let_def)
  then show ?thesis using decl by simp
qed

theorem named_keys_declared_witness:
  "ReportKey 172 1 \<in> set (lidbg_key_main (\<lambda>k. if k = KEY_HOME then 102 else 172) False [''home'', ''1'']) \<and>
   172 \<in> set (lidbg_key_init (\<lambda>k. if k = KEY_HOME then 102 else 172) 0x2ff)"
proof -
  let ?kc = "\<lambda>k. if k = KEY_HOME then 102 else (172 :: u32)"
  have r: "ReportKey 172 1 \<in> set (lidbg_key_main ?kc False [''home'', ''1''])"
    by (simp add: lidbg_key_main_def key_names_def lidbg_key_report_def KEY_PRESSED_def simple_strtoul_def strtoul_nat_def digit_of_def)
  have "\<forall>k. unat (?kc k) < 256 \<and> ?kc k AND 0x2ff = ?kc k" by simp
  moreover have "(''home'', KEY_HOME) \<in> set key_names" by (simp add: key_names_def)
  ultimately show ?thesis using named_keys_declared [OF _ _ r, of "0x2ff" KEY_HOME] r by blast
qed

definition fingers :: "mt_event list \<Rightarrow> bool list" where
  "fingers ev = concat (map (\<lambda>e. case e of MtFinger b \<Rightarrow> [b] | _ \<Rightarrow> []) ev)"

lemma fingers_append [simp]: "fingers (a @ b) = fingers a @ fingers b"
  by (simp add: fingers_def)

lemma touch_slot_step:
  assumes "touch_slot i (ev, p) = Inr (ev', p')" "i < 16"
  shows "fingers ev' = fingers ev @ [bit (pre_touch p') i] \<and> (\<forall>j. j \<noteq> i \<longrightarrow> bit (pre_touch p') j = bit (pre_touch p) j) \<and>
    bit (pre_touch p') i = bit (touch_index p) i"
proof (cases "bit (touch_index p) i")
  case True
  then have "pre_touch p' = pre_touch p OR push_bit i 1" "fingers ev' = fingers ev @ [True]"
    using assms by (auto simp: touch_slot_def Let_def bindE_eq_Inr_iff fingers_def)
  with True assms(2) show ?thesis by (auto simp: bit_simps)
next
  case False
  then have "pre_touch p' = pre_touch p AND NOT (push_bit i 1)" "fingers ev' = fingers ev @ [False]"
    using assms by (auto simp: touch_slot_def Let_def fingers_def)
  with False assms(2) show ?thesis by (auto simp: bit_simps dest: bit_imp_le_length)
qed

lemma touch_slots:
  "n \<le> 16 \<Longrightarrow> foldE touch_slot [0..<n] ([], p) = Inr (ev, p') \<Longrightarrow>
     fingers ev = map (bit (pre_touch p')) [0..<n] \<and> (\<forall>j \<ge> n. bit (pre_touch p') j = bit (pre_touch p) j)"
proof (induction n arbitrary: ev p')
  case (Suc n)
  then obtain ev1 p1 where s1: "foldE touch_slot [0..<n] ([], p) = Inr (ev1, p1)" and s2: "touch_slot n (ev1, p1) = Inr (ev, p')"
    by (auto simp: foldE_append bindE_eq_Inr_iff)
  note IH = Suc.IH [OF _ s1] and st = touch_slot_step [OF s2]
  have "map (bit (pre_touch p')) [0..<n] = map (bit (pre_touch p1)) [0..<n]" using st Suc.prems(1) by auto
  then show ?case using IH st Suc.prems(1) by auto
qed (auto simp: fingers_def)

text \<open>
  The touch report keeps its memory of pressed fingers in step with what it reports: of the five slots exactly
  those reported as touching are marked in \<open>pre_touch\<close> afterwards, and the marks of other slots are untouched.
\<close>

theorem touch_report_marks:
  "lidbg_touch_report p = Inr (ev, p') \<Longrightarrow>
     fingers ev = map (bit (pre_touch p')) [0..<GTP_MAX_TOUCH] \<and>
     (\<forall>j \<ge> GTP_MAX_TOUCH. bit (pre_touch p') j = bit (pre_touch p) j)"
proof -
  assume "lidbg_touch_report p = Inr (ev, p')"
  then obtain ev1 where "foldE touch_slot [0..<GTP_MAX_TOUCH] ([], p) = Inr (ev1, p')" "ev = ev1 @ [MtSync]"
    by (auto simp: lidbg_touch_report_def bindE_eq_Inr_iff)
  then show ?thesis using touch_slots [of GTP_MAX_TOUCH p ev1 p'] by (simp add: fingers_def GTP_MAX_TOUCH_def)
qed

definition one_finger :: lidbg_ts_data where
  "one_finger = \<lparr>ts_x = replicate 10 7, ts_y = replicate 10 9, ts_w = replicate 10 1, ts_id = replicate 10 0,
     touch_num = 1, touch_index = 1, pre_touch = 0x22\<rparr>"

lemma one_finger_run:
  "\<exists>ev p'. lidbg_touch_report one_finger = Inr (ev, p') \<and> pre_touch p' = 0x21"
  by (simp add: lidbg_touch_report_def GTP_MAX_TOUCH_def touch_slot_def one_finger_def bit_at_def Let_def upt_rec bit_simps)

theorem touch_report_marks_witness:
  "\<exists>ev p'. lidbg_touch_report one_finger = Inr (ev, p') \<and> fingers ev = [True, False, False, False, False]"
proof -
  obtain ev p' where r: "lidbg_touch_report one_finger = Inr (ev, p')" "pre_touch p' = 0x21" using one_finger_run by blast
  from touch_report_marks [OF r(1)] r show ?thesis by (auto simp: GTP_MAX_TOUCH_def upt_rec bit_simps)
qed

end
