(* ===== verification/Console.thy ===== *)
theory Console
  imports Cmn I2c Uart Servicer Trace_Msg Wakelock Input
begin

text \<open>
  The console device \<^verbatim>\<open>/dev/mlidbg0\<close>, \<^verbatim>\<open>core/lidbg.c\<close> and \<^verbatim>\<open>core/lidbg_cmd.c\<close>: a text written to it is split at
  blanks, and a text that starts with \<open>c\<close> is dispatched to the module named by its second word.

  The record \<open>console\<close> puts the states of the modules side by side, the record \<open>con_env\<close> the parts of the kernel they
  call.  The commands \<open>display\<close>, \<open>soc\<close> and \<open>file\<close> have handlers that are not modelled: their calls are collected in
  \<open>c_other\<close>, as are the programs started by \<open>cmm\<close> in \<open>c_helpers\<close>.
\<close>

record 'b console =
  c_wakelock :: wakelock_state
  c_mem :: memory
  c_i2c :: "'b i2c_state"
  c_io :: "io_action list"
  c_keys :: "input_event list"
  c_uart :: io_uart
  c_servicer :: servicer
  c_trace :: trace_state
  c_log :: "lidbg_fifo_device option"
  c_files :: files
  c_uevent :: uevent_state
  c_helpers :: "string list list"
  c_other :: "(string \<times> string list) list"

record 'b con_env =
  e_core :: "'b i2c_core"
  e_alloc :: "nat \<Rightarrow> bool"
  e_kc :: "key \<Rightarrow> u32"
  e_msm8x25 :: bool
  e_gpio_to_int :: "u32 \<Rightarrow> u32"
  e_kmalloc_ok :: bool
  e_beyond :: string
  e_can_open :: "string \<Rightarrow> bool"

type_synonym 'b handler = "string list \<Rightarrow> 'b console \<Rightarrow> fault + 'b console"

definition mod_cmn_main :: "string list \<Rightarrow> string list list \<Rightarrow> fault + string list list" where
  "mod_cmn_main argv helpers =
     bindE (arg argv 0) (\<lambda>a.
       if a = ''user'' then (if length argv < 2 then Inr helpers else Inr (helpers @ [take 4 (drop 1 argv)]))
       else Inr helpers)"

definition lidbg_cmd_item :: "'b con_env \<Rightarrow> (string \<times> 'b handler) list" where
  "lidbg_cmd_item e =
    [(''wakelock'', \<lambda>argv s. Inr (s\<lparr>c_wakelock := lidbg_wakelock_stat (\<lambda>_. e_kmalloc_ok e) argv (c_wakelock s)\<rparr>)),
     (''mem'', \<lambda>argv s. bindE (lidbg_mem_main argv (c_mem s)) (\<lambda>(_, m). Inr (s\<lparr>c_mem := m\<rparr>))),
     (''i2c'', \<lambda>argv s. bindE (mod_i2c_main (e_core e) (e_alloc e) argv (c_i2c s)) (\<lambda>(_, b). Inr (s\<lparr>c_i2c := b\<rparr>))),
     (''io'', \<lambda>argv s. bindE (mod_io_main (e_gpio_to_int e) (e_kmalloc_ok e) argv) (\<lambda>a. Inr (s\<lparr>c_io := c_io s @ a\<rparr>))),
     (''display'', \<lambda>argv s. Inr (s\<lparr>c_other := c_other s @ [(''display'', argv)]\<rparr>)),
     (''key'', \<lambda>argv s. Inr (s\<lparr>c_keys := c_keys s @ lidbg_key_main (e_kc e) (e_msm8x25 e) argv\<rparr>)),
     (''touch'', \<lambda>argv s. bindE (lidbg_touch_main argv) (\<lambda>_. Inr s)),
     (''soc'', \<lambda>argv s. Inr (s\<lparr>c_other := c_other s @ [(''soc'', argv)]\<rparr>)),
     (''uart'', \<lambda>argv s. bindE (lidbg_uart_main argv (c_uart s)) (\<lambda>u. Inr (s\<lparr>c_uart := u\<rparr>))),
     (''servicer'', \<lambda>argv s. bindE (lidbg_servicer_main argv (c_servicer s)) (\<lambda>v. Inr (s\<lparr>c_servicer := v\<rparr>))),
     (''cmm'', \<lambda>argv s. bindE (mod_cmn_main argv (c_helpers s)) (\<lambda>h. Inr (s\<lparr>c_helpers := h\<rparr>))),
     (''file'', \<lambda>argv s. Inr (s\<lparr>c_other := c_other s @ [(''file'', argv)]\<rparr>)),
     (''trace_msg'', \<lambda>argv s. bindE (trace_msg_main argv (c_trace s)) (\<lambda>t. Inr (s\<lparr>c_trace := t\<rparr>))),
     (''mem_log'', \<lambda>argv s. bindE (mem_log_main (e_kmalloc_ok e) (e_beyond e) (e_can_open e) argv (c_log s) (c_files s))
        (\<lambda>(d, f). Inr (s\<lparr>c_log := d, c_files := f\<rparr>))),
     (''uevent'', \<lambda>argv s. bindE (lidbg_uevent_main argv (c_uevent s)) (\<lambda>u. Inr (s\<lparr>c_uevent := u\<rparr>)))]"

text \<open>The loop over the table: the first entry with the name is called.\<close>

fun call_item :: "(string \<times> 'b handler) list \<Rightarrow> string \<Rightarrow> string list \<Rightarrow> 'b console \<Rightarrow> fault + 'b console" where
  "call_item [] nm argv s = Inr s"
| "call_item ((cmd, func) # items) nm argv s = (if nm = cmd then func argv s else call_item items nm argv s)"

definition parse_cmd :: "'b con_env \<Rightarrow> string \<Rightarrow> 'b console \<Rightarrow> fault + 'b console" where
  "parse_cmd e pt s =
     bindE (lidbg_token_string 32 (Some pt) (Some '' '')) (\<lambda>(argc, argv).
       bindE (arg argv 0) (\<lambda>a.
         if a = ''c'' then (if argc < 2 then Inr s else call_item (lidbg_cmd_item e) (argv ! 1) (drop 2 argv) s)
         else Inr s))"

section \<open>The device\<close>

definition LIDBG_SIZE :: int where "LIDBG_SIZE = 4 * 1024"

definition lidbg_write :: "'b con_env \<Rightarrow> string \<Rightarrow> 'b console \<Rightarrow> fault + (nat \<times> 'b console)" where
  "lidbg_write e inp s =
     (if length inp \<ge> 64 \<and> \<not> e_alloc e (length inp + 1) then Inr (0, s)
      else bindE (parse_cmd e (c_string (inp @ [CHR 0x00])) s) (\<lambda>s'. Inr (length inp, s')))"

text \<open>\<open>private_data\<close> is never set, because its assignment in \<open>lidbg_open\<close> is inside \<open>#if 0\<close>.\<close>

definition lidbg_open :: "char list option" where
  "lidbg_open = None"

definition lidbg_read :: "char list option \<Rightarrow> nat \<Rightarrow> fault + (nat \<times> char list)" where
  "lidbg_read private_data count =
     (case private_data of None \<Rightarrow> Inl NullDeref
      | Some m \<Rightarrow> if count > length m then Inl BufOverrun else Inr (count, take count m))"

text \<open>A position and an offset are 64-bit numbers; the absolute case looks at the low 32 bits only.  The
  first component is the result, \<open>-22\<close> is \<open>-EINVAL\<close>.\<close>

definition lidbg_llseek :: "int \<Rightarrow> int \<Rightarrow> int \<Rightarrow> int \<times> int" where
  "lidbg_llseek f_pos offset orig =
     (if orig = 0 then
        (if offset < 0 then (-22, f_pos)
         else if offset mod 2 ^ 32 > LIDBG_SIZE then (-22, f_pos)
         else (offset mod 2 ^ 32, offset mod 2 ^ 32))
      else if orig = 1 then
        (if f_pos + offset > LIDBG_SIZE then (-22, f_pos)
         else if f_pos + offset < 0 then (-22, f_pos)
         else (f_pos + offset, f_pos + offset))
      else (-22, f_pos))"

section \<open>Dispatch\<close>

lemma call_item_map_of:
  "call_item items nm argv s = (case map_of items nm of None \<Rightarrow> Inr s | Some f \<Rightarrow> f argv s)"
  by (induction items) auto

lemma console_words:
  assumes "ws \<noteq> []" "\<forall>w \<in> set ws. CHR '' '' \<notin> set w"
  shows "lidbg_token_string 32 (Some (join (CHR '' '') ws)) (Some '' '') =
    (if length ws \<le> 32 then Inr (length ws, ws) else Inl BufOverrun)"
  by (simp add: lidbg_token_string_def strsep_all_join [OF assms] Let_def)

text \<open>
  Dispatch: a line of words separated by single blanks, written to the device, calls the handler that the
  table has for the second word with the words after it when the first word is \<open>c\<close>, and does nothing when the table
  has no such name or the first word is another; a line of more than 32 words overruns the argument vector.
\<close>

theorem console_dispatch:
  assumes "\<forall>w \<in> set ws. CHR '' '' \<notin> set w \<and> CHR 0x00 \<notin> set w" "ws \<noteq> []"
    and "length (join (CHR '' '') ws) < 64 \<or> e_alloc e (length (join (CHR '' '') ws) + 1)"
  shows "lidbg_write e (join (CHR '' '') ws) s =
    (if length ws > 32 then Inl BufOverrun
     else bindE (case ws of
         c # nm # args \<Rightarrow> if c = ''c'' then (case map_of (lidbg_cmd_item e) nm of None \<Rightarrow> Inr s | Some f \<Rightarrow> f args s) else Inr s
       | _ \<Rightarrow> Inr s)
       (\<lambda>s'. Inr (length (join (CHR '' '') ws), s')))"
proof -
  have z: "CHR 0x00 \<notin> set (join (CHR '' '') ws)" using assms(1) set_join by fastforce
  have t: "lidbg_token_string 32 (Some (join (CHR '' '') ws)) (Some '' '') =
      (if length ws \<le> 32 then Inr (length ws, ws) else Inl BufOverrun)"
    using console_words assms(1,2) by blast
  have "parse_cmd e (join (CHR '' '') ws) s =
      (if length ws > 32 then Inl BufOverrun
       else case ws of
         c # nm # args \<Rightarrow> if c = ''c'' then (case map_of (lidbg_cmd_item e) nm of None \<Rightarrow> Inr s | Some f \<Rightarrow> f args s) else Inr s
       | _ \<Rightarrow> Inr s)"
    unfolding parse_cmd_def t using assms(2)
    by (cases ws; cases "tl ws") (auto simp: arg_def call_item_map_of)
  then show ?thesis using assms(3) c_string_plain [OF z] by (auto simp: lidbg_write_def)
qed

text \<open>
  Seeking keeps the position inside the device: from a position between 0 and its size, every seek ends at one,
  and a seek that fails does not move.
\<close>

theorem llseek_in_range:
  assumes "0 \<le> f_pos" "f_pos \<le> LIDBG_SIZE"
  shows "case lidbg_llseek f_pos offset orig of
    (ret, f_pos') \<Rightarrow> 0 \<le> f_pos' \<and> f_pos' \<le> LIDBG_SIZE \<and> (ret = -22 \<and> f_pos' = f_pos \<or> ret = f_pos')"
  using assms by (auto simp: lidbg_llseek_def)

theorem llseek_in_range_witness: "lidbg_llseek 8 4090 1 = (-22, 8) \<and> lidbg_llseek 8 (2 ^ 32 + 5) 0 = (5, 5)"
  using llseek_in_range [of 8 4090 1] llseek_in_range [of 8 "2 ^ 32 + 5" 0]
  by (simp add: lidbg_llseek_def LIDBG_SIZE_def)

lemma write_words:
  assumes "\<forall>w \<in> set ws. CHR '' '' \<notin> set w \<and> CHR 0x00 \<notin> set w" "ws = ''c'' # nm # args" "length ws \<le> 32"
    and "length (join (CHR '' '') ws) < 64 \<or> e_alloc e (length (join (CHR '' '') ws) + 1)"
  shows "lidbg_write e (join (CHR '' '') ws) s =
    bindE (case map_of (lidbg_cmd_item e) nm of None \<Rightarrow> Inr s | Some f \<Rightarrow> f args s) (\<lambda>s'. Inr (length (join (CHR '' '') ws), s'))"
proof -
  have z: "CHR 0x00 \<notin> set (join (CHR '' '') ws)" using assms(1) set_join by fastforce
  have "lidbg_token_string 32 (Some (join (CHR '' '') ws)) (Some '' '') = Inr (length ws, ws)"
    using console_words [of ws] assms(1,2,3) by auto
  then have "parse_cmd e (join (CHR '' '') ws) s = (case map_of (lidbg_cmd_item e) nm of None \<Rightarrow> Inr s | Some f \<Rightarrow> f args s)"
    using assms(2) by (simp add: parse_cmd_def arg_def call_item_map_of)
  then show ?thesis using assms(4) c_string_plain [OF z] by (auto simp: lidbg_write_def)
qed

theorem console_dispatch_witness:
  "\<forall>(e :: unit con_env) s. lidbg_write e ''c trace_msg disable'' s = Inr (19, s\<lparr>c_trace := lidbg_trace_msg_disable 1 (c_trace s)\<rparr>)"
proof (intro allI)
  fix e :: "unit con_env" and s
  show "lidbg_write e ''c trace_msg disable'' s = Inr (19, s\<lparr>c_trace := lidbg_trace_msg_disable 1 (c_trace s)\<rparr>)"
    using console_dispatch [of "[''c'', ''trace_msg'', ''disable'']" e s]
    by (simp add: lidbg_cmd_item_def trace_msg_main_def arg_def)
qed

text \<open>
  The file server cannot stop the tracer: the command it writes to the console three seconds after the start,
  \<open>c lidbg_trace_msg disable\<close>, names no entry of the command table and changes nothing, while \<open>c trace_msg disable\<close> would
  set the flag.
\<close>

theorem trace_disable_lost:
  "lidbg_write e ''c lidbg_trace_msg disable'' s = Inr (25, s) \<and>
   lidbg_write e ''c trace_msg disable'' s = Inr (19, s\<lparr>c_trace := lidbg_trace_msg_disable 1 (c_trace s)\<rparr>)"
  using write_words [of "[''c'', ''lidbg_trace_msg'', ''disable'']" "''lidbg_trace_msg''" "[''disable'']" e s]
    write_words [of "[''c'', ''trace_msg'', ''disable'']" "''trace_msg''" "[''disable'']" e s]
  by (simp add: lidbg_cmd_item_def trace_msg_main_def arg_def)

lemma show_nat_plain: "CHR '' '' \<notin> set (show_nat n)" "CHR 0x00 \<notin> set (show_nat n)"
  using show_nat_digits [of "CHR '' ''" n] show_nat_digits [of "CHR 0x00" n] by (auto simp: digit_of_def)

text \<open>
  The debug thread of the wake lock statistics reaches them through the console: its \<open>n\<close>-th command takes the
  counted lock \<open>f\<close>\<open>n\<close>.
\<close>

lemma wl_debug_thread_locks:
  assumes "\<forall>k. e_alloc e k"
  shows "lidbg_write e (wl_dbg_command n) s = Inr (length (wl_dbg_command n),
    s\<lparr>c_wakelock := snd (register_wakelock (\<lambda>_. e_kmalloc_ok e) True (CHR ''f'' # show_nat n) None 0 0 (c_wakelock s))\<rparr>)"
proof -
  let ?ws = "[''c'', ''wakelock'', ''lock'', ''count'', ''0'', ''0'', CHR ''f'' # show_nat n]"
  have "wl_dbg_command n = join (CHR '' '') ?ws" by (simp add: wl_dbg_command_def)
  then show ?thesis
    using write_words [of ?ws "''wakelock''" "drop 2 ?ws" e s] assms show_nat_plain [of n]
    by (simp add: lidbg_cmd_item_def lidbg_wakelock_stat_def simple_strtoul_def strtoul_nat_def digit_of_def)
qed

end
