(* ===== verification/Helper.thy ===== *)
theory Helper
  imports Acc
begin

text \<open>
  The helper program in user space, \<^verbatim>\<open>hal/lidbg_servicer/lidbg_servicer.c\<close>: the handler of the signal that the kernel
  sends when it has queued a command.  It reads commands from the device node of \<open>Servicer\<close> until the queue
  is empty, and starts shell commands or sets properties for them.

  What the program does to the outside is collected in \<open>h_acts\<close>.  \<open>mif\<close> is the content of the machine id file,
  \<open>None\<close> when it cannot be opened, \<open>now\<close> the formatted time.
\<close>

datatype helper_act =
    System string
  | PropertySet string string
  | LaunchFastboot

record helper =
  h_queue :: servicer
  logcat_flag :: bool
  kmsg_flag :: bool
  h_acts :: "helper_act list"

definition LOG_DMESG :: u32 where "LOG_DMESG = 1"
definition LOG_CLEAR_LOGCAT_KMSG :: u32 where "LOG_CLEAR_LOGCAT_KMSG = 5"
definition LOG_SHELL_TOP_DF_PS :: u32 where "LOG_SHELL_TOP_DF_PS = 6"
definition VIDEO_SET_PAL :: u32 where "VIDEO_SET_PAL = 81"
definition VIDEO_SET_NTSC :: u32 where "VIDEO_SET_NTSC = 82"
definition VIDEO_SHOW_BLACK :: u32 where "VIDEO_SHOW_BLACK = 85"
definition VIDEO_NORMAL_SHOW :: u32 where "VIDEO_NORMAL_SHOW = 86"
definition VIDEO_PASSAGE_AUX :: u32 where "VIDEO_PASSAGE_AUX = 90"
definition VIDEO_PASSAGE_ASTERN :: u32 where "VIDEO_PASSAGE_ASTERN = 91"
definition VIDEO_PASSAGE_DVD :: u32 where "VIDEO_PASSAGE_DVD = 92"

lemmas helper_commands = CMD_FLY_POWER_OFF_def CMD_ACC_OFF_def CMD_ACC_ON_def CMD_IGNORE_WAKELOCK_def CMD_FAST_POWER_OFF_def
  LOG_LOGCAT_def LOG_DMESG_def LOG_CLEAR_LOGCAT_KMSG_def LOG_SHELL_TOP_DF_PS_def VIDEO_SET_PAL_def VIDEO_SET_NTSC_def
  VIDEO_SHOW_BLACK_def VIDEO_NORMAL_SHOW_def VIDEO_PASSAGE_AUX_def VIDEO_PASSAGE_ASTERN_def VIDEO_PASSAGE_DVD_def SERVICER_DONOTHING_def

text \<open>
  \<open>read_from_file\<close> with a buffer of \<open>sz\<close> bytes: trailing newlines are removed and a NUL is stored behind the rest.  The
  result is the count and the text.
\<close>

definition strip_nl :: "string \<Rightarrow> string" where
  "strip_nl s = rev (dropWhile (\<lambda>c. c = CHR 0x0A) (rev s))"

definition read_from_file :: "string option \<Rightarrow> nat \<Rightarrow> fault + (int \<times> string)" where
  "read_from_file file sz =
     (case file of None \<Rightarrow> Inr (-1, [])
      | Some s \<Rightarrow>
          let b = strip_nl (take sz s)
          in if length b < sz then Inr (int (length b), c_string b) else Inl BufOverrun)"

definition compose_log_name :: "string option \<Rightarrow> string \<Rightarrow> bool \<Rightarrow> fault + string" where
  "compose_log_name mif now kmsg =
     bindE (read_from_file mif 32) (\<lambda>(count, mchine_id).
       let nm = (if kmsg then ''kmsg_'' else ''logcat_'') @ (if count > 0 then mchine_id else ''default'') @ ''_'' @ now @ ''.txt''
       in if length nm < 64 then Inr nm else Inl BufOverrun)"

definition do_acts :: "helper_act list \<Rightarrow> helper \<Rightarrow> helper" where
  "do_acts a h = h\<lparr>h_acts := h_acts h @ a\<rparr>"

definition servicer_cmd :: "string option \<Rightarrow> string \<Rightarrow> u32 \<Rightarrow> helper \<Rightarrow> fault + helper" where
  "servicer_cmd mif now cmd h =
     (if cmd = CMD_ACC_OFF then Inr (do_acts [System ''am broadcast -a cn.flyaudio.boot.ACCOFF &''] h)
      else if cmd = CMD_ACC_ON then Inr (do_acts [System ''am broadcast -a cn.flyaudio.boot.ACCON &''] h)
      else if cmd = CMD_FAST_POWER_OFF then Inr (do_acts [LaunchFastboot] h)
      else if cmd = CMD_FLY_POWER_OFF then Inr (do_acts [System ''am broadcast -a cn.flyaudio.intent.action.FAST_BOOT_START &''] h)
      else if cmd = CMD_IGNORE_WAKELOCK then Inr (do_acts [System ''am broadcast -a com.android.FORCESUSPEND &''] h)
      else if cmd = LOG_LOGCAT then
        (if logcat_flag h then Inr h
         else bindE (compose_log_name mif now False) (\<lambda>nm.
           Inr (do_acts [System (''date >/data/'' @ nm), System ''chmod 777 /data/logcat*'', System (''logcat  -v time>> /data/'' @ nm @ '' &'')]
                  (h\<lparr>logcat_flag := True\<rparr>))))
      else if cmd = LOG_DMESG then
        (if kmsg_flag h then Inr h
         else bindE (compose_log_name mif now True) (\<lambda>nm.
           Inr (do_acts [System ''echo c lidbg_trace_msg disable > /dev/mlidbg0'', System (''date >/data/'' @ nm), System ''chmod 777 /data/kmsg*'',
                   System (''cat /proc/kmsg >> /data/'' @ nm @ '' &'')] (h\<lparr>kmsg_flag := True\<rparr>))))
      else if cmd = LOG_CLEAR_LOGCAT_KMSG then Inr (do_acts [System ''rm /data/logcat*'', System ''rm /data/kmsg*''] h)
      else if cmd = LOG_SHELL_TOP_DF_PS then
        Inr (do_acts [System ''date > /data/machine.txt'', System ''cat /proc/cmdline >> /data/machine.txt'',
          System ''getprop fly.version.mcu >> /data/machine.txt'', System ''top -n 3 -t >/data/top.txt &'',
          System ''screencap -p /data/screenshot.png &'', System ''ps > /data/ps.txt'', System ''df > /data/df.txt'',
          System ''chmod 777 /data/*.txt'', System ''chmod 777 /data/*.png''] h)
      else if cmd = VIDEO_SET_PAL then Inr (do_acts [PropertySet ''tcc.fly.vin.pal'' ''1''] h)
      else if cmd = VIDEO_SET_NTSC then Inr (do_acts [PropertySet ''tcc.fly.vin.pal'' ''0''] h)
      else if cmd = VIDEO_SHOW_BLACK then Inr (do_acts [PropertySet ''fly.video.show.status'' ''0''] h)
      else if cmd = VIDEO_NORMAL_SHOW then Inr (do_acts [PropertySet ''fly.video.show.status'' ''1''] h)
      else if cmd = VIDEO_PASSAGE_DVD then Inr (do_acts [PropertySet ''fly.video.channel.status'' ''1''] h)
      else if cmd = VIDEO_PASSAGE_AUX then Inr (do_acts [PropertySet ''fly.video.channel.status'' ''2''] h)
      else if cmd = VIDEO_PASSAGE_ASTERN then Inr (do_acts [PropertySet ''fly.video.channel.status'' ''3''] h)
      else Inr h)"

text \<open>The loop over the queue: every read of a command shortens the queue, so it ends.\<close>

lemma do_acts_queue [simp]: "h_queue (do_acts a h) = h_queue h"
  by (simp add: do_acts_def)

lemma servicer_cmd_queue: "servicer_cmd mif now cmd h = Inr h' \<Longrightarrow> h_queue h' = h_queue h"
  by (auto simp: servicer_cmd_def bindE_eq_Inr_iff split: if_split_asm)

lemma k2u_read_shorter:
  "k2u_read junk s = (cmd, s') \<Longrightarrow> cmd \<noteq> SERVICER_DONOTHING \<Longrightarrow> length (kf_data (k2u_fifo s')) < length (kf_data (k2u_fifo s))"
  by (cases "kf_data (k2u_fifo s)")
     (auto simp: k2u_read_def kfifo_is_empty_def fifo_out_int_def kfifo_out_def Let_def split: if_splits)

function servicer_handler :: "string option \<Rightarrow> string \<Rightarrow> helper \<Rightarrow> fault + helper" where
  "servicer_handler mif now h =
     (case k2u_read 0 (h_queue h) of
        (cmd, q) \<Rightarrow>
          if cmd = SERVICER_DONOTHING then Inr (h\<lparr>h_queue := q\<rparr>)
          else case servicer_cmd mif now cmd (h\<lparr>h_queue := q\<rparr>) of
              Inl e \<Rightarrow> Inl e
            | Inr h' \<Rightarrow> servicer_handler mif now h')"
  by pat_completeness auto
termination
proof (relation "measure (\<lambda>(_, _, h). length (kf_data (k2u_fifo (h_queue h))))", goal_cases)
  case (2 mif now h)
  then show ?case
    by (auto dest!: servicer_cmd_queue dest: k2u_read_shorter [OF sym])
qed simp

declare servicer_handler.simps [simp del]

section \<open>The handler empties the queue\<close>

text \<open>What a command does is independent of the queue.\<close>

lemma servicer_cmd_other_queue:
  "servicer_cmd mif now c (h\<lparr>h_queue := q\<rparr>) = bindE (servicer_cmd mif now c h) (\<lambda>h'. Inr (h'\<lparr>h_queue := q\<rparr>))"
  unfolding servicer_cmd_def if_distrib [of "\<lambda>r. bindE r _"]
  by (intro if_cong refl; cases h) (simp_all add: do_acts_def bindE_assoc)

lemma foldE_servicer_other_queue:
  "foldE (servicer_cmd mif now) cs (h\<lparr>h_queue := q\<rparr>) = bindE (foldE (servicer_cmd mif now) cs h) (\<lambda>h'. Inr (h'\<lparr>h_queue := q\<rparr>))"
proof (induction cs arbitrary: h)
  case (Cons c cs)
  then show ?case by (simp add: servicer_cmd_other_queue bindE_assoc)
qed simp

lemma servicer_handler_drains:
  assumes "k2u_rel (h_queue h) cs" "SERVICER_DONOTHING \<notin> set cs" "foldE (servicer_cmd mif now) cs h = Inr h'"
  shows "\<exists>q. servicer_handler mif now h = Inr (h'\<lparr>h_queue := q\<rparr>) \<and> k2u_rel q []"
  using assms
proof (induction cs arbitrary: h h')
  case Nil
  obtain q where q: "k2u_read 0 (h_queue h) = (SERVICER_DONOTHING, q)" "k2u_rel q []"
    using k2u.recv_nil [OF Nil(1), of 0] by (metis prod.collapse)
  with Nil(3) show ?case by (subst servicer_handler.simps) auto
next
  case (Cons c cs)
  obtain q where q: "k2u_read 0 (h_queue h) = (c, q)" "k2u_rel q cs"
    using k2u.recv_rel [OF Cons.prems(1), of 0] by (metis prod.collapse)
  from Cons.prems(3) obtain h1 where h1: "servicer_cmd mif now c h = Inr h1" "foldE (servicer_cmd mif now) cs h1 = Inr h'"
    by (auto simp: bindE_eq_Inr_iff)
  have "foldE (servicer_cmd mif now) cs (h1\<lparr>h_queue := q\<rparr>) = Inr (h'\<lparr>h_queue := q\<rparr>)"
    by (simp add: foldE_servicer_other_queue h1)
  from Cons.IH [OF _ _ this] q(2) Cons.prems(2)
  obtain q' where "servicer_handler mif now (h1\<lparr>h_queue := q\<rparr>) = Inr (h'\<lparr>h_queue := q'\<rparr>)" "k2u_rel q' []"
    by auto
  then show ?case
    using q Cons.prems(2) h1(1) by (subst servicer_handler.simps) (auto simp: servicer_cmd_other_queue)
qed

section \<open>Ignition events reach user space\<close>

text \<open>The texts written to the node of the ignition driver, one after the other, each at its time.\<close>

definition acc_write_all :: "bool \<Rightarrow> (u32 \<times> string) list \<Rightarrow> acc_state \<Rightarrow> fault + acc_state" where
  "acc_write_all is_fly = foldE (\<lambda>(now, buf) s. bindE (acc_write is_fly now buf s) (\<lambda>(_, s'). Inr s'))"

text \<open>
  What user space is to be told of them: each event is one command, and a power-off on a board that is not the company's own asks for a log, too.
\<close>

definition ignition_cmd :: "string \<Rightarrow> u32" where
  "ignition_cmd t = (if t = ''acc_on'' then CMD_ACC_ON else if t = ''acc_off'' then CMD_ACC_OFF else CMD_FLY_POWER_OFF)"

definition ignition_cmds :: "bool \<Rightarrow> string \<Rightarrow> u32 list" where
  "ignition_cmds is_fly t = ignition_cmd t # (if \<not> is_fly \<and> t = ''power'' then [LOG_LOGCAT] else [])"

definition ignition_broadcast :: "string \<Rightarrow> string" where
  "ignition_broadcast t =
     ''am broadcast -a cn.flyaudio.'' @
     (if t = ''acc_on'' then ''boot.ACCON &'' else if t = ''acc_off'' then ''boot.ACCOFF &'' else ''intent.action.FAST_BOOT_START &'')"

definition logcat_acts :: "string \<Rightarrow> helper_act list" where
  "logcat_acts nm = [System (''date >/data/'' @ nm), System ''chmod 777 /data/logcat*'', System (''logcat  -v time>> /data/'' @ nm @ '' &'')]"

text \<open>What the helper is to do for the events, if a log with the name \<open>nm\<close> is \<open>running\<close> or not.\<close>

fun ignition_acts :: "bool \<Rightarrow> string \<Rightarrow> bool \<Rightarrow> string list \<Rightarrow> helper_act list" where
  "ignition_acts is_fly nm running [] = []"
| "ignition_acts is_fly nm running (t # ts) =
     System (ignition_broadcast t) #
     (if \<not> is_fly \<and> t = ''power''
      then (if running then [] else logcat_acts nm) @ ignition_acts is_fly nm True ts
      else ignition_acts is_fly nm running ts)"

definition ignition_text :: "string \<Rightarrow> bool" where
  "ignition_text t \<longleftrightarrow> t = ''acc_on'' \<or> t = ''acc_off'' \<or> t = ''power''"

lemma acc_write_ignition:
  assumes "ignition_text t"
  shows "\<exists>s'. acc_write is_fly now t s = Inr (length t, s') \<and> acc_servicer s' = fold k2u_write (ignition_cmds is_fly t) (acc_servicer s)"
proof -
  have "acc_data t = Inr t" using assms by (auto simp: ignition_text_def acc_data_def c_string_def)
  then show ?thesis
    using assms
    by (auto simp: ignition_text_def acc_write_def acc_on_def acc_off_def acc_power_def Let_def ignition_cmd_def ignition_cmds_def
        SOC_Write_Servicer_def)
qed

lemma ignition_cmds_not_nil: "SERVICER_DONOTHING \<notin> set (ignition_cmds is_fly t)"
  by (simp add: ignition_cmds_def ignition_cmd_def helper_commands)

lemma k2u_write_all:
  "k2u_rel q cs \<Longrightarrow> SERVICER_DONOTHING \<notin> set ds \<Longrightarrow> length cs + length ds \<le> 16 \<Longrightarrow> k2u_rel (fold k2u_write ds q) (cs @ ds)"
proof (induction ds arbitrary: q cs)
  case (Cons d ds)
  have "k2u_rel (k2u_write d q) (cs @ [d])" using k2u.send_rel [OF Cons.prems(1), of d] Cons.prems(2,3) by auto
  from Cons.IH [OF this] Cons.prems(2,3) show ?case by simp
qed simp

lemma acc_write_all_queue:
  "k2u_rel (acc_servicer s) cs \<Longrightarrow> list_all ignition_text (map snd evs) \<Longrightarrow>
   length cs + length (concat (map (ignition_cmds is_fly) (map snd evs))) \<le> 16 \<Longrightarrow>
   \<exists>s'. acc_write_all is_fly evs s = Inr s' \<and> k2u_rel (acc_servicer s') (cs @ concat (map (ignition_cmds is_fly) (map snd evs)))"
proof (induction evs arbitrary: s cs)
  case Nil
  then show ?case by (simp add: acc_write_all_def)
next
  case (Cons ev evs)
  obtain now t where ev: "ev = (now, t)" by (cases ev)
  with Cons.prems obtain s1 where s1: "acc_write is_fly now t s = Inr (length t, s1)"
    "acc_servicer s1 = fold k2u_write (ignition_cmds is_fly t) (acc_servicer s)"
    using acc_write_ignition [of t is_fly now s] by auto
  have "k2u_rel (acc_servicer s1) (cs @ ignition_cmds is_fly t)"
    using k2u_write_all [OF Cons.prems(1), of "ignition_cmds is_fly t"] ignition_cmds_not_nil s1(2) Cons.prems(3) ev by simp
  from Cons.IH [OF this] Cons.prems ev show ?case
    by (auto simp: acc_write_all_def s1(1))
qed

lemma servicer_cmd_ignition:
  "ignition_text t \<Longrightarrow> servicer_cmd mif now (ignition_cmd t) h = Inr (do_acts [System (ignition_broadcast t)] h)"
  by (auto simp: ignition_text_def servicer_cmd_def ignition_cmd_def ignition_broadcast_def helper_commands)

lemma servicer_cmd_log:
  assumes "compose_log_name mif now False = Inr nm"
  shows "servicer_cmd mif now LOG_LOGCAT h = Inr (do_acts (if logcat_flag h then [] else logcat_acts nm) (h\<lparr>logcat_flag := True\<rparr>))"
  using assms by (cases h) (simp add: servicer_cmd_def helper_commands do_acts_def logcat_acts_def)

lemma foldE_servicer_ignition:
  "list_all ignition_text ts \<Longrightarrow> is_fly \<or> compose_log_name mif now False = Inr nm \<Longrightarrow>
     foldE (servicer_cmd mif now) (concat (map (ignition_cmds is_fly) ts)) h =
       Inr (h\<lparr>h_acts := h_acts h @ ignition_acts is_fly nm (logcat_flag h) ts,
              logcat_flag := logcat_flag h \<or> \<not> is_fly \<and> ''power'' \<in> set ts\<rparr>)"
proof (induction ts arbitrary: h)
  case (Cons t ts)
  have c: "servicer_cmd mif now (ignition_cmd t) h = Inr (do_acts [System (ignition_broadcast t)] h)"
    using Cons.prems(1) by (simp add: servicer_cmd_ignition)
  show ?case
  proof (cases "\<not> is_fly \<and> t = ''power''")
    case True
    then have "compose_log_name mif now False = Inr nm" using Cons.prems(2) by simp
    from servicer_cmd_log [OF this] Cons c True show ?thesis by (simp add: ignition_cmds_def do_acts_def)
  next
    case False
    then have n: "ignition_cmds is_fly t = [ignition_cmd t]" by (simp add: ignition_cmds_def)
    have "foldE (servicer_cmd mif now) (concat (map (ignition_cmds is_fly) (t # ts))) h =
        foldE (servicer_cmd mif now) (concat (map (ignition_cmds is_fly) ts)) (do_acts [System (ignition_broadcast t)] h)"
      by (simp add: n c)
    also have "\<dots> = Inr (h\<lparr>h_acts := h_acts h @ ignition_acts is_fly nm (logcat_flag h) (t # ts),
              logcat_flag := logcat_flag h \<or> \<not> is_fly \<and> ''power'' \<in> set (t # ts)\<rparr>)"
      using Cons False by (auto simp: do_acts_def)
    finally show ?thesis .
  qed
qed simp

text \<open>
  (C10) Ignition events reach user space: when the texts \<open>acc_on\<close>, \<open>acc_off\<close> and \<open>power\<close> are written to the node of the ignition driver
  while the helper program sleeps and the queue is empty, and they need at most 16 places in the queue, two for a \<open>power\<close> on a board that
  is not the company's own and one for each other, then no write fails, and the next run of the signal handler ends,
  starts exactly one broadcast for each event, in their order, and leaves the queue empty; besides, on the other boards, the
  first \<open>power\<close> starts the log, unless it has been started before, right behind its broadcast.  The machine's number has to leave the name of that log
  within its buffer.
\<close>

theorem ignition_reaches_helper:
  assumes "k2u_rel (acc_servicer s) []" "list_all ignition_text (map snd evs)"
    and "length evs + (if is_fly then 0 else count_list (map snd evs) ''power'') \<le> 16"
    and "is_fly \<or> compose_log_name mif now False = Inr nm"
  shows "\<exists>s' q. acc_write_all is_fly evs s = Inr s' \<and>
    servicer_handler mif now (h\<lparr>h_queue := acc_servicer s'\<rparr>) =
      Inr (h\<lparr>h_acts := h_acts h @ ignition_acts is_fly nm (logcat_flag h) (map snd evs),
             logcat_flag := logcat_flag h \<or> \<not> is_fly \<and> ''power'' \<in> set (map snd evs), h_queue := q\<rparr>) \<and>
    k2u_rel q []"
proof -
  define cmds where "cmds = concat (map (ignition_cmds is_fly) (map snd evs))"
  have "length (concat (map (ignition_cmds is_fly) ts)) = length ts + (if is_fly then 0 else count_list ts ''power'')" for ts
    by (induction ts) (auto simp: ignition_cmds_def)
  then have "length cmds \<le> 16" using assms(3) unfolding cmds_def by (simp del: map_map)
  then obtain s' where s': "acc_write_all is_fly evs s = Inr s'" "k2u_rel (acc_servicer s') cmds"
    using acc_write_all_queue [OF assms(1,2), of is_fly] unfolding cmds_def by auto
  have "SERVICER_DONOTHING \<notin> set cmds" using ignition_cmds_not_nil unfolding cmds_def by fastforce
  from servicer_handler_drains [OF _ this foldE_servicer_ignition [OF assms(2,4), folded cmds_def], of "h\<lparr>h_queue := acc_servicer s'\<rparr>"] s'
  show ?thesis by auto
qed

definition helper_start :: helper where
  "helper_start = \<lparr>h_queue = servicer_start, logcat_flag = False, kmsg_flag = False, h_acts = []\<rparr>"

theorem ignition_reaches_helper_witness:
  "\<exists>s' h'. acc_write_all False [(5, ''acc_off''), (9, ''power'')] acc_start = Inr s' \<and>
     servicer_handler None ''t'' (helper_start\<lparr>h_queue := acc_servicer s'\<rparr>) = Inr h' \<and>
     h_acts h' = [System ''am broadcast -a cn.flyaudio.boot.ACCOFF &'', System ''am broadcast -a cn.flyaudio.intent.action.FAST_BOOT_START &'']
       @ logcat_acts ''logcat_default_t.txt''"
proof -
  have "k2u_rel (acc_servicer acc_start) []" by (simp add: acc_start_def k2u_rel_start)
  moreover have "compose_log_name None ''t'' False = Inr ''logcat_default_t.txt''" by code_simp
  ultimately show ?thesis
    using ignition_reaches_helper [of acc_start "[(5, ''acc_off''), (9, ''power'')]" False None "''t''" "''logcat_default_t.txt''" helper_start]
    by (auto simp: ignition_text_def ignition_broadcast_def helper_start_def)
qed

end
