(* ===== verification/Userver.thy ===== *)
theory Userver
  imports Cmn
begin

text \<open>
  The uevent server in user space, \<^verbatim>\<open>hal/lidbg_userver/lidbg_userver.c\<close>: it receives the uevents of the kernel, runs the shell
  commands that the kernel modules send through the node \<^verbatim>\<open>lidbg_uevent\<close> (\<open>uevent_shell\<close> of theory \<open>Cmn\<close>), and hands the other
  uevents back to the kernel modules as text (\<open>lidbg_uevent_write\<close> of theory \<open>Cmn\<close>).

  The receive buffer \<open>msg[513]\<close> is a static array that keeps the bytes of earlier messages, so it is part of the state: a
  list of 513 characters.  A pointer into it is the rest of the list behind it, and running behind the array is a fault.
  A pointer to a string constant or a field that is set is the text it points to.
\<close>

definition LIDBG_UEVENT_MSG_LEN :: nat where "LIDBG_UEVENT_MSG_LEN = 512"

record uevent =
  ue_action :: string
  devpath :: string
  subsystem :: string
  devname :: string
  lidbg_action :: string
  lidbg_parameter :: "string option"

datatype userver_act =
    RunShell string
  | Transfer string
  | ErrAction string "string option"

record userver =
  umsg :: "char list"
  u_acts :: "userver_act list"

definition userver_do :: "userver_act \<Rightarrow> userver \<Rightarrow> userver" where
  "userver_do a u = u\<lparr>u_acts := u_acts u @ [a]\<rparr>"

definition memreplace :: "char list \<Rightarrow> char \<Rightarrow> char \<Rightarrow> nat \<Rightarrow> char list" where
  "memreplace drr d r len = map (\<lambda>c. if c = d then r else c) (take len drr) @ drop len drr"

definition lidbg_uevent_process :: "uevent \<Rightarrow> userver \<Rightarrow> userver" where
  "lidbg_uevent_process ue u =
     (case lidbg_parameter ue of
        Some p \<Rightarrow> if lidbg_action ue = ''shell'' then userver_do (RunShell p) u
                  else userver_do (ErrAction (lidbg_action ue) (Some p)) u
      | None \<Rightarrow> userver_do (ErrAction (lidbg_action ue) None) u)"

definition uevent_null :: uevent where
  "uevent_null = \<lparr>ue_action = ''null'', devpath = ''null'', subsystem = ''null'', devname = ''null'', lidbg_action = ''null'',
     lidbg_parameter = None\<rparr>"

text \<open>The chain of comparisons at one string of the message: the new position and the new fields.\<close>

text \<open>\<open>strncmp\<close> with a key and the length of the key, and the position behind the key.\<close>

definition begins :: "string \<Rightarrow> char list \<Rightarrow> bool" where
  "begins key msg \<longleftrightarrow> take (length key) msg = key"

definition behind :: "string \<Rightarrow> char list \<Rightarrow> char list" where
  "behind key msg = drop (length key) msg"

definition uevent_field :: "char list \<Rightarrow> uevent \<Rightarrow> char list \<times> uevent" where
  "uevent_field msg ue =
     (if begins ''ACTION='' msg then (behind ''ACTION='' msg, ue\<lparr>ue_action := c_string (behind ''ACTION='' msg)\<rparr>)
      else if begins ''DEVPATH='' msg then (behind ''DEVPATH='' msg, ue\<lparr>devpath := c_string (behind ''DEVPATH='' msg)\<rparr>)
      else if begins ''SUBSYSTEM='' msg then (behind ''SUBSYSTEM='' msg, ue\<lparr>subsystem := c_string (behind ''SUBSYSTEM='' msg)\<rparr>)
      else if begins ''DEVNAME='' msg then (behind ''DEVNAME='' msg, ue\<lparr>devname := c_string (behind ''DEVNAME='' msg)\<rparr>)
      else if begins ''LIDBG_ACTION='' msg then (behind ''LIDBG_ACTION='' msg, ue\<lparr>lidbg_action := c_string (behind ''LIDBG_ACTION='' msg)\<rparr>)
      else if begins ''LIDBG_PARAMETER='' msg then (behind ''LIDBG_PARAMETER='' msg, ue\<lparr>lidbg_parameter := Some (c_string (behind ''LIDBG_PARAMETER='' msg))\<rparr>)
      else (msg, ue))"

lemma uevent_field_length: "length (fst (uevent_field msg ue)) \<le> length msg"
  by (simp add: uevent_field_def behind_def)

function parse_loop :: "char list \<Rightarrow> uevent \<Rightarrow> fault + uevent" where
  "parse_loop msg ue =
     (case msg of
        [] \<Rightarrow> Inl BufOverrun
      | c # _ \<Rightarrow>
          if c = CHR 0x00 then Inr ue
          else let (m, ue') = uevent_field msg ue in
            case dropWhile (\<lambda>c. c \<noteq> CHR 0x00) m of
              [] \<Rightarrow> Inl BufOverrun
            | _ # next \<Rightarrow> parse_loop next ue')"
  by pat_completeness auto
termination
proof (relation "measure (length \<circ> fst)", goal_cases)
  case (2 msg ue c cs fld m ue' z rest)
  have "length (dropWhile (\<lambda>c. c \<noteq> CHR 0x00) m) \<le> length m" by (rule length_dropWhile_le)
  moreover have "length m \<le> length msg" using uevent_field_length [of msg ue] 2(3,4) by (metis fst_conv)
  ultimately show ?case using 2(5) by simp
qed simp

declare parse_loop.simps [simp del]

definition parse_uevent :: "char list \<Rightarrow> fault + uevent" where
  "parse_uevent msg = parse_loop msg uevent_null"

text \<open>
  The callback for a readable socket.  \<open>recv\<close> is what \<open>uevent_kernel_multicast_recv\<close> delivers: \<open>None\<close> for its error result \<open>-1\<close>,
  or the bytes of the message, of which the buffer receives at most \<open>LIDBG_UEVENT_MSG_LEN\<close>.  The
  result \<open>-1\<close> of a function declared \<open>bool\<close> is true.
\<close>

definition lidbg_uevent_callback :: "int \<Rightarrow> char list option \<Rightarrow> userver \<Rightarrow> fault + (bool \<times> userver)" where
  "lidbg_uevent_callback fd recv u =
     (if fd < 0 then Inr (True, u)
      else case recv of
        None \<Rightarrow> Inl BufOverrun
      | Some bytes \<Rightarrow>
          let n = length bytes; got = take LIDBG_UEVENT_MSG_LEN bytes;
              msg = got @ drop (length got) (umsg u)
          in if n > LIDBG_UEVENT_MSG_LEN then Inr (True, u\<lparr>umsg := msg\<rparr>)
             else let msg' = msg[n := CHR 0x00]; u1 = u\<lparr>umsg := msg'\<rparr> in
               bindE (parse_uevent msg') (\<lambda>ue.
                 if devname ue = ''lidbg_uevent'' then Inr (False, lidbg_uevent_process ue u1)
                 else if \<not> strstr ''cpu,power_supply'' (subsystem ue)
                 then let m = memreplace msg' (CHR 0x00) (CHR '' '') (n - 1)
                      in Inr (False, userver_do (Transfer (c_string m)) (u1\<lparr>umsg := m\<rparr>))
                 else Inr (False, u1)))"

section \<open>Messages of the kernel\<close>

text \<open>The kernel sends a list of strings, each with a NUL behind it.\<close>

definition packed :: "string list \<Rightarrow> char list" where
  "packed strs = concat (map (\<lambda>s. s @ [CHR 0x00]) strs)"

definition uevent_string :: "string \<Rightarrow> bool" where
  "uevent_string s \<longleftrightarrow> s \<noteq> [] \<and> CHR 0x00 \<notin> set s"

lemma packed_simps [simp]:
  "packed [] = []" "packed (s # ss) = s @ CHR 0x00 # packed ss" "packed (xs @ ys) = packed xs @ packed ys"
  by (simp_all add: packed_def)

lemma begins_nul: "CHR 0x00 \<notin> set key \<Longrightarrow> begins key (s @ CHR 0x00 # r) \<longleftrightarrow> begins key s"
proof (induction key arbitrary: s)
  case (Cons k key)
  then show ?case by (cases s) (auto simp: begins_def)
qed (simp add: begins_def)

declare c_string_plain [simp]

lemma behind_nul: "begins key s \<Longrightarrow> behind key (s @ CHR 0x00 # r) = behind key s @ CHR 0x00 # r"
  by (auto simp: begins_def behind_def dest: arg_cong [of _ _ length])

lemma set_behind: "CHR 0x00 \<notin> set s \<Longrightarrow> CHR 0x00 \<notin> set (behind key s)"
  by (auto simp: behind_def dest: in_set_dropD)

text \<open>No key is the beginning of another, so the order of the comparisons does not matter.\<close>

lemma begins_excl: "begins k1 s \<Longrightarrow> begins k2 s \<Longrightarrow> begins k1 k2 \<or> begins k2 k1"
  unfolding begins_def by (metis le_cases min.absorb1 take_take)

definition uevent_keys :: "string list" where
  "uevent_keys = [''ACTION='', ''DEVPATH='', ''SUBSYSTEM='', ''DEVNAME='', ''LIDBG_ACTION='', ''LIDBG_PARAMETER='']"

lemma uevent_keys_disjoint:
  "begins k1 s \<Longrightarrow> k1 \<in> set uevent_keys \<Longrightarrow> k2 \<in> set uevent_keys \<Longrightarrow> k1 \<noteq> k2 \<Longrightarrow> \<not> begins k2 s"
proof -
  have "list_all (\<lambda>k1. list_all (\<lambda>k2. k1 = k2 \<or> \<not> begins k1 k2) uevent_keys) uevent_keys"
    by code_simp
  then show "begins k1 s \<Longrightarrow> k1 \<in> set uevent_keys \<Longrightarrow> k2 \<in> set uevent_keys \<Longrightarrow> k1 \<noteq> k2 \<Longrightarrow> \<not> begins k2 s"
    using begins_excl [of k1 s k2] unfolding list_all_iff by metis
qed

lemma uevent_keys_nul: "k \<in> set uevent_keys \<Longrightarrow> CHR 0x00 \<notin> set k"
  by (auto simp: uevent_keys_def)

lemma in_uevent_keys:
  "''ACTION='' \<in> set uevent_keys" "''DEVPATH='' \<in> set uevent_keys" "''SUBSYSTEM='' \<in> set uevent_keys"
  "''DEVNAME='' \<in> set uevent_keys" "''LIDBG_ACTION='' \<in> set uevent_keys" "''LIDBG_PARAMETER='' \<in> set uevent_keys"
  by (simp_all add: uevent_keys_def)

lemmas begins_key_nul = in_uevent_keys [THEN uevent_keys_nul, THEN begins_nul]

lemma uevent_field_nul:
  assumes "CHR 0x00 \<notin> set s"
  shows "uevent_field (s @ CHR 0x00 # r) ue = (fst (uevent_field s ue) @ CHR 0x00 # r, snd (uevent_field s ue))"
  unfolding uevent_field_def begins_key_nul if_distrib [of fst] if_distrib [of snd]
  by (simp add: behind_nul set_behind assms c_string_id)

lemma uevent_field_rest: "set (fst (uevent_field s ue)) \<subseteq> set s"
  by (auto simp: uevent_field_def behind_def dest: in_set_dropD)

lemma parse_loop_packed:
  "list_all uevent_string strs \<Longrightarrow>
     parse_loop (packed strs @ CHR 0x00 # junk) ue = Inr (fold (\<lambda>s ue. snd (uevent_field s ue)) strs ue)"
proof (induction strs arbitrary: ue)
  case Nil
  then show ?case by (subst parse_loop.simps) simp
next
  case (Cons s strs)
  let ?r = "packed strs @ CHR 0x00 # junk"
  from Cons.prems have s: "s \<noteq> []" "CHR 0x00 \<notin> set s" by (simp_all add: uevent_string_def)
  then obtain c cs where c: "s = c # cs" "c \<noteq> CHR 0x00" by (cases s) auto
  have "dropWhile (\<lambda>c. c \<noteq> CHR 0x00) (fst (uevent_field s ue) @ CHR 0x00 # ?r) = CHR 0x00 # ?r"
    using uevent_field_rest [of s ue] s(2) by (subst dropWhile_append2) auto
  then show ?case
    using Cons c uevent_field_nul [OF s(2), of ?r ue] by (subst parse_loop.simps) simp
qed

text \<open>The last string with a key decides.\<close>

definition last_value :: "string \<Rightarrow> 'a \<Rightarrow> (string \<Rightarrow> 'a) \<Rightarrow> string list \<Rightarrow> 'a" where
  "last_value key d f strs = last (d # map (f \<circ> behind key) (filter (begins key) strs))"

lemma last_value_simps [simp]:
  "last_value key d f [] = d"
  "last_value key d f (s # strs) = last_value key (if begins key s then f (behind key s) else d) f strs"
  by (simp_all add: last_value_def)

lemma last_value_append: "last_value key d f (xs @ ys) = last_value key (last_value key d f xs) f ys"
  by (induction xs arbitrary: d) simp_all

lemma last_value_none: "list_all (\<lambda>s. \<not> begins key s) strs \<Longrightarrow> last_value key d f strs = d"
  by (induction strs) simp_all

lemma uevent_field_string:
  assumes "CHR 0x00 \<notin> set s"
  shows "snd (uevent_field s ue) =
    \<lparr>ue_action = (if begins ''ACTION='' s then behind ''ACTION='' s else ue_action ue),
     devpath = (if begins ''DEVPATH='' s then behind ''DEVPATH='' s else devpath ue),
     subsystem = (if begins ''SUBSYSTEM='' s then behind ''SUBSYSTEM='' s else subsystem ue),
     devname = (if begins ''DEVNAME='' s then behind ''DEVNAME='' s else devname ue),
     lidbg_action = (if begins ''LIDBG_ACTION='' s then behind ''LIDBG_ACTION='' s else lidbg_action ue),
     lidbg_parameter = (if begins ''LIDBG_PARAMETER='' s then Some (behind ''LIDBG_PARAMETER='' s) else lidbg_parameter ue)\<rparr>"
proof -
  have d: "c_string (behind k s) = behind k s" for k using set_behind [OF assms] by (rule c_string_id)
  show ?thesis
  proof (cases "\<exists>k \<in> set uevent_keys. begins k s")
    case True
    then obtain k where k: "k \<in> set uevent_keys" "begins k s" by blast
    have "\<not> begins k' s" if "k' \<in> set uevent_keys" "k' \<noteq> k" for k'
      using uevent_keys_disjoint [OF k(2,1) that(1)] that(2) by blast
    then have "begins k' s \<longleftrightarrow> k' = k" if "k' \<in> set uevent_keys" for k' using k(2) that by blast
    note b = in_uevent_keys [THEN this]
    show ?thesis
      using k(1) unfolding uevent_field_def d b by (auto simp: uevent_keys_def)
  next
    case False
    then have "\<not> begins k' s" if "k' \<in> set uevent_keys" for k' using that by blast
    note b = in_uevent_keys [THEN this]
    show ?thesis unfolding uevent_field_def by (simp add: b)
  qed
qed

lemma fold_uevent_field:
  "list_all uevent_string strs \<Longrightarrow> fold (\<lambda>s ue. snd (uevent_field s ue)) strs ue =
    \<lparr>ue_action = last_value ''ACTION='' (ue_action ue) id strs,
     devpath = last_value ''DEVPATH='' (devpath ue) id strs,
     subsystem = last_value ''SUBSYSTEM='' (subsystem ue) id strs,
     devname = last_value ''DEVNAME='' (devname ue) id strs,
     lidbg_action = last_value ''LIDBG_ACTION='' (lidbg_action ue) id strs,
     lidbg_parameter = last_value ''LIDBG_PARAMETER='' (lidbg_parameter ue) Some strs\<rparr>"
proof (induction strs arbitrary: ue)
  case (Cons s strs)
  then have "CHR 0x00 \<notin> set s" by (simp add: uevent_string_def)
  then show ?case using Cons by (simp add: uevent_field_string)
qed simp

definition uevent_of :: "string list \<Rightarrow> uevent" where
  "uevent_of strs =
    \<lparr>ue_action = last_value ''ACTION='' ''null'' id strs, devpath = last_value ''DEVPATH='' ''null'' id strs,
     subsystem = last_value ''SUBSYSTEM='' ''null'' id strs, devname = last_value ''DEVNAME='' ''null'' id strs,
     lidbg_action = last_value ''LIDBG_ACTION='' ''null'' id strs, lidbg_parameter = last_value ''LIDBG_PARAMETER='' None Some strs\<rparr>"

text \<open>The buffer after a message has been received, whatever it held before.\<close>

lemma received_buffer:
  assumes "length m \<le> 512" "length old = 513"
  shows "\<exists>junk. (m @ drop (length m) old)[length m := CHR 0x00] = m @ CHR 0x00 # junk \<and> length junk = 512 - length m"
  using assms by (intro exI [of _ "drop (Suc (length m)) old"]) (simp add: list_update_append upd_conv_take_nth_drop)

lemma callback_packed:
  assumes "list_all uevent_string strs" "length (packed strs) \<le> 512" "length (umsg u) = 513" "0 \<le> fd"
  shows "\<exists>junk. length junk = 512 - length (packed strs) \<and>
    lidbg_uevent_callback fd (Some (packed strs)) u =
      (let ue = uevent_of strs; msg = packed strs @ CHR 0x00 # junk; u1 = u\<lparr>umsg := msg\<rparr>;
           m = memreplace msg (CHR 0x00) (CHR '' '') (length (packed strs) - 1)
       in Inr (False, if devname ue = ''lidbg_uevent'' then lidbg_uevent_process ue u1
                      else if \<not> strstr ''cpu,power_supply'' (subsystem ue)
                      then userver_do (Transfer (c_string m)) (u1\<lparr>umsg := m\<rparr>) else u1))"
proof -
  obtain junk where j: "(packed strs @ drop (length (packed strs)) (umsg u))[length (packed strs) := CHR 0x00] =
      packed strs @ CHR 0x00 # junk" "length junk = 512 - length (packed strs)"
    using received_buffer [OF assms(2,3)] by blast
  have "parse_uevent (packed strs @ CHR 0x00 # junk) = Inr (uevent_of strs)"
    by (simp add: parse_uevent_def parse_loop_packed fold_uevent_field assms(1) uevent_of_def uevent_null_def)
  then show ?thesis
    using assms j by (intro exI [of _ junk]) (simp add: lidbg_uevent_callback_def LIDBG_UEVENT_MSG_LEN_def Let_def)
qed

section \<open>Shell commands of the kernel modules\<close>

lemma uevent_process_shell:
  "lidbg_action ue = ''shell'' \<Longrightarrow> lidbg_parameter ue = Some p \<Longrightarrow> lidbg_uevent_process ue u = userver_do (RunShell p) u"
  by (simp add: lidbg_uevent_process_def)

lemma u_acts_do [simp]: "u_acts (userver_do a u) = u_acts u @ [a]" "umsg (userver_do a u) = umsg u"
  by (simp_all add: userver_do_def)

text \<open>The strings of a shell command, behind strings \<open>hdr\<close> that the kernel puts before them and before strings \<open>tlr\<close>.\<close>

lemma uevent_of_shell:
  fixes hdr :: "string list" and cmd :: string
  assumes "list_all (\<lambda>s. \<not> begins ''LIDBG_ACTION='' s \<and> \<not> begins ''LIDBG_PARAMETER='' s) tlr"
  defines "ue \<equiv> uevent_of (hdr @ [''LIDBG_ACTION=shell'', ''LIDBG_PARAMETER='' @ cmd] @ tlr)"
  shows "lidbg_action ue = ''shell''" "lidbg_parameter ue = Some cmd"
    "devname ue = last_value ''DEVNAME='' (last_value ''DEVNAME='' ''null'' id hdr) id tlr"
proof -
  have n: "list_all (\<lambda>s. \<not> begins ''LIDBG_ACTION='' s) tlr" "list_all (\<lambda>s. \<not> begins ''LIDBG_PARAMETER='' s) tlr"
    using assms(1) by (simp_all add: list_all_iff)
  show "lidbg_action ue = ''shell''" "lidbg_parameter ue = Some cmd"
    "devname ue = last_value ''DEVNAME='' (last_value ''DEVNAME='' ''null'' id hdr) id tlr"
    by (simp_all add: ue_def uevent_of_def last_value_append last_value_none [OF n(1)] last_value_none [OF n(2)]
        begins_def behind_def)
qed

text \<open>
  (C11) Shell commands of the kernel modules reach \<open>system\<close>: a command given to \<open>uevent_shell\<close> is run by the uevent server, once,
  and only it, when the message carries the two strings of the command behind any strings \<open>hdr\<close> and before any strings \<open>tlr\<close> (the
  kernel adds the device name there), is no longer than 512 bytes, and \<open>tlr\<close> does not repeat the keys.  Old bytes in the receive
  buffer do no harm.  The command is cut to 239 characters.
\<close>

theorem shell_command_executed:
  assumes "CHR 0x00 \<notin> set cmd" "list_all uevent_string (hdr @ tlr)"
    and "list_all (\<lambda>s. \<not> begins ''LIDBG_ACTION='' s \<and> \<not> begins ''LIDBG_PARAMETER='' s) tlr"
    and "last_value ''DEVNAME='' (last_value ''DEVNAME='' ''null'' id hdr) id tlr = ''lidbg_uevent''"
    and "length (packed (hdr @ last (uevents_sent (uevent_shell cmd k)) @ tlr)) \<le> 512" "length (umsg u) = 513" "0 \<le> fd"
  shows "\<exists>u'. lidbg_uevent_callback fd (Some (packed (hdr @ last (uevents_sent (uevent_shell cmd k)) @ tlr))) u = Inr (False, u') \<and>
    u_acts u' = u_acts u @ [RunShell (take 239 cmd)] \<and> length (umsg u') = 513"
proof -
  let ?strs = "hdr @ [''LIDBG_ACTION=shell'', ''LIDBG_PARAMETER='' @ take 239 cmd] @ tlr"
  have sent: "hdr @ last (uevents_sent (uevent_shell cmd k)) @ tlr = ?strs"
    by (simp add: uevent_shell_def uevent_send_def)
  have "list_all uevent_string ?strs"
    using assms(1,2) by (auto simp: uevent_string_def dest: in_set_takeD)
  from callback_packed [OF this assms(5) [unfolded sent] assms(6,7)] obtain junk where
    "length junk = 512 - length (packed ?strs)"
    "lidbg_uevent_callback fd (Some (packed ?strs)) u =
       Inr (False, userver_do (RunShell (take 239 cmd)) (u\<lparr>umsg := packed ?strs @ CHR 0x00 # junk\<rparr>))"
    using uevent_of_shell [OF assms(3), of hdr "take 239 cmd"] assms(4)
    by (auto simp: Let_def uevent_process_shell)
  then show ?thesis using assms(5) unfolding sent by simp
qed

definition userver_start :: userver where
  "userver_start = \<lparr>umsg = replicate 513 (CHR 0x00), u_acts = []\<rparr>"

theorem shell_command_executed_witness:
  "\<exists>u'. lidbg_uevent_callback 3 (Some (packed
      [''change@/devices/virtual/misc/lidbg_uevent'', ''ACTION=change'', ''LIDBG_ACTION=shell'', ''LIDBG_PARAMETER=reboot'',
       ''SEQNUM=7'', ''DEVNAME=lidbg_uevent''])) userver_start = Inr (False, u') \<and> u_acts u' = [RunShell ''reboot''] \<and> length (umsg u') = 513"
proof -
  let ?hdr = "[''change@/devices/virtual/misc/lidbg_uevent'', ''ACTION=change'']"
  let ?tlr = "[''SEQNUM=7'', ''DEVNAME=lidbg_uevent'']" and ?k = "\<lparr>uevent_list = [], uevent_dbg = False, uevents_sent = [], callbacks_run = []\<rparr>"
  from shell_command_executed [of "''reboot''" ?hdr ?tlr ?k userver_start 3] show ?thesis
    by (simp add: uevent_shell_def uevent_send_def uevent_string_def begins_def behind_def userver_start_def)
qed

section \<open>Other uevents\<close>

text \<open>The strings of a message with a blank between them.\<close>

primrec with_blanks :: "string list \<Rightarrow> string" where
  "with_blanks [] = []"
| "with_blanks (s # strs) = (if strs = [] then s else s @ CHR '' '' # with_blanks strs)"

lemma map_no_nul: "CHR 0x00 \<notin> set s \<Longrightarrow> map (\<lambda>c. if c = CHR 0x00 then r else c) s = s"
  by (induction s) auto

lemma packed_blanks:
  "list_all uevent_string strs \<Longrightarrow> strs \<noteq> [] \<Longrightarrow>
     packed strs \<noteq> [] \<and> last (packed strs) = CHR 0x00 \<and>
     map (\<lambda>c. if c = CHR 0x00 then CHR '' '' else c) (butlast (packed strs)) = with_blanks strs \<and> CHR 0x00 \<notin> set (with_blanks strs)"
proof (induction strs)
  case (Cons s strs)
  then show ?case
    by (cases "strs = []") (auto simp: butlast_append map_no_nul uevent_string_def)
qed simp

lemma memreplace_packed:
  assumes "list_all uevent_string strs" "strs \<noteq> []"
  shows "c_string (memreplace (packed strs @ r) (CHR 0x00) (CHR '' '') (length (packed strs) - 1)) = with_blanks strs"
proof -
  note p = packed_blanks [OF assms]
  have b: "packed strs = butlast (packed strs) @ [CHR 0x00]" using p by (metis append_butlast_last_id)
  have t: "take (length (packed strs) - 1) (packed strs @ r) = butlast (packed strs)" by (simp add: butlast_conv_take)
  have "drop (length (packed strs) - 1) (packed strs @ r) = CHR 0x00 # r"
    by (subst b) (simp del: append_butlast_last_id)
  then show ?thesis using p t by (simp add: memreplace_def)
qed

text \<open>
  The other uevents come back to the kernel modules: for any message of at most 512 bytes that is not for the server
  itself and whose subsystem is not found in the text \<open>cpu,power_supply\<close>, the server writes its strings with blanks between them
  to the node, and there every registered callback runs whose focus text occurs in them, in the order of the list.
\<close>

theorem uevent_relayed:
  assumes "list_all uevent_string strs" "strs \<noteq> []" "length (packed strs) \<le> 512" "length (umsg u) = 513" "0 \<le> fd"
    and "last_value ''DEVNAME='' ''null'' id strs \<noteq> ''lidbg_uevent''"
    and "\<not> strstr ''cpu,power_supply'' (last_value ''SUBSYSTEM='' ''null'' id strs)"
  shows "\<exists>u' m. lidbg_uevent_callback fd (Some (packed strs)) u = Inr (False, u') \<and> u_acts u' = u_acts u @ [Transfer m] \<and>
    callbacks_run (snd (lidbg_uevent_write m k)) =
      callbacks_run k @ map (\<lambda>(f, cb). (cb, f, with_blanks strs)) (filter (\<lambda>(f, cb). strstr (with_blanks strs) f) (uevent_list k))"
proof -
  obtain junk where "lidbg_uevent_callback fd (Some (packed strs)) u =
      Inr (False, userver_do (Transfer (with_blanks strs))
        (u\<lparr>umsg := memreplace (packed strs @ CHR 0x00 # junk) (CHR 0x00) (CHR '' '') (length (packed strs) - 1)\<rparr>))"
    using callback_packed [OF assms(1,3,4,5)] assms(6,7) memreplace_packed [OF assms(1,2)]
    by (auto simp: Let_def uevent_of_def)
  moreover have "c_string (with_blanks strs) = with_blanks strs"
    using packed_blanks [OF assms(1,2)] by (simp add: c_string_id)
  ultimately show ?thesis by (auto simp: lidbg_uevent_write_def Let_def)
qed

theorem uevent_relayed_witness:
  "\<exists>u' m. lidbg_uevent_callback 3 (Some (packed [''add@/block/sda'', ''SUBSYSTEM=block'', ''DEVNAME=sda''])) userver_start = Inr (False, u') \<and>
     u_acts u' = [Transfer m] \<and>
     callbacks_run (snd (lidbg_uevent_write m \<lparr>uevent_list = [(''usb'', 4), (''SUBSYSTEM=block'', 8)], uevent_dbg = False,
        uevents_sent = [], callbacks_run = []\<rparr>)) = [(8, ''SUBSYSTEM=block'', ''add@/block/sda SUBSYSTEM=block DEVNAME=sda'')]"
proof -
  have "\<not> strstr ''cpu,power_supply'' ''block''" "strstr ''add@/block/sda SUBSYSTEM=block DEVNAME=sda'' ''SUBSYSTEM=block''"
    "\<not> strstr ''add@/block/sda SUBSYSTEM=block DEVNAME=sda'' ''usb''" by code_simp+
  with uevent_relayed [of "[''add@/block/sda'', ''SUBSYSTEM=block'', ''DEVNAME=sda'']" userver_start 3
      "\<lparr>uevent_list = [(''usb'', 4), (''SUBSYSTEM=block'', 8)], uevent_dbg = False, uevents_sent = [], callbacks_run = []\<rparr>"]
  show ?thesis by (simp add: uevent_string_def begins_def behind_def userver_start_def)
qed

end
