(* ===== verification/Upload.thy ===== *)
theory Upload
  imports Helper
begin

text \<open>
  The upload of log files: the client \<^verbatim>\<open>hal/client_mobile/client_mobile.c\<close> in the head unit and the server
  \<^verbatim>\<open>host/server_pc/server_pc.c\<close> on a desk.

  For every file of the log directory with \<open>txt\<close> in its name the client opens a connection and sends a block of 1024 bytes with the
  machine and the date, a block of 1024 bytes with the file name, and the content.  The server takes the first \<open>recv\<close> for the
  first block, the second for the second block, and appends all others to a file.

  The bytes of a connection are a list; the server sees them as the list of what the calls of \<open>recv\<close> return, whose
  borders the network chooses.  \<open>socklen_t\<close>, the type of \<open>length\<close> in the server, is unsigned.
\<close>

definition BUFFER_SIZE :: nat where "BUFFER_SIZE = 1024"
definition FILE_NAME_MAX_SIZE :: nat where "FILE_NAME_MAX_SIZE = 512"

section \<open>The client\<close>

text \<open>\<open>LIDBG_PRINT\<close> of the client formats into \<open>s[100]\<close>.\<close>

definition client_print :: "string \<Rightarrow> fault + unit" where
  "client_print msg = (if 11 + length msg < 100 then Inr () else Inl BufOverrun)"

definition client_block :: "string \<Rightarrow> char list" where
  "client_block s = take BUFFER_SIZE s @ replicate (BUFFER_SIZE - length s) (CHR 0x00)"

text \<open>The loop over the file: what it sends, and how many bytes.  \<open>send_ok i\<close> says whether the \<open>i\<close>-th call of \<open>send\<close> succeeds.\<close>

function send_chunks :: "(nat \<Rightarrow> bool) \<Rightarrow> nat \<Rightarrow> char list \<Rightarrow> char list" where
  "send_chunks send_ok i content =
     (let buffer = take BUFFER_SIZE content in
      if buffer = [] then []
      else if send_ok i then buffer @ send_chunks send_ok (Suc i) (drop BUFFER_SIZE content)
      else [])"
  by pat_completeness auto
termination
  by (relation "measure (\<lambda>(_, _, content). length content)") (auto simp: BUFFER_SIZE_def)

declare send_chunks.simps [simp del]

text \<open>\<open>None\<close>: the program exits.\<close>

definition send_file_to_server ::
  "bool \<Rightarrow> bool \<Rightarrow> (nat \<Rightarrow> bool) \<Rightarrow> string \<Rightarrow> (string \<Rightarrow> char list option) \<Rightarrow> string \<Rightarrow> string \<Rightarrow> fault + char list option" where
  "send_file_to_server socket_ok connect_ok send_ok info files dir_name file_name =
     (if \<not> socket_ok then Inr None
      else
       let filepath = dir_name @ ''/'' @ file_name in
       if length filepath \<ge> 512 then Inl BufOverrun
       else
        bindE (client_print (''send_file_to_server:'' @ filepath @ [CHR 0x0A])) (\<lambda>_.
        if \<not> connect_ok then Inr None
        else
         let hdr = (if send_ok 0 then client_block info else []) @ (if send_ok 1 then client_block file_name else []) in
         bindE (client_print (''start to send file['' @ take BUFFER_SIZE file_name @ '']'' @ [CHR 0x0A])) (\<lambda>_.
         case files filepath of
           None \<Rightarrow> bindE (client_print (''Fail Create:File:'' @ filepath @ [CHR 0x0A])) (\<lambda>_. Inr (Some hdr))
         | Some content \<Rightarrow>
             bindE (client_print (''Success Create:File:'' @ filepath @ [CHR 0x0A])) (\<lambda>_.
             let body = send_chunks send_ok 2 content in
             bindE (client_print (show_int (wrap32 (int (length body))) @ '',Transfer Finished:File:'' @ filepath @ [CHR 0x0A])) (\<lambda>_.
             Inr (Some (hdr @ body)))))))"

text \<open>\<open>g_machine_id[32]\<close> is empty before the file has been read, \<open>g_file_information\<close> has 100 bytes.\<close>

definition send_file_prepare :: "string option \<Rightarrow> string \<Rightarrow> fault + string" where
  "send_file_prepare mif date =
     bindE (read_from_file mif 32) (\<lambda>(_, machine_id).
       let info = machine_id @ ''_'' @ date in
       if length info < 100 then Inr info else Inl BufOverrun)"

text \<open>The walk over the directory: the streams sent, and whether it came to the end.\<close>

record client_env =
  ce_socket :: "string \<Rightarrow> bool"
  ce_connect :: "string \<Rightarrow> bool"
  ce_send :: "string \<Rightarrow> nat \<Rightarrow> bool"
  ce_files :: "string \<Rightarrow> char list option"

fun scan_dir_txtfile_and_send :: "client_env \<Rightarrow> string \<Rightarrow> string \<Rightarrow> string list \<Rightarrow> fault + (bool \<times> char list list)" where
  "scan_dir_txtfile_and_send env info dir_name [] = Inr (True, [])"
| "scan_dir_txtfile_and_send env info dir_name (file_name # entries) =
     (if strstr file_name ''txt'' then
        bindE (send_file_to_server (ce_socket env file_name) (ce_connect env file_name) (ce_send env file_name) info
                 (ce_files env) dir_name file_name) (\<lambda>r.
        case r of
          None \<Rightarrow> Inr (False, [])
        | Some stream \<Rightarrow>
            bindE (scan_dir_txtfile_and_send env info dir_name entries) (\<lambda>(fin, streams). Inr (fin, stream # streams)))
      else scan_dir_txtfile_and_send env info dir_name entries)"

definition client_main :: "client_env \<Rightarrow> string option \<Rightarrow> string \<Rightarrow> string list \<Rightarrow> fault + (bool \<times> char list list)" where
  "client_main env mif date entries =
     bindE (send_file_prepare mif date) (\<lambda>info. scan_dir_txtfile_and_send env info ''/data/lidbg'' entries)"

section \<open>The server\<close>

datatype recvd = Seg "char list" | RecvFailed

record server =
  srv_files :: "string \<Rightarrow> char list option"
  srv_cmds :: "string list"

text \<open>A \<open>recv\<close> into a zeroed block.  The test \<open>length < 0\<close> of an unsigned variable is never true.\<close>

fun recv_block :: "recvd list \<Rightarrow> char list \<times> recvd list" where
  "recv_block [] = (replicate BUFFER_SIZE (CHR 0x00), [])"
| "recv_block (Seg s # rs) = (client_block s, rs)"
| "recv_block (RecvFailed # rs) = (replicate BUFFER_SIZE (CHR 0x00), rs)"

definition block_text :: "char list \<Rightarrow> fault + string" where
  "block_text b = (if CHR 0x00 \<in> set b then Inr (c_string b) else Inl BufOverrun)"

text \<open>
  The loop that writes the file; \<open>fwr\<close> is the count that \<open>fwrite\<close> returns.  A failed \<open>recv\<close> gives a length of 4294967295, and
  \<open>fwrite\<close> is asked for so many bytes of the buffer.
\<close>

fun recv_loop :: "(char list \<Rightarrow> nat) \<Rightarrow> recvd list \<Rightarrow> char list \<Rightarrow> fault + char list" where
  "recv_loop fwr [] content = Inr content"
| "recv_loop fwr (RecvFailed # rs) content = Inl BufOverrun"
| "recv_loop fwr (Seg s # rs) content =
     (if s = [] then Inr content
      else if fwr s < length s then Inr (content @ take (fwr s) s)
      else recv_loop fwr rs (content @ s))"

text \<open>One connection; the first component of the result says whether the server goes on.\<close>

definition server_conn :: "(string \<Rightarrow> bool) \<Rightarrow> (char list \<Rightarrow> nat) \<Rightarrow> recvd list \<Rightarrow> server \<Rightarrow> fault + (bool \<times> server)" where
  "server_conn fopen_ok fwr rs srv =
     (let (dirbuf, rs1) = recv_block rs in
      bindE (block_text dirbuf) (\<lambda>dirname.
      let (namebuf, rs2) = recv_block rs1 in
      bindE (block_text namebuf) (\<lambda>filename.
      let cmd = ''mkdir /data/lidbg_upload_history/'' @ dirname;
          file_name = ''/data/lidbg_upload_history/'' @ dirname @ ''/'' @ filename;
          srv1 = srv\<lparr>srv_cmds := srv_cmds srv @ [cmd]\<rparr>
      in if length cmd \<ge> BUFFER_SIZE \<or> length file_name \<ge> FILE_NAME_MAX_SIZE + 1 then Inl BufOverrun
         else if \<not> fopen_ok file_name then Inr (False, srv1)
         else
          let old = (case srv_files srv file_name of Some c \<Rightarrow> c | None \<Rightarrow> []) in
          bindE (recv_loop fwr rs2 old) (\<lambda>content.
            Inr (True, srv1\<lparr>srv_files := (srv_files srv)(file_name \<mapsto> content)\<rparr>)))))"

fun server_conns :: "(string \<Rightarrow> bool) \<Rightarrow> (char list \<Rightarrow> nat) \<Rightarrow> recvd list list \<Rightarrow> server \<Rightarrow> fault + (bool \<times> server)" where
  "server_conns fopen_ok fwr [] srv = Inr (True, srv)"
| "server_conns fopen_ok fwr (rs # rss) srv =
     bindE (server_conn fopen_ok fwr rs srv) (\<lambda>(go, srv').
       if go then server_conns fopen_ok fwr rss srv' else Inr (False, srv'))"

section \<open>From the client to the server\<close>

text \<open>The list of receives is one way to cut the stream, with the first two cuts behind the two blocks.\<close>

definition delivered :: "recvd list \<Rightarrow> char list \<Rightarrow> bool" where
  "delivered rs stream \<longleftrightarrow>
     (\<exists>b1 b2 segs. rs = Seg b1 # Seg b2 # map Seg segs \<and> length b1 = BUFFER_SIZE \<and> length b2 = BUFFER_SIZE \<and> [] \<notin> set segs \<and>
        b1 @ b2 @ concat segs = stream)"

lemma length_client_block [simp]: "length (client_block s) = BUFFER_SIZE"
  by (simp add: client_block_def)

lemma client_block_again: "length b = BUFFER_SIZE \<Longrightarrow> client_block b = b"
  by (simp add: client_block_def)

lemma block_text_client:
  assumes "CHR 0x00 \<notin> set s" "length s < BUFFER_SIZE"
  shows "block_text (client_block s) = Inr s"
proof -
  obtain k where "BUFFER_SIZE - length s = Suc k" using assms(2) by (metis Suc_diff_Suc)
  then have "client_block s = s @ CHR 0x00 # replicate k (CHR 0x00)" using assms(2) by (simp add: client_block_def)
  then show ?thesis using assms(1) by (simp add: block_text_def c_string_plain)
qed

lemma send_chunks_all:
  assumes "\<And>i. send_ok i"
  shows "send_chunks send_ok i content = content"
proof (induction "length content" arbitrary: i content rule: less_induct)
  case less
  then have "send_chunks send_ok (Suc i) (drop BUFFER_SIZE content) = drop BUFFER_SIZE content" if "content \<noteq> []"
    using that by (simp add: BUFFER_SIZE_def)
  then show ?case using assms by (subst send_chunks.simps) (auto simp: Let_def BUFFER_SIZE_def)
qed

lemma recv_loop_all:
  "(\<And>s. fwr s = length s) \<Longrightarrow> [] \<notin> set segs \<Longrightarrow> recv_loop fwr (map Seg segs) content = Inr (content @ concat segs)"
  by (induction segs arbitrary: content) auto

text \<open>A client whose calls succeed; the names are short enough for the buffer of the messages.\<close>

definition upload_env :: "client_env \<Rightarrow> bool" where
  "upload_env env \<longleftrightarrow> (\<forall>n. ce_socket env n \<and> ce_connect env n \<and> (\<forall>i. ce_send env n i))"

definition content_of :: "client_env \<Rightarrow> string \<Rightarrow> char list" where
  "content_of env n = (case ce_files env (''/data/lidbg/'' @ n) of Some c \<Rightarrow> c | None \<Rightarrow> [])"

definition upload_name :: "client_env \<Rightarrow> string \<Rightarrow> bool" where
  "upload_name env n \<longleftrightarrow> CHR 0x00 \<notin> set n \<and>
     length n + length (show_int (wrap32 (int (length (content_of env n))))) \<le> 51"

definition upload_stream :: "client_env \<Rightarrow> string \<Rightarrow> string \<Rightarrow> char list" where
  "upload_stream env info n = client_block info @ client_block n @ content_of env n"

lemma send_file_ok:
  assumes "upload_env env" "upload_name env n"
  shows "send_file_to_server (ce_socket env n) (ce_connect env n) (ce_send env n) info (ce_files env) ''/data/lidbg'' n =
    Inr (Some (upload_stream env info n))"
proof -
  have len: "length n \<le> 51" "length n + length (show_int (wrap32 (int (length (content_of env n))))) \<le> 51"
    using assms(2) by (auto simp: upload_name_def)
  have ok: "ce_socket env n" "ce_connect env n" "ce_send env n i" for i using assms(1) by (auto simp: upload_env_def)
  show ?thesis
  proof (cases "ce_files env (''/data/lidbg/'' @ n)")
    case None
    then show ?thesis
      using len by (simp add: send_file_to_server_def ok client_print_def upload_stream_def content_of_def Let_def BUFFER_SIZE_def)
  next
    case (Some c)
    then have c: "content_of env n = c" by (simp add: content_of_def)
    show ?thesis
      using len Some unfolding c
      by (simp add: send_file_to_server_def ok client_print_def upload_stream_def c Let_def BUFFER_SIZE_def send_chunks_all)
  qed
qed

lemma scan_streams:
  assumes "upload_env env" "list_all (upload_name env) (filter (\<lambda>n. strstr n ''txt'') entries)"
  shows "scan_dir_txtfile_and_send env info ''/data/lidbg'' entries =
    Inr (True, map (upload_stream env info) (filter (\<lambda>n. strstr n ''txt'') entries))"
  using assms(2)
proof (induction entries)
  case (Cons n entries)
  then show ?case by (cases "strstr n ''txt''") (simp_all add: send_file_ok [OF assms(1)])
qed simp

text \<open>What is to happen to the files of the server.\<close>

definition append_file :: "string \<Rightarrow> char list \<Rightarrow> (string \<Rightarrow> char list option) \<Rightarrow> string \<Rightarrow> char list option" where
  "append_file p c fs = fs(p \<mapsto> (case fs p of Some old \<Rightarrow> old @ c | None \<Rightarrow> c))"

definition server_path :: "string \<Rightarrow> string \<Rightarrow> string" where
  "server_path info n = ''/data/lidbg_upload_history/'' @ info @ ''/'' @ n"

lemma server_conn_ok:
  assumes "delivered rs (upload_stream env info n)" "upload_name env n" "CHR 0x00 \<notin> set info" "length info < 100"
    and "\<And>p. fopen_ok p" "\<And>s. fwr s = length s"
  shows "server_conn fopen_ok fwr rs srv =
    Inr (True, \<lparr>srv_files = append_file (server_path info n) (content_of env n) (srv_files srv),
                srv_cmds = srv_cmds srv @ [''mkdir /data/lidbg_upload_history/'' @ info]\<rparr>)"
proof -
  obtain b1 b2 segs where rs: "rs = Seg b1 # Seg b2 # map Seg segs" "length b1 = BUFFER_SIZE" "length b2 = BUFFER_SIZE"
    "[] \<notin> set segs" "b1 @ b2 @ concat segs = upload_stream env info n"
    using assms(1) by (auto simp: delivered_def)
  then have b: "b1 = client_block info" "b2 = client_block n" "concat segs = content_of env n"
    by (simp_all add: upload_stream_def)
  have t: "block_text (client_block info) = Inr info" "block_text (client_block n) = Inr n"
    using assms(2-4) by (auto intro!: block_text_client simp: upload_name_def BUFFER_SIZE_def)
  have "length n \<le> 51" using assms(2) by (simp add: upload_name_def)
  then show ?thesis
    using assms(4)
    by (simp add: server_conn_def rs(1) b client_block_again t Let_def BUFFER_SIZE_def FILE_NAME_MAX_SIZE_def assms(5) recv_loop_all
        assms(6) rs(4) append_file_def server_path_def split: option.splits)
qed

text \<open>
  (C12) Uploaded log files arrive: when all calls of the client and of the server succeed, each entry of the client's directory that has
  \<open>txt\<close> in its name is named so briefly that the name and the size of its file in decimal have together at most 51 characters (the client writes them into a
  message of 100 bytes), and the text made of the machine and the date fits its buffer, with no NUL in it or in these names, then the client opens one connection for each of these
  entries; and the server, which may receive the contents in any pieces as long as each of the two blocks in front of a content is received as a whole,
  ends with exactly the contents appended to the files of these names in the directory of the machine and the date.
\<close>

theorem upload_roundtrip:
  assumes "upload_env env" "list_all (upload_name env) (filter (\<lambda>n. strstr n ''txt'') entries)"
    and "send_file_prepare mif date = Inr info" "CHR 0x00 \<notin> set info"
    and "\<And>p. fopen_ok p" "\<And>s. fwr s = length s"
  shows "\<exists>streams. client_main env mif date entries = Inr (True, streams) \<and>
    (list_all2 delivered rss streams \<longrightarrow>
      (\<exists>srv'. server_conns fopen_ok fwr rss srv = Inr (True, srv') \<and>
        srv_files srv' = fold (\<lambda>n. append_file (server_path info n) (content_of env n)) (filter (\<lambda>n. strstr n ''txt'') entries)
          (srv_files srv)))"
proof -
  let ?ns = "filter (\<lambda>n. strstr n ''txt'') entries"
  have info: "length info < 100" using assms(3) by (auto simp: send_file_prepare_def bindE_eq_Inr_iff Let_def split: if_splits)
  have "client_main env mif date entries = Inr (True, map (upload_stream env info) ?ns)"
    by (simp add: client_main_def assms(3) scan_streams [OF assms(1,2)])
  moreover have "\<exists>srv'. server_conns fopen_ok fwr rss srv = Inr (True, srv') \<and>
      srv_files srv' = fold (\<lambda>n. append_file (server_path info n) (content_of env n)) ns (srv_files srv)"
    if "list_all2 delivered rss (map (upload_stream env info) ns)" "list_all (upload_name env) ns" for ns
    using that
  proof (induction ns arbitrary: rss srv)
    case (Cons n ns)
    then obtain rs rss' where "rss = rs # rss'" "delivered rs (upload_stream env info n)"
      "list_all2 delivered rss' (map (upload_stream env info) ns)" by (auto simp: list_all2_Cons2)
    with Cons.prems Cons.IH [of rss' "\<lparr>srv_files = append_file (server_path info n) (content_of env n) (srv_files srv),
        srv_cmds = srv_cmds srv @ [''mkdir /data/lidbg_upload_history/'' @ info]\<rparr>"]
    show ?case by (simp add: server_conn_ok [OF _ _ assms(4) info assms(5,6)])
  qed simp
  ultimately show ?thesis using assms(2) by blast
qed

theorem upload_roundtrip_witness:
  "\<exists>streams srv'. client_main \<lparr>ce_socket = (\<lambda>_. True), ce_connect = (\<lambda>_. True), ce_send = (\<lambda>_ _. True),
       ce_files = [''/data/lidbg/a.txt'' \<mapsto> ''hello'']\<rparr> (Some (''M7'' @ [CHR 0x0A])) ''d'' [''..'', ''a.txt''] = Inr (True, streams) \<and>
     server_conns (\<lambda>_. True) length [[Seg (client_block ''M7_d''), Seg (client_block ''a.txt''), Seg ''he'', Seg ''llo'']]
       \<lparr>srv_files = Map.empty, srv_cmds = []\<rparr> = Inr (True, srv') \<and>
     srv_files srv' = [''/data/lidbg_upload_history/M7_d/a.txt'' \<mapsto> ''hello'']"
proof -
  let ?env = "\<lparr>ce_socket = (\<lambda>_. True), ce_connect = (\<lambda>_. True), ce_send = (\<lambda>_ _. True), ce_files = [''/data/lidbg/a.txt'' \<mapsto> ''hello'']\<rparr>"
  have env: "upload_env ?env" by (simp add: upload_env_def)
  have c: "content_of ?env ''a.txt'' = ''hello''" by (simp add: content_of_def)
  have f: "filter (\<lambda>n. strstr n ''txt'') [''..'', ''a.txt''] = [''a.txt'']" by code_simp
  have "show_int (wrap32 (int 5)) = ''5''" by code_simp
  then have n: "list_all (upload_name ?env) (filter (\<lambda>n. strstr n ''txt'') [''..'', ''a.txt''])"
    unfolding f by (simp add: upload_name_def c)
  have p: "send_file_prepare (Some (''M7'' @ [CHR 0x0A])) ''d'' = Inr ''M7_d''" by code_simp
  have d: "delivered [Seg (client_block ''M7_d''), Seg (client_block ''a.txt''), Seg ''he'', Seg ''llo''] (upload_stream ?env ''M7_d'' ''a.txt'')"
    unfolding delivered_def upload_stream_def c
    by (intro exI [of _ "client_block ''M7_d''"] exI [of _ "client_block ''a.txt''"] exI [of _ "[''he'', ''llo'']"]) simp
  from upload_roundtrip [OF env n p, of "\<lambda>_. True" length "[[Seg (client_block ''M7_d''), Seg (client_block ''a.txt''), Seg ''he'', Seg ''llo'']]"
      "\<lparr>srv_files = Map.empty, srv_cmds = []\<rparr>"]
  obtain streams where s: "client_main ?env (Some (''M7'' @ [CHR 0x0A])) ''d'' [''..'', ''a.txt''] = Inr (True, streams)"
    and r: "list_all2 delivered [[Seg (client_block ''M7_d''), Seg (client_block ''a.txt''), Seg ''he'', Seg ''llo'']] streams \<longrightarrow>
      (\<exists>srv'. server_conns (\<lambda>_. True) length [[Seg (client_block ''M7_d''), Seg (client_block ''a.txt''), Seg ''he'', Seg ''llo'']]
         \<lparr>srv_files = Map.empty, srv_cmds = []\<rparr> = Inr (True, srv') \<and>
        srv_files srv' = append_file (server_path ''M7_d'' ''a.txt'') ''hello'' Map.empty)"
    unfolding f by (auto simp: c)
  have "streams = [upload_stream ?env ''M7_d'' ''a.txt'']"
    using s unfolding client_main_def p bindE_simps scan_streams [OF env n] f by simp
  with s r d show ?thesis by (auto simp: append_file_def server_path_def)
qed

end
