(* ===== verification/Devices.thy ===== *)
theory Devices
  imports Pm_Common Cmn
begin

text \<open>
  The board driver, \<^verbatim>\<open>drivers/devices/devices.c\<close> with the macros of \<^verbatim>\<open>drivers/inc/devices.h\<close>, for the board version V4 (the
  \<open>else\<close> branches, which the build uses for \<^verbatim>\<open>msm8625\<close>): the fan, the USB port, the LED, the keys at the analog inputs, the sound
  muting that user space reads from the node \<^verbatim>\<open>flydev\<close>, the commands written to that node, and the power
  management callbacks.

  What is given to the pins, to the micro controller (\<open>SOC_LPC_Send\<close>, see theory \<open>Lpc\<close>), to the log and to other
  modules is collected in order in \<open>dev_acts\<close>.  Threads appear as one function for each round.  The time between the parts of a
  macro (\<open>msleep\<close>) is not represented.
\<close>

datatype platform = PLATFORM_SKU7 | PLATFORM_SKU5 | PLATFORM_FLY

datatype dev_key =
    KEY_RESERVED | KEY_NEXT | KEY_PREVIOUS | KEY_HOME | KEY_VOLUMEUP | KEY_VOLUMEDOWN | KEY_MENU | KEY_BACK

datatype acc_event =
    NOTIFIER_MINOR_ACC_ON
  | NOTIFIER_MINOR_ACC_OFF
  | NOTIFIER_MINOR_SUSPEND_PREPARE
  | NOTIFIER_MINOR_SUSPEND_UNPREPARE
  | NOTIFIER_MINOR_POWER_OFF
  | NOTIFIER_MINOR_SIGNAL_BAKLIGHT_ACK
  | OtherEvent

datatype dev_act =
    SOC_IO_Output nat nat
  | SOC_IO_Config nat bool
  | SOC_IO_Input nat
  | SOC_IO_ISR_Add nat
  | SOC_IO_ISR_Enable nat
  | SOC_IO_ISR_Disable nat
  | SOC_LPC_Send "byte list"
  | SOC_BL_Set u32
  | SOC_Key_Report dev_key
  | SOC_Hal_Acc_Callback nat
  | SOC_LCD_Reset
  | SOC_PWR_ShutDown
  | CallChain acc_event
  | FsLog string
  | UeventFile string
  | CreateThread string
  | RegistPassword string

text \<open>
  Where the thermal thread is in its round: asleep, behind its test, with the outcome and the temperature, or behind the change of its flag, in
  front of the command.
\<close>

datatype thermal_pc = Asleep | Decided bool int | Sending bool int

record devices =
  platform_id :: platform
  led_gpio :: nat
  led_en :: int
  led_status :: bool
  temp_log_freq :: int
  g_temp :: int
  old_temp :: int
  fan_onoff_temp :: int
  flag_fan_run_statu :: bool
  hal_fan_on :: bool
  i2c_ctrl :: int
  i2c_c_ctrl :: bool
  suspend_test :: bool
  suspend_flag :: bool
  is_usb11 :: bool
  usb_resume :: nat
  udisk_event_wait :: nat
  old_key :: nat
  usb_id_host :: bool
  audio_data_for_hal :: "byte \<times> byte"
  thermal_pc :: thermal_pc
  dev_acts :: "dev_act list"

text \<open>What the driver finds at start and does not change: \<open>g_var.is_fly\<close>, \<open>recovery_mode\<close>, the presence of the USB 1.1 file.\<close>

record dev_env =
  is_fly :: bool
  recovery_mode :: bool
  usb11_file :: bool

definition devices_start :: devices where
  "devices_start = \<lparr>platform_id = PLATFORM_SKU7, led_gpio = 0, led_en = 0, led_status = False, temp_log_freq = 0, g_temp = 0, old_temp = 0,
     fan_onoff_temp = 0, flag_fan_run_statu = False, hal_fan_on = True, i2c_ctrl = 0, i2c_c_ctrl = False, suspend_test = False,
     suspend_flag = False, is_usb11 = False, usb_resume = 0, udisk_event_wait = 0, old_key = 0xff, usb_id_host = True,
     audio_data_for_hal = (0, 0), thermal_pc = Asleep, dev_acts = []\<rparr>"

definition emit :: "dev_act list \<Rightarrow> devices \<Rightarrow> devices" where
  "emit a d = d\<lparr>dev_acts := dev_acts d @ a\<rparr>"

section \<open>Macros\<close>

definition LPC_IO_SET :: "byte \<Rightarrow> byte \<Rightarrow> dev_act list" where
  "LPC_IO_SET cmd st = [SOC_LPC_Send [0x02, cmd, st]]"

definition GPIO_USB_ID :: nat where "GPIO_USB_ID = 83"
definition GPIO_LED_FLY :: nat where "GPIO_LED_FLY = 82"
definition GPIO_LED_SKU7 :: nat where "GPIO_LED_SKU7 = 108"
definition GPIO_LCD3 :: nat where "GPIO_LCD3 = 97"
definition MCU_IIC_REQ_I :: nat where "MCU_IIC_REQ_I = 30"

definition LCD_ON :: "dev_act list" where "LCD_ON = [SOC_LPC_Send [0x02, 0x0d, 1]]"
definition LCD_OFF :: "dev_act list" where "LCD_OFF = [SOC_LPC_Send [0x02, 0x0d, 0]]"
definition USB_HUB_ENABLE :: "dev_act list" where "USB_HUB_ENABLE = LPC_IO_SET 0x09 1"
definition USB_HUB_DISABLE :: "dev_act list" where "USB_HUB_DISABLE = LPC_IO_SET 0x09 0"
definition USB_SWITCH_DISCONNECT :: "dev_act list" where "USB_SWITCH_DISCONNECT = [SOC_IO_Output 58 1]"
definition USB_SWITCH_CONNECT :: "dev_act list" where "USB_SWITCH_CONNECT = [SOC_IO_Output 58 0]"
definition PWR_EN_ON :: "dev_act list" where "PWR_EN_ON = LPC_IO_SET 0x12 1"
definition PWR_EN_OFF :: "dev_act list" where "PWR_EN_OFF = LPC_IO_SET 0x12 0"
definition USB_ID_HIGH_DEV :: "dev_act list" where "USB_ID_HIGH_DEV = [SOC_IO_Config GPIO_USB_ID False, SOC_IO_Output GPIO_USB_ID 1]"
definition USB_ID_LOW_HOST :: "dev_act list" where "USB_ID_LOW_HOST = [SOC_IO_Config GPIO_USB_ID True, SOC_IO_Output GPIO_USB_ID 0]"
definition TELL_LPC_PWR_ON :: "dev_act list" where "TELL_LPC_PWR_ON = [SOC_IO_Input MCU_IIC_REQ_I]"
definition LCD_RESET :: "dev_act list" where "LCD_RESET = [SOC_IO_Output GPIO_LCD3 0, SOC_IO_Output GPIO_LCD3 1]"
definition AIRFAN_BACK_ON :: "dev_act list" where "AIRFAN_BACK_ON = [SOC_LPC_Send [0x02, 0x01, 1]]"
definition AIRFAN_BACK_OFF :: "dev_act list" where "AIRFAN_BACK_OFF = [SOC_LPC_Send [0x02, 0x01, 0]]"

definition USB_WORK_ENABLE :: "dev_act list" where
  "USB_WORK_ENABLE = USB_ID_LOW_HOST @ USB_SWITCH_CONNECT @ USB_HUB_DISABLE @ USB_HUB_ENABLE"

definition USB_WORK_DISENABLE :: "dev_act list" where
  "USB_WORK_DISENABLE = USB_HUB_DISABLE @ USB_SWITCH_DISCONNECT @ USB_ID_LOW_HOST"

definition LED_ON :: "devices \<Rightarrow> dev_act list" where "LED_ON d = [SOC_IO_Output (led_gpio d) 0]"
definition LED_OFF :: "devices \<Rightarrow> dev_act list" where "LED_OFF d = [SOC_IO_Output (led_gpio d) 1]"

lemmas dev_macros = LPC_IO_SET_def LCD_ON_def LCD_OFF_def USB_HUB_ENABLE_def USB_HUB_DISABLE_def USB_SWITCH_DISCONNECT_def
  USB_SWITCH_CONNECT_def PWR_EN_ON_def PWR_EN_OFF_def USB_ID_HIGH_DEV_def USB_ID_LOW_HOST_def TELL_LPC_PWR_ON_def LCD_RESET_def
  AIRFAN_BACK_ON_def AIRFAN_BACK_OFF_def USB_WORK_ENABLE_def USB_WORK_DISENABLE_def LED_ON_def LED_OFF_def GPIO_USB_ID_def
  GPIO_LCD3_def MCU_IIC_REQ_I_def

section \<open>USB\<close>

definition cb_password_add_udisk :: "devices \<Rightarrow> devices" where
  "cb_password_add_udisk d = emit [UeventFile ''add''] d"

definition cb_password_remove_udisk :: "devices \<Rightarrow> devices" where
  "cb_password_remove_udisk d = emit [UeventFile ''remove''] d"

definition cb_password_enable_usb :: "devices \<Rightarrow> devices" where
  "cb_password_enable_usb d = emit USB_WORK_ENABLE d"

definition cb_password_disable_usb :: "devices \<Rightarrow> devices" where
  "cb_password_disable_usb d = emit USB_WORK_DISENABLE d"

text \<open>A round of \<open>thread_udisk_uevent\<close>, \<open>None\<close> while it waits; \<open>sz\<close> is the size of the mount point.\<close>

definition udisk_round :: "nat \<Rightarrow> devices \<Rightarrow> devices option" where
  "udisk_round sz d =
     (if udisk_event_wait d = 0 then None
      else let d1 = d\<lparr>udisk_event_wait := udisk_event_wait d - 1\<rparr>
           in Some (if sz = 0 then emit [UeventFile ''add''] d1 else d1))"

definition thread_usb_delay_enable :: "devices \<Rightarrow> devices" where
  "thread_usb_delay_enable d = emit USB_WORK_ENABLE d"

definition usb_11_begin :: "devices \<Rightarrow> devices" where
  "usb_11_begin d = (emit USB_WORK_DISENABLE d)\<lparr>is_usb11 := False\<rparr>"

text \<open>A round of \<open>thread_usb_11\<close>; the first component says whether the loop goes on.\<close>

definition usb_11_round :: "devices \<Rightarrow> bool \<times> devices" where
  "usb_11_round d =
     (if \<not> is_usb11 d then (True, emit (USB_ID_HIGH_DEV @ USB_ID_LOW_HOST) d)
      else (False, emit USB_WORK_ENABLE d))"

definition usb_round :: "devices \<Rightarrow> devices option" where
  "usb_round d = (if usb_resume d = 0 then None else Some (emit USB_WORK_ENABLE (d\<lparr>usb_resume := usb_resume d - 1\<rparr>)))"

definition read_proc_dev :: "devices \<Rightarrow> string \<times> devices" where
  "read_proc_dev d = (''usb_set_dev'' @ [CHR 0x0A], emit USB_ID_HIGH_DEV d)"

definition read_proc_host :: "devices \<Rightarrow> string \<times> devices" where
  "read_proc_host d = (''usb_set_host'' @ [CHR 0x0A], emit USB_ID_LOW_HOST d)"

section \<open>Sound\<close>

definition unmute_ns :: "devices \<Rightarrow> devices" where
  "unmute_ns d = d\<lparr>audio_data_for_hal := (1, 0)\<rparr>"

definition mute_s :: "devices \<Rightarrow> devices" where
  "mute_s d = d\<lparr>audio_data_for_hal := (1, 1)\<rparr>"

text \<open>Two bytes are copied whatever the size is; the result \<open>-1\<close> means that there is nothing new.\<close>

definition dev_read :: "nat \<Rightarrow> devices \<Rightarrow> int \<times> byte list \<times> devices" where
  "dev_read sz d =
     (case audio_data_for_hal d of (valid, v) \<Rightarrow>
        if valid \<noteq> 1 then (-1, [], d)
        else (int sz, [valid, v], d\<lparr>audio_data_for_hal := (0, v)\<rparr>))"

section \<open>Keys at the analog inputs\<close>

definition ad_key :: "(nat \<times> nat \<times> dev_key) list" where
  "ad_key = [(0, 530, KEY_RESERVED), (2, 1548, KEY_NEXT), (2, 2040, KEY_PREVIOUS), (2, 2517, KEY_HOME),
     (1, 1034, KEY_VOLUMEUP), (1, 1530, KEY_VOLUMEDOWN), (4, 1108, KEY_MENU), (4, 1372, KEY_BACK)]"

definition AD_OFFSET :: nat where "AD_OFFSET = 100"
definition AD_VAL_MAX :: int where "AD_VAL_MAX = 3300"

text \<open>\<open>adc ch\<close> is what \<open>SOC_ADC_Get\<close> stores.  The window is compared in unsigned arithmetic.\<close>

definition find_ad_key :: "(nat \<Rightarrow> int) \<Rightarrow> nat \<Rightarrow> nat" where
  "find_ad_key adc ch =
     (let val = adc ch; w = (of_int val :: u32) in
      if val > AD_VAL_MAX then 0xff
      else case List.find (\<lambda>i. case ad_key ! i of (c, v, _) \<Rightarrow>
                    ch = c \<and> w > of_nat v - of_nat AD_OFFSET \<and> w < of_nat v + of_nat AD_OFFSET) [0..<length ad_key] of
          Some i \<Rightarrow> i | None \<Rightarrow> 0xff)"

definition key_scan :: "(nat \<Rightarrow> int) \<Rightarrow> devices \<Rightarrow> devices" where
  "key_scan adc d =
     (let k4 = find_ad_key adc 4; key = (if k4 \<noteq> 0xff then k4 else find_ad_key adc 2);
          d1 = (if old_key d \<noteq> 0xff \<and> key = 0xff then
                  let d0 = emit [SOC_Key_Report (snd (snd (ad_key ! old_key d)))] d
                  in if old_key d0 = 0 then
                       (if usb_id_host d0 then (emit (USB_HUB_DISABLE @ USB_ID_HIGH_DEV) d0)\<lparr>usb_id_host := False\<rparr>
                        else (emit (USB_HUB_ENABLE @ USB_ID_LOW_HOST) d0)\<lparr>usb_id_host := True\<rparr>)
                     else d0
                else d)
      in d1\<lparr>old_key := key\<rparr>)"

section \<open>Temperature, fan, LED\<close>

definition log_temp :: "int \<Rightarrow> devices \<Rightarrow> devices" where
  "log_temp cur_temp d =
     (let d1 = d\<lparr>g_temp := cur_temp\<rparr>; tmp = wrap32 (cur_temp - old_temp d1) in
      if temp_log_freq d1 \<noteq> 0 \<and> wrap32 (abs tmp) \<ge> temp_log_freq d1
      then (emit [FsLog (show_int cur_temp @ [CHR 0x0A])] d1)\<lparr>old_temp := cur_temp\<rparr>
      else d1)"

text \<open>
  The steps of a round of \<open>thread_thermal\<close>, which takes no lock, and the whole round; it reads the temperature twice.
\<close>

definition thermal_test :: "int \<Rightarrow> int \<Rightarrow> devices \<Rightarrow> devices" where
  "thermal_test temp1 cur_temp d =
     (if thermal_pc d = Asleep
      then let d1 = log_temp temp1 d
           in d1\<lparr>thermal_pc := Decided (cur_temp > fan_onoff_temp d1 \<and> hal_fan_on d1 \<and> \<not> suspend_flag d1) cur_temp\<rparr>
      else d)"

definition thermal_flag :: "devices \<Rightarrow> devices" where
  "thermal_flag d =
     (case thermal_pc d of
        Decided on cur_temp \<Rightarrow>
          if on
          then (if \<not> flag_fan_run_statu d then d\<lparr>flag_fan_run_statu := True, thermal_pc := Sending True cur_temp\<rparr> else d\<lparr>thermal_pc := Asleep\<rparr>)
          else (if flag_fan_run_statu d then d\<lparr>flag_fan_run_statu := False, thermal_pc := Sending False cur_temp\<rparr> else d\<lparr>thermal_pc := Asleep\<rparr>)
      | _ \<Rightarrow> d)"

definition thermal_send :: "devices \<Rightarrow> devices" where
  "thermal_send d =
     (case thermal_pc d of
        Sending on cur_temp \<Rightarrow>
          (emit ((if on then AIRFAN_BACK_ON else AIRFAN_BACK_OFF) @
             [FsLog ((if on then ''AIR_ON:'' else ''AIR_OFF:'') @ show_int cur_temp @ [CHR 0x0A])]) d)\<lparr>thermal_pc := Asleep\<rparr>
      | _ \<Rightarrow> d)"

definition thread_thermal :: "int \<Rightarrow> int \<Rightarrow> devices \<Rightarrow> devices" where
  "thread_thermal temp1 cur_temp d = thermal_send (thermal_flag (thermal_test temp1 cur_temp d))"

definition led_on :: "devices \<Rightarrow> devices" where
  "led_on d =
     (if suspend_flag d then emit (LED_ON d @ (if i2c_c_ctrl d then TELL_LPC_PWR_ON else [])) d
      else if \<not> led_status d then emit (LED_OFF d @ TELL_LPC_PWR_ON) (d\<lparr>led_status := True\<rparr>)
      else emit (LED_ON d @ TELL_LPC_PWR_ON) (d\<lparr>led_status := False\<rparr>))"

definition led_round :: "devices \<Rightarrow> devices" where
  "led_round d = (if led_en d \<noteq> 0 then led_on d else d)"

section \<open>Power management\<close>

definition devices_early_suspend :: "dev_env \<Rightarrow> bool \<Rightarrow> devices \<Rightarrow> devices" where
  "devices_early_suspend e fake_suspend d =
     (if platform_id d = PLATFORM_FLY then
        let d1 = (if \<not> is_fly e then emit LCD_OFF d else d);
            d2 = (emit (LED_ON d1 @ TELL_LPC_PWR_ON) d1)\<lparr>i2c_c_ctrl := True, suspend_flag := True, flag_fan_run_statu := False\<rparr>;
            d3 = emit AIRFAN_BACK_OFF d2
        in if \<not> fake_suspend then emit USB_WORK_DISENABLE d3 else d3
      else d)"

definition devices_late_resume :: "dev_env \<Rightarrow> devices \<Rightarrow> devices" where
  "devices_late_resume e d =
     (let d1 = d\<lparr>suspend_flag := False\<rparr> in
      if platform_id d1 = PLATFORM_FLY then
        let d2 = d1\<lparr>i2c_c_ctrl := False\<rparr> in
        if \<not> is_fly e then emit (LCD_ON @ [SOC_LPC_Send [0x00, 0x94, 0x01, 0x99], CreateThread ''thread_resume'']) d2 else d2
      else d1)"

definition BUTTONS :: "nat list" where
  "BUTTONS = [76, 84, 44, 49]"

definition soc_dev_suspend :: "dev_env \<Rightarrow> devices \<Rightarrow> devices" where
  "soc_dev_suspend e d =
     (if platform_id d = PLATFORM_FLY then
        let d1 = (if \<not> is_fly e then emit (map SOC_IO_ISR_Disable BUTTONS) d else d)
        in emit (PWR_EN_OFF @ LED_ON d1) (d1\<lparr>i2c_c_ctrl := False\<rparr>)
      else d)"

definition thread_resume :: "pm_status \<Rightarrow> devices \<Rightarrow> devices" where
  "thread_resume st d = (if st = PM_STATUS_LATE_RESUME_OK then emit USB_WORK_ENABLE d else d)"

definition soc_dev_suspend_prepare :: "dev_env \<Rightarrow> devices \<Rightarrow> devices" where
  "soc_dev_suspend_prepare e d =
     emit ((if \<not> is_fly e then [SOC_LPC_Send [0x00, 0x94, 0x00, 0x98]] else []) @ USB_WORK_DISENABLE) d"

definition soc_dev_resume :: "dev_env \<Rightarrow> devices \<Rightarrow> devices" where
  "soc_dev_resume e d =
     (if platform_id d = PLATFORM_FLY then
        emit ((if \<not> is_fly e then map SOC_IO_ISR_Enable BUTTONS else []) @ [SOC_IO_Config (led_gpio d) True]) d
      else d)"

text \<open>\<open>val\<close> is the pin of the power key; the wait for its release has no effect.\<close>

definition pwr_key_scan :: "bool \<Rightarrow> devices \<Rightarrow> devices" where
  "pwr_key_scan val d =
     (if \<not> suspend_test d then d
      else if \<not> val then emit [SOC_IO_Input MCU_IIC_REQ_I, SOC_PWR_ShutDown] d
      else emit [SOC_IO_Input MCU_IIC_REQ_I] d)"

definition work_left_button1_fn :: "devices \<Rightarrow> devices" where
  "work_left_button1_fn d = emit [SOC_Key_Report KEY_HOME] d"

definition work_right_button1_fn :: "devices \<Rightarrow> devices" where
  "work_right_button1_fn d = emit [SOC_Key_Report KEY_MENU] d"

definition lcd_reset :: "devices \<Rightarrow> devices" where
  "lcd_reset d = emit [SOC_LCD_Reset] d"

section \<open>Start\<close>

definition fly_devices_init :: "dev_env \<Rightarrow> devices \<Rightarrow> devices" where
  "fly_devices_init e d =
     (if platform_id d = PLATFORM_FLY then
        let d1 = (if recovery_mode e then emit (TELL_LPC_PWR_ON @ PWR_EN_ON @ LCD_ON) d else d);
            d2 = (if \<not> is_fly e then emit (map SOC_IO_Input BUTTONS @ map SOC_IO_ISR_Add BUTTONS) d1 else d1);
            d3 = unmute_ns d2
        in if \<not> usb11_file e then emit [CreateThread ''thread_usb_delay_enable''] d3
           else if recovery_mode e then emit USB_WORK_ENABLE d3
           else emit [CreateThread ''thread_usb_11''] d3
      else d)"

text \<open>\<open>cfg\<close> is the configuration that \<open>FS_REGISTER_INT\<close> reads a value from, with a default.\<close>

definition soc_dev_probe :: "dev_env \<Rightarrow> (string \<Rightarrow> int \<Rightarrow> int) \<Rightarrow> devices \<Rightarrow> devices" where
  "soc_dev_probe e cfg d =
     (let d1 = emit (PWR_EN_ON @ TELL_LPC_PWR_ON) d;
          d2 = d1\<lparr>platform_id := PLATFORM_FLY, led_gpio := GPIO_LED_FLY, i2c_ctrl := cfg ''i2c_ctrl'' 0,
                  temp_log_freq := cfg ''temp_log_freq'' 5, usb_resume := 0\<rparr>;
          d3 = (emit [CreateThread ''thread_usb''] d2)\<lparr>led_en := cfg ''led_en'' 1\<rparr>;
          d4 = (if led_en d3 \<noteq> 0 then emit [CreateThread ''thread_led''] d3 else d3);
          d5 = emit [CreateThread ''thread_dev_init''] d4;
          d6 = (if \<not> is_fly e
                then emit [SOC_LPC_Send [0x00, 0x94, 0x01, 0x99], SOC_LPC_Send [0x00, 0x05, 0x01]] d5 else d5);
          d7 = emit (map RegistPassword [''001210'', ''001211'', ''111200'', ''112200'']) d6;
          d8 = (emit [CreateThread ''flythermalthread''] d7)\<lparr>fan_onoff_temp := cfg ''fan_onoff_temp'' 65\<rparr>
      in emit [CreateThread ''thread_udisk_uevent''] (d8\<lparr>udisk_event_wait := 0\<rparr>))"

section \<open>Events and commands\<close>

definition lidbg_event :: "dev_env \<Rightarrow> acc_event \<Rightarrow> devices \<Rightarrow> devices" where
  "lidbg_event e event d =
     (case event of
        NOTIFIER_MINOR_ACC_OFF \<Rightarrow> if \<not> is_fly e then emit LCD_OFF d else d
      | NOTIFIER_MINOR_SUSPEND_PREPARE \<Rightarrow> mute_s d
      | NOTIFIER_MINOR_POWER_OFF \<Rightarrow> mute_s d
      | NOTIFIER_MINOR_ACC_ON \<Rightarrow> unmute_ns (if \<not> is_fly e then emit (LCD_RESET @ LCD_ON) d else d)
      | NOTIFIER_MINOR_SUSPEND_UNPREPARE \<Rightarrow> d\<lparr>usb_resume := usb_resume d + 1\<rparr>
      | NOTIFIER_MINOR_SIGNAL_BAKLIGHT_ACK \<Rightarrow> emit [SOC_BL_Set 255, SOC_BL_Set 0] d
      | OtherEvent \<Rightarrow> d)"

text \<open>The driver's own handler is called by the chain, too; \<open>cb\<close> says whether a callback is set.\<close>

definition hal_acc :: "bool \<Rightarrow> nat \<Rightarrow> devices \<Rightarrow> devices" where
  "hal_acc cb v d = (if cb then emit [SOC_Hal_Acc_Callback v] d else d)"

definition call_chain :: "dev_env \<Rightarrow> acc_event \<Rightarrow> devices \<Rightarrow> devices" where
  "call_chain e ev d = lidbg_event e ev (emit [CallChain ev] d)"

text \<open>A pointer behind the last word is null.\<close>

definition lpc_arg :: "string list \<Rightarrow> nat \<Rightarrow> fault + byte" where
  "lpc_arg argv i = (if i < length argv then Inr (ucast (simple_strtoul (argv ! i))) else Inl NullDeref)"

definition dev_parse_cmd :: "dev_env \<Rightarrow> bool \<Rightarrow> string \<Rightarrow> devices \<Rightarrow> fault + devices" where
  "dev_parse_cmd e cb pt d =
     bindE (lidbg_token_string 32 (Some pt) (Some '' '')) (\<lambda>(argc, argv).
       let p = argv ! 0 in
       if p = ''fan_on'' then Inr (d\<lparr>hal_fan_on := True\<rparr>)
       else if p = ''fan_off'' then Inr (d\<lparr>hal_fan_on := False\<rparr>)
       else if p = ''screen_on'' then Inr (hal_acc cb 1 d)
       else if p = ''screen_off'' then Inr (hal_acc cb 0 d)
       else if p = ''suspend_on'' then Inr (hal_acc cb 2 (call_chain e NOTIFIER_MINOR_SUSPEND_UNPREPARE d))
       else if p = ''suspend_off'' then Inr (hal_acc cb 3 (call_chain e NOTIFIER_MINOR_SUSPEND_PREPARE d))
       else if p = ''usb_reset'' then Inr (emit (USB_WORK_DISENABLE @ USB_WORK_ENABLE) d)
       else if p = ''lpc'' then
         bindE (lpc_arg argv 1) (\<lambda>a. bindE (lpc_arg argv 2) (\<lambda>b. bindE (lpc_arg argv 3) (\<lambda>c.
           Inr (emit [SOC_LPC_Send [a, b, c]] d))))
       else Inr d)"

definition dev_write :: "dev_env \<Rightarrow> bool \<Rightarrow> bool \<Rightarrow> char list \<Rightarrow> devices \<Rightarrow> fault + (nat \<times> devices)" where
  "dev_write e cb kmalloc_ok buf d =
     (if length buf \<ge> 32 \<and> \<not> kmalloc_ok then Inr (0, d)
      else bindE (dev_parse_cmd e cb (c_string (takeWhile (\<lambda>c. c \<noteq> CHR 0x0A) buf)) d) (\<lambda>d'. Inr (length buf, d')))"

definition lidbg_device_main :: "string list \<Rightarrow> devices \<Rightarrow> fault + devices" where
  "lidbg_device_main argv d =
     (if length argv < 1 then Inr d
      else if argv ! 0 = ''bl'' then
        (if 1 < length argv then Inr (emit [SOC_BL_Set (simple_strtoul (argv ! 1))] d) else Inl NullDeref)
      else if argv ! 0 = ''ad'' then (if 1 < length argv then Inr d else Inl NullDeref)
      else Inr d)"

section \<open>The operations as one step function\<close>

datatype dev_op =
    EarlySuspend bool | LateResume | Suspend | Resume | SuspendPrepare | ThreadResume pm_status
  | ThermalTest int int | ThermalFlag | ThermalSend | Led | KeyScan "nat \<Rightarrow> int" | Event acc_event | Command string
  | UsbRound | Usb11Begin | Usb11Round | UsbDelay | UdiskRound nat | EnableUsb | DisableUsb | DevInit | LeftButton | RightButton

definition or_same :: "('a \<Rightarrow> 'a option) \<Rightarrow> 'a \<Rightarrow> 'a" where
  "or_same f d = (case f d of None \<Rightarrow> d | Some d' \<Rightarrow> d')"

fun dev_do :: "dev_env \<Rightarrow> bool \<Rightarrow> dev_op \<Rightarrow> devices \<Rightarrow> fault + devices" where
  "dev_do e cb (EarlySuspend fake) d = Inr (devices_early_suspend e fake d)"
| "dev_do e cb LateResume d = Inr (devices_late_resume e d)"
| "dev_do e cb Suspend d = Inr (soc_dev_suspend e d)"
| "dev_do e cb Resume d = Inr (soc_dev_resume e d)"
| "dev_do e cb SuspendPrepare d = Inr (soc_dev_suspend_prepare e d)"
| "dev_do e cb (ThreadResume st) d = Inr (thread_resume st d)"
| "dev_do e cb (ThermalTest t1 t2) d = Inr (thermal_test t1 t2 d)"
| "dev_do e cb ThermalFlag d = Inr (thermal_flag d)"
| "dev_do e cb ThermalSend d = Inr (thermal_send d)"
| "dev_do e cb Led d = Inr (led_round d)"
| "dev_do e cb (KeyScan adc) d = Inr (key_scan adc d)"
| "dev_do e cb (Event ev) d = Inr (lidbg_event e ev d)"
| "dev_do e cb (Command s) d = bindE (dev_write e cb True s d) (\<lambda>(_, d'). Inr d')"
| "dev_do e cb UsbRound d = Inr (or_same usb_round d)"
| "dev_do e cb Usb11Begin d = Inr (usb_11_begin d)"
| "dev_do e cb Usb11Round d = Inr (snd (usb_11_round d))"
| "dev_do e cb UsbDelay d = Inr (thread_usb_delay_enable d)"
| "dev_do e cb (UdiskRound sz) d = Inr (or_same (udisk_round sz) d)"
| "dev_do e cb EnableUsb d = Inr (cb_password_enable_usb d)"
| "dev_do e cb DisableUsb d = Inr (cb_password_disable_usb d)"
| "dev_do e cb DevInit d = Inr (fly_devices_init e d)"
| "dev_do e cb LeftButton d = Inr (work_left_button1_fn d)"
| "dev_do e cb RightButton d = Inr (work_right_button1_fn d)"

definition dev_run :: "dev_env \<Rightarrow> bool \<Rightarrow> dev_op list \<Rightarrow> devices \<Rightarrow> fault + devices" where
  "dev_run e cb = foldE (dev_do e cb)"

lemma emit_simps [simp]:
  "dev_acts (emit a d) = dev_acts d @ a" "platform_id (emit a d) = platform_id d" "led_gpio (emit a d) = led_gpio d"
  "led_en (emit a d) = led_en d" "hal_fan_on (emit a d) = hal_fan_on d" "fan_onoff_temp (emit a d) = fan_onoff_temp d"
  "flag_fan_run_statu (emit a d) = flag_fan_run_statu d" "suspend_flag (emit a d) = suspend_flag d"
  "old_key (emit a d) = old_key d" "usb_id_host (emit a d) = usb_id_host d" "i2c_c_ctrl (emit a d) = i2c_c_ctrl d"
  "thermal_pc (emit a d) = thermal_pc d"
  by (simp_all add: emit_def)

lemmas dev_ops = devices_late_resume_def soc_dev_suspend_def soc_dev_resume_def
  soc_dev_suspend_prepare_def thread_resume_def led_round_def led_on_def usb_11_begin_def usb_11_round_def
  thread_usb_delay_enable_def cb_password_enable_usb_def cb_password_disable_usb_def fly_devices_init_def
  work_left_button1_fn_def work_right_button1_fn_def or_same_def usb_round_def udisk_round_def unmute_ns_def mute_s_def
  hal_acc_def call_chain_def

text \<open>The word that selects the command.\<close>

definition command_word :: "string \<Rightarrow> string" where
  "command_word buf = strsep_all '' '' (c_string (takeWhile (\<lambda>c. c \<noteq> CHR 0x0A) buf)) ! 0"

text \<open>What a command does, apart from the raw access to the micro controller.\<close>

lemma dev_command_cases:
  assumes "dev_write e cb True s d = Inr (n, d')" "command_word s \<noteq> ''lpc''"
  shows "d' = d \<or> d' = d\<lparr>hal_fan_on := True\<rparr> \<or> d' = d\<lparr>hal_fan_on := False\<rparr> \<or> (\<exists>v. d' = hal_acc cb v d) \<or>
    (\<exists>v ev. d' = hal_acc cb v (call_chain e ev d)) \<or> (command_word s = ''usb_reset'' \<and> d' = emit (USB_WORK_DISENABLE @ USB_WORK_ENABLE) d)"
  using assms unfolding dev_write_def dev_parse_cmd_def lidbg_token_string_def command_word_def [symmetric]
  by (auto simp: command_word_def [symmetric] bindE_eq_Inr_iff Let_def split: if_split_asm)

section \<open>The fan\<close>

text \<open>What the micro controller has been told last.\<close>

fun fan_told :: "dev_act \<Rightarrow> bool \<Rightarrow> bool" where
  "fan_told (SOC_LPC_Send [a, b, c]) on = (if a = 2 \<and> b = 1 then c \<noteq> 0 else on)"
| "fan_told _ on = on"

definition fan_running :: "dev_act list \<Rightarrow> bool" where
  "fan_running acts = fold fan_told acts False"

lemma fan_running_append [simp]: "fan_running (xs @ ys) = fold fan_told ys (fan_running xs)"
  by (simp add: fan_running_def)

text \<open>Actions that do not concern a reader of the actions.\<close>

definition quiet :: "(dev_act \<Rightarrow> 's \<Rightarrow> 's) \<Rightarrow> dev_act list \<Rightarrow> bool" where
  "quiet told acts \<longleftrightarrow> (\<forall>a \<in> set acts. \<forall>s. told a s = s)"

lemma quiet_fold: "quiet told acts \<Longrightarrow> fold told acts s = s"
  by (induction acts arbitrary: s) (simp_all add: quiet_def)

lemma quiet_simps [simp]:
  "quiet told []" "quiet told (xs @ ys) \<longleftrightarrow> quiet told xs \<and> quiet told ys" "quiet told (a # xs) \<longleftrightarrow> (\<forall>s. told a s = s) \<and> quiet told xs"
  by (auto simp: quiet_def)

lemma fan_quiet_macros [simp]:
  "quiet fan_told LCD_ON" "quiet fan_told LCD_OFF" "quiet fan_told LCD_RESET" "quiet fan_told PWR_EN_ON" "quiet fan_told PWR_EN_OFF"
  "quiet fan_told USB_WORK_ENABLE" "quiet fan_told USB_WORK_DISENABLE" "quiet fan_told USB_HUB_ENABLE" "quiet fan_told USB_HUB_DISABLE"
  "quiet fan_told USB_ID_HIGH_DEV" "quiet fan_told USB_ID_LOW_HOST" "quiet fan_told TELL_LPC_PWR_ON" "quiet fan_told (LED_ON d)"
  "quiet fan_told (LED_OFF d)" "quiet fan_told (map SOC_IO_Input xs)" "quiet fan_told (map SOC_IO_ISR_Add xs)"
  "quiet fan_told (map SOC_IO_ISR_Enable xs)" "quiet fan_told (map SOC_IO_ISR_Disable xs)" "quiet fan_told (map RegistPassword ps)"
  by (simp_all add: dev_macros quiet_def)

text \<open>What the steps of the thread leave between the fan as it was told, its flag and the flag of the suspend.\<close>

fun fan_agrees :: "thermal_pc \<Rightarrow> bool \<Rightarrow> bool \<Rightarrow> bool \<Rightarrow> bool" where
  "fan_agrees Asleep running flag suspended \<longleftrightarrow> running = flag"
| "fan_agrees (Decided on _) running flag suspended \<longleftrightarrow> running = flag \<and> (on \<longrightarrow> \<not> suspended)"
| "fan_agrees (Sending on _) running flag suspended \<longleftrightarrow> flag = on \<and> running = (\<not> on) \<and> \<not> suspended"

definition fan_inv :: "devices \<Rightarrow> bool" where
  "fan_inv d \<longleftrightarrow> platform_id d = PLATFORM_FLY \<and> (suspend_flag d \<longrightarrow> \<not> flag_fan_run_statu d) \<and>
     fan_agrees (thermal_pc d) (fan_running (dev_acts d)) (flag_fan_run_statu d) (suspend_flag d)"

lemma fan_inv_emit: "fan_inv d \<Longrightarrow> quiet fan_told acts \<Longrightarrow> fan_inv (emit acts d)"
  by (simp add: fan_inv_def quiet_fold)

lemma fan_inv_fields:
  "fan_inv (d\<lparr>hal_fan_on := b\<rparr>) = fan_inv d" "fan_inv (d\<lparr>usb_resume := n\<rparr>) = fan_inv d" "fan_inv (d\<lparr>audio_data_for_hal := a\<rparr>) = fan_inv d"
  "fan_inv (d\<lparr>i2c_c_ctrl := b\<rparr>) = fan_inv d" "fan_inv (d\<lparr>led_status := b\<rparr>) = fan_inv d" "fan_inv (d\<lparr>is_usb11 := b\<rparr>) = fan_inv d"
  "fan_inv (d\<lparr>udisk_event_wait := n\<rparr>) = fan_inv d" "fan_inv (d\<lparr>old_key := n\<rparr>) = fan_inv d" "fan_inv (d\<lparr>usb_id_host := b\<rparr>) = fan_inv d"
  "fan_inv (d\<lparr>g_temp := t\<rparr>) = fan_inv d" "fan_inv (d\<lparr>old_temp := t\<rparr>) = fan_inv d"
  by (simp_all add: fan_inv_def)

lemma fan_inv_resumed: "fan_inv d \<Longrightarrow> fan_inv (d\<lparr>suspend_flag := False\<rparr>)"
  by (cases "thermal_pc d") (auto simp: fan_inv_def)

lemma fan_inv_log_temp: "fan_inv d \<Longrightarrow> fan_inv (log_temp t d)"
  by (simp add: log_temp_def Let_def fan_inv_fields fan_inv_emit)

lemma log_temp_simps [simp]:
  "hal_fan_on (log_temp t d) = hal_fan_on d" "fan_onoff_temp (log_temp t d) = fan_onoff_temp d"
  "flag_fan_run_statu (log_temp t d) = flag_fan_run_statu d" "suspend_flag (log_temp t d) = suspend_flag d"
  "platform_id (log_temp t d) = platform_id d" "thermal_pc (log_temp t d) = thermal_pc d"
  by (simp_all add: log_temp_def Let_def)

lemma fan_inv_thermal_steps:
  assumes "fan_inv d"
  shows "fan_inv (thermal_test t1 t2 d)" "fan_inv (thermal_flag d)" "fan_inv (thermal_send d)"
proof -
  show "fan_inv (thermal_test t1 t2 d)"
    using fan_inv_log_temp [OF assms, of t1] assms by (auto simp: thermal_test_def Let_def fan_inv_def)
  show "fan_inv (thermal_flag d)"
    using assms by (auto simp: thermal_flag_def fan_inv_def split: thermal_pc.splits)
  show "fan_inv (thermal_send d)"
    using assms by (auto simp: thermal_send_def fan_inv_def AIRFAN_BACK_ON_def AIRFAN_BACK_OFF_def split: thermal_pc.splits)
qed

lemma fan_thermal_round:
  assumes "fan_inv d" "thermal_pc d = Asleep"
  shows "fan_running (dev_acts (thread_thermal t1 t2 d)) \<longleftrightarrow> t2 > fan_onoff_temp d \<and> hal_fan_on d \<and> \<not> suspend_flag d"
  using fan_inv_log_temp [OF assms(1), of t1] assms(2)
  by (auto simp: thread_thermal_def thermal_test_def thermal_flag_def thermal_send_def Let_def fan_inv_def AIRFAN_BACK_ON_def AIRFAN_BACK_OFF_def)

lemma fan_inv_early: "fan_inv d \<Longrightarrow> thermal_pc d = Asleep \<Longrightarrow> fan_inv (devices_early_suspend e fake d)"
  by (simp add: devices_early_suspend_def Let_def fan_inv_def quiet_fold AIRFAN_BACK_OFF_def)

lemma fan_inv_key_scan: "fan_inv d \<Longrightarrow> fan_inv (key_scan adc d)"
  by (auto simp: key_scan_def Let_def fan_inv_fields fan_inv_emit)

lemma fan_inv_hal_acc: "fan_inv d \<Longrightarrow> fan_inv (hal_acc cb v d)"
  by (simp add: hal_acc_def fan_inv_emit)

lemma fan_inv_event: "fan_inv d \<Longrightarrow> fan_inv (lidbg_event e ev d)"
  by (auto simp: lidbg_event_def unmute_ns_def mute_s_def fan_inv_fields fan_inv_emit split: acc_event.splits)

lemma fan_inv_step:
  assumes "fan_inv d" "dev_do e cb x d = Inr d'" "\<And>s. x = Command s \<Longrightarrow> command_word s \<noteq> ''lpc''"
    and "\<And>fake. x = EarlySuspend fake \<Longrightarrow> thermal_pc d = Asleep"
  shows "fan_inv d'"
proof (cases x)
  case (Command s)
  then obtain n where "dev_write e cb True s d = Inr (n, d')" using assms(2) by (auto simp: bindE_eq_Inr_iff)
  from dev_command_cases [OF this assms(3) [OF Command]] show ?thesis
    using assms(1) by (auto simp: fan_inv_fields fan_inv_emit fan_inv_hal_acc call_chain_def fan_inv_event)
qed (use assms in \<open>auto simp: fan_inv_early fan_inv_thermal_steps fan_inv_key_scan fan_inv_event dev_ops fan_inv_fields fan_inv_emit
      fan_inv_resumed Let_def split: option.splits if_split_asm\<close>)

lemma fan_inv_probe: "fan_inv (soc_dev_probe e cfg devices_start)"
  by (simp add: soc_dev_probe_def Let_def fan_inv_def devices_start_def fan_running_def quiet_fold dev_macros)

text \<open>A run in which the early suspend comes between two rounds of the thermal thread, not into one.\<close>

fun between_rounds :: "dev_env \<Rightarrow> bool \<Rightarrow> dev_op list \<Rightarrow> devices \<Rightarrow> bool" where
  "between_rounds e cb [] d = True"
| "between_rounds e cb (x # ops) d =
     ((case x of EarlySuspend _ \<Rightarrow> thermal_pc d = Asleep | _ \<Rightarrow> True) \<and>
      (case dev_do e cb x d of Inl _ \<Rightarrow> True | Inr d' \<Rightarrow> between_rounds e cb ops d'))"

lemma fan_inv_run:
  "dev_run e cb ops d = Inr d' \<Longrightarrow> fan_inv d \<Longrightarrow> \<forall>s. Command s \<in> set ops \<longrightarrow> command_word s \<noteq> ''lpc'' \<Longrightarrow> between_rounds e cb ops d \<Longrightarrow>
     fan_inv d'"
proof (induction ops arbitrary: d)
  case Nil
  then show ?case by (simp add: dev_run_def)
next
  case (Cons x ops)
  then obtain d1 where d1: "dev_do e cb x d = Inr d1" "dev_run e cb ops d1 = Inr d'" "between_rounds e cb ops d1"
    by (auto simp: dev_run_def bindE_eq_Inr_iff)
  have "fan_inv d1"
    by (rule fan_inv_step [OF Cons.prems(2) d1(1)]) (use Cons.prems(3,4) in auto)
  then show ?case using Cons.IH [OF d1(2)] Cons.prems(3) d1(3) by simp
qed

text \<open>
  (C13) The fan: from the start on, whatever operations and threads of the driver run in whatever order, with other operations between the
  steps of a round of the thermal thread, but without raw commands to the micro controller and with the early suspend only between two of these rounds: the
  flag of the driver agrees with what the micro controller was told last, except between the change of the flag and its command; the fan is off while
  the system is suspended; and after a whole round of the thermal thread it runs exactly when the temperature is above the threshold,
  the fan is not disabled by user space, and the system is not suspended.
\<close>

theorem fan_follows_temperature:
  assumes "dev_run e cb ops (soc_dev_probe e cfg devices_start) = Inr d"
    and "\<forall>s. Command s \<in> set ops \<longrightarrow> command_word s \<noteq> ''lpc''"
    and "between_rounds e cb ops (soc_dev_probe e cfg devices_start)"
  shows "((\<forall>on t. thermal_pc d \<noteq> Sending on t) \<longrightarrow> fan_running (dev_acts d) = flag_fan_run_statu d) \<and>
    (suspend_flag d \<longrightarrow> \<not> fan_running (dev_acts d)) \<and>
    (thermal_pc d = Asleep \<longrightarrow>
      (fan_running (dev_acts (thread_thermal temp cur_temp d)) \<longleftrightarrow> cur_temp > fan_onoff_temp d \<and> hal_fan_on d \<and> \<not> suspend_flag d))"
proof -
  have inv: "fan_inv d" by (rule fan_inv_run [OF assms(1) fan_inv_probe assms(2,3)])
  show ?thesis
    using inv fan_thermal_round [OF inv, of temp cur_temp] unfolding fan_inv_def by (cases "thermal_pc d") auto
qed

definition dev_env_sample :: dev_env where
  "dev_env_sample = \<lparr>is_fly = True, recovery_mode = False, usb11_file = False\<rparr>"

definition dev_sample :: devices where
  "dev_sample = soc_dev_probe dev_env_sample (\<lambda>_ v. v) devices_start"

lemma dev_sample_fields:
  "platform_id dev_sample = PLATFORM_FLY" "thermal_pc dev_sample = Asleep" "fan_onoff_temp dev_sample = 65" "hal_fan_on dev_sample"
  "\<not> suspend_flag dev_sample" "\<not> flag_fan_run_statu dev_sample"
  by (simp_all add: dev_sample_def soc_dev_probe_def Let_def devices_start_def)

theorem fan_follows_temperature_witness:
  "\<exists>d. dev_run dev_env_sample False [ThermalTest 70 70, ThermalFlag, ThermalSend, EarlySuspend False] dev_sample = Inr d \<and>
     suspend_flag d \<and> \<not> fan_running (dev_acts d) \<and> \<not> fan_running (dev_acts (thread_thermal 99 99 d)) \<and>
     fan_running (dev_acts (thread_thermal 99 99 dev_sample))"
proof -
  let ?ops = "[ThermalTest 70 70, ThermalFlag, ThermalSend, EarlySuspend False]"
  define d1 where "d1 = thread_thermal 70 70 dev_sample"
  have d1: "thermal_pc d1 = Asleep" "platform_id d1 = PLATFORM_FLY"
    by (simp_all add: d1_def thread_thermal_def thermal_test_def thermal_flag_def thermal_send_def dev_sample_fields Let_def)
  define d where "d = devices_early_suspend dev_env_sample False d1"
  have d: "thermal_pc d = Asleep" "suspend_flag d" using d1 by (simp_all add: d_def devices_early_suspend_def Let_def)
  have run: "dev_run dev_env_sample False ?ops dev_sample = Inr d"
    by (simp add: dev_run_def d_def d1_def thread_thermal_def)
  have "between_rounds dev_env_sample False ?ops dev_sample" using d1(1) by (simp add: d1_def thread_thermal_def)
  from fan_follows_temperature [OF run [unfolded dev_sample_def] _ this [unfolded dev_sample_def], of 99 99]
    fan_follows_temperature [of dev_env_sample False "[]" "\<lambda>_ v. v" dev_sample 99 99]
  show ?thesis using run d dev_sample_fields by (auto simp: dev_run_def dev_sample_def)
qed

text \<open>
  An early suspend that comes between the flag and the command: the fan runs with a cleared flag through the suspend, and no later round
  of the thread switches it off.
\<close>

lemma fan_left_running:
  "\<exists>d. dev_run dev_env_sample False [ThermalTest 70 70, ThermalFlag, EarlySuspend False, ThermalSend] dev_sample = Inr d \<and>
     suspend_flag d \<and> fan_running (dev_acts d) \<and> fan_running (dev_acts (thread_thermal temp cur_temp d))"
proof -
  define d1 where "d1 = thermal_flag (thermal_test 70 70 dev_sample)"
  have d1: "thermal_pc d1 = Sending True 70" "platform_id d1 = PLATFORM_FLY"
    by (simp_all add: d1_def thermal_test_def thermal_flag_def dev_sample_fields Let_def)
  define d2 where "d2 = devices_early_suspend dev_env_sample False d1"
  have d2: "thermal_pc d2 = Sending True 70" "suspend_flag d2" "\<not> flag_fan_run_statu d2"
    using d1 by (simp_all add: d2_def devices_early_suspend_def Let_def)
  define d where "d = thermal_send d2"
  have d: "thermal_pc d = Asleep" "suspend_flag d" "\<not> flag_fan_run_statu d" "fan_running (dev_acts d)"
    using d2 by (simp_all add: d_def thermal_send_def AIRFAN_BACK_ON_def)
  have l: "fan_running (dev_acts (log_temp t d)) = fan_running (dev_acts d)" for t
    by (simp add: log_temp_def Let_def)
  have "fan_running (dev_acts (thread_thermal temp cur_temp d))"
    using d l by (simp add: thread_thermal_def thermal_test_def thermal_flag_def thermal_send_def Let_def)
  then show ?thesis using d by (simp add: dev_run_def d_def d2_def d1_def)
qed

section \<open>The USB port\<close>

text \<open>The switch and the hub, as they were told last.\<close>

fun usb_told :: "dev_act \<Rightarrow> bool \<times> bool \<Rightarrow> bool \<times> bool" where
  "usb_told (SOC_IO_Output p v) (sw, hub) = (if p = 58 then (v = 0, hub) else (sw, hub))"
| "usb_told (SOC_LPC_Send [a, b, c]) (sw, hub) = (if a = 2 \<and> b = 9 then (sw, c \<noteq> 0) else (sw, hub))"
| "usb_told _ st = st"

definition usb_port :: "dev_act list \<Rightarrow> bool \<times> bool" where
  "usb_port acts = fold usb_told acts (False, False)"

lemma usb_quiet_macros [simp]:
  "quiet usb_told LCD_ON" "quiet usb_told LCD_OFF" "quiet usb_told LCD_RESET" "quiet usb_told PWR_EN_OFF"
  "quiet usb_told TELL_LPC_PWR_ON" "quiet usb_told USB_ID_HIGH_DEV" "quiet usb_told USB_ID_LOW_HOST"
  "quiet usb_told AIRFAN_BACK_ON" "quiet usb_told AIRFAN_BACK_OFF"
  "quiet usb_told (map SOC_IO_ISR_Enable xs)" "quiet usb_told (map SOC_IO_ISR_Disable xs)"
  by (auto simp: dev_macros quiet_def)

lemma led_quiet [simp]: "led_gpio d \<noteq> 58 \<Longrightarrow> quiet usb_told (LED_ON d)" "led_gpio d \<noteq> 58 \<Longrightarrow> quiet usb_told (LED_OFF d)"
  by (auto simp: LED_ON_def LED_OFF_def quiet_def)

lemma usb_disabled [simp]: "fold usb_told USB_WORK_DISENABLE st = (False, False)"
  by (cases st) (simp add: dev_macros)

lemma usb_enabled [simp]: "fold usb_told USB_WORK_ENABLE st = (True, True)"
  by (cases st) (simp add: dev_macros)

definition usb_off_inv :: "devices \<Rightarrow> bool" where
  "usb_off_inv d \<longleftrightarrow> fold usb_told (dev_acts d) (False, False) = (False, False) \<and> old_key d \<noteq> 0 \<and> led_gpio d \<noteq> 58"

lemma usb_off_emit: "usb_off_inv d \<Longrightarrow> quiet usb_told acts \<Longrightarrow> usb_off_inv (emit acts d)"
  by (simp add: usb_off_inv_def quiet_fold)

lemma usb_off_disable: "usb_off_inv d \<Longrightarrow> usb_off_inv (emit USB_WORK_DISENABLE d)"
  by (simp add: usb_off_inv_def)

lemma usb_off_fields:
  "usb_off_inv (d\<lparr>hal_fan_on := b\<rparr>) = usb_off_inv d" "usb_off_inv (d\<lparr>usb_resume := n\<rparr>) = usb_off_inv d" "usb_off_inv (d\<lparr>audio_data_for_hal := a\<rparr>) = usb_off_inv d"
  "usb_off_inv (d\<lparr>i2c_c_ctrl := b\<rparr>) = usb_off_inv d" "usb_off_inv (d\<lparr>led_status := b\<rparr>) = usb_off_inv d" "usb_off_inv (d\<lparr>is_usb11 := b\<rparr>) = usb_off_inv d"
  "usb_off_inv (d\<lparr>udisk_event_wait := n\<rparr>) = usb_off_inv d" "usb_off_inv (d\<lparr>suspend_flag := b\<rparr>) = usb_off_inv d"
  "usb_off_inv (d\<lparr>g_temp := t\<rparr>) = usb_off_inv d" "usb_off_inv (d\<lparr>old_temp := t\<rparr>) = usb_off_inv d" "usb_off_inv (d\<lparr>flag_fan_run_statu := b\<rparr>) = usb_off_inv d"
  "usb_off_inv (d\<lparr>thermal_pc := c\<rparr>) = usb_off_inv d"
  by (simp_all add: usb_off_inv_def)

lemma usb_off_led_gpio: "usb_off_inv d \<Longrightarrow> led_gpio d \<noteq> 58"
  by (simp add: usb_off_inv_def)

lemma find_ad_key_SomeD: "find_ad_key adc ch = i \<Longrightarrow> i \<noteq> 0xff \<Longrightarrow> i < length ad_key \<and> fst (ad_key ! i) = ch"
  by (auto simp: find_ad_key_def Let_def find_Some_iff split: option.splits if_splits prod.splits)

lemma find_ad_key_nonzero: "ch \<noteq> 0 \<Longrightarrow> find_ad_key adc ch \<noteq> 0"
  using find_ad_key_SomeD [of adc ch 0] by (auto simp: ad_key_def)

lemma usb_off_key_scan: "usb_off_inv d \<Longrightarrow> usb_off_inv (key_scan adc d)"
  using find_ad_key_nonzero [of 4 adc] find_ad_key_nonzero [of 2 adc]
  by (auto simp: key_scan_def Let_def usb_off_inv_def)

lemma usb_off_thermal:
  "usb_off_inv d \<Longrightarrow> usb_off_inv (thermal_test t1 t2 d)" "usb_off_inv d \<Longrightarrow> usb_off_inv (thermal_flag d)"
  "usb_off_inv d \<Longrightarrow> usb_off_inv (thermal_send d)"
  by (auto simp: thermal_test_def thermal_flag_def thermal_send_def log_temp_def Let_def usb_off_fields usb_off_emit split: thermal_pc.split)

lemma usb_off_led: "usb_off_inv d \<Longrightarrow> usb_off_inv (led_round d)"
  by (auto simp: led_round_def led_on_def usb_off_fields usb_off_emit usb_off_led_gpio)

lemma usb_off_early: "usb_off_inv d \<Longrightarrow> usb_off_inv (devices_early_suspend e fake d)"
  by (auto simp: devices_early_suspend_def Let_def usb_off_fields usb_off_emit usb_off_disable usb_off_led_gpio)

lemma usb_off_late: "usb_off_inv d \<Longrightarrow> usb_off_inv (devices_late_resume e d)"
  by (auto simp: devices_late_resume_def Let_def usb_off_fields usb_off_emit)

lemma usb_off_suspend: "usb_off_inv d \<Longrightarrow> usb_off_inv (soc_dev_suspend e d)" "usb_off_inv d \<Longrightarrow> usb_off_inv (soc_dev_resume e d)"
  by (auto simp: soc_dev_suspend_def soc_dev_resume_def Let_def usb_off_fields usb_off_emit usb_off_led_gpio)

lemma usb_off_prepare: "usb_off_inv d \<Longrightarrow> usb_off_inv (soc_dev_suspend_prepare e d)"
  by (auto simp: soc_dev_suspend_prepare_def usb_off_inv_def)

lemma usb_off_event: "usb_off_inv d \<Longrightarrow> usb_off_inv (lidbg_event e ev d)"
  by (auto simp: lidbg_event_def unmute_ns_def mute_s_def usb_off_fields usb_off_emit split: acc_event.splits)

lemma usb_off_hal: "usb_off_inv d \<Longrightarrow> usb_off_inv (hal_acc cb v d)"
  by (simp add: hal_acc_def usb_off_emit)

text \<open>The operations that switch the port on.\<close>

fun usb_enabling :: "dev_op \<Rightarrow> bool" where
  "usb_enabling (ThreadResume st) = (st = PM_STATUS_LATE_RESUME_OK)"
| "usb_enabling (Command s) = (command_word s = ''usb_reset'' \<or> command_word s = ''lpc'')"
| "usb_enabling UsbRound = True"
| "usb_enabling Usb11Round = True"
| "usb_enabling UsbDelay = True"
| "usb_enabling EnableUsb = True"
| "usb_enabling DevInit = True"
| "usb_enabling _ = False"

lemma usb_off_step:
  assumes "usb_off_inv d" "dev_do e cb x d = Inr d'" "\<not> usb_enabling x"
  shows "usb_off_inv d'"
proof (cases x)
  case (Command s)
  then obtain n where "dev_write e cb True s d = Inr (n, d')" using assms(2) by (auto simp: bindE_eq_Inr_iff)
  from dev_command_cases [OF this] show ?thesis
    using assms(1,3) Command by (auto simp: usb_off_fields usb_off_emit usb_off_hal call_chain_def usb_off_event)
qed (use assms in \<open>auto simp: usb_off_early usb_off_late usb_off_suspend usb_off_prepare usb_off_thermal usb_off_led usb_off_key_scan
      usb_off_event usb_off_disable usb_off_emit usb_off_fields thread_resume_def usb_11_begin_def or_same_def udisk_round_def
      cb_password_disable_usb_def work_left_button1_fn_def work_right_button1_fn_def Let_def split: option.splits if_split_asm\<close>)

text \<open>The pin of the LED is never that of the switch, and the last key is never the reserved one, whose input is not scanned.\<close>

definition port_inv :: "devices \<Rightarrow> bool" where
  "port_inv d \<longleftrightarrow> old_key d \<noteq> 0 \<and> led_gpio d \<noteq> 58"

lemma port_inv_fields [simp]:
  "port_inv (emit a d) = port_inv d" "port_inv (d\<lparr>hal_fan_on := b\<rparr>) = port_inv d" "port_inv (d\<lparr>usb_resume := n\<rparr>) = port_inv d"
  "port_inv (d\<lparr>audio_data_for_hal := x\<rparr>) = port_inv d" "port_inv (d\<lparr>i2c_c_ctrl := b\<rparr>) = port_inv d" "port_inv (d\<lparr>led_status := b\<rparr>) = port_inv d"
  "port_inv (d\<lparr>is_usb11 := b\<rparr>) = port_inv d" "port_inv (d\<lparr>udisk_event_wait := n\<rparr>) = port_inv d" "port_inv (d\<lparr>suspend_flag := b\<rparr>) = port_inv d"
  "port_inv (d\<lparr>g_temp := t\<rparr>) = port_inv d" "port_inv (d\<lparr>old_temp := t\<rparr>) = port_inv d" "port_inv (d\<lparr>flag_fan_run_statu := b\<rparr>) = port_inv d"
  "port_inv (d\<lparr>thermal_pc := c\<rparr>) = port_inv d"
  by (simp_all add: port_inv_def)

lemma port_inv_key_scan: "port_inv d \<Longrightarrow> port_inv (key_scan adc d)"
  using find_ad_key_nonzero [of 4 adc] find_ad_key_nonzero [of 2 adc]
  by (auto simp: key_scan_def Let_def port_inv_def)

lemma port_inv_event: "port_inv d \<Longrightarrow> port_inv (lidbg_event e ev d)"
  by (auto simp: lidbg_event_def unmute_ns_def mute_s_def split: acc_event.splits)

lemma port_inv_write:
  assumes "dev_write e cb ok s d = Inr (n, d')" "port_inv d"
  shows "port_inv d'"
  using assms by (auto simp: dev_write_def dev_parse_cmd_def bindE_eq_Inr_iff Let_def hal_acc_def call_chain_def port_inv_event split: if_split_asm)

lemma port_inv_step:
  assumes "port_inv d" "dev_do e cb x d = Inr d'"
  shows "port_inv d'"
  using assms
  by (cases x) (auto simp: devices_early_suspend_def dev_ops thermal_test_def thermal_flag_def thermal_send_def log_temp_def port_inv_key_scan
      port_inv_event bindE_eq_Inr_iff Let_def dest: port_inv_write split: option.splits if_split_asm thermal_pc.splits)

lemma port_inv_run:
  assumes "dev_run e cb ops (soc_dev_probe e cfg devices_start) = Inr d"
  shows "port_inv d"
proof -
  have "port_inv (soc_dev_probe e cfg devices_start)"
    by (simp add: soc_dev_probe_def Let_def port_inv_def devices_start_def GPIO_LED_FLY_def)
  with port_inv_step show ?thesis
    using foldE_invariant [where P = port_inv, OF _ _ assms [unfolded dev_run_def]] by blast
qed

text \<open>
  (C14) The USB port stays off through a power-off: after the preparation of the suspend, at any point of a run of the driver, whatever other operations of the
  driver follow, except those whose purpose is to switch it on and raw commands to the micro controller, the switch is open and the hub is off.  When
  the event that ends the suspend arrives, the thread that waits for it has a round to run, and that round closes the switch and turns on the hub.
\<close>

theorem usb_off_until_resumed:
  assumes "dev_run e cb ops (soc_dev_probe e cfg devices_start) = Inr d"
    and "dev_run e cb ops' (soc_dev_suspend_prepare e d) = Inr d'" "\<forall>x \<in> set ops'. \<not> usb_enabling x"
  shows "usb_port (dev_acts d') = (False, False) \<and>
    (\<exists>d2. usb_round (lidbg_event e NOTIFIER_MINOR_SUSPEND_UNPREPARE d') = Some d2 \<and> usb_port (dev_acts d2) = (True, True))"
proof -
  have "usb_off_inv (soc_dev_suspend_prepare e d)"
    using port_inv_run [OF assms(1)] by (simp add: soc_dev_suspend_prepare_def usb_off_inv_def port_inv_def)
  moreover have "usb_off_inv d2" if "x \<in> set ops'" "usb_off_inv d1" "dev_do e cb x d1 = Inr d2" for x d1 d2
    using usb_off_step [OF that(2,3)] that(1) assms(3) by blast
  ultimately have "usb_off_inv d'"
    using foldE_invariant [where P = usb_off_inv] assms(2) [unfolded dev_run_def] by metis
  then show ?thesis by (simp add: usb_off_inv_def usb_port_def usb_round_def lidbg_event_def)
qed

theorem usb_off_until_resumed_witness:
  "\<exists>d'. dev_run dev_env_sample False [EarlySuspend False, Suspend, Resume, LateResume] (soc_dev_suspend_prepare dev_env_sample dev_sample) = Inr d' \<and>
     usb_port (dev_acts d') = (False, False)"
proof -
  obtain d' where run: "dev_run dev_env_sample False [EarlySuspend False, Suspend, Resume, LateResume]
      (soc_dev_suspend_prepare dev_env_sample dev_sample) = Inr d'" by (simp add: dev_run_def)
  have "dev_run dev_env_sample False [] (soc_dev_probe dev_env_sample (\<lambda>_ v. v) devices_start) = Inr dev_sample"
    by (simp add: dev_run_def dev_sample_def)
  from usb_off_until_resumed [OF this run] run show ?thesis by simp
qed

section \<open>Keys\<close>

text \<open>The key that a scan sees.\<close>

definition seen_key :: "(nat \<Rightarrow> int) \<Rightarrow> nat" where
  "seen_key adc = (let k4 = find_ad_key adc 4 in if k4 \<noteq> 0xff then k4 else find_ad_key adc 2)"

definition key_reports :: "dev_act list \<Rightarrow> dev_key list" where
  "key_reports acts = concat (map (\<lambda>a. case a of SOC_Key_Report k \<Rightarrow> [k] | _ \<Rightarrow> []) acts)"

text \<open>The keys released in a sequence of scans.\<close>

fun released :: "nat list \<Rightarrow> nat list" where
  "released (k # k' # ks) = (if k \<noteq> 0xff \<and> k' = 0xff then k # released (k' # ks) else released (k' # ks))"
| "released _ = []"

lemma key_scan_step:
  "old_key (key_scan adc d) = seen_key adc \<and>
   key_reports (dev_acts (key_scan adc d)) =
     key_reports (dev_acts d) @ (if old_key d \<noteq> 0xff \<and> seen_key adc = 0xff then [snd (snd (ad_key ! old_key d))] else [])"
  by (auto simp: key_scan_def seen_key_def Let_def key_reports_def dev_macros)

lemma key_scans:
  "key_reports (dev_acts (fold key_scan adcs d)) =
     key_reports (dev_acts d) @ map (\<lambda>k. snd (snd (ad_key ! k))) (released (old_key d # map seen_key adcs))"
proof (induction adcs arbitrary: d)
  case (Cons adc adcs)
  then show ?case using key_scan_step [of adc d] by simp
qed simp

text \<open>The windows of the keys of one input do not overlap.\<close>

lemma int_window:
  assumes "- (2 ^ 31) \<le> val" "val < 2 ^ 31" "100 \<le> v" "v < 4000"
  shows "(of_int val :: u32) > of_nat v - of_nat AD_OFFSET \<and> (of_int val :: u32) < of_nat v + of_nat AD_OFFSET \<longleftrightarrow> \<bar>val - int v\<bar> < 100"
proof -
  have u: "uint (of_int k :: u32) = k mod 2 ^ 32" for k by (simp add: uint_word_of_int)
  have lo: "(of_nat v - of_nat AD_OFFSET :: u32) = of_int (int v - 100)" by (simp add: AD_OFFSET_def)
  have hi: "(of_nat v + of_nat AD_OFFSET :: u32) = of_int (int v + 100)" by (simp add: AD_OFFSET_def)
  have m: "(int v - 100) mod 2 ^ 32 = int v - 100" "(int v + 100) mod 2 ^ 32 = int v + 100"
    using assms(3,4) by simp_all
  show ?thesis
  proof (cases "val < 0")
    case True
    then have "(val + 2 ^ 32) mod 2 ^ 32 = val + 2 ^ 32" using assms(1) by (intro mod_pos_pos_trivial) simp_all
    then have v: "val mod 2 ^ 32 = val + 2 ^ 32" by simp
    show ?thesis unfolding lo hi word_less_def u m v using True assms by auto
  next
    case False
    then have v: "val mod 2 ^ 32 = val" using assms(2) by simp
    show ?thesis unfolding lo hi word_less_def u m v by auto
  qed
qed

text \<open>The windows that a scan looks at, in its order.\<close>

definition pressed_key :: "(nat \<Rightarrow> int) \<Rightarrow> nat" where
  "pressed_key adc =
     (if \<bar>adc 4 - 1108\<bar> < 100 then 6 else if \<bar>adc 4 - 1372\<bar> < 100 then 7
      else if \<bar>adc 2 - 1548\<bar> < 100 then 1 else if \<bar>adc 2 - 2040\<bar> < 100 then 2 else if \<bar>adc 2 - 2517\<bar> < 100 then 3 else 0xff)"

definition adc_ok :: "(nat \<Rightarrow> int) \<Rightarrow> bool" where
  "adc_ok adc \<longleftrightarrow> (\<forall>ch. - (2 ^ 31) \<le> adc ch \<and> adc ch < 2 ^ 31)"

lemma find_ad_key_4:
  assumes "adc_ok adc"
  shows "find_ad_key adc 4 = (if \<bar>adc 4 - 1108\<bar> < 100 then 6 else if \<bar>adc 4 - 1372\<bar> < 100 then 7 else 0xff)"
proof -
  have r: "- (2 ^ 31) \<le> adc 4" "adc 4 < 2 ^ 31" using assms unfolding adc_ok_def by blast+
  have "[0..<length ad_key] = [0, 1, 2, 3, 4, 5, 6, 7]" by (simp add: ad_key_def upt_rec)
  then show ?thesis
    using int_window [OF r, of 1108] int_window [OF r, of 1372]
    by (auto simp: find_ad_key_def Let_def ad_key_def AD_VAL_MAX_def)
qed

lemma find_ad_key_2:
  assumes "adc_ok adc"
  shows "find_ad_key adc 2 = (if \<bar>adc 2 - 1548\<bar> < 100 then 1 else if \<bar>adc 2 - 2040\<bar> < 100 then 2 else if \<bar>adc 2 - 2517\<bar> < 100 then 3 else 0xff)"
proof -
  have r: "- (2 ^ 31) \<le> adc 2" "adc 2 < 2 ^ 31" using assms unfolding adc_ok_def by blast+
  have "[0..<length ad_key] = [0, 1, 2, 3, 4, 5, 6, 7]" by (simp add: ad_key_def upt_rec)
  then show ?thesis
    using int_window [OF r, of 1548] int_window [OF r, of 2040] int_window [OF r, of 2517]
    by (auto simp: find_ad_key_def Let_def ad_key_def AD_VAL_MAX_def)
qed

lemma seen_key_eq: "adc_ok adc \<Longrightarrow> seen_key adc = pressed_key adc"
  by (simp add: seen_key_def pressed_key_def find_ad_key_4 find_ad_key_2)

text \<open>
  The keys at the analog inputs: in any sequence of scans a key is reported exactly once for each time it is released, that is, when
  a scan that sees it is followed by one that sees no key, and nothing else is reported; a scan sees the key in whose window of 200
  around its nominal value the input lies, input 4 before input 2.  A change from one key to another without a pause in
  between reports only the second.
\<close>

theorem keys_reported_on_release:
  assumes "list_all adc_ok adcs"
  shows "key_reports (dev_acts (fold key_scan adcs d)) =
    key_reports (dev_acts d) @ map (\<lambda>k. snd (snd (ad_key ! k))) (released (old_key d # map pressed_key adcs))"
proof -
  have "map seen_key adcs = map pressed_key adcs" using assms by (auto simp: list_all_iff seen_key_eq)
  then show ?thesis unfolding key_scans by (rule arg_cong)
qed

theorem keys_reported_on_release_witness:
  "key_reports (dev_acts (fold key_scan [(\<lambda>_. 0)(2 := 2500), (\<lambda>_. 0)(2 := 2550), \<lambda>_. 0, (\<lambda>_. 0)(4 := 1100), \<lambda>_. 3300] devices_start)) =
     [KEY_HOME, KEY_MENU]"
proof -
  have "list_all adc_ok [(\<lambda>_. 0)(2 := 2500), (\<lambda>_. 0)(2 := 2550), \<lambda>_. 0, (\<lambda>_. 0)(4 := 1100), \<lambda>_. 3300]" by (simp add: adc_ok_def)
  from keys_reported_on_release [OF this, of devices_start] show ?thesis
    by (simp add: pressed_key_def devices_start_def key_reports_def ad_key_def)
qed

end
