(* ===== verification/Powermanager.thy ===== *)
theory Powermanager
  imports Cmn Wakelock Input
begin

text \<open>
  The power manager of the board with the chip 8226, \<^verbatim>\<open>drivers/powermanager/lidbg_pm_8226.c\<close>: the list of the kernel's
  wakeup sources and what is done with the active ones, the observer that prints them while the system tries to sleep,
  the steps of the suspend that the kernel reports, and the commands written to the node \<^verbatim>\<open>lidbg_pm\<close>.

  The wakeup sources belong to the kernel: a list of names with the flag \<open>active\<close>, which \<^verbatim>\<open>__pm_relax\<close> clears.  The
  shell commands go through the channel of theory \<open>Cmn\<close>, the wake locks of the applications are those of theory \<open>Wakelock\<close>.
  Printed lines, file writes, keys and pins are collected in \<open>pm_acts\<close>.
\<close>

datatype ws_list_action_types =
    PM_ACTION_PRINT
  | PM_ACTION_PRINT_FORCE_UNLOCK
  | PM_ACTION_PRINT_KILL_HASLOCK_APK
  | PM_ACTION_PRINT_KILL_ALL_APK
  | PM_ACTION_SAVE_LOCK_MSG
  | PM_ACTION_NULL

datatype fly_pm_stat_step = PM_AUTOSLEEP_STORE1 string | PM_SUSPEND_ENTER8 | PM_SUSPEMD_OPS_ENTER9P1 | PM_NULL | OtherStep

record wakeup_source =
  ws_name :: string
  ws_active :: bool

datatype pm_act =
    PrintSource string nat string
  | SaveSource nat string
  | ClearFile string
  | WriteFile string string
  | PmKey key u32
  | PmOutput nat nat
  | PmThread string
  | RegisterFile string

record pm_state =
  is_in_sleep :: int
  list_count :: nat
  is_pm_toast_dbg_en :: bool
  sleep_observer_wait :: nat
  thread_kernel_msg_completion :: nat
  pm_list_3 :: "string option list"
  ws_lh :: "wakeup_source list option"
  pm_wakelock :: wakelock_state
  pm_uevent :: uevent_state
  pm_acts :: "pm_act list"

definition KEY_PRESSED_RELEASED :: u32 where "KEY_PRESSED_RELEASED = 2"
definition GPIO_WP :: nat where "GPIO_WP = 35"
definition GPIO_APP_STATUS :: nat where "GPIO_APP_STATUS = 36"
definition BUTTON_LED_NODE :: string where "BUTTON_LED_NODE = ''/sys/class/leds/button-backlight/brightness''"

definition pm_do :: "pm_act list \<Rightarrow> pm_state \<Rightarrow> pm_state" where
  "pm_do a s = s\<lparr>pm_acts := pm_acts s @ a\<rparr>"

definition pm_shell :: "string \<Rightarrow> pm_state \<Rightarrow> pm_state" where
  "pm_shell cmd s = s\<lparr>pm_uevent := uevent_shell cmd (pm_uevent s)\<rparr>"

text \<open>A helper of theory \<open>Cmn\<close> that starts a program.\<close>

definition pm_launch :: "(uevent_state \<Rightarrow> fault + (int \<times> uevent_state)) \<Rightarrow> pm_state \<Rightarrow> fault + pm_state" where
  "pm_launch f s = bindE (f (pm_uevent s)) (\<lambda>(_, u). Inr (s\<lparr>pm_uevent := u\<rparr>))"

definition set_factory_reset_mode :: "pm_state \<Rightarrow> pm_state" where
  "set_factory_reset_mode = pm_shell ''am broadcast -a android.intent.action.MASTER_CLEAR &''"

section \<open>Wakeup sources\<close>

definition ws_func_print :: "string \<Rightarrow> wakeup_source \<Rightarrow> pm_state \<Rightarrow> wakeup_source \<times> pm_state" where
  "ws_func_print info ws s =
     (if ws_active ws then (ws, (pm_do [PrintSource info (list_count s) (ws_name ws)] s)\<lparr>list_count := list_count s + 1\<rparr>) else (ws, s))"

definition ws_func_print_unlock :: "string \<Rightarrow> wakeup_source \<Rightarrow> pm_state \<Rightarrow> wakeup_source \<times> pm_state" where
  "ws_func_print_unlock info ws s =
     (if ws_active ws
      then (ws\<lparr>ws_active := False\<rparr>, (pm_do [PrintSource info (list_count s) (ws_name ws)] s)\<lparr>list_count := list_count s + 1\<rparr>)
      else (ws, s))"

definition ws_func_save_log_msg :: "string \<Rightarrow> wakeup_source \<Rightarrow> pm_state \<Rightarrow> wakeup_source \<times> pm_state" where
  "ws_func_save_log_msg info ws s =
     (if ws_active ws then (ws, (pm_do [SaveSource (list_count s) (ws_name ws)] s)\<lparr>list_count := list_count s + 1\<rparr>) else (ws, s))"

text \<open>The table has no entry for the other types; calling one of them calls a null pointer.\<close>

definition wl_list_action_func :: "ws_list_action_types \<Rightarrow> (string \<Rightarrow> wakeup_source \<Rightarrow> pm_state \<Rightarrow> wakeup_source \<times> pm_state) option" where
  "wl_list_action_func typ =
     (case typ of
        PM_ACTION_PRINT \<Rightarrow> Some ws_func_print
      | PM_ACTION_PRINT_FORCE_UNLOCK \<Rightarrow> Some ws_func_print_unlock
      | PM_ACTION_SAVE_LOCK_MSG \<Rightarrow> Some ws_func_save_log_msg
      | _ \<Rightarrow> None)"

fun deal_sources :: "(wakeup_source \<Rightarrow> pm_state \<Rightarrow> wakeup_source \<times> pm_state) \<Rightarrow> wakeup_source list \<Rightarrow> pm_state \<Rightarrow> wakeup_source list \<times> pm_state" where
  "deal_sources f [] s = ([], s)"
| "deal_sources f (ws # l) s = (let (ws', s1) = f ws s; (l', s2) = deal_sources f l s1 in (ws' # l', s2))"

definition deal_kernel_wakelock :: "string \<Rightarrow> ws_list_action_types \<Rightarrow> pm_state \<Rightarrow> fault + pm_state" where
  "deal_kernel_wakelock info typ s =
     (let s1 = s\<lparr>list_count := 0\<rparr> in
      case ws_lh s1 of
        None \<Rightarrow> Inr s1
      | Some l \<Rightarrow>
          if typ = PM_ACTION_NULL then Inr s1
          else case wl_list_action_func typ of
            None \<Rightarrow> if l = [] then Inr s1 else Inl NullDeref
          | Some f \<Rightarrow> let (l', s2) = deal_sources (f info) l s1 in Inr (s2\<lparr>ws_lh := Some l'\<rparr>))"

definition deal_userspace_wakelock :: "int \<Rightarrow> pm_state \<Rightarrow> pm_state" where
  "deal_userspace_wakelock kill s = s\<lparr>pm_wakelock := lidbg_show_wakelock kill (pm_wakelock s)\<rparr>"

definition PM_action_entry :: "string \<Rightarrow> ws_list_action_types \<Rightarrow> pm_state \<Rightarrow> fault + pm_state" where
  "PM_action_entry info typ s =
     (case typ of
        PM_ACTION_PRINT \<Rightarrow> deal_kernel_wakelock info PM_ACTION_PRINT (deal_userspace_wakelock 0 s)
      | PM_ACTION_PRINT_FORCE_UNLOCK \<Rightarrow> deal_kernel_wakelock info PM_ACTION_PRINT_FORCE_UNLOCK (deal_userspace_wakelock 1 s)
      | PM_ACTION_PRINT_KILL_HASLOCK_APK \<Rightarrow> deal_kernel_wakelock info PM_ACTION_PRINT (deal_userspace_wakelock 1 s)
      | PM_ACTION_PRINT_KILL_ALL_APK \<Rightarrow>
          deal_kernel_wakelock info PM_ACTION_PRINT (pm_do [PmThread ''thread_am_kill_apk''] (deal_userspace_wakelock 1 s))
      | PM_ACTION_SAVE_LOCK_MSG \<Rightarrow>
          deal_kernel_wakelock info PM_ACTION_SAVE_LOCK_MSG
            (deal_userspace_wakelock 2 (pm_do [ClearFile ''/data/lidbg_osd/can_t_sleep.txt''] s))
      | PM_ACTION_NULL \<Rightarrow> Inr s)"

text \<open>The text behind the first colon of each line of the list of installed packages.\<close>

definition behind_colon :: "string \<Rightarrow> string option" where
  "behind_colon k = (if CHR '':'' \<in> set k then Some (tl (dropWhile (\<lambda>c. c \<noteq> CHR '':'') k)) else None)"

fun kill_each :: "string option list \<Rightarrow> pm_state \<Rightarrow> fault + pm_state" where
  "kill_each [] s = Inr s"
| "kill_each (k # l) s =
     (case Option.bind k behind_colon of
        None \<Rightarrow> kill_each l s
      | Some p \<Rightarrow> bindE (pm_launch (lidbg_force_stop_apk p) s) (kill_each l))"

definition pm_list_kill_each :: "pm_state \<Rightarrow> fault + pm_state" where
  "pm_list_kill_each s = kill_each (pm_list_3 s) s"

section \<open>The observer\<close>

definition observer_start :: "pm_state \<Rightarrow> pm_state" where
  "observer_start s = s\<lparr>is_in_sleep := 1, sleep_observer_wait := sleep_observer_wait s + 1\<rparr>"

definition observer_stop :: "pm_state \<Rightarrow> pm_state" where
  "observer_stop s = s\<lparr>is_in_sleep := 0\<rparr>"

definition observer_prepare :: "pm_state \<Rightarrow> fault + pm_state" where
  "observer_prepare s =
     bindE (pm_launch (lidbg_chmod ''/sys/module/msm_show_resume_irq/parameters/debug_mask'') s) (\<lambda>s1.
     bindE (pm_launch (lidbg_chmod ''/dev/lidbg*'') (pm_do [WriteFile ''/sys/module/msm_show_resume_irq/parameters/debug_mask'' ''1''] s1)) (\<lambda>s2.
     Inr (pm_do [RegisterFile ''/data/lidbg/interrupts.txt''] (pm_shell ''cat /proc/interrupts > /data/lidbg/interrupts.txt &'' s2))))"

text \<open>
  The loop of the observer: \<open>tests\<close> are the results of the test \<open>is_in_sleep == 1\<close>, one for each second, \<open>n\<close> the count of seconds.
  The first component of the result says whether the loop has ended.
\<close>

fun observer_loop :: "nat \<Rightarrow> bool list \<Rightarrow> pm_state \<Rightarrow> fault + (bool \<times> pm_state)" where
  "observer_loop n [] s = Inr (False, s)"
| "observer_loop n (test # tests) s =
     (if test then
        bindE (if Suc n \<noteq> 5 \<and> Suc n > 5 \<and> Suc n mod 5 = 0 then PM_action_entry (''start'' @ show_nat (Suc n) @ '':'') PM_ACTION_PRINT s else Inr s)
          (observer_loop (Suc n) tests)
      else bindE (PM_action_entry ''stop:'' PM_ACTION_PRINT s) (\<lambda>s'. Inr (True, s')))"

text \<open>A round of \<open>thread_observer\<close>, \<open>None\<close> while it waits.\<close>

definition observer_round :: "bool list \<Rightarrow> pm_state \<Rightarrow> (fault + (bool \<times> pm_state)) option" where
  "observer_round tests s =
     (if sleep_observer_wait s = 0 then None
      else Some (bindE (PM_action_entry ''start:'' PM_ACTION_PRINT (s\<lparr>sleep_observer_wait := sleep_observer_wait s - 1\<rparr>)) (observer_loop 0 tests)))"

definition kernel_msg_round :: "pm_state \<Rightarrow> pm_state option" where
  "kernel_msg_round s =
     (if thread_kernel_msg_completion s = 0 then None
      else Some (observer_start (pm_shell ''am broadcast -a com.flyaudio.ap.broadcast --es powerkey longpress &''
                   (s\<lparr>thread_kernel_msg_completion := thread_kernel_msg_completion s - 1\<rparr>))))"

section \<open>Steps of the suspend\<close>

definition lidbg_pm_step_call :: "fly_pm_stat_step \<Rightarrow> pm_state \<Rightarrow> fault + pm_state" where
  "lidbg_pm_step_call step s =
     (case step of
        PM_AUTOSLEEP_STORE1 buff \<Rightarrow> Inr (if buff = ''mem'' then observer_start s else if buff = ''off'' then observer_stop s else s)
      | PM_SUSPEND_ENTER8 \<Rightarrow> Inr (pm_do [WriteFile BUTTON_LED_NODE ''0''] s)
      | PM_SUSPEMD_OPS_ENTER9P1 \<Rightarrow> Inr (pm_do [WriteFile BUTTON_LED_NODE ''255''] s)
      | PM_NULL \<Rightarrow> PM_action_entry ''test'' PM_ACTION_PRINT_FORCE_UNLOCK s
      | OtherStep \<Rightarrow> Inr s)"

definition pm_resume :: "pm_state \<Rightarrow> pm_state" where
  "pm_resume = pm_do [PmThread ''thread_remove_wakeup_page'']"

text \<open>Four times the key, and once for each value of the counter from 23 down to 2.\<close>

definition thread_remove_wakeup_page :: "pm_state \<Rightarrow> pm_state" where
  "thread_remove_wakeup_page =
     pm_do (replicate (4 + (23 - 1)) (PmKey KEY_BACK KEY_PRESSED_RELEASED) @ [PmOutput GPIO_APP_STATUS 1])"

definition led_monitor_round :: "pm_state \<Rightarrow> pm_state" where
  "led_monitor_round = pm_do [WriteFile BUTTON_LED_NODE ''0'', WriteFile BUTTON_LED_NODE ''255'']"

text \<open>\<open>pkgs\<close> is the list that \<open>fs_fill_list\<close> reads.\<close>

definition thread_pm_late_probe :: "string option list \<Rightarrow> pm_state \<Rightarrow> fault + pm_state" where
  "thread_pm_late_probe pkgs s =
     (let s1 = pm_do [RegisterFile ''/data/lidbg/pm_3.txt'']
                 ((pm_shell ''pm list packages -3 > /data/lidbg/pm_3.txt'' s)\<lparr>pm_list_3 := pkgs\<rparr>) in
      bindE (pm_launch (lidbg_chmod ''/dev/lidbg*'') s1) (pm_launch (lidbg_rm ''/data/lidbg/lidbg_kmsg.txt'')))"

definition lidbg_pm_init :: "pm_state \<Rightarrow> pm_state" where
  "lidbg_pm_init s = pm_do [PmOutput GPIO_WP 0] (pm_shell ''echo 7 7 7 7  > /proc/sys/kernel/printk'' s)"

definition lidbg_pm_probe :: "bool \<Rightarrow> pm_state \<Rightarrow> fault + pm_state" where
  "lidbg_pm_probe is_fly s =
     bindE (let s1 = pm_do [PmThread ''thread_kernel_msg_completion_func''] s in
            if is_fly then Inr s1 else pm_launch (lidbg_chmod ''/sys/power/*'') (pm_do [PmThread ''thread_led_monitor''] s1)) (\<lambda>s2.
     Inr (pm_do [PmThread ''thread_observer'', PmThread ''thread_pm_late_probe''] s2))"

section \<open>Commands\<close>

text \<open>
  What is parsed: \<open>cmd_buf[512]\<close> receives the bytes of the caller, its last byte is replaced when it is a newline.
  A write of nothing looks at the byte before the buffer.
\<close>

definition pm_data :: "string \<Rightarrow> fault + string" where
  "pm_data buf =
     (if length buf > 512 \<or> buf = [] then Inl BufOverrun
      else let b = (if last buf = CHR 0x0A then butlast buf @ [CHR 0x00] else buf) in
        if length b = 512 \<and> CHR 0x00 \<notin> set b then Inl BufOverrun else Inr (c_string b))"

text \<open>The words of a command behind the first; behind the last word there are null pointers.\<close>

definition word_at :: "string list \<Rightarrow> nat \<Rightarrow> string option" where
  "word_at cmd i = (if i < length cmd then Some (cmd ! i) else None)"

definition need :: "string option \<Rightarrow> fault + string" where
  "need a = (case a of None \<Rightarrow> Inl NullDeref | Some v \<Rightarrow> Inr v)"

definition pm_kernel :: "string \<Rightarrow> pm_state \<Rightarrow> pm_state" where
  "pm_kernel a s =
     (if a = ''short_press'' then pm_do [PmKey KEY_POWER KEY_PRESSED_RELEASED] s
      else if a = ''long_press_c'' then s\<lparr>thread_kernel_msg_completion := thread_kernel_msg_completion s + 1\<rparr>
      else if a = ''long_press'' then pm_do [PmKey KEY_POWER KEY_PRESSED, PmKey KEY_POWER KEY_RELEASED] s
      else s)"

definition pm_flyaudio :: "string \<Rightarrow> pm_state \<Rightarrow> pm_state" where
  "pm_flyaudio a s =
     (if a = ''android_up'' then pm_do [PmOutput GPIO_APP_STATUS 0] s
      else if a = ''android_down'' then pm_do [PmOutput GPIO_APP_STATUS 1] s
      else s)"

text \<open>The enumeration has six values, and a number outside of them is none of the cases.\<close>

definition action_of :: "u32 \<Rightarrow> ws_list_action_types" where
  "action_of n =
     (if n = 0 then PM_ACTION_PRINT else if n = 1 then PM_ACTION_PRINT_FORCE_UNLOCK else if n = 2 then PM_ACTION_PRINT_KILL_HASLOCK_APK
      else if n = 3 then PM_ACTION_PRINT_KILL_ALL_APK else if n = 4 then PM_ACTION_SAVE_LOCK_MSG else PM_ACTION_NULL)"

text \<open>
  \<open>dir\<close> is what \<open>lidbg_readdir_and_dealfile\<close> finds in a directory, see \<open>lidbg_pm_install_dir\<close>; the result \<open>None\<close>
  is its endless loop.
\<close>

definition pm_ws :: "(string list \<times> int) option \<Rightarrow> string list \<Rightarrow> string \<Rightarrow> pm_state \<Rightarrow> fault + pm_state option" where
  "pm_ws dir cmd a s =
     (let w2 = word_at cmd 2; ret = (\<lambda>r. bindE r (\<lambda>s'. Inr (Some s'))) in
      if a = ''chmod'' then ret (pm_launch (lidbg_launch_user (get_bin_path ''chmod'') [Some ''777'', w2, None, None, None, None]) s)
      else if a = ''rm'' then ret (pm_launch (lidbg_launch_user (get_bin_path ''rm'') [w2, None, None, None, None, None]) s)
      else if a = ''list'' then ret (bindE (need w2) (\<lambda>v. PM_action_entry ''app'' (action_of (simple_strtoul v)) s))
      else if a = ''pm'' then ret (bindE (need w2) (\<lambda>v. Inr (if simple_strtoul v \<noteq> 0 then observer_start s else observer_stop s)))
      else if a = ''fac'' then Inr (Some (set_factory_reset_mode s))
      else if a = ''reb'' then ret (pm_launch lidbg_reboot s)
      else if a = ''apk'' then
        bindE (need w2) (\<lambda>v. bindE (lidbg_pm_install_dir dir v (pm_uevent s)) (\<lambda>r.
          Inr (map_option (\<lambda>(_, u). s\<lparr>pm_uevent := u\<rparr>) r)))
      else if a = ''kill3'' then Inr (Some (pm_do [PmThread ''thread_am_kill_apk''] s))
      else if a = ''kill'' then
        ret (pm_launch (lidbg_launch_user (get_bin_path ''am'') [Some ''force-stop'', w2, Some ''&'', None, None, None]) s)
      else if a = ''toast'' then
        ret (bindE (need (word_at cmd 3)) (\<lambda>v. pm_launch (lidbg_toast_show w2 (sint (simple_strtoul v))) s))
      else if a = ''dbgt'' then Inr (Some (s\<lparr>is_pm_toast_dbg_en := \<not> is_pm_toast_dbg_en s\<rparr>))
      else Inr (Some s))"

definition pm_write :: "(string list \<times> int) option \<Rightarrow> string \<Rightarrow> pm_state \<Rightarrow> fault + (nat \<times> pm_state) option" where
  "pm_write dir buf s =
     bindE (pm_data buf) (\<lambda>cmd_buf.
     bindE (lidbg_token_string 8 (Some cmd_buf) (Some '' '')) (\<lambda>(cmd_num, cmd).
       let c0 = cmd ! 0; fin = map_option (Pair (length buf)) in
       if c0 = ''kernel'' then bindE (need (word_at cmd 1)) (\<lambda>a. Inr (fin (Some (pm_kernel a s))))
       else if c0 = ''flyaudio'' then
         bindE (if is_pm_toast_dbg_en s then pm_launch (lidbg_toast_show (word_at cmd 1) (-1)) s else Inr s) (\<lambda>s1.
         bindE (need (word_at cmd 1)) (\<lambda>a. Inr (fin (Some (pm_flyaudio a s1)))))
       else if c0 = ''ws'' then bindE (need (word_at cmd 1)) (\<lambda>a. bindE (pm_ws dir cmd a s) (\<lambda>r. Inr (fin r)))
       else Inr (fin (Some s))))"

section \<open>What is printed\<close>

definition active_names :: "wakeup_source list \<Rightarrow> string list" where
  "active_names l = map ws_name (filter ws_active l)"

definition source_lines :: "string \<Rightarrow> nat \<Rightarrow> string list \<Rightarrow> pm_act list" where
  "source_lines info n names = map2 (PrintSource info) [n..<n + length names] names"

lemma source_lines_simps [simp]:
  "source_lines info n [] = []"
  "source_lines info n (nm # l) = PrintSource info n nm # source_lines info (Suc n) l"
  by (simp_all add: source_lines_def upt_rec)

lemma active_names_simps [simp]:
  "active_names [] = []"
  "active_names (w # l) = (if ws_active w then ws_name w # active_names l else active_names l)"
  by (simp_all add: active_names_def)

lemma deal_sources_print:
  "deal_sources (ws_func_print info) l s =
     (l, s\<lparr>list_count := list_count s + length (active_names l),
          pm_acts := pm_acts s @ source_lines info (list_count s) (active_names l)\<rparr>)"
  by (induction l arbitrary: s) (simp_all add: ws_func_print_def pm_do_def)

lemma deal_sources_unlock:
  "deal_sources (ws_func_print_unlock info) l s =
     (map (ws_active_update (\<lambda>_. False)) l,
      s\<lparr>list_count := list_count s + length (active_names l),
        pm_acts := pm_acts s @ source_lines info (list_count s) (active_names l)\<rparr>)"
  by (induction l arbitrary: s) (simp_all add: ws_func_print_unlock_def pm_do_def)

lemma print_entry:
  "ws_lh s = Some l \<Longrightarrow>
   PM_action_entry info PM_ACTION_PRINT s =
     Inr (s\<lparr>list_count := length (active_names l), pm_wakelock := lidbg_show_wakelock 0 (pm_wakelock s),
           pm_acts := pm_acts s @ source_lines info 0 (active_names l)\<rparr>)"
  by (cases s) (simp add: PM_action_entry_def deal_kernel_wakelock_def deal_userspace_wakelock_def wl_list_action_func_def
    deal_sources_print)

lemma unlock_entry:
  "ws_lh s = Some l \<Longrightarrow>
   PM_action_entry info PM_ACTION_PRINT_FORCE_UNLOCK s =
     Inr (s\<lparr>list_count := length (active_names l), pm_wakelock := lidbg_show_wakelock 1 (pm_wakelock s),
           ws_lh := Some (map (ws_active_update (\<lambda>_. False)) l),
           pm_acts := pm_acts s @ source_lines info 0 (active_names l)\<rparr>)"
  by (cases s) (simp add: PM_action_entry_def deal_kernel_wakelock_def deal_userspace_wakelock_def wl_list_action_func_def
    deal_sources_unlock)

lemma list_command:
  "pm_write dir ''ws list 1'' s =
     bindE (PM_action_entry ''app'' PM_ACTION_PRINT_FORCE_UNLOCK s) (\<lambda>s'. Inr (Some (9, s')))"
proof -
  have d: "pm_data ''ws list 1'' = Inr ''ws list 1''" by code_simp
  have t: "lidbg_token_string 8 (Some ''ws list 1'') (Some '' '') = Inr (3, [''ws'', ''list'', ''1''])"
    by (simp add: lidbg_token_string_def strsep_all_Cons)
  have n: "action_of (simple_strtoul ''1'') = PM_ACTION_PRINT_FORCE_UNLOCK" by code_simp
  show ?thesis
    by (cases "PM_action_entry ''app'' PM_ACTION_PRINT_FORCE_UNLOCK s")
      (simp_all add: pm_write_def d t word_at_def need_def pm_ws_def n)
qed

text \<open>
  Writing \<open>ws list 1\<close> to the node forces the system to sleep: every wakeup source of the kernel is
  released, no other property of a source changes, and exactly the sources that were active are printed, in the order of
  the list and numbered from zero.
\<close>

theorem pm_force_unlock:
  assumes "ws_lh s = Some l"
  shows "\<exists>s'. pm_write dir ''ws list 1'' s = Inr (Some (9, s')) \<and>
    (\<exists>l'. ws_lh s' = Some l' \<and> map ws_name l' = map ws_name l \<and> active_names l' = []) \<and>
    list_count s' = length (active_names l) \<and>
    pm_acts s' = pm_acts s @ source_lines ''app'' 0 (active_names l)"
  using assms by (simp add: list_command unlock_entry comp_def) (simp add: active_names_def)

definition pm_start :: "wakeup_source list option \<Rightarrow> pm_state" where
  "pm_start l = \<lparr>is_in_sleep = 0, list_count = 0, is_pm_toast_dbg_en = False, sleep_observer_wait = 0,
     thread_kernel_msg_completion = 0, pm_list_3 = [], ws_lh = l, pm_wakelock = wakelock_start [], 
     pm_uevent = \<lparr>uevent_list = [], uevent_dbg = False, uevents_sent = [], callbacks_run = []\<rparr>,
     pm_acts = []\<rparr>"

definition demo_sources :: "wakeup_source list" where
  "demo_sources = [\<lparr>ws_name = ''alarm'', ws_active = True\<rparr>, \<lparr>ws_name = ''usb'', ws_active = False\<rparr>, \<lparr>ws_name = ''wlan'', ws_active = True\<rparr>]"

theorem pm_force_unlock_witness:
  "\<exists>s'. pm_write None ''ws list 1'' (pm_start (Some demo_sources)) = Inr (Some (9, s')) \<and>
    pm_acts s' = [PrintSource ''app'' 0 ''alarm'', PrintSource ''app'' 1 ''wlan'']"
  using pm_force_unlock [of "pm_start (Some demo_sources)" demo_sources None]
  by (auto simp: pm_start_def demo_sources_def)

section \<open>The observer reports\<close>

definition report_labels :: "nat \<Rightarrow> nat \<Rightarrow> string list" where
  "report_labels m n = map (\<lambda>k. ''start'' @ show_nat k @ '':'') (filter (\<lambda>k. 5 < k \<and> 5 dvd k) [Suc m..<Suc n])"

lemma report_labels_step:
  "m < n \<Longrightarrow> report_labels m n =
     (if 5 < Suc m \<and> 5 dvd Suc m then [''start'' @ show_nat (Suc m) @ '':''] else []) @ report_labels (Suc m) n"
  by (simp add: report_labels_def upt_conv_Cons del: upt_Suc)

lemma observer_loop_reports:
  assumes "ws_lh s = Some l"
  shows "\<exists>s'. observer_loop m (replicate n True @ [False]) s = Inr (True, s') \<and> ws_lh s' = Some l \<and>
    sleep_observer_wait s' = sleep_observer_wait s \<and>
    pm_acts s' = pm_acts s @ concat (map (\<lambda>lab. source_lines lab 0 (active_names l)) (report_labels m (m + n) @ [''stop:'']))"
  using assms
proof (induction n arbitrary: m s)
  case 0
  then show ?case by (simp add: print_entry report_labels_def)
next
  case (Suc n)
  define due where "due \<longleftrightarrow> 5 < Suc m \<and> 5 dvd Suc m"
  have c: "(Suc m \<noteq> 5 \<and> 5 < Suc m \<and> Suc m mod 5 = 0) = due" by (auto simp: due_def dvd_eq_mod_eq_0)
  define t where "t = (if due then s\<lparr>list_count := length (active_names l), pm_wakelock := lidbg_show_wakelock 0 (pm_wakelock s),
    pm_acts := pm_acts s @ source_lines (''start'' @ show_nat (Suc m) @ '':'') 0 (active_names l)\<rparr> else s)"
  have t: "ws_lh t = Some l" "sleep_observer_wait t = sleep_observer_wait s"
    "pm_acts t = pm_acts s @ (if due then source_lines (''start'' @ show_nat (Suc m) @ '':'') 0 (active_names l) else [])"
    using Suc.prems by (simp_all add: t_def)
  have "observer_loop m (replicate (Suc n) True @ [False]) s = observer_loop (Suc m) (replicate n True @ [False]) t"
    unfolding replicate_Suc append_Cons observer_loop.simps c using Suc.prems by (simp add: t_def print_entry)
  moreover have "report_labels m (m + Suc n) =
    (if due then [''start'' @ show_nat (Suc m) @ '':''] else []) @ report_labels (Suc m) (Suc m + n)"
    using report_labels_step [of m "m + Suc n"] by (simp add: due_def)
  ultimately show ?case using Suc.IH [OF t(1), of "Suc m"] t by auto
qed

text \<open>
  When the kernel reports that the system is to go to sleep, the observer is woken, and once the
  sleep is called off after \<open>n\<close> seconds it has finished its round: it has reported the active wakeup sources
  at the start, at each fifth second from the tenth on, and at the stop.
\<close>

theorem observer_reports:
  assumes "lidbg_pm_step_call (PM_AUTOSLEEP_STORE1 ''mem'') s = Inr s1" and "ws_lh s = Some l"
  shows "\<exists>s'. observer_round (replicate n True @ [False]) s1 = Some (Inr (True, s')) \<and>
    sleep_observer_wait s' = sleep_observer_wait s \<and>
    pm_acts s' = pm_acts s @ concat (map (\<lambda>lab. source_lines lab 0 (active_names l)) ([''start:''] @ report_labels 0 n @ [''stop:'']))"
proof -
  define s2 where "s2 = s\<lparr>is_in_sleep := 1, list_count := length (active_names l),
    pm_wakelock := lidbg_show_wakelock 0 (pm_wakelock s),
    pm_acts := pm_acts s @ source_lines ''start:'' 0 (active_names l)\<rparr>"
  have s1: "s1 = observer_start s" using assms(1) by (simp add: lidbg_pm_step_call_def)
  have "observer_round (replicate n True @ [False]) s1 = Some (observer_loop 0 (replicate n True @ [False]) s2)"
    using assms(2) by (cases s) (simp add: s1 observer_round_def observer_start_def print_entry s2_def)
  moreover have "ws_lh s2 = Some l" "sleep_observer_wait s2 = sleep_observer_wait s"
    "pm_acts s2 = pm_acts s @ source_lines ''start:'' 0 (active_names l)"
    using assms(2) by (simp_all add: s2_def)
  ultimately show ?thesis using observer_loop_reports [of s2 l 0 n] by auto
qed

theorem observer_reports_witness:
  "\<exists>s'. observer_round (replicate 12 True @ [False]) (observer_start (pm_start (Some demo_sources))) = Some (Inr (True, s')) \<and>
    pm_acts s' =
      [PrintSource ''start:'' 0 ''alarm'', PrintSource ''start:'' 1 ''wlan'',
       PrintSource ''start10:'' 0 ''alarm'', PrintSource ''start10:'' 1 ''wlan'',
       PrintSource ''stop:'' 0 ''alarm'', PrintSource ''stop:'' 1 ''wlan'']"
proof -
  have "report_labels 0 12 = [''start10:'']" by code_simp
  moreover have "active_names demo_sources = [''alarm'', ''wlan'']" by (simp add: demo_sources_def)
  moreover have "lidbg_pm_step_call (PM_AUTOSLEEP_STORE1 ''mem'') (pm_start (Some demo_sources)) =
    Inr (observer_start (pm_start (Some demo_sources)))" by (simp add: lidbg_pm_step_call_def)
  ultimately show ?thesis
    using observer_reports [of "pm_start (Some demo_sources)" "observer_start (pm_start (Some demo_sources))" demo_sources 12]
    by (auto simp: pm_start_def)
qed

end
