(* ===== verification/Loader.thy ===== *)
theory Loader
  imports Cmn
begin

text \<open>
  The module loader, \<^verbatim>\<open>core/lidbg_loader.c\<close>, and the second loader that one of the loaded modules starts,
  \<^verbatim>\<open>drivers/interface/lidbg_interface.c\<close>, on the board with the chip 8226.

  A module is not inserted by the loader itself: the loader sends a shell command through the channel of theory \<open>Cmn\<close>,
  and a program in user space runs it some time later.  A module that calls \<open>LIDBG_MODULE_LOG\<close> in its initialisation
  increases the counter of the loader, some of them from a thread of their own, so later still.  The loader thus is a
  state machine: \<open>loader_step\<close> interleaves the two loader threads, the program in user space and the initialisations of
  the modules in every order.  \<open>present\<close> tells which files exist; the kernel refuses a module that is already loaded.
\<close>

definition insmod_soc_list :: "string list" where
  "insmod_soc_list = [''lidbg_ad_msm8x26.ko'', ''lidbg_soc_msm8x26.ko'']"

definition insmod_list :: "string list" where
  "insmod_list =
     [''lidbg_mem_log.ko'', ''lidbg_common.ko'', ''lidbg_fileserver.ko'', ''lidbg_trace_msg.ko'', ''lidbg_wakelock_stat.ko'',
      ''lidbg_msg.ko'', ''lidbg_servicer.ko'', ''lidbg_touch.ko'', ''lidbg_key.ko'', ''lidbg_i2c.ko'', ''lidbg_io.ko'',
      ''lidbg_uart.ko'', ''lidbg_main.ko'', ''lidbg_misc.ko'', ''lidbg_interface.ko'']"

definition insmod_path :: "string list" where
  "insmod_path = [''/sdcard/out/'', ''/system/lib/modules/out/'', ''/flysystem/lib/out/'']"

text \<open>The lists of the second loader.\<close>

definition interface_insmod_list :: "string list" where
  "interface_insmod_list =
     [''lidbg_pm_8226.ko'', ''lidbg_lpc.ko'', ''lidbg_devices.ko'', ''lidbg_bpmsg.ko'', ''lidbg_gps.ko'', ''lidbg_ts_probe_new.ko'',
      ''lidbg_monkey.ko'', ''lidbg_drivers_dbg.ko'', ''dsi83.ko'']"

definition interface_insmod_path :: "string list" where
  "interface_insmod_path = [''/system/lib/modules/out/'', ''/flysystem/lib/out/'']"

text \<open>The modules whose initialisation contains \<open>LIDBG_MODULE_LOG\<close>.\<close>

definition counts :: "string \<Rightarrow> bool" where
  "counts m \<longleftrightarrow> m \<in> set (butlast insmod_list) \<or> m = ''lidbg_pm_8226.ko''"

definition has_loader :: "(string \<Rightarrow> bool) \<Rightarrow> string \<Rightarrow> bool" where
  "has_loader present dir \<longleftrightarrow> present (dir @ ''lidbg_loader.ko'')"

text \<open>
  What \<open>thread_loader\<close> requests, in order: for each directory with a loader the modules of the chip, which are not waited
  for, and the modules of the list.
\<close>

definition loader_plan :: "(string \<Rightarrow> bool) \<Rightarrow> (bool \<times> string \<times> string) list" where
  "loader_plan present =
     concat (map (\<lambda>dir. map (\<lambda>m. (False, dir, m)) insmod_soc_list @ map (\<lambda>m. (True, dir, m)) insmod_list)
       (filter (has_loader present) insmod_path))"

definition interface_plan :: "(string \<Rightarrow> bool) \<Rightarrow> (string \<times> string) list" where
  "interface_plan present =
     concat (map (\<lambda>dir. map (Pair dir) interface_insmod_list) (filter (has_loader present) interface_insmod_path))"

text \<open>
  \<open>ld_plan\<close> and \<open>if_plan\<close> are what the two threads still have to request, \<open>ld_waiting\<close> tells that \<open>thread_loader\<close> is in its
  waiting loop, \<open>requested\<close> are the commands not run yet, \<open>initing\<close> the loaded modules that will still count.
\<close>

record loader_state =
  load_modules_count :: nat
  ld_plan :: "(bool \<times> string \<times> string) list"
  ld_tmp :: nat
  ld_waiting :: bool
  ld_check_restart :: bool
  ld_restarted :: bool
  if_plan :: "(string \<times> string) list"
  requested :: "(string \<times> string) list"
  loaded :: "string list"
  initing :: "string list"
  ld_uevent :: uevent_state

definition loader_init :: "(string \<Rightarrow> bool) \<Rightarrow> uevent_state \<Rightarrow> loader_state" where
  "loader_init present u =
     \<lparr>load_modules_count = 0, ld_plan = loader_plan present, ld_tmp = 0, ld_waiting = False, ld_check_restart = True,
      ld_restarted = False, if_plan = [], requested = [], loaded = [], initing = [], ld_uevent = u\<rparr>"

text \<open>The command fits its buffer of 256 bytes, since the names are those of the lists above.\<close>

definition lidbg_insmod :: "string \<times> string \<Rightarrow> loader_state \<Rightarrow> loader_state" where
  "lidbg_insmod p s =
     s\<lparr>requested := requested s @ [p], ld_uevent := uevent_shell (''insmod '' @ fst p @ snd p) (ld_uevent s)\<rparr>"

text \<open>The program in user space runs a command; the module \<open>lidbg_interface.ko\<close> starts the second loader.\<close>

definition insmod_run :: "(string \<Rightarrow> bool) \<Rightarrow> string \<times> string \<Rightarrow> loader_state \<Rightarrow> loader_state" where
  "insmod_run present p s =
     (let s1 = s\<lparr>requested := remove1 p (requested s)\<rparr>; m = snd p in
      if present (fst p @ m) \<and> m \<notin> set (loaded s) then
        s1\<lparr>loaded := loaded s @ [m], initing := (if counts m then initing s @ [m] else initing s),
           if_plan := (if m = ''lidbg_interface.ko'' then interface_plan present else if_plan s)\<rparr>
      else s1)"

definition thread_check_restart :: "loader_state \<Rightarrow> loader_state" where
  "thread_check_restart s = s\<lparr>ld_check_restart := False, ld_restarted := (ld_restarted s \<or> load_modules_count s = 0)\<rparr>"

inductive loader_step :: "(string \<Rightarrow> bool) \<Rightarrow> loader_state \<Rightarrow> loader_state \<Rightarrow> bool" for present where
  request_soc: "\<not> ld_waiting s \<Longrightarrow> ld_plan s = (False, p) # r \<Longrightarrow>
    loader_step present s (lidbg_insmod p (s\<lparr>ld_plan := r\<rparr>))"
| request_module: "\<not> ld_waiting s \<Longrightarrow> ld_plan s = (True, p) # r \<Longrightarrow>
    loader_step present s (lidbg_insmod p (s\<lparr>ld_plan := r, ld_tmp := load_modules_count s, ld_waiting := True\<rparr>))"
| wait_over: "ld_waiting s \<Longrightarrow> ld_tmp s \<noteq> load_modules_count s \<Longrightarrow> loader_step present s (s\<lparr>ld_waiting := False\<rparr>)"
| request_interface: "if_plan s = p # r \<Longrightarrow> loader_step present s (lidbg_insmod p (s\<lparr>if_plan := r\<rparr>))"
| run: "p \<in> set (requested s) \<Longrightarrow> loader_step present s (insmod_run present p s)"
| module_log: "m \<in> set (initing s) \<Longrightarrow>
    loader_step present s (s\<lparr>initing := remove1 m (initing s), load_modules_count := load_modules_count s + 1\<rparr>)"
| check_restart: "ld_check_restart s \<Longrightarrow> loader_step present s (thread_check_restart s)"

definition loader_reach :: "(string \<Rightarrow> bool) \<Rightarrow> uevent_state \<Rightarrow> loader_state \<Rightarrow> bool" where
  "loader_reach present u s \<longleftrightarrow> (loader_step present)\<^sup>*\<^sup>* (loader_init present u) s"

section \<open>The order of loading\<close>

text \<open>A module is ready when it is loaded and has reported itself.\<close>

definition module_ready :: "loader_state \<Rightarrow> string \<Rightarrow> bool" where
  "module_ready s m \<longleftrightarrow> m \<in> set (loaded s) \<and> m \<notin> set (initing s)"

text \<open>How many modules of the list are requested.\<close>

definition asked :: "loader_state \<Rightarrow> nat" where
  "asked s = length insmod_list - length (filter fst (ld_plan s))"

lemma list_facts:
  "insmod_list \<noteq> []" "length insmod_list = 15" "m \<in> set insmod_soc_list \<Longrightarrow> \<not> counts m"
  "''lidbg_interface.ko'' \<notin> set insmod_soc_list" "j \<le> 14 \<Longrightarrow> ''lidbg_interface.ko'' \<notin> set (take j insmod_list)"
proof -
  show "insmod_list \<noteq> []" "length insmod_list = 15" by (simp_all add: insmod_list_def)
  show "m \<in> set insmod_soc_list \<Longrightarrow> \<not> counts m"
    by (auto simp: insmod_soc_list_def counts_def insmod_list_def)
  show "''lidbg_interface.ko'' \<notin> set insmod_soc_list" by (simp add: insmod_soc_list_def)
  have "''lidbg_interface.ko'' \<notin> set (take 14 insmod_list)" by (simp add: insmod_list_def)
  then show "j \<le> 14 \<Longrightarrow> ''lidbg_interface.ko'' \<notin> set (take j insmod_list)"
    using set_take_subset_set_take [of j 14 insmod_list] by blast
qed

definition all_ready :: "loader_state \<Rightarrow> bool" where
  "all_ready s \<longleftrightarrow> (\<forall>i < asked s. i < 14 \<longrightarrow> module_ready s (insmod_list ! i))"

definition loader_inv :: "string \<Rightarrow> loader_state \<Rightarrow> bool" where
  "loader_inv dir s \<longleftrightarrow>
     filter fst (ld_plan s) = map (\<lambda>m. (True, dir, m)) (drop (asked s) insmod_list) \<and> asked s \<le> 15 \<and>
     (\<forall>x \<in> set (ld_plan s). \<not> fst x \<longrightarrow> snd (snd x) \<in> set insmod_soc_list) \<and>
     (\<forall>i. i + 1 < asked s \<longrightarrow> module_ready s (insmod_list ! i)) \<and>
     (\<not> ld_waiting s \<or> ld_tmp s \<noteq> load_modules_count s \<longrightarrow> all_ready s) \<and>
     (ld_waiting s \<longrightarrow> ld_tmp s \<le> load_modules_count s) \<and>
     distinct (initing s) \<and> set (initing s) \<subseteq> set (loaded s) \<and>
     (asked s \<le> 14 \<longrightarrow> if_plan s = [] \<and> set (initing s) \<subseteq> set (take (asked s) insmod_list) \<and>
        snd ` set (requested s) \<subseteq> set insmod_soc_list \<union> set (take (asked s) insmod_list))"

lemma loader_inv_init:
  assumes "filter (has_loader present) insmod_path = [dir]"
  shows "loader_inv dir (loader_init present u)"
proof -
  have f: "filter fst (loader_plan present) = map (\<lambda>m. (True, dir, m)) insmod_list"
    by (simp add: loader_plan_def assms filter_map comp_def)
  then have "asked (loader_init present u) = 0" by (simp add: asked_def loader_init_def)
  moreover have "\<forall>x \<in> set (loader_plan present). \<not> fst x \<longrightarrow> snd (snd x) \<in> set insmod_soc_list"
    by (auto simp: loader_plan_def assms)
  ultimately show ?thesis using f by (simp add: loader_inv_def all_ready_def) (simp add: loader_init_def)
qed

lemma asked_insmod [simp]: "asked (lidbg_insmod p s) = asked s"
  by (simp add: asked_def lidbg_insmod_def)

lemma insmod_run_simps:
  "ld_plan (insmod_run present p s) = ld_plan s" "ld_waiting (insmod_run present p s) = ld_waiting s"
  "ld_tmp (insmod_run present p s) = ld_tmp s" "load_modules_count (insmod_run present p s) = load_modules_count s"
  "asked (insmod_run present p s) = asked s" "requested (insmod_run present p s) = remove1 p (requested s)"
  by (simp_all add: insmod_run_def Let_def asked_def)

lemma insmod_run_ready: "module_ready s m \<Longrightarrow> module_ready (insmod_run present p s) m"
  by (auto simp: module_ready_def insmod_run_def Let_def)

lemma insmod_run_initing:
  assumes "distinct (initing s)" "set (initing s) \<subseteq> set (loaded s)"
  shows "distinct (initing (insmod_run present p s)) \<and>
    set (initing (insmod_run present p s)) \<subseteq> set (loaded (insmod_run present p s))"
  using assms by (auto simp: insmod_run_def Let_def)

lemma insmod_run_inside:
  assumes "snd p \<in> set insmod_soc_list \<union> set (take j insmod_list)" "j \<le> 14" "if_plan s = []"
    and "set (initing s) \<subseteq> set (take j insmod_list)"
  shows "if_plan (insmod_run present p s) = [] \<and> set (initing (insmod_run present p s)) \<subseteq> set (take j insmod_list)"
  using assms list_facts(3,4) list_facts(5) [OF assms(2)] by (auto simp: insmod_run_def Let_def)

lemma loader_inv_step:
  assumes "loader_step present s s'" "loader_inv dir s"
  shows "loader_inv dir s'"
  using assms(1)
proof cases
  case (request_soc p r)
  have a: "asked (lidbg_insmod p (s\<lparr>ld_plan := r\<rparr>)) = asked s" using request_soc by (simp add: asked_def lidbg_insmod_def)
  show ?thesis using assms(2) unfolding request_soc loader_inv_def all_ready_def module_ready_def a
    by (auto simp: lidbg_insmod_def request_soc)
next
  case (request_module p r)
  let ?s = "lidbg_insmod p (s\<lparr>ld_plan := r, ld_tmp := load_modules_count s, ld_waiting := True\<rparr>)"
  note inv = assms(2) [unfolded loader_inv_def]
  from inv have f: "map (\<lambda>m. (True, dir, m)) (drop (asked s) insmod_list) = (True, p) # filter fst r"
    by (simp add: request_module)
  then have less: "asked s < 15" using list_facts(2) by (metis Nil_is_map_conv drop_all linorder_not_less list.distinct(1))
  have drop: "drop (asked s) insmod_list = insmod_list ! asked s # drop (Suc (asked s)) insmod_list"
    using less by (simp add: Cons_nth_drop_Suc list_facts)
  have a: "asked ?s = Suc (asked s)"
    using f [THEN arg_cong, where f = length] less by (simp add: asked_def lidbg_insmod_def list_facts request_module)
  have p: "p = (dir, insmod_list ! asked s)" "filter fst r = map (\<lambda>m. (True, dir, m)) (drop (Suc (asked s)) insmod_list)"
    using f by (simp_all add: drop)
  have "all_ready s" using inv request_module by simp
  then have b: "\<forall>i. i + 1 < asked ?s \<longrightarrow> module_ready ?s (insmod_list ! i)"
    using less unfolding a by (auto simp: all_ready_def module_ready_def lidbg_insmod_def)
  have "set (take (asked s) insmod_list) \<subseteq> set (take (Suc (asked s)) insmod_list)"
    "insmod_list ! asked s \<in> set (take (Suc (asked s)) insmod_list)"
    using less by (auto simp: take_Suc_conv_app_nth list_facts)
  then show ?thesis using inv b less unfolding request_module(1) loader_inv_def a
    by (auto simp: lidbg_insmod_def p request_module(3) simp del: map_eq_conv)
next
  case wait_over
  then show ?thesis using assms(2) by (simp add: loader_inv_def all_ready_def module_ready_def asked_def)
next
  case (request_interface p r)
  then show ?thesis using assms(2)
    by (auto simp: loader_inv_def all_ready_def module_ready_def asked_def lidbg_insmod_def)
next
  case (run p)
  note inv = assms(2) [unfolded loader_inv_def]
  have i: "if_plan s' = [] \<and> set (initing s') \<subseteq> set (take (asked s) insmod_list)" if "asked s \<le> 14"
    unfolding run using inv run(2) that by (intro insmod_run_inside) auto
  have "distinct (initing s') \<and> set (initing s') \<subseteq> set (loaded s')"
    unfolding run using inv by (intro insmod_run_initing) auto
  moreover have "snd ` set (remove1 p (requested s)) \<subseteq> set insmod_soc_list \<union> set (take (asked s) insmod_list)"
    if "asked s \<le> 14"
    by (rule subset_trans [OF image_mono [OF set_remove1_subset]]) (use inv that in simp)
  moreover have "all_ready s \<Longrightarrow> all_ready s'"
    unfolding run all_ready_def insmod_run_simps by (auto intro: insmod_run_ready)
  ultimately show ?thesis using inv i unfolding run loader_inv_def insmod_run_simps
    by (simp add: insmod_run_ready)
next
  case (module_log m)
  note inv = assms(2) [unfolded loader_inv_def]
  have r: "module_ready s' x \<longleftrightarrow> x \<in> set (loaded s) \<and> (x \<notin> set (initing s) \<or> x = m)" for x
    using inv by (simp add: module_log module_ready_def)
  have a: "asked s' = asked s" by (simp add: module_log asked_def)
  have "module_ready s' (insmod_list ! i)" if i: "i < asked s" "i < 14" for i
  proof (cases "i + 1 < asked s")
    case True
    then show ?thesis using inv r by (auto simp: module_ready_def)
  next
    case False
    then have k: "asked s = Suc i" using i by simp
    with i inv have "m \<in> set (take (Suc i) insmod_list)" using module_log(2) by auto
    then consider "m = insmod_list ! i" | "m \<in> set (take i insmod_list)"
      using i by (auto simp: take_Suc_conv_app_nth list_facts)
    then show ?thesis
    proof cases
      case 1
      then show ?thesis using r inv module_log(2) by auto
    next
      case 2
      then obtain h where "h < i" "m = insmod_list ! h" using i by (auto simp: in_set_conv_nth)
      then have "module_ready s m" using inv k by auto
      then show ?thesis using module_log(2) by (simp add: module_ready_def)
    qed
  qed
  then have "all_ready s'" by (simp add: all_ready_def a)
  moreover have "module_ready s' (insmod_list ! i)" if "i + 1 < asked s" for i
    using inv r that by (auto simp: module_ready_def)
  ultimately show ?thesis using inv set_remove1_subset [of m "initing s"]
    unfolding loader_inv_def a by (auto simp: module_log)
next
  case check_restart
  then show ?thesis using assms(2)
    by (simp add: loader_inv_def all_ready_def module_ready_def asked_def thread_check_restart_def)
qed

lemma loader_reach_inv:
  assumes "filter (has_loader present) insmod_path = [dir]" "loader_reach present u s"
  shows "loader_inv dir s"
  using assms(2) unfolding loader_reach_def
  by (induction rule: rtranclp_induct) (auto intro: loader_inv_init [OF assms(1)] loader_inv_step)

text \<open>
  (C15) When the modules are in one directory, they are loaded one after the other: however the loaders, the program in
  user space and the initialisations of the modules are interleaved, a module of the list has only been requested once
  every module before it is loaded and has reported itself.
\<close>

theorem loader_in_order:
  assumes "filter (has_loader present) insmod_path = [dir]" "loader_reach present u s"
    and "i < j" "j < length insmod_list" "(True, dir, insmod_list ! j) \<notin> set (ld_plan s)"
  shows "module_ready s (insmod_list ! i)"
proof -
  have inv: "loader_inv dir s" using loader_reach_inv [OF assms(1,2)] .
  have "j < asked s"
  proof (rule ccontr)
    assume "\<not> j < asked s"
    then have "insmod_list ! j \<in> set (drop (asked s) insmod_list)"
      using assms(4) nth_mem [of "j - asked s" "drop (asked s) insmod_list"] by (simp add: nth_drop)
    then have "(True, dir, insmod_list ! j) \<in> set (filter fst (ld_plan s))" using inv by (simp add: loader_inv_def)
    then show False using assms(5) by simp
  qed
  then show ?thesis using inv assms(3) by (auto simp: loader_inv_def)
qed

lemma loader_reach_step: "loader_reach present u s \<Longrightarrow> loader_step present s s' \<Longrightarrow> loader_reach present u s'"
  by (simp add: loader_reach_def)

definition example_files :: "string \<Rightarrow> bool" where
  "example_files f \<longleftrightarrow> f \<in> {''/flysystem/lib/out/lidbg_loader.ko'', ''/flysystem/lib/out/lidbg_mem_log.ko''}"

lemma example_reach:
  "\<exists>s. loader_reach example_files u s \<and> ld_plan s = drop 4 (loader_plan example_files) \<and> loaded s = [''lidbg_mem_log.ko'']"
proof -
  have plan: "loader_plan example_files = map (\<lambda>m. (False, ''/flysystem/lib/out/'', m)) insmod_soc_list @
      map (\<lambda>m. (True, ''/flysystem/lib/out/'', m)) insmod_list"
    by (simp add: loader_plan_def insmod_path_def has_loader_def example_files_def)
  let ?m = "(''/flysystem/lib/out/'', ''lidbg_mem_log.ko'')"
  have "loader_reach example_files u (loader_init example_files u)" by (simp add: loader_reach_def)
  note r = loader_reach_step [OF this request_soc]
  note r = loader_reach_step [OF r request_soc]
  note r = loader_reach_step [OF r request_module]
  note r = loader_reach_step [OF r run [of ?m]]
  note r = loader_reach_step [OF r module_log [of "''lidbg_mem_log.ko''"]]
  note r = loader_reach_step [OF r wait_over]
  note r = loader_reach_step [OF r request_module]
  show ?thesis
    by (rule exI, rule conjI, rule r)
      ((simp_all add: loader_init_def plan insmod_soc_list_def insmod_list_def lidbg_insmod_def insmod_run_def Let_def counts_def
        example_files_def)+)
qed

theorem loader_in_order_witness:
  "\<exists>s. loader_reach example_files \<lparr>uevent_list = [], uevent_dbg = False, uevents_sent = [], callbacks_run = []\<rparr> s \<and>
    module_ready s ''lidbg_mem_log.ko''"
proof -
  obtain s where s: "loader_reach example_files \<lparr>uevent_list = [], uevent_dbg = False, uevents_sent = [], callbacks_run = []\<rparr> s"
    "ld_plan s = drop 4 (loader_plan example_files)" using example_reach by blast
  have dirs: "filter (has_loader example_files) insmod_path = [''/flysystem/lib/out/'']"
    by (simp add: insmod_path_def has_loader_def example_files_def)
  have "(True, ''/flysystem/lib/out/'', insmod_list ! 1) \<notin> set (ld_plan s)"
    by (simp add: s loader_plan_def dirs insmod_soc_list_def insmod_list_def)
  from loader_in_order [OF dirs s(1) _ _ this, of 0] show ?thesis
    using s(1) by (auto simp: insmod_list_def)
qed

end
