(* ===== verification/Misc.thy ===== *)
theory Misc
  imports Fs Cmn
begin

text \<open>
  The misc module, \<^verbatim>\<open>core/lidbg_misc.c\<close>: what the passwords of theory \<open>Ts_Event\<close> and the keys of the configuration
  start: the update from a USB disk, a list of commands in one line, the network mode of the debugger, installation of applications,
  the delayed reboot.

  Files are those of theory \<open>Fs\<close>, shell commands go through the channel of theory \<open>Cmn\<close>; both are part of the state.
  \<open>misc_log\<close> collects the lines for \<open>fs_mem_log\<close>, with the check of its buffer of 256 bytes.  What is read from a
  directory, and the success of allocations and of a second attempt to open a file (\<open>retry\<close>), are arguments, as in those theories.
\<close>

record misc_state =
  misc_fs :: fsys
  misc_ue :: uevent_state
  misc_remountd :: bool
  delete_out_dir_after_update :: bool
  reboot_delay_s :: int
  loop_warning_en :: bool
  misc_threads :: nat
  misc_restarts :: nat
  misc_log :: "string list"

definition misc_launch :: "(uevent_state \<Rightarrow> fault + (int \<times> uevent_state)) \<Rightarrow> misc_state \<Rightarrow> fault + misc_state" where
  "misc_launch f s = bindE (f (misc_ue s)) (\<lambda>(_, u). Inr (s\<lparr>misc_ue := u\<rparr>))"

fun misc_launches :: "(uevent_state \<Rightarrow> fault + (int \<times> uevent_state)) list \<Rightarrow> misc_state \<Rightarrow> fault + misc_state" where
  "misc_launches [] s = Inr s"
| "misc_launches (f # fs) s = bindE (misc_launch f s) (misc_launches fs)"

definition misc_mem_log :: "string \<Rightarrow> misc_state \<Rightarrow> fault + misc_state" where
  "misc_mem_log msg s = (if length msg < 256 then Inr (s\<lparr>misc_log := misc_log s @ [msg]\<rparr>) else Inl BufOverrun)"

section \<open>Callbacks\<close>

definition set_wifi_adb_mode :: "bool \<Rightarrow> misc_state \<Rightarrow> fault + misc_state" where
  "set_wifi_adb_mode on =
     misc_launches [lidbg_setprop ''service.adb.tcp.port'' (if on then ''5555'' else ''-1''), lidbg_stop ''adbd'', lidbg_start ''adbd'']"

definition called_line :: "string \<Rightarrow> string" where
  "called_line func = ''<called:'' @ func @ ''>'' @ [CHR 0x0A]"

definition misc_password_chmod :: "misc_state \<Rightarrow> fault + misc_state" where
  "misc_password_chmod s =
     bindE (misc_mem_log (called_line ''cb_password_chmod'') s)
       (misc_launches [lidbg_chmod ''/system/bin/mount'', lidbg_mount ''/system'', lidbg_chmod ''/data''])"

definition misc_password_remove_apk :: "misc_state \<Rightarrow> fault + misc_state" where
  "misc_password_remove_apk s =
     bindE (misc_mem_log (called_line ''cb_password_remove_apk'') s) (\<lambda>s1. Inr (s1\<lparr>misc_fs := fs_remove_apk (misc_fs s1)\<rparr>))"

definition misc_password_clean_all :: "misc_state \<Rightarrow> fault + misc_state" where
  "misc_password_clean_all s =
     bindE (misc_mem_log (called_line ''cb_password_clean_all'') s) (\<lambda>s1. Inr (s1\<lparr>misc_fs := clean_all (misc_fs s1)\<rparr>))"

definition misc_password_gui :: "string \<Rightarrow> misc_state \<Rightarrow> fault + misc_state" where
  "misc_password_gui file =
     misc_launch (lidbg_exe ''/flysystem/lib/out/lidbg_gui'' (Some file) (Some ''1'') None None None None)"

definition callback_copy_file :: "bool \<Rightarrow> (nat \<Rightarrow> bool) \<Rightarrow> string \<Rightarrow> string \<Rightarrow> misc_state \<Rightarrow> fault + misc_state" where
  "callback_copy_file retry alloc dirname nm s =
     bindE (sprintf_to (dirname @ ''/'' @ nm) (replicate 64 (CHR 0x00))) (\<lambda>from_buf.
     bindE (sprintf_to (''/flysystem/lib/out/'' @ nm) (replicate 64 (CHR 0x00))) (\<lambda>to_buf.
     Inr (s\<lparr>misc_fs := snd (fs_copy_file retry alloc (c_string from_buf) (c_string to_buf) (misc_fs s))\<rparr>)))"

text \<open>The end of an update, common to its two kinds.\<close>

definition finish_update :: "misc_state \<Rightarrow> fault + misc_state" where
  "finish_update s =
     misc_launches ((if delete_out_dir_after_update s then [lidbg_rmdir ''/mnt/usbdisk/out''] else []) @
       [lidbg_launch_user (get_bin_path ''chmod'') [Some ''777'', Some ''/flysystem/lib/out'', Some ''-R'', None, None, None], lidbg_reboot]) s"

definition misc_password_update ::
  "bool \<Rightarrow> (nat \<Rightarrow> bool) \<Rightarrow> (string list \<times> int) option \<Rightarrow> misc_state \<Rightarrow> fault + misc_state option" where
  "misc_password_update retry alloc dir s =
     (let (_, r, f) = analysis_copylist retry alloc ''/mnt/usbdisk/conf/copylist.conf'' (misc_remountd s) (misc_fs s);
          s1 = s\<lparr>misc_remountd := r, misc_fs := f\<rparr> in
      if is_file_exist ''/mnt/usbdisk/out/release'' f then
        bindE (update_ko retry alloc ''/mnt/usbdisk/out/release'' ''/mnt/usbdisk/out'' ''/flysystem/lib/out'' r f) (\<lambda>(ret, r', f').
          let s2 = s1\<lparr>misc_remountd := r', misc_fs := f'\<rparr> in
          if ret \<ge> 0 then bindE (finish_update s2) (\<lambda>s3. Inr (Some s3)) else Inr (Some s2))
      else
        bindE (lidbg_readdir_and_dealfile dir) (\<lambda>res.
          case res of
            None \<Rightarrow> Inr None
          | Some (False, _) \<Rightarrow> Inr (Some s1)
          | Some (True, names) \<Rightarrow>
              bindE (foldE (callback_copy_file retry alloc ''/mnt/usbdisk/out'') names s1) (\<lambda>s2.
              bindE (misc_launch (lidbg_rmdir ''/data/lidbg/'') s2) (\<lambda>s3.
              bindE (finish_update s3) (\<lambda>s4. Inr (Some s4))))))"

text \<open>\<open>found\<close> is the answer of \<open>find_mounted_volume_by_mount_point\<close>, \<open>touched\<close> that of \<open>te_is_ts_touched\<close>.\<close>

definition thread_reboot :: "bool \<Rightarrow> bool \<Rightarrow> misc_state \<Rightarrow> misc_state" where
  "thread_reboot found touched s =
     (if reboot_delay_s s = 0 then s else if found \<and> \<not> touched then s\<lparr>misc_restarts := misc_restarts s + 1\<rparr> else s)"

definition lidbg_loop_warning :: "misc_state \<Rightarrow> misc_state" where
  "lidbg_loop_warning s = (if loop_warning_en s then s\<lparr>misc_threads := misc_threads s + 1\<rparr> else s)"

definition cb_kv_wifiadb :: "string option \<Rightarrow> misc_state \<Rightarrow> fault + misc_state" where
  "cb_kv_wifiadb val = set_wifi_adb_mode (case val of Some v \<Rightarrow> take 1 v = ''1'' | None \<Rightarrow> False)"

definition cb_kv_app_install :: "(string list \<times> int) option \<Rightarrow> string option \<Rightarrow> misc_state \<Rightarrow> fault + misc_state option" where
  "cb_kv_app_install dir val s =
     (if (case val of Some v \<Rightarrow> take 1 v = ''1'' | None \<Rightarrow> False) then
        bindE (lidbg_pm_install_dir dir ''/mnt/usbdisk/apps'' (misc_ue s)) (\<lambda>r. Inr (map_option (\<lambda>(_, u). s\<lparr>misc_ue := u\<rparr>) r))
      else
        bindE (misc_mem_log (''cb_kv_app_install:fail,'' @ (case val of Some v \<Rightarrow> v | None \<Rightarrow> ''(null)'') @ [CHR 0x0A]) s)
          (\<lambda>s'. Inr (Some s')))"

section \<open>A list of commands\<close>

text \<open>
  The words of a command are stored into the beginning of \<open>param\<close>, which is not cleared between the commands of a line.
\<close>

definition kv_param :: "string list \<Rightarrow> string option list \<Rightarrow> string option list" where
  "kv_param ws param = map Some ws @ drop (length ws) param"

definition kv_cmd_item :: "string \<Rightarrow> string option list \<times> misc_state \<Rightarrow> fault + (string option list \<times> misc_state)" where
  "kv_cmd_item item = (\<lambda>(param0, s).
     bindE (lidbg_token_string 8 (Some item) (Some '','')) (\<lambda>(num, ws).
       let param = kv_param ws param0 in
       if num > 1 then
         bindE (if ws ! 0 = ''echo'' then
                  Inr (case param ! 3 of
                     Some file \<Rightarrow> s\<lparr>misc_fs := snd (fs_file_write file (Some (ws ! 1)) (misc_fs s))\<rparr>
                   | None \<Rightarrow> s)
                else misc_launch (lidbg_exe (ws ! 0) (param ! 1) (param ! 2) (param ! 3) (param ! 4) (param ! 5) (param ! 6)) s) (\<lambda>s1.
         bindE (misc_mem_log (''cb_kv_cmd:'' @ show_nat num @ '','' @ ws ! 0 @ '','' @ ws ! 1 @ [CHR 0x0A]) s1) (\<lambda>s2.
         Inr (param, s2)))
       else Inr (param, s)))"

definition cb_kv_cmd :: "string option \<Rightarrow> misc_state \<Rightarrow> fault + misc_state" where
  "cb_kv_cmd val s =
     (case val of
        None \<Rightarrow> Inr s
      | Some v \<Rightarrow>
          bindE (lidbg_token_string 8 (Some v) (Some '';'')) (\<lambda>(_, cmd).
          bindE (foldE kv_cmd_item cmd (replicate 8 None, s)) (\<lambda>(_, s'). Inr s')))"

section \<open>The update copies the files\<close>

definition update_src :: "string \<Rightarrow> string" where "update_src n = ''/mnt/usbdisk/out/'' @ n"
definition update_dst :: "string \<Rightarrow> string" where "update_dst n = ''/flysystem/lib/out/'' @ n"

definition plain_name :: "string \<Rightarrow> bool" where
  "plain_name n \<longleftrightarrow> length n < 33 \<and> CHR 0x00 \<notin> set n"

lemma update_paths [simp]:
  "update_src n = update_src m \<longleftrightarrow> n = m" "update_dst n = update_dst m \<longleftrightarrow> n = m" "update_src n \<noteq> update_dst m" "update_dst n \<noteq> update_src m"
  by (simp_all add: update_src_def update_dst_def)

lemma sprintf_name:
  assumes "CHR 0x00 \<notin> set s" "length s < m"
  shows "\<exists>b. sprintf_to s (replicate m (CHR 0x00)) = Inr b \<and> c_string b = s"
  using assms by (auto simp: sprintf_to_def store_front_def c_string_def takeWhile_append)

lemma callback_copies:
  assumes "plain_name n" "wr_ok (misc_fs s) (update_dst n)" "\<forall>k. alloc k" "content (misc_fs s) (update_src n) = Some t"
  shows "\<exists>f. callback_copy_file retry alloc ''/mnt/usbdisk/out'' n s = Inr (s\<lparr>misc_fs := f\<rparr>) \<and>
    content f = (content (misc_fs s))(update_dst n \<mapsto> t) \<and> wr_ok f = wr_ok (misc_fs s)"
proof -
  obtain b1 where b1: "sprintf_to (''/mnt/usbdisk/out'' @ ''/'' @ n) (replicate 64 (CHR 0x00)) = Inr b1" "c_string b1 = update_src n"
    using sprintf_name [of "update_src n" 64] assms(1) by (auto simp: plain_name_def update_src_def)
  obtain b2 where b2: "sprintf_to (''/flysystem/lib/out/'' @ n) (replicate 64 (CHR 0x00)) = Inr b2" "c_string b2 = update_dst n"
    using sprintf_name [of "update_dst n" 64] assms(1) by (auto simp: plain_name_def update_dst_def)
  show ?thesis unfolding callback_copy_file_def b1(1) b2(1)
    using assms by (simp add: b1 b2 fs_copy_file_def copy_file_def Let_def is_file_exist_def) (rule exI, rule conjI, rule refl, simp)
qed

lemma callbacks_copy:
  assumes "\<forall>n \<in> set ns. plain_name n \<and> wr_ok (misc_fs s) (update_dst n) \<and> content (misc_fs s) (update_src n) \<noteq> None" "\<forall>k. alloc k"
  shows "\<exists>f. foldE (callback_copy_file retry alloc ''/mnt/usbdisk/out'') ns s = Inr (s\<lparr>misc_fs := f\<rparr>) \<and>
    (\<forall>n \<in> set ns. content f (update_dst n) = content (misc_fs s) (update_src n)) \<and>
    (\<forall>p. p \<notin> update_dst ` set ns \<longrightarrow> content f p = content (misc_fs s) p)"
  using assms(1)
proof (induction ns arbitrary: s)
  case Nil
  then show ?case by (auto intro: exI [of _ "misc_fs s"])
next
  case (Cons n ns)
  obtain t where t: "content (misc_fs s) (update_src n) = Some t" using Cons.prems by auto
  obtain f where f: "callback_copy_file retry alloc ''/mnt/usbdisk/out'' n s = Inr (s\<lparr>misc_fs := f\<rparr>)"
    "content f = (content (misc_fs s))(update_dst n \<mapsto> t)" "wr_ok f = wr_ok (misc_fs s)"
    using callback_copies [OF _ _ assms(2) t] Cons.prems by auto
  have "\<forall>m \<in> set ns. plain_name m \<and> wr_ok (misc_fs (s\<lparr>misc_fs := f\<rparr>)) (update_dst m) \<and>
      content (misc_fs (s\<lparr>misc_fs := f\<rparr>)) (update_src m) \<noteq> None"
    using Cons.prems f by simp
  from Cons.IH [OF this] obtain g where g:
    "foldE (callback_copy_file retry alloc ''/mnt/usbdisk/out'') ns (s\<lparr>misc_fs := f\<rparr>) = Inr (s\<lparr>misc_fs := g\<rparr>)"
    "\<forall>m \<in> set ns. content g (update_dst m) = content f (update_src m)"
    "\<forall>p. p \<notin> update_dst ` set ns \<longrightarrow> content g p = content f p" by auto
  have "content g (update_dst n) = Some t"
    using g(2) g(3) [rule_format, of "update_dst n"] t f(2) by (cases "n \<in> set ns") (auto simp: image_iff)
  then show ?case using f g t by (intro exI [of _ g]) auto
qed

lemma launch_short:
  assumes "length (concat (map (\<lambda>w. w @ '' '') (bin_path # map opt_arg argvs))) < 512"
  shows "misc_launch (lidbg_launch_user bin_path argvs) s =
    Inr (s\<lparr>misc_ue := uevent_shell (concat (map (\<lambda>w. w @ '' '') (bin_path # map opt_arg argvs))) (misc_ue s)\<rparr>)"
  using assms by (simp add: misc_launch_def lidbg_launch_user_def)

definition misc_sent :: "misc_state \<Rightarrow> string list list" where "misc_sent s = uevents_sent (misc_ue s)"

definition reboot_event :: "string list" where
  "reboot_event = [''LIDBG_ACTION=shell'', ''LIDBG_PARAMETER=reboot       '']"

lemma finish_update_reboots:
  "\<exists>u. finish_update s = Inr (s\<lparr>misc_ue := u\<rparr>) \<and> last (uevents_sent u) = reboot_event"
  by (cases "delete_out_dir_after_update s")
    (simp add: finish_update_def lidbg_rmdir_def lidbg_reboot_def get_bin_path_def launch_short opt_arg_def uevent_shell_def
      uevent_send_def reboot_event_def, rule exI, rule conjI, rule refl, simp)+

text \<open>
  The update from a USB disk without a list of files copies every file of the directory, whatever its name
  and the order in which the directory is read, leaves all other files as they are, and then reboots.
\<close>

theorem update_copies_all:
  assumes "content (misc_fs s) ''/mnt/usbdisk/conf/copylist.conf'' = None" "content (misc_fs s) ''/mnt/usbdisk/out/release'' = None"
    and "\<forall>n \<in> set entries. plain_name n \<and> (take 1 n \<noteq> ''.'' \<longrightarrow>
      wr_ok (misc_fs s) (update_dst n) \<and> content (misc_fs s) (update_src n) \<noteq> None)" "\<forall>k. alloc k"
  shows "\<exists>s'. misc_password_update retry alloc (Some (entries, 0)) s = Inr (Some s') \<and>
    (\<forall>n \<in> set entries. take 1 n \<noteq> ''.'' \<longrightarrow> content (misc_fs s') (update_dst n) = content (misc_fs s) (update_src n)) \<and>
    (\<forall>p. p \<notin> update_dst ` set entries \<longrightarrow> content (misc_fs s') p = content (misc_fs s) p) \<and>
    last (misc_sent s') = reboot_event"
proof -
  define names where "names = filter (\<lambda>n. take 1 n \<noteq> ''.'') (rev entries)"
  have dot: "(n \<noteq> [] \<and> hd n = CHR ''.'') = (take 1 n = ''.'')" for n by (cases n) auto
  have "lidbg_readdir_and_dealfile (Some (entries, 0)) = Inr (Some (True, filter (\<lambda>n. \<not> (n \<noteq> [] \<and> hd n = CHR ''.'')) (rev entries)))"
    using build_namelist [of entries "[]"] assms(3) by (simp add: lidbg_readdir_and_dealfile_def deal_names_ok plain_name_def)
  then have r: "lidbg_readdir_and_dealfile (Some (entries, 0)) = Inr (Some (True, names))" by (simp only: dot names_def)
  obtain f where f: "foldE (callback_copy_file retry alloc ''/mnt/usbdisk/out'') names s = Inr (s\<lparr>misc_fs := f\<rparr>)"
    "\<forall>n \<in> set names. content f (update_dst n) = content (misc_fs s) (update_src n)"
    "\<forall>p. p \<notin> update_dst ` set names \<longrightarrow> content f p = content (misc_fs s) p"
    using callbacks_copy [of names s alloc retry] assms(3,4) by (auto simp: names_def)
  obtain u where u: "misc_launch (lidbg_rmdir ''/data/lidbg/'') (s\<lparr>misc_fs := f\<rparr>) = Inr (s\<lparr>misc_fs := f, misc_ue := u\<rparr>)"
    by (simp add: lidbg_rmdir_def get_bin_path_def launch_short opt_arg_def)
  obtain v where v: "finish_update (s\<lparr>misc_fs := f, misc_ue := u\<rparr>) = Inr (s\<lparr>misc_fs := f, misc_ue := v\<rparr>)"
    "last (uevents_sent v) = reboot_event"
    using finish_update_reboots [of "s\<lparr>misc_fs := f, misc_ue := u\<rparr>"] by auto
  have "misc_password_update retry alloc (Some (entries, 0)) s = Inr (Some (s\<lparr>misc_fs := f, misc_ue := v\<rparr>))"
    using assms(1,2) by (simp add: misc_password_update_def analysis_copylist_def Let_def is_file_exist_def r f(1) u v(1))
  then show ?thesis using f(2,3) v(2) by (auto simp: misc_sent_def names_def)
qed

definition misc_start :: "fsys \<Rightarrow> misc_state" where
  "misc_start fs = \<lparr>misc_fs = fs, misc_ue = \<lparr>uevent_list = [], uevent_dbg = False, uevents_sent = [], callbacks_run = []\<rparr>,
     misc_remountd = False, delete_out_dir_after_update = True, reboot_delay_s = 0, loop_warning_en = False, misc_threads = 0,
     misc_restarts = 0, misc_log = []\<rparr>"

definition usb_fs :: fsys where
  "usb_fs = example_fs\<lparr>content := [''/mnt/usbdisk/out/a.ko'' \<mapsto> ''new'', ''/flysystem/lib/out/a.ko'' \<mapsto> ''old''], wr_ok := (\<lambda>_. True)\<rparr>"

theorem update_copies_all_witness:
  "\<exists>s'. misc_password_update True (\<lambda>_. True) (Some ([''.'', ''a.ko''], 0)) (misc_start usb_fs) = Inr (Some s') \<and>
    content (misc_fs s') ''/flysystem/lib/out/a.ko'' = Some ''new''"
  using update_copies_all [of "misc_start usb_fs" "[''.'', ''a.ko'']" "\<lambda>_. True" True]
  by (auto simp: misc_start_def usb_fs_def plain_name_def update_src_def update_dst_def)

section \<open>A list of commands is run\<close>

definition kv_command :: "string list \<Rightarrow> string" where
  "kv_command ws = concat (map (\<lambda>w. w @ '' '') (take 7 (ws @ replicate 7 [])))"

definition kv_line :: "string list list \<Rightarrow> string" where
  "kv_line wss = join (CHR '';'') (map (join (CHR '','')) wss)"

definition kv_words_ok :: "string list \<Rightarrow> bool" where
  "kv_words_ok ws \<longleftrightarrow> 2 \<le> length ws \<and> length ws \<le> 8 \<and> ws ! 0 \<noteq> ''echo'' \<and>
     (\<forall>w \<in> set ws. CHR '','' \<notin> set w \<and> CHR '';'' \<notin> set w) \<and>
     length (kv_command ws) < 512 \<and> length (ws ! 0) + length (ws ! 1) < 240"

definition cleared :: "string list \<Rightarrow> string option list" where
  "cleared ws = map Some ws @ replicate (8 - length ws) None"

lemma kv_param_cleared: "length ws \<le> length ws' \<Longrightarrow> kv_param ws' (cleared ws) = cleared ws'"
  by (simp add: kv_param_def cleared_def drop_replicate)

lemma exe_cleared:
  assumes "2 \<le> length ws" "length ws \<le> 8" "length (kv_command ws) < 512"
  shows "misc_launch (lidbg_exe (ws ! 0) (cleared ws ! 1) (cleared ws ! 2) (cleared ws ! 3) (cleared ws ! 4) (cleared ws ! 5) (cleared ws ! 6)) s =
    Inr (s\<lparr>misc_ue := uevent_shell (kv_command ws) (misc_ue s)\<rparr>)"
proof -
  have "length (cleared ws) = 8" using assms by (simp add: cleared_def)
  then obtain p0 p1 p2 p3 p4 p5 p6 p7 where p: "cleared ws = [p0, p1, p2, p3, p4, p5, p6, p7]"
    by (auto simp: length_Suc_conv numeral_eq_Suc)
  have "take 7 (map opt_arg (cleared ws)) = take 7 (ws @ replicate 7 [])"
    using assms by (auto simp: cleared_def opt_arg_def comp_def)
  moreover have "opt_arg (cleared ws ! 0) = ws ! 0" using assms by (cases ws) (simp_all add: cleared_def opt_arg_def)
  ultimately have "concat (map (\<lambda>w. w @ '' '') (get_bin_path (ws ! 0) # map opt_arg [p1, p2, p3, p4, p5, p6])) = kv_command ws"
    by (simp add: p kv_command_def get_bin_path_def)
  then show ?thesis using assms(3) by (simp add: p lidbg_exe_def launch_short)
qed

lemma length_show_small: "n < 10 \<Longrightarrow> length (show_nat n) = 1"
  by (subst show_nat.simps) simp

lemma kv_item:
  assumes "kv_words_ok ws" "length ws0 \<le> length ws"
  shows "\<exists>s'. kv_cmd_item (join (CHR '','') ws) (cleared ws0, s) = Inr (cleared ws, s') \<and>
    misc_ue s' = uevent_shell (kv_command ws) (misc_ue s) \<and> misc_fs s' = misc_fs s"
proof -
  have t: "lidbg_token_string 8 (Some (join (CHR '','') ws)) (Some '','') = Inr (length ws, ws)"
    using assms(1) strsep_all_join [of ws "CHR '',''"] by (cases "ws = []") (auto simp: lidbg_token_string_def kv_words_ok_def)
  have w: "2 \<le> length ws" "length ws \<le> 8" "length (kv_command ws) < 512" "ws ! 0 \<noteq> ''echo''" "length (ws ! 0) + length (ws ! 1) < 240"
    using assms(1) by (simp_all add: kv_words_ok_def)
  show ?thesis unfolding kv_cmd_item_def
    using w by (simp add: t kv_param_cleared assms(2) exe_cleared misc_mem_log_def length_show_small del: One_nat_def)
qed

lemma kv_items:
  assumes "\<forall>ws \<in> set wss. kv_words_ok ws" "sorted (map length (ws0 # wss))"
  shows "\<exists>s' param. foldE kv_cmd_item (map (join (CHR '','')) wss) (cleared ws0, s) = Inr (param, s') \<and>
    misc_ue s' = fold (uevent_shell \<circ> kv_command) wss (misc_ue s) \<and> misc_fs s' = misc_fs s"
  using assms
proof (induction wss arbitrary: ws0 s)
  case (Cons ws wss)
  then obtain s1 where s1: "kv_cmd_item (join (CHR '','') ws) (cleared ws0, s) = Inr (cleared ws, s1)"
    "misc_ue s1 = uevent_shell (kv_command ws) (misc_ue s)" "misc_fs s1 = misc_fs s"
    using kv_item [of ws ws0 s] by auto
  then show ?case using Cons.IH [of ws s1] Cons.prems by auto
qed simp

lemma shells_sent:
  "uevents_sent (fold (uevent_shell \<circ> kv_command) wss u) =
     uevents_sent u @ map (\<lambda>ws. [''LIDBG_ACTION=shell'', take 255 (''LIDBG_PARAMETER='' @ kv_command ws)]) wss"
  by (induction wss arbitrary: u) (simp_all add: uevent_shell_def uevent_send_def)

text \<open>
  A value of the key \<open>cmdstring\<close> with up to eight commands runs them all, in order and each with exactly its
  own words, when no command has fewer words than the one before it.
\<close>

theorem kv_commands_run:
  assumes "wss \<noteq> []" "length wss \<le> 8" "\<forall>ws \<in> set wss. kv_words_ok ws" "sorted (map length wss)"
  shows "\<exists>s'. cb_kv_cmd (Some (kv_line wss)) s = Inr s' \<and> misc_fs s' = misc_fs s \<and>
    misc_sent s' = misc_sent s @ map (\<lambda>ws. [''LIDBG_ACTION=shell'', take 255 (''LIDBG_PARAMETER='' @ kv_command ws)]) wss"
proof -
  have "CHR '';'' \<notin> set (join (CHR '','') ws)" if "ws \<in> set wss" for ws
    using that assms(3) set_join [of "CHR '',''" ws] by (fastforce simp: kv_words_ok_def)
  then have t: "lidbg_token_string 8 (Some (kv_line wss)) (Some '';'') = Inr (length wss, map (join (CHR '','')) wss)"
    using assms(1,2) by (simp add: lidbg_token_string_def kv_line_def strsep_all_join Let_def)
  have "sorted (map length ([] # wss))" using assms(4) by simp
  from kv_items [OF assms(3) this, of s] obtain s' param where
    "foldE kv_cmd_item (map (join (CHR '','')) wss) (replicate 8 None, s) = Inr (param, s')"
    "misc_ue s' = fold (uevent_shell \<circ> kv_command) wss (misc_ue s)" "misc_fs s' = misc_fs s"
    by (auto simp: cleared_def)
  then show ?thesis by (simp add: cb_kv_cmd_def t misc_sent_def shells_sent)
qed

theorem kv_commands_run_witness:
  "\<exists>s'. cb_kv_cmd (Some ''stop,adbd;chmod,777,/data'') (misc_start example_fs) = Inr s' \<and>
    misc_sent s' = [[''LIDBG_ACTION=shell'', ''LIDBG_PARAMETER=stop adbd      ''],
      [''LIDBG_ACTION=shell'', ''LIDBG_PARAMETER=chmod 777 /data     '']]"
  using kv_commands_run [of "[[''stop'', ''adbd''], [''chmod'', ''777'', ''/data'']]" "misc_start example_fs"]
  by (auto simp: kv_line_def kv_words_ok_def kv_command_def misc_sent_def misc_start_def numeral_eq_Suc)

text \<open>
  A command with fewer words than the one before it is run with the last words of the earlier one: here the second
  command is \<open>ls /sdcard /data\<close>.
\<close>

theorem kv_stale_words:
  "case cb_kv_cmd (Some ''chmod,777,/data;ls,/sdcard'') (misc_start example_fs) of
     Inl _ \<Rightarrow> False
   | Inr s' \<Rightarrow> last (misc_sent s') = [''LIDBG_ACTION=shell'', ''LIDBG_PARAMETER=ls /sdcard /data     '']"
proof -
  have "lidbg_token_string 8 (Some ''chmod,777,/data;ls,/sdcard'') (Some '';'') = Inr (2, [''chmod,777,/data'', ''ls,/sdcard''])"
    "lidbg_token_string 8 (Some ''chmod,777,/data'') (Some '','') = Inr (3, [''chmod'', ''777'', ''/data''])"
    "lidbg_token_string 8 (Some ''ls,/sdcard'') (Some '','') = Inr (2, [''ls'', ''/sdcard''])"
    using strsep_all_join [of "[''chmod,777,/data'', ''ls,/sdcard'']" "CHR '';''"]
      strsep_all_join [of "[''chmod'', ''777'', ''/data'']" "CHR '',''"] strsep_all_join [of "[''ls'', ''/sdcard'']" "CHR '',''"]
    by (simp_all add: lidbg_token_string_def)
  then show ?thesis
    by (simp add: cb_kv_cmd_def kv_cmd_item_def kv_param_def Let_def lidbg_exe_def get_bin_path_def launch_short opt_arg_def
      misc_mem_log_def length_show_small misc_sent_def misc_start_def uevent_shell_def uevent_send_def)
qed

end
