(* ===== verification/Video_I2c.thy ===== *)
theory Video_I2c
  imports Prelude
begin

text \<open>
  The serial bus of the video chips on the boards V1 and V2, where the driver moves the two pins itself:
  \<^verbatim>\<open>drivers/videoin/i2c_io.c\<close>.

  The pins are events that the other side of the bus receives one by one: \<open>pin_out\<close> changes its state, \<open>pin_in\<close> is the level
  of the data pin that \<open>gpio_get_value\<close> reads.  Every operation of the driver is a function over these two, for an arbitrary
  device.  The requests for the pins are assumed to succeed, and their delays are empty in the code.
\<close>

datatype pin_event =
    SetScl bool
  | SetSda bool
  | SdaInput
  | SdaOutput
  | SclOutput

record 'd bus =
  pin_out :: "pin_event \<Rightarrow> 'd \<Rightarrow> 'd"
  pin_in :: "'d \<Rightarrow> bool"

datatype i2c_ack = NACK | ACK
datatype i2c_WR_flag = hkj_WRITE | hkj_READ

definition pins :: "'d bus \<Rightarrow> pin_event list \<Rightarrow> 'd \<Rightarrow> 'd" where
  "pins bus es d = fold (pin_out bus) es d"

section \<open>Signals\<close>

definition i2c_init :: "'d bus \<Rightarrow> 'd \<Rightarrow> 'd" where
  "i2c_init bus = pins bus [SdaOutput, SclOutput, SetSda True, SetScl True]"

definition i2c_begin :: "'d bus \<Rightarrow> 'd \<Rightarrow> 'd" where
  "i2c_begin bus = pins bus [SetSda False]"

definition i2c_stop :: "'d bus \<Rightarrow> 'd \<Rightarrow> 'd" where
  "i2c_stop bus = pins bus [SetScl False, SetSda False, SetScl True, SetSda True]"

definition i2c_write_ask :: "'d bus \<Rightarrow> i2c_ack \<Rightarrow> 'd \<Rightarrow> 'd" where
  "i2c_write_ask bus flag = pins bus [SetSda (flag = NACK), SetScl True, SetScl False, SetSda True]"

definition i2c_read_ack :: "'d bus \<Rightarrow> 'd \<Rightarrow> i2c_ack \<times> 'd" where
  "i2c_read_ack bus d =
     (let d1 = pins bus [SetScl False, SdaInput, SetScl True] d;
          ret = (if \<not> pin_in bus d1 then ACK else NACK)
      in (ret, pins bus [SetScl False, SdaOutput] d1))"

text \<open>The loops over the eight bits of a byte; \<open>n\<close> is the number of bits left.\<close>

primrec read_bits :: "nat \<Rightarrow> 'd bus \<Rightarrow> byte \<Rightarrow> 'd \<Rightarrow> byte \<times> 'd" where
  "read_bits 0 bus data d = (data, d)"
| "read_bits (Suc n) bus data d =
     (let d1 = pins bus [SetScl True] d;
          data1 = push_bit 1 data;
          data2 = (if pin_in bus d1 then data1 OR 1 else data1);
          d2 = pins bus (SetScl False # (if n = 0 then [SdaOutput] else [])) d1
      in read_bits n bus data2 d2)"

definition i2c_read :: "'d bus \<Rightarrow> 'd \<Rightarrow> byte \<times> 'd" where
  "i2c_read bus d = read_bits 8 bus 0 (pins bus [SdaInput] d)"

primrec write_bits :: "nat \<Rightarrow> 'd bus \<Rightarrow> byte \<Rightarrow> 'd \<Rightarrow> 'd" where
  "write_bits 0 bus data d = d"
| "write_bits (Suc n) bus data d =
     write_bits n bus (push_bit 1 data) (pins bus [SetScl False, SetSda (data AND 0x80 \<noteq> 0), SetScl True] d)"

definition i2c_write :: "'d bus \<Rightarrow> byte \<Rightarrow> 'd \<Rightarrow> 'd" where
  "i2c_write bus data d = write_bits 8 bus data d"

definition i2c_write_chip_addr :: "'d bus \<Rightarrow> byte \<Rightarrow> i2c_WR_flag \<Rightarrow> 'd \<Rightarrow> 'd" where
  "i2c_write_chip_addr bus chip_addr flag =
     (case flag of
        hkj_WRITE \<Rightarrow> i2c_write bus (push_bit 1 chip_addr)
      | hkj_READ \<Rightarrow> i2c_write bus (push_bit 1 chip_addr OR 0x01))"

section \<open>Transfers\<close>

text \<open>Each byte of a transfer is followed by the test of its acknowledgement; without one the transfer is stopped.\<close>

definition acked :: "'d bus \<Rightarrow> ('d \<Rightarrow> 'd) \<Rightarrow> ('d \<Rightarrow> i2c_ack \<times> 'd) \<Rightarrow> 'd \<Rightarrow> i2c_ack \<times> 'd" where
  "acked bus wr rest d =
     (let (a, d1) = i2c_read_ack bus (wr d) in if a = NACK then (NACK, i2c_stop bus d1) else rest d1)"

fun write_rest :: "'d bus \<Rightarrow> byte list \<Rightarrow> 'd \<Rightarrow> i2c_ack \<times> 'd" where
  "write_rest bus [] d = (ACK, i2c_stop bus d)"
| "write_rest bus (b # bs) d = acked bus (i2c_write bus b) (write_rest bus bs) d"

text \<open>
  The counter of the loop is a \<open>u8\<close>: with more than 255 bytes the loop does not end (\<open>None\<close>).  Reading the first bytes of
  an empty buffer is an overrun.
\<close>

definition i2c_write_byte :: "'d bus \<Rightarrow> byte \<Rightarrow> byte list \<Rightarrow> 'd \<Rightarrow> fault + (i2c_ack \<times> 'd) option" where
  "i2c_write_byte bus chip_addr buf d =
     (case buf of
        [] \<Rightarrow> Inl BufOverrun
      | b0 # bs \<Rightarrow>
          Inr (if length buf > 255 then None
               else Some (acked bus (i2c_write_chip_addr bus chip_addr hkj_WRITE)
                 (acked bus (i2c_write bus b0) (write_rest bus bs)) (i2c_begin bus (i2c_init bus d)))))"

definition i2c_write_2byte :: "'d bus \<Rightarrow> byte \<Rightarrow> byte list \<Rightarrow> 'd \<Rightarrow> fault + (i2c_ack \<times> 'd) option" where
  "i2c_write_2byte bus chip_addr buf d =
     (case buf of
        b0 # b1 # bs \<Rightarrow>
          Inr (if length buf > 255 then None
               else Some (acked bus (i2c_write_chip_addr bus chip_addr hkj_WRITE)
                 (acked bus (i2c_write bus b0) (acked bus (i2c_write bus b1) (write_rest bus bs))) (i2c_begin bus (i2c_init bus d))))
      | _ \<Rightarrow> Inl BufOverrun)"

text \<open>The loop that reads \<open>n\<close> more bytes.\<close>

primrec read_loop :: "nat \<Rightarrow> 'd bus \<Rightarrow> 'd \<Rightarrow> byte list \<times> 'd" where
  "read_loop 0 bus d = ([], d)"
| "read_loop (Suc n) bus d =
     (let (b, d1) = i2c_read bus d;
          (bs, d2) = read_loop n bus (i2c_write_ask bus (if n = 0 then NACK else ACK) d1)
      in (b # bs, d2))"

definition read_part :: "'d bus \<Rightarrow> byte \<Rightarrow> nat \<Rightarrow> 'd \<Rightarrow> i2c_ack \<times> byte list \<times> 'd" where
  "read_part bus chip_addr n d =
     (let (a, d1) = i2c_read_ack bus (i2c_write_chip_addr bus chip_addr hkj_READ (i2c_begin bus (i2c_stop bus d))) in
      if a = NACK then (NACK, [], i2c_stop bus d1)
      else let (bs, d2) = read_loop n bus d1 in (ACK, bs, i2c_stop bus d2))"

fun send_then :: "'d bus \<Rightarrow> ('d \<Rightarrow> 'd) list \<Rightarrow> ('d \<Rightarrow> i2c_ack \<times> byte list \<times> 'd) \<Rightarrow> 'd \<Rightarrow> i2c_ack \<times> byte list \<times> 'd" where
  "send_then bus [] rest d = rest d"
| "send_then bus (wr # wrs) rest d =
     (let (a, d1) = i2c_read_ack bus (wr d) in if a = NACK then (NACK, [], i2c_stop bus d1) else send_then bus wrs rest d1)"

text \<open>The bytes read, the first ones of the buffer; without an acknowledgement the buffer is not changed.\<close>

definition i2c_read_byte :: "'d bus \<Rightarrow> byte \<Rightarrow> u32 \<Rightarrow> nat \<Rightarrow> 'd \<Rightarrow> (i2c_ack \<times> byte list \<times> 'd) option" where
  "i2c_read_byte bus chip_addr sub_addr n d =
     (if n > 255 then None
      else Some (send_then bus [i2c_write_chip_addr bus chip_addr hkj_WRITE, i2c_write bus (ucast sub_addr)]
        (read_part bus chip_addr n) (i2c_begin bus (i2c_init bus d))))"

definition i2c_read_2byte :: "'d bus \<Rightarrow> byte \<Rightarrow> u32 \<Rightarrow> nat \<Rightarrow> 'd \<Rightarrow> (i2c_ack \<times> byte list \<times> 'd) option" where
  "i2c_read_2byte bus chip_addr sub_addr n d =
     (if n > 255 then None
      else Some (send_then bus
        [i2c_write_chip_addr bus chip_addr hkj_WRITE, i2c_write bus (ucast (drop_bit 8 sub_addr)), i2c_write bus (ucast sub_addr)]
        (read_part bus chip_addr n) (i2c_begin bus (i2c_init bus d))))"

section \<open>A device with registers\<close>

text \<open>
  The other side of the bus, after the documentation of such chips: a device with an address and registers of one byte.  A transfer
  to it gives \<open>c_width\<close> bytes with the number of a register, high byte first, and then values for this and the following
  registers; a transfer from it gives the values from that register on.  It looks at the data pin when the clock rises, moves
  it after the clock falls, and takes a change of the data pin under a high clock as start or stop.
\<close>

datatype chip_mode = ChipIdle | ChipReceive | ChipSend

record chip =
  c_addr :: byte
  c_width :: nat
  c_mem :: "nat \<Rightarrow> byte"
  c_ptr :: nat
  c_scl :: bool
  c_sda :: bool
  c_mode :: chip_mode
  c_bits :: "bool list"
  c_bytes :: "byte list"
  c_ack :: bool

definition byte_bits :: "byte \<Rightarrow> bool list" where
  "byte_bits b = map (bit b) [7, 6, 5, 4, 3, 2, 1, 0]"

definition bits_byte :: "bool list \<Rightarrow> byte" where
  "bits_byte bs = fold (\<lambda>b a. push_bit 1 a OR (if b then 1 else 0)) bs 0"

definition chip_consume :: "byte \<Rightarrow> chip \<Rightarrow> chip" where
  "chip_consume b c =
     (if c_bytes c = [] then c
      else if length (c_bytes c) \<le> c_width c
      then c\<lparr>c_ptr := ((if length (c_bytes c) = 1 then 0 else c_ptr c) * 256 + unat b) mod 256 ^ c_width c\<rparr>
      else c\<lparr>c_mem := (c_mem c)(c_ptr c := b), c_ptr := (c_ptr c + 1) mod 256 ^ c_width c\<rparr>)"

definition chip_rise :: "chip \<Rightarrow> chip" where
  "chip_rise c =
     (case c_mode c of
        ChipIdle \<Rightarrow> c
      | ChipReceive \<Rightarrow> if c_ack c then c else c\<lparr>c_bits := c_bits c @ [c_sda c]\<rparr>
      | ChipSend \<Rightarrow> if c_bits c = [] then (if c_sda c then c\<lparr>c_mode := ChipIdle\<rparr> else c\<lparr>c_ack := True\<rparr>) else c)"

definition chip_fall :: "chip \<Rightarrow> chip" where
  "chip_fall c =
     (case c_mode c of
        ChipIdle \<Rightarrow> c
      | ChipReceive \<Rightarrow>
          if c_ack c then
            (if length (c_bytes c) = 1 \<and> bit (hd (c_bytes c)) 0
             then c\<lparr>c_ack := False, c_mode := ChipSend, c_bits := byte_bits (c_mem c (c_ptr c))\<rparr>
             else c\<lparr>c_ack := False\<rparr>)
          else if length (c_bits c) = 8 then
            let b = bits_byte (c_bits c) in
            if c_bytes c = [] \<and> drop_bit 1 b \<noteq> c_addr c then c\<lparr>c_mode := ChipIdle, c_bits := []\<rparr>
            else (chip_consume b c)\<lparr>c_bytes := c_bytes c @ [b], c_bits := [], c_ack := True\<rparr>
          else c
      | ChipSend \<Rightarrow>
          if c_ack c then
            let p = (c_ptr c + 1) mod 256 ^ c_width c in c\<lparr>c_ack := False, c_ptr := p, c_bits := byte_bits (c_mem c p)\<rparr>
          else c\<lparr>c_bits := tl (c_bits c)\<rparr>)"

definition chip_data :: "bool \<Rightarrow> chip \<Rightarrow> chip" where
  "chip_data v c =
     (if c_scl c \<and> c_sda c \<and> \<not> v then c\<lparr>c_sda := v, c_mode := ChipReceive, c_bits := [], c_bytes := [], c_ack := False\<rparr>
      else if c_scl c \<and> \<not> c_sda c \<and> v then c\<lparr>c_sda := v, c_mode := ChipIdle, c_bits := [], c_ack := False\<rparr>
      else c\<lparr>c_sda := v\<rparr>)"

definition chip_clock :: "bool \<Rightarrow> chip \<Rightarrow> chip" where
  "chip_clock v c =
     (if v = c_scl c then c else if v then (chip_rise c)\<lparr>c_scl := True\<rparr> else (chip_fall c)\<lparr>c_scl := False\<rparr>)"

fun chip_event :: "pin_event \<Rightarrow> chip \<Rightarrow> chip" where
  "chip_event (SetScl v) c = chip_clock v c"
| "chip_event SclOutput c = chip_clock True c"
| "chip_event (SetSda v) c = chip_data v c"
| "chip_event SdaInput c = chip_data True c"
| "chip_event SdaOutput c = chip_data True c"

text \<open>The level of the data pin while the driver does not drive it.\<close>

definition chip_line :: "chip \<Rightarrow> bool" where
  "chip_line c =
     (case c_mode c of
        ChipIdle \<Rightarrow> True
      | ChipReceive \<Rightarrow> \<not> c_ack c
      | ChipSend \<Rightarrow> if c_bits c = [] then True else hd (c_bits c))"

definition chip_bus :: "chip bus" where
  "chip_bus = \<lparr>pin_out = chip_event, pin_in = chip_line\<rparr>"

lemma chip_pins [simp]:
  "pins chip_bus [] c = c" "pins chip_bus (e # es) c = pins chip_bus es (chip_event e c)" "pin_in chip_bus c = chip_line c"
  by (simp_all add: pins_def chip_bus_def)

section \<open>One byte on the bus\<close>

text \<open>The states between the signals: receiving with given pins and bits, and sending.\<close>

definition receiving :: "bool \<Rightarrow> bool \<Rightarrow> bool list \<Rightarrow> byte list \<Rightarrow> chip \<Rightarrow> chip" where
  "receiving scl sda bs bytes c =
     c\<lparr>c_scl := scl, c_sda := sda, c_mode := ChipReceive, c_bits := bs, c_bytes := bytes, c_ack := False\<rparr>"

lemma write_one_bit:
  "length bs < 8 \<Longrightarrow> pins chip_bus [SetScl False, SetSda v, SetScl True] (receiving scl sda bs bytes c) =
     receiving True v (bs @ [v]) bytes c"
  by (cases scl) (simp_all add: receiving_def chip_clock_def chip_data_def chip_fall_def chip_rise_def)

lemma high_bit: "((b :: byte) AND 128 \<noteq> 0) = bit b 7"
  using and_exp_eq_0_iff_not_bit [of b 7] by simp

lemma shift_bit: "bit (push_bit 1 (b :: byte)) k \<longleftrightarrow> 1 \<le> k \<and> k < 8 \<and> bit b (k - 1)"
  by (subst bit_push_bit_iff) (auto simp: possible_bit_word)

lemma write_bits_high:
  assumes "n + length bs = 8" "0 < n"
  shows "write_bits n chip_bus b (receiving scl sda bs bytes c) =
    receiving True (bit b (8 - n)) (bs @ map (\<lambda>i. bit b (7 - i)) [0..<n]) bytes c"
  using assms
proof (induction n arbitrary: b bs scl sda)
  case (Suc n)
  have l: "length bs < 8" using Suc.prems by simp
  have s: "[0..<Suc n] = 0 # map Suc [0..<n]" by (simp add: upt_conv_Cons map_Suc_upt del: upt_Suc)
  define b' where "b' = push_bit 1 b"
  have m: "map (\<lambda>i. bit b' (7 - i)) [0..<n] = map (\<lambda>i. bit b (7 - Suc i)) [0..<n]"
    unfolding b'_def shift_bit using Suc.prems by (intro map_cong refl) auto
  show ?case
  proof (cases "n = 0")
    case True
    then show ?thesis by (simp only: write_bits.simps write_one_bit [OF l] high_bit) simp
  next
    case False
    have d: "bit b' (8 - n) = bit b (8 - Suc n)" unfolding b'_def shift_bit using False Suc.prems by auto
    show ?thesis unfolding write_bits.simps write_one_bit [OF l] high_bit b'_def [symmetric]
      by (subst Suc.IH) (use False Suc.prems d m in \<open>simp_all add: s comp_def del: upt_Suc map_eq_conv\<close>)
  qed
qed simp

lemma byte_bits_upt: "byte_bits b = map (\<lambda>i. bit b (7 - i)) [0..<8]"
  by (simp add: byte_bits_def upt_rec)

lemma write_byte_bits:
  "i2c_write chip_bus b (receiving scl sda [] bytes c) = receiving True (bit b 0) (byte_bits b) bytes c"
  by (simp add: i2c_write_def write_bits_high byte_bits_upt del: upt_Suc)

lemma bits_byte_bits [simp]: "bits_byte (byte_bits b) = b"
proof (rule bit_word_eqI)
  fix n assume "n < LENGTH(8)"
  then consider "n = 0" | "n = 1" | "n = 2" | "n = 3" | "n = 4" | "n = 5" | "n = 6" | "n = 7" by fastforce
  then show "bit (bits_byte (byte_bits b)) n = bit b n"
    by cases (simp_all add: bits_byte_def byte_bits_def bit_simps)
qed

lemma length_byte_bits [simp]: "length (byte_bits b) = 8"
  by (simp add: byte_bits_def)

lemma chip_consume_simps [simp]:
  "c_addr (chip_consume b c) = c_addr c" "c_width (chip_consume b c) = c_width c" "c_bytes (chip_consume b c) = c_bytes c"
  "c_scl (chip_consume b c) = c_scl c" "c_sda (chip_consume b c) = c_sda c" "c_mode (chip_consume b c) = c_mode c"
  by (simp_all add: chip_consume_def)

lemma receiving_simps [simp]:
  "c_scl (receiving scl sda bs bytes c) = scl" "c_sda (receiving scl sda bs bytes c) = sda"
  "c_mode (receiving scl sda bs bytes c) = ChipReceive" "c_bits (receiving scl sda bs bytes c) = bs"
  "c_bytes (receiving scl sda bs bytes c) = bytes" "c_ack (receiving scl sda bs bytes c) = False"
  "c_addr (receiving scl sda bs bytes c) = c_addr c" "c_width (receiving scl sda bs bytes c) = c_width c"
  "c_mem (receiving scl sda bs bytes c) = c_mem c" "c_ptr (receiving scl sda bs bytes c) = c_ptr c"
  by (simp_all add: receiving_def)

definition sending :: "bool list \<Rightarrow> byte list \<Rightarrow> chip \<Rightarrow> chip" where
  "sending bs bytes c =
     c\<lparr>c_scl := False, c_sda := True, c_mode := ChipSend, c_bits := bs, c_bytes := bytes, c_ack := False\<rparr>"

text \<open>In the ninth clock of a byte.\<close>

definition acking :: "bool \<Rightarrow> bool \<Rightarrow> byte list \<Rightarrow> chip \<Rightarrow> chip" where
  "acking scl sda bytes c = c\<lparr>c_scl := scl, c_sda := sda, c_mode := ChipReceive, c_bits := [], c_bytes := bytes, c_ack := True\<rparr>"

lemma acking_steps:
  "chip_data True (acking False sda bytes c) = acking False True bytes c"
  "chip_clock True (acking False sda bytes c) = acking True sda bytes c"
  "chip_line (acking scl sda bytes c) = False"
  "length bytes = 1 \<Longrightarrow> bit (hd bytes) 0 \<Longrightarrow>
     chip_clock False (acking True True bytes c) = sending (byte_bits (c_mem c (c_ptr c))) bytes c"
  "\<not> (length bytes = 1 \<and> bit (hd bytes) 0) \<Longrightarrow>
     chip_clock False (acking True True bytes c) = receiving False True [] bytes c"
  by (auto simp: acking_def chip_data_def chip_clock_def chip_rise_def chip_fall_def chip_line_def receiving_def sending_def)

lemma receiving_data: "chip_data v (receiving False sda bs bytes c) = receiving False v bs bytes c"
  by (simp add: receiving_def chip_data_def)

lemma sending_data: "chip_data True (sending bs bytes c) = sending bs bytes c"
  by (simp add: sending_def chip_data_def)

lemma byte_complete:
  assumes "bytes \<noteq> [] \<or> drop_bit 1 b = c_addr c"
  shows "chip_clock False (receiving True sda (byte_bits b) bytes c) =
    acking False sda (bytes @ [b]) (chip_consume b (c\<lparr>c_bytes := bytes\<rparr>))"
proof -
  have "chip_clock False (receiving True sda (byte_bits b) bytes c) =
    (chip_consume b (receiving True sda (byte_bits b) bytes c))\<lparr>c_bytes := bytes @ [b], c_bits := [], c_ack := True, c_scl := False\<rparr>"
    using assms by (auto simp: chip_clock_def chip_fall_def Let_def)
  also have "\<dots> = acking False sda (bytes @ [b]) (chip_consume b (c\<lparr>c_bytes := bytes\<rparr>))"
    by (simp add: chip_consume_def acking_def receiving_def)
  finally show ?thesis .
qed

lemma byte_acknowledged:
  assumes "bytes \<noteq> [] \<or> drop_bit 1 b = c_addr c" "\<not> (bytes = [] \<and> bit b 0)"
  shows "i2c_read_ack chip_bus (i2c_write chip_bus b (receiving scl sda [] bytes c)) =
    (ACK, receiving False True [] (bytes @ [b]) (chip_consume b (c\<lparr>c_bytes := bytes\<rparr>)))"
proof -
  have n: "\<not> (length (bytes @ [b]) = 1 \<and> bit (hd (bytes @ [b])) 0)" using assms(2) by auto
  show ?thesis unfolding i2c_read_ack_def write_byte_bits
    by (simp only: chip_pins chip_event.simps byte_complete [OF assms(1)] acking_steps(1-3) acking_steps(5) [OF n] receiving_data Let_def) simp
qed

lemma read_address_acknowledged:
  assumes "drop_bit 1 b = c_addr c" "bit b 0"
  shows "i2c_read_ack chip_bus (i2c_write chip_bus b (receiving scl sda [] [] c)) =
    (ACK, sending (byte_bits (c_mem c (c_ptr c))) [b] (c\<lparr>c_bytes := []\<rparr>))"
proof -
  have y: "length [b] = 1" "bit (hd [b]) 0" using assms(2) by simp_all
  have c: "chip_consume b (c\<lparr>c_bytes := []\<rparr>) = c\<lparr>c_bytes := []\<rparr>" by (simp add: chip_consume_def)
  have a: "chip_clock False (receiving True (bit b 0) (byte_bits b) [] c) = acking False (bit b 0) [b] (c\<lparr>c_bytes := []\<rparr>)"
    using byte_complete [of "[]" b c] assms(1) c by simp
  show ?thesis unfolding i2c_read_ack_def write_byte_bits
    by (simp only: chip_pins chip_event.simps a acking_steps(1-3) acking_steps(4) [OF y] sending_data Let_def) simp
qed

lemma address_refused:
  assumes "drop_bit 1 b \<noteq> c_addr c"
  shows "\<exists>c'. i2c_read_ack chip_bus (i2c_write chip_bus b (receiving scl sda [] [] c)) = (NACK, c') \<and>
    c_mem c' = c_mem c \<and> c_mode c' = ChipIdle"
proof -
  have f: "chip_clock False (receiving True (bit b 0) (byte_bits b) [] c) =
    (receiving False (bit b 0) [] [] c)\<lparr>c_mode := ChipIdle\<rparr>"
    using assms by (simp add: chip_clock_def chip_fall_def Let_def receiving_def)
  show ?thesis unfolding i2c_read_ack_def write_byte_bits chip_pins chip_event.simps f
    by (simp add: Let_def chip_data_def chip_clock_def chip_rise_def chip_fall_def chip_line_def)
qed

lemma read_bits_sent:
  assumes "length bs = n"
  shows "read_bits n chip_bus data (sending bs bytes c) =
    (fold (\<lambda>b a. push_bit 1 a OR (if b then 1 else 0)) bs data, sending [] bytes c)"
  using assms
proof (induction n arbitrary: bs data)
  case 0
  then show ?case by simp
next
  case (Suc n)
  then obtain b r where bs: "bs = b # r" "length r = n" by (cases bs) auto
  have t: "pins chip_bus (SetScl False # (if n = 0 then [SdaOutput] else [])) (pins chip_bus [SetScl True] (sending bs bytes c)) =
    sending r bytes c"
    by (simp add: bs sending_def chip_clock_def chip_rise_def chip_fall_def chip_data_def)
  have l: "pin_in chip_bus (pins chip_bus [SetScl True] (sending bs bytes c)) = b"
    by (simp add: bs sending_def chip_clock_def chip_rise_def chip_line_def)
  show ?case unfolding read_bits.simps Let_def t l using Suc.IH [OF bs(2)] by (cases b) (simp_all add: bs)
qed

lemma read_byte_bits:
  "i2c_read chip_bus (sending (byte_bits b) bytes c) = (b, sending [] bytes c)"
proof -
  have "pins chip_bus [SdaInput] (sending (byte_bits b) bytes c) = sending (byte_bits b) bytes c"
    by (simp add: sending_def chip_data_def)
  then show ?thesis using bits_byte_bits [of b] by (simp add: i2c_read_def read_bits_sent bits_byte_def)
qed

lemma ask_more:
  "i2c_write_ask chip_bus ACK (sending [] bytes c) =
     (let p = (c_ptr c + 1) mod 256 ^ c_width c in sending (byte_bits (c_mem c p)) bytes (c\<lparr>c_ptr := p\<rparr>))"
  by (simp add: i2c_write_ask_def sending_def chip_clock_def chip_rise_def chip_fall_def chip_data_def Let_def)

lemma ask_no_more:
  "i2c_write_ask chip_bus NACK (sending [] bytes c) =
     (sending [] bytes c)\<lparr>c_mode := ChipIdle\<rparr>"
  by (simp add: i2c_write_ask_def sending_def chip_clock_def chip_rise_def chip_fall_def chip_data_def Let_def)

section \<open>Transfers to the device\<close>

fun chip_consumes :: "byte list \<Rightarrow> byte list \<Rightarrow> chip \<Rightarrow> chip" where
  "chip_consumes bytes [] c = c"
| "chip_consumes bytes (b # bs) c = chip_consumes (bytes @ [b]) bs (chip_consume b (c\<lparr>c_bytes := bytes\<rparr>))"

lemma chip_consumes_simps [simp]:
  "c_addr (chip_consumes bytes bs c) = c_addr c" "c_width (chip_consumes bytes bs c) = c_width c"
  by (induction bytes bs c rule: chip_consumes.induct) simp_all

definition stopped :: "byte list \<Rightarrow> chip \<Rightarrow> chip" where
  "stopped bytes c =
     c\<lparr>c_scl := True, c_sda := True, c_mode := ChipIdle, c_bits := [], c_bytes := bytes, c_ack := False\<rparr>"

lemma stop_receiving: "i2c_stop chip_bus (receiving False True [] bytes c) = stopped bytes c"
  by (simp add: i2c_stop_def receiving_def stopped_def chip_clock_def chip_data_def chip_rise_def)

lemma stop_sending: "i2c_stop chip_bus ((sending [] bytes c)\<lparr>c_mode := ChipIdle\<rparr>) = stopped bytes c"
  by (simp add: i2c_stop_def sending_def stopped_def chip_clock_def chip_data_def chip_rise_def)

lemma begin_idle: "c_scl c \<Longrightarrow> c_sda c \<Longrightarrow> i2c_begin chip_bus (i2c_init chip_bus c) = receiving True False [] [] c"
  by (simp add: i2c_begin_def i2c_init_def receiving_def chip_clock_def chip_data_def)

lemma begin_stopped: "i2c_begin chip_bus (stopped bytes c) = receiving True False [] [] c"
  by (simp add: i2c_begin_def stopped_def receiving_def chip_data_def)

definition taken :: "byte \<Rightarrow> byte list \<Rightarrow> chip \<Rightarrow> bool" where
  "taken b bytes c \<longleftrightarrow> bytes \<noteq> [] \<or> drop_bit 1 b = c_addr c \<and> \<not> bit b 0"

lemma acked_byte:
  "taken b bytes c \<Longrightarrow>
   acked chip_bus (i2c_write chip_bus b) rest (receiving scl sda [] bytes c) =
     rest (receiving False True [] (bytes @ [b]) (chip_consume b (c\<lparr>c_bytes := bytes\<rparr>)))"
  using byte_acknowledged [of bytes b c scl sda] by (auto simp: acked_def taken_def)

lemma send_byte:
  "taken b bytes c \<Longrightarrow>
   send_then chip_bus (i2c_write chip_bus b # wrs) rest (receiving scl sda [] bytes c) =
     send_then chip_bus wrs rest (receiving False True [] (bytes @ [b]) (chip_consume b (c\<lparr>c_bytes := bytes\<rparr>)))"
  using byte_acknowledged [of bytes b c scl sda] by (auto simp: taken_def)

lemma write_rest_taken:
  assumes "bytes \<noteq> []"
  shows "write_rest chip_bus bs (receiving False True [] bytes c) = (ACK, stopped (bytes @ bs) (chip_consumes bytes bs c))"
  using assms by (induction bs arbitrary: bytes c) (simp_all add: stop_receiving acked_byte taken_def)

fun stored :: "nat \<Rightarrow> nat \<Rightarrow> byte list \<Rightarrow> (nat \<Rightarrow> byte) \<Rightarrow> nat \<Rightarrow> byte" where
  "stored m p [] mem = mem"
| "stored m p (v # vs) mem = stored m ((p + 1) mod m) vs (mem(p := v))"

lemma consumes_values:
  assumes "c_width c < length bytes" "bytes \<noteq> []"
  shows "c_mem (chip_consumes bytes vs c) = stored (256 ^ c_width c) (c_ptr c) vs (c_mem c)"
  using assms
proof (induction vs arbitrary: bytes c)
  case (Cons v vs)
  have "chip_consume v (c\<lparr>c_bytes := bytes\<rparr>) =
    c\<lparr>c_bytes := bytes, c_mem := (c_mem c)(c_ptr c := v), c_ptr := (c_ptr c + 1) mod 256 ^ c_width c\<rparr>"
    using Cons.prems by (simp add: chip_consume_def)
  then show ?case using Cons.prems by (simp add: Cons.IH fun_upd_def)
qed simp

lemma stored_outside:
  "(\<forall>i < length vs. (p + i) mod m \<noteq> q) \<Longrightarrow> p < m \<Longrightarrow> stored m p vs mem q = mem q"
proof (induction vs arbitrary: p mem)
  case (Cons v vs)
  have "((p + 1) mod m + i) mod m = (p + Suc i) mod m" for i by (simp add: mod_simps)
  then have "\<forall>i < length vs. ((p + 1) mod m + i) mod m \<noteq> q" using Cons.prems(1) by auto
  moreover have "p \<noteq> q" using Cons.prems by force
  ultimately show ?case using Cons.IH [of "(p + 1) mod m"] Cons.prems(2) by simp
qed simp

lemma mod_shift: "p < m \<Longrightarrow> 0 < k \<Longrightarrow> k < m \<Longrightarrow> (p + k) mod m \<noteq> (p :: nat)"
  by (cases "p + k < m") (simp_all add: le_mod_geq)

lemma stored_at:
  "i < length vs \<Longrightarrow> length vs \<le> m \<Longrightarrow> p < m \<Longrightarrow> stored m p vs mem ((p + i) mod m) = vs ! i"
proof (induction vs arbitrary: p mem i)
  case (Cons v vs)
  have e: "((p + 1) mod m + j) mod m = (p + Suc j) mod m" for j by (simp add: mod_simps)
  show ?case
  proof (cases i)
    case 0
    have "(p + Suc j) mod m \<noteq> p" if "j < length vs" for j
      using that Cons.prems by (intro mod_shift) auto
    then show ?thesis using Cons.prems e 0 stored_outside [of vs "(p + 1) mod m" m p] by simp
  next
    case (Suc k)
    then show ?thesis using Cons.IH [of k "(p + 1) mod m"] Cons.prems e [of k] by simp
  qed
qed simp

section \<open>Reading and writing registers\<close>

lemma address_byte:
  assumes "\<not> bit a 7"
  shows "drop_bit 1 (push_bit 1 (a :: byte)) = a" "\<not> bit (push_bit 1 a) 0"
    "drop_bit 1 (push_bit 1 a OR 1) = a" "bit (push_bit 1 a OR 1) 0"
proof -
  show "\<not> bit (push_bit 1 a) 0" "bit (push_bit 1 a OR 1) 0" unfolding bit_or_iff shift_bit by auto
  have b: "bit (drop_bit 1 w) n = bit w (Suc n)" for w :: byte and n by (simp add: bit_drop_bit_eq)
  have s: "bit (push_bit 1 a) (Suc n) = bit a n" if "n < LENGTH(8)" for n
    using that assms unfolding shift_bit by (cases "n = 7") auto
  show "drop_bit 1 (push_bit 1 a) = a" by (rule bit_word_eqI) (simp only: b s)
  have "\<not> bit (1 :: byte) (Suc n)" for n by (simp add: bit_1_iff)
  then show "drop_bit 1 (push_bit 1 a OR 1) = a" by (intro bit_word_eqI) (simp only: b s bit_or_iff, simp)
qed

lemma consume_address: "chip_consume b (c\<lparr>c_bytes := []\<rparr>) = c\<lparr>c_bytes := []\<rparr>"
  by (simp add: chip_consume_def)

lemma read_loop_sends:
  assumes "0 < n" "c_ptr c < 256 ^ c_width c"
  shows "read_loop n chip_bus (sending (byte_bits (c_mem c (c_ptr c))) bytes c) =
    (map (\<lambda>i. c_mem c ((c_ptr c + i) mod 256 ^ c_width c)) [0..<n],
     (sending [] bytes (c\<lparr>c_ptr := (c_ptr c + (n - 1)) mod 256 ^ c_width c\<rparr>))\<lparr>c_mode := ChipIdle\<rparr>)"
  using assms
proof (induction n arbitrary: c)
  case (Suc n)
  show ?case
  proof (cases "n = 0")
    case True
    then show ?thesis using Suc.prems by (simp add: read_byte_bits ask_no_more)
  next
    case False
    let ?p = "(c_ptr c + 1) mod 256 ^ c_width c"
    have e: "(?p + i) mod 256 ^ c_width c = (c_ptr c + Suc i) mod 256 ^ c_width c" for i by (simp add: mod_simps)
    have q: "(?p + (n - 1)) mod 256 ^ c_width c = (c_ptr c + n) mod 256 ^ c_width c" using e [of "n - 1"] False by simp
    have s: "[0..<Suc n] = 0 # map Suc [0..<n]" by (simp add: upt_conv_Cons map_Suc_upt del: upt_Suc)
    show ?thesis using False Suc.IH [of "c\<lparr>c_ptr := ?p\<rparr>"] Suc.prems e q
      by (simp add: read_byte_bits ask_more Let_def s comp_def del: upt_Suc)
  qed
qed simp

text \<open>A device with the address \<open>a\<close> and register numbers of \<open>w\<close> bytes, on a bus at rest.\<close>

definition chip_ready :: "byte \<Rightarrow> nat \<Rightarrow> chip \<Rightarrow> bool" where
  "chip_ready a w c \<longleftrightarrow> c_scl c \<and> c_sda c \<and> c_addr c = a \<and> \<not> bit a 7 \<and> c_width c = w"

lemma read_part_sends:
  assumes "\<not> bit (c_addr c) 7" "0 < n" "c_ptr c < 256 ^ c_width c"
  shows "\<exists>c'. read_part chip_bus (c_addr c) n (receiving False True [] bytes c) =
    (ACK, map (\<lambda>i. c_mem c ((c_ptr c + i) mod 256 ^ c_width c)) [0..<n], c') \<and> c_mem c' = c_mem c \<and>
    (chip_ready (c_addr c) w c \<longrightarrow> chip_ready (c_addr c) w c')"
proof -
  have "i2c_read_ack chip_bus (i2c_write_chip_addr chip_bus (c_addr c) hkj_READ (receiving True False [] [] c)) =
    (ACK, sending (byte_bits (c_mem c (c_ptr c))) [push_bit 1 (c_addr c) OR 1] (c\<lparr>c_bytes := []\<rparr>))"
    unfolding i2c_write_chip_addr_def using address_byte [OF assms(1)] by (simp only: i2c_WR_flag.case read_address_acknowledged)
  then show ?thesis using read_loop_sends [of n "c\<lparr>c_bytes := []\<rparr>" "[push_bit 1 (c_addr c) OR 1]"] assms(2,3)
    unfolding read_part_def stop_receiving begin_stopped by (simp add: stop_sending) (simp add: stopped_def chip_ready_def)
qed

lemma begin_ready: "chip_ready a w c \<Longrightarrow> i2c_begin chip_bus (i2c_init chip_bus c) = receiving True False [] [] c"
  by (simp add: chip_ready_def begin_idle)

lemma taken_address: "chip_ready a w c \<Longrightarrow> taken (push_bit 1 a) [] c"
  using address_byte [of a] by (simp only: taken_def chip_ready_def) simp

lemma taken_next: "bytes \<noteq> [] \<Longrightarrow> taken b bytes c"
  by (simp add: taken_def)

lemma write_address: "i2c_write_chip_addr bus a hkj_WRITE = i2c_write bus (push_bit 1 a)"
  by (simp add: i2c_write_chip_addr_def)

lemma stored_ready: "chip_ready a w c \<Longrightarrow> chip_ready a w (stopped bytes (chip_consumes bs vs c))"
  by (simp add: chip_ready_def stopped_def)

lemma consume_number:
  "length bytes \<le> c_width c \<Longrightarrow> bytes \<noteq> [] \<Longrightarrow>
   c_ptr (chip_consume b (c\<lparr>c_bytes := bytes\<rparr>)) = ((if length bytes = 1 then 0 else c_ptr c) * 256 + unat b) mod 256 ^ c_width c \<and>
   c_mem (chip_consume b (c\<lparr>c_bytes := bytes\<rparr>)) = c_mem c"
  by (simp add: chip_consume_def)

lemma write_register:
  assumes "chip_ready a 1 c" "length vs \<le> 254"
  shows "\<exists>c'. i2c_write_byte chip_bus a (r # vs) c = Inr (Some (ACK, c')) \<and> chip_ready a 1 c' \<and>
    c_mem c' = stored 256 (unat r) vs (c_mem c)"
proof -
  define aw where "aw = push_bit 1 a"
  have aw: "i2c_write_chip_addr chip_bus a hkj_WRITE = i2c_write chip_bus aw" "taken aw [] c"
    using taken_address [OF assms(1)] by (simp_all only: aw_def write_address)
  define c0 where "c0 = chip_consume aw (c\<lparr>c_bytes := []\<rparr>)"
  define c1 where "c1 = chip_consume r (c0\<lparr>c_bytes := [aw]\<rparr>)"
  define bytes where "bytes = [aw] @ [r]"
  have c0: "c_width c0 = 1" "c_mem c0 = c_mem c" "chip_ready a 1 c0"
    using assms(1) by (simp_all add: c0_def consume_address chip_ready_def)
  have "unat r < 256" using unsigned_less [of r, where ?'a = nat] by simp
  then have c1: "c_width c1 = 1" "c_ptr c1 = unat r" "c_mem c1 = c_mem c" "chip_ready a 1 c1"
    using consume_number [of "[aw]" c0 r] c0 by (simp_all add: c1_def chip_ready_def)
  have "i2c_write_byte chip_bus a (r # vs) c = Inr (Some (ACK, stopped (bytes @ vs) (chip_consumes bytes vs c1)))"
    using assms(2)
    by (simp add: i2c_write_byte_def begin_ready [OF assms(1)] aw(1) acked_byte [OF aw(2)]
      c0_def [symmetric] acked_byte [OF taken_next] c1_def [symmetric] write_rest_taken bytes_def)
  moreover have "c_mem (stopped (bytes @ vs) (chip_consumes bytes vs c1)) = stored 256 (unat r) vs (c_mem c)"
    using consumes_values [of c1 bytes vs] c1 by (simp add: stopped_def bytes_def)
  ultimately show ?thesis using stored_ready [OF c1(4)] by blast
qed

lemma read_register:
  fixes r :: byte
  assumes "chip_ready a 1 c" "0 < n" "n \<le> 255"
  shows "\<exists>c'. i2c_read_byte chip_bus a (ucast r) n c = Some (ACK, map (\<lambda>i. c_mem c ((unat r + i) mod 256)) [0..<n], c') \<and>
    chip_ready a 1 c' \<and> c_mem c' = c_mem c"
proof -
  define aw where "aw = push_bit 1 a"
  have aw: "i2c_write_chip_addr chip_bus a hkj_WRITE = i2c_write chip_bus aw" "taken aw [] c"
    using taken_address [OF assms(1)] by (simp_all only: aw_def write_address)
  define c0 where "c0 = chip_consume aw (c\<lparr>c_bytes := []\<rparr>)"
  define c1 where "c1 = chip_consume r (c0\<lparr>c_bytes := [aw]\<rparr>)"
  have c0: "c_width c0 = 1" "c_mem c0 = c_mem c" "chip_ready a 1 c0"
    using assms(1) by (simp_all add: c0_def consume_address chip_ready_def)
  have "unat r < 256" using unsigned_less [of r, where ?'a = nat] by simp
  then have c1: "c_width c1 = 1" "c_ptr c1 = unat r" "c_mem c1 = c_mem c" "c_addr c1 = a" "\<not> bit a 7" "c_ptr c1 < 256"
    "chip_ready a 1 c1"
    using consume_number [of "[aw]" c0 r] c0 by (simp_all add: c1_def chip_ready_def)
  have "i2c_read_byte chip_bus a (ucast r) n c =
    Some (read_part chip_bus a n (receiving False True [] ([aw] @ [r]) c1))"
    using assms(3)
    by (simp add: i2c_read_byte_def begin_ready [OF assms(1)] aw(1) send_byte [OF aw(2)]
      c0_def [symmetric] send_byte [OF taken_next] c1_def [symmetric] del: send_then.simps(2))
  then show ?thesis using read_part_sends [of c1 n "[aw] @ [r]" 1] assms(2) c1 by auto
qed

definition wide_register :: "byte \<Rightarrow> byte \<Rightarrow> nat" where
  "wide_register hi lo = (unat hi * 256 + unat lo) mod 65536"

text \<open>The states of a device with wide registers after the address and the two bytes of a register number.\<close>

lemma wide_number:
  fixes hi lo :: byte
  assumes "chip_ready a 2 c"
  defines "aw \<equiv> push_bit 1 a"
  defines "c0 \<equiv> chip_consume aw (c\<lparr>c_bytes := []\<rparr>)"
  defines "c1 \<equiv> chip_consume hi (c0\<lparr>c_bytes := [aw]\<rparr>)"
  defines "c2 \<equiv> chip_consume lo (c1\<lparr>c_bytes := [aw, hi]\<rparr>)"
  shows "c_width c2 = 2" "c_ptr c2 = wide_register hi lo" "c_mem c2 = c_mem c" "chip_ready a 2 c2"
proof -
  have "c_width c0 = 2" "c_mem c0 = c_mem c" "chip_ready a 2 c0"
    using assms(1) by (simp_all add: c0_def consume_address chip_ready_def)
  moreover have "unat hi < 65536" using unsigned_less [of hi, where ?'a = nat] by simp
  ultimately have "c_width c1 = 2" "c_ptr c1 = unat hi" "c_mem c1 = c_mem c" "chip_ready a 2 c1"
    using consume_number [of "[aw]" c0 hi] by (simp_all add: c1_def chip_ready_def)
  then show "c_width c2 = 2" "c_ptr c2 = wide_register hi lo" "c_mem c2 = c_mem c" "chip_ready a 2 c2"
    using consume_number [of "[aw, hi]" c1 lo] by (simp_all add: c2_def chip_ready_def wide_register_def)
qed

lemma write_wide_register:
  assumes "chip_ready a 2 c" "length vs \<le> 253"
  shows "\<exists>c'. i2c_write_2byte chip_bus a (hi # lo # vs) c = Inr (Some (ACK, c')) \<and> chip_ready a 2 c' \<and>
    c_mem c' = stored 65536 (wide_register hi lo) vs (c_mem c)"
proof -
  define aw where "aw = push_bit 1 a"
  define c0 where "c0 = chip_consume aw (c\<lparr>c_bytes := []\<rparr>)"
  define c1 where "c1 = chip_consume hi (c0\<lparr>c_bytes := [aw]\<rparr>)"
  define c2 where "c2 = chip_consume lo (c1\<lparr>c_bytes := [aw, hi]\<rparr>)"
  have aw: "i2c_write_chip_addr chip_bus a hkj_WRITE = i2c_write chip_bus aw" "taken aw [] c"
    using taken_address [OF assms(1)] by (simp_all only: aw_def write_address)
  note c2 = wide_number [OF assms(1), of lo hi, folded aw_def, folded c0_def, folded c1_def, folded c2_def]
  have "i2c_write_2byte chip_bus a (hi # lo # vs) c = Inr (Some (ACK, stopped ([aw, hi, lo] @ vs) (chip_consumes [aw, hi, lo] vs c2)))"
    using assms(2)
    by (simp add: i2c_write_2byte_def begin_ready [OF assms(1)] aw(1) acked_byte [OF aw(2)] c0_def [symmetric]
      acked_byte [OF taken_next] c1_def [symmetric] c2_def [symmetric] write_rest_taken)
  moreover have "c_mem (stopped ([aw, hi, lo] @ vs) (chip_consumes [aw, hi, lo] vs c2)) = stored 65536 (wide_register hi lo) vs (c_mem c)"
    using consumes_values [of c2 "[aw, hi, lo]" vs] c2 by (simp add: stopped_def)
  ultimately show ?thesis using stored_ready [OF c2(4)] by blast
qed

lemma read_wide_register:
  assumes "chip_ready a 2 c" "0 < n" "n \<le> 255"
  shows "\<exists>c'. i2c_read_2byte chip_bus a sub n c =
    Some (ACK, map (\<lambda>i. c_mem c ((wide_register (ucast (drop_bit 8 sub)) (ucast sub) + i) mod 65536)) [0..<n], c') \<and>
    chip_ready a 2 c' \<and> c_mem c' = c_mem c"
proof -
  define hi :: byte where "hi = ucast (drop_bit 8 sub)"
  define lo :: byte where "lo = ucast sub"
  define aw where "aw = push_bit 1 a"
  define c0 where "c0 = chip_consume aw (c\<lparr>c_bytes := []\<rparr>)"
  define c1 where "c1 = chip_consume hi (c0\<lparr>c_bytes := [aw]\<rparr>)"
  define c2 where "c2 = chip_consume lo (c1\<lparr>c_bytes := [aw, hi]\<rparr>)"
  have aw: "i2c_write_chip_addr chip_bus a hkj_WRITE = i2c_write chip_bus aw" "taken aw [] c"
    using taken_address [OF assms(1)] by (simp_all only: aw_def write_address)
  note c2 = wide_number [OF assms(1), of lo hi, folded aw_def, folded c0_def, folded c1_def, folded c2_def]
  have a: "c_addr c2 = a" "\<not> bit a 7" "chip_ready a 2 c2" using c2(4) by (simp_all add: chip_ready_def)
  have "i2c_read_2byte chip_bus a sub n c = Some (read_part chip_bus a n (receiving False True [] [aw, hi, lo] c2))"
    using assms(3)
    by (simp add: i2c_read_2byte_def begin_ready [OF assms(1)] aw(1) hi_def [symmetric] lo_def [symmetric] send_byte [OF aw(2)]
      c0_def [symmetric] send_byte [OF taken_next] c1_def [symmetric] c2_def [symmetric] del: send_then.simps(2))
  then show ?thesis using read_part_sends [of c2 n "[aw, hi, lo]" 2] assms(2) a c2(1-3)
    by (auto simp: hi_def lo_def wide_register_def)
qed

lemma stored_read:
  assumes "length vs \<le> m" "p < m"
  shows "map (\<lambda>i. stored m p vs mem ((p + i) mod m)) [0..<length vs] = vs"
  using assms stored_at by (intro nth_equalityI) auto

lemma stop_idle_memory: "c_mode c = ChipIdle \<Longrightarrow> c_mem (i2c_stop chip_bus c) = c_mem c"
  by (simp add: i2c_stop_def chip_clock_def chip_data_def chip_fall_def chip_rise_def)

definition chip_new :: "byte \<Rightarrow> nat \<Rightarrow> chip" where
  "chip_new a w = \<lparr>c_addr = a, c_width = w, c_mem = (\<lambda>_. 0), c_ptr = 0, c_scl = True, c_sda = True, c_mode = ChipIdle,
     c_bits = [], c_bytes = [], c_ack = False\<rparr>"

lemma chip_new_ready: "\<not> bit a 7 \<Longrightarrow> chip_ready a w (chip_new a w)"
  by (simp add: chip_new_def chip_ready_def)

section \<open>What the driver writes it reads back\<close>

text \<open>
  (C16) Bits that the driver puts on the two pins arrive at a device with registers as the bytes that were to be written,
  and the driver reads exactly these bytes back; all other registers keep their values.
\<close>

theorem video_registers_roundtrip:
  assumes "chip_ready a 1 c" "vs \<noteq> []" "length vs \<le> 254"
  shows "\<exists>c' c''. i2c_write_byte chip_bus a (r # vs) c = Inr (Some (ACK, c')) \<and>
    i2c_read_byte chip_bus a (ucast r) (length vs) c' = Some (ACK, vs, c'') \<and>
    (\<forall>q. (\<forall>i < length vs. (unat r + i) mod 256 \<noteq> q) \<longrightarrow> c_mem c' q = c_mem c q)"
proof -
  have r: "unat r < 256" using unsigned_less [of r, where ?'a = nat] by simp
  obtain c' where c': "i2c_write_byte chip_bus a (r # vs) c = Inr (Some (ACK, c'))" "chip_ready a 1 c'"
    "c_mem c' = stored 256 (unat r) vs (c_mem c)"
    using write_register [OF assms(1,3)] by blast
  obtain c'' where "i2c_read_byte chip_bus a (ucast r) (length vs) c' = Some (ACK, vs, c'')"
    using read_register [OF c'(2), of "length vs" r] assms(2,3) stored_read [of vs 256 "unat r"] r c'(3) by auto
  then show ?thesis using c' stored_outside [of vs "unat r" 256] r by auto
qed

theorem video_registers_roundtrip_witness:
  "\<exists>c' c''. i2c_write_byte chip_bus 0x44 [0x10, 1, 2] (chip_new 0x44 1) = Inr (Some (ACK, c')) \<and>
    i2c_read_byte chip_bus 0x44 0x10 2 c' = Some (ACK, [1, 2], c'')"
proof -
  have r: "chip_ready 0x44 1 (chip_new 0x44 1)" by (rule chip_new_ready) simp
  have l: "length [1, 2 :: byte] = 2" by simp
  from video_registers_roundtrip [OF r, of "[1, 2]" "0x10", unfolded l] show ?thesis by auto
qed

text \<open>
  (C17) A device with another address does not answer: the write to it fails with \<open>NACK\<close>, not silently, and no register of the
  device that is on the bus changes.
\<close>

theorem video_absent_device:
  assumes "chip_ready a 1 c" "\<not> bit a' 7" "a' \<noteq> a" "length vs \<le> 254"
  shows "\<exists>c'. i2c_write_byte chip_bus a' (r # vs) c = Inr (Some (NACK, c')) \<and> c_mem c' = c_mem c"
proof -
  define aw where "aw = push_bit 1 a'"
  have "drop_bit 1 aw \<noteq> c_addr c" using address_byte(1) [OF assms(2)] assms(1,3) by (simp add: aw_def chip_ready_def)
  then obtain c1 where c1: "i2c_read_ack chip_bus (i2c_write chip_bus aw (receiving True False [] [] c)) = (NACK, c1)"
    "c_mem c1 = c_mem c" "c_mode c1 = ChipIdle"
    using address_refused by blast
  have "i2c_write_chip_addr chip_bus a' hkj_WRITE = i2c_write chip_bus aw" by (simp only: aw_def write_address)
  then show ?thesis using assms(4) c1 stop_idle_memory [OF c1(3)]
    by (simp add: i2c_write_byte_def begin_ready [OF assms(1)] acked_def)
qed

theorem video_absent_device_witness:
  "\<exists>c'. i2c_write_byte chip_bus 0x45 [1, 2] (chip_new 0x44 1) = Inr (Some (NACK, c')) \<and> c_mem c' 1 = 0"
  using video_absent_device [OF chip_new_ready, of "0x44" "0x45" "[2]" 1] by (auto simp: chip_new_def)

end
