(* ===== verification/Video_Port.thy ===== *)
theory Video_Port
  imports Video_I2c I2c
begin

text \<open>
  What the drivers of the video chips use of their serial bus: the four transfer functions of \<^verbatim>\<open>drivers/videoin/i2c_io.c\<close> and
  the reset pins.  The boards V1 and V2 move the pins themselves (\<open>Video_I2c\<close>); for the later boards the
  same file passes the transfers to the I2C access layer (\<open>I2c\<close>), through the functions \<open>SOC_I2C_Send\<close>, \<open>SOC_I2C_Rec\<close> and
  \<open>SOC_I2C_Rec_2B_SubAddr\<close> of \<^verbatim>\<open>drivers/interface/lidbg_interface.c\<close>.  The drivers above are the same code for both, and are modelled over this record.
\<close>

text \<open>
  A transfer in gets the caller's buffer and gives it back, filled as far as the transfer succeeded.  The reset pins are given by
  their logical level: \<open>False\<close> resets the chip.
\<close>

record 'd video_port =
  vp_write :: "byte \<Rightarrow> byte list \<Rightarrow> 'd \<Rightarrow> i2c_ack \<times> 'd"
  vp_write2 :: "byte \<Rightarrow> byte list \<Rightarrow> 'd \<Rightarrow> i2c_ack \<times> 'd"
  vp_read :: "byte \<Rightarrow> u32 \<Rightarrow> byte list \<Rightarrow> 'd \<Rightarrow> i2c_ack \<times> byte list \<times> 'd"
  vp_read2 :: "byte \<Rightarrow> u32 \<Rightarrow> byte list \<Rightarrow> 'd \<Rightarrow> i2c_ack \<times> byte list \<times> 'd"
  tw9912_RESX :: "bool \<Rightarrow> 'd \<Rightarrow> 'd"
  tc358_RESX :: "bool \<Rightarrow> 'd \<Rightarrow> 'd"

section \<open>Boards V1 and V2\<close>

text \<open>The drivers write between two and six bytes and read one to four, for which the loops of the transfers end (\<open>bit_port_total\<close>).\<close>

definition filled :: "byte list \<Rightarrow> i2c_ack \<times> byte list \<times> 'd \<Rightarrow> i2c_ack \<times> byte list \<times> 'd" where
  "filled data r = (case r of (a, bs, d) \<Rightarrow> (a, bs @ drop (length bs) data, d))"

definition bit_port :: "'d bus \<Rightarrow> (bool \<Rightarrow> 'd \<Rightarrow> 'd) \<Rightarrow> (bool \<Rightarrow> 'd \<Rightarrow> 'd) \<Rightarrow> 'd video_port" where
  "bit_port p tw tc =
     \<lparr>vp_write = (\<lambda>a data d. the (projr (i2c_write_byte p a data d))),
      vp_write2 = (\<lambda>a data d. the (projr (i2c_write_2byte p a data d))),
      vp_read = (\<lambda>a sub data d. filled data (the (i2c_read_byte p a sub (length data) d))),
      vp_read2 = (\<lambda>a sub data d. filled data (the (i2c_read_2byte p a sub (length data) d))),
      tw9912_RESX = tw, tc358_RESX = tc\<rparr>"

lemma bit_port_total:
  "0 < length data \<Longrightarrow> length data \<le> 255 \<Longrightarrow> i2c_write_byte p a data d = Inr (Some (vp_write (bit_port p tw tc) a data d))"
  "1 < length data \<Longrightarrow> length data \<le> 255 \<Longrightarrow> i2c_write_2byte p a data d = Inr (Some (vp_write2 (bit_port p tw tc) a data d))"
  "length data \<le> 255 \<Longrightarrow>
     map_option (filled data) (i2c_read_byte p a sub (length data) d) = Some (vp_read (bit_port p tw tc) a sub data d)"
  "length data \<le> 255 \<Longrightarrow>
     map_option (filled data) (i2c_read_2byte p a sub (length data) d) = Some (vp_read2 (bit_port p tw tc) a sub data d)"
  by (auto simp: bit_port_def i2c_write_byte_def i2c_write_2byte_def i2c_read_byte_def i2c_read_2byte_def split: list.split)

section \<open>Later boards\<close>

definition v3_ack :: "int \<Rightarrow> i2c_ack" where
  "v3_ack ret = (if ret > 0 then ACK else NACK)"

definition v3_write :: "'b i2c_core \<Rightarrow> byte \<Rightarrow> byte list \<Rightarrow> 'b i2c_state \<Rightarrow> i2c_ack \<times> 'b i2c_state" where
  "v3_write core a data s =
     (let (ret_send, _, s') = i2c_api_do_send core 3 a 0 data (of_nat (length data)) s in (v3_ack ret_send, s'))"

definition v3_read :: "'b i2c_core \<Rightarrow> byte \<Rightarrow> u32 \<Rightarrow> byte list \<Rightarrow> 'b i2c_state \<Rightarrow> i2c_ack \<times> byte list \<times> 'b i2c_state" where
  "v3_read core a sub data s =
     (let (ret, data', s') = i2c_api_do_recv core 3 a sub data (of_nat (length data)) s in (v3_ack ret, data', s'))"

definition TC358746_I2C_ChipAdd :: byte where "TC358746_I2C_ChipAdd = 0x07"

text \<open>The address argument of the read with a wide register number is not used here.\<close>

definition v3_read2 :: "'b i2c_core \<Rightarrow> byte \<Rightarrow> u32 \<Rightarrow> byte list \<Rightarrow> 'b i2c_state \<Rightarrow> i2c_ack \<times> byte list \<times> 'b i2c_state" where
  "v3_read2 core a sub data s =
     (let (ret_rec, data', s') =
        i2c_api_do_recv_sub_addr_2bytes core 3 TC358746_I2C_ChipAdd sub data (of_nat (length data)) s
      in (v3_ack ret_rec, data', s'))"

definition v3_port ::
  "'b i2c_core \<Rightarrow> (bool \<Rightarrow> 'b i2c_state \<Rightarrow> 'b i2c_state) \<Rightarrow> (bool \<Rightarrow> 'b i2c_state \<Rightarrow> 'b i2c_state) \<Rightarrow> 'b i2c_state video_port" where
  "v3_port core tw tc =
     \<lparr>vp_write = v3_write core, vp_write2 = v3_write core, vp_read = v3_read core, vp_read2 = v3_read2 core,
      tw9912_RESX = tw, tc358_RESX = tc\<rparr>"

section \<open>What the drivers rely on\<close>

text \<open>
  The decoder behind a port: single registers are written and read, a read changes no register, and after a reset the chip answers again.
\<close>

definition TW9912_I2C_ChipAdd :: byte where "TW9912_I2C_ChipAdd = 0x44"

locale decoder_port =
  fixes port :: "'d video_port"
    and regs :: "'d \<Rightarrow> byte \<Rightarrow> byte"
    and ready :: "'d \<Rightarrow> bool"
  assumes wr: "ready d \<Longrightarrow> \<exists>d'. vp_write port TW9912_I2C_ChipAdd [r, v] d = (ACK, d') \<and> ready d' \<and> regs d' = (regs d)(r := v)"
    and rd: "ready d \<Longrightarrow> \<exists>d'. vp_read port TW9912_I2C_ChipAdd (ucast r) [old] d = (ACK, [regs d r], d') \<and> ready d' \<and> regs d' = regs d"
    and rst: "ready d \<Longrightarrow> ready (tw9912_RESX port True (tw9912_RESX port False d))"

text \<open>The reference device of \<open>Video_I2c\<close> on its two pins; a reset clears its registers.\<close>

definition chip_resx :: "bool \<Rightarrow> chip \<Rightarrow> chip" where
  "chip_resx v c = (if v then c else c\<lparr>c_mem := \<lambda>_. 0, c_mode := ChipIdle\<rparr>)"

definition chip_regs :: "chip \<Rightarrow> byte \<Rightarrow> byte" where
  "chip_regs c r = c_mem c (unat r)"

lemma stored_one: "stored m p [v] mem = mem(p := v)"
  by simp

interpretation bits: decoder_port "bit_port chip_bus chip_resx tc" chip_regs "chip_ready TW9912_I2C_ChipAdd 1"
  for tc
proof
  fix d :: chip and r v old :: byte
  assume d: "chip_ready TW9912_I2C_ChipAdd 1 d"
  obtain c' where c': "i2c_write_byte chip_bus TW9912_I2C_ChipAdd (r # [v]) d = Inr (Some (ACK, c'))"
    "chip_ready TW9912_I2C_ChipAdd 1 c'" "c_mem c' = stored 256 (unat r) [v] (c_mem d)"
    using write_register [OF d, of "[v]" r] by auto
  then have "chip_regs c' = (chip_regs d)(r := v)" by (auto simp: chip_regs_def fun_eq_iff word_unat_eq_iff)
  then show "\<exists>d'. vp_write (bit_port chip_bus chip_resx tc) TW9912_I2C_ChipAdd [r, v] d = (ACK, d') \<and>
      chip_ready TW9912_I2C_ChipAdd 1 d' \<and> chip_regs d' = (chip_regs d)(r := v)"
    using c' by (simp add: bit_port_def)
  have r: "unat r < 256" using unsigned_less [of r, where ?'a = nat] by simp
  obtain c'' where "i2c_read_byte chip_bus TW9912_I2C_ChipAdd (ucast r) 1 d = Some (ACK, [c_mem d (unat r)], c'')"
    "chip_ready TW9912_I2C_ChipAdd 1 c''" "c_mem c'' = c_mem d"
    using read_register [OF d, of 1 r] r by auto
  then show "\<exists>d'. vp_read (bit_port chip_bus chip_resx tc) TW9912_I2C_ChipAdd (ucast r) [old] d = (ACK, [chip_regs d r], d') \<and>
      chip_ready TW9912_I2C_ChipAdd 1 d' \<and> chip_regs d' = chip_regs d"
    by (auto simp: bit_port_def filled_def chip_regs_def fun_eq_iff)
  show "chip_ready TW9912_I2C_ChipAdd 1 (tw9912_RESX (bit_port chip_bus chip_resx tc) True (tw9912_RESX (bit_port chip_bus chip_resx tc) False d))"
    using d by (simp add: bit_port_def chip_resx_def chip_ready_def)
qed

text \<open>A chip with registers on the third bus of the I2C layer.\<close>

definition on_bus3 :: "'b i2c_state \<Rightarrow> bool" where
  "on_bus3 s \<longleftrightarrow> get_i2c_api 3 s \<noteq> None"

definition bus_resx :: "bool \<Rightarrow> (byte \<Rightarrow> byte) i2c_state \<Rightarrow> (byte \<Rightarrow> byte) i2c_state" where
  "bus_resx v s = (if v then s else s\<lparr>bus := \<lambda>_. 0\<rparr>)"

lemma v3_known:
  "on_bus3 s \<Longrightarrow> on_bus3 (snd (snd (i2c_api_do_send core 3 a sub data n s)))"
  "on_bus3 s \<Longrightarrow> on_bus3 (snd (snd (i2c_api_do_recv core 3 a sub data n s)))"
  using do_xfer_known unfolding on_bus3_def i2c_api_do_send_def i2c_api_do_recv_def by (metis prod.collapse)+

interpretation v3: decoder_port "v3_port regfile_core bus_resx tc" bus on_bus3
  for tc
proof
  fix d :: "(byte \<Rightarrow> byte) i2c_state" and r v old :: byte
  assume d: "on_bus3 d"
  then obtain c where c: "get_i2c_api 3 d = Some c" by (auto simp: on_bus3_def)
  have "\<exists>m. i2c_transfer regfile_core 3 [wr_msg (ucast TW9912_I2C_ChipAdd) [r, v]] (bus d) = (1, m, (bus d)(r := v))"
    by (auto simp: regfile_core_def wr_msg_def fun_eq_iff unat_eq_0)
  then obtain m where "i2c_transfer regfile_core 3 [wr_msg (ucast TW9912_I2C_ChipAdd) [r, v]] (bus d) = (1, m, (bus d)(r := v))" ..
  from do_send_msgs [OF c this, of 2 0] obtain s' where
    s': "i2c_api_do_send regfile_core 3 TW9912_I2C_ChipAdd 0 [r, v] 2 d = (1, buf (last m), s')" "bus s' = (bus d)(r := v)"
    "on_bus3 s'"
    by (auto simp: on_bus3_def)
  then show "\<exists>d'. vp_write (v3_port regfile_core bus_resx tc) TW9912_I2C_ChipAdd [r, v] d = (ACK, d') \<and> on_bus3 d' \<and>
      bus d' = (bus d)(r := v)"
    by (simp add: v3_port_def v3_write_def v3_ack_def)
  have "\<exists>m. i2c_transfer regfile_core 3 [wr_msg (ucast TW9912_I2C_ChipAdd) [sub_byte 0 (ucast r)],
      \<lparr>addr = ucast TW9912_I2C_ChipAdd, flags = I2C_M_RD, len = of_nat (length [old]), buf = [old]\<rparr>] (bus d) = (2, m, bus d) \<and>
      buf (last m) = [bus d r]"
    by (simp add: regfile_core_def wr_msg_def)
  then obtain m where m: "i2c_transfer regfile_core 3 [wr_msg (ucast TW9912_I2C_ChipAdd) [sub_byte 0 (ucast r)],
      \<lparr>addr = ucast TW9912_I2C_ChipAdd, flags = I2C_M_RD, len = of_nat (length [old]), buf = [old]\<rparr>] (bus d) = (2, m, bus d)"
    "buf (last m) = [bus d r]" by blast
  have k: "get_i2c_api 3 d \<noteq> None" using c by simp
  from do_recv_msgs [OF k _ m(1), of 1] obtain s'' where
    s'': "i2c_api_do_recv regfile_core 3 TW9912_I2C_ChipAdd (ucast r) [old] 1 d = (2, [bus d r], s'')" "bus s'' = bus d"
    using m(2) by auto
  moreover have "on_bus3 s''" using v3_known(2) [OF d, of regfile_core TW9912_I2C_ChipAdd "ucast r" "[old]" 1] s''(1) by simp
  ultimately show "\<exists>d'. vp_read (v3_port regfile_core bus_resx tc) TW9912_I2C_ChipAdd (ucast r) [old] d = (ACK, [bus d r], d') \<and>
      on_bus3 d' \<and> bus d' = bus d"
    by (simp add: v3_port_def v3_read_def v3_ack_def)
  show "on_bus3 (tw9912_RESX (v3_port regfile_core bus_resx tc) True (tw9912_RESX (v3_port regfile_core bus_resx tc) False d))"
    using d by (simp add: v3_port_def bus_resx_def on_bus3_def get_i2c_api_def)
qed

end
