(* ===== verification/Tw9912.thy ===== *)
theory Tw9912
  imports Video_Port
begin

text \<open>
  The driver of the video decoder, \<^verbatim>\<open>drivers/videoin/tw9912.c\<close>, over either serial bus: the choice of the input, the detection of
  the format of its signal, and the programming of the chip with the table for this format.

  Local variables of the code that a failed read leaves unset have the value \<open>u\<close>, an argument.  The mutexes and the delays have no
  counterpart: a function runs as a whole.
\<close>

datatype vedio_channel_t = YIN0 | YIN1 | YIN2 | YIN3 | SEPARATION | NOTONE
datatype vedio_format_t = NTSC_I | PAL_I | NTSC_P | PAL_P | STOP_VIDEO | COLORBAR | OTHER
datatype Source_in = source_60Hz | source_50Hz | source_other

text \<open>The values of the enumerations.\<close>

fun channel_nr :: "vedio_channel_t \<Rightarrow> nat" where
  "channel_nr YIN0 = 0"
| "channel_nr YIN1 = 1"
| "channel_nr YIN2 = 2"
| "channel_nr YIN3 = 3"
| "channel_nr SEPARATION = 4"
| "channel_nr NOTONE = 5"

fun format_nr :: "vedio_format_t \<Rightarrow> int" where
  "format_nr NTSC_I = 1"
| "format_nr PAL_I = 2"
| "format_nr NTSC_P = 3"
| "format_nr PAL_P = 4"
| "format_nr STOP_VIDEO = 5"
| "format_nr COLORBAR = 6"
| "format_nr OTHER = 7"

record tw9912_signal_t =
  sig_Channel :: vedio_channel_t
  sig_Format :: vedio_format_t
  sig_source :: Source_in

text \<open>\<open>st_flag\<close> is \<open>TW9912_initall_yes\<close>.\<close>

record tw9912_initall_status_t =
  st_flag :: bool
  st_Channel :: vedio_channel_t
  st_format :: vedio_format_t

record last_config_t =
  lc_Channel :: vedio_channel_t
  lc_format :: vedio_format_t

record tw9912_input_info_t =
  chip_status1 :: byte
  component_video_format :: byte
  macrovision_detection :: byte
  input_detection :: byte

text \<open>The static variables of the driver, and the device behind the port.\<close>

record 'd tw9912 =
  signal_is_how :: "tw9912_signal_t list"
  tw9912_status :: tw9912_initall_status_t
  the_last_config :: last_config_t
  tw912_run_sotp_format :: "vedio_format_t option"
  car_backing_times_cnt :: u32
  tw9912_reset_flag_jam :: byte
  tw9912_input_information :: tw9912_input_info_t
  information_status :: tw9912_input_info_t
  information_status_next :: tw9912_input_info_t
  chip_dev :: 'd

definition input_info :: "byte \<Rightarrow> tw9912_input_info_t" where
  "input_info u = \<lparr>chip_status1 = u, component_video_format = u, macrovision_detection = u, input_detection = u\<rparr>"

definition tw9912_start :: "'d \<Rightarrow> 'd tw9912" where
  "tw9912_start d =
     \<lparr>signal_is_how = replicate 5 \<lparr>sig_Channel = NOTONE, sig_Format = OTHER, sig_source = source_other\<rparr>,
      tw9912_status = \<lparr>st_flag = False, st_Channel = NOTONE, st_format = OTHER\<rparr>,
      the_last_config = \<lparr>lc_Channel = NOTONE, lc_format = OTHER\<rparr>, tw912_run_sotp_format = None,
      car_backing_times_cnt = 0, tw9912_reset_flag_jam = 0, tw9912_input_information = input_info 0,
      information_status = input_info 0, information_status_next = input_info 0, chip_dev = d\<rparr>"

section \<open>Tables\<close>

text \<open>Pairs of a register and its value, ended by \<open>0xfe\<close>.\<close>

definition TW9912_YIN3ToYUV_INIT_AGAIN :: "byte list" where
  "TW9912_YIN3ToYUV_INIT_AGAIN =
     [0x02, 0x70, 0x03, 0x20, 0x06, 0x00, 0x07, 0x11, 0x08, 0x1e, 0x09, 0xee, 0x0a, 0x0b, 0x0b, 0x92,
      0x0c, 0xdc, 0xc0, 0x10, 0xc2, 0xc2, 0xc3, 0x06, 0xc4, 0xb5, 0xc5, 0x10, 0xc6, 0x26, 0xc9, 0x01,
      0xcb, 0xf0, 0xe6, 0x02, 0xe8, 0x30, 0xfe]"

definition TW9912_INIT_AGAIN :: "byte list" where
  "TW9912_INIT_AGAIN =
     [0x02, 0x4c, 0x03, 0x20, 0x06, 0x03, 0xc0, 0x01, 0xe6, 0x00, 0xe8, 0x3f, 0xfe]"

definition TW9912_INIT_NTSC_Interlaced_input :: "byte list" where
  "TW9912_INIT_NTSC_Interlaced_input =
     [0x02, 0x4c, 0x03, 0x20, 0x05, 0x1e, 0x06, 0x03, 0x07, 0x02, 0x08, 0x17, 0x09, 0xf9, 0x0a, 0x25,
      0x0b, 0xec, 0x0c, 0xcc, 0x12, 0x33, 0x15, 0x00, 0x17, 0x34, 0x1c, 0x07, 0x1e, 0x08, 0x24, 0xbc,
      0x27, 0x38, 0x29, 0xe0, 0x2a, 0x78, 0x2c, 0x40, 0x2f, 0x24, 0x30, 0x00, 0x35, 0x00, 0x36, 0xe8,
      0x37, 0x2d, 0x38, 0x01, 0xc0, 0x01, 0xc1, 0xc7, 0xc2, 0x01, 0xcb, 0x30, 0xd0, 0x00, 0xd1, 0xf0,
      0xd2, 0xf0, 0xd3, 0xf0, 0xe1, 0x49, 0xe8, 0x3f, 0xe9, 0x61, 0xfe]"

definition TW9912_INIT_NTSC_Progressive_input :: "byte list" where
  "TW9912_INIT_NTSC_Progressive_input =
     [0x02, 0x70, 0x03, 0x20, 0x05, 0x20, 0x06, 0x00, 0x07, 0x11, 0x08, 0x1e, 0x09, 0xee, 0x0a, 0x0b,
      0x0b, 0x92, 0x0c, 0xdc, 0x0d, 0xff, 0x10, 0x00, 0x12, 0x34, 0x17, 0x33, 0x1c, 0x07, 0x1e, 0x22,
      0x24, 0x3c, 0x27, 0x3c, 0x29, 0xe0, 0x2a, 0x78, 0x2c, 0x30, 0x2d, 0x00, 0x2f, 0xe6, 0x35, 0xff,
      0x36, 0xe2, 0x37, 0x2a, 0x38, 0x5d, 0xc0, 0x10, 0xc2, 0xc2, 0xc3, 0x06, 0xc4, 0xb5, 0xc5, 0x10,
      0xc6, 0x26, 0xc9, 0x01, 0xcb, 0xf0, 0xcc, 0x40, 0xd0, 0x07, 0xd1, 0x88, 0xd2, 0x88, 0xd3, 0x88,
      0xd7, 0x50, 0xd9, 0x07, 0xe1, 0x49, 0xe2, 0xda, 0xe6, 0x02, 0xe8, 0x30, 0xe9, 0xa0, 0xfe]"

definition TW9912_INIT_PAL_Interlaced_input :: "byte list" where
  "TW9912_INIT_PAL_Interlaced_input =
     [0x02, 0x4c, 0x03, 0x20, 0x05, 0x1e, 0x06, 0x03, 0x07, 0x22, 0x08, 0x17, 0x09, 0x40, 0x0a, 0x17,
      0x0b, 0xe0, 0x0c, 0xcc, 0x0d, 0x15, 0x12, 0xf3, 0x15, 0x00, 0x17, 0x33, 0x1c, 0x17, 0x1e, 0x18,
      0x24, 0xbc, 0x27, 0x38, 0x29, 0xe0, 0x2a, 0x78, 0x2c, 0x30, 0x2f, 0x24, 0x30, 0x00, 0x35, 0x00,
      0x36, 0xe8, 0x37, 0x2d, 0x38, 0x01, 0xc0, 0x01, 0xc1, 0xc7, 0xc2, 0x01, 0xcb, 0x30, 0xd0, 0x00,
      0xd1, 0xf0, 0xd2, 0xf0, 0xd3, 0xf0, 0xe1, 0x49, 0xe8, 0x3f, 0xe9, 0x61, 0xfe]"

definition TW9912_INIT_PAL_Progressive_input :: "byte list" where
  "TW9912_INIT_PAL_Progressive_input =
     [0x02, 0x60, 0x03, 0x20, 0x04, 0x00, 0x05, 0x20, 0x06, 0x00, 0x07, 0x21, 0x08, 0x18, 0x09, 0x40,
      0x0a, 0x00, 0x0b, 0x70, 0x0d, 0x15, 0x12, 0x1e, 0x10, 0xfc, 0x13, 0x80, 0x14, 0x80, 0x15, 0x00,
      0x17, 0x34, 0x18, 0x44, 0x1a, 0x10, 0x1b, 0x00, 0x1e, 0x22, 0x20, 0x50, 0x21, 0x42, 0x22, 0xf0,
      0x23, 0xd8, 0x24, 0xbc, 0x25, 0xb8, 0x26, 0x44, 0x27, 0x38, 0x28, 0x00, 0x29, 0x80, 0x2a, 0x78,
      0x2b, 0x44, 0x2c, 0x30, 0x2f, 0x24, 0x34, 0x1a, 0x36, 0xe2, 0x37, 0x2a, 0x38, 0x5d, 0x40, 0x00,
      0x41, 0x80, 0x42, 0x00, 0xc0, 0x10, 0xc2, 0xc2, 0xc3, 0x06, 0xc4, 0xb4, 0xc5, 0x10, 0xc6, 0x26,
      0xc9, 0x01, 0xcb, 0xf0, 0xcc, 0x40, 0xcd, 0x54, 0xd0, 0x00, 0xd1, 0xf0, 0xd2, 0xf0, 0xd3, 0xf0,
      0xd4, 0x00, 0xd7, 0x50, 0xd8, 0x00, 0xd9, 0x10, 0xda, 0x80, 0xdb, 0x80, 0xe1, 0x49, 0xe2, 0xda,
      0xe3, 0x00, 0xe4, 0x00, 0xe5, 0x00, 0xe6, 0x02, 0xe7, 0x2a, 0xe8, 0x00, 0xe9, 0xa0, 0xfe]"

section \<open>Registers\<close>

definition tw9912_hardware_reset :: "'d video_port \<Rightarrow> 'd tw9912 \<Rightarrow> 'd tw9912" where
  "tw9912_hardware_reset port s = s\<lparr>chip_dev := tw9912_RESX port True (tw9912_RESX port False (chip_dev s))\<rparr>"

definition tw9912_read :: "'d video_port \<Rightarrow> byte \<Rightarrow> byte \<Rightarrow> 'd tw9912 \<Rightarrow> i2c_ack \<times> byte \<times> 'd tw9912" where
  "tw9912_read port sub_addr old s =
     (let (ret, data, d) = vp_read port TW9912_I2C_ChipAdd (ucast sub_addr) [old] (chip_dev s)
      in (ret, hd data, s\<lparr>chip_dev := d\<rparr>))"

definition tw9912_write :: "'d video_port \<Rightarrow> byte \<Rightarrow> byte \<Rightarrow> 'd tw9912 \<Rightarrow> i2c_ack \<times> 'd tw9912" where
  "tw9912_write port reg valu s =
     (let (ret, d) = vp_write port TW9912_I2C_ChipAdd [reg, valu] (chip_dev s) in (ret, s\<lparr>chip_dev := d\<rparr>))"

definition tw9912_get_input_info ::
  "'d video_port \<Rightarrow> tw9912_input_info_t \<Rightarrow> 'd tw9912 \<Rightarrow> tw9912_input_info_t \<times> 'd tw9912" where
  "tw9912_get_input_info port info s =
     (let (ret1, v1, s1) = tw9912_read port 0x01 (chip_status1 info) s;
          info1 = info\<lparr>chip_status1 := v1\<rparr>
      in if ret1 = NACK then (info1, s1)
         else
           let (ret2, v2, s2) = tw9912_read port 0x1e (component_video_format info1) s1;
               info2 = info1\<lparr>component_video_format := v2\<rparr>
           in if ret2 = NACK then (info2, s2)
              else
                let (ret3, v3, s3) = tw9912_read port 0x30 (macrovision_detection info2) s2
                in (info2\<lparr>macrovision_detection := v3\<rparr>, s3))"

definition Disabel_video_data_out :: "'d video_port \<Rightarrow> 'd tw9912 \<Rightarrow> 'd tw9912" where
  "Disabel_video_data_out port s =
     (let (_, v, s1) = tw9912_read port 0x03 0x27 s in snd (tw9912_write port 0x03 (v OR 0x07) s1))"

definition Enabel_video_data_out :: "'d video_port \<Rightarrow> 'd tw9912 \<Rightarrow> 'd tw9912" where
  "Enabel_video_data_out port s =
     (let (_, v, s1) = tw9912_read port 0x03 0x00 s in snd (tw9912_write port 0x03 (v AND 0xf0) s1))"

definition tw9912_get_chip_id :: "'d video_port \<Rightarrow> 'd tw9912 \<Rightarrow> 'd tw9912" where
  "tw9912_get_chip_id port s = (let (_, _, s1) = tw9912_read port 0x00 0x00 s in s1)"

text \<open>A sequence of writes that ends at the first one without acknowledgement.\<close>

fun tw9912_writes :: "'d video_port \<Rightarrow> (byte \<times> byte) list \<Rightarrow> 'd tw9912 \<Rightarrow> i2c_ack \<times> 'd tw9912" where
  "tw9912_writes port [] s = (ACK, s)"
| "tw9912_writes port ((r, v) # ws) s =
     (let (ret, s1) = tw9912_write port r v s in if ret = NACK then (NACK, s1) else tw9912_writes port ws s1)"

section \<open>Loading a table\<close>

text \<open>The loop over a table; without the end mark it would leave the array.\<close>

fun config_loop :: "'d video_port \<Rightarrow> byte list \<Rightarrow> 'd tw9912 \<Rightarrow> fault + (i2c_ack \<times> 'd tw9912)" where
  "config_loop port [] s = Inl BufOverrun"
| "config_loop port [r] s = (if r = 0xfe then Inr (ACK, s) else Inl BufOverrun)"
| "config_loop port (r # v # config_pramat) s =
     (if r = 0xfe then Inr (ACK, s)
      else let (ret, s1) = tw9912_write port r v s in
        if ret = NACK then Inr (NACK, s1) else config_loop port config_pramat s1)"

definition config_ret :: "i2c_ack \<times> 'd tw9912 \<Rightarrow> fault + (int \<times> 'd tw9912)" where
  "config_ret r = Inr (if fst r = NACK then - 1 else 1, snd r)"

definition remember :: "vedio_channel_t \<Rightarrow> vedio_format_t \<Rightarrow> 'd tw9912 \<Rightarrow> 'd tw9912" where
  "remember ch f s = s\<lparr>the_last_config := \<lparr>lc_Channel = ch, lc_format = f\<rparr>\<rparr>"

definition tw9912_config_array_NTSCp :: "'d video_port \<Rightarrow> 'd tw9912 \<Rightarrow> fault + (int \<times> 'd tw9912)" where
  "tw9912_config_array_NTSCp port s =
     (let s1 = (if tw9912_reset_flag_jam s = 0 then tw9912_hardware_reset port (s\<lparr>tw9912_reset_flag_jam := 1\<rparr>) else s)
      in bindE (config_loop port TW9912_INIT_NTSC_Progressive_input (remember SEPARATION NTSC_P (tw9912_get_chip_id port s1))) config_ret)"

definition tw9912_config_array_agin :: "'d video_port \<Rightarrow> 'd tw9912 \<Rightarrow> fault + (int \<times> 'd tw9912)" where
  "tw9912_config_array_agin port s = bindE (config_loop port TW9912_INIT_AGAIN (remember YIN3 NTSC_I s)) config_ret"

definition Tw9912_YIN3ToYUV_init_agin :: "'d video_port \<Rightarrow> 'd tw9912 \<Rightarrow> fault + (int \<times> 'd tw9912)" where
  "Tw9912_YIN3ToYUV_init_agin port s =
     bindE (config_loop port TW9912_YIN3ToYUV_INIT_AGAIN (remember SEPARATION NTSC_P s)) config_ret"

definition tw9912_config_array_PALi :: "'d video_port \<Rightarrow> 'd tw9912 \<Rightarrow> fault + (int \<times> 'd tw9912)" where
  "tw9912_config_array_PALi port s =
     bindE (config_loop port TW9912_INIT_PAL_Interlaced_input (remember YIN3 PAL_I (tw9912_get_chip_id port s))) config_ret"

section \<open>Choosing the input\<close>

text \<open>The writes for a channel; the second function does the first one's part for the pins in another place and has no case \<open>SEPARATION\<close>.\<close>

fun pin_selet :: "vedio_channel_t \<Rightarrow> (byte \<times> byte) list" where
  "pin_selet YIN0 = [(0x02, 0x40)]"
| "pin_selet YIN1 = [(0x02, 0x44)]"
| "pin_selet YIN2 = [(0x02, 0x48)]"
| "pin_selet YIN3 = [(0x02, 0x4c), (0xe8, 0x3f)]"
| "pin_selet SEPARATION = [(0x02, 0x70), (0xe8, 0x30)]"
| "pin_selet NOTONE = []"

definition tw9912_channel_choeces_again :: "'d video_port \<Rightarrow> vedio_channel_t \<Rightarrow> 'd tw9912 \<Rightarrow> int \<times> 'd tw9912" where
  "tw9912_channel_choeces_again port channel s =
     (let s1 = s\<lparr>the_last_config := (the_last_config s)\<lparr>lc_Channel := channel\<rparr>\<rparr>;
          (ret, s2) = tw9912_writes port (pin_selet channel) s1
      in (if ret = NACK then - 1 else 0, s2))"

section \<open>Detecting the format\<close>

text \<open>The two codings of the format: in register \<open>0x1e\<close>, and with a detection bit in register \<open>0xc1\<close>.\<close>

definition cvfmt_format :: "byte \<Rightarrow> vedio_format_t" where
  "cvfmt_format valu =
     (let format_1 = valu AND 0x70 in
      if format_1 = 0x00 then NTSC_I else if format_1 = 0x10 then PAL_I else if format_1 = 0x20 then NTSC_P
      else if format_1 = 0x30 then PAL_P else OTHER)"

definition sync_format :: "vedio_format_t \<Rightarrow> byte \<Rightarrow> vedio_format_t" where
  "sync_format ret valu =
     (if valu AND 0x08 \<noteq> 0 then
        let v = valu AND 0x7 in
        if v = 0 then NTSC_I else if v = 1 then PAL_I else if v = 2 then NTSC_P else if v = 3 then PAL_P else OTHER
      else ret)"

definition set_format :: "vedio_channel_t \<Rightarrow> vedio_format_t \<Rightarrow> 'd tw9912 \<Rightarrow> 'd tw9912" where
  "set_format ch f s =
     s\<lparr>signal_is_how := (signal_is_how s)[channel_nr ch := (signal_is_how s ! channel_nr ch)\<lparr>sig_Format := f\<rparr>]\<rparr>"

definition tw9912_analysis_input_signal ::
  "'d video_port \<Rightarrow> byte \<Rightarrow> tw9912_input_info_t \<Rightarrow> vedio_channel_t \<Rightarrow> 'd tw9912 \<Rightarrow> 'd tw9912" where
  "tw9912_analysis_input_signal port u info channel s =
     (if channel = NOTONE then s
      else
        let s1 = s\<lparr>signal_is_how := (signal_is_how s)[channel_nr channel :=
                     \<lparr>sig_Channel = channel, sig_Format = OTHER, sig_source = source_other\<rparr>]\<rparr>
        in if chip_status1 info AND 0x08 \<noteq> 0 then
             let (_, _, s2) = tw9912_read port 0x02 u s1 in
             if channel \<noteq> SEPARATION then set_format channel (cvfmt_format (component_video_format info)) s2
             else
               let format_1 = input_detection info AND 0x07 in
               if format_1 = 0x2 then set_format channel NTSC_P s2
               else if format_1 = 0x3 then set_format channel PAL_P s2
               else s2
           else s1)"

text \<open>
  The wait for a signal: the counter when the loop ends, whether it was left at a signal, and the value last read.
\<close>

function wait_signal :: "nat \<Rightarrow> 'd video_port \<Rightarrow> byte \<Rightarrow> 'd tw9912 \<Rightarrow> nat \<times> bool \<times> byte \<times> 'd tw9912" where
  "wait_signal i port signal s =
     (if i < 20 then
        let (_, signal', s') = tw9912_read port 0x01 signal s in
        if signal' AND 0x80 \<noteq> 0 then wait_signal (Suc i) port signal' s' else (i, True, signal', s')
      else (i, False, signal, s))"
  by pat_completeness auto
termination by (relation "measure (\<lambda>(i, _). 20 - i)") auto

definition stdnow_format :: "byte \<Rightarrow> vedio_format_t" where
  "stdnow_format signal =
     (let v = signal AND 0x70 in
      if v = 0 then NTSC_I else if v = 0x10 then PAL_I else if v = 0x20 then OTHER else if v = 0x30 then NTSC_I
      else if v = 0x40 then PAL_I else if v = 0x50 then PAL_I else if v = 0x60 then PAL_I else OTHER)"

definition tw9912_testing_channal_signal ::
  "'d video_port \<Rightarrow> byte \<Rightarrow> vedio_channel_t \<Rightarrow> 'd tw9912 \<Rightarrow> vedio_format_t \<times> 'd tw9912" where
  "tw9912_testing_channal_signal port u Channel s =
     (if Channel = YIN2 \<or> Channel = SEPARATION then (NTSC_P, s)
      else
        let s1 = (if lc_Channel (the_last_config s) \<noteq> Channel then snd (tw9912_channel_choeces_again port Channel s) else s);
            (i, found, signal, s2) = wait_signal 0 port 0 s1
        in if \<not> found \<and> i = 2 then (OTHER, s2)
           else
             let (_, s3) = tw9912_write port 0x1c 0x07 s2;
                 (_, signal', s4) = tw9912_read port 0x1c signal s3;
                 ret = stdnow_format signal'
             in if Channel = YIN2 \<or> Channel = SEPARATION then
                  let (_, valu, s5) = tw9912_read port 0xc1 u s4 in (sync_format ret valu, s5)
                else (ret, s4))"

definition camera_open_video_signal_test_in_2 :: "'d video_port \<Rightarrow> byte \<Rightarrow> 'd tw9912 \<Rightarrow> vedio_format_t \<times> 'd tw9912" where
  "camera_open_video_signal_test_in_2 port u s =
     (let (info, s1) = tw9912_get_input_info port (input_info u) s in
      if chip_status1 info AND 0x08 \<noteq> 0 then
        let (_, channel_1, s2) = tw9912_read port 0x02 u s1 in
        if unat (drop_bit 2 (channel_1 AND 0x0c)) = channel_nr (st_Channel (tw9912_status s2))
        then (cvfmt_format (component_video_format info), s2)
        else (OTHER, s2)
      else (OTHER, s1))"

definition read_tw9912_chips_status_fast :: "'d video_port \<Rightarrow> byte \<Rightarrow> 'd tw9912 \<Rightarrow> i2c_ack \<times> byte \<times> 'd tw9912" where
  "read_tw9912_chips_status_fast port valu s = tw9912_read port 0x01 valu s"

text \<open>The command 2 has no result.\<close>

definition tw9912_read_chips_status :: "'d video_port \<Rightarrow> byte \<Rightarrow> byte \<Rightarrow> 'd tw9912 \<Rightarrow> int option \<times> 'd tw9912" where
  "tw9912_read_chips_status port u cmd s =
     (let s1 = (if cmd \<noteq> 2 then
                  let (info, s') = tw9912_get_input_info port (information_status_next s) s
                  in s'\<lparr>information_status_next := info\<rparr>
                else s);
          new = macrovision_detection (information_status_next s1)
      in if cmd = 1 then
           if new \<noteq> macrovision_detection (information_status s1)
           then (Some 1, s1\<lparr>information_status := (information_status s1)\<lparr>macrovision_detection := new\<rparr>\<rparr>)
           else (Some 0, s1)
         else if cmd = 2 then let (_, _, s2) = tw9912_read port 0x01 u s1 in (None, s2)
         else (Some (uint new), s1))"

definition tw9912_yuv_signal_testing :: "'d video_port \<Rightarrow> byte \<Rightarrow> 'd tw9912 \<Rightarrow> fault + (vedio_format_t \<times> 'd tw9912)" where
  "tw9912_yuv_signal_testing port u s =
     bindE (if lc_Channel (the_last_config s) \<noteq> SEPARATION then Tw9912_YIN3ToYUV_init_agin port s else Inr (0, s))
       (\<lambda>(_, s1). let (_, valu, s2) = tw9912_read port 0xc1 u s1 in Inr (sync_format OTHER valu, s2))"

definition tw9912_cvbs_signal_tsting ::
  "'d video_port \<Rightarrow> byte \<Rightarrow> vedio_channel_t \<Rightarrow> 'd tw9912 \<Rightarrow> fault + (vedio_format_t \<times> 'd tw9912)" where
  "tw9912_cvbs_signal_tsting port u Channel s =
     bindE (if lc_Channel (the_last_config s) \<noteq> Channel then tw9912_config_array_agin port s else Inr (0, s))
       (\<lambda>(_, s1).
          if Channel = NOTONE then Inr (OTHER, s1)
          else
            let (info, s2) = tw9912_get_input_info port (input_info u) s1 in
            if chip_status1 info AND 0x08 \<noteq> 0 \<and> chip_status1 info AND 0x80 = 0
            then Inr (cvfmt_format (component_video_format info), s2)
            else Inr (OTHER, s2))"

text \<open>The formats as the numbers 1 to 4, 5 for anything else, \<open>-1\<close> without acknowledgement.\<close>

definition format_ret :: "vedio_format_t \<Rightarrow> int" where
  "format_ret f = (case f of NTSC_I \<Rightarrow> 1 | PAL_I \<Rightarrow> 2 | NTSC_P \<Rightarrow> 3 | PAL_P \<Rightarrow> 4 | _ \<Rightarrow> 5)"

definition appoint_select :: "'d video_port \<Rightarrow> vedio_channel_t \<Rightarrow> byte \<Rightarrow> 'd tw9912 \<Rightarrow> fault + (i2c_ack \<times> 'd tw9912)" where
  "appoint_select port Channel channel_1 s =
     (if unat (drop_bit 2 (channel_1 AND 0x0c)) \<noteq> channel_nr Channel \<and> Channel \<noteq> NOTONE \<or> \<not> st_flag (tw9912_status s) then
        bindE
          (if \<not> st_flag (tw9912_status s)
           then tw9912_config_array_PALi port (s\<lparr>tw9912_status := \<lparr>st_flag = True, st_Channel = Channel, st_format = PAL_I\<rparr>\<rparr>)
           else Inr (0, s))
          (\<lambda>(_, s1). Inr (tw9912_writes port (pin_selet Channel)
             (s1\<lparr>the_last_config := (the_last_config s1)\<lparr>lc_Channel := Channel\<rparr>\<rparr>)))
      else Inr (ACK, s))"

definition Tw9912_appoint_pin_tw9912_cvbs_signal_tsting ::
  "'d video_port \<Rightarrow> byte \<Rightarrow> vedio_channel_t \<Rightarrow> 'd tw9912 \<Rightarrow> fault + (int \<times> 'd tw9912)" where
  "Tw9912_appoint_pin_tw9912_cvbs_signal_tsting port u Channel s =
     (if Channel = SEPARATION then
        Inr (3, set_format SEPARATION NTSC_P (s\<lparr>tw9912_status := \<lparr>st_flag = True, st_Channel = SEPARATION, st_format = NTSC_P\<rparr>\<rparr>))
      else
        let (_, channel_1, s1) = tw9912_read port 0x02 u s in
        bindE (appoint_select port Channel channel_1 s1) (\<lambda>(ret, s2).
          if ret = NACK then Inr (- 1, s2)
          else
            let (_, s3) = tw9912_write port 0x1d 0xff s2;
                (info, s4) = tw9912_get_input_info port (tw9912_input_information s3) s3;
                s5 = tw9912_analysis_input_signal port u info Channel (s4\<lparr>tw9912_input_information := info\<rparr>)
            in if Channel = NOTONE then Inl BufOverrun
               else Inr (format_ret (sig_Format (signal_is_how s5 ! channel_nr Channel)), s5)))"

section \<open>Configuring the chip\<close>

text \<open>The detection, repeated once when it finds nothing.\<close>

definition appoint_twice :: "'d video_port \<Rightarrow> byte \<Rightarrow> vedio_channel_t \<Rightarrow> 'd tw9912 \<Rightarrow> fault + (int \<times> 'd tw9912)" where
  "appoint_twice port u Channel s =
     bindE (Tw9912_appoint_pin_tw9912_cvbs_signal_tsting port u Channel s) (\<lambda>(ret, s1).
       if ret = 5 then Tw9912_appoint_pin_tw9912_cvbs_signal_tsting port u Channel s1 else Inr (ret, s1))"

definition try_another ::
  "'d video_port \<Rightarrow> byte \<Rightarrow> vedio_channel_t \<Rightarrow> int \<Rightarrow> 'd tw9912 \<Rightarrow> fault + (int option \<times> 'd tw9912)" where
  "try_another port u Channel ret s =
     (if ret = 5 then
        let (ret_format, s1) = tw9912_testing_channal_signal port u Channel s in
        if ret_format = OTHER then Inr (None, s1)
        else bindE (tw9912_cvbs_signal_tsting port u Channel s1) (\<lambda>(f, s2). Inr (Some (format_nr f), set_format Channel f s2))
      else Inr (Some ret, s))"

fun format_table :: "vedio_format_t \<Rightarrow> byte list option" where
  "format_table NTSC_I = Some TW9912_INIT_NTSC_Interlaced_input"
| "format_table PAL_I = Some TW9912_INIT_PAL_Interlaced_input"
| "format_table NTSC_P = Some TW9912_INIT_NTSC_Progressive_input"
| "format_table PAL_P = Some TW9912_INIT_PAL_Progressive_input"
| "format_table f = None"

definition config_format :: "'d video_port \<Rightarrow> vedio_channel_t \<Rightarrow> 'd tw9912 \<Rightarrow> fault + (int \<times> 'd tw9912)" where
  "config_format port Channel s =
     (let f = sig_Format (signal_is_how s ! channel_nr Channel) in
      case format_table f of
        None \<Rightarrow> Inr (- 1, s\<lparr>tw9912_status := \<lparr>st_flag = False, st_Channel = NOTONE, st_format = st_format (tw9912_status s)\<rparr>\<rparr>)
      | Some tab \<Rightarrow>
          let s1 = remember Channel f
            (s\<lparr>tw9912_status := \<lparr>st_flag = True, st_Channel = Channel, st_format = f\<rparr>,
               car_backing_times_cnt := car_backing_times_cnt s + (if f = NTSC_I then 1 else 0)\<rparr>)
          in bindE (config_loop port tab s1) (\<lambda>(ret, s2).
               if ret = NACK then Inr (- 2, s2)
               else Inr (1, s2\<lparr>tw912_run_sotp_format := Some (sig_Format (signal_is_how s2 ! channel_nr Channel))\<rparr>)))"

definition tw9912_config_array :: "'d video_port \<Rightarrow> byte \<Rightarrow> vedio_channel_t \<Rightarrow> 'd tw9912 \<Rightarrow> fault + (int \<times> 'd tw9912)" where
  "tw9912_config_array port u Channel s =
     bindE (appoint_twice port u Channel (snd (tw9912_channel_choeces_again port Channel (tw9912_get_chip_id port s)))) (\<lambda>(ret, s1).
       bindE (try_another port u Channel ret s1) (\<lambda>(ret2, s2).
         case ret2 of
           None \<Rightarrow> Inr (- 1, s2)
         | Some r \<Rightarrow> if r = - 1 then Inr (- 2, s2) else config_format port Channel s2))"


section \<open>What a table leaves in the registers\<close>

text \<open>The meaning of a table: the values of its entries in order, later ones replacing earlier ones.\<close>

fun table_regs :: "byte list \<Rightarrow> (byte \<Rightarrow> byte) \<Rightarrow> byte \<Rightarrow> byte" where
  "table_regs (r # v # tab) m = (if r = 0xfe then m else table_regs tab (m(r := v)))"
| "table_regs tab m = m"

fun table_ends :: "byte list \<Rightarrow> bool" where
  "table_ends [] = False"
| "table_ends [r] = (r = 0xfe)"
| "table_ends (r # v # tab) = (r = 0xfe \<or> table_ends tab)"

lemmas tables =
  TW9912_YIN3ToYUV_INIT_AGAIN_def TW9912_INIT_AGAIN_def TW9912_INIT_NTSC_Interlaced_input_def
  TW9912_INIT_NTSC_Progressive_input_def TW9912_INIT_PAL_Interlaced_input_def TW9912_INIT_PAL_Progressive_input_def

lemma all_tables_end:
  "table_ends TW9912_YIN3ToYUV_INIT_AGAIN" "table_ends TW9912_INIT_AGAIN" "table_ends TW9912_INIT_PAL_Interlaced_input"
  "table_ends TW9912_INIT_NTSC_Interlaced_input" "table_ends TW9912_INIT_NTSC_Progressive_input"
  "table_ends TW9912_INIT_PAL_Progressive_input"
  by (simp_all add: tables)

lemma format_table_ends: "format_table f = Some tab \<Longrightarrow> table_ends tab"
  using all_tables_end by (cases f) auto

text \<open>The loop stays inside a table that ends, whatever the chip answers.\<close>

lemma config_loop_safe: "table_ends tab \<Longrightarrow> \<exists>a s'. config_loop port tab s = Inr (a, s')"
proof (induction tab arbitrary: s rule: table_ends.induct)
  case (3 r v tab)
  obtain a s1 where "tw9912_write port r v s = (a, s1)" by fastforce
  with 3 show ?case by auto
qed auto

text \<open>Each of the four table functions ends, on any port, with the result 1 or -1.\<close>

lemma config_arrays_end:
  "\<exists>a s'. tw9912_config_array_NTSCp port s = Inr (a, s') \<and> (a = 1 \<or> a = - 1)"
  "\<exists>a s'. tw9912_config_array_agin port s = Inr (a, s') \<and> (a = 1 \<or> a = - 1)"
  "\<exists>a s'. Tw9912_YIN3ToYUV_init_agin port s = Inr (a, s') \<and> (a = 1 \<or> a = - 1)"
  "\<exists>a s'. tw9912_config_array_PALi port s = Inr (a, s') \<and> (a = 1 \<or> a = - 1)"
proof -
  have *: "\<exists>a s'. bindE (config_loop port tab t) config_ret = Inr (a, s') \<and> (a = 1 \<or> a = - 1)" if "table_ends tab" for tab t
    using config_loop_safe [OF that, of port t] by (auto simp: config_ret_def)
  show "\<exists>a s'. tw9912_config_array_NTSCp port s = Inr (a, s') \<and> (a = 1 \<or> a = - 1)"
    "\<exists>a s'. tw9912_config_array_agin port s = Inr (a, s') \<and> (a = 1 \<or> a = - 1)"
    "\<exists>a s'. Tw9912_YIN3ToYUV_init_agin port s = Inr (a, s') \<and> (a = 1 \<or> a = - 1)"
    "\<exists>a s'. tw9912_config_array_PALi port s = Inr (a, s') \<and> (a = 1 \<or> a = - 1)"
    unfolding tw9912_config_array_NTSCp_def tw9912_config_array_agin_def Tw9912_YIN3ToYUV_init_agin_def tw9912_config_array_PALi_def Let_def
    by (rule *, rule all_tables_end)+
qed

section \<open>On any port\<close>

text \<open>
  Whatever the chip answers, the functions return, and the record of the channels keeps its size, as \<open>returns\<close> says.
\<close>

definition tw_ok :: "'d tw9912 \<Rightarrow> bool" where
  "tw_ok t \<longleftrightarrow> length (signal_is_how t) = 5"

definition returns :: "fault + ('a \<times> 'd tw9912) \<Rightarrow> bool" where
  "returns r \<longleftrightarrow> (\<exists>a t. r = Inr (a, t) \<and> tw_ok t)"

lemma returns_Inr [simp]: "returns (Inr (a, t)) = tw_ok t"
  by (simp add: returns_def)

lemma returns_Inr_pair: "returns (Inr p) = tw_ok (snd p)"
  by (simp add: returns_def split_paired_all) (metis prod.collapse snd_conv)

lemma returns_bind:
  assumes "returns r" "\<And>a t. r = Inr (a, t) \<Longrightarrow> tw_ok t \<Longrightarrow> returns (f (a, t))"
  shows "returns (bindE r f)"
  using assms by (auto simp: returns_def)

lemma returns_bindE: "returns r \<Longrightarrow> (\<And>a t. tw_ok t \<Longrightarrow> returns (f (a, t))) \<Longrightarrow> returns (bindE r f)"
  by (rule returns_bind)

lemma keeps_basic [simp]:
  "tw_ok (t\<lparr>chip_dev := d\<rparr>) = tw_ok t" "tw_ok (t\<lparr>the_last_config := l\<rparr>) = tw_ok t"
  "tw_ok (t\<lparr>tw9912_status := st\<rparr>) = tw_ok t" "tw_ok (t\<lparr>tw9912_input_information := i\<rparr>) = tw_ok t"
  "tw_ok (t\<lparr>car_backing_times_cnt := n\<rparr>) = tw_ok t" "tw_ok (t\<lparr>tw912_run_sotp_format := fo\<rparr>) = tw_ok t"
  "tw_ok (t\<lparr>tw9912_reset_flag_jam := b\<rparr>) = tw_ok t" "tw_ok (t\<lparr>signal_is_how := (signal_is_how t)[k := x]\<rparr>) = tw_ok t"
  "tw_ok (remember ch f t) = tw_ok t" "tw_ok (set_format ch f t) = tw_ok t"
  "tw_ok (tw9912_hardware_reset port t) = tw_ok t" "tw_ok (tw9912_start d)"
  by (simp_all add: tw_ok_def remember_def set_format_def tw9912_hardware_reset_def tw9912_start_def)

lemma keeps_access [simp]:
  "tw_ok (snd (snd (tw9912_read port r v t))) = tw_ok t" "tw_ok (snd (tw9912_write port r v t)) = tw_ok t"
  by (simp_all add: tw9912_read_def tw9912_write_def case_prod_beta Let_def)

lemma keeps_writes [simp]: "tw_ok (snd (tw9912_writes port ws t)) = tw_ok t"
proof (induction ws arbitrary: t)
  case (Cons w ws)
  obtain r v where w: "w = (r, v)" by fastforce
  obtain a t1 where "tw9912_write port r v t = (a, t1)" by fastforce
  moreover from this have "tw_ok t1 = tw_ok t" using keeps_access(2) [of port r v t] by simp
  ultimately show ?case using Cons [of t1] by (simp add: w)
qed simp

lemma keeps_input [simp]:
  "tw_ok (snd (tw9912_get_input_info port info t)) = tw_ok t" "tw_ok (tw9912_get_chip_id port t) = tw_ok t"
  "tw_ok (snd (tw9912_channel_choeces_again port ch t)) = tw_ok t"
  by (simp_all add: tw9912_get_input_info_def tw9912_get_chip_id_def tw9912_channel_choeces_again_def case_prod_beta Let_def)

lemma keeps_analysis [simp]: "tw_ok (tw9912_analysis_input_signal port u info ch t) = tw_ok t"
  by (simp add: tw9912_analysis_input_signal_def case_prod_beta Let_def)

lemma returns_loop: "table_ends tab \<Longrightarrow> tw_ok t \<Longrightarrow> returns (config_loop port tab t)"
proof (induction tab arbitrary: t rule: table_ends.induct)
  case (3 r v tab)
  show ?case
  proof (cases "r = 0xfe")
    case False
    obtain a t1 where w: "tw9912_write port r v t = (a, t1)" by fastforce
    then have "tw_ok t1" using 3(3) keeps_access(2) [of port r v t] by simp
    then show ?thesis using 3(1) 3(2) False by (simp add: w)
  qed (use 3 in simp)
qed auto

lemma returns_config_ret: "tw_ok t \<Longrightarrow> returns (config_ret (a, t))"
  by (simp add: config_ret_def)

lemma returns_arrays:
  "tw_ok t \<Longrightarrow> returns (tw9912_config_array_NTSCp port t)" "tw_ok t \<Longrightarrow> returns (tw9912_config_array_agin port t)"
  "tw_ok t \<Longrightarrow> returns (Tw9912_YIN3ToYUV_init_agin port t)" "tw_ok t \<Longrightarrow> returns (tw9912_config_array_PALi port t)"
  unfolding tw9912_config_array_NTSCp_def tw9912_config_array_agin_def Tw9912_YIN3ToYUV_init_agin_def
    tw9912_config_array_PALi_def Let_def
  by (rule returns_bindE, rule returns_loop, rule all_tables_end, simp, erule returns_config_ret)+

lemma keeps_wait: "wait_signal i port signal t = (j, found, v, t') \<Longrightarrow> tw_ok t \<Longrightarrow> tw_ok t'"
proof (induction i port signal t rule: wait_signal.induct)
  case (1 i port signal t)
  obtain a v1 t1 where r: "tw9912_read port 0x01 signal t = (a, v1, t1)" by (metis prod_cases3)
  then have "tw_ok t1" using 1(3) by (metis keeps_access(1) snd_conv)
  then show ?case using 1 r by (subst (asm) (2) wait_signal.simps) (auto split: if_splits simp del: wait_signal.simps)
qed

lemma keeps_testing: "tw_ok t \<Longrightarrow> tw_ok (snd (tw9912_testing_channal_signal port u ch t))"
proof -
  assume t: "tw_ok t"
  define t1 where "t1 = (if lc_Channel (the_last_config t) \<noteq> ch then snd (tw9912_channel_choeces_again port ch t) else t)"
  obtain i found signal t2 where w: "wait_signal 0 port 0 t1 = (i, found, signal, t2)" by (metis prod_cases4)
  have "tw_ok t1" using t by (simp add: t1_def)
  then have "tw_ok t2" using keeps_wait [OF w] by simp
  then show ?thesis using t unfolding tw9912_testing_channal_signal_def t1_def [symmetric] w Let_def
    by (simp add: case_prod_beta Let_def)
qed

lemma returns_cvbs: "tw_ok t \<Longrightarrow> returns (tw9912_cvbs_signal_tsting port u ch t)"
  unfolding tw9912_cvbs_signal_tsting_def
  by (rule returns_bindE) (auto simp: returns_arrays case_prod_beta Let_def)

lemma returns_yuv: "tw_ok t \<Longrightarrow> returns (tw9912_yuv_signal_testing port u t)"
  unfolding tw9912_yuv_signal_testing_def
  by (rule returns_bindE) (auto simp: returns_arrays case_prod_beta Let_def)

lemma returns_select: "tw_ok t \<Longrightarrow> returns (appoint_select port ch c t)"
  unfolding appoint_select_def
  by (auto intro!: returns_bindE simp: returns_arrays returns_Inr_pair)

lemma returns_appoint:
  assumes "tw_ok t" "ch \<noteq> NOTONE"
  shows "returns (Tw9912_appoint_pin_tw9912_cvbs_signal_tsting port u ch t)"
  using assms unfolding Tw9912_appoint_pin_tw9912_cvbs_signal_tsting_def
  by (auto simp: case_prod_beta Let_def intro!: returns_bindE returns_select)

lemma returns_config_format: "tw_ok t \<Longrightarrow> returns (config_format port ch t)"
proof -
  assume t: "tw_ok t"
  show ?thesis
  proof (cases "format_table (sig_Format (signal_is_how t ! channel_nr ch))")
    case (Some tab)
    then show ?thesis using t format_table_ends [OF Some] unfolding config_format_def
      by (auto simp: Let_def intro!: returns_bindE returns_loop)
  qed (use t in \<open>simp add: config_format_def Let_def\<close>)
qed

lemma returns_config_array:
  assumes "tw_ok t" "ch \<noteq> NOTONE"
  shows "returns (tw9912_config_array port u ch t)"
proof -
  have twice: "returns (appoint_twice port u ch t)" if "tw_ok t" for t
    unfolding appoint_twice_def using that assms(2) by (auto intro!: returns_bindE returns_appoint)
  have another: "returns (try_another port u ch ret t)" if "tw_ok t" for ret t
    unfolding try_another_def using that keeps_testing [OF that, of port u ch]
    by (auto simp: case_prod_beta Let_def intro!: returns_bindE returns_cvbs)
  show ?thesis unfolding tw9912_config_array_def
    by (rule returns_bindE, rule twice, use assms in simp, clarsimp, rule returns_bindE, rule another, assumption)
      (auto simp: returns_config_format split: option.split)
qed

section \<open>What the detection is to find\<close>

text \<open>The channel that the chip reports after it was chosen.\<close>

definition camera_pin :: "vedio_channel_t \<Rightarrow> bool" where
  "camera_pin ch \<longleftrightarrow> ch \<noteq> SEPARATION \<and> ch \<noteq> NOTONE"

lemma selected_channel:
  "camera_pin ch \<Longrightarrow> unat (drop_bit 2 (write_regs (pin_selet ch) m 0x02 AND 0x0c)) = channel_nr ch"
  by (cases ch) (simp_all add: camera_pin_def)

lemma selection_keeps:
  "write_regs (pin_selet ch) m 0x01 = m 0x01" "write_regs (pin_selet ch) m 0x1e = m 0x1e" "write_regs (pin_selet ch) m 0x30 = m 0x30"
  by (cases ch; simp)+

text \<open>What the detection finds, and the state of the driver after it.\<close>

definition found_format :: "(byte \<Rightarrow> byte) \<Rightarrow> vedio_format_t" where
  "found_format m = (if m 0x01 AND 0x08 \<noteq> 0 then cvfmt_format (m 0x1e) else OTHER)"

definition detected :: "(byte \<Rightarrow> byte) \<Rightarrow> vedio_channel_t \<Rightarrow> 'd tw9912 \<Rightarrow> 'd tw9912" where
  "detected m ch s =
     s\<lparr>tw9912_input_information := (tw9912_input_information s)
         \<lparr>chip_status1 := m 0x01, component_video_format := m 0x1e, macrovision_detection := m 0x30\<rparr>,
       signal_is_how := (signal_is_how s)[channel_nr ch :=
         \<lparr>sig_Channel = ch, sig_Format = found_format m, sig_source = source_other\<rparr>]\<rparr>"

section \<open>The driver on a chip that answers\<close>

context decoder_port
begin

text \<open>\<open>at_regs m s t\<close>: \<open>t\<close> is the state \<open>s\<close> of the driver on a ready chip whose registers are \<open>m\<close>.\<close>

definition at_regs :: "(byte \<Rightarrow> byte) \<Rightarrow> 'd tw9912 \<Rightarrow> 'd tw9912 \<Rightarrow> bool" where
  "at_regs m s s' \<longleftrightarrow> (\<exists>d. s' = s\<lparr>chip_dev := d\<rparr> \<and> ready d \<and> regs d = m)"

lemma at_regs_refl: "ready (chip_dev s) \<Longrightarrow> at_regs (regs (chip_dev s)) s s"
  unfolding at_regs_def by (rule exI [of _ "chip_dev s"]) simp

lemma read_at:
  assumes "at_regs m s t"
  obtains t' where "tw9912_read port r old t = (ACK, m r, t')" "at_regs m s t'"
proof -
  obtain d where d: "t = s\<lparr>chip_dev := d\<rparr>" "ready d" "regs d = m" using assms by (auto simp: at_regs_def)
  obtain d' where "vp_read port TW9912_I2C_ChipAdd (ucast r) [old] d = (ACK, [m r], d')" "ready d'" "regs d' = m"
    using rd [OF d(2), of r old] d(3) by auto
  then show thesis using d(1) by (intro that [of "s\<lparr>chip_dev := d'\<rparr>"]) (auto simp: tw9912_read_def at_regs_def)
qed

lemma write_at:
  assumes "at_regs m s t"
  obtains t' where "tw9912_write port r v t = (ACK, t')" "at_regs (m(r := v)) s t'"
proof -
  obtain d where d: "t = s\<lparr>chip_dev := d\<rparr>" "ready d" "regs d = m" using assms by (auto simp: at_regs_def)
  obtain d' where "vp_write port TW9912_I2C_ChipAdd [r, v] d = (ACK, d')" "ready d'" "regs d' = m(r := v)"
    using wr [OF d(2), of r v] d(3) by auto
  then show thesis using d(1) by (intro that [of "s\<lparr>chip_dev := d'\<rparr>"]) (auto simp: tw9912_write_def at_regs_def)
qed

lemma writes_at: "at_regs m s t \<Longrightarrow> \<exists>t'. tw9912_writes port ws t = (ACK, t') \<and> at_regs (write_regs ws m) s t'"
proof (induction ws arbitrary: m t)
  case (Cons w ws)
  obtain r v where w: "w = (r, v)" by fastforce
  obtain t1 where t1: "tw9912_write port r v t = (ACK, t1)" "at_regs (m(r := v)) s t1" using write_at [OF Cons.prems] .
  have "tw9912_writes port (w # ws) t = tw9912_writes port ws t1" by (simp add: w t1(1))
  then show ?case using Cons.IH [OF t1(2)] by (metis w write_regs_simps(2))
qed simp

lemma load_at:
  "at_regs m s t \<Longrightarrow> table_ends tab \<Longrightarrow> \<exists>t'. config_loop port tab t = Inr (ACK, t') \<and> at_regs (table_regs tab m) s t'"
proof (induction tab arbitrary: m t rule: table_ends.induct)
  case (3 r v tab)
  show ?case
  proof (cases "r = 0xfe")
    case False
    obtain t1 where t1: "tw9912_write port r v t = (ACK, t1)" "at_regs (m(r := v)) s t1" using write_at [OF 3(2)] .
    have "config_loop port (r # v # tab) t = config_loop port tab t1" "table_ends tab"
      "table_regs (r # v # tab) m = table_regs tab (m(r := v))"
      using False 3(3) by (simp_all add: t1(1))
    then show ?thesis using 3(1) [OF t1(2)] by metis
  qed (use 3(2) in auto)
qed auto

lemma chip_id_at:
  assumes "at_regs m s t"
  shows "at_regs m s (tw9912_get_chip_id port t)"
proof -
  obtain t' where "tw9912_read port 0x00 0x00 t = (ACK, m 0, t')" "at_regs m s t'" using read_at [OF assms] .
  then show ?thesis by (simp add: tw9912_get_chip_id_def)
qed

lemma input_info_at:
  assumes "at_regs m s t"
  obtains t' where "tw9912_get_input_info port info t =
      (info\<lparr>chip_status1 := m 0x01, component_video_format := m 0x1e, macrovision_detection := m 0x30\<rparr>, t')" "at_regs m s t'"
proof -
  obtain t1 where 1: "tw9912_read port 0x01 (chip_status1 info) t = (ACK, m 0x01, t1)" "at_regs m s t1"
    using read_at [OF assms] .
  obtain t2 where 2: "tw9912_read port 0x1e (component_video_format info) t1 = (ACK, m 0x1e, t2)" "at_regs m s t2"
    using read_at [OF 1(2)] .
  obtain t3 where 3: "tw9912_read port 0x30 (macrovision_detection info) t2 = (ACK, m 0x30, t3)" "at_regs m s t3"
    using read_at [OF 2(2)] .
  show thesis using that [of t3] 1 2 3 by (simp add: tw9912_get_input_info_def)
qed

lemma at_regs_update:
  assumes "at_regs m s t" "\<And>d. f (s\<lparr>chip_dev := d\<rparr>) = (f s)\<lparr>chip_dev := d\<rparr>"
  shows "at_regs m (f s) (f t)"
  using assms by (auto simp: at_regs_def)

lemma choeces_at:
  assumes "at_regs m s t"
  shows "\<exists>t'. tw9912_channel_choeces_again port ch t = (0, t') \<and>
    at_regs (write_regs (pin_selet ch) m) (s\<lparr>the_last_config := (the_last_config s)\<lparr>lc_Channel := ch\<rparr>\<rparr>) t'"
proof -
  have "at_regs m (s\<lparr>the_last_config := (the_last_config s)\<lparr>lc_Channel := ch\<rparr>\<rparr>)
    (t\<lparr>the_last_config := (the_last_config t)\<lparr>lc_Channel := ch\<rparr>\<rparr>)"
    using assms by (rule at_regs_update [where f = "\<lambda>s. s\<lparr>the_last_config := (the_last_config s)\<lparr>lc_Channel := ch\<rparr>\<rparr>"]) simp
  from writes_at [OF this, of "pin_selet ch"] show ?thesis by (auto simp: tw9912_channel_choeces_again_def Let_def)
qed

lemma analysis_at:
  assumes "at_regs m s t" "camera_pin ch" "length (signal_is_how s) = 5"
    and "chip_status1 info = m 0x01" "component_video_format info = m 0x1e"
  shows "at_regs m (s\<lparr>signal_is_how := (signal_is_how s)[channel_nr ch :=
      \<lparr>sig_Channel = ch, sig_Format = found_format m, sig_source = source_other\<rparr>]\<rparr>)
    (tw9912_analysis_input_signal port u info ch t)"
proof -
  let ?s = "s\<lparr>signal_is_how := (signal_is_how s)[channel_nr ch := \<lparr>sig_Channel = ch, sig_Format = OTHER, sig_source = source_other\<rparr>]\<rparr>"
  let ?t = "t\<lparr>signal_is_how := (signal_is_how t)[channel_nr ch := \<lparr>sig_Channel = ch, sig_Format = OTHER, sig_source = source_other\<rparr>]\<rparr>"
  have a: "at_regs m ?s ?t" using assms(1) by (rule at_regs_update) simp
  have l: "channel_nr ch < length (signal_is_how s)" using assms(2,3) by (cases ch) (simp_all add: camera_pin_def)
  show ?thesis
  proof (cases "m 0x01 AND 0x08 = 0")
    case True
    then show ?thesis using a assms(2,4) by (simp add: tw9912_analysis_input_signal_def camera_pin_def found_format_def)
  next
    case False
    obtain t2 where t2: "tw9912_read port 0x02 u ?t = (ACK, m 0x02, t2)" "at_regs m ?s t2" using read_at [OF a] .
    from t2(2) have "at_regs m (set_format ch (cvfmt_format (m 0x1e)) ?s) (set_format ch (cvfmt_format (m 0x1e)) t2)"
      by (rule at_regs_update) (simp add: set_format_def)
    then show ?thesis using False assms(2,4,5) t2(1) l
      by (simp add: tw9912_analysis_input_signal_def camera_pin_def found_format_def set_format_def Let_def)
  qed
qed

lemma appoint_at:
  assumes "at_regs m s t" "camera_pin ch" "length (signal_is_how s) = 5" "st_flag (tw9912_status s)"
    and "unat (drop_bit 2 (m 0x02 AND 0x0c)) = channel_nr ch"
  shows "\<exists>t'. Tw9912_appoint_pin_tw9912_cvbs_signal_tsting port u ch t = Inr (format_ret (found_format m), t') \<and>
    at_regs (m(0x1d := 0xff)) (detected m ch s) t'"
proof -
  obtain t1 where t1: "tw9912_read port 0x02 u t = (ACK, m 0x02, t1)" "at_regs m s t1" using read_at [OF assms(1)] .
  have "st_flag (tw9912_status t1)" using t1(2) assms(4) by (auto simp: at_regs_def)
  then have sel: "appoint_select port ch (m 0x02) t1 = Inr (ACK, t1)" using assms(5) by (simp add: appoint_select_def)
  obtain t2 where t2: "tw9912_write port 0x1d 0xff t1 = (ACK, t2)" "at_regs (m(0x1d := 0xff)) s t2" using write_at [OF t1(2)] .
  define info where "info = (tw9912_input_information s)
    \<lparr>chip_status1 := m 0x01, component_video_format := m 0x1e, macrovision_detection := m 0x30\<rparr>"
  have "tw9912_input_information t2 = tw9912_input_information s" using t2(2) by (auto simp: at_regs_def)
  then obtain t3 where t3: "tw9912_get_input_info port (tw9912_input_information t2) t2 = (info, t3)" "at_regs (m(0x1d := 0xff)) s t3"
    using input_info_at [OF t2(2), of "tw9912_input_information t2"] by (auto simp: info_def)
  have a: "at_regs (m(0x1d := 0xff)) (s\<lparr>tw9912_input_information := info\<rparr>) (t3\<lparr>tw9912_input_information := info\<rparr>)"
    using t3(2) by (rule at_regs_update) simp
  have ff: "found_format (m(0x1d := 0xff)) = found_format m" by (simp add: found_format_def)
  define t4 where "t4 = tw9912_analysis_input_signal port u info ch (t3\<lparr>tw9912_input_information := info\<rparr>)"
  have t4: "at_regs (m(0x1d := 0xff)) (detected m ch s) t4"
    using analysis_at [OF a assms(2), of info u, unfolded ff] assms(3)
    by (simp add: t4_def detected_def info_def)
  then have "signal_is_how t4 ! channel_nr ch = \<lparr>sig_Channel = ch, sig_Format = found_format m, sig_source = source_other\<rparr>"
    using assms(2,3) by (cases ch) (auto simp: at_regs_def detected_def camera_pin_def)
  moreover have "ch \<noteq> SEPARATION" "ch \<noteq> NOTONE" using assms(2) by (simp_all add: camera_pin_def)
  ultimately have "Tw9912_appoint_pin_tw9912_cvbs_signal_tsting port u ch t = Inr (format_ret (found_format m), t4)"
    by (simp add: Tw9912_appoint_pin_tw9912_cvbs_signal_tsting_def t1(1) sel t2(1) t3(1) t4_def [symmetric])
  with t4 show ?thesis by blast
qed

lemma config_format_at:
  assumes "at_regs m s t" "format_table f = Some tab" "sig_Format (signal_is_how s ! channel_nr ch) = f"
  shows "\<exists>t'. config_format port ch t = Inr (1, t') \<and> regs (chip_dev t') = table_regs tab m \<and> ready (chip_dev t') \<and>
    the_last_config t' = \<lparr>lc_Channel = ch, lc_format = f\<rparr> \<and>
    tw9912_status t' = \<lparr>st_flag = True, st_Channel = ch, st_format = f\<rparr> \<and> tw912_run_sotp_format t' = Some f"
proof -
  define g where "g = (\<lambda>s :: 'd tw9912. remember ch f
    (s\<lparr>tw9912_status := \<lparr>st_flag = True, st_Channel = ch, st_format = f\<rparr>,
       car_backing_times_cnt := car_backing_times_cnt s + (if f = NTSC_I then 1 else 0)\<rparr>))"
  have "at_regs m (g s) (g t)" using assms(1) by (rule at_regs_update) (simp add: g_def remember_def)
  from load_at [OF this format_table_ends [OF assms(2)]] obtain t2 where
    t2: "config_loop port tab (g t) = Inr (ACK, t2)" "at_regs (table_regs tab m) (g s) t2" by blast
  have e: "sig_Format (signal_is_how t ! channel_nr ch) = f" using assms(1,3) by (auto simp: at_regs_def)
  have "config_format port ch t = Inr (1, t2\<lparr>tw912_run_sotp_format := Some (sig_Format (signal_is_how t2 ! channel_nr ch))\<rparr>)"
    unfolding config_format_def Let_def e assms(2) option.case t2(1) [unfolded g_def] by simp
  then show ?thesis using t2(2) assms(3) by (auto simp: at_regs_def g_def remember_def)
qed

lemma config_array_at:
  assumes "ready (chip_dev s)" "camera_pin ch" "length (signal_is_how s) = 5" "st_flag (tw9912_status s)"
    and "found_format (regs (chip_dev s)) = f" "format_table f = Some tab"
  shows "\<exists>s'. tw9912_config_array port u ch s = Inr (1, s') \<and>
    regs (chip_dev s') = table_regs tab ((write_regs (pin_selet ch) (regs (chip_dev s)))(0x1d := 0xff)) \<and>
    the_last_config s' = \<lparr>lc_Channel = ch, lc_format = f\<rparr> \<and>
    tw9912_status s' = \<lparr>st_flag = True, st_Channel = ch, st_format = f\<rparr>"
proof -
  define m where "m = write_regs (pin_selet ch) (regs (chip_dev s))"
  define s0 where "s0 = s\<lparr>the_last_config := (the_last_config s)\<lparr>lc_Channel := ch\<rparr>\<rparr>"
  obtain t1 where t1: "tw9912_channel_choeces_again port ch (tw9912_get_chip_id port s) = (0, t1)" "at_regs m s0 t1"
    using choeces_at [OF chip_id_at [OF at_regs_refl [OF assms(1)]], of ch] by (auto simp: m_def s0_def)
  have f: "found_format m = f" using assms(5) unfolding found_format_def m_def selection_keeps .
  have sel: "unat (drop_bit 2 (m 0x02 AND 0x0c)) = channel_nr ch" unfolding m_def using selected_channel [OF assms(2)] .
  obtain t2 where t2: "Tw9912_appoint_pin_tw9912_cvbs_signal_tsting port u ch t1 = Inr (format_ret f, t2)"
    "at_regs (m(0x1d := 0xff)) (detected m ch s0) t2"
    using appoint_at [OF t1(2) assms(2) _ _ sel, of u] assms(3,4) f by (auto simp: s0_def)
  have r: "format_ret f \<noteq> 5" "format_ret f \<noteq> - 1" using assms(6) by (cases f; simp add: format_ret_def)+
  have fs: "sig_Format (signal_is_how (detected m ch s0) ! channel_nr ch) = f"
    using assms(2,3) f by (cases ch) (simp_all add: detected_def s0_def camera_pin_def)
  obtain t3 where "config_format port ch t2 = Inr (1, t3)" "regs (chip_dev t3) = table_regs tab (m(0x1d := 0xff))"
    "the_last_config t3 = \<lparr>lc_Channel = ch, lc_format = f\<rparr>" "tw9912_status t3 = \<lparr>st_flag = True, st_Channel = ch, st_format = f\<rparr>"
    using config_format_at [OF t2(2) assms(6) fs] by blast
  then show ?thesis unfolding tw9912_config_array_def t1(1) snd_conv appoint_twice_def t2(1)
    using r by (simp add: try_another_def m_def [symmetric])
qed

end

section \<open>Waiting for a signal\<close>

text \<open>The loop is left without a signal only at its bound, so the driver's test for the value 2 behind it never holds.\<close>

lemma wait_signal_bound:
  "i \<le> 20 \<Longrightarrow> wait_signal i port signal s = (j, found, signal', s') \<Longrightarrow> j \<le> 20 \<and> (found \<or> j = 20)"
proof (induction i port signal s rule: wait_signal.induct)
  case (1 i port signal s)
  show ?case
  proof (cases "i < 20")
    case True
    obtain a v s1 where r: "tw9912_read port 0x01 signal s = (a, v, s1)" by (metis prod_cases3)
    show ?thesis
    proof (cases "v AND 0x80 = 0")
      case False
      have "wait_signal i port signal s = wait_signal (Suc i) port v s1"
        using True r False by (subst wait_signal.simps) simp
      then show ?thesis using 1(1) [OF True refl, unfolded r, OF refl refl False] 1(3) True by simp
    next
      case v: True
      have "wait_signal i port signal s = (i, True, v, s1)" using True r v by (subst wait_signal.simps) simp
      then show ?thesis using 1(3) True by simp
    qed
  next
    case False
    have "wait_signal i port signal s = (i, False, signal, s)" using False by (subst wait_signal.simps) simp
    then show ?thesis using 1(2,3) False by simp
  qed
qed

lemma no_signal_goes_on:
  assumes "ch \<noteq> YIN2" "ch \<noteq> SEPARATION"
  shows "\<exists>s1 i found signal s2 s3 s4 v a b. wait_signal 0 port 0 s1 = (i, found, signal, s2) \<and>
    tw9912_write port 0x1c 0x07 s2 = (a, s3) \<and> tw9912_read port 0x1c signal s3 = (b, v, s4) \<and>
    tw9912_testing_channal_signal port u ch s = (stdnow_format v, s4)"
proof -
  define s1 where "s1 = (if lc_Channel (the_last_config s) \<noteq> ch then snd (tw9912_channel_choeces_again port ch s) else s)"
  obtain i found signal s2 where w: "wait_signal 0 port 0 s1 = (i, found, signal, s2)" by (metis prod_cases4)
  obtain a s3 where x: "tw9912_write port 0x1c 0x07 s2 = (a, s3)" by fastforce
  obtain b v s4 where y: "tw9912_read port 0x1c signal s3 = (b, v, s4)" by (metis prod_cases3)
  have i: "(\<not> found \<and> i = 2) = False" using wait_signal_bound [OF _ w] by auto
  have "tw9912_testing_channal_signal port u ch s = (stdnow_format v, s4)"
    using assms x y by (simp only: tw9912_testing_channal_signal_def s1_def [symmetric] w i Let_def prod.case if_False de_Morgan_disj simp_thms)
  with w x y show ?thesis by blast
qed

section \<open>Properties\<close>

text \<open>
  On the later boards, through the I2C layer, loading any table that ends with its mark leaves in the decoder exactly what the
  table says: the reference \<open>table_regs\<close>, entry by entry, and nothing else changes in the driver's state.
\<close>

theorem table_loaded:
  assumes "table_ends tab" "on_bus3 (chip_dev s)"
  shows "\<exists>s'. config_loop (v3_port regfile_core bus_resx tc) tab s = Inr (ACK, s') \<and>
    bus (chip_dev s') = table_regs tab (bus (chip_dev s)) \<and> s' = s\<lparr>chip_dev := chip_dev s'\<rparr>"
  using v3.load_at [OF v3.at_regs_refl assms(1), of s tc] assms(2) by (auto simp: v3.at_regs_def)

theorem table_loaded_witness:
  "\<exists>s'. config_loop (v3_port regfile_core bus_resx (\<lambda>_ s. s)) [0x02, 0x40, 0x02, 0x4c, 0xfe]
     (tw9912_start \<lparr>i2c_api_list = [\<lparr>nr = 3, client_addr = 0\<rparr>], lidbg_i2c_running = 0, bus = \<lambda>_. 0\<rparr>) = Inr (ACK, s') \<and>
     bus (chip_dev s') 0x02 = 0x4c"
  using table_loaded [of "[0x02, 0x40, 0x02, 0x4c, 0xfe]"
    "tw9912_start \<lparr>i2c_api_list = [\<lparr>nr = 3, client_addr = 0\<rparr>], lidbg_i2c_running = 0, bus = \<lambda>_. 0\<rparr>" "\<lambda>_ s. s"]
  by (auto simp: tw9912_start_def on_bus3_def get_i2c_api_def)

text \<open>
  On the boards that move the pins themselves: if the decoder reports a locked signal in one of the four formats, then
  configuring a camera channel succeeds and programs the decoder with the table of that format, behind the selection of the pin;
  the driver remembers channel and format.
\<close>

theorem format_programmed:
  assumes "chip_ready TW9912_I2C_ChipAdd 1 (chip_dev s)" "camera_pin ch" "length (signal_is_how s) = 5"
    and "st_flag (tw9912_status s)" "found_format (chip_regs (chip_dev s)) = f" "format_table f = Some tab"
  shows "\<exists>s'. tw9912_config_array (bit_port chip_bus chip_resx tc) u ch s = Inr (1, s') \<and>
    chip_regs (chip_dev s') = table_regs tab ((write_regs (pin_selet ch) (chip_regs (chip_dev s)))(0x1d := 0xff)) \<and>
    the_last_config s' = \<lparr>lc_Channel = ch, lc_format = f\<rparr> \<and>
    tw9912_status s' = \<lparr>st_flag = True, st_Channel = ch, st_format = f\<rparr>"
  using bits.config_array_at [OF assms] .

definition pal_chip :: chip where
  "pal_chip = (chip_new 0x44 1)\<lparr>c_mem := (\<lambda>_. 0)(1 := 0x08, 30 := 0x10)\<rparr>"

definition pal_driver :: "chip tw9912" where
  "pal_driver = (tw9912_start pal_chip)\<lparr>tw9912_status := \<lparr>st_flag = True, st_Channel = YIN3, st_format = NTSC_I\<rparr>\<rparr>"

lemma pal_driver_facts:
  "chip_ready TW9912_I2C_ChipAdd 1 (chip_dev pal_driver)" "length (signal_is_how pal_driver) = 5"
  "st_flag (tw9912_status pal_driver)" "found_format (chip_regs (chip_dev pal_driver)) = PAL_I"
  using chip_new_ready [of "0x44" 1]
  by (simp_all add: pal_driver_def pal_chip_def tw9912_start_def TW9912_I2C_ChipAdd_def chip_ready_def found_format_def
    chip_regs_def cvfmt_format_def)

theorem format_programmed_witness:
  "\<exists>s'. tw9912_config_array (bit_port chip_bus chip_resx (\<lambda>_ c. c)) 0 YIN3 pal_driver = Inr (1, s') \<and>
     the_last_config s' = \<lparr>lc_Channel = YIN3, lc_format = PAL_I\<rparr>"
proof -
  have "camera_pin YIN3" "format_table PAL_I = Some TW9912_INIT_PAL_Interlaced_input" by (simp_all add: camera_pin_def)
  from format_programmed [OF pal_driver_facts(1) this(1) pal_driver_facts(2-4) this(2), of "\<lambda>_ c. c" 0] show ?thesis by auto
qed

text \<open>
  The tables for interlaced signals begin with the selection of the pin \<open>YIN3\<close>, so whichever camera channel was
  asked for, the decoder ends up on that one.
\<close>

lemma table_pin:
  "f = NTSC_I \<or> f = PAL_I \<Longrightarrow> format_table f = Some tab \<Longrightarrow> table_regs tab m 0x02 = 0x4c"
  by (auto simp: tables)

theorem interlaced_on_yin3:
  assumes "chip_ready TW9912_I2C_ChipAdd 1 (chip_dev s)" "camera_pin ch" "length (signal_is_how s) = 5"
    and "st_flag (tw9912_status s)" "found_format (chip_regs (chip_dev s)) = f" "f = NTSC_I \<or> f = PAL_I"
  shows "\<exists>s'. tw9912_config_array (bit_port chip_bus chip_resx tc) u ch s = Inr (1, s') \<and>
    lc_Channel (the_last_config s') = ch \<and> drop_bit 2 (chip_regs (chip_dev s') 0x02 AND 0x0c) = 3"
proof -
  obtain tab where "format_table f = Some tab" using assms(6) by (cases f) auto
  from bits.config_array_at [OF assms(1-5) this, of tc u] table_pin [OF assms(6) this] show ?thesis by auto
qed

theorem interlaced_on_yin3_witness:
  "\<exists>s'. tw9912_config_array (bit_port chip_bus chip_resx (\<lambda>_ c. c)) 0 YIN0 pal_driver = Inr (1, s') \<and>
     lc_Channel (the_last_config s') = YIN0 \<and> drop_bit 2 (chip_regs (chip_dev s') 0x02 AND 0x0c) = 3"
  by (rule interlaced_on_yin3 [OF pal_driver_facts(1) _ pal_driver_facts(2-4)]) (simp_all add: camera_pin_def)

end
