(* ===== verification/Tc358.thy ===== *)
theory Tc358
  imports Tw9912
begin

text \<open>
  The bridge between the video decoder and the camera port of the processor, \<^verbatim>\<open>drivers/videoin/TC358746XBG.c\<close>, over either serial
  bus: registers with numbers of two bytes and values of two or four, tables of them, the identification, the colour bars.
\<close>

section \<open>Registers\<close>

definition register_value_width_16 :: byte where "register_value_width_16 = 16"
definition register_value_width_32 :: byte where "register_value_width_32 = 32"

text \<open>Number, value and width of a register; a table ends with the number \<open>0xffff\<close>.\<close>

type_synonym tc358746xbg_register_t = "16 word \<times> u32 \<times> byte"

definition tc358746xbg_hardware_reset :: "'d video_port \<Rightarrow> 'd \<Rightarrow> 'd" where
  "tc358746xbg_hardware_reset port d = tc358_RESX port True (tc358_RESX port False d)"

text \<open>The caller's buffer has four bytes.\<close>

definition tc358746xbg_read ::
  "'d video_port \<Rightarrow> 16 word \<Rightarrow> byte list \<Rightarrow> byte \<Rightarrow> 'd \<Rightarrow> i2c_ack \<times> byte list \<times> 'd" where
  "tc358746xbg_read port add data flag d =
     (if flag = register_value_width_16 then
        let (ret, bs, d1) = vp_read2 port TC358746_I2C_ChipAdd (ucast add) (take 2 data) d in (ret, bs @ drop 2 data, d1)
      else if flag = register_value_width_32 then
        let (ret, bs, d1) = vp_read2 port TC358746_I2C_ChipAdd (ucast add) (take 4 data) d in (ret, bs @ drop 4 data, d1)
      else (NACK, data, d))"

text \<open>The bytes of a write: number, low half and, for the wide registers, high half, each half high byte first.\<close>

definition tc_write_bytes :: "16 word \<Rightarrow> u32 \<Rightarrow> byte \<Rightarrow> byte list" where
  "tc_write_bytes add valu flag =
     [ucast (drop_bit 8 add), ucast add] @
     (if flag = register_value_width_16
      then [ucast (drop_bit 8 (ucast valu :: 16 word)), ucast (ucast valu :: 16 word)]
      else [ucast (drop_bit 8 valu), ucast valu, ucast (drop_bit 24 valu), ucast (drop_bit 16 valu)])"

definition tc358746xbg_write :: "'d video_port \<Rightarrow> 16 word \<Rightarrow> u32 \<Rightarrow> byte \<Rightarrow> 'd \<Rightarrow> i2c_ack \<times> 'd" where
  "tc358746xbg_write port add valu flag d =
     (if flag = register_value_width_16 \<or> flag = register_value_width_32
      then vp_write2 port TC358746_I2C_ChipAdd (tc_write_bytes add valu flag) d
      else (NACK, d))"

definition tc358746xbg_software_reset :: "'d video_port \<Rightarrow> 'd \<Rightarrow> 'd" where
  "tc358746xbg_software_reset port d =
     snd (tc358746xbg_write port 0x0002 0 register_value_width_16
       (snd (tc358746xbg_write port 0x0002 1 register_value_width_16 d)))"

definition tc358746xbg_data_out_enable :: "'d video_port \<Rightarrow> byte \<Rightarrow> 'd \<Rightarrow> 'd" where
  "tc358746xbg_data_out_enable port flag d =
     snd (tc358746xbg_write port 0x4 (if flag = 1 then 0x1044 else 0x1014) register_value_width_16 d)"

section \<open>Tables\<close>

definition tc358746_id :: "tc358746xbg_register_t list" where
  "tc358746_id =
     [(0x0000, 0x4400, 16)]"

definition PALp_init_tab :: "tc358746xbg_register_t list" where
  "PALp_init_tab =
     [(0x0016, 4363, 16), (0x0018, 2579, 16), (0x0006, 176, 16), (0x0008, 96, 16), (0x0022, 1469, 16),
      (0x0100, 0x203, 32), (0x0104, 0x203, 32), (0x0108, 0x203, 32), (0x0140, 0, 32), (0x0144, 0, 32),
      (0x0148, 0, 32), (0x014c, 1, 32), (0x0150, 1, 32), (0x0210, 5120, 32), (0x0214, 2, 32),
      (0x0218, 4098, 32), (0x021c, 0, 32), (0x0220, 2, 32), (0x0224, 17152, 32), (0x0228, 8, 32),
      (0x022c, 0, 32), (0x0234, 7, 32), (0x0238, 1, 32), (0x0204, 1, 32), (0x0518, 1, 32),
      (0x0500, 0xa30080a2, 32), (0x0004, 4164, 16), (0xffff, 0, 0)]"

definition NTSCp_init_tab :: "tc358746xbg_register_t list" where
  "NTSCp_init_tab =
     [(0x0016, 4395, 16), (0x0018, 2579, 16), (0x0006, 196, 16), (0x0008, 96, 16), (0x0022, 1500, 16),
      (0x0100, 0x200, 32), (0x0104, 0x200, 32), (0x0108, 0x200, 32), (0x0140, 0, 32), (0x0144, 0, 32),
      (0x0148, 0, 32), (0x014c, 1, 32), (0x0150, 1, 32), (0x0210, 5760, 32), (0x0214, 2, 32),
      (0x0218, 4098, 32), (0x021c, 0, 32), (0x0220, 2, 32), (0x0224, 20224, 32), (0x0228, 7, 32),
      (0x022c, 1, 32), (0x0234, 7, 32), (0x0238, 1, 32), (0x0204, 1, 32), (0x0518, 1, 32),
      (0x0500, 0xa30080a2, 32), (0x0004, 4164, 16), (0xffff, 0, 0)]"

definition tc358746xbg_show_colorbar_config_tab :: "tc358746xbg_register_t list" where
  "tc358746xbg_show_colorbar_config_tab =
     [(0x00e8, 0x7f, 16), (0x00e8, 0x7f, 16), (0x00e8, 0xff, 16), (0x00e8, 0x0, 16), (0x00e8, 0x0, 16),
      (0x00e8, 0xff, 16), (0x00e8, 0x7fff, 16), (0x00e8, 0x7ff0, 16), (0x00e8, 0x7f00, 16), (0x00e8, 0x7f00, 16),
      (0x00e8, 0xc0ff, 16), (0x00e8, 0xc000, 16), (0x00e8, 0xff00, 16), (0x00e8, 0xffff, 16), (0x00e8, 0xff7f, 16),
      (0x00e8, 0xff7f, 16)]"

definition toshiba_initall_list :: "tc358746xbg_register_t list" where
  "toshiba_initall_list =
     [(0x00e0, 0x0, 16), (0x0016, 0x10ff, 16), (0x0018, 0x0a13, 16), (0x0100, 0x202, 32), (0x0104, 0x242, 32),
      (0x0108, 0x242, 32), (0x010c, 0x242, 32), (0x0110, 0x242, 32), (0x0140, 0x0, 32), (0x0150, 0x0, 32),
      (0x014c, 0x0, 32), (0x0148, 0x0, 32), (0x0144, 0x0, 32), (0x0210, 0x1300, 32), (0x0214, 0x2, 32),
      (0x0218, 0xd01, 32), (0x021c, 0x0, 32), (0x0220, 0x2, 32), (0x0228, 0x7, 32), (0x022c, 0x0, 32),
      (0x0234, 0x1f, 32), (0x0238, 0x0, 32), (0x0204, 0x1, 32), (0x0518, 0x1, 32), (0x0500, 0xa30080a2, 32),
      (0x0008, 0x60, 16), (0x0022, 0x5a0, 16), (0x00e0, 0x8200, 16), (0x00e2, 0x600, 16), (0x00e4, 0x40, 16),
      (0xffff, 0, 0)]"

definition Stop_tab :: "tc358746xbg_register_t list" where
  "Stop_tab =
     [(0x0002, 0x2, 16), (0xffff, 0, 0)]"

text \<open>The colour of the console command, which may change it.\<close>

definition tc358746xbg_show_colorbar_config_user_tab :: "tc358746xbg_register_t list" where
  "tc358746xbg_show_colorbar_config_user_tab = [(0x00e8, 0x307f, 16), (0x00e8, 0x307f, 16)]"

fun tc358746xbg_config_array :: "'d video_port \<Rightarrow> tc358746xbg_register_t list \<Rightarrow> 'd \<Rightarrow> fault + (int \<times> 'd)" where
  "tc358746xbg_config_array port [] d = Inl BufOverrun"
| "tc358746xbg_config_array port ((add, val, width) # TC358746_init_tab) d =
     (if add = 0xffff then Inr (0, d)
      else let (back_ret, d1) = tc358746xbg_write port add val width d in
        if back_ret = NACK then Inr (- 1, d1) else tc358746xbg_config_array port TC358746_init_tab d1)"

text \<open>At most five attempts to read the identification; \<open>n\<close> is the number of attempts left, \<open>valu\<close> the local buffer.\<close>

fun get_id_loop :: "nat \<Rightarrow> 'd video_port \<Rightarrow> byte list \<Rightarrow> 'd \<Rightarrow> int \<times> 'd" where
  "get_id_loop 0 port valu d = (- 1, d)"
| "get_id_loop (Suc n) port valu d =
     (let (add, val, width) = hd tc358746_id;
          (_, valu1, d1) = tc358746xbg_read port add valu width d
      in if (ucast (hd valu1) :: u32) = drop_bit 8 val then (1, d1) else get_id_loop n port valu1 d1)"

definition tc358746xbg_get_id :: "'d video_port \<Rightarrow> byte \<Rightarrow> 'd \<Rightarrow> int \<times> 'd" where
  "tc358746xbg_get_id port u d = get_id_loop 5 port (replicate 4 u) d"

section \<open>Colour bars\<close>

text \<open>Writes up to the first one without acknowledgement.\<close>

fun tc_writes :: "'d video_port \<Rightarrow> tc358746xbg_register_t list \<Rightarrow> 'd \<Rightarrow> i2c_ack \<times> 'd" where
  "tc_writes port [] d = (ACK, d)"
| "tc_writes port ((add, val, width) # ws) d =
     (let (ret, d1) = tc358746xbg_write port add val width d in if ret = NACK then (NACK, d1) else tc_writes port ws d1)"

definition colorbar_enable :: "'d video_port \<Rightarrow> i2c_ack \<times> 'd \<Rightarrow> 'd" where
  "colorbar_enable port r =
     (if fst r = NACK then snd r else snd (tc358746xbg_write port 0x00e0 0xc1df register_value_width_16 (snd r)))"

text \<open>Two colours of the table, \<open>k\<close> times in turn.\<close>

definition colour_lines :: "nat \<Rightarrow> tc358746xbg_register_t list \<Rightarrow> nat \<Rightarrow> tc358746xbg_register_t list" where
  "colour_lines k tab i = concat (replicate k [tab ! (2 * i), tab ! (2 * i + 1)])"

text \<open>The result of the table, 0 or -1, is compared with \<open>NACK\<close>, which is 0.\<close>

definition tc358746xbg_show_colorbar_config :: "'d video_port \<Rightarrow> 'd \<Rightarrow> fault + 'd" where
  "tc358746xbg_show_colorbar_config port d =
     bindE (tc358746xbg_config_array port toshiba_initall_list d) (\<lambda>(ret, d1). Inr
       (if ret = 0 then d1
        else colorbar_enable port (tc_writes port
          (concat (map (colour_lines 180 tc358746xbg_show_colorbar_config_tab) [4, 6])) d1)))"

definition tc358746xbg_show_colorbar_config_blue :: "'d video_port \<Rightarrow> nat \<Rightarrow> 'd \<Rightarrow> fault + 'd" where
  "tc358746xbg_show_colorbar_config_blue port color_flag d =
     bindE (tc358746xbg_config_array port toshiba_initall_list d) (\<lambda>(ret_back, d1). Inr
       (if ret_back = - 1 then d1
        else colorbar_enable port (tc_writes port (colour_lines 360 tc358746xbg_show_colorbar_config_tab (color_flag - 1)) d1)))"

definition tc358746xbg_show_colorbar_config_grey :: "'d video_port \<Rightarrow> 'd \<Rightarrow> fault + 'd" where
  "tc358746xbg_show_colorbar_config_grey port d =
     bindE (tc358746xbg_config_array port toshiba_initall_list d) (\<lambda>(ret_back, d1). Inr
       (if ret_back = - 1 then d1 else colorbar_enable port (ACK, d1)))"

definition tc358746xbg_show_colorbar_config_user ::
  "'d video_port \<Rightarrow> tc358746xbg_register_t list \<Rightarrow> 'd \<Rightarrow> fault + 'd" where
  "tc358746xbg_show_colorbar_config_user port user_tab d =
     bindE (tc358746xbg_config_array port toshiba_initall_list d) (\<lambda>(ret_back, d1). Inr
       (if ret_back = - 1 then d1 else colorbar_enable port (tc_writes port (colour_lines 360 user_tab 0) d1)))"

section \<open>Configuration\<close>

text \<open>\<open>flag\<close> is the value of a format, or of \<open>COLORBAR\<close> (6) and the number of a colour; \<open>u\<close> as in \<open>Tw9912\<close>.\<close>

definition tc358746xbg_config_begin ::
  "'d video_port \<Rightarrow> byte \<Rightarrow> tc358746xbg_register_t list \<Rightarrow> nat \<Rightarrow> 'd \<Rightarrow> fault + 'd" where
  "tc358746xbg_config_begin port u user_tab flag d =
     (let (ret, d1) = tc358746xbg_get_id port u (tc358746xbg_hardware_reset port d);
          config = (\<lambda>tab. bindE (tc358746xbg_config_array port tab d1) (\<lambda>(_, d2). Inr d2))
      in if ret < 0 then Inr d1
         else if flag \<le> 15 then
           (if flag = 1 \<or> flag = 3 then config NTSCp_init_tab
            else if flag = 2 \<or> flag = 4 then config PALp_init_tab
            else if flag = 5 then config Stop_tab
            else if flag = 6 then tc358746xbg_show_colorbar_config port d1
            else if flag = 6 + 2 then tc358746xbg_show_colorbar_config_blue port 2 d1
            else if flag = 6 + 3 then tc358746xbg_show_colorbar_config_blue port 3 d1
            else if flag = 6 + 5 then tc358746xbg_show_colorbar_config_blue port 5 d1
            else if flag = 6 + 6 then tc358746xbg_show_colorbar_config_blue port 6 d1
            else if flag = 6 + 1 then tc358746xbg_show_colorbar_config_user port user_tab d1
            else if flag = 6 + 7 then tc358746xbg_show_colorbar_config_blue port 7 d1
            else if flag = 6 + 8 + 1 then tc358746xbg_show_colorbar_config_grey port d1
            else tc358746xbg_show_colorbar_config port d1)
         else Inr d1)"

section \<open>What a table leaves in the registers\<close>

text \<open>Registers of the bridge are pairs of bytes, their numbers byte addresses.\<close>

definition tc_value_bytes :: "u32 \<Rightarrow> byte \<Rightarrow> byte list" where
  "tc_value_bytes valu width =
     [ucast (drop_bit 8 valu), ucast valu] @
     (if width = register_value_width_16 then [] else [ucast (drop_bit 24 valu), ucast (drop_bit 16 valu)])"

fun tc_table_mem :: "tc358746xbg_register_t list \<Rightarrow> (nat \<Rightarrow> byte) \<Rightarrow> nat \<Rightarrow> byte" where
  "tc_table_mem [] m = m"
| "tc_table_mem ((add, val, width) # tab) m =
     (if add = 0xffff then m else tc_table_mem tab (stored 65536 (unat add) (tc_value_bytes val width) m))"

definition tc_width :: "byte \<Rightarrow> bool" where
  "tc_width w \<longleftrightarrow> w = register_value_width_16 \<or> w = register_value_width_32"

fun tc_table_ends :: "tc358746xbg_register_t list \<Rightarrow> bool" where
  "tc_table_ends [] = False"
| "tc_table_ends ((add, val, width) # tab) = (add = 0xffff \<or> tc_width width \<and> tc_table_ends tab)"

lemma tc_tables_end:
  "tc_table_ends NTSCp_init_tab" "tc_table_ends PALp_init_tab" "tc_table_ends Stop_tab" "tc_table_ends toshiba_initall_list"
  by (simp_all add: NTSCp_init_tab_def PALp_init_tab_def Stop_tab_def toshiba_initall_list_def tc_width_def
    register_value_width_16_def register_value_width_32_def)

lemma tc_config_array_safe: "tc_table_ends tab \<Longrightarrow> \<exists>r d'. tc358746xbg_config_array port tab d = Inr (r, d') \<and> (r = 0 \<or> r = - 1)"
proof (induction tab arbitrary: d)
  case (Cons e tab)
  obtain add val width where e: "e = (add, val, width)" by (cases e)
  obtain a d1 where w: "tc358746xbg_write port add val width d = (a, d1)" by fastforce
  then show ?case using Cons by (auto simp: e)
qed simp

text \<open>The configuration never leaves a table, whatever it is asked for and whatever the chip answers.\<close>

lemma config_begin_safe: "\<exists>d'. tc358746xbg_config_begin port u user_tab flag d = Inr d'"
proof -
  obtain ret d1 where g: "tc358746xbg_get_id port u (tc358746xbg_hardware_reset port d) = (ret, d1)" by fastforce
  have c: "\<exists>r d'. tc358746xbg_config_array port tab d1 = Inr (r, d')"
    if "tab = NTSCp_init_tab \<or> tab = PALp_init_tab \<or> tab = Stop_tab \<or> tab = toshiba_initall_list" for tab
  proof -
    have "tc_table_ends tab" using that tc_tables_end by metis
    from tc_config_array_safe [OF this, of port d1] show ?thesis by blast
  qed
  obtain r d2 where t: "tc358746xbg_config_array port toshiba_initall_list d1 = Inr (r, d2)" using c [of toshiba_initall_list] by blast
  have bars: "\<exists>d'. tc358746xbg_show_colorbar_config port d1 = Inr d'" "\<exists>d'. tc358746xbg_show_colorbar_config_blue port k d1 = Inr d'"
    "\<exists>d'. tc358746xbg_show_colorbar_config_grey port d1 = Inr d'"
    "\<exists>d'. tc358746xbg_show_colorbar_config_user port user_tab d1 = Inr d'" for k
    unfolding tc358746xbg_show_colorbar_config_def tc358746xbg_show_colorbar_config_blue_def
      tc358746xbg_show_colorbar_config_grey_def tc358746xbg_show_colorbar_config_user_def t bindE_simps prod.case by blast+
  have tabs: "\<exists>d'. bindE (tc358746xbg_config_array port tab d1) (\<lambda>(_, d2). Inr d2) = Inr d'"
    if "tab = NTSCp_init_tab \<or> tab = PALp_init_tab \<or> tab = Stop_tab \<or> tab = toshiba_initall_list" for tab
    using c [OF that] by auto
  have i: "\<exists>d'. x = Inr d' \<Longrightarrow> \<exists>d'. y = Inr d' \<Longrightarrow> \<exists>d'. (if P then x else y) = Inr d'" for P and x y :: "fault + 'a" by simp
  show ?thesis unfolding tc358746xbg_config_begin_def Let_def g prod.case
    by (intro i bars tabs) simp_all
qed

section \<open>The driver on a bridge that answers\<close>

lemma wide_number_of: "wide_register (ucast (drop_bit 8 (add :: 16 word))) (ucast add) = unat add"
proof -
  have "unat (ucast add :: byte) = unat add mod 256"
    by (simp add: unsigned_ucast_eq take_bit_eq_mod)
  moreover have "unat (ucast (drop_bit 8 add) :: byte) = unat add div 256"
  proof -
    have "unat add < 65536" using unsigned_less [of add, where ?'a = nat] by simp
    then have "unat add div 256 < 256" by linarith
    then show ?thesis by (simp add: unsigned_ucast_eq take_bit_eq_mod unsigned_drop_bit_eq drop_bit_eq_div unat_div)
  qed
  moreover have "unat add < 65536" using unsigned_less [of add, where ?'a = nat] by simp
  ultimately show ?thesis by (simp add: wide_register_def)
qed

lemma number_bytes:
  "(ucast (drop_bit 8 (ucast (add :: 16 word) :: u32)) :: byte) = ucast (drop_bit 8 add)"
  "(ucast (ucast (add :: 16 word) :: u32) :: byte) = ucast add"
  "(ucast (drop_bit 8 (ucast (valu :: u32) :: 16 word)) :: byte) = ucast (drop_bit 8 valu)"
  "(ucast (ucast (valu :: u32) :: 16 word) :: byte) = ucast valu"
  by (rule bit_word_eqI; auto simp: bit_simps)+

lemma tc_write_bytes_eq:
  "tc_width w \<Longrightarrow> tc_write_bytes add valu w = ucast (drop_bit 8 add) # ucast add # tc_value_bytes valu w"
  by (simp add: tc_write_bytes_def tc_value_bytes_def number_bytes)

text \<open>A bridge behind a port, whose memory has fixed contents after a reset, with its identification in front.\<close>

locale bridge_port =
  fixes port :: "'d video_port"
    and mem :: "'d \<Rightarrow> nat \<Rightarrow> byte"
    and ready :: "'d \<Rightarrow> bool"
    and start :: "nat \<Rightarrow> byte"
  assumes wr2: "ready d \<Longrightarrow> length vs \<le> 4 \<Longrightarrow> \<exists>d'. vp_write2 port TC358746_I2C_ChipAdd (hi # lo # vs) d = (ACK, d') \<and>
      ready d' \<and> mem d' = stored 65536 (wide_register hi lo) vs (mem d)"
    and rd2: "ready d \<Longrightarrow> data \<noteq> [] \<Longrightarrow> length data \<le> 4 \<Longrightarrow> \<exists>d'. vp_read2 port TC358746_I2C_ChipAdd sub data d =
      (ACK, map (\<lambda>i. mem d ((wide_register (ucast (drop_bit 8 sub)) (ucast sub) + i) mod 65536)) [0..<length data], d') \<and>
      ready d' \<and> mem d' = mem d"
    and rst2: "ready d \<Longrightarrow> ready (tc358_RESX port True (tc358_RESX port False d)) \<and>
      mem (tc358_RESX port True (tc358_RESX port False d)) = start"
    and ident: "start 0 = 0x44"
begin

lemma tc_write_at:
  assumes "ready d" "tc_width w"
  shows "\<exists>d'. tc358746xbg_write port add valu w d = (ACK, d') \<and> ready d' \<and>
    mem d' = stored 65536 (unat add) (tc_value_bytes valu w) (mem d)"
proof -
  have "length (tc_value_bytes valu w) \<le> 4" by (simp add: tc_value_bytes_def)
  from wr2 [OF assms(1) this, of "ucast (drop_bit 8 add)" "ucast add"] show ?thesis
    using assms(2) by (simp add: tc358746xbg_write_def tc_write_bytes_eq [OF assms(2)] wide_number_of tc_width_def)
qed

lemma tc_load_at:
  "ready d \<Longrightarrow> tc_table_ends tab \<Longrightarrow>
   \<exists>d'. tc358746xbg_config_array port tab d = Inr (0, d') \<and> ready d' \<and> mem d' = tc_table_mem tab (mem d)"
proof (induction tab arbitrary: d)
  case (Cons e tab)
  obtain add val width where e: "e = (add, val, width)" by (cases e)
  show ?case
  proof (cases "add = 0xffff")
    case False
    with Cons.prems(2) have w: "tc_width width" "tc_table_ends tab" by (simp_all add: e)
    obtain d1 where d1: "tc358746xbg_write port add val width d = (ACK, d1)" "ready d1"
      "mem d1 = stored 65536 (unat add) (tc_value_bytes val width) (mem d)"
      using tc_write_at [OF Cons.prems(1) w(1)] by blast
    then have "tc358746xbg_config_array port (e # tab) d = tc358746xbg_config_array port tab d1"
      using False by (simp add: e)
    moreover have "tc_table_mem (e # tab) (mem d) = tc_table_mem tab (mem d1)" using False d1(3) by (simp add: e)
    ultimately show ?thesis using Cons.IH [OF d1(2) w(2)] by metis
  qed (use Cons.prems in \<open>simp add: e\<close>)
qed simp

lemma get_id_at:
  assumes "ready d" "mem d 0 = 0x44"
  shows "\<exists>d'. tc358746xbg_get_id port u d = (1, d') \<and> ready d' \<and> mem d' = mem d"
proof -
  have l: "length [u, u] \<le> 4" "[u, u] \<noteq> []" by simp_all
  have two: "map f [0..<length [u, u]] = [f 0, f 1]" for f :: "nat \<Rightarrow> byte" by (simp add: upt_rec)
  obtain d' where d': "vp_read2 port TC358746_I2C_ChipAdd (ucast (0 :: 16 word)) [u, u] d = (ACK, [0x44, mem d 1], d')"
    "ready d'" "mem d' = mem d"
    using rd2 [OF assms(1) l(2,1), of "ucast (0 :: 16 word)", unfolded two] assms(2)
    by (auto simp: wide_register_def)
  have n: "get_id_loop 5 = get_id_loop (Suc 4)" "replicate 4 u = [u, u, u, u]" by (simp_all add: eval_nat_numeral)
  have "get_id_loop 5 port (replicate 4 u) d = (1, d')"
    unfolding n get_id_loop.simps using d'(1) by (simp add: tc358746_id_def tc358746xbg_read_def register_value_width_16_def)
  then show ?thesis using d' by (auto simp: tc358746xbg_get_id_def)
qed

text \<open>A reset and the identification in front of a configuration.\<close>

lemma config_begin_at:
  assumes "ready d"
  obtains d1 where "ready d1" "mem d1 = start"
    "tc358746xbg_get_id port u (tc358746xbg_hardware_reset port d) = (1, d1)"
  using get_id_at [of "tc358746xbg_hardware_reset port d" u] rst2 [OF assms] ident
  by (auto simp: tc358746xbg_hardware_reset_def)

end

text \<open>The reference device as bridge, which a reset clears except for the identification.\<close>

definition bridge_start :: "nat \<Rightarrow> byte" where
  "bridge_start = (\<lambda>_. 0)(0 := 0x44)"

definition bridge_resx :: "bool \<Rightarrow> chip \<Rightarrow> chip" where
  "bridge_resx v c = (if v then c else c\<lparr>c_mem := bridge_start, c_mode := ChipIdle\<rparr>)"

interpretation bridge: bridge_port "bit_port chip_bus tw bridge_resx" c_mem "chip_ready TC358746_I2C_ChipAdd 2" bridge_start
  for tw
proof
  fix d :: chip and hi lo :: byte and vs data :: "byte list" and sub :: u32
  assume d: "chip_ready TC358746_I2C_ChipAdd 2 d"
  show "\<exists>d'. vp_write2 (bit_port chip_bus tw bridge_resx) TC358746_I2C_ChipAdd (hi # lo # vs) d = (ACK, d') \<and>
      chip_ready TC358746_I2C_ChipAdd 2 d' \<and> c_mem d' = stored 65536 (wide_register hi lo) vs (c_mem d)"
    if "length vs \<le> 4"
    using write_wide_register [OF d, of vs hi lo] that by (auto simp: bit_port_def)
  show "\<exists>d'. vp_read2 (bit_port chip_bus tw bridge_resx) TC358746_I2C_ChipAdd sub data d =
      (ACK, map (\<lambda>i. c_mem d ((wide_register (ucast (drop_bit 8 sub)) (ucast sub) + i) mod 65536)) [0..<length data], d') \<and>
      chip_ready TC358746_I2C_ChipAdd 2 d' \<and> c_mem d' = c_mem d"
    if "data \<noteq> []" "length data \<le> 4"
    using read_wide_register [OF d, of "length data" sub] that by (auto simp: bit_port_def filled_def)
  show "chip_ready TC358746_I2C_ChipAdd 2 (tc358_RESX (bit_port chip_bus tw bridge_resx) True (tc358_RESX (bit_port chip_bus tw bridge_resx) False d)) \<and>
      c_mem (tc358_RESX (bit_port chip_bus tw bridge_resx) True (tc358_RESX (bit_port chip_bus tw bridge_resx) False d)) = bridge_start"
    using d by (simp add: bit_port_def bridge_resx_def chip_ready_def)
qed (simp add: bridge_start_def)

section \<open>Properties\<close>

text \<open>The table for a format.\<close>

fun bridge_table :: "vedio_format_t \<Rightarrow> tc358746xbg_register_t list option" where
  "bridge_table NTSC_I = Some NTSCp_init_tab"
| "bridge_table NTSC_P = Some NTSCp_init_tab"
| "bridge_table PAL_I = Some PALp_init_tab"
| "bridge_table PAL_P = Some PALp_init_tab"
| "bridge_table STOP_VIDEO = Some Stop_tab"
| "bridge_table f = None"

text \<open>
  Configuring the bridge for a format resets it, finds its identification and leaves in its registers
  exactly the table for the format, over the reset contents.
\<close>

theorem bridge_programmed:
  assumes "chip_ready TC358746_I2C_ChipAdd 2 d" "bridge_table f = Some tab"
  shows "\<exists>d'. tc358746xbg_config_begin (bit_port chip_bus tw bridge_resx) u user_tab (nat (format_nr f)) d = Inr d' \<and>
    c_mem d' = tc_table_mem tab bridge_start"
proof -
  obtain d1 where d1: "chip_ready TC358746_I2C_ChipAdd 2 d1" "c_mem d1 = bridge_start"
    "tc358746xbg_get_id (bit_port chip_bus tw bridge_resx) u (tc358746xbg_hardware_reset (bit_port chip_bus tw bridge_resx) d) = (1, d1)"
    using bridge.config_begin_at [OF assms(1)] .
  have "tc_table_ends tab" using assms(2) tc_tables_end by (cases f) auto
  from bridge.tc_load_at [OF d1(1) this] obtain d2 where
    "tc358746xbg_config_array (bit_port chip_bus tw bridge_resx) tab d1 = Inr (0, d2)" "c_mem d2 = tc_table_mem tab bridge_start"
    using d1(2) by auto
  then show ?thesis using assms(2) d1(3) by (cases f) (auto simp: tc358746xbg_config_begin_def)
qed

theorem bridge_programmed_witness:
  "\<exists>d'. tc358746xbg_config_begin (bit_port chip_bus (\<lambda>_ c. c) bridge_resx) 0 [] 5 (chip_new 7 2) = Inr d' \<and> c_mem d' 3 = 2"
proof -
  have "chip_ready TC358746_I2C_ChipAdd 2 (chip_new 7 2)" using chip_new_ready [of 7 2] by (simp add: TC358746_I2C_ChipAdd_def)
  from bridge_programmed [OF this, of STOP_VIDEO Stop_tab "\<lambda>_ c. c" 0 "[]"] show ?thesis
    by (auto simp: Stop_tab_def tc_value_bytes_def register_value_width_16_def)
qed

text \<open>
  The colour bars that are to show a missing configuration do not appear on a bridge that works: the control register
  \<open>0x00e0\<close> keeps the value of the table, in which the bars are off.
\<close>

theorem colour_bars_skipped:
  assumes "chip_ready TC358746_I2C_ChipAdd 2 d"
  shows "\<exists>d'. tc358746xbg_config_begin (bit_port chip_bus tw bridge_resx) u user_tab 6 d = Inr d' \<and>
    c_mem d' = tc_table_mem toshiba_initall_list bridge_start"
proof -
  obtain d1 where d1: "chip_ready TC358746_I2C_ChipAdd 2 d1" "c_mem d1 = bridge_start"
    "tc358746xbg_get_id (bit_port chip_bus tw bridge_resx) u (tc358746xbg_hardware_reset (bit_port chip_bus tw bridge_resx) d) = (1, d1)"
    using bridge.config_begin_at [OF assms(1)] .
  from bridge.tc_load_at [OF d1(1) tc_tables_end(4)] obtain d2 where
    "tc358746xbg_config_array (bit_port chip_bus tw bridge_resx) toshiba_initall_list d1 = Inr (0, d2)"
    "c_mem d2 = tc_table_mem toshiba_initall_list bridge_start"
    using d1(2) by auto
  then show ?thesis using d1(3) by (simp add: tc358746xbg_config_begin_def tc358746xbg_show_colorbar_config_def)
qed

theorem colour_bars_skipped_witness:
  "\<exists>d'. tc358746xbg_config_begin (bit_port chip_bus (\<lambda>_ c. c) bridge_resx) 0 [] 6 (chip_new 7 2) = Inr d' \<and>
     c_mem d' = tc_table_mem toshiba_initall_list bridge_start"
  by (rule colour_bars_skipped) (use chip_new_ready [of 7 2] in \<open>simp add: TC358746_I2C_ChipAdd_def\<close>)

text \<open>
  A register of the bridge is read back as the bytes that were written for it: high byte first, and for a wide
  register the low half before the high half.
\<close>

theorem tc358_register_roundtrip:
  assumes "chip_ready TC358746_I2C_ChipAdd 2 d" "tc_width w" "length data = 4"
  shows "\<exists>d' d''. tc358746xbg_write (bit_port chip_bus tw tc) add valu w d = (ACK, d') \<and>
    tc358746xbg_read (bit_port chip_bus tw tc) add data w d' =
      (ACK, tc_value_bytes valu w @ drop (length (tc_value_bytes valu w)) data, d'')"
proof -
  let ?vs = "tc_value_bytes valu w"
  have vs: "0 < length ?vs" "length ?vs \<le> 253" "length ?vs \<le> 65536"
    "length ?vs = (if w = register_value_width_16 then 2 else 4)" by (simp_all add: tc_value_bytes_def)
  obtain d' where d': "i2c_write_2byte chip_bus TC358746_I2C_ChipAdd (ucast (drop_bit 8 add) # ucast add # ?vs) d = Inr (Some (ACK, d'))"
    "chip_ready TC358746_I2C_ChipAdd 2 d'" "c_mem d' = stored 65536 (unat add) ?vs (c_mem d)"
    using write_wide_register [OF assms(1) vs(2), of "ucast (drop_bit 8 add)" "ucast add"] wide_number_of [of add] by auto
  have "unat add < 65536" using unsigned_less [of add, where ?'a = nat] by simp
  then have same: "map (\<lambda>i. c_mem d' ((unat add + i) mod 65536)) [0..<length ?vs] = ?vs"
    using stored_read [OF vs(3)] by (simp add: d'(3))
  obtain d'' where d'': "i2c_read_2byte chip_bus TC358746_I2C_ChipAdd (ucast add) (length ?vs) d' = Some (ACK, ?vs, d'')"
    using read_wide_register [OF d'(2) vs(1), of "ucast add"] vs(2) same by (auto simp: number_bytes wide_number_of)
  have "tc358746xbg_write (bit_port chip_bus tw tc) add valu w d = (ACK, d')"
    using assms(2) d'(1) by (simp add: tc358746xbg_write_def tc_write_bytes_eq [OF assms(2)] bit_port_def tc_width_def)
  moreover have "tc358746xbg_read (bit_port chip_bus tw tc) add data w d' = (ACK, ?vs @ drop (length ?vs) data, d'')"
    using assms(2,3) d'' vs(4)
    by (auto simp: tc358746xbg_read_def bit_port_def filled_def tc_width_def register_value_width_16_def register_value_width_32_def)
  ultimately show ?thesis by blast
qed

theorem tc358_register_roundtrip_witness:
  "\<exists>d' d''. tc358746xbg_write (bit_port chip_bus (\<lambda>_ c. c) (\<lambda>_ c. c)) 4 0x44 16 (chip_new 7 2) = (ACK, d') \<and>
    tc358746xbg_read (bit_port chip_bus (\<lambda>_ c. c) (\<lambda>_ c. c)) 4 [1, 2, 3, 4] 16 d' = (ACK, [0, 0x44, 3, 4], d'')"
proof -
  have "chip_ready TC358746_I2C_ChipAdd 2 (chip_new 7 2)" using chip_new_ready [of 7 2] by (simp add: TC358746_I2C_ChipAdd_def)
  then show ?thesis
    using tc358_register_roundtrip [of "chip_new 7 2" 16 "[1, 2, 3, 4]" "\<lambda>_ c. c" "\<lambda>_ c. c" 4 "0x44"]
    by (simp add: tc_width_def tc_value_bytes_def register_value_width_16_def)
qed

end
