(* ===== verification/Video_Config.thy ===== *)
theory Video_Config
  imports Tc358 Helper
begin

text \<open>
  The configuration of the video input as a whole, \<^verbatim>\<open>drivers/videoin/video_init_config.c\<close> and the device node of
  \<^verbatim>\<open>lidbg_videoin_main.c\<close>: the image settings, the choice of the channel, the test for a signal, and the order in which decoder, image and bridge
  are set up.  The tables of settings are those of the boards from V3 on.

  Both chips hang on the same bus; the state \<open>'d\<close> of the bus is a field of the decoder driver's record.  The variable
  \<open>global_video_channel_flag\<close>, set by the camera driver, is part of the state.  The counters that only thin out the log are left away.
\<close>

datatype vedio_channel_t_2 = AUX_4KO | TV_4KO | ASTREN_4KO | DVD_4KO | OTHER_CHANNEL_4KO

text \<open>The settings of the image; the values of the enumeration are 1 to 6.\<close>

datatype Vedio_Effect = BRIGHTNESS | CONTRAST | SHARPNESS | CHROMA_U | CHROMA_V | HUE

fun effect_nr :: "Vedio_Effect \<Rightarrow> nat" where
  "effect_nr BRIGHTNESS = 1"
| "effect_nr CONTRAST = 2"
| "effect_nr SHARPNESS = 3"
| "effect_nr CHROMA_U = 4"
| "effect_nr CHROMA_V = 5"
| "effect_nr HUE = 6"

text \<open>\<open>tw_sta\<close>, \<open>tw_flag\<close> and \<open>tw_this_is_first_open\<close> are one byte each, so the structure has five bytes.\<close>

record tw9912info_t =
  tw_reg :: byte
  tw_reg_val :: byte
  tw_sta :: byte
  tw_flag :: byte
  tw_this_is_first_open :: byte

record 'd video =
  tw :: "'d tw9912"
  info_vedio_channel_t :: vedio_channel_t
  info_com_top_Channel :: vedio_channel_t
  last_vide_format :: vedio_channel_t_2
  flag_now_config_channal_AUX_or_Astren :: nat
  TW9912_Image_Parameter_fly :: "byte list"
  Tw9912_image_global_AUX_BACK :: "(byte \<times> byte) list"
  Tw9912_image_global_AUX_BACK_PAL_I :: "(byte \<times> byte) list"
  Tw9912_image_global_separation :: "(byte \<times> byte) list"
  global_tw9912_info_for_NTSC_I :: tw9912info_t
  global_tw9912_info_for_PAL_I :: tw9912info_t
  global_video_channel_flag :: vedio_channel_t_2
  user_tab :: "tc358746xbg_register_t list"
  Format_count :: byte
  Format_count_flag :: byte
  tw9912_read_func_read_data :: byte
  servicer_cmds :: "u32 list"

section \<open>Tables of image settings\<close>

definition Image_Config_AUX_BACK :: "byte list list" where
  "Image_Config_AUX_BACK =
     [[0x2f, 0x20, 0x15, 0x0f, 0x09, 0x00, 0xfa, 0xf0, 0xe9, 0xe0, 0xc9],
      [0x33, 0x35, 0x39, 0x40, 0x45, 0x6a, 0x92, 0xaa, 0xb2, 0xc2, 0xd2],
      [0xa9, 0xb5, 0xc5, 0xe0, 0xf1, 0x00, 0x20, 0x30, 0x40, 0x50, 0x60],
      [0x00, 0x44, 0x66, 0x88, 0xa5, 0xf0, 0xbf, 0xc5, 0xcf, 0xdf, 0xff],
      [0x00, 0x44, 0x66, 0x88, 0xa5, 0xf0, 0xbf, 0xc5, 0xcf, 0xdf, 0xff]]"

definition Image_Config_CarBacking_Normal :: "byte list list" where
  "Image_Config_CarBacking_Normal =
     [[0x2f, 0x20, 0x15, 0x0f, 0x09, 0x00, 0xfa, 0xf0, 0xe9, 0xe0, 0xc9],
      [0x33, 0x35, 0x39, 0x40, 0x45, 0x61, 0x92, 0xaa, 0xb2, 0xc2, 0xd2],
      [0xa9, 0xb5, 0xc5, 0xe0, 0xf1, 0x00, 0x20, 0x30, 0x40, 0x50, 0x60],
      [0x00, 0x19, 0x32, 0x4b, 0x64, 0x7d, 0x96, 0xaf, 0xc8, 0xe1, 0xff],
      [0x00, 0x19, 0x32, 0x4b, 0x64, 0x7d, 0x96, 0xaf, 0xc8, 0xe1, 0xff]]"

definition Image_Config_CarBacking_NewTeana :: "byte list list" where
  "Image_Config_CarBacking_NewTeana =
     [[0x2f, 0x20, 0x15, 0x0f, 0x09, 0x15, 0xfa, 0xf0, 0xe9, 0xe0, 0xc9],
      [0x33, 0x35, 0x39, 0x40, 0x45, 0x61, 0x92, 0xaa, 0xb2, 0xc2, 0xd2],
      [0xa9, 0xb5, 0xc5, 0xe0, 0xf1, 0x00, 0x20, 0x30, 0x40, 0x50, 0x60],
      [0x00, 0x19, 0x32, 0x4b, 0x64, 0x7d, 0x96, 0xaf, 0xc8, 0xe1, 0xff],
      [0x00, 0x19, 0x32, 0x4b, 0x64, 0x7d, 0x96, 0xaf, 0xc8, 0xe1, 0xff]]"

definition Tw9912_image_global_AUX_BACK_start :: "(byte \<times> byte) list" where
  "Tw9912_image_global_AUX_BACK_start = [(0x10, 0x00), (0x11, 0x58), (0x15, 0x00), (0x13, 0xb0), (0x14, 0xb0)]"

definition Image_Config_AUX_BACK_PAL_I :: "byte list list" where
  "Image_Config_AUX_BACK_PAL_I =
     [[0x2f, 0x20, 0x15, 0x0f, 0x09, 0x00, 0xfa, 0xf0, 0xe9, 0xe0, 0xc9],
      [0x33, 0x35, 0x39, 0x40, 0x45, 0x58, 0x92, 0xaa, 0xb2, 0xc2, 0xd2],
      [0xa9, 0xb5, 0xc5, 0xe0, 0xf1, 0x00, 0x20, 0x30, 0x40, 0x50, 0x60],
      [0x00, 0x44, 0x66, 0x88, 0xa5, 0xb0, 0xbf, 0xc5, 0xcf, 0xdf, 0xff],
      [0x00, 0x44, 0x66, 0x88, 0xa5, 0xb0, 0xbf, 0xc5, 0xcf, 0xdf, 0xff]]"

definition Tw9912_image_global_AUX_BACK_PAL_I_start :: "(byte \<times> byte) list" where
  "Tw9912_image_global_AUX_BACK_PAL_I_start = [(0x10, 0x00), (0x11, 0x58), (0x15, 0x00), (0x13, 0xb0), (0x14, 0xb0)]"

definition Image_Config_separation :: "byte list list" where
  "Image_Config_separation =
     [[0x01, 0x02, 0x03, 0x04, 0x06, 0x07, 0x0e, 0x0f, 0x10, 0x11, 0x12],
      [0x55, 0x59, 0x5a, 0x60, 0x6a, 0x71, 0x7f, 0x85, 0x89, 0x8f, 0x95],
      [0xb9, 0xe0, 0xf0, 0xf5, 0xf9, 0x00, 0x05, 0x10, 0x1f, 0x2f, 0x3f],
      [0x00, 0x22, 0x5f, 0x6f, 0x8f, 0x9e, 0xaf, 0xbf, 0xdf, 0xcf, 0xff],
      [0x00, 0x22, 0x5f, 0x6f, 0x8f, 0x9e, 0xaf, 0xbf, 0xdf, 0xcf, 0xff]]"

definition Tw9912_image_global_separation_start :: "(byte \<times> byte) list" where
  "Tw9912_image_global_separation_start = [(0xd9, 0x07), (0x11, 0x71), (0x15, 0x00), (0x13, 0x9e), (0x14, 0x9e)]"

definition info_start :: tw9912info_t where
  "info_start = \<lparr>tw_reg = 0x08, tw_reg_val = 0x17, tw_sta = 0, tw_flag = 1, tw_this_is_first_open = 1\<rparr>"

definition video_start :: "'d \<Rightarrow> 'd video" where
  "video_start d =
     \<lparr>tw = tw9912_start d, info_vedio_channel_t = NOTONE, info_com_top_Channel = YIN2, last_vide_format = OTHER_CHANNEL_4KO,
      flag_now_config_channal_AUX_or_Astren = 0, TW9912_Image_Parameter_fly = replicate 6 5,
      Tw9912_image_global_AUX_BACK = Tw9912_image_global_AUX_BACK_start,
      Tw9912_image_global_AUX_BACK_PAL_I = Tw9912_image_global_AUX_BACK_PAL_I_start,
      Tw9912_image_global_separation = Tw9912_image_global_separation_start,
      global_tw9912_info_for_NTSC_I = info_start, global_tw9912_info_for_PAL_I = info_start, global_video_channel_flag = TV_4KO,
      user_tab = tc358746xbg_show_colorbar_config_user_tab, Format_count = 0, Format_count_flag = 0,
      tw9912_read_func_read_data = 0, servicer_cmds = []\<rparr>"

text \<open>Running an operation of the decoder driver, and one of the bridge driver.\<close>

definition on_tw :: "('d tw9912 \<Rightarrow> 'd tw9912) \<Rightarrow> 'd video \<Rightarrow> 'd video" where
  "on_tw f s = s\<lparr>tw := f (tw s)\<rparr>"

definition on_twE :: "('d tw9912 \<Rightarrow> fault + ('a \<times> 'd tw9912)) \<Rightarrow> 'd video \<Rightarrow> fault + ('a \<times> 'd video)" where
  "on_twE f s = bindE (f (tw s)) (\<lambda>(r, t). Inr (r, s\<lparr>tw := t\<rparr>))"

definition on_bus :: "('d \<Rightarrow> 'd) \<Rightarrow> 'd video \<Rightarrow> 'd video" where
  "on_bus f s = s\<lparr>tw := (tw s)\<lparr>chip_dev := f (chip_dev (tw s))\<rparr>\<rparr>"

definition on_busE :: "('d \<Rightarrow> fault + 'd) \<Rightarrow> 'd video \<Rightarrow> fault + 'd video" where
  "on_busE f s = bindE (f (chip_dev (tw s))) (\<lambda>d. Inr (s\<lparr>tw := (tw s)\<lparr>chip_dev := d\<rparr>\<rparr>))"

definition tell :: "u32 \<Rightarrow> 'd video \<Rightarrow> 'd video" where
  "tell cmd s = s\<lparr>servicer_cmds := servicer_cmds s @ [cmd]\<rparr>"

text \<open>\<open>signal_is_how[ch].Format\<close>.\<close>

definition channel_format :: "vedio_channel_t \<Rightarrow> 'd video \<Rightarrow> fault + vedio_format_t" where
  "channel_format ch s = (if ch = NOTONE then Inl BufOverrun else Inr (sig_Format (signal_is_how (tw s) ! channel_nr ch)))"

section \<open>Image settings\<close>

text \<open>A setting, and an element of a table of five rows and eleven columns.\<close>

definition parameter :: "Vedio_Effect \<Rightarrow> 'd video \<Rightarrow> int" where
  "parameter e s = uint (TW9912_Image_Parameter_fly s ! (effect_nr e - 1))"

definition cell :: "byte list list \<Rightarrow> nat \<Rightarrow> int \<Rightarrow> fault + byte" where
  "cell tab row col = (if 0 \<le> col \<and> col \<le> 10 then Inr (tab ! row ! nat col) else Inl BufOverrun)"

definition put_cell :: "nat \<Rightarrow> byte list list \<Rightarrow> nat \<Rightarrow> int \<Rightarrow> (byte \<times> byte) list \<Rightarrow> fault + (byte \<times> byte) list" where
  "put_cell k tab row col img = bindE (cell tab row col) (\<lambda>v. Inr (img[k := (fst (img ! k), v)]))"

text \<open>The values the loops run over.\<close>

definition effects :: "nat list" where
  "effects = [effect_nr BRIGHTNESS..<effect_nr HUE + 1]"

text \<open>
  One round of the loops for reversing camera and AUX input.  The two formats differ in the labels of the last two cases:
  \<open>uv\<close> is the label under which the fourth and fifth entry are set, \<open>hue\<close> the one for the third.
\<close>

definition camera_step ::
  "byte list list \<Rightarrow> int \<Rightarrow> int \<Rightarrow> Vedio_Effect \<Rightarrow> Vedio_Effect \<Rightarrow> 'd video \<Rightarrow> nat \<Rightarrow> (byte \<times> byte) list \<Rightarrow> fault + (byte \<times> byte) list" where
  "camera_step tab bright base uv hue s i img =
     (if i = effect_nr BRIGHTNESS then put_cell 0 tab 0 bright img
      else if i = effect_nr CONTRAST then put_cell 1 tab 1 (parameter CONTRAST s - base) img
      else if i = effect_nr uv then
        bindE (put_cell 3 tab 3 (parameter CHROMA_U s - base) img) (put_cell 4 tab 4 (parameter CHROMA_U s - base))
      else if i = effect_nr hue then put_cell 2 tab 2 (10 - (parameter HUE s - base)) img
      else Inr img)"

definition dvd_step :: "'d video \<Rightarrow> nat \<Rightarrow> (byte \<times> byte) list \<Rightarrow> fault + (byte \<times> byte) list" where
  "dvd_step s i img =
     (let tab = Image_Config_separation in
      if i = effect_nr CONTRAST then put_cell 0 tab 0 (parameter BRIGHTNESS s) img
      else if i = effect_nr BRIGHTNESS then put_cell 1 tab 1 (parameter CONTRAST s) img
      else if i = effect_nr HUE then put_cell 2 tab 2 (parameter HUE s) img
      else if i = effect_nr CHROMA_U then
        bindE (put_cell 3 tab 3 (parameter CHROMA_U s) img) (put_cell 4 tab 4 (parameter CHROMA_U s))
      else Inr img)"

text \<open>The loop from \<open>BRIGHTNESS\<close> to \<open>HUE\<close>, for the image of the format in use.\<close>

definition camera_image ::
  "byte list list \<Rightarrow> byte list list \<Rightarrow> int \<Rightarrow> int \<Rightarrow> 'd video \<Rightarrow> fault + 'd video" where
  "camera_image tab pal_tab bright base s =
     bindE (channel_format (info_com_top_Channel s) s) (\<lambda>f.
       if f = NTSC_I then
         bindE (foldE (camera_step tab bright base HUE CHROMA_U s) effects (Tw9912_image_global_AUX_BACK s))
           (\<lambda>img. Inr (s\<lparr>Tw9912_image_global_AUX_BACK := img\<rparr>))
       else
         bindE (foldE (camera_step pal_tab bright base CHROMA_U HUE s) effects (Tw9912_image_global_AUX_BACK_PAL_I s))
           (\<lambda>img. Inr (s\<lparr>Tw9912_image_global_AUX_BACK_PAL_I := img\<rparr>)))"

definition set_now :: "nat \<Rightarrow> 'd video \<Rightarrow> 'd video" where
  "set_now n s = s\<lparr>flag_now_config_channal_AUX_or_Astren := n\<rparr>"

definition video_image_config_parameter_buffer :: "'d video \<Rightarrow> fault + (int \<times> 'd video)" where
  "video_image_config_parameter_buffer s =
     (let valu = parameter CONTRAST s; done = (\<lambda>s. Inr (1, s)) in
      if info_com_top_Channel s = YIN3 then
        if valu > 10 then bindE (camera_image Image_Config_CarBacking_Normal Image_Config_AUX_BACK_PAL_I 5 240 (set_now 0 s)) done
        else if valu = 0xf1 then
          bindE (camera_image Image_Config_CarBacking_NewTeana Image_Config_AUX_BACK_PAL_I 5 240 (set_now 0 s)) done
        else if valu > 250 then Inr (- 1, s)
        else bindE (camera_image Image_Config_AUX_BACK Image_Config_AUX_BACK_PAL_I (10 - parameter BRIGHTNESS s) 0 (set_now 1 s)) done
      else
        bindE (foldE (dvd_step s) effects (Tw9912_image_global_separation s))
          (\<lambda>img. Inr (1, (set_now 2 s)\<lparr>Tw9912_image_global_separation := img\<rparr>)))"

text \<open>The image that is written: the loop asks for channel and format in each round, which the writes do not change.\<close>

definition image_entries :: "'d video \<Rightarrow> fault + (byte \<times> byte) list" where
  "image_entries s =
     (if info_com_top_Channel s = YIN3 then
        bindE (channel_format (info_com_top_Channel s) s) (\<lambda>f.
          Inr (if f = NTSC_I then Tw9912_image_global_AUX_BACK s else Tw9912_image_global_AUX_BACK_PAL_I s))
      else Inr (Tw9912_image_global_separation s))"

text \<open>Writes whose results are ignored, except for the last one.\<close>

definition all_writes :: "'d video_port \<Rightarrow> (byte \<times> byte) list \<Rightarrow> 'd tw9912 \<Rightarrow> i2c_ack \<times> 'd tw9912" where
  "all_writes port ws t = fold (\<lambda>(r, v) (_, t). tw9912_write port r v t) ws (ACK, t)"

definition video_image_config_begin :: "'d video_port \<Rightarrow> 'd video \<Rightarrow> fault + (i2c_ack \<times> 'd video)" where
  "video_image_config_begin port s =
     bindE (video_image_config_parameter_buffer s) (\<lambda>(_, s1).
       bindE (image_entries s1) (\<lambda>ws.
         bindE
           (if flag_now_config_channal_AUX_or_Astren s1 = 0 then
              bindE (channel_format (info_com_top_Channel s1) s1) (\<lambda>f.
                Inr (if f = NTSC_I then [(0x12, 0x1f), (0x08, tw_reg_val (global_tw9912_info_for_NTSC_I s1))]
                     else [(0x12, 0xff), (0x08, tw_reg_val (global_tw9912_info_for_PAL_I s1))]))
            else Inr [])
           (\<lambda>shift.
              let (ret, t) = all_writes port (ws @ shift) (tw s1) in Inr (ret, s1\<lparr>tw := t\<rparr>))))"

text \<open>A command that is none of the settings changes nothing.\<close>

definition flyVideoImageQualityConfig_in ::
  "'d video_port \<Rightarrow> Vedio_Effect option \<Rightarrow> byte \<Rightarrow> 'd video \<Rightarrow> fault + (int \<times> 'd video)" where
  "flyVideoImageQualityConfig_in port cmd valu s =
     (case cmd of
        None \<Rightarrow> Inr (0, s)
      | Some e \<Rightarrow>
          let s1 = s\<lparr>TW9912_Image_Parameter_fly := (TW9912_Image_Parameter_fly s)[effect_nr e - 1 := valu]\<rparr> in
          if e = BRIGHTNESS then bindE (video_image_config_begin port s1) (\<lambda>(_, s2). Inr (0, s2)) else Inr (0, s1))"

section \<open>Channels\<close>

fun channel_of :: "nat \<Rightarrow> vedio_channel_t" where
  "channel_of n = (if n = 0 then YIN0 else if n = 1 then YIN1 else if n = 2 then YIN2 else if n = 3 then YIN3
     else if n = 4 then SEPARATION else NOTONE)"

definition flyVideoInitall_in :: "byte \<Rightarrow> 'd video \<Rightarrow> int \<times> 'd video" where
  "flyVideoInitall_in Channel s =
     (1, if unat Channel \<le> 5
         then s\<lparr>info_com_top_Channel := (if Channel = 2 then SEPARATION else channel_of (unat Channel))\<rparr>
         else s)"

definition tw9912_config_for_cvbs_signal ::
  "'d video_port \<Rightarrow> byte \<Rightarrow> vedio_channel_t \<Rightarrow> 'd video \<Rightarrow> fault + (int \<times> 'd video)" where
  "tw9912_config_for_cvbs_signal port u Channel s =
     (if Channel \<noteq> SEPARATION \<and> Channel \<noteq> NOTONE
      then on_twE (tw9912_config_array port u Channel) (s\<lparr>info_vedio_channel_t := Channel\<rparr>)
      else Inr (- 1, s))"

definition video_signal_channel_switching_occurs :: "'d video_port \<Rightarrow> 'd video \<Rightarrow> 'd video" where
  "video_signal_channel_switching_occurs port s =
     on_tw (tw9912_hardware_reset port) (on_bus (tc358746xbg_data_out_enable port 0) s)"

section \<open>The set-up\<close>

definition bridge_begin :: "'d video_port \<Rightarrow> byte \<Rightarrow> nat \<Rightarrow> 'd video \<Rightarrow> fault + 'd video" where
  "bridge_begin port u flag s = on_busE (tc358746xbg_config_begin port u (user_tab s) flag) s"

definition chips_config_cvbs_begin :: "'d video_port \<Rightarrow> byte \<Rightarrow> 'd video \<Rightarrow> fault + 'd video" where
  "chips_config_cvbs_begin port u s =
     bindE (tw9912_config_for_cvbs_signal port u (info_com_top_Channel s) s) (\<lambda>(_, s1).
     bindE (video_image_config_begin port s1) (\<lambda>(_, s2).
       let s3 = (if global_video_channel_flag s2 = TV_4KO then
                   (on_tw (\<lambda>t. snd (all_writes port [(0x08, 0x17), (0x0a, 0x1e)] t)) s2)\<lparr>last_vide_format := TV_4KO\<rparr>
                 else if global_video_channel_flag s2 = AUX_4KO then
                   (on_tw (\<lambda>t. snd (all_writes port [(0x08, 0x15)] t)) s2)\<lparr>last_vide_format := AUX_4KO\<rparr>
                 else s2)
       in if info_vedio_channel_t s3 \<noteq> NOTONE then
            bindE (channel_format (info_vedio_channel_t s3) s3) (\<lambda>f.
              if f = NTSC_I \<or> f = PAL_I \<or> f = NTSC_P \<or> f = PAL_P
              then bridge_begin port u (nat (format_nr f)) (tell VIDEO_NORMAL_SHOW s3)
              else bridge_begin port u 7 (tell VIDEO_SHOW_BLACK s3))
          else bridge_begin port u 6 s3))"

definition chips_config_yuv_begin :: "'d video_port \<Rightarrow> byte \<Rightarrow> 'd video \<Rightarrow> fault + 'd video" where
  "chips_config_yuv_begin port u s =
     bindE (on_twE (tw9912_config_array_NTSCp port) s) (\<lambda>(_, s1).
     bindE (video_image_config_begin port s1) (\<lambda>(_, s2). bridge_begin port u 3 (tell VIDEO_NORMAL_SHOW s2)))"

definition chips_config_begin :: "'d video_port \<Rightarrow> byte \<Rightarrow> vedio_format_t \<Rightarrow> 'd video \<Rightarrow> fault + 'd video" where
  "chips_config_begin port u config_pramat s =
     (if info_com_top_Channel s = SEPARATION then chips_config_yuv_begin port u s
      else if config_pramat \<noteq> STOP_VIDEO then chips_config_cvbs_begin port u s
      else bridge_begin port u 6 s)"

definition tc358746xbg_show_color :: "'d video_port \<Rightarrow> byte \<Rightarrow> byte \<Rightarrow> 'd video \<Rightarrow> fault + 'd video" where
  "tc358746xbg_show_color port u color_flag s = bridge_begin port u (unat color_flag) s"

section \<open>The test for a signal\<close>

text \<open>The bytes behind the last write of a changed format, and the writes of them.\<close>

definition video_format_changed_config :: "(byte \<times> byte) list" where
  "video_format_changed_config = [(0x02, 0x4c), (0x03, 0x20), (0x06, 0x03), (0xc0, 0x01), (0xe6, 0x00), (0xe8, 0x3f)]"

definition channel_changed :: "'d video_port \<Rightarrow> byte \<Rightarrow> 'd video \<Rightarrow> 'd video" where
  "channel_changed port Channel s =
     (let l = lc_Channel (the_last_config (tw s)) in
      if (l = YIN2 \<or> l = SEPARATION) \<and> Channel = 3 \<or> l = YIN3 \<and> (Channel = 2 \<or> Channel = 4)
      then video_signal_channel_switching_occurs port s else s)"

definition format_changed :: "'d video_port \<Rightarrow> byte \<Rightarrow> 'd video \<Rightarrow> 'd video" where
  "format_changed port Channel s =
     (if lc_Channel (the_last_config (tw s)) = YIN3 \<and> Channel = 3 \<and> last_vide_format s \<noteq> global_video_channel_flag s
      then (on_tw (\<lambda>t. snd (all_writes port video_format_changed_config t)) (video_signal_channel_switching_occurs port s))
             \<lparr>last_vide_format := global_video_channel_flag s\<rparr>
      else s)"

text \<open>
  The test of a camera channel.  A channel that does not exist leaves the result \<open>NOTONE\<close>, which has the value of \<open>STOP_VIDEO\<close>.
  An answer \<open>NTSC_I\<close> is checked at most twice: the static counter is 0 whenever the function is entered, and \<open>n\<close> is 2 less its value.
\<close>

definition test_once :: "'d video_port \<Rightarrow> byte \<Rightarrow> byte \<Rightarrow> 'd video \<Rightarrow> fault + (vedio_format_t \<times> 'd video)" where
  "test_once port u Channel s =
     (if unat Channel \<le> 4 then on_twE (tw9912_cvbs_signal_tsting port u (channel_of (unat Channel))) s else Inr (STOP_VIDEO, s))"

primrec test_again :: "nat \<Rightarrow> 'd video_port \<Rightarrow> byte \<Rightarrow> byte \<Rightarrow> 'd video \<Rightarrow> fault + (vedio_format_t \<times> 'd video)" where
  "test_again 0 port u Channel s = test_once port u Channel s"
| "test_again (Suc n) port u Channel s =
     bindE (test_once port u Channel s) (\<lambda>(ret, s1).
       if ret = NTSC_I then test_again n port u Channel s1 else Inr (ret, s1))"

text \<open>Whether a result leads to a new configuration, and the two counters after it.\<close>

definition signal_counted :: "vedio_format_t \<Rightarrow> byte \<times> byte \<Rightarrow> bool \<times> byte \<times> byte" where
  "signal_counted ret c =
     (case c of (count, flag) \<Rightarrow>
        if format_nr ret > 4 then
          (if count + 1 > 30 \<and> flag = 0 then (True, 0, 1) else (False, count + 1, flag))
        else (False, 0, 0))"

definition flyVideoTestSignalPin_in :: "'d video_port \<Rightarrow> byte \<Rightarrow> byte \<Rightarrow> 'd video \<Rightarrow> fault + (vedio_format_t \<times> 'd video)" where
  "flyVideoTestSignalPin_in port u Channel s =
     (let s1 = format_changed port Channel (channel_changed port Channel s) in
      bindE (if Channel = 4 \<or> Channel = 2 then on_twE (tw9912_yuv_signal_testing port u) s1 else test_again 2 port u Channel s1)
        (\<lambda>(ret, s2).
           let (again, count, flag) = signal_counted ret (Format_count s2, Format_count_flag s2);
               s3 = s2\<lparr>Format_count := count, Format_count_flag := flag\<rparr>
           in if again then
                bindE (if info_com_top_Channel s3 = SEPARATION \<or> info_com_top_Channel s3 = YIN2
                       then on_twE (tw9912_config_array_NTSCp port) s3 else on_twE (tw9912_config_array port u YIN3) s3)
                  (\<lambda>(_, s4). Inr (ret, s4))
              else if format_nr ret > 4 then Inr (ret, s3)
              else if info_com_top_Channel s3 = NOTONE then Inl BufOverrun
              else Inr (ret, s3\<lparr>tw := set_format (info_com_top_Channel s3) ret (tw s3)\<rparr>)))"

section \<open>The device node\<close>

definition EINVAL_VIDEO :: int where "EINVAL_VIDEO = 22"

definition tw9912_node_ioctl :: "'d video_port \<Rightarrow> byte \<Rightarrow> nat \<Rightarrow> 'd video \<Rightarrow> fault + (int \<times> 'd video)" where
  "tw9912_node_ioctl port u cmd s =
     (if cmd = 1 then Inr (0, s\<lparr>tw9912_read_func_read_data := 1\<rparr>)
      else if cmd = 2 then bindE (chips_config_begin port u OTHER s) (\<lambda>s1. Inr (0, s1))
      else Inr (- EINVAL_VIDEO, s))"

definition info_bytes :: "tw9912info_t \<Rightarrow> byte list" where
  "info_bytes i = [tw_reg i, tw_reg_val i, tw_sta i, tw_flag i, tw_this_is_first_open i]"

definition bytes_info :: "byte list \<Rightarrow> tw9912info_t" where
  "bytes_info bs = \<lparr>tw_reg = bs ! 0, tw_reg_val = bs ! 1, tw_sta = bs ! 2, tw_flag = bs ! 3, tw_this_is_first_open = bs ! 4\<rparr>"

text \<open>
  The node copies as many bytes as the caller wants out of a structure of five bytes or over it.  Copies from and to user
  space are assumed to succeed.
\<close>

definition tw9912_node_read :: "'d video_port \<Rightarrow> byte \<Rightarrow> nat \<Rightarrow> 'd video \<Rightarrow> fault + (byte list \<times> 'd video)" where
  "tw9912_node_read port u count s =
     (if tw9912_read_func_read_data s = 0 then
        bindE (channel_format (info_vedio_channel_t s) s) (\<lambda>f.
          let i = (if f = NTSC_I then global_tw9912_info_for_NTSC_I s else global_tw9912_info_for_PAL_I s)
          in if count \<le> 5 then Inr (take count (info_bytes i), s) else Inl BufOverrun)
      else if tw9912_read_func_read_data s = 1 then
        let (ret, valu, t) = read_tw9912_chips_status_fast port u (tw s)
        in Inr ([if ret = NACK then 0x68 else valu], s\<lparr>tw := t, tw9912_read_func_read_data := 0\<rparr>)
      else Inr ([], s))"

definition shift_written :: "'d video_port \<Rightarrow> tw9912info_t \<Rightarrow> 'd video \<Rightarrow> 'd video" where
  "shift_written port i s =
     (if tw_reg_val i > 0x10 \<and> tw_reg i = 0x8 \<and> info_com_top_Channel s \<noteq> SEPARATION \<and> info_com_top_Channel s \<noteq> YIN2
      then on_tw (\<lambda>t. snd (tw9912_write port (tw_reg i) (tw_reg_val i) t)) s else s)"

definition tw9912_node_write :: "'d video_port \<Rightarrow> byte \<Rightarrow> byte list \<Rightarrow> 'd video \<Rightarrow> fault + 'd video" where
  "tw9912_node_write port u data s =
     bindE (channel_format (info_vedio_channel_t s) s) (\<lambda>f.
       let copied = (\<lambda>i. bytes_info (data @ drop (length data) (info_bytes i))) in
       if length data > 5 then Inl BufOverrun
       else if f = NTSC_I then
         let i = copied (global_tw9912_info_for_NTSC_I s) in Inr (shift_written port i (s\<lparr>global_tw9912_info_for_NTSC_I := i\<rparr>))
       else if f = PAL_I then
         let i = copied (global_tw9912_info_for_PAL_I s) in Inr (shift_written port i (s\<lparr>global_tw9912_info_for_PAL_I := i\<rparr>))
       else
         let i = copied (bytes_info (replicate 5 u)) in
         Inr (s\<lparr>global_tw9912_info_for_PAL_I := (global_tw9912_info_for_PAL_I s)\<lparr>tw_this_is_first_open := tw_this_is_first_open i\<rparr>\<rparr>))"

section \<open>Suspend and start\<close>

definition video_late_resume :: "'d video_port \<Rightarrow> byte \<Rightarrow> 'd video \<Rightarrow> fault + 'd video" where
  "video_late_resume port u s =
     chips_config_begin port u OTHER (snd (flyVideoInitall_in 2 (on_tw (tw9912_hardware_reset port) s)))"

definition video_dev_resume :: "'d video \<Rightarrow> 'd video" where
  "video_dev_resume s =
     s\<lparr>global_tw9912_info_for_NTSC_I := (global_tw9912_info_for_NTSC_I s)\<lparr>tw_flag := 1, tw_reg_val := 0x17, tw_this_is_first_open := 1\<rparr>,
       global_tw9912_info_for_PAL_I := (global_tw9912_info_for_PAL_I s)\<lparr>tw_flag := 1, tw_reg_val := 0x12, tw_this_is_first_open := 1\<rparr>\<rparr>"

text \<open>The hardware part of \<open>lidbg_video_init\<close>, after the registration of the node.\<close>

definition lidbg_video_init :: "'d video_port \<Rightarrow> byte \<Rightarrow> 'd \<Rightarrow> fault + 'd video" where
  "lidbg_video_init port u d = video_late_resume port u (video_start d)"

section \<open>The image settings as a table look-up\<close>

definition camera_regs :: "byte list" where "camera_regs = [0x10, 0x11, 0x15, 0x13, 0x14]"
definition dvd_regs :: "byte list" where "dvd_regs = [0xd9, 0x11, 0x15, 0x13, 0x14]"

definition column :: "int \<Rightarrow> bool" where "column c \<longleftrightarrow> 0 \<le> c \<and> c \<le> 10"

text \<open>The entries for the columns of the first, second and third row, and of the last two rows.\<close>

definition looked_up :: "byte list \<Rightarrow> byte list list \<Rightarrow> int \<Rightarrow> int \<Rightarrow> int \<Rightarrow> int \<Rightarrow> (byte \<times> byte) list" where
  "looked_up rs tab b c h q = zip rs [tab ! 0 ! nat b, tab ! 1 ! nat c, tab ! 2 ! nat h, tab ! 3 ! nat q, tab ! 4 ! nat q]"

lemma loop_range: "effects = [1, 2, 3, 4, 5, 6 :: nat]"
  by (simp add: effects_def upt_rec)

lemma put_cell_eq: "put_cell k tab row col img =
    (if column col then Inr (img[k := (fst (img ! k), tab ! row ! nat col)]) else Inl BufOverrun)"
  by (simp add: put_cell_def cell_def column_def)

lemma five: "length img = 5 \<longleftrightarrow> (\<exists>a b c d e. img = [a, b, c, d, e])"
  by (auto simp: numeral_eq_Suc length_Suc_conv)

text \<open>Both orders of the labels give the same loop.\<close>

lemma camera_loop:
  assumes "uv = HUE \<and> hue = CHROMA_U \<or> uv = CHROMA_U \<and> hue = HUE" "map fst img = rs" "length rs = 5"
  shows "foldE (camera_step tab bright base uv hue s) effects img =
    (if column bright \<and> column (parameter CONTRAST s - base) \<and> column (10 - (parameter HUE s - base)) \<and>
        column (parameter CHROMA_U s - base)
     then Inr (looked_up rs tab bright (parameter CONTRAST s - base) (10 - (parameter HUE s - base)) (parameter CHROMA_U s - base))
     else Inl BufOverrun)"
proof -
  obtain a b c d e where img: "img = [a, b, c, d, e]" using assms(2,3) five [of img] by auto
  define P Q R where "P = parameter CONTRAST s - base" and "Q = parameter CHROMA_U s - base" and "R = 10 - (parameter HUE s - base)"
  show ?thesis using assms(1) assms(2) [symmetric] unfolding loop_range P_def [symmetric] Q_def [symmetric] R_def [symmetric]
    by (elim disjE) (simp_all add: img camera_step_def put_cell_eq looked_up_def P_def [symmetric] Q_def [symmetric] R_def [symmetric])
qed

lemma dvd_loop:
  assumes "map fst img = rs" "length rs = 5"
  shows "foldE (dvd_step s) effects img =
    (if column (parameter BRIGHTNESS s) \<and> column (parameter CONTRAST s) \<and> column (parameter HUE s) \<and> column (parameter CHROMA_U s)
     then Inr (looked_up rs Image_Config_separation (parameter BRIGHTNESS s) (parameter CONTRAST s) (parameter HUE s) (parameter CHROMA_U s))
     else Inl BufOverrun)"
proof -
  obtain a b c d e where img: "img = [a, b, c, d, e]" using assms five [of img] by auto
  define B P Q R where "B = parameter BRIGHTNESS s" and "P = parameter CONTRAST s" and "Q = parameter CHROMA_U s" and "R = parameter HUE s"
  show ?thesis using assms(1) [symmetric] unfolding loop_range B_def [symmetric] P_def [symmetric] Q_def [symmetric] R_def [symmetric]
    by (simp add: img dvd_step_def put_cell_eq looked_up_def B_def [symmetric] P_def [symmetric] Q_def [symmetric] R_def [symmetric])
qed

text \<open>The state is well formed; the settings fit the channel.\<close>

definition video_ok :: "'d video \<Rightarrow> bool" where
  "video_ok s \<longleftrightarrow> tw_ok (tw s) \<and> length (TW9912_Image_Parameter_fly s) = 6 \<and>
     map fst (Tw9912_image_global_AUX_BACK s) = camera_regs \<and> map fst (Tw9912_image_global_AUX_BACK_PAL_I s) = camera_regs \<and>
     map fst (Tw9912_image_global_separation s) = dvd_regs \<and> info_com_top_Channel s \<noteq> NOTONE"

definition camera_settings_ok :: "'d video \<Rightarrow> bool" where
  "camera_settings_ok s \<longleftrightarrow>
     (if parameter CONTRAST s > 10
      then parameter CONTRAST s \<in> {240..250} \<and> parameter CHROMA_U s \<in> {240..250} \<and> parameter HUE s \<in> {240..250}
      else parameter BRIGHTNESS s \<le> 10 \<and> parameter CHROMA_U s \<le> 10 \<and> parameter HUE s \<le> 10)"

definition settings_ok :: "'d video \<Rightarrow> bool" where
  "settings_ok s \<longleftrightarrow>
     (if info_com_top_Channel s = YIN3 then camera_settings_ok s
      else parameter BRIGHTNESS s \<le> 10 \<and> parameter CONTRAST s \<le> 10 \<and> parameter CHROMA_U s \<le> 10 \<and> parameter HUE s \<le> 10)"

definition image_reference :: "'d video \<Rightarrow> (byte \<times> byte) list" where
  "image_reference s =
     (let b = parameter BRIGHTNESS s; c = parameter CONTRAST s; q = parameter CHROMA_U s; h = parameter HUE s;
          ntsc = sig_Format (signal_is_how (tw s) ! channel_nr YIN3) = NTSC_I
      in if info_com_top_Channel s = YIN3 then
           (if c > 10
            then looked_up camera_regs (if ntsc then Image_Config_CarBacking_Normal else Image_Config_AUX_BACK_PAL_I) 5 (c - 240) (250 - h) (q - 240)
            else looked_up camera_regs (if ntsc then Image_Config_AUX_BACK else Image_Config_AUX_BACK_PAL_I) (10 - b) c (10 - h) q)
         else looked_up dvd_regs Image_Config_separation b c h q)"

lemma parameter_nonneg [simp]: "0 \<le> parameter e s"
  by (simp add: parameter_def)

lemma parameter_now [simp]: "parameter e (set_now n s) = parameter e s"
  by (simp add: parameter_def set_now_def)

lemma regs_lengths [simp]: "length camera_regs = 5" "length dvd_regs = 5"
  "map fst (looked_up camera_regs tab b c h q) = camera_regs" "map fst (looked_up dvd_regs tab b c h q) = dvd_regs"
  by (simp_all add: camera_regs_def dvd_regs_def looked_up_def)

lemma column_range:
  "column (x - 240) \<longleftrightarrow> x \<in> {240..250}" "column (10 - (x - 240)) \<longleftrightarrow> x \<in> {240..250}" "0 \<le> x \<Longrightarrow> column x \<longleftrightarrow> x \<le> 10"
  "0 \<le> x \<Longrightarrow> column (10 - x) \<longleftrightarrow> x \<le> 10"
  by (auto simp: column_def)

lemma camera_image_eq:
  assumes "video_ok s" "info_com_top_Channel s = YIN3"
  shows "camera_image tab pal_tab bright base (set_now n s) =
    (let c = parameter CONTRAST s - base; h = 10 - (parameter HUE s - base); q = parameter CHROMA_U s - base;
         f = sig_Format (signal_is_how (tw s) ! channel_nr YIN3)
     in if column bright \<and> column c \<and> column h \<and> column q
        then Inr (if f = NTSC_I
          then (set_now n s)\<lparr>Tw9912_image_global_AUX_BACK := looked_up camera_regs tab bright c h q\<rparr>
          else (set_now n s)\<lparr>Tw9912_image_global_AUX_BACK_PAL_I := looked_up camera_regs pal_tab bright c h q\<rparr>)
        else Inl BufOverrun)"
proof -
  have m: "map fst (Tw9912_image_global_AUX_BACK (set_now n s)) = camera_regs"
    "map fst (Tw9912_image_global_AUX_BACK_PAL_I (set_now n s)) = camera_regs"
    "info_com_top_Channel (set_now n s) = YIN3" "tw (set_now n s) = tw s"
    using assms by (simp_all add: video_ok_def set_now_def)
  show ?thesis unfolding camera_image_def m(3) channel_format_def
    by (simp add: camera_loop [OF _ m(1)] camera_loop [OF _ m(2)] m(4) Let_def)
qed

text \<open>What the settings leave in the variables: all but the images and the kind of channel stays.\<close>

lemma parameter_buffer_eq:
  assumes "video_ok s" "settings_ok s"
  shows "\<exists>n img pal sep. video_image_config_parameter_buffer s =
      Inr (1, (set_now n s)\<lparr>Tw9912_image_global_AUX_BACK := img, Tw9912_image_global_AUX_BACK_PAL_I := pal, Tw9912_image_global_separation := sep\<rparr>) \<and>
    (n = 0 \<longrightarrow> info_com_top_Channel s = YIN3) \<and> map fst img = camera_regs \<and> map fst pal = camera_regs \<and> map fst sep = dvd_regs \<and>
    (if info_com_top_Channel s = YIN3
     then (if sig_Format (signal_is_how (tw s) ! channel_nr YIN3) = NTSC_I then img else pal) = image_reference s
     else sep = image_reference s)"
proof (cases "info_com_top_Channel s = YIN3")
  case True
  have ok: "map fst (Tw9912_image_global_AUX_BACK s) = camera_regs" "map fst (Tw9912_image_global_AUX_BACK_PAL_I s) = camera_regs"
    "map fst (Tw9912_image_global_separation s) = dvd_regs" using assms(1) by (simp_all add: video_ok_def)
  define img pal where "img = (if sig_Format (signal_is_how (tw s) ! channel_nr YIN3) = NTSC_I then image_reference s else Tw9912_image_global_AUX_BACK s)"
    and "pal = (if sig_Format (signal_is_how (tw s) ! channel_nr YIN3) = NTSC_I then Tw9912_image_global_AUX_BACK_PAL_I s else image_reference s)"
  have r: "map fst (image_reference s) = camera_regs" using True by (simp add: image_reference_def Let_def)
  define n :: nat where "n = (if parameter CONTRAST s > 10 then 0 else 1)"
  have "video_image_config_parameter_buffer s = Inr (1, (set_now n s)\<lparr>Tw9912_image_global_AUX_BACK := img,
      Tw9912_image_global_AUX_BACK_PAL_I := pal, Tw9912_image_global_separation := Tw9912_image_global_separation s\<rparr>)"
  proof (cases "parameter CONTRAST s > 10")
    case c: True
    then have "column 5" "parameter CONTRAST s \<in> {240..250}" "parameter CHROMA_U s \<in> {240..250}" "parameter HUE s \<in> {240..250}"
      using assms(2) True by (simp_all add: settings_ok_def camera_settings_ok_def column_def)
    then show ?thesis using c True unfolding video_image_config_parameter_buffer_def camera_image_eq [OF assms(1) True]
      by (simp add: Let_def column_range img_def pal_def image_reference_def n_def set_now_def)
  next
    case c: False
    then have "column (10 - parameter BRIGHTNESS s)" "column (parameter CONTRAST s)" "column (parameter CHROMA_U s)"
      "column (10 - parameter HUE s)"
      using assms(2) True by (simp_all add: settings_ok_def camera_settings_ok_def column_range)
    then show ?thesis using c True unfolding video_image_config_parameter_buffer_def camera_image_eq [OF assms(1) True]
      by (simp add: Let_def img_def pal_def image_reference_def n_def set_now_def)
  qed
  moreover have "map fst img = camera_regs" "map fst pal = camera_regs"
    "(if sig_Format (signal_is_how (tw s) ! channel_nr YIN3) = NTSC_I then img else pal) = image_reference s"
    using ok r by (simp_all add: img_def pal_def)
  ultimately show ?thesis using True ok(3)
    by (intro exI [of _ n] exI [of _ img] exI [of _ pal] exI [of _ "Tw9912_image_global_separation s"]) simp
next
  case False
  have ok: "map fst (Tw9912_image_global_AUX_BACK s) = camera_regs" "map fst (Tw9912_image_global_AUX_BACK_PAL_I s) = camera_regs"
    "map fst (Tw9912_image_global_separation s) = dvd_regs" using assms(1) by (simp_all add: video_ok_def)
  have c: "column (parameter BRIGHTNESS s)" "column (parameter CONTRAST s)" "column (parameter CHROMA_U s)" "column (parameter HUE s)"
    using assms(2) False by (simp_all add: settings_ok_def column_range)
  then have r: "image_reference s = looked_up dvd_regs Image_Config_separation (parameter BRIGHTNESS s) (parameter CONTRAST s) (parameter HUE s) (parameter CHROMA_U s)"
    using False by (simp add: image_reference_def Let_def)
  have "video_image_config_parameter_buffer s = Inr (1, (set_now 2 s)\<lparr>Tw9912_image_global_AUX_BACK := Tw9912_image_global_AUX_BACK s,
      Tw9912_image_global_AUX_BACK_PAL_I := Tw9912_image_global_AUX_BACK_PAL_I s, Tw9912_image_global_separation := image_reference s\<rparr>)"
    using False c by (simp add: video_image_config_parameter_buffer_def dvd_loop [OF ok(3)] r set_now_def)
  then show ?thesis using False ok r
    by (intro exI [of _ 2] exI [of _ "Tw9912_image_global_AUX_BACK s"] exI [of _ "Tw9912_image_global_AUX_BACK_PAL_I s"]
      exI [of _ "image_reference s"]) simp
qed

lemma parameter_buffer_fault:
  assumes "video_ok s" "\<not> settings_ok s"
  shows "video_image_config_parameter_buffer s = Inl BufOverrun"
proof (cases "info_com_top_Channel s = YIN3")
  case True
  show ?thesis
  proof (cases "parameter CONTRAST s > 10")
    case c: True
    then have "\<not> (parameter CONTRAST s \<in> {240..250} \<and> parameter HUE s \<in> {240..250} \<and> parameter CHROMA_U s \<in> {240..250})"
      using assms(2) True by (auto simp: settings_ok_def camera_settings_ok_def)
    then show ?thesis using c True unfolding video_image_config_parameter_buffer_def camera_image_eq [OF assms(1) True] Let_def column_range
      by auto
  next
    case c: False
    then have "\<not> (parameter BRIGHTNESS s \<le> 10 \<and> parameter CHROMA_U s \<le> 10 \<and> parameter HUE s \<le> 10)"
      using assms(2) True by (simp add: settings_ok_def camera_settings_ok_def)
    then show ?thesis using c True unfolding video_image_config_parameter_buffer_def camera_image_eq [OF assms(1) True] Let_def
      by (auto simp: column_range)
  qed
next
  case False
  have ok: "map fst (Tw9912_image_global_separation s) = dvd_regs" using assms(1) by (simp add: video_ok_def)
  have "\<not> (column (parameter BRIGHTNESS s) \<and> column (parameter CONTRAST s) \<and> column (parameter HUE s) \<and> column (parameter CHROMA_U s))"
    using assms(2) False by (auto simp: settings_ok_def column_range)
  then show ?thesis using False by (simp add: video_image_config_parameter_buffer_def dvd_loop [OF ok])
qed

section \<open>Setting up the chips, on any port\<close>

text \<open>\<open>only_dev\<close>: of the decoder driver's state only the device changed.\<close>

definition only_dev :: "'d tw9912 \<Rightarrow> 'd tw9912 \<Rightarrow> bool" where
  "only_dev t t' \<longleftrightarrow> (\<exists>d. t' = t\<lparr>chip_dev := d\<rparr>)"

lemma only_dev_facts:
  "only_dev t t' \<Longrightarrow> signal_is_how t' = signal_is_how t" "only_dev t t' \<Longrightarrow> tw_ok t' = tw_ok t"
  "only_dev t t" "only_dev t (t\<lparr>chip_dev := d\<rparr>)"
  "only_dev t t' \<Longrightarrow> only_dev t' t'' \<Longrightarrow> only_dev t t''"
  by (auto simp: only_dev_def tw_ok_def intro: exI [of _ "chip_dev t"])

lemma only_dev_write: "only_dev t (snd (tw9912_write port r v t))"
  by (auto simp: only_dev_def tw9912_write_def case_prod_beta Let_def)

lemma only_dev_fold: "only_dev t (snd (fold (\<lambda>(r, v) (_, t). tw9912_write port r v t) ws (a, t)))"
proof (induction ws arbitrary: a t)
  case Nil
  then show ?case by (simp add: only_dev_facts)
next
  case (Cons w ws)
  obtain r v where w: "w = (r, v)" by fastforce
  obtain a1 t1 where t1: "tw9912_write port r v t = (a1, t1)" by fastforce
  then have "only_dev t t1" using only_dev_write [of t port r v] by simp
  with Cons [of t1 a1] show ?case by (simp add: w t1 only_dev_facts(5))
qed

lemma only_dev_all_writes: "only_dev t (snd (all_writes port ws t))"
  by (simp add: all_writes_def only_dev_fold)

lemma only_dev_reset: "only_dev t (tw9912_hardware_reset port t)"
  by (auto simp: only_dev_def tw9912_hardware_reset_def)

text \<open>\<open>set_up s s'\<close>: only the images and the device changed, and the state is still well formed.\<close>

definition set_up :: "'d video \<Rightarrow> 'd video \<Rightarrow> bool" where
  "set_up s s' \<longleftrightarrow> only_dev (tw s) (tw s') \<and> info_vedio_channel_t s' = info_vedio_channel_t s \<and>
     info_com_top_Channel s' = info_com_top_Channel s \<and> TW9912_Image_Parameter_fly s' = TW9912_Image_Parameter_fly s \<and>
     servicer_cmds s' = servicer_cmds s \<and> video_ok s'"

lemma set_up_trans: "set_up s s' \<Longrightarrow> set_up s' s'' \<Longrightarrow> set_up s s''"
  by (auto simp: set_up_def intro: only_dev_facts(5))

lemma set_up_refl: "video_ok s \<Longrightarrow> set_up s s"
  by (simp add: set_up_def only_dev_facts)

lemma set_up_format: "set_up s s' \<Longrightarrow> channel_format ch s' = channel_format ch s"
  by (auto simp: set_up_def channel_format_def dest: only_dev_facts(1))

lemma settings_ok_same:
  "info_com_top_Channel s' = info_com_top_Channel s \<Longrightarrow> TW9912_Image_Parameter_fly s' = TW9912_Image_Parameter_fly s \<Longrightarrow>
   settings_ok s' = settings_ok s"
  by (simp add: settings_ok_def camera_settings_ok_def parameter_def)

lemma video_ok_tw: "video_ok s \<Longrightarrow> tw_ok t \<Longrightarrow> video_ok (s\<lparr>tw := t\<rparr>)"
  by (simp add: video_ok_def)

lemma set_up_dev: "video_ok s \<Longrightarrow> only_dev (tw s) t \<Longrightarrow> set_up s (s\<lparr>tw := t\<rparr>)"
  by (auto simp: set_up_def video_ok_def dest: only_dev_facts(2))

lemma image_begin_returns:
  assumes "video_ok s" "settings_ok s"
  shows "\<exists>a s'. video_image_config_begin port s = Inr (a, s') \<and> set_up s s'"
proof -
  obtain n img pal sep where b: "video_image_config_parameter_buffer s = Inr (1, (set_now n s)\<lparr>Tw9912_image_global_AUX_BACK := img,
      Tw9912_image_global_AUX_BACK_PAL_I := pal, Tw9912_image_global_separation := sep\<rparr>)"
    "n = 0 \<longrightarrow> info_com_top_Channel s = YIN3" "map fst img = camera_regs" "map fst pal = camera_regs" "map fst sep = dvd_regs"
    using parameter_buffer_eq [OF assms] by blast
  define s1 where "s1 = (set_now n s)\<lparr>Tw9912_image_global_AUX_BACK := img, Tw9912_image_global_AUX_BACK_PAL_I := pal,
    Tw9912_image_global_separation := sep\<rparr>"
  have s1: "set_up s s1" "info_com_top_Channel s1 \<noteq> NOTONE" "flag_now_config_channal_AUX_or_Astren s1 = n"
    using assms(1) b(3-5) by (simp_all add: s1_def set_up_def set_now_def video_ok_def only_dev_facts)
  obtain f where f: "channel_format (info_com_top_Channel s1) s1 = Inr f" using s1(2) by (simp add: channel_format_def)
  have "\<exists>ws. image_entries s1 = Inr ws" unfolding image_entries_def f by simp
  then obtain ws where ws: "image_entries s1 = Inr ws" ..
  have e: "video_image_config_begin port s = Inr (fst r, s1\<lparr>tw := snd r\<rparr>)"
    if "r = all_writes port (ws @ (if n = 0 then if f = NTSC_I then [(0x12, 0x1f), (0x08, tw_reg_val (global_tw9912_info_for_NTSC_I s1))]
        else [(0x12, 0xff), (0x08, tw_reg_val (global_tw9912_info_for_PAL_I s1))] else [])) (tw s1)" for r
    using that unfolding video_image_config_begin_def b(1) s1_def [symmetric] bindE_simps prod.case ws s1(3) f
    by (simp add: case_prod_beta)
  have "set_up s1 (s1\<lparr>tw := snd (all_writes port zs (tw s1))\<rparr>)" for zs
    by (rule set_up_dev) (use s1(1) only_dev_all_writes in \<open>simp_all add: set_up_def\<close>)
  then show ?thesis using e [OF refl] set_up_trans [OF s1(1)] by blast
qed

lemma bridge_begin_returns: "video_ok s \<Longrightarrow> \<exists>s'. bridge_begin port u f s = Inr s' \<and> set_up s s'"
proof -
  assume s: "video_ok s"
  obtain d where "tc358746xbg_config_begin port u (user_tab s) f (chip_dev (tw s)) = Inr d" using config_begin_safe [of port u "user_tab s" f "chip_dev (tw s)"] by blast
  then have "bridge_begin port u f s = Inr (s\<lparr>tw := (tw s)\<lparr>chip_dev := d\<rparr>\<rparr>)" by (simp add: bridge_begin_def on_busE_def)
  moreover have "set_up s (s\<lparr>tw := (tw s)\<lparr>chip_dev := d\<rparr>\<rparr>)" by (rule set_up_dev [OF s]) (simp add: only_dev_facts)
  ultimately show ?thesis by blast
qed

text \<open>Whether the picture of a channel is to be shown, and what the driver announces for it.\<close>

definition shown :: "vedio_channel_t \<Rightarrow> 'd video \<Rightarrow> bool" where
  "shown ch s \<longleftrightarrow> sig_Format (signal_is_how (tw s) ! channel_nr ch) \<in> {NTSC_I, PAL_I, NTSC_P, PAL_P}"

definition show_cmd :: "bool \<Rightarrow> u32" where
  "show_cmd b = (if b then VIDEO_NORMAL_SHOW else VIDEO_SHOW_BLACK)"

text \<open>\<open>configured ch s s'\<close>: the set-up for \<open>ch\<close> came to its end and announced whether there is a picture.\<close>

definition configured :: "bool \<Rightarrow> 'd video \<Rightarrow> 'd video \<Rightarrow> bool" where
  "configured b s s' \<longleftrightarrow> video_ok s' \<and> info_com_top_Channel s' = info_com_top_Channel s \<and>
     TW9912_Image_Parameter_fly s' = TW9912_Image_Parameter_fly s \<and> servicer_cmds s' = servicer_cmds s @ [show_cmd b]"

lemma tell_set_up: "video_ok s \<Longrightarrow> video_ok (tell cmd s)"
  by (simp add: tell_def video_ok_def)

lemma told_and_bridged:
  assumes "video_ok s" "set_up (tell (show_cmd b) s) s'"
  shows "configured b s s' \<and> signal_is_how (tw s') = signal_is_how (tw s)"
  using assms only_dev_facts(1) by (auto simp: configured_def set_up_def tell_def)

lemma cvbs_configured:
  assumes "video_ok s" "settings_ok s" "info_com_top_Channel s = ch" "ch \<noteq> SEPARATION"
  shows "\<exists>s'. chips_config_cvbs_begin port u s = Inr s' \<and> configured (shown ch s') s s'"
proof -
  have ch: "ch \<noteq> NOTONE" using assms(1,3) by (simp add: video_ok_def)
  have "returns (tw9912_config_array port u ch (tw s))"
    by (rule returns_config_array) (use assms(1) ch in \<open>simp_all add: video_ok_def\<close>)
  then obtain r t where t: "tw9912_config_array port u ch (tw s) = Inr (r, t)" "tw_ok t" by (auto simp: returns_def)
  define s1 where "s1 = s\<lparr>info_vedio_channel_t := ch, tw := t\<rparr>"
  have c1: "tw9912_config_for_cvbs_signal port u (info_com_top_Channel s) s = Inr (r, s1)"
    using assms(3,4) ch t(1) by (simp add: tw9912_config_for_cvbs_signal_def on_twE_def s1_def)
  have s1: "video_ok s1" "settings_ok s1" "info_vedio_channel_t s1 = ch" "servicer_cmds s1 = servicer_cmds s"
    "info_com_top_Channel s1 = info_com_top_Channel s" "TW9912_Image_Parameter_fly s1 = TW9912_Image_Parameter_fly s"
    using assms(1,2) t(2) settings_ok_same [of s1 s] by (simp_all add: s1_def video_ok_def)
  obtain a s2 where s2: "video_image_config_begin port s1 = Inr (a, s2)" "set_up s1 s2" using image_begin_returns [OF s1(1,2)] by blast
  define s3 where "s3 = (if global_video_channel_flag s2 = TV_4KO then
       (on_tw (\<lambda>t. snd (all_writes port [(0x08, 0x17), (0x0a, 0x1e)] t)) s2)\<lparr>last_vide_format := TV_4KO\<rparr>
     else if global_video_channel_flag s2 = AUX_4KO then
       (on_tw (\<lambda>t. snd (all_writes port [(0x08, 0x15)] t)) s2)\<lparr>last_vide_format := AUX_4KO\<rparr>
     else s2)"
  have "video_ok s2" using s2(2) by (simp add: set_up_def)
  then have "set_up s2 s3"
    using set_up_dev [OF _ only_dev_all_writes, of s2 port] set_up_refl [of s2]
    by (auto simp: s3_def on_tw_def set_up_def video_ok_def)
  then have s3: "set_up s1 s3" using s2(2) set_up_trans by blast
  then have ok3: "video_ok s3" "info_vedio_channel_t s3 = ch" using s1(3) by (simp_all add: set_up_def)
  define f where "f = sig_Format (signal_is_how (tw s3) ! channel_nr ch)"
  have f: "channel_format ch s3 = Inr f" using ch by (simp add: channel_format_def f_def)
  define good where "good \<longleftrightarrow> f \<in> {NTSC_I, PAL_I, NTSC_P, PAL_P}"
  obtain s' where s': "bridge_begin port u (if good then nat (format_nr f) else 7) (tell (show_cmd good) s3) = Inr s'"
    "set_up (tell (show_cmd good) s3) s'"
    using bridge_begin_returns [OF tell_set_up [OF ok3(1)]] by blast
  have "chips_config_cvbs_begin port u s = Inr s'"
    unfolding chips_config_cvbs_begin_def c1 bindE_simps prod.case s2(1) Let_def s3_def [symmetric] ok3(2) f
    using ch s'(1) by (auto simp: good_def show_cmd_def)
  moreover have "configured good s3 s' \<and> signal_is_how (tw s') = signal_is_how (tw s3)" using told_and_bridged [OF ok3(1) s'(2)] .
  moreover have "servicer_cmds s3 = servicer_cmds s" "info_com_top_Channel s3 = info_com_top_Channel s"
    "TW9912_Image_Parameter_fly s3 = TW9912_Image_Parameter_fly s"
    using s3 s1(4-6) by (simp_all add: set_up_def)
  ultimately show ?thesis by (auto simp: configured_def shown_def good_def f_def)
qed

lemma yuv_configured:
  assumes "video_ok s" "settings_ok s"
  shows "\<exists>s'. chips_config_yuv_begin port u s = Inr s' \<and> configured True s s'"
proof -
  have "returns (tw9912_config_array_NTSCp port (tw s))" using assms(1) by (intro returns_arrays) (simp add: video_ok_def)
  then obtain r t where t: "tw9912_config_array_NTSCp port (tw s) = Inr (r, t)" "tw_ok t" by (auto simp: returns_def)
  define s1 where "s1 = s\<lparr>tw := t\<rparr>"
  have s1: "video_ok s1" "settings_ok s1" using assms t(2) settings_ok_same [of s1 s] by (simp_all add: s1_def video_ok_tw)
  obtain a s2 where s2: "video_image_config_begin port s1 = Inr (a, s2)" "set_up s1 s2" using image_begin_returns [OF s1] by blast
  then have ok2: "video_ok s2" by (simp add: set_up_def)
  obtain s' where s': "bridge_begin port u 3 (tell (show_cmd True) s2) = Inr s'" "set_up (tell (show_cmd True) s2) s'"
    using bridge_begin_returns [OF tell_set_up [OF ok2]] by blast
  have "chips_config_yuv_begin port u s = Inr s'"
    using s'(1) t(1) s2(1) by (simp add: chips_config_yuv_begin_def on_twE_def s1_def show_cmd_def)
  moreover have "configured True s2 s'" using told_and_bridged [OF ok2 s'(2)] by simp
  ultimately show ?thesis using s2(2) by (auto simp: configured_def set_up_def s1_def)
qed

definition vreturns :: "fault + ('a \<times> 'd video) \<Rightarrow> bool" where
  "vreturns r \<longleftrightarrow> (\<exists>a s. r = Inr (a, s) \<and> video_ok s)"

lemma vreturns_bindE: "vreturns r \<Longrightarrow> (\<And>a s. video_ok s \<Longrightarrow> vreturns (f (a, s))) \<Longrightarrow> vreturns (bindE r f)"
  by (auto simp: vreturns_def)

lemma vreturns_Inr [simp]: "vreturns (Inr (a, s)) = video_ok s"
  by (simp add: vreturns_def)

lemma vreturns_tw: "video_ok s \<Longrightarrow> returns (f (tw s)) \<Longrightarrow> vreturns (on_twE f s)"
  by (auto simp: vreturns_def returns_def on_twE_def video_ok_tw)

lemma video_ok_fields [simp]:
  "video_ok (s\<lparr>Format_count := n, Format_count_flag := f\<rparr>) = video_ok s" "video_ok (s\<lparr>last_vide_format := l\<rparr>) = video_ok s"
  by (simp_all add: video_ok_def)

lemma changes_keep: "video_ok s \<Longrightarrow> video_ok (format_changed port Channel (channel_changed port Channel s))"
proof -
  assume s: "video_ok s"
  have sw: "video_ok (video_signal_channel_switching_occurs port t)" if "video_ok t" for t
    using that unfolding video_signal_channel_switching_occurs_def on_tw_def on_bus_def by (simp add: video_ok_def)
  have wr: "video_ok (on_tw (\<lambda>t. snd (all_writes port ws t)) t)" if "video_ok t" for ws t
    using set_up_dev [OF that only_dev_all_writes, of port ws] by (simp add: on_tw_def set_up_def)
  show ?thesis using s sw wr by (simp add: channel_changed_def format_changed_def Let_def)
qed

lemma vreturns_test: "video_ok s \<Longrightarrow> vreturns (test_once port u Channel s)"
  by (auto simp: test_once_def vreturns_tw returns_cvbs video_ok_def [of s])

lemma vreturns_test_again: "video_ok s \<Longrightarrow> vreturns (test_again n port u Channel s)"
  by (induction n arbitrary: s) (auto intro!: vreturns_bindE simp: vreturns_test)

lemma vreturns_test_pin:
  assumes "video_ok s"
  shows "vreturns (flyVideoTestSignalPin_in port u Channel s)"
proof -
  have t: "tw_ok (tw s)" if "video_ok s" for s :: "'a video" using that by (simp add: video_ok_def)
  have ch: "info_com_top_Channel s \<noteq> NOTONE" if "video_ok s" for s :: "'a video" using that by (simp add: video_ok_def)
  have arrays: "vreturns (on_twE (tw9912_config_array_NTSCp port) s)" "vreturns (on_twE (tw9912_config_array port u YIN3) s)"
    if "video_ok s" for s
    using that t by (auto intro!: vreturns_tw returns_arrays returns_config_array)
  have fin: "vreturns (let (again, count, flag) = signal_counted ret (Format_count s2, Format_count_flag s2);
               s3 = s2\<lparr>Format_count := count, Format_count_flag := flag\<rparr>
           in if again then
                bindE (if info_com_top_Channel s3 = SEPARATION \<or> info_com_top_Channel s3 = YIN2
                       then on_twE (tw9912_config_array_NTSCp port) s3 else on_twE (tw9912_config_array port u YIN3) s3)
                  (\<lambda>(_, s4). Inr (ret, s4))
              else if format_nr ret > 4 then Inr (ret, s3)
              else if info_com_top_Channel s3 = NOTONE then Inl BufOverrun
              else Inr (ret, s3\<lparr>tw := set_format (info_com_top_Channel s3) ret (tw s3)\<rparr>))"
    if "video_ok s2" for ret s2
  proof -
    obtain again count flag where c: "signal_counted ret (Format_count s2, Format_count_flag s2) = (again, count, flag)"
      by (metis prod_cases3)
    define s3 where "s3 = s2\<lparr>Format_count := count, Format_count_flag := flag\<rparr>"
    have ok: "video_ok s3" using that by (simp add: s3_def)
    then have "video_ok (s3\<lparr>tw := set_format (info_com_top_Channel s3) ret (tw s3)\<rparr>)"
      by (rule video_ok_tw) (use t [OF ok] in simp)
    then show ?thesis unfolding c prod.case Let_def s3_def [symmetric] using ok ch [OF ok] arrays [OF ok]
      by (auto intro!: vreturns_bindE)
  qed
  have "vreturns (if Channel = 4 \<or> Channel = 2 then on_twE (tw9912_yuv_signal_testing port u) s1 else test_again 2 port u Channel s1)"
    if "video_ok s1" for s1
    using that t [OF that] by (auto intro!: vreturns_tw returns_yuv vreturns_test_again)
  from vreturns_bindE [OF this [OF changes_keep [OF assms]]] show ?thesis
    unfolding flyVideoTestSignalPin_in_def Let_def [of "format_changed _ _ _"] using fin by (metis (no_types, lifting) case_prod_conv)
qed

section \<open>How often a missing signal leads to a new configuration\<close>

fun reconfigured :: "vedio_format_t list \<Rightarrow> byte \<times> byte \<Rightarrow> nat" where
  "reconfigured [] c = 0"
| "reconfigured (ret # rets) c =
     (case signal_counted ret c of (again, c') \<Rightarrow> (if again then 1 else 0) + reconfigured rets c')"

lemma not_again: "list_all (\<lambda>f. format_nr f > 4) rets \<Longrightarrow> flag \<noteq> 0 \<Longrightarrow> reconfigured rets (count, flag) = 0"
  by (induction rets arbitrary: count) (simp_all add: signal_counted_def)

lemma once_more:
  "list_all (\<lambda>f. format_nr f > 4) rets \<Longrightarrow> unat count \<le> 30 \<Longrightarrow>
   reconfigured rets (count, 0) = (if unat count + length rets > 30 then 1 else 0)"
proof (induction rets arbitrary: count)
  case (Cons ret rets)
  have u: "unat (count + 1) = Suc (unat count)" by (rule unat_Suc_small [of _ 31]) (use Cons.prems in auto)
  have b: "count + 1 > 30 \<longleftrightarrow> unat count = 30" using u Cons.prems(2) by (auto simp: word_less_nat_alt)
  show ?case
  proof (cases "unat count = 30")
    case True
    then show ?thesis using Cons.prems b not_again [of rets 1 0] by (simp add: signal_counted_def)
  next
    case False
    then show ?thesis using Cons.prems b Cons.IH [of "count + 1"] u by (auto simp: signal_counted_def)
  qed
qed simp

section \<open>Operations as steps\<close>

datatype video_op =
    Configure vedio_format_t
  | TestPin byte
  | SetImage "Vedio_Effect option" byte
  | SetChannel byte
  | LateResume

fun video_step :: "'d video_port \<Rightarrow> byte \<Rightarrow> video_op \<Rightarrow> 'd video \<Rightarrow> fault + 'd video" where
  "video_step port u (Configure f) s = chips_config_begin port u f s"
| "video_step port u (TestPin c) s = bindE (flyVideoTestSignalPin_in port u c s) (\<lambda>(_, s'). Inr s')"
| "video_step port u (SetImage e v) s = bindE (flyVideoImageQualityConfig_in port e v s) (\<lambda>(_, s'). Inr s')"
| "video_step port u (SetChannel c) s = Inr (snd (flyVideoInitall_in c s))"
| "video_step port u LateResume s = video_late_resume port u s"

text \<open>What the callers have to respect: the settings fit the channel when they are applied, and the channel exists.\<close>

definition with_setting :: "Vedio_Effect \<Rightarrow> byte \<Rightarrow> 'd video \<Rightarrow> 'd video" where
  "with_setting e v s = s\<lparr>TW9912_Image_Parameter_fly := (TW9912_Image_Parameter_fly s)[effect_nr e - 1 := v]\<rparr>"

fun video_op_ok :: "video_op \<Rightarrow> 'd video \<Rightarrow> bool" where
  "video_op_ok (Configure f) s = settings_ok s"
| "video_op_ok (TestPin c) s = True"
| "video_op_ok (SetImage e v) s = (e = Some BRIGHTNESS \<longrightarrow> settings_ok (with_setting BRIGHTNESS v s))"
| "video_op_ok (SetChannel c) s = (c \<noteq> 5)"
| "video_op_ok LateResume s = settings_ok (s\<lparr>info_com_top_Channel := SEPARATION\<rparr>)"

lemma begin_configured:
  assumes "video_ok s" "settings_ok s" "\<not> (f = STOP_VIDEO \<and> info_com_top_Channel s \<noteq> SEPARATION)"
  shows "\<exists>s'. chips_config_begin port u f s = Inr s' \<and>
    configured (info_com_top_Channel s = SEPARATION \<or> shown (info_com_top_Channel s) s') s s'"
  using yuv_configured [OF assms(1,2), of port u] cvbs_configured [OF assms(1,2) refl, of port u] assms(3)
  by (cases "info_com_top_Channel s = SEPARATION") (auto simp: chips_config_begin_def)

lemma begin_ok: "video_ok s \<Longrightarrow> settings_ok s \<Longrightarrow> \<exists>s'. chips_config_begin port u f s = Inr s' \<and> video_ok s'"
proof (cases "f = STOP_VIDEO")
  case True
  then show "video_ok s \<Longrightarrow> settings_ok s \<Longrightarrow> ?thesis"
    using bridge_begin_returns [of s port u 6] yuv_configured [of s port u]
    by (auto simp: chips_config_begin_def set_up_def configured_def)
next
  case False
  then show "video_ok s \<Longrightarrow> settings_ok s \<Longrightarrow> ?thesis"
    using begin_configured [of s f port u] by (auto simp: configured_def)
qed

lemma video_ok_channel: "video_ok s \<Longrightarrow> ch \<noteq> NOTONE \<Longrightarrow> video_ok (s\<lparr>info_com_top_Channel := ch\<rparr>)"
  by (simp add: video_ok_def)

lemma channel_five: "unat (c :: byte) \<le> 5 \<Longrightarrow> c \<noteq> 5 \<Longrightarrow> channel_of (unat c) \<noteq> NOTONE"
  by (auto simp: word_unat_eq_iff)

lemma set_channel_ok: "video_ok s \<Longrightarrow> c \<noteq> 5 \<Longrightarrow> video_ok (snd (flyVideoInitall_in c s))"
  using channel_five [of c] by (auto simp: flyVideoInitall_in_def video_ok_channel simp del: channel_of.simps)

lemma video_step_typed:
  assumes "video_ok s" "video_op_ok op s"
  shows "\<exists>s'. video_step port u op s = Inr s' \<and> video_ok s'"
proof (cases op)
  case (Configure f)
  then show ?thesis using assms begin_ok by auto
next
  case (TestPin c)
  then show ?thesis using vreturns_test_pin [OF assms(1), of port u c] by (auto simp: vreturns_def)
next
  case (SetImage e v)
  show ?thesis
  proof (cases "e = Some BRIGHTNESS")
    case True
    define s1 where "s1 = with_setting BRIGHTNESS v s"
    have "video_ok s1" "settings_ok s1" using assms SetImage True by (simp_all add: s1_def with_setting_def video_ok_def)
    then obtain a s2 where "video_image_config_begin port s1 = Inr (a, s2)" "set_up s1 s2" using image_begin_returns by blast
    then show ?thesis using SetImage True
      by (auto simp: flyVideoImageQualityConfig_in_def Let_def s1_def with_setting_def set_up_def)
  next
    case False
    then show ?thesis using assms(1) SetImage
      by (cases e) (auto simp: flyVideoImageQualityConfig_in_def Let_def video_ok_def)
  qed
next
  case (SetChannel c)
  then show ?thesis using assms set_channel_ok by simp
next
  case LateResume
  define s1 where "s1 = on_tw (tw9912_hardware_reset port) s"
  have "video_ok (s1\<lparr>info_com_top_Channel := SEPARATION\<rparr>)" using assms(1) by (simp add: s1_def on_tw_def video_ok_def)
  moreover have "settings_ok (s1\<lparr>info_com_top_Channel := SEPARATION\<rparr>)"
    using assms(2) LateResume settings_ok_same [of "s1\<lparr>info_com_top_Channel := SEPARATION\<rparr>" "s\<lparr>info_com_top_Channel := SEPARATION\<rparr>"]
    by (simp add: s1_def on_tw_def)
  moreover have "snd (flyVideoInitall_in 2 s1) = s1\<lparr>info_com_top_Channel := SEPARATION\<rparr>"
    by (simp add: flyVideoInitall_in_def)
  ultimately show ?thesis using LateResume begin_ok [of "s1\<lparr>info_com_top_Channel := SEPARATION\<rparr>" port u OTHER]
    by (simp add: video_late_resume_def s1_def [symmetric])
qed

lemma video_start_ok: "video_ok (video_start d)"
  by (simp add: video_ok_def video_start_def Tw9912_image_global_AUX_BACK_start_def Tw9912_image_global_AUX_BACK_PAL_I_start_def
    Tw9912_image_global_separation_start_def camera_regs_def dvd_regs_def)

lemma video_start_settings: "settings_ok (video_start d)"
  by (simp add: settings_ok_def video_start_def parameter_def)

text \<open>A sequence of operations, each of which respects this in the state it meets.\<close>

fun video_ops_ok :: "'d video_port \<Rightarrow> byte \<Rightarrow> video_op list \<Rightarrow> 'd video \<Rightarrow> bool" where
  "video_ops_ok port u [] s = True"
| "video_ops_ok port u (op # ops) s =
     (video_op_ok op s \<and> (case video_step port u op s of Inl _ \<Rightarrow> True | Inr s' \<Rightarrow> video_ops_ok port u ops s'))"

text \<open>
  (C20) The video driver's operations on a channel (its configuration, the test for a signal, the setting of the image, the change
  of the channel, the late resume), in any order and on any port, from a well-formed state: when the four image settings fit the channel
  at the operations that apply them (a configuration, a setting of the brightness, a late resume, which applies them on the DVD's channel),
  and the channel set is not number 5, no operation leaves an array or a table, each of them returns, and the state stays well
  formed.  The read and the write of the driver's node are not among these operations: they can overrun (\<open>node_overruns\<close>).
\<close>

theorem video_steps_typed:
  assumes "video_ok s" "video_ops_ok port u ops s"
  shows "\<exists>s'. foldE (video_step port u) ops s = Inr s' \<and> video_ok s'"
  using assms
proof (induction ops arbitrary: s)
  case (Cons op ops)
  then obtain s1 where s1: "video_step port u op s = Inr s1" "video_ok s1"
    using video_step_typed [of s op port u] by auto
  then show ?case using Cons by auto
qed simp

theorem video_steps_typed_witness:
  "\<exists>s'. foldE (video_step (bit_port chip_bus chip_resx bridge_resx) 0) [SetChannel 2, SetImage None 7, TestPin 3] (video_start (chip_new 0x44 1)) = Inr s' \<and>
     video_ok s'"
proof (rule video_steps_typed [OF video_start_ok])
  show "video_ops_ok (bit_port chip_bus chip_resx bridge_resx) 0 [SetChannel 2, SetImage None 7, TestPin 3] (video_start (chip_new 0x44 1))"
    by (simp add: flyVideoImageQualityConfig_in_def split: sum.split)
qed

text \<open>
  (C19) The loops over the image settings are a table look-up: the entries to be written are those the reference names, and the
  driver reads outside its tables exactly when the settings do not fit the channel.
\<close>

theorem settings_looked_up:
  assumes "video_ok s"
  shows "bindE (video_image_config_parameter_buffer s) (\<lambda>(_, s'). image_entries s') =
    (if settings_ok s then Inr (image_reference s) else Inl BufOverrun)"
proof (cases "settings_ok s")
  case True
  obtain n img pal sep where b: "video_image_config_parameter_buffer s = Inr (1, (set_now n s)\<lparr>Tw9912_image_global_AUX_BACK := img,
      Tw9912_image_global_AUX_BACK_PAL_I := pal, Tw9912_image_global_separation := sep\<rparr>)"
    "if info_com_top_Channel s = YIN3
     then (if sig_Format (signal_is_how (tw s) ! channel_nr YIN3) = NTSC_I then img else pal) = image_reference s
     else sep = image_reference s"
    using parameter_buffer_eq [OF assms True] by blast
  then show ?thesis using True by (auto simp: image_entries_def channel_format_def set_now_def)
qed (simp add: parameter_buffer_fault [OF assms])

theorem settings_looked_up_witness:
  "bindE (video_image_config_parameter_buffer (video_start ())) (\<lambda>(_, s'). image_entries s') =
     Inr [(0xd9, 0x07), (0x11, 0x71), (0x15, 0x00), (0x13, 0x9e), (0x14, 0x9e)]"
proof -
  have "image_reference (video_start ()) = [(0xd9, 0x07), (0x11, 0x71), (0x15, 0x00), (0x13, 0x9e), (0x14, 0x9e)]"
    by (simp add: image_reference_def video_start_def parameter_def looked_up_def dvd_regs_def Image_Config_separation_def)
  then show ?thesis using settings_looked_up [OF video_start_ok, of "()"] video_start_settings by simp
qed

text \<open>
  (C18) User space learns whether there is a picture: in a well-formed state (\<open>video_ok\<close>) with image settings that fit the channel
  (\<open>settings_ok\<close>), on any port, a configuration returns.  A request to stop the video on another channel than the DVD's queues no
  command; after any other configuration the driver has queued exactly one command for the helper program, and the helper sets the
  property for a picture if the channel is the DVD's or a format was found, and the one for a black screen otherwise.
\<close>

theorem picture_announced:
  assumes "video_ok s" "settings_ok s"
  shows "\<exists>s'. chips_config_begin port u f s = Inr s' \<and>
    (if f = STOP_VIDEO \<and> info_com_top_Channel s \<noteq> SEPARATION then servicer_cmds s' = servicer_cmds s
     else \<exists>cmd. servicer_cmds s' = servicer_cmds s @ [cmd] \<and>
       servicer_cmd mif now cmd h = Inr (do_acts [PropertySet ''fly.video.show.status''
         (if info_com_top_Channel s = SEPARATION \<or> shown (info_com_top_Channel s) s' then ''1'' else ''0'')] h))"
proof (cases "f = STOP_VIDEO \<and> info_com_top_Channel s \<noteq> SEPARATION")
  case True
  then show ?thesis using bridge_begin_returns [OF assms(1), of port u 6] by (auto simp: chips_config_begin_def set_up_def)
next
  case False
  obtain s' where s': "chips_config_begin port u f s = Inr s'"
    "configured (info_com_top_Channel s = SEPARATION \<or> shown (info_com_top_Channel s) s') s s'"
    using begin_configured [OF assms] False by blast
  have "servicer_cmd mif now (show_cmd b) h = Inr (do_acts [PropertySet ''fly.video.show.status'' (if b then ''1'' else ''0'')] h)" for b
    by (simp add: servicer_cmd_def show_cmd_def helper_commands)
  with s' False show ?thesis unfolding configured_def by auto
qed

theorem picture_announced_witness:
  "\<exists>s'. chips_config_begin (bit_port chip_bus chip_resx bridge_resx) 0 OTHER ((video_start (chip_new 0x44 1))\<lparr>info_com_top_Channel := SEPARATION\<rparr>) = Inr s' \<and>
     servicer_cmds s' = [86]"
proof -
  define s where "s = (video_start (chip_new 0x44 1))\<lparr>info_com_top_Channel := SEPARATION\<rparr>"
  have ok: "video_ok s" "settings_ok s"
    using video_ok_channel [OF video_start_ok, of SEPARATION "chip_new 0x44 1"] by (simp_all add: s_def settings_ok_def video_start_def parameter_def)
  obtain s' cmd where s': "chips_config_begin (bit_port chip_bus chip_resx bridge_resx) 0 OTHER s = Inr s'" "servicer_cmds s' = servicer_cmds s @ [cmd]"
    "servicer_cmd None [] cmd helper_start = Inr (do_acts [PropertySet ''fly.video.show.status'' ''1''] helper_start)"
    using picture_announced [OF ok, of "bit_port chip_bus chip_resx bridge_resx" 0 OTHER None "[]" helper_start] by (auto simp: s_def)
  have "cmd = 86" using s'(3) by (auto simp: servicer_cmd_def helper_commands do_acts_def helper_start_def compose_log_name_def read_from_file_def split: if_splits)
  then show ?thesis using s'(1,2) by (auto simp: s_def video_start_def)
qed

text \<open>
  The settings for the reversing camera begin at 240.  When the channel is changed to the DVD's before new settings arrive, the next
  configuration reads outside the table; and the node copies over its structure as much as it is given, and asks for the format
  of a channel that does not exist before the first configuration.
\<close>

theorem reversing_settings_on_dvd:
  assumes "video_ok s" "info_com_top_Channel s = SEPARATION" "parameter CONTRAST s > 10"
  shows "chips_config_begin port u f s = Inl BufOverrun"
proof -
  have "returns (tw9912_config_array_NTSCp port (tw s))" using assms(1) by (intro returns_arrays) (simp add: video_ok_def)
  then obtain r t where t: "tw9912_config_array_NTSCp port (tw s) = Inr (r, t)" "tw_ok t" by (auto simp: returns_def)
  have "\<not> settings_ok s" using assms(2,3) by (simp add: settings_ok_def)
  then have "\<not> settings_ok (s\<lparr>tw := t\<rparr>)" using settings_ok_same [of "s\<lparr>tw := t\<rparr>" s] by simp
  then have "video_image_config_parameter_buffer (s\<lparr>tw := t\<rparr>) = Inl BufOverrun"
    using parameter_buffer_fault video_ok_tw [OF assms(1) t(2)] by blast
  then show ?thesis using assms(2) t(1)
    by (simp add: chips_config_begin_def chips_config_yuv_begin_def on_twE_def video_image_config_begin_def)
qed

theorem reversing_settings_on_dvd_witness:
  "chips_config_begin port u f ((video_start d)\<lparr>info_com_top_Channel := SEPARATION, TW9912_Image_Parameter_fly := replicate 6 240\<rparr>) = Inl BufOverrun"
  by (rule reversing_settings_on_dvd)
     (use video_start_ok [of d] in \<open>simp_all add: video_ok_def parameter_def\<close>)

lemma node_overruns:
  "tw9912_read_func_read_data s = 0 \<Longrightarrow> 5 < count \<Longrightarrow> tw9912_node_read port u count s = Inl BufOverrun"
  "5 < length data \<Longrightarrow> tw9912_node_write port u data s = Inl BufOverrun"
  "tw9912_node_write port u data (video_start d) = Inl BufOverrun"
  by (auto simp: tw9912_node_read_def tw9912_node_write_def channel_format_def video_start_def)

end
