(* ===== verification/Fly_Frame.thy ===== *)
theory Fly_Frame
  imports Complex_Main Prelude
begin

text \<open>
  The searches for black lines in a frame of the camera, \<^verbatim>\<open>hal/8x25q_camera/FlyCamera.cpp\<close>.

  A frame is 720 pixels wide; \<open>buffer\<close> is the memory it lies in, \<open>y_off\<close> and \<open>cbcr_off\<close> are the offsets of its brightness and colour.
  The memory is a function from the offset to the byte; how far the searches read is the subject of \<open>rows_local\<close> and its neighbours.
  Each loop of the code with its early exits is a recursive function; the theorems say which pixels it counts.
\<close>

record frame =
  buffer :: "nat \<Rightarrow> byte"
  y_off :: nat
  cbcr_off :: nat

definition luma :: "frame \<Rightarrow> nat \<Rightarrow> byte" where
  "luma f k = buffer f (y_off f + k)"

definition chroma :: "frame \<Rightarrow> nat \<Rightarrow> byte" where
  "chroma f k = buffer f (cbcr_off f + k)"

definition BCAR_BLACK_VALUE_UPERR_LIMIT :: byte where
  "BCAR_BLACK_VALUE_UPERR_LIMIT = 0x42"

section \<open>The first line\<close>

text \<open>The loop of \<open>ToFindBlackLine\<close> from column \<open>i\<close>, with the black pixels so far.\<close>

function first_line_from :: "frame \<Rightarrow> nat \<Rightarrow> nat \<Rightarrow> bool" where
  "first_line_from f i black_count =
     (if i < 719 then
        if luma f i \<le> BCAR_BLACK_VALUE_UPERR_LIMIT then
          if 719 - i + (black_count + 1) < 710 then False
          else if black_count + 1 > 710 then True
          else first_line_from f (i + 1) (black_count + 1)
        else first_line_from f (i + 1) black_count
      else False)"
  by pat_completeness auto
termination by (relation "measure (\<lambda>(f, i, c). 719 - i)") auto

declare first_line_from.simps [simp del]

definition ToFindBlackLine :: "frame \<Rightarrow> bool" where
  "ToFindBlackLine f = first_line_from f 0 0"

section \<open>Is the picture itself black?\<close>

text \<open>
  The two diagonals: rows 60 to 399 downwards from column 1 on, then rows 400 to 61 upwards from column 341 on.  The \<open>continue\<close> of the
  code skips only the comparison with the limit, which cannot hold there; it is kept.
\<close>

function down_diagonal :: "frame \<Rightarrow> nat \<Rightarrow> nat \<Rightarrow> nat \<Rightarrow> bool \<times> nat" where
  "down_diagonal f j i c =
     (if j < 400 then
        let c' = (if luma f (720 * j + (i + 1)) \<le> 0x20 then c + 1 else c) in
        if 400 - j + c' < 170 then down_diagonal f (j + 1) (i + 1) c'
        else if c' > 170 then (True, c')
        else down_diagonal f (j + 1) (i + 1) c'
      else (False, c))"
  by pat_completeness auto
termination by (relation "measure (\<lambda>(f, j, i, c). 400 - j)") auto

function up_diagonal :: "frame \<Rightarrow> nat \<Rightarrow> nat \<Rightarrow> nat \<Rightarrow> bool" where
  "up_diagonal f j i c =
     (if j > 60 then
        let c' = (if luma f (720 * j + (i + 1)) \<le> 0x20 then c + 1 else c) in
        if 400 - j + c' < 280 then up_diagonal f (j - 1) (i + 1) c'
        else if c' > 280 then True
        else up_diagonal f (j - 1) (i + 1) c'
      else False)"
  by pat_completeness auto
termination by (relation "measure (\<lambda>(f, j, i, c). j)") auto

declare down_diagonal.simps [simp del] up_diagonal.simps [simp del]

definition VideoItselfBlackJudge :: "frame \<Rightarrow> bool" where
  "VideoItselfBlackJudge f =
     (let (found, c) = down_diagonal f 60 0 0 in if found then True else up_diagonal f 400 340 c)"

section \<open>A black line inside the picture\<close>

text \<open>
  The loop over a line, shared by the three searches: \<open>dark\<close> tells the black pixels, \<open>n\<close> is how many are looked at, and the loop is left
  when fewer than \<open>need\<close> seem possible.  The counter is an \<open>unsigned int\<close>.
\<close>

function line_count :: "(nat \<Rightarrow> bool) \<Rightarrow> nat \<Rightarrow> nat \<Rightarrow> nat \<Rightarrow> nat \<Rightarrow> nat" where
  "line_count dark n need jj count =
     (if jj < n then
        let count' = (if dark jj then (count + 1) mod 2 ^ 32 else count) in
        if (n - jj + count') mod 2 ^ 32 < need then count'
        else line_count dark n need (jj + 1) count'
      else count)"
  by pat_completeness auto
termination by (relation "measure (\<lambda>(dark, n, need, jj, c). n - jj)") auto

declare line_count.simps [simp del]

text \<open>
  The rows \<open>i\<close> to \<open>find_line - 1\<close>: a row whose pixel in column 300 is black is looked at as a whole.  \<open>limit\<close> is the brightest black.
  The counter is set to 0 after each such row, but not before the first one: it starts with whatever \<open>count\<close> was on the stack.
\<close>

function rows_from :: "frame \<Rightarrow> byte \<Rightarrow> nat \<Rightarrow> nat \<Rightarrow> nat \<Rightarrow> bool" where
  "rows_from f limit find_line i count =
     (if i < find_line then
        if luma f (720 * i + 300) \<le> limit then
          if line_count (\<lambda>jj. luma f (720 * i + jj) \<le> limit) 719 715 0 count \<ge> 715 then True
          else rows_from f limit find_line (i + 1) 0
        else rows_from f limit find_line (i + 1) count
      else False)"
  by pat_completeness auto
termination by (relation "measure (\<lambda>(f, l, m, i, c). m - i)") auto

declare rows_from.simps [simp del]

text \<open>The last row, by the format: \<open>CHR ''2''\<close> and \<open>CHR ''4''\<close> are PAL.\<close>

definition find_line :: "char \<Rightarrow> nat" where
  "find_line format = (if format = CHR ''4'' \<or> format = CHR ''2'' then 562 else 477)"

definition RowsOfDataTraversingTheFrameToFindTheBlackLineForDVDorAUX :: "nat \<Rightarrow> char \<Rightarrow> frame \<Rightarrow> bool" where
  "RowsOfDataTraversingTheFrameToFindTheBlackLineForDVDorAUX u format f = rows_from f 0x43 (find_line format) 9 u"

definition RowsOfDataTraversingTheFrameToFindTheBlackLine :: "nat \<Rightarrow> char \<Rightarrow> frame \<Rightarrow> bool" where
  "RowsOfDataTraversingTheFrameToFindTheBlackLine u format f = rows_from f BCAR_BLACK_VALUE_UPERR_LIMIT (find_line format) 9 u"

section \<open>The edge of the picture\<close>

text \<open>A line that belongs to the black bar: the pixel in column 300 is dark, and enough of the first 700 are.\<close>

definition bar_line :: "frame \<Rightarrow> byte \<Rightarrow> nat \<Rightarrow> bool" where
  "bar_line f limit line \<longleftrightarrow>
     luma f (line * 720 + 300) \<le> 0x43 \<and> line_count (\<lambda>jj. luma f (720 * line + jj) \<le> limit) 700 690 0 0 \<ge> 650"

function edge_down :: "frame \<Rightarrow> nat \<Rightarrow> nat \<Rightarrow> nat" where
  "edge_down f line end_line =
     (if line < end_line then if bar_line f 0x30 line then edge_down f (line + 1) end_line else line else 0)"
  by pat_completeness auto
termination by (relation "measure (\<lambda>(f, l, e). e - l)") auto

function edge_up :: "frame \<Rightarrow> nat \<Rightarrow> nat \<Rightarrow> nat" where
  "edge_up f line end_line =
     (if line > end_line then if bar_line f 0x20 line then edge_up f (line - 1) end_line else line else 0)"
  by pat_completeness auto
termination by (relation "measure (\<lambda>(f, l, e). l)") auto

declare edge_down.simps [simp del] edge_up.simps [simp del]

text \<open>The callers keep \<open>len\<close> at most \<open>star\<close> when they look upwards.\<close>

definition LookingForABlackCriticalLine :: "frame \<Rightarrow> nat \<Rightarrow> nat \<Rightarrow> bool \<Rightarrow> nat" where
  "LookingForABlackCriticalLine f star len down_or_up =
     (if down_or_up then edge_down f star (star + len) else edge_up f star (star - len))"

section \<open>A black column\<close>

datatype column_scan = Skip_Column | Frame_Is_Black | Black_Column

text \<open>The rows 60 to 399 of a column.\<close>

function column_from :: "frame \<Rightarrow> nat \<Rightarrow> nat \<Rightarrow> nat \<Rightarrow> column_scan" where
  "column_from f j i dete_count =
     (if i < 400 then
        if luma f (720 * i + j) \<le> 0x20 then
          let d = dete_count + 1 in
          if 400 - i + d < 330 then Skip_Column
          else if d > 330 \<and> VideoItselfBlackJudge f then Frame_Is_Black
          else if d > 330 then Black_Column
          else column_from f j (i + 1) d
        else column_from f j (i + 1) dete_count
      else Skip_Column)"
  by pat_completeness auto
termination by (relation "measure (\<lambda>(f, j, i, d). 400 - i)") auto

declare column_from.simps [simp del]

text \<open>The columns 30 to 690: the first one that is black in row 300 and not skipped.\<close>

definition candidate_column :: "frame \<Rightarrow> nat \<Rightarrow> bool" where
  "candidate_column f j \<longleftrightarrow> luma f (720 * 300 + j) \<le> 0x20 \<and> column_from f j 60 0 \<noteq> Skip_Column"

definition first_column :: "frame \<Rightarrow> nat option" where
  "first_column f = List.find (candidate_column f) [30..<691]"

section \<open>The first line against its limits\<close>

text \<open>How many of the 80 pixels looked at in the first line are out of range.\<close>

definition first_line_points :: "nat list" where
  "first_line_points = concat (map (\<lambda>j. map (\<lambda>i. 180 * j + i) [0..<20]) [0..<4])"

fun more_than :: "nat \<Rightarrow> (nat \<Rightarrow> bool) \<Rightarrow> nat list \<Rightarrow> nat \<Rightarrow> bool" where
  "more_than need odd_point [] dete_count = False"
| "more_than need odd_point (p # ps) dete_count =
     (if odd_point p then if dete_count + 1 > need then True else more_than need odd_point ps (dete_count + 1)
      else more_than need odd_point ps dete_count)"

definition astern_line_odd :: "frame \<Rightarrow> bool" where
  "astern_line_odd f = more_than 5 (\<lambda>p. luma f p < 0x20 \<or> luma f p > BCAR_BLACK_VALUE_UPERR_LIMIT) first_line_points 0"

definition colour_line_odd :: "frame \<Rightarrow> bool" where
  "colour_line_odd f = more_than 9 (\<lambda>p. chroma f p < 0x7f - 3 \<or> chroma f p > 0x80 + 3) first_line_points 0"

section \<open>Writing into the frame\<close>

definition memset :: "nat \<Rightarrow> byte \<Rightarrow> nat \<Rightarrow> frame \<Rightarrow> frame" where
  "memset k v len f = f\<lparr>buffer := (\<lambda>a. if k \<le> a \<and> a < k + len then v else buffer f a)\<rparr>"

definition WriteDataToFrameBuffer :: "nat \<Rightarrow> nat \<Rightarrow> nat \<Rightarrow> frame \<Rightarrow> frame" where
  "WriteDataToFrameBuffer at_line_write start len f = memset (y_off f + 720 * at_line_write + start) 0xff len f"

text \<open>The lines that are made black on the AUX channel.\<close>

definition FlyCameraAuxBlackLine :: "char \<Rightarrow> char \<Rightarrow> frame \<Rightarrow> frame" where
  "FlyCameraAuxBlackLine channel format f =
     (if channel = CHR ''2'' then
        let f1 = memset (cbcr_off f) 0x7f (720 * 2) (memset (y_off f) 0x1e (720 * 3) f) in
        if format = CHR ''4'' \<or> format = CHR ''2'' then f1
        else memset (y_off f + 720 * 475) 0x1e (720 * 5) (memset (cbcr_off f + 720 * 237) 0x80 (720 * 4) f1)
      else f)"


section \<open>Counting the pixels\<close>

text \<open>How many of the positions from \<open>lo\<close> to \<open>hi - 1\<close> satisfy \<open>p\<close>.\<close>

definition hits :: "(nat \<Rightarrow> bool) \<Rightarrow> nat \<Rightarrow> nat \<Rightarrow> nat" where
  "hits p lo hi = length (filter p [lo..<hi])"

lemma hits_empty [simp]: "hi \<le> lo \<Longrightarrow> hits p lo hi = 0"
  by (simp add: hits_def)

lemma hits_first: "lo < hi \<Longrightarrow> hits p lo hi = (if p lo then 1 else 0) + hits p (lo + 1) hi"
  by (simp add: hits_def upt_conv_Cons)

lemma hits_last: "lo \<le> hi \<Longrightarrow> hits p lo (Suc hi) = hits p lo hi + (if p hi then 1 else 0)"
  by (simp add: hits_def)

lemma hits_le: "hits p lo hi \<le> hi - lo"
  by (metis hits_def length_filter_le length_upt)

lemma hits_split: "lo \<le> mid \<Longrightarrow> mid \<le> hi \<Longrightarrow> hits p lo hi = hits p lo mid + hits p mid hi"
  by (metis hits_def filter_append length_append le_add_diff_inverse upt_add_eq_append)

lemma hits_not: "hits (\<lambda>i. \<not> p i) 0 n = n - hits p 0 n"
  using sum_length_filter_compl [of p "[0..<n]"] by (simp add: hits_def)

lemma hits_cong: "(\<And>i. lo \<le> i \<Longrightarrow> i < hi \<Longrightarrow> p i = q i) \<Longrightarrow> hits p lo hi = hits q lo hi"
  unfolding hits_def by (rule arg_cong [where f = length], rule filter_cong) auto

lemma first_line_hits:
  "c \<le> i \<Longrightarrow> c \<le> 710 \<Longrightarrow>
    first_line_from f i c \<longleftrightarrow> c + hits (\<lambda>k. luma f k \<le> BCAR_BLACK_VALUE_UPERR_LIMIT) i 719 > 710"
proof (induction f i c rule: first_line_from.induct)
  case (1 f i c)
  show ?case
  proof (cases "i < 719")
    case True
    define p where "p = (\<lambda>k. luma f k \<le> BCAR_BLACK_VALUE_UPERR_LIMIT)"
    have le: "hits p (i + 1) 719 \<le> 718 - i" using hits_le [of p "i + 1" 719] by simp
    have u: "first_line_from f i c =
        (if p i then if 719 - i + (c + 1) < 710 then False else if c + 1 > 710 then True else first_line_from f (i + 1) (c + 1)
         else first_line_from f (i + 1) c)"
      by (subst first_line_from.simps) (simp only: True p_def if_True)
    have IH: "p i \<Longrightarrow> \<not> 719 - i + (c + 1) < 710 \<Longrightarrow> \<not> 710 < c + 1 \<Longrightarrow> first_line_from f (i + 1) (c + 1) \<longleftrightarrow> c + 1 + hits p (i + 1) 719 > 710"
      "\<not> p i \<Longrightarrow> first_line_from f (i + 1) c \<longleftrightarrow> c + hits p (i + 1) 719 > 710"
      using "1.IH" [OF True] "1.prems" by (simp_all add: p_def)
    show ?thesis unfolding p_def [symmetric] u hits_first [OF True, of p]
      by (cases "p i"; cases "719 - i + (c + 1) < 710"; cases "c + 1 > 710") (use IH le True "1.prems" in simp_all)
  qed (use "1.prems" in \<open>simp add: first_line_from.simps\<close>)
qed

lemma down_hits:
  "60 \<le> j \<Longrightarrow> i = j - 60 \<Longrightarrow> c \<le> 170 \<Longrightarrow>
    (let total = c + hits (\<lambda>j. luma f (720 * j + (j - 59)) \<le> 0x20) j 400 in
     fst (down_diagonal f j i c) = (total > 170) \<and> (total \<le> 170 \<longrightarrow> snd (down_diagonal f j i c) = total))"
proof (induction f j i c rule: down_diagonal.induct)
  case (1 f j i c)
  show ?case
  proof (cases "j < 400")
    case True
    define p where "p = (\<lambda>j. luma f (720 * j + (j - 59)) \<le> 0x20)"
    define c' where "c' = (if p j then c + 1 else c)"
    have e: "i + 1 = j - 59" "i + 1 = j + 1 - 60" using "1.prems" by auto
    have c': "(if luma f (720 * j + (i + 1)) \<le> 0x20 then c + 1 else c) = c'"
      unfolding e(1) by (simp add: c'_def p_def)
    have IH: "c' \<le> 170 \<Longrightarrow> let total = c' + hits p (j + 1) 400 in
        fst (down_diagonal f (j + 1) (i + 1) c') = (total > 170) \<and> (total \<le> 170 \<longrightarrow> snd (down_diagonal f (j + 1) (i + 1) c') = total)"
      if "400 - j + c' < 170 \<or> \<not> 170 < c'"
      using "1.IH" (1) [OF True c' [symmetric]] "1.IH" (2) [OF True c' [symmetric]] "1.prems"(1) that e(2) unfolding p_def by auto
    have s: "c + hits p j 400 = c' + hits p (j + 1) 400" by (simp add: hits_first [OF True] c'_def)
    have u: "down_diagonal f j i c =
        (if 400 - j + c' < 170 then down_diagonal f (j + 1) (i + 1) c' else if c' > 170 then (True, c')
         else down_diagonal f (j + 1) (i + 1) c')"
      by (subst down_diagonal.simps) (simp only: True c' Let_def if_True)
    show ?thesis unfolding p_def [symmetric] s u
      by (cases "400 - j + c' < 170"; cases "c' > 170") (use IH in \<open>simp_all add: Let_def\<close>)
  qed (use "1.prems" in \<open>simp add: down_diagonal.simps\<close>)
qed

lemma up_hits:
  "60 \<le> j \<Longrightarrow> j \<le> 400 \<Longrightarrow> i = 740 - j \<Longrightarrow> c \<le> 280 \<Longrightarrow>
    up_diagonal f j i c \<longleftrightarrow> c + hits (\<lambda>j. luma f (720 * j + (741 - j)) \<le> 0x20) 61 (Suc j) > 280"
proof (induction f j i c rule: up_diagonal.induct)
  case (1 f j i c)
  show ?case
  proof (cases "60 < j")
    case True
    define p where "p = (\<lambda>j. luma f (720 * j + (741 - j)) \<le> 0x20)"
    define c' where "c' = (if p j then c + 1 else c)"
    have i1: "i + 1 = 741 - j" using "1.prems" True by simp
    have c': "(if luma f (720 * j + (i + 1)) \<le> 0x20 then c + 1 else c) = c'"
      unfolding i1 by (simp add: c'_def p_def)
    have e: "i + 1 = 740 - (j - 1)" "Suc (j - 1) = j" "60 \<le> j - Suc 0" "j - Suc 0 \<le> 400" using "1.prems" True by auto
    have h: "hits p 61 (Suc j) = hits p 61 j + (if p j then 1 else 0)"
      using True by (intro hits_last) simp
    have IH: "c' \<le> 280 \<Longrightarrow> up_diagonal f (j - 1) (i + 1) c' \<longleftrightarrow> c' + hits p 61 j > 280"
      if "400 - j + c' < 280 \<or> \<not> 280 < c'"
      using "1.IH" (1) [OF True c' [symmetric]] "1.IH" (2) [OF True c' [symmetric]] "1.prems" that e True by (auto simp: p_def)
    have s: "c + hits p 61 (Suc j) = c' + hits p 61 j" by (simp add: h c'_def)
    have u: "up_diagonal f j i c =
        (if 400 - j + c' < 280 then up_diagonal f (j - 1) (i + 1) c' else if c' > 280 then True else up_diagonal f (j - 1) (i + 1) c')"
      by (subst up_diagonal.simps) (simp only: True c' Let_def if_True)
    show ?thesis unfolding p_def [symmetric] s u
      by (cases "400 - j + c' < 280"; cases "c' > 280") (use IH in \<open>simp_all\<close>)
  qed (use "1.prems" in \<open>simp add: up_diagonal.simps\<close>)
qed

text \<open>The counter never wraps when it starts below the columns passed.\<close>

lemma line_count_step:
  assumes "jj < n" "c \<le> jj" "n < 2 ^ 31"
  shows "line_count dark n need jj c =
    (let c' = (if dark jj then c + 1 else c) in if n - jj + c' < need then c' else line_count dark n need (jj + 1) c')"
proof -
  have "(c + 1) mod 2 ^ 32 = c + 1" "(n - jj + (c + 1)) mod 2 ^ 32 = n - jj + (c + 1)" "(n - jj + c) mod 2 ^ 32 = n - jj + c"
    using assms by auto
  then show ?thesis using assms(1) by (subst line_count.simps) (auto simp only: if_True if_False Let_def split: if_split)
qed

lemma line_count_hits:
  "c \<le> jj \<Longrightarrow> n < 2 ^ 31 \<Longrightarrow> need \<le> least \<Longrightarrow> line_count dark n need jj c \<ge> least \<longleftrightarrow> c + hits dark jj n \<ge> least"
proof (induction "n - jj" arbitrary: jj c)
  case 0
  then show ?case by (simp add: line_count.simps)
next
  case (Suc m)
  define c' where "c' = (if dark jj then c + 1 else c)"
  have lt: "jj < n" using Suc.hyps by simp
  have le: "hits dark (jj + 1) n \<le> n - jj - 1" using hits_le [of dark "jj + 1" n] by simp
  have s: "c + hits dark jj n = c' + hits dark (jj + 1) n" by (simp add: hits_first [OF lt] c'_def)
  have "c' \<le> jj + 1" using Suc.prems by (simp add: c'_def)
  then have IH: "line_count dark n need (jj + 1) c' \<ge> least \<longleftrightarrow> c' + hits dark (jj + 1) n \<ge> least"
    using Suc.hyps Suc.prems by (intro Suc.hyps(1)) auto
  show ?case unfolding s line_count_step [OF lt Suc.prems(1,2)] c'_def [symmetric] Let_def
    using IH le lt Suc.prems by (auto split: if_split)
qed


text \<open>
  The loop over the edge lines gives up at the twelfth bright pixel; by then 650 dark ones may have been seen.  So the last 39 of the 700
  pixels do not matter, and only eleven bright ones are allowed among the others.
\<close>

lemma line_count_edge:
  "jj \<le> 700 \<Longrightarrow> c = hits dark 0 jj \<Longrightarrow> jj - c \<le> 11 \<Longrightarrow>
    650 \<le> line_count dark 700 690 jj c \<longleftrightarrow> hits (\<lambda>i. \<not> dark i) 0 661 \<le> 11"
proof (induction "700 - jj" arbitrary: jj c)
  case 0
  then have "jj = 700" "c = hits dark 0 700" by auto
  moreover have "hits dark 0 700 = hits dark 0 661 + hits dark 661 700" "hits dark 661 700 \<le> 39"
    using hits_split [of 0 661 700 dark] hits_le [of dark 661 700] by auto
  ultimately show ?case using 0 by (simp add: line_count.simps hits_not, linarith)
next
  case (Suc m)
  define c' where "c' = (if dark jj then c + 1 else c)"
  have lt: "jj < 700" using Suc.hyps by simp
  have cj: "c \<le> jj" using Suc.prems hits_le [of dark 0 jj] by simp
  have c': "c' = hits dark 0 (Suc jj)" using Suc.prems by (simp add: c'_def hits_last)
  have u: "line_count dark 700 690 jj c = (if 700 - jj + c' < 690 then c' else line_count dark 700 690 (jj + 1) c')"
    using line_count_step [OF lt cj, of dark 690] by (simp add: c'_def Let_def)
  show ?case
  proof (cases "Suc jj - c' \<le> 11")
    case True
    have stay: "\<not> 700 - jj + c' < 690" using True lt by linarith
    show ?thesis unfolding u if_not_P [OF stay]
      using Suc.hyps lt True c' by (intro Suc.hyps(1)) auto
  next
    case False
    have "c \<le> c'" by (simp add: c'_def)
    then have tw: "Suc jj - c' = 12" using False cj Suc.prems(3) by linarith
    have leave: "700 - jj + c' < 690" using tw lt by linarith
    have "661 \<le> jj \<longleftrightarrow> hits (\<lambda>i. \<not> dark i) 0 661 \<le> 11"
    proof (cases "661 \<le> jj")
      case True
      have "hits (\<lambda>i. \<not> dark i) 0 661 \<le> hits (\<lambda>i. \<not> dark i) 0 jj"
        using hits_split [of 0 661 jj "\<lambda>i. \<not> dark i"] True by simp
      then show ?thesis using True Suc.prems by (simp add: hits_not)
    next
      case False
      have "hits (\<lambda>i. \<not> dark i) 0 (Suc jj) \<le> hits (\<lambda>i. \<not> dark i) 0 661"
        using hits_split [of 0 "Suc jj" 661 "\<lambda>i. \<not> dark i"] False by simp
      then show ?thesis using False tw c' by (simp add: hits_not)
    qed
    then show ?thesis unfolding u if_P [OF leave] using tw by linarith
  qed
qed

lemma rows_hits:
  "rows_from f limit m i 0 \<longleftrightarrow>
    (\<exists>r\<in>{i..<m}. luma f (720 * r + 300) \<le> limit \<and> hits (\<lambda>jj. luma f (720 * r + jj) \<le> limit) 0 719 \<ge> 715)"
proof (induction "m - i" arbitrary: i)
  case (Suc d)
  have IH: "rows_from f limit m (i + 1) 0 \<longleftrightarrow>
      (\<exists>r\<in>{i + 1..<m}. luma f (720 * r + 300) \<le> limit \<and> hits (\<lambda>jj. luma f (720 * r + jj) \<le> limit) 0 719 \<ge> 715)"
    using Suc by (intro Suc.hyps(1)) auto
  have lc: "line_count dark 719 715 0 0 \<ge> 715 \<longleftrightarrow> hits dark 0 719 \<ge> 715" for dark
    using line_count_hits [of 0 0 719 715 715 dark] by simp
  have r: "{i..<m} = insert i {i + 1..<m}" and lt: "i < m" using Suc.hyps by auto
  have u: "rows_from f limit m i 0 \<longleftrightarrow> luma f (720 * i + 300) \<le> limit \<and> hits (\<lambda>jj. luma f (720 * i + jj) \<le> limit) 0 719 \<ge> 715 \<or>
      rows_from f limit m (i + 1) 0"
    by (subst rows_from.simps) (simp only: lt lc if_True, auto)
  show ?case unfolding u IH r by (simp only: bex_simps)
qed (auto simp: rows_from.simps)

lemma edge_down_first:
  "edge_down f line m = (case List.find (\<lambda>l. \<not> bar_line f 0x30 l) [line..<m] of None \<Rightarrow> 0 | Some l \<Rightarrow> l)"
proof (induction "m - line" arbitrary: line)
  case (Suc d)
  have lt: "line < m" using Suc.hyps by simp
  have IH: "edge_down f (line + 1) m = (case List.find (\<lambda>l. \<not> bar_line f 0x30 l) [line + 1..<m] of None \<Rightarrow> 0 | Some l \<Rightarrow> l)"
    using Suc by (intro Suc.hyps(1)) auto
  show ?case using lt IH by (subst edge_down.simps) (simp add: upt_conv_Cons)
qed (simp add: edge_down.simps)

lemma column_hits:
  "d \<le> i \<Longrightarrow> d \<le> 330 \<Longrightarrow>
    column_from f j i d =
      (if d + hits (\<lambda>i. luma f (720 * i + j) \<le> 0x20) i 400 > 330
       then if VideoItselfBlackJudge f then Frame_Is_Black else Black_Column else Skip_Column)"
proof (induction "400 - i" arbitrary: i d)
  case (Suc m)
  define p where "p = (\<lambda>i. luma f (720 * i + j) \<le> 0x20)"
  have lt: "i < 400" using Suc.hyps by simp
  have le: "hits p (i + 1) 400 \<le> 399 - i" using hits_le [of p "i + 1" 400] by simp
  have u: "column_from f j i d =
      (if p i then if 400 - i + (d + 1) < 330 then Skip_Column
         else if d + 1 > 330 \<and> VideoItselfBlackJudge f then Frame_Is_Black
         else if d + 1 > 330 then Black_Column else column_from f j (i + 1) (d + 1)
       else column_from f j (i + 1) d)"
    by (subst column_from.simps) (simp only: lt p_def Let_def if_True)
  have IH: "d' \<le> i + 1 \<Longrightarrow> d' \<le> 330 \<Longrightarrow> column_from f j (i + 1) d' =
      (if d' + hits p (i + 1) 400 > 330 then if VideoItselfBlackJudge f then Frame_Is_Black else Black_Column else Skip_Column)" for d'
    unfolding p_def using Suc.hyps by (intro Suc.hyps(1)) auto
  show ?case unfolding p_def [symmetric] u hits_first [OF lt, of p]
    by (cases "p i"; cases "400 - i + (d + 1) < 330"; cases "d + 1 > 330") (use IH le lt Suc.prems in simp_all)
qed (simp add: column_from.simps)

lemma more_than_hits: "d \<le> n \<Longrightarrow> more_than n p ps d \<longleftrightarrow> d + length (filter p ps) > n"
  by (induction ps arbitrary: d) auto

section \<open>What the searches look for\<close>

text \<open>
  The first line is taken as black exactly when more than 710 of its first 719 pixels are at most as bright as the limit: the early exits
  do not change the answer.
\<close>

theorem first_line_black:
  "ToFindBlackLine f \<longleftrightarrow> hits (\<lambda>k. luma f k \<le> BCAR_BLACK_VALUE_UPERR_LIMIT) 0 719 > 710"
  by (simp add: ToFindBlackLine_def first_line_hits)

text \<open>
  The picture itself is taken as black exactly when more than 170 of the 340 pixels of the falling diagonal are black, or more than 280
  of both diagonals together.
\<close>

theorem picture_black:
  "VideoItselfBlackJudge f \<longleftrightarrow>
    (let falling = hits (\<lambda>j. luma f (720 * j + (j - 59)) \<le> 0x20) 60 400;
         rising = hits (\<lambda>j. luma f (720 * j + (741 - j)) \<le> 0x20) 61 401
     in falling > 170 \<or> falling + rising > 280)"
proof -
  obtain found c where d: "down_diagonal f 60 0 0 = (found, c)" by fastforce
  have "found \<longleftrightarrow> hits (\<lambda>j. luma f (720 * j + (j - 59)) \<le> 0x20) 60 400 > 170"
    "\<not> found \<Longrightarrow> c = hits (\<lambda>j. luma f (720 * j + (j - 59)) \<le> 0x20) 60 400"
    using down_hits [of 60 0 0 f] by (auto simp: d Let_def)
  then show ?thesis using up_hits [of 400 340 c f]
    by (cases found) (simp_all add: VideoItselfBlackJudge_def d Let_def)
qed

text \<open>
  A black line inside the picture is found exactly when there is one: a row from 9 on whose pixel in column 300 is black, as are at least
  715 of its first 719.  This needs the counter on the stack to be 0 before the search.
\<close>

theorem black_row_found:
  "RowsOfDataTraversingTheFrameToFindTheBlackLine 0 format f \<longleftrightarrow>
    (\<exists>r\<in>{9..<find_line format}. luma f (720 * r + 300) \<le> BCAR_BLACK_VALUE_UPERR_LIMIT \<and>
       hits (\<lambda>jj. luma f (720 * r + jj) \<le> BCAR_BLACK_VALUE_UPERR_LIMIT) 0 719 \<ge> 715)"
  by (simp only: RowsOfDataTraversingTheFrameToFindTheBlackLine_def rows_hits)

text \<open>
  The edge of a picture with black bars, looked for from the top, is the first line that is not dark in column 300 or has twelve bright
  pixels among its first 661: the code means 650 of 700 pixels, but leaves the count at the twelfth bright one.
\<close>

theorem edge_of_picture:
  "LookingForABlackCriticalLine f star len True =
    (case List.find (\<lambda>line. luma f (line * 720 + 300) > 0x43 \<or> hits (\<lambda>jj. luma f (720 * line + jj) > 0x30) 0 661 \<ge> 12)
       [star..<star + len] of None \<Rightarrow> 0 | Some line \<Rightarrow> line)"
proof -
  have "bar_line f 0x30 line \<longleftrightarrow>
      \<not> (luma f (line * 720 + 300) > 0x43 \<or> hits (\<lambda>jj. luma f (720 * line + jj) > 0x30) 0 661 \<ge> 12)" for line
    using line_count_edge [of 0 0 "\<lambda>jj. luma f (720 * line + jj) \<le> 0x30"] unfolding bar_line_def
    by (auto simp: not_le)
  then show ?thesis by (simp add: LookingForABlackCriticalLine_def edge_down_first)
qed


section \<open>How far the searches read\<close>

text \<open>Two frames are the same to a search that stays in the first \<open>n\<close> bytes of the brightness.\<close>

definition same_luma :: "nat \<Rightarrow> frame \<Rightarrow> frame \<Rightarrow> bool" where
  "same_luma n f g \<longleftrightarrow> (\<forall>k<n. luma f k = luma g k)"

lemma line_count_cong:
  "(\<And>i. i < n \<Longrightarrow> p i = q i) \<Longrightarrow> line_count p n need jj c = line_count q n need jj c"
proof (induction "n - jj" arbitrary: jj c)
  case (Suc m)
  have "line_count p n need (jj + 1) c = line_count q n need (jj + 1) c" for c using Suc by (intro Suc.hyps(1)) auto
  then show ?case using Suc.prems [of jj] by (subst (1 2) line_count.simps) (auto simp: Let_def)
qed (simp add: line_count.simps)

lemma rows_local:
  "same_luma (720 * m) f g \<Longrightarrow> rows_from f limit m i c = rows_from g limit m i c"
proof (induction "m - i" arbitrary: i c)
  case (Suc d)
  have lt: "i < m" using Suc.hyps by simp
  have IH: "rows_from f limit m (i + 1) c = rows_from g limit m (i + 1) c" for c using Suc by (intro Suc.hyps(1)) auto
  have px: "luma f (720 * i + k) = luma g (720 * i + k)" if "k < 720" for k
  proof -
    have "720 * i + k < 720 * (i + 1)" "720 * (i + 1) \<le> 720 * m" using that lt by auto
    then show ?thesis using Suc.prems unfolding same_luma_def by (metis order_less_le_trans)
  qed
  have "line_count (\<lambda>jj. luma f (720 * i + jj) \<le> limit) 719 715 0 c = line_count (\<lambda>jj. luma g (720 * i + jj) \<le> limit) 719 715 0 c"
    by (rule line_count_cong) (simp add: px)
  then show ?case using px [of 300] by (subst (1 2) rows_from.simps) (simp add: IH [simplified])
qed (simp add: rows_from.simps)

text \<open>
  The search for a black line reads only the rows of the format: 477 for NTSC, 562 for PAL, whatever is on the stack.
\<close>

theorem row_search_in_frame:
  assumes "same_luma (720 * find_line format) f g"
  shows "RowsOfDataTraversingTheFrameToFindTheBlackLine u format f = RowsOfDataTraversingTheFrameToFindTheBlackLine u format g"
  unfolding RowsOfDataTraversingTheFrameToFindTheBlackLine_def using assms by (rule rows_local)

text \<open>A frame with one black line, on which the theorems can be tried.\<close>

definition striped :: "nat \<Rightarrow> frame" where
  "striped row = \<lparr>buffer = (\<lambda>a. if 720 * row \<le> a \<and> a < 720 * row + 720 then 0x10 else 0x80), y_off = 0, cbcr_off = 720 * 480\<rparr>"

theorem row_search_in_frame_witness:
  "RowsOfDataTraversingTheFrameToFindTheBlackLine 7 (CHR ''1'') (striped 500) =
    RowsOfDataTraversingTheFrameToFindTheBlackLine 7 (CHR ''1'') (striped 600)"
  by (rule row_search_in_frame) (simp add: same_luma_def striped_def luma_def find_line_def)

text \<open>
  With garbage on the stack a line is reported that is not there: one dark pixel in column 300 is enough.
\<close>

theorem garbage_reports_line:
  assumes "luma f (720 * 9 + 300) \<le> BCAR_BLACK_VALUE_UPERR_LIMIT" "1434 \<le> u" "u < 2 ^ 31"
  shows "RowsOfDataTraversingTheFrameToFindTheBlackLine u format f"
proof -
  have big: "line_count dark 719 715 jj c \<ge> 715" if "715 \<le> c" "c + (719 - jj) < 2 ^ 32 - 719" for dark jj c
    using that
  proof (induction "719 - jj" arbitrary: jj c)
    case (Suc m)
    have lt: "jj < 719" using Suc.hyps by simp
    define c' where "c' = (if dark jj then (c + 1) mod 2 ^ 32 else c)"
    have c': "715 \<le> c'" "c' \<le> c + 1" using Suc.prems by (auto simp: c'_def)
    have m: "(719 - jj + c') mod 2 ^ 32 = 719 - jj + c'" using c' Suc.prems by simp
    have "715 \<le> line_count dark 719 715 (jj + 1) c'" using Suc.hyps Suc.prems c' lt by (intro Suc.hyps(1)) auto
    then show ?case using c'(1) Suc.prems(1) unfolding line_count.simps [of dark 719 715 jj c] c'_def [symmetric] Let_def m by (simp add: lt)
  qed (simp add: line_count.simps)
  have "9 < find_line format" by (simp add: find_line_def)
  moreover have "715 \<le> line_count (\<lambda>jj. luma f (720 * 9 + jj) \<le> BCAR_BLACK_VALUE_UPERR_LIMIT) 719 715 0 u"
    using assms(2,3) by (intro big) auto
  ultimately show ?thesis using assms(1) unfolding RowsOfDataTraversingTheFrameToFindTheBlackLine_def
    by (subst rows_from.simps) simp
qed

theorem garbage_reports_line_witness:
  "RowsOfDataTraversingTheFrameToFindTheBlackLine 2000 (CHR ''1'')
     \<lparr>buffer = (\<lambda>a. if a = 6780 then 0 else 0x80), y_off = 0, cbcr_off = 0\<rparr>"
  by (rule garbage_reports_line) (simp_all add: luma_def BCAR_BLACK_VALUE_UPERR_LIMIT_def)

section \<open>What is written into the frame\<close>

text \<open>
  On the AUX channel with an NTSC picture the writes reach beyond the 240 lines of colour that a picture of 480 lines has: the 720
  bytes behind them are overwritten.
\<close>

theorem aux_lines_overrun:
  assumes "format \<noteq> CHR ''4''" "format \<noteq> CHR ''2''" "a < 720" "y_off f + 720 * 480 \<le> cbcr_off f"
  shows "chroma (FlyCameraAuxBlackLine (CHR ''2'') format f) (720 * 240 + a) = 0x80"
  using assms by (simp add: FlyCameraAuxBlackLine_def Let_def memset_def chroma_def)

theorem aux_lines_overrun_witness:
  "chroma (FlyCameraAuxBlackLine (CHR ''2'') (CHR ''3'') (striped 5)) (720 * 240 + 719) = 0x80"
  by (rule aux_lines_overrun) (simp_all add: striped_def)

end
