(* ===== verification/Fly_Camera.thy ===== *)
theory Fly_Camera
  imports Fly_Frame Video_Config
begin

text \<open>
  The video of the head unit as the camera library shows it, \<^verbatim>\<open>hal/8x25q_camera/FlyCamera.cpp\<close> with \<open>processPreviewFrame\<close> of
  \<^verbatim>\<open>QCameraHWI_Preview.cpp\<close>: the picture of the reversing camera is moved down until its first line is black, pictures that the
  capture unit has put together wrongly are found and the preview is started again, and frames without a stable signal are not shown.

  The library talks to the decoder through the node of the video driver, \<open>Video_Config\<close>; its three calls are the record \<open>config_node\<close>.
  The variables of the file are the record \<open>fly\<close>.  Of the strings that hold a property only the first character is used.  The counters are
  numbers without a bound, as \<open>counters_bounded\<close> shows that they stay far below one; the counter of all frames, an \<open>int\<close>, wraps.  The frames per second are a quotient of \<open>float\<close>s;
  the rounding \<open>single\<close> is a parameter.  A thread that restarts the preview is counted in \<open>restarts\<close> when it is asked for, and its body is an
  operation of its own; it calls the vendor's \<open>stopPreview\<close> and \<open>startPreview\<close>, which are recorded.
\<close>

record 'v config_node =
  node_read :: "nat \<Rightarrow> 'v \<Rightarrow> fault + (byte list \<times> 'v)"
  node_write :: "byte list \<Rightarrow> 'v \<Rightarrow> fault + 'v"
  node_ioctl :: "nat \<Rightarrow> 'v \<Rightarrow> fault + (int \<times> 'v)"

definition kernel_node :: "'d video_port \<Rightarrow> byte \<Rightarrow> 'd video config_node" where
  "kernel_node port u =
     \<lparr>node_read = tw9912_node_read port u, node_write = tw9912_node_write port u, node_ioctl = tw9912_node_ioctl port u\<rparr>"

section \<open>The variables\<close>

record SplitScreenInfo =
  BlackCoordinateX :: nat
  BlackFreamCount :: nat
  ThisIsFirstFind :: bool
  BegingFindBlackFreamCount :: nat

datatype preview_call = StopPreview | StartPreview

record 'v fly =
  video_channel_status :: char
  video_format :: char
  video_show_status :: char
  FlyCameraflymFps :: rat
  black_line_is_ok :: bool
  the_frame :: frame
  open_dev_fail_count :: nat
  global_fram_at_one_sec_count :: nat
  Longitudinal_last_fream_count :: nat
  LongitudinalInformationRemember :: SplitScreenInfo
  global_need_rePreview :: bool
  DetermineImageSplitScreen_do_not_or_yes :: bool
  global_fram_count :: nat
  Astern_last_time :: int
  globao_mFlyPreviewStatus :: bool
  rePreview_count :: nat
  global_Fream_is_first :: bool
  flymFrameCount :: int
  flymLastFrameCount :: int
  flymLastFpsTime :: int
  flynow :: int
  flydiff :: int
  global_tw9912_file_fd :: int
  global_fream_give_up :: int
  global_last_critical_point :: nat
  global_last_bottom_critical_point :: nat
  global_count_critical_point :: nat
  global_count_critical_point_1 :: nat
  frame_index :: nat
  restarts :: nat
  preview_calls :: "preview_call list"
  node_state :: 'v

definition split_start :: SplitScreenInfo where
  "split_start = \<lparr>BlackCoordinateX = 300, BlackFreamCount = 0, ThisIsFirstFind = True, BegingFindBlackFreamCount = 0\<rparr>"

definition no_frame :: frame where
  "no_frame = \<lparr>buffer = (\<lambda>_. 0), y_off = 0, cbcr_off = 0\<rparr>"

definition fly_start :: "'v \<Rightarrow> 'v fly" where
  "fly_start v =
     \<lparr>video_channel_status = CHR ''0'', video_format = CHR ''1'', video_show_status = CHR ''0'', FlyCameraflymFps = 0,
      black_line_is_ok = False, the_frame = no_frame, open_dev_fail_count = 0, global_fram_at_one_sec_count = 0,
      Longitudinal_last_fream_count = 9, LongitudinalInformationRemember = split_start, global_need_rePreview = False,
      DetermineImageSplitScreen_do_not_or_yes = True, global_fram_count = 0, Astern_last_time = 0, globao_mFlyPreviewStatus = False,
      rePreview_count = 0, global_Fream_is_first = True, flymFrameCount = 0, flymLastFrameCount = 0, flymLastFpsTime = 0, flynow = 0,
      flydiff = 0, global_tw9912_file_fd = 0, global_fream_give_up = 0, global_last_critical_point = 50,
      global_last_bottom_critical_point = 435, global_count_critical_point = 0, global_count_critical_point_1 = 0, frame_index = 0,
      restarts = 0, preview_calls = [], node_state = v\<rparr>"

definition set_split :: "(SplitScreenInfo \<Rightarrow> SplitScreenInfo) \<Rightarrow> 'v fly \<Rightarrow> 'v fly" where
  "set_split g s = s\<lparr>LongitudinalInformationRemember := g (LongitudinalInformationRemember s)\<rparr>"

section \<open>The node\<close>

text \<open>
  The calls through \<open>global_tw9912_file_fd\<close>, which is 0 before the first \<open>open\<close> and -1 after a failed one.  Neither reaches the
  driver: nothing is read or written, and \<open>ioctl\<close> fails.  A \<open>read\<close> overwrites the front of its buffer.
\<close>

definition fd_read :: "'v config_node \<Rightarrow> byte list \<Rightarrow> 'v fly \<Rightarrow> fault + (byte list \<times> 'v fly)" where
  "fd_read N stack s =
     (if global_tw9912_file_fd s \<le> 0 then Inr (stack, s)
      else bindE (node_read N (length stack) (node_state s))
             (\<lambda>(data, v). Inr (data @ drop (length data) stack, s\<lparr>node_state := v\<rparr>)))"

definition fd_write :: "'v config_node \<Rightarrow> byte list \<Rightarrow> 'v fly \<Rightarrow> fault + 'v fly" where
  "fd_write N data s =
     (if global_tw9912_file_fd s \<le> 0 then Inr s
      else bindE (node_write N data (node_state s)) (\<lambda>v. Inr (s\<lparr>node_state := v\<rparr>)))"

definition fd_ioctl :: "'v config_node \<Rightarrow> nat \<Rightarrow> 'v fly \<Rightarrow> fault + (int \<times> 'v fly)" where
  "fd_ioctl N cmd s =
     (if global_tw9912_file_fd s \<le> 0 then Inr (- 1, s)
      else bindE (node_ioctl N cmd (node_state s)) (\<lambda>(r, v). Inr (r, s\<lparr>node_state := v\<rparr>)))"

text \<open>\<open>TW9912Info\<close> is the structure of the driver; it is on the stack, as is what it holds before the \<open>read\<close>.\<close>

definition read_info :: "'v config_node \<Rightarrow> tw9912info_t \<Rightarrow> 'v fly \<Rightarrow> fault + (tw9912info_t \<times> 'v fly)" where
  "read_info N stack s = bindE (fd_read N (info_bytes stack) s) (\<lambda>(data, s1). Inr (bytes_info data, s1))"

definition write_info :: "'v config_node \<Rightarrow> tw9912info_t \<Rightarrow> 'v fly \<Rightarrow> fault + 'v fly" where
  "write_info N i s = fd_write N (info_bytes i) s"

section \<open>Start, stop and release\<close>

text \<open>\<open>opened\<close> is the result of \<open>open\<close>, should it be called, and \<open>channel\<close> the property \<^verbatim>\<open>fly.video.channel.status\<close>.\<close>

definition FlyCameraStar :: "'v config_node \<Rightarrow> tw9912info_t \<Rightarrow> int \<Rightarrow> char \<Rightarrow> 'v fly \<Rightarrow> fault + 'v fly" where
  "FlyCameraStar N stack opened channel s =
     (let fd = global_tw9912_file_fd s;
          s1 = s\<lparr>globao_mFlyPreviewStatus := True, global_fream_give_up := 0,
                 global_tw9912_file_fd := (if fd = 0 \<or> fd = - 1 then opened else fd), video_channel_status := channel\<rparr>
      in if channel = CHR ''3'' \<and> \<not> DetermineImageSplitScreen_do_not_or_yes s1 then
           bindE (read_info N stack (s1\<lparr>black_line_is_ok := False\<rparr>)) (\<lambda>(i, s2).
             write_info N (i\<lparr>tw_sta := 0, tw_flag := 1, tw_reg := 0x08, tw_reg_val := 0x17\<rparr>) s2)
         else Inr s1)"

definition FlyCameraStop :: "'v fly \<Rightarrow> 'v fly" where
  "FlyCameraStop s =
     (set_split (\<lambda>l. l\<lparr>ThisIsFirstFind := True, BegingFindBlackFreamCount := 0\<rparr>) s)
       \<lparr>rePreview_count := 0, black_line_is_ok := False, open_dev_fail_count := 0, global_fram_at_one_sec_count := 0,
        DetermineImageSplitScreen_do_not_or_yes := True, globao_mFlyPreviewStatus := False, global_Fream_is_first := True\<rparr>"

definition FlyCameraRelease :: "'v fly \<Rightarrow> 'v fly" where
  "FlyCameraRelease s = s\<lparr>Longitudinal_last_fream_count := 9\<rparr>"

text \<open>Asking for a restart of the preview, unless one is under way, and the thread that does it.\<close>

definition ask_restart :: "'v fly \<Rightarrow> 'v fly" where
  "ask_restart s = (if global_need_rePreview s then s else s\<lparr>global_need_rePreview := True, restarts := restarts s + 1\<rparr>)"

definition CameraRestartPreviewThread :: "'v fly \<Rightarrow> 'v fly" where
  "CameraRestartPreviewThread s =
     (let s1 = (if globao_mFlyPreviewStatus s then s\<lparr>preview_calls := preview_calls s @ [StopPreview, StartPreview]\<rparr> else s)
      in (set_split (\<lambda>l. l\<lparr>ThisIsFirstFind := True\<rparr>) s1)\<lparr>global_need_rePreview := False\<rparr>)"

section \<open>What comes with a frame\<close>

text \<open>The three properties, the time, the mode of the display, and the stack: the counter of the row search, a structure and a byte.\<close>

record input =
  in_frame :: frame
  in_show :: char
  in_channel :: char
  in_format :: char
  in_time :: int
  in_no_display :: bool
  in_count :: nat
  in_stack :: tw9912info_t
  in_byte :: byte

definition FlyCameraGetInfo :: "(rat \<Rightarrow> rat) \<Rightarrow> input \<Rightarrow> 'v fly \<Rightarrow> 'v fly" where
  "FlyCameraGetInfo single i s =
     (let count = wrap32 (flymFrameCount s + 1);
          diff = in_time i - flymLastFpsTime s;
          s1 = s\<lparr>video_show_status := in_show i, video_channel_status := in_channel i, video_format := in_format i,
                 the_frame := in_frame i, flymFrameCount := count, flynow := in_time i, flydiff := diff\<rparr>
      in if diff > 250000000 then
           s1\<lparr>FlyCameraflymFps :=
                 single (single (single (of_int (wrap32 (count - flymLastFrameCount s))) * single 1000000000) / single (of_int diff)),
              flymLastFpsTime := in_time i, flymLastFrameCount := count\<rparr>
         else s1)"

definition FlyCameraNotSignalAtLastTime :: "'v config_node \<Rightarrow> 'v fly \<Rightarrow> fault + 'v fly" where
  "FlyCameraNotSignalAtLastTime N s =
     (if video_show_status s = CHR ''0'' \<and> rePreview_count s > 20 then
        bindE (fd_ioctl N 2 s) (\<lambda>(_, s1). Inr ((ask_restart s1)\<lparr>rePreview_count := 0\<rparr>))
      else if video_show_status s = CHR ''0'' then
        Inr (s\<lparr>rePreview_count := (if rePreview_count s + 1 > 10000 then 21 else rePreview_count s + 1)\<rparr>)
      else Inr s)"

section \<open>Moving the picture down\<close>

text \<open>The result tells whether the frame is given up.\<close>

definition ToFindBlackLineAndSetTheTw9912VerticalDelayRegister ::
  "'v config_node \<Rightarrow> tw9912info_t \<Rightarrow> 'v fly \<Rightarrow> fault + (bool \<times> 'v fly)" where
  "ToFindBlackLineAndSetTheTw9912VerticalDelayRegister N stack s =
     (if global_tw9912_file_fd s = - 1 then
        if open_dev_fail_count s = 0 then
          Inr (False, s\<lparr>DetermineImageSplitScreen_do_not_or_yes := False, open_dev_fail_count := open_dev_fail_count s + 1\<rparr>)
        else if open_dev_fail_count s > 60 then
          Inr (False, s\<lparr>open_dev_fail_count := 1, DetermineImageSplitScreen_do_not_or_yes := False\<rparr>)
        else Inr (False, s\<lparr>open_dev_fail_count := open_dev_fail_count s + 1\<rparr>)
      else
        bindE (read_info N stack s) (\<lambda>(i, s1).
          if tw_flag i = 1 then
            if ToFindBlackLine (the_frame s1) then
              bindE (write_info N (i\<lparr>tw_sta := 1, tw_flag := 0\<rparr>) s1) (\<lambda>s2.
                Inr (False, s2\<lparr>black_line_is_ok := True, DetermineImageSplitScreen_do_not_or_yes := True\<rparr>))
            else if tw_reg_val i > 0x10 \<and> tw_reg_val i \<le> 0x17 then
              bindE (write_info N (i\<lparr>tw_reg := 0x08, tw_reg_val := tw_reg_val i - 1\<rparr>) s1) (\<lambda>s2. Inr (True, s2))
            else Inr (True, s1\<lparr>black_line_is_ok := True, DetermineImageSplitScreen_do_not_or_yes := False\<rparr>)
          else Inr (False, s1\<lparr>black_line_is_ok := True\<rparr>)))"

definition FlyCameraImageDownFindBlackLine :: "'v config_node \<Rightarrow> tw9912info_t \<Rightarrow> 'v fly \<Rightarrow> fault + (bool \<times> 'v fly)" where
  "FlyCameraImageDownFindBlackLine N stack s =
     (if video_channel_status s = CHR ''3'' \<and> \<not> black_line_is_ok s
      then ToFindBlackLineAndSetTheTw9912VerticalDelayRegister N stack s else Inr (False, s))"

definition FlyCameraThisIsFirstOpenAtDVD :: "'v config_node \<Rightarrow> tw9912info_t \<Rightarrow> 'v fly \<Rightarrow> fault + 'v fly" where
  "FlyCameraThisIsFirstOpenAtDVD N stack s =
     (if video_channel_status s = CHR ''1'' \<and> global_Fream_is_first s then
        bindE
          (if global_tw9912_file_fd s = - 1 then Inr s
           else bindE (read_info N stack s) (\<lambda>(i, s1). write_info N (i\<lparr>tw_this_is_first_open := 0\<rparr>) (ask_restart s1)))
          (\<lambda>s2. Inr (s2\<lparr>global_Fream_is_first := False\<rparr>))
      else Inr s)"

section \<open>A black column in the picture\<close>

text \<open>
  What is done for a black column \<open>j\<close>.  The two copies in the code differ in one point: when the column was known, the mark of a restart is taken
  back at once.  The counter of frames is looked at for being over 250, as in the code; \<open>counters_bounded\<close> shows that it never is.
\<close>

definition column_hit :: "bool \<Rightarrow> nat \<Rightarrow> 'v fly \<Rightarrow> bool \<times> 'v fly" where
  "column_hit known j s =
     (let s1 = s\<lparr>Longitudinal_last_fream_count := 0\<rparr>;
          s2 = (if ThisIsFirstFind (LongitudinalInformationRemember s1)
                then set_split (\<lambda>l. l\<lparr>ThisIsFirstFind := False, BlackCoordinateX := j, BlackFreamCount := 1\<rparr>) s1
                else set_split (\<lambda>l. l\<lparr>BlackFreamCount := BlackFreamCount l + 1\<rparr>) s1);
          s3 = (if BlackFreamCount (LongitudinalInformationRemember s2) > 250
                then (set_split (\<lambda>l. l\<lparr>ThisIsFirstFind := True\<rparr>) s2)\<lparr>global_need_rePreview := False\<rparr> else s2)
      in if \<not> global_need_rePreview s3 \<and> BlackFreamCount (LongitudinalInformationRemember s3) \<ge> 5 then
           (True, (set_split (\<lambda>l. l\<lparr>BlackFreamCount := 0, ThisIsFirstFind := True, BegingFindBlackFreamCount := 0\<rparr>) s3)
              \<lparr>global_need_rePreview := \<not> known, restarts := restarts s3 + 1\<rparr>)
         else (False, s3))"

text \<open>The start of a check: the pause after a hit, and the six checks within which five hits are to be counted.\<close>

definition longitudinal_pause :: "'v fly \<Rightarrow> 'v fly" where
  "longitudinal_pause s =
     (let n = Longitudinal_last_fream_count s + 1 in s\<lparr>Longitudinal_last_fream_count := (if n > 0xfffe then 9 else n)\<rparr>)"

definition longitudinal_window :: "'v fly \<Rightarrow> 'v fly" where
  "longitudinal_window s =
     (if ThisIsFirstFind (LongitudinalInformationRemember s) then s
      else let s1 = set_split (\<lambda>l. l\<lparr>BegingFindBlackFreamCount := BegingFindBlackFreamCount l + 1\<rparr>) s;
               l = LongitudinalInformationRemember s1
           in if BegingFindBlackFreamCount l > 6 \<or> 6 - BegingFindBlackFreamCount l + BlackFreamCount l < 5
              then set_split (\<lambda>l. l\<lparr>BegingFindBlackFreamCount := 0, ThisIsFirstFind := True\<rparr>) s1 else s1)"

definition DetermineImageSplitScreen_Longitudinal :: "'v fly \<Rightarrow> bool \<times> 'v fly" where
  "DetermineImageSplitScreen_Longitudinal s =
     (let s1 = longitudinal_pause s in
      if Longitudinal_last_fream_count s1 < 4 then (False, s1)
      else
        let s2 = longitudinal_window s1; f = the_frame s2; l = LongitudinalInformationRemember s2 in
        if \<not> ThisIsFirstFind l then
          if column_from f (BlackCoordinateX l) 60 0 = Black_Column then column_hit True (BlackCoordinateX l) s2 else (False, s2)
        else
          (case first_column f of
             None \<Rightarrow> (False, s2)
           | Some j \<Rightarrow> if column_from f j 60 0 = Black_Column then column_hit False j s2 else (False, s2)))"


section \<open>Bars above and below the picture\<close>

text \<open>A picture from a disc of the format 16:9; the result is not used by the caller.\<close>

definition far :: "nat \<Rightarrow> nat \<Rightarrow> nat" where
  "far a b = (if a > b then a - b else b - a)"

definition DetermineImageSplitScreenDVD_16_9_Vedio :: "'v fly \<Rightarrow> bool \<times> 'v fly" where
  "DetermineImageSplitScreenDVD_16_9_Vedio s =
     (if video_channel_status s \<noteq> CHR ''1'' then (False, s)
      else
        let f = the_frame s; top = LookingForABlackCriticalLine f 0 300 True in
        if top = 0 then (False, s)
        else if top < 10 then
          let s1 = s\<lparr>global_count_critical_point_1 := 0\<rparr> in
          if LookingForABlackCriticalLine f 479 70 False < 420 then
            if global_count_critical_point s1 + 1 > 15 then (False, ask_restart (s1\<lparr>global_count_critical_point := 0\<rparr>))
            else (False, s1\<lparr>global_count_critical_point := global_count_critical_point s1 + 1\<rparr>)
          else (False, s1)
        else if top \<noteq> global_last_critical_point s then
          let s1 = s\<lparr>global_count_critical_point := 0\<rparr> in
          if far top (global_last_critical_point s) > 8 then
            if global_count_critical_point_1 s1 + 1 > 15 then
              (True, ask_restart (s1\<lparr>global_count_critical_point_1 := 0, global_last_critical_point := top,
                 global_last_bottom_critical_point := LookingForABlackCriticalLine f 479 80 False\<rparr>))
            else (False, s1\<lparr>global_count_critical_point_1 := global_count_critical_point_1 s1 + 1\<rparr>)
          else (False, s1)
        else (False, s))"

section \<open>Is the picture put together wrongly?\<close>

text \<open>
  A frame whose first line is out of range is counted; after more than 50 of them the mark of a restart is taken back.  The search for a black
  line decides.  On the reversing camera there are at least 2.5 seconds between two searches.
\<close>

definition odd_frame_counted :: "'v fly \<Rightarrow> 'v fly" where
  "odd_frame_counted s =
     (if global_fram_count s + 1 > 50 then s\<lparr>global_need_rePreview := False, global_fram_count := 0\<rparr>
      else s\<lparr>global_fram_count := global_fram_count s + 1\<rparr>)"

definition split_restart :: "'v fly \<Rightarrow> 'v fly" where
  "split_restart s = s\<lparr>global_fram_count := 0, global_need_rePreview := True, restarts := restarts s + 1\<rparr>"

definition odd_frame_astern :: "nat \<Rightarrow> 'v fly \<Rightarrow> bool \<times> 'v fly" where
  "odd_frame_astern u s =
     (let s1 = odd_frame_counted s in
      if \<not> global_need_rePreview s1 \<and> flynow s1 - Astern_last_time s1 > 2500000000 then
        let s2 = s1\<lparr>Astern_last_time := flynow s1\<rparr> in
        if global_fram_count s2 \<ge> 1 \<and> RowsOfDataTraversingTheFrameToFindTheBlackLine u (video_format s2) (the_frame s2)
        then (True, split_restart s2) else (False, s2)
      else (False, s1))"

definition odd_frame_other :: "nat \<Rightarrow> 'v fly \<Rightarrow> bool \<times> 'v fly" where
  "odd_frame_other u s =
     (let s1 = odd_frame_counted s in
      if \<not> global_need_rePreview s1 \<and> global_fram_count s1 \<ge> 1 \<and>
         RowsOfDataTraversingTheFrameToFindTheBlackLineForDVDorAUX u (video_format s1) (the_frame s1)
      then (True, split_restart s1) else (False, s1))"

definition DetermineImageSplitScreen :: "nat \<Rightarrow> 'v fly \<Rightarrow> bool \<times> 'v fly" where
  "DetermineImageSplitScreen u s =
     (if FlyCameraflymFps s < 24 then (False, s)
      else if global_fram_at_one_sec_count s + 1 < 10
      then (False, s\<lparr>global_fram_at_one_sec_count := global_fram_at_one_sec_count s + 1\<rparr>)
      else
        let (split, s1) = DetermineImageSplitScreen_Longitudinal (s\<lparr>global_fram_at_one_sec_count := 0\<rparr>);
            astern = (video_channel_status s1 = CHR ''3'')
        in if split then (True, s1)
           else if astern \<and> \<not> DetermineImageSplitScreen_do_not_or_yes s1 then (False, s1)
           else
             let (split2, s2) =
                   (if astern then if astern_line_odd (the_frame s1) then odd_frame_astern u s1 else (False, s1)
                    else if colour_line_odd (the_frame s1) then odd_frame_other u s1 else (False, s1))
             in if split2 then (True, s2) else (False, snd (DetermineImageSplitScreenDVD_16_9_Vedio s2)))"

section \<open>Is a frame shown?\<close>

text \<open>The status of the decoder; the result tells whether the frame is given up.  \<open>stack\<close> is the byte before the \<open>read\<close>.\<close>

definition FlyCameraReadTw9912StatusRegitsterValue :: "'v config_node \<Rightarrow> byte \<Rightarrow> 'v fly \<Rightarrow> fault + (bool \<times> 'v fly)" where
  "FlyCameraReadTw9912StatusRegitsterValue N stack s =
     (if global_tw9912_file_fd s = - 1 then Inr (False, s)
      else
        bindE (fd_ioctl N 1 s) (\<lambda>(r, s1).
          if r < 0 then Inr (False, s1)
          else
            bindE (fd_read N [stack] s1) (\<lambda>(data, s2).
              if data ! 0 AND 0x68 \<noteq> 0x68 then
                if global_fream_give_up s2 < 10 then Inr (True, s2) else Inr (False, s2\<lparr>global_fream_give_up := 0\<rparr>)
              else Inr (False, s2))))"

definition aux_black_line :: "'v fly \<Rightarrow> 'v fly" where
  "aux_black_line s = s\<lparr>the_frame := FlyCameraAuxBlackLine (video_channel_status s) (video_format s) (the_frame s)\<rparr>"

definition FlyCameraFrameDisplayOrOutDisplay :: "'v config_node \<Rightarrow> nat \<Rightarrow> byte \<Rightarrow> 'v fly \<Rightarrow> fault + (bool \<times> 'v fly)" where
  "FlyCameraFrameDisplayOrOutDisplay N u stack s =
     bindE (if video_channel_status s \<noteq> CHR ''1'' then FlyCameraReadTw9912StatusRegitsterValue N stack s else Inr (False, s))
       (\<lambda>(bad, s1).
          if bad then Inr (True, s1)
          else
            let (split, s2) = DetermineImageSplitScreen u s1 in
            Inr (split, if video_channel_status s2 \<noteq> CHR ''3'' then aux_black_line s2 else s2))"

text \<open>
  \<open>processPreviewFrame\<close>: the result tells whether the frame is shown.  At a high rate every other frame is left out.  The two functions it
  ends in are the vendor's.
\<close>

definition processPreviewFrame :: "(rat \<Rightarrow> rat) \<Rightarrow> 'v config_node \<Rightarrow> input \<Rightarrow> 'v fly \<Rightarrow> fault + (bool \<times> 'v fly)" where
  "processPreviewFrame single N i s =
     bindE (FlyCameraNotSignalAtLastTime N (FlyCameraGetInfo single i s)) (\<lambda>s1.
     bindE (FlyCameraImageDownFindBlackLine N (in_stack i) s1) (\<lambda>(give_up, s2).
       if give_up then Inr (False, s2)
       else
         bindE (FlyCameraThisIsFirstOpenAtDVD N (in_stack i) s2) (\<lambda>s3.
           let limit = (if video_channel_status s1 = CHR ''1'' then 60 else 40);
               look = (\<lambda>s. bindE (FlyCameraFrameDisplayOrOutDisplay N (in_count i) (in_byte i) s) (\<lambda>(out, s'). Inr (\<not> out, s')))
           in if in_no_display i then Inr (False, s3)
              else if FlyCameraflymFps s3 > limit then
                if frame_index s3 = 0 then look (s3\<lparr>frame_index := 1\<rparr>) else Inr (False, s3\<lparr>frame_index := 0\<rparr>)
              else look s3)))"

section \<open>Histories\<close>

text \<open>What happens to the library: the stream is started, stopped and released, frames arrive, and the thread that restarts runs.\<close>

datatype fly_op =
    Star tw9912info_t int char
  | Stop
  | Release
  | Frame input
  | Restart_Thread

fun fly_step :: "(rat \<Rightarrow> rat) \<Rightarrow> 'v config_node \<Rightarrow> fly_op \<Rightarrow> 'v fly \<Rightarrow> fault + 'v fly" where
  "fly_step single N (Star stack opened channel) s = FlyCameraStar N stack opened channel s"
| "fly_step single N Stop s = Inr (FlyCameraStop s)"
| "fly_step single N Release s = Inr (FlyCameraRelease s)"
| "fly_step single N (Frame i) s = bindE (processPreviewFrame single N i s) (\<lambda>(_, s'). Inr s')"
| "fly_step single N Restart_Thread s = Inr (CameraRestartPreviewThread s)"


section \<open>Counters\<close>

text \<open>
  The bounds of the counters.  While a column is remembered, it has been hit at most once more than it has been checked.
  The counter of frames given up is never anything but 0, and \<open>c\<close> frames have arrived.
\<close>

definition split_ok :: "SplitScreenInfo \<Rightarrow> bool" where
  "split_ok l \<longleftrightarrow> BegingFindBlackFreamCount l \<le> 6 \<and> BlackFreamCount l \<le> 7 \<and>
     (\<not> ThisIsFirstFind l \<longrightarrow> BlackFreamCount l \<le> BegingFindBlackFreamCount l + 1)"

definition frames :: "fly_op list \<Rightarrow> nat" where
  "frames ops = length (filter (\<lambda>op. case op of Frame _ \<Rightarrow> True | _ \<Rightarrow> False) ops)"

definition counters_ok :: "int \<Rightarrow> 'v fly \<Rightarrow> bool" where
  "counters_ok c s \<longleftrightarrow>
     open_dev_fail_count s \<le> 61 \<and> global_fram_at_one_sec_count s < 10 \<and> Longitudinal_last_fream_count s \<le> 0xfffe \<and>
     rePreview_count s \<le> 21 \<and> global_fram_count s \<le> 50 \<and> global_count_critical_point s \<le> 15 \<and>
     global_count_critical_point_1 s \<le> 15 \<and> global_fream_give_up s = 0 \<and> flymFrameCount s = wrap32 c \<and> split_ok (LongitudinalInformationRemember s)"

text \<open>The library keeps the bounds; so does a step that may end in a fault.\<close>

definition keeps :: "int \<Rightarrow> fault + 'v fly \<Rightarrow> bool" where
  "keeps c r \<longleftrightarrow> (\<forall>s. r = Inr s \<longrightarrow> counters_ok c s)"

definition keeps2 :: "int \<Rightarrow> fault + ('a \<times> 'v fly) \<Rightarrow> bool" where
  "keeps2 c r \<longleftrightarrow> (\<forall>a s. r = Inr (a, s) \<longrightarrow> counters_ok c s)"

lemma keeps_simps [simp]: "keeps c (Inr s) = counters_ok c s" "keeps c (Inl e)" "keeps2 c (Inr (a, s)) = counters_ok c s" "keeps2 c (Inl e)"
  by (simp_all add: keeps_def keeps2_def)

lemma keeps_bind:
  "keeps c r \<Longrightarrow> (\<And>s. counters_ok c s \<Longrightarrow> keeps c (f s)) \<Longrightarrow> keeps c (bindE r f)"
  "keeps c r \<Longrightarrow> (\<And>s. counters_ok c s \<Longrightarrow> keeps2 c (f2 s)) \<Longrightarrow> keeps2 c (bindE r f2)"
  "keeps2 c r2 \<Longrightarrow> (\<And>a s. counters_ok c s \<Longrightarrow> keeps c (g (a, s))) \<Longrightarrow> keeps c (bindE r2 g)"
  "keeps2 c r2 \<Longrightarrow> (\<And>a s. counters_ok c s \<Longrightarrow> keeps2 c (g2 (a, s))) \<Longrightarrow> keeps2 c (bindE r2 g2)"
  by (cases r; cases r2; force simp: keeps_def keeps2_def)+

text \<open>Fields that are not counters.\<close>

lemma counters_ok_other [simp]:
  "counters_ok c (s\<lparr>node_state := v\<rparr>) = counters_ok c s"
  "counters_ok c (s\<lparr>global_need_rePreview := b\<rparr>) = counters_ok c s"
  "counters_ok c (s\<lparr>restarts := n\<rparr>) = counters_ok c s"
  "counters_ok c (s\<lparr>black_line_is_ok := b\<rparr>) = counters_ok c s"
  "counters_ok c (s\<lparr>DetermineImageSplitScreen_do_not_or_yes := b\<rparr>) = counters_ok c s"
  "counters_ok c (s\<lparr>global_Fream_is_first := b\<rparr>) = counters_ok c s"
  "counters_ok c (s\<lparr>the_frame := f\<rparr>) = counters_ok c s"
  "counters_ok c (s\<lparr>frame_index := n\<rparr>) = counters_ok c s"
  "counters_ok c (s\<lparr>Astern_last_time := t\<rparr>) = counters_ok c s"
  "counters_ok c (s\<lparr>preview_calls := l\<rparr>) = counters_ok c s"
  "counters_ok c (s\<lparr>global_last_critical_point := n\<rparr>) = counters_ok c s"
  "counters_ok c (s\<lparr>global_last_bottom_critical_point := n\<rparr>) = counters_ok c s"
  by (simp_all add: counters_ok_def)

lemma fd_keeps [simp]:
  "counters_ok c s \<Longrightarrow> keeps2 c (fd_read N stack s)" "counters_ok c s \<Longrightarrow> keeps c (fd_write N data s)"
  "counters_ok c s \<Longrightarrow> keeps2 c (fd_ioctl N cmd s)"
  unfolding fd_read_def fd_write_def fd_ioctl_def
  by (cases "node_read N (length stack) (node_state s)"; cases "node_write N data (node_state s)";
      cases "node_ioctl N cmd (node_state s)"; auto)+

lemma info_keeps [simp]:
  "counters_ok c s \<Longrightarrow> keeps2 c (read_info N stack s)" "counters_ok c s \<Longrightarrow> keeps c (write_info N i s)"
  unfolding read_info_def write_info_def by (auto intro!: keeps_bind)

lemma ask_restart_ok [simp]: "counters_ok c (ask_restart s) = counters_ok c s"
  by (simp add: ask_restart_def)

lemma star_keeps: "counters_ok c s \<Longrightarrow> keeps c (FlyCameraStar N stack opened channel s)"
  unfolding FlyCameraStar_def Let_def by (auto intro!: keeps_bind info_keeps simp: counters_ok_def)

lemma stop_ok: "counters_ok c s \<Longrightarrow> counters_ok c (FlyCameraStop s)" "counters_ok c s \<Longrightarrow> counters_ok c (FlyCameraRelease s)"
  "counters_ok c s \<Longrightarrow> counters_ok c (CameraRestartPreviewThread s)"
  "counters_ok c s \<Longrightarrow> counters_ok (c + 1) (FlyCameraGetInfo single i s)"
  by (auto simp: FlyCameraStop_def FlyCameraRelease_def CameraRestartPreviewThread_def FlyCameraGetInfo_def Let_def counters_ok_def
        set_split_def split_ok_def wrap32_add)

lemma no_signal_keeps: "counters_ok c s \<Longrightarrow> keeps c (FlyCameraNotSignalAtLastTime N s)"
  unfolding FlyCameraNotSignalAtLastTime_def by (auto intro!: keeps_bind fd_keeps simp: counters_ok_def ask_restart_def)

lemma image_down_keeps: "counters_ok c s \<Longrightarrow> keeps2 c (FlyCameraImageDownFindBlackLine N stack s)"
  unfolding FlyCameraImageDownFindBlackLine_def ToFindBlackLineAndSetTheTw9912VerticalDelayRegister_def
  by (auto intro!: keeps_bind) (auto simp: counters_ok_def)

lemma first_open_keeps: "counters_ok c s \<Longrightarrow> keeps c (FlyCameraThisIsFirstOpenAtDVD N stack s)"
  unfolding FlyCameraThisIsFirstOpenAtDVD_def by (auto intro!: keeps_bind)

lemma status_keeps: "counters_ok c s \<Longrightarrow> keeps2 c (FlyCameraReadTw9912StatusRegitsterValue N stack s)"
  unfolding FlyCameraReadTw9912StatusRegitsterValue_def by (auto intro!: keeps_bind simp: counters_ok_def)

text \<open>After the window was advanced, a remembered column has not been hit more often than it has been checked.\<close>

definition window_advanced :: "SplitScreenInfo \<Rightarrow> bool" where
  "window_advanced l \<longleftrightarrow> (\<not> ThisIsFirstFind l \<longrightarrow> BlackFreamCount l \<le> BegingFindBlackFreamCount l)"

lemma column_hit_ok:
  "counters_ok c s \<Longrightarrow> window_advanced (LongitudinalInformationRemember s) \<Longrightarrow> counters_ok c (snd (column_hit known j s))"
  by (auto simp: column_hit_def Let_def counters_ok_def set_split_def split_ok_def window_advanced_def)

lemma window_ok: "counters_ok c s \<Longrightarrow> counters_ok c (longitudinal_window s)" "counters_ok c s \<Longrightarrow> counters_ok c (longitudinal_pause s)"
  "counters_ok c s \<Longrightarrow> window_advanced (LongitudinalInformationRemember (longitudinal_window s))"
  by (auto simp: longitudinal_window_def longitudinal_pause_def Let_def counters_ok_def set_split_def split_ok_def window_advanced_def)

lemma longitudinal_ok: "counters_ok c s \<Longrightarrow> counters_ok c (snd (DetermineImageSplitScreen_Longitudinal s))"
  unfolding DetermineImageSplitScreen_Longitudinal_def Let_def
  by (simp add: column_hit_ok window_ok(1,2) window_ok(3) [where c = c] split: option.split)

lemma odd_counted_ok: "counters_ok c s \<Longrightarrow> counters_ok c (odd_frame_counted s)" "counters_ok c s \<Longrightarrow> counters_ok c (split_restart s)"
  by (auto simp: odd_frame_counted_def split_restart_def counters_ok_def)

lemma odd_frame_ok: "counters_ok c s \<Longrightarrow> counters_ok c (snd (odd_frame_astern u s))" "counters_ok c s \<Longrightarrow> counters_ok c (snd (odd_frame_other u s))"
  by (simp_all add: odd_frame_astern_def odd_frame_other_def Let_def odd_counted_ok)

lemma dvd_ok: "counters_ok c s \<Longrightarrow> counters_ok c (snd (DetermineImageSplitScreenDVD_16_9_Vedio s))"
  by (simp add: DetermineImageSplitScreenDVD_16_9_Vedio_def Let_def) (simp add: counters_ok_def ask_restart_def)

lemma one_sec_ok: "counters_ok c s \<Longrightarrow> n < 10 \<Longrightarrow> counters_ok c (s\<lparr>global_fram_at_one_sec_count := n\<rparr>)"
  by (simp add: counters_ok_def)

lemma determine_ok: "counters_ok c s \<Longrightarrow> counters_ok c (snd (DetermineImageSplitScreen u s))"
  unfolding DetermineImageSplitScreen_def Let_def case_prod_beta
  by (simp add: one_sec_ok longitudinal_ok odd_frame_ok dvd_ok)

lemma display_keeps: "counters_ok c s \<Longrightarrow> keeps2 c (FlyCameraFrameDisplayOrOutDisplay N u stack s)"
  unfolding FlyCameraFrameDisplayOrOutDisplay_def Let_def case_prod_beta aux_black_line_def
  by (auto intro!: keeps_bind status_keeps simp: determine_ok)

lemma process_keeps: "counters_ok c s \<Longrightarrow> keeps2 (c + 1) (processPreviewFrame single N i s)"
  unfolding processPreviewFrame_def Let_def
  by (auto intro!: keeps_bind no_signal_keeps image_down_keeps first_open_keeps display_keeps simp: stop_ok)

lemma step_keeps: "counters_ok c s \<Longrightarrow> keeps (c + int (frames [op])) (fly_step single N op s)"
  by (cases op) (auto intro!: keeps_bind star_keeps process_keeps simp: stop_ok frames_def)

lemma steps_keep:
  "foldE (fly_step single N) ops s = Inr s' \<Longrightarrow> counters_ok c s \<Longrightarrow> counters_ok (c + int (frames ops)) s'"
proof (induction ops arbitrary: c s)
  case (Cons op ops)
  then obtain s1 where s1: "fly_step single N op s = Inr s1" "foldE (fly_step single N) ops s1 = Inr s'"
    by (cases "fly_step single N op s") auto
  have "counters_ok (c + int (frames [op])) s1" using step_keeps [OF Cons.prems(2), where single = single and N = N and op = op] s1(1) by simp
  from Cons.IH [OF s1(2) this] show ?case by (simp add: frames_def algebra_simps split: if_splits)
qed (simp add: frames_def)

text \<open>
  (C23) Whatever happens to the library, in any order and with any node behind the descriptor, the counters its decisions rest on (failed
  opens, frames in the last second and since a hit, hits and checks of a column, odd frames, critical points, frames without a signal, frames given
  up) stay within their limits, far below the ends of their types: the limit of 250 hits of a column is never reached, and the counter of frames
  given up stays 0.  The counter of all frames, which only feeds the frames per second, is not bounded: it is the number of frames so far, wrapped
  to 32 bits.
\<close>

theorem counters_bounded:
  assumes "foldE (fly_step single N) ops (fly_start v) = Inr s"
  shows "counters_ok (int (frames ops)) s"
  using steps_keep [OF assms, of 0]
  by (simp add: counters_ok_def fly_start_def split_start_def split_ok_def wrap32_def)

section \<open>The search with a node that remembers\<close>

text \<open>
  What the library relies on: while the node is in order, it gives back the structure that was written to it.
\<close>

locale remembering_node =
  fixes N :: "'v config_node" and good :: "'v \<Rightarrow> bool" and info :: "'v \<Rightarrow> tw9912info_t"
  assumes given_back: "good v \<Longrightarrow> node_read N 5 v = Inr (info_bytes (info v), v)"
    and kept: "good v \<Longrightarrow> \<exists>v'. node_write N (info_bytes i) v = Inr v' \<and> good v' \<and> info v' = i"

text \<open>How often a frame can still be given up.\<close>

definition tries_left :: "('v \<Rightarrow> tw9912info_t) \<Rightarrow> 'v fly \<Rightarrow> nat" where
  "tries_left info s =
     (let v = tw_reg_val (info (node_state s)) in
      if black_line_is_ok s then 0
      else if 0x10 < v \<and> v \<le> 0x17 then unat v - 0x10 + 1 else 1)"

text \<open>A node that is open, on the channel of the reversing camera.\<close>

definition searching :: "('v \<Rightarrow> bool) \<Rightarrow> 'v fly \<Rightarrow> bool" where
  "searching good s \<longleftrightarrow> global_tw9912_file_fd s > 0 \<and> video_channel_status s = CHR ''3'' \<and> good (node_state s)"

text \<open>The frames that arrive, and how many of them are given up.\<close>

definition search_frame :: "'v config_node \<Rightarrow> tw9912info_t \<Rightarrow> frame \<Rightarrow> nat \<times> 'v fly \<Rightarrow> fault + (nat \<times> 'v fly)" where
  "search_frame N stack f p =
     bindE (FlyCameraImageDownFindBlackLine N stack (snd p\<lparr>the_frame := f\<rparr>))
       (\<lambda>(give_up, s). Inr (if give_up then fst p + 1 else fst p, s))"

lemma info_bytes_roundtrip [simp]: "bytes_info (info_bytes i) = i" "length (info_bytes i) = 5"
  by (simp_all add: bytes_info_def info_bytes_def)

context remembering_node
begin

lemma read_back:
  "global_tw9912_file_fd s > 0 \<Longrightarrow> good (node_state s) \<Longrightarrow> read_info N stack s = Inr (info (node_state s), s)"
  by (simp add: read_info_def fd_read_def given_back)

lemma written:
  "global_tw9912_file_fd s > 0 \<Longrightarrow> good (node_state s) \<Longrightarrow>
    \<exists>v. write_info N i s = Inr (s\<lparr>node_state := v\<rparr>) \<and> good v \<and> info v = i"
  using kept [of "node_state s" i] by (auto simp: write_info_def fd_write_def)

lemma search_step:
  assumes "searching good s"
  shows "\<exists>give_up s'. FlyCameraImageDownFindBlackLine N stack s = Inr (give_up, s') \<and> searching good s' \<and>
    tries_left info s' \<le> tries_left info s - 1 \<and> (give_up \<longrightarrow> tries_left info s \<noteq> 0)"
proof (cases "black_line_is_ok s")
  case True
  then show ?thesis using assms by (intro exI [of _ False] exI [of _ s]) (simp add: FlyCameraImageDownFindBlackLine_def tries_left_def)
next
  case False
  define i where "i = info (node_state s)"
  have open_node: "global_tw9912_file_fd s > 0" "good (node_state s)" "video_channel_status s = CHR ''3''"
    using assms by (simp_all add: searching_def)
  note rd = read_back [OF open_node(1,2), of stack, folded i_def]
  have one: "tries_left info s \<noteq> 0" using False by (simp add: tries_left_def Let_def)
  show ?thesis
  proof (cases "tw_flag i = 1 \<and> \<not> ToFindBlackLine (the_frame s) \<and> 0x10 < tw_reg_val i \<and> tw_reg_val i \<le> 0x17")
    case shift: True
    obtain v where v: "write_info N (i\<lparr>tw_reg := 0x08, tw_reg_val := tw_reg_val i - 1\<rparr>) s = Inr (s\<lparr>node_state := v\<rparr>)" "good v"
      "info v = i\<lparr>tw_reg := 0x08, tw_reg_val := tw_reg_val i - 1\<rparr>"
      using written [OF open_node(1,2)] by blast
    have "tw_reg_val i \<noteq> 0" using shift by auto
    then have w: "unat (tw_reg_val i - 1) = unat (tw_reg_val i) - 1" "unat (tw_reg_val i) > 16" "unat (tw_reg_val i) \<le> 23"
      using shift unat_minus_one [of "tw_reg_val i"] by (auto simp: word_less_nat_alt word_le_nat_alt)
    have "tries_left info (s\<lparr>node_state := v\<rparr>) \<le> tries_left info s - 1"
      using False shift w v(3) by (simp add: tries_left_def Let_def i_def [symmetric] word_less_nat_alt word_le_nat_alt)
        (intro conjI impI; linarith)
    then show ?thesis using False shift v open_node rd one
      by (intro exI [of _ True] exI [of _ "s\<lparr>node_state := v\<rparr>"]) (simp add: FlyCameraImageDownFindBlackLine_def ToFindBlackLineAndSetTheTw9912VerticalDelayRegister_def searching_def)
  next
    case stop: False
    obtain v where v: "write_info N (i\<lparr>tw_sta := 1, tw_flag := 0\<rparr>) s = Inr (s\<lparr>node_state := v\<rparr>)" "good v"
      using written [OF open_node(1,2)] by blast
    have "\<exists>give_up s'. FlyCameraImageDownFindBlackLine N stack s = Inr (give_up, s') \<and> searching good s' \<and> black_line_is_ok s'"
      using False stop v open_node rd
      by (auto simp: FlyCameraImageDownFindBlackLine_def ToFindBlackLineAndSetTheTw9912VerticalDelayRegister_def searching_def)
    then show ?thesis using one by (auto simp: tries_left_def)
  qed
qed

lemma search_frames:
  "searching good s \<Longrightarrow>
    \<exists>n' s'. foldE (search_frame N stack) fs (n, s) = Inr (n', s') \<and> searching good s' \<and>
      tries_left info s' \<le> tries_left info s - length fs \<and> n' \<le> n + tries_left info s"
proof (induction fs arbitrary: n s)
  case (Cons f fs)
  have "searching good (s\<lparr>the_frame := f\<rparr>)" "tries_left info (s\<lparr>the_frame := f\<rparr>) = tries_left info s"
    using Cons.prems by (simp_all add: searching_def tries_left_def)
  then obtain give_up s1 where s1: "FlyCameraImageDownFindBlackLine N stack (s\<lparr>the_frame := f\<rparr>) = Inr (give_up, s1)" "searching good s1"
    "tries_left info s1 \<le> tries_left info s - 1" "give_up \<longrightarrow> tries_left info s \<noteq> 0"
    using search_step by fastforce
  define n1 where "n1 = (if give_up then n + 1 else n)"
  obtain n' s' where s': "foldE (search_frame N stack) fs (n1, s1) = Inr (n', s')" "searching good s'"
    "tries_left info s' \<le> tries_left info s1 - length fs" "n' \<le> n1 + tries_left info s1"
    using Cons.IH [OF s1(2)] by blast
  have "n' \<le> n + tries_left info s" using s'(4) s1(3,4) by (cases give_up) (auto simp: n1_def)
  moreover have "foldE (search_frame N stack) (f # fs) (n, s) = Inr (n', s')"
    using s1(1) s'(1) by (cases give_up) (simp_all add: search_frame_def n1_def)
  ultimately show ?case using s' s1(3) by (intro exI [of _ n'] exI [of _ s']) auto
qed simp

lemma search_ends:
  assumes "searching good s" "length fs \<ge> 8"
  shows "\<exists>n s'. foldE (search_frame N stack) fs (0, s) = Inr (n, s') \<and> n \<le> 8 \<and> black_line_is_ok s'"
proof -
  have "tries_left info s \<le> 8" by (auto simp: tries_left_def Let_def word_le_nat_alt)
  then show ?thesis using search_frames [OF assms(1), of stack fs 0] assms(2)
    by (auto simp: tries_left_def Let_def split: if_splits)
qed

end

text \<open>
  The node of the video driver remembers while it is asked for the structure and the picture has one of the two interlaced formats.
\<close>

definition node_format :: "'d video \<Rightarrow> vedio_format_t" where
  "node_format v = sig_Format (signal_is_how (tw v) ! channel_nr (info_vedio_channel_t v))"

definition node_ready :: "'d video \<Rightarrow> bool" where
  "node_ready v \<longleftrightarrow> tw9912_read_func_read_data v = 0 \<and> info_vedio_channel_t v \<noteq> NOTONE \<and> node_format v \<in> {NTSC_I, PAL_I}"

definition node_info :: "'d video \<Rightarrow> tw9912info_t" where
  "node_info v = (if node_format v = NTSC_I then global_tw9912_info_for_NTSC_I v else global_tw9912_info_for_PAL_I v)"

lemma shift_written_keeps:
  "node_format (shift_written port i v) = node_format v"
  "info_vedio_channel_t (shift_written port i v) = info_vedio_channel_t v"
  "tw9912_read_func_read_data (shift_written port i v) = tw9912_read_func_read_data v"
  "global_tw9912_info_for_NTSC_I (shift_written port i v) = global_tw9912_info_for_NTSC_I v"
  "global_tw9912_info_for_PAL_I (shift_written port i v) = global_tw9912_info_for_PAL_I v"
  by (simp_all add: shift_written_def on_tw_def node_format_def tw9912_write_def case_prod_beta Let_def)

lemma node_format_info [simp]:
  "node_format (v\<lparr>global_tw9912_info_for_NTSC_I := i\<rparr>) = node_format v"
  "node_format (v\<lparr>global_tw9912_info_for_PAL_I := i\<rparr>) = node_format v"
  by (simp_all add: node_format_def)

interpretation kernel: remembering_node "kernel_node port u" node_ready node_info
proof
  fix v :: "'a video" and i
  assume r: "node_ready v"
  have f: "channel_format (info_vedio_channel_t v) v = Inr (node_format v)"
    using r by (simp add: channel_format_def node_ready_def node_format_def)
  show "node_read (kernel_node port u) 5 v = Inr (info_bytes (node_info v), v)"
    using r by (simp add: kernel_node_def tw9912_node_read_def f node_ready_def node_info_def Let_def)
  show "\<exists>v'. node_write (kernel_node port u) (info_bytes i) v = Inr v' \<and> node_ready v' \<and> node_info v' = i"
    using r by (auto simp: kernel_node_def tw9912_node_write_def f node_ready_def node_info_def Let_def shift_written_keeps)
qed


section \<open>The picture is moved down, and the search ends\<close>

text \<open>
  (C21) On the reversing camera the search for a black first line ends, through the driver's node and for any frames, provided the descriptor
  of the node is open and the driver is ready (\<open>node_ready\<close>: it is asked for the structure, a channel is configured, and the picture has
  one of the two interlaced formats): of the first eight frames, and of any frames after them, at most eight are given up, and the search is then
  over.  Without one of the two formats it need not end (\<open>search_never_ends\<close>).
\<close>

theorem black_line_search_ends:
  assumes "searching node_ready s" "length fs \<ge> 8"
  shows "\<exists>n s'. foldE (search_frame (kernel_node port u) stack) fs (0, s) = Inr (n, s') \<and> n \<le> 8 \<and> black_line_is_ok s'"
  using assms by (rule kernel.search_ends)

text \<open>A driver after the configuration of an interlaced picture, and the library at the start of the search.\<close>

definition ready_video :: "'d \<Rightarrow> vedio_format_t \<Rightarrow> 'd video" where
  "ready_video d f =
     (video_start d)\<lparr>info_vedio_channel_t := YIN3, info_com_top_Channel := YIN3, tw := set_format YIN3 f (tw9912_start d)\<rparr>"

definition reversing :: "'v \<Rightarrow> 'v fly" where
  "reversing v = (fly_start v)\<lparr>video_channel_status := CHR ''3'', global_tw9912_file_fd := 5, globao_mFlyPreviewStatus := True\<rparr>"

lemma ready_format [simp]: "node_format (ready_video d f) = f" "info_vedio_channel_t (ready_video d f) = YIN3"
  "tw9912_read_func_read_data (ready_video d f) = 0" "global_tw9912_info_for_PAL_I (ready_video d f) = info_start"
  "chip_dev (tw (ready_video d f)) = d"
  by (simp_all add: node_format_def ready_video_def set_format_def tw9912_start_def video_start_def)

lemma reversing_searches [simp]: "searching good (reversing v) = good v" "\<not> black_line_is_ok (reversing v)"
  "node_state (reversing v) = v" "video_channel_status (reversing v) = CHR ''3''" "global_tw9912_file_fd (reversing v) = 5"
  "global_fream_give_up (reversing v) = 0"
  by (simp_all add: searching_def reversing_def fly_start_def)

theorem black_line_search_ends_witness:
  "\<exists>n s'. foldE (search_frame (kernel_node (bit_port chip_bus chip_resx bridge_resx) 0) info_start) (replicate 9 (striped 7))
      (0, reversing (ready_video (chip_new 0x44 1) NTSC_I)) = Inr (n, s') \<and> n \<le> 8 \<and> black_line_is_ok s'"
  by (rule black_line_search_ends) (simp_all add: node_ready_def)

text \<open>
  Without one of the two formats the driver does not keep what is written, and the search never ends: as long as no frame has a black first
  line, every frame of the reversing camera is given up.
\<close>

theorem search_never_ends:
  assumes s: "searching (\<lambda>v. tw9912_read_func_read_data v = 0 \<and> info_vedio_channel_t v \<noteq> NOTONE \<and> node_format v \<notin> {NTSC_I, PAL_I} \<and>
      tw_flag (global_tw9912_info_for_PAL_I v) = 1 \<and> tw_reg_val (global_tw9912_info_for_PAL_I v) \<in> {0x11..0x17}) s"
    and "\<not> black_line_is_ok s" "\<forall>f\<in>set fs. \<not> ToFindBlackLine f"
  shows "\<exists>s'. foldE (search_frame (kernel_node port u) stack) fs (n, s) = Inr (n + length fs, s') \<and> \<not> black_line_is_ok s'"
  using assms
proof (induction fs arbitrary: n s)
  case (Cons f fs)
  define v where "v = node_state s"
  define i where "i = global_tw9912_info_for_PAL_I v"
  have v: "tw9912_read_func_read_data v = 0" "node_format v \<noteq> NTSC_I" "node_format v \<noteq> PAL_I" "tw_flag i = 1"
    "0x10 < tw_reg_val i" "tw_reg_val i \<le> 0x17" "info_vedio_channel_t v \<noteq> NOTONE"
    using Cons.prems(1) by (auto simp: searching_def v_def i_def word_less_nat_alt word_le_nat_alt)
  have f: "channel_format (info_vedio_channel_t v) v = Inr (node_format v)"
    using v by (simp add: channel_format_def node_format_def)
  have s: "global_tw9912_file_fd s > 0" "video_channel_status s = CHR ''3''" using Cons.prems(1) by (simp_all add: searching_def)
  have rd: "read_info (kernel_node port u) stack (s\<lparr>the_frame := f\<rparr>) = Inr (i, s\<lparr>the_frame := f\<rparr>)"
    using v s by (simp add: read_info_def fd_read_def kernel_node_def tw9912_node_read_def v_def [symmetric] f i_def [symmetric])
  have same: "v\<lparr>global_tw9912_info_for_PAL_I := i\<lparr>tw_this_is_first_open := tw_this_is_first_open i\<rparr>\<rparr> = v"
    by (simp add: i_def)
  have wr: "write_info (kernel_node port u) (i\<lparr>tw_reg := 0x08, tw_reg_val := tw_reg_val i - 1\<rparr>) (s\<lparr>the_frame := f\<rparr>) =
      Inr (s\<lparr>the_frame := f\<rparr>)"
    using v s same by (simp add: write_info_def fd_write_def kernel_node_def tw9912_node_write_def v_def [symmetric] f Let_def
      i_def [symmetric])
  have step: "search_frame (kernel_node port u) stack f (n, s) = Inr (n + 1, s\<lparr>the_frame := f\<rparr>)"
    using Cons.prems(2,3) s v rd wr
    by (simp add: search_frame_def FlyCameraImageDownFindBlackLine_def ToFindBlackLineAndSetTheTw9912VerticalDelayRegister_def)
  have "searching P (s\<lparr>the_frame := f\<rparr>) = searching P s" for P by (simp add: searching_def)
  then show ?case using step Cons.prems Cons.IH [of "s\<lparr>the_frame := f\<rparr>" "n + 1"] by simp
qed simp

theorem search_never_ends_witness:
  "\<exists>s'. foldE (search_frame (kernel_node (bit_port chip_bus chip_resx bridge_resx) 0) info_start) (replicate 1000 (striped 7))
      (0, reversing (ready_video (chip_new 0x44 1) NTSC_P)) = Inr (0 + length (replicate 1000 (striped 7)), s') \<and> \<not> black_line_is_ok s'"
proof (rule search_never_ends)
  have "\<not> luma (striped 7) k \<le> BCAR_BLACK_VALUE_UPERR_LIMIT" if "k < 719" for k
    using that by (simp add: luma_def striped_def BCAR_BLACK_VALUE_UPERR_LIMIT_def)
  then have "hits (\<lambda>k. luma (striped 7) k \<le> BCAR_BLACK_VALUE_UPERR_LIMIT) 0 719 = hits (\<lambda>_. False) 0 719"
    by (intro hits_cong) simp
  then show "\<forall>f\<in>set (replicate 1000 (striped 7)). \<not> ToFindBlackLine f"
    using first_line_hits [of 0 0 "striped 7"] by (auto simp: ToFindBlackLine_def) (simp add: hits_def)
qed (simp_all add: info_start_def)

section \<open>Frames without a stable signal\<close>

lemma status_dropped:
  assumes "global_tw9912_file_fd s > 0" "video_channel_status s \<noteq> CHR ''1''" "global_fream_give_up s = 0"
    and "read_tw9912_chips_status_fast port u (tw (node_state s)) = (ACK, valu, t)" "valu AND 0x68 \<noteq> 0x68"
  shows "FlyCameraFrameDisplayOrOutDisplay (kernel_node port u) c stack s =
    Inr (True, s\<lparr>node_state := (node_state s)\<lparr>tw := t, tw9912_read_func_read_data := 0\<rparr>\<rparr>)"
  using assms
  by (simp add: FlyCameraFrameDisplayOrOutDisplay_def FlyCameraReadTw9912StatusRegitsterValue_def fd_ioctl_def fd_read_def kernel_node_def
      tw9912_node_ioctl_def tw9912_node_read_def)

text \<open>
  (C22) A frame of the camera or the AUX input is not shown while the status register of the decoder chip, read through the node, the driver and
  the pins of the bus, does not say that the signal is locked; the frame is not looked at, no restart is asked for, and the node serves the
  structure again.
\<close>

theorem unstable_frame_not_shown:
  assumes "global_tw9912_file_fd s > 0" "video_channel_status s \<noteq> CHR ''1''" "global_fream_give_up s = 0"
    and "chip_ready TW9912_I2C_ChipAdd 1 (chip_dev (tw (node_state s)))" "chip_regs (chip_dev (tw (node_state s))) 0x01 AND 0x68 \<noteq> 0x68"
  shows "\<exists>s'. FlyCameraFrameDisplayOrOutDisplay (kernel_node (bit_port chip_bus chip_resx tc) u) c stack s = Inr (True, s') \<and>
    the_frame s' = the_frame s \<and> restarts s' = restarts s \<and> tw9912_read_func_read_data (node_state s') = 0"
proof -
  obtain t where "tw9912_read (bit_port chip_bus chip_resx tc) 0x01 u (tw (node_state s)) =
      (ACK, chip_regs (chip_dev (tw (node_state s))) 0x01, t)"
    using bits.read_at [OF bits.at_regs_refl [OF assms(4)]] by blast
  from status_dropped [OF assms(1-3) this [folded read_tw9912_chips_status_fast_def] assms(5)] show ?thesis by simp
qed

theorem unstable_frame_not_shown_witness:
  "\<exists>s'. FlyCameraFrameDisplayOrOutDisplay (kernel_node (bit_port chip_bus chip_resx bridge_resx) 0) 0 0
      (reversing (ready_video (chip_new 0x44 1) NTSC_I)) = Inr (True, s') \<and>
    the_frame s' = the_frame (reversing (ready_video (chip_new 0x44 1) NTSC_I)) \<and>
    restarts s' = restarts (reversing (ready_video (chip_new 0x44 1) NTSC_I)) \<and> tw9912_read_func_read_data (node_state s') = 0"
proof (rule unstable_frame_not_shown)
  have "chip_ready 0x44 1 (chip_new 0x44 1)" "chip_regs (chip_new 0x44 1) 1 = 0"
    by (simp_all add: chip_new_ready) (simp add: chip_new_def chip_regs_def)
  then show "chip_ready TW9912_I2C_ChipAdd 1 (chip_dev (tw (node_state (reversing (ready_video (chip_new 0x44 1) NTSC_I)))))"
    "chip_regs (chip_dev (tw (node_state (reversing (ready_video (chip_new 0x44 1) NTSC_I))))) 0x01 AND 0x68 \<noteq> 0x68"
    by (simp_all add: TW9912_I2C_ChipAdd_def)
qed simp_all

section \<open>A black column restarts the preview\<close>

primrec checks :: "nat \<Rightarrow> 'v fly \<Rightarrow> bool list \<times> 'v fly" where
  "checks 0 s = ([], s)"
| "checks (Suc n) s =
     (let (split, s1) = DetermineImageSplitScreen_Longitudinal s; (splits, s2) = checks n s1 in (split # splits, s2))"

lemma checks_add:
  "checks (m + n) s = (let (as, s1) = checks m s; (bs, s2) = checks n s1 in (as @ bs, s2))"
  by (induction m arbitrary: s) (simp_all add: case_prod_beta Let_def)

text \<open>Column \<open>j\<close> of the frame is remembered and was hit \<open>b\<close> times, the last time just now; \<open>k\<close> restarts were asked for.\<close>

definition tracking :: "frame \<Rightarrow> nat \<Rightarrow> nat \<Rightarrow> nat \<Rightarrow> 'v fly \<Rightarrow> bool" where
  "tracking f j b k s \<longleftrightarrow>
     the_frame s = f \<and> Longitudinal_last_fream_count s = 0 \<and> \<not> global_need_rePreview s \<and> restarts s = k \<and>
     LongitudinalInformationRemember s =
       \<lparr>BlackCoordinateX = j, BlackFreamCount = b, ThisIsFirstFind = False, BegingFindBlackFreamCount = b - 1\<rparr>"

lemma paused_check:
  "Longitudinal_last_fream_count s < 3 \<Longrightarrow>
    DetermineImageSplitScreen_Longitudinal s = (False, s\<lparr>Longitudinal_last_fream_count := Longitudinal_last_fream_count s + 1\<rparr>)"
  by (simp add: DetermineImageSplitScreen_Longitudinal_def longitudinal_pause_def Let_def)

lemma paused_checks:
  "Longitudinal_last_fream_count s = 0 \<Longrightarrow> checks 3 s = ([False, False, False], s\<lparr>Longitudinal_last_fream_count := 3\<rparr>)"
  by (simp add: numeral_3_eq_3 paused_check)

lemma tracked_hit:
  assumes "tracking f j b k s" "column_from f j 60 0 = Black_Column" "1 \<le> b" "b < 4"
  shows "\<exists>s'. checks 4 s = ([False, False, False, False], s') \<and> tracking f j (b + 1) k s'"
proof -
  have "\<exists>s'. DetermineImageSplitScreen_Longitudinal (s\<lparr>Longitudinal_last_fream_count := 3\<rparr>) = (False, s') \<and> tracking f j (b + 1) k s'"
    using assms by (auto simp: DetermineImageSplitScreen_Longitudinal_def longitudinal_pause_def longitudinal_window_def Let_def
      tracking_def set_split_def column_hit_def)
  then show ?thesis using paused_checks [of s] assms(1) checks_add [of 3 1 s] by (auto simp: tracking_def)
qed

lemma tracked_restart:
  assumes "tracking f j 4 k s" "column_from f j 60 0 = Black_Column"
  shows "\<exists>s'. checks 4 s = ([False, False, False, True], s') \<and> restarts s' = k + 1 \<and> \<not> global_need_rePreview s'"
proof -
  have "\<exists>s'. DetermineImageSplitScreen_Longitudinal (s\<lparr>Longitudinal_last_fream_count := 3\<rparr>) = (True, s') \<and>
      restarts s' = k + 1 \<and> \<not> global_need_rePreview s'"
    using assms by (auto simp: DetermineImageSplitScreen_Longitudinal_def longitudinal_pause_def longitudinal_window_def Let_def
      tracking_def set_split_def column_hit_def)
  then show ?thesis using paused_checks [of s] assms(1) checks_add [of 3 1 s] by (auto simp: tracking_def)
qed

lemma first_hit:
  assumes "first_column (the_frame s) = Some j" "column_from (the_frame s) j 60 0 = Black_Column"
    and "ThisIsFirstFind (LongitudinalInformationRemember s)" "BegingFindBlackFreamCount (LongitudinalInformationRemember s) = 0"
    and "\<not> global_need_rePreview s" "3 \<le> Longitudinal_last_fream_count s"
  shows "\<exists>s'. DetermineImageSplitScreen_Longitudinal s = (False, s') \<and> tracking (the_frame s) j 1 (restarts s) s'"
  using assms by (auto simp: DetermineImageSplitScreen_Longitudinal_def longitudinal_pause_def longitudinal_window_def Let_def
    tracking_def set_split_def column_hit_def)

text \<open>
  A picture that stays with a black column is noticed: the seventeenth check of it asks for a restart of the preview, and none of the sixteen
  before.  The mark of the restart is taken back at once, so nothing keeps a second thread from being started while the first one runs.
\<close>

theorem black_column_restarts:
  assumes "first_column (the_frame s) = Some j" "column_from (the_frame s) j 60 0 = Black_Column"
    and "ThisIsFirstFind (LongitudinalInformationRemember s)" "BegingFindBlackFreamCount (LongitudinalInformationRemember s) = 0"
    and "\<not> global_need_rePreview s" "3 \<le> Longitudinal_last_fream_count s"
  shows "\<exists>s'. checks 17 s = (replicate 16 False @ [True], s') \<and> restarts s' = restarts s + 1 \<and> \<not> global_need_rePreview s'"
proof -
  let ?f = "the_frame s"
  obtain s1 where s1: "checks 1 s = ([False], s1)" "tracking ?f j 1 (restarts s) s1"
    using first_hit [OF assms] by auto
  obtain s2 where s2: "checks 4 s1 = (replicate 4 False, s2)" "tracking ?f j 2 (restarts s) s2"
    using tracked_hit [OF s1(2) assms(2)] by (auto simp: numeral_eq_Suc)
  obtain s3 where s3: "checks 4 s2 = (replicate 4 False, s3)" "tracking ?f j 3 (restarts s) s3"
    using tracked_hit [OF s2(2) assms(2)] by (auto simp: numeral_eq_Suc)
  obtain s4 where s4: "checks 4 s3 = (replicate 4 False, s4)" "tracking ?f j 4 (restarts s) s4"
    using tracked_hit [OF s3(2) assms(2)] by (auto simp: numeral_eq_Suc)
  obtain s5 where s5: "checks 4 s4 = ([False, False, False, True], s5)" "restarts s5 = restarts s + 1" "\<not> global_need_rePreview s5"
    using tracked_restart [OF s4(2) assms(2)] by auto
  have "checks (1 + (4 + (4 + (4 + 4)))) s = ([False] @ replicate 4 False @ replicate 4 False @ replicate 4 False @ [False, False, False, True], s5)"
    using s1(1) s2(1) s3(1) s4(1) s5(1) unfolding checks_add by simp
  moreover have "[False] @ replicate 4 False @ replicate 4 False @ replicate 4 False @ [False, False, False, True] = replicate 16 False @ [True]"
    by (simp add: numeral_eq_Suc)
  ultimately show ?thesis using s5(2,3) by simp
qed

text \<open>A picture with one black column.\<close>

definition split_picture :: frame where
  "split_picture = \<lparr>buffer = (\<lambda>a. if a mod 720 = 30 then 0x10 else 0x80), y_off = 0, cbcr_off = 720 * 480\<rparr>"

lemma split_picture_luma: "luma split_picture k \<le> 0x20 \<longleftrightarrow> k mod 720 = 30"
  by (simp add: luma_def split_picture_def)

lemma hits_single: "hits (\<lambda>j. j = a) lo hi \<le> (if a < hi then 1 else 0)"
proof (induction hi)
  case (Suc hi)
  then show ?case by (cases "lo \<le> hi") (auto simp: hits_last split: if_splits)
qed simp

lemma split_picture_column: "column_from split_picture 30 60 0 = Black_Column"
proof -
  have all: "hits (\<lambda>i. luma split_picture (720 * i + 30) \<le> 0x20) 60 400 = hits (\<lambda>_. True) 60 400"
    by (rule hits_cong) (simp add: split_picture_luma)
  have down: "hits (\<lambda>j. luma split_picture (720 * j + (j - 59)) \<le> 0x20) 60 400 = hits (\<lambda>j. j = 89) 60 400"
    by (rule hits_cong) (simp only: split_picture_luma mod_mult_self4, auto)
  have up: "hits (\<lambda>j. luma split_picture (720 * j + (741 - j)) \<le> 0x20) 61 401 = hits (\<lambda>_. False) 61 401"
    by (rule hits_cong) (simp only: split_picture_luma mod_mult_self4, auto)
  have none: "hits (\<lambda>_. False) 61 401 = 0" and rows: "hits (\<lambda>_. True) 60 400 = 340" by (simp_all add: hits_def)
  have "\<not> VideoItselfBlackJudge split_picture"
    unfolding picture_black down up none Let_def using hits_single [of 89 60 400] by simp
  then show ?thesis unfolding column_hits [of 0 60 split_picture 30, simplified] all rows by simp
qed

theorem black_column_restarts_witness:
  "\<exists>s'. checks 17 ((fly_start ())\<lparr>the_frame := split_picture\<rparr>) = (replicate 16 False @ [True], s') \<and>
    restarts s' = restarts ((fly_start ())\<lparr>the_frame := split_picture\<rparr>) + 1 \<and> \<not> global_need_rePreview s'"
proof (rule black_column_restarts [where j = 30])
  have "[30..<691] = 30 # [31..<691 :: nat]" by (simp add: upt_conv_Cons)
  then show "first_column (the_frame ((fly_start ())\<lparr>the_frame := split_picture\<rparr>)) = Some 30"
    using split_picture_column by (simp add: first_column_def candidate_column_def split_picture_luma)
qed (simp_all add: split_picture_column fly_start_def split_start_def)

text \<open>A history in which a frame arrives.\<close>

theorem counters_bounded_witness:
  "\<exists>s. foldE (fly_step (\<lambda>x. x) (kernel_node (bit_port chip_bus chip_resx bridge_resx) 0))
      [Star info_start (- 1) (CHR ''1''),
       Frame \<lparr>in_frame = split_picture, in_show = CHR ''0'', in_channel = CHR ''1'', in_format = CHR ''1'', in_time = 300000000,
         in_no_display = False, in_count = 7, in_stack = info_start, in_byte = 0\<rparr>, Restart_Thread, Stop, Release]
      (fly_start (ready_video (chip_new 0x44 1) NTSC_I)) = Inr s \<and> counters_ok 1 s"
proof -
  let ?N = "kernel_node (bit_port chip_bus chip_resx bridge_resx) 0"
  let ?ops = "[Star info_start (- 1) (CHR ''1''),
       Frame \<lparr>in_frame = split_picture, in_show = CHR ''0'', in_channel = CHR ''1'', in_format = CHR ''1'', in_time = 300000000,
         in_no_display = False, in_count = 7, in_stack = info_start, in_byte = 0\<rparr>, Restart_Thread, Stop, Release]"
  obtain s where s: "foldE (fly_step (\<lambda>x. x) ?N) ?ops (fly_start (ready_video (chip_new 0x44 1) NTSC_I)) = Inr s"
    by (simp add: fly_start_def FlyCameraStar_def processPreviewFrame_def FlyCameraGetInfo_def FlyCameraNotSignalAtLastTime_def
        FlyCameraImageDownFindBlackLine_def FlyCameraThisIsFirstOpenAtDVD_def FlyCameraFrameDisplayOrOutDisplay_def
        DetermineImageSplitScreen_def Let_def wrap32_def)
  show ?thesis using counters_bounded [OF s] by (intro exI [of _ s] conjI s) (simp add: frames_def)
qed

end
