(* ===== verification/Dsi83.thy ===== *)
theory Dsi83
  imports I2c
begin

text \<open>
  The bridge from DSI to LVDS in front of the panel, \<^verbatim>\<open>drivers/dsi83\<close>: the transfers, which use the kernel's I2C core directly, the sequences that
  configure the chip, the probe, and the reaction to the screen being switched on.

  The core is the parameter of \<open>I2c\<close>; \<open>avail\<close> tells whether \<open>i2c_get_adapter\<close> finds the bus, \<open>u\<close> is what the stack holds.  The pins that
  were driven and the registers whose value was reported as different are recorded.  The table is the one without \<^verbatim>\<open>TEST_PATTERN\<close>.  Its type is
  \<open>char\<close>, which is unsigned on ARM: the end mark \<open>0xff\<close> is found.
\<close>

record 'b dsi83 =
  adap_glb :: bool
  dsi_bus :: 'b
  pins :: "(nat \<times> nat) list"
  unequal :: "byte list"
  work_queued :: bool

definition DSI83_GPIO_EN :: nat where "DSI83_GPIO_EN = 62"
definition PANEL_GPIO_RESET :: nat where "PANEL_GPIO_RESET = 25"
definition T123_GPIO_RST :: nat where "T123_GPIO_RST = 28"
definition DSI83_I2C_BUS :: int where "DSI83_I2C_BUS = 2"
definition DSI83_I2C_ADDR :: byte where "DSI83_I2C_ADDR = 0x2d"

definition dsi83_conf :: "byte list" where
  "dsi83_conf =
     [0x09, 0x00, 0x0A, 0x03, 0x0B, 0x10, 0x0D, 0x00, 0x10, 0x26, 0x11, 0x00, 0x12, 0x19, 0x13, 0x00, 0x18, 0x78, 0x19, 0x00,
      0x1A, 0x03, 0x1B, 0x00, 0x20, 0x00, 0x21, 0x04, 0x22, 0x00, 0x23, 0x00, 0x24, 0x00, 0x25, 0x00, 0x26, 0x00, 0x27, 0x00,
      0x28, 0x21, 0x29, 0x00, 0x2A, 0x00, 0x2B, 0x00, 0x2C, 0x08, 0x2D, 0x00, 0x2E, 0x00, 0x2F, 0x00, 0x30, 0x03, 0x31, 0x00,
      0x32, 0x00, 0x33, 0x00, 0x34, 0x2e, 0x35, 0x00, 0x36, 0x00, 0x37, 0x00, 0x38, 0x00, 0x39, 0x00, 0x3A, 0x00, 0x3B, 0x00,
      0x3C, 0x00, 0x3D, 0x00, 0x3E, 0x00, 0xff]"

section \<open>Transfers\<close>

text \<open>The modes have numbers of their own here: 1 to write, 2 to read with one byte of register number, 3 with two.\<close>

definition rd_msg :: "u16 \<Rightarrow> byte list \<Rightarrow> i2c_msg" where
  "rd_msg a bs = \<lparr>addr = a, flags = I2C_M_RD, len = of_nat (length bs), buf = bs\<rparr>"

definition i2c_rw ::
  "'b i2c_core \<Rightarrow> bool \<Rightarrow> byte \<Rightarrow> u32 \<Rightarrow> nat \<Rightarrow> byte list \<Rightarrow> 'b dsi83 \<Rightarrow> int \<times> byte list \<times> 'b dsi83" where
  "i2c_rw core avail chipaddr sub_addr mode data s =
     (let a = ucast chipaddr;
          run = (\<lambda>msgs. case i2c_transfer core DSI83_I2C_BUS msgs (dsi_bus s) of
                          (ret, msgs', q) \<Rightarrow> (ret, buf (last msgs'), s\<lparr>dsi_bus := q\<rparr>))
      in if \<not> adap_glb s \<and> \<not> avail then (0, data, s)
         else if mode = 1 then run [wr_msg a data]
         else if mode = 2 then run [wr_msg a [sub_byte 0 sub_addr], rd_msg a data]
         else if mode = 3 then run [wr_msg a [sub_byte 8 sub_addr, sub_byte 0 sub_addr], rd_msg a data]
         else (- EINVAL, data, s))"

definition SN65_register_read :: "'b i2c_core \<Rightarrow> bool \<Rightarrow> byte \<Rightarrow> byte \<Rightarrow> 'b dsi83 \<Rightarrow> int \<times> byte \<times> 'b dsi83" where
  "SN65_register_read core avail reg old s =
     (case i2c_rw core avail DSI83_I2C_ADDR (ucast reg) 2 [old] s of (ret, data, s') \<Rightarrow> (ret, data ! 0, s'))"

definition SN65_register_write :: "'b i2c_core \<Rightarrow> bool \<Rightarrow> byte \<Rightarrow> byte \<Rightarrow> 'b dsi83 \<Rightarrow> int \<times> 'b dsi83" where
  "SN65_register_write core avail reg v s =
     (case i2c_rw core avail DSI83_I2C_ADDR 0 1 [reg, v] s of (ret, data, s') \<Rightarrow> (ret, s'))"

section \<open>The sequences\<close>

text \<open>The loop of \<open>SN65_Sequence_seq4\<close>: \<open>old\<close> is \<open>buf2[1]\<close>.  A table without its mark is left by reading on.\<close>

fun seq4_loop :: "'b i2c_core \<Rightarrow> bool \<Rightarrow> byte list \<Rightarrow> byte \<Rightarrow> int \<Rightarrow> 'b dsi83 \<Rightarrow> fault + (int \<times> 'b dsi83)" where
  "seq4_loop core avail [] old ret s = Inl BufOverrun"
| "seq4_loop core avail [r] old ret s = (if r = 0xff then Inr (ret, s) else Inl BufOverrun)"
| "seq4_loop core avail (r # v # tab) old ret s =
     (if r = 0xff then Inr (ret, s)
      else
        let (_, s1) = SN65_register_write core avail r v s;
            (ret2, got, s2) = SN65_register_read core avail r old s1;
            s3 = (if got \<noteq> v then s2\<lparr>unequal := unequal s2 @ [r]\<rparr> else s2)
        in seq4_loop core avail tab got ret2 s3)"

definition SN65_Sequence_seq4 :: "'b i2c_core \<Rightarrow> bool \<Rightarrow> 'b dsi83 \<Rightarrow> fault + (int \<times> 'b dsi83)" where
  "SN65_Sequence_seq4 core avail s = seq4_loop core avail dsi83_conf 0 0 s"

definition SN65_Sequence_seq6 :: "'b i2c_core \<Rightarrow> bool \<Rightarrow> 'b dsi83 \<Rightarrow> int \<times> 'b dsi83" where
  "SN65_Sequence_seq6 core avail s = SN65_register_write core avail 0x0d 0x01 s"

text \<open>The wait for bit 7 of register \<open>0x0a\<close>: after \<open>i\<close> rounds, with the value read last.  The loop is left after the eleventh round.\<close>

function pll_wait :: "'b i2c_core \<Rightarrow> bool \<Rightarrow> nat \<Rightarrow> byte \<Rightarrow> int \<Rightarrow> 'b dsi83 \<Rightarrow> int \<times> 'b dsi83" where
  "pll_wait core avail i old ret s =
     (if old AND 0x80 \<noteq> 0 then (ret, s)
      else
        let (ret1, got, s1) = SN65_register_read core avail 0x0a old s in
        if i + 1 > 10 then (ret1, s1) else pll_wait core avail (i + 1) got ret1 s1)"
  by pat_completeness auto
termination by (relation "measure (\<lambda>(core, avail, i, old, ret, s). 11 - i)") auto

declare pll_wait.simps [simp del]

definition SN65_Sequence_seq7 :: "'b i2c_core \<Rightarrow> bool \<Rightarrow> 'b dsi83 \<Rightarrow> int \<times> 'b dsi83" where
  "SN65_Sequence_seq7 core avail s =
     (let (ret, got, s1) = SN65_register_read core avail 0x0a 0x00 s in pll_wait core avail 0 got ret s1)"

definition SN65_Sequence_seq8 :: "'b i2c_core \<Rightarrow> bool \<Rightarrow> 'b dsi83 \<Rightarrow> int \<times> 'b dsi83" where
  "SN65_Sequence_seq8 core avail s = SN65_register_write core avail 0x09 0x01 s"

text \<open>The nine registers from 8 down to 0; the result tells whether they differ from the identification.\<close>

definition dsi83_id :: "byte list" where
  "dsi83_id = [0x01, 0x20, 0x20, 0x20, 0x44, 0x53, 0x49, 0x38, 0x35]"

definition id_registers :: "byte list" where
  "id_registers = [8, 7, 6, 5, 4, 3, 2, 1, 0]"

fun read_ids :: "'b i2c_core \<Rightarrow> bool \<Rightarrow> byte \<Rightarrow> byte list \<Rightarrow> 'b dsi83 \<Rightarrow> byte list \<times> 'b dsi83" where
  "read_ids core avail u [] s = ([], s)"
| "read_ids core avail u (r # rs) s =
     (let (_, got, s1) = SN65_register_read core avail r u s; (ids, s2) = read_ids core avail u rs s1 in (got # ids, s2))"

definition SN65_devices_read_id :: "'b i2c_core \<Rightarrow> bool \<Rightarrow> byte \<Rightarrow> 'b dsi83 \<Rightarrow> bool \<times> 'b dsi83" where
  "SN65_devices_read_id core avail u s =
     (let (ids, s1) = read_ids core avail u id_registers s in (ids \<noteq> dsi83_id, s1))"

text \<open>The results of the sequences, and of the identification, are only printed.\<close>

definition dsi83_work_func :: "'b i2c_core \<Rightarrow> bool \<Rightarrow> byte \<Rightarrow> 'b dsi83 \<Rightarrow> fault + 'b dsi83" where
  "dsi83_work_func core avail u s =
     (let (_, s1) = SN65_devices_read_id core avail u (s\<lparr>work_queued := False\<rparr>) in
      bindE (SN65_Sequence_seq4 core avail s1) (\<lambda>(_, s2).
        let (_, s3) = SN65_Sequence_seq6 core avail s2;
            (_, s4) = SN65_Sequence_seq7 core avail s3;
            (_, s5) = SN65_Sequence_seq8 core avail s4
        in Inr s5))"

section \<open>Pins and probe\<close>

definition gpio_direction_output :: "nat \<Rightarrow> nat \<Rightarrow> 'b dsi83 \<Rightarrow> 'b dsi83" where
  "gpio_direction_output gpio level s = s\<lparr>pins := pins s @ [(gpio, level)]\<rparr>"

text \<open>The three calls of the kernel are parameters: is the number valid, and the results of the request and of the configuration.\<close>

definition dsi83_io_config :: "(nat \<Rightarrow> bool) \<Rightarrow> (nat \<Rightarrow> int) \<Rightarrow> (nat \<Rightarrow> int) \<Rightarrow> nat \<Rightarrow> int" where
  "dsi83_io_config is_valid request tlmm gpio_num =
     (if \<not> is_valid gpio_num then - ENODEV
      else if request gpio_num \<noteq> 0 then - ENODEV
      else if tlmm gpio_num \<noteq> 0 then - ENODEV else 0)"

definition dsi83_enable :: "'b dsi83 \<Rightarrow> 'b dsi83" where
  "dsi83_enable s = gpio_direction_output DSI83_GPIO_EN 1 s"

definition T123_reset :: "'b dsi83 \<Rightarrow> 'b dsi83" where
  "T123_reset s = gpio_direction_output T123_GPIO_RST 1 (gpio_direction_output T123_GPIO_RST 0 s)"

definition panel_reset :: "'b dsi83 \<Rightarrow> 'b dsi83" where
  "panel_reset s = gpio_direction_output PANEL_GPIO_RESET 1 (gpio_direction_output PANEL_GPIO_RESET 0 s)"

definition dsi83_probe :: "(nat \<Rightarrow> bool) \<Rightarrow> (nat \<Rightarrow> int) \<Rightarrow> (nat \<Rightarrow> int) \<Rightarrow> bool \<Rightarrow> 'b dsi83 \<Rightarrow> int \<times> 'b dsi83" where
  "dsi83_probe is_valid request tlmm avail s =
     (let s1 = s\<lparr>adap_glb := avail\<rparr> in
      if \<not> avail then (- ENODEV, s1)
      else
        let ret = dsi83_io_config is_valid request tlmm T123_GPIO_RST in
        if ret \<noteq> 0 then (ret, s1) else (0, (T123_reset (panel_reset (dsi83_enable s1)))\<lparr>work_queued := True\<rparr>))"

definition dsi83_resume :: "'b dsi83 \<Rightarrow> 'b dsi83" where
  "dsi83_resume s = s\<lparr>work_queued := True\<rparr>"

definition dsi83_suspend :: "'b dsi83 \<Rightarrow> 'b dsi83" where
  "dsi83_suspend s = s"

text \<open>\<open>blank\<close> is the value behind \<open>evdata->data\<close>, if there is one.\<close>

definition FB_EVENT_BLANK :: nat where "FB_EVENT_BLANK = 9"
definition FB_BLANK_UNBLANK :: int where "FB_BLANK_UNBLANK = 0"
definition FB_BLANK_POWERDOWN :: int where "FB_BLANK_POWERDOWN = 4"

definition dsi83_fb_notifier_callback :: "nat \<Rightarrow> int option \<Rightarrow> 'b dsi83 \<Rightarrow> int \<times> 'b dsi83" where
  "dsi83_fb_notifier_callback event blank s =
     (0, case blank of
           Some b \<Rightarrow>
             if event = FB_EVENT_BLANK then
               if b = FB_BLANK_UNBLANK then dsi83_resume s else if b = FB_BLANK_POWERDOWN then dsi83_suspend s else s
             else s
         | None \<Rightarrow> s)"


section \<open>A chip that answers\<close>

text \<open>
  What the sequences rely on: the chip at its address takes writes of a register and answers reads.  Register \<open>0x0a\<close>, whose bit 7 is set by the
  chip, may have any value at any time.
\<close>

locale csr_chip =
  fixes core :: "'b i2c_core" and csr :: "'b \<Rightarrow> byte \<Rightarrow> byte"
  assumes stores: "\<exists>m q'. i2c_transfer core DSI83_I2C_BUS [wr_msg 0x2d [r, v]] q = (1, m, q') \<and>
      (\<forall>x. x \<noteq> 0x0a \<longrightarrow> csr q' x = ((csr q)(r := v)) x)"
    and answers: "\<exists>m v q'. i2c_transfer core DSI83_I2C_BUS [wr_msg 0x2d [r], rd_msg 0x2d [old]] q = (2, [m, rd_msg 0x2d [v]], q') \<and>
      (r \<noteq> 0x0a \<longrightarrow> v = csr q r) \<and> (\<forall>x. x \<noteq> 0x0a \<longrightarrow> csr q' x = csr q x)"

text \<open>The entries of a table before its mark, and whether it has one.\<close>

fun table_pairs :: "byte list \<Rightarrow> (byte \<times> byte) list" where
  "table_pairs (r # v # tab) = (if r = 0xff then [] else (r, v) # table_pairs tab)"
| "table_pairs tab = []"

fun table_marked :: "byte list \<Rightarrow> bool" where
  "table_marked [] = False"
| "table_marked [r] = (r = 0xff)"
| "table_marked (r # v # tab) = (r = 0xff \<or> table_marked tab)"

text \<open>The registers have the values \<open>m\<close>, but for \<open>0x0a\<close>; only register \<open>0x0a\<close> was reported as different beyond \<open>us\<close>.\<close>

definition holds :: "('b \<Rightarrow> byte \<Rightarrow> byte) \<Rightarrow> (byte \<Rightarrow> byte) \<Rightarrow> byte list \<Rightarrow> 'b dsi83 \<Rightarrow> bool" where
  "holds csr m us s \<longleftrightarrow> adap_glb s \<and> (\<forall>x. x \<noteq> 0x0a \<longrightarrow> csr (dsi_bus s) x = m x) \<and> set (unequal s) \<subseteq> set us \<union> {0x0a}"

context csr_chip
begin

lemma write_holds:
  assumes "holds csr m us s"
  shows "\<exists>s'. SN65_register_write core avail r v s = (1, s') \<and> holds csr (m(r := v)) us s'"
proof -
  obtain msgs q where "i2c_transfer core DSI83_I2C_BUS [wr_msg 0x2d [r, v]] (dsi_bus s) = (1, msgs, q)"
    "\<forall>x. x \<noteq> 0x0a \<longrightarrow> csr q x = ((csr (dsi_bus s))(r := v)) x"
    using stores by blast
  then show ?thesis using assms
    by (intro exI [of _ "s\<lparr>dsi_bus := q\<rparr>"]) (simp add: SN65_register_write_def i2c_rw_def DSI83_I2C_ADDR_def holds_def)
qed

lemma read_holds:
  assumes "holds csr m us s"
  shows "\<exists>v s'. SN65_register_read core avail r old s = (2, v, s') \<and> holds csr m us s' \<and> (r \<noteq> 0x0a \<longrightarrow> v = m r)"
proof -
  obtain msg v q where "i2c_transfer core DSI83_I2C_BUS [wr_msg 0x2d [r], rd_msg 0x2d [old]] (dsi_bus s) = (2, [msg, rd_msg 0x2d [v]], q)"
    "r \<noteq> 0x0a \<longrightarrow> v = csr (dsi_bus s) r" "\<forall>x. x \<noteq> 0x0a \<longrightarrow> csr q x = csr (dsi_bus s) x"
    using answers by blast
  then show ?thesis using assms
    by (intro exI [of _ v] exI [of _ "s\<lparr>dsi_bus := q\<rparr>"])
      (simp add: SN65_register_read_def i2c_rw_def DSI83_I2C_ADDR_def holds_def, simp add: rd_msg_def)
qed

lemma seq4_holds:
  "holds csr m us s \<Longrightarrow> table_marked tab \<Longrightarrow>
    \<exists>ret' s'. seq4_loop core avail tab old ret s = Inr (ret', s') \<and> holds csr (write_regs (table_pairs tab) m) us s'"
proof (induction tab arbitrary: m old ret s rule: table_marked.induct)
  case (3 r v tab)
  show ?case
  proof (cases "r = 0xff")
    case False
    obtain s1 where s1: "SN65_register_write core avail r v s = (1, s1)" "holds csr (m(r := v)) us s1"
      using write_holds [OF "3.prems"(1)] by blast
    obtain got s2 where s2: "SN65_register_read core avail r old s1 = (2, got, s2)" "holds csr (m(r := v)) us s2" "r \<noteq> 0x0a \<longrightarrow> got = v"
      using read_holds [OF s1(2), of avail r old] by auto
    define s3 where "s3 = (if got \<noteq> v then s2\<lparr>unequal := unequal s2 @ [r]\<rparr> else s2)"
    have "holds csr (m(r := v)) us s3" using s2(2,3) by (auto simp: s3_def holds_def)
    moreover have "table_marked tab" using "3.prems"(2) False by simp
    ultimately obtain ret' s' where
      e: "seq4_loop core avail tab got 2 s3 = Inr (ret', s')" and h: "holds csr (write_regs (table_pairs tab) (m(r := v))) us s'"
      using "3.IH" by blast
    have "seq4_loop core avail (r # v # tab) old ret s = Inr (ret', s')" using e False by (simp add: s1(1) s2(1) s3_def [symmetric])
    moreover have "table_pairs (r # v # tab) = (r, v) # table_pairs tab" using False by simp
    ultimately show ?thesis using h by (metis write_regs_simps(2))
  qed (use "3.prems" in auto)
qed auto

lemma ids_hold: "holds csr m us s \<Longrightarrow> \<exists>ids s'. read_ids core avail u rs s = (ids, s') \<and> holds csr m us s'"
proof (induction rs arbitrary: s)
  case (Cons r rs)
  obtain v s1 where s1: "SN65_register_read core avail r u s = (2, v, s1)" "holds csr m us s1"
    using read_holds [OF Cons.prems] by blast
  then show ?case using Cons.IH [OF s1(2)] by auto
qed simp


lemma pll_holds: "holds csr m us s \<Longrightarrow> holds csr m us (snd (pll_wait core avail i old ret s))"
proof (induction "11 - i" arbitrary: i old ret s rule: less_induct)
  case less
  obtain v s1 where s1: "SN65_register_read core avail 0x0a old s = (2, v, s1)" "holds csr m us s1"
    using read_holds [OF less.prems] by blast
  show ?case
  proof (cases "i + 1 > 10")
    case True
    then show ?thesis using s1 less.prems by (subst pll_wait.simps) simp
  next
    case False
    have "holds csr m us (snd (pll_wait core avail (i + 1) v 2 s1))" using False by (intro less.hyps s1(2)) simp
    then show ?thesis using s1(1) less.prems False by (subst pll_wait.simps) simp
  qed
qed

lemma work_holds:
  assumes "holds csr m us s"
  shows "\<exists>s'. dsi83_work_func core avail u s = Inr s' \<and>
    holds csr (write_regs (table_pairs dsi83_conf @ [(0x0d, 0x01), (0x09, 0x01)]) m) us s'"
proof -
  have "holds csr m us (s\<lparr>work_queued := False\<rparr>)" using assms by (simp add: holds_def)
  then obtain differ s1 where s1: "SN65_devices_read_id core avail u (s\<lparr>work_queued := False\<rparr>) = (differ, s1)" "holds csr m us s1"
    using ids_hold [of m us "s\<lparr>work_queued := False\<rparr>" avail u id_registers] by (auto simp: SN65_devices_read_id_def)
  have "table_marked dsi83_conf" by (simp add: dsi83_conf_def)
  from seq4_holds [OF s1(2) this, of avail 0 0] obtain r2 s2 where s2: "SN65_Sequence_seq4 core avail s1 = Inr (r2, s2)"
    "holds csr (write_regs (table_pairs dsi83_conf) m) us s2" unfolding SN65_Sequence_seq4_def by blast
  obtain s3 where s3: "SN65_Sequence_seq6 core avail s2 = (1, s3)" "holds csr ((write_regs (table_pairs dsi83_conf) m)(0x0d := 1)) us s3"
    using write_holds [OF s2(2)] unfolding SN65_Sequence_seq6_def by blast
  obtain r4 s4 where s4: "SN65_Sequence_seq7 core avail s3 = (r4, s4)" "holds csr ((write_regs (table_pairs dsi83_conf) m)(0x0d := 1)) us s4"
  proof -
    obtain v t where "SN65_register_read core avail 0x0a 0 s3 = (2, v, t)" "holds csr ((write_regs (table_pairs dsi83_conf) m)(0x0d := 1)) us t"
      using read_holds [OF s3(2)] by blast
    then show thesis using pll_holds [of "(write_regs (table_pairs dsi83_conf) m)(0x0d := 1)" us t avail 0 v 2]
      by (intro that [of "fst (pll_wait core avail 0 v 2 t)" "snd (pll_wait core avail 0 v 2 t)"]) (simp_all add: SN65_Sequence_seq7_def)
  qed
  obtain s5 where "SN65_Sequence_seq8 core avail s4 = (1, s5)"
    "holds csr (((write_regs (table_pairs dsi83_conf) m)(0x0d := 1))(0x09 := 1)) us s5"
    using write_holds [OF s4(2)] unfolding SN65_Sequence_seq8_def by blast
  then show ?thesis using s1(1) s2(1) s3(1) s4(1)
    by (simp add: dsi83_work_func_def write_regs_def)
qed

end

text \<open>The register file of \<open>I2c\<close>, and one that locks its clock: reads of register \<open>0x0a\<close> have bit 7 set.\<close>

definition pll_core :: "(byte \<Rightarrow> byte) i2c_core" where
  "pll_core =
     \<lparr>i2c_transfer = (\<lambda>n msgs q.
        case msgs of
          [w] \<Rightarrow> (1, msgs, q(buf w ! 0 := buf w ! 1))
        | [w, r] \<Rightarrow> (2, [w, r\<lparr>buf := [if buf w ! 0 = 0x0a then q 0x0a OR 0x80 else q (buf w ! 0)]\<rparr>], q)
        | _ \<Rightarrow> (0, msgs, q)),
      i2c_master_send = (\<lambda>c d n q. (- 6, q))\<rparr>"

interpretation pll: csr_chip pll_core "\<lambda>q. q"
proof
  fix r v :: byte and q
  show "\<exists>m q'. i2c_transfer pll_core DSI83_I2C_BUS [wr_msg 0x2d [r, v]] q = (1, m, q') \<and> (\<forall>x. x \<noteq> 0x0a \<longrightarrow> q' x = (q(r := v)) x)"
    by (simp add: pll_core_def wr_msg_def)
next
  fix r old :: byte and q
  show "\<exists>m v q'. i2c_transfer pll_core DSI83_I2C_BUS [wr_msg 0x2d [r], rd_msg 0x2d [old]] q = (2, [m, rd_msg 0x2d [v]], q') \<and>
      (r \<noteq> 0x0a \<longrightarrow> v = q r) \<and> (\<forall>x. x \<noteq> 0x0a \<longrightarrow> q' x = q x)"
    by (simp add: pll_core_def wr_msg_def rd_msg_def)
qed

interpretation regfile: csr_chip regfile_core "\<lambda>q. q"
proof
  fix r v :: byte and q
  show "\<exists>m q'. i2c_transfer regfile_core DSI83_I2C_BUS [wr_msg 0x2d [r, v]] q = (1, m, q') \<and> (\<forall>x. x \<noteq> 0x0a \<longrightarrow> q' x = (q(r := v)) x)"
    by (auto simp: regfile_core_def wr_msg_def unat_eq_0)
next
  fix r old :: byte and q
  show "\<exists>m v q'. i2c_transfer regfile_core DSI83_I2C_BUS [wr_msg 0x2d [r], rd_msg 0x2d [old]] q = (2, [m, rd_msg 0x2d [v]], q') \<and>
      (r \<noteq> 0x0a \<longrightarrow> v = q r) \<and> (\<forall>x. x \<noteq> 0x0a \<longrightarrow> q' x = q x)"
    by (simp add: regfile_core_def wr_msg_def rd_msg_def)
qed

section \<open>Properties\<close>

text \<open>
  Whatever the identification says, the work leaves the table in the registers of a chip that answers, with the clock switched on and the reset of
  the configuration behind it; nothing but register \<open>0x0a\<close> is reported as different.
\<close>

theorem dsi83_configured:
  assumes "csr_chip core csr" "adap_glb s" "unequal s = []"
  shows "\<exists>s'. dsi83_work_func core avail u s = Inr s' \<and> set (unequal s') \<subseteq> {0x0a} \<and>
    (\<forall>x. x \<noteq> 0x0a \<longrightarrow>
       csr (dsi_bus s') x = write_regs (table_pairs dsi83_conf @ [(0x0d, 0x01), (0x09, 0x01)]) (csr (dsi_bus s)) x)"
proof -
  have "holds csr (csr (dsi_bus s)) [] s" using assms(2,3) by (simp add: holds_def)
  from csr_chip.work_holds [OF assms(1) this, of avail u] show ?thesis by (auto simp: holds_def)
qed

definition dsi83_ready :: "'b \<Rightarrow> 'b dsi83" where
  "dsi83_ready q = \<lparr>adap_glb = True, dsi_bus = q, pins = [], unequal = [], work_queued = True\<rparr>"

theorem dsi83_configured_witness:
  "\<exists>s'. dsi83_work_func pll_core True 0 (dsi83_ready (\<lambda>_. 0)) = Inr s' \<and> dsi_bus s' 0x18 = 0x78 \<and> dsi_bus s' 0x09 = 1"
proof -
  have v: "write_regs (table_pairs dsi83_conf @ [(0x0d, 0x01), (0x09, 0x01)]) (\<lambda>_. 0) 0x18 = 0x78"
    "write_regs (table_pairs dsi83_conf @ [(0x0d, 0x01), (0x09, 0x01)]) (\<lambda>_. 0) 0x09 = 1"
    by (simp_all add: dsi83_conf_def write_regs_def)
  have "adap_glb (dsi83_ready (\<lambda>_ :: byte. 0 :: byte))" "unequal (dsi83_ready (\<lambda>_ :: byte. 0 :: byte)) = []"
    "dsi_bus (dsi83_ready (\<lambda>_ :: byte. 0 :: byte)) = (\<lambda>_. 0)"
    by (simp_all add: dsi83_ready_def)
  with dsi83_configured [OF pll.csr_chip_axioms this(1,2), of True 0] obtain s' where
    s': "dsi83_work_func pll_core True 0 (dsi83_ready (\<lambda>_. 0)) = Inr s'"
    "\<forall>x. x \<noteq> 0x0a \<longrightarrow> dsi_bus s' x = write_regs (table_pairs dsi83_conf @ [(0x0d, 0x01), (0x09, 0x01)]) (\<lambda>_. 0) x"
    by metis
  have "(0x18 :: byte) \<noteq> 0x0a" "(0x09 :: byte) \<noteq> 0x0a" by simp_all
  with s' v show ?thesis by metis
qed

text \<open>
  Without the bus nothing fails: the transfers return 0, which is no error, and the work runs to its end without a message to the chip.
\<close>

lemma rw_without_bus: "\<not> adap_glb s \<Longrightarrow> i2c_rw core False a r mode data s = (0, data, s)"
  by (simp add: i2c_rw_def)

lemma seq4_without_bus:
  "\<not> adap_glb s \<Longrightarrow> table_marked tab \<Longrightarrow>
    \<exists>ret' s'. seq4_loop core False tab old ret s = Inr (ret', s') \<and> \<not> adap_glb s' \<and> dsi_bus s' = dsi_bus s"
proof (induction tab arbitrary: old ret s rule: table_marked.induct)
  case (3 r v tab)
  define s3 where "s3 = (if old \<noteq> v then s\<lparr>unequal := unequal s @ [r]\<rparr> else s)"
  have s3: "\<not> adap_glb s3" "dsi_bus s3 = dsi_bus s" using "3.prems"(1) by (simp_all add: s3_def)
  show ?case
  proof (cases "r = 0xff")
    case False
    then show ?thesis using "3.IH" [OF s3(1), of old 0] "3.prems" s3(2)
      by (simp add: SN65_register_write_def SN65_register_read_def rw_without_bus s3_def [symmetric])
  qed (use "3.prems" in auto)
qed auto

lemma pll_without_bus: "\<not> adap_glb s \<Longrightarrow> snd (pll_wait core False i old ret s) = s"
proof (induction "11 - i" arbitrary: i ret rule: less_induct)
  case less
  have "snd (pll_wait core False (i + 1) old 0 s) = s" if "\<not> i + 1 > 10" using that less.prems by (intro less.hyps) auto
  then show ?case using less.prems
    by (subst pll_wait.simps) (simp add: SN65_register_read_def rw_without_bus)
qed

lemma ids_without_bus: "\<not> adap_glb s \<Longrightarrow> snd (read_ids core False u rs s) = s"
  by (induction rs) (simp_all add: SN65_register_read_def rw_without_bus case_prod_beta Let_def)

theorem missing_bus_unnoticed:
  assumes "\<not> adap_glb s"
  shows "\<exists>s'. dsi83_work_func core False u s = Inr s' \<and> dsi_bus s' = dsi_bus s"
proof -
  let ?s = "s\<lparr>work_queued := False\<rparr>"
  have ids: "snd (SN65_devices_read_id core False u ?s) = ?s"
    using ids_without_bus [of ?s core u] assms by (simp add: SN65_devices_read_id_def case_prod_beta Let_def)
  have "table_marked dsi83_conf" by (simp add: dsi83_conf_def)
  with assms obtain ret s2 where s2: "SN65_Sequence_seq4 core False ?s = Inr (ret, s2)" "\<not> adap_glb s2" "dsi_bus s2 = dsi_bus s"
    using seq4_without_bus [of ?s dsi83_conf core 0 0] by (auto simp: SN65_Sequence_seq4_def)
  have "snd (SN65_Sequence_seq6 core False s2) = s2" "snd (SN65_Sequence_seq7 core False s2) = s2" "snd (SN65_Sequence_seq8 core False s2) = s2"
    using s2(2) pll_without_bus [OF s2(2)]
    by (simp_all add: SN65_Sequence_seq6_def SN65_Sequence_seq7_def SN65_Sequence_seq8_def SN65_register_write_def SN65_register_read_def
        rw_without_bus)
  then show ?thesis using s2(1,3) by (simp add: dsi83_work_func_def case_prod_beta Let_def ids)
qed

theorem missing_bus_unnoticed_witness:
  "\<exists>s'. dsi83_work_func regfile_core False 0 ((dsi83_ready (\<lambda>_. 7))\<lparr>adap_glb := False\<rparr>) = Inr s' \<and>
     dsi_bus s' = dsi_bus ((dsi83_ready (\<lambda>_. 7))\<lparr>adap_glb := False\<rparr>)"
  by (rule missing_bus_unnoticed) (simp add: dsi83_ready_def)

end
