(* ===== verification/Spi.thy ===== *)
theory Spi
  imports I2c
begin

text \<open>
  The SPI access layer, \<^verbatim>\<open>core/lidbg_spi.c\<close>: the list of devices seen so far and the four calls, which look the device of a bus up.
  The kernel's SPI core is the parameter \<open>'b spi_core\<close>: each of its calls gets the device and the state \<open>'b\<close> of the bus.  The console
  command of the file only prints its usage.
\<close>

type_synonym u8 = byte

text \<open>\<open>dev_id\<close> stands for the address of the structure.\<close>

record spi_device =
  dev_id :: nat
  bus_num :: int
  spi_mode :: u8
  bits_per_word :: u8
  max_speed_hz :: u32

record 'b spi_state =
  spi_api_list :: "spi_device list"
  spi_bus :: 'b

record 'b spi_core =
  spi_setup :: "spi_device \<Rightarrow> 'b \<Rightarrow> int \<times> 'b"
  spi_write :: "spi_device \<Rightarrow> byte list \<Rightarrow> nat \<Rightarrow> 'b \<Rightarrow> int \<times> 'b"
  spi_read :: "spi_device \<Rightarrow> byte list \<Rightarrow> nat \<Rightarrow> 'b \<Rightarrow> int \<times> byte list \<times> 'b"
  spi_write_then_read :: "spi_device \<Rightarrow> byte list \<Rightarrow> nat \<Rightarrow> byte list \<Rightarrow> nat \<Rightarrow> 'b \<Rightarrow> int \<times> byte list \<times> 'b"

definition SPI_MINORS :: int where "SPI_MINORS = 32"

text \<open>The eight flags of the kernel, \<open>SPI_CPHA\<close> = 1 to \<open>SPI_READY\<close> = 128.\<close>

definition SPI_MODE_MASK :: u8 where
  "SPI_MODE_MASK = 0x01 OR 0x02 OR 0x04 OR 0x08 OR 0x10 OR 0x20 OR 0x40 OR 0x80"

section \<open>The list of devices\<close>

definition get_spi_api :: "int \<Rightarrow> 'b spi_state \<Rightarrow> spi_device option" where
  "get_spi_api bus_id s = List.find (\<lambda>d. bus_num d = bus_id) (spi_api_list s)"

definition add_spi_api :: "bool \<Rightarrow> spi_device \<Rightarrow> 'b spi_state \<Rightarrow> 'b spi_state" where
  "add_spi_api alloc spi s =
     (if bus_num spi \<ge> SPI_MINORS then s
      else if \<not> alloc then s
      else s\<lparr>spi_api_list := spi_api_list s @ [spi]\<rparr>)"

text \<open>\<open>list_del\<close> of the entry that \<open>get_spi_api\<close> found, the first one of the bus.\<close>

definition del_spi_api :: "int \<Rightarrow> 'b spi_state \<Rightarrow> 'b spi_state" where
  "del_spi_api bus_id s = s\<lparr>spi_api_list := remove_first (\<lambda>d. bus_num d = bus_id) (spi_api_list s)\<rparr>"

definition spi_api_probe :: "bool \<Rightarrow> spi_device \<Rightarrow> 'b spi_state \<Rightarrow> int \<times> 'b spi_state" where
  "spi_api_probe alloc spi s = (0, add_spi_api alloc spi s)"

definition spi_api_remove :: "spi_device \<Rightarrow> 'b spi_state \<Rightarrow> int \<times> 'b spi_state" where
  "spi_api_remove spi s =
     (0, case get_spi_api (bus_num spi) s of None \<Rightarrow> s | Some _ \<Rightarrow> del_spi_api (bus_num spi) s)"

section \<open>The calls\<close>

text \<open>Changing the first device of a bus in place.\<close>

fun change_first :: "('a \<Rightarrow> bool) \<Rightarrow> ('a \<Rightarrow> 'a) \<Rightarrow> 'a list \<Rightarrow> 'a list" where
  "change_first P f [] = []"
| "change_first P f (x # xs) = (if P x then f x # xs else x # change_first P f xs)"

text \<open>The speed is a parameter of type \<open>u8\<close>.\<close>

definition with_setting :: "u8 \<Rightarrow> u8 \<Rightarrow> u8 \<Rightarrow> spi_device \<Rightarrow> spi_device" where
  "with_setting mode bits speed d =
     d\<lparr>spi_mode := (spi_mode d AND SPI_MODE_MASK) OR mode, bits_per_word := bits, max_speed_hz := ucast speed\<rparr>"

definition spi_api_do_set :: "'b spi_core \<Rightarrow> int \<Rightarrow> u8 \<Rightarrow> u8 \<Rightarrow> u8 \<Rightarrow> 'b spi_state \<Rightarrow> int \<times> 'b spi_state" where
  "spi_api_do_set core bus_id mode bits speed s =
     (case get_spi_api bus_id s of
        None \<Rightarrow> (- ENODEV, s)
      | Some d \<Rightarrow>
          (case spi_setup core (with_setting mode bits speed d) (spi_bus s) of
             (ret, q) \<Rightarrow>
               (ret, s\<lparr>spi_api_list := change_first (\<lambda>d. bus_num d = bus_id) (with_setting mode bits speed) (spi_api_list s),
                       spi_bus := q\<rparr>)))"

definition spi_api_do_write :: "'b spi_core \<Rightarrow> int \<Rightarrow> byte list \<Rightarrow> nat \<Rightarrow> 'b spi_state \<Rightarrow> int \<times> 'b spi_state" where
  "spi_api_do_write core bus_id data n s =
     (case get_spi_api bus_id s of
        None \<Rightarrow> (- ENODEV, s)
      | Some d \<Rightarrow> (case spi_write core d data n (spi_bus s) of (ret, q) \<Rightarrow> (ret, s\<lparr>spi_bus := q\<rparr>)))"

definition spi_api_do_read :: "'b spi_core \<Rightarrow> int \<Rightarrow> byte list \<Rightarrow> nat \<Rightarrow> 'b spi_state \<Rightarrow> int \<times> byte list \<times> 'b spi_state" where
  "spi_api_do_read core bus_id data n s =
     (case get_spi_api bus_id s of
        None \<Rightarrow> (- ENODEV, data, s)
      | Some d \<Rightarrow> (case spi_read core d data n (spi_bus s) of (ret, data', q) \<Rightarrow> (ret, data', s\<lparr>spi_bus := q\<rparr>)))"

definition spi_api_do_write_then_read ::
  "'b spi_core \<Rightarrow> int \<Rightarrow> byte list \<Rightarrow> nat \<Rightarrow> byte list \<Rightarrow> nat \<Rightarrow> 'b spi_state \<Rightarrow> int \<times> byte list \<times> 'b spi_state" where
  "spi_api_do_write_then_read core bus_id txbuf n_tx rxbuf n_rx s =
     (case get_spi_api bus_id s of
        None \<Rightarrow> (- ENODEV, rxbuf, s)
      | Some d \<Rightarrow>
          (case spi_write_then_read core d txbuf n_tx rxbuf n_rx (spi_bus s) of (ret, rx, q) \<Rightarrow> (ret, rx, s\<lparr>spi_bus := q\<rparr>)))"

section \<open>Devices of a bus as a queue\<close>

text \<open>
  The promise of the list: the calls reach the oldest device of the bus that is listed.  For each bus the listed devices form a queue, which
  the events act on.
\<close>

datatype spi_event =
    Probe spi_device
  | Remove spi_device
  | Set int u8 u8 u8
  | Write int "byte list" nat
  | Exchange int "byte list" nat "byte list" nat

definition spi_step :: "'b spi_core \<Rightarrow> spi_event \<Rightarrow> 'b spi_state \<Rightarrow> 'b spi_state" where
  "spi_step core e s =
     (case e of
        Probe d \<Rightarrow> snd (spi_api_probe True d s)
      | Remove d \<Rightarrow> snd (spi_api_remove d s)
      | Set b mode bits speed \<Rightarrow> snd (spi_api_do_set core b mode bits speed s)
      | Write b data n \<Rightarrow> snd (spi_api_do_write core b data n s)
      | Exchange b tx n rx m \<Rightarrow> snd (snd (spi_api_do_write_then_read core b tx n rx m s)))"

definition on_bus :: "int \<Rightarrow> 'b spi_state \<Rightarrow> nat list" where
  "on_bus b s = map dev_id (filter (\<lambda>d. bus_num d = b) (spi_api_list s))"

definition queue_step :: "int \<Rightarrow> spi_event \<Rightarrow> nat list \<Rightarrow> nat list" where
  "queue_step b e q =
     (case e of
        Probe d \<Rightarrow> if bus_num d = b \<and> b < SPI_MINORS then q @ [dev_id d] else q
      | Remove d \<Rightarrow> if bus_num d = b then tl q else q
      | _ \<Rightarrow> q)"

lemma find_filter: "List.find P xs = (case filter P xs of [] \<Rightarrow> None | x # _ \<Rightarrow> Some x)"
  by (induction xs) auto

lemma filter_remove_first:
  "filter (\<lambda>d. bus_num d = b) (remove_first (\<lambda>d. bus_num d = c) xs) =
    (if b = c then tl (filter (\<lambda>d. bus_num d = b) xs) else filter (\<lambda>d. bus_num d = b) xs)"
  by (induction xs) auto

lemma change_first_keeps:
  assumes "\<And>d. bus_num (f d) = bus_num d" "\<And>d. dev_id (f d) = dev_id d"
  shows "map dev_id (filter (\<lambda>d. bus_num d = b) (change_first P f xs)) = map dev_id (filter (\<lambda>d. bus_num d = b) xs)"
  by (induction xs) (simp_all add: assms)

lemma queue_refined: "on_bus b (spi_step core e s) = queue_step b e (on_bus b s)"
proof (cases e)
  case (Remove d)
  then show ?thesis
    by (auto simp: spi_step_def spi_api_remove_def get_spi_api_def find_filter del_spi_api_def on_bus_def queue_step_def
        filter_remove_first map_tl split: list.split)
next
  case (Set c mode bits speed)
  then show ?thesis
    by (auto simp: spi_step_def spi_api_do_set_def on_bus_def queue_step_def case_prod_beta with_setting_def change_first_keeps
        split: option.split)
qed (auto simp: spi_step_def spi_api_probe_def add_spi_api_def spi_api_do_write_def spi_api_do_write_then_read_def on_bus_def queue_step_def
    case_prod_beta split: option.split)

text \<open>
  The list implements its specification: after any events the calls on a bus reach the device at the head of its queue, and fail with \<open>ENODEV\<close>
  exactly when the queue is empty.
\<close>

theorem spi_registry:
  "map_option dev_id (get_spi_api b (fold (spi_step core) es \<lparr>spi_api_list = [], spi_bus = q\<rparr>)) =
    (case fold (queue_step b) es [] of [] \<Rightarrow> None | d # _ \<Rightarrow> Some d)"
proof -
  have run: "on_bus b (fold (spi_step core) es s) = fold (queue_step b) es (on_bus b s)" for s
    by (induction es arbitrary: s) (simp_all add: queue_refined)
  have get: "map_option dev_id (get_spi_api b s) = (case on_bus b s of [] \<Rightarrow> None | d # _ \<Rightarrow> Some d)" for s :: "'a spi_state"
    by (simp add: get_spi_api_def find_filter on_bus_def split: list.split)
  show ?thesis unfolding get run by (simp add: on_bus_def)
qed

text \<open>
  With two devices on a bus, the removal of the younger one takes the older one off the list: the calls then reach the device that is gone.
\<close>

theorem wrong_device_removed:
  assumes "bus_num d1 = b" "bus_num d2 = b" "b < SPI_MINORS"
  shows "get_spi_api b (fold (spi_step core) [Probe d1, Probe d2, Remove d2] \<lparr>spi_api_list = [], spi_bus = q\<rparr>) = Some d2"
  using assms by (simp add: spi_step_def spi_api_probe_def add_spi_api_def spi_api_remove_def get_spi_api_def del_spi_api_def)

definition plain_device :: "nat \<Rightarrow> int \<Rightarrow> spi_device" where
  "plain_device n b = \<lparr>dev_id = n, bus_num = b, spi_mode = 0, bits_per_word = 8, max_speed_hz = 1000000\<rparr>"

definition idle_core :: "unit spi_core" where
  "idle_core = \<lparr>spi_setup = (\<lambda>d q. (0, q)), spi_write = (\<lambda>d data n q. (0, q)), spi_read = (\<lambda>d data n q. (0, data, q)),
     spi_write_then_read = (\<lambda>d tx n rx m q. (0, rx, q))\<rparr>"

theorem wrong_device_removed_witness:
  "get_spi_api 1 (fold (spi_step idle_core) [Probe (plain_device 1 1), Probe (plain_device 2 1), Remove (plain_device 2 1)]
     \<lparr>spi_api_list = [], spi_bus = ()\<rparr>) = Some (plain_device 2 1)"
  by (rule wrong_device_removed) (simp_all add: plain_device_def SPI_MINORS_def)

text \<open>Setting the mode never takes a flag away, since the mask keeps all of them; and the speed is at most 255 Hz.\<close>

lemma mask_keeps: "(m :: u8) AND SPI_MODE_MASK = m"
proof -
  have "SPI_MODE_MASK = - 1" by (simp add: SPI_MODE_MASK_def)
  then have "m AND SPI_MODE_MASK = m AND - 1" by (rule arg_cong)
  then show ?thesis unfolding and.right_neutral .
qed

theorem mode_only_grows:
  assumes "get_spi_api b s = Some d"
  shows "\<exists>d'. get_spi_api b (snd (spi_api_do_set core b mode bits speed s)) = Some d' \<and> spi_mode d' = spi_mode d OR mode \<and> max_speed_hz d' \<le> 255"
proof -
  have "List.find P (change_first P f xs) = map_option f (List.find P xs)" if "\<And>x. P (f x) = P x"
    for P :: "spi_device \<Rightarrow> bool" and f xs using that by (induction xs) auto
  then have "get_spi_api b (snd (spi_api_do_set core b mode bits speed s)) = Some (with_setting mode bits speed d)"
    using assms by (simp add: spi_api_do_set_def case_prod_beta get_spi_api_def with_setting_def)
  moreover have "(ucast speed :: u32) \<le> 255"
    using unsigned_less [of speed, where ?'a = nat] by (simp add: word_le_nat_alt unsigned_ucast_eq take_bit_nat_eq_self)
  ultimately show ?thesis by (simp add: with_setting_def mask_keeps)
qed

theorem mode_only_grows_witness:
  "\<exists>d'. get_spi_api 1 (snd (spi_api_do_set idle_core 1 0 8 200 \<lparr>spi_api_list = [(plain_device 1 1)\<lparr>spi_mode := 3\<rparr>], spi_bus = ()\<rparr>)) = Some d' \<and>
     spi_mode d' = spi_mode ((plain_device 1 1)\<lparr>spi_mode := 3\<rparr>) OR 0 \<and> max_speed_hz d' \<le> 255"
  by (rule mode_only_grows) (simp add: get_spi_api_def plain_device_def)

end
