(* ===== verification/Test_Drivers.thy ===== *)
theory Test_Drivers
  imports Prelude
begin

text \<open>
  Three small drivers: the one that toggles a pin to test the power supply (\<^verbatim>\<open>drivers/monkey\<close>), the one that lets the button light blink
  (\<^verbatim>\<open>drivers/suspend_monitor\<close>), and the printer of the modem's messages (\<^verbatim>\<open>drivers/bp_msg\<close>).  The threads appear as their steps; what
  they do to the outside is a list of actions.
\<close>

section \<open>The pin tester\<close>

datatype monkey_act = Pin int int | Msleep int

text \<open>\<open>monkey_wait\<close> is the number of calls of \<open>complete\<close> not yet waited for; \<open>in_off\<close> tells that the thread is between its two halves.\<close>

record monkey =
  gpio_pin :: int
  monkey_enable :: int
  random_on_en :: int
  random_off_en :: int
  on_ms :: int
  off_ms :: int
  sleep_ms :: int
  monkey_wait :: nat
  in_off :: bool
  monkey_acts :: "monkey_act list"

definition monkey_start :: monkey where
  "monkey_start = \<lparr>gpio_pin = 0, monkey_enable = 0, random_on_en = 0, random_off_en = 0, on_ms = 0, off_ms = 0, sleep_ms = 0,
     monkey_wait = 0, in_off = False, monkey_acts = []\<rparr>"

text \<open>The random bytes are the first argument; the remainder of a division by zero is a fault.\<close>

definition lidbg_get_random_number :: "u32 \<Rightarrow> u32 \<Rightarrow> fault + u32" where
  "lidbg_get_random_number random num_max = (if num_max = 0 then Inl DivByZero else Inr (random mod num_max))"

definition monkey_cmn_callback :: "bool \<Rightarrow> monkey \<Rightarrow> bool \<times> monkey" where
  "monkey_cmn_callback on_off m =
     (True, m\<lparr>monkey_acts := monkey_acts m @ [Pin (gpio_pin m) (if on_off then 1 else 0), Msleep (sleep_ms m)]\<rparr>)"

definition monkey_run :: "int \<Rightarrow> monkey \<Rightarrow> monkey" where
  "monkey_run enable m =
     (if enable = 0 then m\<lparr>monkey_enable := 0\<rparr> else m\<lparr>monkey_enable := 1, monkey_wait := monkey_wait m + 1\<rparr>)"

text \<open>One half of \<open>monkey_work_func\<close>.\<close>

definition monkey_half :: "bool \<Rightarrow> u32 \<Rightarrow> monkey \<Rightarrow> fault + monkey" where
  "monkey_half on_off random m =
     (let ms = (if on_off then on_ms m else off_ms m);
          rand = (if on_off then random_on_en m else random_off_en m)
      in bindE (if rand \<noteq> 0 then bindE (lidbg_get_random_number random (word_of_int ms)) (\<lambda>w. Inr (sint w)) else Inr ms) (\<lambda>t.
           let (ok, m1) = monkey_cmn_callback on_off (m\<lparr>sleep_ms := t\<rparr>) in Inr (if \<not> ok then monkey_run 0 m1 else m1)))"

text \<open>The thread: a round when it is enabled, otherwise a wait.  \<open>None\<close> is a thread that sleeps in the wait.\<close>

definition monkey_work :: "u32 \<Rightarrow> monkey \<Rightarrow> (fault + monkey) option" where
  "monkey_work random m =
     (if in_off m then Some (bindE (monkey_half False random m) (\<lambda>m1. Inr (m1\<lparr>in_off := False\<rparr>)))
      else if monkey_enable m \<noteq> 0 then Some (bindE (monkey_half True random m) (\<lambda>m1. Inr (m1\<lparr>in_off := True\<rparr>)))
      else if monkey_wait m > 0 then Some (Inr (m\<lparr>monkey_wait := monkey_wait m - 1\<rparr>))
      else None)"

definition monkey_config :: "int \<Rightarrow> int \<Rightarrow> int \<Rightarrow> int \<Rightarrow> int \<Rightarrow> monkey \<Rightarrow> monkey" where
  "monkey_config gpio on_en off_en on off m =
     m\<lparr>gpio_pin := gpio, random_on_en := on_en, random_off_en := off_en, on_ms := on, off_ms := off\<rparr>"

text \<open>The value of the key is in \<open>monkey_enable\<close> when the callback runs.\<close>

definition cb_kv_monkey_enable :: "int \<Rightarrow> monkey \<Rightarrow> monkey" where
  "cb_kv_monkey_enable v m = (let m1 = m\<lparr>monkey_enable := v\<rparr> in monkey_run (monkey_enable m1) m1)"

datatype monkey_op = Work u32 | Run int | Config int int int int int | Key int

definition monkey_step :: "monkey_op \<Rightarrow> monkey \<Rightarrow> fault + monkey" where
  "monkey_step op m =
     (case op of
        Work r \<Rightarrow> (case monkey_work r m of None \<Rightarrow> Inr m | Some res \<Rightarrow> res)
      | Run n \<Rightarrow> Inr (monkey_run n m)
      | Config g a b c d \<Rightarrow> Inr (monkey_config g a b c d m)
      | Key v \<Rightarrow> Inr (cb_kv_monkey_enable v m))"

text \<open>The levels that were put on the pin, in order; they alternate, beginning with \<open>b\<close>.\<close>

definition levels :: "monkey_act list \<Rightarrow> int list" where
  "levels as = concat (map (\<lambda>a. case a of Pin _ v \<Rightarrow> [v] | Msleep _ \<Rightarrow> []) as)"

fun alternating :: "nat \<Rightarrow> int list" where
  "alternating 0 = []"
| "alternating (Suc n) = alternating n @ [if even n then 1 else 0]"

definition monkey_ok :: "monkey \<Rightarrow> bool" where
  "monkey_ok m \<longleftrightarrow> (\<exists>n. levels (monkey_acts m) = alternating n \<and> in_off m = odd n)"

lemma levels_append [simp]: "levels (as @ bs) = levels as @ levels bs" "levels [] = []"
  "levels (Pin p v # as) = v # levels as" "levels (Msleep t # as) = levels as"
  by (simp_all add: levels_def)

lemma half_levels:
  "monkey_half on r m = Inr m' \<Longrightarrow>
    levels (monkey_acts m') = levels (monkey_acts m) @ [if on then 1 else 0] \<and> in_off m' = in_off m \<and> monkey_enable m' = monkey_enable m"
  by (auto simp: monkey_half_def monkey_cmn_callback_def bindE_eq_Inr_iff Let_def split: if_splits)

lemma run_keeps [simp]: "monkey_acts (monkey_run n m) = monkey_acts m" "in_off (monkey_run n m) = in_off m"
  by (simp_all add: monkey_run_def)

lemma monkey_step_ok: "monkey_ok m \<Longrightarrow> monkey_step op m = Inr m' \<Longrightarrow> monkey_ok m'"
proof (cases op)
  case (Work r)
  assume ok: "monkey_ok m" and st: "monkey_step op m = Inr m'"
  then obtain n where n: "levels (monkey_acts m) = alternating n" "in_off m = odd n" by (auto simp: monkey_ok_def)
  show ?thesis
  proof (cases "in_off m \<or> monkey_enable m \<noteq> 0")
    case True
    then have "levels (monkey_acts m') = alternating (Suc n) \<and> in_off m' = odd (Suc n)"
      using st n Work by (auto simp: monkey_step_def monkey_work_def bindE_eq_Inr_iff dest!: half_levels split: if_splits)
    then show ?thesis unfolding monkey_ok_def by blast
  next
    case False
    then show ?thesis using st n Work by (auto simp: monkey_step_def monkey_work_def monkey_ok_def split: if_splits)
  qed
qed (auto simp: monkey_step_def monkey_config_def cb_kv_monkey_enable_def monkey_ok_def Let_def)

text \<open>
  The pin is never left high: whatever runs, enables, disables and configures the tester in whatever order, whenever its thread waits, the last level
  it put on the pin is low, and high and low alternate.
\<close>

theorem pin_left_low:
  assumes "foldE monkey_step ops monkey_start = Inr m" "monkey_work r m = None"
  shows "\<exists>n. levels (monkey_acts m) = alternating (2 * n)"
proof -
  have start: "monkey_ok monkey_start" by (auto simp: monkey_ok_def monkey_start_def intro: exI [of _ 0])
  have "monkey_ok m" by (rule foldE_invariant [where P = monkey_ok, OF _ start assms(1)]) (rule monkey_step_ok)
  moreover have "\<not> in_off m" using assms(2) by (auto simp: monkey_work_def split: if_splits)
  ultimately show ?thesis by (auto simp: monkey_ok_def elim!: evenE)
qed

theorem pin_left_low_witness:
  "\<exists>m n. foldE monkey_step [Config 5 0 1 100 200, Run 1, Work 0, Run 0, Work 333, Work 0, Work 0] monkey_start = Inr m \<and>
     levels (monkey_acts m) = alternating (2 * n)"
proof -
  let ?ops = "[Config 5 0 1 100 200, Run 1, Work 0, Run 0, Work 333, Work 0, Work 0]"
  obtain m where m: "foldE monkey_step ?ops monkey_start = Inr m" "monkey_work 0 m = None"
    by (simp add: monkey_step_def monkey_config_def monkey_run_def monkey_work_def monkey_half_def monkey_cmn_callback_def monkey_start_def
        lidbg_get_random_number_def)
  from pin_left_low [OF m] m(1) show ?thesis by blast
qed

text \<open>With the times that are the default, random times are a division by zero.\<close>

theorem random_without_time: "foldE monkey_step [Key 1, Config 5 1 0 0 200, Work r] monkey_start = Inl DivByZero"
  by (simp add: monkey_step_def monkey_config_def monkey_run_def monkey_work_def monkey_half_def monkey_start_def
      lidbg_get_random_number_def cb_kv_monkey_enable_def)

section \<open>The button light\<close>

datatype led_act = Led string | Led_Sleep int

record suspend_monitor =
  led_ctrl_en :: int
  sleep_time :: int
  led_status :: int
  suspend_times :: int
  led_acts :: "led_act list"

definition LED_FLASH_FAST :: int where "LED_FLASH_FAST = 500"
definition LED_FLASH_SLOW :: int where "LED_FLASH_SLOW = 2000"

definition led_ctrl :: "bool \<Rightarrow> suspend_monitor \<Rightarrow> suspend_monitor" where
  "led_ctrl on m = m\<lparr>led_acts := led_acts m @ [Led (show_int (if on then 1 else 0))]\<rparr>"

definition led_tigger :: "suspend_monitor \<Rightarrow> suspend_monitor" where
  "led_tigger m =
     (let st = led_status m mod 2;
          m1 = (if led_ctrl_en m \<noteq> 0 then led_ctrl (st \<noteq> 0) m else m)
      in m1\<lparr>led_acts := led_acts m1 @ [Led_Sleep (if st = 1 then sleep_time m1 div 10 else sleep_time m1)], led_status := st + 1\<rparr>)"

definition suspend_monitor_early_suspend :: "suspend_monitor \<Rightarrow> suspend_monitor" where
  "suspend_monitor_early_suspend m = led_ctrl True (m\<lparr>sleep_time := LED_FLASH_FAST, led_ctrl_en := 0\<rparr>)"

definition suspend_monitor_late_resume :: "suspend_monitor \<Rightarrow> suspend_monitor" where
  "suspend_monitor_late_resume m = (led_ctrl False (m\<lparr>sleep_time := LED_FLASH_SLOW\<rparr>))\<lparr>led_ctrl_en := 1\<rparr>"

definition suspend_monitor_resume :: "suspend_monitor \<Rightarrow> suspend_monitor" where
  "suspend_monitor_resume m = led_ctrl True (m\<lparr>suspend_times := suspend_times m + 1\<rparr>)"

definition suspend_monitor_suspend :: "suspend_monitor \<Rightarrow> suspend_monitor" where
  "suspend_monitor_suspend m = led_ctrl False m"

text \<open>The lights that were written.\<close>

definition lights :: "suspend_monitor \<Rightarrow> string list" where
  "lights m = concat (map (\<lambda>a. case a of Led t \<Rightarrow> [t] | Led_Sleep _ \<Rightarrow> []) (led_acts m))"

text \<open>While the screen is off the light does not blink: from the early suspend on the thread writes nothing.\<close>

theorem no_blinking_in_suspend: "lights ((led_tigger ^^ n) (suspend_monitor_early_suspend m)) = lights m @ [''1'']"
proof -
  have "led_ctrl_en ((led_tigger ^^ n) k) = led_ctrl_en k \<and> (led_ctrl_en k = 0 \<longrightarrow> lights ((led_tigger ^^ n) k) = lights k)" for k
    by (induction n) (simp_all add: led_tigger_def Let_def led_ctrl_def lights_def)
  moreover have "show_int 1 = ''1''" by code_simp
  ultimately show ?thesis by (simp add: suspend_monitor_early_suspend_def led_ctrl_def lights_def)
qed

section \<open>The modem's messages\<close>

text \<open>The shared memory: the modem writes at \<open>start_pos\<close>, this side prints at \<open>end_pos\<close>.\<close>

definition BP_TOTAL_LOGS :: int where "BP_TOTAL_LOGS = 500"

record smem_log_deep =
  start_pos :: int
  end_pos :: int
  bp_log :: "string list"

text \<open>A round of the thread, with what it prints.  An index outside the array is a fault.\<close>

definition thread_bp_msg :: "int \<Rightarrow> smem_log_deep \<Rightarrow> fault + (string list \<times> smem_log_deep)" where
  "thread_bp_msg bp_msg_en m =
     (if start_pos m \<noteq> end_pos m then
        bindE (if bp_msg_en \<noteq> 0 then
                 if 0 \<le> end_pos m \<and> end_pos m < BP_TOTAL_LOGS then Inr [bp_log m ! nat (end_pos m)] else Inl BufOverrun
               else Inr [])
          (\<lambda>out. Inr (out, m\<lparr>end_pos := (end_pos m + 1) mod BP_TOTAL_LOGS\<rparr>))
      else Inr ([], m))"

primrec bp_rounds :: "nat \<Rightarrow> smem_log_deep \<Rightarrow> fault + (string list \<times> smem_log_deep)" where
  "bp_rounds 0 m = Inr ([], m)"
| "bp_rounds (Suc n) m =
     bindE (thread_bp_msg 1 m) (\<lambda>(out, m1). bindE (bp_rounds n m1) (\<lambda>(outs, m2). Inr (out @ outs, m2)))"

text \<open>
  The messages between the two positions are printed, each once and in order, across the end of the ring; then the positions are equal and the thread
  prints nothing more.
\<close>

theorem bp_messages_printed:
  assumes "0 \<le> end_pos m" "end_pos m < BP_TOTAL_LOGS" "start_pos m = (end_pos m + int n) mod BP_TOTAL_LOGS" "n < 500"
  shows "bp_rounds (n + k) m =
    Inr (map (\<lambda>i. bp_log m ! nat ((end_pos m + int i) mod BP_TOTAL_LOGS)) [0..<n], m\<lparr>end_pos := start_pos m\<rparr>)"
  using assms
proof (induction n arbitrary: m)
  case 0
  then have "end_pos m = start_pos m" by (simp add: BP_TOTAL_LOGS_def)
  then have idle: "thread_bp_msg 1 m = Inr ([], m)" "m\<lparr>end_pos := start_pos m\<rparr> = m" by (simp_all add: thread_bp_msg_def)
  have "bp_rounds k m = Inr ([], m)" by (induction k) (simp_all add: idle(1))
  then show ?case using idle(2) by simp
next
  case (Suc n)
  define m1 where "m1 = m\<lparr>end_pos := (end_pos m + 1) mod BP_TOTAL_LOGS\<rparr>"
  have ne: "start_pos m \<noteq> end_pos m"
  proof
    assume "start_pos m = end_pos m"
    then have "(end_pos m + int (Suc n)) mod 500 = end_pos m mod 500" using Suc.prems by (simp add: BP_TOTAL_LOGS_def)
    then have "int (Suc n) mod 500 = 0" by (metis add_diff_cancel_left' mod_diff_cong cancel_comm_monoid_add_class.diff_cancel mod_0)
    then show False using Suc.prems(4) by simp
  qed
  then have step: "thread_bp_msg 1 m = Inr ([bp_log m ! nat (end_pos m)], m1)"
    using Suc.prems by (simp add: thread_bp_msg_def m1_def)
  have "bp_rounds (n + k) m1 =
      Inr (map (\<lambda>i. bp_log m1 ! nat ((end_pos m1 + int i) mod BP_TOTAL_LOGS)) [0..<n], m1\<lparr>end_pos := start_pos m1\<rparr>)"
    using Suc.prems by (intro Suc.IH) (simp_all add: m1_def BP_TOTAL_LOGS_def mod_add_left_eq mod_add_right_eq ac_simps)
  moreover have "map (\<lambda>i. bp_log m1 ! nat ((end_pos m1 + int i) mod BP_TOTAL_LOGS)) [0..<n] =
      map (\<lambda>i. bp_log m ! nat ((end_pos m + int i) mod BP_TOTAL_LOGS)) [1..<Suc n]"
    by (simp add: m1_def mod_add_left_eq mod_add_right_eq ac_simps map_Suc_upt [symmetric] del: upt_Suc)
  moreover have "bp_log m ! nat (end_pos m) = bp_log m ! nat ((end_pos m + int 0) mod BP_TOTAL_LOGS)" using Suc.prems by simp
  moreover have "[0..<Suc n] = 0 # [1..<Suc n]" by (simp add: upt_conv_Cons del: upt_Suc)
  ultimately show ?case using step by (simp add: m1_def del: upt_Suc)
qed

theorem bp_messages_printed_witness:
  "bp_rounds (2 + 3) \<lparr>start_pos = 1, end_pos = 499, bp_log = replicate 499 [] @ [''x'']\<rparr> =
    Inr (map (\<lambda>i. bp_log \<lparr>start_pos = 1, end_pos = 499, bp_log = replicate 499 [] @ [''x'']\<rparr> !
           nat ((end_pos \<lparr>start_pos = 1, end_pos = 499, bp_log = replicate 499 [] @ [''x'']\<rparr> + int i) mod BP_TOTAL_LOGS)) [0..<2],
         \<lparr>start_pos = 1, end_pos = 499, bp_log = replicate 499 [] @ [''x'']\<rparr>
           \<lparr>end_pos := start_pos \<lparr>start_pos = 1, end_pos = 499, bp_log = replicate 499 [] @ [''x'']\<rparr>\<rparr>)"
  by (rule bp_messages_printed) (simp_all add: BP_TOTAL_LOGS_def)

end
