(* ===== verification/Ts_Probe.thy ===== *)
theory Ts_Probe
  imports I2c Fs Cmn
begin

text \<open>
  The search for the touch screen controller, \<^verbatim>\<open>drivers/touchscreen/lidbg_ts_probe_new.c\<close>: a thread resets the screen in the
  way of each known controller, reads from the controller's address on the I2C bus (theory \<open>I2c\<close>), and asks for the
  driver of the first one that answers, until a driver has reported that it is loaded.

  The functions of the code that return nothing and work on global variables are functions on \<open>ts_probe\<close>; the pins and the
  sleeps are collected in \<open>tp_acts\<close>.  The two variables with a key are cells of the key-value store.  \<open>is_ts_load\<close> is
  written by the driver of the controller, so its values when it is tested are an argument.
\<close>

datatype ts_act = SOC_IO_Output u32 bool | TsMsleep int | TsUsleep int

record probe_device =
  chip_addr :: byte
  sub_addr :: u32
  dev_name :: string
  reset :: "bool \<Rightarrow> ts_act list"

text \<open>What does not change: the chip, the configuration file, the results of \<open>kmalloc\<close>, the time, an uninitialised byte.\<close>

record ts_env =
  soc_msm8x25 :: bool
  FLYHAL_CONFIG_PATH :: string
  ts_alloc :: bool
  ts_now :: string
  ts_tmp :: byte
  ts_max_len :: int

record 'b ts_probe =
  tp_i2c :: "'b i2c_state"
  tp_loop :: u32
  tp_acts :: "ts_act list"
  tp_fs :: fsys
  tp_ue :: uevent_state
  tp_kv :: "kv_list \<times> kv_list \<times> cells"
  flyhal_config_list :: kv_list
  tp_filenames :: "fs_filename_item list"
  ts_should_revert :: int

definition RESET_GPIO_ACTIVE :: bool where "RESET_GPIO_ACTIVE = True"
definition USE_TS_NUM :: int where "USE_TS_NUM = 0"
definition RESET_GPIO :: "bool \<Rightarrow> u32" where "RESET_GPIO msm8x25 = (if msm8x25 then 27 else 24)"
definition TS_I2C_BUS :: "bool \<Rightarrow> int" where "TS_I2C_BUS msm8x25 = (if msm8x25 then 1 else 5)"
definition INT_GPIO :: "bool \<Rightarrow> u32" where "INT_GPIO msm8x25 = (if msm8x25 then 48 else 69)"
definition TS_LOG_PATH :: string where "TS_LOG_PATH = ''/data/lidbg/ts_log.txt''"

section \<open>Resets\<close>

definition gt9xx_reset_high_active :: "bool \<Rightarrow> ts_act list" where
  "gt9xx_reset_high_active msm8x25 =
     [SOC_IO_Output (RESET_GPIO msm8x25) (\<not> RESET_GPIO_ACTIVE), TsMsleep 200] @
     (if \<not> msm8x25 then [SOC_IO_Output (INT_GPIO msm8x25) True, TsUsleep 200] else []) @
     [SOC_IO_Output (RESET_GPIO msm8x25) RESET_GPIO_ACTIVE, TsMsleep 300]"

definition reset_high_active :: "bool \<Rightarrow> ts_act list" where
  "reset_high_active msm8x25 =
     [SOC_IO_Output (RESET_GPIO msm8x25) (\<not> RESET_GPIO_ACTIVE), TsMsleep 200,
      SOC_IO_Output (RESET_GPIO msm8x25) RESET_GPIO_ACTIVE, TsMsleep 300]"

definition reset_low_active :: "bool \<Rightarrow> ts_act list" where
  "reset_low_active msm8x25 =
     [SOC_IO_Output (RESET_GPIO msm8x25) RESET_GPIO_ACTIVE, TsMsleep 200,
      SOC_IO_Output (RESET_GPIO msm8x25) (\<not> RESET_GPIO_ACTIVE), TsMsleep 300]"

definition ts_probe_dev :: "probe_device list" where
  "ts_probe_dev =
     [\<lparr>chip_addr = 0x14, sub_addr = 0x00, dev_name = ''gt911.ko'', reset = gt9xx_reset_high_active\<rparr>,
      \<lparr>chip_addr = 0x5d, sub_addr = 0x00, dev_name = ''gt811.ko'', reset = reset_high_active\<rparr>,
      \<lparr>chip_addr = 0x55, sub_addr = 0x00, dev_name = ''gt801.ko'', reset = reset_low_active\<rparr>,
      \<lparr>chip_addr = 0x38, sub_addr = 0x00, dev_name = ''ft5x06_ts.ko'', reset = reset_high_active\<rparr>]"

section \<open>Scanning\<close>

text \<open>The functions of \<^verbatim>\<open>drivers/hal/lidbg_fly_hal.c\<close> behind the function table.\<close>

definition SOC_I2C_Rec_Simple where
  "SOC_I2C_Rec_Simple core bus_id addr_chip data sz = i2c_api_do_recv_no_sub_addr core bus_id addr_chip 0 data sz"
definition SOC_I2C_Rec where
  "SOC_I2C_Rec core bus_id addr_chip addr_sub data sz = i2c_api_do_recv core bus_id addr_chip addr_sub data sz"

text \<open>The body of the loop: whether the controller answered, the byte and the state.\<close>

definition ts_try :: "'b i2c_core \<Rightarrow> ts_env \<Rightarrow> probe_device \<Rightarrow> byte list \<Rightarrow> 'b ts_probe \<Rightarrow> bool \<times> byte list \<times> 'b ts_probe" where
  "ts_try core e tsdev tmp s =
     (let bus_id = TS_I2C_BUS (soc_msm8x25 e);
          (rc1, tmp1, i1) = SOC_I2C_Rec_Simple core bus_id (chip_addr tsdev) tmp 1 (tp_i2c s);
          (rc2, tmp2, i2) = SOC_I2C_Rec core bus_id (chip_addr tsdev) (sub_addr tsdev) tmp1 1 i1;
          (rc3, tmp3, i3) = SOC_I2C_Rec core bus_id 0x12 0x00 tmp2 1 i2;
          s1 = s\<lparr>tp_i2c := i3, tp_acts := tp_acts s @ reset tsdev (soc_msm8x25 e)\<rparr>
      in if rc1 < 0 \<and> rc2 < 0 then (False, tmp3, s1\<lparr>tp_loop := tp_loop s + 1\<rparr>) else (True, tmp3, s1))"

fun ts_scan_loop ::
  "'b i2c_core \<Rightarrow> ts_env \<Rightarrow> probe_device list \<Rightarrow> byte list \<Rightarrow> 'b ts_probe \<Rightarrow> probe_device option \<times> 'b ts_probe" where
  "ts_scan_loop core e [] tmp s = (None, s)"
| "ts_scan_loop core e (tsdev # ds) tmp s =
     (case ts_try core e tsdev tmp s of
        (found, tmp', s') \<Rightarrow> if found then (Some tsdev, s') else ts_scan_loop core e ds tmp' s')"

definition ts_scan :: "'b i2c_core \<Rightarrow> ts_env \<Rightarrow> probe_device list \<Rightarrow> 'b ts_probe \<Rightarrow> probe_device option \<times> 'b ts_probe" where
  "ts_scan core e devs s = ts_scan_loop core e devs [ts_tmp e] s"

section \<open>Asking for a driver\<close>

definition lidbg_insmod :: "string \<Rightarrow> uevent_state \<Rightarrow> fault + uevent_state" where
  "lidbg_insmod path u =
     bindE (sprintf_to (''insmod '' @ path) (replicate 256 (CHR 0x00))) (\<lambda>cmd. Inr (uevent_shell (c_string cmd) u))"

definition ts_insmod :: "string \<Rightarrow> 'b ts_probe \<Rightarrow> fault + 'b ts_probe" where
  "ts_insmod path s = bindE (lidbg_insmod path (tp_ue s)) (\<lambda>u. Inr (s\<lparr>tp_ue := u\<rparr>))"

text \<open>The macro \<open>lidbg_fs_log\<close>: a time stamp and the text.\<close>

definition lidbg_fs_log :: "int \<Rightarrow> string \<Rightarrow> string \<Rightarrow> string \<Rightarrow> fsys \<Rightarrow> fault + fsys option" where
  "lidbg_fs_log max_len now path msg fs =
     bindO (fs_string2file max_len 0 path (''['' @ now @ ''] '') fs) (\<lambda>(_, fs1).
     bindO (fs_string2file max_len 0 path msg fs1) (\<lambda>(_, fs2). Inr (Some fs2)))"

definition ts_scan_delayms_at :: nat where "ts_scan_delayms_at = 0"
definition ts_choose_touchscreen_at :: nat where "ts_choose_touchscreen_at = 1"

definition ts_scan_delayms :: "'b ts_probe \<Rightarrow> int" where
  "ts_scan_delayms s = sint (snd (snd (tp_kv s)) ts_scan_delayms_at)"
definition ts_choose_touchscreen :: "'b ts_probe \<Rightarrow> int" where
  "ts_choose_touchscreen s = sint (snd (snd (tp_kv s)) ts_choose_touchscreen_at)"

definition loadts_line :: "probe_device \<Rightarrow> 'b ts_probe \<Rightarrow> string" where
  "loadts_line ts_info s =
     ''loadts='' @ dev_name ts_info @ '',USE_TS_NUM:'' @ show_int USE_TS_NUM @ '',ts_choose_touchscreen:'' @
     show_int (ts_choose_touchscreen s) @ '',ts_should_revert:'' @ show_int (ts_should_revert s) @ [CHR 0x0A]"

definition parse_ts_info :: "ts_env \<Rightarrow> probe_device \<Rightarrow> 'b ts_probe \<Rightarrow> fault + 'b ts_probe option" where
  "parse_ts_info e ts_info s =
     bindE (sprintf_to (''/system/lib/modules/out/'' @ dev_name ts_info) (replicate 100 (CHR 0x00))) (\<lambda>path1.
     bindE (ts_insmod (c_string path1) s) (\<lambda>s1.
     bindE (sprintf_to (''/flysystem/lib/out/'' @ dev_name ts_info) path1) (\<lambda>path2.
     bindE (ts_insmod (c_string path2) s1) (\<lambda>s2.
     bindO (lidbg_fs_log (ts_max_len e) (ts_now e) TS_LOG_PATH (loadts_line ts_info s2) (tp_fs s2)) (\<lambda>fs1.
     bindO (fs_mem_log (ts_max_len e) (loadts_line ts_info s2) fs1) (\<lambda>(_, fs2).
     Inr (Some (s2\<lparr>tp_fs := fs2\<rparr>))))))))"

section \<open>The thread\<close>

definition ts_probe_prepare :: "ts_env \<Rightarrow> 'b ts_probe \<Rightarrow> fault + 'b ts_probe" where
  "ts_probe_prepare e s =
     (let l = snd (fs_fill_list (ts_alloc e) (content (tp_fs s) (FLYHAL_CONFIG_PATH e)) FS_CMD_FILE_LISTMODE (flyhal_config_list s)) in
      bindE (FS_REGISTER_INT ts_scan_delayms_at ''ts_scan_delayms'' 500 None (tp_kv s)) (\<lambda>kv1.
      bindE (FS_REGISTER_INT ts_choose_touchscreen_at ''ts_choose_touchscreen'' 0 None kv1) (\<lambda>kv2.
      let s1 = s\<lparr>flyhal_config_list := l, tp_kv := kv2, ts_should_revert := fst (fs_find_string l ''TSMODE_XYREVERT'')\<rparr> in
      bindE (ts_insmod ''/system/lib/modules/out/lidbg_ts_to_recov.ko'' s1) (\<lambda>s2.
      bindE (ts_insmod ''/flysystem/lib/out/lidbg_ts_to_recov.ko'' s2) (\<lambda>s3.
      Inr (s3\<lparr>tp_filenames := snd (register_filename_list (ts_alloc e) TS_LOG_PATH True (tp_filenames s3))\<rparr>))))))"

text \<open>One round of the loop of \<open>ts_probe_thread\<close>.\<close>

definition ts_round :: "'b i2c_core \<Rightarrow> ts_env \<Rightarrow> 'b ts_probe \<Rightarrow> fault + 'b ts_probe option" where
  "ts_round core e s =
     (case ts_scan core e ts_probe_dev s of
        (ts, s1) \<Rightarrow>
          bindO (case ts of
                   None \<Rightarrow> Inr (Some s1)
                 | Some d \<Rightarrow> bindO (parse_ts_info e d s1) (\<lambda>s2. Inr (Some (s2\<lparr>tp_acts := tp_acts s2 @ [TsMsleep 5000]\<rparr>)))) (\<lambda>s3.
          Inr (Some (s3\<lparr>tp_acts := tp_acts s3 @ [TsMsleep (ts_scan_delayms s3)]\<rparr>))))"

text \<open>The values of \<open>is_ts_load\<close> when the loop tests it; the flag of the result tells whether the loop has ended.\<close>

fun ts_rounds :: "'b i2c_core \<Rightarrow> ts_env \<Rightarrow> bool list \<Rightarrow> 'b ts_probe \<Rightarrow> fault + (bool \<times> 'b ts_probe) option" where
  "ts_rounds core e [] s = Inr (Some (False, s))"
| "ts_rounds core e (loaded # ls) s =
     (if loaded then Inr (Some (True, s)) else bindO (ts_round core e s) (ts_rounds core e ls))"

text \<open>An index outside the array of the known controllers is a fault.\<close>

definition ts_probe_thread :: "'b i2c_core \<Rightarrow> ts_env \<Rightarrow> bool list \<Rightarrow> 'b ts_probe \<Rightarrow> fault + (bool \<times> 'b ts_probe) option" where
  "ts_probe_thread core e loads s =
     bindE (ts_probe_prepare e s) (\<lambda>s1.
       if USE_TS_NUM = 0 \<and> ts_choose_touchscreen s1 = 0 then ts_rounds core e loads s1
       else
         let i = (if ts_choose_touchscreen s1 > 0 then ts_choose_touchscreen s1 - 1 else USE_TS_NUM - 1) in
         if 0 \<le> i \<and> i < int (length ts_probe_dev)
         then bindO (parse_ts_info e (ts_probe_dev ! nat i) s1) (\<lambda>s2. Inr (Some (True, s2)))
         else Inl BufOverrun)"

section \<open>What answers on the bus\<close>

text \<open>
  What the driver core documents of \<open>i2c_transfer\<close>: it returns a negative number exactly when the addressed chip does not
  acknowledge.  A chip may acknowledge the one message of a plain read and refuse the two of a read of a register, or the
  other way round: \<open>plain\<close> and \<open>reg\<close> tell which addresses acknowledge the one and the other.
\<close>

definition ts_reads :: "'b i2c_core \<Rightarrow> int \<Rightarrow> (byte \<Rightarrow> bool) \<Rightarrow> (byte \<Rightarrow> bool) \<Rightarrow> bool" where
  "ts_reads core b plain reg \<longleftrightarrow>
     (\<forall>a msgs q. list_all (\<lambda>m. addr m = ucast a) msgs \<longrightarrow>
        (length msgs = 1 \<longrightarrow> (fst (i2c_transfer core b msgs q) < 0 \<longleftrightarrow> \<not> plain a)) \<and>
        (length msgs = 2 \<longrightarrow> (fst (i2c_transfer core b msgs q) < 0 \<longleftrightarrow> \<not> reg a)))"

text \<open>A controller answers when either of the two reads succeeds.\<close>

definition ts_bus :: "'b i2c_core \<Rightarrow> int \<Rightarrow> (byte \<Rightarrow> bool) \<Rightarrow> bool" where
  "ts_bus core b answers \<longleftrightarrow> (\<exists>plain reg. ts_reads core b plain reg \<and> answers = (\<lambda>a. plain a \<or> reg a))"

lemma recv_simple_sign:
  assumes "ts_reads core b plain reg" "get_i2c_api b i \<noteq> None" "SOC_I2C_Rec_Simple core b a data sz i = (rc, d, i')"
  shows "(rc < 0 \<longleftrightarrow> \<not> plain a) \<and> get_i2c_api b i' \<noteq> None"
proof -
  from assms(2) obtain c where c: "get_i2c_api b i = Some c" "nr c = b" using get_i2c_api_nr by blast
  let ?m = "\<lparr>addr = ucast a, flags = I2C_M_RD, len = ucast sz, buf = data\<rparr>"
  have "rc = fst (i2c_transfer core b [?m] (bus i))"
    using assms(3) c
    by (auto simp: SOC_I2C_Rec_Simple_def i2c_api_do_recv_no_sub_addr_def i2c_api_do_xfer_def xfer_msgs_def xfer_modes Let_def
        split: prod.splits)
  moreover have "fst (i2c_transfer core b [?m] (bus i)) < 0 \<longleftrightarrow> \<not> plain a"
    using assms(1) unfolding ts_reads_def by force
  moreover have "get_i2c_api b i' \<noteq> None"
    using do_xfer_known [OF assms(3) [unfolded SOC_I2C_Rec_Simple_def i2c_api_do_recv_no_sub_addr_def], of b] assms(2) by simp
  ultimately show ?thesis by simp
qed

lemma recv_sign:
  assumes "ts_reads core b plain reg" "get_i2c_api b i \<noteq> None" "SOC_I2C_Rec core b a sub data sz i = (rc, d, i')"
  shows "(rc < 0 \<longleftrightarrow> \<not> reg a) \<and> get_i2c_api b i' \<noteq> None"
proof -
  from assms(2) obtain c where c: "get_i2c_api b i = Some c" "nr c = b" using get_i2c_api_nr by blast
  let ?ms = "[wr_msg (ucast a) [sub_byte 0 sub], \<lparr>addr = ucast a, flags = I2C_M_RD, len = ucast sz, buf = data\<rparr>]"
  have "rc = fst (i2c_transfer core b ?ms (bus i))"
    using assms(3) c
    by (auto simp: SOC_I2C_Rec_def i2c_api_do_recv_def i2c_api_do_xfer_def xfer_msgs_def xfer_modes Let_def split: prod.splits)
  moreover have "list_all (\<lambda>m. addr m = ucast a) ?ms" by (simp add: wr_msg_def)
  then have "fst (i2c_transfer core b ?ms (bus i)) < 0 \<longleftrightarrow> \<not> reg a"
    using assms(1) unfolding ts_reads_def by (metis One_nat_def Suc_1 length_Cons list.size(3))
  moreover have "get_i2c_api b i' \<noteq> None"
    using do_xfer_known [OF assms(3) [unfolded SOC_I2C_Rec_def i2c_api_do_recv_def], of b] assms(2) by simp
  ultimately show ?thesis by simp
qed

text \<open>The controllers that a scan tries.\<close>

fun probed :: "(byte \<Rightarrow> bool) \<Rightarrow> probe_device list \<Rightarrow> probe_device list" where
  "probed answers [] = []"
| "probed answers (d # ds) = d # (if answers (chip_addr d) then [] else probed answers ds)"

definition same_but_i2c :: "'b ts_probe \<Rightarrow> 'b ts_probe \<Rightarrow> bool" where
  "same_but_i2c s s' \<longleftrightarrow> tp_fs s' = tp_fs s \<and> tp_ue s' = tp_ue s \<and> tp_kv s' = tp_kv s \<and>
     flyhal_config_list s' = flyhal_config_list s \<and> tp_filenames s' = tp_filenames s \<and> ts_should_revert s' = ts_should_revert s"

lemma ts_try_answers:
  assumes "ts_bus core (TS_I2C_BUS (soc_msm8x25 e)) answers" "get_i2c_api (TS_I2C_BUS (soc_msm8x25 e)) (tp_i2c s) \<noteq> None"
  obtains tmp' s' where "ts_try core e d tmp s = (answers (chip_addr d), tmp', s')"
    "get_i2c_api (TS_I2C_BUS (soc_msm8x25 e)) (tp_i2c s') \<noteq> None" "same_but_i2c s s'"
    "tp_acts s' = tp_acts s @ reset d (soc_msm8x25 e)"
proof -
  let ?b = "TS_I2C_BUS (soc_msm8x25 e)"
  obtain rc1 t1 i1 where 1: "SOC_I2C_Rec_Simple core ?b (chip_addr d) tmp 1 (tp_i2c s) = (rc1, t1, i1)" by (metis prod_cases3)
  obtain rc2 t2 i2 where 2: "SOC_I2C_Rec core ?b (chip_addr d) (sub_addr d) t1 1 i1 = (rc2, t2, i2)" by (metis prod_cases3)
  obtain rc3 t3 i3 where 3: "SOC_I2C_Rec core ?b 0x12 0x00 t2 1 i2 = (rc3, t3, i3)" by (metis prod_cases3)
  obtain plain reg where reads: "ts_reads core ?b plain reg" "answers = (\<lambda>a. plain a \<or> reg a)"
    using assms(1) unfolding ts_bus_def by blast
  note r1 = recv_simple_sign [OF reads(1) assms(2) 1]
  note r2 = recv_sign [OF reads(1) conjunct2 [OF r1] 2]
  note r3 = recv_sign [OF reads(1) conjunct2 [OF r2] 3]
  let ?s1 = "s\<lparr>tp_i2c := i3, tp_acts := tp_acts s @ reset d (soc_msm8x25 e)\<rparr>"
  let ?s2 = "if answers (chip_addr d) then ?s1 else ?s1\<lparr>tp_loop := tp_loop s + 1\<rparr>"
  have "ts_try core e d tmp s = (answers (chip_addr d), t3, ?s2)"
    using r1 r2 by (simp add: ts_try_def Let_def 1 2 3 reads(2))
  from that [OF this] show ?thesis using r3 by (simp add: same_but_i2c_def)
qed

lemma ts_scan_finds:
  assumes "ts_bus core (TS_I2C_BUS (soc_msm8x25 e)) answers"
  shows "get_i2c_api (TS_I2C_BUS (soc_msm8x25 e)) (tp_i2c s) \<noteq> None \<Longrightarrow>
    \<exists>s'. ts_scan_loop core e ds tmp s = (List.find (\<lambda>d. answers (chip_addr d)) ds, s') \<and>
      get_i2c_api (TS_I2C_BUS (soc_msm8x25 e)) (tp_i2c s') \<noteq> None \<and> same_but_i2c s s' \<and>
      tp_acts s' = tp_acts s @ concat (map (\<lambda>d. reset d (soc_msm8x25 e)) (probed answers ds))"
proof (induction ds arbitrary: tmp s)
  case Nil
  then show ?case by (simp add: same_but_i2c_def)
next
  case (Cons d ds)
  obtain tmp' s1 where t: "ts_try core e d tmp s = (answers (chip_addr d), tmp', s1)"
    "get_i2c_api (TS_I2C_BUS (soc_msm8x25 e)) (tp_i2c s1) \<noteq> None" "same_but_i2c s s1"
    "tp_acts s1 = tp_acts s @ reset d (soc_msm8x25 e)"
    using ts_try_answers [OF assms Cons.prems] by metis
  show ?case
  proof (cases "answers (chip_addr d)")
    case True
    with t show ?thesis by simp
  next
    case False
    from Cons.IH [OF t(2), of tmp'] obtain s' where
      "ts_scan_loop core e ds tmp' s1 = (List.find (\<lambda>d. answers (chip_addr d)) ds, s')"
      "get_i2c_api (TS_I2C_BUS (soc_msm8x25 e)) (tp_i2c s') \<noteq> None" "same_but_i2c s1 s'"
      "tp_acts s' = tp_acts s1 @ concat (map (\<lambda>d. reset d (soc_msm8x25 e)) (probed answers ds))" by blast
    with False t show ?thesis by (simp add: same_but_i2c_def)
  qed
qed

section \<open>What is asked for\<close>

definition insmod_event :: "string \<Rightarrow> string list" where
  "insmod_event path = [''LIDBG_ACTION=shell'', ''LIDBG_PARAMETER=insmod '' @ path]"

definition driver_requests :: "probe_device \<Rightarrow> string list list" where
  "driver_requests d = [insmod_event (''/system/lib/modules/out/'' @ dev_name d), insmod_event (''/flysystem/lib/out/'' @ dev_name d)]"

definition ts_sent :: "'b ts_probe \<Rightarrow> string list list" where "ts_sent s = uevents_sent (tp_ue s)"

lemma c_string_sprintf:
  "length t < length b \<Longrightarrow> CHR 0x00 \<notin> set t \<Longrightarrow> \<exists>b'. sprintf_to t b = Inr b' \<and> c_string b' = t \<and> length b' = length b"
  by (simp add: sprintf_to_def store_front_def c_string_plain)

lemma ts_insmod_sends:
  assumes "length path < 200" "CHR 0x00 \<notin> set path"
  shows "ts_insmod path s = Inr (s\<lparr>tp_ue := uevent_send (insmod_event path) (tp_ue s)\<rparr>)"
proof -
  obtain b where b: "sprintf_to (''insmod '' @ path) (replicate 256 (CHR 0x00)) = Inr b" "c_string b = ''insmod '' @ path"
    using c_string_sprintf [of "''insmod '' @ path" "replicate 256 (CHR 0x00)"] assms by auto
  have "take 255 (''LIDBG_PARAMETER='' @ ''insmod '' @ path) = ''LIDBG_PARAMETER='' @ ''insmod '' @ path"
    using assms(1) by (intro take_all) simp
  then show ?thesis by (simp only: ts_insmod_def lidbg_insmod_def b bindE_simps uevent_shell_def) (simp add: insmod_event_def)
qed

text \<open>A short name, a time stamp that fits its buffer, a limit of the log files that lets the writing return.\<close>

definition ts_env_ok :: "ts_env \<Rightarrow> bool" where
  "ts_env_ok e \<longleftrightarrow> length (ts_now e) < 32 \<and> 0 < ts_max_len e \<and> ts_max_len e < 2048"

definition ts_dev_ok :: "probe_device \<Rightarrow> bool" where
  "ts_dev_ok d \<longleftrightarrow> length (dev_name d) < 32 \<and> CHR 0x00 \<notin> set (dev_name d)"

lemma ts_probe_dev_ok: "d \<in> set ts_probe_dev \<Longrightarrow> ts_dev_ok d"
  by (auto simp: ts_probe_dev_def ts_dev_ok_def)

lemma loadts_line_short:
  assumes "ts_dev_ok d" "\<bar>ts_should_revert s\<bar> < 10 ^ 10"
  shows "length (loadts_line d s) < 256"
proof -
  let ?w = "snd (snd (tp_kv s)) ts_choose_touchscreen_at"
  have "\<bar>sint ?w\<bar> < 10 ^ 10" using sint_range_size [of ?w] by (simp add: word_size abs_if)
  then have "length (show_int (ts_choose_touchscreen s)) \<le> 11" "length (show_int (ts_should_revert s)) \<le> 11"
    using length_show_int [of _ 10] assms(2) by (fastforce simp: ts_choose_touchscreen_def)+
  moreover have "length (show_int USE_TS_NUM) \<le> 11" using length_show_int [of USE_TS_NUM 10] by (simp add: USE_TS_NUM_def)
  ultimately show ?thesis using assms(1) by (simp add: loadts_line_def ts_dev_ok_def)
qed

lemma lidbg_fs_log_returns:
  "length now < 32 \<Longrightarrow> length msg < 256 \<Longrightarrow> 0 < L \<Longrightarrow> L < 2048 \<Longrightarrow> \<exists>fs'. lidbg_fs_log L now path msg fs = Inr (Some fs')"
proof -
  assume n: "length now < 32" "length msg < 256" and L: "0 < L" "L < 2048"
  obtain x fs1 where 1: "fs_string2file L 0 path (''['' @ now @ ''] '') fs = Inr (Some (x, fs1))"
    using fs_string2file_returns [of "''['' @ now @ ''] ''" L 0 path fs] n(1) L by auto
  obtain y fs2 where 2: "fs_string2file L 0 path msg fs1 = Inr (Some (y, fs2))"
    using fs_string2file_returns [of msg L 0 path fs1] n(2) L by auto
  show ?thesis by (simp only: lidbg_fs_log_def 1 2 bindO_simps prod.case) simp
qed

lemma parse_ts_info_requests:
  assumes "ts_dev_ok d" "ts_env_ok e" "\<bar>ts_should_revert s\<bar> < 10 ^ 10"
  shows "\<exists>fs'. parse_ts_info e d s =
    Inr (Some (s\<lparr>tp_ue := (tp_ue s)\<lparr>uevents_sent := ts_sent s @ driver_requests d\<rparr>, tp_fs := fs'\<rparr>))"
proof -
  let ?p1 = "''/system/lib/modules/out/'' @ dev_name d" and ?p2 = "''/flysystem/lib/out/'' @ dev_name d"
  have n: "length (dev_name d) < 32" "CHR 0x00 \<notin> set (dev_name d)" using assms(1) by (simp_all add: ts_dev_ok_def)
  obtain b1 where b1: "sprintf_to ?p1 (replicate 100 (CHR 0x00)) = Inr b1" "c_string b1 = ?p1" "length b1 = 100"
    using c_string_sprintf [of ?p1 "replicate 100 (CHR 0x00)"] n by auto
  obtain b2 where b2: "sprintf_to ?p2 b1 = Inr b2" "c_string b2 = ?p2"
    using c_string_sprintf [of ?p2 b1] b1(3) n by auto
  define s2 where "s2 = s\<lparr>tp_ue := (tp_ue s)\<lparr>uevents_sent := ts_sent s @ driver_requests d\<rparr>\<rparr>"
  have r: "ts_insmod ?p1 s = Inr (s\<lparr>tp_ue := uevent_send (insmod_event ?p1) (tp_ue s)\<rparr>)"
    "ts_insmod ?p2 (s\<lparr>tp_ue := uevent_send (insmod_event ?p1) (tp_ue s)\<rparr>) = Inr s2"
    using n by (simp_all add: ts_insmod_sends s2_def uevent_send_def ts_sent_def driver_requests_def)
  have line: "length (loadts_line d s2) < 256" using loadts_line_short [OF assms(1), of s2] assms(3) by (simp add: s2_def)
  obtain fs1 where fs1: "lidbg_fs_log (ts_max_len e) (ts_now e) TS_LOG_PATH (loadts_line d s2) (tp_fs s2) = Inr (Some fs1)"
    using lidbg_fs_log_returns [OF _ line] assms(2) unfolding ts_env_ok_def by blast
  obtain x fs2 where fs2: "fs_mem_log (ts_max_len e) (loadts_line d s2) fs1 = Inr (Some (x, fs2))"
    using fs_mem_log_returns [OF line] assms(2) unfolding ts_env_ok_def by blast
  have "parse_ts_info e d s = Inr (Some (s2\<lparr>tp_fs := fs2\<rparr>))"
    unfolding parse_ts_info_def b1 b2 r bindE_simps fs1 fs2 bindO_simps prod.case ..
  then show ?thesis unfolding s2_def by blast
qed

definition found_dev :: "(byte \<Rightarrow> bool) \<Rightarrow> probe_device option" where
  "found_dev answers = List.find (\<lambda>d. answers (chip_addr d)) ts_probe_dev"

definition round_requests :: "(byte \<Rightarrow> bool) \<Rightarrow> string list list" where
  "round_requests answers = (case found_dev answers of None \<Rightarrow> [] | Some d \<Rightarrow> driver_requests d)"

definition ts_ready :: "ts_env \<Rightarrow> 'b ts_probe \<Rightarrow> bool" where
  "ts_ready e s \<longleftrightarrow> get_i2c_api (TS_I2C_BUS (soc_msm8x25 e)) (tp_i2c s) \<noteq> None \<and> \<bar>ts_should_revert s\<bar> < 10 ^ 10"

lemma ts_round_requests:
  assumes "ts_bus core (TS_I2C_BUS (soc_msm8x25 e)) answers" "ts_env_ok e" "ts_ready e s"
  shows "\<exists>s'. ts_round core e s = Inr (Some s') \<and> ts_ready e s' \<and> ts_sent s' = ts_sent s @ round_requests answers"
proof -
  obtain s1 where s1: "ts_scan core e ts_probe_dev s = (found_dev answers, s1)" "ts_ready e s1" "ts_sent s1 = ts_sent s"
    using ts_scan_finds [OF assms(1), of s ts_probe_dev "[ts_tmp e]"] assms(3)
    by (auto simp: ts_scan_def found_dev_def ts_ready_def same_but_i2c_def ts_sent_def)
  show ?thesis
  proof (cases "found_dev answers")
    case None
    with s1 show ?thesis by (simp add: ts_round_def round_requests_def ts_ready_def ts_sent_def)
  next
    case (Some d)
    then have "ts_dev_ok d" by (auto simp: found_dev_def find_Some_iff intro!: ts_probe_dev_ok)
    with parse_ts_info_requests [of d e s1] assms(2) s1(2) obtain fs' where
      "parse_ts_info e d s1 = Inr (Some (s1\<lparr>tp_ue := (tp_ue s1)\<lparr>uevents_sent := ts_sent s1 @ driver_requests d\<rparr>, tp_fs := fs'\<rparr>))"
      unfolding ts_ready_def by blast
    with s1 Some show ?thesis by (simp add: ts_round_def round_requests_def ts_ready_def ts_sent_def)
  qed
qed

lemma ts_rounds_requests:
  assumes "ts_bus core (TS_I2C_BUS (soc_msm8x25 e)) answers" "ts_env_ok e"
  shows "ts_ready e s \<Longrightarrow> \<exists>s'. ts_rounds core e (replicate n False @ True # ls) s = Inr (Some (True, s')) \<and>
    ts_sent s' = ts_sent s @ concat (replicate n (round_requests answers))"
proof (induction n arbitrary: s)
  case 0
  then show ?case by simp
next
  case (Suc n)
  from ts_round_requests [OF assms Suc.prems] obtain s1 where s1: "ts_round core e s = Inr (Some s1)" "ts_ready e s1"
    "ts_sent s1 = ts_sent s @ round_requests answers" by blast
  from Suc.IH [OF s1(2)] s1 show ?case by auto
qed

text \<open>The preparation always gets to its end.\<close>

lemma get_int_loop_returns: "\<exists>r. get_int_loop key (Some a) cb l c = Inr r"
proof (induction l arbitrary: c)
  case (Cons pos l)
  from Cons.IH [of c] obtain ret l' c' where r: "get_int_loop key (Some a) cb l c = Inr (ret, l', c')" by (metis prod_cases3)
  show ?case by (cases "int_value pos") (simp_all add: r Let_def split_beta)
qed simp

lemma FS_REGISTER_INT_returns: "\<exists>kv'. FS_REGISTER_INT a key d cb kv = Inr kv'"
proof -
  have ok: "\<exists>ret l' c'. fs_get_intvalue l key (Some a) cb c = Inr (ret, l', c')" for l c
    using get_int_loop_returns [of key a cb l c] by (cases "l = []") (auto simp: fs_get_intvalue_def get_int_value_def)
  obtain dl cl c where kv: "kv = (dl, cl, c)" by (cases kv)
  obtain ret dl' c1 where 1: "fs_get_intvalue dl key (Some a) cb (c(a := d)) = Inr (ret, dl', c1)" using ok by blast
  obtain ret2 cl' c2 where 2: "fs_get_intvalue cl key (Some a) cb c1 = Inr (ret2, cl', c2)" using ok by blast
  show ?thesis by (simp add: FS_REGISTER_INT_def kv 1 2)
qed

lemma find_string_range: "\<bar>fst (fs_find_string l t)\<bar> \<le> 2"
  by (simp add: fs_find_string_def fileserver_deal_cmd_def)

definition prepare_requests :: "string list list" where
  "prepare_requests = [insmod_event ''/system/lib/modules/out/lidbg_ts_to_recov.ko'', insmod_event ''/flysystem/lib/out/lidbg_ts_to_recov.ko'']"

lemma ts_probe_prepare_requests:
  "\<exists>s1. ts_probe_prepare e s = Inr s1 \<and> ts_sent s1 = ts_sent s @ prepare_requests \<and> tp_i2c s1 = tp_i2c s \<and> \<bar>ts_should_revert s1\<bar> \<le> 2"
proof -
  obtain kv1 where 1: "FS_REGISTER_INT ts_scan_delayms_at ''ts_scan_delayms'' 500 None (tp_kv s) = Inr kv1"
    using FS_REGISTER_INT_returns by blast
  obtain kv2 where 2: "FS_REGISTER_INT ts_choose_touchscreen_at ''ts_choose_touchscreen'' 0 None kv1 = Inr kv2"
    using FS_REGISTER_INT_returns by blast
  have i: "ts_insmod ''/system/lib/modules/out/lidbg_ts_to_recov.ko'' t =
      Inr (t\<lparr>tp_ue := uevent_send (insmod_event ''/system/lib/modules/out/lidbg_ts_to_recov.ko'') (tp_ue t)\<rparr>)"
    "ts_insmod ''/flysystem/lib/out/lidbg_ts_to_recov.ko'' t =
      Inr (t\<lparr>tp_ue := uevent_send (insmod_event ''/flysystem/lib/out/lidbg_ts_to_recov.ko'') (tp_ue t)\<rparr>)" for t :: "'b ts_probe"
    by (rule ts_insmod_sends; simp)+
  show ?thesis
    by (simp add: ts_probe_prepare_def Let_def 1 2 i ts_sent_def uevent_send_def prepare_requests_def find_string_range)
qed

section \<open>Properties\<close>

text \<open>
  (C29) The driver of the screen that is there: a controller answers when its plain read or the read of its register succeeds, which
  need not agree; what answers does not change.  When no screen is configured by number, and the touch screen's bus exists, the thread
  asks in every round in which no driver has reported itself for the two files of the driver of the first known controller
  that answers on the bus, and for nothing when none answers; it ends at the first test after a driver has reported itself.
  The time stamp has to be shorter than 32 characters, and the limit of the log file positive and below 2048 (\<open>ts_env_ok\<close>), for the
  writing of the log to return.
\<close>

theorem ts_driver_requested:
  assumes "ts_reads core (TS_I2C_BUS (soc_msm8x25 e)) plain reg" "ts_env_ok e"
    and "get_i2c_api (TS_I2C_BUS (soc_msm8x25 e)) (tp_i2c s) \<noteq> None"
    and "ts_probe_prepare e s = Inr s1" "ts_choose_touchscreen s1 = 0"
  shows "\<exists>s'. ts_probe_thread core e (replicate n False @ True # ls) s = Inr (Some (True, s')) \<and>
    ts_sent s' = ts_sent s @ prepare_requests @
      concat (replicate n (case List.find (\<lambda>d. plain (chip_addr d) \<or> reg (chip_addr d)) ts_probe_dev of
        None \<Rightarrow> [] | Some d \<Rightarrow> driver_requests d))"
proof -
  have s1: "ts_sent s1 = ts_sent s @ prepare_requests" "ts_ready e s1"
    using ts_probe_prepare_requests [of e s] assms(3,4) by (auto simp: ts_ready_def)
  have "ts_bus core (TS_I2C_BUS (soc_msm8x25 e)) (\<lambda>a. plain a \<or> reg a)" using assms(1) by (auto simp: ts_bus_def)
  from ts_rounds_requests [OF this assms(2) s1(2), of n ls] obtain s' where
    "ts_rounds core e (replicate n False @ True # ls) s1 = Inr (Some (True, s'))"
    "ts_sent s' = ts_sent s1 @ concat (replicate n (round_requests (\<lambda>a. plain a \<or> reg a)))" by blast
  with s1(1) assms(4,5) show ?thesis
    by (simp add: ts_probe_thread_def USE_TS_NUM_def round_requests_def found_dev_def)
qed

text \<open>A bus on which the controller at 0x38 answers the read of its register and not the plain read.\<close>

definition ft_core :: "unit i2c_core" where
  "ft_core = \<lparr>i2c_transfer = (\<lambda>n msgs q. (if addr (hd msgs) = 0x38 \<and> length msgs = 2 then 2 else -6, msgs, q)),
     i2c_master_send = (\<lambda>c d n q. (-6, q))\<rparr>"

definition ts_env_example :: ts_env where
  "ts_env_example = \<lparr>soc_msm8x25 = False, FLYHAL_CONFIG_PATH = ''/flysystem/flyconfig'', ts_alloc = True,
     ts_now = ''2014-1-1__00.00.00'', ts_tmp = 0, ts_max_len = 1\<rparr>"

definition ts_start :: "unit ts_probe" where
  "ts_start = \<lparr>tp_i2c = \<lparr>i2c_api_list = [\<lparr>nr = 5, client_addr = 0x7f\<rparr>], lidbg_i2c_running = 0, bus = ()\<rparr>, tp_loop = 0, tp_acts = [],
     tp_fs = example_fs, tp_ue = \<lparr>uevent_list = [], uevent_dbg = False, uevents_sent = [], callbacks_run = []\<rparr>,
     tp_kv = ([], [], \<lambda>_. 0), flyhal_config_list = [], tp_filenames = [], ts_should_revert = -1\<rparr>"

lemma ucast_38: "(ucast (a :: byte) :: u16) = 0x38 \<longleftrightarrow> a = 0x38"
proof
  assume "(ucast a :: u16) = 0x38"
  then have "(ucast (ucast a :: u16) :: byte) = ucast (0x38 :: u16)" by simp
  moreover have "(ucast (ucast a :: u16) :: byte) = a" by (rule bit_word_eqI) (auto simp: bit_simps)
  ultimately show "a = 0x38" by simp
qed simp

lemma ft_bus: "ts_reads ft_core b (\<lambda>_. False) (\<lambda>a. a = 0x38)"
  unfolding ts_reads_def
proof (intro allI impI conjI)
  fix a :: byte and msgs :: "i2c_msg list" and q
  assume all: "list_all (\<lambda>m. addr m = ucast a) msgs"
  show "fst (i2c_transfer ft_core b msgs q) < 0 \<longleftrightarrow> \<not> False" if "length msgs = 1" using that by (simp add: ft_core_def)
  show "fst (i2c_transfer ft_core b msgs q) < 0 \<longleftrightarrow> a \<noteq> 0x38" if "length msgs = 2"
  proof -
    have "addr (hd msgs) = ucast a" using all that by (cases msgs) auto
    then show ?thesis using that by (simp add: ft_core_def ucast_38)
  qed
qed

lemma ts_start_prepared:
  "\<exists>s1. ts_probe_prepare ts_env_example ts_start = Inr s1 \<and> ts_choose_touchscreen s1 = 0"
  by (simp add: ts_probe_prepare_def Let_def FS_REGISTER_INT_def fs_get_intvalue_def get_int_value_def ts_start_def
      ts_insmod_sends ts_choose_touchscreen_def)

theorem ts_driver_requested_witness:
  "\<exists>s'. ts_probe_thread ft_core ts_env_example [False, True] ts_start = Inr (Some (True, s')) \<and>
     ts_sent s' = prepare_requests @
       [insmod_event ''/system/lib/modules/out/ft5x06_ts.ko'', insmod_event ''/flysystem/lib/out/ft5x06_ts.ko'']"
proof -
  obtain s1 where s1: "ts_probe_prepare ts_env_example ts_start = Inr s1" "ts_choose_touchscreen s1 = 0"
    using ts_start_prepared by blast
  have "get_i2c_api (TS_I2C_BUS (soc_msm8x25 ts_env_example)) (tp_i2c ts_start) \<noteq> None"
    by (simp add: ts_env_example_def ts_start_def TS_I2C_BUS_def get_i2c_api_def)
  moreover have "ts_env_ok ts_env_example" by (simp add: ts_env_ok_def ts_env_example_def)
  ultimately show ?thesis
    using ts_driver_requested [OF ft_bus _ _ s1, of 1 "[]"]
    by (simp add: ts_probe_dev_def driver_requests_def ts_sent_def ts_start_def)
qed

text \<open>
  A screen configured by number: the driver with that number is asked for once, and no pin is touched; a number
  for which there is no driver is not refused, the array is read outside its bounds.
\<close>

theorem ts_choice_unchecked:
  assumes "ts_env_ok e" "ts_probe_prepare e s = Inr s1" "ts_choose_touchscreen s1 \<noteq> 0"
  shows "case ts_probe_thread core e loads s of
      Inl f \<Rightarrow> f = BufOverrun \<and> (ts_choose_touchscreen s1 < 0 \<or> 4 < ts_choose_touchscreen s1)
    | Inr None \<Rightarrow> False
    | Inr (Some (ended, s')) \<Rightarrow> ended \<and> tp_acts s' = tp_acts s1 \<and> 1 \<le> ts_choose_touchscreen s1 \<and> ts_choose_touchscreen s1 \<le> 4 \<and>
        ts_sent s' = ts_sent s1 @ driver_requests (ts_probe_dev ! nat (ts_choose_touchscreen s1 - 1))"
proof (cases "1 \<le> ts_choose_touchscreen s1 \<and> ts_choose_touchscreen s1 \<le> 4")
  case True
  let ?d = "ts_probe_dev ! nat (ts_choose_touchscreen s1 - 1)"
  have len: "length ts_probe_dev = 4" by (simp add: ts_probe_dev_def)
  have "ts_dev_ok ?d" using True len by (intro ts_probe_dev_ok nth_mem) auto
  moreover have "\<bar>ts_should_revert s1\<bar> < 10 ^ 10"
    using ts_probe_prepare_requests [of e s] assms(2) by auto
  ultimately obtain fs' where
    "parse_ts_info e ?d s1 = Inr (Some (s1\<lparr>tp_ue := (tp_ue s1)\<lparr>uevents_sent := ts_sent s1 @ driver_requests ?d\<rparr>, tp_fs := fs'\<rparr>))"
    using parse_ts_info_requests assms(1) by blast
  then show ?thesis using True len assms(2) by (simp add: ts_probe_thread_def ts_sent_def)
next
  case False
  have len: "length ts_probe_dev = 4" by (simp add: ts_probe_dev_def)
  show ?thesis using False len assms(2,3) by (auto simp: ts_probe_thread_def USE_TS_NUM_def)
qed

definition ts_chosen :: "u32 \<Rightarrow> unit ts_probe" where
  "ts_chosen n = ts_start\<lparr>tp_kv := ([(new_dev ''ts_choose_touchscreen'')\<lparr>int_value := Some 7\<rparr>], [], \<lambda>a. if a = 7 then n else 0)\<rparr>"

theorem ts_choice_unchecked_witness:
  "ts_probe_thread ft_core ts_env_example [] (ts_chosen 5) = Inl BufOverrun"
proof -
  have "\<exists>s1. ts_probe_prepare ts_env_example (ts_chosen 5) = Inr s1 \<and> ts_choose_touchscreen s1 = 5"
    by (simp add: ts_probe_prepare_def Let_def FS_REGISTER_INT_def fs_get_intvalue_def get_int_value_def ts_start_def ts_chosen_def
      new_dev_def ts_insmod_sends ts_choose_touchscreen_def ts_choose_touchscreen_at_def ts_scan_delayms_at_def)
  then obtain s1 where s1: "ts_probe_prepare ts_env_example (ts_chosen 5) = Inr s1" "ts_choose_touchscreen s1 = 5" by blast
  have ok: "ts_env_ok ts_env_example" by (simp add: ts_env_ok_def ts_env_example_def)
  from ts_choice_unchecked [OF ok s1(1), of ft_core "[]"] s1(2) show ?thesis
    by (auto split: sum.splits option.splits prod.splits)
qed

end
