(* ===== verification/App_Cmd.thy ===== *)
theory App_Cmd
  imports Powermanager Devices Helper Trace_Msg Fs Test_Drivers Lpc
begin

text \<open>
  The commands that applications write to the nodes \<^verbatim>\<open>lidbg_drivers_dbg\<close> (\<^verbatim>\<open>drivers/drivers_dbg\<close>) and \<^verbatim>\<open>lidbg_hal\<close>
  (\<^verbatim>\<open>drivers/hal\<close>): a text is copied to the stack, split at blanks, and its first words select what is done, up to code
  numbers such as \<^verbatim>\<open>*158#001\<close> that a user types into the dialler.

  This is glue over most of the other modules, so the state \<open>app_state\<close> consists of theirs: the power manager, whose channel
  to user space is used for all shell commands, the files, the mailbox of the helper program, the message tracer, the
  two message logs, the pin tester.  What the codes start runs in threads of its own: a thread is a value of
  \<open>app_thread\<close> with its position, and \<open>app_step\<close> runs one write, or one thread up to its next sleep, so a list of events is
  an interleaving.  A thread that writes a log tests the flag and sets it in two steps, as nothing keeps two threads apart.

  The texts of the commands use the variant without \<open>USE_CALL_USERHELPER\<close> for \<^verbatim>\<open>drivers_dbg\<close> (see theory \<open>Cmn\<close>), as on the
  boards where the commands for the power manager and the micro controller exist.
\<close>

section \<open>State\<close>

text \<open>\<open>LogThread kmsg pc file\<close>: the thread that starts \<open>logcat\<close> or the dump of the kernel's messages.\<close>

datatype app_thread = LogThread bool nat string | DumpLog | CopyToUdisk | CallApk

record app_env =
  ae_kmalloc :: bool
  ae_alloc :: "nat \<Rightarrow> bool"
  ae_retry :: bool
  ae_beyond :: string
  ae_max_len :: int
  ae_machine :: int

record app_state =
  ap_pm :: pm_state
  ap_fs :: fsys
  ap_remountd :: bool
  ap_files :: "fs_filename_item list"
  ap_servicer :: servicer
  ap_trace :: trace_state
  ap_msg_fifo :: "lidbg_fifo_device option"
  ap_fs_fifo :: "lidbg_fifo_device option"
  ap_monkey :: monkey
  ap_dev :: "dev_act list"
  ap_acks :: nat
  ap_encode :: bool
  ap_data_encode :: bool
  logcat_enabled :: bool
  dmesg_enabled :: bool
  is_fs_work_enable :: bool
  ap_te_enable :: bool
  ap_threads :: "app_thread list"

definition app_ret :: "fault + app_state \<Rightarrow> fault + app_state option" where
  "app_ret r = bindE r (\<lambda>s. Inr (Some s))"

fun foldO :: "('a \<Rightarrow> 's \<Rightarrow> fault + 's option) \<Rightarrow> 'a list \<Rightarrow> 's \<Rightarrow> fault + 's option" where
  "foldO f [] s = Inr (Some s)"
| "foldO f (x # xs) s = bindO (f x s) (foldO f xs)"

definition app_launch :: "(uevent_state \<Rightarrow> fault + (int \<times> uevent_state)) \<Rightarrow> app_state \<Rightarrow> fault + app_state" where
  "app_launch f s = bindE (pm_launch f (ap_pm s)) (\<lambda>p. Inr (s\<lparr>ap_pm := p\<rparr>))"

definition app_shell :: "string \<Rightarrow> app_state \<Rightarrow> app_state" where
  "app_shell cmd s = s\<lparr>ap_pm := pm_shell cmd (ap_pm s)\<rparr>"

definition app_ack :: "app_state \<Rightarrow> app_state" where
  "app_ack s = s\<lparr>ap_acks := ap_acks s + 1\<rparr>"

definition app_create :: "app_thread \<Rightarrow> app_state \<Rightarrow> app_state" where
  "app_create t s = s\<lparr>ap_threads := ap_threads s @ [t]\<rparr>"

definition app_mem_log :: "app_env \<Rightarrow> string \<Rightarrow> app_state \<Rightarrow> fault + app_state option" where
  "app_mem_log e msg s = bindO (fs_mem_log (ae_max_len e) msg (ap_fs s)) (\<lambda>(_, fs). Inr (Some (s\<lparr>ap_fs := fs\<rparr>)))"

text \<open>\<open>lidbg_fifo_get\<close> on the files; the time of the file changes when it does.\<close>

definition app_fifo_get ::
  "app_env \<Rightarrow> string \<Rightarrow> lidbg_fifo_device option \<Rightarrow> fsys \<Rightarrow> fault + (lidbg_fifo_device option \<times> fsys)" where
  "app_fifo_get e path dev fs =
     bindE (lidbg_fifo_get (ae_kmalloc e) (ae_beyond e) (wr_ok fs) path dev (content fs)) (\<lambda>(_, dev', c).
       Inr (dev', case c path of
                    None \<Rightarrow> fs
                  | Some t \<Rightarrow> if content fs path = Some t then fs else put_file path t fs))"

section \<open>Code numbers\<close>

definition app_menu :: "string list" where
  "app_menu = map (\<lambda>t. t @ [CHR 0x0A])
     [''*158#999--fs_call_apk'', ''*158#001--LOG_LOGCAT'', ''*158#002--LOG_DMESG'', ''*158#003--LOG_CLEAR_LOGCAT_KMSG'',
      ''*158#004--LOG_SHELL_TOP_DF_PS'', ''*158#010--USB_ID_LOW_HOST'', ''*158#011--USB_ID_HIGH_DEV'',
      ''*158#012--lidbg_trace_msg_disable'', ''*158#013--dump log and copy to udisk'']"

definition app_show_menu :: "app_env \<Rightarrow> app_state \<Rightarrow> fault + app_state option" where
  "app_show_menu e s = bindO (app_ret (app_launch (lidbg_chmod ''/data'') s)) (foldO (app_mem_log e) app_menu)"

definition lidbg_mem_log_path :: string where "lidbg_mem_log_path = ''/data/lidbg/lidbg_mem_log.txt''"

definition app_dump :: "app_env \<Rightarrow> bool \<Rightarrow> app_state \<Rightarrow> fault + app_state" where
  "app_dump e enc s =
     bindE (app_launch (lidbg_chmod ''/data'') (s\<lparr>ap_encode := enc\<rparr>)) (\<lambda>s1.
     bindE (app_fifo_get e lidbg_mem_log_path (ap_msg_fifo s1) (ap_fs s1)) (\<lambda>(dev, fs).
     Inr (app_create DumpLog (s1\<lparr>ap_msg_fifo := dev, ap_fs := fs\<rparr>))))"

text \<open>The codes that both files treat alike.\<close>

definition app_code :: "app_env \<Rightarrow> string \<Rightarrow> app_state \<Rightarrow> fault + app_state" where
  "app_code e code s =
     (if code = ''*158#999'' then Inr (app_create CallApk (s\<lparr>is_fs_work_enable := True, ap_te_enable := True\<rparr>))
      else if code = ''*158#010'' then Inr (app_ack (s\<lparr>ap_dev := ap_dev s @ USB_ID_LOW_HOST\<rparr>))
      else if code = ''*158#011'' then Inr (app_ack (s\<lparr>ap_dev := ap_dev s @ USB_ID_HIGH_DEV\<rparr>))
      else if code = ''*158#012'' then Inr (app_ack (s\<lparr>ap_trace := lidbg_trace_msg_disable 1 (ap_trace s)\<rparr>))
      else if code = ''*158#013'' then app_dump e False s
      else if code = ''*168#001'' then app_dump e True s
      else Inr s)"

definition clear_logs_cmds :: "string list" where
  "clear_logs_cmds = [''rm /data/logcat*'', ''rm /data/kmsg*'']"

definition machine_state_cmds :: "string list" where
  "machine_state_cmds =
     [''date > /data/machine.txt'', ''cat /proc/cmdline >> /data/machine.txt'', ''getprop fly.version.mcu >> /data/machine.txt'',
      ''top -n 3 -t >/data/top.txt &'', ''screencap -p /data/screenshot.png &'', ''ps > /data/ps.txt'', ''df > /data/df.txt'',
      ''chmod 777 /data/*.txt'', ''chmod 777 /data/*.png'']"

text \<open>The word behind \<^verbatim>\<open>appcmd\<close> in \<^verbatim>\<open>lidbg_drivers_cmd.c\<close>.\<close>

definition dbg_appcmd :: "app_env \<Rightarrow> string \<Rightarrow> app_state \<Rightarrow> fault + app_state option" where
  "dbg_appcmd e code s =
     bindO (if code = ''*158#000'' then app_show_menu e s else Inr (Some s)) (\<lambda>s1.
     app_ret (
       if code = ''*158#001'' then
         bindE (app_launch (lidbg_chmod ''/data'') s1) (\<lambda>s2. Inr (app_ack (app_create (LogThread False 0 []) s2)))
       else if code = ''*158#002'' then
         bindE (app_launch (lidbg_chmod ''/data'') s1) (\<lambda>s2. Inr (app_ack (app_create (LogThread True 0 []) s2)))
       else if code = ''*158#003'' then Inr (app_ack (fold app_shell clear_logs_cmds s1))
       else if code = ''*158#004'' then Inr (app_ack (fold app_shell machine_state_cmds s1))
       else app_code e code s1))"

text \<open>In \<^verbatim>\<open>hal/cmd.c\<close> the helper program does the work of four of the codes.\<close>

definition app_k2u :: "u32 \<Rightarrow> app_state \<Rightarrow> app_state" where
  "app_k2u cmd s = s\<lparr>ap_servicer := k2u_write cmd (ap_servicer s)\<rparr>"

definition hal_appcmd :: "app_env \<Rightarrow> string \<Rightarrow> app_state \<Rightarrow> fault + app_state option" where
  "hal_appcmd e code s =
     bindO (if code = ''*158#000'' then app_show_menu e s else Inr (Some s)) (\<lambda>s1.
     app_ret (
       if code = ''*158#001'' then bindE (app_launch (lidbg_chmod ''/data'') s1) (\<lambda>s2. Inr (app_ack (app_k2u LOG_LOGCAT s2)))
       else if code = ''*158#002'' then bindE (app_launch (lidbg_chmod ''/data'') s1) (\<lambda>s2. Inr (app_ack (app_k2u LOG_DMESG s2)))
       else if code = ''*158#003'' then Inr (app_ack (app_k2u LOG_CLEAR_LOGCAT_KMSG s1))
       else if code = ''*158#004'' then Inr (app_ack (app_k2u LOG_SHELL_TOP_DF_PS s1))
       else app_code e code s1))"

section \<open>The other commands\<close>

text \<open>A number in an argument, which is a null pointer behind the last word.\<close>

definition num_arg :: "string list \<Rightarrow> nat \<Rightarrow> fault + u32" where
  "num_arg argv i = bindE (need (word_at argv i)) (\<lambda>t. Inr (simple_strtoul t))"

definition dbg_monkey :: "string list \<Rightarrow> app_state \<Rightarrow> fault + app_state" where
  "dbg_monkey argv s =
     bindE (num_arg argv 1) (\<lambda>enable. bindE (num_arg argv 2) (\<lambda>gpio. bindE (num_arg argv 3) (\<lambda>on_en.
     bindE (num_arg argv 4) (\<lambda>off_en. bindE (num_arg argv 5) (\<lambda>on. bindE (num_arg argv 6) (\<lambda>off.
       Inr (s\<lparr>ap_monkey := monkey_config (sint gpio) (sint on_en) (sint off_en) (sint on) (sint off)
                             (monkey_run (sint enable) (ap_monkey s))\<rparr>)))))))"

text \<open>The step that a number names, called without data.\<close>

definition pm_step_of :: "u32 \<Rightarrow> fault + fly_pm_stat_step" where
  "pm_step_of n =
     (if n = 1 then Inl NullDeref
      else Inr (if n = 15 then PM_SUSPEND_ENTER8 else if n = 17 then PM_SUSPEMD_OPS_ENTER9P1 else if n = 18 then PM_NULL else OtherStep))"

definition dbg_pm :: "string list \<Rightarrow> app_state \<Rightarrow> fault + app_state" where
  "dbg_pm argv s =
     bindE (num_arg argv 1) (\<lambda>enable. bindE (pm_step_of enable) (\<lambda>step.
     bindE (lidbg_pm_step_call step (ap_pm s)) (\<lambda>p. Inr (s\<lparr>ap_pm := p\<rparr>))))"

text \<open>No step of \<open>linux_to_lidbg_receiver\<close> does anything.\<close>

definition linux_to_lidbg_receiver :: "u32 \<Rightarrow> app_state \<Rightarrow> int \<times> app_state" where
  "linux_to_lidbg_receiver n s = (1, s)"

definition dbg_pm1 :: "string list \<Rightarrow> app_state \<Rightarrow> fault + app_state" where
  "dbg_pm1 argv s = bindE (num_arg argv 1) (\<lambda>enable. Inr (snd (linux_to_lidbg_receiver enable s)))"

text \<open>The bytes for the micro controller go through \<open>lpc_buf[10]\<close>.\<close>

definition lpc_byte :: "string list \<Rightarrow> nat \<Rightarrow> byte list \<Rightarrow> fault + byte list" where
  "lpc_byte argv i lpc_buf =
     (if length lpc_buf < 10 then bindE (num_arg argv (i + 1)) (\<lambda>n. Inr (lpc_buf @ [ucast n])) else Inl BufOverrun)"

definition dbg_lpc :: "string list \<Rightarrow> app_state \<Rightarrow> fault + app_state" where
  "dbg_lpc argv s =
     bindE (foldE (lpc_byte argv) [0..<length argv - 1] []) (\<lambda>lpc_buf. Inr (s\<lparr>ap_dev := ap_dev s @ [SOC_LPC_Send lpc_buf]\<rparr>))"

definition dbg_parse_cmd :: "app_env \<Rightarrow> string \<Rightarrow> app_state \<Rightarrow> fault + app_state option" where
  "dbg_parse_cmd e pt s =
     bindE (lidbg_token_string 32 (Some pt) (Some '' '')) (\<lambda>(argc, argv).
       let c0 = argv ! 0 in
       if c0 = ''appcmd'' then bindE (need (word_at argv 1)) (\<lambda>code. dbg_appcmd e code s)
       else if c0 = ''monkey'' then app_ret (dbg_monkey argv s)
       else if c0 = ''pm'' then app_ret (dbg_pm argv s)
       else if c0 = ''pm1'' then app_ret (dbg_pm1 argv s)
       else if c0 = ''lpc'' then app_ret (dbg_lpc argv s)
       else Inr (Some s))"

definition hal_parse_cmd :: "app_env \<Rightarrow> string \<Rightarrow> app_state \<Rightarrow> fault + app_state option" where
  "hal_parse_cmd e pt s =
     bindE (lidbg_token_string 32 (Some pt) (Some '' '')) (\<lambda>(argc, argv).
       if argv ! 0 = ''appcmd'' then bindE (need (word_at argv 1)) (\<lambda>code. hal_appcmd e code s) else Inr (Some s))"

section \<open>The nodes\<close>

text \<open>
  \<open>cmd_buf[512]\<close>: more bytes run over it, and a text that fills it is not terminated.  One of the two nodes removes
  a newline at the end, looking before the buffer when nothing is written.
\<close>

definition node_text :: "bool \<Rightarrow> string \<Rightarrow> fault + string" where
  "node_text strip buf =
     (if length buf > 512 \<or> strip \<and> buf = [] then Inl BufOverrun
      else let b = (if strip \<and> last buf = CHR 0x0A then butlast buf @ [CHR 0x00] else buf) in
        if length b = 512 \<and> CHR 0x00 \<notin> set b then Inl BufOverrun else Inr (c_string b))"

definition drivers_dbg_write :: "app_env \<Rightarrow> string \<Rightarrow> app_state \<Rightarrow> fault + (nat \<times> app_state) option" where
  "drivers_dbg_write e buf s =
     bindE (node_text True buf) (\<lambda>cmd_buf. bindO (dbg_parse_cmd e cmd_buf s) (\<lambda>s'. Inr (Some (length buf, s'))))"

definition hal_write :: "app_env \<Rightarrow> string \<Rightarrow> app_state \<Rightarrow> fault + (nat \<times> app_state) option" where
  "hal_write e buf s =
     bindE (node_text False buf) (\<lambda>cmd_buf. bindO (hal_parse_cmd e cmd_buf s) (\<lambda>s'. Inr (Some (length buf, s'))))"

section \<open>The threads\<close>

text \<open>The name of the log file through \<open>logcat_file_name[256]\<close>, a command through \<open>cmd[128]\<close>.\<close>

definition log_file_name :: "app_env \<Rightarrow> bool \<Rightarrow> string \<Rightarrow> fault + string" where
  "log_file_name e kmsg now =
     bindE (sprintf_to ((if kmsg then ''kmsg_'' else ''logcat_'') @ show_int (ae_machine e) @ ''_'' @ now @ ''.txt'')
              (replicate 256 (CHR 0x00))) (\<lambda>b. Inr (c_string b))"

definition log_cmd :: "string \<Rightarrow> app_state \<Rightarrow> fault + app_state" where
  "log_cmd cmd s = bindE (sprintf_to cmd (replicate 128 (CHR 0x00))) (\<lambda>b. Inr (app_shell (c_string b) s))"

definition log_enabled :: "bool \<Rightarrow> app_state \<Rightarrow> bool" where
  "log_enabled kmsg s = (if kmsg then dmesg_enabled s else logcat_enabled s)"

definition set_log_enabled :: "bool \<Rightarrow> app_state \<Rightarrow> app_state" where
  "set_log_enabled kmsg s =
     (if kmsg then s\<lparr>dmesg_enabled := True, ap_trace := lidbg_trace_msg_disable 1 (ap_trace s)\<rparr> else s\<lparr>logcat_enabled := True\<rparr>)"

text \<open>
  \<open>thread_enable_logcat\<close> and \<open>thread_enable_dmesg\<close>: the test, the assignment with the first command, and the two commands
  behind the sleeps.  The result has the thread at its next position, or nothing.
\<close>

definition log_thread ::
  "app_env \<Rightarrow> string \<Rightarrow> bool \<Rightarrow> nat \<Rightarrow> string \<Rightarrow> app_state \<Rightarrow> fault + (app_thread option \<times> app_state)" where
  "log_thread e now kmsg pc file s =
     (if pc = 0 then Inr (if log_enabled kmsg s then None else Some (LogThread kmsg 1 file), s)
      else if pc = 1 then
        bindE (log_file_name e kmsg now) (\<lambda>f.
        bindE (log_cmd (''date >/data/'' @ f) (set_log_enabled kmsg s)) (\<lambda>s1. Inr (Some (LogThread kmsg 2 f), s1)))
      else if pc = 2 then
        Inr (Some (LogThread kmsg 3 file), app_shell (if kmsg then ''chmod 777 /data/kmsg*'' else ''chmod 777 /data/logcat*'') s)
      else
        bindE (log_cmd ((if kmsg then ''cat /proc/kmsg >> /data/'' else ''logcat  -v time>> /data/'') @ file @ '' &'') s)
          (\<lambda>s1. Inr (None, s1)))"

text \<open>\<open>thread_dump_log\<close> behind its sleep, with \<open>fs_cp_data_to_udisk\<close>.\<close>

definition thread_dump_log :: "app_state \<Rightarrow> app_state" where
  "thread_dump_log s = app_ack (app_create CopyToUdisk (s\<lparr>ap_data_encode := ap_encode s\<rparr>))"

text \<open>\<open>fs_msg_fifo_to_file\<close>, then the copies.\<close>

definition FS_FIFO_FILE :: string where "FS_FIFO_FILE = ''/data/lidbg/fs_msg_fifo.txt''"

definition fs_msg_fifo_to_file :: "app_env \<Rightarrow> app_state \<Rightarrow> fault + app_state option" where
  "fs_msg_fifo_to_file e s =
     bindO (app_mem_log e (''fs_msg_fifo_to_file'' @ [CHR 0x0A]) s) (\<lambda>s1.
     bindE (app_fifo_get e FS_FIFO_FILE (ap_fs_fifo s1) (ap_fs s1)) (\<lambda>(dev, fs).
     Inr (Some (s1\<lparr>ap_fs_fifo := dev, ap_fs := fs\<rparr>))))"

definition thread_cp_data_to_udiskt :: "app_env \<Rightarrow> string \<Rightarrow> app_state \<Rightarrow> fault + app_state option" where
  "thread_cp_data_to_udiskt e now s =
     bindO (fs_msg_fifo_to_file e s) (\<lambda>s1.
     bindE (cp_data_to_udisk (ae_retry e) (ae_alloc e) now (ae_machine e) (ap_data_encode s1) (ap_files s1) (ap_fs s1)) (\<lambda>fs.
     Inr (Some (s1\<lparr>ap_fs := fs\<rparr>))))"

definition call_apk :: "app_env \<Rightarrow> app_state \<Rightarrow> app_state" where
  "call_apk e s =
     (let (r1, fs1) = chmod_for_apk (ap_remountd s) (ap_fs s);
          (ret, r2, fs2) = analysis_copylist (ae_retry e) (ae_alloc e) ''/flysystem/lib/out/copylist_app.conf'' r1 fs1
      in s\<lparr>ap_remountd := r2, ap_fs := fs2\<rparr>)"

definition thread_step :: "app_env \<Rightarrow> string \<Rightarrow> app_thread \<Rightarrow> app_state \<Rightarrow> fault + (app_thread option \<times> app_state) option" where
  "thread_step e now t s =
     (case t of
        LogThread kmsg pc file \<Rightarrow> bindE (log_thread e now kmsg pc file s) (\<lambda>r. Inr (Some r))
      | DumpLog \<Rightarrow> Inr (Some (None, thread_dump_log s))
      | CopyToUdisk \<Rightarrow> bindO (thread_cp_data_to_udiskt e now s) (\<lambda>s'. Inr (Some (None, s')))
      | CallApk \<Rightarrow> Inr (Some (None, call_apk e s)))"

text \<open>Events: a write to a node, or the turn of a thread at a time.\<close>

datatype app_event = HalWrite string | DbgWrite string | Turn nat string

definition app_step :: "app_env \<Rightarrow> app_event \<Rightarrow> app_state \<Rightarrow> fault + app_state option" where
  "app_step e ev s =
     (case ev of
        HalWrite b \<Rightarrow> bindO (hal_write e b s) (\<lambda>(_, s'). Inr (Some s'))
      | DbgWrite b \<Rightarrow> bindO (drivers_dbg_write e b s) (\<lambda>(_, s'). Inr (Some s'))
      | Turn i now \<Rightarrow>
          if i < length (ap_threads s) then
            bindO (thread_step e now (ap_threads s ! i) s) (\<lambda>(t, s').
              Inr (Some (s'\<lparr>ap_threads := take i (ap_threads s') @ (case t of None \<Rightarrow> [] | Some t' \<Rightarrow> [t']) @ drop (Suc i) (ap_threads s')\<rparr>)))
          else Inr (Some s))"

section \<open>What is sent\<close>

definition app_sent :: "app_state \<Rightarrow> string list list" where
  "app_sent s = uevents_sent (pm_uevent (ap_pm s))"

definition shell_event :: "string \<Rightarrow> string list" where
  "shell_event cmd = [''LIDBG_ACTION=shell'', take 255 (''LIDBG_PARAMETER='' @ cmd)]"

lemma app_sent_shell [simp]: "app_sent (app_shell cmd s) = app_sent s @ [shell_event cmd]"
  by (simp add: app_sent_def app_shell_def pm_shell_def uevent_shell_def uevent_send_def shell_event_def)

lemma app_shell_simps [simp]:
  "ap_threads (app_shell c s) = ap_threads s" "logcat_enabled (app_shell c s) = logcat_enabled s"
  "dmesg_enabled (app_shell c s) = dmesg_enabled s" "ap_servicer (app_shell c s) = ap_servicer s"
  "ap_dev (app_shell c s) = ap_dev s" "ap_acks (app_shell c s) = ap_acks s"
  by (simp_all add: app_shell_def)

lemma app_sent_shells: "app_sent (fold app_shell cmds s) = app_sent s @ map shell_event cmds"
  by (induction cmds arbitrary: s) simp_all

lemma app_chmod_data: "app_launch (lidbg_chmod ''/data'') s = Inr (app_shell ''chmod 777 /data     '' s)"
  by (simp add: app_launch_def pm_launch_def lidbg_chmod_def lidbg_launch_user_def get_bin_path_def opt_arg_def app_shell_def pm_shell_def)

definition log_start :: "bool \<Rightarrow> string" where
  "log_start kmsg = (if kmsg then ''cat /proc/kmsg >> '' else ''logcat  -v time>> '')"

definition starts_log :: "bool \<Rightarrow> string list \<Rightarrow> bool" where
  "starts_log kmsg ev \<longleftrightarrow> length ev = 2 \<and> take (length (log_start kmsg)) (drop 16 (ev ! 1)) = log_start kmsg"

definition log_starts :: "bool \<Rightarrow> app_state \<Rightarrow> nat" where
  "log_starts kmsg s = length (filter (starts_log kmsg) (app_sent s))"

lemma starts_log_shell:
  "length cmd \<le> 239 \<Longrightarrow> starts_log kmsg (shell_event cmd) \<longleftrightarrow> take (length (log_start kmsg)) cmd = log_start kmsg"
  by (simp add: starts_log_def shell_event_def take_append)

text \<open>What an operation does that starts no log: the flags grow, nothing is started, new threads are at their beginning.\<close>

definition at_start :: "bool \<Rightarrow> app_thread \<Rightarrow> bool" where
  "at_start kmsg t \<longleftrightarrow> (case t of LogThread k pc _ \<Rightarrow> k = kmsg \<longrightarrow> pc = 0 | _ \<Rightarrow> True)"

lemma at_start_simps [simp]:
  "at_start kmsg (LogThread k pc f) \<longleftrightarrow> (k = kmsg \<longrightarrow> pc = 0)" "at_start kmsg DumpLog" "at_start kmsg CopyToUdisk" "at_start kmsg CallApk"
  by (simp_all add: at_start_def)

definition mild :: "bool \<Rightarrow> app_state \<Rightarrow> app_state \<Rightarrow> bool" where
  "mild kmsg s s' \<longleftrightarrow> (log_enabled kmsg s \<longrightarrow> log_enabled kmsg s') \<and> log_starts kmsg s' = log_starts kmsg s \<and>
     (\<exists>ts. ap_threads s' = ap_threads s @ ts \<and> list_all (at_start kmsg) ts)"

lemma mild_refl [simp]: "mild kmsg s s"
  by (simp add: mild_def)

lemma mild_trans [trans]: "mild kmsg s s1 \<Longrightarrow> mild kmsg s1 s2 \<Longrightarrow> mild kmsg s s2"
  unfolding mild_def by (elim conjE exE) simp

lemma mild_same:
  "app_sent s' = app_sent s \<Longrightarrow> ap_threads s' = ap_threads s \<Longrightarrow> log_enabled kmsg s' = log_enabled kmsg s \<Longrightarrow> mild kmsg s s'"
  by (simp add: mild_def log_starts_def)

lemma mild_shell:
  assumes "length cmd \<le> 239" "take (length (log_start kmsg)) cmd \<noteq> log_start kmsg"
  shows "mild kmsg s (app_shell cmd s)"
  using assms by (simp add: mild_def log_starts_def starts_log_shell log_enabled_def)

lemma mild_shells:
  "\<forall>cmd \<in> set cmds. length cmd \<le> 239 \<and> take (length (log_start kmsg)) cmd \<noteq> log_start kmsg \<Longrightarrow> mild kmsg s (fold app_shell cmds s)"
proof (induction cmds arbitrary: s)
  case (Cons c cmds)
  then have "mild kmsg s (app_shell c s)" by (intro mild_shell) auto
  also have "mild kmsg (app_shell c s) (fold app_shell cmds (app_shell c s))" using Cons by auto
  finally show ?case by simp
qed simp

lemma mild_chmod_data: "mild kmsg s (app_shell ''chmod 777 /data     '' s)"
  by (rule mild_shell) (simp_all add: log_start_def)

lemma mild_ack [simp]: "mild kmsg s (app_ack s)"
  by (rule mild_same) (simp_all add: app_ack_def app_sent_def log_enabled_def)

lemma mild_create: "at_start kmsg t \<Longrightarrow> mild kmsg s (app_create t s)"
  by (simp add: mild_def app_create_def log_starts_def app_sent_def log_enabled_def)

lemma foldO_mild:
  assumes "\<And>x s s'. f x s = Inr (Some s') \<Longrightarrow> mild kmsg s s'"
  shows "foldO f xs s = Inr (Some s') \<Longrightarrow> mild kmsg s s'"
proof (induction xs arbitrary: s)
  case (Cons x xs)
  then obtain s1 where "f x s = Inr (Some s1)" "foldO f xs s1 = Inr (Some s')" by (auto simp: bindO_eq_Some_iff)
  then show ?case using assms Cons.IH mild_trans by blast
qed simp

lemma app_mem_log_mild: "app_mem_log e msg s = Inr (Some s') \<Longrightarrow> mild kmsg s s'"
  by (auto simp: app_mem_log_def bindO_eq_Some_iff app_sent_def log_enabled_def intro!: mild_same)

lemma app_ret_eq [simp]: "app_ret r = Inr (Some s) \<longleftrightarrow> r = Inr s" "app_ret (Inr s) = Inr (Some s)" "app_ret (Inl x) = Inl x"
  by (cases r) (simp_all add: app_ret_def)

lemma app_show_menu_mild:
  assumes "app_show_menu e s = Inr (Some s')"
  shows "mild kmsg s s'"
proof -
  have "foldO (app_mem_log e) app_menu (app_shell ''chmod 777 /data     '' s) = Inr (Some s')"
    using assms by (simp add: app_show_menu_def app_chmod_data)
  then have "mild kmsg (app_shell ''chmod 777 /data     '' s) s'" by (rule foldO_mild [rotated]) (rule app_mem_log_mild)
  then show ?thesis by (rule mild_trans [OF mild_chmod_data])
qed

lemma app_dump_mild:
  assumes "app_dump e enc s = Inr s'"
  shows "mild kmsg s s'"
proof -
  let ?s1 = "app_shell ''chmod 777 /data     '' (s\<lparr>ap_encode := enc\<rparr>)"
  obtain dev fs where s': "s' = app_create DumpLog (?s1\<lparr>ap_msg_fifo := dev, ap_fs := fs\<rparr>)"
    using assms by (auto simp: app_dump_def app_chmod_data bindE_eq_Inr_iff)
  have "mild kmsg s (s\<lparr>ap_encode := enc\<rparr>)" by (rule mild_same) (simp_all add: app_sent_def log_enabled_def)
  also have "mild kmsg \<dots> ?s1" by (rule mild_chmod_data)
  also have "mild kmsg \<dots> (?s1\<lparr>ap_msg_fifo := dev, ap_fs := fs\<rparr>)"
    by (rule mild_same) (simp_all add: app_sent_def log_enabled_def)
  also have "mild kmsg \<dots> s'" unfolding s' by (rule mild_create) simp
  finally show ?thesis .
qed

lemma app_code_mild: "app_code e code s = Inr s' \<Longrightarrow> mild kmsg s s'"
proof -
  assume code: "app_code e code s = Inr s'"
  have w: "mild kmsg s (app_create CallApk (s\<lparr>is_fs_work_enable := True, ap_te_enable := True\<rparr>))"
    by (simp add: mild_def app_create_def log_starts_def app_sent_def log_enabled_def)
  have a: "mild kmsg s (app_ack t)" if "app_sent t = app_sent s" "ap_threads t = ap_threads s" "log_enabled kmsg t = log_enabled kmsg s" for t
    using that by (intro mild_trans [OF mild_same mild_ack])
  show ?thesis
    using code w app_dump_mild unfolding app_code_def
    by (auto simp: app_sent_def log_enabled_def split: if_split_asm intro!: a)
qed

lemma appcmd_menu_mild:
  "bindO (if c then app_show_menu e s else Inr (Some s)) f = Inr (Some s') \<Longrightarrow>
     (\<And>s1. f s1 = Inr (Some s') \<Longrightarrow> mild kmsg s1 s') \<Longrightarrow> mild kmsg s s'"
  by (auto simp: bindO_eq_Some_iff split: if_split_asm intro: mild_trans [OF app_show_menu_mild])

lemma mild_chmod_then: "mild kmsg (app_shell ''chmod 777 /data     '' s) s' \<Longrightarrow> mild kmsg s s'"
  by (rule mild_trans [OF mild_chmod_data])

lemma mild_then_ack: "mild kmsg s s' \<Longrightarrow> mild kmsg s (app_ack s')"
  by (rule mild_trans [OF _ mild_ack])

lemma dbg_appcmd_mild:
  assumes "dbg_appcmd e code s = Inr (Some s')"
  shows "mild kmsg s s'"
proof (rule appcmd_menu_mild [OF assms [unfolded dbg_appcmd_def]])
  fix s1
  assume r: "app_ret (
       if code = ''*158#001'' then
         bindE (app_launch (lidbg_chmod ''/data'') s1) (\<lambda>s2. Inr (app_ack (app_create (LogThread False 0 []) s2)))
       else if code = ''*158#002'' then
         bindE (app_launch (lidbg_chmod ''/data'') s1) (\<lambda>s2. Inr (app_ack (app_create (LogThread True 0 []) s2)))
       else if code = ''*158#003'' then Inr (app_ack (fold app_shell clear_logs_cmds s1))
       else if code = ''*158#004'' then Inr (app_ack (fold app_shell machine_state_cmds s1))
       else app_code e code s1) = Inr (Some s')"
  have c: "mild kmsg s1 (fold app_shell clear_logs_cmds s1)"
    by (rule mild_shells) (simp add: clear_logs_cmds_def log_start_def)
  have m: "mild kmsg s1 (fold app_shell machine_state_cmds s1)"
    by (rule mild_shells) (simp add: machine_state_cmds_def log_start_def)
  have l: "mild kmsg s1 (app_create (LogThread k 0 []) (app_shell ''chmod 777 /data     '' s1))" for k
    by (rule mild_chmod_then [OF mild_create]) simp
  show "mild kmsg s1 s'"
    using r c m l app_code_mild by (auto simp: app_chmod_data split: if_split_asm intro: mild_then_ack)
qed

lemma mild_k2u: "mild kmsg s (app_k2u c s)"
  by (rule mild_same) (simp_all add: app_k2u_def app_sent_def log_enabled_def)

lemma hal_appcmd_mild:
  assumes "hal_appcmd e code s = Inr (Some s')"
  shows "mild kmsg s s'"
proof (rule appcmd_menu_mild [OF assms [unfolded hal_appcmd_def]])
  fix s1
  assume r: "app_ret (
       if code = ''*158#001'' then bindE (app_launch (lidbg_chmod ''/data'') s1) (\<lambda>s2. Inr (app_ack (app_k2u LOG_LOGCAT s2)))
       else if code = ''*158#002'' then bindE (app_launch (lidbg_chmod ''/data'') s1) (\<lambda>s2. Inr (app_ack (app_k2u LOG_DMESG s2)))
       else if code = ''*158#003'' then Inr (app_ack (app_k2u LOG_CLEAR_LOGCAT_KMSG s1))
       else if code = ''*158#004'' then Inr (app_ack (app_k2u LOG_SHELL_TOP_DF_PS s1))
       else app_code e code s1) = Inr (Some s')"
  have l: "mild kmsg s1 (app_k2u c (app_shell ''chmod 777 /data     '' s1))" for c
    by (rule mild_chmod_then [OF mild_k2u])
  show "mild kmsg s1 s'"
    using r l mild_k2u app_code_mild by (auto simp: app_chmod_data split: if_split_asm intro: mild_then_ack)
qed

lemma pm_step_uevent:
  "pm_step_of n = Inr step \<Longrightarrow> lidbg_pm_step_call step p = Inr p' \<Longrightarrow> pm_uevent p' = pm_uevent p"
  by (auto simp: pm_step_of_def lidbg_pm_step_call_def pm_do_def PM_action_entry_def deal_kernel_wakelock_def
      deal_userspace_wakelock_def wl_list_action_func_def deal_sources_unlock Let_def split: if_split_asm option.splits)

lemma dbg_parse_cmd_mild:
  assumes "dbg_parse_cmd e pt s = Inr (Some s')"
  shows "mild kmsg s s'"
proof -
  have m: "mild kmsg s t" if "dbg_monkey argv s = Inr t" for argv t
    using that by (auto simp: dbg_monkey_def bindE_eq_Inr_iff app_sent_def log_enabled_def intro!: mild_same)
  have p: "mild kmsg s t" if "dbg_pm argv s = Inr t" for argv t
    using that by (auto simp: dbg_pm_def bindE_eq_Inr_iff app_sent_def log_enabled_def pm_step_uevent intro!: mild_same)
  have p1: "mild kmsg s t" if "dbg_pm1 argv s = Inr t" for argv t
    using that by (auto simp: dbg_pm1_def bindE_eq_Inr_iff linux_to_lidbg_receiver_def)
  have l: "mild kmsg s t" if "dbg_lpc argv s = Inr t" for argv t
    using that by (auto simp: dbg_lpc_def bindE_eq_Inr_iff app_sent_def log_enabled_def intro!: mild_same)
  from assms show ?thesis
    by (auto simp: dbg_parse_cmd_def bindE_eq_Inr_iff Let_def split: if_split_asm intro: dbg_appcmd_mild m p p1 l)
qed

lemma hal_parse_cmd_mild: "hal_parse_cmd e pt s = Inr (Some s') \<Longrightarrow> mild kmsg s s'"
  by (auto simp: hal_parse_cmd_def bindE_eq_Inr_iff split: if_split_asm intro: hal_appcmd_mild)

section \<open>A log is started once\<close>

definition quiet :: "bool \<Rightarrow> app_state \<Rightarrow> bool" where
  "quiet kmsg s \<longleftrightarrow> log_enabled kmsg s \<and> list_all (at_start kmsg) (ap_threads s)"

lemma mild_quiet: "mild kmsg s s' \<Longrightarrow> quiet kmsg s \<Longrightarrow> quiet kmsg s' \<and> log_starts kmsg s' = log_starts kmsg s"
  by (auto simp: mild_def quiet_def)

lemma log_cmd_shell: "log_cmd cmd s = Inr s' \<Longrightarrow> s' = app_shell (c_string cmd) s \<and> length (c_string cmd) \<le> 239"
proof -
  assume l: "log_cmd cmd s = Inr s'"
  then have len: "length cmd < 128" by (auto simp: log_cmd_def sprintf_to_def store_front_def bindE_eq_Inr_iff split: if_splits)
  have "c_string (cmd @ CHR 0x00 # r) = c_string cmd" for r by (simp add: c_string_def takeWhile_tail)
  moreover have "length (c_string cmd) \<le> length cmd" by (simp add: c_string_def length_takeWhile_le)
  ultimately show ?thesis using l len by (auto simp: log_cmd_def sprintf_to_def store_front_def)
qed

lemma other_cmds:
  "take (length (log_start kmsg)) (c_string (''date >/data/'' @ f)) \<noteq> log_start kmsg"
  "kmsg \<noteq> k \<Longrightarrow> take (length (log_start kmsg)) (c_string ((if k then ''cat /proc/kmsg >> /data/'' else ''logcat  -v time>> /data/'') @ f)) \<noteq> log_start kmsg"
  "take (length (log_start kmsg)) (if k then ''chmod 777 /data/kmsg*'' else ''chmod 777 /data/logcat*'') \<noteq> log_start kmsg"
  by (auto simp: log_start_def c_string_def)

lemma log_cmd_mild:
  "log_cmd cmd s = Inr s' \<Longrightarrow> take (length (log_start kmsg)) (c_string cmd) \<noteq> log_start kmsg \<Longrightarrow> mild kmsg s s'"
  using log_cmd_shell mild_shell by blast

lemma set_log_mild: "mild kmsg s (set_log_enabled k s)"
  by (simp add: mild_def set_log_enabled_def log_enabled_def log_starts_def app_sent_def)

lemma log_thread_mild:
  assumes "log_thread e now k pc file s = Inr (t, s')" "at_start kmsg (LogThread k pc file)" "log_enabled kmsg s"
  shows "mild kmsg s s' \<and> (case t of None \<Rightarrow> True | Some t' \<Rightarrow> at_start kmsg t')"
proof (cases "k = kmsg")
  case True
  with assms show ?thesis by (simp add: log_thread_def)
next
  case False
  then have t: "case t of None \<Rightarrow> True | Some t' \<Rightarrow> at_start kmsg t'"
    using assms(1) by (auto simp: log_thread_def bindE_eq_Inr_iff split: if_split_asm)
  have d: "mild kmsg s s'" if "log_cmd (''date >/data/'' @ f) (set_log_enabled k s) = Inr s'" for f
    using mild_trans [OF set_log_mild log_cmd_mild [OF that other_cmds(1)]] .
  have c: "mild kmsg s (app_shell (if k then ''chmod 777 /data/kmsg*'' else ''chmod 777 /data/logcat*'') s)"
    by (rule mild_shell [OF _ other_cmds(3)]) simp
  have l: "mild kmsg s s'"
    if "log_cmd ((if k then ''cat /proc/kmsg >> /data/'' else ''logcat  -v time>> /data/'') @ file @ '' &'') s = Inr s'"
    using False by (intro log_cmd_mild [OF that other_cmds(2)]) auto
  have "mild kmsg s s'"
  proof -
    consider "s' = s" | f where "log_cmd (''date >/data/'' @ f) (set_log_enabled k s) = Inr s'"
      | "s' = app_shell (if k then ''chmod 777 /data/kmsg*'' else ''chmod 777 /data/logcat*'') s"
      | "log_cmd ((if k then ''cat /proc/kmsg >> /data/'' else ''logcat  -v time>> /data/'') @ file @ '' &'') s = Inr s'"
      using assms(1) unfolding log_thread_def by (auto simp: bindE_eq_Inr_iff split: if_split_asm)
    then show ?thesis using d c l by cases simp_all
  qed
  with t show ?thesis by simp
qed

lemma thread_dump_log_mild: "mild kmsg s (thread_dump_log s)"
  unfolding thread_dump_log_def
  by (rule mild_then_ack) (simp add: mild_def app_create_def log_enabled_def log_starts_def app_sent_def)

lemma thread_cp_mild: "thread_cp_data_to_udiskt e now s = Inr (Some s') \<Longrightarrow> mild kmsg s s'"
proof -
  assume "thread_cp_data_to_udiskt e now s = Inr (Some s')"
  then obtain s1 s2 dev fs fs' where 1: "app_mem_log e (''fs_msg_fifo_to_file'' @ [CHR 0x0A]) s = Inr (Some s1)"
    and 2: "s2 = s1\<lparr>ap_fs_fifo := dev, ap_fs := fs\<rparr>" "s' = s2\<lparr>ap_fs := fs'\<rparr>"
    by (auto simp: thread_cp_data_to_udiskt_def fs_msg_fifo_to_file_def bindO_eq_Some_iff bindE_eq_Inr_iff)
  have "mild kmsg s1 s'" unfolding 2 by (rule mild_same) (simp_all add: app_sent_def log_enabled_def)
  with app_mem_log_mild [OF 1] show ?thesis by (rule mild_trans)
qed

lemma call_apk_mild: "mild kmsg s (call_apk e s)"
  by (rule mild_same) (simp_all add: call_apk_def Let_def app_sent_def log_enabled_def split: prod.split)

lemma thread_step_mild:
  assumes "thread_step e now t s = Inr (Some (t', s'))" "at_start kmsg t" "log_enabled kmsg s"
  shows "mild kmsg s s' \<and> (case t' of None \<Rightarrow> True | Some x \<Rightarrow> at_start kmsg x)"
proof (cases t)
  case (LogThread k pc nm)
  with assms log_thread_mild show ?thesis by (auto simp: thread_step_def bindE_eq_Inr_iff)
next
  case DumpLog
  with assms(1) thread_dump_log_mild show ?thesis by (auto simp: thread_step_def)
next
  case CopyToUdisk
  with assms(1) thread_cp_mild show ?thesis by (auto simp: thread_step_def bindO_eq_Some_iff)
next
  case CallApk
  with assms(1) call_apk_mild show ?thesis by (auto simp: thread_step_def)
qed

lemma app_step_quiet:
  assumes "app_step e ev s = Inr (Some s')" "quiet kmsg s"
  shows "quiet kmsg s' \<and> log_starts kmsg s' = log_starts kmsg s"
proof (cases ev)
  case (HalWrite b)
  with assms(1) have "\<exists>pt. hal_parse_cmd e pt s = Inr (Some s')"
    by (auto simp: app_step_def hal_write_def bindE_eq_Inr_iff bindO_eq_Some_iff)
  then show ?thesis using hal_parse_cmd_mild mild_quiet assms(2) by blast
next
  case (DbgWrite b)
  with assms(1) have "\<exists>pt. dbg_parse_cmd e pt s = Inr (Some s')"
    by (auto simp: app_step_def drivers_dbg_write_def bindE_eq_Inr_iff bindO_eq_Some_iff)
  then show ?thesis using dbg_parse_cmd_mild mild_quiet assms(2) by blast
next
  case (Turn i now)
  show ?thesis
  proof (cases "i < length (ap_threads s)")
    case True
    with assms(1) Turn obtain t s1 where st: "thread_step e now (ap_threads s ! i) s = Inr (Some (t, s1))"
      and s': "s' = s1\<lparr>ap_threads := take i (ap_threads s1) @ (case t of None \<Rightarrow> [] | Some t' \<Rightarrow> [t']) @ drop (Suc i) (ap_threads s1)\<rparr>"
      by (auto simp: app_step_def bindO_eq_Some_iff)
    have "at_start kmsg (ap_threads s ! i)" using assms(2) True by (simp add: quiet_def list_all_length)
    with thread_step_mild [OF st] assms(2) have m: "mild kmsg s s1" "case t of None \<Rightarrow> True | Some x \<Rightarrow> at_start kmsg x"
      by (auto simp: quiet_def)
    from mild_quiet [OF m(1) assms(2)] have q: "list_all (at_start kmsg) (ap_threads s1)" "log_enabled kmsg s1" "log_starts kmsg s1 = log_starts kmsg s"
      by (auto simp: quiet_def)
    have "list_all (at_start kmsg) (take i (ap_threads s1))" "list_all (at_start kmsg) (drop (Suc i) (ap_threads s1))"
      using q(1) by (auto simp: list_all_iff dest: in_set_takeD in_set_dropD)
    with m(2) q(2,3) show ?thesis unfolding s'
      by (auto simp: quiet_def log_starts_def app_sent_def log_enabled_def split: option.split)
  next
    case False
    with assms Turn show ?thesis by (simp add: app_step_def)
  qed
qed

section \<open>Texts\<close>

definition plain_words :: "string list \<Rightarrow> bool" where
  "plain_words ws \<longleftrightarrow> ws \<noteq> [] \<and> hd ws \<noteq> [] \<and> length ws \<le> 32 \<and> length (join (CHR '' '') ws) < 511 \<and>
     list_all (\<lambda>w. CHR '' '' \<notin> set w \<and> CHR 0x00 \<notin> set w \<and> CHR 0x0A \<notin> set w) ws"

lemma plain_words_text:
  assumes "plain_words ws"
  shows "join (CHR '' '') ws \<noteq> []" "CHR 0x00 \<notin> set (join (CHR '' '') ws)" "CHR 0x0A \<notin> set (join (CHR '' '') ws)"
proof -
  have "set (join (CHR '' '') ws) \<subseteq> insert (CHR '' '') (\<Union> (set ` set ws))" by (rule set_join)
  then show "CHR 0x00 \<notin> set (join (CHR '' '') ws)" "CHR 0x0A \<notin> set (join (CHR '' '') ws)"
    using assms by (auto simp: plain_words_def list_all_iff)
  show "join (CHR '' '') ws \<noteq> []" using assms by (cases ws; cases "tl ws") (auto simp: plain_words_def)
qed

lemma plain_words_tokens:
  "plain_words ws \<Longrightarrow> lidbg_token_string 32 (Some (join (CHR '' '') ws)) (Some '' '') = Inr (length ws, ws)"
  by (simp add: lidbg_token_string_def plain_words_def list_all_iff strsep_all_join)

lemma node_text_words:
  assumes "plain_words ws"
  shows "node_text strip (join (CHR '' '') ws) = Inr (join (CHR '' '') ws)"
    "node_text True (join (CHR '' '') ws @ [CHR 0x0A]) = Inr (join (CHR '' '') ws)"
proof -
  note t = plain_words_text [OF assms]
  have "last (join (CHR '' '') ws) \<noteq> CHR 0x0A" using t(1,3) last_in_set by fastforce
  then show "node_text strip (join (CHR '' '') ws) = Inr (join (CHR '' '') ws)"
    using assms t by (simp add: node_text_def plain_words_def c_string_id)
  show "node_text True (join (CHR '' '') ws @ [CHR 0x0A]) = Inr (join (CHR '' '') ws)"
    using assms t by (simp add: node_text_def plain_words_def c_string_plain)
qed

text \<open>With a newline at the end, as \<^verbatim>\<open>echo\<close> writes it, or without.\<close>

definition text_of :: "bool \<Rightarrow> string list \<Rightarrow> string" where
  "text_of newline ws = join (CHR '' '') ws @ (if newline then [CHR 0x0A] else [])"

lemma node_text_of: "plain_words ws \<Longrightarrow> node_text True (text_of nl ws) = Inr (join (CHR '' '') ws)"
  by (simp add: text_of_def node_text_words)

lemma dbg_write_words:
  "plain_words ws \<Longrightarrow> drivers_dbg_write e (text_of nl ws) s =
     bindO (dbg_parse_cmd e (join (CHR '' '') ws) s) (\<lambda>s'. Inr (Some (length (text_of nl ws), s')))"
  by (simp add: drivers_dbg_write_def node_text_of)

lemma dbg_write_code:
  assumes "plain_words [''appcmd'', code]"
  shows "drivers_dbg_write e (text_of nl [''appcmd'', code]) s =
    bindO (dbg_appcmd e code s) (\<lambda>s'. Inr (Some (length (text_of nl [''appcmd'', code]), s')))"
  using plain_words_tokens [OF assms] by (simp add: dbg_write_words [OF assms] dbg_parse_cmd_def word_at_def need_def)

lemma hal_write_code:
  assumes "plain_words [''appcmd'', code]"
  shows "hal_write e (text_of False [''appcmd'', code]) s =
    bindO (hal_appcmd e code s) (\<lambda>s'. Inr (Some (length (text_of False [''appcmd'', code]), s')))"
  using plain_words_tokens [OF assms] node_text_words [OF assms]
  by (simp add: hal_write_def text_of_def hal_parse_cmd_def word_at_def need_def)

text \<open>Bytes in decimal.\<close>

lemma byte_text:
  "CHR '' '' \<notin> set (show_nat n)" "CHR 0x00 \<notin> set (show_nat n)" "CHR 0x0A \<notin> set (show_nat n)"
  using show_nat_digits [of _ n] by (fastforce simp: digit_of_def)+

lemma byte_text_length: "length (show_nat (unat (b :: byte))) \<le> 3"
proof -
  have "unat b < 256" using unsigned_less [of b, where ?'a = nat] by simp
  then show ?thesis by (intro length_show_nat) simp_all
qed

lemma byte_text_value: "ucast (simple_strtoul (show_nat (unat (b :: byte)))) = b"
  by (simp add: simple_strtoul_def strtoul_show_nat)

definition lpc_words :: "byte list \<Rightarrow> string list" where
  "lpc_words bs = ''lpc'' # map (\<lambda>b. show_nat (unat b)) bs"

lemma length_join_le: "\<forall>w \<in> set ws. length w \<le> 3 \<Longrightarrow> length (join c ws) \<le> 4 * length ws"
  by (induction c ws rule: join.induct) auto

lemma lpc_words_plain: "length bs \<le> 31 \<Longrightarrow> plain_words (lpc_words bs)"
proof -
  assume n: "length bs \<le> 31"
  have "length (join (CHR '' '') (lpc_words bs)) \<le> 4 * length (lpc_words bs)"
    by (rule length_join_le) (auto simp: lpc_words_def byte_text_length)
  with n show ?thesis by (auto simp: plain_words_def lpc_words_def list_all_iff byte_text)
qed

lemma lpc_bytes_collected:
  "k + length bs \<le> length (lpc_words as) - 1 \<Longrightarrow> bs = take (length bs) (drop k as) \<Longrightarrow> length pre = k \<Longrightarrow>
   foldE (lpc_byte (lpc_words as)) [k..<k + length bs] pre = (if k + length bs \<le> 10 \<or> bs = [] then Inr (pre @ bs) else Inl BufOverrun)"
proof (induction bs arbitrary: k pre)
  case (Cons b bs)
  have k: "k < length as" using Cons.prems(1) by (simp add: lpc_words_def)
  then have d: "drop k as = as ! k # drop (Suc k) as" by (simp add: Cons_nth_drop_Suc)
  with Cons.prems(2) have b: "as ! k = b" "bs = take (length bs) (drop (Suc k) as)" by auto
  have "word_at (lpc_words as) (k + 1) = Some (show_nat (unat b))"
    using k b(1) by (simp add: word_at_def lpc_words_def)
  then have step: "lpc_byte (lpc_words as) k pre = (if k < 10 then Inr (pre @ [b]) else Inl BufOverrun)"
    using Cons.prems(3) by (simp add: lpc_byte_def num_arg_def need_def byte_text_value)
  have u: "[k..<k + length (b # bs)] = k # [Suc k..<Suc k + length bs]" by (subst upt_rec) simp
  have IH: "foldE (lpc_byte (lpc_words as)) [Suc k..<Suc k + length bs] (pre @ [b]) =
      (if Suc k + length bs \<le> 10 \<or> bs = [] then Inr ((pre @ [b]) @ bs) else Inl BufOverrun)"
    using Cons.prems b(2) by (intro Cons.IH) auto
  show ?case unfolding u foldE.simps step using IH by (auto simp: not_less)
qed simp

lemma dbg_lpc_sends:
  "dbg_lpc (lpc_words bs) s =
     (if length bs \<le> 10 then Inr (s\<lparr>ap_dev := ap_dev s @ [SOC_LPC_Send bs]\<rparr>) else Inl BufOverrun)"
  using lpc_bytes_collected [of 0 bs bs "[]"] by (auto simp: dbg_lpc_def lpc_words_def)

lemma dbg_write_lpc:
  assumes "length bs \<le> 31"
  shows "drivers_dbg_write e (text_of nl (lpc_words bs)) s =
    (if length bs \<le> 10 then Inr (Some (length (text_of nl (lpc_words bs)), s\<lparr>ap_dev := ap_dev s @ [SOC_LPC_Send bs]\<rparr>)) else Inl BufOverrun)"
proof -
  have h: "lpc_words bs ! 0 = ''lpc''" by (simp add: lpc_words_def)
  show ?thesis
    using plain_words_tokens [OF lpc_words_plain [OF assms]] dbg_lpc_sends [of bs s]
    by (simp add: dbg_write_words [OF lpc_words_plain [OF assms]] dbg_parse_cmd_def Let_def h)
qed

section \<open>Properties\<close>

text \<open>
  (C30) A text command carries bytes to the micro controller: up to ten numbers written in decimal behind the word \<^verbatim>\<open>lpc\<close>, with or
  without a newline, are handed to \<open>SOC_LPC_Send\<close> as these bytes, nothing else changes, and the frame which that function puts on the
  bus is taken apart by a receiver of the protocol into the same bytes.
\<close>

theorem lpc_command_roundtrip:
  assumes "length bs \<le> 10" "lpc_idle h"
  shows "\<exists>h'. drivers_dbg_write e (text_of nl (lpc_words bs)) s =
      Inr (Some (length (text_of nl (lpc_words bs)), s\<lparr>ap_dev := ap_dev s @ [SOC_LPC_Send bs]\<rparr>)) \<and>
    mcu_bytes (lpc_frame bs) h = Inr h' \<and> lpc_idle h' \<and> deals h' = deals h @ [bs]"
proof -
  have "list_all lpc_fits [bs]" using assms(1) by (simp add: lpc_fits_def DATA_BUFF_LENGTH_FROM_MCU_def)
  from lpc.feed_stream [OF this assms(2)] show ?thesis
    using assms(1) by (auto simp: dbg_write_lpc)
qed

text \<open>With more than ten numbers the bytes run over the array.\<close>

theorem lpc_command_overruns:
  "10 < length bs \<Longrightarrow> length bs \<le> 31 \<Longrightarrow> drivers_dbg_write e (text_of nl (lpc_words bs)) s = Inl BufOverrun"
  by (simp add: dbg_write_lpc)

definition app_env_example :: app_env where
  "app_env_example = \<lparr>ae_kmalloc = True, ae_alloc = (\<lambda>_. True), ae_retry = False, ae_beyond = [], ae_max_len = 1, ae_machine = 7\<rparr>"

definition app_boot :: app_state where
  "app_boot = \<lparr>ap_pm = pm_start None, ap_fs = example_fs, ap_remountd = False, ap_files = [], ap_servicer = servicer_start,
     ap_trace = trace_start [], ap_msg_fifo = None, ap_fs_fifo = None, ap_monkey = monkey_start, ap_dev = [], ap_acks = 0,
     ap_encode = False, ap_data_encode = False, logcat_enabled = False, dmesg_enabled = False, is_fs_work_enable = False,
     ap_te_enable = False, ap_threads = []\<rparr>"

theorem lpc_command_roundtrip_witness:
  "\<exists>n s'. drivers_dbg_write app_env_example ''lpc 2 13 255'' app_boot = Inr (Some (n, s')) \<and> ap_dev s' = [SOC_LPC_Send [2, 13, 255]]"
proof -
  have t: "text_of False (lpc_words [2, 13, 255]) = ''lpc 2 13 255''"
  proof -
    have "show_nat 2 = ''2''" "show_nat 13 = ''13''" "show_nat 255 = ''255''" by code_simp+
    then show ?thesis by (simp add: text_of_def lpc_words_def)
  qed
  have "lpc_idle GlobalHardwareInfo" by (rule lpc_inv_start)
  from lpc_command_roundtrip [OF _ this, of "[2, 13, 255]" app_env_example False app_boot] show ?thesis
    unfolding t by (auto simp: app_boot_def)
qed

text \<open>
  The helper program, to which the node \<^verbatim>\<open>lidbg_hal\<close> hands the two codes, has flags of its own: how often it has started a log.
\<close>

definition helper_flag :: "bool \<Rightarrow> helper \<Rightarrow> bool" where
  "helper_flag kmsg h = (if kmsg then kmsg_flag h else logcat_flag h)"

definition act_starts :: "bool \<Rightarrow> helper_act \<Rightarrow> bool" where
  "act_starts kmsg a = (case a of System c \<Rightarrow> take (length (log_start kmsg)) c = log_start kmsg | _ \<Rightarrow> False)"

definition helper_starts :: "bool \<Rightarrow> helper \<Rightarrow> nat" where
  "helper_starts kmsg h = length (filter (act_starts kmsg) (h_acts h))"

lemma helper_cmd_starts:
  assumes "servicer_cmd mif now cmd h = Inr h'" "helper_flag kmsg h"
  shows "helper_starts kmsg h' = helper_starts kmsg h \<and> helper_flag kmsg h'"
proof -
  have a: "helper_starts kmsg (do_acts acts t) = helper_starts kmsg t + length (filter (act_starts kmsg) acts)"
    "helper_flag kmsg (do_acts acts t) = helper_flag kmsg t" for acts t
    by (simp_all add: helper_starts_def do_acts_def helper_flag_def)
  show ?thesis
    using assms unfolding servicer_cmd_def
    by (auto simp: a bindE_eq_Inr_iff act_starts_def log_start_def split: if_split_asm)
      (auto simp: helper_flag_def helper_starts_def)
qed

lemma helper_cmds_start:
  "foldE (\<lambda>(mif, now, cmd). servicer_cmd mif now cmd) cmds h = Inr h' \<Longrightarrow> helper_flag kmsg h \<Longrightarrow>
     helper_starts kmsg h' = helper_starts kmsg h"
proof (induction cmds arbitrary: h)
  case (Cons c cmds)
  obtain mif now cmd where c: "c = (mif, now, cmd)" by (cases c)
  with Cons.prems(1) obtain h1 where h1: "servicer_cmd mif now cmd h = Inr h1"
    "foldE (\<lambda>(mif, now, cmd). servicer_cmd mif now cmd) cmds h1 = Inr h'"
    by (cases "servicer_cmd mif now cmd h") auto
  from helper_cmd_starts [OF h1(1) Cons.prems(2)] Cons.IH [OF h1(2)] show ?case by simp
qed simp

text \<open>
  (C31) Neither program starts a log again.  In the kernel: when the flag of a log is set, and no thread is between the test of the flag
  and its last command, then nothing that is written to the two nodes, in any interleaving with the threads that it starts, makes the
  kernel send the command of that log to user space again.  In the helper program, to which the codes written to \<^verbatim>\<open>lidbg_hal\<close> go: once
  its own flag for the log is set, no command that it takes makes it start that log again.  The two flags know nothing of each other: each
  of the two programs may start a log once.
\<close>

theorem log_started_once:
  assumes "quiet kmsg s" "foldO (app_step e) evs s = Inr (Some s')"
    and "helper_flag kmsg h" "foldE (\<lambda>(mif, now, cmd). servicer_cmd mif now cmd) cmds h = Inr h'"
  shows "log_starts kmsg s' = log_starts kmsg s \<and> helper_starts kmsg h' = helper_starts kmsg h"
proof -
  have "log_starts kmsg s' = log_starts kmsg s"
    using assms(1,2)
  proof (induction evs arbitrary: s)
    case (Cons ev evs)
    then obtain s1 where s1: "app_step e ev s = Inr (Some s1)" "foldO (app_step e) evs s1 = Inr (Some s')"
      by (auto simp: bindO_eq_Some_iff)
    from app_step_quiet [OF s1(1) Cons.prems(1)] Cons.IH [OF _ s1(2)] show ?case by simp
  qed simp
  with helper_cmds_start [OF assms(4,3)] show ?thesis by simp
qed

lemma code_001_plain: "plain_words [''appcmd'', ''*158#001'']"
  by (simp add: plain_words_def)

lemma dbg_write_001:
  "drivers_dbg_write e (text_of nl [''appcmd'', ''*158#001'']) s =
     Inr (Some (length (text_of nl [''appcmd'', ''*158#001'']),
       app_ack (app_create (LogThread False 0 []) (app_shell ''chmod 777 /data     '' s))))"
  by (simp add: dbg_write_code [OF code_001_plain] dbg_appcmd_def app_chmod_data)

definition log_running :: app_state where
  "log_running = app_boot\<lparr>logcat_enabled := True\<rparr>"

theorem log_started_once_witness:
  "\<exists>s'. foldO (app_step app_env_example) [DbgWrite (text_of True [''appcmd'', ''*158#001'']), Turn 0 ''now''] log_running = Inr (Some s') \<and>
     log_starts False s' = 0"
proof -
  have q: "quiet False log_running" by (simp add: quiet_def log_running_def app_boot_def log_enabled_def)
  have "\<exists>s'. foldO (app_step app_env_example) [DbgWrite (text_of True [''appcmd'', ''*158#001'']), Turn 0 ''now''] log_running = Inr (Some s')"
    by (simp add: app_step_def dbg_write_001 app_ack_def app_create_def thread_step_def log_thread_def log_running_def app_boot_def)
  then obtain s' where
    s': "foldO (app_step app_env_example) [DbgWrite (text_of True [''appcmd'', ''*158#001'']), Turn 0 ''now''] log_running = Inr (Some s')"
    by blast
  have "log_starts False log_running = 0" by (simp add: log_starts_def app_sent_def log_running_def app_boot_def pm_start_def)
  have "helper_flag False (helper_start\<lparr>logcat_flag := True\<rparr>)" by (simp add: helper_flag_def)
  moreover have "foldE (\<lambda>(mif, now, cmd). servicer_cmd mif now cmd) [(None, ''now'', LOG_LOGCAT)] (helper_start\<lparr>logcat_flag := True\<rparr>) =
      Inr (helper_start\<lparr>logcat_flag := True\<rparr>)"
    by (simp add: servicer_cmd_def helper_commands)
  ultimately have "log_starts False s' = log_starts False log_running" using log_started_once [OF q s'] by blast
  with \<open>log_starts False log_running = 0\<close> s' show ?thesis by auto
qed

text \<open>Two threads that both test the flag before one of them sets it both start the log.\<close>

definition race_events :: "app_event list" where
  "race_events =
     [DbgWrite (text_of True [''appcmd'', ''*158#001'']), DbgWrite (text_of True [''appcmd'', ''*158#001'']), Turn 0 ''t'', Turn 1 ''t'',
      Turn 0 ''t'', Turn 1 ''t'', Turn 0 ''t'', Turn 1 ''t'', Turn 1 ''t'', Turn 0 ''t'']"

lemma log_file_name_example: "log_file_name app_env_example False ''t'' = Inr ''logcat_7_t.txt''"
proof -
  have "show_int 7 = ''7''" by code_simp
  then show ?thesis
    using c_string_plain [of "''logcat_7_t.txt''"] by (simp add: log_file_name_def app_env_example_def sprintf_to_def store_front_def)
qed

lemma log_cmd_plain: "length cmd < 128 \<Longrightarrow> CHR 0x00 \<notin> set cmd \<Longrightarrow> log_cmd cmd s = Inr (app_shell cmd s)"
  by (simp add: log_cmd_def sprintf_to_def store_front_def c_string_plain)

theorem log_started_twice:
  "\<exists>s'. foldO (app_step app_env_example) race_events app_boot = Inr (Some s') \<and> log_starts False s' = 2"
  by (simp add: race_events_def app_step_def dbg_write_001 app_ack_def app_create_def thread_step_def log_thread_def log_file_name_example
      log_cmd_plain set_log_enabled_def log_enabled_def app_boot_def log_starts_def starts_log_shell log_start_def)
    (simp add: app_shell_def log_starts_def app_sent_def pm_shell_def uevent_shell_def uevent_send_def pm_start_def starts_log_def log_start_def)

section \<open>The two nodes do the same\<close>

definition code_cmds :: "(string \<times> string list) list" where
  "code_cmds = [(''*158#003'', clear_logs_cmds), (''*158#004'', machine_state_cmds)]"

lemma code_cmds_plain: "(code, cmds) \<in> set code_cmds \<Longrightarrow> plain_words [''appcmd'', code]"
  by (auto simp: code_cmds_def plain_words_def)

definition code_k2u :: "string \<Rightarrow> u32" where
  "code_k2u code = (if code = ''*158#003'' then LOG_CLEAR_LOGCAT_KMSG else LOG_SHELL_TOP_DF_PS)"

lemma code_of_both:
  assumes "(code, cmds) \<in> set code_cmds"
  shows "dbg_appcmd e code s = Inr (Some (app_ack (fold app_shell cmds s)))"
    "hal_appcmd e code s = Inr (Some (app_ack (app_k2u (code_k2u code) s)))"
    "servicer_cmd mif now (code_k2u code) h = Inr (do_acts (map System cmds) h)"
    "code_k2u code \<noteq> SERVICER_DONOTHING"
  using assms
  by (auto simp: code_cmds_def dbg_appcmd_def hal_appcmd_def code_k2u_def servicer_cmd_def helper_commands clear_logs_cmds_def machine_state_cmds_def)

text \<open>
  The two nodes agree: for the codes that clear the logs and save the state of the machine, the node of \<^verbatim>\<open>drivers_dbg\<close> sends through
  the uevent channel exactly the commands, in the same order, that the helper program runs after the code was written to
  the node of \<^verbatim>\<open>hal\<close> and its empty mailbox has received the number of the code.
\<close>

theorem nodes_agree:
  assumes "(code, cmds) \<in> set code_cmds" "k2u_rel (ap_servicer s) []"
  shows "\<exists>n1 n2 s1 s2 q. drivers_dbg_write e (text_of nl [''appcmd'', code]) s = Inr (Some (n1, s1)) \<and>
    app_sent s1 = app_sent s @ map shell_event cmds \<and>
    hal_write e (text_of False [''appcmd'', code]) s = Inr (Some (n2, s2)) \<and>
    servicer_handler mif now (h\<lparr>h_queue := ap_servicer s2\<rparr>) =
      Inr (h\<lparr>h_acts := h_acts h @ map System cmds, h_queue := q\<rparr>) \<and> k2u_rel q []"
proof -
  note c = code_of_both [OF assms(1)]
  let ?s2 = "app_ack (app_k2u (code_k2u code) s)"
  have w: "drivers_dbg_write e (text_of nl [''appcmd'', code]) s =
      Inr (Some (length (text_of nl [''appcmd'', code]), app_ack (fold app_shell cmds s)))"
    "hal_write e (text_of False [''appcmd'', code]) s = Inr (Some (length (text_of False [''appcmd'', code]), ?s2))"
    using dbg_write_code hal_write_code code_cmds_plain [OF assms(1)] by (simp_all add: c)
  have sent: "app_sent (app_ack (fold app_shell cmds s)) = app_sent s @ map shell_event cmds"
    using app_sent_shells [of cmds s] by (simp add: app_ack_def app_sent_def)
  have "k2u_rel (ap_servicer ?s2) [code_k2u code]"
    using k2u.send_rel [OF assms(2) c(4)] by (simp add: app_ack_def app_k2u_def)
  from servicer_handler_drains [OF _ _ , of "h\<lparr>h_queue := ap_servicer ?s2\<rparr>" "[code_k2u code]" mif now
      "do_acts (map System cmds) (h\<lparr>h_queue := ap_servicer ?s2\<rparr>)"] this c(3,4)
  obtain q where "servicer_handler mif now (h\<lparr>h_queue := ap_servicer ?s2\<rparr>) =
      Inr ((do_acts (map System cmds) (h\<lparr>h_queue := ap_servicer ?s2\<rparr>))\<lparr>h_queue := q\<rparr>)" "k2u_rel q []"
    by auto
  with w sent show ?thesis by (auto simp: do_acts_def)
qed

theorem nodes_agree_witness:
  "\<exists>n s2 h'. hal_write app_env_example ''appcmd *158#003'' app_boot = Inr (Some (n, s2)) \<and>
     servicer_handler None ''t'' (helper_start\<lparr>h_queue := ap_servicer s2\<rparr>) = Inr h' \<and>
     h_acts h' = [System ''rm /data/logcat*'', System ''rm /data/kmsg*'']"
proof -
  have q: "k2u_rel (ap_servicer app_boot) []" by (simp add: app_boot_def k2u_rel_start)
  have c: "(''*158#003'', clear_logs_cmds) \<in> set code_cmds" by (simp add: code_cmds_def)
  have t: "text_of False [''appcmd'', ''*158#003''] = ''appcmd *158#003''" by (simp add: text_of_def)
  from nodes_agree [OF c q, of app_env_example False None "''t''" helper_start] show ?thesis
    unfolding t by (auto simp: helper_start_def clear_logs_cmds_def)
qed

section \<open>Errors\<close>

text \<open>
  A write of nothing looks at the byte before the buffer, one of more than 512 bytes runs over it; a command without its argument
  compares a null pointer; a step of the power manager is called without the data that its first case reads.
\<close>

theorem node_faults:
  "drivers_dbg_write e [] s = Inl BufOverrun"
  "512 < length b \<Longrightarrow> drivers_dbg_write e b s = Inl BufOverrun" "512 < length b \<Longrightarrow> hal_write e b s = Inl BufOverrun"
  "drivers_dbg_write e (text_of nl [''appcmd'']) s = Inl NullDeref" "drivers_dbg_write e (text_of nl [''pm'', ''1'']) s = Inl NullDeref"
proof -
  have p: "plain_words [''appcmd'']" "plain_words [''pm'', ''1'']" by (simp_all add: plain_words_def)
  have "strtoul_nat ''1'' = 1" by code_simp
  then have n: "simple_strtoul ''1'' = 1" by (simp add: simple_strtoul_def)
  show "drivers_dbg_write e (text_of nl [''appcmd'']) s = Inl NullDeref"
    using plain_words_tokens [OF p(1)] by (simp add: dbg_write_words [OF p(1)] dbg_parse_cmd_def word_at_def need_def)
  show "drivers_dbg_write e (text_of nl [''pm'', ''1'']) s = Inl NullDeref"
    using plain_words_tokens [OF p(2)]
    by (simp add: dbg_write_words [OF p(2)] dbg_parse_cmd_def word_at_def need_def dbg_pm_def num_arg_def n pm_step_of_def Let_def)
qed (simp_all add: drivers_dbg_write_def hal_write_def node_text_def)

text \<open>A code may end with a newline on one of the nodes only: the other does not know it then.\<close>

theorem hal_newline_unknown: "hal_write e (''appcmd *158#004'' @ [CHR 0x0A]) s = Inr (Some (16, s))"
proof -
  have t: "node_text False (''appcmd *158#004'' @ [CHR 0x0A]) = Inr (''appcmd *158#004'' @ [CHR 0x0A])"
    by (simp add: node_text_def c_string_def)
  have "strsep_all '' '' (join (CHR '' '') [''appcmd'', ''*158#004'' @ [CHR 0x0A]]) = [''appcmd'', ''*158#004'' @ [CHR 0x0A]]"
    by (rule strsep_all_join) auto
  then have "strsep_all '' '' (''appcmd *158#004'' @ [CHR 0x0A]) = [''appcmd'', ''*158#004'' @ [CHR 0x0A]]" by simp
  then show ?thesis
    unfolding hal_write_def t bindE_simps
    by (simp add: hal_parse_cmd_def lidbg_token_string_def word_at_def need_def hal_appcmd_def app_code_def)
qed

text \<open>
  A dump that was asked for plain is written encoded when an encoded one is asked for before its thread has slept: the thread
  reads the shared flag afterwards.
\<close>

theorem dump_flag_shared:
  "\<exists>s'. foldO (app_step app_env_example)
      [DbgWrite (text_of nl [''appcmd'', ''*158#013'']), DbgWrite (text_of nl [''appcmd'', ''*168#001'']), Turn 0 ''t''] app_boot =
        Inr (Some s') \<and> ap_data_encode s' \<and> ap_threads s' = [DumpLog, CopyToUdisk]"
proof -
  have p: "plain_words [''appcmd'', ''*158#013'']" "plain_words [''appcmd'', ''*168#001'']" by (simp_all add: plain_words_def)
  show ?thesis
    by (simp add: app_step_def dbg_write_code [OF p(1)] dbg_write_code [OF p(2)] dbg_appcmd_def app_code_def app_dump_def app_chmod_data
        app_fifo_get_def lidbg_fifo_get_def app_create_def thread_step_def thread_dump_log_def app_ack_def app_boot_def app_shell_def
        example_fs_def)
qed

text \<open>The six numbers of the pin tester.\<close>

definition monkey_words :: "u32 list \<Rightarrow> string list" where
  "monkey_words ns = ''monkey'' # map (\<lambda>n. show_nat (unat n)) ns"

lemma word_text: "length (show_nat (unat (w :: u32))) \<le> 10" "simple_strtoul (show_nat (unat w)) = w"
proof -
  have "unat w < 4294967296" using unsigned_less [of w, where ?'a = nat] by simp
  then show "length (show_nat (unat w)) \<le> 10" by (intro length_show_nat) simp_all
  show "simple_strtoul (show_nat (unat w)) = w" by (simp add: simple_strtoul_def strtoul_show_nat)
qed

theorem monkey_command:
  "drivers_dbg_write e (text_of nl (monkey_words [en, gpio, on_en, off_en, on, off])) s =
     Inr (Some (length (text_of nl (monkey_words [en, gpio, on_en, off_en, on, off])),
       s\<lparr>ap_monkey := monkey_config (sint gpio) (sint on_en) (sint off_en) (sint on) (sint off) (monkey_run (sint en) (ap_monkey s))\<rparr>))"
proof -
  let ?ws = "monkey_words [en, gpio, on_en, off_en, on, off]"
  have "length (join (CHR '' '') ?ws) < 511"
    using word_text(1) [of en] word_text(1) [of gpio] word_text(1) [of on_en] word_text(1) [of off_en] word_text(1) [of on]
      word_text(1) [of off] by (simp add: monkey_words_def)
  then have p: "plain_words ?ws" by (simp add: plain_words_def monkey_words_def byte_text)
  have h: "?ws ! 0 = ''monkey''" by (simp add: monkey_words_def)
  have "dbg_monkey ?ws s = Inr (s\<lparr>ap_monkey :=
      monkey_config (sint gpio) (sint on_en) (sint off_en) (sint on) (sint off) (monkey_run (sint en) (ap_monkey s))\<rparr>)"
    by (simp add: dbg_monkey_def num_arg_def word_at_def need_def monkey_words_def word_text(2))
  then show ?thesis
    using plain_words_tokens [OF p] by (simp add: dbg_write_words [OF p] dbg_parse_cmd_def Let_def h)
qed

end
