(* ===== verification/Fs_Kmsg.thy ===== *)
theory Fs_Kmsg
  imports Fs
begin

text \<open>
  The part of \<^verbatim>\<open>core/lidbg_fs_log.c\<close> that copies the kernel's messages into a log file: a thread sleeps on the completion
  \<open>kmsg_wait\<close>, opens the node of the messages and copies what it reads while \<open>g_pollkmsg_en\<close> is set; a module can also ask
  for one dump of a given size.

  The thread is a state machine: \<open>km_polling\<close> tells that it is in the loop of \<open>dump_kmsg\<close>.  An event is the thread's turn or a
  call from outside, so a list of events is an interleaving.  What a read delivers is an argument.  \<open>km_open\<close> counts
  the files that were opened and not closed, \<open>km_kernel_ds\<close> the calls that left with the address limit of the kernel.  What is
  written to the console's node is in \<open>km_console\<close>.
\<close>

record kmsg_state =
  km_fs :: fsys
  g_pollkmsg_en :: int
  g_pollkmsg_en_fclear :: int
  g_iskmsg_ready :: int
  kmsg_wait :: nat
  km_polling :: bool
  km_delays :: nat
  km_open :: nat
  km_kernel_ds :: nat
  km_console :: "string list"
  km_notifier :: bool

text \<open>\<open>max_file_len\<close> is the configured limit, at least 3 MB is used for this file.\<close>

definition kmsg_file_limit :: int where "kmsg_file_limit = 3"

definition kmsg_amend :: "int \<Rightarrow> string \<Rightarrow> kmsg_state \<Rightarrow> kmsg_state option" where
  "kmsg_amend max_len msg s =
     map_option (\<lambda>(_, fs). s\<lparr>km_fs := fs\<rparr>) (bfs_file_amend max_len LIDBG_KMSG_FILE_PATH (Some msg) kmsg_file_limit (km_fs s))"

text \<open>The thread \<open>delay_disable_tracemsg\<close> behind its sleep.\<close>

definition delay_disable_tracemsg :: "kmsg_state \<Rightarrow> kmsg_state" where
  "delay_disable_tracemsg s = s\<lparr>km_console := km_console s @ [''c lidbg_trace_msg disable'']\<rparr>"

text \<open>
  \<open>dump_kmsg\<close> with a size: \<open>node\<close> are the bytes waiting in the node or the error of the read, \<open>None\<close> when it cannot be opened.
  The early return behind the failed allocation neither restores the address limit nor closes the file.
\<close>

definition dump_kmsg_size :: "int \<Rightarrow> bool \<Rightarrow> int \<Rightarrow> (int + char list) option \<Rightarrow> kmsg_state \<Rightarrow> (int \<times> kmsg_state) option" where
  "dump_kmsg_size max_len alloc sz node s0 =
     (let s = s0\<lparr>km_delays := km_delays s0 + 1\<rparr> in
      if sz = 0 then Some (-1, s)
      else case node of
        None \<Rightarrow> Some (-1, s)
      | Some r \<Rightarrow>
          if \<not> alloc then Some (-1, s\<lparr>km_open := km_open s + 1, km_kernel_ds := km_kernel_ds s + 1\<rparr>)
          else case r of
            Inl err \<Rightarrow> Some (err, s)
          | Inr bytes \<Rightarrow>
              let data = take (nat (sz - 1)) bytes in
              if data = [] then Some (0, s)
              else map_option (Pair (int (length data))) (kmsg_amend max_len (c_string data) s))"

text \<open>
  \<open>dump_kmsg\<close> without a size, as the thread calls it: the opening, one round of the loop, the end.
  The loop goes on after a read that failed.
\<close>

definition dump_kmsg_open :: "bool \<Rightarrow> kmsg_state \<Rightarrow> kmsg_state" where
  "dump_kmsg_open can_open s0 =
     (let s = s0\<lparr>km_delays := km_delays s0 + 1\<rparr> in if can_open then s\<lparr>km_polling := True, km_open := km_open s + 1\<rparr> else s)"

definition dump_kmsg_round :: "int \<Rightarrow> char list option \<Rightarrow> kmsg_state \<Rightarrow> kmsg_state option" where
  "dump_kmsg_round max_len r s =
     (case r of
        None \<Rightarrow> Some s
      | Some bytes \<Rightarrow> let data = take (512 - 1) bytes in if data = [] then Some s else kmsg_amend max_len (c_string data) s)"

definition dump_kmsg_close :: "kmsg_state \<Rightarrow> kmsg_state" where
  "dump_kmsg_close s = s\<lparr>km_polling := False, km_open := km_open s - 1\<rparr>"

definition complete_kmsg :: "kmsg_state \<Rightarrow> kmsg_state" where
  "complete_kmsg s = s\<lparr>kmsg_wait := kmsg_wait s + 1\<rparr>"

section \<open>Calls from outside\<close>

definition fs_enable_kmsg :: "bool \<Rightarrow> kmsg_state \<Rightarrow> kmsg_state" where
  "fs_enable_kmsg enable s =
     (if enable then let s1 = s\<lparr>g_pollkmsg_en := 1\<rparr> in if g_iskmsg_ready s1 \<noteq> 0 then complete_kmsg s1 else s1
      else s\<lparr>g_pollkmsg_en := 0\<rparr>)"

text \<open>The key-value store has written the variable before it calls back; both keys have the callback.\<close>

definition cb_kv_pollkmsg :: "string \<Rightarrow> kmsg_state \<Rightarrow> kmsg_state" where
  "cb_kv_pollkmsg val s = (if val \<noteq> ''0'' then complete_kmsg s else s)"

definition kv_pollkmsg :: "bool \<Rightarrow> string \<Rightarrow> kmsg_state \<Rightarrow> kmsg_state" where
  "kv_pollkmsg fclear val s =
     (let v = sint (simple_strtoul val); old = (if fclear then g_pollkmsg_en_fclear s else g_pollkmsg_en s) in
      if old = v then s
      else cb_kv_pollkmsg val (if fclear then s\<lparr>g_pollkmsg_en_fclear := v\<rparr> else s\<lparr>g_pollkmsg_en := v\<rparr>))"

definition file_separator :: "int \<Rightarrow> string \<Rightarrow> string \<Rightarrow> fsys \<Rightarrow> fault + (int \<times> fsys) option" where
  "file_separator max_len now path fs = fs_string2file max_len 0 path (''------'' @ now @ ''------'' @ [CHR 0x0A]) fs"

definition fs_dump_kmsg ::
  "int \<Rightarrow> string \<Rightarrow> bool \<Rightarrow> string option \<Rightarrow> int \<Rightarrow> (int + char list) option \<Rightarrow> kmsg_state \<Rightarrow> fault + (int \<times> kmsg_state) option" where
  "fs_dump_kmsg max_len now alloc tag sz node s =
     bindO (file_separator max_len now LIDBG_KMSG_FILE_PATH (km_fs s)) (\<lambda>(_, fs1).
     bindO (case tag of
              None \<Rightarrow> Inr (Some (1, fs1))
            | Some t \<Rightarrow> fs_string2file max_len 3 LIDBG_KMSG_FILE_PATH (''fs_dump_kmsg: '' @ t @ [CHR 0x0A]) fs1) (\<lambda>(_, fs2).
     Inr (dump_kmsg_size max_len alloc sz node (s\<lparr>km_fs := fs2\<rparr>))))"

text \<open>The notifier of a reboot; it is registered only when the flag is set at the start (\<open>km_notifier\<close>).\<close>

definition fs_kmsg_reboot_notifier_func :: "bool \<Rightarrow> kmsg_state \<Rightarrow> kmsg_state" where
  "fs_kmsg_reboot_notifier_func restart s =
     (if restart \<and> g_pollkmsg_en_fclear s \<noteq> 0 then s\<lparr>km_fs := run_shell (Rm LIDBG_KMSG_FILE_PATH) (km_fs s)\<rparr> else s)"

definition upload_machine_log :: "fsys \<Rightarrow> bool \<times> fsys" where
  "upload_machine_log fs = (True, run_shell (Exe ''/flysystem/lib/out/client_mobile'') fs)"

definition fs_upload_machine_log :: "bool \<Rightarrow> fsys \<Rightarrow> bool \<times> fsys" where
  "fs_upload_machine_log remountd fs =
     (let (r, fs1) = remount_system remountd (run_shell (Rm ''/dev/log/mobile.txt'') fs) in (r, snd (upload_machine_log fs1)))"

text \<open>The start: the two values come from the configuration.\<close>

definition lidbg_fs_log_init :: "int \<Rightarrow> int \<Rightarrow> fsys \<Rightarrow> kmsg_state" where
  "lidbg_fs_log_init en fclear fs =
     (let en1 = (if fclear \<noteq> 0 then 1 else en) in
      \<lparr>km_fs = fs, g_pollkmsg_en = en1, g_pollkmsg_en_fclear = fclear, g_iskmsg_ready = 1, kmsg_wait = (if en1 = 1 then 1 else 0),
       km_polling = False, km_delays = 0, km_open = 0, km_kernel_ds = 0, km_console = [],
       km_notifier = (fclear \<noteq> 0)\<rparr>)"

section \<open>The thread\<close>

datatype kmsg_event =
    Wake bool
  | Round "char list option"
  | Leave
  | Delay
  | Enable bool
  | Kv bool string
  | Dump string bool "string option" int "(int + char list) option"
  | Reboot bool

text \<open>An event that is not possible in a state changes nothing.\<close>

definition kmsg_step :: "int \<Rightarrow> kmsg_event \<Rightarrow> kmsg_state \<Rightarrow> fault + kmsg_state option" where
  "kmsg_step max_len ev s =
     (case ev of
        Wake can_open \<Rightarrow>
          Inr (Some (if \<not> km_polling s \<and> 0 < kmsg_wait s then dump_kmsg_open can_open (s\<lparr>kmsg_wait := kmsg_wait s - 1\<rparr>) else s))
      | Round r \<Rightarrow> Inr (if km_polling s \<and> g_pollkmsg_en s \<noteq> 0 then dump_kmsg_round max_len r s else Some s)
      | Leave \<Rightarrow> Inr (Some (if km_polling s \<and> g_pollkmsg_en s = 0 then dump_kmsg_close s else s))
      | Delay \<Rightarrow> Inr (Some (if 0 < km_delays s then delay_disable_tracemsg (s\<lparr>km_delays := km_delays s - 1\<rparr>) else s))
      | Enable b \<Rightarrow> Inr (Some (fs_enable_kmsg b s))
      | Kv fclear val \<Rightarrow> Inr (Some (kv_pollkmsg fclear val s))
      | Dump now alloc tag sz node \<Rightarrow> bindO (fs_dump_kmsg max_len now alloc tag sz node s) (\<lambda>(_, s'). Inr (Some s'))
      | Reboot restart \<Rightarrow> Inr (Some (if km_notifier s then fs_kmsg_reboot_notifier_func restart s else s)))"

primrec kmsg_run :: "int \<Rightarrow> kmsg_event list \<Rightarrow> kmsg_state \<Rightarrow> fault + kmsg_state option" where
  "kmsg_run max_len [] s = Inr (Some s)"
| "kmsg_run max_len (ev # evs) s = bindO (kmsg_step max_len ev s) (kmsg_run max_len evs)"

section \<open>The log follows the node\<close>

definition chunk :: "kmsg_event \<Rightarrow> string" where
  "chunk ev = (case ev of Round (Some b) \<Rightarrow> c_string (take 511 b) | _ \<Rightarrow> [])"

text \<open>
  What may happen while the thread copies: the turns of the two threads, calls that enable the copying, writes to the key-value store
  that do not set the first variable to 0, and reboots other than a restart.
\<close>

definition while_copying :: "kmsg_event \<Rightarrow> bool" where
  "while_copying ev \<longleftrightarrow>
     (case ev of
        Wake _ \<Rightarrow> True | Round _ \<Rightarrow> True | Leave \<Rightarrow> True | Delay \<Rightarrow> True
      | Enable b \<Rightarrow> b
      | Kv fclear val \<Rightarrow> fclear \<or> sint (simple_strtoul val) \<noteq> 0
      | Dump _ _ _ _ _ \<Rightarrow> False
      | Reboot restart \<Rightarrow> \<not> restart)"

definition copying :: "kmsg_state \<Rightarrow> bool" where
  "copying s \<longleftrightarrow> km_polling s \<and> g_pollkmsg_en s \<noteq> 0 \<and> wr_ok (km_fs s) LIDBG_KMSG_FILE_PATH"

abbreviation kmsg_text :: "kmsg_state \<Rightarrow> string" where
  "kmsg_text s \<equiv> old_text LIDBG_KMSG_FILE_PATH (km_fs s)"

lemma kmsg_amend_text:
  assumes "wr_ok (km_fs s) LIDBG_KMSG_FILE_PATH" "max_len < 2048" "length (kmsg_text s) < 3 * 1048576"
  shows "\<exists>fs'. kmsg_amend max_len msg s = Some (s\<lparr>km_fs := fs'\<rparr>) \<and> wr_ok fs' = wr_ok (km_fs s) \<and>
    old_text LIDBG_KMSG_FILE_PATH fs' = kmsg_text s @ msg"
proof -
  let ?L = "if kmsg_file_limit > max_len then kmsg_file_limit else max_len"
  have L: "0 < ?L" "?L < 2048" "3 * 1048576 \<le> nat ?L * 1048576" using assms(2) by (auto simp: kmsg_file_limit_def)
  obtain fs' where fs': "amend_again LIDBG_KMSG_FILE_PATH msg ?L False (km_fs s) = Some (1, fs')" "wr_ok fs' = wr_ok (km_fs s)"
    "content fs' = (content (km_fs s))(LIDBG_KMSG_FILE_PATH \<mapsto> kmsg_text s @ msg)"
    using amend_again_first [OF assms(1) L(1,2), of msg] assms(3) L(3) by auto
  then have "kmsg_amend max_len msg s = Some (s\<lparr>km_fs := fs'\<rparr>)" by (simp add: kmsg_amend_def bfs_file_amend_def)
  moreover have "old_text LIDBG_KMSG_FILE_PATH fs' = kmsg_text s @ msg" by (simp add: old_text_def fs'(3))
  ultimately show ?thesis using fs'(2) by blast
qed

lemma kmsg_step_copies:
  assumes "copying s" "while_copying ev" "max_len < 2048" "length (kmsg_text s) < 3 * 1048576"
  shows "\<exists>s'. kmsg_step max_len ev s = Inr (Some s') \<and> copying s' \<and> kmsg_text s' = kmsg_text s @ chunk ev"
proof (cases ev)
  case (Round r)
  show ?thesis
  proof (cases "r = None \<or> r = Some []")
    case True
    with Round assms show ?thesis by (auto simp: kmsg_step_def copying_def dump_kmsg_round_def chunk_def c_string_def)
  next
    case False
    then obtain b where b: "r = Some b" "b \<noteq> []" by auto
    obtain fs' where "kmsg_amend max_len (c_string (take 511 b)) s = Some (s\<lparr>km_fs := fs'\<rparr>)" "wr_ok fs' = wr_ok (km_fs s)"
      "old_text LIDBG_KMSG_FILE_PATH fs' = kmsg_text s @ c_string (take 511 b)"
      using kmsg_amend_text [OF _ assms(3,4)] assms(1) unfolding copying_def by blast
    with Round b assms(1) show ?thesis by (simp add: kmsg_step_def copying_def dump_kmsg_round_def chunk_def Let_def)
  qed
qed (use assms in \<open>auto simp: kmsg_step_def copying_def chunk_def while_copying_def delay_disable_tracemsg_def fs_enable_kmsg_def
      kv_pollkmsg_def cb_kv_pollkmsg_def fs_kmsg_reboot_notifier_func_def complete_kmsg_def Let_def\<close>)

lemma kmsg_run_copies:
  assumes "max_len < 2048"
  shows "copying s \<Longrightarrow> list_all while_copying evs \<Longrightarrow> length (kmsg_text s @ concat (map chunk evs)) < 3 * 1048576 \<Longrightarrow>
    \<exists>s'. kmsg_run max_len evs s = Inr (Some s') \<and> copying s' \<and> kmsg_text s' = kmsg_text s @ concat (map chunk evs)"
proof (induction evs arbitrary: s)
  case (Cons ev evs)
  then obtain s1 where s1: "kmsg_step max_len ev s = Inr (Some s1)" "copying s1" "kmsg_text s1 = kmsg_text s @ chunk ev"
    using kmsg_step_copies [OF _ _ assms, of s ev] by auto
  with Cons.IH [OF s1(2)] Cons.prems show ?case by simp
qed simp

section \<open>Files left open\<close>

lemma kmsg_amend_keeps:
  "kmsg_amend max_len msg s = Some s' \<Longrightarrow> km_open s' = km_open s \<and> km_polling s' = km_polling s \<and> km_kernel_ds s' = km_kernel_ds s"
  by (auto simp: kmsg_amend_def)

definition files_counted :: "kmsg_state \<Rightarrow> bool" where
  "files_counted s \<longleftrightarrow> km_open s = (if km_polling s then 1 else 0) + km_kernel_ds s"

lemma dump_size_counted: "dump_kmsg_size max_len alloc sz node s = Some (r, s') \<Longrightarrow> files_counted s \<Longrightarrow> files_counted s'"
  by (auto simp: dump_kmsg_size_def files_counted_def Let_def split: if_split_asm option.splits sum.splits dest!: kmsg_amend_keeps)

lemma kmsg_step_counted: "kmsg_step max_len ev s = Inr (Some s') \<Longrightarrow> files_counted s \<Longrightarrow> files_counted s'"
proof (cases ev)
  case (Round r)
  assume "kmsg_step max_len ev s = Inr (Some s')" "files_counted s"
  with Round show "files_counted s'"
    by (auto simp: kmsg_step_def dump_kmsg_round_def files_counted_def Let_def split: if_split_asm option.splits dest!: kmsg_amend_keeps)
next
  case (Dump now alloc tag sz node)
  assume st: "kmsg_step max_len ev s = Inr (Some s')" "files_counted s"
  with Dump obtain fs r where "dump_kmsg_size max_len alloc sz node (s\<lparr>km_fs := fs\<rparr>) = Some (r, s')"
    by (auto simp: kmsg_step_def fs_dump_kmsg_def bindO_eq_Some_iff)
  then show "files_counted s'" by (rule dump_size_counted) (use st(2) in \<open>simp add: files_counted_def\<close>)
qed (auto simp: kmsg_step_def files_counted_def dump_kmsg_open_def dump_kmsg_close_def delay_disable_tracemsg_def fs_enable_kmsg_def
    kv_pollkmsg_def cb_kv_pollkmsg_def complete_kmsg_def fs_kmsg_reboot_notifier_func_def Let_def split: if_split_asm)

section \<open>Properties\<close>

text \<open>
  (C40) The log of the kernel's messages is complete: once it is enabled and the thread has opened the node, with a file that can be written
  and a configured limit below 2048 MB, every order of the thread's turns, of the delayed command to the console and of calls from outside
  appends exactly the texts that were read from the node, in their order, as long as the file stays below 3 MB.  The calls from outside
  may enable the copying, write to the key-value store and announce a shutdown (\<open>while_copying\<close>); not among them are those that
  stop the copying or touch the file: disabling it, setting its variable to 0, a dump, a restart, which may remove the file.
\<close>

theorem kmsg_followed:
  assumes "0 < kmsg_wait s" "\<not> km_polling s" "wr_ok (km_fs s) LIDBG_KMSG_FILE_PATH" "max_len < 2048"
    and "list_all while_copying evs" "length (kmsg_text s @ concat (map chunk evs)) < 3 * 1048576"
  shows "\<exists>s'. kmsg_run max_len (Enable True # Wake True # evs) s = Inr (Some s') \<and> km_polling s' \<and>
    kmsg_text s' = kmsg_text s @ concat (map chunk evs)"
proof -
  define s1 where "s1 = fs_enable_kmsg True s"
  define s2 where "s2 = dump_kmsg_open True (s1\<lparr>kmsg_wait := kmsg_wait s1 - 1\<rparr>)"
  have s1: "\<not> km_polling s1" "0 < kmsg_wait s1" "km_fs s1 = km_fs s" "g_pollkmsg_en s1 = 1"
    using assms(1,2) by (auto simp: s1_def fs_enable_kmsg_def complete_kmsg_def Let_def)
  then have s2: "copying s2" "kmsg_text s2 = kmsg_text s" using assms(3) by (auto simp: s2_def copying_def dump_kmsg_open_def)
  have run: "kmsg_run max_len (Enable True # Wake True # evs) s = kmsg_run max_len evs s2"
    using s1 by (simp add: kmsg_step_def s1_def [symmetric] s2_def)
  from kmsg_run_copies [OF assms(4) s2(1) assms(5)] s2(2) assms(6) show ?thesis unfolding run copying_def by auto
qed

theorem kmsg_followed_witness:
  "\<exists>s'. kmsg_run 1 (Enable True # Wake True # [Round (Some ''ab''), Delay, Kv True ''0'', Round None, Round (Some ''c'')]) (lidbg_fs_log_init 1 0 example_fs) =
     Inr (Some s') \<and> km_polling s' \<and> kmsg_text s' = ''abc''"
proof -
  have w: "wr_ok example_fs LIDBG_KMSG_FILE_PATH" "old_text LIDBG_KMSG_FILE_PATH example_fs = []"
    by (simp_all add: example_fs_def old_text_def LIDBG_KMSG_FILE_PATH_def)
  then show ?thesis
    using kmsg_followed [of "lidbg_fs_log_init 1 0 example_fs" 1 "[Round (Some ''ab''), Delay, Kv True ''0'', Round None, Round (Some ''c'')]"]
    by (simp add: lidbg_fs_log_init_def while_copying_def chunk_def c_string_def)
qed

text \<open>
  The open files are accounted for: at any time the node is open for the polling thread, and once more for each dump
  whose allocation failed, since that path neither closes the file nor restores the address limit.
\<close>

theorem kmsg_files_leak:
  assumes "kmsg_run max_len evs (lidbg_fs_log_init en fclear fs) = Inr (Some s')"
  shows "km_open s' = (if km_polling s' then 1 else 0) + km_kernel_ds s'"
proof -
  have "files_counted s \<Longrightarrow> kmsg_run max_len evs s = Inr (Some s') \<Longrightarrow> files_counted s'" for s
  proof (induction evs arbitrary: s)
    case (Cons ev evs)
    then obtain s1 where "kmsg_step max_len ev s = Inr (Some s1)" "kmsg_run max_len evs s1 = Inr (Some s')"
      by (auto simp: bindO_eq_Some_iff)
    with Cons.IH kmsg_step_counted Cons.prems(1) show ?case by blast
  qed simp
  from this [OF _ assms] show ?thesis by (simp add: files_counted_def lidbg_fs_log_init_def)
qed

lemma dump_leaks:
  "dump_kmsg_size max_len False 1024 (Some r) s =
     Some (-1, s\<lparr>km_delays := km_delays s + 1, km_open := km_open s + 1, km_kernel_ds := km_kernel_ds s + 1\<rparr>)"
  by (simp add: dump_kmsg_size_def Let_def)

text \<open>Setting the second key alone wakes the thread, which finds the first variable still 0 and sleeps again.\<close>

theorem fclear_wakes_in_vain:
  assumes "\<not> km_polling s" "kmsg_wait s = 0" "g_pollkmsg_en s = 0" "g_pollkmsg_en_fclear s = 0"
  shows "\<exists>s'. kmsg_run max_len [Kv True ''1'', Wake True, Round (Some b), Leave] s = Inr (Some s') \<and>
    \<not> km_polling s' \<and> km_fs s' = km_fs s \<and> km_delays s' = km_delays s + 1"
proof -
  have "simple_strtoul ''1'' = 1" unfolding simple_strtoul_def by code_simp
  with assms show ?thesis
    by (simp add: kmsg_step_def kv_pollkmsg_def cb_kv_pollkmsg_def complete_kmsg_def dump_kmsg_open_def dump_kmsg_close_def Let_def)
qed

theorem fclear_wakes_in_vain_witness:
  "\<exists>s'. kmsg_run 1 [Kv True ''1'', Wake True, Round (Some ''x''), Leave] (lidbg_fs_log_init 0 0 example_fs) = Inr (Some s') \<and>
     \<not> km_polling s' \<and> km_delays s' = 1"
  using fclear_wakes_in_vain [of "lidbg_fs_log_init 0 0 example_fs" 1 "''x''"] by (auto simp: lidbg_fs_log_init_def)

end
