(* ===== verification/Gt811.thy ===== *)
theory Gt811
  imports Ts_Probe Ts_Event
begin

text \<open>
  The driver of the touch screen controller GT811, \<^verbatim>\<open>drivers/touchscreen/gt811.c\<close>: on an interrupt it reads a frame of up to five
  fingers over the kernel's I2C core, checks its sum, and reports the fingers to the input layer, to the sampler of the hidden
  passwords (theory \<open>Ts_Event\<close>) and to the recovery mode, whose module \<^verbatim>\<open>lidbg_ts_to_recov.c\<close> only keeps the last position.

  \<open>client->adapter\<close> is a bus of \<open>I2c\<close>, whose core is a parameter; it fills at most the buffer it is given (\<open>fill_buf\<close>).  What the driver
  reports is collected in \<open>gt_events\<close>; \<open>gt_irq_off\<close> counts how often the interrupt was disabled.  The macro \<open>BOARD_V2\<close> is an argument; \<open>INT_PORT\<close> is defined, \<open>HAVE_TOUCH_KEY\<close> and
  \<open>HAVE_TOUCH_KEY_REPORT\<close> are not.  Sleeps are not represented.
\<close>

section \<open>State\<close>

datatype gt_keycode = KEY_BACK | KEY_MENU

datatype gt_event =
    GSlot nat
  | GFinger bool
  | GAbs string int
  | GMtSync
  | GTouch bool
  | GSync
  | GKey gt_keycode
  | GPin u32 bool

record tspara =
  para_x :: int
  para_y :: int
  para_press :: bool

record touch_t =
  touch_x :: int
  touch_y :: int
  touch_pressed :: int

record 'b gt_env =
  gt_core :: "'b i2c_core"
  gt_adapter :: int
  gt_board_v2 :: bool
  gt_is_fly :: bool
  gt_recovery_mode :: bool
  gt_should_revert :: int

record 'b goodix_ts_data =
  gt_i2c :: "'b i2c_state"
  gt_irq_off :: nat
  raw_data_ready :: u32
  bad_data :: byte
  gt_retry :: int
  abs_x_max :: u16
  abs_y_max :: u16
  max_touch_num :: byte
  int_trigger_type :: byte
  gt_version :: u32
  read_mode :: nat
  xy_revert_en :: bool
  sensor_id :: nat
  flag_for_15s_off :: u32
  g_curr_tspara :: tspara
  gt_touch :: touch_t
  recov_touch :: touch_t
  touch_cnt :: u32
  gt_key :: "gt_keycode option"
  gt_events :: "gt_event list"

definition SCREEN_X :: u16 where "SCREEN_X = 1024"
definition SCREEN_Y :: u16 where "SCREEN_Y = 600"
definition GT811_ADDR :: u16 where "GT811_ADDR = 0x5d"
definition MAX_FINGER_NUM :: nat where "MAX_FINGER_NUM = 5"
definition READ_BYTES_NUM :: nat where "READ_BYTES_NUM = 2 + 34"
definition READ_TOUCH_ADDR_H :: byte where "READ_TOUCH_ADDR_H = 0x07"
definition READ_TOUCH_ADDR_L :: byte where "READ_TOUCH_ADDR_L = 0x21"
definition RAW_DATA_READY :: u32 where "RAW_DATA_READY = 1"
definition RAW_DATA_NON_ACTIVE :: u32 where "RAW_DATA_NON_ACTIVE = 0xffffffff"
definition RAW_DATA_ACTIVE :: u32 where "RAW_DATA_ACTIVE = 0"

definition say_gt :: "gt_event list \<Rightarrow> 'b goodix_ts_data \<Rightarrow> 'b goodix_ts_data" where
  "say_gt ev s = s\<lparr>gt_events := gt_events s @ ev\<rparr>"

section \<open>Transfers\<close>

text \<open>The bytes that a read message brings into a buffer of its length.\<close>

definition fill_buf :: "byte list \<Rightarrow> byte list \<Rightarrow> byte list" where
  "fill_buf old new = take (length old) new @ drop (length new) old"

lemma length_fill_buf [simp]: "length (fill_buf old new) = length old"
  by (simp add: fill_buf_def)

lemma fill_buf_full: "length new = length old \<Longrightarrow> fill_buf old new = new"
  by (simp add: fill_buf_def)

text \<open>The first two bytes of the buffer are the register number, the rest of the \<open>n\<close> bytes is read.\<close>

definition i2c_read_bytes ::
  "'b gt_env \<Rightarrow> byte list \<Rightarrow> nat \<Rightarrow> 'b goodix_ts_data \<Rightarrow> int \<times> byte list \<times> 'b goodix_ts_data" where
  "i2c_read_bytes e data n s =
     (let old = take (n - 2) (drop 2 data) in
      case i2c_transfer (gt_core e) (gt_adapter e)
             [wr_msg GT811_ADDR (take 2 data), \<lparr>addr = GT811_ADDR, flags = I2C_M_RD, len = of_nat (n - 2), buf = old\<rparr>] (bus (gt_i2c s)) of
        (ret, msgs, q) \<Rightarrow>
          (ret, take 2 data @ fill_buf old (buf (last msgs)) @ drop (2 + length old) data, s\<lparr>gt_i2c := (gt_i2c s)\<lparr>bus := q\<rparr>\<rparr>))"

definition i2c_write_bytes :: "'b gt_env \<Rightarrow> byte list \<Rightarrow> nat \<Rightarrow> 'b goodix_ts_data \<Rightarrow> int \<times> 'b goodix_ts_data" where
  "i2c_write_bytes e data n s =
     (case i2c_transfer (gt_core e) (gt_adapter e) [wr_msg GT811_ADDR (take n data)] (bus (gt_i2c s)) of
        (ret, msgs, q) \<Rightarrow> (ret, s\<lparr>gt_i2c := (gt_i2c s)\<lparr>bus := q\<rparr>\<rparr>))"

definition i2c_pre_cmd :: "'b gt_env \<Rightarrow> 'b goodix_ts_data \<Rightarrow> int \<times> 'b goodix_ts_data" where
  "i2c_pre_cmd e s = i2c_write_bytes e [0x0f, 0xff] 2 s"

definition i2c_end_cmd :: "'b gt_env \<Rightarrow> 'b goodix_ts_data \<Rightarrow> int \<times> 'b goodix_ts_data" where
  "i2c_end_cmd e s = i2c_write_bytes e [0x80, 0x00] 2 s"

section \<open>Configuration\<close>

text \<open>The table of the board V2 differs from the others in one byte, the width of the screen.\<close>

definition config_info :: "byte \<Rightarrow> byte list" where
  "config_info w =
     [0x06, 0xA2,
      0x12, 0x10, 0x0E, 0x0C, 0x0A, 0x08, 0x06, 0x04, 0x02, 0x00, 0x01, 0x11, 0x11, 0x11, 0x21, 0x11,
      0x31, 0x11, 0x41, 0x11, 0x51, 0x11, 0x61, 0x11, 0x71, 0x11, 0x81, 0x11, 0x91, 0x11, 0xA1, 0x11,
      0xB1, 0x11, 0xC1, 0x11, 0xD1, 0x11, 0xE1, 0x11, 0xF1, 0x11, 0x07, 0x03, 0x10, 0x10, 0x10, 0x20,
      0x20, 0x20, 0x10, 0x10, 0x0A, 0x48, 0x30, 0x07, 0x03, 0x00, 0x05, w, 0x02, 0x00, 0x04, 0x00,
      0x00, 0x3C, 0x35, 0x38, 0x32, 0x00, 0x00, 0x23, 0x14, 0x05, 0x0A, 0x80, 0x00, 0x00, 0x00, 0x00,
      0x14, 0x10, 0x58, 0x02, 0x00, 0x00, 0x00, 0x00, 0x00, 0x00, 0x00, 0x00, 0x00, 0x00, 0x0D, 0x00,
      0x00, 0x00, 0x00, 0x00, 0x00, 0x00, 0x00, 0x00, 0x00, 0x01]"

definition config_info7 :: "bool \<Rightarrow> byte list" where
  "config_info7 v2 = config_info (if v2 then 0x44 else 0x58)"

definition config_info8 :: "byte list" where "config_info8 = config_info 0x58"

definition bytes16 :: "byte \<Rightarrow> byte \<Rightarrow> u16" where
  "bytes16 h l = push_bit 8 (ucast h) + ucast l"

text \<open>\<open>ret\<close> is a \<open>short\<close>.\<close>

definition goodix_init_panel :: "'b gt_env \<Rightarrow> 'b goodix_ts_data \<Rightarrow> int \<times> 'b goodix_ts_data" where
  "goodix_init_panel e s =
     (let cfg = (if sensor_id s = 0 then config_info8 else config_info7 (gt_board_v2 e)) in
      case i2c_write_bytes e cfg (length cfg) s of
        (r, s1) \<Rightarrow>
          let ret = sint (word_of_int r :: u16);
              s2 = s1\<lparr>abs_x_max := bytes16 (cfg ! 62) (cfg ! 61), abs_y_max := bytes16 (cfg ! 64) (cfg ! 63),
                      max_touch_num := cfg ! 60, int_trigger_type := drop_bit 3 (cfg ! 57) AND 0x01\<rparr>
          in (if ret < 0 then ret else 0, s2))"

text \<open>The loop of \<open>goodix_read_version\<close>: whether the ten reads all gave the first value, and the two bytes.\<close>

fun version_loop :: "'b gt_env \<Rightarrow> nat \<Rightarrow> byte list \<Rightarrow> byte list \<Rightarrow> 'b goodix_ts_data \<Rightarrow> bool \<times> byte list \<times> 'b goodix_ts_data" where
  "version_loop e 0 d d2 s = (True, d, s)"
| "version_loop e (Suc n) d d2 s =
     (case i2c_read_bytes e d2 4 s of
        (_, d2', s') \<Rightarrow>
          if d ! 2 \<noteq> d2' ! 2 \<or> d ! 3 \<noteq> d2' ! 3 then (False, d[2 := d2' ! 2, 3 := d2' ! 3], s') else version_loop e n d d2' s')"

definition goodix_read_version :: "'b gt_env \<Rightarrow> 'b goodix_ts_data \<Rightarrow> int \<times> 'b goodix_ts_data" where
  "goodix_read_version e s =
     (case i2c_read_bytes e [0x07, 0x17, 0, 0, 0] 4 s of
        (r, d, s1) \<Rightarrow>
          let ret = sint (word_of_int r :: u16) in
          if ret < 0 then (ret, s1)
          else case version_loop e 10 d [0x07, 0x17, 0, 0, 0] s1 of
            (same, d', s2) \<Rightarrow>
              if same then (0, s2\<lparr>gt_version := push_bit 8 (ucast (d' ! 2)) + ucast (d' ! 3)\<rparr>)
              else (-1, s2\<lparr>gt_version := 0xffff\<rparr>))"

section \<open>A frame\<close>

definition frame_end :: "byte list \<Rightarrow> nat" where
  "frame_end pd =
     (let m = pd ! 2 AND 0x1f in if m = 0 then 3 else if m = 1 then 9 else if m = 2 \<or> m = 3 then 14 else 35)"

definition frame_sum :: "byte list \<Rightarrow> byte" where
  "frame_sum pd = (if pd ! 2 AND 0x1f = 0 then 0 else sum_list (map (\<lambda>c. pd ! c) [2..<frame_end pd]))"

text \<open>The fingers that are down; \<open>n\<close> bits are left.\<close>

fun track_loop :: "nat \<Rightarrow> nat \<Rightarrow> byte \<Rightarrow> nat list" where
  "track_loop 0 position point_tmp = []"
| "track_loop (Suc n) position point_tmp =
     (if point_tmp = 0 then []
      else (if point_tmp AND 0x01 \<noteq> 0 then [position] else []) @ track_loop n (position + 1) (drop_bit 1 point_tmp))"

definition track_ids :: "byte list \<Rightarrow> nat list" where
  "track_ids pd = track_loop MAX_FINGER_NUM 0 (pd ! 2 AND 0x1f)"

definition finger_pos :: "byte list \<Rightarrow> nat \<Rightarrow> u16 \<times> u16" where
  "finger_pos pd t =
     (if t \<noteq> 3 then
        let position = (if t < 3 then 4 + t * 5 else 30) in
        (bytes16 (pd ! position) (pd ! (position + 1)), bytes16 (pd ! (position + 2)) (pd ! (position + 3)))
      else (bytes16 (pd ! 19) (pd ! 26), bytes16 (pd ! 27) (pd ! 28)))"

text \<open>The body of the loop over the fingers: \<open>input_x\<close>, \<open>input_y\<close> and the events so far.\<close>

definition finger_report ::
  "'b gt_env \<Rightarrow> 'b goodix_ts_data \<Rightarrow> byte list \<Rightarrow> nat \<times> nat \<Rightarrow> u16 \<times> u16 \<times> gt_event list \<Rightarrow> u16 \<times> u16 \<times> gt_event list" where
  "finger_report e s pd = (\<lambda>(count, t) (_, _, ev).
     let (x, y) = finger_pos pd t in
     if x > abs_x_max s \<or> y > abs_y_max s then (x, y, ev)
     else
       let (x1, y1) = (if xy_revert_en s \<or> gt_should_revert e = 1 then (SCREEN_Y - x, SCREEN_X - y) else (x, y)) in
       (x1, y1, ev @
         (if gt_board_v2 e then
            [GAbs ''POSITION_X'' (uint y1), GAbs ''POSITION_Y'' (uint x1), GAbs ''TOUCH_MAJOR'' 255, GAbs ''TRACKING_ID'' (int t), GMtSync]
          else
            [GSlot count, GFinger True, GAbs ''POSITION_X'' (uint y1), GAbs ''POSITION_Y'' (uint x1), GAbs ''TOUCH_MAJOR'' 255])))"

definition set_touch_pos :: "'b goodix_ts_data \<Rightarrow> 'b goodix_ts_data" where
  "set_touch_pos s = s\<lparr>recov_touch := gt_touch s\<rparr>"

definition gt_pressed :: "'b gt_env \<Rightarrow> byte list \<Rightarrow> nat list \<Rightarrow> 'b goodix_ts_data \<Rightarrow> 'b goodix_ts_data" where
  "gt_pressed e pd ids s =
     (let finger = length ids;
          (x, y, ev) = fold (finger_report e s pd) (zip [0..<finger] ids) (0, 0, []);
          ups = concat (map (\<lambda>k. [GSlot (4 - k), GFinger False]) [0..<5 - finger]);
          s1 = say_gt (ev @ (if gt_board_v2 e then [] else ups @ [GTouch True, GSync])) s;
          f = flag_for_15s_off s1 + 1;
          s2 = s1\<lparr>flag_for_15s_off := (if f \<ge> 1000 then 1000 else f),
                  g_curr_tspara := \<lparr>para_x = uint y, para_y = uint x, para_press = True\<rparr>\<rparr>
      in if gt_recovery_mode e
         then set_touch_pos (s2\<lparr>gt_touch := \<lparr>touch_x = uint y, touch_y = uint x, touch_pressed = 1\<rparr>\<rparr>) else s2)"

definition gt_released :: "'b gt_env \<Rightarrow> 'b goodix_ts_data \<Rightarrow> 'b goodix_ts_data" where
  "gt_released e s =
     (let s1 = say_gt (if gt_board_v2 e then [GAbs ''TOUCH_MAJOR'' 0, GMtSync]
                       else concat (map (\<lambda>c. [GSlot c, GFinger False, GTouch False, GSync]) [0..<5])) s;
          s2 = (if gt_recovery_mode e then set_touch_pos (s1\<lparr>gt_touch := (gt_touch s1)\<lparr>touch_pressed := 0\<rparr>\<rparr>) else s1)
      in s2\<lparr>g_curr_tspara := (g_curr_tspara s2)\<lparr>para_press := False\<rparr>\<rparr>)"

definition gt_menu_keys :: "'b gt_env \<Rightarrow> nat \<Rightarrow> 'b goodix_ts_data \<Rightarrow> 'b goodix_ts_data" where
  "gt_menu_keys e finger s =
     (if gt_is_fly e then s
      else
        let k = (if finger = 3 then Some KEY_BACK else if finger = 5 then Some KEY_MENU else gt_key s) in
        (case (finger, k) of
           (0, Some key) \<Rightarrow> say_gt [GKey key] (s\<lparr>gt_key := None\<rparr>)
         | _ \<Rightarrow> s\<lparr>gt_key := k\<rparr>))"

text \<open>The part of \<open>goodix_ts_work_func\<close> behind the check of the sum.\<close>

definition gt_report :: "'b gt_env \<Rightarrow> byte list \<Rightarrow> 'b goodix_ts_data \<Rightarrow> 'b goodix_ts_data" where
  "gt_report e pd s =
     (let ids = track_ids pd;
          finger = length ids;
          s1 = (if finger > 0 then gt_pressed e pd ids s else gt_released e s);
          s2 = (if gt_board_v2 e then say_gt [GTouch (finger > 0), GSync] s1 else s1);
          s3 = s2\<lparr>touch_cnt := (if touch_cnt s2 + 1 = 90 then 0 else touch_cnt s2 + 1)\<rparr>
      in gt_menu_keys e finger s3)"

definition goodix_ts_work_func :: "'b gt_env \<Rightarrow> 'b goodix_ts_data \<Rightarrow> 'b goodix_ts_data" where
  "goodix_ts_work_func e s0 =
     (let s = s0\<lparr>gt_irq_off := gt_irq_off s0 + 1, raw_data_ready := (if raw_data_ready s0 = RAW_DATA_ACTIVE then RAW_DATA_READY else raw_data_ready s0)\<rparr>;
          (ret, pd, s1) = i2c_read_bytes e ([READ_TOUCH_ADDR_H, READ_TOUCH_ADDR_L] @ replicate 34 0) READ_BYTES_NUM s;
          s2 = (if ret \<le> 0 then s1\<lparr>bad_data := 1, gt_retry := gt_retry s1 + 1\<rparr>
                else if pd ! 2 AND 0x20 \<noteq> 0 \<and> pd ! 3 = 0xF0 then snd (goodix_init_panel e s1)
                else if frame_sum pd \<noteq> pd ! frame_end pd then s1
                else gt_report e pd s1)
      in s2\<lparr>gt_irq_off := gt_irq_off s2 - 1\<rparr>)"

section \<open>Power and the node\<close>

definition gt_reset_pins :: "bool \<Rightarrow> gt_event list" where
  "gt_reset_pins v2 = [GPin 27 v2, GPin 27 (\<not> v2)]"

text \<open>The loops over five attempts in \<open>goodix_ts_probe\<close> and in \<open>goodix_ts_resume\<close>, which asks the chip for six bytes in between.\<close>

fun probe_init_loop :: "'b gt_env \<Rightarrow> nat \<Rightarrow> int \<Rightarrow> 'b goodix_ts_data \<Rightarrow> int \<times> 'b goodix_ts_data" where
  "probe_init_loop e 0 ret s = (ret, s)"
| "probe_init_loop e (Suc n) ret s =
     (case goodix_init_panel e s of
        (r, s1) \<Rightarrow> if r \<noteq> 0 then probe_init_loop e n r (say_gt (gt_reset_pins (gt_board_v2 e)) s1) else (0, s1))"

fun resume_loop :: "'b gt_env \<Rightarrow> nat \<Rightarrow> byte list \<Rightarrow> int \<Rightarrow> 'b goodix_ts_data \<Rightarrow> int \<times> 'b goodix_ts_data" where
  "resume_loop e 0 check ret s = (ret, s)"
| "resume_loop e (Suc n) check ret s =
     (case goodix_init_panel e s of
        (_, s1) \<Rightarrow>
          (case SOC_I2C_Rec (gt_core e) 1 0x5d 0x68 check 6 (gt_i2c s1) of
             (init_err, check', i) \<Rightarrow>
               let s2 = s1\<lparr>gt_i2c := i\<rparr> in
               if init_err < 0 then resume_loop e n check' 1 (say_gt (gt_reset_pins (gt_board_v2 e)) s2) else (0, s2)))"

text \<open>The part of \<open>goodix_ts_probe\<close> that concerns the chip; the mark of a failure is cleared again when the input device is registered.\<close>

definition goodix_ts_probe :: "'b gt_env \<Rightarrow> 'b goodix_ts_data \<Rightarrow> 'b goodix_ts_data" where
  "goodix_ts_probe e s =
     (case probe_init_loop e 5 0 s of (ret, s1) \<Rightarrow> (if ret \<noteq> 0 then s1\<lparr>bad_data := 1\<rparr> else s1)\<lparr>bad_data := 0\<rparr>)"

definition goodix_ts_resume :: "'b gt_env \<Rightarrow> 'b goodix_ts_data \<Rightarrow> int \<times> 'b goodix_ts_data" where
  "goodix_ts_resume e s =
     (case resume_loop e 5 [0x55, 0, 0, 0, 0, 0] 0 s of
        (ret, s1) \<Rightarrow> (0, if ret \<noteq> 0 then s1\<lparr>bad_data := 1\<rparr> else s1))"

definition goodix_ts_early_suspend :: "'b goodix_ts_data \<Rightarrow> 'b goodix_ts_data" where
  "goodix_ts_early_suspend s = s\<lparr>gt_irq_off := gt_irq_off s + 1\<rparr>"

definition goodix_ts_late_resume :: "'b gt_env \<Rightarrow> 'b goodix_ts_data \<Rightarrow> 'b goodix_ts_data" where
  "goodix_ts_late_resume e s = (let s1 = snd (goodix_ts_resume e s) in s1\<lparr>gt_irq_off := gt_irq_off s1 - 1\<rparr>)"

text \<open>\<open>strnicmp\<close> is zero when the first \<open>n\<close> characters agree up to case; \<open>count - 1\<close> wraps for an empty write.\<close>

definition lower_char :: "char \<Rightarrow> char" where
  "lower_char c = (let n = of_char c :: nat in if 65 \<le> n \<and> n \<le> 90 then char_of (n + 32) else c)"

definition strnicmp_eq :: "string \<Rightarrow> string \<Rightarrow> nat \<Rightarrow> bool" where
  "strnicmp_eq a b n \<longleftrightarrow> map lower_char (take n (c_string a)) = map lower_char (take n b)"

definition ts_nod_write :: "string \<Rightarrow> 'b goodix_ts_data \<Rightarrow> fault + (nat \<times> 'b goodix_ts_data)" where
  "ts_nod_write data_rec s =
     (let count = length data_rec; n = (if count = 0 then 4294967295 else count - 1) in
      if count \<ge> 20 then Inl BufOverrun
      else Inr (count,
        if strnicmp_eq data_rec ''TSMODE_XYREVERT'' n then s\<lparr>xy_revert_en := True\<rparr>
        else if strnicmp_eq data_rec ''TSMODE_NORMAL'' n then s\<lparr>xy_revert_en := False\<rparr>
        else s))"

text \<open>The node of \<^verbatim>\<open>lidbg_ts_to_recov.c\<close> gives the position to the program of the recovery mode: \<open>sizeof(touch_t)\<close> is 12.\<close>

definition fenzhi_read :: "nat \<Rightarrow> touch_t \<Rightarrow> nat \<times> touch_t option" where
  "fenzhi_read count t =
     (if 12 > count then (0, None) else if \<not> (touch_x t \<noteq> 0 \<or> touch_y t \<noteq> 0) then (0, None) else (12, Some t))"

section \<open>What is reported lies on the screen\<close>

definition on_screen :: "gt_event \<Rightarrow> bool" where
  "on_screen ev \<longleftrightarrow> (case ev of
     GAbs n v \<Rightarrow> (n = ''POSITION_X'' \<longrightarrow> 0 \<le> v \<and> v \<le> 1024) \<and> (n = ''POSITION_Y'' \<longrightarrow> 0 \<le> v \<and> v \<le> 600)
   | _ \<Rightarrow> True)"

definition gt_ok :: "'b goodix_ts_data \<Rightarrow> bool" where
  "gt_ok s \<longleftrightarrow> abs_x_max s \<le> SCREEN_Y \<and> abs_y_max s \<le> SCREEN_X \<and> list_all on_screen (gt_events s)"

lemma on_screen_simps [simp]:
  "on_screen (GSlot c)" "on_screen (GFinger b)" "on_screen GMtSync" "on_screen (GTouch b)" "on_screen GSync" "on_screen (GKey k)"
  "on_screen (GPin g b)" "on_screen (GAbs ''TOUCH_MAJOR'' v)" "on_screen (GAbs ''TRACKING_ID'' v)"
  "on_screen (GAbs ''POSITION_X'' v) \<longleftrightarrow> 0 \<le> v \<and> v \<le> 1024" "on_screen (GAbs ''POSITION_Y'' v) \<longleftrightarrow> 0 \<le> v \<and> v \<le> 600"
  by (simp_all add: on_screen_def)

lemma say_gt_simps [simp]:
  "gt_events (say_gt ev s) = gt_events s @ ev" "abs_x_max (say_gt ev s) = abs_x_max s" "abs_y_max (say_gt ev s) = abs_y_max s"
  "g_curr_tspara (say_gt ev s) = g_curr_tspara s" "gt_i2c (say_gt ev s) = gt_i2c s" "xy_revert_en (say_gt ev s) = xy_revert_en s"
  by (simp_all add: say_gt_def)

lemma word_at_most: "(x :: u16) \<le> m \<Longrightarrow> uint (m - x) \<le> uint m" "(x :: u16) \<le> m \<Longrightarrow> uint x \<le> uint m"
  by (simp_all add: uint_sub_if' word_le_def)

lemma finger_report_on_screen:
  assumes "abs_x_max s \<le> SCREEN_Y" "abs_y_max s \<le> SCREEN_X" "list_all on_screen (snd (snd acc))"
  shows "list_all on_screen (snd (snd (finger_report e s pd ct acc)))"
proof -
  obtain c t where ct: "ct = (c, t)" by (cases ct)
  obtain x0 y0 ev where acc: "acc = (x0, y0, ev)" by (cases acc)
  obtain x y where xy: "finger_pos pd t = (x, y)" by (cases "finger_pos pd t")
  show ?thesis
  proof (cases "x > abs_x_max s \<or> y > abs_y_max s")
    case True
    then show ?thesis using assms(3) by (simp add: finger_report_def ct acc xy)
  next
    case False
    then have "x \<le> SCREEN_Y" "y \<le> SCREEN_X" using assms(1,2) by auto
    from word_at_most [OF this(1)] word_at_most [OF this(2)] False assms(3) show ?thesis
      by (auto simp: finger_report_def ct acc xy SCREEN_X_def SCREEN_Y_def)
  qed
qed

lemma fingers_on_screen:
  assumes "abs_x_max s \<le> SCREEN_Y" "abs_y_max s \<le> SCREEN_X"
  shows "list_all on_screen (snd (snd acc)) \<Longrightarrow> list_all on_screen (snd (snd (fold (finger_report e s pd) cts acc)))"
  by (induction cts arbitrary: acc) (simp_all add: finger_report_on_screen [OF assms])

lemma list_all_concat: "(\<And>x. x \<in> set xs \<Longrightarrow> list_all P (f x)) \<Longrightarrow> list_all P (concat (map f xs))"
  by (induction xs) auto

lemma gt_pressed_ok:
  assumes "gt_ok s"
  shows "gt_ok (gt_pressed e pd ids s)"
proof -
  obtain x y ev where f: "fold (finger_report e s pd) (zip [0..<length ids] ids) (0, 0, []) = (x, y, ev)" by (metis prod_cases3)
  have "list_all on_screen (snd (snd (fold (finger_report e s pd) (zip [0..<length ids] ids) (0, 0, []))))"
    using assms by (intro fingers_on_screen) (auto simp: gt_ok_def)
  then have ev: "list_all on_screen ev" by (simp add: f)
  have "list_all on_screen (concat (map (\<lambda>k. [GSlot (4 - k), GFinger False]) [0..<5 - length ids]))"
    by (rule list_all_concat) simp
  with assms ev show ?thesis by (simp add: gt_pressed_def f gt_ok_def set_touch_pos_def Let_def)
qed

lemma gt_released_ok: "gt_ok s \<Longrightarrow> gt_ok (gt_released e s)"
  by (simp add: gt_released_def gt_ok_def set_touch_pos_def list_all_concat Let_def)

lemma gt_menu_keys_ok: "gt_ok s \<Longrightarrow> gt_ok (gt_menu_keys e finger s)"
  by (simp add: gt_menu_keys_def gt_ok_def Let_def split: nat.split option.split)

lemma gt_report_ok: "gt_ok s \<Longrightarrow> gt_ok (gt_report e pd s)"
  unfolding gt_report_def Let_def
  by (rule gt_menu_keys_ok)
    (use gt_pressed_ok [of s e pd "track_ids pd"] gt_released_ok [of s e] in \<open>auto simp: gt_ok_def\<close>)

lemma transfers_keep:
  "i2c_read_bytes e d n s = (r, d', s') \<Longrightarrow> \<exists>i. s' = s\<lparr>gt_i2c := i\<rparr>"
  "i2c_write_bytes e d n s = (r, s') \<Longrightarrow> \<exists>i. s' = s\<lparr>gt_i2c := i\<rparr>"
  by (auto simp: i2c_read_bytes_def i2c_write_bytes_def Let_def split: prod.splits)

lemma init_panel_ok: "gt_ok s \<Longrightarrow> goodix_init_panel e s = (r, s') \<Longrightarrow> gt_ok s'"
  by (auto simp: goodix_init_panel_def Let_def config_info8_def config_info7_def config_info_def bytes16_def gt_ok_def SCREEN_X_def SCREEN_Y_def
      dest!: transfers_keep split: prod.splits)

definition frame_request :: "i2c_msg list" where
  "frame_request = [wr_msg GT811_ADDR [READ_TOUCH_ADDR_H, READ_TOUCH_ADDR_L],
     \<lparr>addr = GT811_ADDR, flags = I2C_M_RD, len = 34, buf = replicate 34 0\<rparr>]"

lemma read_frame:
  "i2c_read_bytes e ([READ_TOUCH_ADDR_H, READ_TOUCH_ADDR_L] @ replicate 34 0) READ_BYTES_NUM s =
     (case i2c_transfer (gt_core e) (gt_adapter e) frame_request (bus (gt_i2c s)) of
        (ret, msgs, q) \<Rightarrow> (ret, [READ_TOUCH_ADDR_H, READ_TOUCH_ADDR_L] @ fill_buf (replicate 34 0) (buf (last msgs)),
                         s\<lparr>gt_i2c := (gt_i2c s)\<lparr>bus := q\<rparr>\<rparr>))"
  by (simp add: i2c_read_bytes_def READ_BYTES_NUM_def frame_request_def split: prod.splits)

lemma work_func_ok:
  assumes "gt_ok s"
  shows "gt_ok (goodix_ts_work_func e s)"
proof -
  define s0 where "s0 = s\<lparr>gt_irq_off := gt_irq_off s + 1,
    raw_data_ready := (if raw_data_ready s = RAW_DATA_ACTIVE then RAW_DATA_READY else raw_data_ready s)\<rparr>"
  obtain ret pd s1 where r: "i2c_read_bytes e ([READ_TOUCH_ADDR_H, READ_TOUCH_ADDR_L] @ replicate 34 0) READ_BYTES_NUM s0 = (ret, pd, s1)"
    by (metis prod_cases3)
  with transfers_keep(1) [OF r] assms have s1: "gt_ok s1" by (auto simp: s0_def gt_ok_def)
  obtain r' s2 where i: "goodix_init_panel e s1 = (r', s2)" by fastforce
  note ok = init_panel_ok [OF s1 i] gt_report_ok [OF s1, of e pd] s1
  have "goodix_ts_work_func e s =
    (let t = (if ret \<le> 0 then s1\<lparr>bad_data := 1, gt_retry := gt_retry s1 + 1\<rparr>
              else if pd ! 2 AND 0x20 \<noteq> 0 \<and> pd ! 3 = 0xF0 then s2
              else if frame_sum pd \<noteq> pd ! frame_end pd then s1 else gt_report e pd s1)
     in t\<lparr>gt_irq_off := gt_irq_off t - 1\<rparr>)"
    unfolding goodix_ts_work_func_def Let_def s0_def [symmetric] r by (simp add: i)
  with ok show ?thesis by (simp add: gt_ok_def Let_def)
qed

lemma resume_loop_ok: "gt_ok s \<Longrightarrow> gt_ok (snd (resume_loop e n check ret s))"
proof (induction n arbitrary: check ret s)
  case (Suc n)
  obtain r s1 where i: "goodix_init_panel e s = (r, s1)" by fastforce
  obtain err check' i2c where rec: "SOC_I2C_Rec (gt_core e) 1 0x5d 0x68 check 6 (gt_i2c s1) = (err, check', i2c)" by (metis prod_cases3)
  have s2: "gt_ok (s1\<lparr>gt_i2c := i2c\<rparr>)" using init_panel_ok [OF Suc.prems i] by (simp add: gt_ok_def)
  then have "gt_ok (say_gt (gt_reset_pins (gt_board_v2 e)) (s1\<lparr>gt_i2c := i2c\<rparr>))" by (simp add: gt_ok_def gt_reset_pins_def)
  with Suc.IH s2 show ?case by (simp add: i rec Let_def)
qed simp

lemma probe_init_ok: "gt_ok s \<Longrightarrow> gt_ok (snd (probe_init_loop e n ret s))"
proof (induction n arbitrary: ret s)
  case (Suc n)
  obtain r s1 where i: "goodix_init_panel e s = (r, s1)" by fastforce
  note ok = init_panel_ok [OF Suc.prems i]
  then have "gt_ok (say_gt (gt_reset_pins (gt_board_v2 e)) s1)" by (simp add: gt_ok_def gt_reset_pins_def)
  with Suc.IH ok show ?case by (simp add: i)
qed simp

text \<open>The life of the driver: interrupts, the screen switched off and on, writes to its node.\<close>

datatype gt_op = GtInterrupt | GtSuspend | GtResume | GtNode string

definition gt_step :: "'b gt_env \<Rightarrow> gt_op \<Rightarrow> 'b goodix_ts_data \<Rightarrow> fault + 'b goodix_ts_data" where
  "gt_step e ev s =
     (case ev of
        GtInterrupt \<Rightarrow> Inr (goodix_ts_work_func e s)
      | GtSuspend \<Rightarrow> Inr (goodix_ts_early_suspend s)
      | GtResume \<Rightarrow> Inr (goodix_ts_late_resume e s)
      | GtNode t \<Rightarrow> bindE (ts_nod_write t s) (\<lambda>(_, s'). Inr s'))"

lemma gt_step_ok: "gt_step e ev s = Inr s' \<Longrightarrow> gt_ok s \<Longrightarrow> gt_ok s'"
proof (cases ev)
  case GtResume
  assume st: "gt_step e ev s = Inr s'" "gt_ok s"
  obtain r t where t: "resume_loop e 5 [0x55, 0, 0, 0, 0, 0] 0 s = (r, t)" by fastforce
  with resume_loop_ok [OF st(2), of e 5 "[0x55, 0, 0, 0, 0, 0]" 0] have "gt_ok t" by simp
  with st GtResume t show "gt_ok s'"
    by (auto simp: gt_step_def goodix_ts_late_resume_def goodix_ts_resume_def gt_ok_def Let_def)
next
  case GtInterrupt
  assume "gt_step e ev s = Inr s'" "gt_ok s"
  with GtInterrupt work_func_ok show "gt_ok s'" by (auto simp: gt_step_def)
qed (auto simp: gt_step_def goodix_ts_early_suspend_def ts_nod_write_def gt_ok_def bindE_eq_Inr_iff Let_def split: if_split_asm)

definition gt_start :: "'b i2c_state \<Rightarrow> 'b goodix_ts_data" where
  "gt_start i = \<lparr>gt_i2c = i, gt_irq_off = 0, raw_data_ready = RAW_DATA_NON_ACTIVE, bad_data = 0, gt_retry = 0,
     abs_x_max = 0, abs_y_max = 0, max_touch_num = 0, int_trigger_type = 0, gt_version = 0, read_mode = 0, xy_revert_en = False,
     sensor_id = 2, flag_for_15s_off = 0, g_curr_tspara = \<lparr>para_x = 0, para_y = 0, para_press = False\<rparr>,
     gt_touch = \<lparr>touch_x = 0, touch_y = 0, touch_pressed = 0\<rparr>, recov_touch = \<lparr>touch_x = 0, touch_y = 0, touch_pressed = 0\<rparr>,
     touch_cnt = 0, gt_key = None, gt_events = []\<rparr>"

text \<open>
  (C33) Touches are reported on the screen only: whatever the controller and the bus deliver, in whatever order interrupts, suspends,
  resumes and writes to the node come, every position that reaches the input layer lies within 1024 by 600.
\<close>

theorem touches_on_screen:
  assumes "foldE (gt_step e) evs (goodix_ts_probe e (gt_start i)) = Inr s"
    and "GAbs n v \<in> set (gt_events s)" "n = ''POSITION_X'' \<or> n = ''POSITION_Y''"
  shows "0 \<le> v \<and> v \<le> (if n = ''POSITION_X'' then 1024 else 600)"
proof -
  have "gt_ok (gt_start i)" by (simp add: gt_ok_def gt_start_def)
  from probe_init_ok [OF this, of e 5 0] have "gt_ok (goodix_ts_probe e (gt_start i))"
    by (cases "probe_init_loop e 5 0 (gt_start i)") (simp add: goodix_ts_probe_def gt_ok_def)
  then have "gt_ok s" by (rule foldE_invariant [where P = gt_ok, OF gt_step_ok _ assms(1), rotated -1]) assumption
  with assms(2) have "on_screen (GAbs n v)" by (auto simp: gt_ok_def list_all_iff)
  with assms(3) show ?thesis by auto
qed

section \<open>From the glass to the passwords\<close>

definition one_finger_frame :: "byte list \<Rightarrow> bool" where
  "one_finger_frame pd \<longleftrightarrow>
     pd ! 2 AND 0x1f = 1 \<and> \<not> (pd ! 2 AND 0x20 \<noteq> 0 \<and> pd ! 3 = 0xF0) \<and> sum_list (map (\<lambda>c. pd ! c) [2..<9]) = pd ! 9"

definition release_frame :: "byte list \<Rightarrow> bool" where
  "release_frame pd \<longleftrightarrow> pd ! 2 AND 0x1f = 0 \<and> pd ! 3 = 0"

definition screen_pos :: "bool \<Rightarrow> u16 \<times> u16 \<Rightarrow> int \<times> int" where
  "screen_pos revert = (\<lambda>(x, y). if revert then (uint (SCREEN_X - y), uint (SCREEN_Y - x)) else (uint y, uint x))"

text \<open>The frame of a tap at a position of the screen, for a width, a height and a direction.\<close>

definition tap_frame :: "u16 \<Rightarrow> u16 \<Rightarrow> bool \<Rightarrow> byte list \<Rightarrow> int \<times> int \<Rightarrow> bool" where
  "tap_frame w h revert pd p \<longleftrightarrow>
     one_finger_frame pd \<and> fst (finger_pos pd 0) \<le> w \<and> snd (finger_pos pd 0) \<le> h \<and> screen_pos revert (finger_pos pd 0) = p"

definition gt_reverted :: "'b gt_env \<Rightarrow> 'b goodix_ts_data \<Rightarrow> bool" where
  "gt_reverted e s \<longleftrightarrow> xy_revert_en s \<or> gt_should_revert e = 1"

lemma track_one: "pd ! 2 AND 0x1f = 1 \<Longrightarrow> track_ids pd = [0]"
  by (simp add: track_ids_def MAX_FINGER_NUM_def eval_nat_numeral)

lemma track_none: "pd ! 2 AND 0x1f = 0 \<Longrightarrow> track_ids pd = []"
  by (simp add: track_ids_def MAX_FINGER_NUM_def eval_nat_numeral)

definition same_setting :: "'b goodix_ts_data \<Rightarrow> 'b goodix_ts_data \<Rightarrow> bool" where
  "same_setting s s' \<longleftrightarrow> abs_x_max s' = abs_x_max s \<and> abs_y_max s' = abs_y_max s \<and> xy_revert_en s' = xy_revert_en s \<and> gt_i2c s' = gt_i2c s"

lemma gt_menu_keys_frame: "same_setting s (gt_menu_keys e n s) \<and> g_curr_tspara (gt_menu_keys e n s) = g_curr_tspara s"
  by (simp add: gt_menu_keys_def same_setting_def Let_def split: nat.split option.split)

text \<open>What follows the positions in a report does not touch them.\<close>

lemma gt_report_rest:
  assumes "r = (if length (track_ids pd) > 0 then gt_pressed e pd (track_ids pd) s else gt_released e s)"
  shows "same_setting r (gt_report e pd s) \<and> g_curr_tspara (gt_report e pd s) = g_curr_tspara r"
proof -
  define s2 where "s2 = (if gt_board_v2 e then say_gt [GTouch (length (track_ids pd) > 0), GSync] r else r)"
  define s3 where "s3 = s2\<lparr>touch_cnt := (if touch_cnt s2 + 1 = 90 then 0 else touch_cnt s2 + 1)\<rparr>"
  have "same_setting r s3" "g_curr_tspara s3 = g_curr_tspara r" by (simp_all add: s3_def s2_def same_setting_def)
  moreover have "gt_report e pd s = gt_menu_keys e (length (track_ids pd)) s3"
    unfolding gt_report_def Let_def assms [symmetric] s2_def s3_def ..
  ultimately show ?thesis using gt_menu_keys_frame [of s3 e "length (track_ids pd)"] by (simp add: same_setting_def)
qed

lemma gt_report_tap:
  assumes "tap_frame (abs_x_max s) (abs_y_max s) (gt_reverted e s) pd p"
  shows "same_setting s (gt_report e pd s) \<and> g_curr_tspara (gt_report e pd s) = \<lparr>para_x = fst p, para_y = snd p, para_press = True\<rparr>"
proof -
  obtain x y where xy: "finger_pos pd 0 = (x, y)" by fastforce
  have ids: "track_ids pd = [0]" using assms by (simp add: tap_frame_def one_finger_frame_def track_one)
  have "same_setting s (gt_pressed e pd [0] s) \<and>
      g_curr_tspara (gt_pressed e pd [0] s) = \<lparr>para_x = fst p, para_y = snd p, para_press = True\<rparr>"
    using assms xy
    by (auto simp: gt_pressed_def finger_report_def tap_frame_def screen_pos_def gt_reverted_def same_setting_def set_touch_pos_def Let_def)
  then show ?thesis using gt_report_rest [OF refl, of pd e s] by (simp add: ids same_setting_def)
qed

lemma gt_report_release:
  assumes "release_frame pd"
  shows "same_setting s (gt_report e pd s) \<and> \<not> para_press (g_curr_tspara (gt_report e pd s))"
proof -
  have ids: "track_ids pd = []" using assms by (simp add: release_frame_def track_none)
  have "same_setting s (gt_released e s) \<and> \<not> para_press (g_curr_tspara (gt_released e s))"
    by (simp add: gt_released_def same_setting_def set_touch_pos_def Let_def)
  then show ?thesis using gt_report_rest [OF refl, of pd e s] by (simp add: ids same_setting_def)
qed

text \<open>A chip that answers every request with its next frame.\<close>

definition touch_chip :: "'b gt_env \<Rightarrow> ('b \<Rightarrow> byte list) \<Rightarrow> ('b \<Rightarrow> 'b) \<Rightarrow> bool" where
  "touch_chip e nxt rest \<longleftrightarrow>
     (\<forall>q. length (nxt q) = 34 \<and> (\<exists>ret msgs. ret > 0 \<and> buf (last msgs) = nxt q \<and>
        i2c_transfer (gt_core e) (gt_adapter e) frame_request q = (ret, msgs, rest q)))"

definition frame_of :: "byte list \<Rightarrow> byte list" where
  "frame_of bs = [READ_TOUCH_ADDR_H, READ_TOUCH_ADDR_L] @ bs"

lemma work_func_frame:
  assumes "touch_chip e nxt rest" "pd = frame_of (nxt (bus (gt_i2c s)))"
    and "\<not> (pd ! 2 AND 0x20 \<noteq> 0 \<and> pd ! 3 = 0xF0)" "frame_sum pd = pd ! frame_end pd"
  shows "\<exists>t. goodix_ts_work_func e s = (let s' = gt_report e pd t in s'\<lparr>gt_irq_off := gt_irq_off s' - 1\<rparr>) \<and>
    same_setting (s\<lparr>gt_i2c := (gt_i2c s)\<lparr>bus := rest (bus (gt_i2c s))\<rparr>\<rparr>) t"
proof -
  obtain ret msgs where tr: "ret > 0" "buf (last msgs) = nxt (bus (gt_i2c s))"
    "i2c_transfer (gt_core e) (gt_adapter e) frame_request (bus (gt_i2c s)) = (ret, msgs, rest (bus (gt_i2c s)))"
    and l: "length (nxt (bus (gt_i2c s))) = 34" using assms(1) unfolding touch_chip_def by blast
  have pd: "pd = [READ_TOUCH_ADDR_H, READ_TOUCH_ADDR_L] @ fill_buf (replicate 34 0) (nxt (bus (gt_i2c s)))"
    using l assms(2) by (simp add: fill_buf_full frame_of_def)
  define s0 where "s0 = s\<lparr>gt_irq_off := gt_irq_off s + 1,
    raw_data_ready := (if raw_data_ready s = RAW_DATA_ACTIVE then RAW_DATA_READY else raw_data_ready s)\<rparr>"
  define t where "t = s0\<lparr>gt_i2c := (gt_i2c s)\<lparr>bus := rest (bus (gt_i2c s))\<rparr>\<rparr>"
  have r: "i2c_read_bytes e ([READ_TOUCH_ADDR_H, READ_TOUCH_ADDR_L] @ replicate 34 0) READ_BYTES_NUM s0 = (ret, pd, t)"
    unfolding read_frame pd by (simp add: tr s0_def t_def)
  have "goodix_ts_work_func e s = (let s' = gt_report e pd t in s'\<lparr>gt_irq_off := gt_irq_off s' - 1\<rparr>)"
    unfolding goodix_ts_work_func_def Let_def s0_def [symmetric] r using tr(1) assms(3,4) by auto
  moreover have "same_setting (s\<lparr>gt_i2c := (gt_i2c s)\<lparr>bus := rest (bus (gt_i2c s))\<rparr>\<rparr>) t" by (simp add: t_def s0_def same_setting_def)
  ultimately show ?thesis by blast
qed

text \<open>One interrupt, and one look of the thread that collects the digits.\<close>

definition touch_sample :: "'b gt_env \<Rightarrow> string \<Rightarrow> 'b goodix_ts_data \<times> te_state \<Rightarrow> fault + ('b goodix_ts_data \<times> te_state)" where
  "touch_sample e beyond = (\<lambda>(s, te).
     let s' = goodix_ts_work_func e s; p = g_curr_tspara s' in
     bindE (getnum_andanalysis beyond (para_press p) (para_x p) (para_y p) te) (\<lambda>te'. Inr (s', te')))"

definition touch_samples :: "'b gt_env \<Rightarrow> string \<Rightarrow> nat \<Rightarrow> 'b goodix_ts_data \<times> te_state \<Rightarrow> fault + ('b goodix_ts_data \<times> te_state)" where
  "touch_samples e beyond n st = foldE (\<lambda>_. touch_sample e beyond) (replicate n ()) st"

text \<open>The frames to come are taps at the given positions, each with its release.\<close>

primrec taps_to_come :: "u16 \<Rightarrow> u16 \<Rightarrow> bool \<Rightarrow> ('b \<Rightarrow> byte list) \<Rightarrow> ('b \<Rightarrow> 'b) \<Rightarrow> (int \<times> int) list \<Rightarrow> 'b \<Rightarrow> bool" where
  "taps_to_come w h revert nxt rest [] q = True"
| "taps_to_come w h revert nxt rest (p # ps) q =
     (tap_frame w h revert (frame_of (nxt q)) p \<and> release_frame (frame_of (nxt (rest q))) \<and>
      taps_to_come w h revert nxt rest ps (rest (rest q)))"

definition gt_at :: "'b \<Rightarrow> 'b goodix_ts_data \<Rightarrow> 'b goodix_ts_data \<Rightarrow> bool" where
  "gt_at q s s' \<longleftrightarrow> same_setting (s\<lparr>gt_i2c := (gt_i2c s)\<lparr>bus := q\<rparr>\<rparr>) s'"

lemma gt_at_trans: "gt_at q s s1 \<Longrightarrow> gt_at q' s1 s2 \<Longrightarrow> gt_at q' s s2"
  by (simp add: gt_at_def same_setting_def)

lemma gt_at_bus: "gt_at q s s' \<Longrightarrow> bus (gt_i2c s') = q \<and> abs_x_max s' = abs_x_max s \<and> abs_y_max s' = abs_y_max s \<and>
  gt_reverted e s' = gt_reverted e s"
  by (simp add: gt_at_def same_setting_def gt_reverted_def)

lemma gt_at_report: "gt_at q s t \<Longrightarrow> same_setting t (gt_report e pd t) \<Longrightarrow> s' = gt_report e pd t \<Longrightarrow> gt_at q s (s'\<lparr>gt_irq_off := n\<rparr>)"
  by (simp add: gt_at_def same_setting_def)

lemma work_func_tap:
  assumes "touch_chip e nxt rest"
    and "tap_frame (abs_x_max s) (abs_y_max s) (gt_reverted e s) (frame_of (nxt (bus (gt_i2c s)))) p"
  shows "gt_at (rest (bus (gt_i2c s))) s (goodix_ts_work_func e s) \<and>
    g_curr_tspara (goodix_ts_work_func e s) = \<lparr>para_x = fst p, para_y = snd p, para_press = True\<rparr>"
proof -
  define pd where "pd = frame_of (nxt (bus (gt_i2c s)))"
  have one: "one_finger_frame pd" using assms(2) by (simp add: tap_frame_def pd_def)
  then have "frame_sum pd = pd ! frame_end pd" "\<not> (pd ! 2 AND 0x20 \<noteq> 0 \<and> pd ! 3 = 0xF0)"
    by (simp_all add: one_finger_frame_def frame_sum_def frame_end_def Let_def)
  from work_func_frame [OF assms(1) pd_def this(2,1)] obtain t where
    t: "goodix_ts_work_func e s = (let s' = gt_report e pd t in s'\<lparr>gt_irq_off := gt_irq_off s' - 1\<rparr>)"
    "gt_at (rest (bus (gt_i2c s))) s t" unfolding gt_at_def by blast
  have "tap_frame (abs_x_max t) (abs_y_max t) (gt_reverted e t) pd p"
    using assms(2) gt_at_bus [OF t(2), of e] by (simp add: pd_def)
  from gt_report_tap [OF this] gt_at_report [OF t(2)] show ?thesis by (simp add: t(1) Let_def)
qed

lemma work_func_release:
  assumes "touch_chip e nxt rest" "release_frame (frame_of (nxt (bus (gt_i2c s))))"
  shows "gt_at (rest (bus (gt_i2c s))) s (goodix_ts_work_func e s) \<and> \<not> para_press (g_curr_tspara (goodix_ts_work_func e s))"
proof -
  define pd where "pd = frame_of (nxt (bus (gt_i2c s)))"
  have "frame_sum pd = pd ! frame_end pd" "\<not> (pd ! 2 AND 0x20 \<noteq> 0 \<and> pd ! 3 = 0xF0)"
    using assms(2) by (simp_all add: pd_def [symmetric] release_frame_def frame_sum_def frame_end_def Let_def)
  from work_func_frame [OF assms(1) pd_def this(2,1)] obtain t where
    t: "goodix_ts_work_func e s = (let s' = gt_report e pd t in s'\<lparr>gt_irq_off := gt_irq_off s' - 1\<rparr>)"
    "gt_at (rest (bus (gt_i2c s))) s t" unfolding gt_at_def by blast
  from gt_report_release [of pd t e] gt_at_report [OF t(2)] assms(2) show ?thesis by (simp add: t(1) Let_def pd_def)
qed

lemma getnum_released: "getnum_andanalysis beyond False x y te = Inr te"
  by (simp add: getnum_andanalysis_def)

lemma touch_sample_tap:
  assumes "touch_chip e nxt rest"
    and "tap_frame (abs_x_max s) (abs_y_max s) (gt_reverted e s) (frame_of (nxt (bus (gt_i2c s)))) p"
    and "release_frame (frame_of (nxt (rest (bus (gt_i2c s)))))"
  shows "\<exists>s'. gt_at (rest (rest (bus (gt_i2c s)))) s s' \<and>
    foldE (\<lambda>_. touch_sample e beyond) [(), ()] (s, te) =
      bindE (getnum_andanalysis beyond True (fst p) (snd p) te) (\<lambda>te'. Inr (s', te'))"
proof -
  define s1 where "s1 = goodix_ts_work_func e s"
  define s2 where "s2 = goodix_ts_work_func e s1"
  have 1: "gt_at (rest (bus (gt_i2c s))) s s1" "g_curr_tspara s1 = \<lparr>para_x = fst p, para_y = snd p, para_press = True\<rparr>"
    using work_func_tap [OF assms(1,2)] by (simp_all add: s1_def)
  have b: "bus (gt_i2c s1) = rest (bus (gt_i2c s))" using gt_at_bus [OF 1(1)] by simp
  have 2: "gt_at (rest (rest (bus (gt_i2c s)))) s1 s2" "\<not> para_press (g_curr_tspara s2)"
    using work_func_release [OF assms(1), of s1] assms(3) by (simp_all add: s2_def b)
  have "foldE (\<lambda>_. touch_sample e beyond) [(), ()] (s, te) =
      bindE (getnum_andanalysis beyond True (fst p) (snd p) te) (\<lambda>te'. Inr (s2, te'))"
    using 1(2) 2(2)
    by (simp add: touch_sample_def s1_def [symmetric] s2_def [symmetric] getnum_released Let_def bindE_assoc)
  with gt_at_trans [OF 1(1) 2(1)] show ?thesis by blast
qed

lemma taps_collected:
  assumes "touch_chip e nxt rest"
    and "taps_to_come (abs_x_max s) (abs_y_max s) (gt_reverted e s) nxt rest ps (bus (gt_i2c s))"
  shows "\<exists>s'. touch_samples e beyond (2 * length ps) (s, te) =
    bindE (thread_te_analysis beyond (tapped ps) te) (\<lambda>te'. Inr (s', te'))"
  using assms(2)
proof (induction ps arbitrary: s te)
  case Nil
  then show ?case by (simp add: touch_samples_def thread_te_analysis_def tapped_def)
next
  case (Cons p ps)
  then obtain s1 where s1: "gt_at (rest (rest (bus (gt_i2c s)))) s s1"
    "foldE (\<lambda>_. touch_sample e beyond) [(), ()] (s, te) =
       bindE (getnum_andanalysis beyond True (fst p) (snd p) te) (\<lambda>te'. Inr (s1, te'))"
    using touch_sample_tap [OF assms(1), of s p beyond te] by auto
  have "taps_to_come (abs_x_max s1) (abs_y_max s1) (gt_reverted e s1) nxt rest ps (bus (gt_i2c s1))"
    using Cons.prems gt_at_bus [OF s1(1), of e] by simp
  note IH = Cons.IH [OF this]
  have split: "touch_samples e beyond (2 * length (p # ps)) (s, te) =
      bindE (foldE (\<lambda>_. touch_sample e beyond) [(), ()] (s, te)) (touch_samples e beyond (2 * length ps))"
    unfolding touch_samples_def [abs_def] foldE_append [symmetric] by simp
  show ?case
  proof (cases "getnum_andanalysis beyond True (fst p) (snd p) te")
    case (Inr te1)
    obtain s' where "touch_samples e beyond (2 * length ps) (s1, te1) =
        bindE (thread_te_analysis beyond (tapped ps) te1) (\<lambda>te'. Inr (s', te'))" using IH by blast
    then show ?thesis unfolding split s1(2)
      by (intro exI [of _ s']) (simp add: Inr thread_te_analysis_def tapped_def case_prod_beta)
  next
    case (Inl f)
    show ?thesis unfolding split s1(2) by (simp add: Inl thread_te_analysis_def tapped_def case_prod_beta)
  qed
qed

text \<open>
  What the controller sends for a finger at a position of the screen, built from the position: the status with the one finger, the byte of
  the keys, the two coordinates of the glass with the high byte first, a width, the sum of these seven bytes, and 26 bytes that
  do not matter.  The glass counts its first coordinate along the height of the screen; turned, it counts both from the other corner.  For the
  release the status names no finger.
\<close>

record glass_tap =
  tap_at :: "int \<times> int"
  tap_status :: byte
  tap_keys :: byte
  tap_width :: byte
  tap_tail :: "byte list"
  up_status :: byte
  up_tail :: "byte list"

definition frame_down :: "bool \<Rightarrow> glass_tap \<Rightarrow> byte list" where
  "frame_down turned t =
     (let (x, y) = tap_at t; gx = (if turned then 600 - y else y); gy = (if turned then 1024 - x else x);
          bs = [tap_status t, tap_keys t, of_int (gx div 256), of_int (gx mod 256), of_int (gy div 256), of_int (gy mod 256), tap_width t]
      in bs @ [sum_list bs] @ tap_tail t)"

definition frame_up :: "glass_tap \<Rightarrow> byte list" where
  "frame_up t = up_status t # 0 # up_tail t"

definition glass_tap_ok :: "glass_tap \<Rightarrow> bool" where
  "glass_tap_ok t \<longleftrightarrow> 0 \<le> fst (tap_at t) \<and> fst (tap_at t) \<le> 1024 \<and> 0 \<le> snd (tap_at t) \<and> snd (tap_at t) \<le> 600 \<and>
     tap_status t AND 0x1f = 1 \<and> \<not> (tap_status t AND 0x20 \<noteq> 0 \<and> tap_keys t = 0xf0) \<and> up_status t AND 0x1f = 0 \<and> length (tap_tail t) = 26"

primrec glass_sends :: "bool \<Rightarrow> ('b \<Rightarrow> byte list) \<Rightarrow> ('b \<Rightarrow> 'b) \<Rightarrow> glass_tap list \<Rightarrow> 'b \<Rightarrow> bool" where
  "glass_sends turned nxt rest [] q = True"
| "glass_sends turned nxt rest (t # ts) q =
     (nxt q = frame_down turned t \<and> nxt (rest q) = frame_up t \<and> glass_sends turned nxt rest ts (rest (rest q)))"

lemma bytes16_int:
  assumes "0 \<le> x" "x < 65536"
  shows "bytes16 (of_int (x div 256)) (of_int (x mod 256)) = of_int x"
proof -
  have "uint (of_int (x div 256) :: byte) = x div 256" "uint (of_int (x mod 256) :: byte) = x mod 256"
    using assms by (simp_all add: uint_word_of_int)
  then have "(ucast (of_int (x div 256) :: byte) :: u16) = of_int (x div 256)" "(ucast (of_int (x mod 256) :: byte) :: u16) = of_int (x mod 256)"
    by (metis ucast_eq)+
  then have "bytes16 (of_int (x div 256)) (of_int (x mod 256)) = of_int (x div 256) * of_int 256 + of_int (x mod 256)"
    by (simp add: bytes16_def push_bit_eq_mult)
  also have "\<dots> = of_int (x div 256 * 256 + x mod 256)" by (simp only: of_int_add of_int_mult)
  finally show ?thesis by (simp only: div_mult_mod_eq)
qed

lemma uint_small_int: "0 \<le> x \<Longrightarrow> x < 65536 \<Longrightarrow> uint (of_int x :: u16) = x"
  by (simp add: uint_word_of_int)

lemma frame_down_tap:
  assumes "glass_tap_ok t" "nxt q = frame_down turned t"
  shows "tap_frame 600 1024 turned (frame_of (nxt q)) (tap_at t)"
proof -
  obtain x y where t: "tap_at t = (x, y)" by fastforce
  have b: "0 \<le> x" "x \<le> 1024" "0 \<le> y" "y \<le> 600" using assms(1) by (simp_all add: glass_tap_ok_def t)
  define gx gy where "gx = (if turned then 600 - y else y)" and "gy = (if turned then 1024 - x else x)"
  have g: "0 \<le> gx" "gx \<le> 600" "0 \<le> gy" "gy \<le> 1024" using b by (simp_all add: gx_def gy_def)
  have u: "uint (of_int gx :: u16) = gx" "uint (of_int gy :: u16) = gy" using g by (intro uint_small_int; simp)+
  have pd: "frame_of (nxt q) = [0x07, 0x21, tap_status t, tap_keys t, of_int (gx div 256), of_int (gx mod 256), of_int (gy div 256),
      of_int (gy mod 256), tap_width t, tap_status t + (tap_keys t + (of_int (gx div 256) + (of_int (gx mod 256) + (of_int (gy div 256) +
      (of_int (gy mod 256) + tap_width t)))))] @ tap_tail t"
    by (simp add: assms(2) frame_of_def frame_down_def t gx_def gy_def READ_TOUCH_ADDR_H_def READ_TOUCH_ADDR_L_def Let_def)
  have pos: "finger_pos (frame_of (nxt q)) 0 = (of_int gx, of_int gy)"
    unfolding pd finger_pos_def using bytes16_int [of gx] bytes16_int [of gy] g by simp
  have up: "[2..<9] = [2, 3, 4, 5, 6, 7, 8 :: nat]" by (simp add: upt_rec)
  have "one_finger_frame (frame_of (nxt q))"
    unfolding one_finger_frame_def pd up using assms(1) by (simp add: glass_tap_ok_def)
  moreover have "(of_int gx :: u16) \<le> 600" "(of_int gy :: u16) \<le> 1024" using g u by (simp_all add: word_le_def)
  moreover have "screen_pos turned (of_int gx, of_int gy) = (x, y)"
  proof (cases turned)
    case True
    have "SCREEN_X - of_int gy = of_int x" "SCREEN_Y - of_int gx = of_int y"
      by (simp_all add: True gx_def gy_def SCREEN_X_def SCREEN_Y_def)
    then show ?thesis using b by (simp add: screen_pos_def True uint_small_int)
  next
    case False
    then show ?thesis using u by (simp add: screen_pos_def gx_def gy_def)
  qed
  ultimately show ?thesis by (simp add: tap_frame_def pos t)
qed

lemma glass_sends_taps:
  "list_all glass_tap_ok ts \<Longrightarrow> glass_sends turned nxt rest ts q \<Longrightarrow> taps_to_come 600 1024 turned nxt rest (map tap_at ts) q"
proof (induction ts arbitrary: q)
  case (Cons t ts)
  have "release_frame (frame_of (nxt (rest q)))"
    using Cons.prems by (simp add: release_frame_def frame_of_def frame_up_def glass_tap_ok_def)
  with Cons frame_down_tap [of t nxt q turned] show ?case by simp
qed simp

text \<open>
  (C32) The driver hands the taps on the glass to the collector of the passwords.  The controller is set to the screen of 1024 by
  600, and delivers for each tap the frame that is built from its position (\<open>frame_down\<close>, turned or not as the driver is
  set) and then the frame of the release.  The thread of the collector looks once after every interrupt, as it sees a
  finger that rests as one press.  Then the state of the collector after these interrupts and looks is the one that the abstract collector reaches
  on the positions of the taps, with the same faults.
\<close>

theorem taps_reach_collector:
  assumes "touch_chip e nxt rest" "abs_x_max s = 600" "abs_y_max s = 1024"
    and "list_all glass_tap_ok ts" "glass_sends (xy_revert_en s \<or> gt_should_revert e = 1) nxt rest ts (bus (gt_i2c s))"
  shows "\<exists>s'. touch_samples e beyond (2 * length ts) (s, te) =
    bindE (thread_te_analysis beyond (tapped (map tap_at ts)) te) (\<lambda>te'. Inr (s', te'))"
  using taps_collected [OF assms(1), of s "map tap_at ts" beyond te] glass_sends_taps [OF assms(4,5)] assms(2,3)
  by (simp add: gt_reverted_def)

text \<open>A controller with a list of frames, and the frames of taps.\<close>

definition next_frame :: "byte list list \<Rightarrow> byte list" where
  "next_frame q = fill_buf (replicate 34 0) (case q of [] \<Rightarrow> [] | f # _ \<Rightarrow> f)"

definition frames_core :: "byte list list i2c_core" where
  "frames_core = \<lparr>i2c_transfer = (\<lambda>n msgs q. (2, [hd msgs, (last msgs)\<lparr>buf := next_frame q\<rparr>], tl q)), i2c_master_send = (\<lambda>c d n q. (-6, q))\<rparr>"

definition glass_env :: "byte list list gt_env" where
  "glass_env = \<lparr>gt_core = frames_core, gt_adapter = 1, gt_board_v2 = False, gt_is_fly = True, gt_recovery_mode = False, gt_should_revert = 0\<rparr>"

lemma frames_chip: "gt_core e = frames_core \<Longrightarrow> touch_chip e next_frame tl"
  unfolding touch_chip_def by (auto simp: frames_core_def next_frame_def intro!: exI [of _ 2])

definition plain_tap :: "int \<times> int \<Rightarrow> glass_tap" where
  "plain_tap p = \<lparr>tap_at = p, tap_status = 1, tap_keys = 0, tap_width = 0, tap_tail = replicate 26 0, up_status = 0, up_tail = replicate 32 0\<rparr>"

definition tap_bytes :: "int \<times> int \<Rightarrow> byte list list" where
  "tap_bytes p = [frame_down False (plain_tap p), frame_up (plain_tap p)]"

definition glass_start :: "byte list list \<Rightarrow> byte list list goodix_ts_data" where
  "glass_start fs = (gt_start (one_bus fs))\<lparr>abs_x_max := SCREEN_Y, abs_y_max := SCREEN_X\<rparr>"

theorem taps_reach_collector_witness:
  "\<exists>s' te'. touch_samples glass_env [CHR 0x00] 12
     (glass_start (concat (map tap_bytes (map corner PASSWORD_TE_ON))), te_booted) = Inr (s', te') \<and>
     te_called te' = [cb_password_te_enable]"
proof -
  let ?ps = "map corner PASSWORD_TE_ON"
  let ?ts = "map plain_tap ?ps"
  let ?fs = "concat (map tap_bytes ?ps)"
  have ok: "list_all glass_tap_ok ?ts" by code_simp
  have sends: "glass_sends False next_frame tl ?ts ?fs" by code_simp
  have c: "touch_chip glass_env next_frame tl" by (rule frames_chip) (simp add: glass_env_def)
  have s: "abs_x_max (glass_start ?fs) = 600" "abs_y_max (glass_start ?fs) = 1024" "bus (gt_i2c (glass_start ?fs)) = ?fs"
    "(xy_revert_en (glass_start ?fs) \<or> gt_should_revert glass_env = 1) = False"
    by (simp_all add: glass_start_def gt_start_def glass_env_def one_bus_def SCREEN_X_def SCREEN_Y_def)
  have m: "map tap_at ?ts = ?ps" by (simp add: plain_tap_def comp_def)
  have n: "2 * length ?ts = 12" by (simp add: PASSWORD_TE_ON_def)
  have "case thread_te_analysis [CHR 0x00] (tapped ?ps) te_booted of
      Inl _ \<Rightarrow> False | Inr s \<Rightarrow> te_called s = [cb_password_te_enable]" by code_simp
  then obtain te' where te': "thread_te_analysis [CHR 0x00] (tapped ?ps) te_booted = Inr te'" "te_called te' = [cb_password_te_enable]"
    by (auto split: sum.splits)
  obtain s' where "touch_samples glass_env [CHR 0x00] 12 (glass_start ?fs, te_booted) = Inr (s', te')"
    using taps_reach_collector [OF c s(1,2) ok, unfolded s(3,4), OF sends, of "[CHR 0x00]" te_booted, unfolded m n te'(1) bindE_simps] by blast
  with te'(2) show ?thesis by blast
qed

theorem touches_on_screen_witness:
  "\<exists>s. foldE (gt_step glass_env) [GtInterrupt, GtSuspend, GtResume]
      (goodix_ts_probe glass_env (gt_start (one_bus ([] # tap_bytes (974, 50))))) = Inr s \<and>
    GAbs ''POSITION_X'' 974 \<in> set (gt_events s) \<and> (0 :: int) \<le> 974 \<and> (974 :: int) \<le> 1024"
proof -
  have "case foldE (gt_step glass_env) [GtInterrupt, GtSuspend, GtResume]
      (goodix_ts_probe glass_env (gt_start (one_bus ([] # tap_bytes (974, 50))))) of
      Inl _ \<Rightarrow> False | Inr s \<Rightarrow> list_ex (\<lambda>ev. ev = GAbs ''POSITION_X'' 974) (gt_events s)" by code_simp
  then obtain s where s: "foldE (gt_step glass_env) [GtInterrupt, GtSuspend, GtResume]
      (goodix_ts_probe glass_env (gt_start (one_bus ([] # tap_bytes (974, 50))))) = Inr s" "GAbs ''POSITION_X'' 974 \<in> set (gt_events s)"
    by (auto split: sum.splits simp: list_ex_iff)
  from touches_on_screen [OF s] s show ?thesis by auto
qed

section \<open>Damaged frames\<close>

lemma sum_list_update_other:
  fixes f :: "nat \<Rightarrow> byte"
  assumes "i \<in> set is" "distinct is"
  shows "sum_list (map (f(i := v)) is) = sum_list (map f is) + (v - f i)"
  using assms
proof (induction "is")
  case (Cons j js)
  show ?case
  proof (cases "j = i")
    case True
    with Cons.prems(2) have "map (f(i := v)) js = map f js" by auto
    then have eq: "sum_list (map (f(i := v)) (j # js)) = v + sum_list (map f js)" by (simp only: list.map sum_list.Cons True fun_upd_same)
    show ?thesis unfolding eq by (simp add: True)
  next
    case False
    with Cons show ?thesis by (simp add: algebra_simps)
  qed
qed simp

lemma frame_end_range: "frame_end pd \<le> 35" "2 < frame_end pd" "pd ! 2 AND 0x1f = 0 \<Longrightarrow> frame_end pd = 3"
  by (auto simp: frame_end_def Let_def)

text \<open>A frame with a right sum in which one byte behind the first has changed does not have a right sum.\<close>

lemma damaged_sum:
  assumes "length pd = 36" "frame_sum pd = pd ! frame_end pd" "pd ! 2 AND 0x1f \<noteq> 0" "2 < i" "i \<le> frame_end pd" "v \<noteq> pd ! i"
  shows "frame_sum (pd[i := v]) \<noteq> pd[i := v] ! frame_end (pd[i := v])"
proof -
  have two: "pd[i := v] ! 2 = pd ! 2" using assms(4) by simp
  then have fe: "frame_end (pd[i := v]) = frame_end pd" by (simp add: frame_end_def)
  have len: "i < length pd" using assms(1,5) frame_end_range(1) [of pd] by linarith
  have fs: "frame_sum (pd[i := v]) = sum_list (map (\<lambda>c. pd[i := v] ! c) [2..<frame_end pd])"
    using assms(3) two fe by (simp add: frame_sum_def)
  have s0: "frame_sum pd = sum_list (map (\<lambda>c. pd ! c) [2..<frame_end pd])" using assms(3) by (simp add: frame_sum_def)
  show ?thesis
  proof (cases "i = frame_end pd")
    case True
    then have "frame_sum (pd[i := v]) = frame_sum pd" unfolding fs s0 by (intro arg_cong [where f = sum_list] map_cong) auto
    then show ?thesis using True assms(2,6) len fe by simp
  next
    case False
    with assms(4,5) have i: "i \<in> set [2..<frame_end pd]" by auto
    have "map (\<lambda>c. pd[i := v] ! c) [2..<frame_end pd] = map ((\<lambda>c. pd ! c)(i := v)) [2..<frame_end pd]" using len by auto
    then have "frame_sum (pd[i := v]) = frame_sum pd + (v - pd ! i)"
      unfolding fs s0 by (simp only: sum_list_update_other [OF i distinct_upt])
    then show ?thesis using False assms(2,6) fe by simp
  qed
qed

text \<open>
  (C34) A damaged frame is not reported: when one byte behind the first of a frame with fingers and a right sum has changed on the bus,
  the interrupt reports nothing and leaves the position for the passwords as it was.  Unless the frame asks by its first two bytes for the
  controller to be set up again, the interrupt does nothing but read this frame: no byte is written to the controller, and of the driver's state only the
  mark that a frame has come changes.
\<close>

theorem damaged_frame_dropped:
  assumes "touch_chip e nxt rest" "frame_of (nxt (bus (gt_i2c s))) = pd[i := v]" "length pd = 36"
    and "frame_sum pd = pd ! frame_end pd" "pd ! 2 AND 0x1f \<noteq> 0" "2 < i" "i \<le> frame_end pd" "v \<noteq> pd ! i"
  shows "gt_events (goodix_ts_work_func e s) = gt_events s \<and> g_curr_tspara (goodix_ts_work_func e s) = g_curr_tspara s \<and>
    (\<not> (pd ! 2 AND 0x20 \<noteq> 0 \<and> pd[i := v] ! 3 = 0xf0) \<longrightarrow>
      goodix_ts_work_func e s = s\<lparr>gt_i2c := (gt_i2c s)\<lparr>bus := rest (bus (gt_i2c s))\<rparr>,
        raw_data_ready := (if raw_data_ready s = RAW_DATA_ACTIVE then RAW_DATA_READY else raw_data_ready s)\<rparr>)"
proof -
  define pd' where "pd' = pd[i := v]"
  have bad: "frame_sum pd' \<noteq> pd' ! frame_end pd'" using damaged_sum [OF assms(3-8)] by (simp add: pd'_def)
  obtain ret msgs where tr: "ret > 0" "buf (last msgs) = nxt (bus (gt_i2c s))"
    "i2c_transfer (gt_core e) (gt_adapter e) frame_request (bus (gt_i2c s)) = (ret, msgs, rest (bus (gt_i2c s)))"
    and l: "length (nxt (bus (gt_i2c s))) = 34" using assms(1) unfolding touch_chip_def by blast
  define s0 where "s0 = s\<lparr>gt_irq_off := gt_irq_off s + 1,
    raw_data_ready := (if raw_data_ready s = RAW_DATA_ACTIVE then RAW_DATA_READY else raw_data_ready s)\<rparr>"
  define t where "t = s0\<lparr>gt_i2c := (gt_i2c s)\<lparr>bus := rest (bus (gt_i2c s))\<rparr>\<rparr>"
  have "pd' = [READ_TOUCH_ADDR_H, READ_TOUCH_ADDR_L] @ fill_buf (replicate 34 0) (nxt (bus (gt_i2c s)))"
    using l assms(2) by (simp add: fill_buf_full frame_of_def pd'_def)
  then have r: "i2c_read_bytes e ([READ_TOUCH_ADDR_H, READ_TOUCH_ADDR_L] @ replicate 34 0) READ_BYTES_NUM s0 = (ret, pd', t)"
    unfolding read_frame by (simp add: tr s0_def t_def)
  obtain ri ti where i: "goodix_init_panel e t = (ri, ti)" by fastforce
  then have ti: "gt_events ti = gt_events t" "g_curr_tspara ti = g_curr_tspara t"
    by (auto simp: goodix_init_panel_def Let_def dest!: transfers_keep split: prod.splits)
  have "goodix_ts_work_func e s =
      (let u = (if pd' ! 2 AND 0x20 \<noteq> 0 \<and> pd' ! 3 = 0xF0 then ti else t) in u\<lparr>gt_irq_off := gt_irq_off u - 1\<rparr>)"
    unfolding goodix_ts_work_func_def Let_def s0_def [symmetric] r using tr(1) bad by (auto simp: i)
  moreover have "pd' ! 2 = pd ! 2" "pd' ! 3 = pd[i := v] ! 3" using assms(6) by (simp_all add: pd'_def)
  ultimately show ?thesis using ti by (simp add: Let_def t_def s0_def)
qed

theorem damaged_frame_dropped_witness:
  "let s = glass_start [[1, 0, 0, 50, 3, 0xCD, 0, 4]] in gt_events (goodix_ts_work_func glass_env s) = gt_events s"
proof -
  let ?pd = "[0x07, 0x21, 1, 0, 0, 50, 3, 0xCE, 0, 4] @ replicate 26 (0 :: byte)"
  let ?s = "glass_start [[1, 0, 0, 50, 3, 0xCD, 0, 4]] :: byte list list goodix_ts_data"
  have c: "touch_chip glass_env next_frame tl" by (rule frames_chip) (simp add: glass_env_def)
  have d: "frame_of (next_frame (bus (gt_i2c ?s))) = ?pd[7 := 0xCD]" by code_simp
  have e: "frame_end ?pd = 9" "frame_sum ?pd = ?pd ! 9" "?pd ! 2 AND 0x1f \<noteq> 0" by code_simp+
  have "frame_sum ?pd = ?pd ! frame_end ?pd" "7 \<le> frame_end ?pd" using e by simp_all
  then show ?thesis using damaged_frame_dropped [OF c d _ _ e(3)] by simp
qed

section \<open>Weak spots\<close>

text \<open>A write of one character, for instance a newline, turns the picture; twenty characters run over the buffer.\<close>

theorem one_character_reverts:
  "ts_nod_write [c] s = Inr (1, s\<lparr>xy_revert_en := True\<rparr>)" "20 \<le> length t \<Longrightarrow> ts_nod_write t s = Inl BufOverrun"
  by (simp_all add: ts_nod_write_def strnicmp_eq_def)

definition is_position :: "gt_event \<Rightarrow> bool" where
  "is_position ev \<longleftrightarrow> (\<exists>v. ev = GAbs ''POSITION_X'' v \<or> ev = GAbs ''POSITION_Y'' v)"

lemma is_position_simps [simp]:
  "\<not> is_position (GSlot c)" "\<not> is_position (GFinger b)" "\<not> is_position (GTouch b)" "\<not> is_position GSync" "\<not> is_position (GKey k)"
  by (simp_all add: is_position_def)

lemma gt_menu_keys_events: "\<exists>ks. gt_events (gt_menu_keys e n s) = gt_events s @ map GKey ks"
proof -
  have "\<exists>ks. gt_events s = gt_events s @ map GKey ks" by (rule exI [of _ "[]"]) simp
  moreover have "\<exists>ks. gt_events s @ [GKey k] = gt_events s @ map GKey ks" for k by (rule exI [of _ "[k]"]) simp
  ultimately show ?thesis by (simp add: gt_menu_keys_def Let_def split: nat.split option.split)
qed

text \<open>A finger outside the screen is not reported to the input layer, but its position is taken for the passwords.\<close>

theorem rejected_position_used:
  assumes "track_ids pd = [t]" "finger_pos pd t = (x, y)" "x > abs_x_max s"
  shows "\<exists>evs. gt_events (gt_report e pd s) = gt_events s @ evs \<and> list_all (\<lambda>ev. \<not> is_position ev) evs \<and>
    g_curr_tspara (gt_report e pd s) = \<lparr>para_x = uint y, para_y = uint x, para_press = True\<rparr>"
proof -
  define r where "r = gt_pressed e pd [t] s"
  have up: "[0..<4] = [0, 1, 2, 3 :: nat]" by (simp add: upt_rec)
  have r: "g_curr_tspara r = \<lparr>para_x = uint y, para_y = uint x, para_press = True\<rparr>"
    "\<exists>evs. gt_events r = gt_events s @ evs \<and> list_all (\<lambda>ev. \<not> is_position ev) evs"
    using assms by (simp_all add: r_def gt_pressed_def finger_report_def set_touch_pos_def Let_def up)
  define s2 where "s2 = (if gt_board_v2 e then say_gt [GTouch True, GSync] r else r)"
  define s3 where "s3 = s2\<lparr>touch_cnt := (if touch_cnt s2 + 1 = 90 then 0 else touch_cnt s2 + 1)\<rparr>"
  have rep: "gt_report e pd s = gt_menu_keys e 1 s3"
    by (simp add: gt_report_def Let_def assms(1) r_def [symmetric] s2_def s3_def)
  obtain ks where ks: "gt_events (gt_menu_keys e 1 s3) = gt_events s3 @ map GKey ks" using gt_menu_keys_events by blast
  obtain evs where evs: "gt_events r = gt_events s @ evs" "list_all (\<lambda>ev. \<not> is_position ev) evs" using r(2) by blast
  have "list_all (\<lambda>ev. \<not> is_position ev) (map GKey ks)" by (simp add: list_all_iff)
  with ks evs have "\<exists>evs. gt_events (gt_report e pd s) = gt_events s @ evs \<and> list_all (\<lambda>ev. \<not> is_position ev) evs"
    unfolding rep by (cases "gt_board_v2 e") (simp_all add: s3_def s2_def)
  moreover have "g_curr_tspara (gt_report e pd s) = g_curr_tspara r"
    using gt_report_rest [OF refl, of pd e s] by (simp add: assms(1) r_def)
  ultimately show ?thesis using r(1) by auto
qed

text \<open>The slot of a finger is its place among the fingers that are down: when the first of two is lifted, its slot jumps to the second.\<close>

theorem slot_jumps:
  assumes "track_ids pd = [1]" "finger_pos pd 1 = (x, y)" "x \<le> abs_x_max s" "y \<le> abs_y_max s" "\<not> gt_reverted e s" "\<not> gt_board_v2 e"
  shows "\<exists>evs. gt_events (gt_report e pd s) =
    gt_events s @ [GSlot 0, GFinger True, GAbs ''POSITION_X'' (uint y), GAbs ''POSITION_Y'' (uint x)] @ evs"
proof -
  define r where "r = gt_pressed e pd [Suc 0] s"
  have r: "\<exists>evs. gt_events r = gt_events s @ [GSlot 0, GFinger True, GAbs ''POSITION_X'' (uint y), GAbs ''POSITION_Y'' (uint x)] @ evs"
    using assms by (auto simp: r_def gt_pressed_def finger_report_def set_touch_pos_def gt_reverted_def Let_def)
  define s3 where "s3 = r\<lparr>touch_cnt := (if touch_cnt r + 1 = 90 then 0 else touch_cnt r + 1)\<rparr>"
  have rep: "gt_report e pd s = gt_menu_keys e (Suc 0) s3"
    using assms(6) by (simp add: gt_report_def Let_def assms(1) r_def [symmetric] s3_def)
  obtain ks where "gt_events (gt_menu_keys e (Suc 0) s3) = gt_events s3 @ map GKey ks" using gt_menu_keys_events by blast
  with r show ?thesis unfolding rep by (auto simp: s3_def)
qed

end
