(* ===== verification/Gt811_Update.thy ===== *)
theory Gt811_Update
  imports Gt811
begin

text \<open>
  The update of the firmware of the touch screen controller, \<^verbatim>\<open>drivers/touchscreen/gt811.c\<close> from line 1337 on: the entry under
  \<^verbatim>\<open>/proc\<close> with its commands, the loader of a firmware file, and the transfer of the firmware into the controller.

  A firmware and a file are byte lists; a read behind their end is a fault.  Variables that the code reads before it has set them are
  arguments (\<open>err0\<close>, \<open>junk\<close>).  Results of the type \<open>u8\<close> are kept at this width, so a negative result of a transfer becomes a positive number.
  \<open>goodix_read_version\<close> is repeated for ever if it fails: an update that does not return is \<open>None\<close>.
\<close>

section \<open>Transfer of the firmware\<close>

definition PACK_SIZE :: nat where "PACK_SIZE = 64"
definition NVRAM_LEN :: nat where "NVRAM_LEN = 0x0FF0"
definition NVRAM_BOOT_SECTOR_LEN :: nat where "NVRAM_BOOT_SECTOR_LEN = 0x0100"
definition NVRAM_UPDATE_START_ADDR :: u16 where "NVRAM_UPDATE_START_ADDR = 0x4100"
definition BIT_NVRAM_STROE :: nat where "BIT_NVRAM_STROE = 0"
definition BIT_NVRAM_RECALL :: nat where "BIT_NVRAM_RECALL = 1"
definition BIT_NVRAM_LOCK :: byte where "BIT_NVRAM_LOCK = 2"
definition REG_NVRCS_H :: byte where "REG_NVRCS_H = 0x12"
definition REG_NVRCS_L :: byte where "REG_NVRCS_L = 0x01"

fun is_equal :: "byte list \<Rightarrow> byte list \<Rightarrow> nat \<Rightarrow> byte" where
  "is_equal src dst 0 = 1"
| "is_equal (x # src) (y # dst) (Suc n) = (if x \<noteq> y then 0 else is_equal src dst n)"
| "is_equal _ _ (Suc n) = 0"

definition addr_high :: "u16 \<Rightarrow> byte" where "addr_high a = ucast (drop_bit 8 a AND 0xff)"
definition addr_low :: "u16 \<Rightarrow> byte" where "addr_low a = ucast (a AND 0xff)"

fun store_loop :: "'b gt_env \<Rightarrow> nat \<Rightarrow> int \<Rightarrow> byte list \<Rightarrow> 'b goodix_ts_data \<Rightarrow> int \<times> 'b goodix_ts_data" where
  "store_loop e 0 ret inbuf s = (ret, s)"
| "store_loop e (Suc n) ret inbuf s =
     (case i2c_write_bytes e inbuf 3 s of (r, s1) \<Rightarrow> if r < 0 then (r, s1) else store_loop e n r inbuf s1)"

definition gt811_nvram_store :: "'b gt_env \<Rightarrow> 'b goodix_ts_data \<Rightarrow> byte \<times> 'b goodix_ts_data" where
  "gt811_nvram_store e s =
     (case i2c_read_bytes e [REG_NVRCS_H, REG_NVRCS_L, 0] 3 s of
        (ret, inbuf, s1) \<Rightarrow>
          if ret < 0 then (0, s1)
          else if inbuf ! 2 AND BIT_NVRAM_LOCK = BIT_NVRAM_LOCK then (0, s1)
          else case store_loop e 300 ret (inbuf[2 := push_bit BIT_NVRAM_STROE 1]) s1 of (r, s2) \<Rightarrow> (word_of_int r, s2))"

definition gt811_nvram_recall :: "'b gt_env \<Rightarrow> 'b goodix_ts_data \<Rightarrow> byte \<times> 'b goodix_ts_data" where
  "gt811_nvram_recall e s =
     (case i2c_read_bytes e [REG_NVRCS_H, REG_NVRCS_L, 0] 3 s of
        (ret, inbuf, s1) \<Rightarrow>
          if ret < 0 then (0, s1)
          else if inbuf ! 2 AND BIT_NVRAM_LOCK = BIT_NVRAM_LOCK then (0, s1)
          else case i2c_write_bytes e (inbuf[2 := push_bit BIT_NVRAM_RECALL 1]) 3 s1 of (r, s2) \<Rightarrow> (word_of_int r, s2))"

fun reset_loop :: "'b gt_env \<Rightarrow> nat \<Rightarrow> int \<Rightarrow> byte list \<Rightarrow> 'b goodix_ts_data \<Rightarrow> int \<times> 'b goodix_ts_data" where
  "reset_loop e 0 ret inbuf s = (ret, s)"
| "reset_loop e (Suc n) ret inbuf s =
     (case i2c_write_bytes e inbuf 0 s of
        (r, s1) \<Rightarrow>
          if r > 0 then
            (case i2c_read_bytes e inbuf 3 s1 of
               (r2, inbuf2, s2) \<Rightarrow>
                 if r2 > 0 \<and> inbuf2 ! 2 = 0x55 then i2c_write_bytes e [0, 0xff, 0] 3 s2 else reset_loop e n r2 inbuf2 s2)
          else reset_loop e n r inbuf s1)"

definition gt811_reset :: "'b gt_env \<Rightarrow> 'b goodix_ts_data \<Rightarrow> int \<times> 'b goodix_ts_data" where
  "gt811_reset e s = reset_loop e 80 1 [0, 0xff, 0] s"

fun reset2_loop :: "'b gt_env \<Rightarrow> nat \<Rightarrow> int \<Rightarrow> byte list \<Rightarrow> 'b goodix_ts_data \<Rightarrow> int \<times> 'b goodix_ts_data" where
  "reset2_loop e 0 ret inbuf s = (ret, s)"
| "reset2_loop e (Suc n) ret inbuf s =
     (case i2c_write_bytes e inbuf 0 s of
        (r, s1) \<Rightarrow>
          if r > 0 then
            (case i2c_read_bytes e inbuf 3 s1 of
               (r2, inbuf2, s2) \<Rightarrow> if r2 > 0 then (r2, s2) else reset2_loop e n r2 inbuf2 s2)
          else reset2_loop e n r inbuf s1)"

definition gt811_reset2 :: "'b gt_env \<Rightarrow> 'b goodix_ts_data \<Rightarrow> int \<times> 'b goodix_ts_data" where
  "gt811_reset2 e s = reset2_loop e 80 1 [0, 0xff, 0] s"

fun address_loop :: "'b gt_env \<Rightarrow> nat \<Rightarrow> byte list \<Rightarrow> 'b goodix_ts_data \<Rightarrow> int \<times> 'b goodix_ts_data" where
  "address_loop e 0 inbuf s = (0, s)"
| "address_loop e (Suc n) inbuf s =
     (case i2c_read_bytes e inbuf 3 s of (r, inbuf1, s1) \<Rightarrow> if r \<noteq> 0 then (1, s1) else address_loop e n inbuf1 s1)"

definition gt811_set_address_2 :: "'b gt_env \<Rightarrow> 'b goodix_ts_data \<Rightarrow> int \<times> 'b goodix_ts_data" where
  "gt811_set_address_2 e s = address_loop e 12 [0, 0, 0] s"

text \<open>The bytes \<open>off\<close> to \<open>off + n\<close> of the firmware, and the number of bytes in the frame \<open>k\<close> of \<open>tot\<close>.\<close>

definition nvram_block :: "byte list \<Rightarrow> nat \<Rightarrow> nat \<Rightarrow> fault + byte list" where
  "nvram_block nvram off n = (if off + n \<le> length nvram then Inr (take n (drop off nvram)) else Inl BufOverrun)"

definition frame_len :: "nat \<Rightarrow> nat \<Rightarrow> nat \<Rightarrow> nat" where
  "frame_len flen tot k = (if k = tot - 1 then flen - k * PACK_SIZE else PACK_SIZE)"

text \<open>The attempts to write a frame of \<open>n\<close> bytes and to read it back; \<open>data\<close> starts with the address.\<close>

fun write_frame ::
  "'b gt_env \<Rightarrow> byte list \<Rightarrow> nat \<Rightarrow> nat \<Rightarrow> byte list \<Rightarrow> 'b goodix_ts_data \<Rightarrow> bool \<times> byte list \<times> 'b goodix_ts_data" where
  "write_frame e data n 0 chk s = (True, chk, s)"
| "write_frame e data n (Suc retry_time) chk s =
     (case i2c_write_bytes e data (n + 2) s of
        (w, s1) \<Rightarrow>
          (case i2c_read_bytes e chk (n + 2) s1 of
             (r, chk1, s2) \<Rightarrow>
               if (word_of_int w :: byte) = 0 \<or> (word_of_int r :: byte) = 0 \<or> is_equal (drop 2 data) (drop 2 chk1) n = 0
               then write_frame e data n retry_time chk1 s2 else (False, chk1, s2)))"

fun write_frames ::
  "'b gt_env \<Rightarrow> byte list \<Rightarrow> u16 \<Rightarrow> nat \<Rightarrow> nat \<Rightarrow> nat \<Rightarrow> bool \<Rightarrow> byte list \<Rightarrow> 'b goodix_ts_data \<Rightarrow>
     fault + (bool \<times> byte list \<times> 'b goodix_ts_data)" where
  "write_frames e nvram start_addr flen tot 0 err chk s = Inr (err, chk, s)"
| "write_frames e nvram start_addr flen tot (Suc n) err chk s =
     (let k = tot - Suc n; a = start_addr + of_nat (k * PACK_SIZE); cur_frame_len = frame_len flen tot k in
      bindE (nvram_block nvram (k * PACK_SIZE) cur_frame_len) (\<lambda>block.
        case write_frame e ([addr_high a, addr_low a] @ block) cur_frame_len 5 (chk[0 := addr_high a, 1 := addr_low a]) s of
          (err1, chk1, s1) \<Rightarrow>
            if err1 then Inr (True, chk1, s1) else write_frames e nvram start_addr flen tot n False chk1 s1))"

fun verify_frame :: "'b gt_env \<Rightarrow> byte list \<Rightarrow> nat \<Rightarrow> nat \<Rightarrow> byte list \<Rightarrow> 'b goodix_ts_data \<Rightarrow> bool \<times> byte list \<times> 'b goodix_ts_data" where
  "verify_frame e block n 0 chk s = (True, chk, s)"
| "verify_frame e block n (Suc retry_time) chk s =
     (case i2c_read_bytes e chk (n + 2) s of
        (r, chk1, s1) \<Rightarrow>
          if (word_of_int r :: byte) = 0 \<or> is_equal block (drop 2 chk1) n = 0
          then verify_frame e block n retry_time chk1 s1 else (False, chk1, s1))"

fun verify_frames ::
  "'b gt_env \<Rightarrow> byte list \<Rightarrow> nat \<Rightarrow> nat \<Rightarrow> nat \<Rightarrow> bool \<Rightarrow> byte list \<Rightarrow> 'b goodix_ts_data \<Rightarrow> fault + (bool \<times> byte list \<times> 'b goodix_ts_data)" where
  "verify_frames e nvram flen tot 0 err chk s = Inr (err, chk, s)"
| "verify_frames e nvram flen tot (Suc n) err chk s =
     (let k = tot - Suc n; a = NVRAM_UPDATE_START_ADDR + of_nat (k * PACK_SIZE); cur_frame_len = frame_len flen tot k in
      bindE (nvram_block nvram (k * PACK_SIZE) cur_frame_len) (\<lambda>block.
        case verify_frame e block cur_frame_len 5 (chk[0 := addr_high a, 1 := addr_low a]) s of
          (err1, chk1, s1) \<Rightarrow> if err1 then Inr (True, chk1, s1) else verify_frames e nvram flen tot n False chk1 s1))"

definition gt811_update_firmware ::
  "'b gt_env \<Rightarrow> bool \<Rightarrow> byte list \<Rightarrow> u16 \<Rightarrow> u16 \<Rightarrow> 'b goodix_ts_data \<Rightarrow> fault + (byte \<times> 'b goodix_ts_data)" where
  "gt811_update_firmware e err0 nvram start_addr fw_length s =
     (let flen = unat fw_length; tot = (flen + PACK_SIZE - 1) div PACK_SIZE in
      if flen > NVRAM_LEN - NVRAM_BOOT_SECTOR_LEN then Inr (0, s)
      else bindE (write_frames e nvram start_addr flen tot tot err0 (replicate (PACK_SIZE + 2) 0) s) (\<lambda>(err, chk, s1).
        if err then Inr (0, s1)
        else case gt811_nvram_store e s1 of (r, s2) \<Rightarrow>
          if r = 0 then Inr (0, s2)
          else case gt811_nvram_recall e s2 of (r', s3) \<Rightarrow>
            if r' = 0 then Inr (0, s3)
            else bindE (verify_frames e nvram flen tot tot err chk s3) (\<lambda>(err', _, s4). Inr (if err' then 0 else 1, s4))))"

section \<open>The loader\<close>

partial_function (option) version_until :: "'b gt_env \<Rightarrow> 'b goodix_ts_data \<Rightarrow> 'b goodix_ts_data option" where
  "version_until e s = (case goodix_read_version e s of (r, s1) \<Rightarrow> if r < 0 then version_until e s1 else Some s1)"

text \<open>The results of the two resets are kept in a \<open>u8\<close>, which is never negative.\<close>

definition gt811_update_proc ::
  "'b gt_env \<Rightarrow> bool \<Rightarrow> byte list \<Rightarrow> u16 \<Rightarrow> u16 \<Rightarrow> 'b goodix_ts_data \<Rightarrow> (fault + (byte \<times> 'b goodix_ts_data)) option" where
  "gt811_update_proc e err0 nvram start_addr fw_length s =
     (let s1 = snd (gt811_reset e s) in
      case (case gt811_set_address_2 e s1 of
              (a, s2) \<Rightarrow> if a = 0 then Inr (True, s2)
                        else bindE (gt811_update_firmware e err0 nvram start_addr fw_length s2) (\<lambda>(r, s3). Inr (r = 0, s3))) of
        Inl f \<Rightarrow> Some (Inl f)
      | Inr (error, s4) \<Rightarrow>
          let s5 = snd (gt811_reset2 e s4) in
          if error then Some (Inr (0, s5))
          else (case version_until e s5 of None \<Rightarrow> None | Some s6 \<Rightarrow> Some (Inr (1, s6))))"

definition Little2BigEndian :: "u16 \<Rightarrow> u16" where
  "Little2BigEndian little_endian = push_bit 8 (little_endian AND 0xff) + (drop_bit 8 little_endian AND 0xff)"

text \<open>The header of a firmware file; numbers of two bytes are read as the processor has them.\<close>

record tpd_firmware_info_t =
  chip_type :: byte
  fwi_version :: u16
  rom_version :: byte
  start_addr :: u16
  fwi_length :: u16
  mandatory_flag :: "byte list"
  fwi_data :: "byte list"

definition fw_info :: "byte list \<Rightarrow> tpd_firmware_info_t" where
  "fw_info data =
     \<lparr>chip_type = data ! 0, fwi_version = bytes16 (data ! 2) (data ! 1), rom_version = data ! 3,
      start_addr = bytes16 (data ! 8) (data ! 7), fwi_length = bytes16 (data ! 10) (data ! 9),
      mandatory_flag = take 6 (drop 14 data), fwi_data = drop 20 data\<rparr>"

fun update_tries ::
  "'b gt_env \<Rightarrow> (nat \<Rightarrow> bool) \<Rightarrow> byte list \<Rightarrow> u16 \<Rightarrow> u16 \<Rightarrow> nat \<Rightarrow> 'b goodix_ts_data \<Rightarrow> (fault + (int \<times> 'b goodix_ts_data)) option" where
  "update_tries e err0 nvram a flen 0 s = Some (Inr (-1, s))"
| "update_tries e err0 nvram a flen (Suc n) s =
     (case gt811_update_proc e (err0 n) nvram a flen s of
        None \<Rightarrow> None
      | Some (Inl f) \<Rightarrow> Some (Inl f)
      | Some (Inr (ret, s1)) \<Rightarrow> if ret = 1 then Some (Inr (1, s1)) else update_tries e err0 nvram a flen n s1)"

definition mandatory_base :: "byte list" where
  "mandatory_base = [0x47, 0x4F, 0x4F, 0x44, 0x49, 0x58]"

text \<open>The part of \<open>gt811_downloader\<close> behind the transfers; what follows the stray semicolon behind the test of \<open>rd_rom_version\<close> is not reached.\<close>

definition downloader_decide ::
  "'b gt_env \<Rightarrow> (nat \<Rightarrow> bool) \<Rightarrow> byte \<Rightarrow> byte \<Rightarrow> byte list \<Rightarrow> 'b goodix_ts_data \<Rightarrow> (fault + (int \<times> 'b goodix_ts_data)) option" where
  "downloader_decide e err0 rd_chip_type rd_rom_version data s =
     (if length data < 14 then Some (Inl BufOverrun)
      else
        let fw = fw_info data;
            fw_version = Little2BigEndian (fwi_version fw);
            begin_upgrade = update_tries e err0 (fwi_data fw) (Little2BigEndian (start_addr fw)) (Little2BigEndian (fwi_length fw)) 3 s in
        if rd_chip_type \<noteq> chip_type fw then Some (Inr (0, s))
        else if rd_rom_version = 0 then
          if rom_version fw \<noteq> 0x45 then Some (Inr (0, s))
          else if uint (gt_version s) \<ge> uint fw_version then
            if length data < 20 then Some (Inl BufOverrun)
            else if mandatory_flag fw \<noteq> mandatory_base then Some (Inr (0, s))
            else begin_upgrade
          else begin_upgrade
        else Some (Inr (0, s)))"

definition gt811_downloader ::
  "'b gt_env \<Rightarrow> (nat \<Rightarrow> bool) \<Rightarrow> byte list \<Rightarrow> 'b goodix_ts_data \<Rightarrow> (fault + (int \<times> 'b goodix_ts_data)) option" where
  "gt811_downloader e err0 data s =
     (case i2c_write_bytes e [0x14, 0x00, 0x80, 0] 3 s of
        (w, s1) \<Rightarrow>
          if w < 0 then Some (Inr (0, s1))
          else case i2c_read_bytes e [0x40, 0x11, 0x80, 0] 3 s1 of
            (r2, d2, s2) \<Rightarrow>
              if r2 \<le> 0 then Some (Inr (0, s2))
              else case i2c_read_bytes e (d2[0 := 0xFB, 1 := 0xED]) 3 s2 of
                (r3, d3, s3) \<Rightarrow>
                  if r3 \<le> 0 then Some (Inr (0, s3))
                  else case i2c_read_bytes e (d3[0 := 0x06, 1 := 0x94]) 3 s3 of
                    (r4, _, s4) \<Rightarrow>
                      if r4 \<le> 0 then Some (Inr (0, s4))
                      else downloader_decide e err0 (d2 ! 2) (d3 ! 2) data s4)"

section \<open>The entry under /proc\<close>

definition APK_UPDATE_TP :: byte where "APK_UPDATE_TP = 1"
definition APK_READ_FUN :: byte where "APK_READ_FUN = 10"
definition APK_WRITE_CFG :: byte where "APK_WRITE_CFG = 11"
definition CMD_READ_VER :: byte where "CMD_READ_VER = 2"
definition CMD_READ_RAW :: byte where "CMD_READ_RAW = 3"
definition CMD_READ_CFG :: byte where "CMD_READ_CFG = 5"
definition CMD_READ_CHIP_TYPE :: byte where "CMD_READ_CHIP_TYPE = 6"
definition MODE_RD_VER :: nat where "MODE_RD_VER = 1"
definition MODE_RD_RAW :: nat where "MODE_RD_RAW = 2"
definition MODE_RD_CFG :: nat where "MODE_RD_CFG = 4"
definition MODE_RD_CHIP_TYPE :: nat where "MODE_RD_CHIP_TYPE = 5"
definition GT811 :: byte where "GT811 = 5"

text \<open>
  What the entry uses besides the controller: the interrupt of the client (how often it is disabled) and whether the caller may give
  kernel addresses to the file system; the files, and whether memory is available and the read succeeds.
\<close>

record 'b gt_upd =
  upd_ts :: "'b goodix_ts_data"
  client_irq_off :: nat
  kernel_ds :: bool

record gt_files =
  gt_file :: "string \<Rightarrow> byte list option"
  gt_vmalloc :: bool
  gt_read_ok :: bool

definition update_file_open :: "gt_files \<Rightarrow> string \<Rightarrow> 'b gt_upd \<Rightarrow> (byte list \<times> bool) option \<times> 'b gt_upd" where
  "update_file_open fs path u =
     (case gt_file fs path of
        None \<Rightarrow> (None, u)
      | Some filedata \<Rightarrow> (Some (filedata, kernel_ds u), u\<lparr>kernel_ds := True\<rparr>))"

definition update_file_close :: "bool \<Rightarrow> 'b gt_upd \<Rightarrow> 'b gt_upd" where
  "update_file_close old_fs u = u\<lparr>kernel_ds := old_fs\<rparr>"

definition update_get_flen :: "gt_files \<Rightarrow> string \<Rightarrow> 'b gt_upd \<Rightarrow> nat \<times> 'b gt_upd" where
  "update_get_flen fs path u =
     (case update_file_open fs path u of
        (None, u1) \<Rightarrow> (0, u1)
      | (Some (filedata, old_fs), u1) \<Rightarrow> (length filedata, update_file_close old_fs u1))"

fun panel_loop :: "'b gt_env \<Rightarrow> nat \<Rightarrow> 'b goodix_ts_data \<Rightarrow> 'b goodix_ts_data" where
  "panel_loop e 0 s = s"
| "panel_loop e (Suc n) s = (case goodix_init_panel e s of (r, s1) \<Rightarrow> if r \<noteq> 0 then panel_loop e n s1 else s1)"

definition update_tp ::
  "'b gt_env \<Rightarrow> gt_files \<Rightarrow> (nat \<Rightarrow> bool) \<Rightarrow> byte list \<Rightarrow> 'b gt_upd \<Rightarrow> (fault + (int \<times> 'b gt_upd)) option" where
  "update_tp e fs err0 cmd u =
     (let update_path = takeWhile (\<lambda>b. b \<noteq> 0) (take 60 (drop 1 cmd)); path = map (\<lambda>b. char_of (unat b)) update_path in
      if length update_path = 60 then Some (Inl BufOverrun)
      else case update_file_open fs path (u\<lparr>client_irq_off := client_irq_off u + 1\<rparr>) of
        (None, u1) \<Rightarrow> Some (Inr (0, u1))
      | (Some (filedata, old_fs), u1) \<Rightarrow>
          (case update_get_flen fs path u1 of (file_len, u2) \<Rightarrow>
             if \<not> gt_vmalloc fs \<or> file_len = 0 then Some (Inr (0, u2))
             else if \<not> gt_read_ok fs then Some (Inr (0, u2))
             else
               let u3 = update_file_close old_fs u2 in
               (case gt811_downloader e err0 filedata (upd_ts u3) of
                  None \<Rightarrow> None
                | Some (Inl f) \<Rightarrow> Some (Inl f)
                | Some (Inr (ret, s1)) \<Rightarrow>
                    if ret < 0 then Some (Inr (0, u3\<lparr>upd_ts := s1\<rparr>))
                    else Some (Inr (1, u3\<lparr>upd_ts := panel_loop e 3 s1, client_irq_off := client_irq_off u3 - 1\<rparr>)))))"

text \<open>\<open>junk\<close> is what the array \<open>cmd\<close> of 120 bytes holds before the copy.\<close>

definition goodix_update_write ::
  "'b gt_env \<Rightarrow> gt_files \<Rightarrow> (nat \<Rightarrow> bool) \<Rightarrow> byte list \<Rightarrow> byte list \<Rightarrow> 'b gt_upd \<Rightarrow> (fault + (int \<times> 'b gt_upd)) option" where
  "goodix_update_write e fs err0 junk buff u =
     (let cmd = fill_buf junk buff; s = upd_ts u in
      if length buff > 120 then Some (Inl BufOverrun)
      else if cmd ! 0 = APK_UPDATE_TP then update_tp e fs err0 cmd u
      else if cmd ! 0 = APK_READ_FUN then
        let m = (if cmd ! 1 = CMD_READ_VER then MODE_RD_VER else if cmd ! 1 = CMD_READ_CFG then MODE_RD_CFG
                 else if cmd ! 1 = CMD_READ_RAW then MODE_RD_RAW else if cmd ! 1 = CMD_READ_CHIP_TYPE then MODE_RD_CHIP_TYPE
                 else read_mode s)
        in Some (Inr (1, u\<lparr>upd_ts := s\<lparr>read_mode := m\<rparr>\<rparr>))
      else if cmd ! 0 = APK_WRITE_CFG then
        let n = unat (cmd ! 1) + 2 in
        if n + 2 > 120 then Some (Inl BufOverrun)
        else
          let s1 = snd (i2c_pre_cmd e s); (ret, s2) = i2c_write_bytes e (drop 2 cmd) n s1; s3 = snd (i2c_end_cmd e s2)
          in Some (Inr (if ret \<noteq> 1 then -1 else 1, u\<lparr>upd_ts := s3\<rparr>))
      else Some (Inr (0, u)))"

text \<open>The wait for raw data: \<open>ints\<close> says in which of the sleeps the interrupt comes.  The result is whether the wait was given up.\<close>

definition raw_request :: "byte list" where "raw_request = [0x07, 0x11, 0x01]"

function raw_wait :: "'b gt_env \<Rightarrow> bool list \<Rightarrow> nat \<Rightarrow> nat \<Rightarrow> 'b goodix_ts_data \<Rightarrow> bool \<times> 'b goodix_ts_data" where
  "raw_wait e ints read_times retry s =
     (if raw_data_ready s = RAW_DATA_READY then (False, s)
      else
        let s1 = (case ints of True # _ \<Rightarrow> goodix_ts_work_func e s | _ \<Rightarrow> s) in
        if read_times > 10 then
          if retry > 5 then (True, s1)
          else raw_wait e (drop 1 ints) 0 (retry + 1) (snd (i2c_write_bytes e raw_request 3 s1))
        else raw_wait e (drop 1 ints) (read_times + 1) retry s1)"
  by pat_completeness auto

termination by (relation "measure (\<lambda>(e, ints, read_times, retry, s). (7 - retry) * 13 + (12 - read_times))") auto

definition raw_read :: "'b gt_env \<Rightarrow> bool list \<Rightarrow> 'b goodix_ts_data \<Rightarrow> int \<times> byte list \<times> 'b goodix_ts_data" where
  "raw_read e ints s0 =
     (let s = (if raw_data_ready s0 \<noteq> RAW_DATA_READY then s0\<lparr>raw_data_ready := RAW_DATA_ACTIVE\<rparr> else s0) in
      case raw_wait e ints 0 0 (snd (i2c_write_bytes e raw_request 3 s)) of
        (timeout, s1) \<Rightarrow>
          if timeout then (-100, [], s1)
          else case i2c_read_bytes e ([0x08, 0x80, 0x01] @ replicate 357 0) 162 (snd (i2c_pre_cmd e s1)) of
            (r, d, s2) \<Rightarrow>
              if r \<le> 0 then (0, [], s2)
              else case i2c_read_bytes e (d[0 := 0x09, 1 := 0xC0]) 162 s2 of
                (r', d', s3) \<Rightarrow>
                  let s4 = snd (i2c_end_cmd e s3); page = take 160 (drop 2 d) in
                  if r' \<le> 0 then (0, page, s4)
                  else (320, page @ take 160 (drop 2 d'), s4\<lparr>raw_data_ready := RAW_DATA_NON_ACTIVE\<rparr>))"

text \<open>The result and what was written to the page.\<close>

definition goodix_update_read :: "'b gt_env \<Rightarrow> bool list \<Rightarrow> 'b goodix_ts_data \<Rightarrow> int \<times> byte list \<times> 'b goodix_ts_data" where
  "goodix_update_read e ints s =
     (if read_mode s = MODE_RD_VER then
        (case goodix_read_version e (snd (i2c_pre_cmd e s)) of
           (ret, s1) \<Rightarrow>
             let s2 = snd (i2c_end_cmd e s1) in
             if ret < 0 then (0, [], s2) else (2, [ucast (drop_bit 8 (gt_version s2)), ucast (gt_version s2)], s2))
      else if read_mode s = MODE_RD_CHIP_TYPE then (1, [GT811], s)
      else if read_mode s = MODE_RD_CFG then
        (case i2c_read_bytes e ([0x06, 0xa2] @ replicate 358 0) 108 (snd (i2c_pre_cmd e s)) of
           (ret, d, s1) \<Rightarrow>
             let s2 = snd (i2c_end_cmd e s1) in
             if ret \<le> 0 then (0, [], s2) else (106, take 106 (drop 2 d), s2))
      else if read_mode s = MODE_RD_RAW then raw_read e ints s
      else (0, [], s))"

section \<open>The firmware arrives in the controller\<close>

text \<open>
  A controller with a memory: what is written is there, apart from the control register of the memory for the firmware, which is
  never busy when it is looked at, and a read gives what the memory holds.
\<close>

definition NVRCS :: u16 where "NVRCS = 0x1201"

definition put :: "u16 \<Rightarrow> byte list \<Rightarrow> (u16 \<Rightarrow> byte) \<Rightarrow> u16 \<Rightarrow> byte" where
  "put a ds f = (\<lambda>x. if unat (x - a) < length ds then ds ! unat (x - a) else f x)"

definition agree :: "(u16 \<Rightarrow> byte) \<Rightarrow> (u16 \<Rightarrow> byte) \<Rightarrow> bool" where
  "agree f g \<longleftrightarrow> (\<forall>a. a \<noteq> NVRCS \<longrightarrow> f a = g a)"

definition memory_chip :: "'b gt_env \<Rightarrow> ('b \<Rightarrow> u16 \<Rightarrow> byte) \<Rightarrow> bool" where
  "memory_chip e mem \<longleftrightarrow>
     (\<forall>q. mem q NVRCS AND BIT_NVRAM_LOCK = 0) \<and>
     (\<forall>q h l ds. \<exists>msgs q'. i2c_transfer (gt_core e) (gt_adapter e) [wr_msg GT811_ADDR (h # l # ds)] q = (1, msgs, q') \<and>
        agree (mem q') (put (bytes16 h l) ds (mem q))) \<and>
     (\<forall>q. \<exists>msgs q'. i2c_transfer (gt_core e) (gt_adapter e) [wr_msg GT811_ADDR []] q = (1, msgs, q') \<and> agree (mem q') (mem q)) \<and>
     (\<forall>q h l old. \<exists>msgs q'. i2c_transfer (gt_core e) (gt_adapter e)
        [wr_msg GT811_ADDR [h, l], \<lparr>addr = GT811_ADDR, flags = I2C_M_RD, len = of_nat (length old), buf = old\<rparr>] q = (2, msgs, q') \<and>
        buf (last msgs) = map (\<lambda>i. mem q (bytes16 h l + of_nat i)) [0..<length old] \<and> agree (mem q') (mem q))"

text \<open>What the memory holds after an operation; the version that the driver knows stays.\<close>

definition chip_now :: "('b \<Rightarrow> u16 \<Rightarrow> byte) \<Rightarrow> 'b goodix_ts_data \<Rightarrow> u16 \<Rightarrow> byte" where
  "chip_now mem s = mem (bus (gt_i2c s))"

definition becomes :: "('b \<Rightarrow> u16 \<Rightarrow> byte) \<Rightarrow> 'b goodix_ts_data \<Rightarrow> (u16 \<Rightarrow> byte) \<Rightarrow> 'b goodix_ts_data \<Rightarrow> bool" where
  "becomes mem s f s' \<longleftrightarrow> agree (chip_now mem s') f \<and> gt_version s' = gt_version s"

lemma agree_refl [simp]: "agree f f"
  by (simp add: agree_def)

lemma agree_trans: "agree f g \<Longrightarrow> agree g h \<Longrightarrow> agree f h"
  by (simp add: agree_def)

lemma agree_put: "agree f g \<Longrightarrow> agree (put a ds f) (put a ds g)"
  by (simp add: agree_def put_def)

lemma becomes_trans: "becomes mem s (chip_now mem s) s1 \<Longrightarrow> becomes mem s1 f s2 \<Longrightarrow> becomes mem s f s2"
  by (simp add: becomes_def)

lemma becomes_keep: "becomes mem s f s1 \<Longrightarrow> becomes mem s1 (chip_now mem s1) s2 \<Longrightarrow> becomes mem s f s2"
  by (auto simp: becomes_def intro: agree_trans)

lemma becomes_at: "becomes mem s f s' \<Longrightarrow> a \<noteq> NVRCS \<Longrightarrow> chip_now mem s' a = f a"
  by (simp add: becomes_def agree_def)

lemma memory_chipD:
  assumes "memory_chip e mem"
  shows "mem q NVRCS AND BIT_NVRAM_LOCK = 0"
    and "\<exists>msgs q'. i2c_transfer (gt_core e) (gt_adapter e) [wr_msg GT811_ADDR (h # l # ds)] q = (1, msgs, q') \<and>
        agree (mem q') (put (bytes16 h l) ds (mem q))"
    and "\<exists>msgs q'. i2c_transfer (gt_core e) (gt_adapter e) [wr_msg GT811_ADDR []] q = (1, msgs, q') \<and> agree (mem q') (mem q)"
    and "\<exists>msgs q'. i2c_transfer (gt_core e) (gt_adapter e)
        [wr_msg GT811_ADDR [h, l], \<lparr>addr = GT811_ADDR, flags = I2C_M_RD, len = of_nat (length old), buf = old\<rparr>] q = (2, msgs, q') \<and>
        buf (last msgs) = map (\<lambda>i. mem q (bytes16 h l + of_nat i)) [0..<length old] \<and> agree (mem q') (mem q)"
  using assms unfolding memory_chip_def by blast+

lemma two_and_more: "2 \<le> n \<Longrightarrow> n \<le> length d \<Longrightarrow> \<exists>h l r m. d = h # l # r \<and> n = Suc (Suc m)"
  by (cases d; cases "tl d"; cases n; cases "n - 1") auto

lemma chip_write:
  assumes "memory_chip e mem" "2 \<le> n" "n \<le> length d"
  obtains s' where "i2c_write_bytes e d n s = (1, s')"
    "becomes mem s (put (bytes16 (d ! 0) (d ! 1)) (take (n - 2) (drop 2 d)) (chip_now mem s)) s'"
proof -
  obtain h l r m where d: "d = h # l # r" and n: "n = Suc (Suc m)" using two_and_more [OF assms(2,3)] by blast
  obtain msgs q' where "i2c_transfer (gt_core e) (gt_adapter e) [wr_msg GT811_ADDR (h # l # take m r)] (bus (gt_i2c s)) = (1, msgs, q')"
    "agree (mem q') (put (bytes16 h l) (take m r) (mem (bus (gt_i2c s))))"
    using memory_chipD(2) [OF assms(1)] by blast
  then show thesis
    by (intro that [of "s\<lparr>gt_i2c := (gt_i2c s)\<lparr>bus := q'\<rparr>\<rparr>"]) (simp_all add: i2c_write_bytes_def d n becomes_def chip_now_def)
qed

lemma chip_ping:
  assumes "memory_chip e mem"
  obtains s' where "i2c_write_bytes e d 0 s = (1, s')" "becomes mem s (chip_now mem s) s'"
proof -
  obtain msgs q' where "i2c_transfer (gt_core e) (gt_adapter e) [wr_msg GT811_ADDR []] (bus (gt_i2c s)) = (1, msgs, q')"
    "agree (mem q') (mem (bus (gt_i2c s)))"
    using memory_chipD(3) [OF assms] by blast
  then show thesis
    by (intro that [of "s\<lparr>gt_i2c := (gt_i2c s)\<lparr>bus := q'\<rparr>\<rparr>"]) (simp_all add: i2c_write_bytes_def becomes_def chip_now_def)
qed

lemma chip_read:
  assumes "memory_chip e mem" "2 \<le> n" "n \<le> length d"
  obtains s' where "i2c_read_bytes e d n s =
      (2, take 2 d @ map (\<lambda>i. chip_now mem s (bytes16 (d ! 0) (d ! 1) + of_nat i)) [0..<n - 2] @ drop n d, s')"
    "becomes mem s (chip_now mem s) s'"
proof -
  obtain h l r m where d: "d = h # l # r" and n: "n = Suc (Suc m)" using two_and_more [OF assms(2,3)] by blast
  have m: "min (length r) m = m" using assms(3) d n by simp
  obtain msgs q' where "i2c_transfer (gt_core e) (gt_adapter e)
        [wr_msg GT811_ADDR [h, l], \<lparr>addr = GT811_ADDR, flags = I2C_M_RD, len = of_nat (length (take m r)), buf = take m r\<rparr>] (bus (gt_i2c s)) = (2, msgs, q')"
    "buf (last msgs) = map (\<lambda>i. mem (bus (gt_i2c s)) (bytes16 h l + of_nat i)) [0..<length (take m r)]"
    "agree (mem q') (mem (bus (gt_i2c s)))"
    using memory_chipD(4) [OF assms(1)] by blast
  then show thesis
    by (intro that [of "s\<lparr>gt_i2c := (gt_i2c s)\<lparr>bus := q'\<rparr>\<rparr>"])
      (simp_all add: i2c_read_bytes_def d n m becomes_def chip_now_def fill_buf_full Let_def)
qed

lemma address_bytes: "bytes16 (addr_high a) (addr_low a) = a"
proof -
  have ff: "(0xff :: u16) = mask 8" by (simp add: mask_eq_exp_minus_1)
  have "push_bit 8 (ucast (addr_high a)) AND ucast (addr_low a) = (0 :: u16)"
    by (rule bit_word_eqI) (auto simp: bit_simps addr_low_def ff bit_mask_iff)
  then have "bytes16 (addr_high a) (addr_low a) = push_bit 8 (ucast (addr_high a)) OR ucast (addr_low a)"
    unfolding bytes16_def by (simp add: disjunctive_add_eq_or)
  also have "\<dots> = a"
    by (rule bit_word_eqI) (auto simp: bit_simps addr_high_def addr_low_def ff bit_mask_iff)
  finally show ?thesis .
qed

lemma is_equal_refl: "is_equal xs ys n = 1" if "n \<le> length xs" "take n xs = take n ys"
  using that
proof (induction xs ys n rule: is_equal.induct)
  case (2 x src y dst n)
  then show ?case by simp
qed auto

text \<open>The addresses of the firmware.\<close>

lemma fw_addr: "j < 0xEF0 \<Longrightarrow> unat (NVRAM_UPDATE_START_ADDR + of_nat j) = 0x4100 + j"
  by (simp add: NVRAM_UPDATE_START_ADDR_def unat_word_ariths unat_of_nat)

lemma fw_addr_free: "j < 0xEF0 \<Longrightarrow> NVRAM_UPDATE_START_ADDR + of_nat j \<noteq> NVRCS"
  using fw_addr [of j] by (auto simp: NVRCS_def)

lemma fw_put:
  assumes "j < 0xEF0" "k \<le> 0xEF0" "length ds \<le> 64"
  shows "put (NVRAM_UPDATE_START_ADDR + of_nat k) ds f (NVRAM_UPDATE_START_ADDR + of_nat j) =
    (if k \<le> j \<and> j < k + length ds then ds ! (j - k) else f (NVRAM_UPDATE_START_ADDR + of_nat j))"
proof (cases "k \<le> j")
  case True
  then have "NVRAM_UPDATE_START_ADDR + of_nat j - (NVRAM_UPDATE_START_ADDR + of_nat k) = (of_nat (j - k) :: u16)" by (simp add: of_nat_diff)
  moreover have "unat (of_nat (j - k) :: u16) = j - k" using assms by (simp add: unat_of_nat)
  ultimately show ?thesis using True by (auto simp: put_def)
next
  case False
  have "unat (of_nat j - of_nat k :: u16) = 2 ^ 16 + j - k" using assms False
    by (simp add: unat_sub_if' unat_of_nat)
  moreover have "NVRAM_UPDATE_START_ADDR + of_nat j - (NVRAM_UPDATE_START_ADDR + of_nat k) = (of_nat j - of_nat k :: u16)" by simp
  ultimately show ?thesis using assms False by (auto simp: put_def)
qed

text \<open>One frame.\<close>

definition addressed :: "u16 \<Rightarrow> byte list \<Rightarrow> bool" where
  "addressed a chk \<longleftrightarrow> length chk = PACK_SIZE + 2 \<and> chk ! 0 = addr_high a \<and> chk ! 1 = addr_low a"

lemma frame_read_back:
  assumes "memory_chip e mem" "addressed a chk" "length block \<le> PACK_SIZE"
    and "\<And>i. i < length block \<Longrightarrow> chip_now mem s (a + of_nat i) = block ! i"
  obtains chk' s' where "i2c_read_bytes e chk (length block + 2) s = (2, chk', s')" "becomes mem s (chip_now mem s) s'"
    "length chk' = PACK_SIZE + 2" "is_equal block (drop 2 chk') (length block) = 1"
proof -
  let ?new = "map (\<lambda>i. chip_now mem s (a + of_nat i)) [0..<length block]"
  have a: "bytes16 (chk ! 0) (chk ! 1) = a" using assms(2) by (simp add: addressed_def address_bytes)
  obtain s' where s': "i2c_read_bytes e chk (length block + 2) s = (2, take 2 chk @ ?new @ drop (length block + 2) chk, s')"
    "becomes mem s (chip_now mem s) s'"
    using chip_read [OF assms(1), of "length block + 2" chk s] assms(2,3) unfolding a by (auto simp: addressed_def)
  have eq: "?new = block" using assms(4) by (auto intro: nth_equalityI)
  have "is_equal block (drop 2 (take 2 chk @ ?new @ drop (length block + 2) chk)) (length block) = 1"
    unfolding eq using assms(2) by (intro is_equal_refl) (simp_all add: addressed_def)
  then show thesis using that [OF s'] assms(2,3) by (simp add: addressed_def)
qed

lemma write_frame_ok:
  assumes "memory_chip e mem" "addressed a chk" "length block \<le> PACK_SIZE"
    and "\<And>i. i < length block \<Longrightarrow> a + of_nat i \<noteq> NVRCS"
  obtains chk' s' where "write_frame e ([addr_high a, addr_low a] @ block) (length block) 5 chk s = (False, chk', s')"
    "becomes mem s (put a block (chip_now mem s)) s'" "length chk' = PACK_SIZE + 2"
proof -
  obtain s1 where s1: "i2c_write_bytes e ([addr_high a, addr_low a] @ block) (length block + 2) s = (1, s1)"
    "becomes mem s (put a block (chip_now mem s)) s1"
    using chip_write [OF assms(1), of "length block + 2" "[addr_high a, addr_low a] @ block" s] by (auto simp: address_bytes)
  have "chip_now mem s1 (a + of_nat i) = block ! i" if "i < length block" for i
  proof -
    have "unat (of_nat i :: u16) = i" using that assms(3) by (simp add: PACK_SIZE_def unat_of_nat)
    then show ?thesis using becomes_at [OF s1(2) assms(4) [OF that]] that by (simp add: put_def)
  qed
  from frame_read_back [OF assms(1-3) this] obtain chk' s2 where
    r: "i2c_read_bytes e chk (length block + 2) s1 = (2, chk', s2)" "becomes mem s1 (chip_now mem s1) s2"
    "length chk' = PACK_SIZE + 2" "is_equal block (drop 2 chk') (length block) = 1" by blast
  have "write_frame e ([addr_high a, addr_low a] @ block) (length block) 5 chk s = (False, chk', s2)"
    using s1(1) r(1,4) by (simp add: eval_nat_numeral)
  then show thesis using that becomes_keep [OF s1(2) r(2)] r(3) by blast
qed

lemma verify_frame_ok:
  assumes "memory_chip e mem" "addressed a chk" "length block \<le> PACK_SIZE"
    and "\<And>i. i < length block \<Longrightarrow> chip_now mem s (a + of_nat i) = block ! i"
  obtains chk' s' where "verify_frame e block (length block) 5 chk s = (False, chk', s')"
    "becomes mem s (chip_now mem s) s'" "length chk' = PACK_SIZE + 2"
proof -
  obtain chk' s' where r: "i2c_read_bytes e chk (length block + 2) s = (2, chk', s')" "becomes mem s (chip_now mem s) s'"
    "length chk' = PACK_SIZE + 2" "is_equal block (drop 2 chk') (length block) = 1"
    using frame_read_back [OF assms] by blast
  then show thesis by (intro that) (simp_all add: eval_nat_numeral)
qed

text \<open>All frames.\<close>

lemma frame_bounds:
  assumes "k < (flen + PACK_SIZE - 1) div PACK_SIZE"
  shows "k * PACK_SIZE + frame_len flen ((flen + PACK_SIZE - 1) div PACK_SIZE) k = min flen (Suc k * PACK_SIZE)"
    and "frame_len flen ((flen + PACK_SIZE - 1) div PACK_SIZE) k \<le> PACK_SIZE" "k * PACK_SIZE < flen"
  using assms unfolding frame_len_def PACK_SIZE_def by auto

lemma all_frames: "flen \<le> ((flen + PACK_SIZE - 1) div PACK_SIZE) * PACK_SIZE"
  unfolding PACK_SIZE_def by linarith

definition written :: "('b \<Rightarrow> u16 \<Rightarrow> byte) \<Rightarrow> byte list \<Rightarrow> nat \<Rightarrow> 'b goodix_ts_data \<Rightarrow> bool" where
  "written mem nvram n s \<longleftrightarrow> (\<forall>j<n. chip_now mem s (NVRAM_UPDATE_START_ADDR + of_nat j) = nvram ! j)"

lemma written_stays: "written mem nvram n s \<Longrightarrow> n \<le> 0xEF0 \<Longrightarrow> becomes mem s (chip_now mem s) s' \<Longrightarrow> written mem nvram n s'"
  by (simp add: written_def becomes_at fw_addr_free)

lemma write_frames_ok:
  assumes "memory_chip e mem" "flen \<le> 0xEF0" "flen \<le> length nvram" "tot = (flen + PACK_SIZE - 1) div PACK_SIZE"
  shows "n \<le> tot \<Longrightarrow> (err \<longrightarrow> n > 0) \<Longrightarrow> length chk = PACK_SIZE + 2 \<Longrightarrow> written mem nvram (min flen ((tot - n) * PACK_SIZE)) s \<Longrightarrow>
    \<exists>chk' s'. write_frames e nvram NVRAM_UPDATE_START_ADDR flen tot n err chk s = Inr (False, chk', s') \<and>
      length chk' = PACK_SIZE + 2 \<and> gt_version s' = gt_version s \<and> written mem nvram flen s'"
proof (induction n arbitrary: err chk s)
  case 0
  then show ?case using all_frames [of flen] by (simp add: assms(4) min_absorb1)
next
  case (Suc n)
  define k where "k = tot - Suc n"
  have k: "k < tot" "tot - n = Suc k" using Suc.prems(1) by (simp_all add: k_def)
  note fb = frame_bounds [of k flen, folded assms(4), OF k(1)]
  define m where "m = frame_len flen tot k"
  define block where "block = take m (drop (k * PACK_SIZE) nvram)"
  define a where "a = NVRAM_UPDATE_START_ADDR + (of_nat (k * PACK_SIZE) :: u16)"
  have m: "m \<le> PACK_SIZE" "k * PACK_SIZE + m \<le> flen" "length block = m" using fb assms(3) by (simp_all add: m_def block_def)
  have ad: "addressed a (chk[0 := addr_high a, 1 := addr_low a])" using Suc.prems(3) by (simp add: addressed_def PACK_SIZE_def)
  have "a + of_nat i \<noteq> NVRCS" if "i < length block" for i
    using fw_addr_free [of "k * PACK_SIZE + i"] that m assms(2) by (simp add: a_def add.assoc)
  from write_frame_ok [OF assms(1) ad _ this, where s = s] m(1,3) obtain chk1 s1 where
    w: "write_frame e ([addr_high a, addr_low a] @ block) m 5 (chk[0 := addr_high a, 1 := addr_low a]) s = (False, chk1, s1)"
    "becomes mem s (put a block (chip_now mem s)) s1" "length chk1 = PACK_SIZE + 2" by metis
  have wr: "written mem nvram (min flen ((tot - n) * PACK_SIZE)) s1" unfolding written_def
  proof (intro allI impI)
    fix j assume j: "j < min flen ((tot - n) * PACK_SIZE)"
    then have j': "j < k * PACK_SIZE + m" "j < 0xEF0" using fb(1) k(2) assms(2) by (simp_all add: m_def)
    have "chip_now mem s1 (NVRAM_UPDATE_START_ADDR + of_nat j) = put a block (chip_now mem s) (NVRAM_UPDATE_START_ADDR + of_nat j)"
      using becomes_at [OF w(2) fw_addr_free [OF j'(2)]] .
    also have "\<dots> = nvram ! j"
      using fw_put [of j "k * PACK_SIZE" block "chip_now mem s"] j' m assms(2,3) Suc.prems(4) fb(3)
      unfolding a_def by (simp add: written_def k_def [symmetric] block_def PACK_SIZE_def)
    finally show "chip_now mem s1 (NVRAM_UPDATE_START_ADDR + of_nat j) = nvram ! j" .
  qed
  obtain chk' s' where r: "write_frames e nvram NVRAM_UPDATE_START_ADDR flen tot n False chk1 s1 = Inr (False, chk', s')"
    "length chk' = PACK_SIZE + 2" "gt_version s' = gt_version s1" "written mem nvram flen s'"
    using Suc.IH [of False chk1 s1] Suc.prems(1) w(3) wr by auto
  have nb: "nvram_block nvram (k * PACK_SIZE) m = Inr block" using m assms(3) by (simp add: nvram_block_def block_def)
  have "write_frames e nvram NVRAM_UPDATE_START_ADDR flen tot (Suc n) err chk s = Inr (False, chk', s')"
    using w(1) r(1) by (simp only: write_frames.simps Let_def k_def [symmetric] m_def [symmetric] a_def [symmetric] nb bindE_simps prod.case if_False)
  then show ?case using r w(2) by (auto simp: becomes_def)
qed

lemma verify_frames_ok:
  assumes "memory_chip e mem" "flen \<le> 0xEF0" "flen \<le> length nvram" "tot = (flen + PACK_SIZE - 1) div PACK_SIZE"
  shows "n \<le> tot \<Longrightarrow> length chk = PACK_SIZE + 2 \<Longrightarrow> written mem nvram flen s \<Longrightarrow>
    \<exists>chk' s'. verify_frames e nvram flen tot n False chk s = Inr (False, chk', s') \<and> gt_version s' = gt_version s \<and> written mem nvram flen s'"
proof (induction n arbitrary: chk s)
  case (Suc n)
  define k where "k = tot - Suc n"
  have k: "k < tot" using Suc.prems(1) by (simp add: k_def)
  note fb = frame_bounds [of k flen, folded assms(4), OF k]
  define m where "m = frame_len flen tot k"
  define block where "block = take m (drop (k * PACK_SIZE) nvram)"
  define a where "a = NVRAM_UPDATE_START_ADDR + (of_nat (k * PACK_SIZE) :: u16)"
  have m: "m \<le> PACK_SIZE" "k * PACK_SIZE + m \<le> flen" "length block = m" using fb assms(3) by (simp_all add: m_def block_def)
  have ad: "addressed a (chk[0 := addr_high a, 1 := addr_low a])" using Suc.prems(2) by (simp add: addressed_def PACK_SIZE_def)
  have "chip_now mem s (a + of_nat i) = block ! i" if "i < length block" for i
  proof -
    have "chip_now mem s (NVRAM_UPDATE_START_ADDR + of_nat (k * PACK_SIZE + i)) = nvram ! (k * PACK_SIZE + i)"
      using Suc.prems(3) that m unfolding written_def by (metis add_less_cancel_left less_le_trans)
    then show ?thesis using that m assms(3) by (simp add: a_def block_def add.assoc)
  qed
  from verify_frame_ok [OF assms(1) ad _ this] m(1,3) obtain chk1 s1 where
    v: "verify_frame e block m 5 (chk[0 := addr_high a, 1 := addr_low a]) s = (False, chk1, s1)"
    "becomes mem s (chip_now mem s) s1" "length chk1 = PACK_SIZE + 2" by metis
  obtain chk' s' where r: "verify_frames e nvram flen tot n False chk1 s1 = Inr (False, chk', s')"
    "gt_version s' = gt_version s1" "written mem nvram flen s'"
    using Suc.IH [of chk1 s1] Suc.prems(1) v(3) written_stays [OF Suc.prems(3) assms(2) v(2)] by auto
  have nb: "nvram_block nvram (k * PACK_SIZE) m = Inr block" using m assms(3) by (simp add: nvram_block_def block_def)
  have "verify_frames e nvram flen tot (Suc n) False chk s = Inr (False, chk', s')"
    using v(1) r(1) by (simp only: verify_frames.simps Let_def k_def [symmetric] m_def [symmetric] a_def [symmetric] nb bindE_simps prod.case if_False)
  then show ?case using r v(2) by (auto simp: becomes_def)
qed simp


lemma store_loop_ok:
  assumes "memory_chip e mem"
  shows "n > 0 \<or> ret = 1 \<Longrightarrow> \<exists>s'. store_loop e n ret [REG_NVRCS_H, REG_NVRCS_L, v] s = (1, s') \<and> becomes mem s (chip_now mem s) s'"
proof (induction n arbitrary: ret s)
  case 0
  then show ?case by (simp add: becomes_def)
next
  case (Suc n)
  have reg: "bytes16 REG_NVRCS_H REG_NVRCS_L = NVRCS" by (simp add: bytes16_def REG_NVRCS_H_def REG_NVRCS_L_def NVRCS_def)
  obtain s1 where s1: "i2c_write_bytes e [REG_NVRCS_H, REG_NVRCS_L, v] 3 s = (1, s1)" "becomes mem s (put NVRCS [v] (chip_now mem s)) s1"
    using chip_write [OF assms, of 3 "[REG_NVRCS_H, REG_NVRCS_L, v]" s] by (auto simp: reg)
  have "agree (put NVRCS [v] f) f" for f
    by (auto simp: agree_def put_def unat_eq_0)
  with s1(2) have keep: "becomes mem s (chip_now mem s) s1" by (auto simp: becomes_def intro: agree_trans)
  obtain s' where "store_loop e n 1 [REG_NVRCS_H, REG_NVRCS_L, v] s1 = (1, s')" "becomes mem s1 (chip_now mem s1) s'"
    using Suc.IH [of 1 s1] by auto
  then show ?case using s1(1) becomes_keep [OF keep] by auto
qed

lemma register_free:
  assumes "memory_chip e mem"
  obtains v s' where "i2c_read_bytes e [REG_NVRCS_H, REG_NVRCS_L, 0] 3 s = (2, [REG_NVRCS_H, REG_NVRCS_L, v], s')"
    "v AND BIT_NVRAM_LOCK \<noteq> BIT_NVRAM_LOCK" "becomes mem s (chip_now mem s) s'"
proof -
  have reg: "bytes16 REG_NVRCS_H REG_NVRCS_L = NVRCS" by (simp add: bytes16_def REG_NVRCS_H_def REG_NVRCS_L_def NVRCS_def)
  have "chip_now mem s NVRCS AND BIT_NVRAM_LOCK \<noteq> BIT_NVRAM_LOCK"
    using memory_chipD(1) [OF assms] by (simp add: chip_now_def BIT_NVRAM_LOCK_def)
  then show thesis
    using chip_read [OF assms, of 3 "[REG_NVRCS_H, REG_NVRCS_L, 0]" s] that by (auto simp: reg eval_nat_numeral)
qed

lemma nvram_store_ok:
  assumes "memory_chip e mem"
  obtains s' where "gt811_nvram_store e s = (1, s')" "becomes mem s (chip_now mem s) s'"
proof -
  obtain v s1 where r: "i2c_read_bytes e [REG_NVRCS_H, REG_NVRCS_L, 0] 3 s = (2, [REG_NVRCS_H, REG_NVRCS_L, v], s1)"
    "v AND BIT_NVRAM_LOCK \<noteq> BIT_NVRAM_LOCK" "becomes mem s (chip_now mem s) s1" by (rule register_free [OF assms])
  obtain s' where l: "store_loop e 300 2 [REG_NVRCS_H, REG_NVRCS_L, push_bit BIT_NVRAM_STROE 1] s1 = (1, s')"
    "becomes mem s1 (chip_now mem s1) s'" using store_loop_ok [OF assms, of 300 2 "push_bit BIT_NVRAM_STROE 1" s1] by fastforce
  have "gt811_nvram_store e s = (1, s')" unfolding gt811_nvram_store_def using r(1,2) l(1) by simp
  then show thesis using that becomes_keep [OF r(3) l(2)] by blast
qed

lemma nvram_recall_ok:
  assumes "memory_chip e mem"
  obtains s' where "gt811_nvram_recall e s = (1, s')" "becomes mem s (chip_now mem s) s'"
proof -
  obtain v s1 where r: "i2c_read_bytes e [REG_NVRCS_H, REG_NVRCS_L, 0] 3 s = (2, [REG_NVRCS_H, REG_NVRCS_L, v], s1)"
    "v AND BIT_NVRAM_LOCK \<noteq> BIT_NVRAM_LOCK" "becomes mem s (chip_now mem s) s1" by (rule register_free [OF assms])
  obtain s' where l: "store_loop e (Suc 0) 2 [REG_NVRCS_H, REG_NVRCS_L, push_bit BIT_NVRAM_RECALL 1] s1 = (1, s')"
    "becomes mem s1 (chip_now mem s1) s'" using store_loop_ok [OF assms, of "Suc 0" 2 "push_bit BIT_NVRAM_RECALL 1" s1] by blast
  obtain w s2 where w: "i2c_write_bytes e [REG_NVRCS_H, REG_NVRCS_L, push_bit BIT_NVRAM_RECALL 1] 3 s1 = (w, s2)" by fastforce
  then have "w = 1" "s2 = s'" using l(1) by (auto split: if_splits)
  then have "gt811_nvram_recall e s = (1, s')" unfolding gt811_nvram_recall_def using r(1,2) w by simp
  then show thesis using that becomes_keep [OF r(3) l(2)] by blast
qed

lemma update_firmware_ok:
  assumes "memory_chip e mem" "0 < unat fw_length" "unat fw_length \<le> 0xEF0" "unat fw_length \<le> length nvram"
  obtains s' where "gt811_update_firmware e err0 nvram NVRAM_UPDATE_START_ADDR fw_length s = Inr (1, s')"
    "gt_version s' = gt_version s" "written mem nvram (unat fw_length) s'"
proof -
  define tot where "tot = (unat fw_length + PACK_SIZE - 1) div PACK_SIZE"
  have pos: "tot > 0" using assms(2) by (simp add: tot_def PACK_SIZE_def div_greater_zero_iff)
  obtain chk s1 where w: "write_frames e nvram NVRAM_UPDATE_START_ADDR (unat fw_length) tot tot err0 (replicate (PACK_SIZE + 2) 0) s =
      Inr (False, chk, s1)" "length chk = PACK_SIZE + 2" "gt_version s1 = gt_version s" "written mem nvram (unat fw_length) s1"
    using write_frames_ok [OF assms(1,3,4) tot_def, of tot err0 "replicate (PACK_SIZE + 2) 0" s] pos by (auto simp: written_def)
  obtain s2 where st: "gt811_nvram_store e s1 = (1, s2)" "becomes mem s1 (chip_now mem s1) s2" by (rule nvram_store_ok [OF assms(1)])
  obtain s3 where re: "gt811_nvram_recall e s2 = (1, s3)" "becomes mem s2 (chip_now mem s2) s3" by (rule nvram_recall_ok [OF assms(1)])
  have s3: "written mem nvram (unat fw_length) s3" "gt_version s3 = gt_version s"
    using written_stays [OF written_stays [OF w(4) assms(3) st(2)] assms(3) re(2)] st(2) re(2) w(3) by (simp_all add: becomes_def)
  obtain chk' s4 where v: "verify_frames e nvram (unat fw_length) tot tot False chk s3 = Inr (False, chk', s4)"
    "gt_version s4 = gt_version s3" "written mem nvram (unat fw_length) s4"
    using verify_frames_ok [OF assms(1,3,4) tot_def order_refl w(2) s3(1)] by auto
  have "gt811_update_firmware e err0 nvram NVRAM_UPDATE_START_ADDR fw_length s = Inr (1, s4)"
    unfolding gt811_update_firmware_def Let_def tot_def [symmetric] w(1) using assms(3) st(1) re(1) v(1)
    by (simp add: NVRAM_LEN_def NVRAM_BOOT_SECTOR_LEN_def)
  then show thesis using that v(2,3) s3(2) by simp
qed

lemma transfers_version [simp]:
  "gt_version (snd (i2c_write_bytes e d n s)) = gt_version s" "gt_version (snd (snd (i2c_read_bytes e d n s))) = gt_version s"
  by (auto simp: i2c_read_bytes_def i2c_write_bytes_def Let_def split: prod.splits)

lemma reset_version: "gt_version (snd (reset_loop e n ret d s)) = gt_version s"
proof (induction n arbitrary: ret d s)
  case (Suc n)
  obtain r s1 where w: "i2c_write_bytes e d 0 s = (r, s1)" by fastforce
  obtain r2 d2 s2 where rd: "i2c_read_bytes e d 3 s1 = (r2, d2, s2)" by (metis prod_cases3)
  have "gt_version s1 = gt_version s" "gt_version s2 = gt_version s1"
    using transfers_version(1) [of e d 0 s] transfers_version(2) [of e d 3 s1] by (simp_all add: w rd)
  then show ?case using Suc.IH by (simp add: w rd)
qed simp

text \<open>Reads of one register, and of the two of the version.\<close>

lemma register_reads:
  assumes "memory_chip e mem"
  shows "\<exists>s'. i2c_read_bytes e [h, l, x] 3 s = (2, [h, l, chip_now mem s (bytes16 h l)], s') \<and> becomes mem s (chip_now mem s) s'"
    and "\<exists>s'. i2c_read_bytes e [h, l, x, y] 3 s = (2, [h, l, chip_now mem s (bytes16 h l), y], s') \<and> becomes mem s (chip_now mem s) s'"
    and "\<exists>s'. i2c_read_bytes e [h, l, x, y, z] 4 s =
      (2, [h, l, chip_now mem s (bytes16 h l), chip_now mem s (bytes16 h l + 1), z], s') \<and> becomes mem s (chip_now mem s) s'"
proof -
  have up: "[0..<2] = [0, Suc 0]" by (simp add: upt_rec)
  show "\<exists>s'. i2c_read_bytes e [h, l, x] 3 s = (2, [h, l, chip_now mem s (bytes16 h l)], s') \<and> becomes mem s (chip_now mem s) s'"
    by (rule chip_read [OF assms, of 3 "[h, l, x]" s]) (auto simp: up)
  show "\<exists>s'. i2c_read_bytes e [h, l, x, y] 3 s = (2, [h, l, chip_now mem s (bytes16 h l), y], s') \<and> becomes mem s (chip_now mem s) s'"
    by (rule chip_read [OF assms, of 3 "[h, l, x, y]" s]) (auto simp: up)
  show "\<exists>s'. i2c_read_bytes e [h, l, x, y, z] 4 s =
      (2, [h, l, chip_now mem s (bytes16 h l), chip_now mem s (bytes16 h l + 1), z], s') \<and> becomes mem s (chip_now mem s) s'"
    by (rule chip_read [OF assms, of 4 "[h, l, x, y, z]" s]) (auto simp: up)
qed

lemma register_number: "bytes16 0x40 0x11 = 0x4011" "bytes16 0xFB 0xED = 0xFBED" "bytes16 0x07 0x17 = 0x717" "bytes16 0x14 0x00 = 0x1400"
  by (simp_all add: bytes16_def)

lemma address_ok:
  assumes "memory_chip e mem"
  obtains s' where "gt811_set_address_2 e s = (1, s')" "becomes mem s (chip_now mem s) s'"
  using register_reads(1) [OF assms, where h = 0 and l = 0 and x = 0 and s = s] by (auto simp: gt811_set_address_2_def eval_nat_numeral)

lemma reset2_ok:
  assumes "memory_chip e mem"
  obtains s' where "gt811_reset2 e s = (2, s')" "becomes mem s (chip_now mem s) s'"
proof -
  obtain s1 where s1: "i2c_write_bytes e [0, 0xff, 0] 0 s = (1, s1)" "becomes mem s (chip_now mem s) s1"
    by (rule chip_ping [OF assms])
  obtain d s2 where s2: "i2c_read_bytes e [0, 0xff, 0] 3 s1 = (2, d, s2)" "becomes mem s1 (chip_now mem s1) s2"
    using register_reads(1) [OF assms, where h = 0 and l = "0xff" and x = 0 and s = s1] by blast
  have "gt811_reset2 e s = (2, s2)" using s1(1) s2(1) by (simp add: gt811_reset2_def eval_nat_numeral)
  then show thesis using that becomes_keep [OF s1(2) s2(2)] by blast
qed

text \<open>On such a controller the version is read at once.\<close>

definition version_bytes :: "(u16 \<Rightarrow> byte) \<Rightarrow> byte list" where
  "version_bytes f = [0x07, 0x17, f 0x717, f 0x718, 0]"

lemma read_version_bytes:
  assumes "memory_chip e mem"
  obtains s' where "i2c_read_bytes e [0x07, 0x17, x, y, 0] 4 s = (2, version_bytes (chip_now mem s), s')"
    "becomes mem s (chip_now mem s) s'"
  using register_reads(3) [OF assms, where h = "0x07" and l = "0x17" and x = x and y = y and z = 0 and s = s] by (auto simp: version_bytes_def register_number)

lemma same_version: "becomes mem s (chip_now mem s) s' \<Longrightarrow> version_bytes (chip_now mem s') = version_bytes (chip_now mem s)"
  by (auto simp: version_bytes_def becomes_def agree_def NVRCS_def)

lemma version_loop_ok:
  assumes "memory_chip e mem"
  shows "d = version_bytes (chip_now mem s) \<Longrightarrow>
    \<exists>s'. version_loop e n d [0x07, 0x17, x, y, 0] s = (True, d, s') \<and> becomes mem s (chip_now mem s) s'"
proof (induction n arbitrary: s x y)
  case 0
  then show ?case by (simp add: becomes_def)
next
  case (Suc n)
  obtain s1 where s1: "i2c_read_bytes e [0x07, 0x17, x, y, 0] 4 s = (2, version_bytes (chip_now mem s), s1)"
    "becomes mem s (chip_now mem s) s1" by (rule read_version_bytes [OF assms])
  obtain s' where "version_loop e n d (version_bytes (chip_now mem s)) s1 = (True, d, s')" "becomes mem s1 (chip_now mem s1) s'"
    using Suc.IH [of s1 "chip_now mem s 0x717" "chip_now mem s 0x718"] same_version [OF s1(2)] Suc.prems
    by (auto simp: version_bytes_def)
  then show ?case using s1(1) becomes_keep [OF s1(2)] Suc.prems by auto
qed

lemma read_version_ok:
  assumes "memory_chip e mem"
  obtains s' where "goodix_read_version e s = (0, s')" "agree (chip_now mem s') (chip_now mem s)"
proof -
  obtain s1 where s1: "i2c_read_bytes e [0x07, 0x17, 0, 0, 0] 4 s = (2, version_bytes (chip_now mem s), s1)"
    "becomes mem s (chip_now mem s) s1" by (rule read_version_bytes [OF assms])
  define d where "d = version_bytes (chip_now mem s)"
  obtain s2 where s2: "version_loop e 10 d [0x07, 0x17, 0, 0, 0] s1 = (True, d, s2)" "becomes mem s1 (chip_now mem s1) s2"
    using version_loop_ok [OF assms, of d s1 10 0 0] same_version [OF s1(2)] by (auto simp: d_def)
  have "goodix_read_version e s = (0, s2\<lparr>gt_version := push_bit 8 (ucast (d ! 2)) + ucast (d ! 3)\<rparr>)"
    using s1(1) s2(1) by (simp add: goodix_read_version_def d_def [symmetric])
  moreover have "agree (chip_now mem s2) (chip_now mem s)"
    using becomes_keep [OF s1(2) s2(2)] by (simp add: becomes_def)
  ultimately show thesis using that by (simp add: chip_now_def)
qed

lemma version_until_ok:
  assumes "memory_chip e mem"
  obtains s' where "version_until e s = Some s'" "agree (chip_now mem s') (chip_now mem s)"
proof -
  obtain s' where "goodix_read_version e s = (0, s')" "agree (chip_now mem s') (chip_now mem s)" by (rule read_version_ok [OF assms])
  then show thesis using that by (subst (asm) version_until.simps) simp
qed

lemma written_agree: "written mem nvram n s \<Longrightarrow> n \<le> 0xEF0 \<Longrightarrow> agree (chip_now mem s') (chip_now mem s) \<Longrightarrow> written mem nvram n s'"
  by (simp add: written_def agree_def fw_addr_free)

lemma update_proc_ok:
  assumes "memory_chip e mem" "0 < unat fw_length" "unat fw_length \<le> 0xEF0" "unat fw_length \<le> length nvram"
  obtains s' where "gt811_update_proc e err0 nvram NVRAM_UPDATE_START_ADDR fw_length s = Some (Inr (1, s'))"
    "written mem nvram (unat fw_length) s'"
proof -
  define s1 where "s1 = snd (gt811_reset e s)"
  obtain s2 where s2: "gt811_set_address_2 e s1 = (1, s2)" by (rule address_ok [OF assms(1)])
  obtain s3 where s3: "gt811_update_firmware e err0 nvram NVRAM_UPDATE_START_ADDR fw_length s2 = Inr (1, s3)"
    "written mem nvram (unat fw_length) s3" by (rule update_firmware_ok [OF assms])
  obtain s4 where s4: "gt811_reset2 e s3 = (2, s4)" "becomes mem s3 (chip_now mem s3) s4" by (rule reset2_ok [OF assms(1)])
  obtain s5 where s5: "version_until e s4 = Some s5" "agree (chip_now mem s5) (chip_now mem s4)" by (rule version_until_ok [OF assms(1)])
  have "gt811_update_proc e err0 nvram NVRAM_UPDATE_START_ADDR fw_length s = Some (Inr (1, s5))"
    by (simp add: gt811_update_proc_def s1_def [symmetric] s2 s3(1) s4(1) s5(1) Let_def)
  then show thesis
    using that written_agree [OF written_stays [OF s3(2) assms(3) s4(2)] assms(3) s5(2)] by blast
qed

text \<open>What the loader asks the controller before it decides.\<close>

lemma downloader_asks:
  assumes "memory_chip e mem"
  obtains s' where "gt811_downloader e err0 data s = downloader_decide e err0 (chip_now mem s 0x4011) (chip_now mem s 0xFBED) data s'"
    "becomes mem s (put 0x1400 [0x80] (chip_now mem s)) s'"
proof -
  obtain s1 where s1: "i2c_write_bytes e [0x14, 0x00, 0x80, 0] 3 s = (1, s1)" "becomes mem s (put 0x1400 [0x80] (chip_now mem s)) s1"
    by (rule chip_write [OF assms, of 3 "[0x14, 0x00, 0x80, 0]" s]) (simp_all add: register_number)
  obtain s2 where s2: "i2c_read_bytes e [0x40, 0x11, 0x80, 0] 3 s1 = (2, [0x40, 0x11, chip_now mem s1 0x4011, 0], s2)"
    "becomes mem s1 (chip_now mem s1) s2"
    using register_reads(2) [OF assms, where h = "0x40" and l = "0x11" and x = "0x80" and y = 0 and s = s1] by (auto simp: register_number)
  obtain s3 where s3: "i2c_read_bytes e [0xFB, 0xED, chip_now mem s1 0x4011, 0] 3 s2 = (2, [0xFB, 0xED, chip_now mem s2 0xFBED, 0], s3)"
    "becomes mem s2 (chip_now mem s2) s3"
    using register_reads(2) [OF assms, where h = "0xFB" and l = "0xED" and x = "chip_now mem s1 0x4011" and y = 0 and s = s2] by (auto simp: register_number)
  obtain d s4 where s4: "i2c_read_bytes e [0x06, 0x94, chip_now mem s2 0xFBED, 0] 3 s3 = (2, d, s4)" "becomes mem s3 (chip_now mem s3) s4"
    using register_reads(2) [OF assms, where h = "0x06" and l = "0x94" and x = "chip_now mem s2 0xFBED" and y = 0 and s = s3] by blast
  have m1: "chip_now mem s1 a = chip_now mem s a" if "a \<in> {0x4011, 0xFBED}" for a
    using becomes_at [OF s1(2), of a] that by (auto simp: put_def NVRCS_def)
  have m2: "chip_now mem s2 0xFBED = chip_now mem s 0xFBED" using becomes_at [OF s2(2), of "0xFBED"] m1 by (simp add: NVRCS_def)
  have "gt811_downloader e err0 data s = downloader_decide e err0 (chip_now mem s 0x4011) (chip_now mem s 0xFBED) data s4"
    using s1(1) s2(1) s3(1) s4(1) m1 m2 by (simp add: gt811_downloader_def)
  then show thesis using that becomes_keep [OF becomes_keep [OF becomes_keep [OF s1(2) s2(2)] s3(2)] s4(2)] by blast
qed

text \<open>A firmware file for the controller: its type, a length that fits, and newer than what runs, or marked as mandatory.\<close>

definition fits_chip :: "('b \<Rightarrow> u16 \<Rightarrow> byte) \<Rightarrow> 'b goodix_ts_data \<Rightarrow> byte list \<Rightarrow> bool" where
  "fits_chip mem s data \<longleftrightarrow>
     (let fw = fw_info data; n = unat (Little2BigEndian (fwi_length fw)) in
      0 < n \<and> n \<le> NVRAM_LEN - NVRAM_BOOT_SECTOR_LEN \<and> 20 + n \<le> length data \<and> chip_type fw = chip_now mem s 0x4011 \<and>
      rom_version fw = 0x45 \<and> Little2BigEndian (start_addr fw) = NVRAM_UPDATE_START_ADDR \<and>
      (uint (gt_version s) < uint (Little2BigEndian (fwi_version fw)) \<or> mandatory_flag fw = mandatory_base))"

text \<open>
  (C35) A firmware file arrives in the controller: when a controller that keeps what is written to it has the rom version 0 and the
  file is meant for it, the loader returns 1, and then the memory of the controller holds the firmware of the file from 0x4100 on.
\<close>

theorem firmware_installed:
  assumes "memory_chip e mem" "chip_now mem s 0xFBED = 0" "fits_chip mem s data"
  shows "\<exists>s'. gt811_downloader e err0 data s = Some (Inr (1, s')) \<and>
    (\<forall>j < unat (Little2BigEndian (fwi_length (fw_info data))). chip_now mem s' (0x4100 + of_nat j) = data ! (20 + j))"
proof -
  define flen where "flen = Little2BigEndian (fwi_length (fw_info data))"
  note fit = assms(3) [unfolded fits_chip_def Let_def flen_def [symmetric] NVRAM_LEN_def NVRAM_BOOT_SECTOR_LEN_def]
  obtain s1 where s1: "gt811_downloader e err0 data s = downloader_decide e err0 (chip_now mem s 0x4011) (chip_now mem s 0xFBED) data s1"
    "becomes mem s (put 0x1400 [0x80] (chip_now mem s)) s1" by (rule downloader_asks [OF assms(1)])
  have "0 < unat flen" "unat flen \<le> 0xEF0" "unat flen \<le> length (drop 20 data)" using fit by auto
  from update_proc_ok [OF assms(1) this] obtain s2 where
    s2: "gt811_update_proc e (err0 2) (drop 20 data) NVRAM_UPDATE_START_ADDR flen s1 = Some (Inr (1, s2))"
      "written mem (drop 20 data) (unat flen) s2" by metis
  have "update_tries e err0 (drop 20 data) NVRAM_UPDATE_START_ADDR flen 3 s1 = Some (Inr (1, s2))"
    using s2(1) by (simp add: eval_nat_numeral)
  moreover have d: "fwi_data (fw_info data) = drop 20 data" by (simp add: fw_info_def)
  ultimately have "gt811_downloader e err0 data s = Some (Inr (1, s2))"
    using s1 fit assms(2) by (auto simp: downloader_decide_def Let_def flen_def [symmetric] becomes_def d)
  moreover have "chip_now mem s2 (0x4100 + of_nat j) = data ! (20 + j)" if "j < unat flen" for j
    using s2(2) that fit by (simp add: written_def NVRAM_UPDATE_START_ADDR_def)
  ultimately show ?thesis by (auto simp: flen_def)
qed

definition flash :: "(u16 \<Rightarrow> byte) \<Rightarrow> u16 \<Rightarrow> byte" where
  "flash q = q(NVRCS := 0)"

definition flash_core :: "(u16 \<Rightarrow> byte) i2c_core" where
  "flash_core = \<lparr>i2c_transfer = (\<lambda>n msgs q.
       case (buf (hd msgs), msgs) of
         (h # l # ds, [_]) \<Rightarrow> (1, msgs, put (bytes16 h l) ds q)
       | (h # l # ds, [m, r]) \<Rightarrow> (2, [m, r\<lparr>buf := map (\<lambda>i. flash q (bytes16 h l + of_nat i)) [0..<length (buf r)]\<rparr>], q)
       | _ \<Rightarrow> (1, msgs, q)),
     i2c_master_send = (\<lambda>c d n q. (-6, q))\<rparr>"

lemma flash_chip: "gt_core e = flash_core \<Longrightarrow> memory_chip e flash"
  by (auto simp: memory_chip_def flash_core_def flash_def wr_msg_def agree_def put_def)

definition flash_env :: "(u16 \<Rightarrow> byte) gt_env" where
  "flash_env = \<lparr>gt_core = flash_core, gt_adapter = 1, gt_board_v2 = False, gt_is_fly = True, gt_recovery_mode = False, gt_should_revert = 0\<rparr>"

text \<open>A file with a firmware of three bytes for chips of type 0x11, and a new controller of this type.\<close>

definition small_firmware :: "byte list" where
  "small_firmware = [0x11, 0x01, 0x02, 0x45, 0, 0, 0, 0x41, 0x00, 0x00, 0x03, 0, 0, 6, 0, 0, 0, 0, 0, 0, 1, 2, 3]"

definition new_flash :: "(u16 \<Rightarrow> byte) goodix_ts_data" where
  "new_flash = gt_start (one_bus ((\<lambda>_. 0)(0x4011 := 0x11)))"

theorem firmware_installed_witness:
  "\<exists>s'. gt811_downloader flash_env (\<lambda>_. True) small_firmware new_flash = Some (Inr (1, s')) \<and>
    chip_now flash s' 0x4100 = 1 \<and> chip_now flash s' 0x4102 = 3"
proof -
  have c: "memory_chip flash_env flash" by (rule flash_chip) (simp add: flash_env_def)
  have r: "chip_now flash new_flash 0xFBED = 0" by code_simp
  have f: "fits_chip flash new_flash small_firmware" by code_simp
  have n: "unat (Little2BigEndian (fwi_length (fw_info small_firmware))) = 3" by code_simp
  obtain s' where s': "gt811_downloader flash_env (\<lambda>_. True) small_firmware new_flash = Some (Inr (1, s'))"
    "\<forall>j < 3. chip_now flash s' (0x4100 + of_nat j) = small_firmware ! (20 + j)"
    using firmware_installed [OF c r f, of "\<lambda>_. True"] unfolding n by blast
  have "chip_now flash s' 0x4100 = 1 \<and> chip_now flash s' 0x4102 = 3"
    using s'(2) [rule_format, of 0] s'(2) [rule_format, of 2] by (simp add: small_firmware_def)
  with s'(1) show ?thesis by blast
qed

section \<open>Raw data\<close>

lemma work_func_keeps_mark:
  "raw_data_ready (say_gt ev s) = raw_data_ready s" "raw_data_ready (gt_menu_keys e n s) = raw_data_ready s"
  "raw_data_ready (gt_pressed e pd ids s) = raw_data_ready s" "raw_data_ready (gt_released e s) = raw_data_ready s"
  by (simp_all add: say_gt_def gt_menu_keys_def gt_pressed_def gt_released_def set_touch_pos_def Let_def split: nat.split option.split prod.split)

lemma transfer_keeps_mark:
  "i2c_read_bytes e d n s = (r, d', s') \<Longrightarrow> raw_data_ready s' = raw_data_ready s"
  "raw_data_ready (snd (i2c_write_bytes e d n s)) = raw_data_ready s"
  "raw_data_ready (snd (goodix_init_panel e s)) = raw_data_ready s"
  by (auto simp: i2c_read_bytes_def i2c_write_bytes_def goodix_init_panel_def Let_def split: prod.splits)

lemma work_func_ready:
  assumes "raw_data_ready s = RAW_DATA_ACTIVE"
  shows "raw_data_ready (goodix_ts_work_func e s) = RAW_DATA_READY"
proof -
  define s0 where "s0 = s\<lparr>gt_irq_off := gt_irq_off s + 1,
    raw_data_ready := (if raw_data_ready s = RAW_DATA_ACTIVE then RAW_DATA_READY else raw_data_ready s)\<rparr>"
  obtain ret pd s1 where r: "i2c_read_bytes e ([READ_TOUCH_ADDR_H, READ_TOUCH_ADDR_L] @ replicate 34 0) READ_BYTES_NUM s0 = (ret, pd, s1)"
    by (metis prod_cases3)
  have s1: "raw_data_ready s1 = RAW_DATA_READY" using transfer_keeps_mark(1) [OF r] assms by (simp add: s0_def)
  have "raw_data_ready (gt_report e pd s1) = RAW_DATA_READY"
    by (simp add: gt_report_def work_func_keeps_mark s1 Let_def)
  then show ?thesis
    unfolding goodix_ts_work_func_def Let_def s0_def [symmetric] r using s1 transfer_keeps_mark(3) [of e s1] by simp
qed

text \<open>The sleeps in which an interrupt is still noticed.\<close>

definition sleeps :: "nat \<Rightarrow> nat \<Rightarrow> nat" where
  "sleeps read_times retry = (6 - retry) * 12 + (11 - read_times)"

lemma raw_wait_ready: "raw_data_ready s = RAW_DATA_READY \<Longrightarrow> raw_wait e ints read_times retry s = (False, s)"
  by (subst raw_wait.simps) simp

lemma raw_wait_ends:
  "read_times \<le> 11 \<Longrightarrow> retry \<le> 6 \<Longrightarrow> raw_data_ready s = RAW_DATA_ACTIVE \<Longrightarrow>
    fst (raw_wait e ints read_times retry s) \<longleftrightarrow> True \<notin> set (take (sleeps read_times retry) ints)"
proof (induction e ints read_times retry s rule: raw_wait.induct)
  case (1 e ints read_times retry s)
  have a: "raw_data_ready s \<noteq> RAW_DATA_READY" using "1.prems"(3) by (simp add: RAW_DATA_ACTIVE_def RAW_DATA_READY_def)
  define s1 where "s1 = (case ints of True # _ \<Rightarrow> goodix_ts_work_func e s | _ \<Rightarrow> s)"
  note unfold = raw_wait.simps [of e ints read_times retry s]
  show ?case
  proof (cases "ints \<noteq> [] \<and> hd ints")
    case True
    then obtain is' where i: "ints = True # is'" by (cases ints) auto
    have s1: "raw_data_ready s1 = RAW_DATA_READY" using work_func_ready [OF "1.prems"(3)] by (simp add: s1_def i)
    show ?thesis
      using "1.prems"(1,2) a s1 transfer_keeps_mark(2) [of e raw_request 3 s1]
      by (subst unfold) (auto simp: i s1_def sleeps_def raw_wait_ready Let_def take_Cons')
  next
    case False
    then have s1: "s1 = s" by (auto simp: s1_def split: list.split bool.split)
    have tk: "True \<in> set (take (Suc n) ints) \<longleftrightarrow> True \<in> set (take n (drop 1 ints))" for n
      using False by (cases ints) auto
    show ?thesis
    proof (cases "read_times > 10")
      case rt: True
      show ?thesis
      proof (cases "retry > 5")
        case True
        then show ?thesis using rt "1.prems" a s1 by (subst unfold) (simp add: s1_def [symmetric] sleeps_def)
      next
        case False
        have "fst (raw_wait e (drop 1 ints) 0 (retry + 1) (snd (i2c_write_bytes e raw_request 3 s))) \<longleftrightarrow>
            True \<notin> set (take (sleeps 0 (retry + 1)) (drop 1 ints))"
          using "1.IH"(1) [OF a refl rt False] False "1.prems"(3) transfer_keeps_mark(2) [of e raw_request 3 s]
          by (simp add: s1_def [symmetric] s1)
        moreover have "sleeps read_times retry = Suc (sleeps 0 (retry + 1))" using rt False "1.prems"(1) by (simp add: sleeps_def)
        ultimately show ?thesis using rt False a by (subst unfold) (simp add: s1_def [symmetric] s1 tk)
      qed
    next
      case rt: False
      have "fst (raw_wait e (drop 1 ints) (read_times + 1) retry s) \<longleftrightarrow> True \<notin> set (take (sleeps (read_times + 1) retry) (drop 1 ints))"
        using "1.IH"(2) [OF a refl rt] rt "1.prems"(2,3) by (simp add: s1_def [symmetric] s1)
      moreover have "sleeps read_times retry = Suc (sleeps (read_times + 1) retry)" using rt "1.prems"(2) by (simp add: sleeps_def)
      ultimately show ?thesis using rt a by (subst unfold) (simp add: s1_def [symmetric] s1 tk)
    qed
  qed
qed

text \<open>
  (C36) A read of raw data ends, and gives up (-100) exactly if no data were ready before and no interrupt comes in the first 83 of
  its sleeps.
\<close>

theorem raw_read_gives_up:
  "fst (raw_read e ints s) = -100 \<longleftrightarrow> raw_data_ready s \<noteq> RAW_DATA_READY \<and> True \<notin> set (take 83 ints)"
proof -
  define s1 where "s1 = snd (i2c_write_bytes e raw_request 3 (if raw_data_ready s \<noteq> RAW_DATA_READY then s\<lparr>raw_data_ready := RAW_DATA_ACTIVE\<rparr> else s))"
  obtain t s2 where w: "raw_wait e ints 0 0 s1 = (t, s2)" by fastforce
  have "t \<longleftrightarrow> raw_data_ready s \<noteq> RAW_DATA_READY \<and> True \<notin> set (take 83 ints)"
  proof (cases "raw_data_ready s = RAW_DATA_READY")
    case True
    then have "raw_data_ready s1 = RAW_DATA_READY" by (simp add: s1_def transfer_keeps_mark(2))
    from raw_wait_ready [OF this, of e ints 0 0] w True show ?thesis by simp
  next
    case False
    then have "raw_data_ready s1 = RAW_DATA_ACTIVE" by (simp add: s1_def transfer_keeps_mark(2))
    from raw_wait_ends [OF _ _ this, of 0 0 e ints] w False show ?thesis by (simp add: sleeps_def)
  qed
  moreover have "fst (raw_read e ints s) = -100 \<longleftrightarrow> t"
    unfolding raw_read_def Let_def s1_def [symmetric] w by (simp split: prod.split)
  ultimately show ?thesis by simp
qed


section \<open>Weak spots\<close>

text \<open>
  The semicolon behind the test of the rom version: a controller with another rom version than 0 is never updated, whatever the file holds.
\<close>

lemma other_rom_refused:
  assumes "memory_chip e mem" "chip_now mem s 0xFBED \<noteq> 0" "14 \<le> length data"
  obtains s' where "gt811_downloader e err0 data s = Some (Inr (0, s'))" "becomes mem s (put 0x1400 [0x80] (chip_now mem s)) s'"
proof -
  obtain s' where "gt811_downloader e err0 data s = downloader_decide e err0 (chip_now mem s 0x4011) (chip_now mem s 0xFBED) data s'"
    "becomes mem s (put 0x1400 [0x80] (chip_now mem s)) s'" by (rule downloader_asks [OF assms(1)])
  moreover have "downloader_decide e err0 (chip_now mem s 0x4011) (chip_now mem s 0xFBED) data s' = Some (Inr (0, s'))"
    using assms(2,3) by (simp add: downloader_decide_def Let_def)
  ultimately show thesis using that by simp
qed

lemma put_far:
  assumes "unat a + length ds \<le> unat b"
  shows "put a ds f b = f b"
proof -
  have "unat (b - a) = unat b - unat a" using assms by (simp add: unat_sub word_le_nat_alt)
  then have "\<not> unat (b - a) < length ds" using assms by linarith
  then show ?thesis by (simp add: put_def)
qed

lemma config_info_start: "length (config_info w) = 108" "bytes16 (config_info w ! 0) (config_info w ! 1) = 0x6A2"
proof -
  have "config_info w ! 0 = 0x06" "config_info w ! 1 = 0xA2" by (simp_all add: config_info_def)
  then show "bytes16 (config_info w ! 0) (config_info w ! 1) = 0x6A2" by (simp add: bytes16_def)
qed (simp add: config_info_def)

lemma panel_ok:
  assumes "memory_chip e mem" "0x4100 \<le> unat a"
  shows "\<exists>s'. goodix_init_panel e s = (0, s') \<and> chip_now mem s' a = chip_now mem s a"
proof -
  define cfg where "cfg = (if sensor_id s = 0 then config_info8 else config_info7 (gt_board_v2 e))"
  have cfg: "length cfg = 108" "bytes16 (cfg ! 0) (cfg ! 1) = 0x6A2"
    by (simp_all add: cfg_def config_info7_def config_info8_def config_info_start [unfolded One_nat_def])
  have le: "2 \<le> length cfg" "length cfg \<le> length cfg" using cfg(1) by simp_all
  obtain s1 where s1: "i2c_write_bytes e cfg (length cfg) s = (1, s1)"
    "becomes mem s (put (bytes16 (cfg ! 0) (cfg ! 1)) (take (length cfg - 2) (drop 2 cfg)) (chip_now mem s)) s1"
    by (rule chip_write [OF assms(1) le])
  have "a \<noteq> NVRCS" using assms(2) by (auto simp: NVRCS_def)
  from becomes_at [OF s1(2) this] have "chip_now mem s1 a = chip_now mem s a"
    using assms(2) cfg by (simp add: put_far)
  then show ?thesis
    unfolding goodix_init_panel_def Let_def cfg_def [symmetric] s1(1) by (simp add: chip_now_def)
qed

text \<open>
  Nevertheless the writer of the command is told that the update has succeeded.
\<close>

theorem update_claims_success:
  assumes "memory_chip e mem" "chip_now mem (upd_ts u) 0xFBED \<noteq> 0" "14 \<le> length data"
    and "gt_file fs (map (\<lambda>b. char_of (unat b)) path) = Some data" "gt_vmalloc fs" "gt_read_ok fs"
    and "length path < 60" "0 \<notin> set path" "length junk = 120"
  shows "\<exists>u'. goodix_update_write e fs err0 junk (APK_UPDATE_TP # path @ [0]) u = Some (Inr (1, u')) \<and>
    client_irq_off u' = client_irq_off u \<and> (\<forall>a. 0x4100 \<le> unat a \<longrightarrow> chip_now mem (upd_ts u') a = chip_now mem (upd_ts u) a)"
proof -
  define cmd where "cmd = fill_buf junk (APK_UPDATE_TP # path @ [0])"
  have cmd: "cmd = APK_UPDATE_TP # path @ 0 # drop (length path + 2) junk"
    using assms(7,9) by (simp add: cmd_def fill_buf_def)
  have "takeWhile (\<lambda>b. b \<noteq> 0) (take 60 (path @ 0 # r)) = path" for r :: "byte list"
  proof -
    have "take 60 (path @ 0 # r) = path @ 0 # take (59 - length path) r" using assms(7) by (simp add: take_Cons')
    then show ?thesis using assms(8) by (simp add: takeWhile_append)
  qed
  then have path: "takeWhile (\<lambda>b. b \<noteq> 0) (take 60 (drop 1 cmd)) = path" by (simp add: cmd)
  obtain s1 where s1: "gt811_downloader e err0 data (upd_ts u) = Some (Inr (0, s1))"
    "becomes mem (upd_ts u) (put 0x1400 [0x80] (chip_now mem (upd_ts u))) s1" by (rule other_rom_refused [OF assms(1-3)])
  define u' where "u' = u\<lparr>upd_ts := panel_loop e 3 s1\<rparr>"
  have "chip_now mem (panel_loop e 3 s1) a = chip_now mem (upd_ts u) a" if a: "0x4100 \<le> unat a" for a
  proof -
    have "panel_loop e 3 s1 = snd (goodix_init_panel e s1)"
      using panel_ok [OF assms(1) a, of s1] by (auto simp: eval_nat_numeral)
    moreover have "a \<noteq> NVRCS" using a by (auto simp: NVRCS_def)
    ultimately show ?thesis
      using panel_ok [OF assms(1) a, of s1] becomes_at [OF s1(2), of a] a by (auto simp: put_far)
  qed
  moreover have "goodix_update_write e fs err0 junk (APK_UPDATE_TP # path @ [0]) u = Some (Inr (1, u'))"
  proof -
    have len: "data \<noteq> []" using assms(3) by auto
    have "update_tp e fs err0 cmd u = Some (Inr (1, u'))"
      unfolding update_tp_def Let_def path using assms(4-7) len s1(1)
      by (simp add: update_file_open_def update_get_flen_def update_file_close_def u'_def)
    moreover have "cmd ! 0 = APK_UPDATE_TP" by (simp add: cmd)
    ultimately show ?thesis using assms(7) by (simp add: goodix_update_write_def Let_def cmd_def [symmetric])
  qed
  ultimately show ?thesis by (auto simp: u'_def)
qed

text \<open>An update whose file is missing or cannot be read leaves the interrupt of the client disabled, in the second case also the limit of the kernel.\<close>

theorem failed_update_blocks_interrupt:
  assumes "path = takeWhile (\<lambda>b. b \<noteq> 0) (take 60 (drop 1 cmd))" "length path < 60"
  shows "gt_file fs (map (\<lambda>b. char_of (unat b)) path) = None \<Longrightarrow>
      update_tp e fs err0 cmd u = Some (Inr (0, u\<lparr>client_irq_off := client_irq_off u + 1\<rparr>))"
    and "gt_file fs (map (\<lambda>b. char_of (unat b)) path) = Some data \<Longrightarrow> \<not> gt_read_ok fs \<Longrightarrow>
      update_tp e fs err0 cmd u = Some (Inr (0, u\<lparr>client_irq_off := client_irq_off u + 1, kernel_ds := True\<rparr>))"
  using assms by (simp_all add: update_tp_def update_file_open_def update_get_flen_def update_file_close_def Let_def)

text \<open>
  A negative result of a read is a positive number in the \<open>u8\<close>, and the buffer still holds the last frame that was read back.  A controller
  that no longer answers after the command to recall the firmware passes the last check.
\<close>

definition mute_core :: "(byte list \<times> bool) i2c_core" where
  "mute_core = \<lparr>i2c_transfer = (\<lambda>n msgs (block, mute).
       case (buf (hd msgs), msgs) of
         (h # l # ds, [_]) \<Rightarrow> if mute then (-5, msgs, (block, mute)) else if h = REG_NVRCS_H then (1, msgs, (block, ds = [2])) else (1, msgs, (ds, mute))
       | (h # l # ds, [m, r]) \<Rightarrow>
           if mute then (-5, msgs, (block, mute)) else (2, [m, r\<lparr>buf := if h = REG_NVRCS_H then [0] else block\<rparr>], (block, mute))
       | _ \<Rightarrow> (-5, msgs, (block, mute))),
     i2c_master_send = (\<lambda>c d n q. (-6, q))\<rparr>"

definition mute_env :: "(byte list \<times> bool) gt_env" where
  "mute_env = \<lparr>gt_core = mute_core, gt_adapter = 1, gt_board_v2 = False, gt_is_fly = True, gt_recovery_mode = False, gt_should_revert = 0\<rparr>"

theorem validated_without_reading:
  "case gt811_update_firmware mute_env False [1, 2, 3] 0x4100 3 (gt_start (one_bus ([], False))) of
     Inl _ \<Rightarrow> False
   | Inr (ret, s) \<Rightarrow> ret = 1 \<and> fst (i2c_read_bytes mute_env [0x41, 0x00, 0, 0, 0] 5 s) = -5"
  by code_simp

end
