(* ===== verification/Gui_Draw.thy ===== *)
theory Gui_Draw
  imports Mem
begin

text \<open>
  Drawing on the screen for the programs of \<^verbatim>\<open>hal/lidbg_gui\<close>: pixels in \<^verbatim>\<open>lidbg_gui.c\<close>, \<^verbatim>\<open>debug_gui.c\<close>, colours in \<^verbatim>\<open>GUI_StockC.c\<close>,
  lines and rectangles in \<^verbatim>\<open>GUI_BASIC.c\<close>.  What that file has under a switch which no header sets (thick lines, circles, ellipses, filling,
  arcs) is not compiled.

  The program's own picture \<open>outBuff\<close> and the three pages of the frame buffer \<open>sysFb\<close> are memories with a size; an access outside
  is a fault.  A coordinate is a \<open>u32\<close>, which \<open>GUI_HLine\<close> and \<open>GUI_RLine\<close> cut to eight bits.  The differences and the decision variable of a
  line are \<open>int\<close>s that wrap at 32 bits.  \<open>Inr None\<close> is an operation that never returns.
\<close>

section \<open>State\<close>

record gui =
  bits_per_pixel :: u32
  xres :: u32
  yres :: u32
  outBuff :: "u32 \<Rightarrow> byte"
  sysFb :: "u32 \<Rightarrow> byte"
  rdBuff :: "byte list"
  disp_color :: u32
  back_color :: u32
  lcd_x :: int
  lcd_y :: int
  cur_area :: int

definition GUI_LCM_XMAX :: nat where "GUI_LCM_XMAX = 1024"
definition GUI_LCM_YMAX :: nat where "GUI_LCM_YMAX = 600"
definition SYS_FB_NUM :: nat where "SYS_FB_NUM = 3"
definition DISP_COLOR :: u32 where "DISP_COLOR = 0x0000ff00"
definition BACK_COLOR :: u32 where "BACK_COLOR = 0x00000000"
definition SCREEN_CLEAN_COLOR :: u32 where "SCREEN_CLEAN_COLOR = 0xff000000"

definition outBuffSize :: "gui \<Rightarrow> u32" where
  "outBuffSize s = xres s * yres s * (bits_per_pixel s div 8)"

section \<open>Colours\<close>

definition GUI_SetColor :: "u32 \<Rightarrow> u32 \<Rightarrow> gui \<Rightarrow> gui" where
  "GUI_SetColor color1 color2 s = s\<lparr>disp_color := color1, back_color := color2\<rparr>"

definition GUI_GetBackColor :: "gui \<Rightarrow> u32" where "GUI_GetBackColor s = back_color s"
definition GUI_GetDispColor :: "gui \<Rightarrow> u32" where "GUI_GetDispColor s = disp_color s"

definition GUI_ExchangeColor :: "gui \<Rightarrow> gui" where
  "GUI_ExchangeColor s = (let bakc = disp_color s; s1 = s\<lparr>disp_color := back_color s\<rparr> in s1\<lparr>back_color := bakc\<rparr>)"

section \<open>Pixels\<close>

text \<open>Stores of a word; the location in a page of the frame buffer is counted from the start of the pages.\<close>

definition put_out :: "u32 \<Rightarrow> u32 \<Rightarrow> gui \<Rightarrow> fault + gui" where
  "put_out location color s =
     (if unat location + 4 \<le> unat (outBuffSize s) then Inr (s\<lparr>outBuff := store_word location color (outBuff s)\<rparr>) else Inl BufOverrun)"

definition put_fb :: "u32 \<Rightarrow> nat \<Rightarrow> u32 \<Rightarrow> gui \<Rightarrow> fault + gui" where
  "put_fb location page color s =
     (if page * unat (outBuffSize s) + unat location + 4 \<le> SYS_FB_NUM * unat (outBuffSize s)
      then Inr (s\<lparr>sysFb := store_word (of_nat page * outBuffSize s + location) color (sysFb s)\<rparr>) else Inl BufOverrun)"

definition put_half :: "u32 \<Rightarrow> u32 \<Rightarrow> gui \<Rightarrow> fault + gui" where
  "put_half location color s =
     (if unat location + 2 \<le> unat (outBuffSize s)
      then Inr (s\<lparr>outBuff := (outBuff s)(location := ucast color, location + 1 := ucast (drop_bit 8 color))\<rparr>) else Inl BufOverrun)"

definition GUI_PutPixel :: "u32 \<Rightarrow> u32 \<Rightarrow> u32 \<Rightarrow> gui \<Rightarrow> fault + gui" where
  "GUI_PutPixel x y color s =
     (if bits_per_pixel s = 32 then
        let location = x * 4 + y * xres s * 4 in
        bindE (if color = SCREEN_CLEAN_COLOR then foldE (\<lambda>i. put_fb location i color) [0, 1, 2] s else Inr s) (put_out location color)
      else if bits_per_pixel s = 16 then
        let location = x * 2 + y * xres s * 2;
            r = drop_bit 19 color AND 0xff; g = drop_bit 10 color AND 0xff; b = drop_bit 3 color AND 0xff
        in put_half location (push_bit 11 r OR push_bit 5 g OR b) s
      else Inr s)"

definition GUI_GetPixel :: "byte \<Rightarrow> byte \<Rightarrow> byte" where "GUI_GetPixel x y = 0"

definition GUI_Point :: "u32 \<Rightarrow> u32 \<Rightarrow> u32 \<Rightarrow> gui \<Rightarrow> fault + gui" where
  "GUI_Point x y color s = GUI_PutPixel x y color s"

definition GUI_ReadPoint :: "byte \<Rightarrow> byte \<Rightarrow> byte \<times> u32" where
  "GUI_ReadPoint x y = (1, ucast (GUI_GetPixel x y))"

section \<open>Horizontal and vertical lines\<close>

text \<open>
  The loop over \<open>y\<close> in the one has neither a condition nor a step, nor has the loop over \<open>x\<close> in the other, which also forgets the
  size of a pixel.
\<close>

partial_function (option) dot_forever :: "u32 \<Rightarrow> u32 \<Rightarrow> gui \<Rightarrow> (fault + gui) option" where
  "dot_forever location color s =
     (case put_out location color s of Inl f \<Rightarrow> Some (Inl f) | Inr s' \<Rightarrow> dot_forever location color s')"

definition GUI_DrawHline :: "byte \<Rightarrow> byte \<Rightarrow> byte \<Rightarrow> u32 \<Rightarrow> gui \<Rightarrow> (fault + gui) option" where
  "GUI_DrawHline x0 y0 x1 color s =
     (if x0 < x1 then dot_forever (ucast x0 * 4 + ucast y0 * xres s * 4) color s else Some (Inr s))"

definition vline_once :: "byte \<Rightarrow> byte \<Rightarrow> byte \<Rightarrow> u32 \<Rightarrow> gui \<Rightarrow> fault + gui" where
  "vline_once x0 y0 y1 color s =
     foldE (\<lambda>y. put_out (ucast x0 + of_nat y * xres s) color) [unat y0..<unat y1] s"

partial_function (option) vline_forever :: "byte \<Rightarrow> byte \<Rightarrow> byte \<Rightarrow> u32 \<Rightarrow> gui \<Rightarrow> (fault + gui) option" where
  "vline_forever x0 y0 y1 color s =
     (case vline_once x0 y0 y1 color s of Inl f \<Rightarrow> Some (Inl f) | Inr s' \<Rightarrow> vline_forever x0 y0 y1 color s')"

definition GUI_DrawVline :: "byte \<Rightarrow> byte \<Rightarrow> byte \<Rightarrow> u32 \<Rightarrow> gui \<Rightarrow> (fault + gui) option" where
  "GUI_DrawVline x0 y0 y1 color s = vline_forever x0 y0 y1 color s"

definition outcome :: "(fault + 'a) option \<Rightarrow> fault + 'a option" where
  "outcome r = (case r of None \<Rightarrow> Inr None | Some (Inl f) \<Rightarrow> Inl f | Some (Inr s) \<Rightarrow> Inr (Some s))"

text \<open>The second and third argument are given to \<open>GUI_DrawHline\<close> in the other order.\<close>

definition GUI_HLine :: "u32 \<Rightarrow> u32 \<Rightarrow> u32 \<Rightarrow> u32 \<Rightarrow> gui \<Rightarrow> fault + gui option" where
  "GUI_HLine x0 y0 x1 color s = outcome (GUI_DrawHline (ucast x0) (ucast x1) (ucast y0) color s)"

definition GUI_RLine :: "u32 \<Rightarrow> u32 \<Rightarrow> u32 \<Rightarrow> u32 \<Rightarrow> gui \<Rightarrow> fault + gui option" where
  "GUI_RLine x0 y0 y1 color s = outcome (GUI_DrawVline (ucast x0) (ucast y0) (ucast y1) color s)"

section \<open>Rectangles\<close>

definition GUI_Rectangle :: "u32 \<Rightarrow> u32 \<Rightarrow> u32 \<Rightarrow> u32 \<Rightarrow> u32 \<Rightarrow> gui \<Rightarrow> fault + gui option" where
  "GUI_Rectangle x0 y0 x1 y1 color s =
     bindO (GUI_HLine x0 y0 x1 color s) (\<lambda>s1.
     bindO (GUI_HLine x0 y1 x1 color s1) (\<lambda>s2.
     bindO (GUI_RLine x0 y0 y1 color s2) (GUI_RLine x1 y0 y1 color)))"

text \<open>The loop over the rows, \<open>y0 \<le> y1\<close>, with a \<open>y0\<close> that may wrap.\<close>

partial_function (option) fill_rows :: "u32 \<Rightarrow> u32 \<Rightarrow> u32 \<Rightarrow> u32 \<Rightarrow> u32 \<Rightarrow> gui \<Rightarrow> (fault + gui) option" where
  "fill_rows x0 x1 y1 color y0 s =
     (if y0 \<le> y1 then
        (case GUI_HLine x0 y0 x1 color s of
           Inl f \<Rightarrow> Some (Inl f)
         | Inr None \<Rightarrow> None
         | Inr (Some s') \<Rightarrow> fill_rows x0 x1 y1 color (y0 + 1) s')
      else Some (Inr s))"

definition GUI_RectangleFill :: "u32 \<Rightarrow> u32 \<Rightarrow> u32 \<Rightarrow> u32 \<Rightarrow> u32 \<Rightarrow> gui \<Rightarrow> fault + gui option" where
  "GUI_RectangleFill xa ya xb yb color s =
     (let (x0, x1) = (if xa > xb then (xb, xa) else (xa, xb)); (y0, y1) = (if ya > yb then (yb, ya) else (ya, yb)) in
      if y0 = y1 then GUI_HLine x0 y0 x1 color s
      else if x0 = x1 then GUI_RLine x0 y0 y1 color s
      else outcome (fill_rows x0 x1 y1 color y0 s))"

definition GUI_Square :: "u32 \<Rightarrow> u32 \<Rightarrow> u32 \<Rightarrow> u32 \<Rightarrow> gui \<Rightarrow> fault + gui option" where
  "GUI_Square x0 y0 w color s =
     (if w = 0 then Inr (Some s)
      else if x0 + w > of_nat GUI_LCM_XMAX then Inr (Some s)
      else if y0 + w > of_nat GUI_LCM_YMAX then Inr (Some s)
      else GUI_Rectangle x0 y0 (x0 + w) (y0 + w) color s)"

text \<open>Neither loop over the dots of a straight line ends but by leaving the memory.\<close>

lemma dot_forever_ends: "dot_forever location color s = Some r \<Longrightarrow> \<exists>f. r = Inl f"
  apply (erule dot_forever.raw_induct [where P = "\<lambda>location color s r. \<exists>f. r = Inl f", rotated])
  subgoal for g l c t y by (cases "put_out l c t") auto
  done

lemma vline_forever_ends: "vline_forever x0 y0 y1 color s = Some r \<Longrightarrow> \<exists>f. r = Inl f"
  apply (erule vline_forever.raw_induct [where P = "\<lambda>x0 y0 y1 color s r. \<exists>f. r = Inl f", rotated])
  subgoal for g a b c d t y by (cases "vline_once a b c d t") auto
  done

lemma GUI_RLine_never: "GUI_RLine x0 y0 y1 color s \<noteq> Inr (Some s')"
  using vline_forever_ends by (fastforce simp: GUI_RLine_def GUI_DrawVline_def outcome_def split: option.splits sum.splits)

lemma GUI_HLine_never: "ucast x0 < (ucast x1 :: byte) \<Longrightarrow> GUI_HLine x0 x1 y0 color s \<noteq> Inr (Some s')"
  using dot_forever_ends by (fastforce simp: GUI_HLine_def GUI_DrawHline_def outcome_def split: option.splits sum.splits)

text \<open>
  No rectangle is ever finished: the loops for its sides have no step of their own, so the function does not come back to its caller,
  whatever the corners, the colour and the screen are.
\<close>

lemma rectangle_never_finished: "GUI_Rectangle x0 y0 x1 y1 color s \<noteq> Inr (Some s')"
  using GUI_RLine_never by (auto simp: GUI_Rectangle_def bindO_eq_Some_iff)

section \<open>Lines\<close>

definition advance :: "bool \<Rightarrow> u32 \<Rightarrow> u32" where
  "advance up v = (if up then v + 1 else v - 1)"

lemma advance_closer:
  assumes "v \<noteq> w"
  shows "unat (if up then w - advance up v else advance up v - w) < unat (if up then w - v else v - w)"
proof -
  have less: "unat (d - 1) < unat d" if "d \<noteq> 0" for d :: u32
    using that unat_minus_one [of d] by (simp add: unat_gt_0)
  have e: "w - (v + 1) = (w - v) - 1" "v - 1 - w = (v - w) - 1" by (simp_all only: diff_diff_eq diff_diff_eq2 add.commute)
  have n: "w - v \<noteq> 0" "v - w \<noteq> 0" using assms by auto
  show ?thesis
  proof (cases up)
    case True
    then show ?thesis using less [OF n(1)] by (simp only: advance_def if_True e)
  next
    case False
    then show ?thesis using less [OF n(2)] by (simp only: advance_def if_False e)
  qed
qed

text \<open>The two loops; \<open>ahead\<close> is twice the shorter and \<open>back\<close> twice the longer difference.\<close>

function line_x :: "bool \<Rightarrow> bool \<Rightarrow> int \<Rightarrow> int \<Rightarrow> u32 \<Rightarrow> u32 \<Rightarrow> int \<Rightarrow> u32 \<Rightarrow> u32 \<Rightarrow> gui \<Rightarrow> fault + gui" where
  "line_x dx_up dy_up ahead back x1 color di x0 y0 s =
     (if x0 = x1 then GUI_Point x0 y0 color s
      else bindE (GUI_Point x0 y0 color s) (\<lambda>s'.
        if di < 0 then line_x dx_up dy_up ahead back x1 color (wrap32 (di + ahead)) (advance dx_up x0) y0 s'
        else line_x dx_up dy_up ahead back x1 color (wrap32 (di + wrap32 (ahead - back))) (advance dx_up x0) (advance dy_up y0) s'))"
  by pat_completeness auto

termination
  by (relation "measure (\<lambda>(dx_up, dy_up, ahead, back, x1, color, di, x0, y0, s). unat (if dx_up then x1 - x0 else x0 - x1))")
    (use advance_closer in auto)

function line_y :: "bool \<Rightarrow> bool \<Rightarrow> int \<Rightarrow> int \<Rightarrow> u32 \<Rightarrow> u32 \<Rightarrow> int \<Rightarrow> u32 \<Rightarrow> u32 \<Rightarrow> gui \<Rightarrow> fault + gui" where
  "line_y dx_up dy_up ahead back y1 color di x0 y0 s =
     (if y0 = y1 then GUI_Point x0 y0 color s
      else bindE (GUI_Point x0 y0 color s) (\<lambda>s'.
        if di < 0 then line_y dx_up dy_up ahead back y1 color (wrap32 (di + ahead)) x0 (advance dy_up y0) s'
        else line_y dx_up dy_up ahead back y1 color (wrap32 (di + wrap32 (ahead - back))) (advance dx_up x0) (advance dy_up y0) s'))"
  by pat_completeness auto

termination
  by (relation "measure (\<lambda>(dx_up, dy_up, ahead, back, y1, color, di, x0, y0, s). unat (if dy_up then y1 - y0 else y0 - y1))")
    (use advance_closer in auto)

definition GUI_Line :: "u32 \<Rightarrow> u32 \<Rightarrow> u32 \<Rightarrow> u32 \<Rightarrow> u32 \<Rightarrow> gui \<Rightarrow> fault + gui option" where
  "GUI_Line x0 y0 x1 y1 color s =
     (let dx0 = sint (x1 - x0); dy0 = sint (y1 - y0) in
      if dx0 = 0 then GUI_RLine x0 y0 y1 color s
      else if dy0 = 0 then GUI_HLine x0 y0 x1 color s
      else
        let dx = wrap32 ((if dx0 > 0 then 1 else -1) * dx0); dy = wrap32 ((if dy0 > 0 then 1 else -1) * dy0);
            dx_x2 = wrap32 (dx * 2); dy_x2 = wrap32 (dy * 2) in
        bindE (if dx \<ge> dy then line_x (dx0 > 0) (dy0 > 0) dy_x2 dx_x2 x1 color (wrap32 (dy_x2 - dx)) x0 y0 s
               else line_y (dx0 > 0) (dy0 > 0) dx_x2 dy_x2 y1 color (wrap32 (dx_x2 - dy)) x0 y0 s) (\<lambda>s'. Inr (Some s')))"

text \<open>The rest of the points of \<open>GUI_LineS\<close>, of which \<open>n\<close> are taken.\<close>

fun lines_loop :: "u32 list \<Rightarrow> nat \<Rightarrow> u32 \<Rightarrow> u32 \<Rightarrow> u32 \<Rightarrow> gui \<Rightarrow> fault + gui option" where
  "lines_loop points 0 x0 y0 color s = Inr (Some s)"
| "lines_loop (x1 # y1 # points) (Suc n) x0 y0 color s =
     bindO (GUI_Line x0 y0 x1 y1 color s) (lines_loop points n x1 y1 color)"
| "lines_loop _ (Suc n) x0 y0 color s = Inl BufOverrun"

definition GUI_LineS :: "u32 list \<Rightarrow> byte \<Rightarrow> u32 \<Rightarrow> gui \<Rightarrow> fault + gui option" where
  "GUI_LineS points no color s =
     (if no = 0 then Inr (Some s)
      else bindO (if no = 1 then
              (case points of x0 # y0 # _ \<Rightarrow> bindE (GUI_Point x0 y0 color s) (\<lambda>s'. Inr (Some s')) | _ \<Rightarrow> Inl BufOverrun)
            else Inr (Some s)) (\<lambda>s1.
        case (if no = 1 then drop 1 points else points) of
          x0 # y0 # rest \<Rightarrow> lines_loop rest (unat no - 1) x0 y0 color s1
        | _ \<Rightarrow> Inl BufOverrun))"

section \<open>A line is the nearest one\<close>

text \<open>The reference: after \<open>i\<close> steps along the longer difference \<open>a\<close> the other coordinate has moved by \<open>i \<cdot> b / a\<close>, rounded to the nearest.\<close>

definition nearest :: "int \<Rightarrow> int \<Rightarrow> nat \<Rightarrow> int" where
  "nearest a b i = (2 * int i * b + a) div (2 * a)"

definition move :: "bool \<Rightarrow> u32 \<Rightarrow> int \<Rightarrow> u32" where
  "move up v k = (if up then v + of_int k else v - of_int k)"

definition points_from :: "bool \<Rightarrow> bool \<Rightarrow> bool \<Rightarrow> int \<Rightarrow> int \<Rightarrow> u32 \<Rightarrow> u32 \<Rightarrow> nat \<Rightarrow> u32 \<times> u32" where
  "points_from steep long_up short_up a b u v i =
     (let p = move long_up u (int i); q = move short_up v (nearest a b i) in if steep then (q, p) else (p, q))"

definition ideal_line :: "u32 \<Rightarrow> u32 \<Rightarrow> u32 \<Rightarrow> u32 \<Rightarrow> (u32 \<times> u32) list" where
  "ideal_line x0 y0 x1 y1 =
     (let dx = sint (x1 - x0); dy = sint (y1 - y0) in
      if \<bar>dx\<bar> \<ge> \<bar>dy\<bar> then map (points_from False (dx > 0) (dy > 0) \<bar>dx\<bar> \<bar>dy\<bar> x0 y0) [0..<Suc (nat \<bar>dx\<bar>)]
      else map (points_from True (dy > 0) (dx > 0) \<bar>dy\<bar> \<bar>dx\<bar> y0 x0) [0..<Suc (nat \<bar>dy\<bar>)])"

lemma nearest_0: "0 < a \<Longrightarrow> nearest a b 0 = 0"
  by (simp add: nearest_def)

lemma nearest_step:
  assumes "0 < a" "0 \<le> b" "b \<le> a" "di = 2 * b * (int i + 1) - a - 2 * a * nearest a b i"
  shows "nearest a b (Suc i) = (if di < 0 then nearest a b i else nearest a b i + 1)"
    and "2 * b * (int (Suc i) + 1) - a - 2 * a * nearest a b (Suc i) = (if di < 0 then di + 2 * b else di + (2 * b - 2 * a))"
proof -
  define q where "q = nearest a b i"
  define p where "p = a * q"
  define r where "r = int i * b"
  have p2: "2 * a * q = 2 * p" and r2: "2 * int i * b = 2 * r" by (simp_all add: p_def r_def)
  have "2 * b * (int i + 1) = 2 * r + 2 * b" by (simp add: r_def distrib_left)
  then have dv: "di = 2 * r + 2 * b - a - 2 * p" using assms(4) p2 by (simp only: q_def)
  have q: "2 * p \<le> 2 * r + a" "2 * r + a < 2 * p + 2 * a"
  proof -
    have "2 * p + (2 * r + a) mod (2 * a) = 2 * r + a"
      unfolding p2 [symmetric] r2 [symmetric] q_def nearest_def by (rule mult_div_mod_eq)
    moreover have "0 \<le> (2 * r + a) mod (2 * a)" "(2 * r + a) mod (2 * a) < 2 * a" using assms(1) by simp_all
    ultimately show "2 * p \<le> 2 * r + a" "2 * r + a < 2 * p + 2 * a" by linarith+
  qed
  have d: "2 * int (Suc i) * b + a = 2 * r + 2 * b + a" by (simp add: r_def distrib_left distrib_right)
  have n: "nearest a b (Suc i) = (if di < 0 then q else q + 1)"
  proof (cases "di < 0")
    case True
    have "(2 * r + 2 * b + a) div (2 * a) = q"
      by (rule int_div_pos_eq [of _ _ _ "2 * r + 2 * b + a - 2 * p"]) (use True q dv assms(2) in \<open>simp_all add: p2\<close>)
    then show ?thesis using True unfolding nearest_def d by simp
  next
    case False
    have "2 * a * (q + 1) = 2 * p + 2 * a" by (simp add: p_def distrib_left)
    then have "(2 * r + 2 * b + a) div (2 * a) = q + 1"
      by (intro int_div_pos_eq [of _ _ _ "2 * r + 2 * b + a - 2 * p - 2 * a"]) (use False q dv assms(3) in simp_all)
    then show ?thesis using False unfolding nearest_def d by simp
  qed
  then show "nearest a b (Suc i) = (if di < 0 then nearest a b i else nearest a b i + 1)" by (simp add: q_def)
  have "2 * b * (int (Suc i) + 1) = 2 * r + 4 * b" by (simp add: r_def distrib_left)
  moreover have "2 * a * (q + 1) = 2 * p + 2 * a" by (simp add: p_def distrib_left)
  ultimately show "2 * b * (int (Suc i) + 1) - a - 2 * a * nearest a b (Suc i) = (if di < 0 then di + 2 * b else di + (2 * b - 2 * a))"
    using n dv p2 by simp
qed

lemma di_range:
  assumes "0 < a" "0 \<le> b" "b \<le> a" "a < 2 ^ 30"
  shows "wrap32 (2 * b * (int i + 1) - a - 2 * a * nearest a b i) = 2 * b * (int i + 1) - a - 2 * a * nearest a b i"
proof -
  define m where "m = 2 * int i * b + a"
  have m: "2 * a * nearest a b i + m mod (2 * a) = m" unfolding nearest_def m_def by (rule mult_div_mod_eq)
  define q where "q = m mod (2 * a)"
  have r: "0 \<le> q" "q < 2 * a" using assms(1) by (simp_all add: q_def)
  have "2 * b * (int i + 1) = m - a + 2 * b" by (simp add: m_def algebra_simps)
  then have e: "2 * b * (int i + 1) - a - 2 * a * nearest a b i = q + 2 * b - 2 * a" using m q_def by linarith
  have "- (2 ^ 31) \<le> q + 2 * b - 2 * a" "q + 2 * b - 2 * a < 2 ^ 31" using r assms by simp_all
  then show ?thesis unfolding e by (rule wrap32_id)
qed

lemma di_next:
  assumes "0 < a" "0 \<le> b" "b \<le> a" "a < 2 ^ 30" "di = 2 * b * (int i + 1) - a - 2 * a * nearest a b i"
  shows "di < 0 \<Longrightarrow> wrap32 (di + 2 * b) = di + 2 * b"
    and "\<not> di < 0 \<Longrightarrow> wrap32 (di + wrap32 (2 * b - 2 * a)) = di + (2 * b - 2 * a)"
proof -
  note st = nearest_step(2) [OF assms(1-3,5)] and w = di_range [OF assms(1-4), of "Suc i"]
  show "di < 0 \<Longrightarrow> wrap32 (di + 2 * b) = di + 2 * b" using w unfolding st by simp
  have "wrap32 (2 * b - 2 * a) = 2 * b - 2 * a" using assms by (intro wrap32_id) simp_all
  then show "\<not> di < 0 \<Longrightarrow> wrap32 (di + wrap32 (2 * b - 2 * a)) = di + (2 * b - 2 * a)" using w unfolding st by simp
qed

lemma move_advance:
  "advance up (move up v k) = move up v (k + 1)" "move up v 0 = v"
  by (simp_all add: advance_def move_def)

lemma move_differs:
  assumes "0 \<le> k" "k < n" "n < 2 ^ 32"
  shows "move up v k \<noteq> move up v n"
proof -
  have "(of_int k :: u32) \<noteq> of_int n"
  proof
    assume "(of_int k :: u32) = of_int n"
    then have "uint (of_int k :: u32) = uint (of_int n :: u32)" by simp
    then show False using assms by (simp add: uint_word_of_int)
  qed
  then show ?thesis by (simp add: move_def)
qed

abbreviation dots :: "u32 \<Rightarrow> (u32 \<times> u32) list \<Rightarrow> gui \<Rightarrow> fault + gui" where
  "dots color ps \<equiv> foldE (\<lambda>(x, y). GUI_Point x y color) ps"

lemma line_x_points:
  assumes "0 < a" "a < 2 ^ 30" "0 \<le> b" "b \<le> a"
  shows "i + n = nat a \<Longrightarrow> di = 2 * b * (int i + 1) - a - 2 * a * nearest a b i \<Longrightarrow>
    line_x ux uy (2 * b) (2 * a) (move ux x0 a) color di (move ux x0 (int i)) (move uy y0 (nearest a b i)) s =
      dots color (map (points_from False ux uy a b x0 y0) [i..<Suc (nat a)]) s"
proof (induction n arbitrary: i di s)
  case 0
  then have "int i = a" using assms(1) by simp
  then show ?case using "0.prems"(1) by (subst line_x.simps) (simp add: points_from_def bindE_def split: sum.split)
next
  case (Suc n)
  then have i: "int i < a" "i < nat a" using assms(1) by linarith+
  have ne: "move ux x0 (int i) \<noteq> move ux x0 a" using move_differs [of "int i" a] i assms(2) by simp
  note st = nearest_step [OF assms(1,3,4) Suc.prems(2)]
  note di = di_next [OF assms(1,3,4,2) Suc.prems(2)]
  have "line_x ux uy (2 * b) (2 * a) (move ux x0 a) color (if di < 0 then di + 2 * b else di + (2 * b - 2 * a))
      (move ux x0 (int i + 1)) (move uy y0 (nearest a b (Suc i))) s' =
      dots color (map (points_from False ux uy a b x0 y0) [Suc i..<Suc (nat a)]) s'" for s'
    using Suc.IH [of "Suc i" _ s', OF _ refl] Suc.prems(1) unfolding st(2) by (simp add: add.commute)
  moreover have "[i..<Suc (nat a)] = i # [Suc i..<Suc (nat a)]" using i by (simp add: upt_rec)
  ultimately show ?case
    using ne st(1) by (subst line_x.simps, cases "di < 0"; cases "GUI_Point (move ux x0 (int i)) (move uy y0 (nearest a b i)) color s";
        simp only: di foldE.simps list.map points_from_def move_advance bindE_def Let_def if_True if_False sum.case prod.case refl)
qed

lemma line_y_points:
  assumes "0 < a" "a < 2 ^ 30" "0 \<le> b" "b \<le> a"
  shows "i + n = nat a \<Longrightarrow> di = 2 * b * (int i + 1) - a - 2 * a * nearest a b i \<Longrightarrow>
    line_y ux uy (2 * b) (2 * a) (move uy y0 a) color di (move ux x0 (nearest a b i)) (move uy y0 (int i)) s =
      dots color (map (points_from True uy ux a b y0 x0) [i..<Suc (nat a)]) s"
proof (induction n arbitrary: i di s)
  case 0
  then have "int i = a" using assms(1) by simp
  then show ?case using "0.prems"(1) by (subst line_y.simps) (simp add: points_from_def bindE_def split: sum.split)
next
  case (Suc n)
  then have i: "int i < a" "i < nat a" using assms(1) by linarith+
  have ne: "move uy y0 (int i) \<noteq> move uy y0 a" using move_differs [of "int i" a] i assms(2) by simp
  note st = nearest_step [OF assms(1,3,4) Suc.prems(2)]
  note di = di_next [OF assms(1,3,4,2) Suc.prems(2)]
  have "line_y ux uy (2 * b) (2 * a) (move uy y0 a) color (if di < 0 then di + 2 * b else di + (2 * b - 2 * a))
      (move ux x0 (nearest a b (Suc i))) (move uy y0 (int i + 1)) s' =
      dots color (map (points_from True uy ux a b y0 x0) [Suc i..<Suc (nat a)]) s'" for s'
    using Suc.IH [of "Suc i" _ s', OF _ refl] Suc.prems(1) unfolding st(2) by (simp add: add.commute)
  moreover have "[i..<Suc (nat a)] = i # [Suc i..<Suc (nat a)]" using i by (simp add: upt_rec)
  ultimately show ?case
    using ne st(1) by (subst line_y.simps, cases "di < 0"; cases "GUI_Point (move ux x0 (nearest a b i)) (move uy y0 (int i)) color s";
        simp only: di foldE.simps list.map points_from_def move_advance bindE_def Let_def if_True if_False sum.case prod.case refl)
qed

lemma sint_diff_eq_0 [simp]: "sint (x1 - x0 :: u32) = 0 \<longleftrightarrow> x1 = x0"
proof
  assume z: "sint (x1 - x0) = 0"
  have "x1 - x0 = of_int (sint (x1 - x0))" by (simp add: scast_id)
  then have "x1 - x0 = of_int 0" by (simp only: z)
  then show "x1 = x0" by simp
qed simp

lemma move_to_end: "move (sint (x1 - x0) > 0) x0 \<bar>sint (x1 - x0)\<bar> = (x1 :: u32)"
proof -
  have "(of_int (sint (x1 - x0)) :: u32) = x1 - x0" by (simp add: scast_id)
  then show ?thesis
    by (cases "0 < sint (x1 - x0)") (auto simp: move_def abs_if not_less)
qed

text \<open>
  (C39) A line that is neither horizontal nor vertical is the nearest one: the loops with their decision variable draw exactly the points of
  the reference, in its order, each within half a pixel of the ideal line, from the first to the second end.  The differences of the coordinates
  have to be below \<open>2 ^ 30\<close>, far above those of any screen; beyond, the doubled differences, which are numbers of 32 bits, wrap.
\<close>

theorem line_is_nearest:
  assumes "x0 \<noteq> x1" "y0 \<noteq> y1" "\<bar>sint (x1 - x0)\<bar> < 2 ^ 30" "\<bar>sint (y1 - y0)\<bar> < 2 ^ 30"
  shows "GUI_Line x0 y0 x1 y1 color s = bindE (dots color (ideal_line x0 y0 x1 y1) s) (\<lambda>s'. Inr (Some s'))"
proof -
  define dx where "dx = sint (x1 - x0)"
  define dy where "dy = sint (y1 - y0)"
  have nz: "dx \<noteq> 0" "dy \<noteq> 0" using assms by (auto simp: dx_def dy_def)
  have lim: "\<bar>dx\<bar> < 2 ^ 30" "\<bar>dy\<bar> < 2 ^ 30" using assms(3,4) by (simp_all add: dx_def dy_def)
  have ends: "move (dx > 0) x0 \<bar>dx\<bar> = x1" "move (dy > 0) y0 \<bar>dy\<bar> = y1"
    by (simp_all add: dx_def dy_def move_to_end)
  have w: "wrap32 ((if dx > 0 then 1 else -1) * dx) = \<bar>dx\<bar>" "wrap32 ((if dy > 0 then 1 else -1) * dy) = \<bar>dy\<bar>"
    "wrap32 (\<bar>dx\<bar> * 2) = 2 * \<bar>dx\<bar>" "wrap32 (\<bar>dy\<bar> * 2) = 2 * \<bar>dy\<bar>"
    "wrap32 (2 * \<bar>dx\<bar> - \<bar>dy\<bar>) = 2 * \<bar>dx\<bar> - \<bar>dy\<bar>" "wrap32 (2 * \<bar>dy\<bar> - \<bar>dx\<bar>) = 2 * \<bar>dy\<bar> - \<bar>dx\<bar>"
    using lim nz by (auto simp: wrap32_id)
  have line: "GUI_Line x0 y0 x1 y1 color s =
      bindE (if \<bar>dx\<bar> \<ge> \<bar>dy\<bar> then line_x (dx > 0) (dy > 0) (2 * \<bar>dy\<bar>) (2 * \<bar>dx\<bar>) x1 color (2 * \<bar>dy\<bar> - \<bar>dx\<bar>) x0 y0 s
             else line_y (dx > 0) (dy > 0) (2 * \<bar>dx\<bar>) (2 * \<bar>dy\<bar>) y1 color (2 * \<bar>dx\<bar> - \<bar>dy\<bar>) x0 y0 s) (\<lambda>s'. Inr (Some s'))"
    unfolding GUI_Line_def Let_def dx_def [symmetric] dy_def [symmetric] w using nz by simp
  show ?thesis
  proof (cases "\<bar>dx\<bar> \<ge> \<bar>dy\<bar>")
    case True
    have "line_x (dx > 0) (dy > 0) (2 * \<bar>dy\<bar>) (2 * \<bar>dx\<bar>) x1 color (2 * \<bar>dy\<bar> - \<bar>dx\<bar>) x0 y0 s =
        dots color (map (points_from False (dx > 0) (dy > 0) \<bar>dx\<bar> \<bar>dy\<bar> x0 y0) [0..<Suc (nat \<bar>dx\<bar>)]) s"
      using line_x_points [of "\<bar>dx\<bar>" "\<bar>dy\<bar>" 0 "nat \<bar>dx\<bar>" "2 * \<bar>dy\<bar> - \<bar>dx\<bar>" "dx > 0" "dy > 0" x0 color y0 s] True nz lim(1) ends(1)
      by (simp add: nearest_0 move_advance(2))
    then show ?thesis using True by (simp add: line ideal_line_def Let_def dx_def [symmetric] dy_def [symmetric])
  next
    case False
    have "line_y (dx > 0) (dy > 0) (2 * \<bar>dx\<bar>) (2 * \<bar>dy\<bar>) y1 color (2 * \<bar>dx\<bar> - \<bar>dy\<bar>) x0 y0 s =
        dots color (map (points_from True (dy > 0) (dx > 0) \<bar>dy\<bar> \<bar>dx\<bar> y0 x0) [0..<Suc (nat \<bar>dy\<bar>)]) s"
      using line_y_points [of "\<bar>dy\<bar>" "\<bar>dx\<bar>" 0 "nat \<bar>dy\<bar>" "2 * \<bar>dx\<bar> - \<bar>dy\<bar>" "dx > 0" "dy > 0" y0 color x0 s] False nz lim(2) ends(2)
      by (simp add: nearest_0 move_advance(2))
    then show ?thesis using False by (simp add: line ideal_line_def Let_def dx_def [symmetric] dy_def [symmetric])
  qed
qed

definition a_screen :: gui where
  "a_screen = \<lparr>bits_per_pixel = 32, xres = 8, yres = 8, outBuff = (\<lambda>_. 0), sysFb = (\<lambda>_. 0), rdBuff = [], disp_color = 0, back_color = 0,
     lcd_x = 0, lcd_y = 0, cur_area = 0\<rparr>"

theorem line_is_nearest_witness:
  "GUI_Line 7 1 2 3 5 a_screen = bindE (dots 5 (ideal_line 7 1 2 3) a_screen) (\<lambda>s'. Inr (Some s'))
   \<and> ideal_line 7 1 2 3 = [(7, 1), (6, 1), (5, 2), (4, 2), (3, 3), (2, 3)]"
  by (rule conjI, rule line_is_nearest) (simp, simp, code_simp, code_simp, code_simp)

end
