(* ===== verification/Gui_Font.thy ===== *)
theory Gui_Font
  imports Prelude
begin

text \<open>
  The fonts of the program that shows messages on the screen, \<^verbatim>\<open>hal/lidbg_gui/FONT8_8.c\<close>, \<^verbatim>\<open>font5_7.c\<close> and \<^verbatim>\<open>font24_32.c\<close>: for each character its rows,
  eight points in a byte.  The tables are cut into groups of characters.
\<close>

definition font8_0 :: "byte list list" where
  "font8_0 = [
    [0, 0, 0, 0, 0, 0, 0, 0],
    [0x18, 0x3c, 0x3c, 0x18, 0x18, 0, 0x18, 0],
    [0x66, 0x66, 0x24, 0, 0, 0, 0, 0],
    [0x6c, 0x6c, 0xfe, 0x6c, 0xfe, 0x6c, 0x6c, 0],
    [0x18, 0x3e, 0x60, 0x3c, 0x06, 0x7c, 0x18, 0],
    [0, 0xc6, 0xcc, 0x18, 0x30, 0x66, 0xc6, 0],
    [0x38, 0x6c, 0x38, 0x76, 0xdc, 0xcc, 0x76, 0],
    [0x18, 0x18, 0x30, 0, 0, 0, 0, 0],
    [0x0c, 0x18, 0x30, 0x30, 0x30, 0x18, 0x0c, 0],
    [0x30, 0x18, 0x0c, 0x0c, 0x0c, 0x18, 0x30, 0],
    [0, 0x66, 0x3c, 0xff, 0x3c, 0x66, 0, 0],
    [0, 0x18, 0x18, 0x7e, 0x18, 0x18, 0, 0]]"

definition font8_1 :: "byte list list" where
  "font8_1 = [
    [0, 0, 0, 0, 0, 0x18, 0x18, 0x30],
    [0, 0, 0, 0x7e, 0, 0, 0, 0],
    [0, 0, 0, 0, 0, 0x18, 0x18, 0],
    [0x06, 0x0c, 0x18, 0x30, 0x60, 0xc0, 0x80, 0],
    [0x38, 0x6c, 0xc6, 0xc6, 0xc6, 0x6c, 0x38, 0],
    [0x18, 0x38, 0x18, 0x18, 0x18, 0x18, 0x7e, 0],
    [0x7c, 0xc6, 0x06, 0x1c, 0x30, 0x66, 0xfe, 0],
    [0x7c, 0xc6, 0x06, 0x3c, 0x06, 0xc6, 0x7c, 0],
    [0x1c, 0x3c, 0x6c, 0xcc, 0xfe, 0x0c, 0x1e, 0],
    [0xfe, 0xc0, 0xc0, 0xfc, 0x06, 0xc6, 0x7c, 0],
    [0x38, 0x60, 0xc0, 0xfc, 0xc6, 0xc6, 0x7c, 0],
    [0xfe, 0xc6, 0x0c, 0x18, 0x30, 0x30, 0x30, 0]]"

definition font8_2 :: "byte list list" where
  "font8_2 = [
    [0x7c, 0xc6, 0xc6, 0x7c, 0xc6, 0xc6, 0x7c, 0],
    [0x7c, 0xc6, 0xc6, 0x7e, 0x06, 0x0c, 0x78, 0],
    [0, 0x18, 0x18, 0, 0, 0x18, 0x18, 0],
    [0, 0x18, 0x18, 0, 0, 0x18, 0x18, 0x30],
    [0x06, 0x0c, 0x18, 0x30, 0x18, 0x0c, 0x06, 0],
    [0, 0, 0x7e, 0, 0, 0x7e, 0, 0],
    [0x60, 0x30, 0x18, 0x0c, 0x18, 0x30, 0x60, 0],
    [0x7c, 0xc6, 0x0c, 0x18, 0x18, 0, 0x18, 0],
    [0x7c, 0xc6, 0xde, 0xde, 0xde, 0xc0, 0x78, 0],
    [0x38, 0x6c, 0xc6, 0xfe, 0xc6, 0xc6, 0xc6, 0],
    [0xfc, 0x66, 0x66, 0x7c, 0x66, 0x66, 0xfc, 0],
    [0x3c, 0x66, 0xc0, 0xc0, 0xc0, 0x66, 0x3c, 0]]"

definition font8_3 :: "byte list list" where
  "font8_3 = [
    [0xf8, 0x6c, 0x66, 0x66, 0x66, 0x6c, 0xf8, 0],
    [0xfe, 0x62, 0x68, 0x78, 0x68, 0x62, 0xfe, 0],
    [0xfe, 0x62, 0x68, 0x78, 0x68, 0x60, 0xf0, 0],
    [0x3c, 0x66, 0xc0, 0xc0, 0xce, 0x66, 0x3a, 0],
    [0xc6, 0xc6, 0xc6, 0xfe, 0xc6, 0xc6, 0xc6, 0],
    [0x3c, 0x18, 0x18, 0x18, 0x18, 0x18, 0x3c, 0],
    [0x1e, 0x0c, 0x0c, 0x0c, 0xcc, 0xcc, 0x78, 0],
    [0xe6, 0x66, 0x6c, 0x78, 0x6c, 0x66, 0xe6, 0],
    [0xf0, 0x60, 0x60, 0x60, 0x62, 0x66, 0xfe, 0],
    [0xc6, 0xee, 0xfe, 0xfe, 0xd6, 0xc6, 0xc6, 0],
    [0xc6, 0xe6, 0xf6, 0xde, 0xce, 0xc6, 0xc6, 0],
    [0x7c, 0xc6, 0xc6, 0xc6, 0xc6, 0xc6, 0x7c, 0]]"

definition font8_4 :: "byte list list" where
  "font8_4 = [
    [0xfc, 0x66, 0x66, 0x7c, 0x60, 0x60, 0xf0, 0],
    [0x7c, 0xc6, 0xc6, 0xc6, 0xc6, 0xce, 0x7c, 0x0e],
    [0xfc, 0x66, 0x66, 0x7c, 0x6c, 0x66, 0xe6, 0],
    [0x3c, 0x66, 0x30, 0x18, 0x0c, 0x66, 0x3c, 0],
    [0x7e, 0x7e, 0x5a, 0x18, 0x18, 0x18, 0x3c, 0],
    [0xc6, 0xc6, 0xc6, 0xc6, 0xc6, 0xc6, 0x7c, 0],
    [0xc6, 0xc6, 0xc6, 0xc6, 0xc6, 0x6c, 0x38, 0],
    [0xc6, 0xc6, 0xc6, 0xd6, 0xd6, 0xfe, 0x6c, 0],
    [0xc6, 0xc6, 0x6c, 0x38, 0x6c, 0xc6, 0xc6, 0],
    [0x66, 0x66, 0x66, 0x3c, 0x18, 0x18, 0x3c, 0],
    [0xfe, 0xc6, 0x8c, 0x18, 0x32, 0x66, 0xfe, 0],
    [0x3c, 0x30, 0x30, 0x30, 0x30, 0x30, 0x3c, 0]]"

definition font8_5 :: "byte list list" where
  "font8_5 = [
    [0xc0, 0x60, 0x30, 0x18, 0x0c, 0x06, 0x02, 0],
    [0x3c, 0x0c, 0x0c, 0x0c, 0x0c, 0x0c, 0x3c, 0],
    [0x10, 0x38, 0x6c, 0xc6, 0, 0, 0, 0],
    [0, 0, 0, 0, 0, 0, 0, 0xff],
    [0x30, 0x18, 0x0c, 0, 0, 0, 0, 0],
    [0, 0, 0x78, 0x0c, 0x7c, 0xcc, 0x76, 0],
    [0xe0, 0x60, 0x7c, 0x66, 0x66, 0x66, 0xdc, 0],
    [0, 0, 0x7c, 0xc6, 0xc0, 0xc6, 0x7c, 0],
    [0x1c, 0x0c, 0x7c, 0xcc, 0xcc, 0xcc, 0x76, 0],
    [0, 0, 0x7c, 0xc6, 0xfe, 0xc0, 0x7c, 0],
    [0x3c, 0x66, 0x60, 0xf8, 0x60, 0x60, 0xf0, 0],
    [0, 0, 0x76, 0xcc, 0xcc, 0x7c, 0x0c, 0xf8]]"

definition font8_6 :: "byte list list" where
  "font8_6 = [
    [0xe0, 0x60, 0x6c, 0x76, 0x66, 0x66, 0xe6, 0],
    [0x18, 0, 0x38, 0x18, 0x18, 0x18, 0x3c, 0],
    [0x06, 0, 0x06, 0x06, 0x06, 0x66, 0x66, 0x3c],
    [0xe0, 0x60, 0x66, 0x6c, 0x78, 0x6c, 0xe6, 0],
    [0x38, 0x18, 0x18, 0x18, 0x18, 0x18, 0x3c, 0],
    [0, 0, 0xec, 0xfe, 0xd6, 0xd6, 0xd6, 0],
    [0, 0, 0xdc, 0x66, 0x66, 0x66, 0x66, 0],
    [0, 0, 0x7c, 0xc6, 0xc6, 0xc6, 0x7c, 0],
    [0, 0, 0xdc, 0x66, 0x66, 0x7c, 0x60, 0xf0],
    [0, 0, 0x76, 0xcc, 0xcc, 0x7c, 0x0c, 0x1e],
    [0, 0, 0xdc, 0x76, 0x60, 0x60, 0xf0, 0],
    [0, 0, 0x7e, 0xc0, 0x7c, 0x06, 0xfc, 0]]"

definition font8_7 :: "byte list list" where
  "font8_7 = [
    [0x30, 0x30, 0xfc, 0x30, 0x30, 0x36, 0x1c, 0],
    [0, 0, 0xcc, 0xcc, 0xcc, 0xcc, 0x76, 0],
    [0, 0, 0xc6, 0xc6, 0xc6, 0x6c, 0x38, 0],
    [0, 0, 0xc6, 0xd6, 0xd6, 0xfe, 0x6c, 0],
    [0, 0, 0xc6, 0x6c, 0x38, 0x6c, 0xc6, 0],
    [0, 0, 0xc6, 0xc6, 0xc6, 0x7e, 0x06, 0xfc],
    [0, 0, 0x7e, 0x4c, 0x18, 0x32, 0x7e, 0],
    [0x0e, 0x18, 0x18, 0x70, 0x18, 0x18, 0x0e, 0],
    [0x18, 0x18, 0x18, 0x18, 0x18, 0x18, 0x18, 0],
    [0x70, 0x18, 0x18, 0x0e, 0x18, 0x18, 0x70, 0],
    [0x76, 0xdc, 0, 0, 0, 0, 0, 0],
    [0xfc, 0xfc, 0xfc, 0xfc, 0xfc, 0xfc, 0xfc, 0]]"

definition FONT8x8ASCII :: "byte list list" where
  "FONT8x8ASCII = font8_0 @ font8_1 @ font8_2 @ font8_3 @ font8_4 @ font8_5 @ font8_6 @ font8_7"

definition font5_0 :: "byte list list" where
  "font5_0 = [
    [0, 0, 0, 0, 0, 0, 0, 0],
    [0x80, 0x80, 0x80, 0x80, 0x80, 0, 0x80, 0],
    [0xa0, 0xa0, 0xa0, 0, 0, 0, 0, 0],
    [0x50, 0x50, 0xf8, 0x50, 0xf8, 0x50, 0x50, 0],
    [0x20, 0x78, 0xa0, 0x70, 0x28, 0xf0, 0x20, 0],
    [0xc0, 0xc8, 0x10, 0x20, 0x40, 0x98, 0x18, 0],
    [0x60, 0x90, 0xa0, 0x40, 0xa8, 0x90, 0x68, 0],
    [0xc0, 0x40, 0x80, 0, 0, 0, 0, 0],
    [0x20, 0x40, 0x80, 0x80, 0x80, 0x40, 0x20, 0],
    [0x80, 0x40, 0x20, 0x20, 0x20, 0x40, 0x80, 0],
    [0, 0x50, 0x20, 0xf8, 0x20, 0x50, 0, 0],
    [0, 0x20, 0x20, 0xf8, 0x20, 0x20, 0, 0]]"

definition font5_1 :: "byte list list" where
  "font5_1 = [
    [0, 0, 0, 0, 0, 0xc0, 0x40, 0x80],
    [0, 0, 0, 0xf8, 0, 0, 0, 0],
    [0, 0, 0, 0, 0, 0xc0, 0xc0, 0],
    [0, 0x08, 0x10, 0x20, 0x40, 0x80, 0, 0],
    [0x70, 0x88, 0x98, 0xa8, 0xc8, 0x88, 0x70, 0],
    [0x20, 0x60, 0x20, 0x20, 0x20, 0x20, 0x70, 0],
    [0x70, 0x88, 0x08, 0x30, 0x40, 0x80, 0xf8, 0],
    [0x70, 0x88, 0x08, 0x30, 0x08, 0x88, 0x70, 0],
    [0x10, 0x30, 0x50, 0x90, 0xf8, 0x10, 0x10, 0],
    [0xf8, 0x80, 0xf0, 0x08, 0x08, 0x88, 0x70, 0],
    [0x30, 0x40, 0x80, 0xf0, 0x88, 0x88, 0x70, 0],
    [0xf8, 0x08, 0x10, 0x20, 0x40, 0x40, 0x40, 0]]"

definition font5_2 :: "byte list list" where
  "font5_2 = [
    [0x70, 0x88, 0x88, 0x70, 0x88, 0x88, 0x70, 0],
    [0x70, 0x88, 0x88, 0x78, 0x08, 0x10, 0x60, 0],
    [0, 0xc0, 0xc0, 0, 0xc0, 0xc0, 0, 0],
    [0, 0, 0xc0, 0xc0, 0, 0xc0, 0x40, 0x80],
    [0x10, 0x20, 0x40, 0x80, 0x40, 0x20, 0x10, 0],
    [0, 0, 0xf8, 0, 0xf8, 0, 0, 0],
    [0x80, 0x40, 0x20, 0x10, 0x20, 0x40, 0x80, 0],
    [0x70, 0x88, 0x08, 0x10, 0x20, 0, 0x20, 0],
    [0x70, 0x88, 0x08, 0x68, 0xa8, 0xa8, 0x70, 0],
    [0x70, 0x88, 0x88, 0xf8, 0x88, 0x88, 0x88, 0],
    [0xf0, 0x88, 0x88, 0xf0, 0x88, 0x88, 0xf0, 0],
    [0x70, 0x88, 0x80, 0x80, 0x80, 0x88, 0x70, 0]]"

definition font5_3 :: "byte list list" where
  "font5_3 = [
    [0xe0, 0x90, 0x88, 0x88, 0x88, 0x90, 0xe0, 0],
    [0xf8, 0x80, 0x80, 0xf0, 0x80, 0x80, 0xf8, 0],
    [0xf8, 0x80, 0x80, 0xf0, 0x80, 0x80, 0x80, 0],
    [0x70, 0x88, 0x80, 0x80, 0x98, 0x88, 0x78, 0],
    [0x88, 0x88, 0x88, 0xf8, 0x88, 0x88, 0x88, 0],
    [0xe0, 0x40, 0x40, 0x40, 0x40, 0x40, 0xe0, 0],
    [0x38, 0x10, 0x10, 0x10, 0x10, 0x90, 0x60, 0],
    [0x88, 0x90, 0xa0, 0xc0, 0xa0, 0x90, 0x88, 0],
    [0x80, 0x80, 0x80, 0x80, 0x80, 0x80, 0xf8, 0],
    [0x88, 0xd8, 0xa8, 0xa8, 0x88, 0x88, 0x88, 0],
    [0x88, 0x88, 0xc8, 0xa8, 0x98, 0x88, 0x88, 0],
    [0x70, 0x88, 0x88, 0x88, 0x88, 0x88, 0x70, 0]]"

definition font5_4 :: "byte list list" where
  "font5_4 = [
    [0xf0, 0x88, 0x88, 0xf0, 0x80, 0x80, 0x80, 0],
    [0x70, 0x88, 0x88, 0x88, 0xa8, 0x90, 0x68, 0],
    [0xf0, 0x88, 0x88, 0xf0, 0xa0, 0x90, 0x88, 0],
    [0x70, 0x88, 0x80, 0x70, 0x08, 0x88, 0x70, 0],
    [0xf8, 0x20, 0x20, 0x20, 0x20, 0x20, 0x20, 0],
    [0x88, 0x88, 0x88, 0x88, 0x88, 0x88, 0x70, 0],
    [0x88, 0x88, 0x88, 0x88, 0x88, 0x50, 0x20, 0],
    [0x88, 0x88, 0x88, 0xa8, 0xa8, 0xa8, 0x50, 0],
    [0x88, 0x88, 0x50, 0x20, 0x50, 0x88, 0x88, 0],
    [0x88, 0x88, 0x50, 0x20, 0x20, 0x20, 0x20, 0],
    [0xf8, 0x08, 0x10, 0x20, 0x40, 0x80, 0xf8, 0],
    [0xe0, 0x80, 0x80, 0x80, 0x80, 0x80, 0xe0, 0]]"

definition font5_5 :: "byte list list" where
  "font5_5 = [
    [0, 0x80, 0x40, 0x20, 0x10, 0x08, 0, 0],
    [0xe0, 0x20, 0x20, 0x20, 0x20, 0x20, 0xe0, 0],
    [0x20, 0x50, 0x88, 0, 0, 0, 0, 0],
    [0, 0, 0, 0, 0, 0, 0, 0xf8],
    [0x80, 0x40, 0x20, 0, 0, 0, 0, 0],
    [0, 0, 0x70, 0x08, 0x78, 0x88, 0x78, 0],
    [0x80, 0x80, 0xb0, 0xc8, 0x88, 0x88, 0xf0, 0],
    [0, 0, 0x60, 0x90, 0x80, 0x90, 0x60, 0],
    [0x08, 0x08, 0x68, 0x98, 0x88, 0x88, 0x78, 0],
    [0, 0, 0x70, 0x88, 0xf8, 0x80, 0x70, 0],
    [0x20, 0x50, 0x40, 0xe0, 0x40, 0x40, 0x40, 0],
    [0, 0, 0x78, 0x88, 0x88, 0x78, 0x08, 0x70]]"

definition font5_6 :: "byte list list" where
  "font5_6 = [
    [0x80, 0x80, 0xb0, 0xc8, 0x88, 0x88, 0x88, 0],
    [0x40, 0, 0x40, 0x40, 0x40, 0x40, 0x40, 0],
    [0x20, 0, 0x60, 0x20, 0x20, 0x20, 0x20, 0xc0],
    [0x80, 0x80, 0x90, 0xa0, 0xc0, 0xa0, 0x90, 0],
    [0xc0, 0x40, 0x40, 0x40, 0x40, 0x40, 0xe0, 0],
    [0, 0, 0xd0, 0xa8, 0xa8, 0x88, 0x88, 0],
    [0, 0, 0xb0, 0xd0, 0x90, 0x90, 0x90, 0],
    [0, 0, 0x60, 0x90, 0x90, 0x90, 0x60, 0],
    [0, 0, 0xe0, 0x90, 0x90, 0xe0, 0x80, 0x80],
    [0, 0, 0x70, 0x90, 0x90, 0x70, 0x10, 0x10],
    [0, 0, 0x50, 0x60, 0x40, 0x40, 0x40, 0],
    [0, 0, 0x70, 0x80, 0x60, 0x10, 0xe0, 0]]"

definition font5_7 :: "byte list list" where
  "font5_7 = [
    [0x40, 0x40, 0xe0, 0x40, 0x40, 0x40, 0x60, 0],
    [0, 0, 0x90, 0x90, 0x90, 0x90, 0x70, 0],
    [0, 0, 0x88, 0x88, 0x88, 0x50, 0x20, 0],
    [0, 0, 0x88, 0x88, 0xa8, 0xa8, 0x50, 0],
    [0, 0, 0x88, 0x50, 0x20, 0x50, 0x88, 0],
    [0, 0, 0x90, 0x90, 0x90, 0x70, 0x10, 0x60],
    [0, 0, 0xf8, 0x10, 0x20, 0x40, 0xf8, 0],
    [0x20, 0x40, 0x40, 0x80, 0x40, 0x40, 0x20, 0],
    [0x40, 0x40, 0x40, 0x40, 0x40, 0x40, 0x40, 0],
    [0x80, 0x40, 0x40, 0x20, 0x40, 0x40, 0x80, 0],
    [0x68, 0x90, 0, 0, 0, 0, 0, 0],
    [0xf8, 0xf8, 0xf8, 0xf8, 0xf8, 0xf8, 0xf8, 0]]"

definition FONT5x7ASCII :: "byte list list" where
  "FONT5x7ASCII = font5_0 @ font5_1 @ font5_2 @ font5_3 @ font5_4 @ font5_5 @ font5_6 @ font5_7"

definition font24_0 :: "byte list list" where
  "font24_0 = [
    [0, 0x7f, 0, 1, 0xff, 0xc0, 0x03, 0xff, 0xe0, 0x07, 0xff, 0xf0, 0x0f, 0xe3, 0xf8, 0x0f, 0x80, 0xf8, 0x1f, 0, 0x7c, 0x1f, 0, 0x7c,
     0x1f, 0, 0x7c, 0x3e, 0, 0x3e, 0x3e, 0, 0x3e, 0x3e, 0, 0x3e, 0x3e, 0, 0x3e, 0x3e, 0, 0x3e, 0x3e, 0, 0x3e, 0x3e, 0, 0x3e,
     0x3e, 0, 0x3e, 0x3e, 0, 0x3e, 0x3e, 0, 0x3e, 0x3e, 0, 0x3e, 0x3e, 0, 0x3e, 0x3e, 0, 0x3e, 0x3e, 0, 0x3e, 0x1f, 0, 0x7c,
     0x1f, 0, 0x7c, 0x1f, 0, 0x7c, 0x0f, 0x80, 0xf8, 0x0f, 0xe3, 0xf8, 0x07, 0xff, 0xf0, 0x03, 0xff, 0xe0, 1, 0xff, 0xc0, 0, 0x7f, 0],
    [0, 0x03, 0xc0, 0, 0x03, 0xc0, 0, 0x07, 0xc0, 0, 0x07, 0xc0, 0, 0x0f, 0xc0, 0, 0x3f, 0xc0, 0x03, 0xff, 0xc0, 0x03, 0xff, 0xc0,
     0x03, 0xff, 0xc0, 0x03, 0xff, 0xc0, 0, 0x07, 0xc0, 0, 0x07, 0xc0, 0, 0x07, 0xc0, 0, 0x07, 0xc0, 0, 0x07, 0xc0, 0, 0x07, 0xc0,
     0, 0x07, 0xc0, 0, 0x07, 0xc0, 0, 0x07, 0xc0, 0, 0x07, 0xc0, 0, 0x07, 0xc0, 0, 0x07, 0xc0, 0, 0x07, 0xc0, 0, 0x07, 0xc0,
     0, 0x07, 0xc0, 0, 0x07, 0xc0, 0, 0x07, 0xc0, 0, 0x07, 0xc0, 0, 0x07, 0xc0, 0, 0x07, 0xc0, 0, 0x07, 0xc0, 0, 0x07, 0xc0],
    [0, 0x7f, 0x80, 1, 0xff, 0xe0, 0x03, 0xff, 0xf0, 0x07, 0xff, 0xf8, 0x0f, 0xe1, 0xfc, 0x1f, 0x80, 0xfc, 0x1f, 0, 0x7e, 0x3e, 0, 0x3e,
     0x3e, 0, 0x3e, 0x3e, 0, 0x3e, 0, 0, 0x3e, 0, 0, 0x3e, 0, 0, 0x3e, 0, 0, 0x7e, 0, 0, 0xfc, 0, 1, 0xfc,
     0, 0x07, 0xf8, 0, 0x0f, 0xe0, 0, 0x3f, 0xc0, 0, 0x7f, 0x80, 1, 0xfe, 0, 0x03, 0xfc, 0, 0x07, 0xf0, 0, 0x0f, 0xe0, 0,
     0x0f, 0xc0, 0, 0x1f, 0x80, 0, 0x1f, 0, 0, 0x3f, 0xff, 0xfe, 0x3f, 0xff, 0xfe, 0x3f, 0xff, 0xfe, 0x3f, 0xff, 0xfe, 0x3f, 0xff, 0xfe],
    [0, 0x7e, 0, 0x03, 0xff, 0xc0, 0x07, 0xff, 0xe0, 0x0f, 0xff, 0xf0, 0x1f, 0x81, 0xf8, 0x1f, 0, 0xf8, 0x3e, 0, 0xfc, 0x3e, 0, 0x7c,
     0x3e, 0, 0x7c, 0x3e, 0, 0x7c, 0, 0, 0xf8, 0, 0, 0xf8, 0, 1, 0xf0, 0, 0x3f, 0xe0, 0, 0x3f, 0xc0, 0, 0x3f, 0xe0,
     0, 0x3f, 0xf8, 0, 1, 0xfc, 0, 0, 0x7c, 0, 0, 0x7e, 0, 0, 0x3e, 0, 0, 0x3e, 0x7c, 0, 0x3e, 0x7c, 0, 0x3e,
     0x7c, 0, 0x7e, 0x3e, 0, 0x7c, 0x3f, 0, 0xfc, 0x1f, 0x81, 0xf8, 0x0f, 0xff, 0xf0, 0x07, 0xff, 0xe0, 0x03, 0xff, 0xc0, 0, 0x7e, 0]]"

definition font24_1 :: "byte list list" where
  "font24_1 = [
    [0, 1, 0xf0, 0, 0x03, 0xf0, 0, 0x07, 0xf0, 0, 0x07, 0xf0, 0, 0x0f, 0xf0, 0, 0x1f, 0xf0, 0, 0x1e, 0xf0, 0, 0x3e, 0xf0,
     0, 0x7c, 0xf0, 0, 0x78, 0xf0, 0, 0xf8, 0xf0, 1, 0xf0, 0xf0, 1, 0xe0, 0xf0, 0x03, 0xe0, 0xf0, 0x07, 0xc0, 0xf0, 0x07, 0x80, 0xf0,
     0x0f, 0x80, 0xf0, 0x1f, 0, 0xf0, 0x1e, 0, 0xf0, 0x3e, 0, 0xf0, 0x3f, 0xff, 0xff, 0x3f, 0xff, 0xff, 0x3f, 0xff, 0xff, 0x3f, 0xff, 0xff,
     0, 0, 0xf0, 0, 0, 0xf0, 0, 0, 0xf0, 0, 0, 0xf0, 0, 0, 0xf0, 0, 0, 0xf0, 0, 0, 0xf0, 0, 0, 0xf0],
    [0x07, 0xff, 0xfc, 0x07, 0xff, 0xfc, 0x07, 0xff, 0xfc, 0x07, 0xff, 0xfc, 0x0f, 0x80, 0, 0x0f, 0x80, 0, 0x0f, 0x80, 0, 0x0f, 0x80, 0,
     0x0f, 0, 0, 0x0f, 0, 0, 0x0f, 0x1f, 0, 0x0f, 0x7f, 0xe0, 0x0f, 0xff, 0xf0, 0x1f, 0xff, 0xf8, 0x1f, 0xe1, 0xfc, 0x1f, 0x80, 0x7e,
     0x1f, 0, 0x3e, 0, 0, 0x3f, 0, 0, 0x1f, 0, 0, 0x1f, 0, 0, 0x1f, 0, 0, 0x1f, 0, 0, 0x1f, 0x3e, 0, 0x3f,
     0x3e, 0, 0x3e, 0x1f, 0, 0x7e, 0x1f, 0x80, 0xfc, 0x0f, 0xc3, 0xfc, 0x07, 0xff, 0xf8, 0x03, 0xff, 0xf0, 1, 0xff, 0xc0, 0, 0x3e, 0],
    [0, 0x3f, 0xc0, 0, 0xff, 0xf0, 1, 0xff, 0xf8, 0x03, 0xff, 0xfc, 0x07, 0xe0, 0x7c, 0x0f, 0xc0, 0x3e, 0x0f, 0x80, 0x1e, 0x1f, 0, 0x1e,
     0x1f, 0, 0, 0x1f, 0, 0, 0x3e, 0, 0, 0x3e, 0x1f, 0, 0x3e, 0x7f, 0xe0, 0x3e, 0xff, 0xf0, 0x3f, 0xff, 0xf8, 0x3f, 0xc0, 0xfc,
     0x3f, 0x80, 0x7e, 0x3f, 0, 0x3e, 0x3f, 0, 0x1f, 0x3e, 0, 0x1f, 0x3e, 0, 0x1f, 0x3e, 0, 0x1f, 0x1e, 0, 0x1f, 0x1f, 0, 0x1f,
     0x1f, 0, 0x1f, 0x0f, 0x80, 0x3e, 0x0f, 0x80, 0x7e, 0x07, 0xe0, 0xfc, 0x03, 0xff, 0xf8, 1, 0xff, 0xf0, 0, 0xff, 0xe0, 0, 0x1f, 0],
    [0x3f, 0xff, 0xff, 0x3f, 0xff, 0xff, 0x3f, 0xff, 0xff, 0x3f, 0xff, 0xff, 0x3f, 0xff, 0xff, 0, 0, 0x1f, 0, 0, 0x3e, 0, 0, 0x7c,
     0, 0, 0xf8, 0, 1, 0xf0, 0, 0x03, 0xe0, 0, 0x07, 0xe0, 0, 0x07, 0xc0, 0, 0x0f, 0xc0, 0, 0x1f, 0x80, 0, 0x1f, 0x80,
     0, 0x3f, 0, 0, 0x3f, 0, 0, 0x7e, 0, 0, 0x7e, 0, 0, 0x7e, 0, 0, 0xfc, 0, 0, 0xfc, 0, 0, 0xfc, 0,
     1, 0xf8, 0, 1, 0xf8, 0, 1, 0xf8, 0, 1, 0xf8, 0, 0x03, 0xf0, 0, 0x03, 0xf0, 0, 0x03, 0xf0, 0, 0x03, 0xf0, 0]]"

definition font24_2 :: "byte list list" where
  "font24_2 = [
    [0, 0x7f, 0x80, 1, 0xff, 0xe0, 0x07, 0xff, 0xf8, 0x0f, 0xff, 0xfc, 0x0f, 0xc0, 0xfc, 0x1f, 0x80, 0x7e, 0x1f, 0, 0x3e, 0x1f, 0, 0x3e,
     0x1f, 0, 0x3e, 0x1f, 0, 0x3e, 0x1f, 0x80, 0x7e, 0x0f, 0x80, 0x7c, 0x0f, 0xe1, 0xfc, 0x07, 0xff, 0xf8, 1, 0xff, 0xe0, 0x03, 0xff, 0xf0,
     0x0f, 0xff, 0xfc, 0x1f, 0xe1, 0xfe, 0x1f, 0, 0x3e, 0x3e, 0, 0x1f, 0x3e, 0, 0x1f, 0x3e, 0, 0x1f, 0x3e, 0, 0x1f, 0x3e, 0, 0x1f,
     0x3e, 0, 0x1f, 0x3f, 0, 0x3f, 0x1f, 0, 0x3e, 0x1f, 0xc0, 0xfe, 0x0f, 0xff, 0xfc, 0x07, 0xff, 0xf8, 0x03, 0xff, 0xf0, 0, 0xff, 0xc0],
    [0, 0x7f, 0x80, 1, 0xff, 0xe0, 0x03, 0xff, 0xf0, 0x07, 0xff, 0xf8, 0x0f, 0xc0, 0xfc, 0x1f, 0x80, 0x7c, 0x1f, 0, 0x3e, 0x1e, 0, 0x3e,
     0x3e, 0, 0x1f, 0x3e, 0, 0x1f, 0x3e, 0, 0x1f, 0x3e, 0, 0x1f, 0x3e, 0, 0x1f, 0x1e, 0, 0x3f, 0x1f, 0, 0x3f, 0x1f, 0x80, 0x7f,
     0x0f, 0xc1, 0xff, 0x07, 0xff, 0xff, 0x03, 0xff, 0xdf, 0, 0xff, 0x1f, 0, 0x3c, 0x1f, 0, 0, 0x3f, 0, 0, 0x3e, 0, 0, 0x3e,
     0x3e, 0, 0x7e, 0x3e, 0, 0x7c, 0x1f, 0, 0xf8, 0x1f, 0x81, 0xf8, 0x0f, 0xff, 0xf0, 0x07, 0xff, 0xe0, 0x03, 0xff, 0xc0, 0, 0xff, 0],
    [0, 0, 0, 0, 0, 0, 0, 0, 0, 0, 0, 0, 0, 0, 0, 0, 0, 0, 0, 0, 0, 0, 0, 0,
     0, 0, 0, 0, 0, 0, 0, 0, 0, 0, 0, 0, 0, 0, 0, 0, 0, 0, 0, 0, 0, 0, 0, 0,
     0, 0, 0, 0, 0, 0, 0, 0, 0, 0, 0, 0, 0, 0, 0, 0, 0, 0, 0, 0, 0, 0, 0, 0,
     0, 0, 0, 0, 0, 0, 0, 0, 0, 0, 0x1c, 0, 0, 0x3e, 0, 0, 0x3e, 0, 0, 0x3e, 0, 0, 0x1c, 0],
    [0, 0, 0, 0, 0, 0, 0, 0, 0, 0, 0, 0, 0, 0, 0, 0, 0, 0, 0, 0, 0, 0, 0, 0,
     0, 0x3c, 0, 0, 0x3c, 0, 0, 0x3c, 0, 0, 0x3c, 0, 0, 0x3c, 0, 0, 0x3c, 0, 0, 0x3c, 0, 0x3f, 0xff, 0xfc,
     0x3f, 0xff, 0xfc, 0x3f, 0xff, 0xfc, 0x3f, 0xff, 0xfc, 0, 0x3c, 0, 0, 0x3c, 0, 0, 0x3c, 0, 0, 0x3c, 0, 0, 0x3c, 0,
     0, 0x3c, 0, 0, 0x3c, 0, 0, 0, 0, 0, 0, 0, 0, 0, 0, 0, 0, 0, 0, 0, 0, 0, 0, 0]]"

definition font24_3 :: "byte list list" where
  "font24_3 = [
    [0, 0, 0, 0, 0, 0, 0, 0, 0, 0, 0, 0, 0, 0, 0, 0, 0, 0, 0, 0, 0, 0, 0, 0,
     0, 0, 0, 0, 0, 0, 0, 0, 0, 0, 0, 0, 0, 0, 0, 0, 0, 0, 0, 0, 0, 0x3f, 0xff, 0xfc,
     0x3f, 0xff, 0xfc, 0x3f, 0xff, 0xfc, 0x3f, 0xff, 0xfc, 0, 0, 0, 0, 0, 0, 0, 0, 0, 0, 0, 0, 0, 0, 0,
     0, 0, 0, 0, 0, 0, 0, 0, 0, 0, 0, 0, 0, 0, 0, 0, 0, 0, 0, 0, 0, 0, 0, 0],
    [0, 0, 0, 0, 0, 0, 0, 0, 0, 0, 0, 0, 0, 0, 0, 0, 0, 0, 0, 0, 0, 0, 0, 0,
     0, 0, 0, 0, 0, 0, 0, 0, 0, 0, 0, 0, 0, 0x1c, 0, 0, 0x3e, 0, 0, 0x3e, 0, 0, 0x3e, 0,
     0, 0x1c, 0, 0, 0, 0, 0, 0, 0, 0, 0, 0, 0, 0x1c, 0, 0, 0x3e, 0, 0, 0x3e, 0, 0, 0x3e, 0,
     0, 0x1c, 0, 0, 0, 0, 0, 0, 0, 0, 0, 0, 0, 0, 0, 0, 0, 0, 0, 0, 0, 0, 0, 0],
    [0, 0, 0, 0, 0, 0, 0, 0, 0, 0, 0, 0, 0, 0, 0, 0, 0, 0, 0, 0, 0, 0, 0, 0,
     0, 0, 0, 0, 0, 0, 0, 0, 0, 0, 0, 0, 0, 0, 0, 0, 0, 0, 0, 0, 0, 0, 0, 0,
     0, 0, 0, 0, 0, 0, 0, 0, 0, 0, 0, 0, 0, 0, 0, 0, 0, 0, 0, 0, 0, 0, 0, 0,
     0, 0, 0, 0, 0, 0, 0, 0, 0, 0, 0, 0, 0, 0, 0, 0, 0, 0, 0, 0, 0, 0, 0, 0]]"

definition FONT24x32 :: "byte list list" where
  "FONT24x32 = font24_0 @ font24_1 @ font24_2 @ font24_3"

lemmas font8_defs = FONT8x8ASCII_def font8_0_def font8_1_def font8_2_def font8_3_def font8_4_def font8_5_def font8_6_def font8_7_def

lemmas font5_defs = FONT5x7ASCII_def font5_0_def font5_1_def font5_2_def font5_3_def font5_4_def font5_5_def font5_6_def font5_7_def

text \<open>Every character from the blank on has its eight rows.\<close>

lemma font8_rows: "length FONT8x8ASCII = 96" "ch < 96 \<Longrightarrow> length (FONT8x8ASCII ! ch) = 8"
proof -
  show "length FONT8x8ASCII = 96" by (simp add: font8_defs)
  have "list_all (\<lambda>r. length r = 8) FONT8x8ASCII" by (simp add: font8_defs)
  with \<open>length FONT8x8ASCII = 96\<close> show "ch < 96 \<Longrightarrow> length (FONT8x8ASCII ! ch) = 8" by (simp add: list_all_length)
qed

lemma font5_rows: "length FONT5x7ASCII = 96" "ch < 96 \<Longrightarrow> length (FONT5x7ASCII ! ch) = 8"
proof -
  show "length FONT5x7ASCII = 96" by (simp add: font5_defs)
  have "list_all (\<lambda>r. length r = 8) FONT5x7ASCII" by (simp add: font5_defs)
  with \<open>length FONT5x7ASCII = 96\<close> show "ch < 96 \<Longrightarrow> length (FONT5x7ASCII ! ch) = 8" by (simp add: list_all_length)
qed

end
