(* ===== verification/Gui_Log.thy ===== *)
theory Gui_Log
  imports Gui_Draw Gui_Font
begin

text \<open>
  The text of the program that shows messages on the screen: characters and strings in the three fonts (\<^verbatim>\<open>FONT8_8.c\<close>, \<^verbatim>\<open>font5_7.c\<close>,
  \<^verbatim>\<open>font24_32.c\<close>), the console of \<^verbatim>\<open>debug_lcd_io.c\<close> with its cursor, and the thread and the start of \<^verbatim>\<open>lidbg_gui.c\<close>.

  The file with the messages is a sequence of results of \<open>read\<close>: \<open>None\<close> for one that fails, else the bytes.  \<open>screen_ok\<close> says what the program
  takes for granted of the screen; on such a screen no memory is left, and what is printed is what is seen.
\<close>

section \<open>Characters\<close>

definition DCB2HEX_TAB :: "byte list" where
  "DCB2HEX_TAB = [0x80, 0x40, 0x20, 0x10, 0x08, 0x04, 0x02, 0x01]"

definition glyph_dot :: "byte \<Rightarrow> nat \<Rightarrow> gui \<Rightarrow> u32" where
  "glyph_dot font_dat j s = (if font_dat AND (DCB2HEX_TAB ! j) = 0 then back_color s else disp_color s)"

definition glyph_row :: "byte \<Rightarrow> nat \<Rightarrow> u32 \<Rightarrow> u32 \<Rightarrow> gui \<Rightarrow> fault + gui" where
  "glyph_row font_dat w x y s = foldE (\<lambda>j s. GUI_Point (x + of_nat j) y (glyph_dot font_dat j s) s) [0..<w] s"

definition put_glyph :: "byte list \<Rightarrow> nat \<Rightarrow> u32 \<Rightarrow> u32 \<Rightarrow> gui \<Rightarrow> fault + gui" where
  "put_glyph rows w x y s = foldE (\<lambda>i. glyph_row (rows ! i) w x (y + of_nat i)) [0..<8] s"

definition ascii_index :: "byte \<Rightarrow> nat" where
  "ascii_index ch = unat ((if ch < 0x20 \<or> ch > 0x7f then 0x20 else ch) - 0x20)"

definition GUI_PutChar8_8 :: "u32 \<Rightarrow> u32 \<Rightarrow> byte \<Rightarrow> gui \<Rightarrow> fault + byte \<times> gui" where
  "GUI_PutChar8_8 x y ch s =
     (if x > of_nat (GUI_LCM_XMAX - 8) then Inr (0, s)
      else if y > of_nat (GUI_LCM_YMAX - 8) then Inr (0, s)
      else bindE (put_glyph (FONT8x8ASCII ! ascii_index ch) 8 x y s) (\<lambda>s'. Inr (1, s')))"

definition GUI_PutChar5_7 :: "u32 \<Rightarrow> u32 \<Rightarrow> byte \<Rightarrow> gui \<Rightarrow> fault + byte \<times> gui" where
  "GUI_PutChar5_7 x y ch s =
     (if x > of_nat (GUI_LCM_XMAX - 8) then Inr (0, s)
      else if y > of_nat (GUI_LCM_YMAX - 8) then Inr (0, s)
      else bindE (put_glyph (FONT5x7ASCII ! ascii_index ch) 6 x y s) (\<lambda>s'. Inr (1, s')))"

text \<open>The string \<open>0123456789.+-:\<close> and a blank, the characters of the big font.\<close>

definition FONT24x32_TAB :: "byte list" where
  "FONT24x32_TAB = [0x30, 0x31, 0x32, 0x33, 0x34, 0x35, 0x36, 0x37, 0x38, 0x39, 0x2e, 0x2b, 0x2d, 0x3a, 0x20]"

text \<open>
  One point of the big font: a new byte for every eight, at \<open>(i * 3 + j) >> 3\<close>; the mask is taken at \<open>j\<close>, which leaves the table of eight
  from the ninth point on.
\<close>

definition big_dot :: "byte list \<Rightarrow> u32 \<Rightarrow> u32 \<Rightarrow> nat \<times> nat \<Rightarrow> byte \<times> gui \<Rightarrow> fault + byte \<times> gui" where
  "big_dot glyph x y = (\<lambda>(i, j) (font_dat, s).
     let font_dat = (if j mod 8 = 0 then glyph ! ((i * 3 + j) div 8) else font_dat) in
     if j < length DCB2HEX_TAB
     then bindE (GUI_Point (x + of_nat j) (y + of_nat i) (glyph_dot font_dat j s) s) (\<lambda>s'. Inr (font_dat, s'))
     else Inl BufOverrun)"

definition GUI_PutChar24_32 :: "u32 \<Rightarrow> u32 \<Rightarrow> byte \<Rightarrow> gui \<Rightarrow> fault + byte \<times> gui" where
  "GUI_PutChar24_32 x y ch s =
     (if x > of_nat (GUI_LCM_XMAX - 32) then Inr (0, s)
      else if y > of_nat (GUI_LCM_YMAX - 32) then Inr (0, s)
      else
        let ch = length (takeWhile (\<lambda>c. c \<noteq> ch) (take 14 FONT24x32_TAB)) in
        bindE (foldE (big_dot (FONT24x32 ! ch) x y) (List.product [0..<32] [0..<24]) (0, s)) (\<lambda>(_, s'). Inr (1, s')))"

section \<open>Strings\<close>

text \<open>A string without its terminator is read behind its end.\<close>

fun put_string :: "(u32 \<Rightarrow> u32 \<Rightarrow> byte \<Rightarrow> gui \<Rightarrow> fault + byte \<times> gui) \<Rightarrow> u32 \<Rightarrow> u32 \<Rightarrow> byte list \<Rightarrow> gui \<Rightarrow> fault + gui" where
  "put_string put x y [] s = Inl BufOverrun"
| "put_string put x y (c # str) s =
     (if c = 0 then Inr s
      else bindE (put x y c s) (\<lambda>(r, s'). if r = 0 then Inr s' else put_string put (x + 6) y str s'))"

fun put_no_str :: "(u32 \<Rightarrow> u32 \<Rightarrow> byte \<Rightarrow> gui \<Rightarrow> fault + byte \<times> gui) \<Rightarrow> nat \<Rightarrow> u32 \<Rightarrow> u32 \<Rightarrow> byte list \<Rightarrow> gui \<Rightarrow> fault + gui" where
  "put_no_str put 0 x y str s = Inr s"
| "put_no_str put (Suc no) x y [] s = Inl BufOverrun"
| "put_no_str put (Suc no) x y (c # str) s =
     (if c = 0 then Inr s
      else bindE (put x y c s) (\<lambda>(r, s'). if r = 0 then Inr s' else put_no_str put no (x + 6) y str s'))"

definition GUI_PutString8_8 :: "u32 \<Rightarrow> u32 \<Rightarrow> byte list \<Rightarrow> gui \<Rightarrow> fault + gui" where
  "GUI_PutString8_8 x y str s = put_string GUI_PutChar8_8 x y str s"

definition GUI_PutNoStr8_8 :: "u32 \<Rightarrow> u32 \<Rightarrow> byte list \<Rightarrow> byte \<Rightarrow> gui \<Rightarrow> fault + gui" where
  "GUI_PutNoStr8_8 x y str no s = put_no_str GUI_PutChar8_8 (unat no) x y str s"

definition GUI_PutString5_7 :: "u32 \<Rightarrow> u32 \<Rightarrow> byte list \<Rightarrow> gui \<Rightarrow> fault + gui" where
  "GUI_PutString5_7 x y str s = put_string GUI_PutChar5_7 x y str s"

definition GUI_PutNoStr5_7 :: "u32 \<Rightarrow> u32 \<Rightarrow> byte list \<Rightarrow> byte \<Rightarrow> gui \<Rightarrow> fault + gui" where
  "GUI_PutNoStr5_7 x y str no s = put_no_str GUI_PutChar5_7 (unat no) x y str s"

section \<open>The console\<close>

definition AREA_NUM :: int where "AREA_NUM = 1"
definition AREA_WIDTH :: int where "AREA_WIDTH = 1024 div AREA_NUM"
definition AREA_HEIGHT :: int where "AREA_HEIGHT = 600"

text \<open>\<open>guiCleanLine\<close> is called only with \<open>CLEAN_LINE\<close>, which is 0.\<close>

definition guiCleanLine :: "int \<Rightarrow> gui \<Rightarrow> fault + gui" where
  "guiCleanLine y s =
     (if y + 8 \<le> int GUI_LCM_YMAX
      then foldE (\<lambda>x. foldE (\<lambda>z. GUI_Point (of_nat x) (of_int (y + int z)) SCREEN_CLEAN_COLOR) [0..<8]) [0..<GUI_LCM_XMAX] s
      else Inr s)"

definition GUI_Clean :: "gui \<Rightarrow> fault + gui" where
  "GUI_Clean s =
     foldE (\<lambda>y. foldE (\<lambda>x. GUI_Point (of_nat x) (of_nat y) SCREEN_CLEAN_COLOR) [0..<GUI_LCM_XMAX]) [0..<GUI_LCM_YMAX]
       (s\<lparr>lcd_x := 0, lcd_y := 0, cur_area := 0\<rparr>)"

definition wrap_line :: "gui \<Rightarrow> gui" where
  "wrap_line s =
     (if lcd_x s - (cur_area s + 1) * AREA_WIDTH > 0 then s\<lparr>lcd_x := cur_area s * AREA_WIDTH, lcd_y := lcd_y s + 8\<rparr> else s)"

definition next_area :: "gui \<Rightarrow> fault + gui" where
  "next_area s =
     (if lcd_y s \<ge> AREA_HEIGHT then
        let s1 = s\<lparr>cur_area := cur_area s + 1, lcd_x := (cur_area s + 1) * AREA_WIDTH, lcd_y := 0\<rparr> in
        if AREA_NUM = cur_area s1 then GUI_Clean (s1\<lparr>cur_area := 0, lcd_x := 0, lcd_y := 0\<rparr>) else Inr s1
      else Inr s)"

definition GUI_Printf :: "byte \<Rightarrow> gui \<Rightarrow> fault + gui" where
  "GUI_Printf ch s =
     bindE (next_area (wrap_line s)) (\<lambda>s.
       if ch = 13 then Inr s
       else if ch = 10 then Inr (s\<lparr>lcd_y := lcd_y s + 8, lcd_x := cur_area s * AREA_WIDTH\<rparr>)
       else bindE (GUI_PutChar8_8 (of_int (lcd_x s)) (of_int (lcd_y s)) ch s) (\<lambda>(_, s'). Inr (s'\<lparr>lcd_x := lcd_x s' + 7\<rparr>)))"

text \<open>\<open>printed\<close> is the formatted text, which goes into \<open>printbuffer[256]\<close>.\<close>

definition lidbg_ui :: "byte list \<Rightarrow> gui \<Rightarrow> fault + gui" where
  "lidbg_ui printed s = (if length printed < 256 then foldE GUI_Printf (takeWhile (\<lambda>c. c \<noteq> 0) printed) s else Inl BufOverrun)"

section \<open>The thread\<close>

definition RD_BUFF_SIZE :: nat where "RD_BUFF_SIZE = 10 * 1024"

definition get_out :: "u32 \<Rightarrow> gui \<Rightarrow> fault + u32" where
  "get_out location s = (if unat location + 4 \<le> unat (outBuffSize s) then Inr (load_word (outBuff s) location) else Inl BufOverrun)"

text \<open>A failed read returns \<open>-1\<close>, in a \<open>size_t\<close> the greatest number, so that the loop leaves the buffer.\<close>

definition show_read :: "byte list option \<Rightarrow> gui \<Rightarrow> fault + gui" where
  "show_read r s =
     (case r of
        None \<Rightarrow> bindE (foldE (\<lambda>c. lidbg_ui [c]) (rdBuff s) s) (\<lambda>_. Inl BufOverrun)
      | Some bs \<Rightarrow> foldE (\<lambda>c. lidbg_ui [c]) bs (s\<lparr>rdBuff := bs @ drop (length bs) (rdBuff s)\<rparr>))"

definition copy_dot :: "nat \<Rightarrow> nat \<Rightarrow> nat \<Rightarrow> gui \<Rightarrow> fault + gui" where
  "copy_dot j y x s =
     (let location = of_nat x * 4 + of_nat y * xres s * 4 in
      bindE (get_out location s) (\<lambda>c. if c = DISP_COLOR then put_fb location j c s else Inr s))"

definition copy_pages :: "gui \<Rightarrow> fault + gui" where
  "copy_pages s =
     foldE (\<lambda>j. foldE (\<lambda>y. foldE (copy_dot j y) [0..<GUI_LCM_XMAX]) [0..<GUI_LCM_YMAX]) [0..<SYS_FB_NUM] s"

definition gui_round :: "byte list option \<Rightarrow> gui \<Rightarrow> fault + gui" where
  "gui_round r s = bindE (show_read r s) copy_pages"

text \<open>The pause after a round, in microseconds: an interval counts in milliseconds from 500 to 1000 and in seconds otherwise.\<close>

definition round_pause :: "int \<Rightarrow> int" where
  "round_pause interval = (if interval > 499 \<and> interval < 1001 then interval * 1000 else uint (of_int interval :: u32) * 1000000)"

definition lidbg_gui_thread_funs :: "byte list option list \<Rightarrow> gui \<Rightarrow> fault + gui" where
  "lidbg_gui_thread_funs reads s = foldE gui_round reads s"

section \<open>The start\<close>

definition is_space :: "byte \<Rightarrow> bool" where "is_space c = (c = 32 \<or> 9 \<le> c \<and> c \<le> 13)"

fun digits :: "int \<Rightarrow> byte list \<Rightarrow> int" where
  "digits n [] = n"
| "digits n (c # cs) = (if 0x30 \<le> c \<and> c \<le> 0x39 then digits (n * 10 + uint (c - 0x30)) cs else n)"

definition atoi :: "byte list \<Rightarrow> int" where
  "atoi str =
     (case dropWhile is_space str of
        [] \<Rightarrow> 0
      | c # cs \<Rightarrow> if c = 0x2d then - digits 0 cs else if c = 0x2b then digits 0 cs else digits 0 (c # cs))"

datatype start = Exited int | Running gui

text \<open>
  The arguments are those of the command line; \<open>fbdp\<close> and \<open>inFd\<close> what the two calls of \<open>open\<close> return, \<open>vinfo\<close> what the screen says of itself
  (bits, width, height) when the \<open>ioctl\<close> succeeds, \<open>mapped\<close> whether the pages are, \<open>s\<close> what the allocated
  buffers hold.  Only a descriptor 0 counts as a failure.
\<close>

definition gui_main :: "byte list list \<Rightarrow> int \<Rightarrow> (u32 \<times> u32 \<times> u32) option \<Rightarrow> bool \<Rightarrow> int \<Rightarrow> gui \<Rightarrow> fault + start" where
  "gui_main argv fbdp vinfo mapped inFd s =
     (if length argv < 3 then Inr (Exited 1)
      else if fbdp = 0 then Inr (Exited 1)
      else case vinfo of
        None \<Rightarrow> Inr (Exited 1)
      | Some (bpp, w, h) \<Rightarrow>
          let s1 = s\<lparr>bits_per_pixel := bpp, xres := w, yres := h\<rparr> in
          if \<not> mapped then Inr (Exited 1)
          else if 30 < length (argv ! 1) + 1 then Inl BufOverrun
          else if inFd = 0 then Inr (Exited 1)
          else if atoi (argv ! 2) = 0 then Inr (Exited 1)
          else Inr (Running (GUI_SetColor DISP_COLOR BACK_COLOR s1)))"

section \<open>The screen\<close>

definition screen_ok :: "gui \<Rightarrow> bool" where
  "screen_ok s \<longleftrightarrow> bits_per_pixel s = 32 \<and> GUI_LCM_XMAX \<le> unat (xres s) \<and> GUI_LCM_YMAX \<le> unat (yres s) \<and>
     SYS_FB_NUM * (unat (xres s) * unat (yres s) * 4) < 2 ^ 32"

definition place :: "gui \<Rightarrow> nat \<Rightarrow> nat \<Rightarrow> u32" where
  "place s x y = of_nat x * 4 + of_nat y * xres s * 4"

definition dot :: "gui \<Rightarrow> nat \<Rightarrow> nat \<Rightarrow> u32" where
  "dot s x y = load_word (outBuff s) (place s x y)"

definition page_dot :: "gui \<Rightarrow> nat \<Rightarrow> nat \<Rightarrow> nat \<Rightarrow> u32" where
  "page_dot s j x y = load_word (sysFb s) (of_nat j * outBuffSize s + place s x y)"

abbreviation on_screen :: "nat \<Rightarrow> nat \<Rightarrow> bool" where
  "on_screen x y \<equiv> x < GUI_LCM_XMAX \<and> y < GUI_LCM_YMAX"

text \<open>What drawing leaves alone: everything but the two pictures.\<close>

definition drawn :: "gui \<Rightarrow> gui \<Rightarrow> bool" where
  "drawn s s' \<longleftrightarrow> s' = s\<lparr>outBuff := outBuff s', sysFb := sysFb s'\<rparr>"

lemma drawn_refl [simp]: "drawn s s" by (simp add: drawn_def)

lemma drawn_fields:
  assumes "drawn s s'"
  shows "screen_ok s' = screen_ok s" "place s' = place s" "outBuffSize s' = outBuffSize s" "glyph_dot d j s' = glyph_dot d j s"
    "lcd_x s' = lcd_x s" "lcd_y s' = lcd_y s" "cur_area s' = cur_area s" "disp_color s' = disp_color s" "back_color s' = back_color s"
proof -
  obtain ob fb where "s' = s\<lparr>outBuff := ob, sysFb := fb\<rparr>" using assms unfolding drawn_def by blast
  then show "screen_ok s' = screen_ok s" "place s' = place s" "outBuffSize s' = outBuffSize s" "glyph_dot d j s' = glyph_dot d j s"
    "lcd_x s' = lcd_x s" "lcd_y s' = lcd_y s" "cur_area s' = cur_area s" "disp_color s' = disp_color s" "back_color s' = back_color s"
    by (simp_all add: screen_ok_def fun_eq_iff place_def outBuffSize_def glyph_dot_def)
qed

lemma drawn_trans:
  assumes "drawn s t" "drawn t u"
  shows "drawn s u"
proof -
  obtain ob fb where t: "t = s\<lparr>outBuff := ob, sysFb := fb\<rparr>" using assms(1) unfolding drawn_def by blast
  obtain ob' fb' where u: "u = t\<lparr>outBuff := ob', sysFb := fb'\<rparr>" using assms(2) unfolding drawn_def by blast
  show ?thesis by (simp add: drawn_def t u)
qed

lemma numbers_of_screen [simp]: "GUI_LCM_XMAX = 1024" "GUI_LCM_YMAX = 600" "SYS_FB_NUM = 3"
  by (simp_all add: GUI_LCM_XMAX_def GUI_LCM_YMAX_def SYS_FB_NUM_def)

lemma unat_small: "n < 2 ^ 32 \<Longrightarrow> unat (of_nat n :: u32) = n"
  by (simp add: unat_of_nat)

lemma screen_size:
  assumes "screen_ok s"
  shows "unat (outBuffSize s) = unat (xres s) * unat (yres s) * 4" "3 * unat (outBuffSize s) < 2 ^ 32"
proof -
  define n where "n = unat (xres s) * unat (yres s) * 4"
  have n: "3 * n < 2 ^ 32" using assms by (simp add: screen_ok_def n_def)
  have "outBuffSize s = of_nat n" using assms by (simp add: outBuffSize_def screen_ok_def n_def)
  then have "unat (outBuffSize s) = n" using n unat_small [of n] by simp
  then show "unat (outBuffSize s) = unat (xres s) * unat (yres s) * 4" "3 * unat (outBuffSize s) < 2 ^ 32"
    using n by (simp_all add: n_def)
qed

lemma unat_place:
  assumes "screen_ok s" "on_screen x y"
  shows "unat (place s x y) = (x + y * unat (xres s)) * 4" "(x + y * unat (xres s)) * 4 + 4 \<le> unat (outBuffSize s)"
proof -
  define w h where "w = unat (xres s)" and "h = unat (yres s)"
  have w: "x < w" "Suc y \<le> h" using assms by (simp_all add: screen_ok_def w_def h_def)
  have "Suc y * w \<le> h * w" using w(2) by (rule mult_le_mono1)
  then have "x + y * w + 1 \<le> w * h" using w(1) by (simp add: mult.commute)
  then show b: "(x + y * unat (xres s)) * 4 + 4 \<le> unat (outBuffSize s)"
    using screen_size(1) [OF assms(1)] by (simp add: w_def h_def)
  have "place s x y = of_nat ((x + y * w) * 4)" by (simp add: place_def w_def distrib_right)
  then show "unat (place s x y) = (x + y * unat (xres s)) * 4"
    using b screen_size(2) [OF assms(1)] unat_small [of "(x + y * w) * 4"] by (simp add: w_def)
qed

lemma place_apart:
  assumes "screen_ok s" "on_screen x y" "on_screen x' y'" "(x, y) \<noteq> (x', y')"
  shows "unat (place s x y) + 4 \<le> unat (place s x' y') \<or> unat (place s x' y') + 4 \<le> unat (place s x y)"
proof -
  define w where "w = unat (xres s)"
  have "x < w" "x' < w" using assms(1-3) by (simp_all add: screen_ok_def w_def)
  then have "x + y * w \<noteq> x' + y' * w" using assms(4)
    by (metis Pair_inject add.commute div_less div_mult_self3 mod_less mod_mult_self3 not_less_zero add_0)
  then show ?thesis using unat_place(1) [OF assms(1,2)] unat_place(1) [OF assms(1,3)] by (simp add: w_def) linarith
qed

lemma load_store_word_apart:
  assumes "unat a + 4 \<le> unat b \<or> unat b + 4 \<le> unat a" "unat a + 4 \<le> 2 ^ 32" "unat b + 4 \<le> 2 ^ 32"
  shows "load_word (store_word a w f) b = load_word f b"
proof -
  have off: "unat (c + of_nat k) = unat c + k" if "unat c + 4 \<le> 2 ^ 32" "k < 4" for c :: u32 and k
    using that unat_small [of "unat c + k"] by simp
  have ne: "b + of_nat k \<noteq> a + of_nat l" if "k < 4" "l < 4" for k l
  proof
    assume "b + of_nat k = a + of_nat l"
    then have "unat b + k = unat a + l" using off assms(2,3) that by metis
    then show False using assms(1) that by linarith
  qed
  have "store_word a w f (b + of_nat k) = f (b + of_nat k)" if "k < 4" for k
    using ne [OF that, of 0] ne [OF that, of 1] ne [OF that, of 2] ne [OF that, of 3] by (simp add: store_word_def)
  from this [of 0] this [of 1] this [of 2] this [of 3] show ?thesis by (simp add: load_word_def)
qed

lemma store_dot:
  assumes "screen_ok s" "on_screen x y" "on_screen x' y'"
  shows "load_word (store_word (place s x y) w f) (place s x' y') = (if x' = x \<and> y' = y then w else load_word f (place s x' y'))"
proof (cases "(x, y) = (x', y')")
  case False
  have "unat (place s x y) + 4 \<le> 2 ^ 32" "unat (place s x' y') + 4 \<le> 2 ^ 32"
    using unat_place [OF assms(1,2)] unat_place [OF assms(1,3)] screen_size(2) [OF assms(1)] by linarith+
  then have "load_word (store_word (place s x y) w f) (place s x' y') = load_word f (place s x' y')"
    by (rule load_store_word_apart [OF place_apart [OF assms False]])
  then show ?thesis using False by auto
qed auto

lemma unat_page:
  assumes "screen_ok s" "on_screen x y" "j < 3"
  shows "unat (of_nat j * outBuffSize s + place s x y) = j * unat (outBuffSize s) + unat (place s x y)"
    and "j * unat (outBuffSize s) + unat (place s x y) + 4 \<le> 3 * unat (outBuffSize s)"
proof -
  define z where "z = unat (outBuffSize s)"
  have "Suc j * z \<le> 3 * z" using assms(3) by (intro mult_le_mono1) simp
  then have "j * z + z \<le> 3 * z" by simp
  then show b: "j * unat (outBuffSize s) + unat (place s x y) + 4 \<le> 3 * unat (outBuffSize s)"
    using unat_place [OF assms(1,2)] unfolding z_def by linarith
  have "of_nat j * outBuffSize s + place s x y = of_nat (j * unat (outBuffSize s) + unat (place s x y))" by simp
  then show "unat (of_nat j * outBuffSize s + place s x y) = j * unat (outBuffSize s) + unat (place s x y)"
    using b screen_size(2) [OF assms(1)] unat_small by (metis le_add1 le_less_trans le_trans)
qed

section \<open>Painting\<close>

text \<open>An operation paints \<open>q\<close>: it returns, and the dots of \<open>q\<close> are set, the others of the screen as before.\<close>

definition paints :: "(gui \<Rightarrow> fault + gui) \<Rightarrow> (nat \<Rightarrow> nat \<Rightarrow> u32 option) \<Rightarrow> gui \<Rightarrow> bool" where
  "paints f q s \<longleftrightarrow> (\<exists>s'. f s = Inr s' \<and> drawn s s' \<and>
     (\<forall>x y. on_screen x y \<longrightarrow> dot s' x y = (case q x y of Some c \<Rightarrow> c | None \<Rightarrow> dot s x y)))"

definition over :: "(nat \<Rightarrow> nat \<Rightarrow> u32 option) \<Rightarrow> (nat \<Rightarrow> nat \<Rightarrow> u32 option) \<Rightarrow> nat \<Rightarrow> nat \<Rightarrow> u32 option" where
  "over q r x y = (case r x y of Some c \<Rightarrow> Some c | None \<Rightarrow> q x y)"

lemma paints_upt:
  assumes "\<And>i t. i < n \<Longrightarrow> drawn s t \<Longrightarrow> paints (f i) (q i) t"
    and "Q 0 = (\<lambda>_ _. None)" "\<And>i. i < n \<Longrightarrow> Q (Suc i) = over (Q i) (q i)"
  shows "paints (foldE f [0..<n]) (Q n) s"
  using assms
proof (induction n)
  case 0
  then show ?case by (simp add: paints_def)
next
  case (Suc n)
  have "paints (foldE f [0..<n]) (Q n) s" using Suc by simp
  then obtain t where t: "foldE f [0..<n] s = Inr t" "drawn s t"
      and p: "on_screen x y \<Longrightarrow> dot t x y = (case Q n x y of Some c \<Rightarrow> c | None \<Rightarrow> dot s x y)" for x y
    unfolding paints_def by blast
  have "paints (f n) (q n) t" using Suc.prems(1) [of n t] t(2) by simp
  then obtain u where u: "f n t = Inr u" "drawn t u"
      and r: "on_screen x y \<Longrightarrow> dot u x y = (case q n x y of Some c \<Rightarrow> c | None \<Rightarrow> dot t x y)" for x y
    unfolding paints_def by blast
  have "foldE f [0..<Suc n] s = Inr u" using t(1) u(1) by (simp add: foldE_append)
  moreover have "drawn s u" using t(2) u(2) by (rule drawn_trans)
  moreover have "on_screen x y \<Longrightarrow> dot u x y = (case Q (Suc n) x y of Some c \<Rightarrow> c | None \<Rightarrow> dot s x y)" for x y
    using Suc.prems(3) [of n] r [of x y] p [of x y] by (simp add: over_def split: option.splits)
  ultimately show ?case unfolding paints_def by blast
qed

definition one_dot :: "nat \<Rightarrow> nat \<Rightarrow> u32 \<Rightarrow> nat \<Rightarrow> nat \<Rightarrow> u32 option" where
  "one_dot x y c x' y' = (if x' = x \<and> y' = y then Some c else None)"

lemma put_fb_ok:
  assumes "screen_ok s" "on_screen x y" "j < 3"
  shows "put_fb (place s x y) j c s = Inr (s\<lparr>sysFb := store_word (of_nat j * outBuffSize s + place s x y) c (sysFb s)\<rparr>)"
  using unat_page(2) [OF assms] by (simp add: put_fb_def)

lemma put_out_ok:
  assumes "screen_ok s" "on_screen x y"
  shows "put_out (place s x y) c s = Inr (s\<lparr>outBuff := store_word (place s x y) c (outBuff s)\<rparr>)"
  using unat_place [OF assms] by (simp add: put_out_def)

lemma point_paints:
  assumes "screen_ok s" "on_screen x y"
  shows "paints (GUI_Point (of_nat x) (of_nat y) c) (one_dot x y c) s"
proof -
  have clean: "\<exists>fb. foldE (\<lambda>i. put_fb (place s x y) i c) xs (s\<lparr>sysFb := fb0\<rparr>) = Inr (s\<lparr>sysFb := fb\<rparr>)" if "\<forall>i\<in>set xs. i < 3" for xs fb0
    using that
  proof (induction xs arbitrary: fb0)
    case Nil
    then show ?case by auto
  next
    case (Cons i xs)
    define t where "t = s\<lparr>sysFb := fb0\<rparr>"
    have t: "screen_ok t" "place t = place s" using assms(1) by (simp_all add: t_def screen_ok_def fun_eq_iff place_def)
    have "put_fb (place s x y) i c t = Inr (t\<lparr>sysFb := store_word (of_nat i * outBuffSize t + place t x y) c (sysFb t)\<rparr>)"
      using put_fb_ok [OF t(1) assms(2), of i c] Cons.prems unfolding t(2) by simp
    moreover have "t\<lparr>sysFb := fb\<rparr> = s\<lparr>sysFb := fb\<rparr>" for fb by (simp add: t_def)
    ultimately show ?case using Cons unfolding t_def [symmetric] by simp
  qed
  obtain fb where first: "(if c = SCREEN_CLEAN_COLOR then foldE (\<lambda>i. put_fb (place s x y) i c) [0, 1, 2] s else Inr s) = Inr (s\<lparr>sysFb := fb\<rparr>)"
  proof (cases "c = SCREEN_CLEAN_COLOR")
    case True
    then show ?thesis using clean [of "[0, 1, 2]" "sysFb s"] that by auto
  next
    case False
    then show ?thesis using that [of "sysFb s"] by simp
  qed
  define t where "t = s\<lparr>sysFb := fb\<rparr>"
  have t: "screen_ok t" "place t = place s" "outBuff t = outBuff s"
    using assms(1) by (simp_all add: t_def screen_ok_def fun_eq_iff place_def)
  define u where "u = t\<lparr>outBuff := store_word (place s x y) c (outBuff s)\<rparr>"
  have "put_out (place s x y) c t = Inr u" using put_out_ok [OF t(1) assms(2), of c] unfolding t u_def .
  moreover have "GUI_Point (of_nat x) (of_nat y) c s =
      bindE (if c = SCREEN_CLEAN_COLOR then foldE (\<lambda>i. put_fb (place s x y) i c) [0, 1, 2] s else Inr s) (put_out (place s x y) c)"
    using assms(1) unfolding GUI_Point_def GUI_PutPixel_def place_def Let_def screen_ok_def by (simp only: if_True simp_thms)
  ultimately have "GUI_Point (of_nat x) (of_nat y) c s = Inr u" unfolding first by (simp add: t_def)
  moreover have "drawn s u" by (simp add: drawn_def u_def t_def)
  moreover have "place u = place s" by (simp add: u_def t_def fun_eq_iff place_def)
  then have "dot u x' y' = (case one_dot x y c x' y' of Some c \<Rightarrow> c | None \<Rightarrow> dot s x' y')" if "on_screen x' y'" for x' y'
    using store_dot [OF assms that, of c "outBuff s"] by (auto simp: dot_def one_dot_def u_def)
  ultimately show ?thesis unfolding paints_def by blast
qed

text \<open>The dots of a row, and of the first rows of a character.\<close>

definition row_dots :: "gui \<Rightarrow> byte \<Rightarrow> nat \<Rightarrow> nat \<Rightarrow> nat \<Rightarrow> nat \<Rightarrow> nat \<Rightarrow> u32 option" where
  "row_dots s d w x0 y0 x y = (if y = y0 \<and> x0 \<le> x \<and> x < x0 + w then Some (glyph_dot d (x - x0) s) else None)"

definition glyph_dots :: "gui \<Rightarrow> byte list \<Rightarrow> nat \<Rightarrow> nat \<Rightarrow> nat \<Rightarrow> nat \<Rightarrow> nat \<Rightarrow> nat \<Rightarrow> u32 option" where
  "glyph_dots s rows n w x0 y0 x y =
     (if y0 \<le> y \<and> y < y0 + n \<and> x0 \<le> x \<and> x < x0 + w then Some (glyph_dot (rows ! (y - y0)) (x - x0) s) else None)"

lemma row_paints:
  assumes "screen_ok s" "x0 + w \<le> 1024" "y0 < 600"
  shows "paints (glyph_row d w (of_nat x0) (of_nat y0)) (row_dots s d w x0 y0) s"
proof -
  have "paints (foldE (\<lambda>j t. GUI_Point (of_nat x0 + of_nat j) (of_nat y0) (glyph_dot d j t) t) [0..<w]) (row_dots s d w x0 y0) s"
  proof (rule paints_upt [where q = "\<lambda>j. one_dot (x0 + j) y0 (glyph_dot d j s)"])
    fix i t
    assume i: "i < w" and t: "drawn s t"
    have "paints (GUI_Point (of_nat (x0 + i)) (of_nat y0) (glyph_dot d i s)) (one_dot (x0 + i) y0 (glyph_dot d i s)) t"
      by (rule point_paints) (use assms i drawn_fields(1) [OF t] in auto)
    then show "paints (\<lambda>t. GUI_Point (of_nat x0 + of_nat i) (of_nat y0) (glyph_dot d i t) t) (one_dot (x0 + i) y0 (glyph_dot d i s)) t"
      using drawn_fields(4) [OF t] by (simp add: paints_def)
  qed (auto simp: row_dots_def over_def one_dot_def fun_eq_iff)
  then show ?thesis unfolding glyph_row_def .
qed

lemma glyph_paints:
  assumes "screen_ok s" "x0 + w \<le> 1024" "y0 + 8 \<le> 600"
  shows "paints (put_glyph rows w (of_nat x0) (of_nat y0)) (glyph_dots s rows 8 w x0 y0) s"
proof -
  have "paints (foldE (\<lambda>i. glyph_row (rows ! i) w (of_nat x0) (of_nat y0 + of_nat i)) [0..<8]) (glyph_dots s rows 8 w x0 y0) s"
  proof (rule paints_upt [where q = "\<lambda>i. row_dots s (rows ! i) w x0 (y0 + i)" and Q = "\<lambda>n. glyph_dots s rows n w x0 y0"])
    fix i t
    assume i: "i < (8 :: nat)" and t: "drawn s t"
    have "paints (glyph_row (rows ! i) w (of_nat x0) (of_nat (y0 + i))) (row_dots t (rows ! i) w x0 (y0 + i)) t"
      by (rule row_paints) (use assms i drawn_fields(1) [OF t] in auto)
    moreover have "row_dots t = row_dots s" using drawn_fields(4) [OF t] by (simp add: row_dots_def fun_eq_iff)
    ultimately show "paints (glyph_row (rows ! i) w (of_nat x0) (of_nat y0 + of_nat i)) (row_dots s (rows ! i) w x0 (y0 + i)) t" by simp
  qed (auto simp: row_dots_def over_def glyph_dots_def fun_eq_iff)
  then show ?thesis unfolding put_glyph_def .
qed

section \<open>Printing\<close>

lemma row_length_8: "ascii_index ch < 96"
proof -
  define c where "c = (if ch < 0x20 \<or> ch > 0x7f then 0x20 else ch)"
  have "0x20 \<le> c" "c \<le> 0x7f" by (auto simp: c_def not_less)
  then have "unat (0x20 :: byte) \<le> unat c" "unat c \<le> unat (0x7f :: byte)" by (simp_all only: word_le_nat_alt)
  then have "unat (c - 0x20) < 96" using \<open>0x20 \<le> c\<close> by (simp add: unat_sub)
  then show ?thesis by (simp add: ascii_index_def c_def)
qed

lemma put_char_paints:
  assumes "screen_ok s" "x0 \<le> 1016" "y0 \<le> 592"
  shows "\<exists>s'. GUI_PutChar8_8 (of_nat x0) (of_nat y0) ch s = Inr (1, s') \<and> drawn s s' \<and>
    (\<forall>x y. on_screen x y \<longrightarrow> dot s' x y =
      (case glyph_dots s (FONT8x8ASCII ! ascii_index ch) 8 8 x0 y0 x y of Some c \<Rightarrow> c | None \<Rightarrow> dot s x y))"
proof -
  have "unat (of_nat x0 :: u32) = x0" "unat (of_nat y0 :: u32) = y0" using assms by (simp_all add: unat_small)
  then have le: "\<not> of_nat x0 > (1016 :: u32)" "\<not> of_nat y0 > (592 :: u32)" using assms by (simp_all add: word_less_nat_alt)
  have "paints (put_glyph (FONT8x8ASCII ! ascii_index ch) 8 (of_nat x0) (of_nat y0)) (glyph_dots s (FONT8x8ASCII ! ascii_index ch) 8 8 x0 y0) s"
    by (rule glyph_paints) (use assms in auto)
  then show ?thesis using le unfolding paints_def GUI_PutChar8_8_def by fastforce
qed

lemma put_char_returns:
  assumes "screen_ok s"
  shows "\<exists>r s'. GUI_PutChar8_8 x y ch s = Inr (r, s') \<and> drawn s s'"
proof (cases "x > 1016 \<or> y > 592")
  case True
  then show ?thesis by (auto simp: GUI_PutChar8_8_def)
next
  case False
  then have "unat x \<le> 1016" "unat y \<le> 592" by (simp_all add: word_less_nat_alt)
  then show ?thesis using put_char_paints [OF assms, of "unat x" "unat y" ch] by auto
qed

lemma clean_paints:
  assumes "screen_ok s"
  shows "paints GUI_Clean (\<lambda>x y. if on_screen x y then Some SCREEN_CLEAN_COLOR else None) (s\<lparr>lcd_x := 0, lcd_y := 0, cur_area := 0\<rparr>)"
proof -
  define t where "t = s\<lparr>lcd_x := 0, lcd_y := 0, cur_area := 0\<rparr>"
  have t: "screen_ok t" using assms by (simp add: t_def screen_ok_def)
  have "paints (foldE (\<lambda>y. foldE (\<lambda>x. GUI_Point (of_nat x) (of_nat y) SCREEN_CLEAN_COLOR) [0..<1024]) [0..<600])
      (\<lambda>x y. if x < 1024 \<and> y < 600 then Some SCREEN_CLEAN_COLOR else None) t"
  proof (rule paints_upt [where q = "\<lambda>n x y. if x < 1024 \<and> y = n then Some SCREEN_CLEAN_COLOR else None"
        and Q = "\<lambda>n x y. if x < 1024 \<and> y < n then Some SCREEN_CLEAN_COLOR else None"])
    fix n u
    assume n: "n < (600 :: nat)" and u: "drawn t u"
    show "paints (foldE (\<lambda>x. GUI_Point (of_nat x) (of_nat n) SCREEN_CLEAN_COLOR) [0..<1024])
        (\<lambda>x y. if x < 1024 \<and> y = n then Some SCREEN_CLEAN_COLOR else None) u"
    proof (rule paints_upt [where q = "\<lambda>x. one_dot x n SCREEN_CLEAN_COLOR" and Q = "\<lambda>m x y. if x < m \<and> y = n then Some SCREEN_CLEAN_COLOR else None"])
      fix m v
      assume m: "m < (1024 :: nat)" and v: "drawn u v"
      show "paints (GUI_Point (of_nat m) (of_nat n) SCREEN_CLEAN_COLOR) (one_dot m n SCREEN_CLEAN_COLOR) v"
        by (rule point_paints) (use m n t drawn_fields(1) [OF u] drawn_fields(1) [OF v] in auto)
    qed (auto simp: over_def one_dot_def fun_eq_iff)
  qed (auto simp: over_def fun_eq_iff)
  then show ?thesis unfolding paints_def GUI_Clean_def t_def by (simp add: gui.defs)
qed

lemma next_area_returns:
  assumes "screen_ok s"
  shows "\<exists>s'. next_area s = Inr s' \<and> screen_ok s'"
proof (cases "lcd_y s \<ge> AREA_HEIGHT")
  case True
  define s1 where "s1 = s\<lparr>cur_area := cur_area s + 1, lcd_x := (cur_area s + 1) * AREA_WIDTH, lcd_y := 0\<rparr>"
  have ok: "screen_ok s1" using assms by (simp add: s1_def screen_ok_def)
  show ?thesis
  proof (cases "AREA_NUM = cur_area s1")
    case True
    define t where "t = s1\<lparr>lcd_x := 0, lcd_y := 0, cur_area := 0\<rparr>"
    have same: "s1\<lparr>cur_area := 0, lcd_x := 0, lcd_y := 0\<rparr> = t" by (simp add: t_def)
    obtain u where "GUI_Clean t = Inr u" "drawn t u" using clean_paints [OF ok] unfolding paints_def t_def by blast
    moreover have "screen_ok t" using ok by (simp add: t_def screen_ok_def)
    ultimately show ?thesis using True \<open>lcd_y s \<ge> AREA_HEIGHT\<close> drawn_fields(1)
      unfolding next_area_def s1_def [symmetric] Let_def same by simp
  next
    case False
    then show ?thesis using ok \<open>lcd_y s \<ge> AREA_HEIGHT\<close> unfolding next_area_def s1_def [symmetric] Let_def by simp
  qed
next
  case False
  then show ?thesis using assms by (simp add: next_area_def)
qed

lemma screen_ok_cursor [simp]:
  "screen_ok (s\<lparr>lcd_x := a\<rparr>) = screen_ok s" "screen_ok (s\<lparr>lcd_y := b\<rparr>) = screen_ok s" "screen_ok (s\<lparr>rdBuff := r\<rparr>) = screen_ok s"
  by (simp_all add: screen_ok_def)

lemma printf_returns:
  assumes "screen_ok s"
  shows "\<exists>s'. GUI_Printf ch s = Inr s' \<and> screen_ok s'"
proof -
  have "screen_ok (wrap_line s)" using assms by (simp add: wrap_line_def)
  then obtain t where t: "next_area (wrap_line s) = Inr t" "screen_ok t" using next_area_returns by blast
  obtain r u where u: "GUI_PutChar8_8 (of_int (lcd_x t)) (of_int (lcd_y t)) ch t = Inr (r, u)" "drawn t u"
    using put_char_returns [OF t(2)] by blast
  have "screen_ok u" using t(2) drawn_fields(1) [OF u(2)] by simp
  then show ?thesis using t u(1) by (simp add: GUI_Printf_def)
qed

lemma foldE_returns:
  assumes "\<And>x s. x \<in> set xs \<Longrightarrow> P s \<Longrightarrow> \<exists>s'. f x s = Inr s' \<and> P s'" and "P s"
  shows "\<exists>s'. foldE f xs s = Inr s' \<and> P s'"
  using assms
proof (induction xs arbitrary: s)
  case (Cons x xs)
  obtain t where t: "f x s = Inr t" "P t" using Cons.prems(1) [OF _ Cons.prems(2), of x] by auto
  show ?case using Cons.IH [OF Cons.prems(1) t(2)] t(1) by auto
qed auto

lemma ui_one: "lidbg_ui [c] s = (if c = 0 then Inr s else GUI_Printf c s)"
  by (cases "GUI_Printf c s") (simp_all add: lidbg_ui_def)

lemma show_read_returns:
  assumes "screen_ok s"
  shows "\<exists>s'. show_read (Some bs) s = Inr s' \<and> screen_ok s'"
  unfolding show_read_def option.case
  by (rule foldE_returns) (use assms printf_returns in \<open>auto simp: ui_one\<close>)

section \<open>Copying to the pages\<close>

text \<open>What copying keeps: all but the pages, where a dot in the colour of the text stays.\<close>

definition copied :: "gui \<Rightarrow> gui \<Rightarrow> bool" where
  "copied s s' \<longleftrightarrow> s' = s\<lparr>sysFb := sysFb s'\<rparr> \<and>
     (\<forall>j<3. \<forall>x y. on_screen x y \<longrightarrow> page_dot s j x y = DISP_COLOR \<longrightarrow> page_dot s' j x y = DISP_COLOR)"

lemma copied_refl [simp]: "copied s s" by (simp add: copied_def)

lemma copied_fields:
  assumes "copied s s'"
  shows "screen_ok s' = screen_ok s" "dot s' = dot s"
proof -
  obtain fb where "s' = s\<lparr>sysFb := fb\<rparr>" using assms unfolding copied_def by blast
  then show "screen_ok s' = screen_ok s" "dot s' = dot s" by (simp_all add: screen_ok_def fun_eq_iff dot_def place_def)
qed

lemma copied_page: "copied s s' \<Longrightarrow> j < 3 \<Longrightarrow> on_screen x y \<Longrightarrow> page_dot s j x y = DISP_COLOR \<Longrightarrow> page_dot s' j x y = DISP_COLOR"
  unfolding copied_def by blast

lemma copied_trans:
  assumes "copied s t" "copied t u"
  shows "copied s u"
proof -
  obtain fb where t: "t = s\<lparr>sysFb := fb\<rparr>" using assms(1) unfolding copied_def by blast
  obtain fb' where u: "u = t\<lparr>sysFb := fb'\<rparr>" using assms(2) unfolding copied_def by blast
  have "u = s\<lparr>sysFb := sysFb u\<rparr>" by (simp add: t u)
  then show ?thesis using copied_page [OF assms(1)] copied_page [OF assms(2)] unfolding copied_def by blast
qed

lemma foldE_copies:
  assumes "\<And>i t. i \<in> set xs \<Longrightarrow> copied s t \<Longrightarrow> \<exists>t'. f i t = Inr t' \<and> copied t t' \<and> Q i t'"
    and "\<And>i t u. i \<in> set xs \<Longrightarrow> copied s t \<Longrightarrow> Q i t \<Longrightarrow> copied t u \<Longrightarrow> Q i u"
  shows "\<exists>s'. foldE f xs s = Inr s' \<and> copied s s' \<and> (\<forall>i\<in>set xs. Q i s')"
  using assms
proof (induction xs arbitrary: s)
  case Nil
  then show ?case by simp
next
  case (Cons i xs)
  obtain t where t: "f i s = Inr t" "copied s t" "Q i t" using Cons.prems(1) [of i s] by auto
  have "\<exists>u. foldE f xs t = Inr u \<and> copied t u \<and> (\<forall>i\<in>set xs. Q i u)"
  proof (rule Cons.IH)
    fix k v
    assume "k \<in> set xs" "copied t v"
    then show "\<exists>t'. f k v = Inr t' \<and> copied v t' \<and> Q k t'" using Cons.prems(1) [of k v] copied_trans [OF t(2)] by simp
  next
    fix k v w
    assume "k \<in> set xs" "copied t v" "Q k v" "copied v w"
    then show "Q k w" using Cons.prems(2) [of k v w] copied_trans [OF t(2)] by simp
  qed
  then obtain u where u: "foldE f xs t = Inr u" "copied t u" "\<forall>i\<in>set xs. Q i u" by blast
  have "Q i u" using Cons.prems(2) [of i t u] t u(2) by simp
  then show ?case using t(1) u copied_trans [OF t(2) u(2)] by simp
qed

lemma page_apart:
  assumes "screen_ok s" "on_screen x y" "on_screen x' y'" "j < 3" "j' < 3" "(j, x, y) \<noteq> (j', x', y')"
  shows "unat (of_nat j * outBuffSize s + place s x y) + 4 \<le> unat (of_nat j' * outBuffSize s + place s x' y') \<or>
    unat (of_nat j' * outBuffSize s + place s x' y') + 4 \<le> unat (of_nat j * outBuffSize s + place s x y)"
proof -
  define z where "z = unat (outBuffSize s)"
  note u = unat_page(1) [OF assms(1,2,4)] unat_page(1) [OF assms(1,3,5)]
  have b: "unat (place s x y) + 4 \<le> z" "unat (place s x' y') + 4 \<le> z"
    using unat_place [OF assms(1,2)] unat_place [OF assms(1,3)] by (simp_all add: z_def)
  consider "j = j'" | "j < j'" | "j' < j" by linarith
  then show ?thesis
  proof cases
    case 1
    then show ?thesis using place_apart [OF assms(1-3)] assms(6) unfolding u by auto
  next
    case 2
    then have "Suc j * z \<le> j' * z" by (intro mult_le_mono1) simp
    then show ?thesis using b(1) unfolding u z_def [symmetric] by (simp only: mult_Suc) linarith
  next
    case 3
    then have "Suc j' * z \<le> j * z" by (intro mult_le_mono1) simp
    then show ?thesis using b(2) unfolding u z_def [symmetric] by (simp only: mult_Suc) linarith
  qed
qed

lemma store_page_dot:
  assumes "screen_ok s" "on_screen x y" "on_screen x' y'" "j < 3" "j' < 3"
  shows "page_dot (s\<lparr>sysFb := store_word (of_nat j * outBuffSize s + place s x y) w (sysFb s)\<rparr>) j' x' y' =
    (if (j', x', y') = (j, x, y) then w else page_dot s j' x' y')"
proof -
  define a b where "a = of_nat j * outBuffSize s + place s x y" and "b = of_nat j' * outBuffSize s + place s x' y'"
  have same: "page_dot (s\<lparr>sysFb := g\<rparr>) j' x' y' = load_word g b" for g
    by (simp add: page_dot_def b_def place_def outBuffSize_def)
  have old: "page_dot s j' x' y' = load_word (sysFb s) b" by (simp add: page_dot_def b_def)
  show ?thesis
  proof (cases "(j, x, y) = (j', x', y')")
    case True
    then show ?thesis unfolding same a_def [symmetric] by (simp add: a_def b_def)
  next
    case False
    have "unat a + 4 \<le> 2 ^ 32" "unat b + 4 \<le> 2 ^ 32"
      using unat_page [OF assms(1,2,4)] unat_page [OF assms(1,3,5)] screen_size(2) [OF assms(1)] unfolding a_def b_def by linarith+
    then have "load_word (store_word a w (sysFb s)) b = load_word (sysFb s) b"
      by (rule load_store_word_apart [OF page_apart [OF assms False, folded a_def b_def]])
    then show ?thesis using False unfolding same old a_def [symmetric] by auto
  qed
qed

lemma copy_dot_copies:
  assumes "screen_ok s" "on_screen x y" "j < 3"
  shows "\<exists>s'. copy_dot j y x s = Inr s' \<and> copied s s' \<and> (dot s' x y = DISP_COLOR \<longrightarrow> page_dot s' j x y = DISP_COLOR)"
proof -
  have get: "get_out (place s x y) s = Inr (dot s x y)" using unat_place [OF assms(1,2)] by (simp add: get_out_def dot_def)
  define u where "u = s\<lparr>sysFb := store_word (of_nat j * outBuffSize s + place s x y) DISP_COLOR (sysFb s)\<rparr>"
  have c: "copy_dot j y x s = (if dot s x y = DISP_COLOR then Inr u else Inr s)"
    using put_fb_ok [OF assms, of DISP_COLOR] by (simp add: copy_dot_def place_def [symmetric] get Let_def u_def)
  have new: "page_dot u j' x' y' = (if (j', x', y') = (j, x, y) then DISP_COLOR else page_dot s j' x' y')"
    if "j' < 3" "on_screen x' y'" for j' x' y'
    unfolding u_def by (rule store_page_dot [OF assms(1,2) that(2) assms(3) that(1)])
  have "u = s\<lparr>sysFb := sysFb u\<rparr>" by (simp add: u_def)
  then have "copied s u" using new unfolding copied_def by simp
  then show ?thesis using c new [OF assms(3,2)] by (cases "dot s x y = DISP_COLOR") auto
qed

lemma pages_copied:
  assumes "screen_ok s"
  shows "\<exists>s'. copy_pages s = Inr s' \<and> copied s s' \<and>
    (\<forall>j<3. \<forall>x y. on_screen x y \<longrightarrow> dot s x y = DISP_COLOR \<longrightarrow> page_dot s' j x y = DISP_COLOR)"
proof -
  define Q where "Q j y x t \<longleftrightarrow> (dot t x y = DISP_COLOR \<longrightarrow> page_dot t j x y = DISP_COLOR)" for j y x t
  have keep: "Q j y x u" if "Q j y x t" "copied t u" "j < 3" "on_screen x y" for j y x t u
    using that copied_fields(2) [OF that(2)] copied_page [OF that(2-4)] unfolding Q_def by simp
  have row: "\<exists>t'. foldE (copy_dot j y) [0..<1024] t = Inr t' \<and> copied t t' \<and> (\<forall>x\<in>set [0..<1024]. Q j y x t')"
    if "screen_ok t" "j < 3" "y < 600" for t j y
  proof (rule foldE_copies)
    fix x u
    assume "x \<in> set [0..<1024]" "copied t u"
    then show "\<exists>t'. copy_dot j y x u = Inr t' \<and> copied u t' \<and> Q j y x t'"
      unfolding Q_def by (intro copy_dot_copies) (use that copied_fields(1) [OF \<open>copied t u\<close>] in auto)
  qed (use that keep in auto)
  have page: "\<exists>t'. foldE (\<lambda>y. foldE (copy_dot j y) [0..<1024]) [0..<600] t = Inr t' \<and> copied t t' \<and>
      (\<forall>y\<in>set [0..<600]. \<forall>x\<in>set [0..<1024]. Q j y x t')" if "screen_ok t" "j < 3" for t j
  proof (rule foldE_copies)
    fix y u
    assume "y \<in> set [0..<600]" "copied t u"
    then show "\<exists>t'. foldE (copy_dot j y) [0..<1024] u = Inr t' \<and> copied u t' \<and> (\<forall>x\<in>set [0..<1024]. Q j y x t')"
      by (intro row) (use that copied_fields(1) [OF \<open>copied t u\<close>] in auto)
  qed (use that keep in auto)
  have "\<exists>s'. foldE (\<lambda>j. foldE (\<lambda>y. foldE (copy_dot j y) [0..<1024]) [0..<600]) [0..<3] s = Inr s' \<and> copied s s' \<and>
      (\<forall>j\<in>set [0..<3]. \<forall>y\<in>set [0..<600]. \<forall>x\<in>set [0..<1024]. Q j y x s')"
  proof (rule foldE_copies)
    fix j u
    assume "j \<in> set [0..<3]" "copied s u"
    then show "\<exists>t'. foldE (\<lambda>y. foldE (copy_dot j y) [0..<1024]) [0..<600] u = Inr t' \<and> copied u t' \<and>
        (\<forall>y\<in>set [0..<600]. \<forall>x\<in>set [0..<1024]. Q j y x t')"
      by (intro page) (use assms copied_fields(1) [OF \<open>copied s u\<close>] in auto)
  next
    fix j t u
    assume a: "j \<in> set [0..<3]" "\<forall>y\<in>set [0..<600]. \<forall>x\<in>set [0..<1024]. Q j y x t" "copied t u"
    show "\<forall>y\<in>set [0..<600]. \<forall>x\<in>set [0..<1024]. Q j y x u"
    proof (intro ballI)
      fix y x
      assume "y \<in> set [0..<600]" "x \<in> set [0..<1024]"
      then show "Q j y x u" by (intro keep [of j y x t u]) (use a in auto)
    qed
  qed
  then obtain s' where s': "copy_pages s = Inr s'" "copied s s'"
      "\<forall>j\<in>set [0..<3]. \<forall>y\<in>set [0..<600]. \<forall>x\<in>set [0..<1024]. Q j y x s'"
    unfolding copy_pages_def numbers_of_screen by blast
  then show ?thesis using copied_fields(2) [OF s'(2)] unfolding Q_def by auto
qed

section \<open>A line of text\<close>

text \<open>Characters stand seven dots apart: the eighth column of each but the last is hidden by the next.\<close>

definition line_dots :: "gui \<Rightarrow> byte list \<Rightarrow> nat \<Rightarrow> nat \<Rightarrow> nat \<Rightarrow> u32 option" where
  "line_dots s msg y0 x y =
     (let k = if x = 7 * length msg then length msg - 1 else x div 7 in
      if msg \<noteq> [] \<and> y0 \<le> y \<and> y < y0 + 8 \<and> x \<le> 7 * length msg
      then Some (glyph_dot (FONT8x8ASCII ! ascii_index (msg ! k) ! (y - y0)) (x - 7 * k) s) else None)"

lemma line_dots_snoc:
  "line_dots s (msg @ [c]) y0 = over (line_dots s msg y0) (glyph_dots s (FONT8x8ASCII ! ascii_index c) 8 8 (7 * length msg) y0)"
proof (intro ext)
  fix x y
  define n where "n = length msg"
  consider "x < 7 * n" | "7 * n \<le> x" "x < 7 * n + 7" | "x = 7 * n + 7" | "7 * n + 7 < x" by linarith
  then show "line_dots s (msg @ [c]) y0 x y =
    over (line_dots s msg y0) (glyph_dots s (FONT8x8ASCII ! ascii_index c) 8 8 (7 * length msg) y0) x y"
  proof cases
    case 1
    then have "x div 7 < n" by (simp add: div_less_iff_less_mult mult.commute)
    then show ?thesis using 1 by (auto simp: line_dots_def over_def glyph_dots_def Let_def n_def nth_append)
  next
    case 2
    then have "x div 7 = n" by (intro div_nat_eqI) (simp_all add: mult.commute)
    then show ?thesis using 2 by (auto simp: line_dots_def over_def glyph_dots_def Let_def n_def nth_append)
  qed (auto simp: line_dots_def over_def glyph_dots_def Let_def n_def nth_append)
qed

lemma printf_char:
  assumes "screen_ok s" "cur_area s = 0" "lcd_x s = int x0" "lcd_y s = int y0" "x0 \<le> 1016" "y0 \<le> 592" "0x20 \<le> ch"
  shows "\<exists>t. GUI_Printf ch s = Inr (t\<lparr>lcd_x := int (x0 + 7)\<rparr>) \<and> drawn s t \<and>
    (\<forall>x y. on_screen x y \<longrightarrow> dot t x y =
      (case glyph_dots s (FONT8x8ASCII ! ascii_index ch) 8 8 x0 y0 x y of Some c \<Rightarrow> c | None \<Rightarrow> dot s x y))"
proof -
  have "ch \<noteq> 13" "ch \<noteq> 10" using assms(7) by auto
  moreover have "wrap_line s = s" using assms by (simp add: wrap_line_def AREA_WIDTH_def AREA_NUM_def)
  moreover have "next_area s = Inr s" using assms by (simp add: next_area_def AREA_HEIGHT_def)
  ultimately have p: "GUI_Printf ch s =
      bindE (GUI_PutChar8_8 (of_nat x0) (of_nat y0) ch s) (\<lambda>(_, s'). Inr (s'\<lparr>lcd_x := lcd_x s' + 7\<rparr>))"
    using assms(3,4) by (simp add: GUI_Printf_def)
  obtain t where t: "GUI_PutChar8_8 (of_nat x0) (of_nat y0) ch s = Inr (1, t)" "drawn s t"
      "\<forall>x y. on_screen x y \<longrightarrow> dot t x y =
        (case glyph_dots s (FONT8x8ASCII ! ascii_index ch) 8 8 x0 y0 x y of Some c \<Rightarrow> c | None \<Rightarrow> dot s x y)"
    using put_char_paints [OF assms(1,5,6)] by blast
  have "lcd_x t + 7 = int (x0 + 7)" using drawn_fields(5) [OF t(2)] assms(3) by simp
  then show ?thesis using t unfolding p by auto
qed

lemma line_shown:
  assumes "screen_ok s" "cur_area s = 0" "lcd_x s = 0" "lcd_y s = int y0" "y0 \<le> 592"
  shows "length msg \<le> 146 \<Longrightarrow> \<forall>c\<in>set msg. 0x20 \<le> c \<Longrightarrow>
    \<exists>s'. foldE GUI_Printf msg s = Inr s' \<and> screen_ok s' \<and> cur_area s' = 0 \<and> lcd_x s' = int (7 * length msg) \<and> lcd_y s' = int y0 \<and>
      (\<forall>d j. glyph_dot d j s' = glyph_dot d j s) \<and>
      (\<forall>x y. on_screen x y \<longrightarrow> dot s' x y = (case line_dots s msg y0 x y of Some c \<Rightarrow> c | None \<Rightarrow> dot s x y))"
proof (induction msg rule: rev_induct)
  case Nil
  then show ?case using assms by (simp add: line_dots_def)
next
  case (snoc c msg)
  then obtain t where t: "foldE GUI_Printf msg s = Inr t" "screen_ok t" "cur_area t = 0" "lcd_x t = int (7 * length msg)" "lcd_y t = int y0"
      "\<And>d j. glyph_dot d j t = glyph_dot d j s"
      "\<And>x y. on_screen x y \<Longrightarrow> dot t x y = (case line_dots s msg y0 x y of Some c \<Rightarrow> c | None \<Rightarrow> dot s x y)"
    by auto
  have "7 * length msg \<le> 1016" "0x20 \<le> c" using snoc.prems by simp_all
  then obtain u where u: "GUI_Printf c t = Inr (u\<lparr>lcd_x := int (7 * length msg + 7)\<rparr>)" "drawn t u"
      "\<And>x y. on_screen x y \<Longrightarrow> dot u x y =
        (case glyph_dots t (FONT8x8ASCII ! ascii_index c) 8 8 (7 * length msg) y0 x y of Some c \<Rightarrow> c | None \<Rightarrow> dot t x y)"
    using printf_char [OF t(2,3,4,5) _ assms(5)] by blast
  define v where "v = u\<lparr>lcd_x := int (7 * length msg + 7)\<rparr>"
  have v: "dot v = dot u" "screen_ok v = screen_ok u" "glyph_dot d j v = glyph_dot d j u" "cur_area v = cur_area u" "lcd_y v = lcd_y u"
      "lcd_x v = int (7 * length (msg @ [c]))" for d j
    by (simp_all add: v_def dot_def place_def fun_eq_iff screen_ok_def glyph_dot_def)
  have "glyph_dots t = glyph_dots s" using t(6) by (simp add: glyph_dots_def fun_eq_iff)
  then have "on_screen x y \<Longrightarrow> dot v x y = (case line_dots s (msg @ [c]) y0 x y of Some c \<Rightarrow> c | None \<Rightarrow> dot s x y)" for x y
    using u(3) [of x y] t(7) [of x y] by (simp add: v(1) line_dots_snoc over_def split: option.splits)
  moreover have "foldE GUI_Printf (msg @ [c]) s = Inr v" using t(1) u(1) by (simp add: foldE_append v_def)
  ultimately show ?case using v t drawn_fields(1,4,6,7) [OF u(2)] by auto
qed

lemma ui_prints:
  "\<forall>c\<in>set bs. c \<noteq> 0 \<Longrightarrow> foldE (\<lambda>c. lidbg_ui [c]) bs s = foldE GUI_Printf bs s"
proof (induction bs arbitrary: s)
  case (Cons c bs)
  then show ?case by (cases "GUI_Printf c s") (simp_all add: ui_one)
qed simp

section \<open>Properties\<close>

text \<open>
  (C38) On a screen of at least 1024 by 600 dots of 32 bits the thread stays in its buffers and in the pages whatever the file says, for
  any bytes and any number of reads, as long as none of them fails.
\<close>

theorem messages_stay_on_screen:
  assumes "screen_ok s" "None \<notin> set reads"
  shows "\<exists>s'. lidbg_gui_thread_funs reads s = Inr s' \<and> screen_ok s'"
  unfolding lidbg_gui_thread_funs_def
proof (rule foldE_returns [where P = screen_ok, OF _ assms(1)])
  fix r t
  assume "r \<in> set reads" "screen_ok t"
  then obtain bs where "r = Some bs" using assms(2) by (metis option.exhaust)
  then obtain u where u: "show_read r t = Inr u" "screen_ok u" using show_read_returns [OF \<open>screen_ok t\<close>] by blast
  obtain v where v: "copy_pages u = Inr v" "copied u v" using pages_copied [OF u(2)] by blast
  show "\<exists>s'. gui_round r t = Inr s' \<and> screen_ok s'" using u v copied_fields(1) [OF v(2)] by (simp add: gui_round_def)
qed

text \<open>
  The reference for a line of text: the font has eight rows for each character from the blank to 0x7f, the other characters are blank, and
  the dot in column \<open>k\<close> of a row is the bit \<open>7 - k\<close> of its byte: in the colour of the text when it is set, else in that of the
  background.
\<close>

definition font_dot :: "gui \<Rightarrow> byte \<Rightarrow> nat \<Rightarrow> nat \<Rightarrow> u32" where
  "font_dot s ch row k =
     (if bit (FONT8x8ASCII ! (if ch \<le> 0x7f then unat ch - 32 else 0) ! row) (7 - k) then disp_color s else back_color s)"

definition line_pixel :: "gui \<Rightarrow> byte list \<Rightarrow> nat \<Rightarrow> nat \<Rightarrow> nat \<Rightarrow> u32 option" where
  "line_pixel s msg y0 x y =
     (let k = min (x div 7) (length msg - 1) in
      if msg \<noteq> [] \<and> y0 \<le> y \<and> y < y0 + 8 \<and> x \<le> 7 * length msg then Some (font_dot s (msg ! k) (y - y0) (x - 7 * k)) else None)"

lemma glyph_dot_bit:
  assumes "j < 8"
  shows "glyph_dot d j s = (if bit d (7 - j) then disp_color s else back_color s)"
proof -
  have "DCB2HEX_TAB ! j = 2 ^ (7 - j)"
    using assms by (auto simp: DCB2HEX_TAB_def less_Suc_eq eval_nat_numeral)
  then show ?thesis by (simp add: glyph_dot_def and_exp_eq_0_iff_not_bit)
qed

lemma ascii_index_font: "0x20 \<le> ch \<Longrightarrow> ascii_index ch = (if ch \<le> 0x7f then unat ch - 32 else 0)"
  by (auto simp: ascii_index_def unat_sub not_less word_less_nat_alt word_le_nat_alt)

lemma line_pixel_dots:
  assumes "\<forall>c\<in>set msg. 0x20 \<le> c"
  shows "line_dots s msg y0 x y = line_pixel s msg y0 x y"
proof (cases "msg \<noteq> [] \<and> y0 \<le> y \<and> y < y0 + 8 \<and> x \<le> 7 * length msg")
  case True
  define k where "k = (if x = 7 * length msg then length msg - 1 else x div 7)"
  have n: "0 < length msg" using True by simp
  have k: "k < length msg" "x - 7 * k < 8" "k = min (x div 7) (length msg - 1)"
  proof -
    show "k < length msg" using True n by (auto simp: k_def div_less_iff_less_mult mult.commute)
    then show "k = min (x div 7) (length msg - 1)" by (auto simp: k_def)
    show "x - 7 * k < 8" using n by (auto simp: k_def algebra_simps minus_mult_div_eq_mod)
  qed
  have "0x20 \<le> msg ! k" using assms k(1) by simp
  then show ?thesis using True k
    unfolding line_dots_def line_pixel_def Let_def k_def [symmetric] k(3) [symmetric] font_dot_def
    by (simp add: glyph_dot_bit ascii_index_font)
qed (auto simp: line_dots_def line_pixel_def)

text \<open>
  (C37) A line of up to 146 characters from the blank on is shown as it is written: on a screen of at least 1024 by 600 dots of 32 bits
  (\<open>screen_ok\<close>), with the cursor at the left margin and no lower than row 592, so that the line fits on the screen, every dot of the
  picture is after the round the one of the font, in the colours of the text and the background, at seven dots for a character, or
  the one from before, and each of the three pages has the dots in the colour \<open>DISP_COLOR\<close>.
\<close>

theorem line_is_readable:
  assumes "screen_ok s" "cur_area s = 0" "lcd_x s = 0" "lcd_y s = int y0" "y0 \<le> 592"
    and "length line \<le> 146" "\<forall>c\<in>set line. 0x20 \<le> c"
  shows "\<exists>s'. gui_round (Some line) s = Inr s' \<and>
    (\<forall>x y. on_screen x y \<longrightarrow> dot s' x y = (case line_pixel s line y0 x y of Some c \<Rightarrow> c | None \<Rightarrow> dot s x y)) \<and>
    (\<forall>j<SYS_FB_NUM. \<forall>x y. on_screen x y \<longrightarrow> dot s' x y = DISP_COLOR \<longrightarrow> page_dot s' j x y = DISP_COLOR)"
proof -
  define t where "t = s\<lparr>rdBuff := line @ drop (length line) (rdBuff s)\<rparr>"
  have t: "screen_ok t" "cur_area t = 0" "lcd_x t = 0" "lcd_y t = int y0" "dot t = dot s" "line_dots t = line_dots s"
    using assms by (simp_all add: t_def dot_def place_def line_dots_def glyph_dot_def fun_eq_iff Let_def)
  obtain u where u: "foldE GUI_Printf line t = Inr u" "screen_ok u"
      "\<forall>x y. on_screen x y \<longrightarrow> dot u x y = (case line_dots s line y0 x y of Some c \<Rightarrow> c | None \<Rightarrow> dot s x y)"
    using line_shown [OF t(1-4) assms(5-7)] unfolding t(5,6) by blast
  have "c \<noteq> 0" if "c \<in> set line" for c using assms(7) that by force
  then have "show_read (Some line) s = Inr u" using u(1) by (simp add: show_read_def t_def [symmetric] ui_prints)
  moreover obtain v where v: "copy_pages u = Inr v" "copied u v"
      "\<forall>j<3. \<forall>x y. on_screen x y \<longrightarrow> dot u x y = DISP_COLOR \<longrightarrow> page_dot v j x y = DISP_COLOR"
    using pages_copied [OF u(2)] by blast
  ultimately show ?thesis using u(3) copied_fields(2) [OF v(2)] line_pixel_dots [OF assms(7), of s y0] by (simp add: gui_round_def)
qed

definition a_big_screen :: gui where
  "a_big_screen = \<lparr>bits_per_pixel = 32, xres = 1024, yres = 600, outBuff = (\<lambda>_. 0), sysFb = (\<lambda>_. 0), rdBuff = [], disp_color = DISP_COLOR,
     back_color = BACK_COLOR, lcd_x = 0, lcd_y = 16, cur_area = 0\<rparr>"

lemma a_big_screen_ok: "screen_ok a_big_screen"
  by (simp add: screen_ok_def a_big_screen_def)

theorem messages_stay_on_screen_witness:
  "\<exists>s'. lidbg_gui_thread_funs [Some [0x48, 10, 0], Some []] a_big_screen = Inr s' \<and> screen_ok s'"
  by (rule messages_stay_on_screen) (simp_all add: a_big_screen_ok)

theorem line_is_readable_witness:
  "\<exists>s'. gui_round (Some [0x48, 0x69]) a_big_screen = Inr s' \<and> dot s' 1 16 = DISP_COLOR \<and> dot s' 2 16 = BACK_COLOR"
proof -
  have h: "FONT8x8ASCII ! 40 ! 0 = 0xc6"
    by (simp add: FONT8x8ASCII_def font8_0_def font8_1_def font8_2_def font8_3_def)
  have "\<exists>s'. gui_round (Some [0x48, 0x69]) a_big_screen = Inr s' \<and>
    (\<forall>x y. on_screen x y \<longrightarrow> dot s' x y = (case line_pixel a_big_screen [0x48, 0x69] 16 x y of Some c \<Rightarrow> c | None \<Rightarrow> dot a_big_screen x y)) \<and>
    (\<forall>j<SYS_FB_NUM. \<forall>x y. on_screen x y \<longrightarrow> dot s' x y = DISP_COLOR \<longrightarrow> page_dot s' j x y = DISP_COLOR)"
    by (rule line_is_readable) (simp_all add: a_big_screen_ok, simp_all add: a_big_screen_def)
  moreover have "line_pixel a_big_screen [0x48, 0x69] 16 1 16 = Some DISP_COLOR" "line_pixel a_big_screen [0x48, 0x69] 16 2 16 = Some BACK_COLOR"
    by (simp_all add: line_pixel_def font_dot_def a_big_screen_def h bit_numeral_rec)
  ultimately show ?thesis by force
qed

section \<open>What goes wrong\<close>

text \<open>After the 146th character of a line the cursor stands right of where a character is drawn but not yet behind the area.\<close>

lemma character_147_lost:
  assumes "cur_area s = 0" "lcd_x s = 1022" "0 \<le> lcd_y s" "lcd_y s < 600" "ch \<noteq> 13" "ch \<noteq> 10"
  shows "GUI_Printf ch s = Inr (s\<lparr>lcd_x := 1029\<rparr>)"
proof -
  have "wrap_line s = s" using assms by (simp add: wrap_line_def AREA_WIDTH_def AREA_NUM_def)
  moreover have "next_area s = Inr s" using assms by (simp add: next_area_def AREA_HEIGHT_def)
  ultimately show ?thesis using assms by (simp add: GUI_Printf_def GUI_PutChar8_8_def)
qed

lemma failed_read_overruns:
  assumes "screen_ok s"
  shows "gui_round None s = Inl BufOverrun"
proof -
  have "\<exists>t. foldE (\<lambda>c. lidbg_ui [c]) (rdBuff s) s = Inr t \<and> screen_ok t"
    by (rule foldE_returns) (use assms printf_returns in \<open>auto simp: ui_one\<close>)
  then obtain t where "foldE (\<lambda>c. lidbg_ui [c]) (rdBuff s) s = Inr t" by blast
  then show ?thesis by (simp add: gui_round_def show_read_def)
qed

lemma point_faults: "GUI_Point x y c s = Inl f \<Longrightarrow> f = BufOverrun"
proof -
  have "put_fb l i c t = Inl f \<Longrightarrow> f = BufOverrun" for l i and t :: gui by (simp add: put_fb_def split: if_splits)
  then show "GUI_Point x y c s = Inl f \<Longrightarrow> f = BufOverrun"
    by (auto simp: GUI_Point_def GUI_PutPixel_def Let_def bindE_def put_out_def put_half_def split: if_splits sum.splits)
qed

lemma big_characters_overrun:
  assumes "x \<le> 992" "y \<le> 568"
  shows "GUI_PutChar24_32 x y ch s = Inl BufOverrun"
proof -
  define f where "f = big_dot (FONT24x32 ! length (takeWhile (\<lambda>c. c \<noteq> ch) (take 14 FONT24x32_TAB))) x y"
  have cases: "f p t = Inl BufOverrun \<or> (\<exists>u. f p t = Inr u)" for p t
  proof (cases "f p t")
    case (Inl e)
    then have "e = BufOverrun"
      by (auto simp: f_def big_dot_def Let_def bindE_def split: prod.splits if_splits sum.splits dest: point_faults)
    then show ?thesis using Inl by simp
  qed simp
  have "foldE f xs t = Inl BufOverrun" if "(0, 8) \<in> set xs" for xs t
    using that
  proof (induction xs arbitrary: t)
    case (Cons p xs)
    then show ?case using cases [of p t] by (cases "p = (0, 8)") (auto simp: f_def big_dot_def DCB2HEX_TAB_def split: prod.splits)
  qed simp
  moreover have "(0, 8) \<in> set (List.product [0..<32] [0..<24])" by simp
  ultimately show ?thesis using assms unfolding GUI_PutChar24_32_def f_def by (simp add: not_less Let_def)
qed

end
