(* ===== verification/Spec2Isabelle.thy ===== *)
theory Spec2Isabelle
  imports Lpc Trace_Msg Servicer Uart I2c Cmn Fs Gps_Driver Gps_Nmea Wakelock Ts_Event Acc Fastboot Input Console Helper Userver Upload Devices Powermanager Loader Misc Video_Config Fly_Camera Dsi83 Spi Test_Drivers Ts_Probe App_Cmd Fs_Kmsg Gt811_Update Gui_Log
begin

text \<open>
  A verification library for \<^verbatim>\<open>lidbg\<close>, the kernel modules and helper programs of a car head unit.

  \<^bold>\<open>The program.\<close>  The modules under \<^verbatim>\<open>core/\<close> offer the services the others use: access to registers, pins, I2C and a bit-banged
  serial port, a console behind a device node, logs, a key-value store read from configuration files, a channel to user space.  The
  drivers under \<^verbatim>\<open>drivers/\<close> run the board: the link to the micro controller, the GPS receiver, ignition and power-off, fan, USB and keys.
  The programs under \<^verbatim>\<open>hal/\<close> and \<^verbatim>\<open>host/\<close> are the other ends: the helper that runs commands for the kernel, the
  uevent server, the GPS library of Android, the upload of log files and its server, a decoder of log files.

  \<^bold>\<open>Theories and what they model.\<close>  Each definition has the name of the function it translates, or says in its text which
  part of a function it is.
    \<^item> \<open>Prelude\<close>, \<open>Kfifo\<close>: faults as the left side of a sum (\<open>bindE\<close>, \<open>foldE\<close>), the string functions of C, machine words, the kernel's byte queue.
    \<^item> \<open>Lpc\<close> (\<^verbatim>\<open>drivers/lpc\<close>): frames to and from the micro controller; the receiver as a function of one byte.
    \<^item> \<open>Mem_Log\<close>, \<open>Trace_Msg\<close> (\<^verbatim>\<open>core/lidbg_mem_log.c\<close>, \<^verbatim>\<open>lidbg_trace_msg.c\<close>): the log queues and the tracer of kernel messages.
    \<^item> \<open>Servicer\<close> (\<^verbatim>\<open>core/lidbg_servicer.c\<close>, \<^verbatim>\<open>lidbg_msg.c\<close>): the mailboxes to the helper program.  The locale \<open>bounded_channel\<close> states
      what a mailbox promises and is interpreted on the code's queue.
    \<^item> \<open>Mem\<close>, \<open>Uart\<close>, \<open>I2c\<close>, \<open>Input\<close> (\<^verbatim>\<open>core/lidbg_mem.c\<close>, \<^verbatim>\<open>lidbg_uart.c\<close>, \<^verbatim>\<open>lidbg_i2c.c\<close>, \<^verbatim>\<open>lidbg_key.c\<close>, \<^verbatim>\<open>lidbg_io.c\<close>, \<^verbatim>\<open>lidbg_ts.c\<close>): the hardware
      access layers; a memory, a pin with its time line, and an I2C chip are the other side.
    \<^item> \<open>Cmn\<close> (\<^verbatim>\<open>core/lidbg_cmn.c\<close>, \<^verbatim>\<open>lidbg_uevent.c\<close>): words of a line, the mount table, directories, starting programs.
    \<^item> \<open>KeyValue\<close>, \<open>Fs\<close> (\<^verbatim>\<open>core/lidbg_fs_*.c\<close>, \<^verbatim>\<open>lidbg_fileserver_main.c\<close>, \<^verbatim>\<open>host/lidbg_decode\<close>): configuration lists; files as a map from paths to contents,
      log files with a size limit, copying, encoding and its decoder.
    \<^item> \<open>Console\<close> (\<^verbatim>\<open>core/lidbg.c\<close>, \<^verbatim>\<open>lidbg_cmd.c\<close>): the command table, whose entries are the handlers of the theories above.
    \<^item> \<open>Wakelock\<close>, \<open>Ts_Event\<close> (\<^verbatim>\<open>core/lidbg_wakelock_stat.c\<close>, \<^verbatim>\<open>lidbg_ts_event.c\<close>): wake lock counts; passwords tapped into the corners of the screen.
    \<^item> \<open>Gps_Driver\<close>, \<open>Gps_Nmea\<close> (\<^verbatim>\<open>drivers/gps\<close>, \<^verbatim>\<open>hal/gpslib\<close>): the receiver's driver as a step relation over interleaved events; the sentence parser.
    \<^item> \<open>Pm_Common\<close>, \<open>Acc\<close>, \<open>Fastboot\<close> (\<^verbatim>\<open>drivers/acc\<close>, \<^verbatim>\<open>drivers/fastboot\<close>): ignition, suspend and power-off, and what the two drivers share.
    \<^item> \<open>Devices\<close> (\<^verbatim>\<open>drivers/devices\<close>): fan, USB port, LED, analog keys, sound muting.
    \<^item> \<open>Powermanager\<close> (\<^verbatim>\<open>drivers/powermanager\<close>): wakeup sources of the kernel, the observer of the sleep, the commands of its node.
    \<^item> \<open>Loader\<close> (\<^verbatim>\<open>core/lidbg_loader.c\<close>, \<^verbatim>\<open>drivers/interface\<close>): the loading of the modules as a step relation over two loaders and user space.
    \<^item> \<open>Misc\<close> (\<^verbatim>\<open>core/lidbg_misc.c\<close>): the update from a USB disk, lists of commands, what the passwords start.
    \<^item> \<open>Video_I2c\<close>, \<open>Video_Port\<close> (\<^verbatim>\<open>drivers/videoin/i2c_io.c\<close>): the serial bus of the video chips, bit by bit on two pins for the first boards and
      over \<open>I2c\<close> for the later ones.  The locale \<open>decoder_port\<close> states what the driver above needs and is interpreted on both.
    \<^item> \<open>Tw9912\<close>, \<open>Tc358\<close>, \<open>Video_Config\<close> (\<^verbatim>\<open>drivers/videoin\<close>): the video decoder, the bridge behind it (locale \<open>bridge_port\<close>), and their common
      set-up: image settings, channels, the signal test, the device node.
    \<^item> \<open>Fly_Frame\<close>, \<open>Fly_Camera\<close> (\<^verbatim>\<open>hal/8x25q_camera/FlyCamera.cpp\<close>): what the camera library does with the pictures.  \<open>Fly_Frame\<close> has
      the searches for black lines and columns, each with the reference it is equivalent to; \<open>Fly_Camera\<close> the variables and operations,
      which reach the driver through the node (locale \<open>remembering_node\<close>, interpreted on the node of \<open>Video_Config\<close>).
    \<^item> \<open>Dsi83\<close> (\<^verbatim>\<open>drivers/dsi83\<close>): the bridge in front of the panel, over the kernel's I2C core (locale \<open>csr_chip\<close>); \<open>Spi\<close>
      (\<^verbatim>\<open>core/lidbg_spi.c\<close>): the SPI access layer; \<open>Test_Drivers\<close>: the pin tester, the button light and the printer of the modem's messages.
    \<^item> \<open>Ts_Probe\<close> (\<^verbatim>\<open>drivers/touchscreen/lidbg_ts_probe_new.c\<close>): the search for the touch screen controller and the request for its driver.
    \<^item> \<open>Gt811\<close> (\<^verbatim>\<open>drivers/touchscreen/gt811.c\<close>): the driver of the touch screen, from the frame of the controller to the reports to the input layer,
      the passwords of \<open>Ts_Event\<close> and the recovery mode; \<open>Gt811_Update\<close> its entry under \<^verbatim>\<open>/proc\<close> and the update of its firmware.
    \<^item> \<open>Gui_Font\<close>, \<open>Gui_Draw\<close>, \<open>Gui_Log\<close> (\<^verbatim>\<open>hal/lidbg_gui\<close>): the program that shows the kernel's messages on the screen: its fonts, dots and
      lines in the memory of the picture and the pages, the console and the thread.
    \<^item> \<open>App_Cmd\<close> (\<^verbatim>\<open>drivers/drivers_dbg\<close>, \<^verbatim>\<open>drivers/hal\<close>): the two nodes for commands of applications, over the states of most theories
      above, with the threads that the code numbers start and their interleavings.
    \<^item> \<open>Fs_Kmsg\<close> (\<^verbatim>\<open>core/lidbg_fs_log.c\<close>): the thread that copies the kernel's messages into a file.
    \<^item> \<open>Helper\<close>, \<open>Userver\<close>, \<open>Upload\<close> (\<^verbatim>\<open>hal/lidbg_servicer\<close>, \<^verbatim>\<open>hal/lidbg_userver\<close>, \<^verbatim>\<open>hal/client_mobile\<close>, \<^verbatim>\<open>host/server_pc\<close>): the user-space programs.

  \<^bold>\<open>How the code is represented.\<close>  A module's static variables and device structure are a record; an operation is a function from the record
  to the record, its error paths values of a sum or option type.  A read or write outside an array, a null pointer and a bad format are
  faults (\<open>Inl\<close>), so that a theorem with a result \<open>Inr\<close> also says that they do not happen.  Machine integers are words where they wrap.  A kernel
  thread is a function for one round of its loop, as it sleeps between rounds, or for one step of it where another thread may come between
  (the loaders, the GPS server, the log threads, the thermal thread); a completion is a counter.  Effects on the outside (keys, pins,
  shell commands, log lines) are collected in order.  What the kernel and Android decide (allocation, file contents, the time, what
  \<open>recv\<close> returns) are arguments.

  \<^bold>\<open>What the lemmas show.\<close>  Transport: frames, mailboxes, GPS bytes, uevents and uploaded files arrive unchanged and in order, or are lost exactly when
  the stated buffer is full; \<open>gps_end_to_end\<close> below, \<open>ignition_reaches_helper\<close>, \<open>shell_command_executed\<close> and \<open>upload_roundtrip\<close> follow data through two
  programs; \<open>lpc_command_roundtrip\<close> follows a command for the micro controller from its text to the frame, \<open>kmsg_followed\<close> the kernel's messages into their log,
  \<open>firmware_installed\<close> a firmware file into the touch screen controller, \<open>nodes_agree\<close> compares the two ways in which a code number reaches user space; \<open>picture_announced\<close> goes from the video chips to the helper program, and
  \<open>log_started_once\<close> covers the kernel and the helper.  State: invariants of the receiver, of the fan and of the touch slots under every operation; the wake lock list refines a map of
  counts, the I2C registry a map of buses.  The video driver stays well formed under
  all its operations, its settings loops equal a table look-up, and on a chip that answers the registers hold the table for the format found.
  The searches in a picture equal counts of its pixels, the picture is moved down until it is black on top or the limit is reached, and a frame without a
  signal is not shown; touches are reported on the screen only, and \<open>taps_reach_collector\<close> follows taps from the glass to the passwords;
  the counters on which the camera library's decisions rest are bounded in every history.
  A line on the screen is the nearest to the ideal one, printed text is shown as the font has it and never leaves the memory of the screen.
  Progress: the power-off ends whatever happens to the status it waits for, a blocked suspend is retried a bounded number of times and
  escalated, the driver of the screen that answers is requested until it is loaded.  Round trips: configuration files, I2C registers, serial bits, encoded log files, sentences.

  \<^bold>\<open>Bounds and termination.\<close>  No definition uses fuel.  Loops that the code ends by a counter recurse on it; those over a queue or a text
  recurse on its length, with a termination proof; loops over events of unknown length (threads) appear as their rounds.

  \<^bold>\<open>Not modelled.\<close>  Registration of devices and drivers, allocation of kernel objects, interrupt set-up and module glue have no state
  of their own.  The system on chip layer (\<^verbatim>\<open>soc/\<close>), the display and the interface tables are thin wrappers of kernel calls.  Of the camera
  libraries only \<^verbatim>\<open>FlyCamera.cpp\<close> and \<open>processPreviewFrame\<close> are the project's own; the rest and the volume daemon under \<^verbatim>\<open>hal/\<close> and the other touch screen drivers are vendored; the search for the
  touch screen on the first boards (\<^verbatim>\<open>lidbg_ts_probe.c\<close>) is an older variant of the modelled one.  The display
  test, the mapping of the frame buffer and the other user interface programs have no state of their own and only call the kernel or Qt.  Delays inside an operation (\<open>msleep\<close>) are not represented, and an
  operation is atomic unless its theory says otherwise.
\<close>

section \<open>From the receiver to the location service\<close>

text \<open>
  (C9) The sentences of the receiver reach the parser of the location service as they are: when the receiver sends lines of less than 83
  characters, however the driver's thread, its ioctls, its ignition events and the reads of the GPS library are interleaved, and however the
  bytes are split between the rounds and the reads, then the reader, from a state between two lines, ends in the state (or fault) that parsing these lines,
  one after the other, gives.  This is as long as the system is not suspended, what comes fits the queue, and the queue is empty at the
  start and at the end; no read overruns the library's buffer of 512 bytes.
\<close>

theorem gps_end_to_end:
  assumes "gps_fed d acts (concat (map (\<lambda>l. l @ [CHR 0x0A]) lines)) ss d'" "gps_ok d"
    and "kf_data (gps_data_fifo d) = []" "kf_data (gps_data_fifo d') = []"
    and "\<forall>l\<in>set lines. CHR 0x0A \<notin> set l \<and> length l < NMEA_MAX_SIZE" "\<not> overflow r" "in_buf r = []"
  shows "gps_data_event env (map Got ss) r = foldE (parse_line env) lines r"
proof -
  have "concat ss = concat (map (\<lambda>l. l @ [CHR 0x0A]) lines)" using gps_fed_stream [OF assms(1,2)] assms(3,4) by simp
  moreover have "\<forall>s\<in>set ss. length s \<le> 512" using gps_fed_short [OF assms(1,2)] by (simp add: HAL_BUF_SIZE_def)
  ultimately show ?thesis using data_event_eq [of ss env r] feed_lines [OF assms(6,7,5), of env] by simp
qed

text \<open>Two bytes of the receiver that are a line.\<close>

theorem gps_end_to_end_witness:
  "gps_fed gps_dev_run [two_bytes, Read] [CHR ''a'', CHR 0x0A] [[], [CHR ''a'', CHR 0x0A]] (snd (gps_read gps_dev_two)) \<and>
   gps_data_event sample_env [Got [], Got [CHR ''a'', CHR 0x0A]] (nmea_reader_init sample_env) = Inr (nmea_reader_init sample_env)"
proof -
  have ok: "gps_ok gps_dev_run" using gps_ok_start by (simp add: gps_ok_def gps_dev_run_def)
  have e: "kf_data (gps_data_fifo gps_dev_run) = []" by (simp add: gps_dev_run_def gps_dev_start_def)
  then have e': "kf_data (gps_data_fifo (snd (gps_read gps_dev_two))) = []"
    using gps_fed_stream [OF two_bytes_fed ok] by simp
  have f: "gps_fed gps_dev_run [two_bytes, Read] (concat (map (\<lambda>l. l @ [CHR 0x0A]) [''a''])) [[], [CHR ''a'', CHR 0x0A]] (snd (gps_read gps_dev_two))"
    using two_bytes_fed by simp
  from gps_end_to_end [OF f ok e e', of "nmea_reader_init sample_env" sample_env] two_bytes_fed show ?thesis
    by (simp add: parse_line_def nmea_reader_parse_def sample_defs Let_def NMEA_MAX_SIZE_def)
qed

end
